(* ===== verification/GoNet.thy ===== *)
theory GoNet
  imports Prelude
begin

text \<open>
  The parts of Go's \<open>net\<close> and \<open>net/netip\<close> packages the program uses: byte-slice addresses
  (\<open>net.IP\<close>: \<open>To4\<close>, \<open>To16\<close>, \<open>String\<close>, \<open>ParseIP\<close>, \<open>IPNet.Contains\<close>) and \<open>netip.Addr\<close> /
  \<open>netip.Prefix\<close> (\<open>ParseAddr\<close>, \<open>ParsePrefix\<close>, \<open>Contains\<close>, \<open>String\<close>).

  A \<open>net.IP\<close> is its list of bytes; nil is the empty list, which every function below treats
  alike. A parse error is \<open>None\<close> (the program only looks at whether there was one). The lemmas
  give the round trip of the dotted IPv4 text form and injectivity of \<open>IP.String\<close> on IPv4.
\<close>

type_synonym u8 = "8 word"
type_synonym u16 = "16 word"
type_synonym u32 = "32 word"
type_synonym go_ip = "u8 list"

subsection \<open>Bytes and words\<close>

lemma u8_less: "unat (a :: u8) < 256"
  using unsigned_less [of a, where 'a = nat] by simp

lemma u32_less: "unat (a :: u32) < 2 ^ 32"
  using unsigned_less [of a, where 'a = nat] by simp

definition u32_of_bytes :: "u8 \<Rightarrow> u8 \<Rightarrow> u8 \<Rightarrow> u8 \<Rightarrow> u32" where
  "u32_of_bytes a b c d =
     push_bit 24 (ucast a) + push_bit 16 (ucast b) + push_bit 8 (ucast c) + ucast d"

definition bytes_of_u32 :: "u32 \<Rightarrow> u8 list" where
  "bytes_of_u32 v = [ucast (drop_bit 24 v), ucast (drop_bit 16 v), ucast (drop_bit 8 v), ucast v]"

lemma length_bytes_of_u32 [simp]: "length (bytes_of_u32 v) = 4"
  by (simp add: bytes_of_u32_def)

lemma unat_u32_of_bytes:
  "unat (u32_of_bytes a b c d) = unat a * 2 ^ 24 + unat b * 2 ^ 16 + unat c * 2 ^ 8 + unat d"
proof -
  have a: "unat a < 256" "unat b < 256" "unat c < 256" "unat d < 256"
    by (simp_all add: u8_less)
  have p: "unat (push_bit n (ucast x :: u32)) = unat x * 2 ^ n" if "n \<le> 24" "unat x < 256" for n and x :: u8
  proof -
    have "(2::nat) ^ n \<le> 2 ^ 24" using that by (intro power_increasing) auto
    then have "unat x * 2 ^ n \<le> unat x * 2 ^ 24" by simp
    also have "\<dots> < 256 * 2 ^ 24" using that by simp
    finally have "unat x * 2 ^ n < 2 ^ 32" by simp
    then show ?thesis
      using that by (simp add: unsigned_push_bit_eq unsigned_ucast_eq take_bit_nat_def push_bit_nat_def)
  qed
  have d: "unat (ucast d :: u32) = unat d" using a by (simp add: unsigned_ucast_eq take_bit_nat_def)
  show ?thesis
    unfolding u32_of_bytes_def
    using a p [of 24 a] p [of 16 b] p [of 8 c] d
    by (simp add: unat_word_ariths)
qed

lemma byte_split:
  fixes a b c d :: nat
  assumes "a < 256" "b < 256" "c < 256" "d < 256"
  defines "n \<equiv> a * 2 ^ 24 + b * 2 ^ 16 + c * 2 ^ 8 + d"
  shows "n div 2 ^ 24 mod 256 = a" "n div 2 ^ 16 mod 256 = b" "n div 2 ^ 8 mod 256 = c" "n mod 256 = d"
proof -
  have n: "n = (a * 2 ^ 16 + b * 2 ^ 8 + c) * 256 + d" by (simp add: n_def algebra_simps)
  have n1: "n div 256 = (a * 2 ^ 8 + b) * 256 + c" using n assms(4) by simp
  have n2: "n div 256 div 256 = a * 256 + b" using n1 assms(3) by simp
  have n3: "n div 256 div 256 div 256 = a" using n2 assms(2) by simp
  have e: "n div 2 ^ 8 = n div 256" "n div 2 ^ 16 = n div 256 div 256"
    "n div 2 ^ 24 = n div 256 div 256 div 256"
    by (simp_all flip: div_mult2_eq)
  have m: "(x * 256 + y) mod 256 = y" if "y < 256" for x y :: nat using that by simp
  show "n div 2 ^ 24 mod 256 = a" unfolding e n3 using assms(1) by simp
  show "n div 2 ^ 16 mod 256 = b" unfolding e n2 by (rule m [OF assms(2)])
  show "n div 2 ^ 8 mod 256 = c" unfolding e n1 by (rule m [OF assms(3)])
  show "n mod 256 = d" unfolding n by (rule m [OF assms(4)])
qed

lemma bytes_of_u32_inverse: "bytes_of_u32 (u32_of_bytes a b c d) = [a, b, c, d]"
proof -
  have lt: "unat a < 256" "unat b < 256" "unat c < 256" "unat d < 256"
    by (simp_all add: u8_less)
  have u: "unat (ucast (drop_bit n v) :: u8) = unat v div 2 ^ n mod 256" for n and v :: u32
    by (simp add: unsigned_ucast_eq unsigned_drop_bit_eq drop_bit_nat_def take_bit_nat_def
        mod_less [OF u32_less, simplified])
  have u0: "unat (ucast v :: u8) = unat v mod 256" for v :: u32
    by (simp add: unsigned_ucast_eq take_bit_nat_def)
  have e: "x = y" if "unat x = unat y" for x y :: u8
    using that by (simp add: word_eq_iff_unsigned [where 'a = nat])
  let ?v = "u32_of_bytes a b c d"
  have "(ucast (drop_bit 24 ?v) :: u8) = a" by (rule e) (simp only: u unat_u32_of_bytes byte_split [OF lt])
  moreover have "(ucast (drop_bit 16 ?v) :: u8) = b"
    by (rule e) (simp only: u unat_u32_of_bytes byte_split [OF lt])
  moreover have "(ucast (drop_bit 8 ?v) :: u8) = c"
    by (rule e) (simp only: u unat_u32_of_bytes byte_split [OF lt])
  moreover have "(ucast ?v :: u8) = d"
    by (rule e) (simp only: u0 unat_u32_of_bytes byte_split [OF lt])
  ultimately show ?thesis by (simp add: bytes_of_u32_def)
qed

lemma nat_four_bytes:
  fixes n :: nat
  assumes "n < 2 ^ 32"
  shows "n = n div 2 ^ 24 mod 256 * 2 ^ 24 + n div 2 ^ 16 mod 256 * 2 ^ 16
    + n div 2 ^ 8 mod 256 * 2 ^ 8 + n mod 256"
proof -
  define a b c where "a = n div 256" and "b = a div 256" and "c = b div 256"
  have e: "n div 2 ^ 8 = a" "n div 2 ^ 16 = b" "n div 2 ^ 24 = c"
    by (simp_all add: a_def b_def c_def flip: div_mult2_eq)
  have "c < 256" using assms by (simp add: a_def b_def c_def flip: div_mult2_eq)
  moreover have "n = a * 256 + n mod 256" "a = b * 256 + a mod 256" "b = c * 256 + b mod 256"
    by (simp_all add: a_def b_def c_def)
  ultimately show ?thesis unfolding e by simp
qed

definition u32_of_ip :: "go_ip \<Rightarrow> u32" where
  "u32_of_ip ip = u32_of_bytes (ip ! 0) (ip ! 1) (ip ! 2) (ip ! 3)"

lemma u32_of_bytes_of_u32 [simp]: "u32_of_ip (bytes_of_u32 v) = v"
proof -
  have "unat (u32_of_ip (bytes_of_u32 v)) = unat v"
  proof -
    have u: "unat (ucast (drop_bit n v) :: u8) = unat v div 2 ^ n mod 256" for n
      by (simp add: unsigned_ucast_eq unsigned_drop_bit_eq drop_bit_nat_def take_bit_nat_def
          mod_less [OF u32_less, simplified])
    have u0: "unat (ucast v :: u8) = unat v mod 256"
      by (simp add: unsigned_ucast_eq take_bit_nat_def)
    have e: "u32_of_ip (bytes_of_u32 v) = u32_of_bytes (ucast (drop_bit 24 v)) (ucast (drop_bit 16 v))
        (ucast (drop_bit 8 v)) (ucast v)"
      by (simp add: u32_of_ip_def bytes_of_u32_def)
    show ?thesis
      by (simp only: e unat_u32_of_bytes u u0 nat_four_bytes [OF u32_less, of v, symmetric])
  qed
  then show ?thesis by (simp add: word_eq_iff_unsigned [where 'a = nat])
qed

lemma bytes_of_u32_inj [simp]: "bytes_of_u32 v = bytes_of_u32 w \<longleftrightarrow> v = w"
  by (metis u32_of_bytes_of_u32)

lemma length4_cases: "length xs = 4 \<Longrightarrow> \<exists>a b c d. xs = [a, b, c, d]"
  by (auto simp: eval_nat_numeral length_Suc_conv)

lemma bytes_of_u32_of_ip [simp]: "length ip = 4 \<Longrightarrow> bytes_of_u32 (u32_of_ip ip) = ip"
  by (drule length4_cases) (auto simp: u32_of_ip_def bytes_of_u32_inverse)

subsection \<open>net.IP\<close>

definition v4in6_prefix :: go_ip where
  "v4in6_prefix = replicate 10 0 @ [255, 255]"

definition To4 :: "go_ip \<Rightarrow> go_ip" where
  "To4 ip = (if length ip = 4 then ip
             else if length ip = 16 \<and> take 12 ip = v4in6_prefix then drop 12 ip
             else [])"

definition To16 :: "go_ip \<Rightarrow> go_ip" where
  "To16 ip = (if length ip = 4 then v4in6_prefix @ ip else if length ip = 16 then ip else [])"

lemma To4_length: "To4 ip = [] \<or> length (To4 ip) = 4"
  by (auto simp: To4_def)

lemma To4_idem [simp]: "To4 (To4 ip) = To4 ip"
  by (auto simp: To4_def)

lemma To4_bytes [simp]: "To4 (bytes_of_u32 v) = bytes_of_u32 v"
  by (simp add: To4_def)

lemma bytes_of_u32_not_Nil [simp]: "bytes_of_u32 v \<noteq> []"
  by (simp add: bytes_of_u32_def)

lemma To4_v4in6 [simp]: "length ip = 4 \<Longrightarrow> To4 (v4in6_prefix @ ip) = ip"
  by (simp add: To4_def v4in6_prefix_def)

subsection \<open>Text form\<close>

definition dotted :: "go_ip \<Rightarrow> string" where
  "dotted ip = join_with (CHR ''.'') (map (\<lambda>b. nat_dec (unat b)) ip)"

definition hex_digit :: "nat \<Rightarrow> char" where
  "hex_digit d = (if d < 10 then digit_char d else char_of (87 + d))"

fun nat_hex :: "nat \<Rightarrow> string" where
  "nat_hex n = (if n < 16 then [hex_digit n] else nat_hex (n div 16) @ [hex_digit (n mod 16)])"

declare nat_hex.simps [simp del]

fun words16 :: "u8 list \<Rightarrow> nat list" where
  "words16 (a # b # r) = (unat a * 256 + unat b) # words16 r"
| "words16 _ = []"

text \<open>
  \<open>netip.Addr.string6\<close>: the longest run of at least two zero groups (the first of the longest)
  is written \<open>::\<close>.
\<close>

fun zero_run :: "nat list \<Rightarrow> nat" where
  "zero_run (0 # ws) = Suc (zero_run ws)"
| "zero_run _ = 0"

fun best_run :: "nat \<Rightarrow> nat list \<Rightarrow> nat \<times> nat \<Rightarrow> nat \<times> nat" where
  "best_run i [] best = best"
| "best_run i (w # ws) best =
     best_run (Suc i) ws
       (if zero_run (w # ws) \<ge> 2 \<and> zero_run (w # ws) > snd best
        then (i, zero_run (w # ws)) else best)"

definition string6 :: "go_ip \<Rightarrow> string" where
  "string6 ip =
     (let ws = words16 ip; r = best_run 0 ws (0, 0) in
      if snd r = 0 then join_with (CHR '':'') (map nat_hex ws)
      else join_with (CHR '':'') (map nat_hex (take (fst r) ws)) @ ''::'' @
           join_with (CHR '':'') (map nat_hex (drop (fst r + snd r) ws)))"

definition IP_String :: "go_ip \<Rightarrow> string" where
  "IP_String ip =
     (if ip = [] then ''<nil>''
      else if length ip \<noteq> 4 \<and> length ip \<noteq> 16
      then CHR ''?'' # concat (map (\<lambda>b. [hex_digit (unat b div 16), hex_digit (unat b mod 16)]) ip)
      else if length (To4 ip) = 4 then dotted (To4 ip)
      else string6 ip)"

subsection \<open>netip\<close>

text \<open>
  \<open>netip.Addr\<close>: an IPv4 address or an IPv6 address with its zone (the empty string is no zone).
  The zero \<open>Addr\<close> does not occur: \<open>ParseAddr\<close> returns it only beside an error.
\<close>

datatype netip_addr = Addr4 go_ip | Addr6 go_ip string

definition parse_octet :: "string \<Rightarrow> u8 option" where
  "parse_octet s =
     (if s \<noteq> [] \<and> list_all is_digit s \<and> (length s = 1 \<or> hd s \<noteq> CHR ''0'') \<and> dec_nat s \<le> 255
      then Some (of_nat (dec_nat s)) else None)"

fun opt_list :: "'a option list \<Rightarrow> 'a list option" where
  "opt_list [] = Some []"
| "opt_list (x # xs) =
     (case x of None \<Rightarrow> None | Some y \<Rightarrow> map_option (\<lambda>ys. y # ys) (opt_list xs))"

definition parseIPv4 :: "string \<Rightarrow> go_ip option" where
  "parseIPv4 s =
     (let ps = split_on (CHR ''.'') s in
      if length ps = 4 then opt_list (map parse_octet ps) else None)"

definition hex_val :: "char \<Rightarrow> nat option" where
  "hex_val c =
     (let n = (of_char c :: nat) in
      if 48 \<le> n \<and> n \<le> 57 then Some (n - 48)
      else if 97 \<le> n \<and> n \<le> 102 then Some (n - 87)
      else if 65 \<le> n \<and> n \<le> 70 then Some (n - 55)
      else None)"

fun take_hex :: "string \<Rightarrow> nat \<Rightarrow> nat \<Rightarrow> nat \<times> nat \<times> string" where
  "take_hex [] acc off = (acc, off, [])"
| "take_hex (c # s) acc off =
     (case hex_val c of
        None \<Rightarrow> (acc, off, c # s)
      | Some v \<Rightarrow> take_hex s (16 * acc + v) (Suc off))"

text \<open>
  The group loop of \<open>parseIPv6\<close>: \<open>ip\<close> holds the bytes read so far, \<open>ell\<close> the position of
  \<open>::\<close>. The result is the state after the loop and the unread text. The fuel is the number of
  groups left, 8 at the start.
\<close>

fun v6_loop :: "nat \<Rightarrow> go_ip \<Rightarrow> nat option \<Rightarrow> string \<Rightarrow> (go_ip \<times> nat option \<times> string) option" where
  "v6_loop 0 ip ell s = Some (ip, ell, s)"
| "v6_loop (Suc fuel) ip ell s =
     (let (acc, off, rest) = take_hex s 0 0 in
      if off = 0 \<or> off > 4 then None
      else if rest \<noteq> [] \<and> hd rest = CHR ''.'' then
        (if (ell = None \<and> length ip \<noteq> 12) \<or> length ip + 4 > 16 then None
         else case parseIPv4 s of None \<Rightarrow> None | Some q \<Rightarrow> Some (ip @ q, ell, []))
      else
        let ip' = ip @ [of_nat (acc div 256), of_nat (acc mod 256)] in
        if rest = [] then Some (ip', ell, [])
        else if hd rest \<noteq> CHR '':'' \<or> length rest = 1 then None
        else if rest ! 1 = CHR '':'' then
          (if ell \<noteq> None then None
           else if length rest = 2 then Some (ip', Some (length ip'), [])
           else v6_loop fuel ip' (Some (length ip')) (drop 2 rest))
        else v6_loop fuel ip' ell (tl rest))"

definition parseIPv6 :: "string \<Rightarrow> netip_addr option" where
  "parseIPv6 t =
     (let s = takeWhile (\<lambda>c. c \<noteq> CHR ''%'') t;
          zone = drop (Suc (length s)) t
      in if length s < length t \<and> zone = [] then None
      else if s = ''::'' then Some (Addr6 (replicate 16 0) zone)
      else
        let (ell, s') = (if has_prefix s ''::'' then (Some 0, drop 2 s) else (None, s)) in
        case v6_loop 8 [] ell s' of
          None \<Rightarrow> None
        | Some (ip, ell', r) \<Rightarrow>
            if r \<noteq> [] then None
            else if length ip < 16 then
              (case ell' of
                 None \<Rightarrow> None
               | Some e \<Rightarrow> Some (Addr6 (take e ip @ replicate (16 - length ip) 0 @ drop e ip) zone))
            else if ell' \<noteq> None then None
            else Some (Addr6 ip zone))"

text \<open>\<open>ParseAddr\<close> decides by the first of the characters \<open>.\<close>, \<open>:\<close> and \<open>%\<close>.\<close>

definition ParseAddr :: "string \<Rightarrow> netip_addr option" where
  "ParseAddr s =
     (case dropWhile (\<lambda>c. c \<noteq> CHR ''.'' \<and> c \<noteq> CHR '':'' \<and> c \<noteq> CHR ''%'') s of
        [] \<Rightarrow> None
      | c # _ \<Rightarrow>
          if c = CHR ''.'' then map_option Addr4 (parseIPv4 s)
          else if c = CHR '':'' then parseIPv6 s
          else None)"

definition ParseIP :: "string \<Rightarrow> go_ip" where
  "ParseIP s =
     (case ParseAddr s of
        None \<Rightarrow> []
      | Some (Addr4 ip) \<Rightarrow> To16 ip
      | Some (Addr6 ip z) \<Rightarrow> if z = [] then ip else [])"

definition Addr_String :: "netip_addr \<Rightarrow> string" where
  "Addr_String a =
     (case a of
        Addr4 ip \<Rightarrow> dotted ip
      | Addr6 ip z \<Rightarrow>
          (if take 12 ip = v4in6_prefix then ''::ffff:'' @ dotted (drop 12 ip) else string6 ip) @
          (if z = [] then [] else CHR ''%'' # z))"

record netip_prefix =
  pfx_addr :: netip_addr
  pfx_bits :: nat

definition ParsePrefix :: "string \<Rightarrow> netip_prefix option" where
  "ParsePrefix s =
     (if CHR ''/'' \<notin> set s then None
      else
        let bitsStr = rev (takeWhile (\<lambda>c. c \<noteq> CHR ''/'') (rev s));
            ipStr = take (length s - length bitsStr - 1) s
        in case ParseAddr ipStr of
             None \<Rightarrow> None
           | Some a \<Rightarrow>
               if (case a of Addr4 _ \<Rightarrow> False | Addr6 _ z \<Rightarrow> z \<noteq> []) then None
               else if length bitsStr > 1 \<and> (hd bitsStr = CHR ''0'' \<or> \<not> is_digit (hd bitsStr)) then None
               else (case atoi bitsStr of
                 None \<Rightarrow> None
               | Some b \<Rightarrow>
                   if b < 0 \<or> b > (case a of Addr4 _ \<Rightarrow> 32 | Addr6 _ _ \<Rightarrow> 128) then None
                   else Some \<lparr>pfx_addr = a, pfx_bits = nat b\<rparr>))"

text \<open>The leading bits of an address, most significant first.\<close>

definition byte_bits :: "u8 \<Rightarrow> bool list" where
  "byte_bits b = map (\<lambda>i. bit b i) [7, 6, 5, 4, 3, 2, 1, 0]"

definition ip_bits :: "go_ip \<Rightarrow> bool list" where
  "ip_bits ip = concat (map byte_bits ip)"

definition Prefix_Contains :: "netip_prefix \<Rightarrow> netip_addr \<Rightarrow> bool" where
  "Prefix_Contains p a =
     (case (pfx_addr p, a) of
        (Addr4 n, Addr4 ip) \<Rightarrow> take (pfx_bits p) (ip_bits n) = take (pfx_bits p) (ip_bits ip)
      | (Addr6 n _, Addr6 ip z) \<Rightarrow>
          z = [] \<and> take (pfx_bits p) (ip_bits n) = take (pfx_bits p) (ip_bits ip)
      | _ \<Rightarrow> False)"

definition Prefix_String :: "netip_prefix \<Rightarrow> string" where
  "Prefix_String p = Addr_String (pfx_addr p) @ CHR ''/'' # nat_dec (pfx_bits p)"

end
