(* ===== verification/DomainTrie.thy ===== *)
theory DomainTrie
  imports Prelude
begin

text \<open>
  The domain trie of \<open>src/pkg/clash/component/trie/\<close> (\<open>domain.go\<close>, \<open>node.go\<close>): domain patterns
  stored label by label from the right, with the wildcards \<open>*\<close> (one label), a leading dot (one
  or more labels) and \<open>+\<close> (zero or more labels). \<open>DNS-MAP\<close> rules and the fake-ip filter search it.

  The abstraction of a trie is its set of paths that carry data (\<open>data_at\<close>); \<open>Search\<close> finds a
  node exactly when one of the inserted patterns matches the domain (\<open>pattern_match\<close>).
  A node's \<open>Data\<close> (Go \<open>any\<close>) is an option, nil is \<open>None\<close>; a nil child pointer is \<open>None\<close>.
\<close>

subsection \<open>Nodes\<close>

datatype 'a node = Node (node_Data: "'a option") (node_children: "string \<Rightarrow> 'a node option")

definition newNode :: "'a option \<Rightarrow> 'a node" where
  "newNode data = Node data Map.empty"

definition getChild :: "'a node \<Rightarrow> string \<Rightarrow> 'a node option" where
  "getChild n s = node_children n s"

definition hasChild :: "'a node \<Rightarrow> string \<Rightarrow> bool" where
  "hasChild n s = (getChild n s \<noteq> None)"

definition addChild :: "'a node \<Rightarrow> string \<Rightarrow> 'a node \<Rightarrow> 'a node" where
  "addChild n s child = Node (node_Data n) ((node_children n)(s \<mapsto> child))"

subsection \<open>The trie\<close>

record 'a domain_trie =
  root :: "'a node"

definition wildcard :: string where "wildcard = ''*''"
definition dotWildcard :: string where "dotWildcard = ''''"
definition complexWildcard :: string where "complexWildcard = ''+''"
definition domainStep :: char where "domainStep = CHR ''.''"

datatype trie_error = ErrInvalidDomain

definition Trie_New :: "'a domain_trie" where
  "Trie_New = \<lparr>root = newNode None\<rparr>"

text \<open>\<open>None\<close> is the result \<open>nil, false\<close>.\<close>

definition ValidAndSplitDomain :: "string \<Rightarrow> string list option" where
  "ValidAndSplitDomain domain =
     (if domain \<noteq> [] \<and> last domain = CHR ''.'' then None
      else
        let parts = split_on domainStep domain in
        if length parts = 1 then (if hd parts = [] then None else Some parts)
        else if [] \<in> set (tl parts) then None
        else Some parts)"

text \<open>
  \<open>insert\<close> walks from the last label to the first, creating missing children, and sets the
  \<open>Data\<close> of the node it ends at; \<open>insert_rev\<close> is that walk on the reversed list of labels.
\<close>

fun insert_rev :: "string list \<Rightarrow> 'a option \<Rightarrow> 'a node \<Rightarrow> 'a node" where
  "insert_rev [] data node = Node data (node_children node)"
| "insert_rev (part # parts) data node =
     (let child = (if hasChild node part then the (getChild node part) else newNode None)
      in addChild node part (insert_rev parts data child))"

definition trie_insert :: "string list \<Rightarrow> 'a option \<Rightarrow> 'a domain_trie \<Rightarrow> 'a domain_trie" where
  "trie_insert parts data t = \<lparr>root = insert_rev (rev parts) data (root t)\<rparr>"

definition Trie_Insert ::
  "string \<Rightarrow> 'a option \<Rightarrow> 'a domain_trie \<Rightarrow> trie_error + 'a domain_trie" where
  "Trie_Insert domain data t =
     (case ValidAndSplitDomain domain of
        None \<Rightarrow> Inl ErrInvalidDomain
      | Some parts \<Rightarrow>
          if hd parts = complexWildcard
          then Inr (trie_insert (dotWildcard # tl parts) data (trie_insert (tl parts) data t))
          else Inr (trie_insert parts data t))"

text \<open>\<open>n != nil && n.Data != nil\<close>.\<close>

definition found :: "'a node option \<Rightarrow> bool" where
  "found n = (case n of None \<Rightarrow> False | Some m \<Rightarrow> node_Data m \<noteq> None)"

fun search_rev :: "'a node \<Rightarrow> string list \<Rightarrow> 'a node option" where
  "search_rev node [] = Some node"
| "search_rev node (part # parts) =
     (let n1 = (case getChild node part of None \<Rightarrow> None | Some c \<Rightarrow> search_rev c parts) in
      if found n1 then n1
      else
        let n2 = (case getChild node wildcard of None \<Rightarrow> None | Some c \<Rightarrow> search_rev c parts) in
        if found n2 then n2
        else getChild node dotWildcard)"

definition Trie_Search :: "string \<Rightarrow> 'a domain_trie \<Rightarrow> 'a node option" where
  "Trie_Search domain t =
     (case ValidAndSplitDomain domain of
        None \<Rightarrow> None
      | Some parts \<Rightarrow>
          if hd parts = [] then None
          else
            let n = search_rev (root t) (rev parts) in
            if found n then n else None)"

subsection \<open>Abstraction: the paths that carry data\<close>

fun data_at :: "'a node \<Rightarrow> string list \<Rightarrow> 'a option" where
  "data_at n [] = node_Data n"
| "data_at n (p # ps) = (case getChild n p of None \<Rightarrow> None | Some c \<Rightarrow> data_at c ps)"

lemma getChild_newNode [simp]: "getChild (newNode d) s = None"
  by (simp add: getChild_def newNode_def)

lemma getChild_addChild [simp]:
  "getChild (addChild n s c) t = (if t = s then Some c else getChild n t)"
  by (simp add: getChild_def addChild_def)

lemma node_Data_addChild [simp]: "node_Data (addChild n s c) = node_Data n"
  by (simp add: addChild_def)

lemma getChild_set_Data [simp]: "getChild (Node d (node_children n)) s = getChild n s"
  by (simp add: getChild_def)

lemma data_at_newNode [simp]: "data_at (newNode None) ps = None"
  by (cases ps) (auto simp: newNode_def getChild_def)

lemma data_at_insert_rev:
  "data_at (insert_rev ps x n) qs = (if qs = ps then x else data_at n qs)"
proof (induction ps arbitrary: n qs)
  case Nil
  show ?case by (cases qs) auto
next
  case (Cons p ps)
  show ?case
  proof (cases qs)
    case Nil
    then show ?thesis by (simp add: Let_def)
  next
    case (Cons q qs')
    then show ?thesis using Cons.IH
      by (auto simp: Let_def hasChild_def split: option.splits)
  qed
qed

text \<open>A reversed pattern against the reversed labels of a domain.\<close>

fun rev_match :: "string list \<Rightarrow> string list \<Rightarrow> bool" where
  "rev_match [] [] = True"
| "rev_match [] (d # ds) = False"
| "rev_match (p # ps) [] = False"
| "rev_match (p # ps) (d # ds) =
     (if p = dotWildcard then ps = [] else (p = d \<or> p = wildcard) \<and> rev_match ps ds)"

lemma found_None [simp]: "\<not> found None"
  by (simp add: found_def)

lemma found_Some [simp]: "found (Some n) \<longleftrightarrow> node_Data n \<noteq> None"
  by (simp add: found_def)

lemma rev_match_Cons_iff:
  "d \<noteq> dotWildcard \<Longrightarrow>
   (\<exists>ps. data_at n ps \<noteq> None \<and> rev_match ps (d # ds)) \<longleftrightarrow>
     (\<exists>c. getChild n d = Some c \<and> (\<exists>ps. data_at c ps \<noteq> None \<and> rev_match ps ds)) \<or>
     (\<exists>c. getChild n wildcard = Some c \<and> (\<exists>ps. data_at c ps \<noteq> None \<and> rev_match ps ds)) \<or>
     data_at n [dotWildcard] \<noteq> None"
    (is "?nd \<Longrightarrow> ?L \<longleftrightarrow> ?A \<or> ?B \<or> ?C")
proof -
  assume nd: ?nd
  have w: "wildcard \<noteq> dotWildcard" by (simp add: wildcard_def dotWildcard_def)
  have "?A \<or> ?B \<or> ?C" if ?L
  proof -
    from that obtain ps where ps: "data_at n ps \<noteq> None" "rev_match ps (d # ds)" by blast
    then obtain p qs where p: "ps = p # qs" by (cases ps) auto
    show ?thesis
    proof (cases "p = dotWildcard")
      case True
      then have "qs = []" using ps p by simp
      then show ?thesis using ps p True by blast
    next
      case False
      then have m: "p = d \<or> p = wildcard" "rev_match qs ds" using ps p by auto
      obtain c where "getChild n p = Some c" "data_at c qs \<noteq> None"
        using ps(1) p by (auto split: option.splits)
      then show ?thesis using m by blast
    qed
  qed
  moreover have ?L if ?A
  proof -
    from that obtain c ps where c: "getChild n d = Some c" "data_at c ps \<noteq> None" "rev_match ps ds"
      by blast
    then show ?thesis using nd by (intro exI [of _ "d # ps"]) auto
  qed
  moreover have ?L if ?B
  proof -
    from that obtain c ps where c: "getChild n wildcard = Some c" "data_at c ps \<noteq> None" "rev_match ps ds"
      by blast
    then show ?thesis using w by (intro exI [of _ "wildcard # ps"]) auto
  qed
  moreover have ?L if ?C
    using that by (intro exI [of _ "[dotWildcard]"]) auto
  ultimately show "?L \<longleftrightarrow> ?A \<or> ?B \<or> ?C" by blast
qed

lemma found_search_rev:
  fixes n :: "'a node"
  shows "dotWildcard \<notin> set ds \<Longrightarrow>
   found (search_rev n ds) \<longleftrightarrow> (\<exists>ps. data_at n ps \<noteq> None \<and> rev_match ps ds)"
proof (induction ds arbitrary: n)
  case Nil
  have "rev_match ps [] \<longleftrightarrow> ps = []" for ps by (cases ps) auto
  then show ?case by auto
next
  case (Cons d ds)
  then have d: "d \<noteq> dotWildcard" and m: "dotWildcard \<notin> set ds" by auto
  have IH: "found (search_rev n ds) \<longleftrightarrow> (\<exists>ps. data_at n ps \<noteq> None \<and> rev_match ps ds)" for n :: "'a node"
    by (rule Cons.IH [OF m])
  show ?case
    unfolding rev_match_Cons_iff [OF d] IH [symmetric]
    by (auto simp: Let_def split: option.splits)
qed

subsection \<open>Patterns\<close>

definition pattern_paths :: "string list \<Rightarrow> string list set" where
  "pattern_paths parts =
     (if hd parts = complexWildcard then {rev (tl parts), rev (dotWildcard # tl parts)}
      else {rev parts})"

text \<open>The pattern language of \<open>Insert\<close>, on the text of the pattern and of the domain.\<close>

definition pattern_match :: "string \<Rightarrow> string \<Rightarrow> bool" where
  "pattern_match pat domain =
     (\<exists>ps \<in> pattern_paths (split_on domainStep pat). rev_match ps (rev (split_on domainStep domain)))"

lemma ValidAndSplitDomain_Some:
  "ValidAndSplitDomain d = Some parts \<Longrightarrow> parts = split_on domainStep d \<and> [] \<notin> set (tl parts)"
proof -
  assume v: "ValidAndSplitDomain d = Some parts"
  obtain a as where e: "split_on domainStep d = a # as" by (cases "split_on domainStep d") auto
  show ?thesis using v unfolding ValidAndSplitDomain_def e Let_def by (auto split: if_splits)
qed

lemma Insert_data_at:
  assumes "Trie_Insert pat (Some x) t = Inr t'"
  shows "data_at (root t') ps \<noteq> None \<longleftrightarrow>
    ps \<in> pattern_paths (split_on domainStep pat) \<or> data_at (root t) ps \<noteq> None"
  using assms
  by (auto simp: Trie_Insert_def trie_insert_def pattern_paths_def data_at_insert_rev
      dest!: ValidAndSplitDomain_Some split: option.splits if_splits)

text \<open>A trie built by a list of insertions.\<close>

fun build :: "(string \<times> 'a) list \<Rightarrow> 'a domain_trie \<Rightarrow> trie_error + 'a domain_trie" where
  "build [] t = Inr t"
| "build ((pat, x) # ps) t =
     (case Trie_Insert pat (Some x) t of Inl e \<Rightarrow> Inl e | Inr t' \<Rightarrow> build ps t')"

lemma build_data_at:
  "build pxs t = Inr t' \<Longrightarrow>
   data_at (root t') ps \<noteq> None \<longleftrightarrow>
     (\<exists>pat \<in> fst ` set pxs. ps \<in> pattern_paths (split_on domainStep pat)) \<or>
     data_at (root t) ps \<noteq> None"
proof (induction pxs t rule: build.induct)
  case (1 t)
  then show ?case by simp
next
  case (2 pat x pxs t)
  then obtain t1 where t1: "Trie_Insert pat (Some x) t = Inr t1" and b: "build pxs t1 = Inr t'"
    by (auto split: sum.splits)
  show ?case using "2.IH" [OF t1 b] Insert_data_at [OF t1, of ps] by auto
qed

lemma Search_found:
  "Trie_Search d t \<noteq> None \<longleftrightarrow>
   (\<exists>parts. ValidAndSplitDomain d = Some parts \<and> hd parts \<noteq> [] \<and>
      (\<exists>ps. data_at (root t) ps \<noteq> None \<and> rev_match ps (rev parts)))"
proof (cases "ValidAndSplitDomain d")
  case None
  then show ?thesis by (simp add: Trie_Search_def)
next
  case (Some parts)
  show ?thesis
  proof (cases "hd parts = []")
    case True
    then show ?thesis using Some by (simp add: Trie_Search_def)
  next
    case False
    from ValidAndSplitDomain_Some [OF Some] have p: "parts \<noteq> []" "[] \<notin> set (tl parts)" by auto
    then have "dotWildcard \<notin> set (rev parts)"
      using False by (cases parts) (auto simp: dotWildcard_def)
    note f = found_search_rev [OF this, of "root t"]
    have "Trie_Search d t \<noteq> None \<longleftrightarrow> found (search_rev (root t) (rev parts))"
      using Some False by (auto simp: Trie_Search_def Let_def found_def split: option.splits)
    then show ?thesis using f Some False by simp
  qed
qed

lemma pattern_match_parts:
  "ValidAndSplitDomain d = Some parts \<Longrightarrow>
   pattern_match pat d \<longleftrightarrow>
     (\<exists>ps \<in> pattern_paths (split_on domainStep pat). rev_match ps (rev parts))"
  unfolding pattern_match_def by (drule ValidAndSplitDomain_Some) simp

text \<open>The main fact about the trie, for any list of insertions into an empty one.\<close>

lemma build_Search:
  assumes "build pxs Trie_New = Inr t"
  shows "Trie_Search d t \<noteq> None \<longleftrightarrow>
    (\<exists>parts. ValidAndSplitDomain d = Some parts \<and> hd parts \<noteq> []) \<and>
    (\<exists>pat \<in> fst ` set pxs. pattern_match pat d)"
proof -
  have d: "data_at (root t) ps \<noteq> None \<longleftrightarrow>
      (\<exists>pat \<in> fst ` set pxs. ps \<in> pattern_paths (split_on domainStep pat))" for ps
    using build_data_at [OF assms, of ps] by (simp add: Trie_New_def)
  show ?thesis
  proof (cases "ValidAndSplitDomain d")
    case None
    then show ?thesis by (simp add: Trie_Search_def)
  next
    case (Some parts)
    have "(\<exists>ps. data_at (root t) ps \<noteq> None \<and> rev_match ps (rev parts)) \<longleftrightarrow>
        (\<exists>pat \<in> fst ` set pxs. pattern_match pat d)"
      unfolding d pattern_match_parts [OF Some] by blast
    then show ?thesis using Some by (simp only: Search_found option.inject simp_thms) 
  qed
qed

text \<open>What \<open>+.suffix\<close> means: the suffix itself and every domain below it.\<close>

lemma rev_match_plain:
  "wildcard \<notin> set ps \<Longrightarrow> dotWildcard \<notin> set ps \<Longrightarrow> rev_match ps ds \<longleftrightarrow> ds = ps"
  by (induction ps ds rule: rev_match.induct) auto

lemma rev_match_dot:
  "wildcard \<notin> set ps \<Longrightarrow> dotWildcard \<notin> set ps \<Longrightarrow>
   rev_match (ps @ [dotWildcard]) ds \<longleftrightarrow> (\<exists>es. es \<noteq> [] \<and> ds = ps @ es)"
proof (induction ps arbitrary: ds)
  case Nil
  show ?case by (cases ds) auto
next
  case (Cons p ps)
  then show ?case by (cases ds) auto
qed


lemma search_rev_static:
  "data_at n ds = Some x \<Longrightarrow> \<exists>m. search_rev n ds = Some m \<and> node_Data m = Some x"
proof (induction ds arbitrary: n)
  case Nil
  then show ?case by simp
next
  case (Cons d ds)
  then obtain c where c: "getChild n d = Some c" "data_at c ds = Some x"
    by (auto split: option.splits)
  then obtain m where "search_rev c ds = Some m" "node_Data m = Some x" using Cons.IH by blast
  then show ?case using c by (simp add: Let_def)
qed

subsection \<open>Properties of the component\<close>

text \<open> C8. \<open>Search\<close> on a trie built from the empty one by any list of insertions returns a node
  (rather than nil) exactly for the well-formed domains that some inserted pattern matches.
\<close>

theorem Search_iff_pattern:
  assumes "build pxs Trie_New = Inr t"
  shows "Trie_Search d t \<noteq> None \<longleftrightarrow>
    (\<exists>parts. ValidAndSplitDomain d = Some parts \<and> hd parts \<noteq> []) \<and>
    (\<exists>pat \<in> fst ` set pxs. pattern_match pat d)"
  by (rule build_Search [OF assms])

theorem Search_iff_pattern_witness:
  "\<exists>t. build [(''+.example.com'', 1 :: nat), (''*.b.org'', 2)] Trie_New = Inr t \<and>
       Trie_Search ''www.example.com'' t \<noteq> None \<and> Trie_Search ''a.c.org'' t = None"
proof -
  obtain t :: "nat domain_trie" where
    t: "build [(''+.example.com'', 1), (''*.b.org'', 2)] Trie_New = Inr t"
    by (simp add: Trie_Insert_def ValidAndSplitDomain_def complexWildcard_def domainStep_def Let_def)
  have "Trie_Search ''www.example.com'' t \<noteq> None"
    unfolding Search_iff_pattern [OF t]
    by (simp add: ValidAndSplitDomain_def pattern_match_def pattern_paths_def complexWildcard_def
        dotWildcard_def wildcard_def domainStep_def Let_def)
  moreover have "Trie_Search ''a.c.org'' t = None"
    using Search_iff_pattern [OF t, of "''a.c.org''"]
    by (simp add: pattern_match_def pattern_paths_def complexWildcard_def
        dotWildcard_def wildcard_def domainStep_def)
  ultimately show ?thesis using t by blast
qed

text \<open>A pattern \<open>+.s\<close> with no wildcard in \<open>s\<close> matches \<open>s\<close> itself and exactly the domains whose
  last labels are those of \<open>s\<close>.
\<close>

theorem complex_wildcard_is_suffix:
  assumes "ValidAndSplitDomain d = Some parts"
    and "wildcard \<notin> set (split_on domainStep s)" and "[] \<notin> set (split_on domainStep s)"
  shows "pattern_match (''+.'' @ s) d \<longleftrightarrow> (\<exists>es. parts = es @ split_on domainStep s)"
proof -
  let ?ss = "split_on domainStep s"
  have sp: "split_on domainStep (''+.'' @ s) = complexWildcard # ?ss"
    by (simp add: domainStep_def complexWildcard_def)
  have w: "wildcard \<notin> set (rev ?ss)" "dotWildcard \<notin> set (rev ?ss)"
    using assms(2,3) by (simp_all add: dotWildcard_def)
  have "pattern_match (''+.'' @ s) d \<longleftrightarrow>
      rev_match (rev ?ss) (rev parts) \<or> rev_match (rev ?ss @ [dotWildcard]) (rev parts)"
    unfolding pattern_match_parts [OF assms(1)] pattern_paths_def sp by simp
  also have "\<dots> \<longleftrightarrow> rev parts = rev ?ss \<or> (\<exists>es. es \<noteq> [] \<and> rev parts = rev ?ss @ es)"
    using rev_match_plain [OF w] rev_match_dot [OF w] by simp
  also have "\<dots> \<longleftrightarrow> (\<exists>es. rev parts = rev ?ss @ es)" by auto
  also have "\<dots> \<longleftrightarrow> (\<exists>es. parts = es @ ?ss)" by (metis rev_append rev_rev_ident)
  finally show ?thesis .
qed

theorem complex_wildcard_is_suffix_witness:
  "pattern_match ''+.b.c'' ''a.b.c'' \<and> pattern_match ''+.b.c'' ''b.c''"
proof -
  have s: "wildcard \<notin> set (split_on domainStep ''b.c'')" "[] \<notin> set (split_on domainStep ''b.c'')"
    by (simp_all add: wildcard_def domainStep_def)
  have "ValidAndSplitDomain ''a.b.c'' = Some [''a'', ''b'', ''c'']"
    "ValidAndSplitDomain ''b.c'' = Some [''b'', ''c'']"
    by (simp_all add: ValidAndSplitDomain_def domainStep_def)
  from complex_wildcard_is_suffix [OF this(1) s] complex_wildcard_is_suffix [OF this(2) s]
  show ?thesis by (simp add: domainStep_def)
qed

text \<open>What two patterns with the same path have to do with each other.\<close>

lemma ValidAndSplitDomain_join: "ValidAndSplitDomain d = Some parts \<Longrightarrow> d = join_with domainStep parts"
  by (drule ValidAndSplitDomain_Some) simp

lemma plain_path:
  assumes "ValidAndSplitDomain d = Some parts" and "hd parts \<noteq> []" and "rev parts \<in> pattern_paths (split_on domainStep pat)"
  shows "pat = d \<or> pat = ''+.'' @ d"
proof -
  let ?ps = "split_on domainStep pat"
  obtain q qs where q: "?ps = q # qs" by (cases ?ps) simp_all
  have ne: "parts \<noteq> []" using ValidAndSplitDomain_Some [OF assms(1)] by auto
  have pat: "pat = join_with domainStep ?ps" by simp
  show ?thesis
  proof (cases "hd ?ps = complexWildcard \<and> parts = tl ?ps")
    case True
    then have "?ps = complexWildcard # parts" using q by simp
    then have "pat = join_with domainStep (complexWildcard # parts)" using pat by metis
    also have "\<dots> = ''+.'' @ d"
      using ne ValidAndSplitDomain_join [OF assms(1)] by (cases parts) (simp_all add: complexWildcard_def domainStep_def)
    finally show ?thesis by simp
  next
    case False
    moreover have "parts \<noteq> dotWildcard # tl ?ps" using assms(2) by (auto simp: dotWildcard_def)
    ultimately have "parts = ?ps"
      using assms(3) by (auto simp: pattern_paths_def simp del: rev.simps split: if_splits)
    then show ?thesis using pat ValidAndSplitDomain_join [OF assms(1)] by metis
  qed
qed

lemma build_keeps_data:
  "build ps t = Inr t' \<Longrightarrow> \<forall>(pat, y) \<in> set ps. path \<notin> pattern_paths (split_on domainStep pat) \<Longrightarrow>
     data_at (root t') path = data_at (root t) path"
proof (induction ps t rule: build.induct)
  case (2 pat y ps t)
  then obtain t1 where t1: "Trie_Insert pat (Some y) t = Inr t1" and b: "build ps t1 = Inr t'" by (auto split: sum.splits)
  have "data_at (root t1) path = data_at (root t) path"
    using t1 "2.prems"(2)
    by (auto simp: Trie_Insert_def trie_insert_def pattern_paths_def data_at_insert_rev
        dest!: ValidAndSplitDomain_Some split: option.splits if_splits)
  then show ?case using "2.IH" [OF t1 b] "2.prems"(2) by simp
qed simp

text \<open> C9. The static part has priority, and the last insertion of a domain counts: whatever the trie held, after an
  insertion of \<open>x\<close> for a plain domain \<open>d\<close> and any later insertions of other patterns, \<open>Search(d)\<close> returns the node that
  carries \<open>x\<close>. The pattern \<open>+.d\<close> is an insertion for \<open>d\<close> too.
\<close>

theorem Search_after_Insert:
  assumes "ValidAndSplitDomain d = Some parts" and "hd parts \<noteq> complexWildcard" and "hd parts \<noteq> []"
    and "build ((d, x) # later) t = Inr t'" and "\<forall>(pat, y) \<in> set later. pat \<noteq> d \<and> pat \<noteq> ''+.'' @ d"
  shows "\<exists>n. Trie_Search d t' = Some n \<and> node_Data n = Some x"
proof -
  obtain t1 where t1: "Trie_Insert d (Some x) t = Inr t1" and b: "build later t1 = Inr t'"
    using assms(4) by (auto split: sum.splits)
  have "t1 = trie_insert parts (Some x) t" using assms(1,2) t1 by (simp add: Trie_Insert_def)
  then have "data_at (root t1) (rev parts) = Some x" by (simp add: trie_insert_def data_at_insert_rev)
  moreover have "data_at (root t') (rev parts) = data_at (root t1) (rev parts)"
    by (rule build_keeps_data [OF b]) (use assms(5) plain_path [OF assms(1,3)] in blast)
  ultimately have "data_at (root t') (rev parts) = Some x" by simp
  from search_rev_static [OF this]
  obtain m where "search_rev (root t') (rev parts) = Some m" "node_Data m = Some x" by auto
  then show ?thesis using assms(1,3) by (simp add: Trie_Search_def)
qed

theorem Search_after_Insert_witness:
  "\<exists>t n. build [(''a.b'', 7 :: nat), (''c.b'', 1), (''+.b'', 2), (''*.b'', 3)] Trie_New = Inr t \<and>
     Trie_Search ''a.b'' t = Some n \<and> node_Data n = Some 7"
proof -
  have v: "ValidAndSplitDomain ''a.b'' = Some [''a'', ''b'']"
    by (simp add: ValidAndSplitDomain_def domainStep_def)
  obtain t :: "nat domain_trie" where t: "build [(''a.b'', 7), (''c.b'', 1), (''+.b'', 2), (''*.b'', 3)] Trie_New = Inr t"
    by (simp add: Trie_Insert_def ValidAndSplitDomain_def complexWildcard_def domainStep_def Let_def)
  show ?thesis using Search_after_Insert [OF v _ _ t] t by (auto simp: complexWildcard_def)
qed

end
