(* ===== verification/LruCache.thy ===== *)
theory LruCache
  imports Prelude
begin

text \<open>
  The least-recently-used cache of \<open>src/pkg/clash/common/cache/lrucache.go\<close>.

  The code keeps two structures in step: a map from keys to list elements and a doubly linked
  list of elements whose front is the least recently used. An element holds a pointer to an
  \<open>entry\<close>, and \<open>CloneTo\<close> copies those pointers, so entries are shared between caches. The model
  keeps the pointers: entries live in a heap (a list, a pointer is an index), the cache holds
  the key map and the list of pointers. \<open>lru_entries\<close> is the abstraction to a plain list of
  entries, and the refinement lemmas say what each operation does to that list.

  The clock is an argument (\<open>now\<close>, seconds, one reading for each call), the calls of the
  eviction callback are logged in \<open>evicted\<close>. The mutex makes each method one step.
\<close>

subsection \<open>State\<close>

record ('k, 'v) lru_entry =
  le_key :: 'k
  le_value :: 'v
  le_expires :: int

type_synonym ('k, 'v) lru_heap = "('k, 'v) lru_entry list"

record ('k, 'v) lru_cache =
  maxAge :: int
  maxSize :: int
  cache :: "'k \<Rightarrow> nat option"
  lru :: "nat list"
  updateAgeOnGet :: bool
  staleReturn :: bool
  hasOnEvict :: bool
  evicted :: "('k \<times> 'v) list"

datatype lru_option =
  WithEvict | WithUpdateAgeOnGet | WithAge int | WithSize int | WithStale bool

fun apply_option :: "lru_option \<Rightarrow> ('k, 'v) lru_cache \<Rightarrow> ('k, 'v) lru_cache" where
  "apply_option WithEvict l = l\<lparr>hasOnEvict := True\<rparr>"
| "apply_option WithUpdateAgeOnGet l = l\<lparr>updateAgeOnGet := True\<rparr>"
| "apply_option (WithAge a) l = l\<lparr>maxAge := a\<rparr>"
| "apply_option (WithSize n) l = l\<lparr>maxSize := n\<rparr>"
| "apply_option (WithStale b) l = l\<lparr>staleReturn := b\<rparr>"

definition LruCache_New :: "lru_option list \<Rightarrow> ('k, 'v) lru_cache" where
  "LruCache_New options =
     fold apply_option options
       \<lparr>maxAge = 0, maxSize = 0, cache = Map.empty, lru = [], updateAgeOnGet = False,
        staleReturn = False, hasOnEvict = False, evicted = []\<rparr>"

subsection \<open>Operations\<close>

text \<open>\<open>list.MoveToBack\<close> and \<open>list.Remove\<close> of \<open>container/list\<close>.\<close>

definition moveToBack :: "nat \<Rightarrow> nat list \<Rightarrow> nat list" where
  "moveToBack r xs = filter (\<lambda>x. x \<noteq> r) xs @ [r]"

definition listRemove :: "nat \<Rightarrow> nat list \<Rightarrow> nat list" where
  "listRemove r xs = filter (\<lambda>x. x \<noteq> r) xs"

definition deleteElement ::
  "('k, 'v) lru_heap \<Rightarrow> nat \<Rightarrow> ('k, 'v) lru_cache \<Rightarrow> ('k, 'v) lru_cache" where
  "deleteElement h r c =
     (let e = h ! r in
      c\<lparr>lru := listRemove r (lru c),
        cache := (cache c)(le_key e := None),
        evicted := (if hasOnEvict c then evicted c @ [(le_key e, le_value e)] else evicted c)\<rparr>)"

lemma deleteElement_lru [simp]: "lru (deleteElement h r c) = listRemove r (lru c)"
  by (simp add: deleteElement_def Let_def)

function deleteExpired ::
  "('k, 'v) lru_heap \<Rightarrow> int \<Rightarrow> ('k, 'v) lru_cache \<Rightarrow> ('k, 'v) lru_cache" where
  "deleteExpired h now c =
     (case lru c of
        [] \<Rightarrow> c
      | r # rs \<Rightarrow>
          if le_expires (h ! r) \<le> now then deleteExpired h now (deleteElement h r c) else c)"
  by pat_completeness auto
termination
  by (relation "measure (\<lambda>(h, now, c). length (lru c))")
     (auto simp: listRemove_def less_Suc_eq_le)

declare deleteExpired.simps [simp del]

definition maybeDeleteOldest ::
  "('k, 'v) lru_heap \<Rightarrow> int \<Rightarrow> ('k, 'v) lru_cache \<Rightarrow> ('k, 'v) lru_cache" where
  "maybeDeleteOldest h now c =
     (if \<not> staleReturn c \<and> maxAge c > 0 then deleteExpired h now c else c)"

definition LruCache_get ::
  "int \<Rightarrow> 'k \<Rightarrow> ('k, 'v) lru_heap \<times> ('k, 'v) lru_cache \<Rightarrow>
   nat option \<times> ('k, 'v) lru_heap \<times> ('k, 'v) lru_cache" where
  "LruCache_get now key hc =
     (let h = fst hc; c = snd hc in
      case cache c key of
        None \<Rightarrow> (None, h, c)
      | Some le \<Rightarrow>
          if \<not> staleReturn c \<and> maxAge c > 0 \<and> le_expires (h ! le) \<le> now
          then (None, h, maybeDeleteOldest h now (deleteElement h le c))
          else
            let c' = c\<lparr>lru := moveToBack le (lru c)\<rparr>;
                h' = (if maxAge c > 0 \<and> updateAgeOnGet c
                      then h[le := (h ! le)\<lparr>le_expires := now + maxAge c\<rparr>] else h)
            in (Some le, h', c'))"

definition LruCache_Get ::
  "int \<Rightarrow> 'k \<Rightarrow> ('k, 'v) lru_heap \<times> ('k, 'v) lru_cache \<Rightarrow>
   'v option \<times> ('k, 'v) lru_heap \<times> ('k, 'v) lru_cache" where
  "LruCache_Get now key hc =
     (case LruCache_get now key hc of
        (None, hc') \<Rightarrow> (None, hc')
      | (Some r, hc') \<Rightarrow> (Some (le_value (fst hc' ! r)), hc'))"

definition LruCache_GetWithExpire ::
  "int \<Rightarrow> 'k \<Rightarrow> ('k, 'v) lru_heap \<times> ('k, 'v) lru_cache \<Rightarrow>
   ('v \<times> int) option \<times> ('k, 'v) lru_heap \<times> ('k, 'v) lru_cache" where
  "LruCache_GetWithExpire now key hc =
     (case LruCache_get now key hc of
        (None, hc') \<Rightarrow> (None, hc')
      | (Some r, hc') \<Rightarrow> (Some (le_value (fst hc' ! r), le_expires (fst hc' ! r)), hc'))"

definition LruCache_Exist :: "'k \<Rightarrow> ('k, 'v) lru_cache \<Rightarrow> bool" where
  "LruCache_Exist key c = (cache c key \<noteq> None)"

definition LruCache_SetWithExpire ::
  "int \<Rightarrow> 'k \<Rightarrow> 'v \<Rightarrow> int \<Rightarrow> ('k, 'v) lru_heap \<times> ('k, 'v) lru_cache \<Rightarrow>
   ('k, 'v) lru_heap \<times> ('k, 'v) lru_cache" where
  "LruCache_SetWithExpire now key val expires hc =
     (let h = fst hc; c = snd hc in
      case cache c key of
        Some le \<Rightarrow>
          let c' = c\<lparr>lru := moveToBack le (lru c)\<rparr>;
              h' = h[le := (h ! le)\<lparr>le_value := val, le_expires := expires\<rparr>]
          in (h', maybeDeleteOldest h' now c')
      | None \<Rightarrow>
          let le = length h;
              h' = h @ [\<lparr>le_key = key, le_value = val, le_expires = expires\<rparr>];
              c' = c\<lparr>cache := (cache c)(key \<mapsto> le), lru := lru c @ [le]\<rparr>;
              c'' = (if maxSize c' > 0 \<and> int (length (lru c')) > maxSize c'
                     then deleteElement h' (hd (lru c')) c' else c')
          in (h', maybeDeleteOldest h' now c''))"

definition LruCache_Set ::
  "int \<Rightarrow> 'k \<Rightarrow> 'v \<Rightarrow> ('k, 'v) lru_heap \<times> ('k, 'v) lru_cache \<Rightarrow>
   ('k, 'v) lru_heap \<times> ('k, 'v) lru_cache" where
  "LruCache_Set now key val hc =
     LruCache_SetWithExpire now key val
       (if maxAge (snd hc) > 0 then now + maxAge (snd hc) else 0) hc"

definition LruCache_Delete ::
  "'k \<Rightarrow> ('k, 'v) lru_heap \<times> ('k, 'v) lru_cache \<Rightarrow> ('k, 'v) lru_heap \<times> ('k, 'v) lru_cache" where
  "LruCache_Delete key hc =
     (let h = fst hc; c = snd hc in
      case cache c key of
        Some le \<Rightarrow> (h, deleteElement h le c)
      | None \<Rightarrow> (h, c))"

text \<open>
  \<open>CloneTo\<close>: the list and map of \<open>n\<close> are rebuilt over the entries of \<open>c\<close>; the entry pointers
  are shared (\<open>n.lru.PushBack(elm)\<close> with \<open>elm := e.Value.(*entry)\<close>).
\<close>

definition LruCache_CloneTo ::
  "('k, 'v) lru_heap \<Rightarrow> ('k, 'v) lru_cache \<Rightarrow> ('k, 'v) lru_cache \<Rightarrow> ('k, 'v) lru_cache" where
  "LruCache_CloneTo h c n =
     n\<lparr>lru := lru c, cache := fold (\<lambda>r m. m(le_key (h ! r) \<mapsto> r)) (lru c) Map.empty\<rparr>"

subsection \<open>Abstraction and invariant\<close>

definition lru_entries :: "('k, 'v) lru_heap \<Rightarrow> ('k, 'v) lru_cache \<Rightarrow> ('k, 'v) lru_entry list" where
  "lru_entries h c = map (\<lambda>r. h ! r) (lru c)"

definition lru_inv :: "('k, 'v) lru_heap \<Rightarrow> ('k, 'v) lru_cache \<Rightarrow> bool" where
  "lru_inv h c \<longleftrightarrow>
     distinct (lru c) \<and> (\<forall>r \<in> set (lru c). r < length h) \<and>
     distinct (map le_key (lru_entries h c)) \<and>
     (\<forall>k r. cache c k = Some r \<longleftrightarrow> r \<in> set (lru c) \<and> le_key (h ! r) = k)"

definition lru_bounded :: "('k, 'v) lru_cache \<Rightarrow> bool" where
  "lru_bounded c \<longleftrightarrow> (maxSize c > 0 \<longrightarrow> int (length (lru c)) \<le> maxSize c)"

text \<open>The list model: what the cache does to its entries, oldest first.\<close>

definition es_find :: "'k \<Rightarrow> ('k, 'v) lru_entry list \<Rightarrow> ('k, 'v) lru_entry option" where
  "es_find k es = find (\<lambda>e. le_key e = k) es"

definition es_del :: "'k \<Rightarrow> ('k, 'v) lru_entry list \<Rightarrow> ('k, 'v) lru_entry list" where
  "es_del k es = filter (\<lambda>e. le_key e \<noteq> k) es"

definition es_purge :: "bool \<Rightarrow> int \<Rightarrow> int \<Rightarrow> ('k, 'v) lru_entry list \<Rightarrow> ('k, 'v) lru_entry list" where
  "es_purge stale age now es =
     (if \<not> stale \<and> age > 0 then dropWhile (\<lambda>e. le_expires e \<le> now) es else es)"

lemma es_find_None: "es_find k es = None \<longleftrightarrow> k \<notin> le_key ` set es"
  by (auto simp: es_find_def find_None_iff)

lemma es_find_Some_in: "es_find k es = Some e \<Longrightarrow> e \<in> set es \<and> le_key e = k"
  by (auto simp: es_find_def find_Some_iff)

lemma es_find_distinct:
  "distinct (map le_key es) \<Longrightarrow> e \<in> set es \<Longrightarrow> es_find (le_key e) es = Some e"
  by (induction es) (auto simp: es_find_def)

lemma es_find_del [simp]: "es_find k (es_del j es) = (if k = j then None else es_find k es)"
  by (induction es) (auto simp: es_find_def es_del_def)

lemma es_find_append: "es_find k (es @ fs) = (case es_find k es of None \<Rightarrow> es_find k fs | Some e \<Rightarrow> Some e)"
  by (induction es) (auto simp: es_find_def)

lemma es_del_id: "k \<notin> le_key ` set es \<Longrightarrow> es_del k es = es"
  by (induction es) (auto simp: es_del_def)


subsection \<open>Refinement: each operation on the list of entries\<close>

lemma lru_key_inj:
  assumes "lru_inv h c" and "r \<in> set (lru c)" and "s \<in> set (lru c)"
    and "le_key (h ! r) = le_key (h ! s)"
  shows "r = s"
proof -
  from assms(1) have "distinct (map (\<lambda>r. le_key (h ! r)) (lru c))"
    by (simp add: lru_inv_def lru_entries_def comp_def)
  then have "inj_on (\<lambda>r. le_key (h ! r)) (set (lru c))" by (simp add: distinct_map)
  then show ?thesis using assms by (auto dest: inj_onD)
qed

lemma lru_inv_cache:
  "lru_inv h c \<Longrightarrow> cache c k = Some r \<Longrightarrow> r \<in> set (lru c) \<and> r < length h \<and> le_key (h ! r) = k"
  by (auto simp: lru_inv_def)

lemma cache_find:
  assumes "lru_inv h c"
  shows "map_option (\<lambda>r. h ! r) (cache c k) = es_find k (lru_entries h c)"
proof (cases "cache c k")
  case None
  then have "\<And>q. q \<in> set (lru c) \<Longrightarrow> le_key (h ! q) \<noteq> k"
    using assms unfolding lru_inv_def by (metis option.distinct(1))
  then have "k \<notin> le_key ` set (lru_entries h c)" by (auto simp: lru_entries_def)
  then show ?thesis using None by (simp add: es_find_None [THEN iffD2])
next
  case (Some r)
  then have "r \<in> set (lru c)" "le_key (h ! r) = k" using lru_inv_cache [OF assms] by auto
  then have "es_find k (lru_entries h c) = Some (h ! r)"
    using assms es_find_distinct [of "lru_entries h c" "h ! r"]
    by (auto simp: lru_inv_def lru_entries_def)
  then show ?thesis using Some by simp
qed

lemma length_lru_entries [simp]: "length (lru_entries h c) = length (lru c)"
  by (simp add: lru_entries_def)

lemma Exist_find:
  "lru_inv h c \<Longrightarrow> LruCache_Exist k c \<longleftrightarrow> es_find k (lru_entries h c) \<noteq> None"
  by (simp add: LruCache_Exist_def cache_find [symmetric])

lemma listRemove_entries:
  assumes "lru_inv h c" and "r \<in> set (lru c)"
  shows "map (\<lambda>r. h ! r) (listRemove r (lru c)) = es_del (le_key (h ! r)) (lru_entries h c)"
proof -
  have "listRemove r (lru c) = filter (\<lambda>x. le_key (h ! x) \<noteq> le_key (h ! r)) (lru c)"
    unfolding listRemove_def using lru_key_inj [OF assms(1) _ assms(2)]
    by (intro filter_cong) auto
  then show ?thesis by (simp add: es_del_def lru_entries_def filter_map comp_def)
qed

lemma deleteElement_frame [simp]:
  "maxAge (deleteElement h r c) = maxAge c" "maxSize (deleteElement h r c) = maxSize c"
  "updateAgeOnGet (deleteElement h r c) = updateAgeOnGet c"
  "staleReturn (deleteElement h r c) = staleReturn c"
  "hasOnEvict (deleteElement h r c) = hasOnEvict c"
  by (simp_all add: deleteElement_def Let_def)

lemma deleteElement_entries:
  "lru_inv h c \<Longrightarrow> r \<in> set (lru c) \<Longrightarrow>
   lru_entries h (deleteElement h r c) = es_del (le_key (h ! r)) (lru_entries h c)"
  by (simp add: listRemove_entries lru_entries_def [of h "deleteElement h r c"])

lemma deleteElement_inv:
  assumes "lru_inv h c" and "r \<in> set (lru c)"
  shows "lru_inv h (deleteElement h r c)"
proof -
  have d: "distinct (map le_key (lru_entries h (deleteElement h r c)))"
    using assms by (simp add: deleteElement_entries es_del_def lru_inv_def distinct_map_filter)
  have "cache (deleteElement h r c) k = Some q \<longleftrightarrow>
      q \<in> set (lru (deleteElement h r c)) \<and> le_key (h ! q) = k" for k q
    using assms lru_key_inj [OF assms(1) _ assms(2)]
    by (auto simp: deleteElement_def Let_def listRemove_def lru_inv_def)
  then show ?thesis using assms d unfolding lru_inv_def
    by (auto simp: listRemove_def)
qed

lemma deleteExpired_refines:
  "lru_inv h c \<Longrightarrow>
   lru_inv h (deleteExpired h now c) \<and>
   lru_entries h (deleteExpired h now c) = dropWhile (\<lambda>e. le_expires e \<le> now) (lru_entries h c) \<and>
   length (lru (deleteExpired h now c)) \<le> length (lru c) \<and>
   maxAge (deleteExpired h now c) = maxAge c \<and> maxSize (deleteExpired h now c) = maxSize c \<and>
   staleReturn (deleteExpired h now c) = staleReturn c \<and>
   updateAgeOnGet (deleteExpired h now c) = updateAgeOnGet c"
proof (induction h now c rule: deleteExpired.induct)
  case (1 h now c)
  show ?case
  proof (cases "lru c")
    case Nil
    then show ?thesis using "1.prems" by (simp add: deleteExpired.simps [of h now c] lru_entries_def)
  next
    case (Cons r rs)
    show ?thesis
    proof (cases "le_expires (h ! r) \<le> now")
      case True
      have inv: "lru_inv h (deleteElement h r c)"
        using "1.prems" Cons by (simp add: deleteElement_inv)
      have r: "r \<notin> set rs" using "1.prems" Cons by (simp add: lru_inv_def)
      have rm: "listRemove r (lru c) = rs" using Cons r by (simp add: listRemove_def filter_neq_id)
      have "lru_entries h (deleteElement h r c) = map (\<lambda>r. h ! r) rs"
        using rm by (simp add: lru_entries_def)
      then show ?thesis using "1.IH" [OF Cons True inv] Cons True rm
        by (simp add: deleteExpired.simps [of h now c] lru_entries_def)
    next
      case False
      then show ?thesis using "1.prems" Cons
        by (simp add: deleteExpired.simps [of h now c] lru_entries_def)
    qed
  qed
qed

lemma maybeDeleteOldest_refines:
  assumes "lru_inv h c"
  shows "lru_inv h (maybeDeleteOldest h now c)"
    and "lru_entries h (maybeDeleteOldest h now c) =
      es_purge (staleReturn c) (maxAge c) now (lru_entries h c)"
    and "length (lru (maybeDeleteOldest h now c)) \<le> length (lru c)"
    and "maxAge (maybeDeleteOldest h now c) = maxAge c"
    and "maxSize (maybeDeleteOldest h now c) = maxSize c"
    and "staleReturn (maybeDeleteOldest h now c) = staleReturn c"
    and "updateAgeOnGet (maybeDeleteOldest h now c) = updateAgeOnGet c"
  using deleteExpired_refines [OF assms] assms by (auto simp: maybeDeleteOldest_def es_purge_def)

lemma lru_inv_key_update:
  assumes "lru_inv h c" and "le_key e = le_key (h ! r)"
  shows "lru_inv (h[r := e]) c"
proof -
  have "le_key (h[r := e] ! q) = le_key (h ! q)" for q
    using assms(2) by (cases "r < length h") (auto simp: nth_list_update list_update_beyond)
  then show ?thesis using assms(1) by (simp add: lru_inv_def lru_entries_def comp_def)
qed

lemma moveToBack_inv:
  assumes "lru_inv h c" and "r \<in> set (lru c)"
  shows "lru_inv h (c\<lparr>lru := moveToBack r (lru c)\<rparr>)"
proof -
  have "distinct (map le_key (map (\<lambda>r. h ! r) (moveToBack r (lru c))))"
    using assms by (auto simp: moveToBack_def lru_inv_def lru_entries_def distinct_map_filter
        intro: lru_key_inj [OF assms(1)] dest: lru_key_inj [OF assms(1) _ assms(2)])
  then show ?thesis using assms by (auto simp: lru_inv_def lru_entries_def moveToBack_def)
qed

lemma moveToBack_entries:
  assumes "lru_inv h c" and "r \<in> set (lru c)" and "le_key e = le_key (h ! r)"
  shows "lru_entries (h[r := e]) (c\<lparr>lru := moveToBack r (lru c)\<rparr>) =
    es_del (le_key (h ! r)) (lru_entries h c) @ [e]"
proof -
  have r: "r < length h" using assms by (simp add: lru_inv_def)
  have "map (\<lambda>q. h[r := e] ! q) (listRemove r (lru c)) = map (\<lambda>q. h ! q) (listRemove r (lru c))"
    by (auto simp: listRemove_def)
  then show ?thesis using listRemove_entries [OF assms(1,2)] r
    unfolding lru_entries_def moveToBack_def listRemove_def by simp
qed

lemma length_moveToBack: "distinct xs \<Longrightarrow> r \<in> set xs \<Longrightarrow> length (moveToBack r xs) = length xs"
  by (simp add: moveToBack_def length_filter_neq)


text \<open>The operations on the list of entries: what \<open>Get\<close>, \<open>SetWithExpire\<close> and \<open>Delete\<close> promise.\<close>

definition es_get ::
  "int \<Rightarrow> bool \<Rightarrow> bool \<Rightarrow> int \<Rightarrow> 'k \<Rightarrow> ('k, 'v) lru_entry list \<Rightarrow>
   'v option \<times> ('k, 'v) lru_entry list" where
  "es_get now upd stale age k es =
     (case es_find k es of
        None \<Rightarrow> (None, es)
      | Some e \<Rightarrow>
          if \<not> stale \<and> age > 0 \<and> le_expires e \<le> now
          then (None, es_purge stale age now (es_del k es))
          else (Some (le_value e),
                es_del k es @ [if age > 0 \<and> upd then e\<lparr>le_expires := now + age\<rparr> else e]))"

definition es_set ::
  "int \<Rightarrow> bool \<Rightarrow> int \<Rightarrow> int \<Rightarrow> 'k \<Rightarrow> 'v \<Rightarrow> int \<Rightarrow> ('k, 'v) lru_entry list \<Rightarrow>
   ('k, 'v) lru_entry list" where
  "es_set now stale age cap k v x es =
     es_purge stale age now
       (let es' = es_del k es @ [\<lparr>le_key = k, le_value = v, le_expires = x\<rparr>]
        in if es_find k es = None \<and> cap > 0 \<and> int (length es') > cap then tl es' else es')"

lemma LruCache_get_refines:
  assumes "lru_inv h c" and "LruCache_get now k (h, c) = (r, h', c')"
  shows "lru_inv h' c'"
    and "(map_option (\<lambda>r. le_value (h' ! r)) r, lru_entries h' c') =
       es_get now (updateAgeOnGet c) (staleReturn c) (maxAge c) k (lru_entries h c)"
    and "maxAge c' = maxAge c" and "maxSize c' = maxSize c" and "staleReturn c' = staleReturn c"
    and "updateAgeOnGet c' = updateAgeOnGet c" and "length (lru c') \<le> length (lru c)"
proof -
  have find: "es_find k (lru_entries h c) = map_option (\<lambda>r. h ! r) (cache c k)"
    using cache_find [OF assms(1)] by simp
  have "lru_inv h' c' \<and> (map_option (\<lambda>r. le_value (h' ! r)) r, lru_entries h' c') =
       es_get now (updateAgeOnGet c) (staleReturn c) (maxAge c) k (lru_entries h c) \<and>
       maxAge c' = maxAge c \<and> maxSize c' = maxSize c \<and> staleReturn c' = staleReturn c \<and>
       updateAgeOnGet c' = updateAgeOnGet c \<and> length (lru c') \<le> length (lru c)"
  proof (cases "cache c k")
    case None
    then show ?thesis using assms find by (simp add: LruCache_get_def es_get_def)
  next
    case (Some le)
    note le = lru_inv_cache [OF assms(1) Some]
    show ?thesis
    proof (cases "\<not> staleReturn c \<and> maxAge c > 0 \<and> le_expires (h ! le) \<le> now")
      case True
      define d where "d = deleteElement h le c"
      have inv: "lru_inv h d" using le assms(1) by (simp add: deleteElement_inv d_def)
      have es: "lru_entries h d = es_del k (lru_entries h c)"
        using le assms(1) deleteElement_entries unfolding d_def by blast
      have fr: "maxAge d = maxAge c" "maxSize d = maxSize c" "staleReturn d = staleReturn c"
        "updateAgeOnGet d = updateAgeOnGet c" "length (lru d) \<le> length (lru c)"
        by (simp_all add: d_def listRemove_def)
      have r: "r = None" "h' = h" "c' = maybeDeleteOldest h now d"
        using assms(2) Some True by (auto simp: LruCache_get_def Let_def d_def)
      have g: "es_get now (updateAgeOnGet c) (staleReturn c) (maxAge c) k (lru_entries h c)
          = (None, es_purge (staleReturn c) (maxAge c) now (es_del k (lru_entries h c)))"
        using find Some True by (simp add: es_get_def)
      note m = maybeDeleteOldest_refines [OF inv, of now]
      show ?thesis unfolding r g
        using m(1) le_trans [OF m(3) fr(5)] by (simp add: m(2,4-7) fr(1-4) es)
    next
      case False
      define e where "e = (if maxAge c > 0 \<and> updateAgeOnGet c
        then (h ! le)\<lparr>le_expires := now + maxAge c\<rparr> else h ! le)"
      have ke: "le_key e = le_key (h ! le)" by (simp add: e_def)
      have h': "h' = h[le := e]" "c' = c\<lparr>lru := moveToBack le (lru c)\<rparr>" "r = Some le"
        using assms(2) Some False by (auto simp: LruCache_get_def Let_def e_def)
      have "lru_inv h' c'"
        using lru_inv_key_update [OF moveToBack_inv [OF assms(1)] ke] le h' by simp
      moreover have "lru_entries h' c' = es_del k (lru_entries h c) @ [e]"
        using moveToBack_entries [OF assms(1) _ ke] le h' by simp
      moreover have "le_value (h' ! le) = le_value (h ! le)" using le h' by (simp add: e_def)
      moreover have "length (moveToBack le (lru c)) = length (lru c)"
        using le assms(1) by (intro length_moveToBack) (auto simp: lru_inv_def)
      moreover have "es_get now (updateAgeOnGet c) (staleReturn c) (maxAge c) k (lru_entries h c)
          = (Some (le_value (h ! le)), es_del k (lru_entries h c) @ [e])"
        using False Some find unfolding es_get_def e_def by auto
      ultimately show ?thesis using h' by simp
    qed
  qed
  then show "lru_inv h' c'"
    and "(map_option (\<lambda>r. le_value (h' ! r)) r, lru_entries h' c') =
       es_get now (updateAgeOnGet c) (staleReturn c) (maxAge c) k (lru_entries h c)"
    and "maxAge c' = maxAge c" and "maxSize c' = maxSize c" and "staleReturn c' = staleReturn c"
    and "updateAgeOnGet c' = updateAgeOnGet c" and "length (lru c') \<le> length (lru c)"
    by blast+
qed

lemma LruCache_Delete_refines:
  assumes "lru_inv h c" and "LruCache_Delete k (h, c) = (h', c')"
  shows "h' = h" and "lru_inv h' c'" and "lru_entries h' c' = es_del k (lru_entries h c)"
    and "maxAge c' = maxAge c" and "maxSize c' = maxSize c" and "staleReturn c' = staleReturn c"
    and "updateAgeOnGet c' = updateAgeOnGet c" and "length (lru c') \<le> length (lru c)"
proof -
  have "h' = h \<and> lru_inv h' c' \<and> lru_entries h' c' = es_del k (lru_entries h c) \<and>
    maxAge c' = maxAge c \<and> maxSize c' = maxSize c \<and> staleReturn c' = staleReturn c \<and>
    updateAgeOnGet c' = updateAgeOnGet c \<and> length (lru c') \<le> length (lru c)"
  proof (cases "cache c k")
    case None
    then have "k \<notin> le_key ` set (lru_entries h c)"
      using cache_find [OF assms(1), of k] by (simp add: es_find_None [symmetric])
    then show ?thesis using assms None by (simp add: LruCache_Delete_def es_del_id)
  next
    case (Some r)
    note r = lru_inv_cache [OF assms(1) Some]
    have "length (listRemove r (lru c)) \<le> length (lru c)" by (simp add: listRemove_def)
    then show ?thesis using assms Some r
      by (auto simp: LruCache_Delete_def deleteElement_inv deleteElement_entries)
  qed
  then show "h' = h" and "lru_inv h' c'" and "lru_entries h' c' = es_del k (lru_entries h c)"
    and "maxAge c' = maxAge c" and "maxSize c' = maxSize c" and "staleReturn c' = staleReturn c"
    and "updateAgeOnGet c' = updateAgeOnGet c" and "length (lru c') \<le> length (lru c)"
    by blast+
qed


lemma LruCache_Get_refines:
  assumes "lru_inv h c" and "LruCache_Get now k (h, c) = (v, h', c')"
  shows "lru_inv h' c'"
    and "(v, lru_entries h' c') =
       es_get now (updateAgeOnGet c) (staleReturn c) (maxAge c) k (lru_entries h c)"
    and "maxAge c' = maxAge c" and "maxSize c' = maxSize c" and "staleReturn c' = staleReturn c"
    and "updateAgeOnGet c' = updateAgeOnGet c" and "length (lru c') \<le> length (lru c)"
proof -
  obtain r h1 c1 where g: "LruCache_get now k (h, c) = (r, h1, c1)"
    by (cases "LruCache_get now k (h, c)") auto
  have "h1 = h'" "c1 = c'" "v = map_option (\<lambda>r. le_value (h' ! r)) r"
    using g assms(2) by (auto simp: LruCache_Get_def split: option.splits)
  then show "lru_inv h' c'"
    and "(v, lru_entries h' c') =
       es_get now (updateAgeOnGet c) (staleReturn c) (maxAge c) k (lru_entries h c)"
    and "maxAge c' = maxAge c" and "maxSize c' = maxSize c" and "staleReturn c' = staleReturn c"
    and "updateAgeOnGet c' = updateAgeOnGet c" and "length (lru c') \<le> length (lru c)"
    using LruCache_get_refines [OF assms(1) g] by simp_all
qed

lemma alloc_inv:
  assumes "lru_inv h c" and "cache c (le_key e) = None"
  shows "lru_inv (h @ [e]) (c\<lparr>cache := (cache c)(le_key e \<mapsto> length h), lru := lru c @ [length h]\<rparr>)"
    and "lru_entries (h @ [e]) (c\<lparr>cache := m, lru := lru c @ [length h]\<rparr>) = lru_entries h c @ [e]"
proof -
  have n: "\<And>q. q \<in> set (lru c) \<Longrightarrow> (h @ [e]) ! q = h ! q"
    using assms(1) by (simp add: lru_inv_def nth_append)
  have es: "lru_entries (h @ [e]) (c\<lparr>cache := m, lru := lru c @ [length h]\<rparr>) = lru_entries h c @ [e]" for m
    using n by (auto simp: lru_entries_def)
  then show "lru_entries (h @ [e]) (c\<lparr>cache := m, lru := lru c @ [length h]\<rparr>) = lru_entries h c @ [e]" .
  have nk: "le_key e \<notin> le_key ` set (lru_entries h c)"
    using cache_find [OF assms(1), of "le_key e"] assms(2) by (simp add: es_find_None [symmetric])
  have nq: "\<And>q. q \<in> set (lru c) \<Longrightarrow> le_key (h ! q) \<noteq> le_key e"
    using nk unfolding lru_entries_def by (metis image_eqI set_map)
  have lt: "\<And>q. q \<in> set (lru c) \<Longrightarrow> q < length h" using assms(1) by (simp add: lru_inv_def)
  have "((cache c)(le_key e \<mapsto> length h)) k = Some r \<longleftrightarrow>
      r \<in> set (lru c @ [length h]) \<and> le_key ((h @ [e]) ! r) = k" for k r
    using assms(1) n nq lt by (auto simp: lru_inv_def)
  then show "lru_inv (h @ [e]) (c\<lparr>cache := (cache c)(le_key e \<mapsto> length h), lru := lru c @ [length h]\<rparr>)"
    using assms(1) es nk lt unfolding lru_inv_def by (auto simp: less_Suc_eq dest: lt)
qed

lemma LruCache_SetWithExpire_refines:
  assumes "lru_inv h c" and "LruCache_SetWithExpire now k v x (h, c) = (h', c')"
  shows "lru_inv h' c'"
    and "lru_entries h' c' =
       es_set now (staleReturn c) (maxAge c) (maxSize c) k v x (lru_entries h c)"
    and "maxAge c' = maxAge c" and "maxSize c' = maxSize c" and "staleReturn c' = staleReturn c"
    and "updateAgeOnGet c' = updateAgeOnGet c" and "lru_bounded c \<Longrightarrow> lru_bounded c'"
proof -
  let ?es = "lru_entries h c" and ?e = "\<lparr>le_key = k, le_value = v, le_expires = x\<rparr>"
  have find: "es_find k ?es = map_option (\<lambda>r. h ! r) (cache c k)"
    using cache_find [OF assms(1)] by simp
  have "\<exists>c1. h' = h' \<and> c' = maybeDeleteOldest h' now c1 \<and> lru_inv h' c1 \<and>
      lru_entries h' c1 = (let es' = es_del k ?es @ [?e]
        in if es_find k ?es = None \<and> maxSize c > 0 \<and> int (length es') > maxSize c then tl es' else es') \<and>
      maxAge c1 = maxAge c \<and> maxSize c1 = maxSize c \<and> staleReturn c1 = staleReturn c \<and>
      updateAgeOnGet c1 = updateAgeOnGet c \<and> (lru_bounded c \<longrightarrow> lru_bounded c1)"
  proof (cases "cache c k")
    case (Some le)
    note le = lru_inv_cache [OF assms(1) Some]
    define e where "e = (h ! le)\<lparr>le_value := v, le_expires := x\<rparr>"
    define c1 where "c1 = c\<lparr>lru := moveToBack le (lru c)\<rparr>"
    have ke: "le_key e = le_key (h ! le)" by (simp add: e_def)
    have h': "h' = h[le := e]" "c' = maybeDeleteOldest h' now c1"
      using assms(2) Some by (auto simp: LruCache_SetWithExpire_def Let_def e_def c1_def)
    have "lru_inv h' c1"
      using lru_inv_key_update [OF moveToBack_inv [OF assms(1)] ke] le h' by (simp add: c1_def)
    moreover have "lru_entries h' c1 = es_del k ?es @ [?e]"
      using moveToBack_entries [OF assms(1) _ ke] le h' by (simp add: c1_def e_def)
    moreover have "lru_bounded c \<longrightarrow> lru_bounded c1"
      using assms(1) le by (simp add: lru_bounded_def c1_def length_moveToBack lru_inv_def)
    ultimately show ?thesis using find Some h' by (intro exI [of _ c1]) (simp add: c1_def)
  next
    case None
    have nk: "es_del k ?es = ?es"
      using find None by (simp add: es_find_None es_del_id)
    define c1 where "c1 = c\<lparr>cache := (cache c)(k \<mapsto> length h), lru := lru c @ [length h]\<rparr>"
    define c2 where "c2 = (if maxSize c1 > 0 \<and> int (length (lru c1)) > maxSize c1
      then deleteElement (h @ [?e]) (hd (lru c1)) c1 else c1)"
    have h': "h' = h @ [?e]" "c' = maybeDeleteOldest h' now c2"
      using assms(2) None by (auto simp: LruCache_SetWithExpire_def Let_def c1_def c2_def)
    have i1: "lru_inv h' c1" and e1: "lru_entries h' c1 = ?es @ [?e]"
      using alloc_inv [OF assms(1), of ?e] None h' by (auto simp: c1_def)
    have hd1: "hd (lru c1) \<in> set (lru c1)" by (rule hd_in_set) (simp add: c1_def)
    have i2: "lru_inv h' c2" using deleteElement_inv [OF i1 hd1] i1 h' by (simp add: c2_def)
    have d1: "distinct (lru c1)" using i1 by (simp add: lru_inv_def)
    have rm: "listRemove (hd (lru c1)) (lru c1) = tl (lru c1)"
      using d1 by (cases "lru c1") (auto simp: listRemove_def filter_neq_id)
    have "lru_entries h' (deleteElement h' (hd (lru c1)) c1) = tl (lru_entries h' c1)"
      by (simp add: lru_entries_def rm map_tl)
    then have e2: "lru_entries h' c2 =
        (if maxSize c > 0 \<and> int (length (?es @ [?e])) > maxSize c then tl (?es @ [?e]) else ?es @ [?e])"
      using e1 h'(1) unfolding c2_def by (simp add: c1_def)
    have "lru_bounded c \<longrightarrow> lru_bounded c2"
      unfolding c2_def using rm by (auto simp: lru_bounded_def c1_def)
    then show ?thesis using i2 e2 find None h'(2) nk
      by (intro exI [of _ c2]) (simp add: c2_def c1_def Let_def)
  qed
  then obtain c1 where c1: "c' = maybeDeleteOldest h' now c1" "lru_inv h' c1"
    "lru_entries h' c1 = (let es' = es_del k ?es @ [?e]
        in if es_find k ?es = None \<and> maxSize c > 0 \<and> int (length es') > maxSize c then tl es' else es')"
    "maxAge c1 = maxAge c" "maxSize c1 = maxSize c" "staleReturn c1 = staleReturn c"
    "updateAgeOnGet c1 = updateAgeOnGet c" "lru_bounded c \<longrightarrow> lru_bounded c1" by blast
  note m = maybeDeleteOldest_refines [OF c1(2), of now]
  show "lru_inv h' c'" and "maxAge c' = maxAge c" and "maxSize c' = maxSize c"
    and "staleReturn c' = staleReturn c" and "updateAgeOnGet c' = updateAgeOnGet c"
    using c1 m by simp_all
  show "lru_entries h' c' = es_set now (staleReturn c) (maxAge c) (maxSize c) k v x ?es"
    using c1 m(2) by (simp add: es_set_def)
  show "lru_bounded c \<Longrightarrow> lru_bounded c'" using c1 m(3,5) by (auto simp: lru_bounded_def)
qed

end
