(* ===== verification/LruRuns.thy ===== *)
theory LruRuns
  imports LruCache
begin

text \<open>
  Sequences of calls of the LRU cache of \<open>src/pkg/clash/common/cache/lrucache.go\<close>, the machine on
  entry lists that they refine, and the interface \<open>kv_cache\<close> that the clients of a cache rely on,
  with the interpretation that the cache of the code provides.
\<close>

subsection \<open>Runs\<close>

datatype ('k, 'v) lru_op =
  OGet 'k | OGetWithExpire 'k | OExist 'k | OSet 'k 'v | OSetWithExpire 'k 'v int | ODelete 'k

datatype ('k, 'v) lru_answer = AVal "'v option" | AExp "('v \<times> int) option" | ABool bool | AUnit

type_synonym ('k, 'v) lru_state = "('k, 'v) lru_heap \<times> ('k, 'v) lru_cache"

text \<open>Each call comes with the reading of the clock it makes.\<close>

fun lru_step :: "int \<times> ('k, 'v) lru_op \<Rightarrow> ('k, 'v) lru_state \<Rightarrow> ('k, 'v) lru_answer \<times> ('k, 'v) lru_state" where
  "lru_step (now, OGet k) s = map_prod AVal id (LruCache_Get now k s)"
| "lru_step (now, OGetWithExpire k) s = map_prod AExp id (LruCache_GetWithExpire now k s)"
| "lru_step (now, OExist k) s = (ABool (LruCache_Exist k (snd s)), s)"
| "lru_step (now, OSet k v) s = (AUnit, LruCache_Set now k v s)"
| "lru_step (now, OSetWithExpire k v x) s = (AUnit, LruCache_SetWithExpire now k v x s)"
| "lru_step (now, ODelete k) s = (AUnit, LruCache_Delete k s)"

fun lru_run :: "(int \<times> ('k, 'v) lru_op) list \<Rightarrow> ('k, 'v) lru_state \<Rightarrow> ('k, 'v) lru_answer list \<times> ('k, 'v) lru_state" where
  "lru_run [] s = ([], s)"
| "lru_run (x # xs) s = (case lru_step x s of (a, s1) \<Rightarrow> case lru_run xs s1 of (as, s2) \<Rightarrow> (a # as, s2))"

text \<open>
  The same on lists of entries, for the settings of the cache \<open>c\<close>. \<open>GetWithExpire\<close> is here what its comment says: it
  does not check the age and does not update the expiry.
\<close>

definition es_peek ::
  "'k \<Rightarrow> ('k, 'v) lru_entry list \<Rightarrow> ('v \<times> int) option \<times> ('k, 'v) lru_entry list" where
  "es_peek k es =
     (case es_find k es of None \<Rightarrow> (None, es) | Some e \<Rightarrow> (Some (le_value e, le_expires e), es_del k es @ [e]))"

fun es_step ::
  "('k, 'v) lru_cache \<Rightarrow> int \<times> ('k, 'v) lru_op \<Rightarrow> ('k, 'v) lru_entry list \<Rightarrow>
   ('k, 'v) lru_answer \<times> ('k, 'v) lru_entry list" where
  "es_step c (now, OGet k) es = map_prod AVal id (es_get now (updateAgeOnGet c) (staleReturn c) (maxAge c) k es)"
| "es_step c (now, OGetWithExpire k) es = map_prod AExp id (es_peek k es)"
| "es_step c (now, OExist k) es = (ABool (es_find k es \<noteq> None), es)"
| "es_step c (now, OSet k v) es =
     (AUnit, es_set now (staleReturn c) (maxAge c) (maxSize c) k v (if maxAge c > 0 then now + maxAge c else 0) es)"
| "es_step c (now, OSetWithExpire k v x) es = (AUnit, es_set now (staleReturn c) (maxAge c) (maxSize c) k v x es)"
| "es_step c (now, ODelete k) es = (AUnit, es_del k es)"

fun es_run ::
  "('k, 'v) lru_cache \<Rightarrow> (int \<times> ('k, 'v) lru_op) list \<Rightarrow> ('k, 'v) lru_entry list \<Rightarrow>
   ('k, 'v) lru_answer list \<times> ('k, 'v) lru_entry list" where
  "es_run c [] es = ([], es)"
| "es_run c (x # xs) es = (case es_step c x es of (a, es1) \<Rightarrow> case es_run c xs es1 of (as, es2) \<Rightarrow> (a # as, es2))"

text \<open>Two caches with the same settings.\<close>

definition same_conf :: "('k, 'v) lru_cache \<Rightarrow> ('k, 'v) lru_cache \<Rightarrow> bool" where
  "same_conf c d \<longleftrightarrow> maxAge d = maxAge c \<and> maxSize d = maxSize c \<and> staleReturn d = staleReturn c \<and>
     updateAgeOnGet d = updateAgeOnGet c"

lemma es_step_conf: "same_conf c d \<Longrightarrow> es_step d x es = es_step c x es"
  by (cases x; cases "snd x") (auto simp: same_conf_def)

lemma es_run_conf: "same_conf c d \<Longrightarrow> es_run d xs es = es_run c xs es"
  by (induction xs arbitrary: es) (auto simp: es_step_conf split: prod.splits)

lemma same_conf_trans: "same_conf c d \<Longrightarrow> same_conf d e \<Longrightarrow> same_conf c e"
  by (simp add: same_conf_def)

lemma bounded_shrink:
  "lru_bounded c \<Longrightarrow> maxSize d = maxSize c \<Longrightarrow> length (lru d) \<le> length (lru c) \<Longrightarrow> lru_bounded d"
  by (auto simp: lru_bounded_def)

definition lru_ok :: "('k, 'v) lru_state \<Rightarrow> bool" where
  "lru_ok s \<longleftrightarrow> lru_inv (fst s) (snd s) \<and> lru_bounded (snd s)"

lemma GetWithExpire_refines:
  assumes "lru_inv h c" and "LruCache_GetWithExpire now k (h, c) = (v, h', c')"
  shows "LruCache_Get now k (h, c) = (map_option fst v, h', c')"
  using assms by (auto simp: LruCache_GetWithExpire_def LruCache_Get_def split: prod.splits option.splits)

text \<open>
  \<open>get\<close>, which \<open>GetWithExpire\<close> calls, does check the age and update the expiry, so the comment holds for caches without an age
  and for caches that return stale entries and do not update. The cache of answers of the resolver is made without an age.
\<close>

definition as_documented :: "('k, 'v) lru_cache \<Rightarrow> int \<times> ('k, 'v) lru_op \<Rightarrow> bool" where
  "as_documented c x \<longleftrightarrow>
     (case snd x of OGetWithExpire k \<Rightarrow> maxAge c \<le> 0 \<or> staleReturn c \<and> \<not> updateAgeOnGet c | _ \<Rightarrow> True)"

lemma as_documented_conf: "same_conf c d \<Longrightarrow> as_documented d x \<longleftrightarrow> as_documented c x"
  by (simp add: as_documented_def same_conf_def split: lru_op.splits)

lemma es_get_peek:
  "maxAge c \<le> 0 \<or> staleReturn c \<and> \<not> updateAgeOnGet c \<Longrightarrow>
     es_get now (updateAgeOnGet c) (staleReturn c) (maxAge c) k es = map_prod (map_option fst) id (es_peek k es)"
  by (auto simp: es_get_def es_peek_def split: option.splits)

lemma GetWithExpire_peeks:
  assumes "lru_inv h c" and "LruCache_GetWithExpire now k (h, c) = (v, h', c')"
    and "maxAge c \<le> 0 \<or> staleReturn c \<and> \<not> updateAgeOnGet c"
  shows "v = fst (es_peek k (lru_entries h c))"
  using cache_find [OF assms(1), of k] assms(2,3)
  by (auto simp: LruCache_GetWithExpire_def LruCache_get_def es_peek_def Let_def split: option.splits)

text \<open>Every call keeps the invariant and the settings; the calls that do what their comments say do what the list machine does.\<close>

lemma lru_step_get:
  assumes "lru_ok (h, c)" and "LruCache_Get now k (h, c) = (v, h', c')"
  shows "lru_ok (h', c')" and "same_conf c c'"
    and "es_get now (updateAgeOnGet c) (staleReturn c) (maxAge c) k (lru_entries h c) = (v, lru_entries h' c')"
proof -
  have i: "lru_inv h c" "lru_bounded c" using assms(1) by (auto simp: lru_ok_def)
  show "lru_ok (h', c')" "same_conf c c'"
    using LruCache_Get_refines [OF i(1) assms(2)] bounded_shrink [OF i(2)] by (simp_all add: lru_ok_def same_conf_def)
  show "es_get now (updateAgeOnGet c) (staleReturn c) (maxAge c) k (lru_entries h c) = (v, lru_entries h' c')"
    by (simp flip: LruCache_Get_refines(2) [OF i(1) assms(2)])
qed

lemma lru_step_refines:
  assumes "lru_ok s" and "lru_step x s = (a, s')"
  shows "lru_ok s'" and "same_conf (snd s) (snd s')"
    and "as_documented (snd s) x \<Longrightarrow>
      es_step (snd s) x (lru_entries (fst s) (snd s)) = (a, lru_entries (fst s') (snd s'))"
proof -
  obtain h c h' c' where s: "s = (h, c)" "s' = (h', c')" by (cases s; cases s')
  have i: "lru_inv h c" "lru_bounded c" using assms(1) s by (auto simp: lru_ok_def)
  obtain now oper where x: "x = (now, oper)" by (cases x)
  have "lru_ok s' \<and> same_conf (snd s) (snd s') \<and> (as_documented (snd s) x \<longrightarrow>
      es_step (snd s) x (lru_entries (fst s) (snd s)) = (a, lru_entries (fst s') (snd s')))"
  proof (cases oper)
    case (OGet k)
    then obtain v where "LruCache_Get now k (h, c) = (v, h', c')" "a = AVal v"
      using assms(2) s x by (cases "LruCache_Get now k (h, c)") auto
    then show ?thesis using lru_step_get assms(1) s x OGet by fastforce
  next
    case (OGetWithExpire k)
    then obtain v where g: "LruCache_GetWithExpire now k (h, c) = (v, h', c')" "a = AExp v"
      using assms(2) s x by (cases "LruCache_GetWithExpire now k (h, c)") auto
    note st = lru_step_get [OF assms(1) [unfolded s] GetWithExpire_refines [OF i(1) g(1)]]
    have "es_peek k (lru_entries h c) = (v, lru_entries h' c')" if "as_documented c x"
    proof -
      have d: "maxAge c \<le> 0 \<or> staleReturn c \<and> \<not> updateAgeOnGet c" using that x OGetWithExpire by (simp add: as_documented_def)
      show ?thesis using GetWithExpire_peeks [OF i(1) g(1) d] st(3) es_get_peek [OF d]
        by (metis eq_snd_iff id_apply prod.collapse snd_map_prod)
    qed
    then show ?thesis using st(1,2) s x OGetWithExpire g(2) by simp
  next
    case (OExist k)
    then show ?thesis using assms s x Exist_find [OF i(1)] by (auto simp: same_conf_def)
  next
    case (OSet k v)
    then have "LruCache_SetWithExpire now k v (if maxAge c > 0 then now + maxAge c else 0) (h, c) = (h', c')"
      using assms(2) s x by (auto simp: LruCache_Set_def)
    note r = LruCache_SetWithExpire_refines [OF i(1) this]
    show ?thesis using r i(2) s x OSet assms(2) by (auto simp: lru_ok_def same_conf_def)
  next
    case (OSetWithExpire k v y)
    then have "LruCache_SetWithExpire now k v y (h, c) = (h', c')" using assms(2) s x by simp
    note r = LruCache_SetWithExpire_refines [OF i(1) this]
    show ?thesis using r i(2) s x OSetWithExpire assms(2) by (auto simp: lru_ok_def same_conf_def)
  next
    case (ODelete k)
    then have "LruCache_Delete k (h, c) = (h', c')" using assms(2) s x by simp
    note r = LruCache_Delete_refines [OF i(1) this]
    show ?thesis using r bounded_shrink [OF i(2)] s x ODelete assms(2)
      by (auto simp: lru_ok_def same_conf_def)
  qed
  then show "lru_ok s'" and "same_conf (snd s) (snd s')"
    and "as_documented (snd s) x \<Longrightarrow> es_step (snd s) x (lru_entries (fst s) (snd s)) = (a, lru_entries (fst s') (snd s'))"
    by auto
qed

lemma lru_run_simulates:
  assumes "lru_ok s" and "lru_run xs s = (as, s')"
  shows "lru_ok s' \<and> same_conf (snd s) (snd s') \<and> ((\<forall>x \<in> set xs. as_documented (snd s) x) \<longrightarrow>
    es_run (snd s) xs (lru_entries (fst s) (snd s)) = (as, lru_entries (fst s') (snd s')))"
  using assms
proof (induction xs arbitrary: s as)
  case Nil
  then show ?case by (auto simp: same_conf_def)
next
  case (Cons x xs)
  obtain a s1 where s1: "lru_step x s = (a, s1)" by (rule prod.exhaust)
  obtain as' s2 where s2: "lru_run xs s1 = (as', s2)" by (rule prod.exhaust)
  note st = lru_step_refines [OF Cons.prems(1) s1]
  have e: "as = a # as'" "s2 = s'" using Cons.prems(2) s1 s2 by auto
  show ?case using Cons.IH [OF st(1)] s2 e st es_run_conf [OF st(2)] same_conf_trans [OF st(2)] as_documented_conf [OF st(2)]
    by auto
qed

lemma New_ok: "lru_ok ([], LruCache_New opts)"
proof -
  have "lru (fold apply_option opts c) = lru c \<and> cache (fold apply_option opts c) = cache c"
    for c :: "('a, 'b) lru_cache"
  proof (induction opts arbitrary: c)
    case (Cons a opts)
    then show ?case by (cases a) auto
  qed simp
  then show ?thesis
    by (simp add: lru_ok_def lru_inv_def lru_bounded_def LruCache_New_def lru_entries_def)
qed

lemma New_entries [simp]: "lru_entries [] (LruCache_New opts) = []"
  using New_ok [of opts] by (cases "lru (LruCache_New opts)") (auto simp: lru_ok_def lru_inv_def lru_entries_def)

text \<open> C7. The cache with its map, its linked list and its shared entries refines the list of entries in
  order of use: after any sequence of calls, with any options and clock readings, the key map and
  the list agree, the size bound holds, and every answer is the one of the list machine, in which each
  method does what its comment says. \<open>GetWithExpire\<close> does not check the age and does not update the expiry
  there, so it may be called where the code keeps to that: on a cache without an age, as that of the resolver is, or one that
  returns stale entries and does not update.\<close>

theorem lru_run_refines:
  assumes "\<forall>x \<in> set xs. as_documented (LruCache_New opts) x"
  shows "case lru_run xs ([], LruCache_New opts) of (as, h, c) \<Rightarrow>
     lru_inv h c \<and> lru_bounded c \<and> es_run (LruCache_New opts) xs [] = (as, lru_entries h c)"
proof -
  obtain as h c where r: "lru_run xs ([], LruCache_New opts) = (as, h, c)"
    by (cases "lru_run xs ([], LruCache_New opts)") auto
  show ?thesis unfolding r using lru_run_simulates [OF New_ok [of opts] r] assms by (simp add: lru_ok_def)
qed

theorem lru_run_refines_witness:
  "case lru_run [(0, OSet (1 :: nat) ''x''), (9, OGetWithExpire 1)] ([], LruCache_New [WithSize 4096, WithStale True]) of (as, h, c) \<Rightarrow>
     lru_inv h c \<and> lru_bounded c \<and>
     es_run (LruCache_New [WithSize 4096, WithStale True]) [(0, OSet (1 :: nat) ''x''), (9, OGetWithExpire 1)] [] = (as, lru_entries h c)"
  by (rule lru_run_refines) (simp add: as_documented_def LruCache_New_def)

subsection \<open>What a later lookup sees\<close>

definition es_value :: "bool \<Rightarrow> int \<Rightarrow> int \<Rightarrow> ('k, 'v) lru_entry option \<Rightarrow> 'v option" where
  "es_value stale age now r =
     (case r of None \<Rightarrow> None | Some e \<Rightarrow> if \<not> stale \<and> age > 0 \<and> le_expires e \<le> now then None else Some (le_value e))"

lemma es_value_None [simp]: "es_value stale age now None = None"
  by (simp add: es_value_def)

lemma fst_es_get: "fst (es_get now upd stale age k es) = es_value stale age now (es_find k es)"
  by (simp add: es_get_def es_value_def split: option.splits)

lemma es_find_subset:
  assumes "distinct (map le_key es)" and "set fs \<subseteq> set es" and "distinct (map le_key fs)"
  shows "es_find j fs \<in> {None, es_find j es}"
proof (cases "es_find j fs")
  case (Some e)
  then have "e \<in> set es" "le_key e = j" using es_find_Some_in [of j fs e] assms(2) by auto
  then show ?thesis using es_find_distinct [OF assms(1)] Some by auto
qed simp

lemma set_tl_subset: "set (tl xs) \<subseteq> set xs"
  by (auto dest: in_set_tlD)

lemma es_find_snoc: "k \<notin> le_key ` set es \<Longrightarrow> le_key e = k \<Longrightarrow> es_find k (es @ [e]) = Some e"
  by (induction es) (auto simp: es_find_def)

lemma es_find_dropWhile_last:
  assumes "k \<notin> le_key ` set es" and "le_key e = k" and "\<not> P e"
  shows "es_find k (dropWhile P (es @ [e])) = Some e"
  using assms
proof (induction es)
  case (Cons a es)
  then show ?case using es_find_snoc [of k "a # es" e] by auto
qed (simp add: es_find_def)

lemma del_no_key: "k \<notin> le_key ` set (es_del k es)" "k \<notin> le_key ` set (tl (es_del k es))"
  by (auto simp: es_del_def dest: in_set_tlD)

lemma es_set_same:
  assumes "age > 0 \<longrightarrow> now < x"
  shows "es_find k (es_set now stale age cap k v x es) = Some \<lparr>le_key = k, le_value = v, le_expires = x\<rparr>"
proof -
  let ?e = "\<lparr>le_key = k, le_value = v, le_expires = x\<rparr>"
  have f: "es_find k (es_purge stale age now (fs @ [?e])) = Some ?e" if "k \<notin> le_key ` set fs" for fs
  proof (cases "\<not> stale \<and> age > 0")
    case True
    then show ?thesis using es_find_dropWhile_last [of k fs ?e "\<lambda>e. le_expires e \<le> now"] that assms
      by (simp add: es_purge_def)
  next
    case False
    then have "es_purge stale age now (fs @ [?e]) = fs @ [?e]" by (auto simp: es_purge_def)
    then show ?thesis using es_find_snoc [OF that, of ?e] by simp
  qed
  have "tl (es_del k es @ [?e]) = tl (es_del k es) @ [?e]" if "cap > 0" "int (length (es_del k es @ [?e])) > cap"
    using that by (cases "es_del k es") auto
  then show ?thesis using f [OF del_no_key(1)] f [OF del_no_key(2)]
    unfolding es_set_def Let_def by (auto simp del: tl_append)
qed

lemma es_set_other:
  assumes "distinct (map le_key es)" and "j \<noteq> k"
  shows "es_find j (es_set now stale age cap k v x es) \<in> {None, es_find j es}"
proof -
  let ?e = "\<lparr>le_key = k, le_value = v, le_expires = x\<rparr>"
  let ?fs = "es_del k es @ [?e]"
  have d: "distinct (map le_key ?fs)" using assms(1) del_no_key(1)
    by (auto simp: es_del_def distinct_map_filter)
  have p: "set (es_purge stale age now gs) \<subseteq> set gs" "distinct (map le_key gs) \<Longrightarrow> distinct (map le_key (es_purge stale age now gs))"
    for gs :: "('a, 'b) lru_entry list"
    by (auto simp: es_purge_def distinct_map dest: set_dropWhileD intro: inj_on_subset)
  have "es_find j (es_set now stale age cap k v x es) \<in> {None, es_find j ?fs}"
  proof (rule es_find_subset [OF d])
    show "set (es_set now stale age cap k v x es) \<subseteq> set ?fs"
      unfolding es_set_def Let_def using p(1) [of ?fs] subset_trans [OF p(1) [of "tl ?fs"] set_tl_subset]
      by (simp del: tl_append set_append)
    show "distinct (map le_key (es_set now stale age cap k v x es))"
      unfolding es_set_def Let_def using d p(2) [of ?fs] p(2) [of "tl ?fs"] by (simp add: map_tl distinct_tl)
  qed
  moreover have "es_find j ?fs = es_find j es"
    using assms(2) by (simp add: es_find_append) (simp add: es_find_def split: option.splits)
  ultimately show ?thesis by simp
qed

lemma fst_Get:
  assumes "lru_inv (fst s) (snd s)"
  shows "fst (LruCache_Get now k s) =
    es_value (staleReturn (snd s)) (maxAge (snd s)) now (es_find k (lru_entries (fst s) (snd s)))"
proof -
  obtain v h' c' where "LruCache_Get now k (fst s, snd s) = (v, h', c')"
    by (cases "LruCache_Get now k (fst s, snd s)") auto
  then show ?thesis using LruCache_Get_refines(2) [OF assms] by (metis fst_conv fst_es_get prod.collapse)
qed

text \<open>\<open>Get\<close> after \<open>Set\<close>, on a cache reached by any calls: the value stored is returned as long
  as it has not expired, and a later \<open>Get\<close> of any other key returns what it would have returned
  before or, when the entry was evicted or purged meanwhile, nothing.\<close>

theorem Get_after_Set:
  assumes "lru_run xs ([], LruCache_New opts) = (as, s)"
    and "maxAge (snd s) > 0 \<longrightarrow> now \<le> later \<and> later < now + maxAge (snd s)"
  shows "fst (LruCache_Get later k (LruCache_Set now k v s)) = Some v \<and>
    (j \<noteq> k \<longrightarrow> fst (LruCache_Get later j (LruCache_Set now k v s)) \<in> {None, fst (LruCache_Get later j s)})"
proof -
  have ok: "lru_ok s" using lru_run_simulates [OF New_ok assms(1)] by simp
  then have i: "lru_inv (fst s) (snd s)" and d: "distinct (map le_key (lru_entries (fst s) (snd s)))"
    by (auto simp: lru_ok_def lru_inv_def)
  let ?x = "if maxAge (snd s) > 0 then now + maxAge (snd s) else 0"
  obtain h' c' where e: "LruCache_Set now k v s = (h', c')" by (rule prod.exhaust)
  then have w: "LruCache_SetWithExpire now k v ?x (fst s, snd s) = (h', c')" by (simp add: LruCache_Set_def)
  note r = LruCache_SetWithExpire_refines [OF i w]
  have g: "fst (LruCache_Get later m (LruCache_Set now k v s)) =
      es_value (staleReturn (snd s)) (maxAge (snd s)) later
        (es_find m (es_set now (staleReturn (snd s)) (maxAge (snd s)) (maxSize (snd s)) k v ?x
           (lru_entries (fst s) (snd s))))" for m
    using fst_Get [of "LruCache_Set now k v s" later m] r e by simp
  have "fst (LruCache_Get later k (LruCache_Set now k v s)) = Some v"
    unfolding g using assms(2) es_set_same [of "maxAge (snd s)" now ?x k "staleReturn (snd s)"
        "maxSize (snd s)" v "lru_entries (fst s) (snd s)"] by (auto simp: es_value_def)
  moreover have "fst (LruCache_Get later j (LruCache_Set now k v s)) \<in> {None, fst (LruCache_Get later j s)}"
    if "j \<noteq> k"
    unfolding g fst_Get [OF i]
    using es_set_other [OF d that, of now "staleReturn (snd s)" "maxAge (snd s)" "maxSize (snd s)" v ?x]
    by (elim insertE) simp_all
  ultimately show ?thesis by blast
qed

theorem Get_after_Set_witness:
  "\<exists>s :: (nat, string) lru_state. lru_run [] ([], LruCache_New [WithAge 10, WithSize 2]) = ([], s) \<and>
     fst (LruCache_Get 14 1 (LruCache_Set 5 1 ''x'' s)) = Some ''x'' \<and>
     (2 \<noteq> (1 :: nat) \<longrightarrow> fst (LruCache_Get 14 2 (LruCache_Set 5 1 ''x'' s)) \<in> {None, fst (LruCache_Get 14 2 s)})"
proof -
  define s :: "(nat, string) lru_state" where "s = ([], LruCache_New [WithAge 10, WithSize 2])"
  have r: "lru_run [] ([], LruCache_New [WithAge 10, WithSize 2]) = ([], s)" by (simp add: s_def)
  have t: "maxAge (snd s) > 0 \<longrightarrow> 5 \<le> (14 :: int) \<and> 14 < 5 + maxAge (snd s)"
    by (simp add: s_def LruCache_New_def)
  show ?thesis using r Get_after_Set [OF r t, of 1 "''x''" 2] by blast
qed

text \<open>\<open>GetWithExpire\<close> does check the age: on a cache reached by any calls that has a maximum age and
  does not return stale entries, an entry whose time has come is not returned but deleted, although
  the comment of the method says that it does not check the age.\<close>

theorem GetWithExpire_drops_expired:
  assumes "lru_run xs ([], LruCache_New opts) = (as, s)" and "maxAge (snd s) > 0" and "\<not> staleReturn (snd s)"
    and "es_find k (lru_entries (fst s) (snd s)) = Some e" and "le_expires e \<le> now"
  shows "\<exists>s'. LruCache_GetWithExpire now k s = (None, s') \<and> \<not> LruCache_Exist k (snd s')"
proof -
  have ok: "lru_ok s" using lru_run_simulates [OF New_ok assms(1)] by simp
  obtain r s' where g: "LruCache_GetWithExpire now k s = (r, s')" by (rule prod.exhaust)
  have "lru_ok (fst s, snd s)" "LruCache_GetWithExpire now k (fst s, snd s) = (r, fst s', snd s')" using ok g by simp_all
  note sp = lru_step_get [OF this(1) GetWithExpire_refines [OF _ this(2)]]
  have i: "lru_inv (fst s) (snd s)" using ok by (simp add: lru_ok_def)
  have "r = None" and e: "lru_entries (fst s') (snd s') =
      es_purge (staleReturn (snd s)) (maxAge (snd s)) now (es_del k (lru_entries (fst s) (snd s)))"
    using sp(3) [OF i] assms(2-5) by (auto simp: es_get_def)
  have "k \<notin> le_key ` set (lru_entries (fst s') (snd s'))"
    unfolding e es_purge_def by (auto simp: es_del_def dest: set_dropWhileD)
  then have "\<not> LruCache_Exist k (snd s')"
    using Exist_find [of "fst s'" "snd s'" k] sp(1) [OF i] by (simp add: lru_ok_def es_find_None)
  then show ?thesis using g \<open>r = None\<close> by blast
qed

theorem GetWithExpire_drops_expired_witness:
  "\<exists>s s'. lru_run [(5, OSet (1 :: nat) ''x'')] ([], LruCache_New [WithAge 10]) = ([AUnit], s) \<and>
    LruCache_GetWithExpire 15 1 s = (None, s') \<and> \<not> LruCache_Exist 1 (snd s')"
proof -
  define s :: "(nat, string) lru_state" where "s = LruCache_Set 5 1 ''x'' ([], LruCache_New [WithAge 10])"
  have r: "lru_run [(5, OSet (1 :: nat) ''x'')] ([], LruCache_New [WithAge 10]) = ([AUnit], s)"
    by (simp add: s_def)
  have e: "es_find 1 (lru_entries (fst s) (snd s)) = Some \<lparr>le_key = 1, le_value = ''x'', le_expires = 15\<rparr>"
    and a: "maxAge (snd s) > 0" "\<not> staleReturn (snd s)"
    by (simp_all add: s_def LruCache_Set_def LruCache_SetWithExpire_def LruCache_New_def maybeDeleteOldest_def
        deleteExpired.simps lru_entries_def es_find_def)
  show ?thesis using GetWithExpire_drops_expired [OF r a e, of 15] r by auto
qed

subsection \<open>CloneTo\<close>

lemma fold_update_map:
  "distinct (map f rs) \<Longrightarrow>
   fold (\<lambda>r m. m(f r \<mapsto> r)) rs m0 k = (if k \<in> f ` set rs then Some (THE r. r \<in> set rs \<and> f r = k) else m0 k)"
proof (induction rs arbitrary: m0)
  case (Cons r rs)
  show ?case
  proof (cases "k \<in> f ` set rs")
    case True
    then have "f r \<noteq> k" using Cons.prems by auto
    then have "(\<lambda>x. x \<in> set (r # rs) \<and> f x = k) = (\<lambda>x. x \<in> set rs \<and> f x = k)" by auto
    then show ?thesis using Cons True by auto
  next
    case False
    then have "f r = k \<Longrightarrow> (THE x. x \<in> set (r # rs) \<and> f x = k) = r"
      by (intro the_equality) (simp, metis image_eqI set_ConsD)
    then show ?thesis using Cons False by auto
  qed
qed simp

lemma CloneTo_cache:
  assumes "lru_inv h c"
  shows "cache (LruCache_CloneTo h c n) = cache c"
proof
  fix k
  have d: "distinct (map (\<lambda>r. le_key (h ! r)) (lru c))"
    using assms by (simp add: lru_inv_def lru_entries_def comp_def)
  show "cache (LruCache_CloneTo h c n) k = cache c k"
  proof (cases "cache c k")
    case None
    then have "\<And>r. r \<in> set (lru c) \<Longrightarrow> le_key (h ! r) \<noteq> k"
      using assms unfolding lru_inv_def by (metis option.distinct(1))
    then have "k \<notin> (\<lambda>r. le_key (h ! r)) ` set (lru c)" by auto
    then show ?thesis using None fold_update_map [OF d] by (simp add: LruCache_CloneTo_def)
  next
    case (Some r)
    note r = lru_inv_cache [OF assms Some]
    have "(THE q. q \<in> set (lru c) \<and> le_key (h ! q) = k) = r"
      using r lru_key_inj [OF assms] by (intro the_equality) auto
    moreover have "k \<in> (\<lambda>r. le_key (h ! r)) ` set (lru c)" using r by blast
    ultimately show ?thesis using Some fold_update_map [OF d, of Map.empty k] by (simp add: LruCache_CloneTo_def)
  qed
qed

lemma CloneTo_refines:
  assumes "lru_inv h c"
  shows "lru_inv h (LruCache_CloneTo h c n)" and "lru_entries h (LruCache_CloneTo h c n) = lru_entries h c"
    and "same_conf n (LruCache_CloneTo h c n)"
proof -
  have l: "lru (LruCache_CloneTo h c n) = lru c" by (simp add: LruCache_CloneTo_def)
  show e: "lru_entries h (LruCache_CloneTo h c n) = lru_entries h c" by (simp add: lru_entries_def l)
  show "lru_inv h (LruCache_CloneTo h c n)"
    using assms CloneTo_cache [OF assms] e l by (simp add: lru_inv_def)
  show "same_conf n (LruCache_CloneTo h c n)" by (simp add: same_conf_def LruCache_CloneTo_def)
qed

text \<open>The clone that \<open>CloneTo\<close> makes holds the entries of its source, but not copies of them: when the
  source later stores a new value for a key it has, the clone returns the new value too.\<close>

theorem CloneTo_shares_entries:
  assumes "lru_run xs ([], LruCache_New opts) = (as, h, c)" and "LruCache_Exist k c"
    and "LruCache_SetWithExpire now k v x (h, c) = (h', c')" and "maxAge n = 0"
  shows "fst (LruCache_Get t k (h', LruCache_CloneTo h c n)) = Some v"
proof -
  have ok: "lru_inv h c" using lru_run_simulates [OF New_ok assms(1)] by (simp add: lru_ok_def)
  obtain r where r: "cache c k = Some r" using assms(2) by (auto simp: LruCache_Exist_def)
  note k = lru_inv_cache [OF ok r]
  have h': "h' = h[r := (h ! r)\<lparr>le_value := v, le_expires := x\<rparr>]"
    using assms(3) r by (auto simp: LruCache_SetWithExpire_def Let_def)
  have "cache (LruCache_CloneTo h c n) k = Some r" using CloneTo_cache [OF ok] r by simp
  moreover have "maxAge (LruCache_CloneTo h c n) = 0" using assms(4) by (simp add: LruCache_CloneTo_def)
  ultimately show ?thesis using k h' by (simp add: LruCache_Get_def LruCache_get_def Let_def)
qed

theorem CloneTo_shares_entries_witness:
  "\<exists>h c h' c'. lru_run [(0, OSet (1 :: nat) ''x'')] ([], LruCache_New []) = ([AUnit], h, c) \<and>
    LruCache_SetWithExpire 0 1 ''y'' 0 (h, c) = (h', c') \<and>
    fst (LruCache_Get 0 1 (h', LruCache_CloneTo h c (LruCache_New []))) = Some ''y''"
proof -
  define s :: "(nat, string) lru_state" where "s = LruCache_Set 0 1 ''x'' ([], LruCache_New [])"
  obtain h c where hc: "s = (h, c)" by (cases s)
  obtain h' c' where w: "LruCache_SetWithExpire 0 1 ''y'' 0 (h, c) = (h', c')" by (rule prod.exhaust)
  have r: "lru_run [(0, OSet (1 :: nat) ''x'')] ([], LruCache_New []) = ([AUnit], h, c)"
    using hc by (simp add: s_def)
  have e: "LruCache_Exist 1 c" using hc
    by (auto simp: s_def LruCache_Set_def LruCache_SetWithExpire_def LruCache_New_def maybeDeleteOldest_def
        LruCache_Exist_def)
  have "maxAge (LruCache_New [] :: (nat, string) lru_cache) = 0" by (simp add: LruCache_New_def)
  from CloneTo_shares_entries [OF r e w this] show ?thesis using r w by blast
qed

subsection \<open>The interface of a cache\<close>

text \<open>
  What the program's clients of a cache rely on: a lookup returns what is held, a store makes the
  key hold the value, and no operation changes what another key holds except by dropping it.
\<close>

locale kv_cache =
  fixes ok :: "'s \<Rightarrow> bool"
    and held :: "'s \<Rightarrow> 'k \<Rightarrow> 'v option"
    and get :: "'k \<Rightarrow> 's \<Rightarrow> 'v option \<times> 's"
    and put :: "'k \<Rightarrow> 'v \<Rightarrow> 's \<Rightarrow> 's"
    and del :: "'k \<Rightarrow> 's \<Rightarrow> 's"
  assumes get_result: "ok s \<Longrightarrow> fst (get k s) = held s k"
    and get_keeps: "ok s \<Longrightarrow> ok (snd (get k s)) \<and> held (snd (get k s)) = held s"
    and put_ok: "ok s \<Longrightarrow> ok (put k v s)"
    and put_same: "ok s \<Longrightarrow> held (put k v s) k = Some v"
    and put_other: "ok s \<Longrightarrow> j \<noteq> k \<Longrightarrow> held (put k v s) j \<in> {None, held s j}"
    and del_ok: "ok s \<Longrightarrow> ok (del k s)"
    and del_held: "ok s \<Longrightarrow> held (del k s) = (held s)(k := None)"
begin

text \<open>Every value held was stored under its key: a property of stored pairs is kept.\<close>

definition sound :: "('k \<Rightarrow> 'v \<Rightarrow> bool) \<Rightarrow> 's \<Rightarrow> bool" where
  "sound P s \<longleftrightarrow> ok s \<and> (\<forall>k v. held s k = Some v \<longrightarrow> P k v)"

lemma sound_get: "sound P s \<Longrightarrow> sound P (snd (get k s))"
  using get_keeps [of s k] by (auto simp: sound_def)

lemma sound_hit: "sound P s \<Longrightarrow> fst (get k s) = Some v \<Longrightarrow> P k v"
  using get_result [of s k] by (auto simp: sound_def)

lemma sound_put: "sound P s \<Longrightarrow> P k v \<Longrightarrow> sound P (put k v s)"
  unfolding sound_def using put_ok put_same put_other
  by (metis insertE option.distinct(1) option.inject singletonD)

lemma sound_del: "sound P s \<Longrightarrow> sound P (del k s)"
  using del_ok [of s k] del_held [of s k] by (auto simp: sound_def)

lemma get_after_put: "ok s \<Longrightarrow> fst (get k (put k v s)) = Some v"
  using get_result put_ok put_same by metis

end

definition lru_held :: "('k, 'v) lru_state \<Rightarrow> 'k \<Rightarrow> 'v option" where
  "lru_held s k = map_option le_value (es_find k (lru_entries (fst s) (snd s)))"

definition ageless :: "('k, 'v) lru_state \<Rightarrow> bool" where
  "ageless s \<longleftrightarrow> lru_ok s \<and> maxAge (snd s) = 0"

lemma ageless_step:
  assumes "ageless s" and "lru_step x s = (a, s')"
  shows "ageless s'" and "es_step (snd s) x (lru_entries (fst s) (snd s)) = (a, lru_entries (fst s') (snd s'))"
  using lru_step_refines [of s x a s'] assms by (auto simp: ageless_def same_conf_def as_documented_def split: lru_op.splits)

lemma ageless_distinct: "ageless s \<Longrightarrow> distinct (map le_key (lru_entries (fst s) (snd s)))"
  by (auto simp: ageless_def lru_ok_def lru_inv_def)

lemma es_find_moved: "es_find k es = Some e \<Longrightarrow> es_find j (es_del k es @ [e]) = es_find j es"
proof (cases "j = k")
  case True
  assume "es_find k es = Some e"
  then show ?thesis using True es_find_snoc [OF del_no_key(1), of e k es] es_find_Some_in [of k es e] by simp
next
  case False
  assume "es_find k es = Some e"
  then have "es_find j [e] = None" using False es_find_Some_in [of k es e] by (simp add: es_find_def)
  then show ?thesis using False by (simp add: es_find_append split: option.splits)
qed

interpretation lru_kv: kv_cache ageless lru_held "LruCache_Get 0" "LruCache_Set 0" LruCache_Delete
proof
  fix s :: "('a, 'b) lru_state" and j k :: 'a and v :: 'b
  assume a: "ageless s"
  obtain r s1 where g: "LruCache_Get 0 k s = (r, s1)" by (rule prod.exhaust)
  have "lru_step (0, OGet k) s = (AVal r, s1)" using g by simp
  note sg = ageless_step [OF a this]
  have m: "maxAge (snd s) = 0" using a by (simp add: ageless_def)
  show "fst (LruCache_Get 0 k s) = lru_held s k"
    using sg(2) g m by (auto simp: lru_held_def es_get_def split: option.splits)
  show "ageless (snd (LruCache_Get 0 k s)) \<and> lru_held (snd (LruCache_Get 0 k s)) = lru_held s"
    using sg g m es_find_moved by (fastforce simp: lru_held_def es_get_def split: option.splits)
  have "lru_step (0, OSet k v) s = (AUnit, LruCache_Set 0 k v s)" by simp
  note sp = ageless_step [OF a this]
  show "ageless (LruCache_Set 0 k v s)" by (rule sp(1))
  show "lru_held (LruCache_Set 0 k v s) k = Some v"
    using sp(2) m es_set_same [of 0 0 0 k "staleReturn (snd s)" "maxSize (snd s)" v "lru_entries (fst s) (snd s)"]
    by (auto simp: lru_held_def)
  show "lru_held (LruCache_Set 0 k v s) j \<in> {None, lru_held s j}" if "j \<noteq> k"
    using sp(2) m es_set_other [OF ageless_distinct [OF a] that, of 0 "staleReturn (snd s)" 0 "maxSize (snd s)" v 0]
    by (auto simp: lru_held_def)
  have "lru_step (0, ODelete k) s = (AUnit, LruCache_Delete k s)" by simp
  note sd = ageless_step [OF a this]
  show "ageless (LruCache_Delete k s)" by (rule sd(1))
  have e: "lru_entries (fst (LruCache_Delete k s)) (snd (LruCache_Delete k s)) =
      es_del k (lru_entries (fst s) (snd s))"
    using sd(2) by simp
  show "lru_held (LruCache_Delete k s) = (lru_held s)(k := None)"
    by (rule ext) (simp add: lru_held_def e)
qed

lemma ageless_New: "ageless ([], LruCache_New [WithSize n])"
  using New_ok [of "[WithSize n]"] by (simp add: ageless_def LruCache_New_def)

end
