(* ===== verification/RuleEngine.thy ===== *)
theory RuleEngine
  imports GoNet DomainTrie LruRuns
begin

text \<open>
  The rule engine of \<open>src/internal/cfg/distribution/rule_engine/\<close>: the rule kinds (\<open>builtIn.go\<close>,
  \<open>domain.go\<close>, \<open>ipcidr.go\<close>, \<open>process.go\<close>, \<open>dnsMap.go\<close>), the parser of rule lines and rule files
  (\<open>parser.go\<close>, \<open>src/pkg/list/list.go\<close>) and the engine that finds the first matching rule and
  caches it (\<open>base.go\<close>).

  Parameters of the model, as the code takes them from outside \<open>src/\<close>: the compiler of regular
  expressions and the operating system (\<open>platform\<close>), the files embedded at build time (\<open>files\<close>),
  and the LRU cache of \<open>hashicorp/golang-lru\<close> (\<open>lru_api\<close>), of which the theorems use the laws of
  the interface \<open>kv_cache\<close>. File paths are those of Unix systems.
\<close>

subsection \<open>Policies and rule types (constants.go)\<close>

type_synonym policy = string
type_synonym rule_type = string

definition PolicyDirect :: policy where "PolicyDirect = ''DIRECT''"
definition PolicyProxy :: policy where "PolicyProxy = ''PROXY''"
definition PolicyReject :: policy where "PolicyReject = ''REJECT''"

definition RuleIpCidr :: rule_type where "RuleIpCidr = ''IP-CIDR''"
definition RuleDomain :: rule_type where "RuleDomain = ''DOMAIN''"
definition RuleDomainKeyword :: rule_type where "RuleDomainKeyword = ''DOMAIN-KEYWORD''"
definition RuleDomainRegex :: rule_type where "RuleDomainRegex = ''DOMAIN-REGEX''"
definition RuleDomainSuffix :: rule_type where "RuleDomainSuffix = ''DOMAIN-SUFFIX''"
definition RuleProcess :: rule_type where "RuleProcess = ''PROCESS''"
definition RuleDnsMap :: rule_type where "RuleDnsMap = ''DNS-MAP''"
definition RuleBuiltIn :: rule_type where "RuleBuiltIn = ''BUILT-IN''"

definition IpRuleTypes :: "rule_type list" where
  "IpRuleTypes = [RuleIpCidr]"
definition DomainRuleTypes :: "rule_type list" where
  "DomainRuleTypes = [RuleDomain, RuleDomainSuffix, RuleDomainRegex, RuleDomainKeyword, RuleDnsMap]"
definition ProcessRuleTypes :: "rule_type list" where
  "ProcessRuleTypes = [RuleProcess]"

lemmas policies = PolicyDirect_def PolicyProxy_def PolicyReject_def
lemmas rule_types = RuleIpCidr_def RuleDomain_def RuleDomainKeyword_def RuleDomainRegex_def
  RuleDomainSuffix_def RuleProcess_def RuleDnsMap_def RuleBuiltIn_def
lemmas rule_type_lists = IpRuleTypes_def DomainRuleTypes_def ProcessRuleTypes_def

subsection \<open>Rules\<close>

text \<open>What rules need from the platform: \<open>runtime.GOOS\<close> and \<open>regexp.Compile\<close> with \<open>MatchString\<close>.\<close>

record platform =
  goos :: string
  regexp_compile :: "string \<Rightarrow> (string \<Rightarrow> bool) option"

datatype rule_error =
    ErrNotFound | ErrInvalidRule | ErrRuleLine | ErrPolicy | ErrRuleType | ErrOpenFile | ErrNewCache | ErrIp

text \<open>\<open>filepath.Base\<close> with separator \<open>/\<close>.\<close>

definition filepath_Base :: "string \<Rightarrow> string" where
  "filepath_Base path =
     (if path = [] then ''.''
      else let p = rev (dropWhile (\<lambda>c. c = CHR ''/'') (rev path)) in
        if p = [] then ''/'' else rev (takeWhile (\<lambda>c. c \<noteq> CHR ''/'') (rev p)))"

record builtin_rule =
  bi_RuleType :: rule_type
  bi_Payload :: string
  bi_Policy :: policy

definition builtIn_Match :: "builtin_rule \<Rightarrow> string \<Rightarrow> bool" where
  "builtIn_Match p value = equal_fold (filepath_Base value) (bi_Payload p)"

definition builtIn_Valid :: "builtin_rule \<Rightarrow> bool" where
  "builtIn_Valid p = True"

definition newBuiltIn :: "string \<Rightarrow> policy \<Rightarrow> rule_error + builtin_rule" where
  "newBuiltIn payload policy =
     (let r = \<lparr>bi_RuleType = RuleBuiltIn, bi_Payload = payload, bi_Policy = policy\<rparr>
      in if \<not> builtIn_Valid r then Inl ErrInvalidRule else Inr r)"

record domain_rule =
  dr_RuleType :: rule_type
  dr_Payload :: string
  dr_Policy :: policy

definition isContainsDomain :: "platform \<Rightarrow> rule_type \<Rightarrow> string \<Rightarrow> string \<Rightarrow> bool" where
  "isContainsDomain P rType value s =
     (if rType = RuleDomainKeyword then contains_str s (to_lower value)
      else if rType = RuleDomainRegex then
        (case regexp_compile P value of None \<Rightarrow> False | Some pattern \<Rightarrow> pattern s)
      else if rType = RuleDomainSuffix then
        (if \<not> has_suffix s (to_lower value) then False
         else length s = length value \<or> s ! (length s - length value - 1) = CHR ''.'')
      else if rType = RuleDomain then equal_fold value s
      else False)"

definition Domain_Match :: "platform \<Rightarrow> domain_rule \<Rightarrow> string \<Rightarrow> bool" where
  "Domain_Match P d value = isContainsDomain P (dr_RuleType d) (dr_Payload d) value"

definition Domain_Valid :: "domain_rule \<Rightarrow> bool" where
  "Domain_Valid d = (length (dr_Payload d) \<noteq> 0)"

definition NewDomainRule :: "rule_type \<Rightarrow> string \<Rightarrow> policy \<Rightarrow> rule_error + domain_rule" where
  "NewDomainRule ruleType payload policy =
     (let r = \<lparr>dr_RuleType = ruleType, dr_Payload = payload, dr_Policy = policy\<rparr>
      in if \<not> Domain_Valid r then Inl ErrInvalidRule else Inr r)"

record ipcidr_rule =
  ic_RuleType :: rule_type
  ic_Payload :: string
  ic_prefix :: netip_prefix
  ic_Policy :: policy

definition IpCidr_Match :: "ipcidr_rule \<Rightarrow> string \<Rightarrow> bool" where
  "IpCidr_Match i value =
     (case ParseAddr value of None \<Rightarrow> False | Some ip \<Rightarrow> Prefix_Contains (ic_prefix i) ip)"

definition IpCidr_Valid :: "ipcidr_rule \<Rightarrow> bool" where
  "IpCidr_Valid i = (ParsePrefix (ic_Payload i) \<noteq> None)"

definition NewIpCidrRule :: "string \<Rightarrow> policy \<Rightarrow> rule_error + ipcidr_rule" where
  "NewIpCidrRule payload policy =
     (case ParsePrefix payload of
        None \<Rightarrow> Inl ErrInvalidRule
      | Some prefix \<Rightarrow> Inr \<lparr>ic_RuleType = RuleIpCidr, ic_Payload = payload, ic_prefix = prefix, ic_Policy = policy\<rparr>)"

record process_rule =
  pr_RuleType :: rule_type
  pr_Payload :: string
  pr_Policy :: policy

definition Process_Match :: "platform \<Rightarrow> process_rule \<Rightarrow> string \<Rightarrow> bool" where
  "Process_Match P p value =
     (let processName =
        (if goos P = ''darwin''
         then (case find (\<lambda>s. has_suffix s ''.app'') (split_on (CHR ''/'') value) of
                 Some part \<Rightarrow> part | None \<Rightarrow> filepath_Base value)
         else filepath_Base value)
      in equal_fold processName (pr_Payload p))"

definition Process_Valid :: "process_rule \<Rightarrow> bool" where
  "Process_Valid p = (length (pr_Payload p) \<noteq> 0)"

definition NewProcessRule :: "rule_type \<Rightarrow> string \<Rightarrow> policy \<Rightarrow> rule_error + process_rule" where
  "NewProcessRule ruleType payload policy =
     (let r = \<lparr>pr_RuleType = ruleType, pr_Payload = trim_space payload, pr_Policy = policy\<rparr>
      in if \<not> Process_Valid r then Inl ErrInvalidRule else Inr r)"

record dnsmap_rule =
  dm_RuleType :: rule_type
  dm_Payload :: string
  dm_domainTrie :: "string domain_trie"
  dm_domain :: string
  dm_ip :: string
  dm_Policy :: policy

definition DnsMap_Valid :: "dnsmap_rule \<Rightarrow> bool" where
  "DnsMap_Valid d =
     (if length (dm_domain d) = 0 then False
      else ParseAddr (dm_ip d) \<noteq> None)"

definition DnsMap_Match :: "dnsmap_rule \<Rightarrow> string \<Rightarrow> bool" where
  "DnsMap_Match d value = (Trie_Search value (dm_domainTrie d) \<noteq> None)"

definition DnsMap_GetIp :: "dnsmap_rule \<Rightarrow> rule_error + go_ip" where
  "DnsMap_GetIp d = (let ip = ParseIP (dm_ip d) in if ip = [] then Inl ErrIp else Inr ip)"

definition trimArr :: "string list \<Rightarrow> string list" where
  "trimArr arr = map trim_space arr"

definition NewDnsMapRule :: "string \<Rightarrow> policy \<Rightarrow> rule_error + dnsmap_rule" where
  "NewDnsMapRule payload policy =
     (let chunks = trimArr (split_on (CHR '';'') (trim_space payload)) in
      if length chunks \<noteq> 2 then Inl ErrInvalidRule
      else
        let r = \<lparr>dm_RuleType = RuleDnsMap, dm_Payload = payload, dm_domainTrie = Trie_New,
                 dm_domain = chunks ! 0, dm_ip = chunks ! 1, dm_Policy = policy\<rparr>
        in if \<not> DnsMap_Valid r then Inl ErrInvalidRule
           else (case Trie_Insert (dm_domain r) (Some (dm_ip r)) Trie_New of
             Inl _ \<Rightarrow> Inl ErrInvalidRule
           | Inr t \<Rightarrow> Inr (r\<lparr>dm_domainTrie := t\<rparr>)))"

subsection \<open>The interface Rule\<close>

datatype rule =
    RBuiltIn builtin_rule | RDomain domain_rule | RIpCidr ipcidr_rule | RProcess process_rule
  | RDnsMap dnsmap_rule

primrec Rule_Match :: "platform \<Rightarrow> rule \<Rightarrow> string \<Rightarrow> bool" where
  "Rule_Match P (RBuiltIn r) v = builtIn_Match r v"
| "Rule_Match P (RDomain r) v = Domain_Match P r v"
| "Rule_Match P (RIpCidr r) v = IpCidr_Match r v"
| "Rule_Match P (RProcess r) v = Process_Match P r v"
| "Rule_Match P (RDnsMap r) v = DnsMap_Match r v"

primrec Rule_Value :: "rule \<Rightarrow> string" where
  "Rule_Value (RBuiltIn r) = bi_Payload r"
| "Rule_Value (RDomain r) = dr_Payload r"
| "Rule_Value (RIpCidr r) = Prefix_String (ic_prefix r)"
| "Rule_Value (RProcess r) = pr_Payload r"
| "Rule_Value (RDnsMap r) = dm_Payload r"

primrec Rule_GetPolicy :: "rule \<Rightarrow> policy" where
  "Rule_GetPolicy (RBuiltIn r) = bi_Policy r"
| "Rule_GetPolicy (RDomain r) = dr_Policy r"
| "Rule_GetPolicy (RIpCidr r) = ic_Policy r"
| "Rule_GetPolicy (RProcess r) = pr_Policy r"
| "Rule_GetPolicy (RDnsMap r) = dm_Policy r"

primrec Rule_Type :: "rule \<Rightarrow> rule_type" where
  "Rule_Type (RBuiltIn r) = bi_RuleType r"
| "Rule_Type (RDomain r) = dr_RuleType r"
| "Rule_Type (RIpCidr r) = RuleIpCidr"
| "Rule_Type (RProcess r) = RuleProcess"
| "Rule_Type (RDnsMap r) = RuleDnsMap"

primrec Rule_Valid :: "rule \<Rightarrow> bool" where
  "Rule_Valid (RBuiltIn r) = builtIn_Valid r"
| "Rule_Valid (RDomain r) = Domain_Valid r"
| "Rule_Valid (RIpCidr r) = IpCidr_Valid r"
| "Rule_Valid (RProcess r) = Process_Valid r"
| "Rule_Valid (RDnsMap r) = DnsMap_Valid r"

definition BuiltInProxyRule :: rule where
  "BuiltInProxyRule = RBuiltIn \<lparr>bi_RuleType = RuleBuiltIn, bi_Payload = ''*'', bi_Policy = PolicyProxy\<rparr>"

definition BuiltInRejectRule :: rule where
  "BuiltInRejectRule = RBuiltIn \<lparr>bi_RuleType = RuleBuiltIn, bi_Payload = ''*'', bi_Policy = PolicyReject\<rparr>"

lemma BuiltIn_rules:
  "newBuiltIn ''*'' PolicyProxy = Inr r \<Longrightarrow> BuiltInProxyRule = RBuiltIn r"
  "newBuiltIn ''*'' PolicyReject = Inr r \<Longrightarrow> BuiltInRejectRule = RBuiltIn r"
  by (auto simp: newBuiltIn_def builtIn_Valid_def BuiltInProxyRule_def BuiltInRejectRule_def)

subsection \<open>Rule lines and rule files (parser.go, list.go)\<close>

definition wrap :: "('a \<Rightarrow> rule) \<Rightarrow> rule_error + 'a \<Rightarrow> rule_error + rule" where
  "wrap f r = (case r of Inl e \<Rightarrow> Inl e | Inr x \<Rightarrow> Inr (f x))"

definition ParseItem :: "string \<Rightarrow> string \<Rightarrow> string \<Rightarrow> rule_error + rule" where
  "ParseItem ruleType value policy =
     (if policy \<notin> set [PolicyDirect, PolicyReject, PolicyProxy] then Inl ErrPolicy
      else if ruleType = RuleIpCidr then wrap RIpCidr (NewIpCidrRule value policy)
      else if ruleType = RuleDomain then wrap RDomain (NewDomainRule ruleType value policy)
      else if ruleType = RuleDomainKeyword then wrap RDomain (NewDomainRule ruleType value policy)
      else if ruleType = RuleDomainSuffix then wrap RDomain (NewDomainRule ruleType value policy)
      else if ruleType = RuleDomainRegex then wrap RDomain (NewDomainRule ruleType value policy)
      else if ruleType = RuleProcess then wrap RProcess (NewProcessRule ruleType value policy)
      else if ruleType = RuleDnsMap then wrap RDnsMap (NewDnsMapRule value policy)
      else Inl ErrRuleType)"

definition ParseRawValue :: "string \<Rightarrow> rule_error + rule" where
  "ParseRawValue line =
     (let chunks = trimArr (split_on (CHR '','') (trim_space line)) in
      if length chunks \<noteq> 3 then Inl ErrRuleLine
      else ParseItem (chunks ! 0) (chunks ! 1) (chunks ! 2))"

text \<open>
  \<open>bufio.Scanner\<close> with \<open>ScanLines\<close>: lines end at a newline, a carriage return before it is
  dropped, the text after the last newline is a line unless it is empty, and the scan stops at a line that does not
  fit the buffer of 64 KiB.
\<close>

definition drop_cr :: "string \<Rightarrow> string" where
  "drop_cr l = (if l \<noteq> [] \<and> last l = CHR 0x0D then butlast l else l)"

definition scan_lines :: "string \<Rightarrow> string list" where
  "scan_lines content =
     (let ls = split_on (CHR 0x0A) content;
          ls' = (if last ls = [] then butlast ls else ls)
      in map drop_cr (takeWhile (\<lambda>l. length l < 65536) ls'))"

fun keep_line :: "string \<Rightarrow> string option" where
  "keep_line line =
     (if length line = 0 \<or> has_prefix line ''#'' then None
      else let t = trim_space line in if t \<noteq> [] then Some t else None)"

definition ParseFile :: "string \<Rightarrow> string list" where
  "ParseFile content = List.map_filter keep_line (scan_lines content)"

definition readFile :: "(string \<Rightarrow> string option) \<Rightarrow> string \<Rightarrow> rule_error + string list" where
  "readFile files path =
     (case files path of None \<Rightarrow> Inl ErrOpenFile | Some content \<Rightarrow> Inr (ParseFile content))"

definition parse_lines :: "string list \<Rightarrow> rule list" where
  "parse_lines ls = List.map_filter (\<lambda>l. case ParseRawValue l of Inl _ \<Rightarrow> None | Inr r \<Rightarrow> Some r) ls"

definition Parse :: "(string \<Rightarrow> string option) \<Rightarrow> string \<Rightarrow> string list \<Rightarrow> rule_error + rule list" where
  "Parse files name extraRules =
     (case readFile files (''rules/'' @ name) of
        Inl e \<Rightarrow> Inl e
      | Inr builtInItems \<Rightarrow> Inr (parse_lines extraRules @ parse_lines builtInItems))"

subsection \<open>The engine (base.go)\<close>

text \<open>The calls of \<open>golang-lru\<close> that the program makes; \<open>'c\<close> is the state of the cache.\<close>

record ('c, 'v) lru_api =
  api_New :: "int \<Rightarrow> 'c option"
  api_Get :: "string \<Rightarrow> 'c \<Rightarrow> 'v option \<times> 'c"
  api_Add :: "string \<Rightarrow> 'v \<Rightarrow> 'c \<Rightarrow> 'c"
  api_Purge :: "'c \<Rightarrow> 'c"

record 'c engine =
  eng_rules :: "rule list"
  eng_cache :: 'c

definition Engine_New ::
  "('c, rule) lru_api \<Rightarrow> (string \<Rightarrow> string option) \<Rightarrow> string \<Rightarrow> string list \<Rightarrow> rule_error + 'c engine" where
  "Engine_New L files name extraRules =
     (case Parse files name extraRules of
        Inl e \<Rightarrow> Inl e
      | Inr rules \<Rightarrow>
          (case api_New L 1024 of
             None \<Rightarrow> Inl ErrNewCache
           | Some c \<Rightarrow> Inr \<lparr>eng_rules = rules, eng_cache = c\<rparr>))"

definition Engine_Match ::
  "platform \<Rightarrow> ('c, rule) lru_api \<Rightarrow> string \<Rightarrow> rule_type list \<Rightarrow> 'c engine \<Rightarrow> (rule_error + rule) \<times> 'c engine" where
  "Engine_Match P L value types e =
     (case api_Get L value (eng_cache e) of
        (Some r, c) \<Rightarrow> (Inr r, e\<lparr>eng_cache := c\<rparr>)
      | (None, c) \<Rightarrow>
          (case find (\<lambda>r. Rule_Type r \<in> set types \<and> Rule_Match P r value) (eng_rules e) of
             Some r \<Rightarrow> (Inr r, e\<lparr>eng_cache := api_Add L value r c\<rparr>)
           | None \<Rightarrow> (Inl ErrNotFound, e\<lparr>eng_cache := c\<rparr>)))"

definition Engine_AddCache :: "('c, rule) lru_api \<Rightarrow> string \<Rightarrow> rule \<Rightarrow> 'c engine \<Rightarrow> 'c engine" where
  "Engine_AddCache L value r e = e\<lparr>eng_cache := api_Add L value r (eng_cache e)\<rparr>"

end
