(* ===== verification/RuleProps.thy ===== *)
theory RuleProps
  imports RuleEngine
begin

text \<open>
  What the rules of \<open>RuleEngine\<close> match and what the parser and the engine promise: the meaning of
  each kind of rule in terms of host names and address ranges, the form of parsed rules, the round trip of
  a rule line, and the equivalence of the caching engine with the first match in rule order.
\<close>

text \<open>A platform for the witnesses.\<close>

definition demo_platform :: platform where
  "demo_platform = \<lparr>goos = ''linux'', regexp_compile = (\<lambda>_. None)\<rparr>"

subsection \<open>Domain rules\<close>

lemma has_suffix_cases:
  assumes "has_suffix s p"
  shows "s = p \<or> (\<exists>t c. s = t @ c # p \<and> length s \<noteq> length p \<and> s ! (length s - length p - 1) = c)"
proof -
  obtain t where t: "s = t @ p" using assms by (auto simp: has_suffix_iff)
  show ?thesis
  proof (cases t rule: rev_cases)
    case Nil
    then show ?thesis using t by simp
  next
    case (snoc u c)
    then show ?thesis using t by (auto simp: nth_append)
  qed
qed

text \<open>A DOMAIN-SUFFIX rule matches exactly the hosts that are the lower-case payload itself or end in a
  dot followed by it: never a host that merely ends in the same letters.\<close>

theorem domain_suffix_iff:
  "Rule_Match P (RDomain \<lparr>dr_RuleType = RuleDomainSuffix, dr_Payload = v, dr_Policy = p\<rparr>) s \<longleftrightarrow>
     s = to_lower v \<or> (\<exists>t. s = t @ CHR ''.'' # to_lower v)"
proof -
  have "Rule_Match P (RDomain \<lparr>dr_RuleType = RuleDomainSuffix, dr_Payload = v, dr_Policy = p\<rparr>) s \<longleftrightarrow>
      has_suffix s (to_lower v) \<and> (length s = length v \<or> s ! (length s - length v - 1) = CHR ''.'')"
    by (simp add: Domain_Match_def isContainsDomain_def rule_types)
  also have "\<dots> \<longleftrightarrow> s = to_lower v \<or> (\<exists>t. s = t @ CHR ''.'' # to_lower v)"
  proof
    assume a: "has_suffix s (to_lower v) \<and> (length s = length v \<or> s ! (length s - length v - 1) = CHR ''.'')"
    then show "s = to_lower v \<or> (\<exists>t. s = t @ CHR ''.'' # to_lower v)"
      using has_suffix_cases [of s "to_lower v"] by auto
  next
    assume "s = to_lower v \<or> (\<exists>t. s = t @ CHR ''.'' # to_lower v)"
    then show "has_suffix s (to_lower v) \<and> (length s = length v \<or> s ! (length s - length v - 1) = CHR ''.'')"
    proof (elim disjE exE)
      fix t assume t: "s = t @ CHR ''.'' # to_lower v"
      have "has_suffix s (to_lower v)" unfolding has_suffix_iff using t by (intro exI [of _ "t @ ''.''"]) simp
      moreover have "s ! (length s - length v - 1) = CHR ''.''" using t by (simp add: nth_append)
      ultimately show ?thesis by simp
    qed (auto simp: has_suffix_iff)
  qed
  finally show ?thesis .
qed

text \<open>DOMAIN and DOMAIN-KEYWORD disagree about letter case: a DOMAIN rule ignores the case of the host,
  while a DOMAIN-KEYWORD rule looks for the lower-case payload in the host as it is given, so that it
  never matches a host that spells the keyword with an upper-case letter.\<close>

theorem domain_rules_and_case:
  "(Rule_Match P (RDomain \<lparr>dr_RuleType = RuleDomain, dr_Payload = v, dr_Policy = p\<rparr>) s \<longleftrightarrow> to_lower s = to_lower v) \<and>
   (Rule_Match P (RDomain \<lparr>dr_RuleType = RuleDomainKeyword, dr_Payload = v, dr_Policy = p\<rparr>) s \<longleftrightarrow>
      (\<exists>t u. s = t @ to_lower v @ u))"
  by (auto simp: Domain_Match_def isContainsDomain_def rule_types equal_fold_def contains_str_iff)

subsection \<open>DNS-MAP rules\<close>

lemma NewDnsMapRule_Inr:
  assumes "NewDnsMapRule payload policy = Inr r"
  shows "trimArr (split_on (CHR '';'') (trim_space payload)) = [dm_domain r, dm_ip r]"
    and "build [(dm_domain r, dm_ip r)] Trie_New = Inr (dm_domainTrie r)"
    and "dm_domain r \<noteq> []" and "ParseAddr (dm_ip r) \<noteq> None" and "dm_Policy r = policy"
    and "dm_Payload r = payload"
proof -
  let ?ch = "trimArr (split_on (CHR '';'') (trim_space payload))"
  have l: "length ?ch = 2" using assms by (auto simp: NewDnsMapRule_def Let_def split: if_splits)
  then obtain d i where ch: "?ch = [d, i]"
    by (cases ?ch; cases "tl ?ch") auto
  from assms show "?ch = [dm_domain r, dm_ip r]"
    and "build [(dm_domain r, dm_ip r)] Trie_New = Inr (dm_domainTrie r)"
    and "dm_domain r \<noteq> []" and "ParseAddr (dm_ip r) \<noteq> None" and "dm_Policy r = policy"
    and "dm_Payload r = payload"
    by (auto simp: NewDnsMapRule_def DnsMap_Valid_def Let_def ch split: if_splits sum.splits)
qed

text \<open>A DNS-MAP rule that the constructor accepts matches exactly the well-formed domains that its
  domain pattern matches, and its address is one that \<open>netip.ParseAddr\<close> reads.\<close>

theorem dns_map_matches_pattern:
  assumes "NewDnsMapRule payload policy = Inr r"
  shows "(Rule_Match P (RDnsMap r) host \<longleftrightarrow>
      (\<exists>parts. ValidAndSplitDomain host = Some parts \<and> hd parts \<noteq> []) \<and> pattern_match (dm_domain r) host) \<and>
    ParseAddr (dm_ip r) \<noteq> None"
  using build_Search [OF NewDnsMapRule_Inr(2) [OF assms], of host] NewDnsMapRule_Inr(4) [OF assms]
  by (simp add: DnsMap_Match_def)

theorem dns_map_matches_pattern_witness:
  "\<exists>r. NewDnsMapRule ''+.a.b;1.2.3.4'' PolicyDirect = Inr r \<and>
    (Rule_Match demo_platform (RDnsMap r) ''x.a.b'' \<longleftrightarrow>
      (\<exists>parts. ValidAndSplitDomain ''x.a.b'' = Some parts \<and> hd parts \<noteq> []) \<and> pattern_match (dm_domain r) ''x.a.b'') \<and>
    ParseAddr (dm_ip r) \<noteq> None"
proof -
  have s: "trimArr (split_on (CHR '';'') (trim_space ''+.a.b;1.2.3.4'')) = [''+.a.b'', ''1.2.3.4'']" by code_simp
  have a: "ParseAddr ''1.2.3.4'' = Some (Addr4 [1, 2, 3, 4])" by code_simp
  have "ValidAndSplitDomain ''+.a.b'' = Some [''+'', ''a'', ''b'']"
    by (simp add: ValidAndSplitDomain_def domainStep_def)
  then obtain r where r: "NewDnsMapRule ''+.a.b;1.2.3.4'' PolicyDirect = Inr r"
    by (simp add: NewDnsMapRule_def s a DnsMap_Valid_def Trie_Insert_def complexWildcard_def)
  show ?thesis using r dns_map_matches_pattern [OF r] by blast
qed

subsection \<open>IP-CIDR rules\<close>

lemma list_all_digits_no: "list_all is_digit s \<Longrightarrow> \<not> is_digit c \<Longrightarrow> c \<notin> set s"
  by (auto simp: list_all_iff)

lemma nat_dec_lead: "n \<ge> 10 \<Longrightarrow> hd (nat_dec n) \<noteq> CHR ''0''"
proof (induction n rule: nat_dec.induct)
  case (1 n)
  have e: "nat_dec n = nat_dec (n div 10) @ [digit_char (n mod 10)]"
    using "1.prems" by (subst nat_dec.simps) simp
  show ?case
  proof (cases "n div 10 < 10")
    case True
    then have d: "1 \<le> n div 10" "n div 10 \<le> 9" using "1.prems" by auto
    have "nat_dec (n div 10) = [digit_char (n div 10)]" using True by (subst nat_dec.simps) simp
    moreover have "(of_char (digit_char (n div 10)) :: nat) \<noteq> of_char (CHR ''0'')"
      using d by (simp add: of_char_digit)
    then have "digit_char (n div 10) \<noteq> CHR ''0''" by fastforce
    ultimately show ?thesis using e by simp
  next
    case False
    then have "hd (nat_dec (n div 10)) \<noteq> CHR ''0''" using "1.IH" "1.prems" by simp
    then show ?thesis unfolding e by (cases "nat_dec (n div 10)") auto
  qed
qed

lemma nat_dec_short: "n < 10 \<Longrightarrow> length (nat_dec n) = 1"
  by (subst nat_dec.simps) simp

lemma parse_octet_nat_dec [simp]: "parse_octet (nat_dec (unat (b :: u8))) = Some b"
proof -
  have "unat b \<le> 255" using u8_less [of b] by simp
  moreover have "length (nat_dec (unat b)) = 1 \<or> hd (nat_dec (unat b)) \<noteq> CHR ''0''"
    using nat_dec_short nat_dec_lead by (cases "unat b < 10") auto
  ultimately show ?thesis by (simp add: parse_octet_def)
qed

lemma nat_dec_free: "\<not> is_digit c \<Longrightarrow> c \<notin> set (nat_dec n)"
  using list_all_digits_no [OF nat_dec_digits] .

lemma opt_list_map_Some [simp]: "opt_list (map (\<lambda>x. Some (f x)) xs) = Some (map f xs)"
  by (induction xs) auto

lemma parseIPv4_dotted:
  assumes "length ip = 4"
  shows "parseIPv4 (dotted ip) = Some ip"
proof -
  have "split_on (CHR ''.'') (dotted ip) = map (\<lambda>b. nat_dec (unat b)) ip"
    unfolding dotted_def using assms
    by (intro split_join) (auto simp: nat_dec_free is_digit_def)
  then show ?thesis using assms opt_list_map_Some [of "\<lambda>x. x" ip] by (simp add: parseIPv4_def comp_def)
qed

lemma dropWhile_digits:
  "list_all is_digit s \<Longrightarrow> (\<And>c. is_digit c \<Longrightarrow> P c) \<Longrightarrow> dropWhile P (s @ t) = dropWhile P t"
  by (induction s) auto

lemma ParseAddr_dotted:
  assumes "length ip = 4"
  shows "ParseAddr (dotted ip) = Some (Addr4 ip)"
proof -
  from length4_cases [OF assms] obtain a b c d where ip: "ip = [a, b, c, d]" by blast
  let ?P = "\<lambda>c. c \<noteq> CHR ''.'' \<and> c \<noteq> CHR '':'' \<and> c \<noteq> CHR ''%''"
  have "dotted ip = nat_dec (unat a) @ CHR ''.'' # join_with (CHR ''.'') [nat_dec (unat b), nat_dec (unat c), nat_dec (unat d)]"
    by (simp add: dotted_def ip)
  moreover have "dropWhile ?P (nat_dec (unat a) @ t) = dropWhile ?P t" for t
    by (rule dropWhile_digits [OF nat_dec_digits]) (drule is_digit_not_special, simp)
  ultimately have "dropWhile ?P (dotted ip) =
      CHR ''.'' # join_with (CHR ''.'') [nat_dec (unat b), nat_dec (unat c), nat_dec (unat d)]"
    by simp
  then show ?thesis using parseIPv4_dotted [OF assms] by (simp add: ParseAddr_def)
qed

lemma dotted_free: "\<not> is_digit c \<Longrightarrow> c \<noteq> CHR ''.'' \<Longrightarrow> length ip = 4 \<Longrightarrow> c \<notin> set (dotted ip)"
  by (drule length4_cases) (auto simp: dotted_def nat_dec_free)

lemma takeWhile_sep: "c \<notin> set xs \<Longrightarrow> takeWhile (\<lambda>x. x \<noteq> c) (xs @ c # ys) = xs"
  by (induction xs) auto

lemma ParsePrefix_dotted:
  assumes "length ip = 4" and "k \<le> 32"
  shows "ParsePrefix (dotted ip @ CHR ''/'' # nat_dec k) = Some \<lparr>pfx_addr = Addr4 ip, pfx_bits = k\<rparr>"
proof -
  let ?s = "dotted ip @ CHR ''/'' # nat_dec k"
  have nf: "CHR ''/'' \<notin> set (nat_dec k)" by (rule nat_dec_free) (simp add: is_digit_def)
  have tw: "takeWhile (\<lambda>c. c \<noteq> CHR ''/'') (rev ?s) = rev (nat_dec k)"
    using nf takeWhile_sep [of "CHR ''/''" "rev (nat_dec k)" "rev (dotted ip)"] by simp
  have tk: "take (length ?s - length (nat_dec k) - 1) ?s = dotted ip" by simp
  have hd: "\<not> (length (nat_dec k) > 1 \<and> (hd (nat_dec k) = CHR ''0'' \<or> \<not> is_digit (hd (nat_dec k))))"
    using nat_dec_short [of k] nat_dec_lead [of k] nat_dec_digits [of k]
    by (cases "nat_dec k"; cases "k < 10") auto
  have "CHR ''/'' \<in> set ?s" by simp
  then show ?thesis unfolding ParsePrefix_def Let_def tw rev_rev_ident tk
    using hd assms ParseAddr_dotted [OF assms(1)] by (simp add: Let_def)
qed

lemma ip_bits_u32: "ip_bits (bytes_of_u32 v) = map (\<lambda>i. bit v (31 - i)) [0..<32]"
  by (simp add: ip_bits_def byte_bits_def bytes_of_u32_def bit_ucast_iff bit_drop_bit_eq upt_rec)

lemma length_ip_bits_u32 [simp]: "length (ip_bits (bytes_of_u32 v)) = 32"
  by (simp add: ip_bits_u32)

lemma drop_bit_eq_bits:
  fixes v w :: u32
  shows "drop_bit m v = drop_bit m w \<longleftrightarrow> (\<forall>j. bit v (m + j) = bit w (m + j))"
proof
  assume "drop_bit m v = drop_bit m w"
  then have "bit (drop_bit m v) j = bit (drop_bit m w) j" for j by simp
  then show "\<forall>j. bit v (m + j) = bit w (m + j)" by (simp add: bit_drop_bit_eq)
next
  assume "\<forall>j. bit v (m + j) = bit w (m + j)"
  then show "drop_bit m v = drop_bit m w" by (intro bit_eqI) (simp add: bit_drop_bit_eq)
qed

lemma take_bits_eq:
  fixes v w :: u32
  assumes "k \<le> 32"
  shows "take k (ip_bits (bytes_of_u32 v)) = take k (ip_bits (bytes_of_u32 w)) \<longleftrightarrow>
    unat v div 2 ^ (32 - k) = unat w div 2 ^ (32 - k)"
proof -
  have "take k (ip_bits (bytes_of_u32 v)) = take k (ip_bits (bytes_of_u32 w)) \<longleftrightarrow>
      (\<forall>i < k. bit v (31 - i) = bit w (31 - i))"
    unfolding ip_bits_u32 using assms by (auto simp: list_eq_iff_nth_eq)
  also have "\<dots> \<longleftrightarrow> (\<forall>j. bit v (32 - k + j) = bit w (32 - k + j))"
  proof
    assume a: "\<forall>i < k. bit v (31 - i) = bit w (31 - i)"
    show "\<forall>j. bit v (32 - k + j) = bit w (32 - k + j)"
    proof
      fix j
      show "bit v (32 - k + j) = bit w (32 - k + j)"
      proof (cases "j < k")
        case True
        then have "31 - (k - 1 - j) = 32 - k + j" using assms by simp
        moreover have "k - 1 - j < k" using True by simp
        ultimately show ?thesis using a by metis
      next
        case False
        then have "32 - k + j \<ge> 32" using assms by simp
        then have "\<not> bit v (32 - k + j)" "\<not> bit w (32 - k + j)"
          using bit_imp_le_length [of v "32 - k + j"] bit_imp_le_length [of w "32 - k + j"] by auto
        then show ?thesis by simp
      qed
    qed
  next
    assume a: "\<forall>j. bit v (32 - k + j) = bit w (32 - k + j)"
    show "\<forall>i < k. bit v (31 - i) = bit w (31 - i)"
    proof (intro allI impI)
      fix i assume "i < k"
      then have "32 - k + (k - 1 - i) = 31 - i" using assms by simp
      then show "bit v (31 - i) = bit w (31 - i)" using a by metis
    qed
  qed
  also have "\<dots> \<longleftrightarrow> drop_bit (32 - k) v = drop_bit (32 - k) w"
    by (rule drop_bit_eq_bits [symmetric])
  also have "\<dots> \<longleftrightarrow> unat v div 2 ^ (32 - k) = unat w div 2 ^ (32 - k)"
    by (simp only: word_eq_iff_unsigned [where 'a = nat] unsigned_drop_bit_eq drop_bit_nat_def take_bit_nat_def)
      (simp add: mod_less [OF u32_less, simplified])
  finally show ?thesis .
qed

text \<open> C10. An IPv4 IP-CIDR rule \<open>a.b.c.d/k\<close> is accepted for every \<open>k\<close> up to 32, and matches the text of an
  IPv4 address exactly when the address agrees with \<open>a.b.c.d\<close> in its first \<open>k\<close> bits, that is, when
  dividing both by \<open>2 ^ (32 - k)\<close> gives the same number.\<close>

theorem ipcidr_matches_range:
  assumes "k \<le> 32"
  shows "\<exists>r. NewIpCidrRule (dotted (bytes_of_u32 n) @ CHR ''/'' # nat_dec k) policy = Inr r \<and>
    (\<forall>a. Rule_Match P (RIpCidr r) (IP_String (bytes_of_u32 a)) \<longleftrightarrow>
       unat a div 2 ^ (32 - k) = unat n div 2 ^ (32 - k))"
proof -
  have s: "IP_String (bytes_of_u32 a) = dotted (bytes_of_u32 a)" for a by (simp add: IP_String_def)
  show ?thesis
    unfolding NewIpCidrRule_def ParsePrefix_dotted [OF length_bytes_of_u32 assms]
    using take_bits_eq [OF assms]
    by (simp add: s IpCidr_Match_def ParseAddr_dotted Prefix_Contains_def eq_commute)
qed

theorem ipcidr_matches_range_witness:
  "\<exists>r. NewIpCidrRule (dotted (bytes_of_u32 167772160) @ CHR ''/'' # nat_dec 8) PolicyDirect = Inr r \<and>
    (\<forall>a. Rule_Match demo_platform (RIpCidr r) (IP_String (bytes_of_u32 a)) \<longleftrightarrow>
       unat a div 2 ^ (32 - 8) = unat (167772160 :: u32) div 2 ^ (32 - 8))"
  by (rule ipcidr_matches_range) simp

subsection \<open>Parsed rules\<close>

definition rule_wf :: "rule \<Rightarrow> bool" where
  "rule_wf r \<longleftrightarrow> Rule_Valid r \<and> Rule_GetPolicy r \<in> {PolicyDirect, PolicyProxy, PolicyReject} \<and>
     Rule_Type r \<in> set (IpRuleTypes @ DomainRuleTypes @ ProcessRuleTypes)"

lemma wrap_Inr: "wrap f r = Inr x \<longleftrightarrow> (\<exists>y. r = Inr y \<and> x = f y)"
  by (auto simp: wrap_def split: sum.splits)

lemma ParseItem_wf: "ParseItem t v p = Inr r \<Longrightarrow> rule_wf r \<and> Rule_Type r = t \<and> Rule_GetPolicy r = p"
  by (auto simp: ParseItem_def wrap_Inr rule_wf_def NewIpCidrRule_def NewDomainRule_def NewProcessRule_def
      IpCidr_Valid_def Let_def rule_type_lists policies dest: NewDnsMapRule_Inr
      simp: DnsMap_Valid_def split: if_splits option.splits)

lemma parse_lines_simps [simp]:
  "parse_lines [] = []"
  "parse_lines (l # ls) = (case ParseRawValue l of Inl _ \<Rightarrow> parse_lines ls | Inr r \<Rightarrow> r # parse_lines ls)"
  by (auto simp: parse_lines_def List.map_filter_simps split: sum.splits)

lemma parse_lines_in: "r \<in> set (parse_lines ls) \<longleftrightarrow> (\<exists>l \<in> set ls. ParseRawValue l = Inr r)"
  by (induction ls) (auto split: sum.splits)

lemma ParseRawValue_wf: "ParseRawValue l = Inr r \<Longrightarrow> rule_wf r"
  by (auto simp: ParseRawValue_def Let_def dest: ParseItem_wf split: if_splits)

text \<open> C11. Every rule of an engine is valid, has one of the policies DIRECT, PROXY and REJECT, and is of an
  IP, domain or process type, whatever the extra lines and the embedded file contain.\<close>

theorem engine_rules_wf:
  assumes "Engine_New L files name extraRules = Inr e" and "r \<in> set (eng_rules e)"
  shows "rule_wf r"
proof -
  have "\<exists>l. ParseRawValue l = Inr r"
    using assms
    by (auto simp: Engine_New_def Parse_def parse_lines_in split: sum.splits option.splits)
  then show ?thesis using ParseRawValue_wf by blast
qed

text \<open>An engine with one extra rule and an empty rule file, over the LRU cache of clash, for the witnesses.\<close>

definition lru_of_clash :: "((string, 'v) lru_state, 'v) lru_api" where
  "lru_of_clash = \<lparr>api_New = (\<lambda>n. if n \<le> 0 then None else Some ([], LruCache_New [WithSize n])),
     api_Get = LruCache_Get 0, api_Add = LruCache_Set 0,
     api_Purge = (\<lambda>s. ([], LruCache_New [WithSize (maxSize (snd s))]))\<rparr>"

definition demo_rule :: rule where
  "demo_rule = RDomain \<lparr>dr_RuleType = ''DOMAIN'', dr_Payload = ''a.b'', dr_Policy = ''DIRECT''\<rparr>"

definition demo_engine :: "(string, rule) lru_state engine" where
  "demo_engine = \<lparr>eng_rules = [demo_rule], eng_cache = ([], LruCache_New [WithSize 1024])\<rparr>"

lemma demo_line: "ParseRawValue ''DOMAIN,a.b,DIRECT'' = Inr demo_rule"
  by (simp add: ParseRawValue_def trimArr_def trim_space_def is_space_def ParseItem_def policies rule_types
      NewDomainRule_def Domain_Valid_def wrap_def demo_rule_def)

lemma ParseFile_empty: "ParseFile [] = []"
  by (simp add: ParseFile_def scan_lines_def List.map_filter_simps)

lemma demo_engine_New: "Engine_New lru_of_clash (\<lambda>_. Some []) ''demo'' [''DOMAIN,a.b,DIRECT''] = Inr demo_engine"
  by (simp add: Engine_New_def Parse_def readFile_def ParseFile_empty lru_of_clash_def
      demo_line demo_engine_def)

theorem engine_rules_wf_witness: "rule_wf demo_rule"
  by (rule engine_rules_wf [OF demo_engine_New]) (simp add: demo_engine_def)

subsection \<open>Round trip of a rule line\<close>

primrec Rule_Payload :: "rule \<Rightarrow> string" where
  "Rule_Payload (RBuiltIn r) = bi_Payload r"
| "Rule_Payload (RDomain r) = dr_Payload r"
| "Rule_Payload (RIpCidr r) = ic_Payload r"
| "Rule_Payload (RProcess r) = pr_Payload r"
| "Rule_Payload (RDnsMap r) = dm_Payload r"

lemma ParseItem_payload: "ParseItem t v p = Inr r \<Longrightarrow> trim_space v = v \<Longrightarrow> Rule_Payload r = v"
  by (auto simp: ParseItem_def wrap_Inr NewIpCidrRule_def NewDomainRule_def NewProcessRule_def
      Let_def dest: NewDnsMapRule_Inr split: if_splits option.splits)

lemma find_append: "find P (xs @ ys) = (case find P xs of None \<Rightarrow> find P ys | Some x \<Rightarrow> Some x)"
  by (induction xs) auto

lemma set_trim_space: "set (trim_space s) \<subseteq> set s"
proof -
  have "set (trim_space s) \<subseteq> set (rev (dropWhile is_space s))"
    unfolding trim_space_def by (auto dest: set_dropWhileD)
  then show ?thesis by (auto dest: set_dropWhileD)
qed

lemma trim_space_id:
  assumes "s \<noteq> []" and "\<not> is_space (hd s)" and "\<not> is_space (last s)"
  shows "trim_space s = s"
proof -
  have "dropWhile is_space s = s" using assms by (cases s) auto
  moreover have "dropWhile is_space (rev s) = rev s"
    using assms by (cases s rule: rev_cases) auto
  ultimately show ?thesis by (simp add: trim_space_def)
qed

text \<open> C12. Writing a parsed rule back as \<open>type,payload,policy\<close> and parsing that line gives the same rule.\<close>

theorem rule_line_roundtrip:
  assumes "ParseRawValue line = Inr r"
  shows "ParseRawValue (join_with (CHR '','') [Rule_Type r, Rule_Payload r, Rule_GetPolicy r]) = Inr r"
proof -
  let ?ch = "trimArr (split_on (CHR '','') (trim_space line))"
  have l: "length ?ch = 3" and it: "ParseItem (?ch ! 0) (?ch ! 1) (?ch ! 2) = Inr r"
    using assms by (auto simp: ParseRawValue_def Let_def split: if_splits)
  have m: "c \<in> set ?ch \<Longrightarrow> trim_space c = c \<and> CHR '','' \<notin> set c" for c
    using set_trim_space split_on_no_sep by (fastforce simp: trimArr_def)
  obtain t v p where ch: "?ch = [t, v, p]" "?ch ! 0 = t" "?ch ! 1 = v" "?ch ! 2 = p"
    using l by (auto simp: length_Suc_conv eval_nat_numeral)
  have i: "ParseItem t v p = Inr r" using it ch by simp
  have free: "CHR '','' \<notin> set t" "CHR '','' \<notin> set v" "CHR '','' \<notin> set p" "trim_space t = t"
    "trim_space v = v" "trim_space p = p"
    using m ch(1) by simp_all
  have eq: "Rule_Type r = t" "Rule_GetPolicy r = p" "Rule_Payload r = v"
    using ParseItem_wf [OF i] ParseItem_payload [OF i free(5)] by simp_all
  have tp: "t \<noteq> [] \<and> \<not> is_space (hd t)" "p \<noteq> [] \<and> \<not> is_space (last p)"
    using i unfolding ParseItem_def rule_types policies by (auto simp: is_space_def split: if_splits)
  let ?l = "join_with (CHR '','') [t, v, p]"
  have "trim_space ?l = ?l" by (rule trim_space_id) (use tp in auto)
  moreover have "split_on (CHR '','') ?l = [t, v, p]"
    using free by (intro split_join) auto
  ultimately show ?thesis unfolding eq ParseRawValue_def using free i by (simp add: trimArr_def)
qed

theorem rule_line_roundtrip_witness:
  "ParseRawValue (join_with (CHR '','') [Rule_Type demo_rule, Rule_Payload demo_rule, Rule_GetPolicy demo_rule]) =
     Inr demo_rule"
  by (rule rule_line_roundtrip [OF demo_line])

subsection \<open>The engine\<close>

datatype engine_op = EMatch string "rule_type list" | EAddCache string rule

fun engine_step :: "platform \<Rightarrow> ('c, rule) lru_api \<Rightarrow> engine_op \<Rightarrow> 'c engine \<Rightarrow> 'c engine" where
  "engine_step P L (EMatch v ts) e = snd (Engine_Match P L v ts e)"
| "engine_step P L (EAddCache v r) e = Engine_AddCache L v r e"

definition engine_run :: "platform \<Rightarrow> ('c, rule) lru_api \<Rightarrow> engine_op list \<Rightarrow> 'c engine \<Rightarrow> 'c engine" where
  "engine_run P L xs e = fold (engine_step P L) xs e"

text \<open>The first matching rule of the list, with no cache.\<close>

definition first_match :: "platform \<Rightarrow> rule_type list \<Rightarrow> string \<Rightarrow> rule list \<Rightarrow> rule option" where
  "first_match P ts v rules = find (\<lambda>r. Rule_Type r \<in> set ts \<and> Rule_Match P r v) rules"

text \<open>The operation does not ask for \<open>v\<close> with other types, nor store a rule for \<open>v\<close>.\<close>

fun consistent_with :: "string \<Rightarrow> rule_type list \<Rightarrow> engine_op \<Rightarrow> bool" where
  "consistent_with v ts (EMatch w us) \<longleftrightarrow> (w = v \<longrightarrow> us = ts)"
| "consistent_with v ts (EAddCache w r) \<longleftrightarrow> w \<noteq> v"

text \<open>
  What the engine relies on of the LRU cache, as the documentation of \<open>golang-lru\<close> states it: the
  laws of \<open>kv_cache\<close>, and a new cache is empty.
\<close>

locale rule_cache = kv_cache ok held "api_Get L" "api_Add L" del
  for ok :: "'c \<Rightarrow> bool" and held :: "'c \<Rightarrow> string \<Rightarrow> rule option" and L :: "('c, rule) lru_api"
    and del :: "string \<Rightarrow> 'c \<Rightarrow> 'c" +
  assumes new_empty: "api_New L n = Some c \<Longrightarrow> ok c \<and> held c = Map.empty"
begin

text \<open>The cached engine, for any provider of the interface.\<close>

lemma engine_step_sound:
  assumes "consistent_with v ts x"
    and "sound (\<lambda>w r. w = v \<longrightarrow> first_match P ts v (eng_rules e) = Some r) (eng_cache e)"
  shows "eng_rules (engine_step P L x e) = eng_rules e \<and>
    sound (\<lambda>w r. w = v \<longrightarrow> first_match P ts v (eng_rules e) = Some r) (eng_cache (engine_step P L x e))"
proof (cases x)
  case (EMatch w us)
  obtain r c where g: "api_Get L w (eng_cache e) = (r, c)" by (rule prod.exhaust)
  have s: "sound (\<lambda>w r. w = v \<longrightarrow> first_match P ts v (eng_rules e) = Some r) c"
    using sound_get [OF assms(2), of w] g by simp
  show ?thesis
  proof (cases "r = None \<and> first_match P us w (eng_rules e) \<noteq> None")
    case True
    then obtain r' where r': "first_match P us w (eng_rules e) = Some r'" by blast
    have "w = v \<longrightarrow> first_match P ts v (eng_rules e) = Some r'" using r' assms(1) EMatch by auto
    from sound_put [OF s this] show ?thesis using g True r' EMatch
      by (simp add: Engine_Match_def first_match_def)
  next
    case False
    then show ?thesis using g s EMatch
      by (auto simp: Engine_Match_def first_match_def split: option.splits)
  qed
next
  case (EAddCache w r)
  then show ?thesis using assms sound_put [OF assms(2), of w r] by (simp add: Engine_AddCache_def)
qed

lemma engine_run_sound:
  assumes "\<forall>x \<in> set xs. consistent_with v ts x"
    and "sound (\<lambda>w r. w = v \<longrightarrow> first_match P ts v (eng_rules e) = Some r) (eng_cache e)"
  shows "eng_rules (engine_run P L xs e) = eng_rules e \<and>
    sound (\<lambda>w r. w = v \<longrightarrow> first_match P ts v (eng_rules e) = Some r) (eng_cache (engine_run P L xs e))"
  using assms
proof (induction xs arbitrary: e)
  case Nil
  then show ?case by (simp add: engine_run_def)
next
  case (Cons x xs)
  have "consistent_with v ts x" using Cons.prems by simp
  note st = engine_step_sound [OF this Cons.prems(2)]
  have "engine_run P L (x # xs) e = engine_run P L xs (engine_step P L x e)" by (simp add: engine_run_def)
  then show ?case using Cons.IH [of "engine_step P L x e"] Cons.prems(1) st by simp
qed

lemma engine_match_sound:
  assumes "sound (\<lambda>w r. w = v \<longrightarrow> first_match P ts v (eng_rules e) = Some r) (eng_cache e)"
  shows "fst (Engine_Match P L v ts e) =
    (case first_match P ts v (eng_rules e) of Some r \<Rightarrow> Inr r | None \<Rightarrow> Inl ErrNotFound)"
proof -
  obtain r c where g: "api_Get L v (eng_cache e) = (r, c)" by (rule prod.exhaust)
  show ?thesis
  proof (cases r)
    case None
    then show ?thesis using g by (simp add: Engine_Match_def first_match_def split: option.splits)
  next
    case (Some r')
    then have "first_match P ts v (eng_rules e) = Some r'" using sound_hit [OF assms, of v r'] g by simp
    then show ?thesis using g Some by (simp add: Engine_Match_def)
  qed
qed

text \<open>The invariant of the cache for a value, from a new engine on.\<close>

lemma engine_answers:
  assumes "Engine_New L files name extraRules = Inr e" and "\<forall>x \<in> set xs. consistent_with v ts x"
  shows "fst (Engine_Match P L v ts (engine_run P L xs e)) =
    (case first_match P ts v (eng_rules e) of Some r \<Rightarrow> Inr r | None \<Rightarrow> Inl ErrNotFound)"
proof -
  obtain c where c: "api_New L 1024 = Some c" "eng_cache e = c"
    using assms(1) by (auto simp: Engine_New_def split: sum.splits option.splits)
  have "sound (\<lambda>w r. w = v \<longrightarrow> first_match P ts v (eng_rules e) = Some r) (eng_cache e)"
    using c(2) new_empty [OF c(1)] by (simp add: sound_def)
  note r = engine_run_sound [OF assms(2) this]
  have "sound (\<lambda>w r. w = v \<longrightarrow> first_match P ts v (eng_rules (engine_run P L xs e)) = Some r)
      (eng_cache (engine_run P L xs e))"
    using r by simp
  from engine_match_sound [OF this] show ?thesis using r by simp
qed

end

interpretation clash_rules: rule_cache ageless lru_held lru_of_clash LruCache_Delete
proof -
  have g: "api_Get lru_of_clash = LruCache_Get 0" "api_Add lru_of_clash = LruCache_Set 0"
    by (simp_all add: lru_of_clash_def)
  have n: "ageless c \<and> lru_held c = Map.empty" if "api_New lru_of_clash n = Some c" for n c
    using that ageless_New by (auto simp: lru_of_clash_def lru_held_def es_find_def split: if_splits)
  show "rule_cache ageless lru_held lru_of_clash LruCache_Delete"
    unfolding rule_cache_def rule_cache_axioms_def g using lru_kv.kv_cache_axioms n by blast
qed

text \<open> C1. The cache of the engine does not change its answers: on an engine made by \<open>New\<close>, after any
  sequence of calls of \<open>Match\<close> and \<open>AddCache\<close> that asks for the value only with the same rule types and
  stores no rule for it, \<open>Match\<close> returns the first rule, in the order extra lines then file, that has
  one of the types and matches the value, and \<open>ErrNotFound\<close> when there is none.\<close>

theorem engine_returns_first_match:
  assumes "rule_cache ok held L del" and "Engine_New L files name extraRules = Inr e"
    and "\<forall>x \<in> set xs. consistent_with v ts x"
  shows "fst (Engine_Match P L v ts (engine_run P L xs e)) =
    (case first_match P ts v (eng_rules e) of Some r \<Rightarrow> Inr r | None \<Rightarrow> Inl ErrNotFound)"
  by (rule rule_cache.engine_answers [OF assms])

theorem engine_returns_first_match_witness:
  "fst (Engine_Match demo_platform lru_of_clash ''A.b'' DomainRuleTypes
      (engine_run demo_platform lru_of_clash [EMatch ''x'' IpRuleTypes, EMatch ''A.b'' DomainRuleTypes] demo_engine)) =
    Inr demo_rule"
proof -
  have "equal_fold ''a.b'' ''A.b''" by code_simp
  then have "first_match demo_platform DomainRuleTypes ''A.b'' (eng_rules demo_engine) = Some demo_rule"
    by (simp add: first_match_def demo_engine_def demo_rule_def rule_type_lists rule_types
        Domain_Match_def isContainsDomain_def)
  then show ?thesis
    using engine_returns_first_match [OF clash_rules.rule_cache_axioms demo_engine_New,
        of "[EMatch ''x'' IpRuleTypes, EMatch ''A.b'' DomainRuleTypes]" "''A.b''" DomainRuleTypes demo_platform] by simp
qed

text \<open>Extra lines come first: on a new engine, when some extra line parses to a rule that has one of
  the types and matches the value, \<open>Match\<close> returns the rule of the first such extra line, whatever
  the embedded rule file says.\<close>

theorem extra_rules_first:
  assumes "rule_cache ok held L del" and "Engine_New L files name extraRules = Inr e"
    and "l \<in> set extraRules" and "ParseRawValue l = Inr r" and "Rule_Type r \<in> set ts" and "Rule_Match P r v"
  shows "\<exists>r'. fst (Engine_Match P L v ts e) = Inr r' \<and>
    first_match P ts v (parse_lines extraRules) = Some r'"
proof -
  obtain ls where ls: "eng_rules e = parse_lines extraRules @ parse_lines ls"
    using assms(2) by (auto simp: Engine_New_def Parse_def split: sum.splits option.splits)
  have "r \<in> set (parse_lines extraRules)" using assms(3,4) by (auto simp: parse_lines_in)
  then have "first_match P ts v (parse_lines extraRules) \<noteq> None"
    using assms(5,6) by (auto simp: first_match_def find_None_iff)
  then obtain r' where r': "first_match P ts v (parse_lines extraRules) = Some r'" by blast
  then have "first_match P ts v (eng_rules e) = Some r'"
    unfolding ls first_match_def by (simp add: find_append)
  then show ?thesis
    using r' rule_cache.engine_answers [OF assms(1,2), of "[]" v ts P] by (simp add: engine_run_def)
qed

theorem extra_rules_first_witness:
  "\<exists>r'. fst (Engine_Match demo_platform lru_of_clash ''a.b'' DomainRuleTypes demo_engine) = Inr r' \<and>
    first_match demo_platform DomainRuleTypes ''a.b'' (parse_lines [''DOMAIN,a.b,DIRECT'']) = Some r'"
  by (rule extra_rules_first [OF clash_rules.rule_cache_axioms demo_engine_New _ demo_line])
     (simp_all add: demo_rule_def rule_type_lists rule_types Domain_Match_def isContainsDomain_def)

end
