(* ===== verification/HostPort.thy ===== *)
theory HostPort
  imports GoNet
begin

text \<open>
  \<open>net.JoinHostPort\<close> and \<open>net.SplitHostPort\<close> of the Go standard library on byte strings, with
  their round trip, and the conversion between strings and byte lists. The components that name
  endpoints (\<open>Metadata\<close>, \<open>Socks5\<close>, the name server parser) share them.
\<close>

definition has_char :: "char \<Rightarrow> string \<Rightarrow> bool" where
  "has_char c s = (c \<in> set s)"

definition JoinHostPort :: "string \<Rightarrow> string \<Rightarrow> string" where
  "JoinHostPort host port =
     (if has_char (CHR '':'') host then CHR ''['' # host @ '']:'' @ port
      else host @ CHR '':'' # port)"

text \<open>The text before and after the last occurrence of a character.\<close>

definition split_last :: "char \<Rightarrow> string \<Rightarrow> (string \<times> string) option" where
  "split_last c s =
     (if c \<notin> set s then None
      else let p = rev (takeWhile (\<lambda>x. x \<noteq> c) (rev s)) in Some (take (length s - length p - 1) s, p))"

definition split_first :: "char \<Rightarrow> string \<Rightarrow> (string \<times> string) option" where
  "split_first c s =
     (if c \<notin> set s then None
      else let p = takeWhile (\<lambda>x. x \<noteq> c) s in Some (p, drop (Suc (length p)) s))"

definition SplitHostPort :: "string \<Rightarrow> (string \<times> string) option" where
  "SplitHostPort hp =
     (case split_last (CHR '':'') hp of
        None \<Rightarrow> None
      | Some (before, port) \<Rightarrow>
          if hd hp = CHR ''['' then
            (case split_first (CHR '']'') hp of
               None \<Rightarrow> None
             | Some (h, rest) \<Rightarrow>
                 if Suc (length h) = length before \<and> \<not> has_char (CHR ''['') (tl hp) \<and> \<not> has_char (CHR '']'') rest
                 then Some (tl h, port) else None)
          else if has_char (CHR '':'') before \<or> has_char (CHR ''['') hp \<or> has_char (CHR '']'') hp then None
          else Some (before, port))"

lemma takeWhile_until: "c \<notin> set xs \<Longrightarrow> takeWhile (\<lambda>x. x \<noteq> c) (xs @ c # ys) = xs"
  by (induction xs) auto

lemma split_last_append: "c \<notin> set p \<Longrightarrow> split_last c (b @ c # p) = Some (b, p)"
  using takeWhile_until [of c "rev p" "rev b"] by (simp add: split_last_def Let_def)

lemma split_first_append: "c \<notin> set p \<Longrightarrow> split_first c (p @ c # r) = Some (p, r)"
  using takeWhile_until [of c p r] by (simp add: split_first_def Let_def)

definition bracket_free :: "string \<Rightarrow> bool" where
  "bracket_free s \<longleftrightarrow> CHR ''['' \<notin> set s \<and> CHR '']'' \<notin> set s"

lemma Split_Join:
  assumes "bracket_free host" and "bracket_free port" and "CHR '':'' \<notin> set port"
  shows "SplitHostPort (JoinHostPort host port) = Some (host, port)"
proof (cases "CHR '':'' \<in> set host")
  case True
  let ?s = "CHR ''['' # host @ '']:'' @ port"
  have l: "split_last (CHR '':'') ?s = Some (CHR ''['' # host @ '']'', port)"
    using split_last_append [OF assms(3), of "CHR ''['' # host @ '']''"] by simp
  have f: "split_first (CHR '']'') ?s = Some (CHR ''['' # host, CHR '':'' # port)"
    using split_first_append [of "CHR '']''" "CHR ''['' # host" "CHR '':'' # port"] assms(1)
    by (simp add: bracket_free_def)
  show ?thesis using True assms l f
    by (simp add: JoinHostPort_def has_char_def SplitHostPort_def bracket_free_def)
next
  case False
  have l: "split_last (CHR '':'') (host @ CHR '':'' # port) = Some (host, port)"
    by (rule split_last_append [OF assms(3)])
  have "hd (host @ CHR '':'' # port) \<noteq> CHR ''[''"
    using assms(1) by (cases host) (auto simp: bracket_free_def)
  then show ?thesis using False assms l
    by (simp add: JoinHostPort_def has_char_def SplitHostPort_def bracket_free_def)
qed

subsection \<open>Bytes and strings\<close>

definition bytes_of :: "string \<Rightarrow> u8 list" where
  "bytes_of s = map of_char s"

definition string_of :: "u8 list \<Rightarrow> string" where
  "string_of bs = map (\<lambda>b. char_of (unat b)) bs"

lemma length_bytes_of [simp]: "length (bytes_of s) = length s"
  by (simp add: bytes_of_def)

lemma string_of_bytes_of [simp]: "string_of (bytes_of s) = s"
proof -
  have "unat (of_char c :: u8) = (of_char c :: nat)" for c
  proof -
    have "(of_char c :: u8) = of_nat (of_char c)" by (rule of_nat_of_char [symmetric])
    moreover have "(of_char c :: nat) < 256" using nat_of_char_less_256 .
    ultimately show ?thesis by (simp only: unsigned_of_nat) (simp add: take_bit_nat_eq_self)
  qed
  then show ?thesis by (induction s) (simp_all add: bytes_of_def string_of_def)
qed

lemma bytes_of_inj [simp]: "bytes_of s = bytes_of t \<longleftrightarrow> s = t"
  by (metis string_of_bytes_of)

text \<open>Two bytes, most significant first.\<close>

definition be16 :: "16 word \<Rightarrow> u8 list" where
  "be16 v = [ucast (drop_bit 8 v), ucast v]"

definition of_be16 :: "u8 \<Rightarrow> u8 \<Rightarrow> nat" where
  "of_be16 a b = unat a * 256 + unat b"

lemma of_be16_be16: "of_be16 (ucast (drop_bit 8 v)) (ucast v) = unat (v :: 16 word)"
proof -
  have v: "unat v < 65536" using unsigned_less [of v, where 'a = nat] by simp
  have "unat (ucast (drop_bit 8 v) :: u8) = unat v div 256"
    using v by (simp add: unsigned_ucast_eq unsigned_drop_bit_eq drop_bit_nat_def take_bit_nat_def)
  moreover have "unat (ucast v :: u8) = unat v mod 256"
    by (simp add: unsigned_ucast_eq take_bit_nat_def)
  ultimately show ?thesis by (simp add: of_be16_def)
qed

end
