(* ===== verification/Metadata.thy ===== *)
theory Metadata
  imports HostPort
begin

text \<open>
  The metadata of a connection (\<open>src/pkg/clash/constant/metadata.go\<close>, \<open>dns.go\<close>) and the functions
  that make it from the addresses of a connection (\<open>src/internal/tunnel/metadata.go\<close>). The lookup of the
  process that owns a socket is outside \<open>src/\<close> (system calls) and is a parameter.
\<close>

subsection \<open>Enumerations\<close>

type_synonym network = int
type_synonym port = "16 word"

definition TCP :: network where "TCP = 0"
definition UDP :: network where "UDP = 1"

definition NetWork_String :: "network \<Rightarrow> string" where
  "NetWork_String n = (if n = TCP then ''tcp'' else ''udp'')"

text \<open>The values of \<open>Type\<close> go on with the \<open>iota\<close> of the same block, from 2.\<close>

definition Type_String :: "int \<Rightarrow> string" where
  "Type_String t =
     (if t = 2 then ''HTTP'' else if t = 3 then ''HTTP Connect'' else if t = 4 then ''Socks4''
      else if t = 5 then ''Socks5'' else if t = 6 then ''Redir'' else if t = 7 then ''TProxy''
      else if t = 8 then ''Tunnel'' else ''Unknown'')"

definition DNSNormal :: int where "DNSNormal = 0"
definition DNSFakeIP :: int where "DNSFakeIP = 1"
definition DNSMapping :: int where "DNSMapping = 2"

definition DNSMode_String :: "int \<Rightarrow> string" where
  "DNSMode_String e =
     (if e = DNSNormal then ''normal'' else if e = DNSFakeIP then ''fake-ip''
      else if e = DNSMapping then ''redir-host'' else ''unknown'')"

definition DNSModeMapping :: "string \<Rightarrow> int option" where
  "DNSModeMapping = [DNSMode_String DNSNormal \<mapsto> DNSNormal, DNSMode_String DNSFakeIP \<mapsto> DNSFakeIP]"

definition DNSMode_Unmarshal :: "string \<Rightarrow> int option" where
  "DNSMode_Unmarshal tp = DNSModeMapping tp"

definition Port_String :: "port \<Rightarrow> string" where
  "Port_String n = nat_dec (unat n)"

definition AtypIPv4 :: nat where "AtypIPv4 = 1"
definition AtypDomainName :: nat where "AtypDomainName = 3"
definition AtypIPv6 :: nat where "AtypIPv6 = 4"

subsection \<open>Metadata\<close>

record metadata =
  NetWork :: network
  ConnType :: int
  SrcIP :: go_ip
  DstIP :: go_ip
  SrcPort :: port
  DstPort :: port
  Host :: string
  DNSMode :: int
  ProcessPath :: string
  SpecialProxy :: string
  OriginDst :: "(netip_addr \<times> port) option"

definition Metadata_String :: "metadata \<Rightarrow> string" where
  "Metadata_String m =
     (if Host m \<noteq> [] then Host m else if DstIP m \<noteq> [] then IP_String (DstIP m) else ''<nil>'')"

definition RemoteAddress :: "metadata \<Rightarrow> string" where
  "RemoteAddress m = JoinHostPort (Metadata_String m) (Port_String (DstPort m))"

definition SourceAddress :: "metadata \<Rightarrow> string" where
  "SourceAddress m = JoinHostPort (IP_String (SrcIP m)) (Port_String (SrcPort m))"

definition AddrType :: "metadata \<Rightarrow> nat" where
  "AddrType m =
     (if Host m \<noteq> [] \<or> DstIP m = [] then AtypDomainName
      else if To4 (DstIP m) \<noteq> [] then AtypIPv4 else AtypIPv6)"

definition Resolved :: "metadata \<Rightarrow> bool" where
  "Resolved m = (DstIP m \<noteq> [])"

definition Pure :: "metadata \<Rightarrow> metadata" where
  "Pure m = (if DNSMode m = DNSMapping \<and> DstIP m \<noteq> [] then m\<lparr>Host := []\<rparr> else m)"

definition UDPAddr :: "metadata \<Rightarrow> (go_ip \<times> nat) option" where
  "UDPAddr m = (if NetWork m \<noteq> UDP \<or> DstIP m = [] then None else Some (DstIP m, unat (DstPort m)))"

definition Metadata_Valid :: "metadata \<Rightarrow> bool" where
  "Metadata_Valid m = (Host m \<noteq> [] \<or> DstIP m \<noteq> [])"

definition empty_metadata :: metadata where
  "empty_metadata = \<lparr>NetWork = 0, ConnType = 0, SrcIP = [], DstIP = [], SrcPort = 0, DstPort = 0,
     Host = [], DNSMode = 0, ProcessPath = [], SpecialProxy = [], OriginDst = None\<rparr>"

subsection \<open>Metadata of a connection (tunnel/metadata.go)\<close>

text \<open>
  \<open>net.TCPAddr\<close> and \<open>net.UDPAddr\<close>: address, port (an \<open>int\<close>), zone. \<open>netip.ParseAddrPort\<close> reads
  their text back; an \<open>AddrPort\<close> is valid when its address is not the zero \<open>Addr\<close>.
\<close>

record sock_addr =
  sa_IP :: go_ip
  sa_Port :: int
  sa_Zone :: string

definition sock_String :: "sock_addr \<Rightarrow> string" where
  "sock_String a =
     JoinHostPort
       (if sa_IP a = [] then [] else IP_String (sa_IP a) @ (if sa_Zone a = [] then [] else CHR ''%'' # sa_Zone a))
       (int_dec (sa_Port a))"

definition ParseAddrPort :: "string \<Rightarrow> (netip_addr \<times> port) option" where
  "ParseAddrPort s =
     (case split_last (CHR '':'') s of
        None \<Rightarrow> None
      | Some (ip, port) \<Rightarrow>
          let br = (ip \<noteq> [] \<and> hd ip = CHR ''[''); ip' = (if br then butlast (tl ip) else ip) in
          if ip = [] \<or> port = [] then None
          else if br \<and> (length ip < 2 \<or> last ip \<noteq> CHR '']'') then None
          else (case parse_uint 16 port of
            None \<Rightarrow> None
          | Some p \<Rightarrow>
              (case ParseAddr ip' of
                 None \<Rightarrow> None
               | Some (Addr4 a) \<Rightarrow> if br then None else Some (Addr4 a, of_nat p)
               | Some (Addr6 a z) \<Rightarrow> if br then Some (Addr6 a z, of_nat p) else None)))"

text \<open>\<open>netip.AddrFromSlice\<close> with \<open>Unmap\<close>.\<close>

definition AddrFromSlice :: "go_ip \<Rightarrow> netip_addr option" where
  "AddrFromSlice ip =
     (if length ip = 4 then Some (Addr4 ip) else if length ip = 16 then Some (Addr6 ip []) else None)"

definition Addr_Unmap :: "netip_addr \<Rightarrow> netip_addr" where
  "Addr_Unmap a =
     (case a of Addr4 ip \<Rightarrow> Addr4 ip
      | Addr6 ip z \<Rightarrow> if take 12 ip = v4in6_prefix then Addr4 (drop 12 ip) else Addr6 ip z)"

text \<open>\<open>P.FindProcessPath\<close>: network, source and destination; \<open>None\<close> is an error.\<close>

type_synonym process_finder = "string \<Rightarrow> netip_addr \<times> port \<Rightarrow> netip_addr \<times> port \<Rightarrow> string option"

definition findProcessPath :: "process_finder \<Rightarrow> metadata \<Rightarrow> string" where
  "findProcessPath finder m =
     (case (AddrFromSlice (SrcIP m), OriginDst m) of
        (Some src, Some dst) \<Rightarrow>
          (case finder (NetWork_String (NetWork m)) (Addr_Unmap src, SrcPort m) dst of
             Some path \<Rightarrow> path | None \<Rightarrow> [])
      | _ \<Rightarrow> [])"

definition create_metadata :: "process_finder \<Rightarrow> bool \<Rightarrow> network \<Rightarrow> sock_addr \<Rightarrow> sock_addr \<Rightarrow> metadata" where
  "create_metadata finder shouldFind net src dest =
     (let m = empty_metadata\<lparr>SrcIP := sa_IP src, SrcPort := of_int (sa_Port src), DstIP := sa_IP dest,
                DstPort := of_int (sa_Port dest), NetWork := net, OriginDst := ParseAddrPort (sock_String dest)\<rparr>
      in if shouldFind then m\<lparr>ProcessPath := findProcessPath finder m\<rparr> else m)"

definition CreateUdpMetadata :: "process_finder \<Rightarrow> bool \<Rightarrow> sock_addr \<Rightarrow> sock_addr \<Rightarrow> metadata" where
  "CreateUdpMetadata finder shouldFind src dest = create_metadata finder shouldFind UDP src dest"

definition CreateTcpMetadata :: "process_finder \<Rightarrow> bool \<Rightarrow> sock_addr \<Rightarrow> sock_addr \<Rightarrow> metadata" where
  "CreateTcpMetadata finder shouldFind src dest = create_metadata finder shouldFind TCP src dest"

text \<open>
  \<open>CreateMetadata\<close> from two texts. The error of splitting the destination is overwritten by the
  next assignment to \<open>err\<close>; both parts are then empty strings.
\<close>

datatype meta_error = ErrSrcSplit | ErrSrcHost | ErrDestHost | ErrAtoi

definition CreateMetadata :: "string \<Rightarrow> string \<Rightarrow> network \<Rightarrow> meta_error + metadata" where
  "CreateMetadata srcAddr destAddr net =
     (case (if srcAddr = [] then Inr ([], [])
            else case SplitHostPort srcAddr of
              None \<Rightarrow> Inl ErrSrcSplit
            | Some (h, p) \<Rightarrow> if ParseIP h = [] then Inl ErrSrcHost else Inr (ParseIP h, p)) of
        Inl e \<Rightarrow> Inl e
      | Inr (srcIp, srcPort) \<Rightarrow>
          (case (case SplitHostPort destAddr of None \<Rightarrow> ([], []) | Some hp \<Rightarrow> hp) of
             (destHost, destPort) \<Rightarrow>
               if ParseIP destHost = [] then Inl ErrDestHost
               else (case atoi srcPort of
                 None \<Rightarrow> Inl ErrAtoi
               | Some sp \<Rightarrow>
                   (case atoi destPort of
                      None \<Rightarrow> Inl ErrAtoi
                    | Some dp \<Rightarrow>
                        Inr (empty_metadata\<lparr>SrcIP := srcIp, SrcPort := of_int sp, DstIP := ParseIP destHost,
                          DstPort := of_int dp, NetWork := net\<rparr>)))))"

subsection \<open>Facts\<close>

lemma Port_String_inj: "Port_String p = Port_String q \<longleftrightarrow> p = q"
  by (simp add: Port_String_def word_eq_iff_unsigned [where 'a = nat])

lemma Port_String_443: "Port_String p = ''443'' \<longleftrightarrow> p = 443"
proof -
  have "Port_String 443 = ''443''" by code_simp
  then show ?thesis by (metis Port_String_inj)
qed

lemma Port_String_53: "Port_String p = ''53'' \<longleftrightarrow> p = 53"
proof -
  have "Port_String 53 = ''53''" by code_simp
  then show ?thesis by (metis Port_String_inj)
qed

lemma DNSMode_roundtrip:
  "DNSMode_Unmarshal s = Some e \<longleftrightarrow> (e = DNSNormal \<or> e = DNSFakeIP) \<and> s = DNSMode_String e"
  by (auto simp: DNSMode_Unmarshal_def DNSModeMapping_def DNSMode_String_def DNSNormal_def DNSFakeIP_def
      DNSMapping_def split: if_splits)

text \<open>\<open>CreateMetadata\<close> without a source address always fails: the port text is empty.\<close>

lemma CreateMetadata_no_source: "\<exists>e. CreateMetadata [] dest net = Inl e"
  by (auto simp: CreateMetadata_def atoi_def split: option.splits prod.splits)

end
