(* ===== verification/FakeIp.thy ===== *)
theory FakeIp
  imports LruCache DomainTrie GoNet "HOL-Library.Monad_Syntax"
begin

text \<open>
  The fake-ip pool of \<open>src/pkg/clash/component/fakeip/\<close> (\<open>pool.go\<close>, \<open>memory.go\<close>): it hands out
  one address of a range for each host name and maps an address back to its host. The store
  is one LRU cache that holds two entries for each assignment, host to address and address to
  host.

  A value of type option is a Go call that may not return normally: \<open>None\<close> is a panic (an index
  out of range, a failed type assertion, a division by zero) or a loop that does not end. The
  lemmas show that on every pool the program can reach each call is \<open>Some\<close>. The cache of the pool
  has no maximum age, so its operations never read the clock; the clock argument is 0 throughout.
\<close>

subsection \<open>The store (memory.go)\<close>

text \<open>The dynamic types of the cache's \<open>any\<close> keys and values.\<close>

datatype fkey = KHost string | KIP u32
datatype fval = VIP go_ip | VHost string

type_synonym memory_store = "(fkey, fval) lru_heap \<times> (fkey, fval) lru_cache"

definition ipToUint :: "go_ip \<Rightarrow> u32 option" where
  "ipToUint ip =
     (if length ip < 4 then None else Some (u32_of_bytes (ip ! 0) (ip ! 1) (ip ! 2) (ip ! 3)))"

definition uintToIP :: "u32 \<Rightarrow> go_ip" where
  "uintToIP v = bytes_of_u32 v"

definition GetByHost :: "string \<Rightarrow> memory_store \<Rightarrow> (go_ip option \<times> memory_store) option" where
  "GetByHost host m =
     (case LruCache_Get 0 (KHost host) m of
        (None, m1) \<Rightarrow> Some (None, m1)
      | (Some elm, m1) \<Rightarrow>
          (case elm of
             VHost _ \<Rightarrow> None
           | VIP ip \<Rightarrow> do {
               n \<leftarrow> ipToUint (To4 ip);
               Some (Some ip, snd (LruCache_Get 0 (KIP n) m1))
             }))"

definition PutByHost :: "string \<Rightarrow> go_ip \<Rightarrow> memory_store \<Rightarrow> memory_store" where
  "PutByHost host ip m = LruCache_Set 0 (KHost host) (VIP ip) m"

definition GetByIP :: "go_ip \<Rightarrow> memory_store \<Rightarrow> (string option \<times> memory_store) option" where
  "GetByIP ip m = do {
     n \<leftarrow> ipToUint (To4 ip);
     (case LruCache_Get 0 (KIP n) m of
        (None, m1) \<Rightarrow> Some (None, m1)
      | (Some elm, m1) \<Rightarrow>
          (case elm of
             VIP _ \<Rightarrow> None
           | VHost host \<Rightarrow> Some (Some host, snd (LruCache_Get 0 (KHost host) m1))))
   }"

definition PutByIP :: "go_ip \<Rightarrow> string \<Rightarrow> memory_store \<Rightarrow> memory_store option" where
  "PutByIP ip host m = do {
     n \<leftarrow> ipToUint (To4 ip);
     Some (LruCache_Set 0 (KIP n) (VHost host) m)
   }"

definition DelByIP :: "go_ip \<Rightarrow> memory_store \<Rightarrow> memory_store option" where
  "DelByIP ip m = do {
     ipNum \<leftarrow> ipToUint (To4 ip);
     (case LruCache_Get 0 (KIP ipNum) m of
        (None, m1) \<Rightarrow> Some (LruCache_Delete (KIP ipNum) m1)
      | (Some elm, m1) \<Rightarrow>
          (case elm of
             VIP _ \<Rightarrow> None
           | VHost host \<Rightarrow> Some (LruCache_Delete (KIP ipNum) (LruCache_Delete (KHost host) m1))))
   }"

definition store_Exist :: "go_ip \<Rightarrow> memory_store \<Rightarrow> bool option" where
  "store_Exist ip m = do {
     n \<leftarrow> ipToUint (To4 ip);
     Some (LruCache_Exist (KIP n) (snd m))
   }"

subsection \<open>The pool (pool.go)\<close>

text \<open>\<open>net.IPNet\<close>: the address and the size of the mask (\<open>Mask.Size()\<close>: ones, bits).\<close>

record ipnet =
  net_IP :: go_ip
  mask_ones :: nat
  mask_bits :: nat

record fpool =
  pool_max :: u32
  pool_min :: u32
  pool_gateway :: u32
  pool_offset :: u32
  pool_host :: "string domain_trie option"
  pool_ipnet :: ipnet
  pool_store :: memory_store

record fpool_options =
  opt_IPNet :: ipnet
  opt_Host :: "string domain_trie option"
  opt_Size :: int

text \<open>
  \<open>New\<close>: the error is \<open>ipnet don't have valid ip\<close>; \<open>total\<close> is a 64-bit \<open>int\<close>, and a shift by 64 or
  more gives 0, as in Go.
\<close>

datatype fakeip_error = NoValidIp

definition Pool_New :: "fpool_options \<Rightarrow> (fakeip_error + fpool) option" where
  "Pool_New options = do {
     base \<leftarrow> ipToUint (net_IP (opt_IPNet options));
     let min = base + 2;
         total = push_bit (mask_bits (opt_IPNet options) - mask_ones (opt_IPNet options)) 1 - (2 :: 64 word)
     in if sint total \<le> 0 then Some (Inl NoValidIp)
        else
          let max = min + ucast total - 1
          in Some (Inr \<lparr>pool_max = max, pool_min = min, pool_gateway = min - 1, pool_offset = 0,
               pool_host = opt_Host options, pool_ipnet = opt_IPNet options,
               pool_store = ([], LruCache_New [WithSize (opt_Size options * 2)])\<rparr>)
   }"

text \<open>
  The loop of \<open>get\<close>: it returns the pool with the offset at which the loop was left, after
  deleting the address there when all addresses were taken.
\<close>

partial_function (option) get_loop :: "u32 \<Rightarrow> fpool \<Rightarrow> fpool option" where
  "get_loop current p =
     Option.bind (store_Exist (uintToIP (pool_min p + pool_offset p)) (pool_store p)) (\<lambda>exist.
       if \<not> exist then Some p
       else if pool_max p - pool_min p = 0 then None
       else
         let p1 = p\<lparr>pool_offset := (pool_offset p + 1) mod (pool_max p - pool_min p)\<rparr> in
         if pool_offset p1 = current then
           let p2 = p1\<lparr>pool_offset := (pool_offset p1 + 1) mod (pool_max p1 - pool_min p1)\<rparr> in
           map_option (\<lambda>s. p2\<lparr>pool_store := s\<rparr>)
             (DelByIP (uintToIP (pool_min p2 + pool_offset p2)) (pool_store p2))
         else get_loop current p1)"

definition Pool_get :: "string \<Rightarrow> fpool \<Rightarrow> (go_ip \<times> fpool) option" where
  "Pool_get host p = do {
     p1 \<leftarrow> get_loop (pool_offset p) p;
     let ip = uintToIP (pool_min p1 + pool_offset p1);
     s \<leftarrow> PutByIP ip host (pool_store p1);
     Some (ip, p1\<lparr>pool_store := s\<rparr>)
   }"

definition Pool_Lookup :: "string \<Rightarrow> fpool \<Rightarrow> (go_ip \<times> fpool) option" where
  "Pool_Lookup host0 p =
     (let host = to_lower host0 in do {
       (r, s) \<leftarrow> GetByHost host (pool_store p);
       (case r of
          Some ip \<Rightarrow> Some (ip, p\<lparr>pool_store := s\<rparr>)
        | None \<Rightarrow> do {
            (ip, p1) \<leftarrow> Pool_get host (p\<lparr>pool_store := s\<rparr>);
            Some (ip, p1\<lparr>pool_store := PutByHost host ip (pool_store p1)\<rparr>)
          })
     })"

definition Pool_LookBack :: "go_ip \<Rightarrow> fpool \<Rightarrow> (string option \<times> fpool) option" where
  "Pool_LookBack ip0 p =
     (let ip = To4 ip0 in
      if ip = [] then Some (None, p)
      else do {
        (r, s) \<leftarrow> GetByIP ip (pool_store p);
        Some (r, p\<lparr>pool_store := s\<rparr>)
      })"

definition Pool_ShouldSkipped :: "string \<Rightarrow> fpool \<Rightarrow> bool" where
  "Pool_ShouldSkipped domain p =
     (case pool_host p of None \<Rightarrow> False | Some t \<Rightarrow> Trie_Search domain t \<noteq> None)"

definition Pool_Exist :: "go_ip \<Rightarrow> fpool \<Rightarrow> bool option" where
  "Pool_Exist ip0 p =
     (let ip = To4 ip0 in if ip = [] then Some False else store_Exist ip (pool_store p))"

definition Pool_Gateway :: "fpool \<Rightarrow> go_ip" where
  "Pool_Gateway p = uintToIP (pool_gateway p)"

definition Pool_IPNet :: "fpool \<Rightarrow> ipnet" where
  "Pool_IPNet p = pool_ipnet p"

text \<open>
  \<open>CloneFrom\<close>: the store of \<open>p\<close> becomes a clone of the store of \<open>old\<close>. The clone shares the entries
  of \<open>old\<close>, so the heap of the result is the heap of \<open>old\<close>.
\<close>

definition store_CloneTo :: "memory_store \<Rightarrow> memory_store \<Rightarrow> memory_store" where
  "store_CloneTo m n = (fst m, LruCache_CloneTo (fst m) (snd m) (snd n))"

definition Pool_CloneFrom :: "fpool \<Rightarrow> fpool \<Rightarrow> fpool" where
  "Pool_CloneFrom p old = p\<lparr>pool_store := store_CloneTo (pool_store old) (pool_store p)\<rparr>"


subsection \<open>Abstraction: a list of assignments, least recently used first\<close>

definition host_entry :: "string \<Rightarrow> u32 \<Rightarrow> (fkey, fval) lru_entry" where
  "host_entry h i = \<lparr>le_key = KHost h, le_value = VIP (bytes_of_u32 i), le_expires = 0\<rparr>"

definition ip_entry :: "string \<Rightarrow> u32 \<Rightarrow> (fkey, fval) lru_entry" where
  "ip_entry h i = \<lparr>le_key = KIP i, le_value = VHost h, le_expires = 0\<rparr>"

text \<open>The entries of the cache are adjacent pairs, one for each assignment, in either order.\<close>

fun paired :: "(fkey, fval) lru_entry list \<Rightarrow> (string \<times> u32) list \<Rightarrow> bool" where
  "paired [] [] = True"
| "paired (a # b # es) ((h, i) # ps) =
     ((a = host_entry h i \<and> b = ip_entry h i \<or> a = ip_entry h i \<and> b = host_entry h i) \<and> paired es ps)"
| "paired _ _ = False"

definition one_to_one :: "(string \<times> u32) list \<Rightarrow> bool" where
  "one_to_one ps \<longleftrightarrow> distinct (map fst ps) \<and> distinct (map snd ps)"

definition store_rep :: "int \<Rightarrow> memory_store \<Rightarrow> (string \<times> u32) list \<Rightarrow> bool" where
  "store_rep S m ps \<longleftrightarrow>
     lru_inv (fst m) (snd m) \<and> maxAge (snd m) = 0 \<and> maxSize (snd m) = S * 2 \<and>
     paired (lru_entries (fst m) (snd m)) ps \<and> one_to_one ps \<and>
     (S > 0 \<longrightarrow> int (length ps) \<le> S)"

definition touch :: "'a \<Rightarrow> 'a list \<Rightarrow> 'a list" where
  "touch x xs = filter (\<lambda>y. y \<noteq> x) xs @ [x]"

lemma entry_keys [simp]:
  "le_key (host_entry h i) = KHost h" "le_key (ip_entry h i) = KIP i"
  "le_value (host_entry h i) = VIP (bytes_of_u32 i)" "le_value (ip_entry h i) = VHost h"
  by (simp_all add: host_entry_def ip_entry_def)

lemma entry_neq [simp]: "host_entry h i \<noteq> ip_entry h' i'" "ip_entry h i \<noteq> host_entry h' i'"
  by (simp_all add: host_entry_def ip_entry_def)

lemma paired_length: "paired es ps \<Longrightarrow> length es = 2 * length ps"
  by (induction es ps rule: paired.induct) auto

lemma paired_append: "paired es ps \<Longrightarrow> paired fs qs \<Longrightarrow> paired (es @ fs) (ps @ qs)"
  by (induction es ps rule: paired.induct) auto

lemma paired_find_host:
  "paired es ps \<Longrightarrow> es_find (KHost h) es = map_option (\<lambda>i. host_entry h i) (map_of ps h)"
  by (induction es ps rule: paired.induct) (auto simp: es_find_def)

lemma paired_find_ip:
  "paired es ps \<Longrightarrow> es_find (KIP i) es =
     map_option (\<lambda>h. ip_entry h i) (map_of (map (\<lambda>(h, i). (i, h)) ps) i)"
  by (induction es ps rule: paired.induct) (auto simp: es_find_def)

lemma paired_remove:
  "paired es ps \<Longrightarrow> (\<And>h' i'. (h', i') \<in> set ps \<Longrightarrow> h' = h \<longleftrightarrow> i' = i) \<Longrightarrow>
   paired (es_del (KHost h) (es_del (KIP i) es)) (filter (\<lambda>p. p \<noteq> (h, i)) ps)"
proof (induction es ps rule: paired.induct)
  case (2 a b es h1 i1 ps)
  then have "paired (es_del (KHost h) (es_del (KIP i) es)) (filter (\<lambda>p. p \<noteq> (h, i)) ps)" by auto
  moreover have "h1 = h \<longleftrightarrow> i1 = i" using "2.prems"(2) [of h1 i1] by simp
  ultimately show ?case using "2.prems"(1) by (auto simp: es_del_def)
qed (auto simp: es_del_def)

lemma es_del_commute: "es_del j (es_del k es) = es_del k (es_del j es)"
  by (simp add: es_del_def conj_commute)

lemma one_to_one_mem:
  assumes "one_to_one ps" and "(h, i) \<in> set ps"
  shows "\<And>h' i'. (h', i') \<in> set ps \<Longrightarrow> h' = h \<longleftrightarrow> i' = i"
    and "map_of ps h = Some i" and "map_of (map (\<lambda>(h, i). (i, h)) ps) i = Some h"
proof -
  have f: "distinct (map fst ps)" and s: "distinct (map snd ps)"
    using assms(1) by (auto simp: one_to_one_def)
  have e: "map fst (map (\<lambda>(h, i). (i, h)) ps) = map snd ps" by (induction ps) auto
  have s': "distinct (map fst (map (\<lambda>(h, i). (i, h)) ps))" unfolding e by (rule s)
  show "map_of ps h = Some i" using f assms(2) by simp
  have "(i, h) \<in> set (map (\<lambda>(h, i). (i, h)) ps)" using assms(2) by force
  then show "map_of (map (\<lambda>(h, i). (i, h)) ps) i = Some h" using s' by (rule map_of_is_SomeI [rotated])
  show "h' = h \<longleftrightarrow> i' = i" if "(h', i') \<in> set ps" for h' i'
    using f s that assms(2)
    by (metis distinct_map fst_conv inj_onD prod.inject snd_conv)
qed

lemma map_of_swap_Some: "map_of (map (\<lambda>(h, i). (i, h)) ps) i = Some h \<Longrightarrow> (h, i) \<in> set ps"
  by (drule map_of_SomeD) auto

lemma map_of_swap_None: "map_of (map (\<lambda>(h, i). (i, h)) ps) i = None \<longleftrightarrow> i \<notin> snd ` set ps"
  by (induction ps) auto

lemma one_to_one_touch: "one_to_one ps \<Longrightarrow> x \<in> set ps \<Longrightarrow> one_to_one (touch x ps)"
  unfolding one_to_one_def touch_def
  by (auto simp: distinct_map_filter distinct_map inj_on_def)

lemma one_to_one_filter: "one_to_one ps \<Longrightarrow> one_to_one (filter P ps)"
  by (simp add: one_to_one_def distinct_map_filter)

lemma length_touch: "distinct xs \<Longrightarrow> x \<in> set xs \<Longrightarrow> length (touch x xs) = length xs"
  by (simp add: touch_def length_filter_neq)

lemma one_to_one_distinct: "one_to_one ps \<Longrightarrow> distinct ps"
  by (simp add: one_to_one_def distinct_map)

lemma set_touch: "x \<in> set xs \<Longrightarrow> set (touch x xs) = set xs"
  by (auto simp: touch_def)

lemma ipToUint_bytes [simp]: "ipToUint (bytes_of_u32 i) = Some i"
  using u32_of_bytes_of_u32 [of i] by (simp add: ipToUint_def u32_of_ip_def)

lemma ipToUint_To4: "To4 ip \<noteq> [] \<Longrightarrow> \<exists>i. To4 ip = bytes_of_u32 i"
  using To4_length [of ip] bytes_of_u32_of_ip [of "To4 ip"] by metis

subsection \<open>The cache without a maximum age\<close>

lemma es_get_age0:
  "es_get now upd stale 0 k es =
     (case es_find k es of None \<Rightarrow> (None, es) | Some e \<Rightarrow> (Some (le_value e), es_del k es @ [e]))"
  by (simp add: es_get_def split: option.splits)

lemma es_set_age0:
  "es_find k es = None \<Longrightarrow> es_set now stale 0 cap k v x es =
     (let es' = es @ [\<lparr>le_key = k, le_value = v, le_expires = x\<rparr>]
      in if cap > 0 \<and> int (length es') > cap then tl es' else es')"
  by (simp add: es_set_def es_purge_def es_find_None es_del_id Let_def)

lemma Get_age0:
  assumes "lru_inv (fst m) (snd m)" and "maxAge (snd m) = 0" and "LruCache_Get now k m = (v, m')"
  shows "lru_inv (fst m') (snd m')" and "maxAge (snd m') = 0" and "maxSize (snd m') = maxSize (snd m)"
    and "(v, lru_entries (fst m') (snd m')) =
      (case es_find k (lru_entries (fst m) (snd m)) of
         None \<Rightarrow> (None, lru_entries (fst m) (snd m))
       | Some e \<Rightarrow> (Some (le_value e), es_del k (lru_entries (fst m) (snd m)) @ [e]))"
  using LruCache_Get_refines [of "fst m" "snd m" now k v "fst m'" "snd m'"] assms
  by (simp_all add: es_get_age0)

lemma Set_age0:
  assumes "lru_inv (fst m) (snd m)" and "maxAge (snd m) = 0"
    and "es_find k (lru_entries (fst m) (snd m)) = None"
  shows "lru_inv (fst (LruCache_Set now k v m)) (snd (LruCache_Set now k v m))"
    and "maxAge (snd (LruCache_Set now k v m)) = 0"
    and "maxSize (snd (LruCache_Set now k v m)) = maxSize (snd m)"
    and "lru_entries (fst (LruCache_Set now k v m)) (snd (LruCache_Set now k v m)) =
      (let es' = lru_entries (fst m) (snd m) @ [\<lparr>le_key = k, le_value = v, le_expires = 0\<rparr>]
       in if maxSize (snd m) > 0 \<and> int (length es') > maxSize (snd m) then tl es' else es')"
proof -
  obtain h' c' where s: "LruCache_SetWithExpire now k v 0 (fst m, snd m) = (h', c')"
    by (cases "LruCache_SetWithExpire now k v 0 (fst m, snd m)") auto
  then have e: "LruCache_Set now k v m = (h', c')" using assms(2) by (simp add: LruCache_Set_def)
  show "lru_inv (fst (LruCache_Set now k v m)) (snd (LruCache_Set now k v m))"
    and "maxAge (snd (LruCache_Set now k v m)) = 0"
    and "maxSize (snd (LruCache_Set now k v m)) = maxSize (snd m)"
    and "lru_entries (fst (LruCache_Set now k v m)) (snd (LruCache_Set now k v m)) =
      (let es' = lru_entries (fst m) (snd m) @ [\<lparr>le_key = k, le_value = v, le_expires = 0\<rparr>]
       in if maxSize (snd m) > 0 \<and> int (length es') > maxSize (snd m) then tl es' else es')"
    using LruCache_SetWithExpire_refines [OF assms(1) s] assms(2) e es_set_age0 [OF assms(3)]
    by simp_all
qed

lemma Delete_age0:
  assumes "lru_inv (fst m) (snd m)"
  shows "lru_inv (fst (LruCache_Delete k m)) (snd (LruCache_Delete k m))"
    and "maxAge (snd (LruCache_Delete k m)) = maxAge (snd m)"
    and "maxSize (snd (LruCache_Delete k m)) = maxSize (snd m)"
    and "lru_entries (fst (LruCache_Delete k m)) (snd (LruCache_Delete k m)) =
      es_del k (lru_entries (fst m) (snd m))"
proof -
  obtain h' c' where d: "LruCache_Delete k (fst m, snd m) = (h', c')"
    by (cases "LruCache_Delete k (fst m, snd m)") auto
  then have e: "LruCache_Delete k m = (h', c')" by simp
  show "lru_inv (fst (LruCache_Delete k m)) (snd (LruCache_Delete k m))"
    and "maxAge (snd (LruCache_Delete k m)) = maxAge (snd m)"
    and "maxSize (snd (LruCache_Delete k m)) = maxSize (snd m)"
    and "lru_entries (fst (LruCache_Delete k m)) (snd (LruCache_Delete k m)) =
      es_del k (lru_entries (fst m) (snd m))"
    using LruCache_Delete_refines [OF assms d] e by simp_all
qed


subsection \<open>The store refines the list of assignments\<close>

lemma store_repD:
  assumes "store_rep S m ps"
  shows "lru_inv (fst m) (snd m)" and "maxAge (snd m) = 0" and "maxSize (snd m) = S * 2"
    and "paired (lru_entries (fst m) (snd m)) ps" and "one_to_one ps"
    and "S > 0 \<Longrightarrow> int (length ps) \<le> S"
  using assms by (auto simp: store_rep_def)

text \<open>Two \<open>Get\<close>s that move both entries of an assignment to the back of the list.\<close>

lemma touch_entries:
  assumes "paired es ps" and "one_to_one ps" and "(h, i) \<in> set ps"
  shows "paired (es_del (KIP i) (es_del (KHost h) es @ [host_entry h i]) @ [ip_entry h i]) (touch (h, i) ps)"
    and "paired (es_del (KHost h) (es_del (KIP i) es @ [ip_entry h i]) @ [host_entry h i]) (touch (h, i) ps)"
proof -
  have r: "paired (es_del (KHost h) (es_del (KIP i) es)) (filter (\<lambda>p. p \<noteq> (h, i)) ps)"
    using paired_remove [OF assms(1)] one_to_one_mem(1) [OF assms(2,3)] by blast
  have d1: "es_del (KIP i) (es_del (KHost h) es @ [host_entry h i]) =
      es_del (KHost h) (es_del (KIP i) es) @ [host_entry h i]"
    using es_del_commute [of "KIP i" "KHost h" es] by (simp add: es_del_def)
  have d2: "es_del (KHost h) (es_del (KIP i) es @ [ip_entry h i]) =
      es_del (KHost h) (es_del (KIP i) es) @ [ip_entry h i]"
    by (simp add: es_del_def)
  show "paired (es_del (KIP i) (es_del (KHost h) es @ [host_entry h i]) @ [ip_entry h i]) (touch (h, i) ps)"
    unfolding d1 touch_def using paired_append [OF r, of "[host_entry h i, ip_entry h i]" "[(h, i)]"] by simp
  show "paired (es_del (KHost h) (es_del (KIP i) es @ [ip_entry h i]) @ [host_entry h i]) (touch (h, i) ps)"
    unfolding d2 touch_def using paired_append [OF r, of "[ip_entry h i, host_entry h i]" "[(h, i)]"] by simp
qed

lemma store_rep_touchI:
  assumes "store_rep S m ps" and "(h, i) \<in> set ps"
    and "lru_inv (fst m') (snd m')" and "maxAge (snd m') = 0" and "maxSize (snd m') = maxSize (snd m)"
    and "paired (lru_entries (fst m') (snd m')) (touch (h, i) ps)"
  shows "store_rep S m' (touch (h, i) ps)"
  using assms store_repD [OF assms(1)]
  by (simp add: store_rep_def one_to_one_touch length_touch one_to_one_distinct)

lemma GetByHost_miss:
  assumes "store_rep S m ps" and "host \<notin> fst ` set ps"
  shows "\<exists>m'. GetByHost host m = Some (None, m') \<and> store_rep S m' ps"
proof -
  note r = store_repD [OF assms(1)]
  obtain v m1 where g: "LruCache_Get 0 (KHost host) m = (v, m1)" by (rule prod.exhaust)
  have "es_find (KHost host) (lru_entries (fst m) (snd m)) = None"
    using paired_find_host [OF r(4)] assms(2) by (simp add: map_of_eq_None_iff)
  note Get_age0 [OF r(1,2) g] this
  then show ?thesis using g r by (simp add: GetByHost_def store_rep_def)
qed

lemma GetByHost_hit:
  assumes "store_rep S m ps" and "(host, i) \<in> set ps"
  shows "\<exists>m'. GetByHost host m = Some (Some (bytes_of_u32 i), m') \<and> store_rep S m' (touch (host, i) ps)"
proof -
  note r = store_repD [OF assms(1)]
  note o = one_to_one_mem [OF r(5) assms(2)]
  obtain v m1 where g1: "LruCache_Get 0 (KHost host) m = (v, m1)" by (rule prod.exhaust)
  have f1: "es_find (KHost host) (lru_entries (fst m) (snd m)) = Some (host_entry host i)"
    using paired_find_host [OF r(4)] o(2) by simp
  note s1 = Get_age0 [OF r(1,2) g1]
  have e1: "v = Some (VIP (bytes_of_u32 i))"
    "lru_entries (fst m1) (snd m1) = es_del (KHost host) (lru_entries (fst m) (snd m)) @ [host_entry host i]"
    using s1(4) f1 by simp_all
  obtain w m2 where g2: "LruCache_Get 0 (KIP i) m1 = (w, m2)" by (rule prod.exhaust)
  note s2 = Get_age0 [OF s1(1,2) g2]
  have "es_find (KIP i) (lru_entries (fst m) (snd m)) = Some (ip_entry host i)"
    using paired_find_ip [OF r(4)] o(3) by simp
  then have f2: "es_find (KIP i) (lru_entries (fst m1) (snd m1)) = Some (ip_entry host i)"
    unfolding e1 by (simp add: es_find_append)
  have "lru_entries (fst m2) (snd m2) =
      es_del (KIP i) (es_del (KHost host) (lru_entries (fst m) (snd m)) @ [host_entry host i]) @ [ip_entry host i]"
    using s2(4) f2 e1(2) by simp
  then have "store_rep S m2 (touch (host, i) ps)"
    using touch_entries(1) [OF r(4,5) assms(2)] s1 s2
    by (intro store_rep_touchI [OF assms]) simp_all
  then show ?thesis using g1 g2 e1 by (simp add: GetByHost_def)
qed

lemma GetByIP_miss:
  assumes "store_rep S m ps" and "i \<notin> snd ` set ps"
  shows "\<exists>m'. GetByIP (bytes_of_u32 i) m = Some (None, m') \<and> store_rep S m' ps"
proof -
  note r = store_repD [OF assms(1)]
  obtain v m1 where g: "LruCache_Get 0 (KIP i) m = (v, m1)" by (rule prod.exhaust)
  have "es_find (KIP i) (lru_entries (fst m) (snd m)) = None"
    using paired_find_ip [OF r(4)] assms(2) by (simp add: map_of_swap_None)
  note Get_age0 [OF r(1,2) g] this
  then show ?thesis using g r by (simp add: GetByIP_def store_rep_def)
qed

lemma GetByIP_hit:
  assumes "store_rep S m ps" and "(host, i) \<in> set ps"
  shows "\<exists>m'. GetByIP (bytes_of_u32 i) m = Some (Some host, m') \<and> store_rep S m' (touch (host, i) ps)"
proof -
  note r = store_repD [OF assms(1)]
  note o = one_to_one_mem [OF r(5) assms(2)]
  obtain v m1 where g1: "LruCache_Get 0 (KIP i) m = (v, m1)" by (rule prod.exhaust)
  have f1: "es_find (KIP i) (lru_entries (fst m) (snd m)) = Some (ip_entry host i)"
    using paired_find_ip [OF r(4)] o(3) by simp
  note s1 = Get_age0 [OF r(1,2) g1]
  have e1: "v = Some (VHost host)"
    "lru_entries (fst m1) (snd m1) = es_del (KIP i) (lru_entries (fst m) (snd m)) @ [ip_entry host i]"
    using s1(4) f1 by simp_all
  obtain w m2 where g2: "LruCache_Get 0 (KHost host) m1 = (w, m2)" by (rule prod.exhaust)
  note s2 = Get_age0 [OF s1(1,2) g2]
  have "es_find (KHost host) (lru_entries (fst m) (snd m)) = Some (host_entry host i)"
    using paired_find_host [OF r(4)] o(2) by simp
  then have f2: "es_find (KHost host) (lru_entries (fst m1) (snd m1)) = Some (host_entry host i)"
    unfolding e1 by (simp add: es_find_append)
  have "lru_entries (fst m2) (snd m2) =
      es_del (KHost host) (es_del (KIP i) (lru_entries (fst m) (snd m)) @ [ip_entry host i]) @ [host_entry host i]"
    using s2(4) f2 e1(2) by simp
  then have "store_rep S m2 (touch (host, i) ps)"
    using touch_entries(2) [OF r(4,5) assms(2)] s1 s2
    by (intro store_rep_touchI [OF assms]) simp_all
  then show ?thesis using g1 g2 e1 by (simp add: GetByIP_def)
qed

lemma store_Exist_iff:
  assumes "store_rep S m ps"
  shows "store_Exist (bytes_of_u32 i) m = Some (i \<in> snd ` set ps)"
proof -
  note r = store_repD [OF assms]
  have "es_find (KIP i) (lru_entries (fst m) (snd m)) \<noteq> None \<longleftrightarrow> i \<in> snd ` set ps"
    using paired_find_ip [OF r(4), of i] map_of_swap_None [of ps i] by auto
  then show ?thesis using Exist_find [OF r(1), of "KIP i"] by (simp add: store_Exist_def)
qed

lemma DelByIP_hit:
  assumes "store_rep S m ps" and "(host, i) \<in> set ps"
  shows "\<exists>m'. DelByIP (bytes_of_u32 i) m = Some m' \<and> store_rep S m' (filter (\<lambda>p. p \<noteq> (host, i)) ps)"
proof -
  note r = store_repD [OF assms(1)]
  note o = one_to_one_mem [OF r(5) assms(2)]
  obtain v m1 where g1: "LruCache_Get 0 (KIP i) m = (v, m1)" by (rule prod.exhaust)
  have f1: "es_find (KIP i) (lru_entries (fst m) (snd m)) = Some (ip_entry host i)"
    using paired_find_ip [OF r(4)] o(3) by simp
  note s1 = Get_age0 [OF r(1,2) g1]
  have e1: "v = Some (VHost host)"
    "lru_entries (fst m1) (snd m1) = es_del (KIP i) (lru_entries (fst m) (snd m)) @ [ip_entry host i]"
    using s1(4) f1 by simp_all
  define m2 where "m2 = LruCache_Delete (KHost host) m1"
  define m3 where "m3 = LruCache_Delete (KIP i) m2"
  note d2 = Delete_age0 [OF s1(1), of "KHost host", folded m2_def]
  note d3 = Delete_age0 [OF d2(1), of "KIP i", folded m3_def]
  have "lru_entries (fst m3) (snd m3) = es_del (KHost host) (es_del (KIP i) (lru_entries (fst m) (snd m)))"
    unfolding d3(4) d2(4) e1(2) by (auto simp: es_del_def intro!: filter_cong)
  moreover have "paired (es_del (KHost host) (es_del (KIP i) (lru_entries (fst m) (snd m))))
      (filter (\<lambda>p. p \<noteq> (host, i)) ps)"
    using paired_remove [OF r(4)] o(1) by blast
  moreover have "length (filter (\<lambda>p. p \<noteq> (host, i)) ps) \<le> length ps" by simp
  ultimately have "store_rep S m3 (filter (\<lambda>p. p \<noteq> (host, i)) ps)"
    using r s1 d2 d3 unfolding store_rep_def
    by (auto simp: one_to_one_filter simp del: length_filter_le)
  then show ?thesis using g1 e1 by (simp add: DelByIP_def m2_def m3_def)
qed

text \<open>\<open>PutByIP\<close> and \<open>PutByHost\<close> together add one assignment and drop the oldest when the cache is full.\<close>

definition make_room :: "int \<Rightarrow> (string \<times> u32) list \<Rightarrow> (string \<times> u32) list" where
  "make_room S ps = (if S > 0 \<and> int (length ps) \<ge> S then tl ps else ps)"

lemma Put_pair:
  assumes "store_rep S m ps" and "host \<notin> fst ` set ps" and "i \<notin> snd ` set ps"
  shows "\<exists>m1. PutByIP (bytes_of_u32 i) host m = Some m1 \<and>
    store_rep S (PutByHost host (bytes_of_u32 i) m1) (make_room S ps @ [(host, i)])"
proof -
  note r = store_repD [OF assms(1)]
  let ?es = "lru_entries (fst m) (snd m)"
  have fi: "es_find (KIP i) ?es = None"
    using paired_find_ip [OF r(4)] assms(3) by (simp add: map_of_swap_None)
  have fh: "es_find (KHost host) ?es = None"
    using paired_find_host [OF r(4)] assms(2) by (simp add: map_of_eq_None_iff)
  define m1 where "m1 = LruCache_Set 0 (KIP i) (VHost host) m"
  define m2 where "m2 = LruCache_Set 0 (KHost host) (VIP (bytes_of_u32 i)) m1"
  note s1 = Set_age0 [OF r(1,2) fi, of 0 "VHost host", folded m1_def]
  have e1: "lru_entries (fst m1) (snd m1) =
      (if S > 0 \<and> int (length (?es @ [ip_entry host i])) > S * 2
       then tl (?es @ [ip_entry host i]) else ?es @ [ip_entry host i])"
    using s1(4) r(3) by (simp add: ip_entry_def Let_def)
  have "set (lru_entries (fst m1) (snd m1)) \<subseteq> insert (ip_entry host i) (set ?es)"
    unfolding e1 by (auto dest: in_set_tlD)
  then have "KHost host \<notin> le_key ` set (lru_entries (fst m1) (snd m1))"
    using fh unfolding es_find_None by (auto simp: ip_entry_def)
  then have fh1: "es_find (KHost host) (lru_entries (fst m1) (snd m1)) = None"
    by (simp add: es_find_None)
  note s2 = Set_age0 [OF s1(1,2) fh1, of 0 "VIP (bytes_of_u32 i)", folded m2_def]
  have e2: "lru_entries (fst m2) (snd m2) =
      (let es' = lru_entries (fst m1) (snd m1) @ [host_entry host i]
       in if S > 0 \<and> int (length es') > S * 2 then tl es' else es')"
    using s2(4) s1(3) r(3) by (simp add: host_entry_def)
  note len = paired_length [OF r(4)]
  have p: "paired (lru_entries (fst m2) (snd m2)) (make_room S ps @ [(host, i)])"
  proof (cases "S > 0 \<and> int (length ps) \<ge> S")
    case True
    then have l: "int (length ps) = S" using r(6) by simp
    with True obtain q qs where ps: "ps = q # qs" by (cases ps) auto
    obtain a b fs where es: "?es = a # b # fs"
      using len ps by (cases ?es; cases "tl ?es") auto
    obtain qh qi where q: "q = (qh, qi)" by (cases q)
    have "paired fs qs" using r(4) unfolding ps es q by simp
    then have "paired (fs @ [ip_entry host i, host_entry host i]) (qs @ [(host, i)])"
      by (rule paired_append) simp
    moreover have "lru_entries (fst m2) (snd m2) = fs @ [ip_entry host i, host_entry host i]"
      using e1 e2 True l len es by (simp add: Let_def)
    ultimately show ?thesis using True ps by (simp add: make_room_def)
  next
    case False
    then have "\<not> (S > 0 \<and> int (length ?es) + 2 > S * 2)" using len by auto
    then have "lru_entries (fst m2) (snd m2) = ?es @ [ip_entry host i, host_entry host i]"
      using e1 e2 by (auto simp: Let_def)
    then show ?thesis using False paired_append [OF r(4), of "[ip_entry host i, host_entry host i]" "[(host, i)]"]
      by (auto simp: make_room_def)
  qed
  have sub: "set (make_room S ps) \<subseteq> set ps"
    by (auto simp: make_room_def dest: in_set_tlD)
  have "one_to_one (make_room S ps)" using r(5) by (simp add: make_room_def one_to_one_def map_tl distinct_tl)
  then have o: "one_to_one (make_room S ps @ [(host, i)])"
    using assms(2,3) sub by (auto simp: one_to_one_def)
  have "S > 0 \<longrightarrow> int (length (make_room S ps @ [(host, i)])) \<le> S"
    using r(6) by (auto simp: make_room_def)
  then have "store_rep S m2 (make_room S ps @ [(host, i)])"
    using s1 s2 p o r(3) by (simp add: store_rep_def)
  then show ?thesis by (simp add: PutByIP_def PutByHost_def m1_def m2_def)
qed


lemma DelByIP_miss:
  assumes "store_rep S m ps" and "i \<notin> snd ` set ps"
  shows "\<exists>m'. DelByIP (bytes_of_u32 i) m = Some m' \<and> store_rep S m' ps"
proof -
  note r = store_repD [OF assms(1)]
  obtain v m1 where g: "LruCache_Get 0 (KIP i) m = (v, m1)" by (rule prod.exhaust)
  have f: "es_find (KIP i) (lru_entries (fst m) (snd m)) = None"
    using paired_find_ip [OF r(4)] assms(2) by (simp add: map_of_swap_None)
  note s1 = Get_age0 [OF r(1,2) g]
  have e: "v = None" "lru_entries (fst m1) (snd m1) = lru_entries (fst m) (snd m)" using s1(4) f by simp_all
  note d = Delete_age0 [OF s1(1), of "KIP i"]
  have "lru_entries (fst (LruCache_Delete (KIP i) m1)) (snd (LruCache_Delete (KIP i) m1)) =
      lru_entries (fst m) (snd m)"
    using d(4) f e(2) by (simp add: es_find_None es_del_id)
  then have "store_rep S (LruCache_Delete (KIP i) m1) ps" using d s1 r by (simp add: store_rep_def)
  then show ?thesis using g e by (simp add: DelByIP_def)
qed

subsection \<open>The pool refines the list of assignments\<close>

definition ring :: "fpool \<Rightarrow> nat" where
  "ring p = unat (pool_max p - pool_min p)"

definition addr :: "fpool \<Rightarrow> u32 \<Rightarrow> u32" where
  "addr p off = pool_min p + off"

text \<open>The number of steps the offset takes to come to \<open>c\<close>.\<close>

definition ring_dist :: "nat \<Rightarrow> nat \<Rightarrow> nat \<Rightarrow> nat" where
  "ring_dist n o1 c = (if o1 < c then c - o1 else n - o1 + c)"

lemma word_succ_mod:
  fixes off n :: u32
  assumes "unat off < unat n"
  shows "unat ((off + 1) mod n) = (unat off + 1) mod unat n"
proof -
  have "unat off + 1 < 2 ^ 32" using assms u32_less [of n] by simp
  then have "unat (off + 1) = unat off + 1" by (simp add: unat_word_ariths)
  then show ?thesis by (simp add: unat_mod_distrib)
qed

lemma get_loop_spec:
  assumes "store_rep S (pool_store p) ps" and "unat (pool_offset p) < ring p" and "unat current < ring p"
  shows "\<exists>off s ps'. get_loop current p = Some (p\<lparr>pool_offset := off, pool_store := s\<rparr>) \<and>
    unat off < ring p \<and> store_rep S s ps' \<and> addr p off \<notin> snd ` set ps' \<and>
    (ps' = ps \<or>
     (\<exists>h. (h, addr p off) \<in> set ps \<and> ps' = filter (\<lambda>x. x \<noteq> (h, addr p off)) ps) \<and>
     (\<forall>j < ring_dist (ring p) (unat (pool_offset p)) (unat current).
        addr p (of_nat ((unat (pool_offset p) + j) mod ring p)) \<in> snd ` set ps))"
  using assms
proof (induction "ring_dist (ring p) (unat (pool_offset p)) (unat current)" arbitrary: p rule: less_induct)
  case less
  note rep = less.prems(1) and off = less.prems(2) and cur = less.prems(3)
  let ?n = "pool_max p - pool_min p" and ?o = "pool_offset p"
  have n0: "?n \<noteq> 0" using off by (auto simp: ring_def)
  have ex: "store_Exist (uintToIP (pool_min p + ?o)) (pool_store p) = Some (addr p ?o \<in> snd ` set ps)"
    using store_Exist_iff [OF rep] by (simp add: uintToIP_def addr_def)
  show ?case
  proof (cases "addr p ?o \<in> snd ` set ps")
    case False
    then have "get_loop current p = Some (p\<lparr>pool_offset := ?o, pool_store := pool_store p\<rparr>)"
      using ex by (simp add: get_loop.simps [of current p])
    then show ?thesis using rep off False by blast
  next
    case True
    define p1 where "p1 = p\<lparr>pool_offset := (?o + 1) mod ?n\<rparr>"
    have o1: "unat (pool_offset p1) = (unat ?o + 1) mod ring p"
      using word_succ_mod [of ?o ?n] off by (simp add: p1_def ring_def)
    have lt1: "unat (pool_offset p1) < ring p" using o1 off by simp
    have [simp]: "ring p1 = ring p" "addr p1 = addr p" "pool_store p1 = pool_store p"
      "pool_min p1 = pool_min p" "pool_max p1 = pool_max p"
      by (auto simp: ring_def addr_def p1_def)
    have at0: "addr p (of_nat ((unat ?o + 0) mod ring p)) \<in> snd ` set ps"
      using True off by simp
    show ?thesis
    proof (cases "pool_offset p1 = current")
      case True2: True
      define o2 where "o2 = (pool_offset p1 + 1) mod ?n"
      have lt2: "unat o2 < ring p"
        using word_succ_mod [of "pool_offset p1" ?n] lt1 off by (simp add: o2_def ring_def)
      have d1: "ring_dist (ring p) (unat ?o) (unat current) = 1"
        using o1 True2 off by (auto simp: ring_dist_def mod_Suc split: if_splits)
      have gl: "get_loop current p = map_option (\<lambda>s. p\<lparr>pool_offset := o2, pool_store := s\<rparr>)
          (DelByIP (bytes_of_u32 (addr p o2)) (pool_store p))"
        using ex True n0 True2
        by (simp add: get_loop.simps [of current p] Let_def p1_def o2_def uintToIP_def addr_def)
      show ?thesis
      proof (cases "addr p o2 \<in> snd ` set ps")
        case In: True
        then obtain h where h: "(h, addr p o2) \<in> set ps" by auto
        obtain m' where m': "DelByIP (bytes_of_u32 (addr p o2)) (pool_store p) = Some m'"
          "store_rep S m' (filter (\<lambda>x. x \<noteq> (h, addr p o2)) ps)"
          using DelByIP_hit [OF rep h] by blast
        have "addr p o2 \<notin> snd ` set (filter (\<lambda>x. x \<noteq> (h, addr p o2)) ps)"
          using one_to_one_mem(1) [OF store_repD(5) [OF rep] h] by auto
        moreover have "\<forall>j < ring_dist (ring p) (unat ?o) (unat current).
            addr p (of_nat ((unat ?o + j) mod ring p)) \<in> snd ` set ps"
          using at0 d1 by simp
        moreover have "get_loop current p = Some (p\<lparr>pool_offset := o2, pool_store := m'\<rparr>)"
          using gl m'(1) by simp
        ultimately show ?thesis using m'(2) lt2 h
          by (intro exI [of _ o2] exI [of _ m'] exI [of _ "filter (\<lambda>x. x \<noteq> (h, addr p o2)) ps"]) blast
      next
        case Out: False
        from DelByIP_miss [OF rep Out] obtain m' where m':
          "DelByIP (bytes_of_u32 (addr p o2)) (pool_store p) = Some m'" "store_rep S m' ps" by blast
        have "get_loop current p = Some (p\<lparr>pool_offset := o2, pool_store := m'\<rparr>)"
          using gl m'(1) by simp
        then show ?thesis using m'(2) lt2 Out
          by (intro exI [of _ o2] exI [of _ m'] exI [of _ ps]) blast
      qed
    next
      case False2: False
      have d: "Suc (ring_dist (ring p) (unat (pool_offset p1)) (unat current)) =
          ring_dist (ring p) (unat ?o) (unat current)"
        using o1 off cur False2 word_eq_iff_unsigned [where 'a = nat, of "pool_offset p1" current]
        by (auto simp: ring_dist_def mod_Suc split: if_splits)
      have gl: "get_loop current p = get_loop current p1"
        using ex True n0 False2 by (simp add: get_loop.simps [of current p] Let_def p1_def)
      have upd: "p1\<lparr>pool_offset := x, pool_store := s\<rparr> = p\<lparr>pool_offset := x, pool_store := s\<rparr>" for x s
        by (simp add: p1_def)
      have sh: "addr p (of_nat ((unat ?o + j) mod ring p)) \<in> snd ` set ps"
        if "\<forall>j < ring_dist (ring p) (unat (pool_offset p1)) (unat current).
          addr p (of_nat ((unat (pool_offset p1) + j) mod ring p)) \<in> snd ` set ps"
        and "j < ring_dist (ring p) (unat ?o) (unat current)" for j
      proof (cases j)
        case 0
        then show ?thesis using at0 by simp
      next
        case (Suc k)
        then have "k < ring_dist (ring p) (unat (pool_offset p1)) (unat current)" using that(2) d by simp
        moreover have "(unat (pool_offset p1) + k) mod ring p = (unat ?o + j) mod ring p"
          unfolding o1 Suc by (simp add: mod_simps)
        ultimately show ?thesis using that(1) by metis
      qed
      from less.hyps [of p1] have "\<exists>off s ps'. get_loop current p1 = Some (p1\<lparr>pool_offset := off, pool_store := s\<rparr>) \<and>
        unat off < ring p \<and> store_rep S s ps' \<and> addr p off \<notin> snd ` set ps' \<and>
        (ps' = ps \<or>
         (\<exists>h. (h, addr p off) \<in> set ps \<and> ps' = filter (\<lambda>x. x \<noteq> (h, addr p off)) ps) \<and>
         (\<forall>j < ring_dist (ring p) (unat (pool_offset p1)) (unat current).
            addr p (of_nat ((unat (pool_offset p1) + j) mod ring p)) \<in> snd ` set ps))"
        using d rep lt1 cur by simp
      then obtain off s ps' where r: "get_loop current p1 = Some (p1\<lparr>pool_offset := off, pool_store := s\<rparr>)"
        "unat off < ring p" "store_rep S s ps'" "addr p off \<notin> snd ` set ps'" and
        c: "ps' = ps \<or> (\<exists>h. (h, addr p off) \<in> set ps \<and> ps' = filter (\<lambda>x. x \<noteq> (h, addr p off)) ps) \<and>
         (\<forall>j < ring_dist (ring p) (unat (pool_offset p1)) (unat current).
            addr p (of_nat ((unat (pool_offset p1) + j) mod ring p)) \<in> snd ` set ps)"
        by (elim exE conjE) (rule that; assumption)
      have "get_loop current p = Some (p\<lparr>pool_offset := off, pool_store := s\<rparr>)"
        using gl r(1) upd by simp
      moreover from c have "ps' = ps \<or>
         (\<exists>h. (h, addr p off) \<in> set ps \<and> ps' = filter (\<lambda>x. x \<noteq> (h, addr p off)) ps) \<and>
         (\<forall>j < ring_dist (ring p) (unat ?o) (unat current).
            addr p (of_nat ((unat ?o + j) mod ring p)) \<in> snd ` set ps)"
        by (elim disjE conjE) (simp, use sh in blast)
      ultimately show ?thesis using r(2-4)
        by (intro exI [of _ off] exI [of _ s] exI [of _ ps']) blast
    qed
  qed
qed

subsection \<open>The pool invariant\<close>

definition ring_addrs :: "fpool \<Rightarrow> u32 set" where
  "ring_addrs p = (\<lambda>j. addr p (of_nat j)) ` {..<ring p}"

definition pool_ok :: "int \<Rightarrow> fpool \<Rightarrow> (string \<times> u32) list \<Rightarrow> bool" where
  "pool_ok S p ps \<longleftrightarrow>
     store_rep S (pool_store p) ps \<and> unat (pool_offset p) < ring p \<and>
     snd ` set ps \<subseteq> ring_addrs p \<and> (\<forall>h \<in> fst ` set ps. to_lower h = h)"

text \<open>The parts of a pool that no operation changes.\<close>

definition same_range :: "fpool \<Rightarrow> fpool \<Rightarrow> bool" where
  "same_range p q \<longleftrightarrow> pool_min q = pool_min p \<and> pool_max q = pool_max p"

lemma same_range_refl [simp]: "same_range p p"
  by (simp add: same_range_def)

lemma same_range_trans: "same_range p q \<Longrightarrow> same_range q r \<Longrightarrow> same_range p r"
  by (simp add: same_range_def)

lemma same_range_upd [simp]:
  "same_range p (p\<lparr>pool_store := s\<rparr>)" "same_range p (p\<lparr>pool_offset := off, pool_store := s\<rparr>)"
  by (simp_all add: same_range_def)

lemma same_range_ring: "same_range p q \<Longrightarrow> ring q = ring p"
  "same_range p q \<Longrightarrow> ring_addrs q = ring_addrs p" "same_range p q \<Longrightarrow> addr q = addr p"
proof -
  assume a: "same_range p q"
  show r: "ring q = ring p" and d: "addr q = addr p" using a by (auto simp: same_range_def ring_def addr_def)
  show "ring_addrs q = ring_addrs p" unfolding ring_addrs_def r d by simp
qed

lemma addr_in_ring: "unat off < ring p \<Longrightarrow> addr p off \<in> ring_addrs p"
  unfolding ring_addrs_def by (rule image_eqI [of _ _ "unat off"]) simp_all

lemma ring_less: "ring p < 2 ^ 32"
  using u32_less by (simp add: ring_def)

lemma card_ring_addrs: "card (ring_addrs p) = ring p"
proof -
  have "inj_on (\<lambda>j. addr p (of_nat j)) {..<ring p}"
  proof (rule inj_onI)
    fix j k assume "j \<in> {..<ring p}" "k \<in> {..<ring p}" "addr p (of_nat j) = addr p (of_nat k)"
    moreover from this have "(of_nat j :: u32) = of_nat k" by (simp add: addr_def)
    then have "unat (of_nat j :: u32) = unat (of_nat k :: u32)" by simp
    ultimately show "j = k" using ring_less [of p] by (simp add: unsigned_of_nat take_bit_nat_eq_self)
  qed
  then show ?thesis by (simp add: ring_addrs_def card_image)
qed

text \<open>All addresses of the ring are taken: the only case in which the pool revokes one.\<close>

definition pool_full :: "fpool \<Rightarrow> (string \<times> u32) list \<Rightarrow> bool" where
  "pool_full p ps \<longleftrightarrow> ring_addrs p \<subseteq> snd ` set ps"

lemma pool_full_length:
  assumes "pool_full p ps"
  shows "ring p \<le> length ps"
proof -
  have "ring p \<le> card (snd ` set ps)"
    using assms card_ring_addrs [of p] card_mono [of "snd ` set ps" "ring_addrs p"] by (simp add: pool_full_def)
  also have "\<dots> \<le> length ps" using card_length [of "map snd ps"] by simp
  finally show ?thesis .
qed

lemma rotation_full:
  assumes "unat off < ring p"
    and "\<forall>j < ring p. addr p (of_nat ((unat off + j) mod ring p)) \<in> snd ` set ps"
  shows "pool_full p ps"
proof -
  have "addr p (of_nat k) \<in> snd ` set ps" if k: "k < ring p" for k
  proof -
    let ?j = "(k + (ring p - unat off)) mod ring p"
    have "(unat off + ?j) mod ring p = (unat off + (k + (ring p - unat off))) mod ring p"
      by (simp add: mod_add_right_eq)
    also have "\<dots> = k" using assms(1) k by simp
    finally show ?thesis using assms(2) assms(1) by (metis mod_less_divisor k less_nat_zero_code not_gr_zero)
  qed
  then show ?thesis by (auto simp: pool_full_def ring_addrs_def)
qed

text \<open>The abstract effect of a lookup of a host on the list of assignments.\<close>

definition fresh_assignment ::
  "int \<Rightarrow> fpool \<Rightarrow> string \<Rightarrow> u32 \<Rightarrow> (string \<times> u32) list \<Rightarrow> (string \<times> u32) list \<Rightarrow> bool" where
  "fresh_assignment S p h i ps ps' \<longleftrightarrow> h \<notin> fst ` set ps \<and> i \<in> ring_addrs p \<and>
     (i \<notin> snd ` set ps \<and> ps' = make_room S ps @ [(h, i)] \<or>
      pool_full p ps \<and> (\<exists>h'. (h', i) \<in> set ps \<and> ps' = make_room S (filter (\<lambda>x. x \<noteq> (h', i)) ps) @ [(h, i)]))"

definition lookup_effect ::
  "int \<Rightarrow> fpool \<Rightarrow> string \<Rightarrow> u32 \<Rightarrow> (string \<times> u32) list \<Rightarrow> (string \<times> u32) list \<Rightarrow> bool" where
  "lookup_effect S p h i ps ps' \<longleftrightarrow>
     (h, i) \<in> set ps \<and> ps' = touch (h, i) ps \<or> fresh_assignment S p h i ps ps'"

lemma Pool_get_spec:
  assumes "pool_ok S p ps" and "h \<notin> fst ` set ps" and "to_lower h = h"
  shows "\<exists>i p' ps'. Pool_get h p = Some (bytes_of_u32 i, p') \<and> same_range p p' \<and>
    pool_ok S (p'\<lparr>pool_store := PutByHost h (bytes_of_u32 i) (pool_store p')\<rparr>) ps' \<and>
    fresh_assignment S p h i ps ps'"
proof -
  have ok: "store_rep S (pool_store p) ps" "unat (pool_offset p) < ring p"
    "snd ` set ps \<subseteq> ring_addrs p" "\<forall>h \<in> fst ` set ps. to_lower h = h"
    using assms(1) by (auto simp: pool_ok_def)
  from get_loop_spec [OF ok(1,2,2)] obtain off s qs where
    r: "get_loop (pool_offset p) p = Some (p\<lparr>pool_offset := off, pool_store := s\<rparr>)"
      "unat off < ring p" "store_rep S s qs" "addr p off \<notin> snd ` set qs" and
    c: "qs = ps \<or> (\<exists>h. (h, addr p off) \<in> set ps \<and> qs = filter (\<lambda>x. x \<noteq> (h, addr p off)) ps) \<and>
         (\<forall>j < ring_dist (ring p) (unat (pool_offset p)) (unat (pool_offset p)).
            addr p (of_nat ((unat (pool_offset p) + j) mod ring p)) \<in> snd ` set ps)"
    by (elim exE conjE) (rule that; assumption)
  have sub: "set qs \<subseteq> set ps" using c by auto
  have hq: "h \<notin> fst ` set qs" using assms(2) sub by auto
  from Put_pair [OF r(3) hq r(4)] obtain m1 where
    m1: "PutByIP (bytes_of_u32 (addr p off)) h s = Some m1"
      "store_rep S (PutByHost h (bytes_of_u32 (addr p off)) m1) (make_room S qs @ [(h, addr p off)])"
    by auto
  let ?p' = "p\<lparr>pool_offset := off, pool_store := m1\<rparr>"
  have g: "Pool_get h p = Some (bytes_of_u32 (addr p off), ?p')"
    using r(1) m1(1) by (simp add: Pool_get_def uintToIP_def addr_def)
  have mr: "set (make_room S qs) \<subseteq> set ps" using sub by (auto simp: make_room_def dest: in_set_tlD)
  have fr: "fresh_assignment S p h (addr p off) ps (make_room S qs @ [(h, addr p off)])"
  proof (cases "qs = ps")
    case True
    then show ?thesis using r(4) assms(2) addr_in_ring [OF r(2)] by (simp add: fresh_assignment_def)
  next
    case False
    have d: "ring_dist (ring p) (unat (pool_offset p)) (unat (pool_offset p)) = ring p"
      using ok(2) by (simp add: ring_dist_def)
    have "pool_full p ps" using c False ok(2) by (intro rotation_full [of "pool_offset p"]) (auto simp: d)
    then show ?thesis using c False assms(2) addr_in_ring [OF r(2)] unfolding fresh_assignment_def by blast
  qed
  have sr: "same_range p (?p'\<lparr>pool_store := PutByHost h (bytes_of_u32 (addr p off)) m1\<rparr>)"
    by (simp add: same_range_def)
  have "pool_ok S (?p'\<lparr>pool_store := PutByHost h (bytes_of_u32 (addr p off)) m1\<rparr>)
      (make_room S qs @ [(h, addr p off)])"
    using m1(2) r(2) ok(3,4) mr assms(3) addr_in_ring [OF r(2)] same_range_ring [OF sr]
    unfolding pool_ok_def by auto
  then show ?thesis using g fr
    by (intro exI [of _ "addr p off"] exI [of _ ?p'] exI [of _ "make_room S qs @ [(h, addr p off)]"]) simp
qed

lemma pool_okD:
  assumes "pool_ok S p ps"
  shows "store_rep S (pool_store p) ps" and "unat (pool_offset p) < ring p"
    and "snd ` set ps \<subseteq> ring_addrs p" and "\<And>h i. (h, i) \<in> set ps \<Longrightarrow> to_lower h = h"
  using assms by (force simp: pool_ok_def)+

lemma pool_ok_store:
  assumes "pool_ok S p ps" and "store_rep S s qs" and "set qs \<subseteq> set ps"
  shows "pool_ok S (p\<lparr>pool_store := s\<rparr>) qs"
  using assms same_range_ring [OF same_range_upd(1) [of p s]] by (fastforce simp: pool_ok_def)

lemma Lookup_refines:
  assumes "pool_ok S p ps"
  shows "\<exists>i p' ps'. Pool_Lookup host p = Some (bytes_of_u32 i, p') \<and> same_range p p' \<and>
    pool_ok S p' ps' \<and> lookup_effect S p (to_lower host) i ps ps'"
proof (cases "to_lower host \<in> fst ` set ps")
  case True
  then obtain i where i: "(to_lower host, i) \<in> set ps" by auto
  from GetByHost_hit [OF pool_okD(1) [OF assms] i] obtain m' where
    m': "GetByHost (to_lower host) (pool_store p) = Some (Some (bytes_of_u32 i), m')"
      "store_rep S m' (touch (to_lower host, i) ps)" by blast
  have "pool_ok S (p\<lparr>pool_store := m'\<rparr>) (touch (to_lower host, i) ps)"
    using pool_ok_store [OF assms m'(2)] set_touch [OF i] by simp
  then show ?thesis using m'(1) i
    by (intro exI [of _ i] exI [of _ "p\<lparr>pool_store := m'\<rparr>"] exI [of _ "touch (to_lower host, i) ps"])
       (simp add: Pool_Lookup_def lookup_effect_def)
next
  case False
  from GetByHost_miss [OF pool_okD(1) [OF assms] False] obtain m1 where
    m1: "GetByHost (to_lower host) (pool_store p) = Some (None, m1)" "store_rep S m1 ps" by blast
  let ?q = "p\<lparr>pool_store := m1\<rparr>"
  note sr = same_range_upd(1) [of p m1]
  have "pool_ok S ?q ps" using pool_ok_store [OF assms m1(2)] by simp
  from Pool_get_spec [OF this False to_lower_idem] obtain i p1 ps' where
    g: "Pool_get (to_lower host) ?q = Some (bytes_of_u32 i, p1)" "same_range ?q p1"
      "pool_ok S (p1\<lparr>pool_store := PutByHost (to_lower host) (bytes_of_u32 i) (pool_store p1)\<rparr>) ps'"
      "fresh_assignment S ?q (to_lower host) i ps ps'"
    by (elim exE conjE) (rule that; assumption)
  have "fresh_assignment S p (to_lower host) i ps ps'"
    using g(4) same_range_ring [OF sr] by (simp add: fresh_assignment_def pool_full_def)
  moreover have "same_range p (p1\<lparr>pool_store := PutByHost (to_lower host) (bytes_of_u32 i) (pool_store p1)\<rparr>)"
    using g(2) by (simp add: same_range_def)
  ultimately show ?thesis using m1(1) g(1,3)
    by (intro exI [of _ i] exI [of _ ps']
          exI [of _ "p1\<lparr>pool_store := PutByHost (to_lower host) (bytes_of_u32 i) (pool_store p1)\<rparr>"])
       (simp add: Pool_Lookup_def lookup_effect_def)
qed

definition back_effect :: "u32 \<Rightarrow> string option \<Rightarrow> (string \<times> u32) list \<Rightarrow> (string \<times> u32) list \<Rightarrow> bool" where
  "back_effect i r ps ps' \<longleftrightarrow>
     (case r of None \<Rightarrow> i \<notin> snd ` set ps \<and> ps' = ps | Some h \<Rightarrow> (h, i) \<in> set ps \<and> ps' = touch (h, i) ps)"

lemma LookBack_refines:
  assumes "pool_ok S p ps"
  shows "\<exists>r p' ps'. Pool_LookBack (bytes_of_u32 i) p = Some (r, p') \<and> same_range p p' \<and>
    pool_ok S p' ps' \<and> back_effect i r ps ps'"
proof -
  show ?thesis
  proof (cases "i \<in> snd ` set ps")
    case True
    then obtain h where h: "(h, i) \<in> set ps" by auto
    from GetByIP_hit [OF pool_okD(1) [OF assms] h] obtain m' where
      m': "GetByIP (bytes_of_u32 i) (pool_store p) = Some (Some h, m')" "store_rep S m' (touch (h, i) ps)" by blast
    have "pool_ok S (p\<lparr>pool_store := m'\<rparr>) (touch (h, i) ps)"
      using pool_ok_store [OF assms m'(2)] set_touch [OF h] by simp
    then show ?thesis using m'(1) h
      by (intro exI [of _ "Some h"] exI [of _ "p\<lparr>pool_store := m'\<rparr>"] exI [of _ "touch (h, i) ps"])
         (simp add: Pool_LookBack_def back_effect_def)
  next
    case False
    from GetByIP_miss [OF pool_okD(1) [OF assms] False] obtain m' where
      m': "GetByIP (bytes_of_u32 i) (pool_store p) = Some (None, m')" "store_rep S m' ps" by blast
    have "pool_ok S (p\<lparr>pool_store := m'\<rparr>) ps" using pool_ok_store [OF assms m'(2)] by simp
    then show ?thesis using m'(1) False
      by (intro exI [of _ "None"] exI [of _ "p\<lparr>pool_store := m'\<rparr>"] exI [of _ ps])
         (simp add: Pool_LookBack_def back_effect_def)
  qed
qed

lemma LookBack_other:
  assumes "To4 ip = []"
  shows "Pool_LookBack ip p = Some (None, p)" and "Pool_Exist ip p = Some False"
  using assms by (simp_all add: Pool_LookBack_def Pool_Exist_def)

lemma LookBack_To4:
  assumes "To4 ip = bytes_of_u32 i"
  shows "Pool_LookBack ip p = Pool_LookBack (bytes_of_u32 i) p" and "Pool_Exist ip p = Pool_Exist (bytes_of_u32 i) p"
  using assms by (simp_all add: Pool_LookBack_def Pool_Exist_def)

lemma Exist_refines:
  assumes "pool_ok S p ps"
  shows "Pool_Exist (bytes_of_u32 i) p = Some (i \<in> snd ` set ps)"
  using store_Exist_iff [OF pool_okD(1) [OF assms], of i]
  by (simp add: Pool_Exist_def)

text \<open>\<open>New\<close> gives a pool with no assignment and a ring that is not empty.\<close>

lemma total_even: "\<not> bit (push_bit n 1 - (2 :: 64 word)) 0 \<or> n = 0"
  by (cases n) (simp_all add: bit_0 push_bit_double)

lemma ring_nonempty:
  fixes base :: u32 and n :: nat
  assumes "sint (push_bit n 1 - (2 :: 64 word)) > 0"
  shows "ucast (push_bit n 1 - (2 :: 64 word)) - 1 \<noteq> (0 :: u32)"
proof
  let ?t = "push_bit n 1 - (2 :: 64 word)"
  assume "ucast ?t - 1 = (0 :: u32)"
  then have e: "ucast ?t = (1 :: u32)" by simp
  have "bit (ucast ?t :: u32) 0" unfolding e by simp
  then have "bit ?t 0" by (simp add: bit_ucast_iff)
  then have "n = 0" using total_even by blast
  then show False using assms by simp
qed

lemma Pool_New_ok:
  assumes "Pool_New opts = Some (Inr p)"
  shows "pool_ok (opt_Size opts) p []" and "pool_offset p = 0" and "ring p > 0"
proof -
  obtain base where b: "ipToUint (net_IP (opt_IPNet opts)) = Some base"
    and t: "sint (push_bit (mask_bits (opt_IPNet opts) - mask_ones (opt_IPNet opts)) 1 - (2 :: 64 word)) > 0"
    and p: "pool_min p = base + 2"
      "pool_max p = base + 2 + ucast (push_bit (mask_bits (opt_IPNet opts) - mask_ones (opt_IPNet opts)) 1 - (2 :: 64 word)) - 1"
      "pool_offset p = 0" "pool_store p = ([], LruCache_New [WithSize (opt_Size opts * 2)])"
    using assms by (auto simp: Pool_New_def Let_def split: bind_splits if_splits)
  show "pool_offset p = 0" by (rule p(3))
  show r: "ring p > 0" using ring_nonempty [OF t] p(1,2) by (simp add: ring_def unat_gt_0)
  show "pool_ok (opt_Size opts) p []"
    using p r by (simp add: pool_ok_def store_rep_def one_to_one_def lru_inv_def LruCache_New_def lru_entries_def)
qed

end
