(* ===== verification/FakeIpRuns.thy ===== *)
theory FakeIpRuns
  imports FakeIp LruRuns
begin

text \<open>
  Sequences of calls of the fake-ip pool of \<open>src/pkg/clash/component/fakeip/pool.go\<close>: the abstract
  machine they refine (a bounded list of assignments of addresses to hosts) and the properties
  of every pool that the program can reach.
\<close>

subsection \<open>Sequences of calls\<close>

datatype pool_op = OpLookup string | OpLookBack go_ip | OpExist go_ip
datatype pool_answer = AnsIP go_ip | AnsHost "string option" | AnsBool bool

fun pool_step :: "pool_op \<Rightarrow> fpool \<Rightarrow> (pool_answer \<times> fpool) option" where
  "pool_step (OpLookup h) p = map_option (map_prod AnsIP id) (Pool_Lookup h p)"
| "pool_step (OpLookBack ip) p = map_option (map_prod AnsHost id) (Pool_LookBack ip p)"
| "pool_step (OpExist ip) p = map_option (\<lambda>b. (AnsBool b, p)) (Pool_Exist ip p)"

fun pool_run :: "pool_op list \<Rightarrow> fpool \<Rightarrow> (pool_answer list \<times> fpool) option" where
  "pool_run [] p = Some ([], p)"
| "pool_run (x # xs) p = do {
     (a, p1) \<leftarrow> pool_step x p;
     (as, p2) \<leftarrow> pool_run xs p1;
     Some (a # as, p2)
   }"

text \<open>The abstract machine: a bounded list of assignments over the addresses of the ring of \<open>p\<close>.\<close>

inductive abs_step ::
  "int \<Rightarrow> fpool \<Rightarrow> pool_op \<Rightarrow> (string \<times> u32) list \<Rightarrow> pool_answer \<Rightarrow> (string \<times> u32) list \<Rightarrow> bool"
  for S :: int and p :: fpool where
  abs_Lookup: "lookup_effect S p (to_lower h) i ps ps' \<Longrightarrow>
    abs_step S p (OpLookup h) ps (AnsIP (bytes_of_u32 i)) ps'"
| abs_LookBack: "To4 ip = bytes_of_u32 i \<Longrightarrow> back_effect i r ps ps' \<Longrightarrow>
    abs_step S p (OpLookBack ip) ps (AnsHost r) ps'"
| abs_LookBack_other: "To4 ip = [] \<Longrightarrow> abs_step S p (OpLookBack ip) ps (AnsHost None) ps"
| abs_Exist: "To4 ip = bytes_of_u32 i \<Longrightarrow> abs_step S p (OpExist ip) ps (AnsBool (i \<in> snd ` set ps)) ps"
| abs_Exist_other: "To4 ip = [] \<Longrightarrow> abs_step S p (OpExist ip) ps (AnsBool False) ps"

inductive abs_run ::
  "int \<Rightarrow> fpool \<Rightarrow> pool_op list \<Rightarrow> (string \<times> u32) list \<Rightarrow> pool_answer list \<Rightarrow> (string \<times> u32) list \<Rightarrow> bool"
  for S :: int and p :: fpool where
  abs_run_Nil: "abs_run S p [] ps [] ps"
| abs_run_Cons: "abs_step S p x ps a qs \<Longrightarrow> abs_run S p xs qs as rs \<Longrightarrow>
    abs_run S p (x # xs) ps (a # as) rs"

inductive_cases abs_step_LookupE: "abs_step S p (OpLookup h) ps a qs"
inductive_simps abs_run_simps: "abs_run S p [] ps as rs" "abs_run S p (x # xs) ps as rs"

lemma lookup_effect_range:
  "same_range p q \<Longrightarrow> lookup_effect S q h i ps ps' \<longleftrightarrow> lookup_effect S p h i ps ps'"
  by (simp add: lookup_effect_def fresh_assignment_def pool_full_def same_range_ring)

lemma abs_step_range: "same_range p q \<Longrightarrow> abs_step S q x ps a ps' \<longleftrightarrow> abs_step S p x ps a ps'"
  by (cases x) (auto simp: abs_step.simps lookup_effect_range)

lemma abs_run_range: "same_range p q \<Longrightarrow> abs_run S q xs ps as ps' \<longleftrightarrow> abs_run S p xs ps as ps'"
  by (induction xs arbitrary: ps as) (auto simp: abs_run_simps abs_step_range)

lemma pool_step_refines:
  assumes "pool_ok S p ps"
  shows "\<exists>a q qs. pool_step x p = Some (a, q) \<and> same_range p q \<and> pool_ok S q qs \<and> abs_step S p x ps a qs"
proof (cases x)
  case (OpLookup h)
  from Lookup_refines [OF assms, of h] obtain i q qs where
    "Pool_Lookup h p = Some (bytes_of_u32 i, q)" "same_range p q" "pool_ok S q qs"
    "lookup_effect S p (to_lower h) i ps qs" by (elim exE conjE)
  then show ?thesis unfolding OpLookup
    by (intro exI [of _ "AnsIP (bytes_of_u32 i)"] exI [of _ q] exI [of _ qs]) (simp add: abs_Lookup)
next
  case (OpLookBack ip)
  show ?thesis
  proof (cases "To4 ip = []")
    case True
    then show ?thesis using assms unfolding OpLookBack
      by (intro exI [of _ "AnsHost None"] exI [of _ p] exI [of _ ps]) (simp add: LookBack_other abs_LookBack_other)
  next
    case False
    then obtain i where i: "To4 ip = bytes_of_u32 i" using ipToUint_To4 by blast
    from LookBack_refines [OF assms, of i] obtain r q qs where
      "Pool_LookBack (bytes_of_u32 i) p = Some (r, q)" "same_range p q" "pool_ok S q qs" "back_effect i r ps qs"
      by (elim exE conjE)
    then show ?thesis using i unfolding OpLookBack
      by (intro exI [of _ "AnsHost r"] exI [of _ q] exI [of _ qs]) (simp add: LookBack_To4 [OF i] abs_LookBack)
  qed
next
  case (OpExist ip)
  show ?thesis
  proof (cases "To4 ip = []")
    case True
    then show ?thesis using assms unfolding OpExist
      by (intro exI [of _ "AnsBool False"] exI [of _ p] exI [of _ ps]) (simp add: LookBack_other abs_Exist_other)
  next
    case False
    then obtain i where i: "To4 ip = bytes_of_u32 i" using ipToUint_To4 by blast
    then show ?thesis using assms Exist_refines [OF assms, of i] unfolding OpExist
      by (intro exI [of _ "AnsBool (i \<in> snd ` set ps)"] exI [of _ p] exI [of _ ps])
         (simp add: LookBack_To4 [OF i] abs_Exist)
  qed
qed

lemma pool_run_refines:
  assumes "pool_ok S p ps"
  shows "\<exists>as q qs. pool_run xs p = Some (as, q) \<and> length as = length xs \<and> same_range p q \<and>
    pool_ok S q qs \<and> abs_run S p xs ps as qs"
  using assms
proof (induction xs arbitrary: p ps)
  case Nil
  then show ?case
    by (intro exI [of _ "[]"] exI [of _ p] exI [of _ ps]) (simp add: abs_run_Nil)
next
  case (Cons x xs)
  from pool_step_refines [OF Cons.prems, of x] obtain a p1 qs where
    s: "pool_step x p = Some (a, p1)" "same_range p p1" "pool_ok S p1 qs" "abs_step S p x ps a qs" by (elim exE conjE)
  from Cons.IH [OF s(3)] obtain as q rs where
    r: "pool_run xs p1 = Some (as, q)" "length as = length xs" "same_range p1 q" "pool_ok S q rs"
    "abs_run S p1 xs qs as rs" by (elim exE conjE)
  have "abs_run S p (x # xs) ps (a # as) rs"
    using s(4) r(5) abs_run_range [OF s(2)] by (simp add: abs_run_Cons)
  then show ?case using s r same_range_trans [OF s(2) r(3)]
    by (intro exI [of _ "a # as"] exI [of _ q] exI [of _ rs]) simp
qed

subsection \<open>Few hosts: no assignment is revoked\<close>

fun op_host :: "pool_op \<Rightarrow> string option" where
  "op_host (OpLookup h) = Some (to_lower h)"
| "op_host _ = None"

definition hosts_of :: "pool_op list \<Rightarrow> string set" where
  "hosts_of xs = set (List.map_filter op_host xs)"

lemma hosts_of_simps [simp]:
  "hosts_of [] = {}" "hosts_of (OpLookup h # xs) = insert (to_lower h) (hosts_of xs)"
  "hosts_of (OpLookBack ip # xs) = hosts_of xs" "hosts_of (OpExist ip # xs) = hosts_of xs"
  by (simp_all add: hosts_of_def)

lemma finite_hosts_of [simp]: "finite (hosts_of xs)"
  by (simp add: hosts_of_def)

text \<open>Room for every host of \<open>H\<close>: in the ring and in the cache.\<close>

definition room_for :: "int \<Rightarrow> fpool \<Rightarrow> string set \<Rightarrow> bool" where
  "room_for S p H \<longleftrightarrow> card H \<le> ring p \<and> (S > 0 \<longrightarrow> int (card H) \<le> S)"

lemma fresh_with_room:
  assumes "fresh_assignment S p h i ps qs" and "room_for S p H" and "finite H"
    and "fst ` set ps \<subseteq> H" and "h \<in> H" and "one_to_one ps"
  shows "qs = ps @ [(h, i)]"
proof -
  have h: "h \<notin> fst ` set ps" using assms(1) by (simp add: fresh_assignment_def)
  have "length ps = card (fst ` set ps)"
    using assms(6) distinct_card [of "map fst ps"] by (simp add: one_to_one_def)
  also have "\<dots> < card H" using assms(3-5) h by (intro psubset_card_mono) auto
  finally have l: "length ps < card H" .
  have "\<not> pool_full p ps" using pool_full_length [of p ps] l assms(2) by (auto simp: room_for_def)
  moreover have "make_room S ps = ps" using l assms(2) by (auto simp: room_for_def make_room_def)
  ultimately show ?thesis using assms(1) by (auto simp: fresh_assignment_def)
qed

text \<open>What one answer says about the list of assignments after it.\<close>

fun answer_in :: "pool_op \<Rightarrow> pool_answer \<Rightarrow> (string \<times> u32) set \<Rightarrow> bool" where
  "answer_in (OpLookup h) (AnsIP ip) A = (\<exists>i. ip = bytes_of_u32 i \<and> (to_lower h, i) \<in> A)"
| "answer_in (OpLookup h) _ A = False"
| "answer_in _ _ A = True"

lemma answer_in_mono: "answer_in x a A \<Longrightarrow> A \<subseteq> B \<Longrightarrow> answer_in x a B"
  by (cases x; cases a) auto

lemma lookup_effect_mem: "lookup_effect S p h i ps qs \<Longrightarrow> (h, i) \<in> set qs"
  by (auto simp: lookup_effect_def fresh_assignment_def touch_def)

lemma abs_step_room:
  assumes "abs_step S p x ps a qs" and "room_for S p H" and "finite H"
    and "fst ` set ps \<subseteq> H" and "hosts_of [x] \<subseteq> H" and "one_to_one ps"
  shows "set ps \<subseteq> set qs" and "fst ` set qs \<subseteq> H" and "answer_in x a (set qs)"
proof -
  have "set ps \<subseteq> set qs \<and> fst ` set qs \<subseteq> H \<and> answer_in x a (set qs)"
    using assms(1)
  proof cases
    case (abs_Lookup h i)
    note mem = lookup_effect_mem [OF abs_Lookup(3)]
    from abs_Lookup(3) consider "(to_lower h, i) \<in> set ps" "qs = touch (to_lower h, i) ps"
      | "fresh_assignment S p (to_lower h) i ps qs" by (auto simp: lookup_effect_def)
    then have "set qs = insert (to_lower h, i) (set ps)"
    proof cases
      case 1
      then show ?thesis by (auto simp: set_touch)
    next
      case 2
      have "qs = ps @ [(to_lower h, i)]"
        by (rule fresh_with_room [OF 2 assms(2-4) _ assms(6)]) (use assms(5) abs_Lookup(1) in simp)
      then show ?thesis by simp
    qed
    then show ?thesis using assms(4,5) abs_Lookup(1,2) by auto
  next
    case (abs_LookBack ip i r)
    then have "set qs = set ps" by (auto simp: back_effect_def set_touch split: option.splits)
    then show ?thesis using abs_LookBack assms(4) by simp
  qed (use assms(4) in auto)
  then show "set ps \<subseteq> set qs" and "fst ` set qs \<subseteq> H" and "answer_in x a (set qs)" by auto
qed

lemma abs_step_one_to_one:
  assumes "abs_step S p x ps a qs" and "one_to_one ps"
  shows "one_to_one qs"
proof -
  have mr: "one_to_one (make_room S rs @ [(h, i)])"
    if "one_to_one rs" "h \<notin> fst ` set rs" "i \<notin> snd ` set rs" for rs h i
    using that by (auto simp: one_to_one_def make_room_def map_tl distinct_tl dest: in_set_tlD)
  show ?thesis using assms(1)
  proof cases
    case (abs_Lookup h i)
    from abs_Lookup(3) show ?thesis unfolding lookup_effect_def fresh_assignment_def
    proof (elim disjE conjE exE)
      fix h' assume "(h', i) \<in> set ps" "qs = make_room S (filter (\<lambda>x. x \<noteq> (h', i)) ps) @ [(to_lower h, i)]"
        "to_lower h \<notin> fst ` set ps"
      then show ?thesis using one_to_one_mem(1) [OF assms(2)] assms(2)
        by (auto intro!: mr one_to_one_filter)
    qed (use assms(2) in \<open>auto intro: mr one_to_one_touch\<close>)
  qed (use assms(2) in \<open>auto simp: back_effect_def one_to_one_touch split: option.splits\<close>)
qed

lemma abs_run_room:
  assumes "abs_run S p xs ps as qs" and "room_for S p H" and "finite H"
    and "fst ` set ps \<subseteq> H" and "hosts_of xs \<subseteq> H" and "one_to_one ps"
  shows "set ps \<subseteq> set qs \<and> one_to_one qs \<and> (\<forall>j < length xs. answer_in (xs ! j) (as ! j) (set qs))"
  using assms
proof (induction xs arbitrary: ps as)
  case Nil
  then show ?case by (auto simp: abs_run_simps)
next
  case (Cons x xs)
  from Cons.prems(1) obtain a rs as' where s: "abs_step S p x ps a rs" "abs_run S p xs rs as' qs" "as = a # as'"
    by (auto simp: abs_run_simps)
  have h: "hosts_of [x] \<subseteq> H" "hosts_of xs \<subseteq> H" using Cons.prems(5) by (cases x; auto)+
  note st = abs_step_room [OF s(1) Cons.prems(2-4) h(1) Cons.prems(6)]
  have ih: "set rs \<subseteq> set qs" "one_to_one qs" "\<forall>j < length xs. answer_in (xs ! j) (as' ! j) (set qs)"
    using Cons.IH [OF s(2) Cons.prems(2,3) st(2) h(2) abs_step_one_to_one [OF s(1) Cons.prems(6)]] by auto
  then show ?case using st(1) answer_in_mono [OF st(3) ih(1)] s(3)
    by (auto simp: nth_Cons' less_Suc_eq_0_disj)
qed

subsection \<open>The range of the addresses\<close>

lemma total_nat:
  assumes "sint (push_bit n 1 - (2 :: 64 word)) > 0" and "n \<le> 32"
  shows "n \<ge> 2" and "unat (push_bit n 1 - (2 :: 64 word)) = 2 ^ n - 2"
proof -
  have p: "push_bit n 1 = (of_nat (2 ^ n) :: 64 word)" by (simp add: push_bit_eq_mult)
  show n2: "n \<ge> 2"
  proof (rule ccontr)
    assume "\<not> n \<ge> 2"
    then have "n = 0 \<or> n = 1" by auto
    then show False using assms(1) by auto
  qed
  have le: "(2 :: nat) \<le> 2 ^ n" using n2 power_increasing [of 2 n "2 :: nat"] by simp
  have lt: "(2 :: nat) ^ n < 2 ^ 64" using assms(2) by (intro power_strict_increasing) auto
  have "push_bit n 1 - (2 :: 64 word) = of_nat (2 ^ n - 2)"
    unfolding p using le by (simp add: of_nat_diff)
  then show "unat (push_bit n 1 - (2 :: 64 word)) = 2 ^ n - 2"
    using lt by (simp only: unsigned_of_nat) (simp add: take_bit_nat_eq_self)
qed

lemma Pool_New_range:
  assumes "Pool_New opts = Some (Inr p)" and "net_IP (opt_IPNet opts) = bytes_of_u32 base"
    and "mask_bits (opt_IPNet opts) = 32" and "2 ^ (32 - mask_ones (opt_IPNet opts)) dvd unat base"
    and "i \<in> ring_addrs p"
  shows "unat base + 2 \<le> unat i" and "unat i + 1 < unat base + 2 ^ (32 - mask_ones (opt_IPNet opts))"
    and "pool_gateway p = base + 1"
proof -
  let ?n = "32 - mask_ones (opt_IPNet opts)"
  let ?t = "push_bit ?n 1 - (2 :: 64 word)"
  have t: "sint ?t > 0" and p: "pool_min p = base + 2" "pool_max p = base + 2 + ucast ?t - 1"
    and g: "pool_gateway p = base + 1"
    using assms(1-3) by (auto simp: Pool_New_def Let_def split: if_splits)
  show "pool_gateway p = base + 1" by (rule g)
  have n: "?n \<ge> 2" and u: "unat ?t = 2 ^ ?n - 2" using total_nat [OF t] by auto
  have n32: "(2 :: nat) ^ ?n \<le> 2 ^ 32" by (intro power_increasing) auto
  have n4: "(4 :: nat) \<le> 2 ^ ?n" using power_increasing [OF n, of "2 :: nat"] by simp
  have "ucast ?t = (of_nat (2 ^ ?n - 2) :: u32)" using u by (metis of_nat_unat)
  also have "\<dots> = of_nat (2 ^ ?n - 3) + 1" using n4 by (simp add: of_nat_diff)
  finally have "pool_max p - pool_min p = of_nat (2 ^ ?n - 3)" unfolding p by simp
  then have r: "ring p = 2 ^ ?n - 3"
    unfolding ring_def using n32 n4 by (simp only: unsigned_of_nat) (simp add: take_bit_nat_eq_self)
  obtain c where c: "unat base = 2 ^ ?n * c" using assms(4) by (auto elim: dvdE)
  have b: "unat base + 2 ^ ?n \<le> 2 ^ 32"
  proof -
    have "(2 :: nat) ^ 32 = 2 ^ ?n * 2 ^ (32 - ?n)" by (simp flip: power_add)
    moreover have "2 ^ ?n * c < (2 :: nat) ^ 32" using u32_less [of base] c by simp
    ultimately have "c < 2 ^ (32 - ?n)" by (metis mult_less_cancel1)
    then have "2 ^ ?n * (c + 1) \<le> 2 ^ ?n * 2 ^ (32 - ?n)" by (intro mult_le_mono2) simp
    then show ?thesis using c by (simp flip: power_add)
  qed
  obtain j where j: "j < ring p" "i = base + 2 + of_nat j"
    using assms(5) by (auto simp: ring_addrs_def addr_def p)
  have "i = of_nat (unat base + 2 + j)" unfolding j(2) by simp
  moreover have "unat base + 2 + j < 2 ^ 32" using b j(1) r n4 by linarith
  ultimately have "unat i = unat base + 2 + j"
    by (simp only: unsigned_of_nat) (simp add: take_bit_nat_eq_self)
  then show "unat base + 2 \<le> unat i" and "unat i + 1 < unat base + 2 ^ ?n"
    using j(1) r n4 by linarith+
qed

lemma lookup_effect_ring:
  assumes "lookup_effect S p h i ps qs" and "snd ` set ps \<subseteq> ring_addrs p"
  shows "i \<in> ring_addrs p"
  using assms by (auto simp: lookup_effect_def fresh_assignment_def)

subsection \<open>Properties\<close>

text \<open>A pool for \<open>198.18.0.0/29\<close>, used in the witnesses.\<close>

definition demo_options :: "int \<Rightarrow> fpool_options" where
  "demo_options n = \<lparr>opt_IPNet = \<lparr>net_IP = [198, 18, 0, 0], mask_ones = 29, mask_bits = 32\<rparr>,
     opt_Host = None, opt_Size = n\<rparr>"

definition demo_pool :: "int \<Rightarrow> fpool" where
  "demo_pool n = \<lparr>pool_max = 3323068423, pool_min = 3323068418, pool_gateway = 3323068417, pool_offset = 0,
     pool_host = None, pool_ipnet = \<lparr>net_IP = [198, 18, 0, 0], mask_ones = 29, mask_bits = 32\<rparr>,
     pool_store = ([], LruCache_New [WithSize (n * 2)])\<rparr>"

lemma demo_New: "Pool_New (demo_options n) = Some (Inr (demo_pool n))"
proof -
  have "ipToUint [198, 18, 0, 0] = Some 3323068416" by code_simp
  moreover have "push_bit 3 1 - (2 :: 64 word) = 6" by code_simp
  ultimately show ?thesis by (simp add: Pool_New_def demo_options_def demo_pool_def)
qed

lemma demo_ring: "ring (demo_pool n) = 5"
  by (simp add: ring_def demo_pool_def)

lemma reachable_pool_ok:
  assumes "Pool_New opts = Some (Inr p)" and "pool_run xs p = Some (as, q)"
  shows "\<exists>ps. pool_ok (opt_Size opts) q ps \<and> abs_run (opt_Size opts) p xs [] as ps \<and> same_range p q"
  using pool_run_refines [OF Pool_New_ok(1) [OF assms(1)], of xs] assms(2) by auto

text \<open> C4. Every sequence of calls of \<open>Lookup\<close>, \<open>LookBack\<close> and \<open>Exist\<close> on a new pool returns: no
  call panics (index, type assertion, modulo 0) and the search loop of \<open>get\<close> ends. The answers are
  those of the abstract machine, a list of assignments in order of use that revokes an assignment
  only when the cache is at its size or when all addresses of the ring are taken.\<close>

theorem pool_refines_assignments:
  assumes "Pool_New opts = Some (Inr p)"
  shows "\<exists>as q ps. pool_run xs p = Some (as, q) \<and> length as = length xs \<and>
    abs_run (opt_Size opts) p xs [] as ps"
  using pool_run_refines [OF Pool_New_ok(1) [OF assms], of xs] by (elim exE conjE) (intro exI conjI)

theorem pool_refines_assignments_witness:
  "\<exists>as q ps. pool_run [OpLookup ''a.com'', OpLookup ''B.com'', OpLookBack [198, 18, 0, 3]] (demo_pool 2) = Some (as, q) \<and>
     length as = length [OpLookup ''a.com'', OpLookup ''B.com'', OpLookBack [198, 18, 0, 3]] \<and>
     abs_run (opt_Size (demo_options 2)) (demo_pool 2)
       [OpLookup ''a.com'', OpLookup ''B.com'', OpLookBack [198, 18, 0, 3]] [] as ps"
  by (rule pool_refines_assignments [OF demo_New])

text \<open> C2. After any sequence of calls, \<open>Lookup\<close> of a host gives an address that \<open>Exist\<close> confirms and
  that \<open>LookBack\<close> maps back to the lower-case host.\<close>

theorem LookBack_Lookup:
  assumes "Pool_New opts = Some (Inr p)" and "pool_run xs p = Some (as, q)"
  shows "\<exists>ip q1 q2. Pool_Lookup host q = Some (ip, q1) \<and> Pool_Exist ip q1 = Some True \<and>
    Pool_LookBack ip q1 = Some (Some (to_lower host), q2)"
proof -
  from reachable_pool_ok [OF assms] obtain ps where ok: "pool_ok (opt_Size opts) q ps" by (elim exE conjE)
  from Lookup_refines [OF this, of host] obtain i q1 qs where
    l: "Pool_Lookup host q = Some (bytes_of_u32 i, q1)" "pool_ok (opt_Size opts) q1 qs"
      "lookup_effect (opt_Size opts) q (to_lower host) i ps qs" by (elim exE conjE)
  note mem = lookup_effect_mem [OF l(3)]
  have o: "one_to_one qs" using store_repD(5) [OF pool_okD(1) [OF l(2)]] .
  from LookBack_refines [OF l(2), of i] obtain r q2 rs where
    b: "Pool_LookBack (bytes_of_u32 i) q1 = Some (r, q2)" "back_effect i r qs rs" by (elim exE conjE)
  have "i \<in> snd ` set qs" using mem by force
  then have "r = Some (to_lower host)"
    using b(2) one_to_one_mem(1) [OF o mem] by (auto simp: back_effect_def split: option.splits)
  moreover have "Pool_Exist (bytes_of_u32 i) q1 = Some True"
    unfolding Exist_refines [OF l(2)] using mem by force
  ultimately show ?thesis using l(1) b(1) by (intro exI [of _ "bytes_of_u32 i"] exI [of _ q1] exI [of _ q2]) simp
qed

theorem LookBack_Lookup_witness:
  "\<exists>q. pool_run [] (demo_pool 1) = Some ([], q) \<and> (\<exists>ip q1 q2. Pool_Lookup ''WWW.a.com'' q = Some (ip, q1) \<and>
    Pool_Exist ip q1 = Some True \<and> Pool_LookBack ip q1 = Some (Some (to_lower ''WWW.a.com''), q2))"
proof -
  have r: "pool_run [] (demo_pool 1) = Some ([], demo_pool 1)" by simp
  show ?thesis using r LookBack_Lookup [OF demo_New r] by blast
qed

text \<open> C3. As long as a pool is asked for no more hosts than its ring and its cache can hold, its
  answers are an injective function of the host: two lookups, however far apart and whatever calls
  lie between, give the same address exactly when the hosts are equal up to letter case.\<close>

theorem Lookup_stable:
  assumes "Pool_New opts = Some (Inr p)" and "pool_run xs p = Some (as, q)"
    and "room_for (opt_Size opts) p (hosts_of xs)"
    and "j < length xs" and "k < length xs" and "xs ! j = OpLookup h1" and "xs ! k = OpLookup h2"
  shows "as ! j = as ! k \<longleftrightarrow> to_lower h1 = to_lower h2"
proof -
  from reachable_pool_ok [OF assms(1,2)] obtain ps where
    r: "abs_run (opt_Size opts) p xs [] as ps" by (elim exE conjE)
  have o: "one_to_one ps" and a: "\<forall>j < length xs. answer_in (xs ! j) (as ! j) (set ps)"
    using abs_run_room [OF r assms(3)] by (simp_all add: one_to_one_def)
  have "\<exists>i. as ! n = AnsIP (bytes_of_u32 i) \<and> (to_lower h, i) \<in> set ps"
    if "n < length xs" "xs ! n = OpLookup h" for n h
    using a that by (cases "as ! n") force+
  then obtain i1 i2 where
    "as ! j = AnsIP (bytes_of_u32 i1)" "(to_lower h1, i1) \<in> set ps"
    "as ! k = AnsIP (bytes_of_u32 i2)" "(to_lower h2, i2) \<in> set ps"
    using assms(4-7) by metis
  then show ?thesis using one_to_one_mem(1) [OF o] by auto
qed

text \<open> C5. Of a pool for an IPv4 network with a masked address, every address \<open>Lookup\<close> hands out, after
  any sequence of calls, lies inside the network, and is neither its network address, nor the
  gateway, nor its broadcast address.\<close>

theorem Lookup_in_network:
  assumes "Pool_New opts = Some (Inr p)" and "net_IP (opt_IPNet opts) = bytes_of_u32 base"
    and "mask_bits (opt_IPNet opts) = 32" and "2 ^ (32 - mask_ones (opt_IPNet opts)) dvd unat base"
    and "pool_run xs p = Some (as, q)" and "Pool_Lookup host q = Some (ip, q')"
  shows "\<exists>i. ip = bytes_of_u32 i \<and> unat base + 2 \<le> unat i \<and>
    unat i + 1 < unat base + 2 ^ (32 - mask_ones (opt_IPNet opts)) \<and> ip \<noteq> Pool_Gateway p"
proof -
  from reachable_pool_ok [OF assms(1,5)] obtain ps where ok: "pool_ok (opt_Size opts) q ps"
    and sr: "same_range p q" by (elim exE conjE)
  from Lookup_refines [OF ok, of host] obtain i q1 qs where
    l: "Pool_Lookup host q = Some (bytes_of_u32 i, q1)"
      "lookup_effect (opt_Size opts) q (to_lower host) i ps qs" by (elim exE conjE)
  have "i \<in> ring_addrs p"
    using lookup_effect_ring [OF l(2) pool_okD(3) [OF ok]] same_range_ring [OF sr] by simp
  note r = Pool_New_range [OF assms(1-4) this]
  have "i \<noteq> base + 1"
  proof
    assume "i = base + 1"
    then have "unat i = (unat base + 1) mod 2 ^ 32" by (simp add: unat_word_ariths)
    then show False using r(1) mod_less_eq_dividend [of "unat base + 1" "2 ^ 32"] by linarith
  qed
  then show ?thesis using l(1) assms(6) r by (simp add: Pool_Gateway_def uintToIP_def)
qed

theorem Lookup_in_network_witness:
  "\<exists>ip q'. Pool_Lookup ''a.com'' (demo_pool 2) = Some (ip, q') \<and>
     (\<exists>i. ip = bytes_of_u32 i \<and> unat (3323068416 :: u32) + 2 \<le> unat i \<and>
        unat i + 1 < unat (3323068416 :: u32) + 2 ^ (32 - mask_ones (opt_IPNet (demo_options 2))) \<and>
        ip \<noteq> Pool_Gateway (demo_pool 2))"
proof -
  have n: "net_IP (opt_IPNet (demo_options 2)) = bytes_of_u32 3323068416"
    by (simp add: demo_options_def) code_simp
  have d: "2 ^ (32 - mask_ones (opt_IPNet (demo_options 2))) dvd unat (3323068416 :: u32)"
    by (simp add: demo_options_def)
  have m: "mask_bits (opt_IPNet (demo_options 2)) = 32" by (simp add: demo_options_def)
  have r: "pool_run [] (demo_pool 2) = Some ([], demo_pool 2)" by simp
  from Lookup_refines [OF Pool_New_ok(1) [OF demo_New [of 2]], of "''a.com''"] obtain i q' where
    l: "Pool_Lookup ''a.com'' (demo_pool 2) = Some (bytes_of_u32 i, q')" by (elim exE conjE)
  show ?thesis using l Lookup_in_network [OF demo_New n m d r l] by blast
qed

theorem Lookup_stable_witness:
  "\<exists>as q. pool_run [OpLookup ''a'', OpLookup ''b'', OpLookup ''A''] (demo_pool 4) = Some (as, q) \<and>
     (as ! 0 = as ! 2 \<longleftrightarrow> to_lower ''a'' = to_lower ''A'')"
proof -
  have "room_for (opt_Size (demo_options 4)) (demo_pool 4) (hosts_of [OpLookup ''a'', OpLookup ''b'', OpLookup ''A''])"
    by (simp add: room_for_def demo_ring demo_options_def to_lower_def lower_char_def card_insert_if)
  moreover from pool_run_refines [OF Pool_New_ok(1) [OF demo_New [of 4]],
      of "[OpLookup ''a'', OpLookup ''b'', OpLookup ''A'']"] obtain as q where
    r: "pool_run [OpLookup ''a'', OpLookup ''b'', OpLookup ''A''] (demo_pool 4) = Some (as, q)"
    by (elim exE conjE)
  ultimately show ?thesis using r Lookup_stable [OF demo_New r, of 0 2 "''a''" "''A''"] by auto
qed

lemma CloneFrom_ok:
  assumes "pool_ok S old ps" and "pool_ok S p []" and "same_range p old"
  shows "pool_ok S (Pool_CloneFrom p old) ps"
proof -
  note r = store_repD [OF pool_okD(1) [OF assms(1)]]
  note n = store_repD [OF pool_okD(1) [OF assms(2)]]
  note c = CloneTo_refines [OF r(1), of "snd (pool_store p)"]
  have "store_rep S (store_CloneTo (pool_store old) (pool_store p)) ps"
    using c r n by (simp add: store_rep_def store_CloneTo_def same_conf_def)
  then have "store_rep S (pool_store (Pool_CloneFrom p old)) ps" by (simp add: Pool_CloneFrom_def)
  moreover have "same_range old (Pool_CloneFrom p old)" "pool_offset (Pool_CloneFrom p old) = pool_offset p"
    using assms(3) by (simp_all add: same_range_def Pool_CloneFrom_def)
  ultimately show ?thesis
    using assms same_range_ring [OF assms(3)] same_range_ring [of old "Pool_CloneFrom p old"]
    by (auto simp: pool_ok_def)
qed

lemma back_effect_fun:
  assumes "one_to_one ps" and "back_effect i r ps qs" and "back_effect i r' ps qs'"
  shows "r = r'"
  using assms one_to_one_mem(1) [OF assms(1)]
  by (auto simp: back_effect_def split: option.splits) force+

lemma LookBack_fun:
  assumes "pool_ok S p ps" and "pool_ok S q ps"
  shows "map_option fst (Pool_LookBack ip p) = map_option fst (Pool_LookBack ip q)"
proof (cases "To4 ip = []")
  case True
  then show ?thesis by (simp add: LookBack_other)
next
  case False
  then obtain i where i: "To4 ip = bytes_of_u32 i" using ipToUint_To4 by blast
  from LookBack_refines [OF assms(1), of i] obtain r p' ps' where
    a: "Pool_LookBack (bytes_of_u32 i) p = Some (r, p')" "back_effect i r ps ps'" by (elim exE conjE)
  from LookBack_refines [OF assms(2), of i] obtain r' q' qs' where
    b: "Pool_LookBack (bytes_of_u32 i) q = Some (r', q')" "back_effect i r' ps qs'" by (elim exE conjE)
  have "r = r'" by (rule back_effect_fun [OF store_repD(5) [OF pool_okD(1) [OF assms(1)]] a(2) b(2)])
  then show ?thesis unfolding LookBack_To4 [OF i] using a(1) b(1) by simp
qed

text \<open>A reload keeps the assignments: a new pool with the same options that takes over the cache of
  an old one (\<open>CloneFrom\<close>) answers \<open>LookBack\<close> for every address as the old one did, and gives each
  host that had an address the same address again.\<close>

theorem CloneFrom_keeps_assignments:
  assumes "Pool_New opts = Some (Inr p)" and "pool_run xs p = Some (as, old)"
  shows "map_option fst (Pool_LookBack ip (Pool_CloneFrom p old)) = map_option fst (Pool_LookBack ip old) \<and>
    (map_option fst (Pool_LookBack ip old) = Some (Some h) \<longrightarrow>
      map_option fst (Pool_Lookup h (Pool_CloneFrom p old)) = Some (To4 ip))"
proof -
  from reachable_pool_ok [OF assms] obtain ps where
    ok: "pool_ok (opt_Size opts) old ps" and sr: "same_range p old" by (elim exE conjE)
  have c: "pool_ok (opt_Size opts) (Pool_CloneFrom p old) ps"
    by (rule CloneFrom_ok [OF ok Pool_New_ok(1) [OF assms(1)] sr])
  have o: "one_to_one ps" by (rule store_repD(5) [OF pool_okD(1) [OF ok]])
  have "map_option fst (Pool_Lookup h (Pool_CloneFrom p old)) = Some (To4 ip)"
    if l: "map_option fst (Pool_LookBack ip old) = Some (Some h)"
  proof -
    from l have "To4 ip \<noteq> []" by (auto simp: LookBack_other)
    then obtain i where i: "To4 ip = bytes_of_u32 i" using ipToUint_To4 by blast
    from LookBack_refines [OF ok, of i] obtain r p' ps' where
      "Pool_LookBack (bytes_of_u32 i) old = Some (r, p')" "back_effect i r ps ps'" by (elim exE conjE)
    then have m: "(h, i) \<in> set ps"
      using l by (simp add: LookBack_To4 [OF i] back_effect_def split: option.splits)
    then have lo: "to_lower h = h" by (rule pool_okD(4) [OF ok])
    from Lookup_refines [OF c, of h] obtain i' q qs where
      a: "Pool_Lookup h (Pool_CloneFrom p old) = Some (bytes_of_u32 i', q)"
        "lookup_effect (opt_Size opts) (Pool_CloneFrom p old) h i' ps qs"
      unfolding lo by (elim exE conjE)
    have "h \<in> fst ` set ps" using m by force
    then have "(h, i') \<in> set ps" using a(2) by (auto simp: lookup_effect_def fresh_assignment_def)
    then have "i' = i" using one_to_one_mem(1) [OF o m] by blast
    then show ?thesis using a(1) i by simp
  qed
  then show ?thesis using LookBack_fun [OF c ok] by blast
qed

theorem CloneFrom_keeps_assignments_witness:
  "\<exists>as old. pool_run [OpLookup ''a.com''] (demo_pool 4) = Some (as, old) \<and>
    map_option fst (Pool_LookBack [198, 18, 0, 2] (Pool_CloneFrom (demo_pool 4) old)) =
      map_option fst (Pool_LookBack [198, 18, 0, 2] old) \<and>
    (map_option fst (Pool_LookBack [198, 18, 0, 2] old) = Some (Some ''a.com'') \<longrightarrow>
      map_option fst (Pool_Lookup ''a.com'' (Pool_CloneFrom (demo_pool 4) old)) = Some (To4 [198, 18, 0, 2]))"
proof -
  from pool_run_refines [OF Pool_New_ok(1) [OF demo_New [of 4]], of "[OpLookup ''a.com'']"] obtain as old where
    r: "pool_run [OpLookup ''a.com''] (demo_pool 4) = Some (as, old)" by (elim exE conjE)
  show ?thesis using r CloneFrom_keeps_assignments [OF demo_New r, of "[198, 18, 0, 2]" "''a.com''"] by blast
qed

end
