(* ===== verification/ConnMatch.thy ===== *)
theory ConnMatch
  imports RuleProps Metadata FakeIpRuns
begin

text \<open>
  The choice of a rule and a proxy for each connection: the matchers of
  \<open>src/internal/cfg/distribution/\<close> (\<open>tun.go\<close>, \<open>system_proxy.go\<close>) and \<open>src/internal/conn/\<close> (\<open>matcher.go\<close>,
  \<open>conn.go\<close>, \<open>tcp.go\<close>, \<open>udp.go\<close>), with the package variables they share gathered in one record
  (\<open>router\<close>). \<open>None\<close> is a panic: a call on a nil rule engine.

  A Go matcher is a closure over its configuration, which the ones of the program do not use; the
  model names the three matchers by a datatype. \<open>'p\<close> is the type of outbound proxies and \<open>'c\<close>, \<open>'d\<close> are
  the states of the two caches of \<open>golang-lru\<close>.
\<close>

subsection \<open>State\<close>

datatype matcher = TunMatcher | SystemMatcher | QuicMatcher

record ('c, 'd, 'p) router =
  rt_engine :: "'c engine option"
  rt_matchers :: "matcher list"
  rt_proxies :: "policy \<Rightarrow> 'p option"
  rt_isFakeIp :: bool
  rt_pool :: fpool
  rt_dnsDomainCache :: 'd

definition UpdateRuleEngine :: "'c engine option \<Rightarrow> ('c, 'd, 'p) router \<Rightarrow> ('c, 'd, 'p) router" where
  "UpdateRuleEngine e s = s\<lparr>rt_engine := e\<rparr>"

definition GetRuleEngine :: "('c, 'd, 'p) router \<Rightarrow> 'c engine option" where
  "GetRuleEngine s = rt_engine s"

definition UpdateConnMatcher :: "matcher list \<Rightarrow> ('c, 'd, 'p) router \<Rightarrow> ('c, 'd, 'p) router" where
  "UpdateConnMatcher ms s = s\<lparr>rt_matchers := ms\<rparr>"

definition GetConnMatcher :: "('c, 'd, 'p) router \<Rightarrow> matcher list" where
  "GetConnMatcher s = rt_matchers s"

definition UpdateIsFakeIpEnabled :: "bool \<Rightarrow> ('c, 'd, 'p) router \<Rightarrow> ('c, 'd, 'p) router" where
  "UpdateIsFakeIpEnabled b s = s\<lparr>rt_isFakeIp := b\<rparr>"

text \<open>\<open>UpdateProxy\<close>: the direct and the rejecting outbound are made by the clash adapter.\<close>

definition UpdateProxy :: "'p \<Rightarrow> 'p \<Rightarrow> 'p \<Rightarrow> ('c, 'd, 'p) router \<Rightarrow> ('c, 'd, 'p) router" where
  "UpdateProxy direct reject remoteProxy s =
     s\<lparr>rt_proxies := [PolicyProxy \<mapsto> remoteProxy, PolicyDirect \<mapsto> direct, PolicyReject \<mapsto> reject]\<rparr>"

datatype conn_error = ErrEmptyDialer | ErrNoRule | ErrNotQuic

definition GetProxy :: "policy \<Rightarrow> ('c, 'd, 'p) router \<Rightarrow> conn_error + 'p" where
  "GetProxy pol s = (case rt_proxies s pol of None \<Rightarrow> Inl ErrEmptyDialer | Some p \<Rightarrow> Inr p)"

subsection \<open>Matchers\<close>

definition engine_match ::
  "platform \<Rightarrow> ('c, rule) lru_api \<Rightarrow> string \<Rightarrow> rule_type list \<Rightarrow> 'c engine option \<Rightarrow>
   ((rule_error + rule) \<times> 'c engine option) option" where
  "engine_match P L v ts eo =
     (case eo of None \<Rightarrow> None | Some e \<Rightarrow> Some (map_prod id Some (Engine_Match P L v ts e)))"

text \<open>One of the three attempts of a matcher: skipped when the value is empty.\<close>

definition attempt ::
  "platform \<Rightarrow> ('c, rule) lru_api \<Rightarrow> string \<Rightarrow> rule_type list \<Rightarrow> 'c engine option \<Rightarrow>
   ((rule_error + rule) \<times> 'c engine option) option" where
  "attempt P L v ts eo = (if length v \<noteq> 0 then engine_match P L v ts eo else Some (Inl ErrNotFound, eo))"

definition Tun_ConnMatcher ::
  "platform \<Rightarrow> ('c, rule) lru_api \<Rightarrow> metadata \<Rightarrow> 'c engine option \<Rightarrow>
   ((conn_error + rule) \<times> 'c engine option) option" where
  "Tun_ConnMatcher P L m eo = do {
     (r1, e1) \<leftarrow> attempt P L (ProcessPath m) ProcessRuleTypes eo;
     (case r1 of
        Inr r \<Rightarrow> Some (Inr r, e1)
      | Inl _ \<Rightarrow> do {
          (r2, e2) \<leftarrow> attempt P L (IP_String (DstIP m)) IpRuleTypes e1;
          (case r2 of
             Inr r \<Rightarrow> Some (Inr r, e2)
           | Inl _ \<Rightarrow> do {
               (r3, e3) \<leftarrow> attempt P L (Host m) DomainRuleTypes e2;
               (case r3 of Inr r \<Rightarrow> Some (Inr r, e3) | Inl _ \<Rightarrow> Some (Inl ErrNoRule, e3))
             })
        })
   }"

definition System_ConnMatcher ::
  "platform \<Rightarrow> ('c, rule) lru_api \<Rightarrow> metadata \<Rightarrow> 'c engine option \<Rightarrow>
   ((conn_error + rule) \<times> 'c engine option) option" where
  "System_ConnMatcher P L m eo = do {
     (r1, e1) \<leftarrow> attempt P L (Host m) DomainRuleTypes eo;
     (case r1 of
        Inr r \<Rightarrow> Some (Inr r, e1)
      | Inl _ \<Rightarrow> do {
          (r2, e2) \<leftarrow> attempt P L (IP_String (DstIP m)) IpRuleTypes e1;
          (case r2 of Inr r \<Rightarrow> Some (Inr r, e2) | Inl _ \<Rightarrow> Some (Inl ErrNoRule, e2))
        })
   }"

definition RejectQuicMather :: "metadata \<Rightarrow> rule \<Rightarrow> conn_error + rule" where
  "RejectQuicMather m prevRule =
     (if Rule_GetPolicy prevRule = PolicyProxy \<and> contains_str (NetWork_String (NetWork m)) ''udp'' \<and>
         Port_String (DstPort m) = ''443''
      then Inr BuiltInRejectRule else Inl ErrNotQuic)"

fun run_matcher ::
  "platform \<Rightarrow> ('c, rule) lru_api \<Rightarrow> matcher \<Rightarrow> metadata \<Rightarrow> rule \<Rightarrow> 'c engine option \<Rightarrow>
   ((conn_error + rule) \<times> 'c engine option) option" where
  "run_matcher P L TunMatcher m r eo = Tun_ConnMatcher P L m eo"
| "run_matcher P L SystemMatcher m r eo = System_ConnMatcher P L m eo"
| "run_matcher P L QuicMatcher m r eo = Some (RejectQuicMather m r, eo)"

text \<open>The loop of \<open>resolveMetadata\<close> over the matchers: an error keeps the rule found so far.\<close>

fun run_matchers ::
  "platform \<Rightarrow> ('c, rule) lru_api \<Rightarrow> matcher list \<Rightarrow> metadata \<Rightarrow> rule \<Rightarrow> 'c engine option \<Rightarrow>
   (rule \<times> 'c engine option) option" where
  "run_matchers P L [] m r eo = Some (r, eo)"
| "run_matchers P L (x # xs) m r eo = do {
     (r1, e1) \<leftarrow> run_matcher P L x m r eo;
     run_matchers P L xs m (case r1 of Inr r' \<Rightarrow> r' | Inl _ \<Rightarrow> r) e1
   }"

definition GetIsDNSConn :: "metadata \<Rightarrow> bool" where
  "GetIsDNSConn m = (NetWork m = UDP \<and> Port_String (DstPort m) = ''53'')"

text \<open>\<open>resolveMetadata\<close> looks the address up in the DNS cache too, for its log line.\<close>

definition resolveMetadata ::
  "platform \<Rightarrow> ('c, rule) lru_api \<Rightarrow> ('d, string) lru_api \<Rightarrow> metadata \<Rightarrow> ('c, 'd, 'p) router \<Rightarrow>
   (rule \<times> ('c, 'd, 'p) router) option" where
  "resolveMetadata P L D m s = do {
     (r, e) \<leftarrow> run_matchers P L (GetConnMatcher s) m BuiltInProxyRule (rt_engine s);
     Some (r, s\<lparr>rt_engine := e,
       rt_dnsDomainCache := snd (api_Get D (IP_String (DstIP m)) (rt_dnsDomainCache s))\<rparr>)
   }"

text \<open>The \<open>DNS-MAP\<close> part of \<open>handleMetadata\<close>.\<close>

definition apply_dns_map :: "rule \<Rightarrow> metadata \<Rightarrow> metadata" where
  "apply_dns_map r m =
     (case r of
        RDnsMap d \<Rightarrow> (case DnsMap_GetIp d of Inr ip \<Rightarrow> m\<lparr>DstIP := ip, Host := []\<rparr> | Inl _ \<Rightarrow> m)
      | _ \<Rightarrow> m)"

definition handleMetadata ::
  "platform \<Rightarrow> ('c, rule) lru_api \<Rightarrow> ('d, string) lru_api \<Rightarrow> metadata \<Rightarrow> ('c, 'd, 'p) router \<Rightarrow>
   (rule \<times> metadata \<times> ('c, 'd, 'p) router) option" where
  "handleMetadata P L D m s = do {
     (r, s1) \<leftarrow> resolveMetadata P L D m s;
     let m1 = apply_dns_map r m in
     if Rule_GetPolicy r = PolicyProxy \<and> rt_isFakeIp s1 then do {
       (h, p) \<leftarrow> Pool_LookBack (DstIP m1) (rt_pool s1);
       Some (r, (case h of Some host \<Rightarrow> m1\<lparr>Host := host\<rparr> | None \<Rightarrow> m1), s1\<lparr>rt_pool := p\<rparr>)
     } else Some (r, m1, s1)
   }"

text \<open>
  The connection contexts (\<open>tcp.go\<close>, \<open>udp.go\<close>): the metadata as \<open>handleMetadata\<close> left it and its rule. The dialling
  of the chosen outbound is the work of the adapter: \<open>dial\<close> and \<open>listen\<close>.
\<close>

record conn_context =
  cc_metadata :: metadata
  cc_rule :: rule

definition NewConnContext ::
  "platform \<Rightarrow> ('c, rule) lru_api \<Rightarrow> ('d, string) lru_api \<Rightarrow> metadata \<Rightarrow> ('c, 'd, 'p) router \<Rightarrow>
   (conn_context \<times> ('c, 'd, 'p) router) option" where
  "NewConnContext P L D m s = do {
     (r, m1, s1) \<leftarrow> handleMetadata P L D m s;
     Some (\<lparr>cc_metadata = m1, cc_rule = r\<rparr>, s1)
   }"

definition NewTcpConn ::
  "('p \<Rightarrow> metadata \<Rightarrow> string \<Rightarrow> 'e + 'k) \<Rightarrow> metadata \<Rightarrow> rule \<Rightarrow> string \<Rightarrow> ('c, 'd, 'p) router \<Rightarrow>
   (conn_error + 'e) + 'k" where
  "NewTcpConn dial m r defaultInterface s =
     (case GetProxy (Rule_GetPolicy r) s of
        Inl e \<Rightarrow> Inl (Inl e)
      | Inr p \<Rightarrow> (case dial p m defaultInterface of Inl e \<Rightarrow> Inl (Inr e) | Inr c \<Rightarrow> Inr c))"

definition NewUdpConn ::
  "('p \<Rightarrow> metadata \<Rightarrow> string \<Rightarrow> 'e + 'k) \<Rightarrow> metadata \<Rightarrow> rule \<Rightarrow> string \<Rightarrow> ('c, 'd, 'p) router \<Rightarrow>
   (conn_error + 'e) + 'k" where
  "NewUdpConn listen m r defaultInterface s =
     (case GetProxy (Rule_GetPolicy r) s of
        Inl e \<Rightarrow> Inl (Inl e)
      | Inr p \<Rightarrow> (case listen p m defaultInterface of Inl e \<Rightarrow> Inl (Inr e) | Inr c \<Rightarrow> Inr c))"

end
