(* ===== verification/ConnProps.thy ===== *)
theory ConnProps
  imports ConnMatch
begin

text \<open>
  What the choice of a rule promises: the order of precedence of process, address and domain rules, the
  blocking of QUIC, that every connection is given a proxy, and that a connection to a fake address
  reaches the proxy with its host name.
\<close>

subsection \<open>Attempts on an engine with a history\<close>

lemma join_with_Nil: "join_with c ps = [] \<longleftrightarrow> ps = [] \<or> ps = [[]]"
  by (cases "(c, ps)" rule: join_with.cases) auto

lemma nat_hex_not_Nil [simp]: "nat_hex n \<noteq> []"
  by (subst nat_hex.simps) simp

lemma IP_String_not_Nil [simp]: "IP_String ip \<noteq> []"
proof -
  have d: "dotted i \<noteq> []" if "length i = 4" for i
    using length4_cases [OF that] by (auto simp: dotted_def)
  have w: "length ip = 16 \<Longrightarrow> length (words16 ip) \<noteq> 0"
    by (cases ip rule: words16.cases) auto
  have s: "string6 ip \<noteq> []" if "length ip = 16"
    using w [OF that] by (cases "words16 ip") (auto simp: string6_def Let_def join_with_Nil)
  have "length ip = 4 \<Longrightarrow> To4 ip = ip" by (simp add: To4_def)
  then show ?thesis using d s by (auto simp: IP_String_def)
qed

definition answer_of :: "rule option \<Rightarrow> rule_error + rule" where
  "answer_of x = (case x of Some r \<Rightarrow> Inr r | None \<Rightarrow> Inl ErrNotFound)"

text \<open>The engine after one more \<open>Match\<close>.\<close>

lemma engine_run_snoc:
  "snd (Engine_Match P L v ts (engine_run P L xs e)) = engine_run P L (xs @ [EMatch v ts]) e"
  by (simp add: engine_run_def)

lemma attempt_run:
  assumes "rule_cache ok held L del" and "Engine_New L files name extra = Inr e"
    and "\<forall>x \<in> set xs. consistent_with v ts x" and "v \<noteq> []"
  shows "attempt P L v ts (Some (engine_run P L xs e)) =
    Some (answer_of (first_match P ts v (eng_rules e)), Some (engine_run P L (xs @ [EMatch v ts]) e))"
proof -
  obtain a e' where m: "Engine_Match P L v ts (engine_run P L xs e) = (a, e')" by (rule prod.exhaust)
  then have "a = answer_of (first_match P ts v (eng_rules e))"
    using rule_cache.engine_answers [OF assms(1-3), of P] by (simp add: answer_of_def)
  moreover have "e' = engine_run P L (xs @ [EMatch v ts]) e" using engine_run_snoc [of P L v ts xs e] m by simp
  ultimately show ?thesis using assms(4) m by (simp add: attempt_def engine_match_def)
qed

subsection \<open>Precedence\<close>

text \<open>The rule of a connection in tun mode and in system mode, from the rule list alone.\<close>

definition choice :: "platform \<Rightarrow> rule_type list \<Rightarrow> string \<Rightarrow> rule list \<Rightarrow> rule option" where
  "choice P ts v rules = (if v = [] then None else first_match P ts v rules)"

definition orelse :: "'a option \<Rightarrow> 'a option \<Rightarrow> 'a option" where
  "orelse x y = (case x of Some a \<Rightarrow> Some a | None \<Rightarrow> y)"

definition tun_choice :: "platform \<Rightarrow> metadata \<Rightarrow> rule list \<Rightarrow> rule option" where
  "tun_choice P m rules =
     orelse (choice P ProcessRuleTypes (ProcessPath m) rules)
       (orelse (choice P IpRuleTypes (IP_String (DstIP m)) rules) (choice P DomainRuleTypes (Host m) rules))"

definition system_choice :: "platform \<Rightarrow> metadata \<Rightarrow> rule list \<Rightarrow> rule option" where
  "system_choice P m rules =
     orelse (choice P DomainRuleTypes (Host m) rules) (choice P IpRuleTypes (IP_String (DstIP m)) rules)"

text \<open>Earlier calls used the process path, the address and the host of \<open>m\<close> as such and cached no rule for them.\<close>

definition fresh_for :: "metadata \<Rightarrow> engine_op list \<Rightarrow> bool" where
  "fresh_for m xs \<longleftrightarrow> (\<forall>x \<in> set xs. consistent_with (ProcessPath m) ProcessRuleTypes x \<and>
     consistent_with (IP_String (DstIP m)) IpRuleTypes x \<and> consistent_with (Host m) DomainRuleTypes x) \<and>
     distinct [ProcessPath m, IP_String (DstIP m)] \<and> distinct [IP_String (DstIP m), Host m] \<and>
     (ProcessPath m = Host m \<longrightarrow> Host m = [])"

lemma attempt_case:
  assumes "rule_cache ok held L del" and "Engine_New L files name extra = Inr e"
    and "\<forall>x \<in> set xs. consistent_with v ts x"
  shows "attempt P L v ts (Some (engine_run P L xs e)) =
    Some (answer_of (choice P ts v (eng_rules e)),
      Some (engine_run P L (if v = [] then xs else xs @ [EMatch v ts]) e))"
  using attempt_run [OF assms, of P] by (cases "v = []") (simp_all add: attempt_def choice_def answer_of_def)

lemma answer_of_simps [simp]: "answer_of (Some r) = Inr r" "answer_of None = Inl ErrNotFound"
  by (simp_all add: answer_of_def)

text \<open> C14. Precedence in tun mode: on an engine made by \<open>New\<close>, after calls that are consistent with the
  connection, the matcher does not fail on the engine and answers with the first matching process
  rule, else the first matching rule for the destination address, else the first matching rule for the host; it
  errs only when there is none of the three.\<close>

theorem tun_matcher_precedence:
  assumes "rule_cache ok held L del" and "Engine_New L files name extra = Inr e" and "fresh_for m xs"
  shows "map_option fst (Tun_ConnMatcher P L m (Some (engine_run P L xs e))) =
    Some (case tun_choice P m (eng_rules e) of Some r \<Rightarrow> Inr r | None \<Rightarrow> Inl ErrNoRule)"
proof -
  let ?p = "ProcessPath m" and ?i = "IP_String (DstIP m)" and ?h = "Host m"
  define x1 where "x1 = (if ?p = [] then xs else xs @ [EMatch ?p ProcessRuleTypes])"
  define x2 where "x2 = (if ?i = [] then x1 else x1 @ [EMatch ?i IpRuleTypes])"
  have c1: "\<forall>x \<in> set xs. consistent_with ?p ProcessRuleTypes x"
    and c2: "\<forall>x \<in> set x1. consistent_with ?i IpRuleTypes x"
    and c3: "\<forall>x \<in> set x2. consistent_with ?h DomainRuleTypes x"
    using assms(3) by (auto simp: fresh_for_def x1_def x2_def)
  note a1 = attempt_case [OF assms(1,2) c1, of P, folded x1_def]
  note a2 = attempt_case [OF assms(1,2) c2, of P, folded x2_def]
  note a3 = attempt_case [OF assms(1,2) c3, of P]
  show ?thesis
    unfolding Tun_ConnMatcher_def a1 tun_choice_def orelse_def
    by (cases "choice P ProcessRuleTypes ?p (eng_rules e)"; cases "choice P IpRuleTypes ?i (eng_rules e)";
        cases "choice P DomainRuleTypes ?h (eng_rules e)") (simp_all add: a2 a3)
qed

text \<open>Precedence in system proxy mode: the first matching rule for the host wins over the rules for the
  destination address, and process rules are not consulted.\<close>

theorem system_matcher_precedence:
  assumes "rule_cache ok held L del" and "Engine_New L files name extra = Inr e" and "fresh_for m xs"
  shows "map_option fst (System_ConnMatcher P L m (Some (engine_run P L xs e))) =
    Some (case system_choice P m (eng_rules e) of Some r \<Rightarrow> Inr r | None \<Rightarrow> Inl ErrNoRule)"
proof -
  let ?i = "IP_String (DstIP m)" and ?h = "Host m"
  define x1 where "x1 = (if ?h = [] then xs else xs @ [EMatch ?h DomainRuleTypes])"
  have c1: "\<forall>x \<in> set xs. consistent_with ?h DomainRuleTypes x"
    and c2: "\<forall>x \<in> set x1. consistent_with ?i IpRuleTypes x"
    using assms(3) by (auto simp: fresh_for_def x1_def)
  note a1 = attempt_case [OF assms(1,2) c1, of P, folded x1_def]
  note a2 = attempt_case [OF assms(1,2) c2, of P]
  show ?thesis
    unfolding System_ConnMatcher_def a1 system_choice_def orelse_def
    by (cases "choice P DomainRuleTypes ?h (eng_rules e)"; cases "choice P IpRuleTypes ?i (eng_rules e)")
       (simp_all add: a2)
qed

definition demo_conn :: metadata where
  "demo_conn = empty_metadata\<lparr>DstIP := [10, 0, 0, 1], DstPort := 443, Host := ''a.b'', NetWork := UDP\<rparr>"

lemma demo_conn_ip: "IP_String (DstIP demo_conn) = ''10.0.0.1''"
  by (simp add: demo_conn_def empty_metadata_def IP_String_def To4_def dotted_def) code_simp

lemma demo_conn_fresh: "fresh_for demo_conn []"
  unfolding fresh_for_def demo_conn_ip by (simp add: demo_conn_def empty_metadata_def)

theorem tun_matcher_precedence_witness:
  "map_option fst (Tun_ConnMatcher demo_platform lru_of_clash demo_conn
      (Some (engine_run demo_platform lru_of_clash [] demo_engine))) =
    Some (case tun_choice demo_platform demo_conn (eng_rules demo_engine) of Some r \<Rightarrow> Inr r | None \<Rightarrow> Inl ErrNoRule)"
  by (rule tun_matcher_precedence [OF clash_rules.rule_cache_axioms demo_engine_New demo_conn_fresh])

theorem system_matcher_precedence_witness:
  "map_option fst (System_ConnMatcher demo_platform lru_of_clash demo_conn
      (Some (engine_run demo_platform lru_of_clash [] demo_engine))) =
    Some (case system_choice demo_platform demo_conn (eng_rules demo_engine) of Some r \<Rightarrow> Inr r | None \<Rightarrow> Inl ErrNoRule)"
  by (rule system_matcher_precedence [OF clash_rules.rule_cache_axioms demo_engine_New demo_conn_fresh])

subsection \<open>QUIC\<close>

text \<open>With the QUIC matcher behind the tun matcher, a connection is rejected instead of proxied exactly when it
  is UDP to port 443; the rule of every other connection, and of one that is not proxied, is the
  one the tun matcher alone gives.\<close>

theorem quic_blocked:
  "map_option fst (run_matchers P L [TunMatcher, QuicMatcher] m BuiltInProxyRule eo) =
   map_option (\<lambda>x. if Rule_GetPolicy (fst x) = PolicyProxy \<and> NetWork m \<noteq> TCP \<and> DstPort m = 443
     then BuiltInRejectRule else fst x) (run_matchers P L [TunMatcher] m BuiltInProxyRule eo)"
proof -
  have n: "contains_str (NetWork_String (NetWork m)) ''udp'' \<longleftrightarrow> NetWork m \<noteq> TCP"
    by (auto simp: NetWork_String_def has_prefix_def)
  show ?thesis
    by (cases "Tun_ConnMatcher P L m eo") (auto simp: RejectQuicMather_def n Port_String_443 split: sum.splits)
qed

subsection \<open>Every connection is given a proxy\<close>

definition policy_ok :: "rule \<Rightarrow> bool" where
  "policy_ok r \<longleftrightarrow> Rule_GetPolicy r \<in> {PolicyDirect, PolicyProxy, PolicyReject}"

lemma builtin_policies [simp]: "policy_ok BuiltInProxyRule" "policy_ok BuiltInRejectRule"
  by (simp_all add: policy_ok_def BuiltInProxyRule_def BuiltInRejectRule_def)

context rule_cache
begin

definition engine_pol :: "'c engine \<Rightarrow> bool" where
  "engine_pol e \<longleftrightarrow> sound (\<lambda>_. policy_ok) (eng_cache e) \<and> (\<forall>r \<in> set (eng_rules e). policy_ok r)"

lemma Engine_Match_pol:
  assumes "engine_pol e" and "Engine_Match P L v ts e = (a, e')"
  shows "engine_pol e' \<and> (\<forall>r. a = Inr r \<longrightarrow> policy_ok r)"
proof -
  obtain r c where g: "api_Get L v (eng_cache e) = (r, c)" by (rule prod.exhaust)
  have s: "sound (\<lambda>_. policy_ok) c" using assms(1) sound_get [of "\<lambda>_. policy_ok" "eng_cache e" v] g
    by (simp add: engine_pol_def)
  show ?thesis
  proof (cases r)
    case (Some r')
    then have "policy_ok r'" using assms(1) sound_hit [of "\<lambda>_. policy_ok" "eng_cache e" v r'] g
      by (simp add: engine_pol_def)
    then show ?thesis using assms g s Some by (auto simp: Engine_Match_def engine_pol_def)
  next
    case None
    show ?thesis
    proof (cases "find (\<lambda>r. Rule_Type r \<in> set ts \<and> Rule_Match P r v) (eng_rules e)")
      case None2: None
      then show ?thesis using assms g s None by (auto simp: Engine_Match_def engine_pol_def)
    next
      case (Some r')
      then have "r' \<in> set (eng_rules e)" by (auto simp: find_Some_iff)
      then have "policy_ok r'" using assms(1) by (simp add: engine_pol_def)
      then show ?thesis using assms g None Some sound_put [OF s] by (auto simp: Engine_Match_def engine_pol_def)
    qed
  qed
qed

lemma engine_run_pol:
  assumes "engine_pol e" and "\<forall>v r. EAddCache v r \<in> set xs \<longrightarrow> policy_ok r"
  shows "engine_pol (engine_run P L xs e)"
  using assms
proof (induction xs arbitrary: e)
  case Nil
  then show ?case by (simp add: engine_run_def)
next
  case (Cons x xs)
  have "engine_pol (engine_step P L x e)"
  proof (cases x)
    case (EMatch v ts)
    then show ?thesis using Engine_Match_pol [OF Cons.prems(1), of P v ts] by (cases "Engine_Match P L v ts e") simp
  next
    case (EAddCache v r)
    then have "policy_ok r" using Cons.prems(2) by auto
    then show ?thesis using Cons.prems(1) EAddCache sound_put [of "\<lambda>_. policy_ok" "eng_cache e" v r]
      by (simp add: engine_pol_def Engine_AddCache_def)
  qed
  then show ?case using Cons.IH [of "engine_step P L x e"] Cons.prems(2) by (simp add: engine_run_def)
qed

lemma New_pol:
  assumes "Engine_New L files name extra = Inr e"
  shows "engine_pol e"
proof -
  obtain c where c: "api_New L 1024 = Some c" "eng_cache e = c"
    using assms by (auto simp: Engine_New_def split: sum.splits option.splits)
  have "sound (\<lambda>_. policy_ok) (eng_cache e)" using c new_empty [OF c(1)] by (simp add: sound_def)
  moreover have "policy_ok r" if "r \<in> set (eng_rules e)" for r
  proof -
    have "\<exists>l. ParseRawValue l = Inr r"
      using that assms by (auto simp: Engine_New_def Parse_def parse_lines_in split: sum.splits option.splits)
    then show ?thesis using ParseRawValue_wf by (auto simp: rule_wf_def policy_ok_def)
  qed
  ultimately show ?thesis by (simp add: engine_pol_def)
qed

lemma attempt_pol:
  assumes "engine_pol e"
  shows "\<exists>a e'. attempt P L v ts (Some e) = Some (a, Some e') \<and> engine_pol e' \<and> (\<forall>r. a = Inr r \<longrightarrow> policy_ok r)"
  using assms Engine_Match_pol [OF assms, of P v ts]
  by (cases "Engine_Match P L v ts e") (auto simp: attempt_def engine_match_def)

lemma run_matcher_pol:
  assumes "engine_pol e" and "policy_ok r"
  shows "\<exists>a e'. run_matcher P L x m r (Some e) = Some (a, Some e') \<and> engine_pol e' \<and>
    (\<forall>r. a = Inr r \<longrightarrow> policy_ok r)"
proof (cases x)
  case TunMatcher
  from attempt_pol [OF assms(1), of P "ProcessPath m" ProcessRuleTypes] obtain a1 e1 where
    1: "attempt P L (ProcessPath m) ProcessRuleTypes (Some e) = Some (a1, Some e1)" "engine_pol e1"
      "\<forall>r. a1 = Inr r \<longrightarrow> policy_ok r" by blast
  from attempt_pol [OF 1(2), of P "IP_String (DstIP m)" IpRuleTypes] obtain a2 e2 where
    2: "attempt P L (IP_String (DstIP m)) IpRuleTypes (Some e1) = Some (a2, Some e2)" "engine_pol e2"
      "\<forall>r. a2 = Inr r \<longrightarrow> policy_ok r" by blast
  from attempt_pol [OF 2(2), of P "Host m" DomainRuleTypes] obtain a3 e3 where
    3: "attempt P L (Host m) DomainRuleTypes (Some e2) = Some (a3, Some e3)" "engine_pol e3"
      "\<forall>r. a3 = Inr r \<longrightarrow> policy_ok r" by blast
  show ?thesis using TunMatcher 1 2 3
    by (cases a1; cases a2; cases a3) (simp_all add: Tun_ConnMatcher_def)
next
  case SystemMatcher
  from attempt_pol [OF assms(1), of P "Host m" DomainRuleTypes] obtain a1 e1 where
    1: "attempt P L (Host m) DomainRuleTypes (Some e) = Some (a1, Some e1)" "engine_pol e1"
      "\<forall>r. a1 = Inr r \<longrightarrow> policy_ok r" by blast
  from attempt_pol [OF 1(2), of P "IP_String (DstIP m)" IpRuleTypes] obtain a2 e2 where
    2: "attempt P L (IP_String (DstIP m)) IpRuleTypes (Some e1) = Some (a2, Some e2)" "engine_pol e2"
      "\<forall>r. a2 = Inr r \<longrightarrow> policy_ok r" by blast
  show ?thesis using SystemMatcher 1 2 by (cases a1; cases a2) (simp_all add: System_ConnMatcher_def)
next
  case QuicMatcher
  then show ?thesis using assms by (auto simp: RejectQuicMather_def)
qed

lemma run_matchers_pol:
  assumes "engine_pol e" and "policy_ok r"
  shows "\<exists>r' e'. run_matchers P L ms m r (Some e) = Some (r', Some e') \<and> engine_pol e' \<and> policy_ok r'"
  using assms
proof (induction ms arbitrary: e r)
  case Nil
  then show ?case by simp
next
  case (Cons x xs)
  from run_matcher_pol [OF Cons.prems, of P x m] obtain a e1 where
    1: "run_matcher P L x m r (Some e) = Some (a, Some e1)" "engine_pol e1" "\<forall>r. a = Inr r \<longrightarrow> policy_ok r"
    by blast
  have "policy_ok (case a of Inr r' \<Rightarrow> r' | Inl _ \<Rightarrow> r)" using 1(3) Cons.prems(2) by (cases a) auto
  from Cons.IH [OF 1(2) this] show ?case using 1(1) by auto
qed

end

text \<open>Whatever matchers are installed and whatever was matched and cached before, as long as the cached
  rules have one of the three policies, a connection is given a rule and, after \<open>UpdateProxy\<close>, a proxy for it:
  the remote proxy for PROXY, the direct one for DIRECT, the rejecting one for REJECT.\<close>

theorem every_connection_has_proxy:
  assumes "rule_cache ok held L del" and "Engine_New L files name extra = Inr e"
    and "\<forall>v r. EAddCache v r \<in> set xs \<longrightarrow> policy_ok r"
    and "rt_engine s = Some (engine_run P L xs e)"
  shows "\<exists>r s'. resolveMetadata P L D m (UpdateProxy direct reject remote s) = Some (r, s') \<and>
    GetProxy (Rule_GetPolicy r) s' =
      Inr (if Rule_GetPolicy r = PolicyProxy then remote
           else if Rule_GetPolicy r = PolicyDirect then direct else reject)"
proof -
  let ?s = "UpdateProxy direct reject remote s"
  have e: "rule_cache.engine_pol ok held (engine_run P L xs e)"
    by (rule rule_cache.engine_run_pol [OF assms(1) rule_cache.New_pol [OF assms(1,2)] assms(3)])
  have eq: "rt_engine ?s = Some (engine_run P L xs e)" using assms(4) by (simp add: UpdateProxy_def)
  from rule_cache.run_matchers_pol [OF assms(1) e builtin_policies(1), of P "GetConnMatcher ?s" m] obtain r e' where
    r: "run_matchers P L (GetConnMatcher ?s) m BuiltInProxyRule (rt_engine ?s) = Some (r, Some e')"
      "policy_ok r" unfolding eq by (elim exE conjE)
  from r(2) have "Rule_GetPolicy r \<in> {PolicyDirect, PolicyProxy, PolicyReject}" by (simp add: policy_ok_def)
  moreover have "rt_proxies ?s = [PolicyProxy \<mapsto> remote, PolicyDirect \<mapsto> direct, PolicyReject \<mapsto> reject]"
    by (simp add: UpdateProxy_def)
  ultimately show ?thesis using r(1)
    by (auto simp: resolveMetadata_def GetProxy_def policies)
qed

theorem every_connection_has_proxy_witness:
  "\<exists>s :: ((string, rule) lru_state, (string, string) lru_state, nat) router. \<exists>r s'.
    resolveMetadata demo_platform lru_of_clash lru_of_clash demo_conn (UpdateProxy 1 2 3 s) = Some (r, s') \<and>
    GetProxy (Rule_GetPolicy r) s' = Inr (if Rule_GetPolicy r = PolicyProxy then 3
           else if Rule_GetPolicy r = PolicyDirect then 1 else 2)"
proof -
  define s :: "((string, rule) lru_state, (string, string) lru_state, nat) router" where
    "s = \<lparr>rt_engine = Some (engine_run demo_platform lru_of_clash [] demo_engine), rt_matchers = [TunMatcher],
       rt_proxies = Map.empty, rt_isFakeIp = False, rt_pool = demo_pool 4, rt_dnsDomainCache = ([], LruCache_New [])\<rparr>"
  have e: "rt_engine s = Some (engine_run demo_platform lru_of_clash [] demo_engine)" by (simp add: s_def)
  have a: "\<forall>v r. EAddCache v r \<in> set [] \<longrightarrow> policy_ok r" by simp
  show ?thesis
    by (rule exI [of _ s], rule every_connection_has_proxy [OF clash_rules.rule_cache_axioms demo_engine_New a e])
qed

subsection \<open>Fake addresses\<close>

text \<open> C13. A connection that goes to a fake address is proxied by name: when fake-ip is on, the pool of the router has been
  used by any calls since it was made, the pool then gave the host its address, and the rule of the
  connection to that address is a PROXY rule that is no DNS-MAP rule, the
  metadata handed to the proxy has the lower-case host and the same address.\<close>

theorem fake_ip_restores_host:
  assumes "Pool_New opts = Some (Inr p)" and "pool_run xs p = Some (as, q)"
    and "Pool_Lookup host q = Some (ip, q1)" and "rt_pool s = q1" and "rt_isFakeIp s" and "DstIP m = ip"
    and "resolveMetadata P L D m s = Some (r, s1)" and "Rule_GetPolicy r = PolicyProxy"
    and "Rule_Type r \<noteq> RuleDnsMap"
  shows "\<exists>s2. handleMetadata P L D m s = Some (r, m\<lparr>Host := to_lower host\<rparr>, s2)"
proof -
  from reachable_pool_ok [OF assms(1,2)] obtain ps where ok: "pool_ok (opt_Size opts) q ps" by (elim exE conjE)
  from Lookup_refines [OF ok, of host] obtain i p1 qs where
    l: "Pool_Lookup host q = Some (bytes_of_u32 i, p1)" "pool_ok (opt_Size opts) p1 qs"
      "lookup_effect (opt_Size opts) q (to_lower host) i ps qs" by (elim exE conjE)
  have eq: "ip = bytes_of_u32 i" "q1 = p1" using assms(3) l(1) by simp_all
  note mem = lookup_effect_mem [OF l(3)]
  have o: "one_to_one qs" using store_repD(5) [OF pool_okD(1) [OF l(2)]] .
  from LookBack_refines [OF l(2), of i] obtain h p2 rs where
    b: "Pool_LookBack (bytes_of_u32 i) p1 = Some (h, p2)" "back_effect i h qs rs" by (elim exE conjE)
  have "i \<in> snd ` set qs" using mem by force
  then have h: "h = Some (to_lower host)"
    using b(2) one_to_one_mem(1) [OF o mem] by (auto simp: back_effect_def split: option.splits)
  have s1: "rt_pool s1 = q1" "rt_isFakeIp s1"
    using assms(4,5,7) by (auto simp: resolveMetadata_def split: bind_splits)
  have "apply_dns_map r m = m" using assms(9) by (cases r) (auto simp: apply_dns_map_def)
  then show ?thesis using assms(6-8) s1 eq b(1) h by (simp add: handleMetadata_def)
qed

theorem fake_ip_restores_host_witness:
  "\<exists>ip (s :: ((string, rule) lru_state, (string, string) lru_state, nat) router) q r s2.
    Pool_Lookup ''A.com'' (demo_pool 4) = Some (ip, q) \<and> rt_pool s = q \<and>
    handleMetadata demo_platform lru_of_clash lru_of_clash (empty_metadata\<lparr>DstIP := ip\<rparr>) s =
      Some (r, empty_metadata\<lparr>DstIP := ip, Host := to_lower ''A.com''\<rparr>, s2)"
proof -
  from Lookup_refines [OF Pool_New_ok(1) [OF demo_New [of 4]], of "''A.com''"] obtain i q where
    l: "Pool_Lookup ''A.com'' (demo_pool 4) = Some (bytes_of_u32 i, q)" by (elim exE conjE)
  have r: "pool_run [] (demo_pool 4) = Some ([], demo_pool 4)" by simp
  define s :: "((string, rule) lru_state, (string, string) lru_state, nat) router" where
    "s = \<lparr>rt_engine = None, rt_matchers = [], rt_proxies = Map.empty, rt_isFakeIp = True, rt_pool = q,
       rt_dnsDomainCache = ([], LruCache_New [])\<rparr>"
  define m where "m = empty_metadata\<lparr>DstIP := bytes_of_u32 i\<rparr>"
  have p: "rt_pool s = q" "rt_isFakeIp s" "DstIP m = bytes_of_u32 i" by (simp_all add: s_def m_def)
  obtain s1 where s1: "resolveMetadata demo_platform lru_of_clash lru_of_clash m s = Some (BuiltInProxyRule, s1)"
    by (simp add: resolveMetadata_def GetConnMatcher_def s_def)
  have b: "Rule_GetPolicy BuiltInProxyRule = PolicyProxy" "Rule_Type BuiltInProxyRule \<noteq> RuleDnsMap"
    by (simp_all add: BuiltInProxyRule_def rule_types)
  from fake_ip_restores_host [OF demo_New r l p s1 b] obtain s2 where
    "handleMetadata demo_platform lru_of_clash lru_of_clash m s = Some (BuiltInProxyRule, m\<lparr>Host := to_lower ''A.com''\<rparr>, s2)"
    by blast
  then show ?thesis using l p(1) unfolding m_def
    by (intro exI [of _ "bytes_of_u32 i"] exI [of _ s] exI [of _ q] exI [of _ BuiltInProxyRule] exI [of _ s2]) simp
qed

end
