(* ===== verification/DnsMsg.thy ===== *)
theory DnsMsg
  imports GoNet
begin

text \<open>
  DNS messages as the structures of \<open>miekg/dns\<close> that the program reads and builds. The functions of that
  package that compute something (\<open>SetRcode\<close>, \<open>SetQuestion\<close>, \<open>Fqdn\<close>, \<open>Question.String\<close>) are
  parameters, gathered in the record \<open>miekg\<close>; what the program relies on is the predicate \<open>miekg_ok\<close>.
\<close>


definition TypeA :: u16 where "TypeA = 1"
definition TypeTXT :: u16 where "TypeTXT = 16"
definition TypeAAAA :: u16 where "TypeAAAA = 28"
definition TypeOPT :: u16 where "TypeOPT = 41"
definition TypeSVCB :: u16 where "TypeSVCB = 64"
definition TypeHTTPS :: u16 where "TypeHTTPS = 65"
definition ClassINET :: u16 where "ClassINET = 1"
definition RcodeSuccess :: nat where "RcodeSuccess = 0"
definition RcodeServerFailure :: nat where "RcodeServerFailure = 2"
definition RcodeRefused :: nat where "RcodeRefused = 5"

lemmas dns_consts = TypeA_def TypeTXT_def TypeAAAA_def TypeOPT_def TypeSVCB_def TypeHTTPS_def ClassINET_def
  RcodeSuccess_def RcodeServerFailure_def RcodeRefused_def

record dns_question =
  q_Name :: string
  q_Qtype :: u16
  q_Qclass :: u16

text \<open>The dynamic type of a resource record: \<open>*D.A\<close>, \<open>*D.AAAA\<close> or another one.\<close>

datatype rr_data = DA go_ip | DAAAA go_ip | DOther string

record dns_rr =
  rr_Name :: string
  rr_Rrtype :: u16
  rr_Class :: u16
  rr_Ttl :: u32
  rr_Data :: rr_data

record dns_msg =
  msg_Id :: u16
  msg_Response :: bool
  msg_Authoritative :: bool
  msg_RecursionAvailable :: bool
  msg_Rcode :: nat
  msg_Question :: "dns_question list"
  msg_Answer :: "dns_rr list"
  msg_Ns :: "dns_rr list"
  msg_Extra :: "dns_rr list"

definition empty_msg :: dns_msg where
  "empty_msg = \<lparr>msg_Id = 0, msg_Response = False, msg_Authoritative = False, msg_RecursionAvailable = False,
     msg_Rcode = 0, msg_Question = [], msg_Answer = [], msg_Ns = [], msg_Extra = []\<rparr>"

record miekg =
  SetRcode :: "dns_msg \<Rightarrow> dns_msg \<Rightarrow> nat \<Rightarrow> dns_msg"
  SetQuestion :: "dns_msg \<Rightarrow> string \<Rightarrow> u16 \<Rightarrow> dns_msg"
  Fqdn :: "string \<Rightarrow> string"
  Question_String :: "dns_question \<Rightarrow> string"

text \<open>
  The documented behaviour that the theorems use: \<open>SetRcode\<close> makes a reply to the request with the
  return code and leaves the record sections alone; \<open>SetQuestion\<close> sets the one question of a message, in
  the class IN.
\<close>

definition miekg_ok :: "miekg \<Rightarrow> bool" where
  "miekg_ok K \<longleftrightarrow>
     (\<forall>m r c. msg_Answer (SetRcode K m r c) = msg_Answer m \<and> msg_Ns (SetRcode K m r c) = msg_Ns m \<and>
        msg_Extra (SetRcode K m r c) = msg_Extra m \<and> msg_Rcode (SetRcode K m r c) = c \<and>
        msg_Id (SetRcode K m r c) = msg_Id r) \<and>
     (\<forall>m n t. msg_Question (SetQuestion K m n t) = [\<lparr>q_Name = n, q_Qtype = t, q_Qclass = ClassINET\<rparr>])"

text \<open>An instance for the witnesses.\<close>

definition demo_miekg :: miekg where
  "demo_miekg = \<lparr>SetRcode = (\<lambda>m r c. m\<lparr>msg_Id := msg_Id r, msg_Response := True, msg_Rcode := c,
       msg_Question := take 1 (msg_Question r)\<rparr>),
     SetQuestion = (\<lambda>m n t. m\<lparr>msg_Question := [\<lparr>q_Name = n, q_Qtype = t, q_Qclass = ClassINET\<rparr>]\<rparr>),
     Fqdn = (\<lambda>s. if has_suffix s ''.'' then s else s @ ''.''), Question_String = q_Name\<rparr>"

lemma demo_miekg_ok: "miekg_ok demo_miekg"
  by (simp add: miekg_ok_def demo_miekg_def)

text \<open>\<open>handleMsgWithEmptyAnswer\<close>, in both DNS packages of the program.\<close>

definition handleMsgWithEmptyAnswer :: "miekg \<Rightarrow> dns_msg \<Rightarrow> dns_msg" where
  "handleMsgWithEmptyAnswer K r =
     (SetRcode K empty_msg r RcodeSuccess)\<lparr>msg_Authoritative := True, msg_RecursionAvailable := True\<rparr>"

lemma handleMsgWithEmptyAnswer_empty:
  "miekg_ok K \<Longrightarrow> msg_Answer (handleMsgWithEmptyAnswer K r) = []"
  by (simp add: handleMsgWithEmptyAnswer_def miekg_ok_def empty_msg_def)

end
