(* ===== verification/DnsHandle.thy ===== *)
theory DnsHandle
  imports DnsMsg ConnProps
begin

text \<open>
  The DNS server of tun mode: \<open>Handle\<close> and its helpers in \<open>src/internal/dns/client.go\<close>, the cache of
  resolved domains (\<open>cache.go\<close>), the counters (\<open>statistic.go\<close>), the fake-ip pool (\<open>fake_ip.go\<close>) and the
  answer of a DNS-MAP rule (\<open>rule_engine/dnsMap.go\<close>). A resolver is a function from a query to an error or
  a message that may be nil; \<open>None\<close> as the result of \<open>Handle\<close> is a panic.
\<close>

subsection \<open>DNS-MAP answers\<close>

datatype dns_error =
    ErrNoQuestion | ErrRejectDns | ErrResolver | ErrExchange | ErrEmptyMsg | ErrIpType | ErrInvalidIp | ErrUpstream string

definition dnsDefaultTTL :: u32 where "dnsDefaultTTL = 600"

text \<open>\<open>DnsMap.ExchangeContext\<close>: \<open>None\<close> is the panic of \<open>r.Question[0]\<close> on a message without question.\<close>

definition DnsMap_ExchangeContext :: "miekg \<Rightarrow> dnsmap_rule \<Rightarrow> dns_msg \<Rightarrow> (dns_error + dns_msg) option" where
  "DnsMap_ExchangeContext K d r =
     (case msg_Question r of
        [] \<Rightarrow> None
      | q # _ \<Rightarrow>
          let ip = ParseIP (dm_ip d) in
          if ip = [] then Some (Inl ErrInvalidIp)
          else
            let v4 = To4 ip; v6 = To16 ip;
                answer = (if v4 \<noteq> [] \<and> q_Qtype q = TypeA
                  then Some \<lparr>rr_Name = q_Name q, rr_Rrtype = TypeA, rr_Class = ClassINET, rr_Ttl = dnsDefaultTTL, rr_Data = DA v4\<rparr>
                  else if v6 \<noteq> [] \<and> q_Qtype q = TypeAAAA
                  then Some \<lparr>rr_Name = q_Name q, rr_Rrtype = TypeAAAA, rr_Class = ClassINET, rr_Ttl = dnsDefaultTTL, rr_Data = DAAAA v6\<rparr>
                  else None)
            in (case answer of
                  None \<Rightarrow> Some (Inl ErrIpType)
                | Some rr \<Rightarrow>
                    Some (Inr ((SetRcode K (r\<lparr>msg_Answer := [rr]\<rparr>) r RcodeSuccess)
                      \<lparr>msg_Authoritative := True, msg_RecursionAvailable := True\<rparr>))))"

subsection \<open>State\<close>

text \<open>The counters are \<open>atomic.Int32\<close>.\<close>

record statistic_item =
  st_Success :: "32 word"
  st_Fail :: "32 word"

record dns_statistic =
  stat_Proxy :: statistic_item
  stat_Direct :: statistic_item

definition countSuccessQuery :: "policy \<Rightarrow> dns_statistic \<Rightarrow> dns_statistic" where
  "countSuccessQuery pol s =
     (if pol = PolicyDirect then s\<lparr>stat_Direct := (stat_Direct s)\<lparr>st_Success := st_Success (stat_Direct s) + 1\<rparr>\<rparr>
      else if pol = PolicyProxy then s\<lparr>stat_Proxy := (stat_Proxy s)\<lparr>st_Success := st_Success (stat_Proxy s) + 1\<rparr>\<rparr>
      else s)"

definition countFailQuery :: "policy \<Rightarrow> dns_statistic \<Rightarrow> dns_statistic" where
  "countFailQuery pol s =
     (if pol = PolicyDirect then s\<lparr>stat_Direct := (stat_Direct s)\<lparr>st_Fail := st_Fail (stat_Direct s) + 1\<rparr>\<rparr>
      else if pol = PolicyProxy then s\<lparr>stat_Proxy := (stat_Proxy s)\<lparr>st_Fail := st_Fail (stat_Proxy s) + 1\<rparr>\<rparr>
      else s)"

definition GetStatistic :: "dns_statistic \<Rightarrow> dns_statistic" where
  "GetStatistic s = s"

type_synonym upstream = "dns_msg \<Rightarrow> string + dns_msg option"

record ('c, 'd) dns_state =
  ds_dnsMap :: "policy \<Rightarrow> upstream option"
  ds_engine :: "'c engine option"
  ds_cache :: 'd
  ds_static :: dns_statistic

definition UpdateDnsMap :: "upstream \<Rightarrow> upstream \<Rightarrow> ('c, 'd) dns_state \<Rightarrow> ('c, 'd) dns_state" where
  "UpdateDnsMap local remote s =
     s\<lparr>ds_dnsMap := (ds_dnsMap s)(PolicyDirect \<mapsto> local, PolicyProxy \<mapsto> remote)\<rparr>"

definition ResetCache :: "('d, string) lru_api \<Rightarrow> 'd \<Rightarrow> 'd" where
  "ResetCache D c = api_Purge D c"

definition GetCachedDnsItem :: "('d, string) lru_api \<Rightarrow> string \<Rightarrow> 'd \<Rightarrow> string option \<times> 'd" where
  "GetCachedDnsItem D ip c = api_Get D ip c"

definition addCachedDnsItem :: "('d, string) lru_api \<Rightarrow> string \<Rightarrow> string \<Rightarrow> 'd \<Rightarrow> 'd" where
  "addCachedDnsItem D ip domain c = api_Add D ip domain c"

subsection \<open>The pool of fake addresses (fake_ip.go)\<close>

text \<open>\<open>net.ParseCIDR\<close> of \<open>198.18.0.1/16\<close> gives the network with the masked address.\<close>

definition FakeIpRange_net :: ipnet where
  "FakeIpRange_net = \<lparr>net_IP = [198, 18, 0, 0], mask_ones = 16, mask_bits = 32\<rparr>"

definition FakeIpPool_options :: fpool_options where
  "FakeIpPool_options = \<lparr>opt_IPNet = FakeIpRange_net, opt_Host = None, opt_Size = 4 * 1024\<rparr>"

lemma FakeIpPool_New: "\<exists>p. Pool_New FakeIpPool_options = Some (Inr p) \<and> ring p = 65533"
proof -
  have b: "ipToUint [198, 18, 0, 0] = Some 3323068416" by code_simp
  have t: "push_bit 16 1 - (2 :: 64 word) = 65534" by code_simp
  show ?thesis
    by (simp add: Pool_New_def FakeIpPool_options_def FakeIpRange_net_def b t ring_def)
qed

subsection \<open>Handle\<close>

definition getDnsQuestion :: "dns_msg \<Rightarrow> dns_error + string \<times> u16" where
  "getDnsQuestion msg =
     (case msg_Question msg of
        [] \<Rightarrow> Inl ErrNoQuestion
      | q # _ \<Rightarrow>
          Inr (if has_suffix (q_Name q) ''.'' then butlast (q_Name q) else q_Name q, q_Qtype q))"

text \<open>A record whose header says A but which is no \<open>*D.A\<close> makes the type assertion panic (\<open>None\<close>).\<close>

definition rr_ip :: "dns_rr \<Rightarrow> go_ip list option" where
  "rr_ip a =
     (if rr_Rrtype a = TypeA then (case rr_Data a of DA ip \<Rightarrow> Some [ParseIP (IP_String ip)] | _ \<Rightarrow> None)
      else if rr_Rrtype a = TypeAAAA then (case rr_Data a of DAAAA ip \<Rightarrow> Some [ParseIP (IP_String ip)] | _ \<Rightarrow> None)
      else Some [])"

definition getResponseIp :: "dns_msg \<Rightarrow> go_ip list option" where
  "getResponseIp msg = map_option concat (opt_list (map rr_ip (msg_Answer msg)))"

definition convertRulePolicyToResolver :: "rule \<Rightarrow> dns_error + rule" where
  "convertRulePolicyToResolver r = (if Rule_GetPolicy r = PolicyReject then Inl ErrRejectDns else Inr r)"

definition getDnsResolver ::
  "platform \<Rightarrow> ('c, rule) lru_api \<Rightarrow> string \<Rightarrow> metadata \<Rightarrow> 'c engine option \<Rightarrow>
   ((dns_error + rule) \<times> 'c engine option) option" where
  "getDnsResolver P L domain m eo = do {
     (r1, e1) \<leftarrow> attempt P L (ProcessPath m) ProcessRuleTypes eo;
     (case r1 of
        Inr r \<Rightarrow> Some (convertRulePolicyToResolver r, e1)
      | Inl _ \<Rightarrow> do {
          (r2, e2) \<leftarrow> engine_match P L domain DomainRuleTypes e1;
          (case r2 of
             Inr r \<Rightarrow> Some (convertRulePolicyToResolver r, e2)
           | Inl _ \<Rightarrow> Some (Inr BuiltInProxyRule, e2))
        })
   }"

definition exchange ::
  "miekg \<Rightarrow> rule \<Rightarrow> dns_msg \<Rightarrow> ('c, 'd) dns_state \<Rightarrow> (dns_error + dns_msg option) option" where
  "exchange K r msg s =
     (case r of
        RDnsMap d \<Rightarrow> map_option (map_sum id Some) (DnsMap_ExchangeContext K d msg)
      | _ \<Rightarrow> (case ds_dnsMap s (Rule_GetPolicy r) of
                None \<Rightarrow> None
              | Some up \<Rightarrow> Some (map_sum ErrUpstream id (up msg))))"

text \<open>The loop that caches each address of the answer.\<close>

definition cache_ip ::
  "('c, rule) lru_api \<Rightarrow> ('d, string) lru_api \<Rightarrow> string \<Rightarrow> rule \<Rightarrow> go_ip \<Rightarrow> ('c, 'd) dns_state \<Rightarrow> ('c, 'd) dns_state" where
  "cache_ip L D question r ip s =
     (if ip = [] then s
      else s\<lparr>ds_cache := addCachedDnsItem D (IP_String ip) question (ds_cache s),
             ds_engine := map_option (Engine_AddCache L (IP_String ip) r) (ds_engine s)\<rparr>)"

definition cache_ips ::
  "('c, rule) lru_api \<Rightarrow> ('d, string) lru_api \<Rightarrow> string \<Rightarrow> rule \<Rightarrow> go_ip list \<Rightarrow> ('c, 'd) dns_state \<Rightarrow> ('c, 'd) dns_state" where
  "cache_ips L D question r ips s = fold (cache_ip L D question r) ips s"

text \<open>
  The deferred function counts a failure when \<open>err\<close> is set at the return and a success otherwise; the
  error for a nil message is returned without being assigned to \<open>err\<close>.
\<close>

definition Handle ::
  "platform \<Rightarrow> ('c, rule) lru_api \<Rightarrow> ('d, string) lru_api \<Rightarrow> miekg \<Rightarrow> dns_msg \<Rightarrow> metadata \<Rightarrow> ('c, 'd) dns_state \<Rightarrow>
   ((dns_error + dns_msg) \<times> ('c, 'd) dns_state) option" where
  "Handle P L D K msg m s =
     (case getDnsQuestion msg of
        Inl e \<Rightarrow> Some (Inl e, s)
      | Inr (question, qType) \<Rightarrow>
          if qType \<in> {TypeAAAA, TypeSVCB, TypeHTTPS} then Some (Inr (handleMsgWithEmptyAnswer K msg), s)
          else do {
            (rr, e1) \<leftarrow> getDnsResolver P L question m (ds_engine s);
            let s1 = s\<lparr>ds_engine := e1\<rparr> in
            (case rr of
               Inl _ \<Rightarrow> Some (Inl ErrResolver, s1)
             | Inr r \<Rightarrow> do {
                 res \<leftarrow> exchange K r msg s1;
                 (case res of
                    Inl _ \<Rightarrow> Some (Inl ErrExchange, s1\<lparr>ds_static := countFailQuery (Rule_GetPolicy r) (ds_static s1)\<rparr>)
                  | Inr None \<Rightarrow>
                      Some (Inl ErrEmptyMsg, s1\<lparr>ds_static := countSuccessQuery (Rule_GetPolicy r) (ds_static s1)\<rparr>)
                  | Inr (Some reply) \<Rightarrow> do {
                      ips \<leftarrow> getResponseIp reply;
                      let s2 = cache_ips L D question r ips s1 in
                      Some (Inr reply, s2\<lparr>ds_static := countSuccessQuery (Rule_GetPolicy r) (ds_static s2)\<rparr>)
                    })
               })
          })"

end
