(* ===== verification/RuleRecent.thy ===== *)
theory RuleRecent
  imports RuleProps
begin

text \<open>
  What the cache of rules holds after many additions: \<open>sized_rule_cache\<close> extends \<open>rule_cache\<close> by the promise of a
  cache of a fixed size, that the keys added last are there as long as they are not more than its size. The cache of
  \<open>src/pkg/clash/common/cache\<close> keeps it.
\<close>

subsection \<open>The contract\<close>

definition add_all :: "('c, 'v) lru_api \<Rightarrow> (string \<times> 'v) list \<Rightarrow> 'c \<Rightarrow> 'c" where
  "add_all L kvs c = fold (\<lambda>(k, v). api_Add L k v) kvs c"

locale sized_rule_cache = rule_cache ok held L del
  for ok :: "'c \<Rightarrow> bool" and held :: "'c \<Rightarrow> string \<Rightarrow> rule option" and L :: "('c, rule) lru_api"
    and del :: "string \<Rightarrow> 'c \<Rightarrow> 'c" +
  fixes room :: "'c \<Rightarrow> nat"
  assumes room_new: "api_New L n = Some c \<Longrightarrow> room c = nat n"
    and room_get: "ok c \<Longrightarrow> room (snd (api_Get L k c)) = room c"
    and room_add: "ok c \<Longrightarrow> room (api_Add L k v c) = room c"
    and holds_last: "ok c \<Longrightarrow> card (fst ` set kvs) \<le> room c \<Longrightarrow> k \<in> fst ` set kvs \<Longrightarrow> held (add_all L kvs c) k \<noteq> None"
begin

lemma add_all_ok: "ok c \<Longrightarrow> ok (add_all L kvs c)"
  unfolding add_all_def by (induction kvs arbitrary: c) (auto simp: put_ok)

text \<open>One value stored for many keys.\<close>

lemma add_all_value:
  "ok c \<Longrightarrow> \<forall>kv \<in> set kvs. snd kv = r \<Longrightarrow> k \<in> fst ` set kvs \<or> held c k \<in> {None, Some r} \<Longrightarrow>
     held (add_all L kvs c) k \<in> {None, Some r}"
proof (induction kvs arbitrary: c)
  case Nil
  then show ?case by (simp add: add_all_def)
next
  case (Cons kv kvs)
  obtain j where kv: "kv = (j, r)" using Cons.prems(2) by (cases kv) auto
  have r: "\<forall>kv \<in> set kvs. snd kv = r" using Cons.prems(2) by simp
  have "k \<in> fst ` set kvs \<or> held (api_Add L j r c) k \<in> {None, Some r}"
  proof (cases "k = j")
    case True
    then show ?thesis using put_same [OF Cons.prems(1), of j r] by simp
  next
    case False
    then show ?thesis using put_other [OF Cons.prems(1) False, of r] Cons.prems(3) kv by (elim disjE) auto
  qed
  from Cons.IH [OF put_ok [OF Cons.prems(1)] r this] show ?case by (simp add: add_all_def kv)
qed

lemma add_all_held:
  assumes "ok c" and "\<forall>kv \<in> set kvs. snd kv = r" and "card (fst ` set kvs) \<le> room c" and "k \<in> fst ` set kvs"
  shows "held (add_all L kvs c) k = Some r"
  using holds_last [OF assms(1,3,4)] add_all_value [OF assms(1,2) disjI1 [OF assms(4)]] by auto

lemma Engine_Match_room: "ok (eng_cache e) \<Longrightarrow> room (eng_cache (snd (Engine_Match P L v ts e))) = room (eng_cache e)"
  using get_keeps [of "eng_cache e" v] room_get [of "eng_cache e" v] room_add
  by (cases "api_Get L v (eng_cache e)") (auto simp: Engine_Match_def split: option.splits)

lemma New_room: "Engine_New L files name extra = Inr e \<Longrightarrow> room (eng_cache e) = 1024"
  using room_new by (fastforce simp: Engine_New_def split: sum.splits option.splits)

end

subsection \<open>The cache of the program keeps it\<close>

lemma es_set_suffix:
  assumes "es = pre @ suf" and "distinct (map le_key es)" and "finite K" and "le_key ` set suf = K"
    and "card (insert k K) \<le> nat cap"
  shows "\<exists>pre' suf'. es_set 0 stale 0 cap k v 0 es = pre' @ suf' \<and> le_key ` set suf' = insert k K"
proof -
  let ?e = "\<lparr>le_key = k, le_value = v, le_expires = 0\<rparr>"
  have s: "le_key ` set (es_del k suf @ [?e]) = insert k K" using assms(4) by (auto simp: es_del_def)
  have e: "es_del k es @ [?e] = es_del k pre @ (es_del k suf @ [?e])" by (simp add: assms(1) es_del_def)
  have full: False if "es_find k es = None" "int (length (es_del k es @ [?e])) > cap" "es_del k pre = []"
  proof -
    have n: "k \<notin> K" using that(1) assms(1,4) by (auto simp: es_find_None)
    have "distinct (map le_key suf)" using assms(1,2) by simp
    then have "length suf = card K" using assms(4) by (metis distinct_card length_map set_map)
    moreover have "length (es_del k es @ [?e]) = Suc (length suf)"
      using that(1,3) n es_del_id [of k suf] assms(1,4) by (simp add: es_del_def)
    ultimately show False using assms(3,5) n that(2) by simp
  qed
  show ?thesis
  proof (cases "es_find k es = None \<and> cap > 0 \<and> int (length (es_del k es @ [?e])) > cap")
    case True
    then obtain x pre' where "es_del k pre = x # pre'" using full by (cases "es_del k pre") auto
    then have "es_set 0 stale 0 cap k v 0 es = pre' @ (es_del k suf @ [?e])"
      using True by (simp add: es_set_def es_purge_def Let_def e del: length_append)
    then show ?thesis using s by blast
  next
    case False
    then have "es_set 0 stale 0 cap k v 0 es = es_del k pre @ (es_del k suf @ [?e])"
      by (auto simp: es_set_def es_purge_def Let_def e)
    then show ?thesis using s by blast
  qed
qed

lemma ageless_Set:
  assumes "ageless s"
  shows "ageless (LruCache_Set 0 k v s)" and "maxSize (snd (LruCache_Set 0 k v s)) = maxSize (snd s)"
    and "lru_entries (fst (LruCache_Set 0 k v s)) (snd (LruCache_Set 0 k v s)) =
      es_set 0 (staleReturn (snd s)) 0 (maxSize (snd s)) k v 0 (lru_entries (fst s) (snd s))"
proof -
  have st: "lru_step (0, OSet k v) s = (AUnit, LruCache_Set 0 k v s)" by simp
  have a: "maxAge (snd s) = 0" "lru_ok s" using assms by (simp_all add: ageless_def)
  show "ageless (LruCache_Set 0 k v s)" by (rule ageless_step(1) [OF assms st])
  show "maxSize (snd (LruCache_Set 0 k v s)) = maxSize (snd s)"
    using lru_step_refines(2) [OF a(2) st] by (simp add: same_conf_def)
  show "lru_entries (fst (LruCache_Set 0 k v s)) (snd (LruCache_Set 0 k v s)) =
      es_set 0 (staleReturn (snd s)) 0 (maxSize (snd s)) k v 0 (lru_entries (fst s) (snd s))"
    using ageless_step(2) [OF assms st] a(1) by simp
qed

lemma ageless_Get_size: "ageless s \<Longrightarrow> maxSize (snd (snd (LruCache_Get 0 k s))) = maxSize (snd s)"
  using lru_step_refines(2) [of s "(0, OGet k)" "AVal (fst (LruCache_Get 0 k s))" "snd (LruCache_Get 0 k s)"]
  by (simp add: ageless_def same_conf_def prod_eq_iff)

lemma Set_all_suffix:
  assumes "ageless s" and "lru_entries (fst s) (snd s) = pre @ suf" and "finite K" and "le_key ` set suf = K"
    and "card (K \<union> fst ` set kvs) \<le> nat (maxSize (snd s))"
  shows "\<exists>pre' suf'. lru_entries (fst (add_all lru_of_clash kvs s)) (snd (add_all lru_of_clash kvs s)) = pre' @ suf' \<and>
    le_key ` set suf' = K \<union> fst ` set kvs"
  using assms
proof (induction kvs arbitrary: s pre suf K)
  case Nil
  then show ?case by (auto simp: add_all_def)
next
  case (Cons kv kvs)
  obtain k v where kv: "kv = (k, v)" by (cases kv)
  let ?s = "LruCache_Set 0 k v s"
  note st = ageless_Set [OF Cons.prems(1), of k v]
  have f: "finite (K \<union> fst ` set (kv # kvs))" using Cons.prems(3) by simp
  have "card (insert k K) \<le> nat (maxSize (snd s))"
    using card_mono [OF f, of "insert k K"] Cons.prems(5) kv by (simp add: subset_iff)
  from es_set_suffix [OF Cons.prems(2) ageless_distinct [OF Cons.prems(1)] Cons.prems(3,4) this] obtain pre' suf' where
    e: "lru_entries (fst ?s) (snd ?s) = pre' @ suf'" "le_key ` set suf' = insert k K" unfolding st(3) by blast
  have "card (insert k K \<union> fst ` set kvs) \<le> nat (maxSize (snd ?s))" using Cons.prems(5) kv st(2) by simp
  from Cons.IH [OF st(1) e(1) _ e(2) this] Cons.prems(3) show ?case by (simp add: add_all_def kv lru_of_clash_def)
qed

interpretation clash_sized: sized_rule_cache ageless lru_held lru_of_clash LruCache_Delete "\<lambda>s. nat (maxSize (snd s))"
proof
  fix n k v and c :: "(string, rule) lru_state" and kvs
  show "nat (maxSize (snd c)) = nat n" if "api_New lru_of_clash n = Some c"
    using that by (auto simp: lru_of_clash_def LruCache_New_def split: if_splits)
  show "nat (maxSize (snd (snd (api_Get lru_of_clash k c)))) = nat (maxSize (snd c))" if "ageless c"
    using ageless_Get_size [OF that] by (simp add: lru_of_clash_def)
  show "nat (maxSize (snd (api_Add lru_of_clash k v c))) = nat (maxSize (snd c))" if "ageless c"
    using ageless_Set(2) [OF that] by (simp add: lru_of_clash_def)
  show "lru_held (add_all lru_of_clash kvs c) k \<noteq> None"
    if "ageless c" "card (fst ` set kvs) \<le> nat (maxSize (snd c))" "k \<in> fst ` set kvs"
  proof -
    from Set_all_suffix [OF that(1), of "lru_entries (fst c) (snd c)" "[]" "{}" kvs] that(2) obtain pre suf where
      "lru_entries (fst (add_all lru_of_clash kvs c)) (snd (add_all lru_of_clash kvs c)) = pre @ suf" "le_key ` set suf = fst ` set kvs"
      by auto
    then have "k \<in> le_key ` set (lru_entries (fst (add_all lru_of_clash kvs c)) (snd (add_all lru_of_clash kvs c)))" using that(3) by auto
    then show ?thesis by (simp add: lru_held_def es_find_None)
  qed
qed

end
