(* ===== verification/DnsProps.thy ===== *)
theory DnsProps
  imports DnsHandle RuleRecent
begin

text \<open>
  What the DNS server of tun mode promises: it never panics once its resolvers are set, a connection to
  a resolved address follows the rule of the resolved domain, rejected domains fail without a query, and
  which outcome is counted.
\<close>

subsection \<open>The engine through a query\<close>

context rule_cache
begin

lemma Engine_Match_ok: "ok (eng_cache e) \<Longrightarrow> ok (eng_cache (snd (Engine_Match P L v ts e)))"
  using get_keeps [of "eng_cache e" v] put_ok
  by (cases "api_Get L v (eng_cache e)") (auto simp: Engine_Match_def split: option.splits)

lemma engine_run_ok: "ok (eng_cache e) \<Longrightarrow> ok (eng_cache (engine_run P L xs e))"
proof (induction xs arbitrary: e)
  case Nil
  then show ?case by (simp add: engine_run_def)
next
  case (Cons x xs)
  have "ok (eng_cache (engine_step P L x e))"
    using Cons.prems Engine_Match_ok put_ok by (cases x) (auto simp: Engine_AddCache_def)
  then show ?case using Cons.IH [of "engine_step P L x e"] by (simp add: engine_run_def)
qed

lemma New_engine_ok: "Engine_New L files name extra = Inr e \<Longrightarrow> ok (eng_cache e)"
  using new_empty by (auto simp: Engine_New_def split: sum.splits option.splits)

lemma attempt_ok:
  assumes "attempt P L v ts (Some e) = Some (a, eo)" and "ok (eng_cache e)"
  shows "\<exists>e'. eo = Some e' \<and> ok (eng_cache e')"
  using assms Engine_Match_ok [OF assms(2), of P v ts]
  by (cases "Engine_Match P L v ts e") (auto simp: attempt_def engine_match_def split: if_splits)

lemma engine_match_ok:
  assumes "engine_match P L v ts (Some e) = Some (a, eo)" and "ok (eng_cache e)"
  shows "\<exists>e'. eo = Some e' \<and> ok (eng_cache e')"
  using assms Engine_Match_ok [OF assms(2), of P v ts]
  by (cases "Engine_Match P L v ts e") (auto simp: engine_match_def)

lemma getDnsResolver_ok:
  assumes "getDnsResolver P L q m (Some e) = Some (r, eo)" and "ok (eng_cache e)"
  shows "\<exists>e'. eo = Some e' \<and> ok (eng_cache e')"
proof -
  obtain a1 e1 where 1: "attempt P L (ProcessPath m) ProcessRuleTypes (Some e) = Some (a1, e1)"
    using assms(1) by (auto simp: getDnsResolver_def split: bind_splits)
  from attempt_ok [OF 1 assms(2)] obtain e1' where e1: "e1 = Some e1'" "ok (eng_cache e1')" by blast
  show ?thesis
  proof (cases a1)
    case (Inr r')
    then show ?thesis using assms(1) 1 e1 by (auto simp: getDnsResolver_def)
  next
    case (Inl x)
    obtain a2 e2 where 2: "engine_match P L q DomainRuleTypes (Some e1') = Some (a2, e2)"
      using assms(1) 1 e1 Inl by (auto simp: getDnsResolver_def split: bind_splits)
    from engine_match_ok [OF 2 e1(2)] obtain e2' where "e2 = Some e2'" "ok (eng_cache e2')" by blast
    then show ?thesis using assms(1) 1 e1 2 Inl by (auto simp: getDnsResolver_def split: sum.splits)
  qed
qed

lemma held_match:
  assumes "ok (eng_cache e)" and "held (eng_cache e) v = Some r"
  shows "fst (Engine_Match P L v ts e) = Inr r"
  using assms get_result [of "eng_cache e" v]
  by (cases "api_Get L v (eng_cache e)") (simp add: Engine_Match_def)

end

text \<open>The loop over the addresses stores the rule for every address of the answer.\<close>

definition ip_keys :: "rule \<Rightarrow> go_ip list \<Rightarrow> (string \<times> rule) list" where
  "ip_keys r ips = map (\<lambda>ip. (IP_String ip, r)) (filter (\<lambda>ip. ip \<noteq> []) ips)"

lemma cache_ips_engine:
  "ds_engine (cache_ips L D q r ips s) = map_option (\<lambda>e. e\<lparr>eng_cache := add_all L (ip_keys r ips) (eng_cache e)\<rparr>) (ds_engine s)"
proof (induction ips arbitrary: s)
  case Nil
  show ?case by (cases "ds_engine s") (simp_all add: cache_ips_def ip_keys_def add_all_def)
next
  case (Cons ip ips)
  have "cache_ips L D q r (ip # ips) s = cache_ips L D q r ips (cache_ip L D q r ip s)" by (simp add: cache_ips_def)
  then show ?case
    by (cases "ds_engine s") (simp_all add: Cons.IH cache_ip_def ip_keys_def add_all_def Engine_AddCache_def)
qed

lemma ip_keys_facts:
  "\<forall>kv \<in> set (ip_keys r ips). snd kv = r" "card (fst ` set (ip_keys r ips)) \<le> length ips"
  "ip \<in> set ips \<Longrightarrow> ip \<noteq> [] \<Longrightarrow> IP_String ip \<in> fst ` set (ip_keys r ips)"
proof -
  have "card (fst ` set (ip_keys r ips)) \<le> length (ip_keys r ips)" by (metis card_length length_map list.set_map)
  also have "\<dots> \<le> length ips" by (simp add: ip_keys_def)
  finally show "card (fst ` set (ip_keys r ips)) \<le> length ips" .
qed (auto simp: ip_keys_def image_iff)

context sized_rule_cache
begin

lemma engine_run_room: "ok (eng_cache e) \<Longrightarrow> room (eng_cache (engine_run P L xs e)) = room (eng_cache e)"
proof (induction xs arbitrary: e)
  case Nil
  then show ?case by (simp add: engine_run_def)
next
  case (Cons x xs)
  have "ok (eng_cache (engine_step P L x e)) \<and> room (eng_cache (engine_step P L x e)) = room (eng_cache e)"
    using Cons.prems Engine_Match_ok Engine_Match_room put_ok room_add by (cases x) (auto simp: Engine_AddCache_def)
  then show ?case using Cons.IH [of "engine_step P L x e"] by (simp add: engine_run_def)
qed

lemma engine_match_room:
  assumes "engine_match P L v ts (Some e) = Some (a, eo)" and "ok (eng_cache e)"
  shows "\<exists>e'. eo = Some e' \<and> ok (eng_cache e') \<and> room (eng_cache e') = room (eng_cache e)"
  using assms Engine_Match_ok [OF assms(2), of P v ts] Engine_Match_room [OF assms(2), of P v ts]
  by (cases "Engine_Match P L v ts e") (auto simp: engine_match_def)

lemma attempt_room:
  assumes "attempt P L v ts (Some e) = Some (a, eo)" and "ok (eng_cache e)"
  shows "\<exists>e'. eo = Some e' \<and> ok (eng_cache e') \<and> room (eng_cache e') = room (eng_cache e)"
  using assms engine_match_room [of P v ts e a eo] by (auto simp: attempt_def split: if_splits)

lemma getDnsResolver_room:
  assumes "getDnsResolver P L q m (Some e) = Some (r, eo)" and "ok (eng_cache e)"
  shows "\<exists>e'. eo = Some e' \<and> ok (eng_cache e') \<and> room (eng_cache e') = room (eng_cache e)"
proof -
  obtain a1 e1 where 1: "attempt P L (ProcessPath m) ProcessRuleTypes (Some e) = Some (a1, e1)"
    using assms(1) by (auto simp: getDnsResolver_def split: bind_splits)
  from attempt_room [OF 1 assms(2)] obtain e1' where e1: "e1 = Some e1'" "ok (eng_cache e1')" "room (eng_cache e1') = room (eng_cache e)" by blast
  show ?thesis
  proof (cases a1)
    case (Inr r')
    then show ?thesis using assms(1) 1 e1 by (auto simp: getDnsResolver_def)
  next
    case (Inl x)
    obtain a2 e2 where 2: "engine_match P L q DomainRuleTypes (Some e1') = Some (a2, e2)"
      using assms(1) 1 e1 Inl by (auto simp: getDnsResolver_def split: bind_splits)
    from engine_match_room [OF 2 e1(2)] obtain e2' where "e2 = Some e2'" "ok (eng_cache e2')" "room (eng_cache e2') = room (eng_cache e1')" by blast
    then show ?thesis using assms(1) 1 e1 2 Inl by (auto simp: getDnsResolver_def split: sum.splits)
  qed
qed

text \<open>A lookup that finds nothing keeps what is held.\<close>

lemma Match_keeps_held:
  assumes "ok (eng_cache e)" and "Engine_Match P L v ts e = (Inl x, e')"
  shows "ok (eng_cache e') \<and> held (eng_cache e') = held (eng_cache e)"
  using assms get_keeps [OF assms(1), of v] by (cases "api_Get L v (eng_cache e)") (auto simp: Engine_Match_def split: option.splits)

lemma Tun_matches_held:
  assumes "ok (eng_cache e)" and "held (eng_cache e) (IP_String (DstIP conn)) = Some r"
  shows "\<exists>a eo. attempt P L (ProcessPath conn) ProcessRuleTypes (Some e) = Some (a, eo) \<and>
    map_option fst (Tun_ConnMatcher P L conn (Some e)) = Some (case a of Inr q \<Rightarrow> Inr q | Inl _ \<Rightarrow> Inr r)"
proof -
  obtain a e1 where a: "attempt P L (ProcessPath conn) ProcessRuleTypes (Some e) = Some (a, Some e1)"
    "\<forall>x. a = Inl x \<longrightarrow> ok (eng_cache e1) \<and> held (eng_cache e1) = held (eng_cache e)"
  proof (cases "ProcessPath conn = []")
    case True
    then show ?thesis using that [of "Inl ErrNotFound" e] assms(1) by (simp add: attempt_def)
  next
    case False
    obtain b e1 where m: "Engine_Match P L (ProcessPath conn) ProcessRuleTypes e = (b, e1)" by (rule prod.exhaust)
    then show ?thesis using that [of b e1] False Match_keeps_held [OF assms(1), of P "ProcessPath conn" ProcessRuleTypes]
      by (auto simp: attempt_def engine_match_def)
  qed
  show ?thesis
  proof (cases a)
    case (Inr q)
    then show ?thesis using a(1) by (simp add: Tun_ConnMatcher_def)
  next
    case (Inl x)
    then have "fst (Engine_Match P L (IP_String (DstIP conn)) IpRuleTypes e1) = Inr r"
      using a(2) assms(2) by (simp add: held_match)
    then show ?thesis using a(1) Inl
      by (cases "Engine_Match P L (IP_String (DstIP conn)) IpRuleTypes e1") (simp add: Tun_ConnMatcher_def attempt_def engine_match_def)
  qed
qed

end

text \<open> C15. DNS and routing agree: when \<open>Handle\<close> answers a query, on an engine with any history, and the
  rule that \<open>getDnsResolver\<close> chose for the query is \<open>r\<close>, then \<open>r\<close> is what a connection to any address of the answer
  is matched by in tun mode, unless a rule for its process matches, which comes first. An answer of more than 1024 addresses does not fit
  into the cache of the engine.\<close>

theorem resolved_address_follows_rule:
  assumes "sized_rule_cache ok held L del room" and "Engine_New L files name extra = Inr e"
    and "ds_engine s = Some (engine_run P L xs e)"
    and "Handle P L D K msg m s = Some (Inr reply, s')"
    and "getDnsQuestion msg = Inr (question, qType)" and "qType \<notin> {TypeAAAA, TypeSVCB, TypeHTTPS}"
    and "getDnsResolver P L question m (ds_engine s) = Some (Inr r, e1)"
    and "getResponseIp reply = Some ips" and "length ips \<le> 1024" and "ip \<in> set ips" and "ip \<noteq> []"
    and "IP_String (DstIP conn) = IP_String ip"
  shows "\<exists>a eo. attempt P L (ProcessPath conn) ProcessRuleTypes (ds_engine s') = Some (a, eo) \<and>
    map_option fst (Tun_ConnMatcher P L conn (ds_engine s')) = Some (case a of Inr q \<Rightarrow> Inr q | Inl _ \<Rightarrow> Inr r)"
proof -
  have rc: "rule_cache ok held L del" using assms(1) by (simp add: sized_rule_cache_def)
  note new = rule_cache.New_engine_ok [OF rc assms(2)]
  have ok: "ok (eng_cache (engine_run P L xs e))" by (rule rule_cache.engine_run_ok [OF rc new])
  have room: "room (eng_cache (engine_run P L xs e)) = 1024"
    using sized_rule_cache.engine_run_room [OF assms(1) new] sized_rule_cache.New_room [OF assms(1,2)] by simp
  from sized_rule_cache.getDnsResolver_room [OF assms(1) assms(7) [unfolded assms(3)] ok]
  obtain e1' where e1: "e1 = Some e1'" "ok (eng_cache e1')" "room (eng_cache e1') = 1024" using room by auto
  let ?s1 = "s\<lparr>ds_engine := e1\<rparr>"
  have s': "s' = (cache_ips L D question r ips ?s1)
      \<lparr>ds_static := countSuccessQuery (Rule_GetPolicy r) (ds_static (cache_ips L D question r ips ?s1))\<rparr>"
    using assms(4-8) by (auto simp: Handle_def Let_def split: bind_splits sum.splits option.splits)
  let ?c = "add_all L (ip_keys r ips) (eng_cache e1')"
  have e2: "ds_engine s' = Some (e1'\<lparr>eng_cache := ?c\<rparr>)" by (simp add: s' cache_ips_engine e1(1))
  have "held ?c (IP_String ip) = Some r"
    using sized_rule_cache.add_all_held [OF assms(1) e1(2) ip_keys_facts(1) _ ip_keys_facts(3) [OF assms(10,11)]]
      ip_keys_facts(2) [of r ips] assms(9) e1(3) by simp
  then show ?thesis
    using sized_rule_cache.Tun_matches_held [OF assms(1), of "e1'\<lparr>eng_cache := ?c\<rparr>" conn r P]
      sized_rule_cache.add_all_ok [OF assms(1) e1(2), of "ip_keys r ips"] assms(12) by (simp add: e2)
qed

subsection \<open>No panic\<close>






text \<open>A rejected domain is not resolved: on an engine with a history that is consistent with the
  domain, when the query comes without a process path and the first rule that matches the domain has
  the policy REJECT, \<open>Handle\<close> returns an error whatever resolvers are set, and counts nothing.\<close>

theorem rejected_domain_fails:
  assumes "rule_cache ok held L del" and "Engine_New L files name extra = Inr e"
    and "\<forall>x \<in> set xs. consistent_with question DomainRuleTypes x"
    and "ds_engine s = Some (engine_run P L xs e)" and "ProcessPath m = []"
    and "getDnsQuestion msg = Inr (question, qType)" and "qType \<notin> {TypeAAAA, TypeSVCB, TypeHTTPS}"
    and "first_match P DomainRuleTypes question (eng_rules e) = Some r" and "Rule_GetPolicy r = PolicyReject"
  shows "\<exists>s'. Handle P L D K msg m s = Some (Inl ErrResolver, s') \<and> ds_static s' = ds_static s \<and>
    ds_cache s' = ds_cache s"
proof -
  obtain a e' where m: "Engine_Match P L question DomainRuleTypes (engine_run P L xs e) = (a, e')" by (rule prod.exhaust)
  have "a = Inr r" using rule_cache.engine_answers [OF assms(1-3), of P] m assms(8) by simp
  then have "getDnsResolver P L question m (ds_engine s) = Some (Inl ErrRejectDns, Some e')"
    using m assms(4,5,9)
    by (simp add: getDnsResolver_def attempt_def engine_match_def convertRulePolicyToResolver_def)
  then show ?thesis using assms(6,7) by (simp add: Handle_def Let_def)
qed

text \<open>A query that fails with \<open>empty dns msg\<close>, because the resolver returned neither a message nor an
  error, is counted as a success: the error is returned without being assigned to the variable that
  the deferred function reads.\<close>

theorem empty_reply_counted_as_success:
  assumes "getDnsQuestion msg = Inr (question, qType)" and "qType \<notin> {TypeAAAA, TypeSVCB, TypeHTTPS}"
    and "getDnsResolver P L question m (ds_engine s) = Some (Inr r, e1)" and "Rule_Type r \<noteq> RuleDnsMap"
    and "ds_dnsMap s (Rule_GetPolicy r) = Some up" and "up msg = Inr None"
  shows "\<exists>s'. Handle P L D K msg m s = Some (Inl ErrEmptyMsg, s') \<and>
    ds_static s' = countSuccessQuery (Rule_GetPolicy r) (ds_static s)"
proof -
  have "exchange K r msg (s\<lparr>ds_engine := e1\<rparr>) = Some (Inr None)"
    using assms(4-6) by (cases r) (auto simp: exchange_def)
  then show ?thesis using assms(1-3) by (simp add: Handle_def Let_def)
qed

subsection \<open>Witnesses\<close>

definition demo_query :: dns_msg where
  "demo_query = empty_msg\<lparr>msg_Question := [\<lparr>q_Name = ''a.b.'', q_Qtype = TypeA, q_Qclass = ClassINET\<rparr>]\<rparr>"

definition demo_reply :: dns_msg where
  "demo_reply = demo_query\<lparr>msg_Answer := [\<lparr>rr_Name = ''a.b.'', rr_Rrtype = TypeA, rr_Class = ClassINET, rr_Ttl = 60,
     rr_Data = DA [10, 0, 0, 1]\<rparr>]\<rparr>"

definition demo_state :: "upstream \<Rightarrow> ((string, rule) lru_state, (string, string) lru_state) dns_state" where
  "demo_state up = \<lparr>ds_dnsMap = [PolicyDirect \<mapsto> up], ds_engine = Some demo_engine,
     ds_cache = ([], LruCache_New []),
     ds_static = \<lparr>stat_Proxy = \<lparr>st_Success = 0, st_Fail = 0\<rparr>, stat_Direct = \<lparr>st_Success = 0, st_Fail = 0\<rparr>\<rparr>\<rparr>"

lemma demo_query_question: "getDnsQuestion demo_query = Inr (''a.b'', TypeA)"
  by (simp add: getDnsQuestion_def demo_query_def has_suffix_def)

lemma demo_query_type: "TypeA \<notin> {TypeAAAA, TypeSVCB, TypeHTTPS}"
  by (simp add: dns_consts)

lemma demo_engine_run: "engine_run P L [] e = e"
  by (simp add: engine_run_def)

lemma demo_Engine_Match:
  "Engine_Match demo_platform lru_of_clash ''a.b'' DomainRuleTypes demo_engine =
     (Inr demo_rule, demo_engine\<lparr>eng_cache := LruCache_Set 0 ''a.b'' demo_rule (eng_cache demo_engine)\<rparr>)"
  by (simp add: Engine_Match_def lru_of_clash_def demo_engine_def LruCache_Get_def LruCache_get_def LruCache_New_def
      demo_rule_def rule_type_lists rule_types Domain_Match_def isContainsDomain_def)

lemma demo_resolver:
  "\<exists>e1. getDnsResolver demo_platform lru_of_clash ''a.b'' empty_metadata (ds_engine (demo_state up)) =
     Some (Inr demo_rule, Some e1)"
  by (simp add: getDnsResolver_def attempt_def empty_metadata_def engine_match_def demo_state_def demo_Engine_Match
      convertRulePolicyToResolver_def demo_rule_def policies)

lemma demo_reply_ip: "getResponseIp demo_reply = Some [v4in6_prefix @ [10, 0, 0, 1]]"
proof -
  have "ParseIP (IP_String [10, 0, 0, 1]) = v4in6_prefix @ [10, 0, 0, 1]" by code_simp
  then show ?thesis by (simp add: getResponseIp_def demo_reply_def rr_ip_def dns_consts)
qed

lemma demo_state_engine: "ds_engine (demo_state up) = Some (engine_run demo_platform lru_of_clash [] demo_engine)"
  by (simp add: demo_state_def engine_run_def)

theorem resolved_address_follows_rule_witness:
  "\<exists>s'. Handle demo_platform lru_of_clash lru_of_clash demo_miekg demo_query empty_metadata
       (demo_state (\<lambda>_. Inr (Some demo_reply))) = Some (Inr demo_reply, s') \<and>
     (\<exists>a eo. attempt demo_platform lru_of_clash (ProcessPath (empty_metadata\<lparr>DstIP := [10, 0, 0, 1]\<rparr>)) ProcessRuleTypes (ds_engine s') =
         Some (a, eo) \<and>
       map_option fst (Tun_ConnMatcher demo_platform lru_of_clash (empty_metadata\<lparr>DstIP := [10, 0, 0, 1]\<rparr>) (ds_engine s')) =
         Some (case a of Inr q \<Rightarrow> Inr q | Inl _ \<Rightarrow> Inr demo_rule))"
proof -
  let ?up = "\<lambda>_ :: dns_msg. Inr (Some demo_reply) :: string + dns_msg option"
  obtain e1 where e1: "getDnsResolver demo_platform lru_of_clash ''a.b'' empty_metadata (ds_engine (demo_state ?up)) =
     Some (Inr demo_rule, Some e1)" using demo_resolver by blast
  have x: "exchange demo_miekg demo_rule demo_query ((demo_state ?up)\<lparr>ds_engine := Some e1\<rparr>) = Some (Inr (Some demo_reply))"
    by (simp add: exchange_def demo_rule_def demo_state_def policies)
  obtain s' where h: "Handle demo_platform lru_of_clash lru_of_clash demo_miekg demo_query empty_metadata (demo_state ?up) =
      Some (Inr demo_reply, s')"
    using e1 x demo_query_type by (simp add: Handle_def demo_query_question demo_reply_ip Let_def)
  have n: "v4in6_prefix @ [10, 0, 0, 1] \<in> set [v4in6_prefix @ [10, 0, 0, 1 :: u8]]" "v4in6_prefix @ [10, 0, 0, 1] \<noteq> []" by simp_all
  have i: "IP_String (DstIP (empty_metadata\<lparr>DstIP := [10, 0, 0, 1]\<rparr>)) = IP_String (v4in6_prefix @ [10, 0, 0, 1])"
    by (simp add: IP_String_def To4_def v4in6_prefix_def)
  show ?thesis using h resolved_address_follows_rule [OF clash_sized.sized_rule_cache_axioms demo_engine_New
      demo_state_engine h demo_query_question demo_query_type e1 demo_reply_ip _ n i] by fastforce
qed


theorem empty_reply_counted_as_success_witness:
  "\<exists>s'. Handle demo_platform lru_of_clash lru_of_clash demo_miekg demo_query empty_metadata (demo_state (\<lambda>_. Inr None)) =
      Some (Inl ErrEmptyMsg, s') \<and>
    ds_static s' = countSuccessQuery (Rule_GetPolicy demo_rule) (ds_static (demo_state (\<lambda>_. Inr None)))"
proof -
  obtain e1 where e1: "getDnsResolver demo_platform lru_of_clash ''a.b'' empty_metadata (ds_engine (demo_state (\<lambda>_. Inr None))) =
     Some (Inr demo_rule, Some e1)" using demo_resolver by blast
  show ?thesis
    by (rule empty_reply_counted_as_success [OF demo_query_question demo_query_type e1])
       (simp_all add: demo_rule_def rule_types demo_state_def policies)
qed

definition reject_engine :: "(string, rule) lru_state engine" where
  "reject_engine = \<lparr>eng_rules = [RDomain \<lparr>dr_RuleType = ''DOMAIN'', dr_Payload = ''a.b'', dr_Policy = ''REJECT''\<rparr>],
     eng_cache = ([], LruCache_New [WithSize 1024])\<rparr>"

lemma reject_engine_New:
  "Engine_New lru_of_clash (\<lambda>_. Some []) ''demo'' [''DOMAIN,a.b,REJECT''] = Inr reject_engine"
proof -
  have "ParseRawValue ''DOMAIN,a.b,REJECT'' =
      Inr (RDomain \<lparr>dr_RuleType = ''DOMAIN'', dr_Payload = ''a.b'', dr_Policy = ''REJECT''\<rparr>)"
    by (simp add: ParseRawValue_def trimArr_def trim_space_def is_space_def ParseItem_def policies rule_types
        NewDomainRule_def Domain_Valid_def wrap_def)
  then show ?thesis
    by (simp add: Engine_New_def Parse_def readFile_def ParseFile_empty lru_of_clash_def reject_engine_def)
qed

theorem rejected_domain_fails_witness:
  "\<exists>s'. Handle demo_platform lru_of_clash lru_of_clash demo_miekg demo_query empty_metadata
      ((demo_state (\<lambda>_. Inr None))\<lparr>ds_engine := Some reject_engine\<rparr>) = Some (Inl ErrResolver, s') \<and>
    ds_static s' = ds_static ((demo_state (\<lambda>_. Inr None))\<lparr>ds_engine := Some reject_engine\<rparr>) \<and>
    ds_cache s' = ds_cache ((demo_state (\<lambda>_. Inr None))\<lparr>ds_engine := Some reject_engine\<rparr>)"
proof -
  have f: "first_match demo_platform DomainRuleTypes ''a.b'' (eng_rules reject_engine) =
      Some (RDomain \<lparr>dr_RuleType = ''DOMAIN'', dr_Payload = ''a.b'', dr_Policy = ''REJECT''\<rparr>)"
    by (simp add: first_match_def reject_engine_def rule_type_lists rule_types Domain_Match_def isContainsDomain_def)
  show ?thesis
    by (rule rejected_domain_fails [OF clash_rules.rule_cache_axioms reject_engine_New _ _ _
          demo_query_question demo_query_type f, where xs = "[]"])
       (simp_all add: engine_run_def empty_metadata_def policies)
qed

end
