(* ===== verification/ClashDns.thy ===== *)
theory ClashDns
  imports DnsMsg LruRuns FakeIpRuns HostPort
begin

text \<open>
  The caching resolver of \<open>src/pkg/clash/dns/\<close>: \<open>resolver.go\<close>, \<open>util.go\<close>, \<open>fake_ip.go\<close>, \<open>system.go\<close>,
  \<open>enhancer.go\<close> and the name server parser of \<open>src/pkg/clash/config/config.go\<close> and
  \<open>src/internal/resolver/resolver.go\<close>.

  Parameters: the network (\<open>wire\<close>: what a client answers to a query), the order in which the
  concurrent requests of a batch finish (\<open>order\<close>), \<open>url.Parse\<close>, and the functions \<open>MinBy\<close> and \<open>Clamp\<close> of
  \<open>samber/lo\<close>. Time is in nanoseconds, the cache reads its seconds. The calls of one resolver are taken one after
  the other, so that \<open>singleflight\<close> runs each function it is given.
\<close>

subsection \<open>Third-party helpers\<close>

record lo_api =
  lo_MinBy :: "(dns_rr \<Rightarrow> dns_rr \<Rightarrow> bool) \<Rightarrow> dns_rr list \<Rightarrow> dns_rr option"
  lo_Clamp :: "u32 \<Rightarrow> u32 \<Rightarrow> u32 \<Rightarrow> u32"

text \<open>Documented behaviour: a minimum of a non-empty list (nil for the empty one), and clamping to a range.\<close>

definition lo_ok :: "lo_api \<Rightarrow> bool" where
  "lo_ok A \<longleftrightarrow> (\<forall>lt. lo_MinBy A lt [] = None) \<and>
     (\<forall>xs. xs \<noteq> [] \<longrightarrow> (\<exists>x \<in> set xs. lo_MinBy A (\<lambda>a b. rr_Ttl a < rr_Ttl b) xs = Some x \<and>
        (\<forall>y \<in> set xs. rr_Ttl x \<le> rr_Ttl y))) \<and>
     (\<forall>v lo hi. lo \<le> hi \<longrightarrow> lo_Clamp A v lo hi = max lo (min v hi))"

text \<open>An instance for the witnesses.\<close>

definition demo_lo :: lo_api where
  "demo_lo = \<lparr>lo_MinBy = (\<lambda>lt xs. case xs of [] \<Rightarrow> None | x # ys \<Rightarrow> Some (fold (\<lambda>y m. if lt y m then y else m) ys x)),
     lo_Clamp = (\<lambda>v lo hi. max lo (min v hi))\<rparr>"

lemma fold_min:
  "fold (\<lambda>y m. if rr_Ttl y < rr_Ttl m then y else m) ys x \<in> set (x # ys) \<and>
   (\<forall>y \<in> set (x # ys). rr_Ttl (fold (\<lambda>y m. if rr_Ttl y < rr_Ttl m then y else m) ys x) \<le> rr_Ttl y)"
proof (induction ys arbitrary: x)
  case (Cons y ys)
  show ?case using Cons [of "if rr_Ttl y < rr_Ttl x then y else x"] by (auto split: if_splits)
qed simp

lemma demo_lo_ok: "lo_ok demo_lo"
proof -
  have "\<exists>x \<in> set xs. lo_MinBy demo_lo (\<lambda>a b. rr_Ttl a < rr_Ttl b) xs = Some x \<and> (\<forall>y \<in> set xs. rr_Ttl x \<le> rr_Ttl y)"
    if "xs \<noteq> []" for xs
  proof (cases xs)
    case (Cons x ys)
    show ?thesis unfolding Cons by (rule bexI [OF _ fold_min [of ys x, THEN conjunct1]])
        (use fold_min [of ys x, THEN conjunct2] in \<open>simp add: demo_lo_def\<close>)
  qed (use that in simp)
  then show ?thesis by (simp add: lo_ok_def demo_lo_def)
qed

subsection \<open>Messages and their times to live (util.go)\<close>

definition serverFailureCacheTTL :: u32 where "serverFailureCacheTTL = 5"
definition clash_dnsDefaultTTL :: u32 where "clash_dnsDefaultTTL = 600"

definition copyMsgFromCache :: "miekg \<Rightarrow> dns_msg \<Rightarrow> dns_msg \<Rightarrow> dns_msg" where
  "copyMsgFromCache K r m =
     (SetRcode K (r\<lparr>msg_Answer := msg_Answer m\<rparr>) r RcodeSuccess)\<lparr>msg_Authoritative := True, msg_RecursionAvailable := True\<rparr>"

definition minimalTTL :: "lo_api \<Rightarrow> dns_rr list \<Rightarrow> u32" where
  "minimalTTL A records =
     (case lo_MinBy A (\<lambda>r1 r2. rr_Ttl r1 < rr_Ttl r2) records of None \<Rightarrow> 0 | Some rr \<Rightarrow> rr_Ttl rr)"

definition updateTTL :: "lo_api \<Rightarrow> u32 \<Rightarrow> dns_rr list \<Rightarrow> dns_rr list" where
  "updateTTL A ttl records =
     (if records = [] then []
      else let delta = minimalTTL A records - ttl
        in map (\<lambda>rr. rr\<lparr>rr_Ttl := lo_Clamp A (rr_Ttl rr - delta) 1 (rr_Ttl rr)\<rparr>) records)"

definition setMsgTTL :: "u32 \<Rightarrow> dns_msg \<Rightarrow> dns_msg" where
  "setMsgTTL ttl msg =
     msg\<lparr>msg_Answer := map (\<lambda>a. a\<lparr>rr_Ttl := ttl\<rparr>) (msg_Answer msg),
         msg_Ns := map (\<lambda>a. a\<lparr>rr_Ttl := ttl\<rparr>) (msg_Ns msg),
         msg_Extra := map (\<lambda>a. a\<lparr>rr_Ttl := ttl\<rparr>) (msg_Extra msg)\<rparr>"

definition updateMsgTTL :: "lo_api \<Rightarrow> u32 \<Rightarrow> dns_msg \<Rightarrow> dns_msg" where
  "updateMsgTTL A ttl msg =
     msg\<lparr>msg_Answer := updateTTL A ttl (msg_Answer msg), msg_Ns := updateTTL A ttl (msg_Ns msg),
         msg_Extra := updateTTL A ttl (msg_Extra msg)\<rparr>"

definition isIPRequest :: "dns_question \<Rightarrow> bool" where
  "isIPRequest q = (q_Qclass q = ClassINET \<and> (q_Qtype q = TypeA \<or> q_Qtype q = TypeAAAA))"

definition msgToIP :: "dns_msg \<Rightarrow> go_ip list" where
  "msgToIP msg =
     List.map_filter (\<lambda>a. case rr_Data a of DAAAA ip \<Rightarrow> Some ip | DA ip \<Rightarrow> Some ip | DOther _ \<Rightarrow> None) (msg_Answer msg)"

type_synonym msg_cache = "(string, dns_msg) lru_state"

definition unix :: "int \<Rightarrow> int" where "unix t = t div 10 ^ 9"

definition putMsgToCache :: "lo_api \<Rightarrow> int \<Rightarrow> string \<Rightarrow> dns_question \<Rightarrow> dns_msg \<Rightarrow> msg_cache \<Rightarrow> msg_cache" where
  "putMsgToCache A t key q msg c =
     (if q_Qtype q = TypeTXT \<and> has_prefix (q_Name q) ''_acme-challenge.'' then c
      else
        let ttl = (if msg_Rcode msg = RcodeServerFailure then serverFailureCacheTTL
                   else minimalTTL A (msg_Answer msg @ msg_Ns msg @ msg_Extra msg))
        in if ttl = 0 then c
           else LruCache_SetWithExpire (unix t) key msg (unix (t + int (unat ttl) * 10 ^ 9)) c)"

subsection \<open>Clients\<close>

text \<open>
  The clients that \<open>transform\<close> makes: plain (UDP, TCP or TLS), DNS over HTTPS, the servers of the
  system, and the fake-ip pool.
\<close>

record name_server =
  ns_Net :: string
  ns_Addr :: string
  ns_Interface :: string

datatype dns_client =
    PlainClient (pc_Net: string) (pc_host: string) (pc_port: string) (pc_iface: string)
  | DoHClient string
  | SystemClient string
  | FakeIpClient

definition transform :: "name_server list \<Rightarrow> dns_client list" where
  "transform servers =
     map (\<lambda>s.
        if ns_Net s = ''https'' then DoHClient (ns_Addr s)
        else if ns_Net s = ''system'' then SystemClient (ns_Interface s)
        else if ns_Net s = ''fake-ip'' then FakeIpClient
        else (case (case SplitHostPort (ns_Addr s) of None \<Rightarrow> ([], []) | Some hp \<Rightarrow> hp) of
                (host, port) \<Rightarrow> PlainClient (ns_Net s) host port (ns_Interface s))) servers"

datatype clash_dns_error =
    DnsNoQuestion | DnsAllFailed "string option" | DnsIPVersion | DnsIPNotFound | DnsServerFailure | DnsSystem string

type_synonym wire = "dns_client \<Rightarrow> dns_msg \<Rightarrow> string + dns_msg"

text \<open>
  \<open>batchExchange\<close>: all clients are asked at once; the picker keeps the first success in the order in
  which the answers come in, and otherwise the first error.
\<close>

definition client_result :: "wire \<Rightarrow> dns_msg \<Rightarrow> dns_client \<Rightarrow> string + dns_msg" where
  "client_result wire m c =
     (case wire c m of
        Inl e \<Rightarrow> Inl e
      | Inr r \<Rightarrow>
          if msg_Rcode r = RcodeServerFailure \<or> msg_Rcode r = RcodeRefused then Inl ''server failure'' else Inr r)"

fun first_success :: "('e + 'a) list \<Rightarrow> 'a option" where
  "first_success [] = None"
| "first_success (Inr a # rs) = Some a"
| "first_success (Inl e # rs) = first_success rs"

fun first_error :: "('e + 'a) list \<Rightarrow> 'e option" where
  "first_error [] = None"
| "first_error (Inl e # rs) = Some e"
| "first_error (Inr a # rs) = first_error rs"

type_synonym order = "dns_client list \<Rightarrow> dns_client list"

definition batchExchange :: "wire \<Rightarrow> order \<Rightarrow> dns_client list \<Rightarrow> dns_msg \<Rightarrow> clash_dns_error + dns_msg" where
  "batchExchange wire order clients m =
     (let rs = map (client_result wire m) (order clients)
      in case first_success rs of Some r \<Rightarrow> Inr r | None \<Rightarrow> Inl (DnsAllFailed (first_error rs)))"

subsection \<open>The resolver (resolver.go)\<close>

record resolver =
  rs_ipv6 :: bool
  rs_hosts :: "go_ip domain_trie option"
  rs_main :: "dns_client list"
  rs_fallback :: "dns_client list option"
  rs_lruCache :: msg_cache
  rs_policy :: "dns_client list domain_trie option"
  rs_searchDomains :: "string list"
  rs_disableCache :: bool
  rs_refresh :: "dns_msg list"

record resolver_config =
  rc_Main :: "name_server list"
  rc_Fallback :: "name_server list"
  rc_IPv6 :: bool
  rc_Hosts :: "go_ip domain_trie option"
  rc_Policy :: "(string \<times> name_server) list"
  rc_SearchDomains :: "string list"
  rc_DisableCache :: bool

text \<open>The errors of the inserts into the policy trie are dropped, as in the code.\<close>

definition policy_insert :: "string \<times> name_server \<Rightarrow> dns_client list domain_trie \<Rightarrow> dns_client list domain_trie" where
  "policy_insert p t =
     (case Trie_Insert (fst p) (Some (transform [snd p])) t of Inl _ \<Rightarrow> t | Inr t' \<Rightarrow> t')"

definition NewResolver :: "resolver_config \<Rightarrow> resolver" where
  "NewResolver cfg =
     \<lparr>rs_ipv6 = rc_IPv6 cfg, rs_hosts = rc_Hosts cfg, rs_main = transform (rc_Main cfg),
      rs_fallback = (if rc_Fallback cfg \<noteq> [] then Some (transform (rc_Fallback cfg)) else None),
      rs_lruCache = ([], LruCache_New [WithSize 4096, WithStale True]),
      rs_policy = (if rc_Policy cfg \<noteq> [] then Some (fold policy_insert (rc_Policy cfg) Trie_New) else None),
      rs_searchDomains = rc_SearchDomains cfg, rs_disableCache = rc_DisableCache cfg, rs_refresh = []\<rparr>"

definition trim_right_dots :: "string \<Rightarrow> string" where
  "trim_right_dots s = rev (dropWhile (\<lambda>c. c = CHR ''.'') (rev s))"

definition msgToDomain :: "dns_msg \<Rightarrow> string" where
  "msgToDomain msg = (case msg_Question msg of [] \<Rightarrow> [] | q # _ \<Rightarrow> trim_right_dots (q_Name q))"

definition matchPolicy :: "resolver \<Rightarrow> dns_msg \<Rightarrow> dns_client list" where
  "matchPolicy r m =
     (case rs_policy r of
        None \<Rightarrow> []
      | Some t \<Rightarrow>
          let domain = msgToDomain m in
          if domain = [] then []
          else (case Trie_Search domain t of
                  None \<Rightarrow> []
                | Some n \<Rightarrow> (case node_Data n of None \<Rightarrow> [] | Some cs \<Rightarrow> cs)))"

definition ipExchange :: "wire \<Rightarrow> order \<Rightarrow> resolver \<Rightarrow> dns_msg \<Rightarrow> clash_dns_error + dns_msg" where
  "ipExchange wire order r m =
     (let matched = matchPolicy r m in
      if matched \<noteq> [] then batchExchange wire order matched m
      else
        let res = batchExchange wire order (rs_main r) m in
        (case rs_fallback r of
           None \<Rightarrow> res
         | Some fb \<Rightarrow>
             (case res of
                Inr msg \<Rightarrow> if msgToIP msg \<noteq> [] then Inr msg else batchExchange wire order fb m
              | Inl _ \<Rightarrow> batchExchange wire order fb m)))"

definition resolver_exchange :: "wire \<Rightarrow> order \<Rightarrow> resolver \<Rightarrow> dns_msg \<Rightarrow> clash_dns_error + dns_msg" where
  "resolver_exchange wire order r m =
     (if isIPRequest (hd (msg_Question m)) then ipExchange wire order r m
      else
        let matched = matchPolicy r m in
        if matched \<noteq> [] then batchExchange wire order matched m else batchExchange wire order (rs_main r) m)"

definition exchangeWithoutCache ::
  "lo_api \<Rightarrow> miekg \<Rightarrow> wire \<Rightarrow> order \<Rightarrow> int \<Rightarrow> dns_msg \<Rightarrow> resolver \<Rightarrow> (clash_dns_error + dns_msg) \<times> resolver" where
  "exchangeWithoutCache A K wire order t m r =
     (if rs_disableCache r then (resolver_exchange wire order r m, r)
      else
        let q = hd (msg_Question m) in
        (case resolver_exchange wire order r m of
           Inl e \<Rightarrow> (Inl e, r)
         | Inr msg \<Rightarrow>
             let msg' = msg\<lparr>msg_Extra := filter (\<lambda>rr. rr_Rrtype rr \<noteq> TypeOPT) (msg_Extra msg)\<rparr>
             in (Inr msg', r\<lparr>rs_lruCache := putMsgToCache A t (Question_String K q) q msg' (rs_lruCache r)\<rparr>)))"

text \<open>
  \<open>ExchangeContext\<close>: a stale entry is answered with a time to live of 1 while a goroutine, logged in
  \<open>rs_refresh\<close>, asks again.
\<close>

definition ExchangeContext ::
  "lo_api \<Rightarrow> miekg \<Rightarrow> wire \<Rightarrow> order \<Rightarrow> int \<Rightarrow> dns_msg \<Rightarrow> resolver \<Rightarrow> (clash_dns_error + dns_msg) \<times> resolver" where
  "ExchangeContext A K wire order t m r =
     (if msg_Question m = [] then (Inl DnsNoQuestion, r)
      else
        let q = hd (msg_Question m) in
        (case LruCache_GetWithExpire (unix t) (Question_String K q) (rs_lruCache r) of
           (Some (cachedMsg, expire), c) \<Rightarrow>
             let msg = copyMsgFromCache K m cachedMsg; r' = r\<lparr>rs_lruCache := c\<rparr> in
             if expire * 10 ^ 9 < t
             then (Inr (setMsgTTL 1 msg), r'\<lparr>rs_refresh := rs_refresh r' @ [m]\<rparr>)
             else (Inr (updateMsgTTL A (of_int ((expire * 10 ^ 9 - t) div 10 ^ 9)) msg), r')
         | (None, c) \<Rightarrow> exchangeWithoutCache A K wire order t m (r\<lparr>rs_lruCache := c\<rparr>)))"

text \<open>The goroutine of a stale answer.\<close>

definition run_refresh ::
  "lo_api \<Rightarrow> miekg \<Rightarrow> wire \<Rightarrow> order \<Rightarrow> int \<Rightarrow> resolver \<Rightarrow> resolver" where
  "run_refresh A K wire order t r =
     (case rs_refresh r of
        [] \<Rightarrow> r
      | m # ms \<Rightarrow> snd (exchangeWithoutCache A K wire order t m (r\<lparr>rs_refresh := ms\<rparr>)))"

text \<open>The loop over the search domains.\<close>

fun search_loop ::
  "lo_api \<Rightarrow> miekg \<Rightarrow> wire \<Rightarrow> order \<Rightarrow> int \<Rightarrow> string \<Rightarrow> u16 \<Rightarrow> string list \<Rightarrow> resolver \<Rightarrow>
   (clash_dns_error + go_ip list) \<times> resolver" where
  "search_loop A K wire order t host dnsType [] r = (Inl DnsIPNotFound, r)"
| "search_loop A K wire order t host dnsType (d # ds) r =
     (case ExchangeContext A K wire order t (SetQuestion K empty_msg (Fqdn K (host @ ''.'' @ d)) dnsType) r of
        (Inl e, r1) \<Rightarrow> (Inl e, r1)
      | (Inr msg, r1) \<Rightarrow>
          if msgToIP msg \<noteq> [] then (Inr (msgToIP msg), r1)
          else search_loop A K wire order t host dnsType ds r1)"

definition lookupIP ::
  "lo_api \<Rightarrow> miekg \<Rightarrow> wire \<Rightarrow> order \<Rightarrow> int \<Rightarrow> string \<Rightarrow> u16 \<Rightarrow> resolver \<Rightarrow>
   (clash_dns_error + go_ip list) \<times> resolver" where
  "lookupIP A K wire order t host dnsType r =
     (let ip = ParseIP host in
      if ip \<noteq> [] then
        (let ip4 = To4 ip; isIPv4 = (ip4 \<noteq> []) in
         if dnsType = TypeAAAA \<and> \<not> isIPv4 then (Inr [ip], r)
         else if dnsType = TypeA \<and> isIPv4 then (Inr [ip4], r)
         else (Inl DnsIPVersion, r))
      else
        (case ExchangeContext A K wire order t (SetQuestion K empty_msg (Fqdn K host) dnsType) r of
           (Inl e, r1) \<Rightarrow> (Inl e, r1)
         | (Inr msg, r1) \<Rightarrow>
             if msgToIP msg \<noteq> [] then (Inr (msgToIP msg), r1)
             else search_loop A K wire order t host dnsType (rs_searchDomains r1) r1))"

definition LookupIPv4 where
  "LookupIPv4 A K wire order t host r = lookupIP A K wire order t host TypeA r"

definition LookupIPv6 where
  "LookupIPv6 A K wire order t host r = lookupIP A K wire order t host TypeAAAA r"

text \<open>
  \<open>LookupIP\<close> asks for AAAA in a goroutine while it asks for A, and prefers A; the model runs the
  goroutine first.
\<close>

definition LookupIP ::
  "lo_api \<Rightarrow> miekg \<Rightarrow> wire \<Rightarrow> order \<Rightarrow> int \<Rightarrow> string \<Rightarrow> resolver \<Rightarrow> (clash_dns_error + go_ip list) \<times> resolver" where
  "LookupIP A K wire order t host r =
     (case lookupIP A K wire order t host TypeAAAA r of
        (r6, s6) \<Rightarrow>
          (case lookupIP A K wire order t host TypeA s6 of
             (Inr ips, s4) \<Rightarrow> (Inr ips, s4)
           | (Inl _, s4) \<Rightarrow> (case r6 of Inr ips \<Rightarrow> (Inr ips, s4) | Inl _ \<Rightarrow> (Inl DnsIPNotFound, s4))))"

text \<open>\<open>ResolveIP\<close> and its variants pick one address at random: \<open>pick\<close> is \<open>rand.Intn\<close>.\<close>

definition pick_ip :: "(nat \<Rightarrow> nat) \<Rightarrow> clash_dns_error + go_ip list \<Rightarrow> clash_dns_error + go_ip" where
  "pick_ip pick res =
     (case res of
        Inl e \<Rightarrow> Inl e
      | Inr ips \<Rightarrow> if length ips = 0 then Inl DnsIPNotFound else Inr (ips ! pick (length ips)))"

definition ResolveIP where
  "ResolveIP A K wire order pick t host r = map_prod (pick_ip pick) id (LookupIP A K wire order t host r)"

definition ResolveIPv4 where
  "ResolveIPv4 A K wire order pick t host r = map_prod (pick_ip pick) id (lookupIP A K wire order t host TypeA r)"

definition ResolveIPv6 where
  "ResolveIPv6 A K wire order pick t host r = map_prod (pick_ip pick) id (lookupIP A K wire order t host TypeAAAA r)"

subsection \<open>The fake-ip client (fake_ip.go)\<close>

text \<open>\<open>None\<close> is a panic of the pool or of \<open>m.Question[0]\<close>.\<close>

definition FakeIp_ExchangeContext :: "miekg \<Rightarrow> dns_msg \<Rightarrow> fpool \<Rightarrow> (dns_msg \<times> fpool) option" where
  "FakeIp_ExchangeContext K m p =
     (case msg_Question m of
        [] \<Rightarrow> None
      | q # _ \<Rightarrow>
          if q_Qtype q \<in> {TypeAAAA, TypeSVCB, TypeHTTPS} then Some (handleMsgWithEmptyAnswer K m, p)
          else do {
            (ip, p') \<leftarrow> Pool_Lookup (trim_right_dots (q_Name q)) p;
            let rr = \<lparr>rr_Name = q_Name q, rr_Rrtype = TypeA, rr_Class = ClassINET,
                      rr_Ttl = clash_dnsDefaultTTL, rr_Data = DA ip\<rparr>;
                msg = setMsgTTL 1 (m\<lparr>msg_Answer := [rr]\<rparr>) in
            Some ((SetRcode K msg m RcodeSuccess)\<lparr>msg_Authoritative := True, msg_RecursionAvailable := True\<rparr>, p')
          })"

subsection \<open>The system client (system.go)\<close>

text \<open>
  \<open>update\<close> reads the servers of the operating system (\<open>sys\<close>). \<open>ExchangeContext\<close> reads the field
  \<open>clients\<close> once, before it updates it.
\<close>

record system_client =
  sc_ifaceName :: string
  sc_clients :: "dns_client list"

definition is_v4 :: "string \<Rightarrow> bool" where
  "is_v4 s = (case ParseAddr s of Some (Addr4 _) \<Rightarrow> True | _ \<Rightarrow> False)"

definition system_update :: "(string \<Rightarrow> string + string list) \<Rightarrow> system_client \<Rightarrow> (string + unit) \<times> system_client" where
  "system_update sys s =
     (case sys (sc_ifaceName s) of
        Inl e \<Rightarrow> (Inl e, s)
      | Inr servers \<Rightarrow>
          (Inr (), s\<lparr>sc_clients := transform
             (map (\<lambda>a. \<lparr>ns_Net = [], ns_Addr = JoinHostPort a ''53'', ns_Interface = sc_ifaceName s\<rparr>)
               (filter is_v4 servers))\<rparr>))"

definition System_ExchangeContext ::
  "(string \<Rightarrow> string + string list) \<Rightarrow> wire \<Rightarrow> order \<Rightarrow> dns_msg \<Rightarrow> system_client \<Rightarrow>
   (clash_dns_error + dns_msg) \<times> system_client" where
  "System_ExchangeContext sys wire order m s =
     (let clients = sc_clients s;
          us = (if length clients = 0 then system_update sys s else (Inr (), s)) in
      (case us of
         (Inl e, s1) \<Rightarrow> (Inl (DnsSystem e), s1)
       | (Inr _, s1) \<Rightarrow>
           (case batchExchange wire order clients m of
              Inr r \<Rightarrow> (Inr r, s1)
            | Inl e \<Rightarrow> (Inl e, snd (system_update sys s1)))))"

definition newSystemClient :: "(string \<Rightarrow> string + string list) \<Rightarrow> string \<Rightarrow> system_client" where
  "newSystemClient sys iface = snd (system_update sys \<lparr>sc_ifaceName = iface, sc_clients = []\<rparr>)"

subsection \<open>Name servers (config.go, internal/resolver)\<close>

text \<open>What \<open>url.Parse\<close> gives of a URL, and the text of the URL with scheme, user, host and path only.\<close>

record url =
  u_Scheme :: string
  u_Host :: string
  u_Fragment :: string
  u_clear :: string

datatype ns_error = NsFormat nat | NsScheme nat

definition hostWithDefaultPort :: "string \<Rightarrow> string \<Rightarrow> string option" where
  "hostWithDefaultPort host0 defPort =
     (let host = (if \<not> contains_str host0 '':'' then host0 @ '':'' else host0) in
      case SplitHostPort host of
        None \<Rightarrow> None
      | Some (hostname, port) \<Rightarrow> Some (JoinHostPort hostname (if port = [] then defPort else port)))"

definition parse_server :: "(string \<Rightarrow> url option) \<Rightarrow> nat \<Rightarrow> string \<Rightarrow> ns_error + name_server" where
  "parse_server url_Parse idx server0 =
     (let server = (if \<not> contains_str server0 ''://'' then ''udp://'' @ server0 else server0) in
      case url_Parse server of
        None \<Rightarrow> Inl (NsFormat idx)
      | Some u \<Rightarrow>
          let mk = (\<lambda>net addr. case addr of None \<Rightarrow> Inl (NsFormat idx)
                      | Some a \<Rightarrow> Inr \<lparr>ns_Net = net, ns_Addr = a, ns_Interface = u_Fragment u\<rparr>) in
          if u_Scheme u = ''udp'' then mk [] (hostWithDefaultPort (u_Host u) ''53'')
          else if u_Scheme u = ''tcp'' then mk ''tcp'' (hostWithDefaultPort (u_Host u) ''53'')
          else if u_Scheme u = ''tls'' then mk ''tcp-tls'' (hostWithDefaultPort (u_Host u) ''853'')
          else if u_Scheme u = ''https'' then mk ''https'' (Some (u_clear u))
          else if u_Scheme u = ''dhcp'' then mk ''dhcp'' (Some (u_Host u))
          else if u_Scheme u = ''system'' then mk ''system'' (Some (u_Host u))
          else if u_Scheme u = ''fake-ip'' then mk ''fake-ip'' (Some (u_Host u))
          else Inl (NsScheme idx))"

fun ParseNameServer_from :: "(string \<Rightarrow> url option) \<Rightarrow> nat \<Rightarrow> string list \<Rightarrow> ns_error + name_server list" where
  "ParseNameServer_from url_Parse idx [] = Inr []"
| "ParseNameServer_from url_Parse idx (s # ss) =
     (case parse_server url_Parse idx s of
        Inl e \<Rightarrow> Inl e
      | Inr n \<Rightarrow> (case ParseNameServer_from url_Parse (Suc idx) ss of Inl e \<Rightarrow> Inl e | Inr ns \<Rightarrow> Inr (n # ns)))"

definition ParseNameServer :: "(string \<Rightarrow> url option) \<Rightarrow> string list \<Rightarrow> ns_error + name_server list" where
  "ParseNameServer url_Parse servers = ParseNameServer_from url_Parse 0 servers"

text \<open>\<open>parse\<close> of the program's own resolver package: system and DHCP servers are read from the default interface.\<close>

definition resolver_parse :: "(string \<Rightarrow> url option) \<Rightarrow> string list \<Rightarrow> string \<Rightarrow> ns_error + name_server list" where
  "resolver_parse url_Parse servers defaultInterfaceName =
     (case ParseNameServer url_Parse servers of
        Inl e \<Rightarrow> Inl e
      | Inr ns \<Rightarrow> Inr (map (\<lambda>n. if ns_Net n = ''system'' \<or> ns_Net n = ''dhcp''
            then \<lparr>ns_Net = ''system'', ns_Addr = defaultInterfaceName, ns_Interface = defaultInterfaceName\<rparr>
            else n) ns))"

definition Resolver_New :: "(string \<Rightarrow> url option) \<Rightarrow> string list \<Rightarrow> string \<Rightarrow> bool \<Rightarrow> ns_error + resolver" where
  "Resolver_New url_Parse mainServer defaultInterfaceName disableCache =
     (case resolver_parse url_Parse mainServer defaultInterfaceName of
        Inl e \<Rightarrow> Inl e
      | Inr ns \<Rightarrow> Inr (NewResolver \<lparr>rc_Main = ns, rc_Fallback = [], rc_IPv6 = False, rc_Hosts = None, rc_Policy = [],
          rc_SearchDomains = [], rc_DisableCache = disableCache\<rparr>))"

end
