(* ===== verification/ClashDnsProps.thy ===== *)
theory ClashDnsProps
  imports ClashDns
begin

text \<open>
  What the caching resolver promises: how the times to live of a cached answer go down, that a cached
  answer is given again without asking the network, when the fallback servers decide, what the fake-ip
  client answers, and how the system client behaves before it has servers.
\<close>

subsection \<open>Times to live\<close>

lemma minimalTTL_least:
  assumes "lo_ok A" and "rs \<noteq> []"
  shows "minimalTTL A rs \<in> rr_Ttl ` set rs" and "\<And>r. r \<in> set rs \<Longrightarrow> minimalTTL A rs \<le> rr_Ttl r"
proof -
  from assms obtain x where x: "x \<in> set rs" "lo_MinBy A (\<lambda>a b. rr_Ttl a < rr_Ttl b) rs = Some x"
    "\<forall>y \<in> set rs. rr_Ttl x \<le> rr_Ttl y" unfolding lo_ok_def by blast
  then have "minimalTTL A rs = rr_Ttl x" by (simp add: minimalTTL_def)
  then show "minimalTTL A rs \<in> rr_Ttl ` set rs" "\<And>r. r \<in> set rs \<Longrightarrow> minimalTTL A rs \<le> rr_Ttl r" using x by auto
qed

lemma ttl_sub:
  fixes v mn ttl :: u32
  assumes "ttl \<le> mn" and "mn \<le> v"
  shows "v - (mn - ttl) \<le> v" and "ttl \<le> v - (mn - ttl)" and "v = mn \<Longrightarrow> v - (mn - ttl) = ttl"
proof -
  have a: "unat ttl \<le> unat mn" "unat mn \<le> unat v" using assms by (simp_all add: word_le_nat_alt)
  have d: "unat (mn - ttl) = unat mn - unat ttl" using assms(1) by (simp add: unat_sub)
  have "mn - ttl \<le> v" using a d by (simp add: word_le_nat_alt)
  then have e: "unat (v - (mn - ttl)) = unat v - (unat mn - unat ttl)" using d by (simp add: unat_sub)
  show "v - (mn - ttl) \<le> v" and "ttl \<le> v - (mn - ttl)" using a e by (simp_all add: word_le_nat_alt)
  show "v - (mn - ttl) = ttl" if "v = mn" using that by simp
qed

text \<open>Ageing of a cached section: when the section is not empty, its least time to live is at least 1, and the
  remaining seconds do not exceed it, updating never raises a time to live, keeps
  everything else of each record, and makes the least one the remaining seconds (at least 1).\<close>

theorem updateTTL_ages:
  assumes "lo_ok A" and "records \<noteq> []" and "1 \<le> minimalTTL A records" and "ttl \<le> minimalTTL A records"
  shows "length (updateTTL A ttl records) = length records \<and>
    (\<forall>i < length records. rr_Ttl (updateTTL A ttl records ! i) \<le> rr_Ttl (records ! i) \<and>
       updateTTL A ttl records ! i = (records ! i)\<lparr>rr_Ttl := rr_Ttl (updateTTL A ttl records ! i)\<rparr>) \<and>
    minimalTTL A (updateTTL A ttl records) = max 1 ttl"
proof -
  let ?m = "minimalTTL A records"
  let ?f = "\<lambda>v. max 1 (v - (?m - ttl))"
  note ml = minimalTTL_least [OF assms(1,2)]
  have f: "lo_Clamp A (rr_Ttl r - (?m - ttl)) 1 (rr_Ttl r) = ?f (rr_Ttl r)" if "r \<in> set records" for r
  proof -
    have "1 \<le> rr_Ttl r" using ml(2) [OF that] assms(3) by simp
    moreover have "rr_Ttl r - (?m - ttl) \<le> rr_Ttl r" by (rule ttl_sub(1) [OF assms(4) ml(2) [OF that]])
    ultimately show ?thesis using assms(1) by (simp add: lo_ok_def min_def)
  qed
  have u: "updateTTL A ttl records = map (\<lambda>r. r\<lparr>rr_Ttl := ?f (rr_Ttl r)\<rparr>) records"
    using assms(2) f by (simp add: updateTTL_def Let_def cong: map_cong)
  have le: "?f (rr_Ttl r) \<le> rr_Ttl r" if "r \<in> set records" for r
    using ttl_sub(1) [OF assms(4) ml(2) [OF that]] ml(2) [OF that] assms(3) by simp
  let ?us = "updateTTL A ttl records"
  have ne: "?us \<noteq> []" using assms(2) u by simp
  note mu = minimalTTL_least [OF assms(1) ne]
  obtain r0 where r0: "r0 \<in> set records" "rr_Ttl r0 = ?m" using ml(1) by auto
  have "?f ?m \<in> rr_Ttl ` set ?us" unfolding u using r0 by force
  then have "minimalTTL A ?us \<le> max 1 ttl" using mu(2) by (auto simp: ttl_sub(3))
  moreover have "max 1 ttl \<le> minimalTTL A ?us"
  proof -
    obtain r where r: "r \<in> set records" "minimalTTL A ?us = ?f (rr_Ttl r)"
      using mu(1) unfolding u by auto
    have "ttl \<le> rr_Ttl r - (?m - ttl)" by (rule ttl_sub(2) [OF assms(4) ml(2) [OF r(1)]])
    then show ?thesis unfolding r(2) by (intro max.mono) simp_all
  qed
  ultimately have least: "minimalTTL A ?us = max 1 ttl" by (rule order_antisym)
  have nth: "?us ! i = (records ! i)\<lparr>rr_Ttl := ?f (rr_Ttl (records ! i))\<rparr>" if "i < length records" for i
    using that by (simp add: u)
  have "length ?us = length records" by (simp add: u)
  then show ?thesis using least by (simp add: nth le del: max.bounded_iff)
qed

theorem updateTTL_ages_witness:
  "minimalTTL demo_lo (updateTTL demo_lo 10 (msg_Answer (empty_msg\<lparr>msg_Answer := [\<lparr>rr_Name = ''a.'', rr_Rrtype = TypeA,
     rr_Class = ClassINET, rr_Ttl = 60, rr_Data = DA [1, 2, 3, 4]\<rparr>, \<lparr>rr_Name = ''a.'', rr_Rrtype = TypeA,
     rr_Class = ClassINET, rr_Ttl = 90, rr_Data = DA [1, 2, 3, 5]\<rparr>]\<rparr>))) = 10"
  using updateTTL_ages [OF demo_lo_ok, of "[\<lparr>rr_Name = ''a.'', rr_Rrtype = TypeA,
     rr_Class = ClassINET, rr_Ttl = 60, rr_Data = DA [1, 2, 3, 4]\<rparr>, \<lparr>rr_Name = ''a.'', rr_Rrtype = TypeA,
     rr_Class = ClassINET, rr_Ttl = 90, rr_Data = DA [1, 2, 3, 5]\<rparr>]" 10]
  by (simp add: minimalTTL_def demo_lo_def)

subsection \<open>Cached answers\<close>

lemma GetWithExpire_ageless:
  assumes "ageless s"
  shows "fst (LruCache_GetWithExpire now k s) =
    map_option (\<lambda>e. (le_value e, le_expires e)) (es_find k (lru_entries (fst s) (snd s)))"
proof -
  have "lru_inv (fst s) (snd s)" and m: "maxAge (snd s) = 0" using assms by (auto simp: ageless_def lru_ok_def)
  from cache_find [OF this(1), of k, symmetric] show ?thesis using m
    by (auto simp: LruCache_GetWithExpire_def LruCache_get_def Let_def split: option.splits)
qed

lemma SetWithExpire_ageless:
  assumes "ageless s"
  shows "ageless (LruCache_SetWithExpire now k v x s)"
    and "es_find k (lru_entries (fst (LruCache_SetWithExpire now k v x s)) (snd (LruCache_SetWithExpire now k v x s))) =
      Some \<lparr>le_key = k, le_value = v, le_expires = x\<rparr>"
proof -
  have st: "lru_step (now, OSetWithExpire k v x) s = (AUnit, LruCache_SetWithExpire now k v x s)" by simp
  note sp = ageless_step [OF assms st]
  show "ageless (LruCache_SetWithExpire now k v x s)" by (rule sp(1))
  have "maxAge (snd s) = 0" using assms by (simp add: ageless_def)
  then show "es_find k (lru_entries (fst (LruCache_SetWithExpire now k v x s)) (snd (LruCache_SetWithExpire now k v x s))) =
      Some \<lparr>le_key = k, le_value = v, le_expires = x\<rparr>"
    using sp(2) es_set_same [of 0 now x k "staleReturn (snd s)" "maxSize (snd s)" v "lru_entries (fst s) (snd s)"]
    by simp
qed

lemma updateTTL_data: "map rr_Data (updateTTL A ttl rs) = map rr_Data rs"
  by (simp add: updateTTL_def Let_def comp_def)

lemma map_filter_map: "List.map_filter f (map g xs) = List.map_filter (f \<circ> g) xs"
  by (induction xs) (auto simp: List.map_filter_simps split: option.splits)

lemma msgToIP_data:
  assumes "map rr_Data (msg_Answer m) = map rr_Data (msg_Answer n)"
  shows "msgToIP m = msgToIP n"
proof -
  let ?g = "\<lambda>d. case d of DAAAA ip \<Rightarrow> Some ip | DA ip \<Rightarrow> Some ip | DOther _ \<Rightarrow> None"
  have "msgToIP k = List.map_filter ?g (map rr_Data (msg_Answer k))" for k
    by (simp add: msgToIP_def map_filter_map comp_def)
  then show ?thesis using assms by simp
qed

lemma served_ips:
  assumes "miekg_ok K"
  shows "msgToIP (updateMsgTTL A ttl (copyMsgFromCache K m c)) = msgToIP c"
    and "msgToIP (setMsgTTL ttl (copyMsgFromCache K m c)) = msgToIP c"
  using assms
  by (auto intro!: msgToIP_data simp: updateMsgTTL_def setMsgTTL_def copyMsgFromCache_def miekg_ok_def updateTTL_data
      comp_def)

text \<open>An answer is cached: when the resolver, with its cache enabled and reached by any calls, got an
  answer from the network to a question that is no ACME challenge, the answer is no server failure and its least
  time to live is not 0, then asking the same question again later gives the same addresses
  whatever the network answers now, as long as the cache did not drop the entry.\<close>

theorem answer_is_cached:
  assumes "miekg_ok K" and "ageless (rs_lruCache r)" and "\<not> rs_disableCache r"
    and "exchangeWithoutCache A K wire order t m r = (Inr msg, r1)"
    and "msg_Question m = [q]" and "q_Qtype q \<noteq> TypeTXT" and "msg_Rcode msg \<noteq> RcodeServerFailure"
    and "minimalTTL A (msg_Answer msg @ msg_Ns msg @ msg_Extra msg) \<noteq> 0"
  shows "\<exists>msg' r2. ExchangeContext A K wire' order' t' m r1 = (Inr msg', r2) \<and> msgToIP msg' = msgToIP msg"
proof -
  let ?k = "Question_String K q"
  obtain msg0 where ex: "resolver_exchange wire order r m = Inr msg0"
    and msg: "msg = msg0\<lparr>msg_Extra := filter (\<lambda>rr. rr_Rrtype rr \<noteq> TypeOPT) (msg_Extra msg0)\<rparr>"
    and r1: "rs_lruCache r1 = putMsgToCache A t ?k q msg (rs_lruCache r)"
    using assms(3-5) by (auto simp: exchangeWithoutCache_def Let_def split: sum.splits)
  define x where "x = unix (t + int (unat (minimalTTL A (msg_Answer msg @ msg_Ns msg @ msg_Extra msg))) * 10 ^ 9)"
  have c1: "rs_lruCache r1 = LruCache_SetWithExpire (unix t) ?k msg x (rs_lruCache r)"
    unfolding r1 x_def using assms(6-8) by (simp add: putMsgToCache_def Let_def)
  note sw = SetWithExpire_ageless [OF assms(2), where now = "unix t" and k = ?k and v = msg and x = x, folded c1]
  have "fst (LruCache_GetWithExpire (unix t') ?k (rs_lruCache r1)) = Some (msg, x)"
    unfolding GetWithExpire_ageless [OF sw(1)] sw(2) by simp
  then obtain c where "LruCache_GetWithExpire (unix t') ?k (rs_lruCache r1) = (Some (msg, x), c)"
    by (cases "LruCache_GetWithExpire (unix t') ?k (rs_lruCache r1)") auto
  then show ?thesis using assms(5) served_ips [OF assms(1)] by (auto simp: ExchangeContext_def Let_def)
qed

text \<open>A resolver with one DNS over HTTPS server that answers.\<close>

definition demo_doh_resolver :: resolver where
  "demo_doh_resolver = NewResolver \<lparr>rc_Main = [\<lparr>ns_Net = ''https'', ns_Addr = ''https://d'', ns_Interface = []\<rparr>],
     rc_Fallback = [], rc_IPv6 = False, rc_Hosts = None, rc_Policy = [], rc_SearchDomains = [], rc_DisableCache = False\<rparr>"

definition demo_ip_answer :: dns_msg where
  "demo_ip_answer = empty_msg\<lparr>msg_Answer := [\<lparr>rr_Name = ''a.'', rr_Rrtype = TypeA, rr_Class = ClassINET, rr_Ttl = 60,
     rr_Data = DA [1, 2, 3, 4]\<rparr>]\<rparr>"

definition demo_ip_query :: dns_msg where
  "demo_ip_query = empty_msg\<lparr>msg_Question := [\<lparr>q_Name = ''a.'', q_Qtype = TypeA, q_Qclass = ClassINET\<rparr>]\<rparr>"

theorem answer_is_cached_witness:
  "\<exists>r1 msg' r2. exchangeWithoutCache demo_lo demo_miekg (\<lambda>c m. Inr demo_ip_answer) id 0
       demo_ip_query demo_doh_resolver =
     (Inr demo_ip_answer, r1) \<and>
   ExchangeContext demo_lo demo_miekg (\<lambda>c m. Inl ''unreachable'') id 7000000000
       demo_ip_query r1 = (Inr msg', r2) \<and>
   msgToIP msg' = [[1, 2, 3, 4]]"
proof -
  let ?m = demo_ip_query
  let ?w = "\<lambda>c m. Inr demo_ip_answer"
  have d: "rs_main demo_doh_resolver = [DoHClient ''https://d'']" "rs_fallback demo_doh_resolver = None"
    "rs_policy demo_doh_resolver = None" "\<not> rs_disableCache demo_doh_resolver"
    "rs_lruCache demo_doh_resolver = ([], LruCache_New [WithSize 4096, WithStale True])"
    by (simp_all add: demo_doh_resolver_def NewResolver_def transform_def)
  have "ageless (rs_lruCache demo_doh_resolver)" 
    using New_ok [of "[WithSize 4096, WithStale True]"] by (simp add: d ageless_def LruCache_New_def)
  moreover have "resolver_exchange ?w id demo_doh_resolver ?m = Inr demo_ip_answer"
    by (simp add: resolver_exchange_def ipExchange_def isIPRequest_def matchPolicy_def d batchExchange_def
        client_result_def demo_ip_answer_def demo_ip_query_def empty_msg_def RcodeServerFailure_def RcodeRefused_def)
  then obtain r1 where "exchangeWithoutCache demo_lo demo_miekg ?w id 0 ?m demo_doh_resolver = (Inr demo_ip_answer, r1)"
    using d(4) by (simp add: exchangeWithoutCache_def Let_def demo_ip_answer_def empty_msg_def)
  ultimately show ?thesis
    using answer_is_cached [OF demo_miekg_ok _ d(4), of demo_lo ?w id 0 ?m demo_ip_answer r1
        "\<lparr>q_Name = ''a.'', q_Qtype = TypeA, q_Qclass = ClassINET\<rparr>" "\<lambda>c m. Inl ''unreachable''" id 7000000000]
    by (auto simp: demo_ip_query_def demo_ip_answer_def empty_msg_def msgToIP_def RcodeServerFailure_def TypeTXT_def TypeA_def
        minimalTTL_def demo_lo_def List.map_filter_simps)
qed

subsection \<open>Main and fallback servers\<close>

lemma first_success_mem: "first_success rs = Some a \<Longrightarrow> Inr a \<in> set rs"
  by (induction rs rule: first_success.induct) auto

lemma first_success_none: "first_success rs = None \<longleftrightarrow> (\<forall>a. Inr a \<notin> set rs)"
  by (induction rs rule: first_success.induct) auto

lemma batchExchange_Inr:
  assumes "batchExchange wire order cs m = Inr msg" and "set (order cs) = set cs"
  shows "\<exists>c \<in> set cs. client_result wire m c = Inr msg"
proof -
  have "Inr msg \<in> client_result wire m ` set cs"
    using assms by (auto simp: batchExchange_def Let_def split: option.splits dest!: first_success_mem)
  then show ?thesis by (elim imageE) force
qed

lemma batchExchange_success:
  assumes "c \<in> set cs" and "client_result wire m c = Inr msg" and "set (order cs) = set cs"
  shows "\<exists>msg'. batchExchange wire order cs m = Inr msg'"
proof -
  let ?rs = "map (client_result wire m) (order cs)"
  have "Inr msg \<in> set ?rs" using assms by (auto intro: rev_image_eqI)
  then have "first_success ?rs \<noteq> None" by (auto simp: first_success_none)
  then show ?thesis by (auto simp: batchExchange_def Let_def)
qed

text \<open> C17. With fallback servers, in whatever order the concurrent requests finish, a query for addresses that no
  policy covers is answered with the reply of a fallback server, or of a main server that gives at
  least one address; it is answered as soon as one fallback server has a reply, and by a main server when one replies
  and no main server replies without addresses.\<close>

theorem fallback_decides:
  assumes "msg_Question m = q # qs" and "isIPRequest q" and "matchPolicy r m = []" and "rs_fallback r = Some fb"
    and "\<And>cs. set (order cs) = set cs"
  shows "(\<forall>msg. resolver_exchange wire order r m = Inr msg \<longrightarrow>
      (\<exists>c \<in> set (rs_main r). client_result wire m c = Inr msg \<and> msgToIP msg \<noteq> []) \<or>
      (\<exists>c \<in> set fb. client_result wire m c = Inr msg)) \<and>
    ((\<exists>c \<in> set fb. \<exists>msg. client_result wire m c = Inr msg) \<longrightarrow> (\<exists>msg. resolver_exchange wire order r m = Inr msg)) \<and>
    ((\<exists>c \<in> set (rs_main r). \<exists>msg. client_result wire m c = Inr msg) \<and>
     (\<forall>c \<in> set (rs_main r). \<forall>msg. client_result wire m c = Inr msg \<longrightarrow> msgToIP msg \<noteq> []) \<longrightarrow>
     (\<exists>c \<in> set (rs_main r). \<exists>msg. resolver_exchange wire order r m = Inr msg \<and> client_result wire m c = Inr msg))"
proof -
  let ?main = "batchExchange wire order (rs_main r) m" and ?fb = "batchExchange wire order fb m"
  have ex: "resolver_exchange wire order r m =
      (case ?main of Inr msg \<Rightarrow> if msgToIP msg \<noteq> [] then Inr msg else ?fb | Inl _ \<Rightarrow> ?fb)"
    using assms(1-4) by (simp add: resolver_exchange_def ipExchange_def Let_def)
  have i: "\<exists>c \<in> set cs. client_result wire m c = Inr msg" if "batchExchange wire order cs m = Inr msg" for cs msg
    by (rule batchExchange_Inr) (rule that assms(5))+
  have s: "\<exists>msg'. batchExchange wire order cs m = Inr msg'" if "c \<in> set cs" "client_result wire m c = Inr msg" for cs c msg
    by (rule batchExchange_success) (rule that assms(5))+
  show ?thesis
  proof (intro conjI allI impI; (elim conjE bexE exE)?)
    fix msg assume "resolver_exchange wire order r m = Inr msg"
    then show "(\<exists>c \<in> set (rs_main r). client_result wire m c = Inr msg \<and> msgToIP msg \<noteq> []) \<or>
      (\<exists>c \<in> set fb. client_result wire m c = Inr msg)"
      unfolding ex by (auto split: sum.splits if_splits dest!: i)
  next
    fix c msg assume "c \<in> set fb" "client_result wire m c = Inr msg"
    then obtain msg' where "?fb = Inr msg'" using s by blast
    then show "\<exists>msg. resolver_exchange wire order r m = Inr msg" unfolding ex by (auto split: sum.splits)
  next
    fix c msg assume c: "c \<in> set (rs_main r)" "client_result wire m c = Inr msg"
      and all: "\<forall>c \<in> set (rs_main r). \<forall>msg. client_result wire m c = Inr msg \<longrightarrow> msgToIP msg \<noteq> []"
    obtain msg' where m: "?main = Inr msg'" using s [OF c] by (elim exE)
    obtain c' where c': "c' \<in> set (rs_main r)" "client_result wire m c' = Inr msg'" using i [OF m] by (elim bexE)
    show "\<exists>c \<in> set (rs_main r). \<exists>msg. resolver_exchange wire order r m = Inr msg \<and> client_result wire m c = Inr msg"
      by (rule bexI [OF _ c'(1)]) (use all c' m in \<open>simp add: ex\<close>)
  qed
qed

text \<open>A resolver with a main server that fails and a fallback server that answers.\<close>

definition demo_doh_wire :: wire where
  "demo_doh_wire c m = (case c of DoHClient _ \<Rightarrow> Inr demo_ip_answer | _ \<Rightarrow> Inl ''timeout'')"

definition demo_resolver :: resolver where
  "demo_resolver = NewResolver \<lparr>rc_Main = [\<lparr>ns_Net = ''fake-ip'', ns_Addr = [], ns_Interface = []\<rparr>],
     rc_Fallback = [\<lparr>ns_Net = ''https'', ns_Addr = ''https://d'', ns_Interface = []\<rparr>], rc_IPv6 = False, rc_Hosts = None,
     rc_Policy = [], rc_SearchDomains = [], rc_DisableCache = False\<rparr>"

lemma demo_resolver_parts: "rs_main demo_resolver = [FakeIpClient]" "rs_fallback demo_resolver = Some [DoHClient ''https://d'']"
  "rs_policy demo_resolver = None" "rs_disableCache demo_resolver = False"
  "rs_lruCache demo_resolver = ([], LruCache_New [WithSize 4096, WithStale True])"
  by (simp_all add: demo_resolver_def NewResolver_def transform_def)

theorem fallback_decides_witness:
  "\<exists>msg. resolver_exchange demo_doh_wire id demo_resolver demo_ip_query = Inr msg"
proof -
  have "matchPolicy demo_resolver demo_ip_query = []" by (simp add: matchPolicy_def demo_resolver_parts)
  moreover have "client_result demo_doh_wire demo_ip_query (DoHClient ''https://d'') = Inr demo_ip_answer"
    by (simp add: client_result_def demo_doh_wire_def demo_ip_answer_def empty_msg_def RcodeServerFailure_def RcodeRefused_def)
  moreover have "isIPRequest \<lparr>q_Name = ''a.'', q_Qtype = TypeA, q_Qclass = ClassINET\<rparr>" by (simp add: isIPRequest_def)
  ultimately show ?thesis
    using fallback_decides [of demo_ip_query _ "[]" demo_resolver "[DoHClient ''https://d'']" id demo_doh_wire]
    by (auto simp: demo_ip_query_def demo_resolver_parts)
qed

subsection \<open>The fake-ip client\<close>

lemma trim_right_dots_append: "s \<noteq> [] \<Longrightarrow> last s \<noteq> CHR ''.'' \<Longrightarrow> trim_right_dots (s @ ''.'') = s"
  by (cases s rule: rev_cases) (auto simp: trim_right_dots_def)

text \<open> C18. The fake-ip client answers every query that is not for AAAA, SVCB or HTTPS with one address
  record with a time to live of 1 second, whose address the pool maps back to the lower-case name that was asked
  for, whatever calls the pool served before.\<close>

theorem fake_ip_answer:
  assumes "Pool_New opts = Some (Inr p)" and "pool_run xs p = Some (as, q)" and "miekg_ok K"
    and "msg_Question m = [qu]" and "q_Qtype qu \<notin> {TypeAAAA, TypeSVCB, TypeHTTPS}"
  shows "\<exists>msg q1 ip q2. FakeIp_ExchangeContext K m q = Some (msg, q1) \<and>
    msg_Answer msg = [\<lparr>rr_Name = q_Name qu, rr_Rrtype = TypeA, rr_Class = ClassINET, rr_Ttl = 1, rr_Data = DA ip\<rparr>] \<and>
    Pool_LookBack ip q1 = Some (Some (to_lower (trim_right_dots (q_Name qu))), q2)"
proof -
  let ?h = "trim_right_dots (q_Name qu)"
  from reachable_pool_ok [OF assms(1,2)] obtain ps where ok: "pool_ok (opt_Size opts) q ps" by (elim exE conjE)
  from Lookup_refines [OF ok, of ?h] obtain i q1 qs where
    l: "Pool_Lookup ?h q = Some (bytes_of_u32 i, q1)" "pool_ok (opt_Size opts) q1 qs"
      "lookup_effect (opt_Size opts) q (to_lower ?h) i ps qs" by (elim exE conjE)
  note mem = lookup_effect_mem [OF l(3)]
  have o: "one_to_one qs" using store_repD(5) [OF pool_okD(1) [OF l(2)]] .
  from LookBack_refines [OF l(2), of i] obtain r q2 rs where
    b: "Pool_LookBack (bytes_of_u32 i) q1 = Some (r, q2)" "back_effect i r qs rs" by (elim exE conjE)
  have "i \<in> snd ` set qs" using mem by force
  then have "r = Some (to_lower ?h)"
    using b(2) one_to_one_mem(1) [OF o mem] by (auto simp: back_effect_def split: option.splits)
  then show ?thesis using l(1) b(1) assms(3-5)
    by (auto simp: FakeIp_ExchangeContext_def Let_def setMsgTTL_def miekg_ok_def)
qed

theorem fake_ip_answer_witness:
  "\<exists>msg q1 ip q2. FakeIp_ExchangeContext demo_miekg demo_ip_query (demo_pool 2) = Some (msg, q1) \<and>
     map rr_Data (msg_Answer msg) = [DA ip] \<and> Pool_LookBack ip q1 = Some (Some ''a'', q2)"
proof -
  have r: "pool_run [] (demo_pool 2) = Some ([], demo_pool 2)" by simp
  have q: "msg_Question demo_ip_query = [\<lparr>q_Name = ''a.'', q_Qtype = TypeA, q_Qclass = ClassINET\<rparr>]"
    by (simp add: demo_ip_query_def)
  have n: "to_lower (trim_right_dots ''a.'') = ''a''" by (simp add: trim_right_dots_def to_lower_def lower_char_def)
  obtain msg q1 ip q2 where "FakeIp_ExchangeContext demo_miekg demo_ip_query (demo_pool 2) = Some (msg, q1)"
    "msg_Answer msg = [\<lparr>rr_Name = ''a.'', rr_Rrtype = TypeA, rr_Class = ClassINET, rr_Ttl = 1, rr_Data = DA ip\<rparr>]"
    "Pool_LookBack ip q1 = Some (Some ''a'', q2)"
    using fake_ip_answer [OF demo_New r demo_miekg_ok q]
    by (auto simp: n TypeA_def TypeAAAA_def TypeSVCB_def TypeHTTPS_def)
  then show ?thesis by (intro exI [of _ msg] exI [of _ q1] exI [of _ ip] exI [of _ q2]) simp
qed

subsection \<open>The system client\<close>

text \<open>A system client that has no servers yet fails its next exchange even when the operating system
  reports servers at that moment: the servers are stored, but the request still goes to the empty
  list that was read before.\<close>

theorem system_client_uses_stale_servers:
  assumes "sc_clients s = []" and "order [] = []" and "sys (sc_ifaceName s) = Inr servers"
  shows "\<exists>s1. System_ExchangeContext sys wire order m s = (Inl (DnsAllFailed None), s1) \<and>
    length (sc_clients s1) = length (filter is_v4 servers)"
  using assms
  by (simp add: System_ExchangeContext_def system_update_def batchExchange_def Let_def transform_def)

theorem system_client_uses_stale_servers_witness:
  "\<exists>s1. System_ExchangeContext (\<lambda>i. Inr [''1.1.1.1'']) demo_doh_wire id demo_ip_query \<lparr>sc_ifaceName = ''eth0'', sc_clients = []\<rparr>
     = (Inl (DnsAllFailed None), s1)"
  using system_client_uses_stale_servers [of "\<lparr>sc_ifaceName = ''eth0'', sc_clients = []\<rparr>" id
      "\<lambda>i. Inr [''1.1.1.1'']" "[''1.1.1.1'']" demo_doh_wire demo_ip_query]
  by auto

end
