(* ===== verification/ErrState.thy ===== *)
theory ErrState
  imports Prelude
begin

text \<open>
  Computations that change a state and return an error or a value, as the Go functions of this program that
  return an \<open>error\<close>: \<open>io_bind\<close> is the sequence \<open>if err != nil { return err }\<close>, \<open>io_try\<close> runs a
  computation and hands its error on as a value. The state of a computation that fails is kept: what was
  done before the error stays done.
\<close>

type_synonym ('s, 'e, 'a) comp = "'s \<Rightarrow> ('e + 'a) \<times> 's"

definition io_ret :: "'a \<Rightarrow> ('s, 'e, 'a) comp" where
  "io_ret a s = (Inr a, s)"

definition io_fail :: "'e \<Rightarrow> ('s, 'e, 'a) comp" where
  "io_fail e s = (Inl e, s)"

definition io_bind :: "('s, 'e, 'a) comp \<Rightarrow> ('a \<Rightarrow> ('s, 'e, 'b) comp) \<Rightarrow> ('s, 'e, 'b) comp" where
  "io_bind m f s = (case m s of (Inl e, s') \<Rightarrow> (Inl e, s') | (Inr a, s') \<Rightarrow> f a s')"

definition io_try :: "('s, 'e, 'a) comp \<Rightarrow> ('s, 'f, 'e + 'a) comp" where
  "io_try m s = (case m s of (r, s') \<Rightarrow> (Inr r, s'))"

text \<open>A sum that was computed without a state.\<close>

definition io_lift :: "'e + 'a \<Rightarrow> ('s, 'e, 'a) comp" where
  "io_lift r s = (r, s)"

lemma io_bind_Inr [simp]: "m s = (Inr a, s') \<Longrightarrow> io_bind m f s = f a s'"
  by (simp add: io_bind_def)

lemma io_bind_Inl [simp]: "m s = (Inl e, s') \<Longrightarrow> io_bind m f s = (Inl e, s')"
  by (simp add: io_bind_def)

lemma io_ret_simp [simp]: "io_ret a s = (Inr a, s)" "io_fail e s = (Inl e, s)" "io_lift r s = (r, s)"
  by (simp_all add: io_ret_def io_fail_def io_lift_def)

lemma io_try_simp [simp]: "m s = (r, s') \<Longrightarrow> io_try m s = (Inr r, s')"
  by (simp add: io_try_def)

lemma io_bind_eq_Inr: "io_bind m f s = (Inr b, s') \<longleftrightarrow> (\<exists>a s1. m s = (Inr a, s1) \<and> f a s1 = (Inr b, s'))"
  by (auto simp: io_bind_def split: prod.splits sum.splits)

lemma io_bind_eq_Inl:
  "io_bind m f s = (Inl e, s') \<longleftrightarrow>
     m s = (Inl e, s') \<or> (\<exists>a s1. m s = (Inr a, s1) \<and> f a s1 = (Inl e, s'))"
  by (auto simp: io_bind_def split: prod.splits sum.splits)

lemma io_bind_cases:
  "io_bind m f s = (r, s') \<longleftrightarrow>
     (\<exists>e. m s = (Inl e, s') \<and> r = Inl e) \<or> (\<exists>a s1. m s = (Inr a, s1) \<and> f a s1 = (r, s'))"
  by (cases r) (auto simp: io_bind_eq_Inr io_bind_eq_Inl)

end
