(* ===== verification/NetIO.thy ===== *)
theory NetIO
  imports HostPort ErrState
begin

text \<open>
  What the protocol theories share: a stream connection as the bytes that are still to arrive, the bytes
  written so far and how many writes still succeed; computations on it that return an error or a value
  (\<open>io\<close>); and the byte reader and writer of the package \<open>protobytes\<close>, which is not part of the
  repository and so a parameter with its documented behaviour (\<open>pb_ok\<close>).
\<close>

subsection \<open>Connections\<close>

datatype io_error =
    EOF | WriteFailed | ShortBuffer
  | AuthFailed | SocksVersion | SocksNeedAuth | SocksRejected | SocksError u8
  | VersionMismatched | CommandNotSupported4 | IPv6NotSupported | BadAddress
  | RequestRefused | IdentdFailed | IdentdMismatched | UnknownCode
  | TlsHeader

record io_conn =
  c_in :: "u8 list"
  c_out :: "u8 list"
  c_writes :: "nat option"

type_synonym 'a io = "(io_conn, io_error, 'a) comp"

text \<open>\<open>io.ReadFull\<close>: it takes exactly \<open>n\<close> bytes, or what is left and fails.\<close>

definition ReadFull :: "nat \<Rightarrow> u8 list io" where
  "ReadFull n s =
     (if n \<le> length (c_in s) then (Inr (take n (c_in s)), s\<lparr>c_in := drop n (c_in s)\<rparr>)
      else (Inl EOF, s\<lparr>c_in := []\<rparr>))"

definition conn_Write :: "u8 list \<Rightarrow> unit io" where
  "conn_Write bs s =
     (case c_writes s of
        None \<Rightarrow> (Inr (), s\<lparr>c_out := c_out s @ bs\<rparr>)
      | Some 0 \<Rightarrow> (Inl WriteFailed, s)
      | Some (Suc n) \<Rightarrow> (Inr (), s\<lparr>c_out := c_out s @ bs, c_writes := Some n\<rparr>))"

text \<open>A write whose error the code drops.\<close>

definition write_ignore :: "u8 list \<Rightarrow> unit io" where
  "write_ignore bs s = (Inr (), snd (conn_Write bs s))"

text \<open>A connection on which the given bytes arrive and every write succeeds.\<close>

definition fed :: "u8 list \<Rightarrow> io_conn" where
  "fed bs = \<lparr>c_in = bs, c_out = [], c_writes = None\<rparr>"

lemma ReadFull_append [simp]:
  "length bs = n \<Longrightarrow> ReadFull n \<lparr>c_in = bs @ rest, c_out = w, c_writes = l\<rparr> = (Inr bs, \<lparr>c_in = rest, c_out = w, c_writes = l\<rparr>)"
  by (simp add: ReadFull_def)

lemma ReadFull_all [simp]:
  "length bs = n \<Longrightarrow> ReadFull n \<lparr>c_in = bs, c_out = w, c_writes = l\<rparr> = (Inr bs, \<lparr>c_in = [], c_out = w, c_writes = l\<rparr>)"
  by (simp add: ReadFull_def)

lemma ReadFull_Cons [simp]:
  "ReadFull 1 \<lparr>c_in = b # rest, c_out = w, c_writes = l\<rparr> = (Inr [b], \<lparr>c_in = rest, c_out = w, c_writes = l\<rparr>)"
  "ReadFull (Suc 0) \<lparr>c_in = b # rest, c_out = w, c_writes = l\<rparr> = (Inr [b], \<lparr>c_in = rest, c_out = w, c_writes = l\<rparr>)"
  "ReadFull 2 \<lparr>c_in = b # d # rest, c_out = w, c_writes = l\<rparr> = (Inr [b, d], \<lparr>c_in = rest, c_out = w, c_writes = l\<rparr>)"
  "ReadFull 3 \<lparr>c_in = b # d # f # rest, c_out = w, c_writes = l\<rparr> = (Inr [b, d, f], \<lparr>c_in = rest, c_out = w, c_writes = l\<rparr>)"
  by (simp_all add: ReadFull_def numeral_2_eq_2 numeral_3_eq_3)

lemma conn_Write_ok [simp]:
  "conn_Write bs \<lparr>c_in = i, c_out = w, c_writes = None\<rparr> = (Inr (), \<lparr>c_in = i, c_out = w @ bs, c_writes = None\<rparr>)"
  "write_ignore bs \<lparr>c_in = i, c_out = w, c_writes = None\<rparr> = (Inr (), \<lparr>c_in = i, c_out = w @ bs, c_writes = None\<rparr>)"
  by (simp_all add: conn_Write_def write_ignore_def)

subsection \<open>protobytes\<close>

record protobytes =
  PutUint8 :: "u8 list \<Rightarrow> u8 \<Rightarrow> u8 list"
  PutUint16be :: "u8 list \<Rightarrow> u16 \<Rightarrow> u8 list"
  PutSlice :: "u8 list \<Rightarrow> u8 list \<Rightarrow> u8 list"
  PutString :: "u8 list \<Rightarrow> string \<Rightarrow> u8 list"
  ReadUint8 :: "u8 list \<Rightarrow> u8 \<times> u8 list"
  ReadUint16be :: "u8 list \<Rightarrow> u16 \<times> u8 list"
  ReadIPv4 :: "u8 list \<Rightarrow> go_ip \<times> u8 list"
  SplitAt :: "u8 list \<Rightarrow> nat \<Rightarrow> u8 list \<times> u8 list"
  PutUint32be :: "u8 list \<Rightarrow> u32 \<Rightarrow> u8 list"
  PutUint64be :: "u8 list \<Rightarrow> 64 word \<Rightarrow> u8 list"

definition be64 :: "64 word \<Rightarrow> u8 list" where
  "be64 v = map (\<lambda>i. ucast (drop_bit (8 * i) v)) [7, 6, 5, 4, 3, 2, 1, 0]"

lemma length_be64 [simp]: "length (be64 v) = 8"
  by (simp add: be64_def)

lemma length_be16 [simp]: "length (be16 v) = 2"
  by (simp add: be16_def)

lemma of_be16_of_nat:
  assumes "n < 65536"
  shows "of_be16 (be16 (of_nat n) ! 0) (be16 (of_nat n) ! 1) = n" "of_be16 (be16 (of_nat n) ! 0) (be16 (of_nat n) ! Suc 0) = n"
  using assms by (simp_all add: be16_def of_be16_be16 unat_of_nat)

text \<open>Writers append, readers take from the front what the type says.\<close>

definition pb_ok :: "protobytes \<Rightarrow> bool" where
  "pb_ok B \<longleftrightarrow>
     (\<forall>w b. PutUint8 B w b = w @ [b]) \<and> (\<forall>w v. PutUint16be B w v = w @ be16 v) \<and>
     (\<forall>w s. PutSlice B w s = w @ s) \<and> (\<forall>w s. PutString B w s = w @ bytes_of s) \<and>
     (\<forall>b r. ReadUint8 B (b # r) = (b, r)) \<and> (\<forall>v r. ReadUint16be B (be16 v @ r) = (v, r)) \<and>
     (\<forall>a b c d r. ReadIPv4 B (a # b # c # d # r) = ([a, b, c, d], r)) \<and>
     (\<forall>r n. n \<le> length r \<longrightarrow> SplitAt B r n = (take n r, drop n r)) \<and>
     (\<forall>w v. PutUint32be B w v = w @ bytes_of_u32 v) \<and> (\<forall>w v. PutUint64be B w v = w @ be64 v)"

lemma pb_simps:
  assumes "pb_ok B"
  shows "PutUint8 B w b = w @ [b]" "PutUint16be B w v = w @ be16 v" "PutSlice B w s = w @ s"
    "PutString B w t = w @ bytes_of t" "ReadUint8 B (b # r) = (b, r)" "ReadUint16be B (be16 v @ r) = (v, r)"
    "ReadIPv4 B (x1 # x2 # x3 # x4 # r) = ([x1, x2, x3, x4], r)" "n \<le> length r \<Longrightarrow> SplitAt B r n = (take n r, drop n r)"
    "PutUint32be B w v4 = w @ bytes_of_u32 v4" "PutUint64be B w v8 = w @ be64 v8"
  using assms by (simp_all add: pb_ok_def)

text \<open>An instance for the witnesses.\<close>

definition demo_pb :: protobytes where
  "demo_pb = \<lparr>PutUint8 = (\<lambda>w b. w @ [b]), PutUint16be = (\<lambda>w v. w @ be16 v), PutSlice = (@),
     PutString = (\<lambda>w s. w @ bytes_of s), ReadUint8 = (\<lambda>r. (hd r, tl r)),
     ReadUint16be = (\<lambda>r. (of_nat (of_be16 (r ! 0) (r ! 1)), drop 2 r)), ReadIPv4 = (\<lambda>r. (take 4 r, drop 4 r)),
     SplitAt = (\<lambda>r n. (take n r, drop n r)), PutUint32be = (\<lambda>w v. w @ bytes_of_u32 v), PutUint64be = (\<lambda>w v. w @ be64 v)\<rparr>"

lemma demo_pb_ok: "pb_ok demo_pb"
  by (simp add: pb_ok_def demo_pb_def be16_def of_be16_be16)

end
