(* ===== verification/SocksAddr.thy ===== *)
theory SocksAddr
  imports NetIO RuleProps
begin

text \<open>
  Addresses and UDP packets of the SOCKS 5 protocol, from \<open>src/pkg/clash/transport/socks5/socks5.go\<close>, with
  their round trips. A byte slice is the list of its bytes, \<open>None\<close> as an address is nil, and
  \<open>None\<close> as the result of \<open>Addr.String\<close> and \<open>Addr.UDPAddr\<close> wraps what may panic on a short slice.
\<close>

subsection \<open>Addresses\<close>

definition AtypV4 :: u8 where "AtypV4 = 1"
definition AtypDomain :: u8 where "AtypDomain = 3"
definition AtypV6 :: u8 where "AtypV6 = 4"
definition MaxAddrLen :: nat where "MaxAddrLen = 1 + 1 + 255 + 2"
definition MaxAuthLen :: nat where "MaxAuthLen = 255"

type_synonym socks_addr = "u8 list"

definition ip_text :: "nat \<Rightarrow> u8 list \<Rightarrow> string option" where
  "ip_text n r =
     (if n + 2 \<le> length r
      then Some (JoinHostPort (IP_String (take n r)) (nat_dec (of_be16 (r ! n) (r ! (n + 1))))) else None)"

definition Socks_String :: "socks_addr \<Rightarrow> string option" where
  "Socks_String a =
     (case a of
        [] \<Rightarrow> None
      | t # r \<Rightarrow>
          if t = AtypDomain then
            (case r of
               [] \<Rightarrow> None
             | n # q \<Rightarrow>
                 let hostLen = unat n in
                 if hostLen + 2 \<le> length q
                 then Some (JoinHostPort (string_of (take hostLen q))
                   (nat_dec (of_be16 (q ! hostLen) (q ! (hostLen + 1))))) else None)
          else if t = AtypV4 then ip_text 4 r
          else if t = AtypV6 then ip_text 16 r
          else Some (JoinHostPort [] []))"

definition udp_ip :: "nat \<Rightarrow> u8 list \<Rightarrow> (go_ip \<times> nat) option option" where
  "udp_ip n r =
     (if n + 2 \<le> length r then Some (Some (take n r, of_be16 (r ! n) (r ! (n + 1)))) else None)"

definition Socks_UDPAddr :: "socks_addr \<Rightarrow> (go_ip \<times> nat) option option" where
  "Socks_UDPAddr a =
     (case a of
        [] \<Rightarrow> Some None
      | t # r \<Rightarrow> if t = AtypV4 then udp_ip 4 r else if t = AtypV6 then udp_ip 16 r else Some None)"

definition SplitAddr :: "u8 list \<Rightarrow> socks_addr option" where
  "SplitAddr b =
     (case b of
        [] \<Rightarrow> None
      | t # r \<Rightarrow>
          (case (if t = AtypDomain then (case r of [] \<Rightarrow> None | n # _ \<Rightarrow> Some (1 + 1 + unat n + 2))
                 else if t = AtypV4 then Some (1 + 4 + 2)
                 else if t = AtypV6 then Some (1 + 16 + 2) else None) of
             None \<Rightarrow> None
           | Some addrLen \<Rightarrow> if length b < addrLen then None else Some (take addrLen b)))"

definition ReadAddr :: "nat \<Rightarrow> socks_addr io" where
  "ReadAddr bufLen =
     (if bufLen < MaxAddrLen then io_fail ShortBuffer
      else io_bind (ReadFull 1) (\<lambda>t.
        if t = [AtypDomain] then
          io_bind (ReadFull 1) (\<lambda>n. io_bind (ReadFull (unat (hd n) + 2)) (\<lambda>r. io_ret (t @ n @ r)))
        else if t = [AtypV4] then io_bind (ReadFull (4 + 2)) (\<lambda>r. io_ret (t @ r))
        else if t = [AtypV6] then io_bind (ReadFull (16 + 2)) (\<lambda>r. io_ret (t @ r))
        else io_fail (SocksError 8)))"

definition Socks_ParseAddr :: "protobytes \<Rightarrow> string \<Rightarrow> socks_addr option" where
  "Socks_ParseAddr B s =
     (case SplitHostPort s of
        None \<Rightarrow> None
      | Some (host, port) \<Rightarrow>
          let ip = ParseIP host; ip4 = To4 ip in
          (case (if ip \<noteq> [] then
                   (if ip4 \<noteq> [] then Some (PutSlice B (PutUint8 B [] AtypV4) ip4)
                    else Some (PutSlice B (PutUint8 B [] AtypV6) ip))
                 else if length host > 255 then None
                 else Some (PutString B (PutUint8 B (PutUint8 B [] AtypDomain) (of_nat (length host))) host)) of
             None \<Rightarrow> None
           | Some buf \<Rightarrow>
               (case parse_uint 16 port of None \<Rightarrow> None | Some p \<Rightarrow> Some (PutUint16be B buf (of_nat p)))))"

text \<open>
  A \<open>net.Addr\<close>: the address of a UDP or TCP socket, or one that is known by its text only. The default mask of an IPv4
  address is never nil.
\<close>

datatype net_addr = SocketAddr go_ip int string | OtherAddr string

definition ParseAddrToSocksAddr :: "protobytes \<Rightarrow> net_addr \<Rightarrow> socks_addr option" where
  "ParseAddrToSocksAddr B addr =
     (let (hostip, port, txt) = (case addr of SocketAddr ip p t \<Rightarrow> (ip, p, t) | OtherAddr t \<Rightarrow> ([], 0, t)) in
      if hostip = [] then Socks_ParseAddr B txt
      else let ip4 = To4 hostip in
        if ip4 \<noteq> [] then Some (PutUint16be B (PutSlice B (PutUint8 B [] AtypV4) ip4) (of_int port))
        else Some (PutUint16be B (PutSlice B (PutUint8 B [] AtypV6) hostip) (of_int port)))"

definition AddrFromStdAddrPort :: "netip_addr \<Rightarrow> u16 \<Rightarrow> socks_addr" where
  "AddrFromStdAddrPort addr p =
     (case addr of
        Addr4 ip \<Rightarrow> [AtypV4, ip ! 0, ip ! 1, ip ! 2, ip ! 3, ucast (drop_bit 8 p), ucast p]
      | Addr6 ip z \<Rightarrow> AtypV6 # take 16 (ip @ replicate 16 0) @ [ucast (drop_bit 8 p), ucast p])"

subsection \<open>UDP packets\<close>

datatype udp_error = UdpShort | UdpReserved | UdpFragment | UdpHeader | UdpNoAddr

definition DecodeUDPPacket :: "protobytes \<Rightarrow> u8 list \<Rightarrow> socks_addr option \<times> u8 list \<times> udp_error option" where
  "DecodeUDPPacket B packet =
     (if length packet < 5 then (None, [], Some UdpShort)
      else let (reserved, r) = SplitAt B packet 2 in
        if reserved \<noteq> [0, 0] then (None, [], Some UdpReserved)
        else let (frag, r') = ReadUint8 B r in
          if frag \<noteq> 0 then (None, [], Some UdpFragment)
          else (case SplitAddr r' of
                  None \<Rightarrow> (None, snd (SplitAt B r' 0), Some UdpHeader)
                | Some addr \<Rightarrow> (Some addr, snd (SplitAt B r' (length addr)), None)))"

definition EncodeUDPPacket :: "protobytes \<Rightarrow> socks_addr option \<Rightarrow> u8 list \<Rightarrow> udp_error + u8 list" where
  "EncodeUDPPacket B addr payload =
     (case addr of
        None \<Rightarrow> Inl UdpNoAddr
      | Some a \<Rightarrow> Inr (PutSlice B (PutSlice B (PutSlice B [] [0, 0, 0]) a) payload))"

subsection \<open>Well-formed addresses\<close>

definition wf_addr :: "socks_addr \<Rightarrow> bool" where
  "wf_addr a = (SplitAddr a = Some a)"

lemma atyp_simps [simp]: "AtypV4 \<noteq> AtypDomain" "AtypV6 \<noteq> AtypDomain" "AtypV6 \<noteq> AtypV4"
  "AtypDomain \<noteq> AtypV4" "AtypDomain \<noteq> AtypV6" "AtypV4 \<noteq> AtypV6"
  by (simp_all add: AtypV4_def AtypV6_def AtypDomain_def)

text \<open>The three forms of a well-formed address.\<close>

lemma wf_addr_cases:
  "wf_addr a \<longleftrightarrow>
     (\<exists>n r. a = AtypDomain # n # r \<and> length r = unat n + 2) \<or>
     (\<exists>r. a = AtypV4 # r \<and> length r = 6) \<or> (\<exists>r. a = AtypV6 # r \<and> length r = 18)"
proof (cases a)
  case (Cons t r)
  have "t = AtypDomain \<or> t = AtypV4 \<or> t = AtypV6 \<or> t \<notin> {AtypDomain, AtypV4, AtypV6}" by blast
  then show ?thesis unfolding Cons wf_addr_def SplitAddr_def
    by (elim disjE; cases r) (auto simp: not_less take_Cons')
qed (simp add: wf_addr_def SplitAddr_def)

lemma SplitAddr_append: "wf_addr a \<Longrightarrow> SplitAddr (a @ rest) = Some a"
  by (auto simp: wf_addr_cases SplitAddr_def)

lemma SplitAddr_wf: "SplitAddr b = Some a \<Longrightarrow> wf_addr a \<and> b = a @ drop (length a) b"
  by (auto simp: wf_addr_def SplitAddr_def min_def split: list.splits if_splits)

lemma wf_addr_length: "wf_addr a \<Longrightarrow> 4 \<le> length a \<and> length a \<le> MaxAddrLen"
  using u8_less by (auto simp: wf_addr_cases MaxAddrLen_def less_Suc_eq_le [symmetric] intro: less_imp_le)

text \<open>The addresses of a packet that comes back: those with an IP address.\<close>

definition ip_addr :: "u8 list \<Rightarrow> (go_ip \<times> nat) option" where
  "ip_addr a = (case Socks_UDPAddr a of Some (Some u) \<Rightarrow> if wf_addr a then Some u else None | _ \<Rightarrow> None)"

end
