(* ===== verification/Socks5.thy ===== *)
theory Socks5
  imports SocksAddr
begin

text \<open>
  The SOCKS 5 handshakes of \<open>src/pkg/clash/transport/socks5/socks5.go\<close> and the authenticator of
  \<open>src/pkg/clash/component/auth/auth.go\<close>. The handshakes are computations on a connection; the results that Go
  returns beside an error are dropped, as its callers do.
\<close>

subsection \<open>The authenticator\<close>

record auth_user =
  au_User :: string
  au_Pass :: string

text \<open>The order in which \<open>sync.Map.Range\<close> visits the names is not fixed: the parameter \<open>order\<close>.\<close>

record authenticator =
  au_storage :: "string \<Rightarrow> string option"
  au_usernames :: "string list"

definition Auth_Verify :: "authenticator \<Rightarrow> string \<Rightarrow> string \<Rightarrow> bool" where
  "Auth_Verify au user pass =
     (case au_storage au user of None \<Rightarrow> False | Some realPass \<Rightarrow> realPass = pass)"

definition NewAuthenticator :: "((string \<Rightarrow> string option) \<Rightarrow> string list) \<Rightarrow> auth_user list \<Rightarrow> authenticator option" where
  "NewAuthenticator order users =
     (if length users = 0 then None
      else let storage = foldl (\<lambda>m u. m(au_User u \<mapsto> au_Pass u)) Map.empty users
        in Some \<lparr>au_storage = storage, au_usernames = order storage\<rparr>)"

lemma foldl_store:
  "foldl (\<lambda>m u. m(au_User u \<mapsto> au_Pass u)) m us k =
     (case map_of (rev (map (\<lambda>u. (au_User u, au_Pass u)) us)) k of None \<Rightarrow> m k | Some p \<Rightarrow> Some p)"
  by (induction us arbitrary: m rule: rev_induct) (auto simp: map_add_def split: option.splits)

text \<open>The last entry of a user counts.\<close>

lemma Verify_New:
  assumes "NewAuthenticator order users = Some au"
  shows "Auth_Verify au u p \<longleftrightarrow> map_of (rev (map (\<lambda>u. (au_User u, au_Pass u)) users)) u = Some p"
  using assms
  by (auto simp: NewAuthenticator_def Auth_Verify_def Let_def foldl_store split: if_splits option.splits)

subsection \<open>The server\<close>

definition CmdConnect :: u8 where "CmdConnect = 1"
definition CmdBind :: u8 where "CmdBind = 2"
definition CmdUDPAssociate :: u8 where "CmdUDPAssociate = 3"

text \<open>The failed authentication: the reply is written and its error dropped.\<close>

definition auth_failed :: "unit io" where
  "auth_failed = io_bind (write_ignore [1, 1]) (\<lambda>_. io_fail AuthFailed)"

definition ServerAuth :: "authenticator \<Rightarrow> unit io" where
  "ServerAuth au =
     io_bind (conn_Write [5, 2]) (\<lambda>_.
     io_bind (ReadFull 2) (\<lambda>header.
       let userLen = unat (header ! 1) in
       if userLen \<le> 0 then auth_failed
       else io_bind (ReadFull userLen) (\<lambda>user.
         io_bind (ReadFull 1) (\<lambda>h.
           let passLen = unat (h ! 0) in
           if passLen \<le> 0 then auth_failed
           else io_bind (ReadFull passLen) (\<lambda>pass.
             if \<not> Auth_Verify au (string_of user) (string_of pass) then auth_failed
             else conn_Write [1, 0])))))"

definition ServerHandshake :: "protobytes \<Rightarrow> string \<Rightarrow> authenticator option \<Rightarrow> (socks_addr \<times> u8) io" where
  "ServerHandshake B localAddr au =
     io_bind (ReadFull 2) (\<lambda>buf.
     io_bind (ReadFull (unat (buf ! 1))) (\<lambda>_.
     io_bind (case au of Some a \<Rightarrow> ServerAuth a | None \<Rightarrow> conn_Write [5, 0]) (\<lambda>_.
     io_bind (ReadFull 3) (\<lambda>req.
     let command = req ! 1 in
     io_bind (ReadAddr MaxAddrLen) (\<lambda>addr.
       if command = CmdConnect \<or> command = CmdUDPAssociate then
         (case Socks_ParseAddr B localAddr of
            None \<Rightarrow> io_fail (SocksError 8)
          | Some l \<Rightarrow> io_bind (conn_Write ([5, 0, 0] @ l)) (\<lambda>_. io_ret (addr, command)))
       else io_fail (SocksError 7))))))"

subsection \<open>The client\<close>

record socks_user =
  Username :: string
  Password :: string

definition authMsg :: "protobytes \<Rightarrow> socks_user \<Rightarrow> u8 list" where
  "authMsg B u =
     PutString B (PutUint8 B (PutString B (PutUint8 B (PutUint8 B [] 1) (of_nat (length (Username u)))) (Username u))
       (of_nat (length (Password u)))) (Password u)"

definition ClientHandshake :: "protobytes \<Rightarrow> socks_addr \<Rightarrow> u8 \<Rightarrow> socks_user option \<Rightarrow> socks_addr io" where
  "ClientHandshake B addr command user =
     io_bind (conn_Write (if user \<noteq> None then [5, 1, 2] else [5, 1, 0])) (\<lambda>_.
     io_bind (ReadFull 2) (\<lambda>buf.
       if buf ! 0 \<noteq> 5 then io_fail SocksVersion
       else io_bind
         (if buf ! 1 = 2 then
            (case user of
               None \<Rightarrow> io_fail AuthFailed
             | Some u \<Rightarrow>
                 io_bind (conn_Write (authMsg B u)) (\<lambda>_.
                 io_bind (ReadFull 2) (\<lambda>rep. if rep ! 1 \<noteq> 0 then io_fail SocksRejected else io_ret ())))
          else if buf ! 1 \<noteq> 0 then io_fail SocksNeedAuth
          else io_ret ()) (\<lambda>_.
         io_bind (conn_Write ([5, command, 0] @ addr)) (\<lambda>_.
         io_bind (ReadFull 3) (\<lambda>_. ReadAddr MaxAddrLen)))))"

subsection \<open>Reading an address\<close>

lemma ReadAddr_fed:
  assumes "wf_addr a"
  shows "ReadAddr MaxAddrLen \<lparr>c_in = a @ rest, c_out = w, c_writes = l\<rparr> = (Inr a, \<lparr>c_in = rest, c_out = w, c_writes = l\<rparr>)"
  using assms unfolding wf_addr_cases
  by (elim disjE exE conjE) (simp_all add: ReadAddr_def)

lemma ReadAddr_fed_all:
  assumes "wf_addr a"
  shows "ReadAddr MaxAddrLen \<lparr>c_in = a, c_out = w, c_writes = l\<rparr> = (Inr a, \<lparr>c_in = [], c_out = w, c_writes = l\<rparr>)"
  using ReadAddr_fed [OF assms, of "[]"] by simp

lemma ReadFull_Inr:
  "ReadFull n s = (Inr bs, s') \<longleftrightarrow> n \<le> length (c_in s) \<and> bs = take n (c_in s) \<and> s' = s\<lparr>c_in := drop n (c_in s)\<rparr>"
  by (auto simp: ReadFull_def)

end
