(* ===== verification/SocksProps.thy ===== *)
theory SocksProps
  imports Socks5
begin

text \<open>
  What the SOCKS 5 code promises: packets and addresses round-trip, the two readers of an address agree, client and
  server agree on what was asked, and what happens to a name or a password that is too long.
\<close>

subsection \<open>Addresses on the wire\<close>

text \<open>Reading an address from a stream and slicing it from the front of a buffer agree: \<open>ReadAddr\<close> succeeds
  with an address exactly when \<open>SplitAddr\<close> finds it at the front of the bytes that arrive, and then it takes exactly its bytes.\<close>

theorem ReadAddr_iff_SplitAddr:
  "ReadAddr MaxAddrLen s = (Inr a, s') \<longleftrightarrow>
     SplitAddr (c_in s) = Some a \<and> s' = s\<lparr>c_in := drop (length a) (c_in s)\<rparr>"
proof
  assume "ReadAddr MaxAddrLen s = (Inr a, s')"
  then have "SplitAddr (c_in s) = Some a \<and> s' = s\<lparr>c_in := drop (length a) (c_in s)\<rparr>"
    unfolding ReadAddr_def
    by (cases "c_in s"; cases "tl (c_in s)")
      (auto simp: io_bind_eq_Inr ReadFull_Inr SplitAddr_def take_Suc_conv_app_nth numeral_2_eq_2
        split: if_splits)
  then show "SplitAddr (c_in s) = Some a \<and> s' = s\<lparr>c_in := drop (length a) (c_in s)\<rparr>" .
next
  assume r: "SplitAddr (c_in s) = Some a \<and> s' = s\<lparr>c_in := drop (length a) (c_in s)\<rparr>"
  then have w: "wf_addr a" "c_in s = a @ drop (length a) (c_in s)" using SplitAddr_wf by blast+
  have "s = \<lparr>c_in = a @ drop (length a) (c_in s), c_out = c_out s, c_writes = c_writes s\<rparr>"
    using w(2) by simp
  then show "ReadAddr MaxAddrLen s = (Inr a, s')"
    using ReadAddr_fed [OF w(1), of "drop (length a) (c_in s)" "c_out s" "c_writes s"] r by simp
qed

text \<open>UDP packets round-trip in both directions: decoding gives an address and a payload without error
  exactly when the address is well formed and the packet is their encoding.\<close>

theorem udp_packet_roundtrip:
  assumes "pb_ok B"
  shows "DecodeUDPPacket B packet = (Some a, payload, None) \<longleftrightarrow>
    wf_addr a \<and> EncodeUDPPacket B (Some a) payload = Inr packet"
proof
  assume l: "DecodeUDPPacket B packet = (Some a, payload, None)"
  have len: "\<not> length packet < 5" using l by (auto simp: DecodeUDPPacket_def)
  then obtain x y z r where p: "packet = x # y # z # r"
    by (cases packet; cases "tl packet"; cases "tl (tl packet)") auto
  have d: "x = 0" "y = 0" "z = 0" "SplitAddr r = Some a" "payload = snd (SplitAt B r (length a))"
    using l len unfolding p
    by (auto simp: DecodeUDPPacket_def pb_simps [OF assms] Let_def split: if_splits option.splits)
  have r: "r = a @ drop (length a) r" and w: "wf_addr a" using SplitAddr_wf [OF d(4)] by auto
  have "length a \<le> length r" using r by (metis le_add1 length_append)
  then have "payload = drop (length a) r" using d(5) by (simp add: pb_simps [OF assms])
  then have "r = a @ payload" using r by simp
  then show "wf_addr a \<and> EncodeUDPPacket B (Some a) payload = Inr packet"
    using w d(1-3) by (simp add: EncodeUDPPacket_def pb_simps [OF assms] p)
next
  assume r: "wf_addr a \<and> EncodeUDPPacket B (Some a) payload = Inr packet"
  then have p: "packet = 0 # 0 # 0 # a @ payload" by (simp add: EncodeUDPPacket_def pb_simps [OF assms])
  show "DecodeUDPPacket B packet = (Some a, payload, None)"
    using r wf_addr_length [of a] SplitAddr_append [of a payload]
    by (simp add: p DecodeUDPPacket_def pb_simps [OF assms] numeral_2_eq_2)
qed

theorem udp_packet_roundtrip_witness:
  "DecodeUDPPacket demo_pb [0, 0, 0, 1, 10, 0, 0, 1, 0, 53, 7, 7] = (Some [1, 10, 0, 0, 1, 0, 53], [7, 7], None)"
proof -
  have "wf_addr [1, 10, 0, 0, 1, 0, 53]" by (simp add: wf_addr_def SplitAddr_def AtypV4_def AtypDomain_def)
  moreover have "EncodeUDPPacket demo_pb (Some [1, 10, 0, 0, 1, 0, 53]) [7, 7] = Inr [0, 0, 0, 1, 10, 0, 0, 1, 0, 53, 7, 7]"
    by (simp add: EncodeUDPPacket_def demo_pb_def)
  ultimately show ?thesis using udp_packet_roundtrip [OF demo_pb_ok] by blast
qed

subsection \<open>Addresses as text\<close>

lemma dotted_bracket_free: "length ip = 4 \<Longrightarrow> bracket_free (dotted ip)"
  by (simp add: bracket_free_def dotted_free is_digit_def)

lemma nat_dec_plain: "bracket_free (nat_dec n)" "CHR '':'' \<notin> set (nat_dec n)"
  by (simp_all add: bracket_free_def nat_dec_free is_digit_def)

lemma be16_of_be16: "be16 (of_nat (of_be16 x y)) = [x, y]"
proof -
  have l: "of_be16 x y < 2 ^ 16" using u8_less [of x] u8_less [of y] by (simp add: of_be16_def)
  have u: "unat (of_nat (of_be16 x y) :: u16) = of_be16 x y"
    using l by (simp add: unsigned_of_nat take_bit_nat_eq_self)
  have "ucast (drop_bit 8 (of_nat (of_be16 x y) :: u16)) = x"
    by (rule word_unat_eq_iff [THEN iffD2]) (use u u8_less [of x] u8_less [of y] in
      \<open>simp add: unsigned_ucast_eq unsigned_drop_bit_eq drop_bit_nat_def take_bit_nat_def of_be16_def\<close>)
  moreover have "ucast (of_nat (of_be16 x y) :: u16) = y"
    by (rule word_unat_eq_iff [THEN iffD2]) (use u u8_less [of x] u8_less [of y] in
      \<open>simp add: unsigned_ucast_eq take_bit_nat_def of_be16_def\<close>)
  ultimately show ?thesis by (simp add: be16_def)
qed

lemma port_text: "parse_uint 16 (nat_dec (of_be16 x y)) = Some (of_be16 x y)"
  using u8_less [of x] u8_less [of y] by (intro parse_uint_nat_dec) (simp add: of_be16_def)

lemma bytes_of_string_of [simp]: "bytes_of (string_of bs) = bs"
proof -
  have "(of_char (char_of (unat b)) :: u8) = b" for b :: u8
  proof -
    have "(of_char (char_of (unat b)) :: u8) = of_nat (of_char (char_of (unat b)))" by (rule of_nat_of_char [symmetric])
    also have "(of_char (char_of (unat b)) :: nat) = unat b" using u8_less [of b] by simp
    finally show ?thesis by simp
  qed
  then show ?thesis by (induction bs) (simp_all add: bytes_of_def string_of_def)
qed

text \<open>The host bytes of a domain address.\<close>

definition addr_host :: "socks_addr \<Rightarrow> string" where
  "addr_host a = string_of (take (unat (a ! 1)) (drop 2 a))"

text \<open>The text of an IPv4 address, or of a domain address whose name is no address text and has no brackets,
  parses back to the same bytes.\<close>

theorem addr_text_roundtrip:
  assumes "pb_ok B" and "wf_addr a" and "a ! 0 = AtypV4 \<or> a ! 0 = AtypDomain \<and> ParseIP (addr_host a) = [] \<and> bracket_free (addr_host a)"
  shows "\<exists>t. Socks_String a = Some t \<and> Socks_ParseAddr B t = Some a"
  using assms(3)
proof (elim disjE conjE)
  assume v4: "a ! 0 = AtypV4"
  then obtain r where a: "a = AtypV4 # r" "length r = 6" using assms(2) by (auto simp: wf_addr_cases)
  define ip where "ip = take 4 r"
  have ip: "length ip = 4" using a(2) by (simp add: ip_def)
  have r: "r = ip @ [r ! 4, r ! 5]"
    using a(2) by (intro nth_equalityI) (auto simp: ip_def nth_append less_Suc_eq numeral_eq_Suc)
  let ?t = "JoinHostPort (dotted ip) (nat_dec (of_be16 (r ! 4) (r ! 5)))"
  have "IP_String ip = dotted ip" using ip by (auto simp: IP_String_def To4_def)
  then have s: "Socks_String a = Some ?t" using a by (simp add: Socks_String_def ip_text_def ip_def)
  have "SplitHostPort ?t = Some (dotted ip, nat_dec (of_be16 (r ! 4) (r ! 5)))"
    by (rule Split_Join [OF dotted_bracket_free [OF ip] nat_dec_plain])
  moreover have "ParseIP (dotted ip) = v4in6_prefix @ ip" using ip by (simp add: ParseIP_def ParseAddr_dotted To16_def)
  moreover have "ip \<noteq> []" using ip by auto
  ultimately have "Socks_ParseAddr B ?t = Some a"
    using ip a r by (simp add: Socks_ParseAddr_def pb_simps [OF assms(1)] port_text be16_of_be16 Let_def)
  with s show ?thesis by blast
next
  assume d: "a ! 0 = AtypDomain" and h: "ParseIP (addr_host a) = []" "bracket_free (addr_host a)"
  then obtain n r where a: "a = AtypDomain # n # r" "length r = unat n + 2" using assms(2) by (auto simp: wf_addr_cases)
  let ?h = "take (unat n) r" and ?x = "r ! unat n" and ?y = "r ! (unat n + 1)"
  have ah: "addr_host a = string_of ?h" using a(1) by (simp add: addr_host_def)
  have r: "r = ?h @ [?x, ?y]"
    using a(2) by (intro nth_equalityI) (auto simp: nth_append less_Suc_eq)
  let ?t = "JoinHostPort (string_of ?h) (nat_dec (of_be16 ?x ?y))"
  have s: "Socks_String a = Some ?t" using a by (simp add: Socks_String_def Let_def)
  have "SplitHostPort ?t = Some (string_of ?h, nat_dec (of_be16 ?x ?y))"
    by (rule Split_Join [OF h(2) [unfolded ah] nat_dec_plain])
  moreover have "length (string_of ?h) = unat n" using a(2) by (simp add: string_of_def)
  moreover have "\<not> 255 < unat n" using u8_less [of n] by simp
  ultimately have "Socks_ParseAddr B ?t = Some a"
    using h(1) [unfolded ah] r a(1)
    by (simp add: port_text Socks_ParseAddr_def pb_simps [OF assms(1)] be16_of_be16 Let_def ah)
  with s show ?thesis by blast
qed

theorem addr_text_roundtrip_witness:
  "\<exists>t. Socks_String [1, 10, 0, 0, 1, 0, 53] = Some t \<and> Socks_ParseAddr demo_pb t = Some [1, 10, 0, 0, 1, 0, 53]"
  using addr_text_roundtrip [OF demo_pb_ok, of "[1, 10, 0, 0, 1, 0, 53]"]
  by (simp add: wf_addr_def SplitAddr_def AtypV4_def AtypDomain_def)

text \<open>What \<open>ParseAddr\<close> gives is well formed.\<close>

lemma opt_list_length: "opt_list xs = Some ys \<Longrightarrow> length ys = length xs"
  by (induction xs arbitrary: ys) (auto split: option.splits)

lemma parseIPv4_length: "parseIPv4 s = Some ip \<Longrightarrow> length ip = 4"
  by (auto simp: parseIPv4_def Let_def split: if_splits dest!: opt_list_length)

lemma v6_loop_length:
  "v6_loop fuel ip ell s = Some (ip', ell', r) \<Longrightarrow> length ip + 2 * fuel \<le> 16 \<Longrightarrow> length ip' \<le> 16"
proof (induction fuel ip ell s rule: v6_loop.induct)
  case (2 fuel ip ell s)
  obtain acc off rest where t: "take_hex s 0 0 = (acc, off, rest)" by (cases "take_hex s 0 0")
  show ?case using 2 by (auto simp: t Let_def split: if_splits option.splits dest: parseIPv4_length)
qed simp

lemma ParseIP_length: "ParseIP s \<noteq> [] \<Longrightarrow> length (ParseIP s) = 16"
proof -
  have v6: "length ip = 16" if "parseIPv6 u = Some (Addr6 ip z)" for u ip z
    using that v6_loop_length [of 8 "[]"]
    by (fastforce simp: parseIPv6_def Let_def split: if_splits option.splits)
  have no4: "parseIPv6 u \<noteq> Some (Addr4 ip)" for u ip
    by (auto simp: parseIPv6_def Let_def split: if_splits option.splits)
  assume "ParseIP s \<noteq> []"
  then show ?thesis
    by (auto simp: ParseIP_def ParseAddr_def To16_def v4in6_prefix_def no4 v6
        split: option.splits netip_addr.splits if_splits list.splits dest!: parseIPv4_length)
qed

lemma Socks_ParseAddr_wf:
  assumes "pb_ok B" and "Socks_ParseAddr B s = Some a"
  shows "wf_addr a"
proof -
  obtain host port p where h: "SplitHostPort s = Some (host, port)" "parse_uint 16 port = Some p"
    using assms(2) by (auto simp: Socks_ParseAddr_def Let_def split: option.splits prod.splits)
  have n: "unat (of_nat (length host) :: u8) = length host" if "length host \<le> 255"
    using that by (simp add: unsigned_of_nat take_bit_nat_eq_self)
  consider "ParseIP host \<noteq> []" "To4 (ParseIP host) \<noteq> []" | "ParseIP host \<noteq> []" "To4 (ParseIP host) = []"
    | "ParseIP host = []" by blast
  then show ?thesis
    using assms(2) h To4_length [of "ParseIP host"] ParseIP_length [of host] n
    by cases (auto simp: Socks_ParseAddr_def Let_def pb_simps [OF assms(1)] wf_addr_cases be16_def split: if_splits)
qed

subsection \<open>Handshakes\<close>

text \<open>A name and a password that fit their length bytes.\<close>

definition fits :: "socks_user \<Rightarrow> bool" where
  "fits u \<longleftrightarrow> 0 < length (Username u) \<and> length (Username u) \<le> 255 \<and> 0 < length (Password u) \<and> length (Password u) \<le> 255"

lemma len_byte: "n \<le> 255 \<Longrightarrow> unat (of_nat n :: u8) = n"
  by (simp add: unsigned_of_nat take_bit_nat_eq_self)

lemma authMsg_bytes:
  assumes "pb_ok B"
  shows "authMsg B u = 1 # of_nat (length (Username u)) # bytes_of (Username u) @ of_nat (length (Password u)) # bytes_of (Password u)"
  by (simp add: authMsg_def pb_simps [OF assms])

lemma ServerAuth_fits:
  assumes "pb_ok B" and "fits u"
  shows "ServerAuth au \<lparr>c_in = authMsg B u @ rest, c_out = w, c_writes = None\<rparr> =
    (if Auth_Verify au (Username u) (Password u)
     then (Inr (), \<lparr>c_in = rest, c_out = w @ [5, 2, 1, 0], c_writes = None\<rparr>)
     else (Inl AuthFailed, \<lparr>c_in = rest, c_out = w @ [5, 2, 1, 1], c_writes = None\<rparr>))"
proof -
  let ?n = "length (Username u)" and ?m = "length (Password u)"
  have f: "unat (of_nat ?n :: u8) = ?n" "unat (of_nat ?m :: u8) = ?m" "?n \<noteq> 0" "?m \<noteq> 0"
    using assms(2) by (auto simp: fits_def len_byte)
  have n: "(word_of_nat ?n :: u8) \<noteq> 0" "(word_of_nat ?m :: u8) \<noteq> 0" using f by (metis unsigned_0)+
  show ?thesis unfolding authMsg_bytes [OF assms(1)]
    using f n by (simp add: ServerAuth_def auth_failed_def Let_def)
qed

text \<open> C19. The SOCKS 5 handshakes fit together: when the server asks for no authentication, or the client has a name and a
  password that fit and that the authenticator accepts, then what the client writes makes the server accept with the
  address and the command of the client, and what the server writes makes the client accept with the
  address of the server; nothing is left unread.\<close>

theorem handshake_agrees:
  assumes "pb_ok B" and "wf_addr addr" and "command \<in> {CmdConnect, CmdUDPAssociate}"
    and "Socks_ParseAddr B localAddr = Some l"
    and "\<And>au. auth = Some au \<Longrightarrow> \<exists>u. user = Some u \<and> fits u \<and> Auth_Verify au (Username u) (Password u)"
  shows "\<exists>msgs replies.
    ServerHandshake B localAddr auth (fed msgs) =
      (Inr (addr, command), \<lparr>c_in = [], c_out = replies, c_writes = None\<rparr>) \<and>
    ClientHandshake B addr command user (fed replies) =
      (Inr l, \<lparr>c_in = [], c_out = msgs, c_writes = None\<rparr>)"
proof -
  have l: "wf_addr l" by (rule Socks_ParseAddr_wf [OF assms(1,4)])
  let ?hello = "if user \<noteq> None then [5, 1, 2] else [5, 1, 0 :: u8]"
  let ?req = "[5, command, 0] @ addr" and ?rep = "[5, 0, 0] @ l"
  show ?thesis
  proof (cases auth)
    case None
    have "ServerHandshake B localAddr auth (fed (?hello @ ?req)) =
        (Inr (addr, command), \<lparr>c_in = [], c_out = [5, 0] @ ?rep, c_writes = None\<rparr>)"
      using assms(3,4) None by (auto simp: ServerHandshake_def fed_def Let_def ReadAddr_fed_all [OF assms(2)])
    moreover have "ClientHandshake B addr command user (fed ([5, 0] @ ?rep)) =
        (Inr l, \<lparr>c_in = [], c_out = ?hello @ ?req, c_writes = None\<rparr>)"
      by (simp add: ClientHandshake_def fed_def ReadAddr_fed_all [OF l])
    ultimately show ?thesis by blast
  next
    case (Some au)
    then obtain u where u: "user = Some u" "fits u" "Auth_Verify au (Username u) (Password u)" using assms(5) by blast
    have "ServerHandshake B localAddr auth (fed ([5, 1, 2] @ authMsg B u @ ?req)) =
        (Inr (addr, command), \<lparr>c_in = [], c_out = [5, 2, 1, 0] @ ?rep, c_writes = None\<rparr>)"
      using assms(3,4) Some u(3)
      by (auto simp: ServerHandshake_def fed_def Let_def ServerAuth_fits [OF assms(1) u(2)] ReadAddr_fed_all [OF assms(2)])
    moreover have "ClientHandshake B addr command user (fed ([5, 2, 1, 0] @ ?rep)) =
        (Inr l, \<lparr>c_in = [], c_out = [5, 1, 2] @ authMsg B u @ ?req, c_writes = None\<rparr>)"
      by (simp add: ClientHandshake_def fed_def u(1) ReadAddr_fed_all [OF l])
    ultimately show ?thesis by blast
  qed
qed

theorem handshake_agrees_witness:
  "\<exists>msgs replies l. ServerHandshake demo_pb ''h:1'' (NewAuthenticator (\<lambda>m. []) [\<lparr>au_User = ''u'', au_Pass = ''p''\<rparr>]) (fed msgs) =
      (Inr ([1, 10, 0, 0, 1, 0, 53], 1), \<lparr>c_in = [], c_out = replies, c_writes = None\<rparr>) \<and>
    ClientHandshake demo_pb [1, 10, 0, 0, 1, 0, 53] 1 (Some \<lparr>Username = ''u'', Password = ''p''\<rparr>) (fed replies) =
      (Inr l, \<lparr>c_in = [], c_out = msgs, c_writes = None\<rparr>)"
proof -
  have w: "wf_addr [1, 10, 0, 0, 1, 0, 53]" by (simp add: wf_addr_def SplitAddr_def AtypV4_def AtypDomain_def)
  obtain l where l: "Socks_ParseAddr demo_pb ''h:1'' = Some l"
  proof -
    have "ParseIP ''h'' = []" by (simp add: ParseIP_def ParseAddr_def)
    then show ?thesis using that
      by (simp add: Socks_ParseAddr_def SplitHostPort_def split_last_def has_char_def parse_uint_def is_digit_def Let_def
          dec_nat_def digit_val_def)
  qed
  have c: "1 \<in> {CmdConnect, CmdUDPAssociate}" by (simp add: CmdConnect_def)
  show ?thesis
    using handshake_agrees [OF demo_pb_ok w c l, of "NewAuthenticator (\<lambda>m. []) [\<lparr>au_User = ''u'', au_Pass = ''p''\<rparr>]"
        "Some \<lparr>Username = ''u'', Password = ''p''\<rparr>"]
    by (auto simp: fits_def NewAuthenticator_def Auth_Verify_def)
qed

text \<open>Wrong credentials are refused on both sides, before any request: the server ends with an authentication error
  without reading more, and the client with a rejection.\<close>

theorem handshake_refuses:
  assumes "pb_ok B" and "fits u" and "\<not> Auth_Verify au (Username u) (Password u)"
  shows "\<exists>msgs replies.
    (\<forall>rest. ServerHandshake B localAddr (Some au) (fed (msgs @ rest)) =
      (Inl AuthFailed, \<lparr>c_in = rest, c_out = replies, c_writes = None\<rparr>)) \<and>
    ClientHandshake B addr command (Some u) (fed replies) =
      (Inl SocksRejected, \<lparr>c_in = [], c_out = msgs, c_writes = None\<rparr>)"
proof -
  have "ServerHandshake B localAddr (Some au) (fed (([5, 1, 2] @ authMsg B u) @ rest)) =
      (Inl AuthFailed, \<lparr>c_in = rest, c_out = [5, 2, 1, 1], c_writes = None\<rparr>)" for rest
    using assms(3) by (simp add: ServerHandshake_def fed_def Let_def ServerAuth_fits [OF assms(1,2)])
  moreover have "ClientHandshake B addr command (Some u) (fed [5, 2, 1, 1]) =
      (Inl SocksRejected, \<lparr>c_in = [], c_out = [5, 1, 2] @ authMsg B u, c_writes = None\<rparr>)"
    by (simp add: ClientHandshake_def fed_def)
  ultimately show ?thesis by blast
qed

theorem handshake_refuses_witness:
  "\<exists>msgs s. ServerHandshake demo_pb ''h:1'' (Some \<lparr>au_storage = Map.empty, au_usernames = []\<rparr>) (fed msgs) = (Inl AuthFailed, s)"
proof -
  have "fits \<lparr>Username = ''u'', Password = ''p''\<rparr>"
    "\<not> Auth_Verify \<lparr>au_storage = Map.empty, au_usernames = []\<rparr> (Username \<lparr>Username = ''u'', Password = ''p''\<rparr>)
       (Password \<lparr>Username = ''u'', Password = ''p''\<rparr>)" by (simp_all add: fits_def Auth_Verify_def)
  from handshake_refuses [OF demo_pb_ok this] show ?thesis by blast
qed

text \<open>The client does not check that a name fits its length byte: a name of a positive multiple of 256 bytes is announced with
  length 0, and the server fails the authentication although it would accept the name and the password.\<close>

theorem long_name_is_refused:
  assumes "pb_ok B" and "length (Username u) = 256 * k"
  shows "fst (ServerHandshake B localAddr (Some au) (fed ([5, 1, 2] @ authMsg B u @ rest))) = Inl AuthFailed"
proof -
  have "(of_nat (length (Username u)) :: u8) = 0"
    unfolding assms(2) by (rule word_unat_eq_iff [THEN iffD2]) (simp only: unsigned_of_nat, simp add: take_bit_nat_def)
  then show ?thesis
    by (simp add: ServerHandshake_def ServerAuth_def auth_failed_def fed_def Let_def authMsg_bytes [OF assms(1)])
qed

theorem long_name_is_refused_witness:
  "fst (ServerHandshake demo_pb ''h:1'' (Some \<lparr>au_storage = [replicate 256 (CHR ''u'') \<mapsto> ''p''], au_usernames = []\<rparr>)
     (fed ([5, 1, 2] @ authMsg demo_pb \<lparr>Username = replicate 256 (CHR ''u''), Password = ''p''\<rparr> @ []))) = Inl AuthFailed"
  by (rule long_name_is_refused [OF demo_pb_ok, where k = 1]) simp

subsection \<open>The fast path\<close>

text \<open>\<open>ParseAddrToSocksAddr\<close> is the fast path of \<open>ParseAddr\<close> on the text of the address that its comment claims, for a
  socket address with an IPv4 address (of 4 bytes, or mapped into 16) and a port in range.\<close>

theorem fast_path_v4:
  assumes "pb_ok B" and "length (To4 ip) = 4" and "port < 65536"
  shows "ParseAddrToSocksAddr B (SocketAddr ip (int port) t) =
    Socks_ParseAddr B (JoinHostPort (IP_String ip) (nat_dec port))"
proof -
  have s: "IP_String ip = dotted (To4 ip)" using assms(2) by (auto simp: IP_String_def To4_def split: if_splits)
  have ne: "ip \<noteq> []" using assms(2) by (auto simp: To4_def)
  have "SplitHostPort (JoinHostPort (dotted (To4 ip)) (nat_dec port)) = Some (dotted (To4 ip), nat_dec port)"
    by (rule Split_Join [OF dotted_bracket_free [OF assms(2)] nat_dec_plain])
  moreover have "ParseIP (dotted (To4 ip)) = v4in6_prefix @ To4 ip"
    using assms(2) by (simp add: ParseIP_def ParseAddr_dotted To16_def)
  moreover have "To4 ip \<noteq> []" using assms(2) by auto
  moreover have "parse_uint 16 (nat_dec port) = Some port" using assms(3) by (intro parse_uint_nat_dec) simp
  ultimately show ?thesis using ne assms(2)
    by (simp add: ParseAddrToSocksAddr_def Socks_ParseAddr_def Let_def pb_simps [OF assms(1)] s)
qed

theorem fast_path_v4_witness:
  "ParseAddrToSocksAddr demo_pb (SocketAddr [10, 0, 0, 1] 53 []) =
     Socks_ParseAddr demo_pb (JoinHostPort (IP_String [10, 0, 0, 1]) (nat_dec 53))"
  using fast_path_v4 [OF demo_pb_ok, of "[10, 0, 0, 1]" 53] by (simp add: To4_def)

end
