(* ===== verification/Socks4.thy ===== *)
theory Socks4
  imports SocksProps
begin

text \<open>
  The SOCKS 4 and 4a handshakes of \<open>src/pkg/clash/transport/socks4/socks4.go\<close>, and that both sides agree. IPv4
  addresses of \<open>netip\<close> are their four bytes.
\<close>

subsection \<open>Model\<close>

definition Socks4_Version :: u8 where "Socks4_Version = 4"
definition Socks4_CmdConnect :: u8 where "Socks4_CmdConnect = 1"
definition RequestGranted :: u8 where "RequestGranted = 90"
definition RequestRejected :: u8 where "RequestRejected = 91"
definition RequestIdentdFailed :: u8 where "RequestIdentdFailed = 92"
definition RequestIdentdMismatched :: u8 where "RequestIdentdMismatched = 93"

definition isReservedIP :: "go_ip \<Rightarrow> bool" where
  "isReservedIP ip =
     (ip \<noteq> [0, 0, 0, 0] \<and> Prefix_Contains \<lparr>pfx_addr = Addr4 [0, 0, 0, 0], pfx_bits = 24\<rparr> (Addr4 ip))"

fun until_null :: "protobytes \<Rightarrow> u8 list \<Rightarrow> u8 list \<Rightarrow> (io_error + u8 list) \<times> u8 list" where
  "until_null B buf [] = (Inl EOF, [])"
| "until_null B buf (b # r) = (if b = 0 then (Inr buf, r) else until_null B (PutUint8 B buf b) r)"

definition readUntilNull :: "protobytes \<Rightarrow> u8 list io" where
  "readUntilNull B s = (case until_null B [] (c_in s) of (res, rest) \<Rightarrow> (res, s\<lparr>c_in := rest\<rparr>))"

definition Socks4_reply :: "protobytes \<Rightarrow> u8 \<Rightarrow> u16 \<Rightarrow> go_ip \<Rightarrow> u8 list" where
  "Socks4_reply B code dstPort dstAddr =
     PutSlice B (PutUint16be B (PutUint8 B (PutUint8 B [] 0) code) dstPort) dstAddr"

definition Socks4_ServerHandshake :: "protobytes \<Rightarrow> authenticator option \<Rightarrow> (string \<times> u8) io" where
  "Socks4_ServerHandshake B au =
     io_bind (ReadFull 8) (\<lambda>req.
     let (version, r1) = ReadUint8 B req in
     if version \<noteq> Socks4_Version then io_fail VersionMismatched
     else let (command, r2) = ReadUint8 B r1 in
     if command \<noteq> Socks4_CmdConnect then io_fail CommandNotSupported4
     else io_bind (readUntilNull B) (\<lambda>userID.
     let (dstPort, r3) = ReadUint16be B r2; (dstAddr, r4) = ReadIPv4 B r3 in
     io_bind (if isReservedIP dstAddr then readUntilNull B else io_ret []) (\<lambda>target.
     let host = string_of target; port = nat_dec (unat dstPort);
         addr = (if host \<noteq> [] then JoinHostPort host port else JoinHostPort (dotted dstAddr) port);
         ok = (case au of None \<Rightarrow> True | Some a \<Rightarrow> Auth_Verify a (string_of userID) []) in
     if ok then
       io_bind (conn_Write (Socks4_reply B RequestGranted dstPort dstAddr)) (\<lambda>_. io_ret (addr, command))
     else
       io_bind (write_ignore (Socks4_reply B RequestIdentdMismatched dstPort dstAddr)) (\<lambda>_. io_fail IdentdMismatched))))"

definition Socks4_request :: "protobytes \<Rightarrow> u8 \<Rightarrow> u16 \<Rightarrow> go_ip \<Rightarrow> string \<Rightarrow> string \<Rightarrow> u8 list" where
  "Socks4_request B command port ip userID host =
     (let req = PutUint8 B (PutString B (PutSlice B (PutUint16be B (PutUint8 B (PutUint8 B [] Socks4_Version) command) port)
         ip) userID) 0
      in if isReservedIP ip then PutUint8 B (PutString B req host) 0 else req)"

definition Socks4_ClientHandshake :: "protobytes \<Rightarrow> string \<Rightarrow> u8 \<Rightarrow> string \<Rightarrow> unit io" where
  "Socks4_ClientHandshake B addr command userID =
     (case SplitHostPort addr of
        None \<Rightarrow> io_fail BadAddress
      | Some (host, portStr) \<Rightarrow>
          (case parse_uint 16 portStr of
             None \<Rightarrow> io_fail BadAddress
           | Some port \<Rightarrow>
               (case (case ParseAddr host of
                        None \<Rightarrow> Some [0, 0, 0, 1] | Some (Addr6 _ _) \<Rightarrow> None | Some (Addr4 ip) \<Rightarrow> Some ip) of
                  None \<Rightarrow> io_fail IPv6NotSupported
                | Some ip \<Rightarrow>
                    io_bind (conn_Write (Socks4_request B command (of_nat port) ip userID host)) (\<lambda>_.
                    io_bind (ReadFull 8) (\<lambda>resp.
                      if resp ! 0 \<noteq> 0 then io_fail VersionMismatched
                      else if resp ! 1 = RequestGranted then io_ret ()
                      else if resp ! 1 = RequestRejected then io_fail RequestRefused
                      else if resp ! 1 = RequestIdentdFailed then io_fail IdentdFailed
                      else if resp ! 1 = RequestIdentdMismatched then io_fail IdentdMismatched
                      else io_fail UnknownCode)))))"

subsection \<open>Agreement\<close>

lemma until_null_found:
  assumes "pb_ok B" and "0 \<notin> set u"
  shows "until_null B buf (u @ 0 # r) = (Inr (buf @ u), r)"
  using assms(2) by (induction u arbitrary: buf) (simp_all add: pb_simps [OF assms(1)])

lemma readUntilNull_fed:
  assumes "pb_ok B" and "0 \<notin> set u"
  shows "readUntilNull B \<lparr>c_in = u @ 0 # r, c_out = w, c_writes = l\<rparr> = (Inr u, \<lparr>c_in = r, c_out = w, c_writes = l\<rparr>)"
  by (simp add: readUntilNull_def until_null_found [OF assms])

text \<open>A text without the character NUL.\<close>

definition no_nul :: "string \<Rightarrow> bool" where
  "no_nul s \<longleftrightarrow> CHR 0x00 \<notin> set s"

lemma no_nul_bytes: "no_nul s \<Longrightarrow> 0 \<notin> set (bytes_of s)"
proof
  assume n: "no_nul s" and "0 \<in> set (bytes_of s)"
  then obtain c where c: "c \<in> set s" "(of_char c :: u8) = 0" by (auto simp: bytes_of_def)
  have "string_of (bytes_of [c]) = [c]" by simp
  then have "char_of (0 :: nat) = c" using c(2) by (simp add: bytes_of_def string_of_def)
  then show False using n c(1) by (simp add: no_nul_def char_of_def)
qed

text \<open>The hosts a client can ask for: an IPv4 address in the usual form, or a name that is no address.\<close>

definition socks4_host :: "string \<Rightarrow> go_ip \<Rightarrow> bool" where
  "socks4_host host ip \<longleftrightarrow>
     length ip = 4 \<and> host = dotted ip \<or>
     ParseAddr host = None \<and> ip = [0, 0, 0, 1] \<and> host \<noteq> [] \<and> no_nul host \<and> bracket_free host"

lemma dotted_no_nul: "length ip = 4 \<Longrightarrow> no_nul (dotted ip)"
  by (simp add: no_nul_def dotted_free is_digit_def)

lemma reserved_test: "isReservedIP [0, 0, 0, 1]"
  by (simp add: isReservedIP_def Prefix_Contains_def ip_bits_def byte_bits_def)

text \<open>The SOCKS 4 handshakes fit together: for an IPv4 address in the usual form or a name, the request of the client makes
  the server see exactly the address that was asked for, and both sides agree whether the user was accepted.\<close>

theorem socks4_agrees:
  assumes "pb_ok B" and "socks4_host host ip" and "port < 65536" and "no_nul userID"
  shows "\<exists>msgs replies.
    Socks4_ServerHandshake B au (fed msgs) =
      (if au = None \<or> (\<exists>a. au = Some a \<and> Auth_Verify a userID [])
       then Inr (JoinHostPort host (nat_dec port), Socks4_CmdConnect) else Inl IdentdMismatched,
       \<lparr>c_in = [], c_out = replies, c_writes = None\<rparr>) \<and>
    Socks4_ClientHandshake B (JoinHostPort host (nat_dec port)) Socks4_CmdConnect userID (fed replies) =
      (if au = None \<or> (\<exists>a. au = Some a \<and> Auth_Verify a userID [])
       then Inr () else Inl IdentdMismatched,
       \<lparr>c_in = [], c_out = msgs, c_writes = None\<rparr>)"
proof -
  note pb = pb_simps [OF assms(1)]
  define p :: u16 where "p = of_nat port"
  have p: "unat p = port" using assms(3) by (simp add: p_def unsigned_of_nat take_bit_nat_eq_self)
  define ok where "ok \<longleftrightarrow> au = None \<or> (\<exists>a. au = Some a \<and> Auth_Verify a userID [])"
  have okc: "(case au of None \<Rightarrow> True | Some a \<Rightarrow> Auth_Verify a (string_of (bytes_of userID)) []) = ok"
    by (auto simp: ok_def split: option.splits)
  have len: "length ip = 4" using assms(2) by (auto simp: socks4_host_def)
  then obtain a b c d where ip: "ip = [a, b, c, d]" using length4_cases by blast
  have host: "host \<noteq> []" "no_nul host" "bracket_free host"
    using assms(2) dotted_no_nul [OF len] dotted_bracket_free [OF len] ip
    by (auto simp: socks4_host_def, auto simp: dotted_def)
  have target: "(if isReservedIP ip then JoinHostPort host q else JoinHostPort (dotted ip) q) = JoinHostPort host q" for q
    using assms(2) reserved_test by (auto simp: socks4_host_def)
  let ?msgs = "Socks4_request B Socks4_CmdConnect p ip userID host"
  let ?rep = "Socks4_reply B (if ok then RequestGranted else RequestIdentdMismatched) p ip"
  have msgs: "?msgs = [4, 1] @ be16 p @ ip @ bytes_of userID @ 0 # (if isReservedIP ip then bytes_of host @ [0] else [])"
    by (simp add: Socks4_request_def pb Let_def Socks4_Version_def Socks4_CmdConnect_def)
  have "Socks4_ServerHandshake B au (fed ?msgs) =
      (if ok then Inr (JoinHostPort host (nat_dec port), Socks4_CmdConnect) else Inl IdentdMismatched,
       \<lparr>c_in = [], c_out = ?rep, c_writes = None\<rparr>)"
  proof -
    let ?rest = "bytes_of userID @ 0 # (if isReservedIP ip then bytes_of host @ [0] else [])"
    have r8: "ReadFull 8 (fed ?msgs) = (Inr ([4, 1] @ be16 p @ ip), \<lparr>c_in = ?rest, c_out = [], c_writes = None\<rparr>)"
      unfolding msgs fed_def using ReadFull_append [of "[4, 1] @ be16 p @ ip" 8 ?rest] len
      by (simp add: be16_def)
    have u: "readUntilNull B \<lparr>c_in = bytes_of userID @ 0 # r, c_out = w, c_writes = l\<rparr> =
        (Inr (bytes_of userID), \<lparr>c_in = r, c_out = w, c_writes = l\<rparr>)" for r w l
      by (rule readUntilNull_fed [OF assms(1) no_nul_bytes [OF assms(4)]])
    have h: "readUntilNull B \<lparr>c_in = bytes_of host @ [0], c_out = w, c_writes = l\<rparr> =
        (Inr (bytes_of host), \<lparr>c_in = [], c_out = w, c_writes = l\<rparr>)" for w l
      by (rule readUntilNull_fed [OF assms(1) no_nul_bytes [OF host(2)]])
    have e: "string_of [] = []" by (simp add: string_of_def)
    show ?thesis unfolding Socks4_ServerHandshake_def io_bind_Inr [of "ReadFull 8", OF r8]
      using host(1) target [of "nat_dec port"] p
      by (cases "isReservedIP [a, b, c, d]"; cases ok)
        (simp_all add: u h pb ip okc Let_def Socks4_Version_def Socks4_CmdConnect_def e)
  qed
  moreover have "Socks4_ClientHandshake B (JoinHostPort host (nat_dec port)) Socks4_CmdConnect userID (fed ?rep) =
      (if ok then Inr () else Inl IdentdMismatched, \<lparr>c_in = [], c_out = ?msgs, c_writes = None\<rparr>)"
  proof -
    have s: "SplitHostPort (JoinHostPort host (nat_dec port)) = Some (host, nat_dec port)"
      by (rule Split_Join [OF host(3) nat_dec_plain])
    have a: "(case ParseAddr host of
        None \<Rightarrow> Some [0, 0, 0, 1] | Some (Addr6 _ _) \<Rightarrow> None | Some (Addr4 ip) \<Rightarrow> Some ip) = Some ip"
      using assms(2) by (auto simp: socks4_host_def ParseAddr_dotted)
    have q: "parse_uint 16 (nat_dec port) = Some port" using assms(3) by (intro parse_uint_nat_dec) simp
    show ?thesis unfolding Socks4_ClientHandshake_def s
      by (simp add: a q p_def [symmetric] fed_def Socks4_reply_def pb be16_def ip RequestGranted_def
          RequestIdentdMismatched_def RequestRejected_def RequestIdentdFailed_def)
  qed
  ultimately show ?thesis unfolding ok_def [symmetric] by blast
qed

theorem socks4_agrees_witness:
  "\<exists>msgs replies s. Socks4_ServerHandshake demo_pb None (fed msgs) = (Inr (JoinHostPort ''h'' (nat_dec 80), 1), s) \<and>
     Socks4_ClientHandshake demo_pb (JoinHostPort ''h'' (nat_dec 80)) Socks4_CmdConnect ''u'' (fed replies) =
       (Inr (), \<lparr>c_in = [], c_out = msgs, c_writes = None\<rparr>)"
proof -
  have "socks4_host ''h'' [0, 0, 0, 1]"
    by (simp add: socks4_host_def ParseAddr_def no_nul_def bracket_free_def)
  moreover have "no_nul ''u''" by (simp add: no_nul_def)
  ultimately show ?thesis using socks4_agrees [OF demo_pb_ok, of "''h''" "[0, 0, 0, 1]" 80 "''u''" None]
    by (fastforce simp: Socks4_CmdConnect_def)
qed

end
