(* ===== verification/Configuration.thy ===== *)
theory Configuration
  imports RuleEngine ErrState
begin

text \<open>
  The configuration file of \<open>src/internal/configuration/\<close>: reading, writing and every operation that edits
  it. A configuration is a record, a proxy a map from keys to JSON values. The file system holds the text of the one
  file, whether its path is a directory, the outcomes of the next writes and the next random identifiers.

  Parameters: the JSON codec (\<open>json\<close>), where \<open>unmarshal\<close> gets the value it fills and returns what it filled beside
  whether it succeeded, as \<open>json.Unmarshal\<close> does; \<open>adapter.ParseProxy\<close>, of which only success matters here
  (\<open>parse_ok\<close>). A nil slice and an empty one, and a nil map and an empty one, are not told apart.
\<close>

subsection \<open>Data (config.go)\<close>

datatype jval = JNull | JBool bool | JNum int | JStr string | JArr "jval list" | JObj "(string \<times> jval) list"

type_synonym proxy = "string \<Rightarrow> jval option"

record subscription =
  sub_Id :: string
  sub_Url :: string
  sub_Name :: string
  sub_Remark :: string

record local_server =
  ls_Port :: int
  ls_AllowLan :: bool

record auto_mode =
  am_Enabled :: bool
  am_Type :: string
  am_Url :: string

record hijack_dns =
  hd_Enabled :: bool
  hd_NetworkService :: string
  hd_AlwaysReset :: bool

record dns_setting =
  dn_DisableCache :: bool
  dn_Boost :: "string list"
  dn_Remote :: "string list"
  dn_Local :: "string list"
  dn_CustomizedOptions :: "string list"
  dn_FakeIp :: bool

record setting_cfg =
  sg_Mode :: string
  sg_DefaultInterface :: string
  sg_LocalServer :: local_server
  sg_AutoMode :: auto_mode
  sg_HijackDns :: hijack_dns
  sg_Dns :: dns_setting
  sg_Language :: string
  sg_BlockQuic :: bool
  sg_Stack :: string
  sg_ShouldFindProcess :: bool
  sg_Theme :: string
  sg_AutoConnect :: bool
  sg_AutoLaunch :: bool
  sg_SensitiveInfoMode :: bool

record config =
  cf_Proxy :: "proxy list"
  cf_Subscriptions :: "subscription list"
  cf_SelectedProxy :: string
  cf_SelectedRule :: string
  cf_Setting :: setting_cfg
  cf_Rules :: "string list"

definition empty_setting :: setting_cfg where
  "empty_setting = \<lparr>sg_Mode = [], sg_DefaultInterface = [], sg_LocalServer = \<lparr>ls_Port = 0, ls_AllowLan = False\<rparr>,
     sg_AutoMode = \<lparr>am_Enabled = False, am_Type = [], am_Url = []\<rparr>,
     sg_HijackDns = \<lparr>hd_Enabled = False, hd_NetworkService = [], hd_AlwaysReset = False\<rparr>,
     sg_Dns = \<lparr>dn_DisableCache = False, dn_Boost = [], dn_Remote = [], dn_Local = [], dn_CustomizedOptions = [],
       dn_FakeIp = False\<rparr>,
     sg_Language = [], sg_BlockQuic = False, sg_Stack = [], sg_ShouldFindProcess = False, sg_Theme = [],
     sg_AutoConnect = False, sg_AutoLaunch = False, sg_SensitiveInfoMode = False\<rparr>"

definition empty_config :: config where
  "empty_config = \<lparr>cf_Proxy = [], cf_Subscriptions = [], cf_SelectedProxy = [], cf_SelectedRule = [],
     cf_Setting = empty_setting, cf_Rules = []\<rparr>"

subsection \<open>The file (file.go)\<close>

datatype cfg_error =
    CfgOpen | CfgWrite | CfgReadFile | CfgUnmarshal | CfgMarshal | CfgUuid | CfgParseProxy | CfgNotFound
  | CfgDuplicate | CfgRule rule_error | CfgField | CfgMode | CfgEmptyDns | CfgServer

record json =
  unmarshal :: "string \<Rightarrow> config \<Rightarrow> config \<times> bool"
  marshal :: "config \<Rightarrow> string option"
  default_content :: string

text \<open>What the next write does: it works, the file cannot be opened, or only a prefix is written to the truncated file.\<close>

datatype write_outcome = WriteOk | OpenFails | WriteFails nat

record cfg_fs =
  fs_file :: "string option"
  fs_isDir :: bool
  fs_readable :: bool
  fs_writes :: "write_outcome list"
  fs_uuids :: "string option list"

type_synonym 'a cfg = "(cfg_fs, cfg_error, 'a) comp"

definition cfg_write :: "string \<Rightarrow> unit cfg" where
  "cfg_write text s =
     (case (if fs_isDir s then OpenFails else case fs_writes s of [] \<Rightarrow> WriteOk | w # _ \<Rightarrow> w) of
        WriteOk \<Rightarrow> (Inr (), s\<lparr>fs_file := Some text, fs_writes := tl (fs_writes s)\<rparr>)
      | OpenFails \<Rightarrow> (Inl CfgOpen, s\<lparr>fs_writes := tl (fs_writes s)\<rparr>)
      | WriteFails n \<Rightarrow> (Inl CfgWrite, s\<lparr>fs_file := Some (take n text), fs_writes := tl (fs_writes s)\<rparr>))"

definition fileExists :: "cfg_fs \<Rightarrow> bool" where
  "fileExists s = (fs_file s \<noteq> None \<and> \<not> fs_isDir s)"

text \<open>A text that does not parse is replaced by the default, parsed into what was already filled.\<close>

definition parse_config :: "json \<Rightarrow> string \<Rightarrow> cfg_error + config" where
  "parse_config J text =
     (case unmarshal J text empty_config of
        (c, True) \<Rightarrow> Inr c
      | (c, False) \<Rightarrow>
          (case unmarshal J (default_content J) c of (c', True) \<Rightarrow> Inr c' | (_, False) \<Rightarrow> Inl CfgUnmarshal))"

definition cfg_readFile :: "json \<Rightarrow> config cfg" where
  "cfg_readFile J s0 =
     io_bind (if \<not> fileExists s0 then cfg_write (default_content J) else io_ret ()) (\<lambda>_ s.
       (case fs_file s of
          None \<Rightarrow> (Inl CfgReadFile, s)
        | Some text \<Rightarrow> if fs_isDir s \<or> \<not> fs_readable s then (Inl CfgReadFile, s) else (parse_config J text, s))) s0"

definition migrate :: "config \<Rightarrow> config" where
  "migrate c =
     (let g = cf_Setting c;
          g1 = (if length (sg_Stack g) = 0 then g\<lparr>sg_Stack := ''gvisor''\<rparr> else g);
          g2 = (if length (sg_Theme g1) = 0 then g1\<lparr>sg_Theme := ''system''\<rparr> else g1)
      in c\<lparr>cf_Setting := g2\<rparr>)"

definition cfg_Read :: "json \<Rightarrow> config cfg" where
  "cfg_Read J = io_bind (cfg_readFile J) (\<lambda>c. io_ret (migrate c))"

definition writeFile :: "json \<Rightarrow> config \<Rightarrow> unit cfg" where
  "writeFile J c = (case marshal J c of None \<Rightarrow> io_fail CfgMarshal | Some buf \<Rightarrow> cfg_write buf)"

definition cfg_Write :: "json \<Rightarrow> config \<Rightarrow> unit cfg" where
  "cfg_Write J c = writeFile J c"

definition cfg_Reset :: "json \<Rightarrow> unit cfg" where
  "cfg_Reset J = cfg_write (default_content J)"

definition NewV4 :: "string cfg" where
  "NewV4 s =
     (case fs_uuids s of
        Some u # us \<Rightarrow> (Inr u, s\<lparr>fs_uuids := us\<rparr>)
      | None # us \<Rightarrow> (Inl CfgUuid, s\<lparr>fs_uuids := us\<rparr>)
      | [] \<Rightarrow> (Inl CfgUuid, s))"

subsection \<open>Proxies (proxy.go)\<close>

definition str_of :: "jval option \<Rightarrow> string option" where
  "str_of v = (case v of Some (JStr s) \<Rightarrow> Some s | _ \<Rightarrow> None)"

definition has_id :: "string \<Rightarrow> proxy \<Rightarrow> bool" where
  "has_id pid v = (v ''id'' = Some (JStr pid))"

definition find_proxy :: "string \<Rightarrow> config \<Rightarrow> cfg_error + proxy" where
  "find_proxy pid c = (case List.find (has_id pid) (cf_Proxy c) of None \<Rightarrow> Inl CfgNotFound | Some v \<Rightarrow> Inr v)"

definition Cfg_GetProxy :: "json \<Rightarrow> string \<Rightarrow> proxy cfg" where
  "Cfg_GetProxy J pid = io_bind (cfg_Read J) (\<lambda>c. io_lift (find_proxy pid c))"

definition GetSelectedProxy :: "json \<Rightarrow> proxy cfg" where
  "GetSelectedProxy J = io_bind (cfg_Read J) (\<lambda>c. Cfg_GetProxy J (cf_SelectedProxy c))"

definition GetProxies :: "json \<Rightarrow> proxy list cfg" where
  "GetProxies J = io_bind (cfg_Read J) (\<lambda>c. io_ret (cf_Proxy c))"

definition GetSubscriptions :: "json \<Rightarrow> subscription list cfg" where
  "GetSubscriptions J = io_bind (cfg_Read J) (\<lambda>c. io_ret (cf_Subscriptions c))"

definition DeleteSubscription :: "json \<Rightarrow> string \<Rightarrow> unit cfg" where
  "DeleteSubscription J pid = io_bind (cfg_Read J) (\<lambda>data.
     cfg_Write J (data\<lparr>cf_Subscriptions := filter (\<lambda>s. sub_Id s \<noteq> pid) (cf_Subscriptions data),
       cf_Proxy := filter (\<lambda>v. case str_of (v ''subscription'') of None \<Rightarrow> True | Some sid \<Rightarrow> sid \<noteq> pid) (cf_Proxy data)\<rparr>))"

definition DeleteProxies :: "json \<Rightarrow> string list \<Rightarrow> unit cfg" where
  "DeleteProxies J ids = io_bind (cfg_Read J) (\<lambda>data.
     cfg_Write J (data\<lparr>cf_Proxy := filter (\<lambda>v. case str_of (v ''id'') of None \<Rightarrow> False
       | Some pid \<Rightarrow> length pid \<noteq> 0 \<and> pid \<notin> set ids) (cf_Proxy data)\<rparr>))"

definition DeleteAllProxies :: "json \<Rightarrow> unit cfg" where
  "DeleteAllProxies J = io_bind (cfg_Read J) (\<lambda>data. cfg_Write J (data\<lparr>cf_Proxy := []\<rparr>))"

text \<open>The loop that replaces the first entry with the identifier.\<close>

fun replace_first :: "('a \<Rightarrow> bool) \<Rightarrow> 'a \<Rightarrow> 'a list \<Rightarrow> 'a list" where
  "replace_first P x [] = []"
| "replace_first P x (v # vs) = (if P v then x # vs else v # replace_first P x vs)"

definition Cfg_UpdateProxy :: "json \<Rightarrow> (proxy \<Rightarrow> bool) \<Rightarrow> string \<Rightarrow> proxy \<Rightarrow> unit cfg" where
  "Cfg_UpdateProxy J parse_ok pid p =
     (if \<not> parse_ok p then io_fail CfgParseProxy
      else io_bind (cfg_Read J) (\<lambda>c. cfg_Write J (c\<lparr>cf_Proxy := replace_first (has_id pid) p (cf_Proxy c)\<rparr>)))"

definition checkIsValidStr :: "jval option \<Rightarrow> string \<times> bool" where
  "checkIsValidStr value =
     (case str_of value of
        None \<Rightarrow> ([], False)
      | Some str \<Rightarrow> if length (trim_space str) = 0 then ([], False) else (str, True))"

text \<open>The loops over the proxies of a subscription. In the second one every proxy gets a new identifier.\<close>

fun add_proxies :: "(proxy \<Rightarrow> bool) \<Rightarrow> string \<Rightarrow> proxy list \<Rightarrow> proxy list cfg" where
  "add_proxies parse_ok sid [] = io_ret []"
| "add_proxies parse_ok sid (p # ps) =
     (if \<not> parse_ok p then io_fail CfgParseProxy
      else io_bind (if \<not> snd (checkIsValidStr (p ''id'')) then io_bind NewV4 (\<lambda>u. io_ret (p(''id'' \<mapsto> JStr u))) else io_ret p)
        (\<lambda>q. io_bind (add_proxies parse_ok sid ps) (\<lambda>qs. io_ret (q(''subscription'' \<mapsto> JStr sid) # qs))))"

fun renew_proxies :: "(proxy \<Rightarrow> bool) \<Rightarrow> string \<Rightarrow> proxy list \<Rightarrow> proxy list cfg" where
  "renew_proxies parse_ok sid [] = io_ret []"
| "renew_proxies parse_ok sid (p # ps) =
     (if \<not> parse_ok p then io_fail CfgParseProxy
      else io_bind NewV4 (\<lambda>u. io_bind (renew_proxies parse_ok sid ps) (\<lambda>qs.
        io_ret (p(''id'' \<mapsto> JStr u, ''subscription'' \<mapsto> JStr sid) # qs))))"

definition AddSubscription ::
  "json \<Rightarrow> (proxy \<Rightarrow> bool) \<Rightarrow> proxy list \<Rightarrow> string \<Rightarrow> string \<Rightarrow> string \<Rightarrow> (proxy list \<times> subscription list) cfg" where
  "AddSubscription J parse_ok proxies url name remark =
     io_bind (cfg_Read J) (\<lambda>data. io_bind NewV4 (\<lambda>sid. io_bind (add_proxies parse_ok sid proxies) (\<lambda>qs.
       let data' = data\<lparr>cf_Proxy := cf_Proxy data @ qs, cf_Subscriptions := cf_Subscriptions data @
             [\<lparr>sub_Id = sid, sub_Url = url, sub_Name = name, sub_Remark = remark\<rparr>]\<rparr>
       in io_bind (cfg_Write J data') (\<lambda>_. io_ret (cf_Proxy data', cf_Subscriptions data')))))"

definition UpdateSubscription :: "json \<Rightarrow> subscription \<Rightarrow> unit cfg" where
  "UpdateSubscription J sub = io_bind (cfg_Read J) (\<lambda>c.
     cfg_Write J (c\<lparr>cf_Subscriptions := replace_first (\<lambda>v. sub_Id v = sub_Id sub) sub (cf_Subscriptions c)\<rparr>))"

definition UpdateSubscriptionProxies :: "json \<Rightarrow> (proxy \<Rightarrow> bool) \<Rightarrow> string \<Rightarrow> proxy list \<Rightarrow> proxy list cfg" where
  "UpdateSubscriptionProxies J parse_ok sid proxies = io_bind (cfg_Read J) (\<lambda>c.
     io_bind (renew_proxies parse_ok sid proxies) (\<lambda>qs.
       let ps = filter (\<lambda>p. str_of (p ''subscription'') \<noteq> Some sid) (cf_Proxy c) @ qs
       in io_bind (cfg_Write J (c\<lparr>cf_Proxy := ps\<rparr>)) (\<lambda>_. io_ret ps)))"

definition Cfg_AddProxy :: "json \<Rightarrow> (proxy \<Rightarrow> bool) \<Rightarrow> proxy \<Rightarrow> string cfg" where
  "Cfg_AddProxy J parse_ok p =
     (if \<not> parse_ok p then io_fail CfgParseProxy
      else io_bind (cfg_Read J) (\<lambda>data. io_bind NewV4 (\<lambda>u.
        io_bind (cfg_Write J (data\<lparr>cf_Proxy := cf_Proxy data @ [p(''id'' \<mapsto> JStr u)]\<rparr>)) (\<lambda>_. io_ret u))))"

subsection \<open>Rules (rule.go)\<close>

definition GetSelectedRule :: "json \<Rightarrow> string cfg" where
  "GetSelectedRule J = io_bind (cfg_Read J) (\<lambda>c. io_ret (cf_SelectedRule c))"

fun add_rules :: "string list \<Rightarrow> string list \<Rightarrow> cfg_error + string list" where
  "add_rules [] rs = Inr rs"
| "add_rules (x # xs) rs =
     (let f = trim_space x in
      if f \<in> set rs then Inl CfgDuplicate
      else (case ParseRawValue f of Inl e \<Rightarrow> Inl (CfgRule e) | Inr _ \<Rightarrow> add_rules xs (rs @ [f])))"

definition AddCustomizedRule :: "json \<Rightarrow> string list \<Rightarrow> unit cfg" where
  "AddCustomizedRule J rules = io_bind (cfg_Read J) (\<lambda>c.
     io_bind (io_lift (add_rules rules (cf_Rules c))) (\<lambda>rs. cfg_Write J (c\<lparr>cf_Rules := rs\<rparr>)))"

fun delete_rules :: "string list \<Rightarrow> string list \<Rightarrow> cfg_error + string list" where
  "delete_rules [] rs = Inr rs"
| "delete_rules (x # xs) rs =
     (case ParseRawValue x of Inl e \<Rightarrow> Inl (CfgRule e) | Inr _ \<Rightarrow> delete_rules xs (filter (\<lambda>i. i \<noteq> x) rs))"

definition DeleteCustomizedRule :: "json \<Rightarrow> string list \<Rightarrow> unit cfg" where
  "DeleteCustomizedRule J rules = io_bind (cfg_Read J) (\<lambda>c.
     io_bind (io_lift (delete_rules rules (cf_Rules c))) (\<lambda>rs. cfg_Write J (c\<lparr>cf_Rules := rs\<rparr>)))"

definition GetCustomizedRules :: "json \<Rightarrow> rule list cfg" where
  "GetCustomizedRules J = io_bind (cfg_Read J) (\<lambda>c.
     io_ret (List.map_filter (\<lambda>l. case ParseRawValue l of Inl _ \<Rightarrow> None | Inr r \<Rightarrow> Some r) (cf_Rules c)))"

definition EditCustomizedRule :: "json \<Rightarrow> string \<Rightarrow> string \<Rightarrow> unit cfg" where
  "EditCustomizedRule J oldRule newRule = io_bind (cfg_Read J) (\<lambda>c.
     cfg_Write J (c\<lparr>cf_Rules := replace_first (\<lambda>r. r = oldRule) newRule (cf_Rules c)\<rparr>))"

definition GetBuiltInRules :: "(string \<Rightarrow> string option) \<Rightarrow> string \<Rightarrow> rule_error + rule list" where
  "GetBuiltInRules files pid = Parse files pid []"

subsection \<open>Selection and settings (selected.go, setting.go)\<close>

definition GetSelectedId :: "json \<Rightarrow> string \<Rightarrow> string cfg" where
  "GetSelectedId J bucket = io_bind (cfg_Read J) (\<lambda>c.
     if bucket = ''rule'' then io_ret (cf_SelectedRule c)
     else if bucket = ''proxy'' then io_ret (cf_SelectedProxy c) else io_fail CfgField)"

definition SetSelectedId :: "json \<Rightarrow> string \<Rightarrow> string \<Rightarrow> unit cfg" where
  "SetSelectedId J bucket pid = io_bind (cfg_Read J) (\<lambda>c.
     if bucket = ''rule'' then cfg_Write J (c\<lparr>cf_SelectedRule := pid\<rparr>)
     else if bucket = ''proxy'' then cfg_Write J (c\<lparr>cf_SelectedProxy := pid\<rparr>) else io_fail CfgField)"

definition GetSetting :: "json \<Rightarrow> setting_cfg cfg" where
  "GetSetting J = io_bind (cfg_Read J) (\<lambda>c. io_ret (cf_Setting c))"

definition SetSetting :: "json \<Rightarrow> setting_cfg \<Rightarrow> unit cfg" where
  "SetSetting J data = io_bind (cfg_Read J) (\<lambda>c. cfg_Write J (c\<lparr>cf_Setting := data\<rparr>))"

end
