(* ===== verification/ConfigProps.thy ===== *)
theory ConfigProps
  imports Configuration RuleProps
begin

text \<open>
  What the configuration file promises: an edit that fails changes nothing, an added proxy is found again, the
  customized rules stay valid lines without duplicates; and where it does not keep a promise: editing a rule, deleting
  proxies, and edits that overlap.
\<close>

subsection \<open>A file in order\<close>

text \<open>The file can be read and holds the configuration \<open>c\<close>; and the writes work too.\<close>

definition in_order :: "json \<Rightarrow> cfg_fs \<Rightarrow> config \<Rightarrow> bool" where
  "in_order J s c \<longleftrightarrow> \<not> fs_isDir s \<and> fs_readable s \<and> (\<exists>t c0. fs_file s = Some t \<and> parse_config J t = Inr c0 \<and> migrate c0 = c)"

definition healthy :: "json \<Rightarrow> cfg_fs \<Rightarrow> config \<Rightarrow> bool" where
  "healthy J s c \<longleftrightarrow> in_order J s c \<and> fs_writes s = []"

lemma healthy_in_order: "healthy J s c \<Longrightarrow> in_order J s c"
  by (simp add: healthy_def)

text \<open>The codec reads back what it writes for \<open>c\<close>.\<close>

definition json_stable :: "json \<Rightarrow> config \<Rightarrow> bool" where
  "json_stable J c \<longleftrightarrow> (\<exists>t. marshal J c = Some t \<and> unmarshal J t empty_config = (c, True))"

lemma Read_in_order: "in_order J s c \<Longrightarrow> cfg_Read J s = (Inr c, s)"
  by (auto simp: in_order_def cfg_Read_def cfg_readFile_def fileExists_def io_bind_def io_ret_def)

lemmas Read_healthy = Read_in_order [OF healthy_in_order]

text \<open>How a write ends: a prefix is left when the file was opened, and with that truncated, before the error.\<close>

lemma Write_cases:
  assumes "in_order J s c" and "cfg_Write J c' s = (Inl e, s')"
  shows "if e = CfgWrite
    then \<exists>t n. marshal J c' = Some t \<and> fs_writes s \<noteq> [] \<and> hd (fs_writes s) = WriteFails n \<and> fs_file s' = Some (take n t)
    else in_order J s' c"
  using assms
  by (cases "fs_writes s") (auto simp: in_order_def cfg_Write_def writeFile_def cfg_write_def io_fail_def split: option.splits write_outcome.splits)

lemma Write_healthy_cases:
  assumes "healthy J s c" and "cfg_Write J c' s = (r, s')"
  shows "(\<exists>e. r = Inl e) \<and> s' = s \<or> r = Inr () \<and> (\<exists>t. marshal J c' = Some t \<and> s' = s\<lparr>fs_file := Some t\<rparr>)"
  using assms by (auto simp: healthy_def in_order_def cfg_Write_def writeFile_def cfg_write_def io_fail_def split: option.splits)

lemma Write_stable:
  assumes "healthy J s c" and "json_stable J c'"
  obtains s' where "cfg_Write J c' s = (Inr (), s')" and "healthy J s' (migrate c')" and "fs_uuids s' = fs_uuids s"
proof -
  obtain t where t: "marshal J c' = Some t" "unmarshal J t empty_config = (c', True)"
    using assms(2) by (auto simp: json_stable_def)
  let ?s = "s\<lparr>fs_file := Some t\<rparr>"
  have "cfg_Write J c' s = (Inr (), ?s)"
    using assms(1) t(1) by (simp add: healthy_def in_order_def cfg_Write_def writeFile_def cfg_write_def)
  moreover have "parse_config J t = Inr c'" by (simp add: parse_config_def t(2))
  then have "healthy J ?s (migrate c')" using assms(1) by (auto simp: healthy_def in_order_def)
  ultimately show ?thesis using that [of ?s] by simp
qed

lemma healthy_uuids [simp]: "healthy J (s\<lparr>fs_uuids := us\<rparr>) c = healthy J s c"
  by (simp add: healthy_def in_order_def)

lemma migrate_simps [simp]: "cf_Proxy (migrate c) = cf_Proxy c" "cf_Rules (migrate c) = cf_Rules c"
  "cf_Subscriptions (migrate c) = cf_Subscriptions c" "migrate (migrate c) = migrate c"
  by (simp_all add: migrate_def Let_def)

lemma migrate_Proxy [simp]: "migrate (c\<lparr>cf_Proxy := ps\<rparr>) = (migrate c)\<lparr>cf_Proxy := ps\<rparr>"
  by (simp add: migrate_def Let_def)

lemma healthy_migrate: "healthy J s c \<Longrightarrow> migrate c = c"
  by (auto simp: healthy_def in_order_def)

subsection \<open>The edits\<close>

datatype cfg_op =
    DoAddProxy proxy | DoUpdateProxy string proxy | DoDeleteProxies "string list" | DoDeleteAllProxies
  | DoAddSubscription "proxy list" string string string | DoDeleteSubscription string
  | DoUpdateSubscription subscription | DoUpdateSubscriptionProxies string "proxy list"
  | DoAddRules "string list" | DoDeleteRules "string list" | DoEditRule string string
  | DoSelect string string | DoSetSetting setting_cfg

definition discard :: "'a cfg \<Rightarrow> unit cfg" where
  "discard m = io_bind m (\<lambda>_. io_ret ())"

primrec cfg_do :: "json \<Rightarrow> (proxy \<Rightarrow> bool) \<Rightarrow> cfg_op \<Rightarrow> unit cfg" where
  "cfg_do J ok (DoAddProxy p) = discard (Cfg_AddProxy J ok p)"
| "cfg_do J ok (DoUpdateProxy i p) = Cfg_UpdateProxy J ok i p"
| "cfg_do J ok (DoDeleteProxies is) = DeleteProxies J is"
| "cfg_do J ok DoDeleteAllProxies = DeleteAllProxies J"
| "cfg_do J ok (DoAddSubscription ps u n m) = discard (AddSubscription J ok ps u n m)"
| "cfg_do J ok (DoDeleteSubscription i) = DeleteSubscription J i"
| "cfg_do J ok (DoUpdateSubscription x) = UpdateSubscription J x"
| "cfg_do J ok (DoUpdateSubscriptionProxies i ps) = discard (UpdateSubscriptionProxies J ok i ps)"
| "cfg_do J ok (DoAddRules rs) = AddCustomizedRule J rs"
| "cfg_do J ok (DoDeleteRules rs) = DeleteCustomizedRule J rs"
| "cfg_do J ok (DoEditRule a b) = EditCustomizedRule J a b"
| "cfg_do J ok (DoSelect b i) = SetSelectedId J b i"
| "cfg_do J ok (DoSetSetting x) = SetSetting J x"

text \<open>Computations that touch nothing but the source of identifiers.\<close>

definition same_disk :: "cfg_fs \<Rightarrow> cfg_fs \<Rightarrow> bool" where
  "same_disk s s' \<longleftrightarrow> fs_file s' = fs_file s \<and> fs_isDir s' = fs_isDir s \<and> fs_readable s' = fs_readable s \<and>
     fs_writes s' = fs_writes s"

definition uuid_only :: "'a cfg \<Rightarrow> bool" where
  "uuid_only m \<longleftrightarrow> (\<forall>s. same_disk s (snd (m s)))"

lemma uuid_onlyD: "uuid_only m \<Longrightarrow> m s = (r, s1) \<Longrightarrow> same_disk s s1"
  by (metis snd_conv uuid_only_def)

lemma uuid_only_ret [simp]: "uuid_only (Pair r)" "uuid_only (io_ret a)" "uuid_only (io_fail e)" "uuid_only (io_lift r)"
  by (simp_all add: uuid_only_def same_disk_def)

lemma uuid_only_NewV4 [simp]: "uuid_only NewV4"
  by (auto simp: uuid_only_def NewV4_def same_disk_def split: list.splits option.splits)

lemma uuid_only_bind:
  assumes "uuid_only m" and "\<And>a. uuid_only (f a)"
  shows "uuid_only (io_bind m f)"
  unfolding uuid_only_def
proof
  fix s
  obtain r s1 where m: "m s = (r, s1)" by (cases "m s")
  then have "same_disk s s1" by (rule uuid_onlyD [OF assms(1)])
  moreover have "same_disk s1 (snd (f a s1))" for a using assms(2) by (simp add: uuid_only_def)
  ultimately show "same_disk s (snd (io_bind m f s))"
    by (cases r) (auto simp: io_bind_def m same_disk_def)
qed

lemma in_order_same_disk: "same_disk s s' \<Longrightarrow> in_order J s c \<Longrightarrow> in_order J s' c"
  by (simp add: same_disk_def in_order_def)

lemma healthy_same_disk: "same_disk s s' \<Longrightarrow> healthy J s c \<Longrightarrow> healthy J s' c"
  using in_order_same_disk [of s s' J c] by (simp add: same_disk_def healthy_def)

lemma uuid_only_add [simp]: "uuid_only (add_proxies ok sid ps)"
  by (induction ps) (auto intro!: uuid_only_bind)

lemma uuid_only_renew [simp]: "uuid_only (renew_proxies ok sid ps)"
  by (induction ps) (auto intro!: uuid_only_bind)

text \<open>The new configuration that each edit computes.\<close>

primrec edited :: "(proxy \<Rightarrow> bool) \<Rightarrow> cfg_op \<Rightarrow> config \<Rightarrow> config cfg" where
  "edited ok (DoAddProxy p) c =
     (if \<not> ok p then io_fail CfgParseProxy
      else io_bind NewV4 (\<lambda>u. io_ret (c\<lparr>cf_Proxy := cf_Proxy c @ [p(''id'' \<mapsto> JStr u)]\<rparr>)))"
| "edited ok (DoUpdateProxy i p) c =
     (if \<not> ok p then io_fail CfgParseProxy else io_ret (c\<lparr>cf_Proxy := replace_first (has_id i) p (cf_Proxy c)\<rparr>))"
| "edited ok (DoDeleteProxies is) c =
     io_ret (c\<lparr>cf_Proxy := filter (\<lambda>v. case str_of (v ''id'') of None \<Rightarrow> False
       | Some i \<Rightarrow> length i \<noteq> 0 \<and> i \<notin> set is) (cf_Proxy c)\<rparr>)"
| "edited ok DoDeleteAllProxies c = io_ret (c\<lparr>cf_Proxy := []\<rparr>)"
| "edited ok (DoAddSubscription ps u n m) c =
     io_bind NewV4 (\<lambda>sid. io_bind (add_proxies ok sid ps) (\<lambda>qs.
       io_ret (c\<lparr>cf_Proxy := cf_Proxy c @ qs, cf_Subscriptions := cf_Subscriptions c @
         [\<lparr>sub_Id = sid, sub_Url = u, sub_Name = n, sub_Remark = m\<rparr>]\<rparr>)))"
| "edited ok (DoDeleteSubscription i) c =
     io_ret (c\<lparr>cf_Subscriptions := filter (\<lambda>x. sub_Id x \<noteq> i) (cf_Subscriptions c),
       cf_Proxy := filter (\<lambda>v. case str_of (v ''subscription'') of None \<Rightarrow> True | Some sid \<Rightarrow> sid \<noteq> i) (cf_Proxy c)\<rparr>)"
| "edited ok (DoUpdateSubscription x) c =
     io_ret (c\<lparr>cf_Subscriptions := replace_first (\<lambda>v. sub_Id v = sub_Id x) x (cf_Subscriptions c)\<rparr>)"
| "edited ok (DoUpdateSubscriptionProxies i ps) c =
     io_bind (renew_proxies ok i ps) (\<lambda>qs.
       io_ret (c\<lparr>cf_Proxy := filter (\<lambda>p. str_of (p ''subscription'') \<noteq> Some i) (cf_Proxy c) @ qs\<rparr>))"
| "edited ok (DoAddRules xs) c = io_bind (io_lift (add_rules xs (cf_Rules c))) (\<lambda>rs. io_ret (c\<lparr>cf_Rules := rs\<rparr>))"
| "edited ok (DoDeleteRules xs) c = io_bind (io_lift (delete_rules xs (cf_Rules c))) (\<lambda>rs. io_ret (c\<lparr>cf_Rules := rs\<rparr>))"
| "edited ok (DoEditRule a b) c = io_ret (c\<lparr>cf_Rules := replace_first (\<lambda>r. r = a) b (cf_Rules c)\<rparr>)"
| "edited ok (DoSelect b i) c =
     (if b = ''rule'' then io_ret (c\<lparr>cf_SelectedRule := i\<rparr>)
      else if b = ''proxy'' then io_ret (c\<lparr>cf_SelectedProxy := i\<rparr>) else io_fail CfgField)"
| "edited ok (DoSetSetting x) c = io_ret (c\<lparr>cf_Setting := x\<rparr>)"

lemma uuid_only_edited: "uuid_only (edited ok x c)"
  by (cases x) (auto intro!: uuid_only_bind)

lemmas cfg_op_defs = Cfg_AddProxy_def Cfg_UpdateProxy_def DeleteProxies_def DeleteAllProxies_def AddSubscription_def
  DeleteSubscription_def UpdateSubscription_def UpdateSubscriptionProxies_def AddCustomizedRule_def
  DeleteCustomizedRule_def EditCustomizedRule_def SetSelectedId_def SetSetting_def discard_def

lemma io_bind_assoc: "io_bind (io_bind m f) g = io_bind m (\<lambda>a. io_bind (f a) g)"
  by (rule ext) (auto simp: io_bind_def split: prod.splits sum.splits)

lemma io_bind_Pair [simp]: "io_bind (Pair (Inr a)) f = f a" "io_bind (Pair (Inl e)) g = Pair (Inl e)"
  "io_bind (io_ret a) f = f a" "io_bind (io_fail e) g = io_fail e"
  by (rule ext, simp add: io_bind_def io_ret_def io_fail_def)+

lemma io_bind_unit: "io_bind m (\<lambda>_. Pair (Inr ())) = m"
  by (rule ext) (auto simp: io_bind_def split: prod.splits sum.splits)

text \<open>All edits have one shape: compute the new configuration from the old one, then write it.\<close>

lemma cfg_do_edited:
  assumes "in_order J s c"
  shows "cfg_do J ok x s = io_bind (edited ok x c) (cfg_Write J) s"
proof -
  have r: "io_bind (cfg_Read J) f s = f c s" for f :: "config \<Rightarrow> 'b cfg" by (simp add: Read_in_order [OF assms])
  show ?thesis
    by (cases x) (simp_all add: cfg_op_defs r io_bind_assoc io_bind_unit Let_def)
qed

lemma edited_no_write: "edited ok x c s \<noteq> (Inl CfgWrite, s')"
proof -
  have n: "NewV4 s \<noteq> (Inl CfgWrite, s')" for s s' by (simp add: NewV4_def split: list.splits option.splits)
  have a: "add_proxies ok i ps s \<noteq> (Inl CfgWrite, s')" for i ps s s'
    by (induction ps arbitrary: s s') (auto simp: io_bind_eq_Inl n io_ret_def io_fail_def)
  have r: "renew_proxies ok i ps s \<noteq> (Inl CfgWrite, s')" for i ps s s'
    by (induction ps arbitrary: s s') (auto simp: io_bind_eq_Inl n io_ret_def io_fail_def)
  have l: "add_rules xs rs \<noteq> Inl CfgWrite" "delete_rules xs rs \<noteq> Inl CfgWrite" for xs rs
    by (induction xs arbitrary: rs) (auto simp: Let_def split: sum.splits)
  show ?thesis
    by (cases x) (auto simp: io_bind_eq_Inl n a r l io_ret_def io_fail_def io_lift_def)
qed

text \<open> C21. An edit of the configuration that fails leaves the configuration as it was when the reason is a proxy or a rule that
  does not parse, a duplicate, no random identifier, a value that cannot be encoded, or a file that cannot be
  opened for writing. The one other reason is a write that fails after the file was opened and truncated: then the file holds a
  prefix of the new text.\<close>

theorem failed_edit_changes_nothing:
  assumes "in_order J s c" and "cfg_do J ok x s = (Inl e, s')"
  shows "if e = CfgWrite
    then \<exists>c' s1 t n. edited ok x c s = (Inr c', s1) \<and> marshal J c' = Some t \<and> fs_writes s \<noteq> [] \<and> hd (fs_writes s) = WriteFails n \<and>
      fs_file s' = Some (take n t)
    else in_order J s' c"
proof -
  obtain r s1 where m: "edited ok x c s = (r, s1)" by (cases "edited ok x c s")
  have d: "same_disk s s1" by (rule uuid_onlyD [OF uuid_only_edited m])
  then have h: "in_order J s1 c" by (rule in_order_same_disk [OF _ assms(1)])
  show ?thesis
  proof (cases r)
    case (Inl e')
    then show ?thesis using assms(2) h m edited_no_write [of ok x c s s1] by (auto simp: cfg_do_edited [OF assms(1)] io_bind_def)
  next
    case (Inr c')
    then have "cfg_Write J c' s1 = (Inl e, s')"
      using assms(2) by (simp add: cfg_do_edited [OF assms(1)] io_bind_def m)
    from Write_cases [OF h this] show ?thesis using m Inr d by (auto simp: same_disk_def split: if_splits)
  qed
qed

text \<open>A proxy that was added is found under the identifier that \<open>AddProxy\<close> returned, with its other keys as
  given, and every other identifier finds what it found before.\<close>

theorem AddProxy_GetProxy:
  assumes "healthy J s c" and "ok p" and "fs_uuids s = Some u # us" and "\<And>v. v \<in> set (cf_Proxy c) \<Longrightarrow> \<not> has_id u v"
    and "json_stable J (c\<lparr>cf_Proxy := cf_Proxy c @ [p(''id'' \<mapsto> JStr u)]\<rparr>)"
  shows "\<exists>s'. Cfg_AddProxy J ok p s = (Inr u, s') \<and>
    Cfg_GetProxy J u s' = (Inr (p(''id'' \<mapsto> JStr u)), s') \<and>
    (\<forall>i. i \<noteq> u \<longrightarrow> Cfg_GetProxy J i s' = (find_proxy i c, s'))"
proof -
  let ?p = "p(''id'' \<mapsto> JStr u)"
  let ?c = "c\<lparr>cf_Proxy := cf_Proxy c @ [?p]\<rparr>" and ?s = "s\<lparr>fs_uuids := us\<rparr>"
  have h: "healthy J ?s c" using assms(1) by (rule healthy_same_disk [rotated]) (simp add: same_disk_def)
  obtain s' where w: "cfg_Write J ?c ?s = (Inr (), s')" "healthy J s' (migrate ?c)"
    using Write_stable [OF h assms(5)] by blast
  have n: "NewV4 s = (Inr u, ?s)" by (simp add: NewV4_def assms(3))
  have a: "Cfg_AddProxy J ok p s = (Inr u, s')"
    using assms(2) by (simp add: Cfg_AddProxy_def Read_healthy [OF assms(1)] n w(1))
  have g: "Cfg_GetProxy J i s' = (find_proxy i ?c, s')" for i
    by (simp add: Cfg_GetProxy_def Read_healthy [OF w(2)] find_proxy_def)
  have f: "List.find P (xs @ [y]) = (case List.find P xs of None \<Rightarrow> if P y then Some y else None | Some z \<Rightarrow> Some z)"
    for P :: "proxy \<Rightarrow> bool" and xs y by (induction xs) simp_all
  have "List.find (has_id u) (cf_Proxy c) = None"
    unfolding find_None_iff using assms(4) by blast
  then have "find_proxy u ?c = Inr ?p" by (simp add: find_proxy_def f has_id_def)
  moreover have "find_proxy i ?c = find_proxy i c" if "i \<noteq> u" for i
    using that by (simp add: find_proxy_def f has_id_def split: option.splits)
  ultimately show ?thesis using a g by auto
qed

subsection \<open>Customized rules\<close>

text \<open>The customized rules are trimmed lines that parse, without duplicates.\<close>

definition rules_wf :: "string list \<Rightarrow> bool" where
  "rules_wf rs \<longleftrightarrow> distinct rs \<and> (\<forall>r \<in> set rs. trim_space r = r \<and> (\<exists>x. ParseRawValue r = Inr x))"

lemma rules_wf_snoc:
  "rules_wf rs \<Longrightarrow> trim_space x \<notin> set rs \<Longrightarrow> ParseRawValue (trim_space x) = Inr r \<Longrightarrow> rules_wf (rs @ [trim_space x])"
  unfolding rules_wf_def by simp

lemma add_rules_wf: "add_rules xs rs = Inr rs' \<Longrightarrow> rules_wf rs \<Longrightarrow> rules_wf rs'"
proof (induction xs arbitrary: rs)
  case (Cons x xs)
  from Cons.prems(1) obtain r where r: "trim_space x \<notin> set rs" "ParseRawValue (trim_space x) = Inr r"
    "add_rules xs (rs @ [trim_space x]) = Inr rs'" by (simp add: Let_def split: if_splits sum.splits)
  show ?case by (rule Cons.IH [OF r(3) rules_wf_snoc [OF Cons.prems(2) r(1,2)]])
qed simp

lemma delete_rules_wf: "delete_rules xs rs = Inr rs' \<Longrightarrow> rules_wf rs \<Longrightarrow> rules_wf rs'"
proof (induction xs arbitrary: rs)
  case (Cons x xs)
  from Cons.prems(1) have "delete_rules xs (filter (\<lambda>i. i \<noteq> x) rs) = Inr rs'" by (simp split: sum.splits)
  moreover have "rules_wf (filter (\<lambda>i. i \<noteq> x) rs)" using Cons.prems(2) by (simp add: rules_wf_def)
  ultimately show ?case by (rule Cons.IH)
qed simp

text \<open>The customized rules stay trimmed valid lines without duplicates under every edit, except editing a
  rule in place: what a successful edit writes has such rules when the configuration had.\<close>

theorem edits_keep_rules_valid:
  assumes "healthy J s c" and "rules_wf (cf_Rules c)" and "cfg_do J ok x s = (Inr (), s')"
    and "\<And>a b. x \<noteq> DoEditRule a b"
  shows "\<exists>c'. fs_file s' = marshal J c' \<and> rules_wf (cf_Rules c')"
proof -
  obtain c' s1 where m: "edited ok x c s = (Inr c', s1)" and w: "cfg_Write J c' s1 = (Inr (), s')"
    using assms(3) by (auto simp: cfg_do_edited [OF healthy_in_order [OF assms(1)]] io_bind_eq_Inr)
  have "same_disk s s1" by (rule uuid_onlyD [OF uuid_only_edited m])
  then have h: "healthy J s1 c" by (rule healthy_same_disk [OF _ assms(1)])
  have "rules_wf (cf_Rules c')"
    using assms(2,4) m
    by (cases x) (auto simp: io_bind_eq_Inr split: if_splits intro: add_rules_wf delete_rules_wf)
  then show ?thesis using Write_healthy_cases [OF h w] by (auto intro: exI [of _ c'])
qed

subsection \<open>Overlapping edits\<close>

text \<open>
  An edit reads and writes under the lock of the file, but not both under one lock. Here the write of
  \<open>SetSetting\<close> comes after a whole \<open>AddProxy\<close> that started after its read.
\<close>

definition race_SetSetting_AddProxy :: "json \<Rightarrow> (proxy \<Rightarrow> bool) \<Rightarrow> setting_cfg \<Rightarrow> proxy \<Rightarrow> string cfg" where
  "race_SetSetting_AddProxy J ok x p =
     io_bind (cfg_Read J) (\<lambda>c. io_bind (Cfg_AddProxy J ok p) (\<lambda>u.
       io_bind (cfg_Write J (c\<lparr>cf_Setting := x\<rparr>)) (\<lambda>_. io_ret u)))"

text \<open>Edits are not atomic: a proxy that was added successfully between the read and the write of a change of
  the settings is gone afterwards, although the settings have nothing to do with the proxies.\<close>

theorem overlapping_edit_loses_proxy:
  assumes "healthy J s c" and "ok p" and "fs_uuids s = Some u # us" and "\<And>v. v \<in> set (cf_Proxy c) \<Longrightarrow> \<not> has_id u v"
    and "json_stable J (c\<lparr>cf_Proxy := cf_Proxy c @ [p(''id'' \<mapsto> JStr u)]\<rparr>)" and "json_stable J (c\<lparr>cf_Setting := x\<rparr>)"
  shows "\<exists>s'. race_SetSetting_AddProxy J ok x p s = (Inr u, s') \<and> Cfg_GetProxy J u s' = (Inl CfgNotFound, s')"
proof -
  let ?c = "c\<lparr>cf_Proxy := cf_Proxy c @ [p(''id'' \<mapsto> JStr u)]\<rparr>" and ?s = "s\<lparr>fs_uuids := us\<rparr>"
  have h: "healthy J ?s c" using assms(1) by (rule healthy_same_disk [rotated]) (simp add: same_disk_def)
  obtain s1 where w: "cfg_Write J ?c ?s = (Inr (), s1)" "healthy J s1 (migrate ?c)"
    using Write_stable [OF h assms(5)] by blast
  have n: "NewV4 s = (Inr u, ?s)" by (simp add: NewV4_def assms(3))
  have a: "Cfg_AddProxy J ok p s = (Inr u, s1)"
    using assms(2) by (simp add: Cfg_AddProxy_def Read_healthy [OF assms(1)] n w(1))
  obtain s2 where w2: "cfg_Write J (c\<lparr>cf_Setting := x\<rparr>) s1 = (Inr (), s2)" "healthy J s2 (migrate (c\<lparr>cf_Setting := x\<rparr>))"
    using Write_stable [OF w(2) assms(6)] by blast
  have "List.find (has_id u) (cf_Proxy c) = None" unfolding find_None_iff using assms(4) by blast
  then have "Cfg_GetProxy J u s2 = (Inl CfgNotFound, s2)"
    by (simp add: Cfg_GetProxy_def Read_healthy [OF w2(2)] find_proxy_def)
  then show ?thesis by (simp add: race_SetSetting_AddProxy_def Read_healthy [OF assms(1)] a w2(1))
qed

subsection \<open>Edits that keep too little or too much\<close>

text \<open>Deleting no proxy at all drops the proxies whose identifier is missing, empty or no text.\<close>

lemma DeleteProxies_drops_nameless:
  assumes "healthy J s c"
  shows "DeleteProxies J [] s =
    cfg_Write J (c\<lparr>cf_Proxy := filter (\<lambda>v. \<exists>i. str_of (v ''id'') = Some i \<and> i \<noteq> []) (cf_Proxy c)\<rparr>) s"
  by (simp add: DeleteProxies_def Read_healthy [OF assms] split: option.splits cong: filter_cong)
    (rule arg_cong [where f = "\<lambda>ps. cfg_Write J (c\<lparr>cf_Proxy := ps\<rparr>) s"],
     auto intro!: filter_cong split: option.splits)

text \<open>Editing a rule in place stores a line that does not parse.\<close>

lemma EditCustomizedRule_unchecked:
  assumes "healthy J s c" and "cf_Rules c = [old]" and "ParseRawValue new = Inl e"
  shows "EditCustomizedRule J old new s = cfg_Write J (c\<lparr>cf_Rules := [new]\<rparr>) s \<and> \<not> rules_wf [new]"
  using assms by (simp add: EditCustomizedRule_def Read_healthy rules_wf_def)

subsection \<open>Instances\<close>

definition demo_cfg :: config where
  "demo_cfg = migrate empty_config"

definition demo_proxy :: proxy where
  "demo_proxy = [''id'' \<mapsto> JStr ''u1'']"

definition demo_json :: json where
  "demo_json = \<lparr>unmarshal = (\<lambda>t c. if t = ''a'' then (demo_cfg, True)
       else if t = ''b'' then (demo_cfg\<lparr>cf_Proxy := [demo_proxy]\<rparr>, True) else (c, False)),
     marshal = (\<lambda>c. Some (if cf_Proxy c = [] then ''a'' else ''b'')), default_content = ''a''\<rparr>"

definition demo_fs :: cfg_fs where
  "demo_fs = \<lparr>fs_file = Some ''a'', fs_isDir = False, fs_readable = True, fs_writes = [], fs_uuids = [Some ''u1'']\<rparr>"

lemma demo_healthy: "healthy demo_json demo_fs demo_cfg"
  by (simp add: healthy_def in_order_def demo_fs_def demo_json_def parse_config_def demo_cfg_def)

lemma demo_stable: "json_stable demo_json (demo_cfg\<lparr>cf_Proxy := cf_Proxy demo_cfg @ [Map.empty(''id'' \<mapsto> JStr ''u1'')]\<rparr>)"
  by (simp add: json_stable_def demo_json_def demo_proxy_def demo_cfg_def empty_config_def)

lemma demo_cfg_Proxy: "cf_Proxy demo_cfg = []"
  by (simp add: demo_cfg_def empty_config_def)

lemma demo_broken_write:
  "cfg_do demo_json (\<lambda>_. True) DoDeleteAllProxies (demo_fs\<lparr>fs_writes := [WriteFails 0]\<rparr>) =
     (Inl CfgWrite, demo_fs\<lparr>fs_file := Some [], fs_writes := []\<rparr>)"
proof -
  have o: "in_order demo_json (demo_fs\<lparr>fs_writes := [WriteFails 0]\<rparr>) demo_cfg"
    using demo_healthy by (simp add: healthy_def in_order_def)
  have "marshal demo_json (demo_cfg\<lparr>cf_Proxy := []\<rparr>) = Some ''a''" "\<not> fs_isDir demo_fs"
    by (simp_all add: demo_json_def demo_fs_def)
  then show ?thesis
    by (simp add: DeleteAllProxies_def Read_in_order [OF o] cfg_Write_def writeFile_def cfg_write_def)
qed

theorem failed_edit_changes_nothing_witness:
  "in_order demo_json (snd (cfg_do demo_json (\<lambda>_. True) (DoSelect ''x'' ''y'') demo_fs)) demo_cfg \<and>
   (\<exists>c' s1 t n. edited (\<lambda>_. True) DoDeleteAllProxies demo_cfg (demo_fs\<lparr>fs_writes := [WriteFails 0]\<rparr>) = (Inr c', s1) \<and>
      marshal demo_json c' = Some t \<and> hd [WriteFails 0] = WriteFails n \<and> Some ([] :: string) = Some (take n t))"
proof
  note o = healthy_in_order [OF demo_healthy]
  have "\<exists>s'. cfg_do demo_json (\<lambda>_. True) (DoSelect ''x'' ''y'') demo_fs = (Inl CfgField, s')"
    by (simp add: SetSelectedId_def Read_healthy [OF demo_healthy])
  then obtain s' where "cfg_do demo_json (\<lambda>_. True) (DoSelect ''x'' ''y'') demo_fs = (Inl CfgField, s')" by (elim exE)
  from failed_edit_changes_nothing [OF o this] this
  show "in_order demo_json (snd (cfg_do demo_json (\<lambda>_. True) (DoSelect ''x'' ''y'') demo_fs)) demo_cfg" by simp
  have "in_order demo_json (demo_fs\<lparr>fs_writes := [WriteFails 0]\<rparr>) demo_cfg" using o by (simp add: in_order_def)
  from failed_edit_changes_nothing [OF this demo_broken_write]
  show "\<exists>c' s1 t n. edited (\<lambda>_. True) DoDeleteAllProxies demo_cfg (demo_fs\<lparr>fs_writes := [WriteFails 0]\<rparr>) = (Inr c', s1) \<and>
      marshal demo_json c' = Some t \<and> hd [WriteFails 0] = WriteFails n \<and> Some ([] :: string) = Some (take n t)" by simp
qed

theorem AddProxy_GetProxy_witness:
  "\<exists>s'. Cfg_AddProxy demo_json (\<lambda>_. True) Map.empty demo_fs = (Inr ''u1'', s') \<and>
     Cfg_GetProxy demo_json ''u1'' s' = (Inr [''id'' \<mapsto> JStr ''u1''], s')"
  using AddProxy_GetProxy [OF demo_healthy, of "\<lambda>_. True" Map.empty "''u1''" "[]"] demo_stable demo_cfg_Proxy
  by (simp add: demo_fs_def) blast

theorem edits_keep_rules_valid_witness:
  "\<exists>s' c'. cfg_do demo_json (\<lambda>_. True) (DoAddRules [''DOMAIN,a.b,DIRECT'']) demo_fs = (Inr (), s') \<and>
     fs_file s' = marshal demo_json c' \<and> rules_wf (cf_Rules c')"
proof -
  have r: "cf_Rules demo_cfg = []" by (simp add: demo_cfg_def empty_config_def)
  have "trim_space ''DOMAIN,a.b,DIRECT'' = ''DOMAIN,a.b,DIRECT''" by (simp add: trim_space_def is_space_def)
  then have p: "\<exists>x. ParseRawValue (trim_space ''DOMAIN,a.b,DIRECT'') = Inr x" by (simp add: demo_line)
  then obtain x where x: "ParseRawValue (trim_space ''DOMAIN,a.b,DIRECT'') = Inr x" by (elim exE)
  have "cfg_do demo_json (\<lambda>_. True) (DoAddRules [''DOMAIN,a.b,DIRECT'']) demo_fs =
      cfg_Write demo_json (demo_cfg\<lparr>cf_Rules := [trim_space ''DOMAIN,a.b,DIRECT'']\<rparr>) demo_fs"
    by (simp add: AddCustomizedRule_def Read_healthy [OF demo_healthy] r x Let_def)
  then obtain s' where a: "cfg_do demo_json (\<lambda>_. True) (DoAddRules [''DOMAIN,a.b,DIRECT'']) demo_fs = (Inr (), s')"
    by (simp add: cfg_Write_def writeFile_def demo_json_def cfg_write_def demo_fs_def)
  have "rules_wf (cf_Rules demo_cfg)" by (simp add: r rules_wf_def)
  from edits_keep_rules_valid [OF demo_healthy this a] a show ?thesis by auto
qed

theorem overlapping_edit_loses_proxy_witness:
  "\<exists>s'. race_SetSetting_AddProxy demo_json (\<lambda>_. True) (cf_Setting demo_cfg) Map.empty demo_fs = (Inr ''u1'', s') \<and>
     Cfg_GetProxy demo_json ''u1'' s' = (Inl CfgNotFound, s')"
proof -
  have "json_stable demo_json (demo_cfg\<lparr>cf_Setting := cf_Setting demo_cfg\<rparr>)"
    by (simp add: json_stable_def demo_json_def demo_cfg_Proxy)
  then show ?thesis
    using overlapping_edit_loses_proxy [OF demo_healthy, of "\<lambda>_. True" Map.empty "''u1''" "[]" "cf_Setting demo_cfg"]
      demo_stable demo_cfg_Proxy by (simp add: demo_fs_def)
qed

end
