(* ===== verification/Lifecycle.thy ===== *)
theory Lifecycle
  imports Configuration ConnProps ClashDns
begin

text \<open>
  Starting and stopping the program: the configuration of a run (\<open>src/internal/cfg/\<close>), the three clients and
  their construction (\<open>src/internal/executor/\<close>), the listener of the local server as a resource
  (\<open>src/internal/local_server/\<close>), the network monitor (\<open>src/pkg/network_iface/monitor.go\<close>) and the manager
  that holds the one client (\<open>src/internal/manager/manager.go\<close>).

  The world counts the resources of the operating system that are in use and holds the package variables that
  the clients set. A call of the operating system or of a library is named by \<open>ext\<close>; the environment says
  which calls fail, and a call that fails changes nothing. The configuration that \<open>configuration.Read\<close>
  returns is one value during a call of the manager.
\<close>

subsection \<open>Environment and world\<close>

datatype ext =
    XNetNew | XNetStart | XIfaceNew | XIfaceStart | XNetClose | XIfaceClose | XTunNew | XTunStart | XNewStack | XStackStart | XHijack | XResume | XTunClose
  | XListenTcp | XListenUdp | XCloseTcp | XCloseUdp | XSysSet | XSysClear

datatype life_error =
    Failed ext | FailedBoth life_error life_error | ConfigError cfg_error | EmptyDns | NameServer ns_error
  | NoSelectedProxy | ParseProxyFailed | ParseGroupFailed | RuleFailed rule_error | InvalidMode | HasStarted

record 'p life_env =
  en_config :: "cfg_error + config"
  en_fails :: "ext \<Rightarrow> bool"
  en_names :: "nat \<Rightarrow> string"
  en_parse :: "proxy \<Rightarrow> 'p option"
  en_group :: "string list \<Rightarrow> (string \<Rightarrow> 'p option) \<Rightarrow> string \<Rightarrow> string \<Rightarrow> 'p option"
  en_direct :: 'p
  en_reject :: 'p
  en_url :: "string \<Rightarrow> url option"
  en_files :: "string \<Rightarrow> string option"

text \<open>The three package variables of the network monitor: whether each is not nil.\<close>

record monitor =
  mo_network :: bool
  mo_interface :: bool
  mo_callback :: bool

definition no_monitor :: monitor where
  "no_monitor = \<lparr>mo_network = False, mo_interface = False, mo_callback = False\<rparr>"

record ('c, 'd, 'p) world =
  w_router :: "('c, 'd, 'p) router"
  w_findProcess :: bool
  w_dns :: "(resolver \<times> resolver) option"
  w_DefaultResolver :: "resolver option"
  w_monitor :: monitor
  w_iface :: string
  w_tuns :: nat
  w_stacks :: nat
  w_hijacked :: bool
  w_tcp :: nat
  w_udp :: nat
  w_sysproxy :: "string option"
  w_conns :: "string list"

text \<open>A call that may fail and otherwise changes the state.\<close>

definition xcall :: "'p life_env \<Rightarrow> ext \<Rightarrow> ('s \<Rightarrow> 's) \<Rightarrow> ('s, life_error, unit) comp" where
  "xcall E x f s = (if en_fails E x then (Inl (Failed x), s) else (Inr (), f s))"

definition update :: "('s \<Rightarrow> 's) \<Rightarrow> ('s, 'e, unit) comp" where
  "update f s = (Inr (), f s)"

subsection \<open>Configuration of a run (internal/cfg)\<close>

record server_cfg =
  sv_Addr :: string
  sv_AllowLan :: bool
  sv_Port :: int

definition LocalServer_New :: "local_server \<Rightarrow> server_cfg" where
  "LocalServer_New config =
     \<lparr>sv_Addr = (if ls_AllowLan config then ''0.0.0.0:'' @ int_dec (ls_Port config)
        else ''127.0.0.1:'' @ int_dec (ls_Port config)),
      sv_AllowLan = ls_AllowLan config, sv_Port = ls_Port config\<rparr>"

text \<open>
  \<open>outbound.New\<close>: the group of all proxies in automatic mode, the selected one otherwise. \<open>None\<close> is the panic of the
  assertion that an identifier is a text.
\<close>

fun parse_all :: "'p life_env \<Rightarrow> proxy list \<Rightarrow> string list \<Rightarrow> (string \<Rightarrow> 'p option) \<Rightarrow>
    (life_error + string list \<times> (string \<Rightarrow> 'p option)) option" where
  "parse_all E [] ids m = Some (Inr (ids, m))"
| "parse_all E (v # vs) ids m =
     (case en_parse E v of
        None \<Rightarrow> Some (Inl ParseProxyFailed)
      | Some p \<Rightarrow> (case str_of (v ''id'') of None \<Rightarrow> None | Some i \<Rightarrow> parse_all E vs (ids @ [i]) (m(i \<mapsto> p))))"

definition Outbound_New :: "'p life_env \<Rightarrow> auto_mode \<Rightarrow> proxy list \<Rightarrow> string \<Rightarrow> (life_error + 'p) option" where
  "Outbound_New E auto proxies selected =
     (if am_Enabled auto then
        (case parse_all E proxies [] Map.empty of
           None \<Rightarrow> None
         | Some (Inl e) \<Rightarrow> Some (Inl e)
         | Some (Inr (ids, m)) \<Rightarrow>
             (case en_group E ids m (am_Url auto) (am_Type auto) of
                None \<Rightarrow> Some (Inl ParseGroupFailed) | Some p \<Rightarrow> Some (Inr p)))
      else
        (case List.find (has_id selected) proxies of
           None \<Rightarrow> Some (Inl NoSelectedProxy)
         | Some v \<Rightarrow> (case en_parse E v of None \<Rightarrow> Some (Inl ParseProxyFailed) | Some p \<Rightarrow> Some (Inr p))))"

record dns_distribution =
  dd_Local :: "resolver \<times> string list"
  dd_Remote :: "resolver \<times> string list"
  dd_Boost :: "resolver \<times> string list"

definition NewDnsDistribution ::
  "'p life_env \<Rightarrow> string list \<Rightarrow> string list \<Rightarrow> string list \<Rightarrow> string \<Rightarrow> bool \<Rightarrow>
   (('c, 'd, 'p) world, life_error, dns_distribution) comp" where
  "NewDnsDistribution E boot remote local iface disableCache =
     (let mk = (\<lambda>servers. map_sum NameServer id (Resolver_New (en_url E) servers iface disableCache)) in
      io_bind (io_lift (mk boot)) (\<lambda>b.
      io_bind (io_lift (mk local)) (\<lambda>l.
      io_bind (io_lift (mk remote)) (\<lambda>r.
      io_bind (update (\<lambda>w. w\<lparr>w_DefaultResolver := Some b\<rparr>)) (\<lambda>_.
        io_ret \<lparr>dd_Local = (l, local), dd_Remote = (r, remote), dd_Boost = (b, boot)\<rparr>)))))"

definition reset_dns_cache :: "('d, string) lru_api \<Rightarrow> ('c, 'd, 'p) world \<Rightarrow> ('c, 'd, 'p) world" where
  "reset_dns_cache D w =
     w\<lparr>w_router := (w_router w)\<lparr>rt_dnsDomainCache := api_Purge D (rt_dnsDomainCache (w_router w))\<rparr>\<rparr>"

definition Distribution_NewTun ::
  "'p life_env \<Rightarrow> ('d, string) lru_api \<Rightarrow> string list \<Rightarrow> string list \<Rightarrow> string list \<Rightarrow> string \<Rightarrow> bool \<Rightarrow>
   (('c, 'd, 'p) world, life_error, dns_distribution) comp" where
  "Distribution_NewTun E D boost remote local iface disableCache =
     (if boost = [] \<or> remote = [] \<or> local = [] then io_fail EmptyDns
      else io_bind (update (reset_dns_cache D)) (\<lambda>_. NewDnsDistribution E boost remote local iface disableCache))"

definition Distribution_NewSystemProxy :: "('d, string) lru_api \<Rightarrow> (('c, 'd, 'p) world, life_error, unit) comp" where
  "Distribution_NewSystemProxy D =
     io_bind (update (reset_dns_cache D)) (\<lambda>_. update (\<lambda>w. w\<lparr>w_DefaultResolver := None\<rparr>))"

record 'p tun_cfg =
  tn_Dns :: dns_distribution
  tn_Proxy :: 'p
  tn_LocalServer :: server_cfg
  tn_HijackDns :: hijack_dns
  tn_BlockQuic :: bool
  tn_Stack :: string
  tn_ShouldFindProcess :: bool
  tn_FakeIp :: bool

text \<open>A panic inside a computation: \<open>None\<close> as its result.\<close>

definition read_config :: "'p life_env \<Rightarrow> ('s, life_error, config) comp" where
  "read_config E = io_lift (map_sum ConfigError id (en_config E))"

text \<open>\<open>cfg.NewTun\<close> up to the outbound, and the record built with it.\<close>

definition cfg_NewTun ::
  "'p life_env \<Rightarrow> ('d, string) lru_api \<Rightarrow> string \<Rightarrow> ('c, 'd, 'p) world \<Rightarrow>
   ((life_error + 'p tun_cfg) \<times> ('c, 'd, 'p) world) option" where
  "cfg_NewTun E D iface w =
     (case io_bind (read_config E) (\<lambda>c.
        let d = sg_Dns (cf_Setting c);
            remote = (if dn_FakeIp d then [''fake-ip://empty''] else dn_Remote d) in
        io_bind (Distribution_NewTun E D (dn_Boost d) remote (dn_Local d) iface (dn_DisableCache d))
          (\<lambda>dist. io_ret (c, dist))) w of
        (Inl e, w1) \<Rightarrow> Some (Inl e, w1)
      | (Inr (c, dist), w1) \<Rightarrow>
          let g = cf_Setting c in
          (case Outbound_New E (sg_AutoMode g) (cf_Proxy c) (cf_SelectedProxy c) of
             None \<Rightarrow> None
           | Some (Inl e) \<Rightarrow> Some (Inl e, w1)
           | Some (Inr p) \<Rightarrow>
               Some (Inr \<lparr>tn_Dns = dist, tn_Proxy = p, tn_LocalServer = LocalServer_New (sg_LocalServer g),
                 tn_HijackDns = sg_HijackDns g, tn_BlockQuic = sg_BlockQuic g, tn_Stack = sg_Stack g,
                 tn_ShouldFindProcess = sg_ShouldFindProcess g, tn_FakeIp = dn_FakeIp (sg_Dns g)\<rparr>, w1)))"

record 'p sys_cfg =
  sy_Proxy :: 'p
  sy_LocalServer :: server_cfg
  sy_ActiveInterface :: string

definition cfg_NewSystemProxy ::
  "'p life_env \<Rightarrow> ('d, string) lru_api \<Rightarrow> ('c, 'd, 'p) world \<Rightarrow>
   ((life_error + 'p sys_cfg) \<times> ('c, 'd, 'p) world) option" where
  "cfg_NewSystemProxy E D w =
     (case io_bind (read_config E) (\<lambda>c. io_bind (Distribution_NewSystemProxy D) (\<lambda>_. io_ret c)) w of
        (Inl e, w1) \<Rightarrow> Some (Inl e, w1)
      | (Inr c, w1) \<Rightarrow>
          let g = cf_Setting c in
          (case Outbound_New E (sg_AutoMode g) (cf_Proxy c) (cf_SelectedProxy c) of
             None \<Rightarrow> None
           | Some (Inl e) \<Rightarrow> Some (Inl e, w1)
           | Some (Inr p) \<Rightarrow>
               Some (Inr \<lparr>sy_Proxy = p, sy_LocalServer = LocalServer_New (sg_LocalServer g),
                 sy_ActiveInterface = hd_NetworkService (sg_HijackDns g)\<rparr>, w1)))"

subsection \<open>The listener of the local server\<close>

text \<open>The two flags say that the listener fields are not nil.\<close>

record listener =
  li_Addr :: string
  li_Port :: int
  li_tcp :: bool
  li_udp :: bool

definition NewListener :: "string \<Rightarrow> int \<Rightarrow> listener" where
  "NewListener httpAddr port = \<lparr>li_Addr = httpAddr, li_Port = port, li_tcp = False, li_udp = False\<rparr>"

type_synonym ('c, 'd, 'p) listener_comp = "(listener \<times> ('c, 'd, 'p) world, life_error, unit) comp"

definition Listener_Start :: "'p life_env \<Rightarrow> ('c, 'd, 'p) listener_comp" where
  "Listener_Start E =
     io_bind (xcall E XListenTcp (\<lambda>(l, w). (l\<lparr>li_tcp := True\<rparr>, w\<lparr>w_tcp := w_tcp w + 1\<rparr>)))
       (\<lambda>_. xcall E XListenUdp (\<lambda>(l, w). (l\<lparr>li_udp := True\<rparr>, w\<lparr>w_udp := w_udp w + 1\<rparr>)))"

definition Listener_Close :: "'p life_env \<Rightarrow> ('c, 'd, 'p) listener_comp" where
  "Listener_Close E s =
     io_bind (if li_udp (fst s) then xcall E XCloseUdp (\<lambda>(l, w). (l, w\<lparr>w_udp := w_udp w - 1\<rparr>)) else io_ret ())
       (\<lambda>_. if li_tcp (fst s) then xcall E XCloseTcp (\<lambda>(l, w). (l, w\<lparr>w_tcp := w_tcp w - 1\<rparr>)) else io_ret ()) s"

subsection \<open>The network monitor\<close>

text \<open>
  \<open>StartMonitor\<close> only takes over the name of the interface when the settings give one. A constructor that
  fails leaves nil in its variable. \<open>StopMonitor\<close> forgets the monitor whether or not closing it works, but not the
  name of the interface.
\<close>

definition new_monitor :: "'p life_env \<Rightarrow> ext \<Rightarrow> (bool \<Rightarrow> monitor \<Rightarrow> monitor) \<Rightarrow> (('c, 'd, 'p) world, life_error, unit) comp" where
  "new_monitor E x assign w =
     (if en_fails E x then Inl (Failed x) else Inr (), w\<lparr>w_monitor := assign (\<not> en_fails E x) (w_monitor w)\<rparr>)"

definition StartMonitor :: "'p life_env \<Rightarrow> (('c, 'd, 'p) world, life_error, unit) comp" where
  "StartMonitor E = io_bind (read_config E) (\<lambda>c.
     let name = sg_DefaultInterface (cf_Setting c) in
     if name \<noteq> [] then update (\<lambda>w. w\<lparr>w_iface := name\<rparr>)
     else
       io_bind (new_monitor E XNetNew (\<lambda>b m. m\<lparr>mo_network := b\<rparr>)) (\<lambda>_.
       io_bind (xcall E XNetStart (\<lambda>w. w)) (\<lambda>_.
       io_bind (new_monitor E XIfaceNew (\<lambda>b m. m\<lparr>mo_interface := b\<rparr>)) (\<lambda>_.
       io_bind (update (\<lambda>w. w\<lparr>w_monitor := (w_monitor w)\<lparr>mo_callback := True\<rparr>\<rparr>)) (\<lambda>_.
         xcall E XIfaceStart (\<lambda>w. w))))))"

definition StopMonitor :: "'p life_env \<Rightarrow> (('c, 'd, 'p) world, life_error, unit) comp" where
  "StopMonitor E w =
     (if mo_network (w_monitor w) \<and> en_fails E XNetClose then Inl (Failed XNetClose)
      else if mo_interface (w_monitor w) \<and> en_fails E XIfaceClose then Inl (Failed XIfaceClose) else Inr (),
      w\<lparr>w_monitor := no_monitor\<rparr>)"

text \<open>
  The loop of \<open>newTun\<close> that polls the name of the default interface once a second, from poll \<open>i\<close> on. The
  environment says which name the monitor has stored by each poll, the empty text when it has stored none; then the
  name is the one the program already had.
\<close>

definition polled_names :: "'p life_env \<Rightarrow> ('c, 'd, 'p) world \<Rightarrow> nat \<Rightarrow> string" where
  "polled_names E w i = (if en_names E i = [] then w_iface w else en_names E i)"

partial_function (option) wait_interface :: "(nat \<Rightarrow> string) \<Rightarrow> nat \<Rightarrow> string option" where
  "wait_interface names i = (if length (names i) \<noteq> 0 then Some (names i) else wait_interface names (Suc i))"

subsection \<open>The clients\<close>

record 'p tun_client =
  tc_listener :: listener
  tc_config :: "'p tun_cfg"
  tc_isLocalServerEnabled :: bool

record sys_client =
  sc_listener :: listener
  sc_activeInterface :: string

datatype 'p client = TunClient "'p tun_client" | SystemProxyClient sys_client | MixedProxyClient sys_client "'p tun_client"

type_synonym ('c, 'd, 'p, 'k) client_comp = "('k \<times> ('c, 'd, 'p) world, life_error, unit) comp"

text \<open>Running a computation on the listener of a client, and on the world alone.\<close>

definition on_listener ::
  "('k \<Rightarrow> listener) \<Rightarrow> (listener \<Rightarrow> 'k \<Rightarrow> 'k) \<Rightarrow> ('c, 'd, 'p) listener_comp \<Rightarrow> ('c, 'd, 'p, 'k) client_comp" where
  "on_listener get put m s = (case m (get (fst s), snd s) of (r, l, w) \<Rightarrow> (r, put l (fst s), w))"

definition on_world :: "(('c, 'd, 'p) world, life_error, 'a) comp \<Rightarrow> ('k \<times> ('c, 'd, 'p) world, life_error, 'a) comp" where
  "on_world m s = (case m (snd s) of (r, w) \<Rightarrow> (r, fst s, w))"

definition CloseAllConnections :: "('c, 'd, 'p) world \<Rightarrow> ('c, 'd, 'p) world" where
  "CloseAllConnections w = w\<lparr>w_conns := []\<rparr>"

definition TunClient_Start :: "'p life_env \<Rightarrow> ('c, 'd, 'p, 'p tun_client) client_comp" where
  "TunClient_Start E s =
     (let c = fst s in
      io_bind (on_world (xcall E XStackStart (\<lambda>w. w\<lparr>w_stacks := w_stacks w + 1\<rparr>))) (\<lambda>_.
      io_bind (if hd_Enabled (tn_HijackDns (tc_config c))
               then on_world (xcall E XHijack (\<lambda>w. w\<lparr>w_hijacked := True\<rparr>)) else io_ret ()) (\<lambda>_.
        if tc_isLocalServerEnabled c \<and> sv_AllowLan (tn_LocalServer (tc_config c))
        then on_listener tc_listener (\<lambda>l c. c\<lparr>tc_listener := l\<rparr>) (Listener_Start E) else io_ret ())) s)"

definition TunClient_Close :: "'p life_env \<Rightarrow> ('c, 'd, 'p, 'p tun_client) client_comp" where
  "TunClient_Close E s =
     (let c = fst s in
      io_bind (if hd_Enabled (tn_HijackDns (tc_config c))
               then on_world (xcall E XResume (\<lambda>w. w\<lparr>w_hijacked := False\<rparr>)) else io_ret ()) (\<lambda>_.
      io_bind (on_world (update CloseAllConnections)) (\<lambda>_.
      io_bind (on_world (xcall E XTunClose (\<lambda>w. w\<lparr>w_tuns := w_tuns w - 1\<rparr>))) (\<lambda>_.
      io_bind (on_world (StopMonitor E)) (\<lambda>_.
        if tc_isLocalServerEnabled c \<and> sv_AllowLan (tn_LocalServer (tc_config c))
        then on_listener tc_listener (\<lambda>l c. c\<lparr>tc_listener := l\<rparr>) (Listener_Close E) else io_ret ())))) s)"

definition SysClient_Start :: "'p life_env \<Rightarrow> ('c, 'd, 'p, sys_client) client_comp" where
  "SysClient_Start E s =
     io_bind (on_listener sc_listener (\<lambda>l c. c\<lparr>sc_listener := l\<rparr>) (Listener_Start E)) (\<lambda>_.
       on_world (xcall E XSysSet (\<lambda>w. w\<lparr>w_sysproxy := Some (''127.0.0.1:'' @ int_dec (li_Port (sc_listener (fst s))))\<rparr>))) s"

text \<open>The two errors of a client that goes on after the first one.\<close>

definition both :: "life_error + unit \<Rightarrow> life_error + unit \<Rightarrow> life_error + unit" where
  "both a b =
     (case a of
        Inr _ \<Rightarrow> b
      | Inl e \<Rightarrow> (case b of Inr _ \<Rightarrow> Inl e | Inl f \<Rightarrow> Inl (FailedBoth e f)))"

definition SysClient_Close :: "'p life_env \<Rightarrow> ('c, 'd, 'p, sys_client) client_comp" where
  "SysClient_Close E =
     io_bind (on_world (update CloseAllConnections)) (\<lambda>_.
     io_bind (io_try (on_world (xcall E XSysClear (\<lambda>w. w\<lparr>w_sysproxy := None\<rparr>)))) (\<lambda>sysErr.
     io_bind (io_try (on_listener sc_listener (\<lambda>l c. c\<lparr>sc_listener := l\<rparr>) (Listener_Close E))) (\<lambda>lcErr.
       io_lift (both sysErr lcErr))))"

text \<open>A computation on the client, whichever of the three it is.\<close>

definition client_run ::
  "('c, 'd, 'p, 'p tun_client) client_comp \<Rightarrow> ('c, 'd, 'p, sys_client) client_comp \<Rightarrow> ('c, 'd, 'p, 'p client) client_comp" where
  "client_run mt ms s =
     (case fst s of
        TunClient t \<Rightarrow> (case mt (t, snd s) of (r, t', w) \<Rightarrow> (r, TunClient t', w))
      | SystemProxyClient y \<Rightarrow> (case ms (y, snd s) of (r, y', w) \<Rightarrow> (r, SystemProxyClient y', w))
      | MixedProxyClient y t \<Rightarrow>
          (case ms (y, snd s) of
             (r1, y', w1) \<Rightarrow> (case mt (t, w1) of (r2, t', w2) \<Rightarrow> (both r1 r2, MixedProxyClient y' t', w2))))"

definition Client_Start :: "'p life_env \<Rightarrow> ('c, 'd, 'p, 'p client) client_comp" where
  "Client_Start E = client_run (TunClient_Start E) (SysClient_Start E)"

definition Client_Close :: "'p life_env \<Rightarrow> ('c, 'd, 'p, 'p client) client_comp" where
  "Client_Close E = client_run (TunClient_Close E) (SysClient_Close E)"

subsection \<open>Construction (executor.go)\<close>

definition UpdateRule ::
  "'p life_env \<Rightarrow> ('c, rule) lru_api \<Rightarrow> ('d, string) lru_api \<Rightarrow> (('c, 'd, 'p) world, life_error, string) comp" where
  "UpdateRule E L D =
     io_bind (read_config E) (\<lambda>c.
     io_bind (io_lift (map_sum RuleFailed id (Engine_New L (en_files E) (cf_SelectedRule c) (cf_Rules c)))) (\<lambda>e.
     io_bind (update (\<lambda>w. w\<lparr>w_router := UpdateRuleEngine (Some e) (w_router w)\<rparr>)) (\<lambda>_.
     io_bind (update (reset_dns_cache D)) (\<lambda>_. io_ret (cf_SelectedRule c)))))"

text \<open>What \<open>newTun\<close> does after the interface has a name and the configuration is built.\<close>

definition open_tun :: "'p life_env \<Rightarrow> (('c, 'd, 'p) world, life_error, unit) comp" where
  "open_tun E =
     io_bind (xcall E XTunNew (\<lambda>w. w)) (\<lambda>_.
     io_bind (xcall E XTunStart (\<lambda>w. w\<lparr>w_tuns := w_tuns w + 1\<rparr>)) (\<lambda>_. xcall E XNewStack (\<lambda>w. w)))"

definition set_up_tun :: "'p life_env \<Rightarrow> 'p tun_cfg \<Rightarrow> ('c, 'd, 'p) world \<Rightarrow> ('c, 'd, 'p) world" where
  "set_up_tun E config w =
     (let ms = (if tn_BlockQuic config then [TunMatcher] @ [QuicMatcher] else [TunMatcher]);
          rt = UpdateProxy (en_direct E) (en_reject E) (tn_Proxy config)
                 (UpdateIsFakeIpEnabled (tn_FakeIp config) (UpdateConnMatcher ms (w_router w)))
      in w\<lparr>w_findProcess := tn_ShouldFindProcess config, w_router := rt,
           w_dns := Some (fst (dd_Local (tn_Dns config)), fst (dd_Remote (tn_Dns config)))\<rparr>)"

definition newTun_rest ::
  "'p life_env \<Rightarrow> ('c, rule) lru_api \<Rightarrow> ('d, string) lru_api \<Rightarrow> bool \<Rightarrow> 'p tun_cfg \<Rightarrow>
   (('c, 'd, 'p) world, life_error, 'p tun_client) comp" where
  "newTun_rest E L D isLocalServerEnabled config =
     io_bind (open_tun E) (\<lambda>_.
     io_bind (update (set_up_tun E config)) (\<lambda>_.
     io_bind (UpdateRule E L D) (\<lambda>_.
       io_ret \<lparr>tc_listener = NewListener (sv_Addr (tn_LocalServer config)) (sv_Port (tn_LocalServer config)),
         tc_config = config, tc_isLocalServerEnabled = isLocalServerEnabled\<rparr>)))"

text \<open>\<open>None\<close>: the loop never ends, or the outbound panics.\<close>

definition newTun ::
  "'p life_env \<Rightarrow> ('c, rule) lru_api \<Rightarrow> ('d, string) lru_api \<Rightarrow> bool \<Rightarrow> ('c, 'd, 'p) world \<Rightarrow>
   ((life_error + 'p tun_client) \<times> ('c, 'd, 'p) world) option" where
  "newTun E L D isLocalServerEnabled w =
     (case StartMonitor E w of
        (Inl e, w1) \<Rightarrow> Some (Inl e, w1)
      | (Inr _, w1) \<Rightarrow>
          (case wait_interface (polled_names E w1) 0 of
             None \<Rightarrow> None
           | Some name \<Rightarrow>
               (case cfg_NewTun E D name (w1\<lparr>w_iface := name\<rparr>) of
                  None \<Rightarrow> None
                | Some (Inl e, w2) \<Rightarrow> Some (Inl e, w2)
                | Some (Inr config, w2) \<Rightarrow> Some (newTun_rest E L D isLocalServerEnabled config w2))))"

definition newSysProxy ::
  "'p life_env \<Rightarrow> ('c, rule) lru_api \<Rightarrow> ('d, string) lru_api \<Rightarrow> ('c, 'd, 'p) world \<Rightarrow>
   ((life_error + sys_client) \<times> ('c, 'd, 'p) world) option" where
  "newSysProxy E L D w =
     (case cfg_NewSystemProxy E D w of
        None \<Rightarrow> None
      | Some (Inl e, w1) \<Rightarrow> Some (Inl e, w1)
      | Some (Inr config, w1) \<Rightarrow>
          Some (io_bind (update (\<lambda>w. w\<lparr>w_findProcess := False,
              w_router := UpdateProxy (en_direct E) (en_reject E) (sy_Proxy config)
                (UpdateConnMatcher [SystemMatcher] (w_router w))\<rparr>)) (\<lambda>_.
            io_bind (UpdateRule E L D) (\<lambda>_.
              io_ret \<lparr>sc_listener = NewListener (sv_Addr (sy_LocalServer config)) (sv_Port (sy_LocalServer config)),
                sc_activeInterface = sy_ActiveInterface config\<rparr>)) w1))"

definition newMixed ::
  "'p life_env \<Rightarrow> ('c, rule) lru_api \<Rightarrow> ('d, string) lru_api \<Rightarrow> ('c, 'd, 'p) world \<Rightarrow>
   ((life_error + 'p client) \<times> ('c, 'd, 'p) world) option" where
  "newMixed E L D w =
     (case en_config E of
        Inl e \<Rightarrow> Some (Inl (ConfigError e), w)
      | Inr c \<Rightarrow>
          let server = LocalServer_New (sg_LocalServer (cf_Setting c));
              y = \<lparr>sc_listener = NewListener (sv_Addr server) (sv_Port server),
                   sc_activeInterface = hd_NetworkService (sg_HijackDns (cf_Setting c))\<rparr> in
          (case newTun E L D False w of
             None \<Rightarrow> None
           | Some (Inl e, w1) \<Rightarrow> Some (Inl e, w1)
           | Some (Inr t, w1) \<Rightarrow> Some (Inr (MixedProxyClient y t), w1)))"

definition Executor_New ::
  "'p life_env \<Rightarrow> ('c, rule) lru_api \<Rightarrow> ('d, string) lru_api \<Rightarrow> ('c, 'd, 'p) world \<Rightarrow>
   ((life_error + 'p client) \<times> ('c, 'd, 'p) world) option" where
  "Executor_New E L D w0 =
     (let w = w0\<lparr>w_DefaultResolver := None\<rparr> in
      case en_config E of
        Inl e \<Rightarrow> Some (Inl (ConfigError e), w)
      | Inr c \<Rightarrow>
          let mode = sg_Mode (cf_Setting c) in
          if mode = ''tun'' then map_option (map_prod (map_sum id TunClient) id) (newTun E L D True w)
          else if mode = ''system'' then map_option (map_prod (map_sum id SystemProxyClient) id) (newSysProxy E L D w)
          else if mode = ''mixed'' then newMixed E L D w
          else Some (Inl InvalidMode, w))"

subsection \<open>The manager\<close>

record ('c, 'd, 'p) manager =
  mg_client :: "'p client option"
  mg_world :: "('c, 'd, 'p) world"

definition GetIsStarted :: "('c, 'd, 'p) manager \<Rightarrow> bool" where
  "GetIsStarted s = (mg_client s \<noteq> None)"

definition Manager_Start ::
  "'p life_env \<Rightarrow> ('c, rule) lru_api \<Rightarrow> ('d, string) lru_api \<Rightarrow> ('c, 'd, 'p) manager \<Rightarrow>
   ((life_error + unit) \<times> ('c, 'd, 'p) manager) option" where
  "Manager_Start E L D s =
     (if GetIsStarted s then Some (Inl HasStarted, s)
      else
        (case Executor_New E L D (mg_world s) of
           None \<Rightarrow> None
         | Some (Inl e, w) \<Rightarrow> Some (Inl e, \<lparr>mg_client = None, mg_world = w\<rparr>)
         | Some (Inr c, w) \<Rightarrow>
             (case Client_Start E (c, w) of
                (Inr _, c1, w1) \<Rightarrow> Some (Inr (), \<lparr>mg_client = Some c1, mg_world = w1\<rparr>)
              | (Inl e, c1, w1) \<Rightarrow>
                  Some (Inl e, \<lparr>mg_client = None, mg_world = snd (snd (Client_Close E (c1, w1)))\<rparr>))))"

definition Manager_Close ::
  "'p life_env \<Rightarrow> ('c, 'd, 'p) manager \<Rightarrow> (life_error + unit) \<times> ('c, 'd, 'p) manager" where
  "Manager_Close E s =
     (case mg_client s of
        None \<Rightarrow> (Inr (), s)
      | Some c \<Rightarrow>
          (case Client_Close E (c, mg_world s) of (r, _, w) \<Rightarrow> (r, \<lparr>mg_client = None, mg_world = w\<rparr>)))"

end
