(* ===== verification/LifeProps.thy ===== *)
theory LifeProps
  imports Lifecycle
begin

text \<open>
  What starting and stopping promise: when a start returns, that a stop gives back what a start took, that a failed
  start is undone and where it is not, and that a started program has a rule and a proxy for every connection.
\<close>

subsection \<open>Waiting for the interface\<close>

lemma wait_interface_found: "names (i + n) \<noteq> [] \<Longrightarrow> \<exists>x. wait_interface names i = Some x"
  by (induction n arbitrary: i) (subst wait_interface.simps, simp)+

lemma wait_interface_name:
  assumes "wait_interface names i = Some x"
  shows "\<exists>j. x = names j \<and> names j \<noteq> []"
  using assms
  by (rule wait_interface.raw_induct [where P = "\<lambda>names i x. \<exists>j. x = names j \<and> names j \<noteq> []", rotated])
    (auto split: if_splits)

lemma wait_interface_iff: "wait_interface names 0 = None \<longleftrightarrow> (\<forall>i. names i = [])"
  using wait_interface_found [of names 0] wait_interface_name [of names 0] by (cases "wait_interface names 0") auto

subsection \<open>What a start leaves behind\<close>

lemma update_eq [simp]: "update f s = (r, s') \<longleftrightarrow> r = Inr () \<and> s' = f s"
  by (auto simp: update_def)

lemma xcall_eq: "xcall E x f s = (r, s') \<longleftrightarrow>
    (if en_fails E x then r = Inl (Failed x) \<and> s' = s else r = Inr () \<and> s' = f s)"
  by (auto simp: xcall_def)

lemma io_ret_eq [simp]: "io_ret a s = (r, s') \<longleftrightarrow> r = Inr a \<and> s' = s"
  by auto

lemma io_lift_eq [simp]: "io_lift r s = (r', s') \<longleftrightarrow> r' = r \<and> s' = s"
  by auto

text \<open>
  The resources that a client takes and gives back. The stacks, which \<open>TunClient.Start\<close> starts and nothing closes, are counted by
  \<open>w_stacks\<close> and are spoken of separately.
\<close>

definition resources :: "('c, 'd, 'p) world \<Rightarrow> nat \<times> nat \<times> nat \<times> bool \<times> string option \<times> monitor" where
  "resources w = (w_tuns w, w_tcp w, w_udp w, w_hijacked w, w_sysproxy w, w_monitor w)"

definition idle :: "('c, 'd, 'p) world \<Rightarrow> bool" where
  "idle w \<longleftrightarrow> \<not> w_hijacked w \<and> w_sysproxy w = None \<and> w_monitor w = no_monitor"

text \<open>The package variables that route connections are set from the configuration.\<close>

definition routed :: "'p life_env \<Rightarrow> ('c, rule) lru_api \<Rightarrow> ('c, 'd, 'p) world \<Rightarrow> bool" where
  "routed E L w \<longleftrightarrow> (\<exists>c e p. en_config E = Inr c \<and>
     Engine_New L (en_files E) (cf_SelectedRule c) (cf_Rules c) = Inr e \<and> rt_engine (w_router w) = Some e \<and>
     Outbound_New E (sg_AutoMode (cf_Setting c)) (cf_Proxy c) (cf_SelectedProxy c) = Some (Inr p) \<and>
     rt_proxies (w_router w) = [PolicyProxy \<mapsto> p, PolicyDirect \<mapsto> en_direct E, PolicyReject \<mapsto> en_reject E])"

lemma map_sum_eq_Inr [simp]: "map_sum f id r = Inr x \<longleftrightarrow> r = Inr x"
  by (cases r) auto

lemma map_sum_id_Inr [simp]: "map_sum id f r = Inr x \<longleftrightarrow> (\<exists>y. r = Inr y \<and> x = f y)"
  by (cases r) auto

lemma read_config_Inr: "read_config E s = (Inr c, s') \<longleftrightarrow> en_config E = Inr c \<and> s' = s"
  by (auto simp: read_config_def)

lemma cfg_NewTun_ok:
  assumes "cfg_NewTun E D name w = Some (Inr config, w')"
  shows "resources w' = resources w" and "w_stacks w' = w_stacks w"
    and "\<exists>c. en_config E = Inr c \<and>
      Outbound_New E (sg_AutoMode (cf_Setting c)) (cf_Proxy c) (cf_SelectedProxy c) = Some (Inr (tn_Proxy config))"
  using assms
  by (auto simp: cfg_NewTun_def Distribution_NewTun_def NewDnsDistribution_def io_bind_eq_Inr read_config_Inr Let_def
      reset_dns_cache_def resources_def split: prod.splits sum.splits option.splits if_splits)

lemma UpdateRule_ok:
  assumes "UpdateRule E L D w = (Inr x, w')"
  shows "\<exists>c e. en_config E = Inr c \<and> Engine_New L (en_files E) (cf_SelectedRule c) (cf_Rules c) = Inr e \<and>
      rt_engine (w_router w') = Some e"
    and "rt_proxies (w_router w') = rt_proxies (w_router w)" and "resources w' = resources w" and "w_stacks w' = w_stacks w"
  using assms
  by (auto simp: UpdateRule_def io_bind_eq_Inr read_config_Inr reset_dns_cache_def resources_def UpdateRuleEngine_def)

lemma open_tun_ok:
  assumes "open_tun E w = (Inr (), w')"
  shows "w' = w\<lparr>w_tuns := w_tuns w + 1\<rparr>"
  using assms by (auto simp: open_tun_def io_bind_eq_Inr xcall_eq split: if_splits)

lemma set_up_tun_router:
  "rt_proxies (w_router (set_up_tun E config w)) =
     [PolicyProxy \<mapsto> tn_Proxy config, PolicyDirect \<mapsto> en_direct E, PolicyReject \<mapsto> en_reject E]"
  "resources (set_up_tun E config w) = resources w" "w_stacks (set_up_tun E config w) = w_stacks w"
  by (simp_all add: set_up_tun_def UpdateProxy_def resources_def Let_def)

lemma StartMonitor_ok:
  assumes "StartMonitor E w = (Inr (), w')"
  shows "\<exists>m n. w' = w\<lparr>w_monitor := m, w_iface := n\<rparr>"
proof -
  have "w' = w\<lparr>w_monitor := w_monitor w, w_iface := w_iface w'\<rparr> \<or> w' = w\<lparr>w_monitor := w_monitor w', w_iface := w_iface w\<rparr>"
    using assms by (auto simp: StartMonitor_def new_monitor_def io_bind_eq_Inr read_config_Inr xcall_eq Let_def split: if_splits)
  then show ?thesis by blast
qed

text \<open>A tun client has taken the device, perhaps the monitor, and nothing else.\<close>

lemma newTun_ok:
  assumes "newTun E L D b w = Some (Inr t, w')"
  shows "routed E L w'" and "\<exists>m. resources w' = (w_tuns w + 1, w_tcp w, w_udp w, w_hijacked w, w_sysproxy w, m)"
    and "w_stacks w' = w_stacks w" and "\<not> li_tcp (tc_listener t)" and "\<not> li_udp (tc_listener t)"
proof -
  obtain w1 name config w2 where m: "StartMonitor E w = (Inr (), w1)"
    and c: "cfg_NewTun E D name (w1\<lparr>w_iface := name\<rparr>) = Some (Inr config, w2)" and r: "newTun_rest E L D b config w2 = (Inr t, w')"
    using assms by (auto simp: newTun_def split: prod.splits sum.splits option.splits)
  from StartMonitor_ok [OF m] obtain k n where w1: "w1 = w\<lparr>w_monitor := k, w_iface := n\<rparr>" by blast
  note cn = cfg_NewTun_ok [OF c]
  from r obtain w3 x w5 where o: "open_tun E w2 = (Inr (), w3)"
    and u: "UpdateRule E L D (set_up_tun E config w3) = (Inr x, w')"
    and t: "t = \<lparr>tc_listener = NewListener (sv_Addr (tn_LocalServer config)) (sv_Port (tn_LocalServer config)),
         tc_config = config, tc_isLocalServerEnabled = b\<rparr>"
    by (auto simp: newTun_rest_def io_bind_eq_Inr)
  note ur = UpdateRule_ok [OF u]
  note w3 = open_tun_ok [OF o]
  show "routed E L w'" unfolding routed_def using ur(1,2) cn(3) by (auto simp: set_up_tun_router)
  have "resources w' = resources w3" using ur(3) by (simp add: set_up_tun_router)
  then show "\<exists>m. resources w' = (w_tuns w + 1, w_tcp w, w_udp w, w_hijacked w, w_sysproxy w, m)"
    using cn(1) by (auto simp: w3 w1 resources_def)
  show "w_stacks w' = w_stacks w" using ur(4) cn(2) by (simp add: set_up_tun_router w3 w1)
  show "\<not> li_tcp (tc_listener t)" "\<not> li_udp (tc_listener t)" by (simp_all add: t NewListener_def)
qed

lemma cfg_NewSystemProxy_ok:
  assumes "cfg_NewSystemProxy E D w = Some (Inr config, w')"
  shows "resources w' = resources w" and "w_stacks w' = w_stacks w"
    and "\<exists>c. en_config E = Inr c \<and>
      Outbound_New E (sg_AutoMode (cf_Setting c)) (cf_Proxy c) (cf_SelectedProxy c) = Some (Inr (sy_Proxy config))"
  using assms
  by (auto simp: cfg_NewSystemProxy_def Distribution_NewSystemProxy_def io_bind_eq_Inr read_config_Inr Let_def
      reset_dns_cache_def resources_def split: prod.splits sum.splits option.splits if_splits)

lemma newSysProxy_ok:
  assumes "newSysProxy E L D w = Some (Inr y, w')"
  shows "routed E L w'" and "resources w' = resources w" and "w_stacks w' = w_stacks w"
    and "\<not> li_tcp (sc_listener y)" and "\<not> li_udp (sc_listener y)"
proof -
  obtain config w1 where c: "cfg_NewSystemProxy E D w = Some (Inr config, w1)"
    using assms by (auto simp: newSysProxy_def split: prod.splits sum.splits option.splits)
  let ?w2 = "w1\<lparr>w_findProcess := False, w_router := UpdateProxy (en_direct E) (en_reject E) (sy_Proxy config)
                (UpdateConnMatcher [SystemMatcher] (w_router w1))\<rparr>"
  obtain x where u: "UpdateRule E L D ?w2 = (Inr x, w')"
    and y: "y = \<lparr>sc_listener = NewListener (sv_Addr (sy_LocalServer config)) (sv_Port (sy_LocalServer config)),
                sc_activeInterface = sy_ActiveInterface config\<rparr>"
    using assms by (auto simp: newSysProxy_def c io_bind_eq_Inr)
  note cn = cfg_NewSystemProxy_ok [OF c] and ur = UpdateRule_ok [OF u]
  have "rt_proxies (w_router ?w2) = [PolicyProxy \<mapsto> sy_Proxy config, PolicyDirect \<mapsto> en_direct E, PolicyReject \<mapsto> en_reject E]"
    by (simp add: UpdateProxy_def)
  then show "routed E L w'" unfolding routed_def using ur(1,2) cn(3) by auto
  show "resources w' = resources w" using ur(3) cn(1) by (simp add: resources_def)
  show "w_stacks w' = w_stacks w" using ur(4) cn(2) by simp
  show "\<not> li_tcp (sc_listener y)" "\<not> li_udp (sc_listener y)" by (simp_all add: y NewListener_def)
qed

subsection \<open>Starting and stopping a client\<close>

text \<open>
  The common effect of a start of a client whose listener is closed, whether or not it succeeds: the listener
  holds what was opened, and only what a stop gives back has changed.
\<close>

definition opened :: "bool \<Rightarrow> bool \<Rightarrow> listener \<Rightarrow> ('c, 'd, 'p) world \<Rightarrow> ('c, 'd, 'p) world \<Rightarrow> bool" where
  "opened hij sysp l w w' \<longleftrightarrow> w_router w' = w_router w \<and> w_tuns w' = w_tuns w \<and> w_monitor w' = w_monitor w \<and>
     w_tcp w' = w_tcp w + of_bool (li_tcp l) \<and> w_udp w' = w_udp w + of_bool (li_udp l) \<and>
     (\<not> hij \<longrightarrow> w_hijacked w' = w_hijacked w) \<and> (\<not> sysp \<longrightarrow> w_sysproxy w' = w_sysproxy w)"

lemma Listener_Start_opened:
  assumes "Listener_Start E (l, w) = (r, l', w')" and "\<not> li_tcp l" and "\<not> li_udp l"
  shows "opened False False l' w w'"
  using assms by (auto simp: Listener_Start_def io_bind_cases xcall_eq opened_def split: if_splits)

lemma on_world_eq: "on_world m s = (r, s') \<longleftrightarrow> (\<exists>w. m (snd s) = (r, w) \<and> s' = (fst s, w))"
  by (auto simp: on_world_def split: prod.splits)

lemma on_listener_eq:
  "on_listener get put m s = (r, s') \<longleftrightarrow> (\<exists>l w. m (get (fst s), snd s) = (r, l, w) \<and> s' = (put l (fst s), w))"
  by (auto simp: on_listener_def split: prod.splits)

text \<open>The start of a tun client, step by step.\<close>

lemma TunClient_Start_eq:
  "TunClient_Start E (t, w) =
     (if en_fails E XStackStart then (Inl (Failed XStackStart), t, w)
      else let w1 = w\<lparr>w_stacks := w_stacks w + 1\<rparr>; hij = hd_Enabled (tn_HijackDns (tc_config t)) in
        if hij \<and> en_fails E XHijack then (Inl (Failed XHijack), t, w1)
        else let w2 = (if hij then w1\<lparr>w_hijacked := True\<rparr> else w1) in
          if tc_isLocalServerEnabled t \<and> sv_AllowLan (tn_LocalServer (tc_config t))
          then (case Listener_Start E (tc_listener t, w2) of (r, l, w3) \<Rightarrow> (r, t\<lparr>tc_listener := l\<rparr>, w3))
          else (Inr (), t, w2))"
  by (simp add: TunClient_Start_def Let_def io_bind_def on_world_def on_listener_def xcall_def io_ret_def)

lemma TunClient_Start_cases:
  assumes "TunClient_Start E (t, w) = (r, t', w')"
  obtains (quick) n h where "t' = t" and "w' = w\<lparr>w_stacks := n, w_hijacked := h\<rparr>"
      and "h = w_hijacked w \<or> hd_Enabled (tn_HijackDns (tc_config t))"
  | (listen) n h r' l' where "tc_isLocalServerEnabled t" and "sv_AllowLan (tn_LocalServer (tc_config t))"
      and "Listener_Start E (tc_listener t, w\<lparr>w_stacks := n, w_hijacked := h\<rparr>) = (r', l', w')"
      and "t' = t\<lparr>tc_listener := l'\<rparr>" and "h = w_hijacked w \<or> hd_Enabled (tn_HijackDns (tc_config t))"
proof -
  show ?thesis
  proof (cases "en_fails E XStackStart")
    case True
    then show ?thesis using assms quick [where n = "w_stacks w" and h = "w_hijacked w"] by (simp add: TunClient_Start_eq)
  next
    case False
    let ?hij = "hd_Enabled (tn_HijackDns (tc_config t))"
    let ?w1 = "w\<lparr>w_stacks := w_stacks w + 1, w_hijacked := w_hijacked w\<rparr>"
    let ?w2 = "w\<lparr>w_stacks := w_stacks w + 1, w_hijacked := (?hij \<or> w_hijacked w)\<rparr>"
    have w2: "(if ?hij then w\<lparr>w_stacks := w_stacks w + 1\<rparr>\<lparr>w_hijacked := True\<rparr> else w\<lparr>w_stacks := w_stacks w + 1\<rparr>) = ?w2"
      by simp
    show ?thesis
    proof (cases "?hij \<and> en_fails E XHijack")
      case True
      have "w\<lparr>w_stacks := w_stacks w + 1\<rparr> = ?w1" by simp
      then have "t' = t" "w' = ?w1" using assms False True unfolding TunClient_Start_eq Let_def by auto
      then show ?thesis using quick by blast
    next
      case nf: False
      have "TunClient_Start E (t, w) = (if tc_isLocalServerEnabled t \<and> sv_AllowLan (tn_LocalServer (tc_config t))
          then (case Listener_Start E (tc_listener t, ?w2) of (r, l, w3) \<Rightarrow> (r, t\<lparr>tc_listener := l\<rparr>, w3))
          else (Inr (), t, ?w2))"
        unfolding TunClient_Start_eq Let_def w2 by (simp only: False nf if_False)
      then show ?thesis using assms quick [where n = "w_stacks w + 1" and h = "?hij \<or> w_hijacked w"]
          listen [where n = "w_stacks w + 1" and h = "?hij \<or> w_hijacked w"]
        by (cases "Listener_Start E (tc_listener t, ?w2)") (auto split: if_splits)
    qed
  qed
qed

lemma TunClient_Start_opened:
  assumes "TunClient_Start E (t, w) = (r, t', w')" and "\<not> li_tcp (tc_listener t)" and "\<not> li_udp (tc_listener t)"
  shows "opened (hd_Enabled (tn_HijackDns (tc_config t))) False (tc_listener t') w w' \<and>
    tc_config t' = tc_config t \<and> tc_isLocalServerEnabled t' = tc_isLocalServerEnabled t \<and>
    (li_tcp (tc_listener t') \<or> li_udp (tc_listener t') \<longrightarrow>
      tc_isLocalServerEnabled t \<and> sv_AllowLan (tn_LocalServer (tc_config t)))"
  using assms(1)
proof (cases rule: TunClient_Start_cases)
  case (quick n h)
  then show ?thesis using assms(2,3) by (auto simp: opened_def)
next
  case (listen n h r' l')
  then show ?thesis using Listener_Start_opened [OF listen(3) assms(2,3)] by (auto simp: opened_def)
qed

lemma SysClient_Start_opened:
  assumes "SysClient_Start E (y, w) = (r, y', w')" and "\<not> li_tcp (sc_listener y)" and "\<not> li_udp (sc_listener y)"
  shows "opened False True (sc_listener y') w w'"
proof -
  obtain r' l' w1 where "Listener_Start E (sc_listener y, w) = (r', l', w1)" and "y' = y\<lparr>sc_listener := l'\<rparr>"
    and "w' = w1 \<or> (\<exists>a. w' = w1\<lparr>w_sysproxy := Some a\<rparr>)"
    using assms(1)
    by (auto simp: SysClient_Start_def io_bind_cases on_world_eq on_listener_eq xcall_eq split: if_splits)
  then show ?thesis using assms(2,3) by (auto simp: opened_def dest!: Listener_Start_opened)
qed

text \<open>The calls that give resources back work.\<close>

definition closing_ok :: "'p life_env \<Rightarrow> bool" where
  "closing_ok E \<longleftrightarrow> (\<forall>x \<in> {XResume, XTunClose, XNetClose, XIfaceClose, XCloseTcp, XCloseUdp, XSysClear}. \<not> en_fails E x)"

lemma Listener_Close_ok:
  assumes "closing_ok E"
  shows "Listener_Close E (l, w) = (Inr (), l, w\<lparr>w_tcp := w_tcp w - of_bool (li_tcp l), w_udp := w_udp w - of_bool (li_udp l)\<rparr>)"
  using assms by (simp add: closing_ok_def Listener_Close_def io_bind_def xcall_def)

lemma TunClient_Close_ok:
  assumes "closing_ok E"
    and "li_tcp (tc_listener t) \<or> li_udp (tc_listener t) \<longrightarrow> tc_isLocalServerEnabled t \<and> sv_AllowLan (tn_LocalServer (tc_config t))"
  shows "\<exists>w'. TunClient_Close E (t, w) = (Inr (), t, w') \<and>
    resources w' = (w_tuns w - 1, w_tcp w - of_bool (li_tcp (tc_listener t)), w_udp w - of_bool (li_udp (tc_listener t)),
      w_hijacked w \<and> \<not> hd_Enabled (tn_HijackDns (tc_config t)), w_sysproxy w, no_monitor)"
  using assms
  by (auto simp: closing_ok_def TunClient_Close_def Let_def io_bind_def on_world_def xcall_def update_def io_ret_def
      on_listener_def Listener_Close_ok [OF assms(1)] StopMonitor_def CloseAllConnections_def resources_def)

lemma SysClient_Close_ok:
  assumes "closing_ok E"
  shows "\<exists>w'. SysClient_Close E (y, w) = (Inr (), y, w') \<and>
    resources w' = (w_tuns w, w_tcp w - of_bool (li_tcp (sc_listener y)), w_udp w - of_bool (li_udp (sc_listener y)),
      w_hijacked w, None, w_monitor w)"
  using assms
  by (auto simp: closing_ok_def SysClient_Close_def io_bind_def on_world_def xcall_def update_def io_try_def io_lift_def
      on_listener_def Listener_Close_ok [OF assms(1)] both_def CloseAllConnections_def resources_def)

text \<open>A client as it is made: its listeners are closed. Whether it has a tun device.\<close>

primrec fresh_client :: "'p client \<Rightarrow> bool" where
  "fresh_client (TunClient t) = (\<not> li_tcp (tc_listener t) \<and> \<not> li_udp (tc_listener t))"
| "fresh_client (SystemProxyClient y) = (\<not> li_tcp (sc_listener y) \<and> \<not> li_udp (sc_listener y))"
| "fresh_client (MixedProxyClient y t) = (\<not> li_tcp (sc_listener y) \<and> \<not> li_udp (sc_listener y) \<and>
     \<not> li_tcp (tc_listener t) \<and> \<not> li_udp (tc_listener t))"

primrec has_tun :: "'p client \<Rightarrow> bool" where
  "has_tun (TunClient t) = True"
| "has_tun (SystemProxyClient y) = False"
| "has_tun (MixedProxyClient y t) = True"

definition given_back :: "bool \<Rightarrow> ('c, 'd, 'p) world \<Rightarrow> ('c, 'd, 'p) world \<Rightarrow> bool" where
  "given_back tun w w' \<longleftrightarrow> w_tuns w' = w_tuns w - of_bool tun \<and> w_tcp w' = w_tcp w \<and> w_udp w' = w_udp w \<and>
     (\<not> w_hijacked w \<longrightarrow> \<not> w_hijacked w') \<and> (w_sysproxy w = None \<longrightarrow> w_sysproxy w' = None) \<and>
     (tun \<or> w_monitor w = no_monitor \<longrightarrow> w_monitor w' = no_monitor)"

lemma Tun_start_close:
  assumes "TunClient_Start E (t, w) = (r, t', w')" and "\<not> li_tcp (tc_listener t)" and "\<not> li_udp (tc_listener t)" and "closing_ok E'"
  shows "\<exists>w''. TunClient_Close E' (t', w') = (Inr (), t', w'') \<and> given_back True w w''"
proof -
  note o = TunClient_Start_opened [OF assms(1-3)]
  have "li_tcp (tc_listener t') \<or> li_udp (tc_listener t') \<longrightarrow>
      tc_isLocalServerEnabled t' \<and> sv_AllowLan (tn_LocalServer (tc_config t'))" using o by auto
  from TunClient_Close_ok [OF assms(4) this, of w'] obtain w'' where c: "TunClient_Close E' (t', w') = (Inr (), t', w'')"
    "resources w'' = (w_tuns w' - 1, w_tcp w' - of_bool (li_tcp (tc_listener t')), w_udp w' - of_bool (li_udp (tc_listener t')),
      w_hijacked w' \<and> \<not> hd_Enabled (tn_HijackDns (tc_config t')), w_sysproxy w', no_monitor)" by (elim exE conjE)
  have "given_back True w w''" using c(2) o by (auto simp: given_back_def opened_def resources_def)
  with c(1) show ?thesis by blast
qed

lemma Sys_start_close:
  assumes "SysClient_Start E (y, w) = (r, y', w')" and "\<not> li_tcp (sc_listener y)" and "\<not> li_udp (sc_listener y)" and "closing_ok E'"
  shows "\<exists>w''. SysClient_Close E' (y', w') = (Inr (), y', w'') \<and> given_back False w w''"
proof -
  note o = SysClient_Start_opened [OF assms(1-3)]
  from SysClient_Close_ok [OF assms(4), of y' w'] obtain w'' where c: "SysClient_Close E' (y', w') = (Inr (), y', w'')"
    "resources w'' = (w_tuns w', w_tcp w' - of_bool (li_tcp (sc_listener y')), w_udp w' - of_bool (li_udp (sc_listener y')),
      w_hijacked w', None, w_monitor w')" by (elim exE conjE)
  have "given_back False w w''" using c(2) o by (auto simp: given_back_def opened_def resources_def)
  with c(1) show ?thesis by blast
qed

text \<open>What a client took in its start, successful or not, its stop gives back; and the routing stays as it was set up.\<close>

lemma start_close:
  assumes "Client_Start E (c, w) = (r, c', w')" and "fresh_client c" and "closing_ok E'"
  shows "w_router w' = w_router w \<and> (\<exists>w''. Client_Close E' (c', w') = (Inr (), c', w'') \<and> given_back (has_tun c) w w'')"
proof (cases c)
  case (TunClient t)
  then obtain t' where s: "TunClient_Start E (t, w) = (r, t', w')" "c' = TunClient t'"
    using assms(1) by (auto simp: Client_Start_def client_run_def split: prod.splits)
  then show ?thesis
    using Tun_start_close [OF s(1) _ _ assms(3)] TunClient_Start_opened [OF s(1)] assms(2) TunClient
    by (auto simp: opened_def Client_Close_def client_run_def)
next
  case (SystemProxyClient y)
  then obtain y' where s: "SysClient_Start E (y, w) = (r, y', w')" "c' = SystemProxyClient y'"
    using assms(1) by (auto simp: Client_Start_def client_run_def split: prod.splits)
  then show ?thesis
    using Sys_start_close [OF s(1) _ _ assms(3)] SysClient_Start_opened [OF s(1)] assms(2) SystemProxyClient
    by (auto simp: opened_def Client_Close_def client_run_def)
next
  case (MixedProxyClient y t)
  then obtain r1 y' w1 r2 t' where s: "SysClient_Start E (y, w) = (r1, y', w1)" "TunClient_Start E (t, w1) = (r2, t', w')"
    "c' = MixedProxyClient y' t'"
    using assms(1) by (auto simp: Client_Start_def client_run_def split: prod.splits)
  have f: "\<not> li_tcp (sc_listener y)" "\<not> li_udp (sc_listener y)" "\<not> li_tcp (tc_listener t)" "\<not> li_udp (tc_listener t)"
    using assms(2) MixedProxyClient by auto
  note oy = SysClient_Start_opened [OF s(1) f(1,2)] and ot = TunClient_Start_opened [OF s(2) f(3,4)]
  from SysClient_Close_ok [OF assms(3), of y' w'] obtain w2 where c1: "SysClient_Close E' (y', w') = (Inr (), y', w2)"
    "resources w2 = (w_tuns w', w_tcp w' - of_bool (li_tcp (sc_listener y')), w_udp w' - of_bool (li_udp (sc_listener y')),
      w_hijacked w', None, w_monitor w')" by (elim exE conjE)
  have "li_tcp (tc_listener t') \<or> li_udp (tc_listener t') \<longrightarrow>
      tc_isLocalServerEnabled t' \<and> sv_AllowLan (tn_LocalServer (tc_config t'))" using ot by auto
  from TunClient_Close_ok [OF assms(3) this, of w2] obtain w3 where c2: "TunClient_Close E' (t', w2) = (Inr (), t', w3)"
    "resources w3 = (w_tuns w2 - 1, w_tcp w2 - of_bool (li_tcp (tc_listener t')), w_udp w2 - of_bool (li_udp (tc_listener t')),
      w_hijacked w2 \<and> \<not> hd_Enabled (tn_HijackDns (tc_config t')), w_sysproxy w2, no_monitor)" by (elim exE conjE)
  have "given_back True w w3" using c1(2) c2(2) oy ot by (auto simp: given_back_def opened_def resources_def)
  then show ?thesis using oy ot MixedProxyClient s(3) c1(1) c2(1)
    by (auto simp: opened_def Client_Close_def client_run_def both_def)
qed

lemma Executor_New_ok:
  assumes "Executor_New E L D w = Some (Inr c, w')"
  shows "routed E L w' \<and> fresh_client c \<and>
    (\<exists>m. resources w' = (w_tuns w + of_bool (has_tun c), w_tcp w, w_udp w, w_hijacked w, w_sysproxy w, m) \<and>
      (\<not> has_tun c \<longrightarrow> m = w_monitor w))"
proof -
  let ?w = "w\<lparr>w_DefaultResolver := None\<rparr>"
  obtain cf where cf: "en_config E = Inr cf" using assms by (auto simp: Executor_New_def Let_def split: sum.splits)
  consider t where "newTun E L D True ?w = Some (Inr t, w')" "c = TunClient t"
    | y where "newSysProxy E L D ?w = Some (Inr y, w')" "c = SystemProxyClient y"
    | y t where "newTun E L D False ?w = Some (Inr t, w')" "c = MixedProxyClient y t" "\<not> li_tcp (sc_listener y)" "\<not> li_udp (sc_listener y)"
    using assms
    by (auto simp: Executor_New_def cf Let_def newMixed_def NewListener_def split: if_splits option.splits prod.splits sum.splits)
  then show ?thesis
  proof cases
    case 1
    note n = newTun_ok [OF 1(1)]
    show ?thesis using n(1,2,4,5) 1(2) by simp
  next
    case 2
    note n = newSysProxy_ok [OF 2(1)]
    show ?thesis using n(1,2,4,5) 2(2) by (simp add: resources_def)
  next
    case 3
    note n = newTun_ok [OF 3(1)]
    show ?thesis using n(1,2,4,5) 3(2-4) by simp
  qed
qed

lemma resources_given_back:
  assumes "resources w1 = (w_tuns w + of_bool tun, w_tcp w, w_udp w, w_hijacked w, w_sysproxy w, m)"
    and "\<not> tun \<longrightarrow> m = w_monitor w" and "given_back tun w1 w2" and "idle w"
  shows "resources w2 = resources w"
  using assms by (cases tun) (auto simp: given_back_def resources_def idle_def)

text \<open> C23. Stopping gives back what starting took: after a successful start of an idle system and a stop in which the closing
  calls work, in each of the three modes, there is no client, and the tun devices, the listeners, the DNS settings, the system proxy
  and the network monitor are as before the start. (The stack is not closed.)\<close>

theorem stop_restores:
  assumes "idle (mg_world s)" and "Manager_Start E L D s = Some (Inr (), s1)" and "closing_ok E'"
  shows "\<exists>s2. Manager_Close E' s1 = (Inr (), s2) \<and> mg_client s2 = None \<and>
    resources (mg_world s2) = resources (mg_world s)"
proof -
  obtain c w c1 w1 where n: "Executor_New E L D (mg_world s) = Some (Inr c, w)"
    and st: "Client_Start E (c, w) = (Inr (), c1, w1)" and s1: "s1 = \<lparr>mg_client = Some c1, mg_world = w1\<rparr>"
    using assms(2) by (auto simp: Manager_Start_def split: if_splits option.splits prod.splits sum.splits)
  note en = Executor_New_ok [OF n]
  from start_close [OF st _ assms(3)] en obtain w2 where
    c: "Client_Close E' (c1, w1) = (Inr (), c1, w2)" "given_back (has_tun c) w w2" by blast
  have "resources w2 = resources (mg_world s)" using en resources_given_back [OF _ _ c(2) assms(1)] by blast
  then show ?thesis by (simp add: Manager_Close_def s1 c(1))
qed

text \<open>The stack: a tun client that gets past starting it has one more, whatever fails then, and no stop closes a stack.\<close>

lemma Listener_keeps_stacks:
  "Listener_Start E (l, w) = (r, l', w') \<Longrightarrow> w_stacks w' = w_stacks w"
  "Listener_Close E (l, w) = (r, l', w') \<Longrightarrow> w_stacks w' = w_stacks w"
  by (auto simp: Listener_Start_def Listener_Close_def io_bind_cases xcall_eq io_ret_def split: if_splits)

lemma TunClient_Start_stacks:
  "TunClient_Start E (t, w) = (r, t', w') \<Longrightarrow> w_stacks w' = w_stacks w + of_bool (\<not> en_fails E XStackStart)"
  by (auto simp: TunClient_Start_eq Let_def dest!: Listener_keeps_stacks(1) split: if_splits prod.splits)

lemma SysClient_keeps_stacks:
  "SysClient_Start E (y, w) = (r, y', w') \<Longrightarrow> w_stacks w' = w_stacks w"
  "SysClient_Close E (y, w) = (r, y', w') \<Longrightarrow> w_stacks w' = w_stacks w"
  by (auto simp: SysClient_Start_def SysClient_Close_def io_bind_def on_world_def on_listener_def xcall_def update_def io_try_def io_lift_def
      CloseAllConnections_def dest!: Listener_keeps_stacks split: prod.splits sum.splits if_splits)

lemma TunClient_Close_keeps_stacks:
  "w_stacks (snd (snd (TunClient_Close E (t, w)))) = w_stacks w"
  by (simp add: TunClient_Close_def io_bind_def on_world_def on_listener_def xcall_def update_def StopMonitor_def
      CloseAllConnections_def Listener_Close_def io_ret_def Let_def split: prod.splits sum.splits)

lemma Client_Start_stacks:
  assumes "Client_Start E (c, w) = (r, c', w')"
  shows "w_stacks w' = w_stacks w + of_bool (has_tun c \<and> \<not> en_fails E XStackStart)"
  using assms
  by (cases c) (auto simp: Client_Start_def client_run_def split: prod.splits dest!: TunClient_Start_stacks SysClient_keeps_stacks(1))

lemma Client_Close_keeps_stacks:
  assumes "Client_Close E (c, w) = (r, c', w')"
  shows "w_stacks w' = w_stacks w"
proof -
  have t: "w_stacks w2 = w_stacks w1" if "TunClient_Close E (t, w1) = (r, t', w2)" for t w1 r t' w2
    using TunClient_Close_keeps_stacks [of E t w1] that by simp
  show ?thesis using assms
    by (cases c) (auto simp: Client_Close_def client_run_def split: prod.splits dest!: t SysClient_keeps_stacks(2))
qed

lemma Executor_New_stacks: "Executor_New E L D w = Some (Inr c, w') \<Longrightarrow> w_stacks w' = w_stacks w"
  by (auto simp: Executor_New_def Let_def newMixed_def split: if_splits option.splits prod.splits sum.splits
      dest!: newTun_ok(3) newSysProxy_ok(3))

text \<open> C24. A client that fails to start is closed: if the client could be made but its start fails, and the closing calls work, the
  manager holds no client, and the tun devices, the listeners, the DNS settings, the system proxy and the network monitor are as
  before. The stack is not: when the client has one and starting it worked, one more stack is left running.\<close>

theorem failed_start_gives_back:
  assumes "idle (mg_world s)" and "Executor_New E L D (mg_world s) = Some (Inr c, w)"
    and "Manager_Start E L D s = Some (Inl e, s1)" and "closing_ok E" and "\<not> GetIsStarted s"
  shows "mg_client s1 = None \<and> resources (mg_world s1) = resources (mg_world s) \<and>
    w_stacks (mg_world s1) = w_stacks (mg_world s) + of_bool (has_tun c \<and> \<not> en_fails E XStackStart)"
proof -
  obtain e' c1 w1 where st: "Client_Start E (c, w) = (Inl e', c1, w1)"
    and s1: "s1 = \<lparr>mg_client = None, mg_world = snd (snd (Client_Close E (c1, w1)))\<rparr>"
    using assms(2,3,5) by (auto simp: Manager_Start_def split: prod.splits sum.splits)
  note en = Executor_New_ok [OF assms(2)]
  from start_close [OF st _ assms(4)] en obtain w2 where
    c: "Client_Close E (c1, w1) = (Inr (), c1, w2)" "given_back (has_tun c) w w2" by blast
  have "resources w2 = resources (mg_world s)" using en resources_given_back [OF _ _ c(2) assms(1)] by blast
  moreover have "w_stacks w2 = w_stacks (mg_world s) + of_bool (has_tun c \<and> \<not> en_fails E XStackStart)"
    using Client_Close_keeps_stacks [OF c(1)] Client_Start_stacks [OF st] Executor_New_stacks [OF assms(2)] by simp
  ultimately show ?thesis by (simp add: s1 c(1))
qed

subsection \<open>A started program routes every connection\<close>

lemma Manager_Start_routed:
  assumes "Manager_Start E L D s = Some (Inr (), s1)"
  shows "routed E L (mg_world s1)"
proof -
  obtain c w c1 w1 where n: "Executor_New E L D (mg_world s) = Some (Inr c, w)"
    and st: "Client_Start E (c, w) = (Inr (), c1, w1)" and s1: "s1 = \<lparr>mg_client = Some c1, mg_world = w1\<rparr>"
    using assms by (auto simp: Manager_Start_def split: if_splits option.splits prod.splits sum.splits)
  note en = Executor_New_ok [OF n]
  have "w_router w1 = w_router w"
    using start_close [OF st, of "E\<lparr>en_fails := \<lambda>_. False\<rparr>"] en by (auto simp: closing_ok_def)
  then show ?thesis using en by (simp add: routed_def s1)
qed

text \<open> C22. After a successful start, whatever is matched and cached afterwards, every connection is given a rule, and
  the proxy for its policy: the outbound that the configuration selects for PROXY, the direct and the rejecting one for the
  other two.\<close>

theorem started_program_routes:
  assumes "rule_cache ok held L del" and "Manager_Start E L D s = Some (Inr (), s1)"
    and "\<forall>v r. EAddCache v r \<in> set xs \<longrightarrow> policy_ok r"
  shows "\<exists>c p e r rt. en_config E = Inr c \<and>
    Outbound_New E (sg_AutoMode (cf_Setting c)) (cf_Proxy c) (cf_SelectedProxy c) = Some (Inr p) \<and>
    rt_engine (w_router (mg_world s1)) = Some e \<and>
    resolveMetadata P L D m ((w_router (mg_world s1))\<lparr>rt_engine := Some (engine_run P L xs e)\<rparr>) = Some (r, rt) \<and>
    GetProxy (Rule_GetPolicy r) rt =
      Inr (if Rule_GetPolicy r = PolicyProxy then p
           else if Rule_GetPolicy r = PolicyDirect then en_direct E else en_reject E)"
proof -
  obtain c e p where d: "en_config E = Inr c"
    "Engine_New L (en_files E) (cf_SelectedRule c) (cf_Rules c) = Inr e" "rt_engine (w_router (mg_world s1)) = Some e"
    "Outbound_New E (sg_AutoMode (cf_Setting c)) (cf_Proxy c) (cf_SelectedProxy c) = Some (Inr p)"
    "rt_proxies (w_router (mg_world s1)) = [PolicyProxy \<mapsto> p, PolicyDirect \<mapsto> en_direct E, PolicyReject \<mapsto> en_reject E]"
    using Manager_Start_routed [OF assms(2)] unfolding routed_def by (elim exE conjE)
  let ?rt = "(w_router (mg_world s1))\<lparr>rt_engine := Some (engine_run P L xs e)\<rparr>"
  have pol: "rule_cache.engine_pol ok held (engine_run P L xs e)"
    by (rule rule_cache.engine_run_pol [OF assms(1) rule_cache.New_pol [OF assms(1) d(2)] assms(3)])
  have eq: "rt_engine ?rt = Some (engine_run P L xs e)" by simp
  from rule_cache.run_matchers_pol [OF assms(1) pol builtin_policies(1), of P "GetConnMatcher ?rt" m] obtain r e' where
    r: "run_matchers P L (GetConnMatcher ?rt) m BuiltInProxyRule (rt_engine ?rt) = Some (r, Some e')"
      "policy_ok r" unfolding eq by (elim exE conjE)
  from r(2) have "Rule_GetPolicy r \<in> {PolicyDirect, PolicyProxy, PolicyReject}" by (simp add: policy_ok_def)
  moreover obtain rt where rt: "resolveMetadata P L D m ?rt = Some (r, rt)" "rt_proxies rt = rt_proxies ?rt"
    using r(1) by (simp add: resolveMetadata_def)
  ultimately have "GetProxy (Rule_GetPolicy r) rt =
      Inr (if Rule_GetPolicy r = PolicyProxy then p
           else if Rule_GetPolicy r = PolicyDirect then en_direct E else en_reject E)"
    using d(5) by (auto simp: GetProxy_def policies)
  then show ?thesis using d(1,3,4) rt(1) by blast
qed

subsection \<open>When a start returns\<close>

definition monitor_fails :: "'p life_env \<Rightarrow> bool" where
  "monitor_fails E \<longleftrightarrow> (\<exists>x \<in> {XNetNew, XNetStart, XIfaceNew, XIfaceStart}. en_fails E x)"

lemma newTun_returns:
  assumes "en_config E = Inr c" and "\<not> am_Enabled (sg_AutoMode (cf_Setting c))"
  shows "newTun E L D b w \<noteq> None \<longleftrightarrow>
    (if sg_DefaultInterface (cf_Setting c) = [] then monitor_fails E \<or> w_iface w \<noteq> [] \<or> (\<exists>i. en_names E i \<noteq> []) else True)"
proof -
  have o: "Outbound_New E (sg_AutoMode (cf_Setting c)) (cf_Proxy c) (cf_SelectedProxy c) \<noteq> None"
    using assms(2) by (auto simp: Outbound_New_def split: option.splits)
  have cf: "cfg_NewTun E D name w1 \<noteq> None" for name w1
    using o assms(1) by (auto simp: cfg_NewTun_def io_bind_eq_Inr read_config_Inr Let_def split: prod.splits sum.splits option.splits)
  have m: "isl (fst (StartMonitor E w)) \<longleftrightarrow> sg_DefaultInterface (cf_Setting c) = [] \<and> monitor_fails E"
    using assms(1)
    by (simp add: StartMonitor_def io_bind_def read_config_def xcall_def new_monitor_def monitor_fails_def update_def Let_def if_distribR)
  have i: "w_iface (snd (StartMonitor E w)) =
      (if sg_DefaultInterface (cf_Setting c) = [] then w_iface w else sg_DefaultInterface (cf_Setting c))"
    using assms(1) by (simp add: StartMonitor_def io_bind_def read_config_def xcall_def new_monitor_def update_def Let_def if_distribR)
  have n: "newTun E L D b w = None \<longleftrightarrow>
      \<not> isl (fst (StartMonitor E w)) \<and> wait_interface (polled_names E (snd (StartMonitor E w))) 0 = None"
  proof (cases "StartMonitor E w")
    case (Pair r w1)
    show ?thesis
    proof (cases "wait_interface (polled_names E w1) 0")
      case (Some name)
      obtain r' w2 where "cfg_NewTun E D name (w1\<lparr>w_iface := name\<rparr>) = Some (r', w2)" using cf by (metis not_Some_eq surj_pair)
      then show ?thesis by (simp add: newTun_def Pair Some split: sum.splits)
    qed (simp add: newTun_def Pair split: sum.splits)
  qed
  show ?thesis unfolding n m wait_interface_iff polled_names_def i by auto
qed

text \<open> C25. When a start returns: with a proxy selected by hand, starting an idle manager returns, with success or an error, exactly when
  the mode has no tun device, or the settings or an earlier run name the default interface, or the monitor fails to start, or it
  finds the interface by some poll; otherwise the loop that waits for the name never ends, holding the lock of the manager.\<close>

theorem Start_returns_iff:
  assumes "\<not> GetIsStarted s" and "en_config E = Inr c" and "\<not> am_Enabled (sg_AutoMode (cf_Setting c))"
  shows "(\<exists>r s1. Manager_Start E L D s = Some (r, s1)) \<longleftrightarrow>
    sg_Mode (cf_Setting c) \<notin> {''tun'', ''mixed''} \<or>
    sg_DefaultInterface (cf_Setting c) \<noteq> [] \<or> w_iface (mg_world s) \<noteq> [] \<or> monitor_fails E \<or> (\<exists>i. en_names E i \<noteq> [])"
proof -
  let ?w = "(mg_world s)\<lparr>w_DefaultResolver := None\<rparr>"
  have o: "Outbound_New E (sg_AutoMode (cf_Setting c)) (cf_Proxy c) (cf_SelectedProxy c) \<noteq> None"
    using assms(3) by (auto simp: Outbound_New_def split: option.splits)
  have sys: "newSysProxy E L D ?w \<noteq> None"
    using o assms(2) by (auto simp: newSysProxy_def cfg_NewSystemProxy_def io_bind_eq_Inr read_config_Inr Let_def
        split: prod.splits sum.splits option.splits)
  have m: "(\<exists>r s1. Manager_Start E L D s = Some (r, s1)) \<longleftrightarrow> Executor_New E L D (mg_world s) \<noteq> None"
    using assms(1) by (auto simp: Manager_Start_def split: option.splits prod.splits sum.splits)
  have n: "Executor_New E L D (mg_world s) \<noteq> None \<longleftrightarrow>
      (sg_Mode (cf_Setting c) = ''tun'' \<longrightarrow> newTun E L D True ?w \<noteq> None) \<and>
      (sg_Mode (cf_Setting c) = ''mixed'' \<longrightarrow> newTun E L D False ?w \<noteq> None)"
    using sys assms(2) by (auto simp: Executor_New_def newMixed_def Let_def split: option.splits prod.splits sum.splits)
  show ?thesis unfolding m n newTun_returns [OF assms(2,3)] by auto
qed

subsection \<open>What is not given back\<close>

text \<open>When the DNS settings cannot be restored, the stop ends early: the tun device stays open, and the manager forgets the client.\<close>

lemma failed_resume_leaks:
  assumes "mg_client s = Some (TunClient t)" and "hd_Enabled (tn_HijackDns (tc_config t))" and "en_fails E XResume"
  shows "Manager_Close E s = (Inl (Failed XResume), \<lparr>mg_client = None, mg_world = mg_world s\<rparr>)"
  using assms
  by (simp add: Manager_Close_def Client_Close_def client_run_def TunClient_Close_def io_bind_def on_world_def xcall_def)

text \<open>When the stack or the rules cannot be made, the tun device that was opened before stays open.\<close>

lemma failed_rule_leaks:
  assumes "open_tun E w = (Inr (), w1)" and "en_config E = Inr c"
    and "Engine_New L (en_files E) (cf_SelectedRule c) (cf_Rules c) = Inl e"
  shows "\<exists>w2. newTun_rest E L D b config w = (Inl (RuleFailed e), w2) \<and> w_tuns w2 = w_tuns w + 1"
  using assms open_tun_ok [OF assms(1)]
  by (simp add: newTun_rest_def io_bind_def UpdateRule_def read_config_def set_up_tun_def Let_def update_def)

text \<open>The system mode does not switch the fake addresses of an earlier tun mode off.\<close>

lemma system_mode_keeps_fake_ip_flag:
  assumes "newSysProxy E L D w = Some (r, w')"
  shows "rt_isFakeIp (w_router w') = rt_isFakeIp (w_router w)"
  using assms
  by (auto simp: newSysProxy_def cfg_NewSystemProxy_def Distribution_NewSystemProxy_def UpdateRule_def io_bind_cases
      read_config_def reset_dns_cache_def UpdateRuleEngine_def UpdateProxy_def UpdateConnMatcher_def Let_def
      split: option.splits sum.splits prod.splits)

subsection \<open>Concrete runs\<close>

text \<open>One environment per mode, set of failing calls and sequence of interface names; a manager that holds no client.\<close>

definition demo_life :: "string \<Rightarrow> ext set \<Rightarrow> (nat \<Rightarrow> string) \<Rightarrow> string life_env" where
  "demo_life mode failing names =
     \<lparr>en_config = Inr (empty_config\<lparr>cf_Proxy := [[''id'' \<mapsto> JStr ''u1'']], cf_SelectedProxy := ''u1'', cf_SelectedRule := ''demo'',
        cf_Rules := [''DOMAIN,a.b,DIRECT''],
        cf_Setting := empty_setting\<lparr>sg_Mode := mode, sg_HijackDns := \<lparr>hd_Enabled = True, hd_NetworkService = [], hd_AlwaysReset = False\<rparr>,
          sg_Dns := \<lparr>dn_DisableCache = False, dn_Boost = [''fake-ip://empty''], dn_Remote = [''fake-ip://empty''],
            dn_Local = [''fake-ip://empty''], dn_CustomizedOptions = [], dn_FakeIp = True\<rparr>\<rparr>\<rparr>),
      en_fails = (\<lambda>x. x \<in> failing), en_names = names, en_parse = (\<lambda>_. Some ''proxy''), en_group = (\<lambda>_ _ _ _. None),
      en_direct = ''direct'', en_reject = ''reject'',
      en_url = (\<lambda>_. Some \<lparr>u_Scheme = ''fake-ip'', u_Host = ''empty'', u_Fragment = [], u_clear = []\<rparr>),
      en_files = (\<lambda>_. Some [])\<rparr>"

definition demo_world :: "((string, rule) lru_state, (string, string) lru_state, string) world" where
  "demo_world = \<lparr>w_router = \<lparr>rt_engine = None, rt_matchers = [], rt_proxies = Map.empty, rt_isFakeIp = False,
       rt_pool = undefined, rt_dnsDomainCache = ([], LruCache_New [WithSize 1024])\<rparr>,
     w_findProcess = False, w_dns = None, w_DefaultResolver = None, w_monitor = no_monitor, w_iface = [], w_tuns = 0, w_stacks = 0,
     w_hijacked = False, w_tcp = 0, w_udp = 0, w_sysproxy = None, w_conns = []\<rparr>"

definition demo_manager :: "((string, rule) lru_state, (string, string) lru_state, string) manager" where
  "demo_manager = \<lparr>mg_client = None, mg_world = demo_world\<rparr>"

abbreviation demo_start :: "string \<Rightarrow> ext set \<Rightarrow>
    ((life_error + unit) \<times> ((string, rule) lru_state, (string, string) lru_state, string) manager) option" where
  "demo_start mode failing \<equiv>
     Manager_Start (demo_life mode failing (\<lambda>i. if i = 0 then [] else ''en0'')) lru_of_clash lru_of_clash demo_manager"

lemma demo_idle: "idle (mg_world demo_manager)" "\<not> GetIsStarted demo_manager"
  by (simp_all add: demo_manager_def demo_world_def idle_def GetIsStarted_def)

lemma demo_life_manual:
  "en_config (demo_life mode X names) = Inr (case en_config (demo_life mode X names) of Inr c \<Rightarrow> c)"
  "\<not> am_Enabled (sg_AutoMode (cf_Setting (case en_config (demo_life mode X names) of Inr c \<Rightarrow> c)))"
  "sg_Mode (cf_Setting (case en_config (demo_life mode X names) of Inr c \<Rightarrow> c)) = mode"
  "sg_DefaultInterface (cf_Setting (case en_config (demo_life mode X names) of Inr c \<Rightarrow> c)) = []"
  by (simp_all add: demo_life_def empty_setting_def)

theorem Start_returns_iff_witness:
  "(\<exists>r s1. demo_start ''tun'' {} = Some (r, s1)) \<and>
   \<not> (\<exists>r s1. Manager_Start (demo_life ''tun'' {} (\<lambda>_. [])) lru_of_clash lru_of_clash demo_manager = Some (r, s1))"
  unfolding Start_returns_iff [OF demo_idle(2) demo_life_manual(1,2)] demo_life_manual(3,4)
  by (simp add: demo_life_def demo_manager_def demo_world_def monitor_fails_def) (rule exI [of _ 1], simp)

lemma demo_server_resolver: "\<exists>r. Resolver_New (en_url (demo_life mode X names)) [''fake-ip://empty''] iface b = Inr r"
  by (simp add: Resolver_New_def resolver_parse_def ParseNameServer_def parse_server_def demo_life_def Let_def)

lemma demo_tun_cfg:
  "\<exists>config w1. cfg_NewTun (demo_life mode X names) D iface w = Some (Inr config, w1) \<and> tn_HijackDns config =
     \<lparr>hd_Enabled = True, hd_NetworkService = [], hd_AlwaysReset = False\<rparr>"
proof -
  obtain r where "Resolver_New (en_url (demo_life mode X names)) [''fake-ip://empty''] iface False = Inr r"
    using demo_server_resolver [of mode X names iface False] by (elim exE)
  then show ?thesis
    by (simp add: cfg_NewTun_def io_bind_def read_config_def demo_life_def Distribution_NewTun_def NewDnsDistribution_def
        update_def io_lift_def io_ret_def Let_def Outbound_New_def empty_setting_def has_id_def)
qed

lemma demo_newTun:
  assumes "X \<subseteq> {XSysSet}"
  shows "\<exists>t w1. newTun (demo_life mode X (\<lambda>i. if i = 0 then [] else ''en0'')) lru_of_clash D b w = Some (Inr t, w1) \<and>
    hd_Enabled (tn_HijackDns (tc_config t))"
proof -
  let ?E = "demo_life mode X (\<lambda>i. if i = 0 then [] else ''en0'')"
  have works: "x \<noteq> XSysSet \<Longrightarrow> x \<notin> X" for x using assms by auto
  obtain w0 where m: "StartMonitor ?E w = (Inr (), w0)"
    by (simp add: StartMonitor_def io_bind_def read_config_def xcall_def new_monitor_def update_def demo_life_def empty_setting_def works Let_def if_distribR)
  have "\<not> (\<forall>i. polled_names ?E w0 i = [])"
    by (rule notI, drule spec [of _ 1]) (simp add: polled_names_def demo_life_def)
  then obtain name where i: "wait_interface (polled_names ?E w0) 0 = Some name"
    unfolding wait_interface_iff [symmetric] by blast
  obtain config w1 where c: "cfg_NewTun ?E D name (w0\<lparr>w_iface := name\<rparr>) = Some (Inr config, w1)"
    "hd_Enabled (tn_HijackDns config)" using demo_tun_cfg by fastforce
  have "\<exists>w2. newTun_rest ?E lru_of_clash D b config w1 = (Inr \<lparr>tc_listener = NewListener (sv_Addr (tn_LocalServer config))
      (sv_Port (tn_LocalServer config)), tc_config = config, tc_isLocalServerEnabled = b\<rparr>, w2)"
    using demo_engine_New
    by (simp add: newTun_rest_def open_tun_def io_bind_def xcall_def update_def UpdateRule_def read_config_def demo_life_def works)
  then show ?thesis using c(2) by (auto simp: newTun_def m i c(1))
qed

lemma demo_mixed:
  "\<exists>y t w. Executor_New (demo_life ''mixed'' {XSysSet} (\<lambda>i. if i = 0 then [] else ''en0'')) lru_of_clash lru_of_clash demo_world =
     Some (Inr (MixedProxyClient y t), w)"
  "\<exists>y t w. Executor_New (demo_life ''mixed'' {} (\<lambda>i. if i = 0 then [] else ''en0'')) lru_of_clash lru_of_clash demo_world =
     Some (Inr (MixedProxyClient y t), w)"
proof -
  have n: "\<exists>y t w. Executor_New (demo_life ''mixed'' X (\<lambda>i. if i = 0 then [] else ''en0'')) lru_of_clash lru_of_clash demo_world =
     Some (Inr (MixedProxyClient y t), w)" if X: "X \<subseteq> {XSysSet}" for X
  proof -
    let ?E = "demo_life ''mixed'' X (\<lambda>i. if i = 0 then [] else ''en0'')"
    obtain t w1 where t: "newTun ?E lru_of_clash lru_of_clash False (demo_world\<lparr>w_DefaultResolver := None\<rparr>) = Some (Inr t, w1)"
      using demo_newTun [OF X] by blast
    obtain c where c: "en_config ?E = Inr c" "sg_Mode (cf_Setting c) = ''mixed''"
      using demo_life_manual(1,3) [of "''mixed''" X] by metis
    show ?thesis by (simp add: Executor_New_def newMixed_def c t Let_def)
  qed
  show "\<exists>y t w. Executor_New (demo_life ''mixed'' {XSysSet} (\<lambda>i. if i = 0 then [] else ''en0'')) lru_of_clash lru_of_clash demo_world =
     Some (Inr (MixedProxyClient y t), w)"
    and "\<exists>y t w. Executor_New (demo_life ''mixed'' {} (\<lambda>i. if i = 0 then [] else ''en0'')) lru_of_clash lru_of_clash demo_world =
     Some (Inr (MixedProxyClient y t), w)"
    by (rule n, simp)+
qed

lemma demo_fails: "en_fails (demo_life mode X names) x \<longleftrightarrow> x \<in> X"
  by (simp add: demo_life_def)

lemma demo_mixed_starts: "\<exists>s1. demo_start ''mixed'' {} = Some (Inr (), s1)"
  using demo_mixed(2)
  by (auto simp: Manager_Start_def GetIsStarted_def demo_manager_def Client_Start_def client_run_def SysClient_Start_def
      TunClient_Start_def Listener_Start_def on_listener_def on_world_def io_bind_def xcall_def both_def io_ret_def demo_fails
      Let_def split: prod.splits)

lemma demo_mixed_start_fails: "\<exists>s1 e. demo_start ''mixed'' {XSysSet} = Some (Inl e, s1)"
  using demo_mixed(1)
  by (auto simp: Manager_Start_def GetIsStarted_def demo_manager_def Client_Start_def client_run_def SysClient_Start_def
      TunClient_Start_def Listener_Start_def on_listener_def on_world_def io_bind_def xcall_def both_def io_ret_def demo_fails
      Let_def split: prod.splits sum.splits)

theorem stop_restores_witness:
  "\<exists>s1 s2. demo_start ''mixed'' {} = Some (Inr (), s1) \<and> Manager_Close (demo_life ''mixed'' {} (\<lambda>_. [])) s1 = (Inr (), s2) \<and>
     mg_client s2 = None \<and> resources (mg_world s2) = resources demo_world"
proof -
  have ok: "closing_ok (demo_life ''mixed'' {} (\<lambda>_. []))" by (simp add: closing_ok_def demo_fails)
  have w: "mg_world demo_manager = demo_world" by (simp add: demo_manager_def)
  from demo_mixed_starts obtain s1 where s1: "demo_start ''mixed'' {} = Some (Inr (), s1)" by (elim exE)
  from stop_restores [OF demo_idle(1) s1 ok] s1 show ?thesis unfolding w by blast
qed

theorem failed_start_gives_back_witness:
  "\<exists>s1 e. demo_start ''mixed'' {XSysSet} = Some (Inl e, s1) \<and> mg_client s1 = None \<and>
     resources (mg_world s1) = resources demo_world \<and> w_stacks (mg_world s1) = w_stacks demo_world + 1"
proof -
  let ?E = "demo_life ''mixed'' {XSysSet} (\<lambda>i. if i = 0 then [] else ''en0'')"
  have ok: "closing_ok ?E" by (simp add: closing_ok_def demo_fails)
  have w: "mg_world demo_manager = demo_world" by (simp add: demo_manager_def)
  from demo_mixed(1) obtain y t w0 where x: "Executor_New ?E lru_of_clash lru_of_clash demo_world =
     Some (Inr (MixedProxyClient y t), w0)" by (elim exE)
  from demo_mixed_start_fails obtain s1 e where s1: "demo_start ''mixed'' {XSysSet} = Some (Inl e, s1)" by (elim exE)
  have "has_tun (MixedProxyClient y t) \<and> \<not> en_fails ?E XStackStart" by (simp add: demo_fails)
  then show ?thesis using failed_start_gives_back [OF demo_idle(1) x [folded w] s1 ok demo_idle(2)] s1 unfolding w by auto
qed

theorem started_program_routes_witness:
  "\<exists>s1 r rt. demo_start ''mixed'' {} = Some (Inr (), s1) \<and>
     resolveMetadata demo_platform lru_of_clash lru_of_clash demo_conn
       ((w_router (mg_world s1))\<lparr>rt_engine := Some (engine_run demo_platform lru_of_clash [] demo_engine)\<rparr>) = Some (r, rt) \<and>
     GetProxy (Rule_GetPolicy r) rt = Inr (if Rule_GetPolicy r = PolicyProxy then ''proxy''
       else if Rule_GetPolicy r = PolicyDirect then ''direct'' else ''reject'')"
proof -
  let ?E = "demo_life ''mixed'' {} (\<lambda>i. if i = 0 then [] else ''en0'')"
  from demo_mixed_starts obtain s1 where s1: "demo_start ''mixed'' {} = Some (Inr (), s1)" by (elim exE)
  have none: "\<forall>v r. EAddCache v r \<in> set [] \<longrightarrow> policy_ok r" by simp
  obtain c p e r rt where d: "en_config ?E = Inr c"
    "Outbound_New ?E (sg_AutoMode (cf_Setting c)) (cf_Proxy c) (cf_SelectedProxy c) = Some (Inr p)"
    "rt_engine (w_router (mg_world s1)) = Some e"
    "resolveMetadata demo_platform lru_of_clash lru_of_clash demo_conn
       ((w_router (mg_world s1))\<lparr>rt_engine := Some (engine_run demo_platform lru_of_clash [] e)\<rparr>) = Some (r, rt)"
    "GetProxy (Rule_GetPolicy r) rt = Inr (if Rule_GetPolicy r = PolicyProxy then p
       else if Rule_GetPolicy r = PolicyDirect then en_direct ?E else en_reject ?E)"
    using started_program_routes [OF clash_rules.rule_cache_axioms s1 none, where P = demo_platform and m = demo_conn] by blast
  have p: "p = ''proxy''" using d(1,2) by (auto simp: demo_life_def Outbound_New_def empty_setting_def has_id_def)
  from Manager_Start_routed [OF s1] d(1,3) demo_engine_New have e: "e = demo_engine"
    by (auto simp: routed_def demo_life_def)
  show ?thesis using s1 d(4,5) p e by (auto simp: demo_life_def)
qed

end
