(* ===== verification/Statistic.thy ===== *)
theory Statistic
  imports ConnMatch LruRuns
begin

text \<open>
  The statistics and the table of open connections of \<open>src/internal/tunnel/statistic/\<close> (\<open>manager.go\<close>,
  \<open>tracker.go\<close>). A tracker is a pointer that the table and the goroutines of its connection share, so the trackers
  live in a list and are named by their index. The connection below a tracker is a number; its calls of \<open>Close\<close>
  are recorded in order. Each method is one step, except the round of the ticker, which is four.

  The table is the cache with an eviction callback of \<open>golang-lru\<close>, a parameter: adding and removing return the
  entries that the callback is called with, after the lock of the cache is released. The callback closes the tracker,
  which removes it from the table again: the recursion is \<open>Tracker_Close\<close>, where \<open>None\<close> is a recursion without end.
\<close>

type_synonym i64 = "64 word"

record ('c, 'v) evict_api =
  el_Get :: "string \<Rightarrow> 'c \<Rightarrow> 'v option \<times> 'c"
  el_Add :: "string \<Rightarrow> 'v \<Rightarrow> 'c \<Rightarrow> (string \<times> 'v) list \<times> 'c"
  el_Remove :: "string \<Rightarrow> 'c \<Rightarrow> (string \<times> 'v) list \<times> 'c"
  el_Values :: "'c \<Rightarrow> 'v list"

subsection \<open>Counters and trackers\<close>

record counters =
  uploadTemp :: i64
  downloadTemp :: i64
  uploadBlip :: i64
  downloadBlip :: i64
  uploadTotal :: i64
  downloadTotal :: i64

definition no_counters :: counters where
  "no_counters = \<lparr>uploadTemp = 0, downloadTemp = 0, uploadBlip = 0, downloadBlip = 0, uploadTotal = 0, downloadTotal = 0\<rparr>"

record tracker =
  tk_UUID :: string
  tk_Metadata :: metadata
  tk_UploadTotal :: i64
  tk_DownloadTotal :: i64
  tk_Start :: int
  tk_Rule :: rule
  tk_Domain :: string
  tk_Conn :: nat

record 'c stat_manager =
  sm_connections :: 'c
  sm_proxy :: counters
  sm_direct :: counters
  sm_trackers :: "tracker list"
  sm_closed :: "nat list"

definition getStatistic :: "policy \<Rightarrow> 'c stat_manager \<Rightarrow> counters option" where
  "getStatistic p m =
     (if p = PolicyProxy then Some (sm_proxy m) else if p = PolicyDirect then Some (sm_direct m) else None)"

text \<open>A change of the counters that \<open>getStatistic\<close> gives a pointer to, or nothing for nil.\<close>

definition on_statistic :: "policy \<Rightarrow> (counters \<Rightarrow> counters) \<Rightarrow> 'c stat_manager \<Rightarrow> 'c stat_manager" where
  "on_statistic p f m =
     (if p = PolicyProxy then m\<lparr>sm_proxy := f (sm_proxy m)\<rparr>
      else if p = PolicyDirect then m\<lparr>sm_direct := f (sm_direct m)\<rparr> else m)"

definition tracker_policy :: "tracker \<Rightarrow> policy" where
  "tracker_policy t = Rule_GetPolicy (tk_Rule t)"

subsection \<open>Closing a tracker (tracker.go)\<close>

text \<open>The callback for each of the evicted entries.\<close>

fun each :: "('a \<Rightarrow> 's \<Rightarrow> 's option) \<Rightarrow> 'a list \<Rightarrow> 's \<Rightarrow> 's option" where
  "each f [] s = Some s"
| "each f (x # xs) s = Option.bind (f x s) (each f xs)"

lemma each_mono [partial_function_mono]:
  "(\<And>x s. mono_option (\<lambda>g. f g x s)) \<Longrightarrow> mono_option (\<lambda>g. each (f g) xs s)"
  by (induction xs arbitrary: s) (auto intro!: partial_function_mono)

definition Leave :: "('c, nat) evict_api \<Rightarrow> nat \<Rightarrow> 'c stat_manager \<Rightarrow> (string \<times> nat) list \<times> 'c stat_manager" where
  "Leave L t m =
     (case el_Remove L (tk_UUID (sm_trackers m ! t)) (sm_connections m) of
        (evs, c) \<Rightarrow> (evs, m\<lparr>sm_connections := c\<rparr>))"

partial_function (option) Tracker_Close ::
  "('c, nat) evict_api \<Rightarrow> nat \<Rightarrow> 'c stat_manager \<Rightarrow> 'c stat_manager option" where
  "Tracker_Close L t m =
     Option.bind (each (\<lambda>kv. Tracker_Close L (snd kv)) (fst (Leave L t m)) (snd (Leave L t m))) (\<lambda>m1.
       Some (m1\<lparr>sm_closed := sm_closed m1 @ [tk_Conn (sm_trackers m1 ! t)]\<rparr>))"

subsection \<open>The manager (manager.go)\<close>

definition Join :: "('c, nat) evict_api \<Rightarrow> nat \<Rightarrow> 'c stat_manager \<Rightarrow> 'c stat_manager option" where
  "Join L t m =
     (case el_Add L (tk_UUID (sm_trackers m ! t)) t (sm_connections m) of
        (evs, c) \<Rightarrow> each (\<lambda>kv. Tracker_Close L (snd kv)) evs (m\<lparr>sm_connections := c\<rparr>))"

definition touch_tracker :: "('c, nat) evict_api \<Rightarrow> nat \<Rightarrow> 'c stat_manager \<Rightarrow> 'c stat_manager" where
  "touch_tracker L t m = m\<lparr>sm_connections := snd (el_Get L (tk_UUID (sm_trackers m ! t)) (sm_connections m))\<rparr>"

definition PushUploaded :: "('c, nat) evict_api \<Rightarrow> i64 \<Rightarrow> policy \<Rightarrow> nat \<Rightarrow> 'c stat_manager \<Rightarrow> 'c stat_manager" where
  "PushUploaded L n p t m =
     on_statistic p (\<lambda>s. s\<lparr>uploadTemp := uploadTemp s + n, uploadTotal := uploadTotal s + n\<rparr>) (touch_tracker L t m)"

definition PushDownloaded :: "('c, nat) evict_api \<Rightarrow> i64 \<Rightarrow> policy \<Rightarrow> nat \<Rightarrow> 'c stat_manager \<Rightarrow> 'c stat_manager" where
  "PushDownloaded L n p t m =
     on_statistic p (\<lambda>s. s\<lparr>downloadTemp := downloadTemp s + n, downloadTotal := downloadTotal s + n\<rparr>) (touch_tracker L t m)"

definition Now :: "policy \<Rightarrow> 'c stat_manager \<Rightarrow> i64 \<times> i64" where
  "Now p m = (case getStatistic p m of None \<Rightarrow> (0, 0) | Some s \<Rightarrow> (uploadBlip s, downloadBlip s))"

definition Connections :: "('c, nat) evict_api \<Rightarrow> 'c stat_manager \<Rightarrow> nat list" where
  "Connections L m = el_Values L (sm_connections m)"

definition Manager_CloseAll :: "('c, nat) evict_api \<Rightarrow> 'c stat_manager \<Rightarrow> 'c stat_manager option" where
  "Manager_CloseAll L m = each (Tracker_Close L) (Connections L m) m"

text \<open>The handler of the route that closes one connection (\<open>api/routes/connection.go\<close>).\<close>

definition closeConnection :: "('c, nat) evict_api \<Rightarrow> string \<Rightarrow> 'c stat_manager \<Rightarrow> 'c stat_manager option" where
  "closeConnection L i m =
     (case List.find (\<lambda>t. i = tk_UUID (sm_trackers m ! t)) (Connections L m) of
        None \<Rightarrow> Some m | Some t \<Rightarrow> Tracker_Close L t m)"

definition GetTotal :: "'c stat_manager \<Rightarrow> (i64 \<times> i64) \<times> (i64 \<times> i64)" where
  "GetTotal m = ((downloadTotal (sm_proxy m), uploadTotal (sm_proxy m)), (downloadTotal (sm_direct m), uploadTotal (sm_direct m)))"

definition ResetStatistic :: "policy \<Rightarrow> 'c stat_manager \<Rightarrow> 'c stat_manager" where
  "ResetStatistic p = on_statistic p (\<lambda>_. no_counters)"

text \<open>The four assignments of a round of the ticker of \<open>handle\<close>; other steps may come between them.\<close>

datatype tick = BlipUp | ClearUp | BlipDown | ClearDown

primrec tick_step :: "tick \<Rightarrow> counters \<Rightarrow> counters" where
  "tick_step BlipUp s = s\<lparr>uploadBlip := uploadTemp s\<rparr>"
| "tick_step ClearUp s = s\<lparr>uploadTemp := 0\<rparr>"
| "tick_step BlipDown s = s\<lparr>downloadBlip := downloadTemp s\<rparr>"
| "tick_step ClearDown s = s\<lparr>downloadTemp := 0\<rparr>"

definition manager_handle :: "policy \<Rightarrow> tick \<Rightarrow> 'c stat_manager \<Rightarrow> 'c stat_manager" where
  "manager_handle p k = on_statistic p (tick_step k)"

subsection \<open>Trackers (tracker.go)\<close>

text \<open>
  \<open>NewTCPTracker\<close> and \<open>NewUDPTracker\<close>, which differ in the type of the connection only. The identifier and the
  time come from outside; a failing source of identifiers gives the zero one.
\<close>

definition tracker_domain :: "string option \<Rightarrow> metadata \<Rightarrow> string" where
  "tracker_domain cached md =
     (case cached of Some d \<Rightarrow> d | None \<Rightarrow> if Host md \<noteq> [] then Host md else ''unknown'')"

definition NewTracker ::
  "('c, nat) evict_api \<Rightarrow> string \<Rightarrow> int \<Rightarrow> string option \<Rightarrow> nat \<Rightarrow> metadata \<Rightarrow> rule \<Rightarrow> 'c stat_manager \<Rightarrow> 'c stat_manager option" where
  "NewTracker L uid now cached cn md r m =
     Join L (length (sm_trackers m))
       (m\<lparr>sm_trackers := sm_trackers m @
          [\<lparr>tk_UUID = uid, tk_Metadata = md, tk_UploadTotal = 0, tk_DownloadTotal = 0, tk_Start = now, tk_Rule = r,
            tk_Domain = tracker_domain cached md, tk_Conn = cn\<rparr>]\<rparr>)"

text \<open>A read or write of the connection that moved \<open>n\<close> bytes.\<close>

definition on_tracker :: "nat \<Rightarrow> (tracker \<Rightarrow> tracker) \<Rightarrow> 'c stat_manager \<Rightarrow> 'c stat_manager" where
  "on_tracker t f m = m\<lparr>sm_trackers := (sm_trackers m)[t := f (sm_trackers m ! t)]\<rparr>"

definition Tracker_Read :: "('c, nat) evict_api \<Rightarrow> nat \<Rightarrow> i64 \<Rightarrow> 'c stat_manager \<Rightarrow> 'c stat_manager" where
  "Tracker_Read L t n m =
     on_tracker t (\<lambda>x. x\<lparr>tk_DownloadTotal := tk_DownloadTotal x + n\<rparr>)
       (PushDownloaded L n (tracker_policy (sm_trackers m ! t)) t m)"

definition Tracker_Write :: "('c, nat) evict_api \<Rightarrow> nat \<Rightarrow> i64 \<Rightarrow> 'c stat_manager \<Rightarrow> 'c stat_manager" where
  "Tracker_Write L t n m =
     on_tracker t (\<lambda>x. x\<lparr>tk_UploadTotal := tk_UploadTotal x + n\<rparr>)
       (PushUploaded L n (tracker_policy (sm_trackers m ! t)) t m)"

subsection \<open>Runs\<close>

datatype stat_event =
    EvOpen string int "string option" nat metadata rule | EvRead nat i64 | EvWrite nat i64 | EvClose nat
  | EvCloseAll | EvCloseOne string | EvTick policy tick | EvReset policy

text \<open>A step on a tracker that does not exist does nothing: no goroutine holds such a pointer.\<close>

fun stat_step :: "('c, nat) evict_api \<Rightarrow> stat_event \<Rightarrow> 'c stat_manager \<Rightarrow> 'c stat_manager option" where
  "stat_step L (EvOpen uid now cached cn md r) m = NewTracker L uid now cached cn md r m"
| "stat_step L (EvRead t n) m = Some (if t < length (sm_trackers m) then Tracker_Read L t n m else m)"
| "stat_step L (EvWrite t n) m = Some (if t < length (sm_trackers m) then Tracker_Write L t n m else m)"
| "stat_step L (EvClose t) m = (if t < length (sm_trackers m) then Tracker_Close L t m else Some m)"
| "stat_step L EvCloseAll m = Manager_CloseAll L m"
| "stat_step L (EvCloseOne i) m = closeConnection L i m"
| "stat_step L (EvTick p k) m = Some (manager_handle p k m)"
| "stat_step L (EvReset p) m = Some (ResetStatistic p m)"

definition stat_run :: "('c, nat) evict_api \<Rightarrow> stat_event list \<Rightarrow> 'c stat_manager \<Rightarrow> 'c stat_manager option" where
  "stat_run L = each (stat_step L)"

definition stat_init :: "'c \<Rightarrow> 'c stat_manager" where
  "stat_init c = \<lparr>sm_connections = c, sm_proxy = no_counters, sm_direct = no_counters, sm_trackers = [], sm_closed = []\<rparr>"

end
