(* ===== verification/StatProps.thy ===== *)
theory StatProps
  imports Statistic ConnProps
begin

text \<open>
  What the statistics promise: the calls of the table and its callback always return, the totals of a policy are the sums
  over its connections, no open connection is forgotten, so that closing all connections reaches each of them, and
  their number is bounded.
\<close>

lemma Leave_simps:
  "fst (Leave L t m) = fst (el_Remove L (tk_UUID (sm_trackers m ! t)) (sm_connections m))"
  "snd (Leave L t m) = m\<lparr>sm_connections := snd (el_Remove L (tk_UUID (sm_trackers m ! t)) (sm_connections m))\<rparr>"
  by (simp_all add: Leave_def split: prod.splits)

text \<open>The identifiers that an event gives to new trackers.\<close>

definition event_ids :: "stat_event \<Rightarrow> string list" where
  "event_ids x = (case x of EvOpen uid _ _ _ _ _ \<Rightarrow> [uid] | _ \<Rightarrow> [])"

definition tracker_ids :: "'c stat_manager \<Rightarrow> string list" where
  "tracker_ids m = map tk_UUID (sm_trackers m)"

definition moved :: "(tracker \<Rightarrow> i64) \<Rightarrow> policy \<Rightarrow> tracker list \<Rightarrow> i64" where
  "moved f p ts = (\<Sum>t \<leftarrow> ts. if tracker_policy t = p then f t else 0)"

text \<open>The trackers whose connection was never closed.\<close>

definition open_trackers :: "'c stat_manager \<Rightarrow> nat set" where
  "open_trackers m = {t. t < length (sm_trackers m) \<and> tk_Conn (sm_trackers m ! t) \<notin> set (sm_closed m)}"

lemma trackers_kept [simp]:
  "sm_trackers (on_statistic p f m) = sm_trackers m" "sm_trackers (touch_tracker L t m) = sm_trackers m"
  by (simp_all add: on_statistic_def touch_tracker_def)

subsection \<open>The interface of the table\<close>

locale evict_cache =
  fixes cap :: nat
    and ok :: "'c \<Rightarrow> bool"
    and held :: "'c \<Rightarrow> string \<Rightarrow> nat option"
    and L :: "('c, nat) evict_api"
  assumes get_keeps: "ok c \<Longrightarrow> ok (snd (el_Get L k c)) \<and> held (snd (el_Get L k c)) = held c"
    and add_ok: "ok c \<Longrightarrow> ok (snd (el_Add L k v c))"
    and add_same: "ok c \<Longrightarrow> held (snd (el_Add L k v c)) k = Some v"
    and add_evicts: "ok c \<Longrightarrow> (j, w) \<in> set (fst (el_Add L k v c)) \<Longrightarrow>
      j \<noteq> k \<and> held c j = Some w \<and> held (snd (el_Add L k v c)) j = None"
    and add_other: "ok c \<Longrightarrow> j \<noteq> k \<Longrightarrow> j \<notin> fst ` set (fst (el_Add L k v c)) \<Longrightarrow> held (snd (el_Add L k v c)) j = held c j"
    and remove_ok: "ok c \<Longrightarrow> ok (snd (el_Remove L k c))"
    and remove_held: "ok c \<Longrightarrow> held (snd (el_Remove L k c)) = (held c)(k := None)"
    and remove_evicts: "ok c \<Longrightarrow> fst (el_Remove L k c) = (case held c k of None \<Rightarrow> [] | Some v \<Rightarrow> [(k, v)])"
    and values_held: "ok c \<Longrightarrow> set (el_Values L c) = ran (held c)"
    and bounded: "ok c \<Longrightarrow> finite (dom (held c)) \<and> card (dom (held c)) \<le> cap"
begin

text \<open>Every entry of the table points to a tracker with its key as identifier.\<close>

definition table_ok :: "'c stat_manager \<Rightarrow> bool" where
  "table_ok m \<longleftrightarrow> ok (sm_connections m) \<and>
     (\<forall>k t. held (sm_connections m) k = Some t \<longrightarrow> t < length (sm_trackers m) \<and> tk_UUID (sm_trackers m ! t) = k)"

text \<open>The result of a close: the tracker that holds the identifier is closed first, by the callback.\<close>

lemma Close_absent:
  assumes "ok (sm_connections m)" and "held (sm_connections m) (tk_UUID (sm_trackers m ! t)) = None"
  shows "\<exists>c. ok c \<and> held c = held (sm_connections m) \<and>
    Tracker_Close L t m = Some (m\<lparr>sm_connections := c, sm_closed := sm_closed m @ [tk_Conn (sm_trackers m ! t)]\<rparr>)"
proof (intro exI conjI)
  let ?c = "snd (el_Remove L (tk_UUID (sm_trackers m ! t)) (sm_connections m))"
  show "ok ?c" using remove_ok assms(1) by blast
  show "held ?c = held (sm_connections m)" using remove_held [OF assms(1)] assms(2) by auto
  show "Tracker_Close L t m = Some (m\<lparr>sm_connections := ?c, sm_closed := sm_closed m @ [tk_Conn (sm_trackers m ! t)]\<rparr>)"
    using remove_evicts [OF assms(1)] assms(2)
    by (subst Tracker_Close.simps) (simp add: Leave_simps)
qed

lemma Close_effect:
  assumes "table_ok m" and "k = tk_UUID (sm_trackers m ! t)"
  shows "\<exists>c. ok c \<and> held c = (held (sm_connections m))(k := None) \<and>
    Tracker_Close L t m = Some (m\<lparr>sm_connections := c, sm_closed := sm_closed m @
      (case held (sm_connections m) k of None \<Rightarrow> [] | Some u \<Rightarrow> [tk_Conn (sm_trackers m ! u)]) @ [tk_Conn (sm_trackers m ! t)]\<rparr>)"
proof (cases "held (sm_connections m) k")
  case None
  then show ?thesis using Close_absent [of m t] assms by (auto simp: table_ok_def fun_upd_idem)
next
  case (Some u)
  have o: "ok (sm_connections m)" and u: "tk_UUID (sm_trackers m ! u) = k" using assms Some by (auto simp: table_ok_def)
  let ?m1 = "m\<lparr>sm_connections := snd (el_Remove L k (sm_connections m))\<rparr>"
  have l: "Leave L t m = ([(k, u)], ?m1)"
    using remove_evicts [OF o, of k] Some assms(2) by (intro prod_eqI) (simp_all add: Leave_simps)
  have h: "held (sm_connections ?m1) = (held (sm_connections m))(k := None)" and o1: "ok (sm_connections ?m1)"
    using remove_held [OF o] remove_ok [OF o] by auto
  obtain c where c: "ok c" "held c = held (sm_connections ?m1)"
    "Tracker_Close L u ?m1 = Some (?m1\<lparr>sm_connections := c, sm_closed := sm_closed ?m1 @ [tk_Conn (sm_trackers ?m1 ! u)]\<rparr>)"
    using Close_absent [of ?m1 u] o1 h u by auto
  show ?thesis
    using c h by (intro exI [of _ c]) (subst Tracker_Close.simps, simp add: l Some)
qed

text \<open>What closing changes, and what it leaves alone.\<close>

definition closing :: "'c stat_manager \<Rightarrow> 'c stat_manager \<Rightarrow> bool" where
  "closing m m' \<longleftrightarrow> ok (sm_connections m') \<and> sm_trackers m' = sm_trackers m \<and> sm_proxy m' = sm_proxy m \<and>
     sm_direct m' = sm_direct m \<and>
     (\<exists>ys. sm_closed m' = sm_closed m @ ys \<and>
       (\<forall>k. held (sm_connections m') k = held (sm_connections m) k \<or>
         held (sm_connections m') k = None \<and> (\<forall>u. held (sm_connections m) k = Some u \<longrightarrow> tk_Conn (sm_trackers m ! u) \<in> set ys)))"

lemma closing_refl: "table_ok m \<Longrightarrow> closing m m"
  by (simp add: closing_def table_ok_def)

lemma closing_trans:
  assumes "closing m1 m2" and "closing m2 m3"
  shows "closing m1 m3"
proof -
  obtain ys where y: "sm_closed m2 = sm_closed m1 @ ys" "\<And>k. held (sm_connections m2) k = held (sm_connections m1) k \<or>
      held (sm_connections m2) k = None \<and> (\<forall>u. held (sm_connections m1) k = Some u \<longrightarrow> tk_Conn (sm_trackers m1 ! u) \<in> set ys)"
    using assms(1) by (auto simp: closing_def)
  obtain zs where z: "sm_closed m3 = sm_closed m2 @ zs" "\<And>k. held (sm_connections m3) k = held (sm_connections m2) k \<or>
      held (sm_connections m3) k = None \<and> (\<forall>u. held (sm_connections m2) k = Some u \<longrightarrow> tk_Conn (sm_trackers m2 ! u) \<in> set zs)"
    using assms(2) by (auto simp: closing_def)
  have t: "sm_trackers m2 = sm_trackers m1" using assms(1) by (simp add: closing_def)
  have "held (sm_connections m3) k = held (sm_connections m1) k \<or> held (sm_connections m3) k = None \<and>
      (\<forall>u. held (sm_connections m1) k = Some u \<longrightarrow> tk_Conn (sm_trackers m1 ! u) \<in> set (ys @ zs))" for k
    using y(2) [of k] z(2) [of k] unfolding t by auto
  moreover have "sm_closed m3 = sm_closed m1 @ ys @ zs" using y(1) z(1) by simp
  ultimately show ?thesis using assms unfolding closing_def by (metis (no_types, lifting))
qed

lemma closing_None: "closing m m' \<Longrightarrow> held (sm_connections m) k = None \<Longrightarrow> held (sm_connections m') k = None"
  unfolding closing_def by metis

lemma closing_table: "closing m m' \<Longrightarrow> table_ok m \<Longrightarrow> table_ok m'"
  unfolding closing_def table_ok_def by (metis option.distinct(1))

lemma Close_closing:
  assumes "table_ok m"
  shows "\<exists>m'. Tracker_Close L t m = Some m' \<and> closing m m' \<and> tk_Conn (sm_trackers m ! t) \<in> set (sm_closed m') \<and>
    held (sm_connections m') (tk_UUID (sm_trackers m ! t)) = None"
proof -
  obtain c where c: "ok c" "held c = (held (sm_connections m))(tk_UUID (sm_trackers m ! t) := None)"
    "Tracker_Close L t m = Some (m\<lparr>sm_connections := c, sm_closed := sm_closed m @
      (case held (sm_connections m) (tk_UUID (sm_trackers m ! t)) of None \<Rightarrow> [] | Some u \<Rightarrow> [tk_Conn (sm_trackers m ! u)]) @
      [tk_Conn (sm_trackers m ! t)]\<rparr>)"
    using Close_effect [OF assms refl, of t] by blast
  show ?thesis unfolding c(3) by (rule exI, rule conjI [OF refl]) (use c(1,2) in \<open>auto simp: closing_def\<close>)
qed

lemma each_closing:
  assumes "table_ok m"
  shows "\<exists>m'. each (\<lambda>x. Tracker_Close L (f x)) xs m = Some m' \<and> closing m m' \<and>
    (\<forall>x \<in> set xs. tk_Conn (sm_trackers m ! f x) \<in> set (sm_closed m') \<and>
      held (sm_connections m') (tk_UUID (sm_trackers m ! f x)) = None)"
  using assms
proof (induction xs arbitrary: m)
  case Nil
  then show ?case by (simp add: closing_refl)
next
  case (Cons x xs)
  obtain m1 where m1: "Tracker_Close L (f x) m = Some m1" "closing m m1" "tk_Conn (sm_trackers m ! f x) \<in> set (sm_closed m1)"
    "held (sm_connections m1) (tk_UUID (sm_trackers m ! f x)) = None"
    using Close_closing [OF Cons.prems] by blast
  obtain m2 where m2: "each (\<lambda>x. Tracker_Close L (f x)) xs m1 = Some m2" "closing m1 m2"
    "\<forall>y \<in> set xs. tk_Conn (sm_trackers m1 ! f y) \<in> set (sm_closed m2) \<and>
      held (sm_connections m2) (tk_UUID (sm_trackers m1 ! f y)) = None"
    using Cons.IH [OF closing_table [OF m1(2) Cons.prems]] by blast
  have "held (sm_connections m2) (tk_UUID (sm_trackers m ! f x)) = None" using m1(4) closing_None [OF m2(2)] by blast
  moreover have "tk_Conn (sm_trackers m ! f x) \<in> set (sm_closed m2)" "sm_trackers m1 = sm_trackers m"
    using m1(2,3) m2(2) by (auto simp: closing_def)
  ultimately show ?case using m1(1) m2 closing_trans [OF m1(2) m2(2)] by (intro exI [of _ m2]) auto
qed

text \<open>Opening a connection: the new tracker is in the table, or was closed; the trackers pushed out are closed.\<close>

lemma NewTracker_effect:
  assumes "table_ok m"
  shows "\<exists>m1 m' x. NewTracker L uid now cached cn md r m = Some m' \<and> closing m1 m' \<and> table_ok m1 \<and>
    sm_trackers m1 = sm_trackers m @ [x] \<and> tk_UUID x = uid \<and> tk_Conn x = cn \<and> tk_UploadTotal x = 0 \<and> tk_DownloadTotal x = 0 \<and>
    sm_proxy m1 = sm_proxy m \<and> sm_direct m1 = sm_direct m \<and> sm_closed m1 = sm_closed m \<and>
    held (sm_connections m1) uid = Some (length (sm_trackers m)) \<and>
    (\<forall>j u. j \<noteq> uid \<longrightarrow> held (sm_connections m) j = Some u \<longrightarrow>
      held (sm_connections m1) j = Some u \<or> tk_Conn (sm_trackers m ! u) \<in> set (sm_closed m'))"
proof -
  let ?x = "\<lparr>tk_UUID = uid, tk_Metadata = md, tk_UploadTotal = 0, tk_DownloadTotal = 0, tk_Start = now, tk_Rule = r,
            tk_Domain = tracker_domain cached md, tk_Conn = cn\<rparr>"
  let ?t = "length (sm_trackers m)" and ?c = "sm_connections m"
  let ?m0 = "m\<lparr>sm_trackers := sm_trackers m @ [?x]\<rparr>"
  let ?m1 = "?m0\<lparr>sm_connections := snd (el_Add L uid ?t ?c)\<rparr>"
  have o: "ok ?c" and tbl: "\<And>k u. held ?c k = Some u \<Longrightarrow> u < ?t \<and> tk_UUID (sm_trackers m ! u) = k"
    using assms by (auto simp: table_ok_def)
  have other: "held (snd (el_Add L uid ?t ?c)) j = held ?c j \<or>
      held (snd (el_Add L uid ?t ?c)) j = None \<and> (\<forall>u. held ?c j = Some u \<longrightarrow> (j, u) \<in> set (fst (el_Add L uid ?t ?c)))"
    if "j \<noteq> uid" for j
    using add_other [OF o that, of ?t] add_evicts [OF o, of j _ uid ?t] by fastforce
  have t1: "table_ok ?m1"
    unfolding table_ok_def
  proof (intro conjI allI impI)
    fix k u assume h: "held (sm_connections ?m1) k = Some u"
    show "u < length (sm_trackers ?m1)" "tk_UUID (sm_trackers ?m1 ! u) = k"
      using h other [of k] add_same [OF o, of uid ?t] tbl [of k u]
      by (cases "k = uid"; auto simp: nth_append)+
  qed (use add_ok [OF o] in simp)
  obtain m' where m': "each (\<lambda>kv. Tracker_Close L (snd kv)) (fst (el_Add L uid ?t ?c)) ?m1 = Some m'" "closing ?m1 m'"
    "\<forall>x \<in> set (fst (el_Add L uid ?t ?c)). tk_Conn (sm_trackers ?m1 ! snd x) \<in> set (sm_closed m')"
    using each_closing [OF t1, of snd] by blast
  have n: "NewTracker L uid now cached cn md r m = Some m'"
    using m'(1) by (simp add: NewTracker_def Join_def case_prod_beta)
  have kept: "held (sm_connections ?m1) j = Some u \<or> tk_Conn (sm_trackers m ! u) \<in> set (sm_closed m')"
    if j: "j \<noteq> uid" "held ?c j = Some u" for j u
  proof (cases "held (sm_connections ?m1) j = Some u")
    case False
    then have "(j, u) \<in> set (fst (el_Add L uid ?t ?c))" using other [OF j(1)] j(2) by auto
    then have "tk_Conn (sm_trackers ?m1 ! u) \<in> set (sm_closed m')" using m'(3) by fastforce
    then show ?thesis using tbl [OF j(2)] by (simp add: nth_append)
  qed simp
  show ?thesis
    by (rule exI [of _ ?m1], rule exI [of _ m'], rule exI [of _ ?x])
      (use n m'(2) t1 add_same [OF o] kept in \<open>simp\<close>)
qed

text \<open>No call runs forever, and the table stays in order.\<close>

lemma touch_table: "table_ok m \<Longrightarrow> table_ok (touch_tracker L t m)"
  using get_keeps by (simp add: table_ok_def touch_tracker_def)

lemma on_statistic_table: "table_ok (on_statistic p f m) \<longleftrightarrow> table_ok m"
  by (simp add: table_ok_def on_statistic_def)

lemma on_tracker_table:
  assumes "table_ok m" and "\<And>x. tk_UUID (f x) = tk_UUID x"
  shows "table_ok (on_tracker t f m)"
  using assms by (cases "t < length (sm_trackers m)") (auto simp: table_ok_def on_tracker_def nth_list_update not_less list_update_beyond)

lemma stat_step_table:
  assumes "table_ok m"
  shows "\<exists>m'. stat_step L x m = Some m' \<and> table_ok m'"
proof (cases x)
  case (EvOpen uid now cached cn md r)
  then show ?thesis using NewTracker_effect [OF assms, of uid now cached cn md r] closing_table by fastforce
next
  case (EvClose t)
  then show ?thesis using Close_closing [OF assms, of t] closing_table assms by auto
next
  case EvCloseAll
  then show ?thesis using each_closing [OF assms, of "\<lambda>x. x"] closing_table assms
    by (fastforce simp: Manager_CloseAll_def)
next
  case (EvCloseOne i)
  then show ?thesis using Close_closing [OF assms] closing_table assms
    by (fastforce simp: closeConnection_def split: option.splits)
qed (use assms in \<open>auto simp: Tracker_Read_def Tracker_Write_def PushDownloaded_def PushUploaded_def manager_handle_def ResetStatistic_def
      on_statistic_table touch_table intro!: on_tracker_table\<close>)

lemma stat_run_table:
  assumes "table_ok m"
  shows "\<exists>m'. stat_run L xs m = Some m' \<and> table_ok m'"
  using assms
proof (induction xs arbitrary: m)
  case (Cons x xs)
  obtain m1 where "stat_step L x m = Some m1" "table_ok m1" using stat_step_table [OF Cons.prems] by blast
  then show ?case using Cons.IH [of m1] by (simp add: stat_run_def)
qed (simp add: stat_run_def)

text \<open>What a step keeps of the books of a policy, and of the trackers and their table.\<close>

definition books :: "policy \<Rightarrow> 'c stat_manager \<Rightarrow> bool" where
  "books p m \<longleftrightarrow> (\<forall>s. getStatistic p m = Some s \<longrightarrow>
     uploadTotal s = moved tk_UploadTotal p (sm_trackers m) \<and> downloadTotal s = moved tk_DownloadTotal p (sm_trackers m))"

lemma moved_append: "moved f p (ts @ us) = moved f p ts + moved f p us"
  by (simp add: moved_def)

lemma moved_update:
  assumes "t < length ts" and "tracker_policy y = tracker_policy (ts ! t)"
  shows "moved f p (ts[t := y]) = moved f p ts + (if tracker_policy y = p then f y - f (ts ! t) else 0)"
proof -
  have "moved f p ts = moved f p (take t ts) + moved f p [ts ! t] + moved f p (drop (Suc t) ts)"
    using id_take_nth_drop [OF assms(1)] by (metis append.assoc append_Cons append_Nil moved_append)
  moreover have "moved f p (ts[t := y]) = moved f p (take t ts) + moved f p [y] + moved f p (drop (Suc t) ts)"
    using upd_conv_take_nth_drop [OF assms(1), of y] by (metis append.assoc append_Cons append_Nil moved_append)
  ultimately show ?thesis using assms(2) by (simp add: moved_def)
qed

lemma closing_books: "closing m m' \<Longrightarrow> books p m' = books p m"
  by (simp add: closing_def books_def getStatistic_def)

lemma stat_step_books:
  assumes "table_ok m" and "stat_step L x m = Some m'" and "x \<noteq> EvReset p" and "books p m"
  shows "books p m'"
proof (cases x)
  case (EvOpen uid now cached cn md r)
  then obtain m1 y where m1: "closing m1 m'" "sm_trackers m1 = sm_trackers m @ [y]" "tk_UploadTotal y = 0" "tk_DownloadTotal y = 0"
    "sm_proxy m1 = sm_proxy m" "sm_direct m1 = sm_direct m"
    using NewTracker_effect [OF assms(1), of uid now cached cn md r] assms(2) by auto
  show ?thesis unfolding closing_books [OF m1(1)]
    using assms(4) m1(2-6) by (simp add: books_def getStatistic_def moved_append) (simp add: moved_def)
next
  case (EvRead t n)
  then show ?thesis using assms(2,4)
    by (auto simp: books_def getStatistic_def Tracker_Read_def PushDownloaded_def on_tracker_def on_statistic_def touch_tracker_def
        moved_update tracker_policy_def split: if_splits)
next
  case (EvWrite t n)
  then show ?thesis using assms(2,4)
    by (auto simp: books_def getStatistic_def Tracker_Write_def PushUploaded_def on_tracker_def on_statistic_def touch_tracker_def
        moved_update tracker_policy_def split: if_splits)
next
  case (EvClose t)
  then show ?thesis using Close_closing [OF assms(1), of t] closing_books assms(2,4) by (auto split: if_splits)
next
  case EvCloseAll
  then show ?thesis using each_closing [OF assms(1), of "\<lambda>x. x" "Connections L m"] closing_books [of m m' p] assms(2,4)
    by (auto simp: Manager_CloseAll_def)
next
  case (EvCloseOne i)
  then show ?thesis using Close_closing [OF assms(1)] closing_books [of m m' p] assms(2,4)
    by (auto simp: closeConnection_def split: option.splits) (metis option.inject)
next
  case (EvTick q k)
  then show ?thesis using assms(2,4)
    by (cases k) (auto simp: books_def getStatistic_def manager_handle_def on_statistic_def split: if_splits)
next
  case (EvReset q)
  then show ?thesis using assms(2-4)
    by (auto simp: books_def getStatistic_def ResetStatistic_def on_statistic_def split: if_splits)
qed

text \<open>Every tracker is in the table or was closed, as long as no identifier is given twice.\<close>

definition tracked :: "'c stat_manager \<Rightarrow> bool" where
  "tracked m \<longleftrightarrow> (\<forall>t \<in> open_trackers m. held (sm_connections m) (tk_UUID (sm_trackers m ! t)) = Some t)"

lemma closing_tracked:
  assumes "closing m m'" and "tracked m"
  shows "tracked m'"
  unfolding tracked_def
proof
  fix t assume t: "t \<in> open_trackers m'"
  then have "t \<in> open_trackers m" using assms(1) by (auto simp: closing_def open_trackers_def)
  then have "held (sm_connections m) (tk_UUID (sm_trackers m ! t)) = Some t" using assms(2) by (simp add: tracked_def)
  then show "held (sm_connections m') (tk_UUID (sm_trackers m' ! t)) = Some t"
    using assms(1) t by (auto simp: closing_def open_trackers_def) metis
qed

lemma closing_ids: "closing m m' \<Longrightarrow> tracker_ids m' = tracker_ids m"
  by (simp add: closing_def tracker_ids_def)

lemma on_statistic_tracked [simp]:
  "tracked (on_statistic p f m) = tracked m" "tracker_ids (on_statistic p f m) = tracker_ids m"
  by (simp_all add: tracked_def open_trackers_def tracker_ids_def on_statistic_def)

lemma touch_tracked:
  assumes "table_ok m"
  shows "tracked (touch_tracker L t m) = tracked m" and "tracker_ids (touch_tracker L t m) = tracker_ids m"
  using assms get_keeps by (simp_all add: tracked_def open_trackers_def tracker_ids_def touch_tracker_def table_ok_def)

lemma on_tracker_tracked:
  assumes "\<And>x. tk_UUID (f x) = tk_UUID x" and "\<And>x. tk_Conn (f x) = tk_Conn x" and "t < length (sm_trackers m)"
  shows "tracked (on_tracker t f m) = tracked m" and "tracker_ids (on_tracker t f m) = tracker_ids m"
proof -
  have e: "tk_UUID ((sm_trackers m)[t := f (sm_trackers m ! t)] ! u) = tk_UUID (sm_trackers m ! u)"
    "tk_Conn ((sm_trackers m)[t := f (sm_trackers m ! t)] ! u) = tk_Conn (sm_trackers m ! u)" for u
    using assms by (simp_all add: nth_list_update)
  show "tracked (on_tracker t f m) = tracked m" by (simp add: tracked_def open_trackers_def on_tracker_def e)
  show "tracker_ids (on_tracker t f m) = tracker_ids m"
    by (rule nth_equalityI) (simp_all add: tracker_ids_def on_tracker_def e)
qed

lemma closing_step:
  assumes "closing m m'" and "tracked m" and "event_ids x = []"
  shows "tracked m' \<and> tracker_ids m' = tracker_ids m @ event_ids x"
  using closing_tracked [OF assms(1,2)] closing_ids [OF assms(1)] assms(3) by simp

lemma stat_step_tracked:
  assumes "table_ok m" and "stat_step L x m = Some m'" and "tracked m" and "distinct (tracker_ids m @ event_ids x)"
  shows "tracked m' \<and> tracker_ids m' = tracker_ids m @ event_ids x"
proof (cases x)
  case (EvOpen uid now cached cn md r)
  then obtain m1 y where m1: "closing m1 m'" "sm_trackers m1 = sm_trackers m @ [y]" "tk_UUID y = uid" "tk_Conn y = cn"
    "sm_closed m1 = sm_closed m" "held (sm_connections m1) uid = Some (length (sm_trackers m))"
    "\<forall>j u. j \<noteq> uid \<longrightarrow> held (sm_connections m) j = Some u \<longrightarrow>
      held (sm_connections m1) j = Some u \<or> tk_Conn (sm_trackers m ! u) \<in> set (sm_closed m')"
    using NewTracker_effect [OF assms(1), of uid now cached cn md r] assms(2) by auto
  have tr: "sm_trackers m' = sm_trackers m @ [y]" and cl: "set (sm_closed m) \<subseteq> set (sm_closed m')"
    using m1(1,2,5) by (auto simp: closing_def)
  have keep: "held (sm_connections m') k = held (sm_connections m1) k \<or>
      (\<forall>u. held (sm_connections m1) k = Some u \<longrightarrow> tk_Conn (sm_trackers m1 ! u) \<in> set (sm_closed m'))" for k
    using m1(1) by (auto simp: closing_def)
  have "tracked m'"
    unfolding tracked_def
  proof
    fix t assume t: "t \<in> open_trackers m'"
    then have lt: "t < Suc (length (sm_trackers m))" and op: "tk_Conn ((sm_trackers m @ [y]) ! t) \<notin> set (sm_closed m')"
      by (simp_all add: open_trackers_def tr)
    show "held (sm_connections m') (tk_UUID (sm_trackers m' ! t)) = Some t"
    proof (cases "t = length (sm_trackers m)")
      case True
      then show ?thesis using keep [of uid] m1(2,3,6) op by (auto simp: tr)
    next
      case False
      then have lt': "t < length (sm_trackers m)" using lt by simp
      then have "t \<in> open_trackers m" using op cl by (auto simp: open_trackers_def nth_append)
      then have h: "held (sm_connections m) (tk_UUID (sm_trackers m ! t)) = Some t" using assms(3) by (simp add: tracked_def)
      have "tk_UUID (sm_trackers m ! t) \<noteq> uid"
        using assms(4) lt' EvOpen by (auto simp: tracker_ids_def event_ids_def)
      then show ?thesis using h m1(2,7) keep [of "tk_UUID (sm_trackers m ! t)"] op lt' by (auto simp: tr nth_append)
    qed
  qed
  then show ?thesis using EvOpen m1(3) tr by (simp add: tracker_ids_def event_ids_def)
next
  case (EvRead t n)
  then show ?thesis using assms(2,3) touch_tracked [OF assms(1)]
    by (auto simp: Tracker_Read_def PushDownloaded_def on_tracker_tracked event_ids_def split: if_splits)
next
  case (EvWrite t n)
  then show ?thesis using assms(2,3) touch_tracked [OF assms(1)]
    by (auto simp: Tracker_Write_def PushUploaded_def on_tracker_tracked event_ids_def split: if_splits)
next
  case (EvClose t)
  then show ?thesis using Close_closing [OF assms(1), of t] closing_step [of m m' x] assms(2,3)
    by (auto simp: event_ids_def split: if_splits)
next
  case EvCloseAll
  then show ?thesis using each_closing [OF assms(1), of "\<lambda>x. x" "Connections L m"] closing_step [of m m' x] assms(2,3)
    by (auto simp: Manager_CloseAll_def event_ids_def)
next
  case (EvCloseOne i)
  then have "m' = m \<or> closing m m'" using Close_closing [OF assms(1)] assms(2)
    by (auto simp: closeConnection_def split: option.splits) (metis option.inject)
  then show ?thesis using closing_step [of m m' x] closing_refl [OF assms(1)] assms(3) EvCloseOne by (auto simp: event_ids_def)
next
  case (EvTick q k)
  then show ?thesis using assms(2,3) by (auto simp: manager_handle_def event_ids_def)
next
  case (EvReset q)
  then show ?thesis using assms(2,3) by (auto simp: ResetStatistic_def event_ids_def)
qed

lemma stat_run_inv:
  assumes "table_ok m" and "stat_run L xs m = Some m'"
  shows "table_ok m'" and "EvReset p \<notin> set xs \<Longrightarrow> books p m \<Longrightarrow> books p m'"
    and "distinct (tracker_ids m @ concat (map event_ids xs)) \<Longrightarrow> tracked m \<Longrightarrow> tracked m'"
proof -
  have "table_ok m' \<and> (EvReset p \<notin> set xs \<longrightarrow> books p m \<longrightarrow> books p m') \<and>
      (distinct (tracker_ids m @ concat (map event_ids xs)) \<longrightarrow> tracked m \<longrightarrow> tracked m')"
    using assms
  proof (induction xs arbitrary: m)
    case (Cons x xs)
    obtain m1 where m1: "stat_step L x m = Some m1" "table_ok m1" using stat_step_table [OF Cons.prems(1)] by blast
    have "stat_run L xs m1 = Some m'" using Cons.prems(2) m1(1) by (simp add: stat_run_def)
    note ih = Cons.IH [OF m1(2) this] and st = stat_step_tracked [OF Cons.prems(1) m1(1)]
    have "tracked m'" if d: "distinct (tracker_ids m @ concat (map event_ids (x # xs)))" and tr: "tracked m"
    proof -
      have "distinct ((tracker_ids m @ event_ids x) @ concat (map event_ids xs))" using d by simp
      then show ?thesis using st [OF tr] ih by (metis distinct_append)
    qed
    moreover have "books p m'" if "EvReset p \<notin> set (x # xs)" "books p m"
      using ih stat_step_books [OF Cons.prems(1) m1(1) _ that(2)] that(1) by auto
    ultimately show ?case using ih by blast
  qed (simp add: stat_run_def)
  then show "table_ok m'" and "EvReset p \<notin> set xs \<Longrightarrow> books p m \<Longrightarrow> books p m'"
    and "distinct (tracker_ids m @ concat (map event_ids xs)) \<Longrightarrow> tracked m \<Longrightarrow> tracked m'" by blast+
qed

lemma init_inv:
  assumes "ok c" and "\<And>k. held c k = None"
  shows "table_ok (stat_init c)" and "books p (stat_init c)" and "tracked (stat_init c)" and "tracker_ids (stat_init c) = []"
  using assms
  by (simp_all add: table_ok_def books_def tracked_def open_trackers_def tracker_ids_def stat_init_def getStatistic_def
      no_counters_def moved_def)

lemma open_bounded:
  assumes "table_ok m" and "tracked m"
  shows "card (open_trackers m) \<le> cap"
proof -
  let ?h = "held (sm_connections m)"
  have b: "finite (dom ?h)" "card (dom ?h) \<le> cap" using bounded assms(1) by (auto simp: table_ok_def)
  have "inj_on (\<lambda>t. tk_UUID (sm_trackers m ! t)) (open_trackers m)"
    using assms(2) unfolding tracked_def inj_on_def by (metis option.inject)
  moreover have "(\<lambda>t. tk_UUID (sm_trackers m ! t)) ` open_trackers m \<subseteq> dom ?h" using assms(2) by (auto simp: tracked_def)
  ultimately show ?thesis using b by (meson card_inj_on_le le_trans)
qed

lemma CloseAll_closes:
  assumes "table_ok m" and "tracked m" and "Manager_CloseAll L m = Some m'"
  shows "open_trackers m' = {}" and "Connections L m' = []"
proof -
  have o: "ok (sm_connections m)" using assms(1) by (simp add: table_ok_def)
  have m': "closing m m'" "\<forall>x \<in> set (Connections L m). tk_Conn (sm_trackers m ! x) \<in> set (sm_closed m') \<and>
      held (sm_connections m') (tk_UUID (sm_trackers m ! x)) = None"
    using each_closing [OF assms(1), of "\<lambda>x. x" "Connections L m"] assms(3) by (auto simp: Manager_CloseAll_def)
  have v: "set (Connections L m) = ran (held (sm_connections m))" using values_held [OF o] by (simp add: Connections_def)
  have "t \<notin> open_trackers m'" for t
  proof
    assume t: "t \<in> open_trackers m'"
    then have "t \<in> open_trackers m" using m'(1) by (auto simp: closing_def open_trackers_def)
    then have "t \<in> set (Connections L m)" using assms(2) v by (auto simp: tracked_def intro: ranI)
    then show False using m' t by (auto simp: closing_def open_trackers_def)
  qed
  then show "open_trackers m' = {}" by blast
  have "held (sm_connections m') k = None" for k
  proof (cases "held (sm_connections m) k")
    case None
    then show ?thesis using m'(1) unfolding closing_def by metis
  next
    case (Some u)
    then have "u \<in> set (Connections L m)" "tk_UUID (sm_trackers m ! u) = k" using v assms(1) by (auto simp: table_ok_def intro: ranI)
    then show ?thesis using m'(2) by auto
  qed
  then have "ran (held (sm_connections m')) = {}" by (simp add: ran_def)
  then show "Connections L m' = []" using values_held [of "sm_connections m'"] m'(1) by (simp add: Connections_def closing_def)
qed

end

subsection \<open>The cache of the program as a provider\<close>

text \<open>
  The program's own cache with a bound, and the entries that a call dropped as the evicted ones, keeps the laws
  of the interface.
\<close>

definition lru_pairs :: "(string, nat) lru_state \<Rightarrow> (string \<times> nat) list" where
  "lru_pairs s = map (\<lambda>e. (le_key e, le_value e)) (lru_entries (fst s) (snd s))"

definition evict_of_clash :: "((string, nat) lru_state, nat) evict_api" where
  "evict_of_clash = \<lparr>el_Get = LruCache_Get 0,
     el_Add = (\<lambda>k v s. let s' = LruCache_Set 0 k v s in
       (filter (\<lambda>(j, w). j \<noteq> k \<and> lru_held s' j = None) (lru_pairs s), s')),
     el_Remove = (\<lambda>k s. (case lru_held s k of None \<Rightarrow> [] | Some v \<Rightarrow> [(k, v)], LruCache_Delete k s)),
     el_Values = (\<lambda>s. map snd (lru_pairs s))\<rparr>"

definition sized :: "nat \<Rightarrow> (string, nat) lru_state \<Rightarrow> bool" where
  "sized n s \<longleftrightarrow> ageless s \<and> maxSize (snd s) = int (Suc n)"

lemma lru_pairs_held: "ageless s \<Longrightarrow> (j, w) \<in> set (lru_pairs s) \<longleftrightarrow> lru_held s j = Some w"
  using ageless_distinct [of s] es_find_distinct [of "lru_entries (fst s) (snd s)"]
    es_find_Some_in [of j "lru_entries (fst s) (snd s)"]
  by (fastforce simp: lru_pairs_def lru_held_def)

lemma sized_step:
  assumes "sized n s" and "lru_step x s = (a, s')"
  shows "sized n s'"
  using assms ageless_step(1) [of s x a s'] lru_step_refines(2) [of s x a s']
  by (auto simp: sized_def ageless_def same_conf_def)

lemma sized_keeps: "sized n s \<Longrightarrow> sized n (LruCache_Set 0 k v s)" "sized n s \<Longrightarrow> sized n (LruCache_Delete k s)"
  "sized n s \<Longrightarrow> sized n (snd (LruCache_Get 0 k s))"
proof -
  assume s: "sized n s"
  have "lru_step (0, OSet k v) s = (AUnit, LruCache_Set 0 k v s)" by simp
  then show "sized n (LruCache_Set 0 k v s)" by (rule sized_step [OF s])
  have "lru_step (0, ODelete k) s = (AUnit, LruCache_Delete k s)" by simp
  then show "sized n (LruCache_Delete k s)" by (rule sized_step [OF s])
  obtain r s1 where g: "LruCache_Get 0 k s = (r, s1)" by (rule prod.exhaust)
  then have "lru_step (0, OGet k) s = (AVal r, s1)" by simp
  from sized_step [OF s this] show "sized n (snd (LruCache_Get 0 k s))" by (simp add: g)
qed

lemma sized_dom:
  assumes "sized n s"
  shows "finite (dom (lru_held s)) \<and> card (dom (lru_held s)) \<le> Suc n"
proof -
  have "dom (lru_held s) = fst ` set (lru_pairs s)"
    using assms lru_pairs_held [of s] by (force simp: sized_def)
  moreover have "length (lru_pairs s) \<le> Suc n"
    using assms by (auto simp: sized_def ageless_def lru_ok_def lru_bounded_def lru_pairs_def)
  ultimately show ?thesis using card_image_le [of "set (lru_pairs s)" fst] card_length [of "lru_pairs s"] by fastforce
qed

interpretation clash_table: evict_cache "Suc n" "sized n" lru_held evict_of_clash for n
proof
  fix s :: "(string, nat) lru_state" and k j :: string and v w :: nat
  assume s: "sized n s"
  then have a: "ageless s" by (simp add: sized_def)
  show "sized n (snd (el_Get evict_of_clash k s)) \<and> lru_held (snd (el_Get evict_of_clash k s)) = lru_held s"
    using sized_keeps(3) [OF s] lru_kv.get_keeps [OF a] by (simp add: evict_of_clash_def)
  show "sized n (snd (el_Add evict_of_clash k v s))" using sized_keeps(1) [OF s] by (simp add: evict_of_clash_def Let_def)
  show "lru_held (snd (el_Add evict_of_clash k v s)) k = Some v" using lru_kv.put_same [OF a] by (simp add: evict_of_clash_def Let_def)
  show "j \<noteq> k \<and> lru_held s j = Some w \<and> lru_held (snd (el_Add evict_of_clash k v s)) j = None"
    if "(j, w) \<in> set (fst (el_Add evict_of_clash k v s))"
    using that lru_pairs_held [OF a] by (auto simp: evict_of_clash_def Let_def)
  show "lru_held (snd (el_Add evict_of_clash k v s)) j = lru_held s j"
    if "j \<noteq> k" "j \<notin> fst ` set (fst (el_Add evict_of_clash k v s))"
    using that lru_kv.put_other [OF a that(1), of v] lru_pairs_held [OF a]
    by (cases "lru_held s j") (force simp: evict_of_clash_def Let_def)+
  show "sized n (snd (el_Remove evict_of_clash k s))" using sized_keeps(2) [OF s] by (simp add: evict_of_clash_def)
  show "lru_held (snd (el_Remove evict_of_clash k s)) = (lru_held s)(k := None)"
    using lru_kv.del_held [OF a] by (simp add: evict_of_clash_def)
  show "fst (el_Remove evict_of_clash k s) = (case lru_held s k of None \<Rightarrow> [] | Some v \<Rightarrow> [(k, v)])"
    by (simp add: evict_of_clash_def)
  show "set (el_Values evict_of_clash s) = ran (lru_held s)"
    using lru_pairs_held [OF a] by (force simp: evict_of_clash_def ran_def)
  show "finite (dom (lru_held s)) \<and> card (dom (lru_held s)) \<le> Suc n" by (rule sized_dom [OF s])
qed

subsection \<open>The statistics\<close>

text \<open> C26. The books agree: whatever connections are opened, used, pushed out of the table and closed, in whatever order and
  with the ticker in between, every call returns, and the totals of the two policies are, modulo 2 to the 64, the sums over all
  connections of that policy, unless the policy was reset.\<close>

theorem totals_agree:
  assumes "evict_cache cap ok held L" and "ok c" and "\<And>k. held c k = None"
  shows "\<exists>m. stat_run L xs (stat_init c) = Some m \<and>
    (\<forall>p s. EvReset p \<notin> set xs \<longrightarrow> getStatistic p m = Some s \<longrightarrow>
      uploadTotal s = (\<Sum>t \<leftarrow> sm_trackers m. if tracker_policy t = p then tk_UploadTotal t else 0) \<and>
      downloadTotal s = (\<Sum>t \<leftarrow> sm_trackers m. if tracker_policy t = p then tk_DownloadTotal t else 0))"
proof -
  note i = evict_cache.init_inv [OF assms(1) assms(2,3)]
  obtain m where m: "stat_run L xs (stat_init c) = Some m" using evict_cache.stat_run_table [OF assms(1) i(1)] by blast
  have "evict_cache.books p m" if "EvReset p \<notin> set xs" for p using evict_cache.stat_run_inv(2) [OF assms(1) i(1) m that i(2)] .
  then show ?thesis using m by (auto simp: evict_cache.books_def [OF assms(1)] moved_def)
qed

lemma clash_table_empty: "sized n ([], LruCache_New [WithSize (int (Suc n))])"
  "lru_held ([], LruCache_New [WithSize i]) k = None"
  using ageless_New [of "int (Suc n)"] by (simp_all add: sized_def LruCache_New_def lru_held_def lru_entries_def es_find_def)

definition demo_table :: "(string, nat) lru_state" where
  "demo_table = ([], LruCache_New [WithSize (int (Suc 255))])"

lemma demo_table_ok: "sized 255 demo_table" "lru_held demo_table k = None"
  unfolding demo_table_def by (rule clash_table_empty)+

abbreviation demo_stat_run :: "(string, nat) lru_state stat_manager option" where
  "demo_stat_run \<equiv> stat_run evict_of_clash
     [EvOpen ''u'' 0 None 7 demo_conn demo_rule, EvWrite 0 5, EvTick PolicyDirect BlipUp, EvTick PolicyDirect ClearUp]
     (stat_init demo_table)"

theorem totals_agree_witness:
  "\<exists>m s. demo_stat_run = Some m \<and> getStatistic PolicyDirect m = Some s \<and>
     uploadTotal s = (\<Sum>t \<leftarrow> sm_trackers m. if tracker_policy t = PolicyDirect then tk_UploadTotal t else 0)"
proof -
  obtain m where m: "demo_stat_run = Some m" "\<And>s. getStatistic PolicyDirect m = Some s \<Longrightarrow>
      uploadTotal s = (\<Sum>t \<leftarrow> sm_trackers m. if tracker_policy t = PolicyDirect then tk_UploadTotal t else 0)"
    using totals_agree [OF clash_table.evict_cache_axioms demo_table_ok, of
        "[EvOpen ''u'' 0 None 7 demo_conn demo_rule, EvWrite 0 5, EvTick PolicyDirect BlipUp, EvTick PolicyDirect ClearUp]"]
    by auto
  have "getStatistic PolicyDirect m = Some (sm_direct m)" by (simp add: getStatistic_def policies)
  then show ?thesis using m by blast
qed

text \<open> C27. Closing all connections, as a stop of the program does, reaches every connection that was ever opened and not closed
  before, as long as no identifier was given twice; and at any time at most as many connections are open as the table holds.\<close>

theorem close_all_reaches_all:
  assumes "evict_cache cap ok held L" and "ok c" and "\<And>k. held c k = None"
    and "stat_run L xs (stat_init c) = Some m" and "distinct (concat (map event_ids xs))"
  shows "card (open_trackers m) \<le> cap \<and>
    (\<exists>m'. Manager_CloseAll L m = Some m' \<and> open_trackers m' = {} \<and> Connections L m' = [])"
proof -
  note i = evict_cache.init_inv [OF assms(1) assms(2,3)]
  note r = evict_cache.stat_run_inv [OF assms(1) i(1) assms(4)]
  have t: "evict_cache.tracked held m" using r(3) i(3,4) assms(5) by simp
  obtain m' where m': "Manager_CloseAll L m = Some m'"
    using evict_cache.stat_step_table [OF assms(1) r(1), of EvCloseAll] by auto
  show ?thesis
    using evict_cache.open_bounded [OF assms(1) r(1) t] evict_cache.CloseAll_closes [OF assms(1) r(1) t m'] m' by blast
qed

theorem close_all_reaches_all_witness:
  "\<exists>m m'. demo_stat_run = Some m \<and> card (open_trackers m) \<le> 256 \<and>
     Manager_CloseAll evict_of_clash m = Some m' \<and> open_trackers m' = {}"
proof -
  obtain m where m: "demo_stat_run = Some m"
    using clash_table.stat_run_table [OF clash_table.init_inv(1) [OF demo_table_ok]] by blast
  have "distinct (concat (map event_ids
      [EvOpen ''u'' 0 None 7 demo_conn demo_rule, EvWrite 0 5, EvTick PolicyDirect BlipUp, EvTick PolicyDirect ClearUp]))"
    by (simp add: event_ids_def)
  from close_all_reaches_all [OF clash_table.evict_cache_axioms demo_table_ok m this] m show ?thesis by auto
qed

subsection \<open>Closing twice, and the ticker\<close>

text \<open>
  A tracker in the table that is closed closes its connection twice: once for the callback of the removal and once for
  itself.
\<close>

lemma Close_closes_twice:
  assumes "evict_cache cap ok held L" and "evict_cache.table_ok ok held m"
    and "held (sm_connections m) (tk_UUID (sm_trackers m ! t)) = Some t"
  shows "\<exists>m'. Tracker_Close L t m = Some m' \<and>
    sm_closed m' = sm_closed m @ [tk_Conn (sm_trackers m ! t), tk_Conn (sm_trackers m ! t)]"
  using evict_cache.Close_effect [OF assms(1,2) refl, of t] assms(3) by auto

text \<open>Two connections with one identifier: the first is forgotten by the table, and closing all does not reach it.\<close>

lemma same_id_forgotten:
  "el_Values evict_of_clash (snd (el_Add evict_of_clash ''u'' 1 (snd (el_Add evict_of_clash ''u'' 0 demo_table)))) = [1]"
  by (simp add: evict_of_clash_def lru_pairs_def lru_entries_def demo_table_def LruCache_New_def LruCache_Set_def
      LruCache_SetWithExpire_def maybeDeleteOldest_def moveToBack_def Let_def)

text \<open>Bytes that are counted between the two assignments of the ticker are missing from every rate.\<close>

lemma tick_loses_bytes:
  "tick_step ClearUp ((\<lambda>s. s\<lparr>uploadTemp := uploadTemp s + n\<rparr>) (tick_step BlipUp s)) =
     s\<lparr>uploadBlip := uploadTemp s, uploadTemp := 0\<rparr>"
  by simp

end
