(* ===== verification/Tunnel.thy ===== *)
theory Tunnel
  imports Main
begin

text \<open>
  The goroutines that carry connections: the handlers of one TCP and of one UDP connection
  (\<open>src/internal/tunnel/tcp.go\<close>, \<open>udp.go\<close>), as step relations over their program counters, and the two channels of
  the local server with the goroutine that reads them (\<open>src/internal/local_server/listener.go\<close>, the sending side in
  \<open>src/pkg/clash/listener/socks/udp.go\<close> and \<open>tcp.go\<close>).

  One step is one statement on shared state: a call of \<open>Done\<close>, \<open>Wait\<close>, \<open>Close\<close> or \<open>once.Do\<close>, a channel
  operation. When the copying of a direction ends is up to the two connections.
\<close>

subsection \<open>One UDP connection (udp.go)\<close>

datatype goroutine = Main | Upward | Downward

text \<open>
  Where a goroutine is: dialling, waiting for the copies, copying, about to call \<open>Done\<close> of the copies' group or of the
  context's group, about to call \<open>once.Do\<close>, inside \<open>cleanConn\<close> before one of its two closes, or finished.
\<close>

datatype pc = NotStarted | Dial | WaitCopies | Copying | LeaveGroup | ContextDone | OnceDo | CloseLocal | CloseRemote | Finished

datatype once = ONew | ORunning goroutine | ODone

text \<open>
  The tracker of the dialled connection in the table of open connections (\<open>statistic/manager.go\<close>): not made yet, held, dropped
  by others (an eviction, or the closing of connections by the user), or removed by \<open>Leave\<close>.
\<close>

datatype table_entry = NoEntry | Held | Dropped | Removed

record udp_handler =
  uh_pc :: "goroutine \<Rightarrow> pc"
  uh_once :: once
  uh_lc :: bool
  uh_group :: nat
  uh_entry :: table_entry
  uh_lcCloses :: nat
  uh_dialledCloses :: nat
  uh_ctCloses :: nat
  uh_contextDone :: nat

definition udp_start :: udp_handler where
  "udp_start = \<lparr>uh_pc = (\<lambda>g. if g = Main then Dial else NotStarted), uh_once = ONew, uh_lc = False, uh_group = 0,
     uh_entry = NoEntry, uh_lcCloses = 0, uh_dialledCloses = 0, uh_ctCloses = 0, uh_contextDone = 0\<rparr>"

text \<open>
  \<open>lc\<close> is the tracker of the dialled connection and \<open>ct\<close> the connection of the context. \<open>UdpTracker.Close\<close> leaves the table,
  whose callback for a removed entry closes the tracker, and then closes the connection: so one call closes the dialled
  connection twice when the table holds the tracker (\<open>StatProps.Close_closes_twice\<close>), and once when it does not.
  \<open>uh_lcCloses\<close> counts the calls for the tracker that the handler makes and \<open>uh_dialledCloses\<close> what they close.
\<close>

inductive udp_step :: "udp_handler \<Rightarrow> udp_handler \<Rightarrow> bool" where
  dial_fails: "uh_pc s Main = Dial \<Longrightarrow> udp_step s (s\<lparr>uh_pc := (uh_pc s)(Main := ContextDone)\<rparr>)"
| dial_works: "uh_pc s Main = Dial \<Longrightarrow>
    udp_step s (s\<lparr>uh_pc := (\<lambda>g. if g = Main then WaitCopies else Copying), uh_lc := True, uh_entry := Held, uh_group := 2\<rparr>)"
| table_drops: "uh_entry s = Held \<Longrightarrow> udp_step s (s\<lparr>uh_entry := Dropped\<rparr>)"
| copy_ends: "uh_pc s g = Copying \<Longrightarrow> udp_step s (s\<lparr>uh_pc := (uh_pc s)(g := LeaveGroup)\<rparr>)"
| leave_group: "uh_pc s g = LeaveGroup \<Longrightarrow>
    udp_step s (s\<lparr>uh_pc := (uh_pc s)(g := OnceDo), uh_group := uh_group s - 1\<rparr>)"
| copies_done: "uh_pc s Main = WaitCopies \<Longrightarrow> uh_group s = 0 \<Longrightarrow> udp_step s (s\<lparr>uh_pc := (uh_pc s)(Main := ContextDone)\<rparr>)"
| context_done: "uh_pc s Main = ContextDone \<Longrightarrow>
    udp_step s (s\<lparr>uh_pc := (uh_pc s)(Main := OnceDo), uh_contextDone := uh_contextDone s + 1\<rparr>)"
| once_first: "uh_pc s g = OnceDo \<Longrightarrow> uh_once s = ONew \<Longrightarrow>
    udp_step s (s\<lparr>uh_pc := (uh_pc s)(g := if uh_lc s then CloseLocal else CloseRemote), uh_once := ORunning g\<rparr>)"
| once_later: "uh_pc s g = OnceDo \<Longrightarrow> uh_once s = ODone \<Longrightarrow> udp_step s (s\<lparr>uh_pc := (uh_pc s)(g := Finished)\<rparr>)"
| close_local: "uh_pc s g = CloseLocal \<Longrightarrow>
    udp_step s (s\<lparr>uh_pc := (uh_pc s)(g := CloseRemote), uh_lcCloses := uh_lcCloses s + 1,
      uh_dialledCloses := uh_dialledCloses s + (if uh_entry s = Held then 2 else 1),
      uh_entry := if uh_entry s = Held then Removed else uh_entry s\<rparr>)"
| close_remote: "uh_pc s g = CloseRemote \<Longrightarrow>
    udp_step s (s\<lparr>uh_pc := (uh_pc s)(g := Finished), uh_ctCloses := uh_ctCloses s + 1, uh_once := ODone\<rparr>)"

definition udp_finished :: "udp_handler \<Rightarrow> bool" where
  "udp_finished s \<longleftrightarrow> (\<forall>g. uh_pc s g \<in> {NotStarted, Finished})"

subsection \<open>One TCP connection (tcp.go)\<close>

text \<open>
  The remote connection is nil until the dialling works, and then the tracker of what was dialled; both are closed by the main
  goroutine only. The counts are those of the calls of \<open>closeConn\<close>.
\<close>

record tcp_handler =
  th_pc :: "goroutine \<Rightarrow> pc"
  th_remote :: bool
  th_group :: nat
  th_localCloses :: nat
  th_remoteCloses :: nat
  th_contextDone :: nat

definition tcp_start :: tcp_handler where
  "tcp_start = \<lparr>th_pc = (\<lambda>g. if g = Main then Dial else NotStarted), th_remote = False, th_group = 0,
     th_localCloses = 0, th_remoteCloses = 0, th_contextDone = 0\<rparr>"

inductive tcp_step :: "tcp_handler \<Rightarrow> tcp_handler \<Rightarrow> bool" where
  tcp_dial_fails: "th_pc s Main = Dial \<Longrightarrow> tcp_step s (s\<lparr>th_pc := (th_pc s)(Main := ContextDone)\<rparr>)"
| tcp_dial_works: "th_pc s Main = Dial \<Longrightarrow>
    tcp_step s (s\<lparr>th_pc := (\<lambda>g. if g = Main then WaitCopies else Copying), th_remote := True, th_group := 2\<rparr>)"
| tcp_copy_ends: "th_pc s g = Copying \<Longrightarrow> tcp_step s (s\<lparr>th_pc := (th_pc s)(g := LeaveGroup)\<rparr>)"
| tcp_leave_group: "th_pc s g = LeaveGroup \<Longrightarrow>
    tcp_step s (s\<lparr>th_pc := (th_pc s)(g := Finished), th_group := th_group s - 1\<rparr>)"
| tcp_copies_done: "th_pc s Main = WaitCopies \<Longrightarrow> th_group s = 0 \<Longrightarrow> tcp_step s (s\<lparr>th_pc := (th_pc s)(Main := ContextDone)\<rparr>)"
| tcp_context_done: "th_pc s Main = ContextDone \<Longrightarrow>
    tcp_step s (s\<lparr>th_pc := (th_pc s)(Main := CloseLocal), th_contextDone := th_contextDone s + 1\<rparr>)"
| tcp_close_local: "th_pc s Main = CloseLocal \<Longrightarrow>
    tcp_step s (s\<lparr>th_pc := (th_pc s)(Main := if th_remote s then CloseRemote else Finished), th_localCloses := th_localCloses s + 1\<rparr>)"
| tcp_close_remote: "th_pc s Main = CloseRemote \<Longrightarrow>
    tcp_step s (s\<lparr>th_pc := (th_pc s)(Main := Finished), th_remoteCloses := th_remoteCloses s + 1\<rparr>)"

definition tcp_finished :: "tcp_handler \<Rightarrow> bool" where
  "tcp_finished s \<longleftrightarrow> (\<forall>g. th_pc s g \<in> {NotStarted, Finished})"

subsection \<open>The local server (listener.go)\<close>

text \<open>
  The goroutine \<open>process\<close> ranges over \<open>tcpIn\<close> until that channel is closed and empty, then over \<open>udpIn\<close>. The
  listeners send: a TCP connection waits for room, a UDP packet that finds no room is dropped. The two lists of served
  ones are what \<open>processTcp\<close> and \<open>processUdp\<close> are started with.
\<close>

datatype range_pc = RangeTcp | RangeUdp | RangesDone

record 'a local_queues =
  lq_tcpIn :: "'a list"
  lq_tcpClosed :: bool
  lq_udpIn :: "'a list"
  lq_udpClosed :: bool
  lq_pc :: range_pc
  lq_tcpServed :: "'a list"
  lq_udpServed :: "'a list"
  lq_udpDropped :: "'a list"

definition local_start :: "'a local_queues" where
  "local_start = \<lparr>lq_tcpIn = [], lq_tcpClosed = False, lq_udpIn = [], lq_udpClosed = False, lq_pc = RangeTcp,
     lq_tcpServed = [], lq_udpServed = [], lq_udpDropped = []\<rparr>"

definition channel_size :: nat where
  "channel_size = 16"

inductive local_step :: "'a local_queues \<Rightarrow> 'a local_queues \<Rightarrow> bool" where
  tcp_accepted: "length (lq_tcpIn s) < channel_size \<Longrightarrow> local_step s (s\<lparr>lq_tcpIn := lq_tcpIn s @ [c]\<rparr>)"
| udp_accepted: "length (lq_udpIn s) < channel_size \<Longrightarrow> local_step s (s\<lparr>lq_udpIn := lq_udpIn s @ [u]\<rparr>)"
| udp_dropped: "\<not> length (lq_udpIn s) < channel_size \<Longrightarrow> local_step s (s\<lparr>lq_udpDropped := lq_udpDropped s @ [u]\<rparr>)"
| serve_tcp: "lq_pc s = RangeTcp \<Longrightarrow> lq_tcpIn s = c # cs \<Longrightarrow>
    local_step s (s\<lparr>lq_tcpIn := cs, lq_tcpServed := lq_tcpServed s @ [c]\<rparr>)"
| tcp_range_ends: "lq_pc s = RangeTcp \<Longrightarrow> lq_tcpIn s = [] \<Longrightarrow> lq_tcpClosed s \<Longrightarrow> local_step s (s\<lparr>lq_pc := RangeUdp\<rparr>)"
| serve_udp: "lq_pc s = RangeUdp \<Longrightarrow> lq_udpIn s = u # us \<Longrightarrow>
    local_step s (s\<lparr>lq_udpIn := us, lq_udpServed := lq_udpServed s @ [u]\<rparr>)"
| udp_range_ends: "lq_pc s = RangeUdp \<Longrightarrow> lq_udpIn s = [] \<Longrightarrow> lq_udpClosed s \<Longrightarrow> local_step s (s\<lparr>lq_pc := RangesDone\<rparr>)"

inductive_cases from_udp_step: "udp_step s t"
inductive_cases from_tcp_step: "tcp_step s t"
inductive_cases from_local_step: "local_step s t"

end
