(* ===== verification/TunnelProps.thy ===== *)
theory TunnelProps
  imports Tunnel
begin

text \<open>
  What the goroutines of a connection promise: every run of a handler is finite, a handler that stops has closed each
  end exactly once, through its tracker if it has one, and released its context exactly once, and it only stops when it is finished; and
  what the local server does not do: it never serves a UDP packet.
\<close>

subsection \<open>The UDP handler\<close>

text \<open>How many steps are left for a goroutine.\<close>

primrec rest :: "pc \<Rightarrow> nat" where
  "rest NotStarted = 0"
| "rest Dial = 20"
| "rest WaitCopies = 5"
| "rest Copying = 6"
| "rest LeaveGroup = 5"
| "rest ContextDone = 4"
| "rest OnceDo = 3"
| "rest CloseLocal = 2"
| "rest CloseRemote = 1"
| "rest Finished = 0"

definition udp_rest :: "udp_handler \<Rightarrow> nat" where
  "udp_rest s = rest (uh_pc s Main) + rest (uh_pc s Upward) + rest (uh_pc s Downward) + of_bool (uh_entry s = Held)"

lemma udp_step_rest: "udp_step s t \<Longrightarrow> udp_rest t < udp_rest s"
proof (induction rule: udp_step.induct)
  case (copy_ends s g)
  then show ?case by (cases g) (simp_all add: udp_rest_def)
next
  case (leave_group s g)
  then show ?case by (cases g) (simp_all add: udp_rest_def)
next
  case (once_first s g)
  then show ?case by (cases g) (simp_all add: udp_rest_def)
next
  case (once_later s g)
  then show ?case by (cases g) (simp_all add: udp_rest_def)
next
  case (close_local s g)
  then show ?case by (cases g) (simp_all add: udp_rest_def)
next
  case (close_remote s g)
  then show ?case by (cases g) (simp_all add: udp_rest_def)
qed (simp_all add: udp_rest_def)

lemma steps_bounded: "(udp_step ^^ n) s t \<Longrightarrow> n + udp_rest t \<le> udp_rest s"
proof (induction n arbitrary: t)
  case (Suc n)
  then obtain u where "(udp_step ^^ n) s u" "udp_step u t" by auto
  then show ?case using Suc.IH [of u] udp_step_rest [of u t] by simp
qed simp

text \<open>
  The invariant: the copies' group counts the goroutines that have not left it, \<open>cleanConn\<close> runs in the goroutine that
  holds \<open>once\<close> only, and the counts of closes say how far it is.
\<close>

definition in_group :: "pc \<Rightarrow> nat" where
  "in_group p = (if p = Copying \<or> p = LeaveGroup then 1 else 0)"

definition cleaning :: "pc \<Rightarrow> bool" where
  "cleaning p \<longleftrightarrow> p = CloseLocal \<or> p = CloseRemote"

definition copier_ok :: "bool \<Rightarrow> pc \<Rightarrow> bool" where
  "copier_ok lc p \<longleftrightarrow> (if lc then p = Copying \<or> p = LeaveGroup \<or> p = OnceDo \<or> cleaning p \<or> p = Finished else p = NotStarted)"

definition shape_ok :: "udp_handler \<Rightarrow> bool" where
  "shape_ok s \<longleftrightarrow> copier_ok (uh_lc s) (uh_pc s Upward) \<and> copier_ok (uh_lc s) (uh_pc s Downward) \<and>
     (case uh_pc s Main of Dial \<Rightarrow> \<not> uh_lc s | WaitCopies \<Rightarrow> uh_lc s | NotStarted \<Rightarrow> False | Copying \<Rightarrow> False | LeaveGroup \<Rightarrow> False | _ \<Rightarrow> True)"

definition group_ok :: "udp_handler \<Rightarrow> bool" where
  "group_ok s \<longleftrightarrow> uh_group s = in_group (uh_pc s Upward) + in_group (uh_pc s Downward) \<and>
     (uh_pc s Main \<noteq> WaitCopies \<longrightarrow> uh_group s = 0) \<and>
     uh_contextDone s = (if uh_pc s Main = OnceDo \<or> cleaning (uh_pc s Main) \<or> uh_pc s Main = Finished then 1 else 0)"

text \<open>What a goroutine may do while \<open>once\<close> is new, held by another one, or done.\<close>

definition once_ok :: "udp_handler \<Rightarrow> bool" where
  "once_ok s \<longleftrightarrow>
     (case uh_once s of
        ONew \<Rightarrow> uh_lcCloses s = 0 \<and> uh_ctCloses s = 0 \<and> (\<forall>g. \<not> cleaning (uh_pc s g) \<and> uh_pc s g \<noteq> Finished)
      | ORunning h \<Rightarrow> cleaning (uh_pc s h) \<and> (\<forall>g. g \<noteq> h \<longrightarrow> \<not> cleaning (uh_pc s g) \<and> uh_pc s g \<noteq> Finished) \<and>
          uh_ctCloses s = 0 \<and> uh_lcCloses s = of_bool (uh_lc s \<and> uh_pc s h = CloseRemote) \<and> (uh_pc s h = CloseLocal \<longrightarrow> uh_lc s)
      | ODone \<Rightarrow> (\<forall>g. \<not> cleaning (uh_pc s g)) \<and> uh_ctCloses s = 1 \<and> uh_lcCloses s = of_bool (uh_lc s)) \<and>
     (uh_pc s Main = Dial \<longrightarrow> uh_once s = ONew)"

lemma cleaning_simps [simp]:
  "cleaning CloseLocal" "cleaning CloseRemote" "\<not> cleaning Dial" "\<not> cleaning NotStarted" "\<not> cleaning WaitCopies" "\<not> cleaning Copying"
  "\<not> cleaning LeaveGroup" "\<not> cleaning ContextDone" "\<not> cleaning OnceDo" "\<not> cleaning Finished"
  by (simp_all add: cleaning_def)

lemma copier_simps [simp]:
  "copier_ok b OnceDo = b" "copier_ok b LeaveGroup = b" "copier_ok b Finished = b" "copier_ok b CloseLocal = b"
  "copier_ok b CloseRemote = b" "copier_ok b Copying = b" "copier_ok b NotStarted = (\<not> b)"
  "\<not> copier_ok b Dial" "\<not> copier_ok b WaitCopies" "\<not> copier_ok b ContextDone"
  by (simp_all add: copier_ok_def)

lemma shape_step: "udp_step s t \<Longrightarrow> shape_ok s \<Longrightarrow> shape_ok t"
proof (induction rule: udp_step.induct)
  case (copy_ends s g)
  then show ?case by (cases g; cases "uh_pc s Main") (simp_all add: shape_ok_def)
next
  case (leave_group s g)
  then show ?case by (cases g; cases "uh_pc s Main") (simp_all add: shape_ok_def)
next
  case (once_first s g)
  then show ?case by (cases g; cases "uh_pc s Main") (simp_all add: shape_ok_def)
next
  case (once_later s g)
  then show ?case by (cases g; cases "uh_pc s Main") (simp_all add: shape_ok_def)
next
  case (close_local s g)
  then show ?case by (cases g; cases "uh_pc s Main") (simp_all add: shape_ok_def)
next
  case (close_remote s g)
  then show ?case by (cases g; cases "uh_pc s Main") (simp_all add: shape_ok_def)
next
  case (table_drops s)
  then show ?case by (cases "uh_lc s"; cases "uh_pc s Main") (simp_all add: shape_ok_def)
qed (auto simp: shape_ok_def)

lemma group_step: "udp_step s t \<Longrightarrow> shape_ok s \<Longrightarrow> group_ok s \<Longrightarrow> group_ok t"
proof (induction rule: udp_step.induct)
  case (copy_ends s g)
  then show ?case by (cases g; cases "uh_pc s Main") (simp_all add: group_ok_def shape_ok_def in_group_def)
next
  case (leave_group s g)
  then show ?case by (cases g; cases "uh_pc s Main") (auto simp: group_ok_def shape_ok_def in_group_def)
next
  case (once_first s g)
  then show ?case by (cases g; cases "uh_pc s Main") (simp_all add: group_ok_def shape_ok_def in_group_def)
next
  case (once_later s g)
  then show ?case by (cases g; cases "uh_pc s Main") (simp_all add: group_ok_def shape_ok_def in_group_def)
next
  case (close_local s g)
  then show ?case by (cases g; cases "uh_pc s Main") (simp_all add: group_ok_def shape_ok_def in_group_def)
next
  case (close_remote s g)
  then show ?case by (cases g; cases "uh_pc s Main") (simp_all add: group_ok_def shape_ok_def in_group_def)
next
  case (table_drops s)
  then show ?case by (auto simp: group_ok_def)
qed (simp_all add: group_ok_def shape_ok_def in_group_def)

lemma cleaning_holder:
  assumes "once_ok s" and "cleaning (uh_pc s g)"
  shows "uh_once s = ORunning g"
proof (cases "uh_once s")
  case (ORunning h)
  then have "g \<noteq> h \<longrightarrow> \<not> cleaning (uh_pc s g)" using assms(1) by (simp add: once_ok_def)
  then show ?thesis using ORunning assms(2) by blast
qed (use assms in \<open>simp_all add: once_ok_def\<close>)

lemma once_step: "udp_step s t \<Longrightarrow> shape_ok s \<Longrightarrow> once_ok s \<Longrightarrow> once_ok t"
proof (induction rule: udp_step.induct)
  case (copy_ends s g)
  then show ?case by (cases "uh_once s") (auto simp: once_ok_def)
next
  case (leave_group s g)
  then show ?case by (cases "uh_once s") (auto simp: once_ok_def)
next
  case (once_first s g)
  have "uh_pc s Main \<noteq> Dial \<or> g = Main" using once_first by (cases g) (auto simp: shape_ok_def)
  then show ?case using once_first by (auto simp: once_ok_def)
next
  case (once_later s g)
  then show ?case by (auto simp: once_ok_def)
next
  case (close_local s g)
  then have "uh_once s = ORunning g" using cleaning_holder [of s g] by simp
  then show ?case using close_local by (auto simp: once_ok_def)
next
  case (close_remote s g)
  then have "uh_once s = ORunning g" using cleaning_holder [of s g] by simp
  then show ?case using close_remote by (auto simp: once_ok_def)
next
  case (dial_works s)
  then show ?case by (auto simp: once_ok_def)
next
  case (dial_fails s)
  then show ?case by (auto simp: once_ok_def)
next
  case (copies_done s)
  then show ?case by (cases "uh_once s") (auto simp: once_ok_def)
next
  case (context_done s)
  then show ?case by (cases "uh_once s") (auto simp: once_ok_def)
next
  case (table_drops s)
  then show ?case by (cases "uh_once s") (auto simp: once_ok_def)
qed

text \<open>What the one call for the tracker closes.\<close>

definition entry_ok :: "udp_handler \<Rightarrow> bool" where
  "entry_ok s \<longleftrightarrow> (\<not> uh_lc s \<longrightarrow> uh_entry s = NoEntry) \<and>
     (if uh_lcCloses s = 0 then uh_dialledCloses s = 0 \<and> (uh_lc s \<longrightarrow> uh_entry s = Held \<or> uh_entry s = Dropped)
      else uh_entry s = Dropped \<and> uh_dialledCloses s = 1 \<or> uh_entry s = Removed \<and> uh_dialledCloses s = 2)"

lemma entry_step: "udp_step s t \<Longrightarrow> shape_ok s \<Longrightarrow> once_ok s \<Longrightarrow> entry_ok s \<Longrightarrow> entry_ok t"
proof (induction rule: udp_step.induct)
  case (close_local s g)
  then have "uh_once s = ORunning g" using cleaning_holder [of s g] by simp
  then have "uh_lcCloses s = 0" "uh_lc s" using close_local by (auto simp: once_ok_def)
  then show ?case using close_local by (auto simp: entry_ok_def)
next
  case (dial_works s)
  then have "uh_lcCloses s = 0" by (auto simp: once_ok_def)
  then show ?case using dial_works by (auto simp: entry_ok_def)
next
  case (table_drops s)
  then show ?case by (auto simp: entry_ok_def)
qed (auto simp: entry_ok_def)

definition udp_inv :: "udp_handler \<Rightarrow> bool" where
  "udp_inv s \<longleftrightarrow> shape_ok s \<and> group_ok s \<and> once_ok s \<and> entry_ok s"

lemma udp_inv_start: "udp_inv udp_start"
  by (simp add: udp_inv_def shape_ok_def group_ok_def once_ok_def entry_ok_def udp_start_def in_group_def)

lemma udp_inv_steps: "udp_step\<^sup>*\<^sup>* s t \<Longrightarrow> udp_inv s \<Longrightarrow> udp_inv t"
  by (induction rule: rtranclp.induct) (auto simp: udp_inv_def shape_step group_step once_step entry_step)

text \<open>An unfinished handler can go on, and without waiting for the connections unless both copies run.\<close>

lemma main_only: "shape_ok s \<Longrightarrow> uh_pc s g = Dial \<or> uh_pc s g = ContextDone \<or> uh_pc s g = WaitCopies \<Longrightarrow> g = Main"
  by (cases g) (auto simp: shape_ok_def)

lemma udp_progress:
  assumes "udp_inv s" and "\<not> udp_finished s"
  shows "\<exists>t. udp_step s t"
proof -
  have shape: "shape_ok s" and group: "group_ok s" and once: "once_ok s" using assms(1) by (simp_all add: udp_inv_def)
  have clean: "\<exists>t. udp_step s t" if "cleaning (uh_pc s h)" for h
    using that close_local close_remote unfolding cleaning_def by blast
  obtain g where g: "uh_pc s g \<notin> {NotStarted, Finished}" using assms(2) by (auto simp: udp_finished_def)
  show ?thesis
  proof (cases "uh_pc s g")
    case Dial
    then show ?thesis using main_only [OF shape] dial_fails by blast
  next
    case ContextDone
    then show ?thesis using main_only [OF shape] context_done by blast
  next
    case WaitCopies
    then have m: "uh_pc s Main = WaitCopies" using main_only [OF shape] by blast
    show ?thesis
    proof (cases "uh_group s = 0")
      case False
      then have "(uh_pc s Upward = Copying \<or> uh_pc s Upward = LeaveGroup) \<or> (uh_pc s Downward = Copying \<or> uh_pc s Downward = LeaveGroup)"
        using group by (auto simp: group_ok_def in_group_def split: if_splits)
      then show ?thesis using copy_ends leave_group by blast
    qed (use m copies_done in blast)
  next
    case OnceDo
    show ?thesis
    proof (cases "uh_once s")
      case (ORunning h)
      then show ?thesis using once clean [of h] by (simp add: once_ok_def)
    qed (use OnceDo once_first once_later in blast)+
  next
    case Copying
    then show ?thesis using copy_ends by blast
  next
    case LeaveGroup
    then show ?thesis using leave_group by blast
  qed (use g clean [of g] in auto)
qed

subsection \<open>The handlers end, and close each end once\<close>

text \<open> C28. A UDP connection in any interleaving of its three goroutines, with others that may drop its tracker from the table
  of open connections: no run is longer than the 20 steps, a run that cannot go on is finished, and then the handler has closed the
  connection of the client exactly once, called \<open>Close\<close> of the tracker exactly once if there is one, and released the context
  exactly once; before that it did none of this twice. The call for the tracker closed the dialled connection twice, or once
  when the tracker had been dropped.\<close>

theorem udp_handler_ends:
  assumes "(udp_step ^^ n) udp_start s"
  shows "n \<le> 20 \<and> uh_ctCloses s \<le> 1 \<and> uh_lcCloses s \<le> 1 \<and> uh_contextDone s \<le> 1 \<and>
    ((\<nexists>t. udp_step s t) \<longrightarrow>
      udp_finished s \<and> uh_ctCloses s = 1 \<and> uh_lcCloses s = of_bool (uh_lc s) \<and> uh_contextDone s = 1 \<and>
      uh_dialledCloses s = (if \<not> uh_lc s then 0 else if uh_entry s = Dropped then 1 else 2))"
proof -
  have inv: "udp_inv s" using udp_inv_steps [OF relpowp_imp_rtranclp [OF assms] udp_inv_start] .
  have n: "n \<le> 20" using steps_bounded [OF assms] by (simp add: udp_rest_def udp_start_def)
  have le: "uh_ctCloses s \<le> 1 \<and> uh_lcCloses s \<le> 1 \<and> uh_contextDone s \<le> 1"
    using inv by (auto simp: udp_inv_def once_ok_def group_ok_def split: once.splits)
  have "udp_finished s \<and> uh_ctCloses s = 1 \<and> uh_lcCloses s = of_bool (uh_lc s) \<and> uh_contextDone s = 1 \<and>
      uh_dialledCloses s = (if \<not> uh_lc s then 0 else if uh_entry s = Dropped then 1 else 2)" if "\<nexists>t. udp_step s t"
  proof -
    have f: "udp_finished s" using udp_progress [OF inv] that by blast
    then have "uh_pc s Main \<in> {NotStarted, Finished}" by (simp add: udp_finished_def)
    then have m: "uh_pc s Main = Finished" using inv by (auto simp: udp_inv_def shape_ok_def)
    have "\<not> cleaning (uh_pc s h)" for h
    proof -
      have "uh_pc s h = NotStarted \<or> uh_pc s h = Finished" using f by (simp add: udp_finished_def)
      then show ?thesis by auto
    qed
    then have "uh_once s = ODone" using inv m by (auto simp: udp_inv_def once_ok_def split: once.splits)
    then show ?thesis using f inv m by (auto simp: udp_inv_def once_ok_def group_ok_def entry_ok_def)
  qed
  with n le show ?thesis by blast
qed

text \<open>The run of a connection that cannot be dialled.\<close>

theorem udp_handler_ends_witness:
  "\<exists>s. (udp_step ^^ 4) udp_start s \<and> (\<nexists>t. udp_step s t) \<and> udp_finished s \<and> uh_ctCloses s = 1 \<and> uh_lcCloses s = 0 \<and> uh_dialledCloses s = 0"
proof -
  define s1 where "s1 = udp_start\<lparr>uh_pc := (uh_pc udp_start)(Main := ContextDone)\<rparr>"
  define s2 where "s2 = s1\<lparr>uh_pc := (uh_pc s1)(Main := OnceDo), uh_contextDone := uh_contextDone s1 + 1\<rparr>"
  define s3 where "s3 = s2\<lparr>uh_pc := (uh_pc s2)(Main := if uh_lc s2 then CloseLocal else CloseRemote), uh_once := ORunning Main\<rparr>"
  define s4 where "s4 = s3\<lparr>uh_pc := (uh_pc s3)(Main := Finished), uh_ctCloses := uh_ctCloses s3 + 1, uh_once := ODone\<rparr>"
  have "udp_step udp_start s1" unfolding s1_def by (rule dial_fails) (simp add: udp_start_def)
  moreover have "udp_step s1 s2" unfolding s2_def by (rule context_done) (simp add: s1_def)
  moreover have "udp_step s2 s3" unfolding s3_def by (rule once_first) (simp_all add: s1_def s2_def udp_start_def)
  moreover have "udp_step s3 s4" unfolding s4_def by (rule close_remote) (simp add: s1_def s2_def s3_def udp_start_def)
  ultimately have "(udp_step ^^ Suc (Suc (Suc (Suc 0)))) udp_start s4" by (blast intro: relpowp_Suc_I relpowp_0_I)
  moreover have "(4::nat) = Suc (Suc (Suc (Suc 0)))" by simp
  ultimately have run: "(udp_step ^^ 4) udp_start s4" by (simp only:)
  have "\<not> udp_step s4 t" for t by (auto elim!: from_udp_step simp: s1_def s2_def s3_def s4_def udp_start_def split: if_splits)
  moreover have "\<not> uh_lc s4" by (simp add: s1_def s2_def s3_def s4_def udp_start_def)
  ultimately have "(\<nexists>t. udp_step s4 t) \<and> udp_finished s4 \<and> uh_ctCloses s4 = 1 \<and> uh_lcCloses s4 = 0 \<and> uh_dialledCloses s4 = 0"
    using udp_handler_ends [OF run] by simp
  with run show ?thesis by (intro exI [of _ s4]) blast
qed

subsection \<open>The TCP handler\<close>

definition tcp_rest :: "tcp_handler \<Rightarrow> nat" where
  "tcp_rest s = rest (th_pc s Main) + rest (th_pc s Upward) + rest (th_pc s Downward)"

definition tcp_inv :: "tcp_handler \<Rightarrow> bool" where
  "tcp_inv s \<longleftrightarrow>
     (\<forall>g \<in> {Upward, Downward}. if th_remote s then th_pc s g = Copying \<or> th_pc s g = LeaveGroup \<or> th_pc s g = Finished
        else th_pc s g = NotStarted) \<and>
     th_group s = in_group (th_pc s Upward) + in_group (th_pc s Downward) \<and>
     (case th_pc s Main of
        Dial \<Rightarrow> \<not> th_remote s \<and> th_contextDone s = 0 \<and> th_localCloses s = 0 \<and> th_remoteCloses s = 0
      | WaitCopies \<Rightarrow> th_remote s \<and> th_contextDone s = 0 \<and> th_localCloses s = 0 \<and> th_remoteCloses s = 0
      | ContextDone \<Rightarrow> th_group s = 0 \<and> th_contextDone s = 0 \<and> th_localCloses s = 0 \<and> th_remoteCloses s = 0
      | CloseLocal \<Rightarrow> th_group s = 0 \<and> th_contextDone s = 1 \<and> th_localCloses s = 0 \<and> th_remoteCloses s = 0
      | CloseRemote \<Rightarrow> th_remote s \<and> th_group s = 0 \<and> th_contextDone s = 1 \<and> th_localCloses s = 1 \<and> th_remoteCloses s = 0
      | Finished \<Rightarrow> th_group s = 0 \<and> th_contextDone s = 1 \<and> th_localCloses s = 1 \<and> th_remoteCloses s = of_bool (th_remote s)
      | _ \<Rightarrow> False)"

lemma tcp_step_inv: "tcp_step s t \<Longrightarrow> tcp_inv s \<Longrightarrow> tcp_inv t \<and> tcp_rest t < tcp_rest s"
proof (induction rule: tcp_step.induct)
  case (tcp_copy_ends s g)
  then show ?case by (cases g; cases "th_pc s Main") (auto simp: tcp_inv_def tcp_rest_def in_group_def)
next
  case (tcp_leave_group s g)
  then show ?case by (cases g; cases "th_pc s Main") (auto simp: tcp_inv_def tcp_rest_def in_group_def)
qed (auto simp: tcp_inv_def tcp_rest_def in_group_def)

lemma tcp_steps_inv: "(tcp_step ^^ n) s t \<Longrightarrow> tcp_inv s \<Longrightarrow> tcp_inv t \<and> n + tcp_rest t \<le> tcp_rest s"
proof (induction n arbitrary: t)
  case (Suc n)
  then obtain u where "(tcp_step ^^ n) s u" "tcp_step u t" by auto
  then show ?case using Suc.IH [of u] Suc.prems(2) tcp_step_inv [of u t] by simp
qed simp

lemma tcp_progress:
  assumes "tcp_inv s" and "\<not> tcp_finished s"
  shows "\<exists>t. tcp_step s t"
proof (cases "\<exists>g. th_pc s g = Copying \<or> th_pc s g = LeaveGroup")
  case True
  then show ?thesis using tcp_copy_ends tcp_leave_group by blast
next
  case False
  then have z: "th_group s = 0" and c: "th_pc s g = NotStarted \<or> th_pc s g = Finished" if "g \<noteq> Main" for g
    using assms(1) that by (cases g; auto simp: tcp_inv_def in_group_def split: if_splits)+
  have "th_pc s Main \<notin> {NotStarted, Finished}" using assms(2) c by (metis insertCI tcp_finished_def insertE singletonD)
  then show ?thesis using assms(1) z tcp_step.intros [of s] False
    by (cases "th_pc s Main") (auto simp: tcp_inv_def)
qed

text \<open>A TCP connection in any interleaving: every run is finite, a run that cannot go on is finished with each connection closed
  exactly once and the context released once; and as long as one of the two directions is still copied, neither connection
  is closed, even when the other direction has ended.\<close>

theorem tcp_handler_ends:
  assumes "(tcp_step ^^ n) tcp_start s"
  shows "n \<le> 20 \<and>
    ((\<nexists>t. tcp_step s t) \<longrightarrow>
      tcp_finished s \<and> th_localCloses s = 1 \<and> th_remoteCloses s = of_bool (th_remote s) \<and> th_contextDone s = 1) \<and>
    (\<forall>g. th_pc s g = Copying \<longrightarrow> th_localCloses s = 0 \<and> th_remoteCloses s = 0)"
proof -
  have start: "tcp_inv tcp_start" by (simp add: tcp_inv_def tcp_start_def in_group_def)
  have inv: "tcp_inv s" and "n + tcp_rest s \<le> tcp_rest tcp_start" using tcp_steps_inv [OF assms start] by auto
  then have n: "n \<le> 20" by (simp add: tcp_rest_def tcp_start_def)
  have still: "th_localCloses s = 0 \<and> th_remoteCloses s = 0" if "th_pc s g = Copying" for g
    using inv that by (cases g; cases "th_pc s Main") (auto simp: tcp_inv_def in_group_def split: if_splits)
  have "tcp_finished s \<and> th_localCloses s = 1 \<and> th_remoteCloses s = of_bool (th_remote s) \<and> th_contextDone s = 1"
    if "\<nexists>t. tcp_step s t"
  proof -
    have f: "tcp_finished s" using tcp_progress [OF inv] that by blast
    then have "th_pc s Main = NotStarted \<or> th_pc s Main = Finished" by (simp add: tcp_finished_def)
    then show ?thesis using f inv by (auto simp: tcp_inv_def)
  qed
  with n still show ?thesis by blast
qed

theorem tcp_handler_ends_witness:
  "\<exists>s. (tcp_step ^^ 2) tcp_start s \<and> th_pc s Upward = LeaveGroup \<and> th_pc s Downward = Copying \<and>
     th_localCloses s = 0 \<and> th_remoteCloses s = 0"
proof -
  define s1 where "s1 = tcp_start\<lparr>th_pc := (\<lambda>g. if g = Main then WaitCopies else Copying), th_remote := True, th_group := 2\<rparr>"
  define s2 where "s2 = s1\<lparr>th_pc := (th_pc s1)(Upward := LeaveGroup)\<rparr>"
  have "tcp_step tcp_start s1" unfolding s1_def by (rule tcp_dial_works) (simp add: tcp_start_def)
  moreover have "tcp_step s1 s2" unfolding s2_def by (rule tcp_copy_ends) (simp add: s1_def)
  ultimately have "(tcp_step ^^ Suc (Suc 0)) tcp_start s2" by (blast intro: relpowp_Suc_I relpowp_0_I)
  then have run: "(tcp_step ^^ 2) tcp_start s2" by (simp only: numeral_2_eq_2)
  have pcs: "th_pc s2 Upward = LeaveGroup \<and> th_pc s2 Downward = Copying" by (simp add: s1_def s2_def)
  then have "th_localCloses s2 = 0 \<and> th_remoteCloses s2 = 0" using tcp_handler_ends [OF run] by blast
  with run pcs show ?thesis by (intro exI [of _ s2]) blast
qed

subsection \<open>The local server\<close>

text \<open> C29. Whatever arrives, no UDP packet of the local server is ever served: at most 16 of them wait in the channel for ever, and
  from then on every packet is dropped.\<close>

theorem local_udp_never_served:
  assumes "local_step\<^sup>*\<^sup>* local_start s"
  shows "lq_udpServed s = [] \<and> length (lq_udpIn s) \<le> channel_size \<and>
    (\<forall>t. local_step s t \<longrightarrow> length (lq_udpIn s) = channel_size \<longrightarrow> lq_udpIn t = lq_udpIn s)"
proof -
  have inv: "lq_udpServed s = [] \<and> length (lq_udpIn s) \<le> channel_size \<and> lq_pc s = RangeTcp \<and> \<not> lq_tcpClosed s"
    using assms
  proof (induction rule: rtranclp_induct)
    case base
    show ?case by (simp add: local_start_def)
  next
    case (step s t)
    then show ?case by (auto elim!: from_local_step)
  qed
  then show ?thesis by (auto elim: from_local_step)
qed

theorem local_udp_never_served_witness:
  "\<exists>s. local_step\<^sup>*\<^sup>* (local_start :: nat local_queues) s \<and> lq_udpIn s = [7] \<and> lq_udpServed s = []"
proof -
  have s: "local_step (local_start :: nat local_queues) (local_start\<lparr>lq_udpIn := lq_udpIn local_start @ [7]\<rparr>)"
    by (rule udp_accepted) (simp add: local_start_def channel_size_def)
  then show ?thesis using local_udp_never_served [of "local_start\<lparr>lq_udpIn := lq_udpIn local_start @ [7]\<rparr>"] r_into_rtranclp [of local_step, OF s]
    by (auto simp: local_start_def)
qed

end
