(* ===== verification/Hashing.thy ===== *)
theory Hashing
  imports GoNet Complex_Main
begin

text \<open>
  The two hash functions of load balancing: murmur3 on 32 bits (\<open>src/pkg/clash/common/murmur3/\<close>), in one call and
  as a digest that is fed in pieces, and the jump consistent hash of
  \<open>src/pkg/clash/adapter/outboundgroup/loadbalance.go\<close> with its double-precision arithmetic. Blocks are read as the
  little-endian words that the unsafe pointer gives on the machines the program is built for.
\<close>

subsection \<open>murmur3\<close>

definition c1_32 :: u32 where "c1_32 = 0xcc9e2d51"
definition c2_32 :: u32 where "c2_32 = 0x1b873593"

definition mix_k1 :: "u32 \<Rightarrow> u32" where
  "mix_k1 k1 = word_rotl 15 (k1 * c1_32) * c2_32"

definition mix_h1 :: "u32 \<Rightarrow> u32 \<Rightarrow> u32" where
  "mix_h1 h1 k1 = (let h = word_rotl 13 (xor h1 k1) in h * 4 + h + 0xe6546b64)"

text \<open>The blocks of \<open>bmix\<close> and of the loop of \<open>Sum32WithSeed\<close>, and the bytes that are left.\<close>

fun bmix :: "u32 \<Rightarrow> u8 list \<Rightarrow> u32 \<times> u8 list" where
  "bmix h1 (a # b # c # d # p) = bmix (mix_h1 h1 (mix_k1 (u32_of_bytes d c b a))) p"
| "bmix h1 p = (h1, p)"

definition mix_tail :: "u32 \<Rightarrow> u8 list \<Rightarrow> u32" where
  "mix_tail h1 tail =
     (case tail of
        [a, b, c] \<Rightarrow> xor h1 (mix_k1 (xor (xor (push_bit 16 (ucast c)) (push_bit 8 (ucast b))) (ucast a)))
      | [a, b] \<Rightarrow> xor h1 (mix_k1 (xor (push_bit 8 (ucast b)) (ucast a)))
      | [a] \<Rightarrow> xor h1 (mix_k1 (ucast a))
      | _ \<Rightarrow> h1)"

definition fmix :: "u32 \<Rightarrow> u32" where
  "fmix h1 =
     (let h1 = xor h1 (drop_bit 16 h1); h1 = h1 * 0x85ebca6b; h1 = xor h1 (drop_bit 13 h1);
          h1 = h1 * 0xc2b2ae35 in xor h1 (drop_bit 16 h1))"

definition Sum32WithSeed :: "u8 list \<Rightarrow> u32 \<Rightarrow> u32" where
  "Sum32WithSeed data seed =
     (case bmix seed data of (h1, tail) \<Rightarrow> fmix (xor (mix_tail h1 tail) (of_nat (length data))))"

definition murmur_Sum32 :: "u8 list \<Rightarrow> u32" where
  "murmur_Sum32 data = Sum32WithSeed data 0"

record digest32 =
  dg_clen :: nat
  dg_tail :: "u8 list"
  dg_seed :: u32
  dg_h1 :: u32

definition New32WithSeed :: "u32 \<Rightarrow> digest32" where
  "New32WithSeed seed = \<lparr>dg_clen = 0, dg_tail = [], dg_seed = seed, dg_h1 = seed\<rparr>"

definition Digest_Reset :: "digest32 \<Rightarrow> digest32" where
  "Digest_Reset d = d\<lparr>dg_clen := 0, dg_tail := [], dg_h1 := dg_seed d\<rparr>"

definition Digest_Write :: "u8 list \<Rightarrow> digest32 \<Rightarrow> digest32" where
  "Digest_Write p d =
     (let nfree = 4 - length (dg_tail d);
          (h1, p1) =
            (if length (dg_tail d) > 0 then
               (if nfree < length p
                then (fst (bmix (dg_h1 d) (dg_tail d @ take nfree p)), drop nfree p)
                else (dg_h1 d, dg_tail d @ p))
             else (dg_h1 d, p));
          (h2, tail) = bmix h1 p1
      in d\<lparr>dg_clen := dg_clen d + length p, dg_tail := tail, dg_h1 := h2\<rparr>)"

definition Digest_Sum32 :: "digest32 \<Rightarrow> u32" where
  "Digest_Sum32 d = fmix (xor (mix_tail (dg_h1 d) (dg_tail d)) (of_nat (dg_clen d)))"

lemma bmix_append: "bmix h (xs @ ys) = (case bmix h xs of (h', t) \<Rightarrow> bmix h' (t @ ys))"
  by (induction h xs rule: bmix.induct) (simp_all split: prod.splits)

lemma bmix_short: "length p < 4 \<Longrightarrow> bmix h p = (h, p)"
  by (induction h p rule: bmix.induct) simp_all

lemma bmix_tail: "bmix h p = (h', t) \<Longrightarrow> length t < 4"
  by (induction h p rule: bmix.induct) auto

lemma bmix_block: "length p = 4 \<Longrightarrow> snd (bmix h p) = []"
  by (induction h p rule: bmix.induct) auto

text \<open>The digest after some bytes: its state is that of the blocks of all of them together.\<close>

definition digest_of :: "u32 \<Rightarrow> u8 list \<Rightarrow> digest32 \<Rightarrow> bool" where
  "digest_of seed xs d \<longleftrightarrow> bmix seed xs = (dg_h1 d, dg_tail d) \<and> dg_clen d = length xs"

lemma Write_at_once:
  assumes "length (dg_tail d) < 4"
  shows "Digest_Write p d = (case bmix (dg_h1 d) (dg_tail d @ p) of
    (h, tail) \<Rightarrow> d\<lparr>dg_clen := dg_clen d + length p, dg_tail := tail, dg_h1 := h\<rparr>)"
proof (cases "length (dg_tail d) > 0 \<and> 4 - length (dg_tail d) < length p")
  case True
  let ?n = "4 - length (dg_tail d)" and ?block = "dg_tail d @ take (4 - length (dg_tail d)) p"
  have "length ?block = 4" using True assms by simp
  then have "snd (bmix (dg_h1 d) ?block) = []" by (rule bmix_block)
  then obtain h where h: "bmix (dg_h1 d) ?block = (h, [])" by (metis prod.collapse)
  have "dg_tail d @ p = ?block @ drop ?n p" by simp
  also have "bmix (dg_h1 d) (?block @ drop ?n p) = bmix h (drop ?n p)"
    unfolding bmix_append [of "dg_h1 d" ?block] h by simp
  finally have "bmix (dg_h1 d) (dg_tail d @ p) = bmix (fst (bmix (dg_h1 d) ?block)) (drop ?n p)" by (simp only: h fst_conv)
  then show ?thesis using True by (simp add: Digest_Write_def Let_def)
next
  case False
  then consider "dg_tail d = []" | "0 < length (dg_tail d)" "\<not> 4 - length (dg_tail d) < length p" by auto
  then show ?thesis by cases (simp_all add: Digest_Write_def Let_def)
qed

lemma Write_digest:
  assumes "digest_of seed xs d"
  shows "digest_of seed (xs @ p) (Digest_Write p d)"
proof -
  have b: "bmix seed xs = (dg_h1 d, dg_tail d)" and c: "dg_clen d = length xs" using assms by (simp_all add: digest_of_def)
  have "bmix seed (xs @ p) = bmix (dg_h1 d) (dg_tail d @ p)" unfolding bmix_append [of seed xs] b by simp
  moreover obtain h t where "bmix (dg_h1 d) (dg_tail d @ p) = (h, t)" by (rule prod.exhaust)
  ultimately show ?thesis by (simp add: digest_of_def Write_at_once [OF bmix_tail [OF b]] c)
qed

text \<open>The digest fed in pieces, of whatever sizes, gives the same sum as one call on all the bytes.\<close>

theorem digest_equals_sum: "Digest_Sum32 (fold Digest_Write ps (New32WithSeed seed)) = Sum32WithSeed (concat ps) seed"
proof -
  have "digest_of seed (xs @ concat ps) (fold Digest_Write ps d)" if "digest_of seed xs d" for xs d
    using that by (induction ps arbitrary: xs d) (simp_all, metis Write_digest append.assoc)
  moreover have "digest_of seed [] (New32WithSeed seed)" by (simp add: digest_of_def New32WithSeed_def)
  ultimately have "digest_of seed (concat ps) (fold Digest_Write ps (New32WithSeed seed))" by (metis append_Nil)
  then show ?thesis by (simp add: digest_of_def Digest_Sum32_def Sum32WithSeed_def)
qed

subsection \<open>Double-precision arithmetic\<close>

text \<open>
  The numbers that \<open>jumpHash\<close> computes with are at least 1 and at most 2 to the 62, so normal doubles: 53
  significant bits, rounded to the nearest with ties to even.
\<close>

fun log2 :: "nat \<Rightarrow> nat" where
  "log2 n = (if n < 2 then 0 else Suc (log2 (n div 2)))"

declare log2.simps [simp del]

lemma log2_bounds: "0 < n \<Longrightarrow> 2 ^ log2 n \<le> n \<and> n < 2 ^ Suc (log2 n)"
proof (induction n rule: log2.induct)
  case (1 n)
  then show ?case by (subst (1 2) log2.simps) (auto simp: not_less)
qed

definition round_even :: "rat \<Rightarrow> int" where
  "round_even y =
     (let f = \<lfloor>y\<rfloor>; r = y - of_int f in
      if r < 1 / 2 then f else if r > 1 / 2 then f + 1 else if even f then f else f + 1)"

text \<open>The distance of two doubles near \<open>x\<close>.\<close>

definition ulp :: "rat \<Rightarrow> rat" where
  "ulp x = 2 ^ log2 (nat \<lfloor>x\<rfloor>) / 2 ^ 52"

definition fl :: "rat \<Rightarrow> rat" where
  "fl x = of_int (round_even (x / ulp x)) * ulp x"

definition float64 :: "int \<Rightarrow> rat" where
  "float64 n = fl (of_int n)"

lemma round_even_ge: "of_int n \<le> y \<Longrightarrow> n \<le> round_even y"
  using le_floor_iff [of n y] by (auto simp: round_even_def Let_def)

lemma round_even_int [simp]: "round_even (of_int n) = n"
  by (simp add: round_even_def)

lemma ulp_pos: "0 < ulp x"
  by (simp add: ulp_def)

lemma fl_exact:
  assumes "of_int k = x / ulp x"
  shows "fl x = x"
  using ulp_pos [of x] by (simp add: fl_def flip: assms) (simp add: assms)

lemma fl_ge:
  assumes "of_int k * ulp x \<le> x"
  shows "of_int k * ulp x \<le> fl x"
proof -
  have "of_int k \<le> x / ulp x" using assms ulp_pos [of x] by (simp add: pos_le_divide_eq)
  then have "k \<le> round_even (x / ulp x)" by (rule round_even_ge)
  then show ?thesis using ulp_pos [of x] by (simp add: fl_def)
qed

text \<open>Rounding keeps an integer of at most 52 bits below a number below it.\<close>

lemma fl_ge_int:
  assumes "of_int n \<le> x" and "1 \<le> n" and "n \<le> 2 ^ 52"
  shows "of_int n \<le> fl x"
proof (cases "log2 (nat \<lfloor>x\<rfloor>) \<le> 52")
  case True
  let ?e = "log2 (nat \<lfloor>x\<rfloor>)"
  have "of_int (n * 2 ^ (52 - ?e)) * ulp x = of_int n * (2 ^ (52 - ?e) * 2 ^ ?e / 2 ^ 52)" by (simp add: ulp_def)
  also have "\<dots> = of_int n" using True by (simp flip: power_add)
  finally have "of_int (n * 2 ^ (52 - ?e)) * ulp x = of_int n" .
  then show ?thesis using fl_ge [of "n * 2 ^ (52 - ?e)" x] assms(1) by (simp only:)
next
  case False
  let ?e = "log2 (nat \<lfloor>x\<rfloor>)"
  have x: "1 \<le> x" using assms(1,2) by (meson of_int_1_le_iff order_trans)
  then have "0 < nat \<lfloor>x\<rfloor>" by simp
  from log2_bounds [OF this] have "2 ^ ?e \<le> nat \<lfloor>x\<rfloor>" by blast
  then have "(2::int) ^ ?e \<le> \<lfloor>x\<rfloor>" using x by (simp add: nat_le_iff zless_nat_eq_int_zless le_nat_iff)
  then have "(2::rat) ^ ?e \<le> x" by (simp add: le_floor_iff)
  moreover have e: "of_int (2 ^ 52) * ulp x = 2 ^ ?e" by (simp add: ulp_def)
  ultimately have "2 ^ ?e \<le> fl x" using fl_ge [of "2 ^ 52" x] by simp
  moreover have "(2::rat) ^ 52 \<le> 2 ^ ?e" using False by (intro power_increasing) auto
  moreover have "of_int n \<le> (2::rat) ^ 52" using assms(3) by (metis of_int_le_iff of_int_numeral of_int_power)
  ultimately show ?thesis by linarith
qed

lemma fl_int:
  assumes "1 \<le> n" and "n \<le> 2 ^ 52"
  shows "fl (of_int n) = of_int n"
proof (rule fl_exact)
  let ?e = "log2 (nat n)"
  have "0 < nat n" using assms(1) by simp
  from log2_bounds [OF this] have "2 ^ ?e \<le> nat n" by blast
  moreover have "nat n \<le> 2 ^ 52" using assms(2) by (simp add: nat_le_iff)
  ultimately have "2 ^ ?e \<le> (2::nat) ^ 52" by (rule order_trans)
  then have "?e \<le> 52" using power_le_imp_le_exp [of "2::nat" ?e 52] by simp
  then show "of_int (n * 2 ^ (52 - ?e)) = of_int n / ulp (of_int n)"
    by (simp add: ulp_def field_simps flip: power_add)
qed

subsection \<open>The jump hash (loadbalance.go)\<close>

definition jump_key :: "64 word \<Rightarrow> 64 word" where
  "jump_key key = key * 2862933555777941757 + 1"

text \<open>The next bucket after \<open>b\<close>: the conversion to an integer truncates.\<close>

definition jump_next :: "int \<Rightarrow> 64 word \<Rightarrow> int" where
  "jump_next b key =
     \<lfloor>fl (float64 (b + 1) * fl (float64 (2 ^ 31) / float64 (uint (drop_bit 33 key + 1))))\<rfloor>"

partial_function (option) jump_loop :: "int \<Rightarrow> 64 word \<Rightarrow> int \<Rightarrow> int \<Rightarrow> int option" where
  "jump_loop buckets key b j =
     (if j < buckets then jump_loop buckets (jump_key key) j (jump_next j (jump_key key)) else Some b)"

definition jumpHash :: "64 word \<Rightarrow> int \<Rightarrow> int option" where
  "jumpHash key buckets = jump_loop buckets key 0 0"

lemma jump_next_greater:
  assumes "0 \<le> b" and "b < 2 ^ 31"
  shows "b < jump_next b key"
proof -
  let ?m = "uint (drop_bit 33 key + 1)"
  have d: "uint (drop_bit 33 key) < 2 ^ 31"
  proof -
    have "uint key < 2 ^ 64" using uint_lt2p [of key] by simp
    then have "uint key div 2 ^ 33 < 2 ^ 31" by simp
    then show ?thesis by (simp add: drop_bit_eq_div uint_div_distrib)
  qed
  then have m: "1 \<le> ?m" "?m \<le> 2 ^ 31" by (simp_all add: uint_word_ariths)
  have fm: "float64 ?m = of_int ?m" "float64 (2 ^ 31) = 2 ^ 31" "float64 (b + 1) = of_int (b + 1)"
    using m assms fl_int [of ?m] fl_int [of "2 ^ 31"] fl_int [of "b + 1"] by (simp_all add: float64_def)
  have "of_int 1 \<le> (2 ^ 31 / of_int k :: rat)" if "1 \<le> k" "k \<le> 2 ^ 31" for k :: int
  proof -
    have "(0::rat) < of_int k" using that by simp
    moreover have "of_int k \<le> (of_int (2 ^ 31) :: rat)" using that by (simp only: of_int_le_iff)
    ultimately show ?thesis by (simp add: pos_le_divide_eq)
  qed
  from this [OF m] have "of_int 1 \<le> (2 ^ 31 / of_int ?m :: rat)" .
  then have q: "1 \<le> fl (2 ^ 31 / of_int ?m)" using fl_ge_int [of 1] by simp
  have "of_int (b + 1) \<le> of_int (b + 1) * fl (2 ^ 31 / of_int ?m)" using q assms(1) by (simp add: mult_le_cancel_left1)
  then have "of_int (b + 1) \<le> fl (of_int (b + 1) * fl (2 ^ 31 / of_int ?m))" by (rule fl_ge_int) (use assms in auto)
  then have "b + 1 \<le> jump_next b key" unfolding jump_next_def fm by (simp only: le_floor_iff)
  then show ?thesis by simp
qed

lemma jump_loop_returns:
  assumes "0 \<le> b" and "b < n" and "0 \<le> j" and "n < 2 ^ 31"
  shows "\<exists>v. jump_loop n key b j = Some v \<and> 0 \<le> v \<and> v < n"
  using assms
proof (induction "nat (n - j)" arbitrary: key b j rule: less_induct)
  case less
  show ?case
  proof (cases "j < n")
    case True
    have step: "j < jump_next j (jump_key key)" using less.prems True by (intro jump_next_greater) auto
    then have "nat (n - jump_next j (jump_key key)) < nat (n - j)" using True by linarith
    from less.hyps [OF this, of j "jump_key key"] step less.prems True show ?thesis
      by (subst jump_loop.simps) simp
  next
    case False
    then show ?thesis using less.prems by (subst jump_loop.simps) simp
  qed
qed

text \<open>With one more bucket a key stays where it is or moves to the new one.\<close>

lemma jump_loop_moves:
  assumes "0 \<le> b" and "0 \<le> j" and "n + 1 < 2 ^ 31"
  shows "jump_loop (n + 1) key b j = jump_loop n key b j \<or> jump_loop (n + 1) key b j = Some n"
  using assms
proof (induction "nat (n - j)" arbitrary: key b j rule: less_induct)
  case less
  have step: "j < jump_next j (jump_key key)" if "j \<le> n" using less.prems that by (intro jump_next_greater) auto
  consider "j < n" | "j = n" | "n < j" by linarith
  then show ?case
  proof cases
    case 1
    then have "nat (n - jump_next j (jump_key key)) < nat (n - j)" using step by linarith
    from less.hyps [OF this, of j "jump_key key"] step less.prems 1 show ?thesis
      unfolding jump_loop.simps [of "n + 1" key b j] jump_loop.simps [of n key b j] by simp
  next
    case 2
    then have "\<not> jump_next n (jump_key key) < n + 1" using step by simp
    then have "jump_loop (n + 1) (jump_key key) n (jump_next n (jump_key key)) = Some n"
      by (subst jump_loop.simps) simp
    then show ?thesis unfolding jump_loop.simps [of "n + 1" key b j] using 2 by simp
  next
    case 3
    then show ?thesis unfolding jump_loop.simps [of "n + 1" key b j] jump_loop.simps [of n key b j] by simp
  qed
qed

lemma jumpHash_returns:
  assumes "0 < n" and "n < 2 ^ 31"
  shows "\<exists>v. jumpHash key n = Some v \<and> 0 \<le> v \<and> v < n"
  unfolding jumpHash_def by (rule jump_loop_returns) (use assms in auto)

lemma jumpHash_moves:
  assumes "n + 1 < 2 ^ 31"
  shows "jumpHash key (n + 1) = jumpHash key n \<or> jumpHash key (n + 1) = Some n"
  unfolding jumpHash_def by (rule jump_loop_moves) (use assms in auto)

end
