(* ===== verification/Singledo.thy ===== *)
theory Singledo
  imports Main
begin

text \<open>
  Two small data structures of \<open>src/pkg/clash/common/\<close>: the queue of the delay history (\<open>queue/queue.go\<close>) and the call that
  runs once at a time (\<open>singledo/singledo.go\<close>). Times are nanoseconds since the zero time of Go; \<open>None\<close> is a panic or an
  endless wait.
\<close>

subsection \<open>A queue (queue.go)\<close>

definition Queue_Put :: "'a list \<Rightarrow> 'a list \<Rightarrow> 'a list" where
  "Queue_Put xs q = (if xs = [] then q else q @ xs)"

definition Queue_Pop :: "'a list \<Rightarrow> 'a option \<times> 'a list" where
  "Queue_Pop q = (case q of [] \<Rightarrow> (None, []) | x # q' \<Rightarrow> (Some x, q'))"

definition Queue_Last :: "'a list \<Rightarrow> 'a option" where
  "Queue_Last q = (if q = [] then None else Some (q ! (length q - 1)))"

definition Queue_Len :: "'a list \<Rightarrow> nat" where
  "Queue_Len q = length q"

definition Queue_Copy :: "'a list \<Rightarrow> 'a list" where
  "Queue_Copy q = q"

subsection \<open>One call at a time, with its result kept for a while (singledo.go)\<close>

record 'a single =
  sd_last :: int
  sd_wait :: int
  sd_call :: bool
  sd_result :: "'a option"

definition NewSingle :: "int \<Rightarrow> 'a single" where
  "NewSingle wait = \<lparr>sd_last = 0, sd_wait = wait, sd_call = False, sd_result = None\<rparr>"

text \<open>
  \<open>Do\<close> runs its function between two sections under the lock: it enters, gets the kept result, joins the call that
  runs or runs the function itself, and leaves with the result. The time is that of the entry.
\<close>

datatype 'a do_entry = Shared 'a | Joins | Runs

definition Do_enter :: "int \<Rightarrow> 'a single \<Rightarrow> ('a do_entry \<times> 'a single) option" where
  "Do_enter now s =
     (if now < sd_last s + sd_wait s
      then (case sd_result s of None \<Rightarrow> None | Some v \<Rightarrow> Some (Shared v, s))
      else if sd_call s then Some (Joins, s)
      else Some (Runs, s\<lparr>sd_call := True\<rparr>))"

definition Do_leave :: "int \<Rightarrow> 'a \<Rightarrow> 'a single \<Rightarrow> 'a single" where
  "Do_leave now v s = s\<lparr>sd_call := False, sd_result := Some v, sd_last := now\<rparr>"

definition Single_Reset :: "'a single \<Rightarrow> 'a single" where
  "Single_Reset s = s\<lparr>sd_last := 0\<rparr>"

text \<open>A whole call when no other runs; the function changes a state. One that joins itself never returns.\<close>

definition Single_Do ::
  "int \<Rightarrow> ('w \<Rightarrow> ('a \<times> 'w) option) \<Rightarrow> 'a single \<Rightarrow> 'w \<Rightarrow> ('a \<times> bool \<times> 'a single \<times> 'w) option" where
  "Single_Do now f s w =
     (case Do_enter now s of
        None \<Rightarrow> None
      | Some (Shared v, s') \<Rightarrow> Some (v, True, s', w)
      | Some (Joins, s') \<Rightarrow> None
      | Some (Runs, s') \<Rightarrow> (case f w of None \<Rightarrow> None | Some (v, w') \<Rightarrow> Some (v, False, Do_leave now v s', w')))"

end
