(* ===== verification/ProxyGroups.thy ===== *)
theory ProxyGroups
  imports Metadata Hashing Singledo "HOL-Library.Monad_Syntax"
begin

text \<open>
  Proxies with their liveness and delay history, the providers with their health check, and the proxy groups that
  choose among them (\<open>src/pkg/clash/adapter/\<close>: \<open>adapter.go\<close>, \<open>provider/\<close>, \<open>outboundgroup/\<close>). Proxies and providers are pointers that several groups share, so
  they live in the lists of a store and are named by their index. Times are nanoseconds since the zero time of Go.
  An operation that returns \<open>None\<close> panics or waits forever.
\<close>

subsection \<open>A proxy with its history (adapter.go)\<close>

record delay_history =
  dh_Time :: int
  dh_Delay :: u16
  dh_MeanDelay :: u16

text \<open>The types of adapters of the program: the numbers of \<open>constant/adapters.go\<close>, of which only the first matters.\<close>

type_synonym adapter_type = nat

definition Direct :: adapter_type where "Direct = 0"

record pnode =
  pn_Name :: string
  pn_Type :: adapter_type
  pn_Addr :: string
  pn_udp :: bool
  pn_alive :: bool
  pn_history :: "delay_history list"

definition NewProxy :: "string \<Rightarrow> adapter_type \<Rightarrow> string \<Rightarrow> bool \<Rightarrow> pnode" where
  "NewProxy name tp addr udp = \<lparr>pn_Name = name, pn_Type = tp, pn_Addr = addr, pn_udp = udp, pn_alive = True, pn_history = []\<rparr>"

text \<open>\<open>DialContext\<close> and \<open>ListenPacketContext\<close>: what the adapter returns decides whether the proxy is alive.\<close>

definition Proxy_DialContext :: "('e + 'c) \<Rightarrow> pnode \<Rightarrow> ('e + 'c) \<times> pnode" where
  "Proxy_DialContext r p = (r, p\<lparr>pn_alive := (case r of Inl _ \<Rightarrow> False | Inr _ \<Rightarrow> True)\<rparr>)"

definition Proxy_ListenPacketContext :: "('e + 'c) \<Rightarrow> pnode \<Rightarrow> ('e + 'c) \<times> pnode" where
  "Proxy_ListenPacketContext r p = (r, p\<lparr>pn_alive := (case r of Inl _ \<Rightarrow> False | Inr _ \<Rightarrow> True)\<rparr>)"

definition DelayHistory :: "pnode \<Rightarrow> delay_history list" where
  "DelayHistory p = Queue_Copy (pn_history p)"

definition LastDelay :: "pnode \<Rightarrow> u16" where
  "LastDelay p =
     (if \<not> pn_alive p then 0xffff
      else case Queue_Last (pn_history p) of
        None \<Rightarrow> 0xffff
      | Some h \<Rightarrow> if dh_Delay h = 0 then 0xffff else dh_Delay h)"

text \<open>
  The target of a delay test: scheme, host name and port text of the parsed URL. \<open>strconv.ParseUint\<close> returns the
  largest value with its range error and 0 with its syntax error, and the error is dropped.
\<close>

record test_url =
  tu_Scheme :: string
  tu_Hostname :: string
  tu_Port :: string

definition parse_port :: "string \<Rightarrow> port" where
  "parse_port s = (if s \<noteq> [] \<and> list_all is_digit s then of_nat (min (dec_nat s) 65535) else 0)"

definition target_metadata :: "string \<Rightarrow> go_ip \<Rightarrow> port \<Rightarrow> metadata" where
  "target_metadata host ip p =
     \<lparr>NetWork = TCP, ConnType = 0, SrcIP = [], DstIP = ip, SrcPort = 0, DstPort = p, Host = host, DNSMode = 0,
      ProcessPath = [], SpecialProxy = [], OriginDst = None\<rparr>"

definition urlToMetadata :: "(string \<Rightarrow> test_url option) \<Rightarrow> string \<Rightarrow> metadata option" where
  "urlToMetadata url_Parse rawURL =
     (case url_Parse rawURL of
        None \<Rightarrow> None
      | Some u \<Rightarrow>
          if tu_Port u = [] then
            (if tu_Scheme u = ''https'' then Some (target_metadata (tu_Hostname u) [] (parse_port ''443''))
             else if tu_Scheme u = ''http'' then Some (target_metadata (tu_Hostname u) [] (parse_port ''80''))
             else None)
          else Some (target_metadata (tu_Hostname u) [] (parse_port (tu_Port u))))"

text \<open>\<open>addrToMetadata\<close> of \<open>outboundgroup/util.go\<close>, for the next hop of a relay.\<close>

definition addrToMetadata :: "string \<Rightarrow> metadata option" where
  "addrToMetadata rawAddress =
     (case SplitHostPort rawAddress of
        None \<Rightarrow> None
      | Some (host, port) \<Rightarrow>
          let ip = ParseIP host; p = parse_port port in
          if ip = [] then Some (target_metadata host [] p)
          else if To4 ip \<noteq> [] then Some (target_metadata [] (To4 ip) p)
          else Some (target_metadata [] ip p))"

text \<open>
  What happens in a delay test: the dialling, the making of the request, and the milliseconds since the start at
  which each of the two responses is there, if it comes.
\<close>

record test_run =
  tr_dial :: bool
  tr_request :: bool
  tr_first :: "nat option"
  tr_second :: "nat option"
  tr_end :: int

definition test_outcome :: "metadata option \<Rightarrow> test_run \<Rightarrow> (u16 \<times> u16) option" where
  "test_outcome a r =
     (case a of
        None \<Rightarrow> None
      | Some _ \<Rightarrow>
          if \<not> tr_dial r then None else if \<not> tr_request r then None
          else case tr_first r of
            None \<Rightarrow> None
          | Some t \<Rightarrow>
              (case tr_second r of
                 None \<Rightarrow> Some (of_nat t, 0)
               | Some t2 \<Rightarrow> Some (of_nat t, of_nat (t2 div 2))))"

definition Proxy_URLTest :: "(string \<Rightarrow> test_url option) \<Rightarrow> string \<Rightarrow> test_run \<Rightarrow> pnode \<Rightarrow> (u16 \<times> u16) option \<times> pnode" where
  "Proxy_URLTest url_Parse url r p =
     (let a = urlToMetadata url_Parse url;
          p1 = (if a = None then p else snd (Proxy_DialContext (if tr_dial r then Inr () else Inl ()) p));
          res = test_outcome a r;
          record = (case res of
              None \<Rightarrow> \<lparr>dh_Time = tr_end r, dh_Delay = 0, dh_MeanDelay = 0\<rparr>
            | Some (delay, meanDelay) \<Rightarrow> \<lparr>dh_Time = tr_end r, dh_Delay = delay, dh_MeanDelay = meanDelay\<rparr>);
          q = Queue_Put [record] (pn_history p1);
          q' = (if Queue_Len q > 10 then snd (Queue_Pop q) else q)
      in (res, p1\<lparr>pn_alive := (res \<noteq> None), pn_history := q'\<rparr>))"

subsection \<open>Providers and their health check (provider.go, healthcheck.go)\<close>

definition Unix :: "int \<Rightarrow> int" where
  "Unix t = t div 1000000000 - 62135596800"

record health_check =
  hc_url :: string
  hc_proxies :: "nat list"
  hc_interval :: nat
  hc_lazy :: bool
  hc_lastTouch :: int

definition NewHealthCheck :: "nat list \<Rightarrow> string \<Rightarrow> nat \<Rightarrow> bool \<Rightarrow> health_check" where
  "NewHealthCheck ps url interval lazy =
     \<lparr>hc_url = url, hc_proxies = ps, hc_interval = interval, hc_lazy = lazy, hc_lastTouch = 0\<rparr>"

definition hc_auto :: "health_check \<Rightarrow> bool" where
  "hc_auto hc \<longleftrightarrow> hc_interval hc \<noteq> 0"

definition hc_touch :: "int \<Rightarrow> health_check \<Rightarrow> health_check" where
  "hc_touch now hc = hc\<lparr>hc_lastTouch := Unix now\<rparr>"

datatype vehicle = VFile | VHTTP | VCompatible

text \<open>A filtering provider has other providers, the regular expression and its \<open>Single\<close>.\<close>

record proxy_filter =
  pf_providers :: "nat list"
  pf_reg :: "string \<Rightarrow> bool"
  pf_single :: "nat list single"

record provider =
  pv_name :: string
  pv_VehicleType :: vehicle
  pv_proxies :: "nat list"
  pv_healthCheck :: health_check
  pv_filter :: "proxy_filter option"

text \<open>The store; the last field is the proxy that a filtering provider falls back on.\<close>

record store =
  st_proxies :: "pnode list"
  st_providers :: "provider list"
  st_reject :: nat

abbreviation px :: "store \<Rightarrow> nat \<Rightarrow> pnode" where "px w p \<equiv> st_proxies w ! p"
abbreviation pv :: "store \<Rightarrow> nat \<Rightarrow> provider" where "pv w i \<equiv> st_providers w ! i"

definition set_px :: "nat \<Rightarrow> pnode \<Rightarrow> store \<Rightarrow> store" where
  "set_px p n w = w\<lparr>st_proxies := (st_proxies w)[p := n]\<rparr>"

definition set_pv :: "nat \<Rightarrow> provider \<Rightarrow> store \<Rightarrow> store" where
  "set_pv i n w = w\<lparr>st_providers := (st_providers w)[i := n]\<rparr>"

definition touch_plain :: "int \<Rightarrow> nat \<Rightarrow> store \<Rightarrow> store" where
  "touch_plain now i w = set_pv i ((pv w i)\<lparr>pv_healthCheck := hc_touch now (pv_healthCheck (pv w i))\<rparr>) w"

text \<open>The providers below a filtering one are never filtering ones: \<open>getProviders\<close> refuses them.\<close>

definition Provider_Touch :: "int \<Rightarrow> nat \<Rightarrow> store \<Rightarrow> store" where
  "Provider_Touch now i w =
     (case pv_filter (pv w i) of
        None \<Rightarrow> touch_plain now i w
      | Some f \<Rightarrow> fold (touch_plain now) (pf_providers f) w)"

definition filtered :: "proxy_filter \<Rightarrow> store \<Rightarrow> nat list" where
  "filtered f w =
     (let ps = concat (map (\<lambda>i. filter (\<lambda>p. pf_reg f (pn_Name (px w p))) (pv_proxies (pv w i))) (pf_providers f))
      in if ps = [] then [st_reject w] else ps)"

definition Provider_Proxies :: "int \<Rightarrow> nat \<Rightarrow> store \<Rightarrow> (nat list \<times> store) option" where
  "Provider_Proxies now i w =
     (case pv_filter (pv w i) of
        None \<Rightarrow> Some (pv_proxies (pv w i), w)
      | Some f \<Rightarrow> do {
          (ps, _, s, w) \<leftarrow> Single_Do now (\<lambda>w. Some (filtered f w, w)) (pf_single f) w;
          Some (ps, set_pv i ((pv w i)\<lparr>pv_filter := Some (f\<lparr>pf_single := s\<rparr>)\<rparr>) w) })"

text \<open>\<open>check\<close>: one test of each proxy; the batch of ten at a time only orders them.\<close>

fun hc_check :: "(string \<Rightarrow> test_url option) \<Rightarrow> (nat \<Rightarrow> test_run) \<Rightarrow> string \<Rightarrow> nat list \<Rightarrow> store \<Rightarrow> store" where
  "hc_check url_Parse run url [] w = w"
| "hc_check url_Parse run url (p # ps) w =
     hc_check url_Parse run url ps (set_px p (snd (Proxy_URLTest url_Parse url (run p) (px w p))) w)"

definition checkAll :: "(string \<Rightarrow> test_url option) \<Rightarrow> (nat \<Rightarrow> test_run) \<Rightarrow> nat \<Rightarrow> store \<Rightarrow> store" where
  "checkAll url_Parse run i w =
     (let hc = pv_healthCheck (pv w i) in hc_check url_Parse run (hc_url hc) (hc_proxies hc) w)"

text \<open>One tick of the goroutine of the health check.\<close>

definition hc_tick :: "(string \<Rightarrow> test_url option) \<Rightarrow> (nat \<Rightarrow> test_run) \<Rightarrow> int \<Rightarrow> nat \<Rightarrow> store \<Rightarrow> store" where
  "hc_tick url_Parse run now i w =
     (let hc = pv_healthCheck (pv w i) in
      if \<not> hc_lazy hc \<or> Unix now - hc_lastTouch hc < int (hc_interval hc) then checkAll url_Parse run i w
      else
        let notAlive = filter (\<lambda>p. \<not> pn_alive (px w p)) (hc_proxies hc) in
        if notAlive \<noteq> [] then hc_check url_Parse run (hc_url hc) notAlive w else w)"

text \<open>Making a provider; whether the goroutine was started is returned with it.\<close>

definition NewCompatibleProvider :: "string \<Rightarrow> nat list \<Rightarrow> health_check \<Rightarrow> (provider \<times> bool) option" where
  "NewCompatibleProvider name ps hc =
     (if ps = [] then None
      else Some (\<lparr>pv_name = name, pv_VehicleType = VCompatible, pv_proxies = ps, pv_healthCheck = hc, pv_filter = None\<rparr>,
                 hc_auto hc))"

definition NewFilterableProvider :: "string \<Rightarrow> nat list \<Rightarrow> (string \<Rightarrow> bool) \<Rightarrow> provider" where
  "NewFilterableProvider name ps reg =
     \<lparr>pv_name = name, pv_VehicleType = VCompatible, pv_proxies = [], pv_healthCheck = NewHealthCheck [] [] 0 False,
      pv_filter = Some \<lparr>pf_providers = ps, pf_reg = reg, pf_single = NewSingle 10000000000\<rparr>\<rparr>"

subsection \<open>Groups: common parts (common.go)\<close>

definition defaultGetProxiesDuration :: int where
  "defaultGetProxiesDuration = 5000000000"

definition touchProviders :: "int \<Rightarrow> nat list \<Rightarrow> store \<Rightarrow> store" where
  "touchProviders now is w = fold (Provider_Touch now) is w"

fun getProvidersProxies :: "int \<Rightarrow> bool \<Rightarrow> nat list \<Rightarrow> store \<Rightarrow> (nat list \<times> store) option" where
  "getProvidersProxies now touch [] w = Some ([], w)"
| "getProvidersProxies now touch (i # is) w = do {
     (ps, w1) \<leftarrow> Provider_Proxies now i (if touch then Provider_Touch now i w else w);
     (qs, w2) \<leftarrow> getProvidersProxies now touch is w1;
     Some (ps @ qs, w2) }"

text \<open>The method \<open>proxies\<close> of all groups but the selector: the list is kept for five seconds.\<close>

definition group_proxies ::
  "int \<Rightarrow> bool \<Rightarrow> nat list \<Rightarrow> nat list single \<Rightarrow> store \<Rightarrow> (nat list \<times> nat list single \<times> store) option" where
  "group_proxies now touch is s w = do {
     (ps, _, s', w') \<leftarrow> Single_Do now (getProvidersProxies now touch is) s w;
     Some (ps, s', w') }"

record group_base =
  gb_Name :: string
  gb_disableUDP :: bool
  gb_providers :: "nat list"

subsection \<open>Fallback (fallback.go)\<close>

record fallback = group_base +
  fb_single :: "nat list single"

definition NewFallback :: "string \<Rightarrow> bool \<Rightarrow> nat list \<Rightarrow> fallback" where
  "NewFallback name disableUDP is =
     \<lparr>gb_Name = name, gb_disableUDP = disableUDP, gb_providers = is, fb_single = NewSingle defaultGetProxiesDuration\<rparr>"

text \<open>The loop that every choice ends with: the first proxy that is alive, or the first one. An empty list panics.\<close>

definition first_alive :: "store \<Rightarrow> nat list \<Rightarrow> nat option" where
  "first_alive w ps =
     (case List.find (\<lambda>p. pn_alive (px w p)) ps of
        Some p \<Rightarrow> Some p
      | None \<Rightarrow> (case ps of [] \<Rightarrow> None | p # _ \<Rightarrow> Some p))"

definition findAliveProxy :: "int \<Rightarrow> bool \<Rightarrow> fallback \<Rightarrow> store \<Rightarrow> (nat \<times> fallback \<times> store) option" where
  "findAliveProxy now touch f w = do {
     (ps, s, w1) \<leftarrow> group_proxies now touch (gb_providers f) (fb_single f) w;
     p \<leftarrow> first_alive w1 ps;
     Some (p, f\<lparr>fb_single := s\<rparr>, w1) }"

subsection \<open>URL test (urltest.go)\<close>

record url_test = group_base +
  ut_tolerance :: u16
  ut_fastNode :: "nat option"
  ut_single :: "nat list single"
  ut_fastSingle :: "nat single"

definition NewURLTest :: "string \<Rightarrow> bool \<Rightarrow> nat list \<Rightarrow> u16 option \<Rightarrow> url_test" where
  "NewURLTest name disableUDP is tolerance =
     \<lparr>gb_Name = name, gb_disableUDP = disableUDP, gb_providers = is,
      ut_tolerance = (case tolerance of None \<Rightarrow> 0 | Some t \<Rightarrow> t), ut_fastNode = None,
      ut_single = NewSingle defaultGetProxiesDuration, ut_fastSingle = NewSingle 10000000000\<rparr>"

text \<open>The loop over \<open>proxies[1:]\<close> with \<open>fast\<close>, \<open>min\<close> (here \<open>best\<close>) and \<open>fastNotExist\<close>.\<close>

fun fast_loop :: "store \<Rightarrow> nat option \<Rightarrow> nat list \<Rightarrow> nat \<times> u16 \<times> bool \<Rightarrow> nat \<times> u16 \<times> bool" where
  "fast_loop w fastNode [] acc = acc"
| "fast_loop w fastNode (p # ps) (fast, best, notExist) =
     (let notExist =
            (case fastNode of None \<Rightarrow> notExist
             | Some n \<Rightarrow> if pn_Name (px w p) = pn_Name (px w n) then False else notExist)
      in if \<not> pn_alive (px w p) then fast_loop w fastNode ps (fast, best, notExist)
         else let delay = LastDelay (px w p) in
           if delay < best then fast_loop w fastNode ps (p, delay, notExist)
           else fast_loop w fastNode ps (fast, best, notExist))"

definition fast_choice :: "store \<Rightarrow> u16 \<Rightarrow> nat option \<Rightarrow> nat list \<Rightarrow> nat option" where
  "fast_choice w tolerance fastNode ps =
     (case ps of
        [] \<Rightarrow> None
      | p0 # rest \<Rightarrow>
          (case fast_loop w fastNode rest (p0, LastDelay (px w p0), True) of (fast, best, notExist) \<Rightarrow>
             (case fastNode of
                None \<Rightarrow> Some fast
              | Some n \<Rightarrow>
                  if notExist \<or> \<not> pn_alive (px w n) \<or> LastDelay (px w n) > LastDelay (px w fast) + tolerance
                  then Some fast else Some n)))"

text \<open>The function that \<open>fastSingle\<close> runs: it reads the list, keeps the choice and returns it.\<close>

definition fast_run :: "int \<Rightarrow> bool \<Rightarrow> url_test \<times> store \<Rightarrow> (nat \<times> url_test \<times> store) option" where
  "fast_run now touch = (\<lambda>(u, w). do {
     (ps, s, w1) \<leftarrow> group_proxies now touch (gb_providers u) (ut_single u) w;
     n \<leftarrow> fast_choice w1 (ut_tolerance u) (ut_fastNode u) ps;
     Some (n, u\<lparr>ut_single := s, ut_fastNode := Some n\<rparr>, w1) })"

definition URLTest_fast :: "int \<Rightarrow> bool \<Rightarrow> url_test \<Rightarrow> store \<Rightarrow> (nat \<times> url_test \<times> store) option" where
  "URLTest_fast now touch u w = do {
     (n, shared, s, (u', w')) \<leftarrow> Single_Do now (fast_run now touch) (ut_fastSingle u) (u, w);
     Some (n, u'\<lparr>ut_fastSingle := s\<rparr>, if shared \<and> touch then touchProviders now (gb_providers u) w' else w') }"

subsection \<open>Load balance (loadbalance.go)\<close>

datatype lb_strategy = RoundRobin nat | ConsistentHashing

record load_balance = group_base +
  lb_single :: "nat list single"
  lb_strategyFn :: lb_strategy

definition NewLoadBalance :: "string \<Rightarrow> bool \<Rightarrow> nat list \<Rightarrow> string \<Rightarrow> load_balance option" where
  "NewLoadBalance name disableUDP is strategy =
     (let mk = (\<lambda>f. Some \<lparr>gb_Name = name, gb_disableUDP = disableUDP, gb_providers = is,
                         lb_single = NewSingle defaultGetProxiesDuration, lb_strategyFn = f\<rparr>)
      in if strategy = ''consistent-hashing'' then mk ConsistentHashing
         else if strategy = ''round-robin'' then mk (RoundRobin 0) else None)"

text \<open>\<open>publicsuffix.EffectiveTLDPlusOne\<close> is the parameter; its error is \<open>None\<close>.\<close>

definition getKey :: "(string \<Rightarrow> string option) \<Rightarrow> metadata \<Rightarrow> string" where
  "getKey etld m =
     (let rest = (if DstIP m = [] then [] else IP_String (DstIP m)) in
      if Host m \<noteq> [] then
        (if ParseIP (Host m) \<noteq> [] then Host m
         else case etld (Host m) of Some d \<Rightarrow> d | None \<Rightarrow> rest)
      else rest)"

fun rr_loop :: "store \<Rightarrow> nat list \<Rightarrow> nat \<Rightarrow> nat \<Rightarrow> nat option \<times> nat" where
  "rr_loop w ps 0 idx = (None, idx)"
| "rr_loop w ps (Suc k) idx =
     (let idx = (idx + 1) mod length ps in
      if pn_alive (px w (ps ! idx)) then (Some (ps ! idx), idx) else rr_loop w ps k idx)"

definition strategyRoundRobin :: "store \<Rightarrow> nat list \<Rightarrow> nat \<Rightarrow> (nat \<times> nat) option" where
  "strategyRoundRobin w ps idx =
     (case rr_loop w ps (length ps) idx of
        (Some p, idx') \<Rightarrow> Some (p, idx')
      | (None, idx') \<Rightarrow> (case ps of [] \<Rightarrow> None | p # _ \<Rightarrow> Some (p, idx')))"

fun ch_loop :: "store \<Rightarrow> nat list \<Rightarrow> nat \<Rightarrow> 64 word \<Rightarrow> nat option option" where
  "ch_loop w ps 0 key = Some None"
| "ch_loop w ps (Suc k) key =
     (case jumpHash key (sint (of_nat (length ps) :: 32 word)) of
        None \<Rightarrow> None
      | Some idx \<Rightarrow>
          if idx < 0 \<or> int (length ps) \<le> idx then None
          else if pn_alive (px w (ps ! nat idx)) then Some (Some (ps ! nat idx))
          else ch_loop w ps k (key + 1))"

definition strategyConsistentHashing :: "(string \<Rightarrow> string option) \<Rightarrow> store \<Rightarrow> nat list \<Rightarrow> metadata \<Rightarrow> nat option" where
  "strategyConsistentHashing etld w ps m =
     (case ch_loop w ps 5 (ucast (murmur_Sum32 (bytes_of (getKey etld m)))) of
        None \<Rightarrow> None
      | Some (Some p) \<Rightarrow> Some p
      | Some None \<Rightarrow> first_alive w ps)"

definition LoadBalance_Unwrap ::
  "(string \<Rightarrow> string option) \<Rightarrow> int \<Rightarrow> metadata \<Rightarrow> load_balance \<Rightarrow> store \<Rightarrow> (nat \<times> load_balance \<times> store) option" where
  "LoadBalance_Unwrap etld now m lb w = do {
     (ps, s, w1) \<leftarrow> group_proxies now True (gb_providers lb) (lb_single lb) w;
     (case lb_strategyFn lb of
        RoundRobin idx \<Rightarrow> do {
          (p, idx') \<leftarrow> strategyRoundRobin w1 ps idx;
          Some (p, lb\<lparr>lb_single := s, lb_strategyFn := RoundRobin idx'\<rparr>, w1) }
      | ConsistentHashing \<Rightarrow> do {
          p \<leftarrow> strategyConsistentHashing etld w1 ps m;
          Some (p, lb\<lparr>lb_single := s\<rparr>, w1) }) }"

subsection \<open>Selector (selector.go)\<close>

record selector = group_base +
  sl_single :: "nat single"
  sl_selected :: string

definition NewSelector :: "int \<Rightarrow> string \<Rightarrow> bool \<Rightarrow> nat list \<Rightarrow> store \<Rightarrow> (selector \<times> store) option" where
  "NewSelector now name disableUDP is w =
     (case is of
        [] \<Rightarrow> None
      | i # _ \<Rightarrow> do {
          (ps, w1) \<leftarrow> Provider_Proxies now i w;
          (case ps of
             [] \<Rightarrow> None
           | p # _ \<Rightarrow> Some (\<lparr>gb_Name = name, gb_disableUDP = disableUDP, gb_providers = is,
               sl_single = NewSingle defaultGetProxiesDuration, sl_selected = pn_Name (px w1 p)\<rparr>, w1)) })"

text \<open>The boolean of \<open>Set\<close> is that there was no error.\<close>

definition Selector_Set :: "int \<Rightarrow> string \<Rightarrow> selector \<Rightarrow> store \<Rightarrow> (bool \<times> selector \<times> store) option" where
  "Selector_Set now name s w = do {
     (ps, w1) \<leftarrow> getProvidersProxies now False (gb_providers s) w;
     Some (if \<exists>p\<in>set ps. pn_Name (px w1 p) = name
           then (True, s\<lparr>sl_selected := name, sl_single := Single_Reset (sl_single s)\<rparr>, w1)
           else (False, s, w1)) }"

definition selected_run :: "int \<Rightarrow> bool \<Rightarrow> selector \<Rightarrow> store \<Rightarrow> (nat \<times> store) option" where
  "selected_run now touch s w = do {
     (ps, w1) \<leftarrow> getProvidersProxies now touch (gb_providers s) w;
     (case List.find (\<lambda>p. pn_Name (px w1 p) = sl_selected s) ps of
        Some p \<Rightarrow> Some (p, w1)
      | None \<Rightarrow> (case ps of [] \<Rightarrow> None | p # _ \<Rightarrow> Some (p, w1))) }"

definition selectedProxy :: "int \<Rightarrow> bool \<Rightarrow> selector \<Rightarrow> store \<Rightarrow> (nat \<times> selector \<times> store) option" where
  "selectedProxy now touch s w = do {
     (p, _, s', w') \<leftarrow> Single_Do now (selected_run now touch s) (sl_single s) w;
     Some (p, s\<lparr>sl_single := s'\<rparr>, w') }"

subsection \<open>Relay (relay.go)\<close>

record relay = group_base +
  rl_single :: "nat list single"

definition NewRelay :: "string \<Rightarrow> bool \<Rightarrow> nat list \<Rightarrow> relay" where
  "NewRelay name disableUDP is =
     \<lparr>gb_Name = name, gb_disableUDP = disableUDP, gb_providers = is, rl_single = NewSingle defaultGetProxiesDuration\<rparr>"

text \<open>
  The members are plain proxies, whose \<open>Unwrap\<close> is nil, so \<open>proxies\<close> is \<open>rawProxies\<close>. The environment of a
  dialling: what the adapter of each proxy returns (the chain of the connection, or an error), the TCP connection to
  an address, the handshake of a proxy over a connection, and a direct connection.
\<close>

record 'e dial_env =
  de_dial :: "nat \<Rightarrow> 'e + string list"
  de_listen :: "nat \<Rightarrow> 'e + string list"
  de_tcp :: "string \<Rightarrow> bool"
  de_StreamConn :: "nat \<Rightarrow> metadata \<Rightarrow> bool"
  de_direct :: "'e + string list"

datatype 'e dial_error = RelayConnect string | RelayAddr | AdapterError 'e | NoSupport

type_synonym hops = "(nat \<times> metadata) list"

text \<open>The loop over \<open>proxies[1:]\<close>: each proxy is asked for a connection to the next one. The hops made are returned.\<close>

fun relay_stream :: "'e dial_env \<Rightarrow> store \<Rightarrow> nat \<Rightarrow> nat list \<Rightarrow> hops \<Rightarrow> ('e dial_error + nat) \<times> hops" where
  "relay_stream D w first [] hops = (Inr first, hops)"
| "relay_stream D w first (p # ps) hops =
     (case addrToMetadata (pn_Addr (px w p)) of
        None \<Rightarrow> (Inl RelayAddr, hops)
      | Some m \<Rightarrow>
          if de_StreamConn D first m then relay_stream D w p ps (hops @ [(first, m)])
          else (Inl (RelayConnect (pn_Addr (px w first))), hops))"

definition relay_connect ::
  "'e dial_env \<Rightarrow> string \<Rightarrow> metadata \<Rightarrow> nat list \<Rightarrow> store \<Rightarrow> ('e dial_error + string list) \<times> hops \<times> store" where
  "relay_connect D name m ps w =
     (case ps of
        [] \<Rightarrow> (map_sum AdapterError id (de_direct D), [], w)
      | [p] \<Rightarrow> (let (r, n) = Proxy_DialContext (de_dial D p) (px w p) in (map_sum AdapterError id r, [], set_px p n w))
      | first # rest \<Rightarrow>
          if \<not> de_tcp D (pn_Addr (px w first)) then (Inl (RelayConnect (pn_Addr (px w first))), [], w)
          else (case relay_stream D w first rest [] of
              (Inl e, hops) \<Rightarrow> (Inl e, hops, w)
            | (Inr lst, hops) \<Rightarrow>
                if de_StreamConn D lst m then (Inr [name], hops @ [(lst, m)], w)
                else (Inl (RelayConnect (pn_Addr (px w lst))), hops, w)))"

definition Relay_DialContext ::
  "'e dial_env \<Rightarrow> int \<Rightarrow> metadata \<Rightarrow> relay \<Rightarrow> store \<Rightarrow>
   (('e dial_error + string list) \<times> hops \<times> relay \<times> store) option" where
  "Relay_DialContext D now m rl w = do {
     (ps, s, w1) \<leftarrow> group_proxies now True (gb_providers rl) (rl_single rl) w;
     let (r, hops, w2) = relay_connect D (gb_Name rl) m (filter (\<lambda>p. pn_Type (px w1 p) \<noteq> Direct) ps) w1;
     Some (r, hops, rl\<lparr>rl_single := s\<rparr>, w2) }"

subsection \<open>The groups as adapters\<close>

datatype pgroup =
  GFallback fallback | GURLTest url_test | GLoadBalance load_balance | GSelector selector | GRelay relay

definition group_name :: "pgroup \<Rightarrow> string" where
  "group_name g = (case g of GFallback f \<Rightarrow> gb_Name f | GURLTest u \<Rightarrow> gb_Name u
     | GLoadBalance l \<Rightarrow> gb_Name l | GSelector s \<Rightarrow> gb_Name s | GRelay r \<Rightarrow> gb_Name r)"

definition pick :: "('g \<Rightarrow> pgroup) \<Rightarrow> (nat \<times> 'g \<times> store) option \<Rightarrow> (nat option \<times> pgroup \<times> store) option" where
  "pick c r = do { (p, g, w) \<leftarrow> r; Some (Some p, c g, w) }"

text \<open>The choice of a group; a relay has the method of its base, which returns nil.\<close>

definition Unwrap ::
  "(string \<Rightarrow> string option) \<Rightarrow> int \<Rightarrow> metadata \<Rightarrow> pgroup \<Rightarrow> store \<Rightarrow> (nat option \<times> pgroup \<times> store) option" where
  "Unwrap etld now m g w =
     (case g of
        GFallback f \<Rightarrow> pick GFallback (findAliveProxy now True f w)
      | GURLTest u \<Rightarrow> pick GURLTest (URLTest_fast now True u w)
      | GLoadBalance l \<Rightarrow> pick GLoadBalance (LoadBalance_Unwrap etld now m l w)
      | GSelector s \<Rightarrow> pick GSelector (selectedProxy now True s w)
      | GRelay r \<Rightarrow> Some (None, g, w))"

text \<open>
  Dialling through a group: the chosen proxy dials, which changes its liveness, and the name of the group is appended
  to the chain of the connection.
\<close>

definition Group_DialContext ::
  "(string \<Rightarrow> string option) \<Rightarrow> 'e dial_env \<Rightarrow> int \<Rightarrow> metadata \<Rightarrow> pgroup \<Rightarrow> store \<Rightarrow>
   (('e dial_error + string list) \<times> pgroup \<times> store) option" where
  "Group_DialContext etld D now m g w =
     (case g of
        GRelay rl \<Rightarrow> do {
          (r, _, rl', w') \<leftarrow> Relay_DialContext D now m rl w;
          Some (r, GRelay rl', w') }
      | _ \<Rightarrow> do {
          (c, g', w1) \<leftarrow> Unwrap etld now m g w;
          p \<leftarrow> c;
          let (r, n) = Proxy_DialContext (de_dial D p) (px w1 p);
          Some (map_sum AdapterError (\<lambda>chain. chain @ [group_name g]) r, g', set_px p n w1) })"

definition Group_ListenPacketContext ::
  "(string \<Rightarrow> string option) \<Rightarrow> 'e dial_env \<Rightarrow> int \<Rightarrow> metadata \<Rightarrow> pgroup \<Rightarrow> store \<Rightarrow>
   (('e dial_error + string list) \<times> pgroup \<times> store) option" where
  "Group_ListenPacketContext etld D now m g w =
     (case g of
        GRelay rl \<Rightarrow> Some (Inl NoSupport, g, w)
      | _ \<Rightarrow> do {
          (c, g', w1) \<leftarrow> Unwrap etld now m g w;
          p \<leftarrow> c;
          let (r, n) = Proxy_ListenPacketContext (de_listen D p) (px w1 p);
          Some (map_sum AdapterError (\<lambda>chain. chain @ [group_name g]) r, g', set_px p n w1) })"

text \<open>\<open>Now\<close> of the three groups that have it, and \<open>SupportUDP\<close>; both choose without touching the providers.\<close>

definition choose_untouched :: "int \<Rightarrow> pgroup \<Rightarrow> store \<Rightarrow> (nat option \<times> pgroup \<times> store) option" where
  "choose_untouched now g w =
     (case g of
        GFallback f \<Rightarrow> pick GFallback (findAliveProxy now False f w)
      | GURLTest u \<Rightarrow> pick GURLTest (URLTest_fast now False u w)
      | GSelector s \<Rightarrow> pick GSelector (selectedProxy now False s w)
      | _ \<Rightarrow> None)"

definition Group_Now :: "int \<Rightarrow> pgroup \<Rightarrow> store \<Rightarrow> (string \<times> pgroup \<times> store) option" where
  "Group_Now now g w = do {
     (c, g', w1) \<leftarrow> choose_untouched now g w;
     p \<leftarrow> c;
     Some (pn_Name (px w1 p), g', w1) }"

definition Group_SupportUDP :: "int \<Rightarrow> pgroup \<Rightarrow> store \<Rightarrow> (bool \<times> pgroup \<times> store) option" where
  "Group_SupportUDP now g w =
     (let ask = (\<lambda>off. if off then Some (False, g, w) else do {
            (c, g', w1) \<leftarrow> choose_untouched now g w;
            p \<leftarrow> c;
            Some (pn_udp (px w1 p), g', w1) })
      in case g of
        GFallback f \<Rightarrow> ask (gb_disableUDP f)
      | GURLTest u \<Rightarrow> ask (gb_disableUDP u)
      | GSelector s \<Rightarrow> ask (gb_disableUDP s)
      | GLoadBalance l \<Rightarrow> Some (\<not> gb_disableUDP l, g, w)
      | GRelay r \<Rightarrow> Some (False, g, w))"

subsection \<open>Making a group (parser.go)\<close>

text \<open>The decoded options of a group; the decoder of \<open>common/structure\<close> is not part of the model.\<close>

record group_option =
  go_Name :: string
  go_Type :: string
  go_Proxies :: "string list"
  go_Use :: "string list"
  go_URL :: string
  go_Interval :: int
  go_Lazy :: bool
  go_DisableUDP :: bool
  go_Filter :: string
  go_strategy :: "string option"
  go_tolerance :: "int option"

datatype group_error =
  ErrFormat | ErrFilter | ErrMissProxy | ErrNotFound string | ErrDuplicateProvider | ErrMissHealthCheck
| ErrNoProxies | ErrInUse string | ErrStrategy string | ErrType string

fun getProxies :: "(string \<rightharpoonup> nat) \<Rightarrow> string list \<Rightarrow> group_error + nat list" where
  "getProxies mapping [] = Inr []"
| "getProxies mapping (name # names) =
     (case mapping name of
        None \<Rightarrow> Inl (ErrNotFound name)
      | Some p \<Rightarrow> (case getProxies mapping names of Inl e \<Rightarrow> Inl e | Inr ps \<Rightarrow> Inr (p # ps)))"

fun getProviders :: "(string \<rightharpoonup> nat) \<Rightarrow> store \<Rightarrow> string list \<Rightarrow> group_error + nat list" where
  "getProviders mapping w [] = Inr []"
| "getProviders mapping w (name # names) =
     (case mapping name of
        None \<Rightarrow> Inl (ErrNotFound name)
      | Some i \<Rightarrow>
          if pv_VehicleType (pv w i) = VCompatible then Inl (ErrInUse name)
          else (case getProviders mapping w names of Inl e \<Rightarrow> Inl e | Inr is \<Rightarrow> Inr (i # is)))"

definition add_provider :: "provider \<Rightarrow> store \<Rightarrow> nat \<times> store" where
  "add_provider n w = (length (st_providers w), w\<lparr>st_providers := st_providers w @ [n]\<rparr>)"

text \<open>The provider of the listed proxies, in the map under the name of the group.\<close>

definition own_provider ::
  "group_option \<Rightarrow> (string \<rightharpoonup> nat) \<Rightarrow> (string \<rightharpoonup> nat) \<Rightarrow> store \<Rightarrow>
   group_error + nat list \<times> (string \<rightharpoonup> nat) \<times> store" where
  "own_provider opt proxyMap providersMap w =
     (case getProxies proxyMap (go_Proxies opt) of
        Inl e \<Rightarrow> Inl e
      | Inr ps \<Rightarrow>
          let make = (\<lambda>hc. case NewCompatibleProvider (go_Name opt) ps hc of
                None \<Rightarrow> Inl ErrNoProxies
              | Some (n, _) \<Rightarrow> (case add_provider n w of (i, w') \<Rightarrow> Inr ([i], providersMap(go_Name opt \<mapsto> i), w')))
          in if providersMap (go_Name opt) \<noteq> None then Inl ErrDuplicateProvider
             else if go_Type opt = ''select'' \<or> go_Type opt = ''relay'' then make (NewHealthCheck ps [] 0 True)
             else if go_URL opt = [] \<or> go_Interval opt = 0 then Inl ErrMissHealthCheck
             else make (NewHealthCheck ps (go_URL opt) (unat (of_int (go_Interval opt) :: 64 word)) (go_Lazy opt)))"

definition use_providers ::
  "group_option \<Rightarrow> (string \<Rightarrow> bool) option \<Rightarrow> (string \<rightharpoonup> nat) \<Rightarrow> store \<Rightarrow> group_error + nat list \<times> store" where
  "use_providers opt filterReg providersMap w =
     (case getProviders providersMap w (go_Use opt) of
        Inl e \<Rightarrow> Inl e
      | Inr is \<Rightarrow>
          (case filterReg of
             None \<Rightarrow> Inr (is, w)
           | Some reg \<Rightarrow>
               (case add_provider (NewFilterableProvider (go_Name opt) is reg) w of (i, w') \<Rightarrow> Inr ([i], w'))))"

definition make_group :: "int \<Rightarrow> group_option \<Rightarrow> nat list \<Rightarrow> store \<Rightarrow> ((group_error + pgroup) \<times> store) option" where
  "make_group now opt is w =
     (let n = go_Name opt; off = go_DisableUDP opt in
      if go_Type opt = ''url-test'' then Some (Inr (GURLTest (NewURLTest n off is (map_option of_int (go_tolerance opt)))), w)
      else if go_Type opt = ''select'' then do { (s, w') \<leftarrow> NewSelector now n off is w; Some (Inr (GSelector s), w') }
      else if go_Type opt = ''fallback'' then Some (Inr (GFallback (NewFallback n off is)), w)
      else if go_Type opt = ''load-balance'' then
        (let strategy = (case go_strategy opt of Some s \<Rightarrow> s | None \<Rightarrow> ''consistent-hashing'') in
         Some (case NewLoadBalance n off is strategy of
             None \<Rightarrow> Inl (ErrStrategy strategy) | Some l \<Rightarrow> Inr (GLoadBalance l), w))
      else if go_Type opt = ''relay'' then Some (Inr (GRelay (NewRelay n off is)), w)
      else Some (Inl (ErrType (go_Type opt)), w))"

text \<open>\<open>regexp2.Compile\<close> is a parameter. What was put in the map and the store before an error stays there.\<close>

definition ParseProxyGroup ::
  "(string \<Rightarrow> (string \<Rightarrow> bool) option) \<Rightarrow> int \<Rightarrow> group_option option \<Rightarrow> (string \<rightharpoonup> nat) \<Rightarrow> (string \<rightharpoonup> nat) \<Rightarrow> store \<Rightarrow>
   ((group_error + pgroup) \<times> (string \<rightharpoonup> nat) \<times> store) option" where
  "ParseProxyGroup Compile now decoded proxyMap providersMap w =
     (case decoded of
        None \<Rightarrow> Some (Inl ErrFormat, providersMap, w)
      | Some opt \<Rightarrow>
          if go_Type opt = [] \<or> go_Name opt = [] then Some (Inl ErrFormat, providersMap, w)
          else if go_Filter opt \<noteq> [] \<and> Compile (go_Filter opt) = None then Some (Inl ErrFilter, providersMap, w)
          else if go_Proxies opt = [] \<and> go_Use opt = [] then Some (Inl ErrMissProxy, providersMap, w)
          else
            let filterReg = (if go_Filter opt = [] then None else Compile (go_Filter opt)) in
            (case (if go_Proxies opt = [] then Inr ([], providersMap, w) else own_provider opt proxyMap providersMap w) of
               Inl e \<Rightarrow> Some (Inl e, providersMap, w)
             | Inr (own, pm, w1) \<Rightarrow>
                 (case (if go_Use opt = [] then Inr ([], w1) else use_providers opt filterReg pm w1) of
                    Inl e \<Rightarrow> Some (Inl e, pm, w1)
                  | Inr (used, w2) \<Rightarrow> do {
                      (r, w3) \<leftarrow> make_group now opt (own @ used) w2;
                      Some (r, pm, w3) })))"

text \<open>The group that the automatic mode of the program makes of its proxies (internal/cfg/outbound/outbound.go).\<close>

definition auto_group :: "string list \<Rightarrow> string \<Rightarrow> string \<Rightarrow> group_option" where
  "auto_group ids url tp =
     \<lparr>go_Name = ''auto'', go_Type = tp, go_Proxies = ids, go_Use = [], go_URL = url, go_Interval = 300, go_Lazy = True,
      go_DisableUDP = False, go_Filter = [], go_strategy = None, go_tolerance = None\<rparr>"

end
