(* ===== verification/GroupProps.thy ===== *)
theory GroupProps
  imports ProxyGroups
begin

text \<open>
  Properties of the proxy groups: the contract of a choice among proxies and the strategies that keep it, what each
  group chooses, and that no run of a group panics.
\<close>

named_theorems store_simps

subsection \<open>What stays the same in the store\<close>

definition members :: "nat list \<Rightarrow> store \<Rightarrow> nat list" where
  "members is w = concat (map (\<lambda>i. pv_proxies (pv w i)) is)"

definition keeps :: "store \<Rightarrow> store \<Rightarrow> bool" where
  "keeps w w' \<longleftrightarrow>
     map pn_Name (st_proxies w') = map pn_Name (st_proxies w) \<and>
     map pv_proxies (st_providers w') = map pv_proxies (st_providers w) \<and>
     map pv_filter (st_providers w') = map pv_filter (st_providers w)"

text \<open>Providers that are plain, with at least one proxy, all of them in the store.\<close>

definition store_ok :: "nat list \<Rightarrow> store \<Rightarrow> bool" where
  "store_ok is w \<longleftrightarrow>
     (\<forall>i\<in>set is. i < length (st_providers w) \<and> pv_filter (pv w i) = None) \<and>
     members is w \<noteq> [] \<and> (\<forall>p\<in>set (members is w). p < length (st_proxies w))"

lemma keeps_refl [simp]: "keeps w w"
  by (simp add: keeps_def)

lemma keeps_trans [trans]: "keeps w w' \<Longrightarrow> keeps w' w'' \<Longrightarrow> keeps w w''"
  by (simp add: keeps_def)

lemma keeps_length:
  "keeps w w' \<Longrightarrow> length (st_proxies w') = length (st_proxies w) \<and> length (st_providers w') = length (st_providers w)"
  unfolding keeps_def by (metis length_map)

lemma keeps_provider:
  assumes "keeps w w'" and "i < length (st_providers w)"
  shows "pv_proxies (pv w' i) = pv_proxies (pv w i)" and "pv_filter (pv w' i) = pv_filter (pv w i)"
  using assms keeps_length [OF assms(1)] unfolding keeps_def by (metis nth_map)+

lemma keeps_name: "keeps w w' \<Longrightarrow> p < length (st_proxies w) \<Longrightarrow> pn_Name (px w' p) = pn_Name (px w p)"
  using keeps_length [of w w'] unfolding keeps_def by (metis nth_map)

lemma keeps_members:
  assumes "keeps w w'" and "store_ok is w"
  shows "members is w' = members is w" and "store_ok is w'"
proof -
  show *: "members is w' = members is w"
    using assms keeps_provider [OF assms(1)] by (auto simp: members_def store_ok_def intro!: arg_cong [where f = concat])
  show "store_ok is w'"
    using assms(2) * keeps_length [OF assms(1)] keeps_provider [OF assms(1)] by (simp add: store_ok_def)
qed

lemma map_update_same: "f y = f (xs ! i) \<Longrightarrow> map f (xs[i := y]) = map f xs"
  by (cases "i < length xs") (simp_all add: map_update list_update_same_conv list_update_beyond not_less)

lemma touch_plain_store [simp]:
  "st_proxies (touch_plain now i w) = st_proxies w" "keeps w (touch_plain now i w)"
proof -
  show "st_proxies (touch_plain now i w) = st_proxies w" by (simp add: touch_plain_def set_pv_def)
  show "keeps w (touch_plain now i w)"
    by (simp add: keeps_def touch_plain_def set_pv_def map_update_same)
qed

lemma set_px_keeps [simp]: "pn_Name n = pn_Name (px w p) \<Longrightarrow> keeps w (set_px p n w)"
  by (simp add: keeps_def set_px_def map_update_same)

lemma touch_plain_fold:
  "st_proxies (fold (touch_plain now) is w) = st_proxies w \<and> keeps w (fold (touch_plain now) is w)"
proof (induction "is" arbitrary: w)
  case (Cons i "is")
  then show ?case using keeps_trans [OF touch_plain_store(2) [of w now i]] by simp
qed simp

lemma Provider_Touch_store [simp]:
  "st_proxies (Provider_Touch now i w) = st_proxies w" "keeps w (Provider_Touch now i w)"
  by (simp_all add: Provider_Touch_def touch_plain_fold split: option.split)

lemma touchProviders_store:
  "st_proxies (touchProviders now is w) = st_proxies w \<and> keeps w (touchProviders now is w)"
  unfolding touchProviders_def
proof (induction "is" arbitrary: w)
  case (Cons i "is")
  then show ?case using keeps_trans [OF Provider_Touch_store(2) [of w now i]] by simp
qed simp

lemma getProvidersProxies_members:
  assumes "\<forall>i\<in>set is. i < length (st_providers w) \<and> pv_filter (pv w i) = None"
  shows "\<exists>w'. getProvidersProxies now touch is w = Some (members is w, w') \<and> st_proxies w' = st_proxies w \<and> keeps w w'"
  using assms
proof (induction "is" arbitrary: w)
  case (Cons i "is")
  let ?w = "if touch then Provider_Touch now i w else w"
  have k: "keeps w ?w" "st_proxies ?w = st_proxies w" by simp_all
  then have i: "pv_filter (pv ?w i) = None" "pv_proxies (pv ?w i) = pv_proxies (pv w i)"
    using Cons.prems keeps_provider [OF k(1), of i] by simp_all
  have "\<forall>j\<in>set is. j < length (st_providers ?w) \<and> pv_filter (pv ?w j) = None"
    using Cons.prems keeps_provider [OF k(1)] keeps_length [OF k(1)] by simp
  from Cons.IH [OF this] obtain w' where
    w': "getProvidersProxies now touch is ?w = Some (members is ?w, w')" "st_proxies w' = st_proxies ?w" "keeps ?w w'" by blast
  have "members is ?w = members is w"
    using Cons.prems keeps_provider [OF k(1)] by (auto simp: members_def intro!: arg_cong [where f = concat])
  then have "getProvidersProxies now touch (i # is) w = Some (members (i # is) w, w')"
    using w'(1) i by (simp add: Provider_Proxies_def members_def)
  then show ?case using w'(2) k(2) keeps_trans [OF k(1) w'(3)] by auto
qed (simp add: members_def)

subsection \<open>A kept result\<close>

text \<open>No call runs, and there is a good result or none was ever kept; the clock is past ten seconds.\<close>

definition epoch :: int where "epoch = 10000000000"

definition single_ok :: "('a \<Rightarrow> bool) \<Rightarrow> 'a single \<Rightarrow> bool" where
  "single_ok P s \<longleftrightarrow> \<not> sd_call s \<and> sd_wait s \<le> epoch \<and> (case sd_result s of None \<Rightarrow> sd_last s = 0 | Some u \<Rightarrow> P u)"

lemma single_ok_New [simp]: "wait \<le> epoch \<Longrightarrow> single_ok P (NewSingle wait)"
  by (simp add: single_ok_def NewSingle_def)

lemma single_ok_Reset [simp]: "single_ok P s \<Longrightarrow> single_ok P (Single_Reset s)"
  by (simp add: single_ok_def Single_Reset_def split: option.splits)

lemma Single_Do_ok:
  assumes "single_ok P s" and "epoch \<le> now" and "f w = Some (v, w')" and "P v"
  obtains u shared s' w'' where "Single_Do now f s w = Some (u, shared, s', w'')" and "P u" and "single_ok P s'"
    and "shared \<and> w'' = w \<or> \<not> shared \<and> w'' = w' \<and> u = v"
proof (cases "now < sd_last s + sd_wait s")
  case True
  then obtain u where "sd_result s = Some u" "P u"
    using assms(1,2) by (auto simp: single_ok_def split: option.splits)
  then show thesis using True assms(1) by (intro that [of u True s w]) (simp_all add: Single_Do_def Do_enter_def)
next
  case False
  then show thesis using assms
    by (intro that [of v False "Do_leave now v (s\<lparr>sd_call := True\<rparr>)" w'])
       (simp_all add: Single_Do_def Do_enter_def Do_leave_def single_ok_def)
qed

lemma group_proxies_members:
  assumes "store_ok is w" and "single_ok ((=) (members is w)) s" and "epoch \<le> now"
  obtains s' w' where "group_proxies now touch is s w = Some (members is w, s', w')"
    and "single_ok ((=) (members is w)) s'" and "st_proxies w' = st_proxies w" and "keeps w w'"
proof -
  have "\<forall>i\<in>set is. i < length (st_providers w) \<and> pv_filter (pv w i) = None" using assms(1) by (simp add: store_ok_def)
  from getProvidersProxies_members [OF this, of now touch] obtain w1 where
    w1: "getProvidersProxies now touch is w = Some (members is w, w1)" "st_proxies w1 = st_proxies w" "keeps w w1" by blast
  from Single_Do_ok [where P = "(=) (members is w)" and f = "getProvidersProxies now touch is", OF assms(2,3) w1(1) refl] obtain u sh s' w'' where
    "Single_Do now (getProvidersProxies now touch is) s w = Some (u, sh, s', w'')" "members is w = u"
    "single_ok ((=) (members is w)) s'" "sh \<and> w'' = w \<or> \<not> sh \<and> w'' = w1 \<and> u = members is w" by blast
  then show thesis using w1 by (intro that [of s' w'']) (auto simp: group_proxies_def)
qed

subsection \<open>The contract of a choice\<close>

text \<open>
  A choice among proxies that depends on nothing but their liveness: it chooses some member, and one that is alive
  when there is one.
\<close>

locale proxy_choice =
  fixes sel :: "store \<Rightarrow> nat list \<Rightarrow> nat option"
    and max_len :: nat
  assumes chooses: "ps \<noteq> [] \<Longrightarrow> length ps < max_len \<Longrightarrow> \<exists>p\<in>set ps. sel w ps = Some p"
    and prefers_alive: "sel w ps = Some p \<Longrightarrow> q \<in> set ps \<Longrightarrow> pn_alive (px w q) \<Longrightarrow> pn_alive (px w p)"
begin

lemma dead_is_last_resort: "sel w ps = Some p \<Longrightarrow> \<not> pn_alive (px w p) \<Longrightarrow> \<forall>q\<in>set ps. \<not> pn_alive (px w q)"
  using prefers_alive by blast

text \<open>A proxy that is not alive is not chosen while another member is.\<close>

lemma avoids_dead:
  assumes "length ps < max_len" and "\<not> pn_alive (px w p)" and "q \<in> set ps" and "pn_alive (px w q)"
  obtains p' where "p' \<in> set ps" and "sel w ps = Some p'" and "p' \<noteq> p" and "pn_alive (px w p')"
proof -
  have "ps \<noteq> []" using assms(3) by auto
  from chooses [OF this assms(1), of w] obtain p' where p': "p' \<in> set ps" "sel w ps = Some p'" by blast
  with assms(3,4) have "pn_alive (px w p')" using prefers_alive by blast
  with p' assms(2) show thesis by (intro that) auto
qed

end

subsection \<open>The strategies keep the contract\<close>

lemma find_alive: "List.find P ps = Some p \<Longrightarrow> p \<in> set ps \<and> P p"
  by (auto simp: find_Some_iff)

interpretation fallback_choice: proxy_choice first_alive "2 ^ 31"
proof
  fix ps :: "nat list" and w p q
  show "\<exists>p\<in>set ps. first_alive w ps = Some p" if "ps \<noteq> []" "length ps < 2 ^ 31"
    using that by (auto simp: first_alive_def split: option.splits list.splits dest: find_alive)
  show "pn_alive (px w p)" if "first_alive w ps = Some p" "q \<in> set ps" "pn_alive (px w q)"
    using that by (auto simp: first_alive_def find_None_iff split: option.splits list.splits dest: find_alive)
qed

text \<open>The round robin tries the members in the order that starts after the last choice.\<close>

definition rr_pos :: "nat \<Rightarrow> nat \<Rightarrow> nat \<Rightarrow> nat" where
  "rr_pos n idx j = (Suc idx + j) mod n"

lemma rr_pos_Suc: "rr_pos n (Suc idx mod n) j = rr_pos n idx (Suc j)"
proof -
  have "(Suc (Suc idx mod n) + j) mod n = (Suc idx mod n + Suc j) mod n" by simp
  then show ?thesis unfolding rr_pos_def by (simp only: mod_add_left_eq)
qed

lemma rr_pos_0: "rr_pos n idx 0 = Suc idx mod n"
  by (simp add: rr_pos_def)

lemma all_less_Suc: "(\<forall>l<Suc m. P l) \<longleftrightarrow> P 0 \<and> (\<forall>l<m. P (Suc l))"
  by (auto simp: less_Suc_eq_0_disj)

lemma rr_loop_cases:
  "(\<exists>i. rr_loop w ps k idx = (None, i) \<and> (\<forall>j<k. \<not> pn_alive (px w (ps ! rr_pos (length ps) idx j)))) \<or>
   (\<exists>j<k. rr_loop w ps k idx = (Some (ps ! rr_pos (length ps) idx j), rr_pos (length ps) idx j) \<and>
      pn_alive (px w (ps ! rr_pos (length ps) idx j)) \<and>
      (\<forall>l<j. \<not> pn_alive (px w (ps ! rr_pos (length ps) idx l))))"
proof (induction k arbitrary: idx)
  case (Suc k)
  show ?case
  proof (cases "pn_alive (px w (ps ! (Suc idx mod length ps)))")
    case True
    then show ?thesis by (intro disjI2 exI [of _ 0]) (simp add: rr_pos_0 Let_def)
  next
    case False
    from Suc.IH [of "Suc idx mod length ps"] show ?thesis
    proof (elim disjE exE conjE)
      fix i
      assume "rr_loop w ps k (Suc idx mod length ps) = (None, i)"
        "\<forall>j<k. \<not> pn_alive (px w (ps ! rr_pos (length ps) (Suc idx mod length ps) j))"
      then show ?thesis using False by (intro disjI1 exI [of _ i]) (simp add: all_less_Suc rr_pos_Suc rr_pos_0 Let_def)
    next
      fix j
      assume "j < k" "rr_loop w ps k (Suc idx mod length ps) =
          (Some (ps ! rr_pos (length ps) (Suc idx mod length ps) j), rr_pos (length ps) (Suc idx mod length ps) j)"
        "pn_alive (px w (ps ! rr_pos (length ps) (Suc idx mod length ps) j))"
        "\<forall>l<j. \<not> pn_alive (px w (ps ! rr_pos (length ps) (Suc idx mod length ps) l))"
      then show ?thesis using False
        by (intro disjI2 exI [of _ "Suc j"]) (simp add: all_less_Suc rr_pos_Suc rr_pos_0 Let_def)
    qed
  qed
qed simp

lemma rotate_at: "j < length ps \<Longrightarrow> ps ! rr_pos (length ps) idx j = rotate (Suc idx) ps ! j"
  by (simp add: nth_rotate rr_pos_def del: rotate_Suc)

lemma RoundRobin_cases:
  assumes "ps \<noteq> []"
  obtains (none) i where "strategyRoundRobin w ps idx = Some (hd ps, i)" and "\<forall>q\<in>set ps. \<not> pn_alive (px w q)"
  | (some) j where "j < length ps"
      and "strategyRoundRobin w ps idx = Some (rotate (Suc idx) ps ! j, rr_pos (length ps) idx j)"
      and "pn_alive (px w (rotate (Suc idx) ps ! j))" and "\<forall>l<j. \<not> pn_alive (px w (rotate (Suc idx) ps ! l))"
proof -
  from rr_loop_cases [of w ps "length ps" idx] show thesis
  proof (elim disjE exE conjE)
    fix i
    assume i: "rr_loop w ps (length ps) idx = (None, i)"
      "\<forall>j<length ps. \<not> pn_alive (px w (ps ! rr_pos (length ps) idx j))"
    then have "\<forall>j<length (rotate (Suc idx) ps). \<not> pn_alive (px w (rotate (Suc idx) ps ! j))"
      by (simp add: rotate_at del: rotate_Suc)
    then have "\<forall>q\<in>set (rotate (Suc idx) ps). \<not> pn_alive (px w q)" by (metis in_set_conv_nth)
    then show thesis using i(1) assms by (intro none [of i]) (auto simp: strategyRoundRobin_def neq_Nil_conv)
  next
    fix j
    assume "j < length ps" "rr_loop w ps (length ps) idx = (Some (ps ! rr_pos (length ps) idx j), rr_pos (length ps) idx j)"
      "pn_alive (px w (ps ! rr_pos (length ps) idx j))" "\<forall>l<j. \<not> pn_alive (px w (ps ! rr_pos (length ps) idx l))"
    then show thesis by (intro some [of j]) (simp_all add: strategyRoundRobin_def rotate_at del: rotate_Suc)
  qed
qed

lemma rotate_mem: "j < length ps \<Longrightarrow> rotate k ps ! j \<in> set ps"
  by (metis length_rotate nth_mem set_rotate)

interpretation round_robin: proxy_choice "\<lambda>w ps. map_option fst (strategyRoundRobin w ps idx)" "2 ^ 31" for idx
proof
  fix ps :: "nat list" and w p q
  show "\<exists>p\<in>set ps. map_option fst (strategyRoundRobin w ps idx) = Some p" if "ps \<noteq> []"
  proof (cases rule: RoundRobin_cases [OF that, of w idx, case_names none some])
    case (none i)
    then show ?thesis using that by simp
  next
    case (some j)
    then show ?thesis using rotate_mem [of j ps "Suc idx"] by (simp del: rotate_Suc)
  qed
  show "pn_alive (px w p)" if "map_option fst (strategyRoundRobin w ps idx) = Some p" "q \<in> set ps" "pn_alive (px w q)"
  proof -
    have ne: "ps \<noteq> []" using that(2) by auto
    show ?thesis
    proof (cases rule: RoundRobin_cases [OF ne, of w idx, case_names none some])
      case (none i)
      then show ?thesis using that by blast
    next
      case (some j)
      then show ?thesis using that by (simp del: rotate_Suc)
    qed
  qed
qed

lemma buckets [simp]: "n < 2 ^ 31 \<Longrightarrow> sint (of_nat n :: 32 word) = int n"
  by (simp add: signed_of_nat signed_take_bit_int_eq_self)

lemma ch_loop_ok:
  assumes "ps \<noteq> []" and "length ps < 2 ^ 31"
  shows "\<exists>r. ch_loop w ps k key = Some r \<and> (\<forall>p. r = Some p \<longrightarrow> p \<in> set ps \<and> pn_alive (px w p))"
proof (induction k arbitrary: key)
  case (Suc k)
  have "0 < int (length ps)" "int (length ps) < 2 ^ 31" using assms by simp_all
  from jumpHash_returns [OF this, of key] obtain v where
    v: "jumpHash key (int (length ps)) = Some v" "0 \<le> v" "v < int (length ps)" by blast
  then have "ps ! nat v \<in> set ps" by (simp add: nat_less_iff)
  then show ?case using v Suc.IH [of "key + 1"] assms(2) by simp
qed simp

lemma ch_loop_alive: "ch_loop w ps k key = Some (Some p) \<Longrightarrow> pn_alive (px w p)"
  by (induction k arbitrary: key) (auto split: option.splits if_splits)

interpretation consistent_hashing: proxy_choice "\<lambda>w ps. strategyConsistentHashing etld w ps m" "2 ^ 31" for etld m
proof
  fix ps :: "nat list" and w p q
  let ?key = "ucast (murmur_Sum32 (bytes_of (getKey etld m))) :: 64 word"
  show "\<exists>p\<in>set ps. strategyConsistentHashing etld w ps m = Some p" if "ps \<noteq> []" "length ps < 2 ^ 31"
    using ch_loop_ok [OF that, of w 5 ?key] fallback_choice.chooses [OF that, of w]
    by (auto simp: strategyConsistentHashing_def split: option.splits)
  show "pn_alive (px w p)" if "strategyConsistentHashing etld w ps m = Some p" "q \<in> set ps" "pn_alive (px w q)"
    using that ch_loop_alive [of w ps 5 ?key p] fallback_choice.prefers_alive [of w ps p q]
    by (auto simp: strategyConsistentHashing_def split: option.splits)
qed

subsection \<open>Round robin\<close>

text \<open>The choices of so many calls in a row.\<close>

fun rr_calls :: "store \<Rightarrow> nat list \<Rightarrow> nat \<Rightarrow> nat \<Rightarrow> nat list" where
  "rr_calls w ps 0 idx = []"
| "rr_calls w ps (Suc k) idx =
     (case strategyRoundRobin w ps idx of None \<Rightarrow> [] | Some (p, idx') \<Rightarrow> p # rr_calls w ps k idx')"

abbreviation alive_from :: "store \<Rightarrow> nat list \<Rightarrow> nat \<Rightarrow> nat list" where
  "alive_from w ps idx \<equiv> filter (\<lambda>p. pn_alive (px w p)) (rotate (Suc idx) ps)"

lemma length_filter_rotate1: "length (filter P (rotate1 xs)) = length (filter P xs)"
  by (cases xs) simp_all

lemma length_filter_rotate: "length (filter P (rotate k xs)) = length (filter P xs)"
  by (induction k) (simp_all add: length_filter_rotate1)

lemma rotate_full: "k \<le> length xs \<Longrightarrow> rotate k xs = drop k xs @ take k xs"
  by (cases "k = length xs") (simp_all add: rotate_drop_take)

lemma alive_from_next:
  assumes "alive_from w ps idx = p # rest"
  shows "\<exists>idx'. strategyRoundRobin w ps idx = Some (p, idx') \<and> alive_from w ps idx' = rest @ [p]"
proof -
  let ?R = "rotate (Suc idx) ps" let ?a = "\<lambda>p. pn_alive (px w p)"
  have ne: "ps \<noteq> []" using assms by auto
  show ?thesis
  proof (cases rule: RoundRobin_cases [OF ne, of w idx, case_names none some])
    case (none i)
    then have "alive_from w ps idx = []" by (simp add: filter_empty_conv del: rotate_Suc)
    then show ?thesis using assms by simp
  next
    case (some j)
    have j: "j < length ?R" using some(1) by simp
    have dead: "filter ?a (take j ?R) = []"
      using some(4) j by (auto simp: filter_empty_conv in_set_conv_nth simp del: rotate_Suc)
    have "filter ?a ?R = filter ?a (take j ?R @ ?R ! j # drop (Suc j) ?R)" by (rule arg_cong [OF id_take_nth_drop [OF j]])
    also have "\<dots> = ?R ! j # filter ?a (drop (Suc j) ?R)"
      using some(3) dead by (simp del: rotate_Suc)
    finally have p: "p = ?R ! j" "rest = filter ?a (drop (Suc j) ?R)" using assms by (simp_all del: rotate_Suc)
    have "rotate (Suc (rr_pos (length ps) idx j)) ps = rotate (Suc j) ?R"
    proof -
      have "Suc (rr_pos (length ps) idx j) mod length ps = (Suc j + Suc idx) mod length ps"
        by (simp add: rr_pos_def mod_Suc_eq add.commute)
      then show ?thesis by (metis rotate_conv_mod rotate_rotate)
    qed
    also have "\<dots> = drop (Suc j) ?R @ take (Suc j) ?R"
      by (rule rotate_full [OF Suc_leI [OF j]])
    also have "take (Suc j) ?R = take j ?R @ [?R ! j]" by (rule take_Suc_conv_app_nth [OF j])
    finally have "alive_from w ps (rr_pos (length ps) idx j) = rest @ [p]"
      using dead p some(3) by (simp del: rotate_Suc)
    then show ?thesis using some(2) p(1) by blast
  qed
qed

text \<open> C32. Calls in a row take the members that are alive in turn: as many calls as there are living members choose each of
  them once, in the order of the list from the last choice on.
\<close>

theorem round_robin_fair:
  assumes "k \<le> length (filter (\<lambda>p. pn_alive (px w p)) ps)"
  shows "rr_calls w ps k idx = take k (filter (\<lambda>p. pn_alive (px w p)) (rotate (Suc idx) ps))"
proof -
  have "length (alive_from w ps idx) = length (filter (\<lambda>p. pn_alive (px w p)) ps)" for idx
    by (rule length_filter_rotate)
  then have "k \<le> length (alive_from w ps idx)" using assms by (simp only:)
  then show ?thesis
  proof (induction k arbitrary: idx)
    case (Suc k)
    then obtain p rest where pr: "alive_from w ps idx = p # rest" by (metis Suc_le_length_iff)
    from alive_from_next [OF this] obtain idx' where
      n: "strategyRoundRobin w ps idx = Some (p, idx')" "alive_from w ps idx' = rest @ [p]" by blast
    have "k \<le> length rest" using Suc.prems pr by (simp del: rotate_Suc)
    with Suc.IH [of idx'] n pr show ?case by (simp del: rotate_Suc)
  qed simp
qed

definition demo_px :: "string \<Rightarrow> bool \<Rightarrow> u16 list \<Rightarrow> pnode" where
  "demo_px name alive ds = (NewProxy name 5 [] True)\<lparr>pn_alive := alive,
     pn_history := map (\<lambda>d. \<lparr>dh_Time = 0, dh_Delay = d, dh_MeanDelay = 0\<rparr>) ds\<rparr>"

definition demo_store :: store where
  "demo_store = \<lparr>st_proxies = [demo_px ''a'' True [30], demo_px ''b'' False [], demo_px ''c'' True [40]],
     st_providers = [], st_reject = 0\<rparr>"

theorem round_robin_fair_witness: "rr_calls demo_store [0, 1, 2] 2 0 = [2, 0]"
proof -
  have "2 \<le> length (filter (\<lambda>p. pn_alive (px demo_store p)) [0, 1, 2])"
    by (simp add: demo_store_def demo_px_def numeral_2_eq_2)
  from round_robin_fair [OF this, of 0] show ?thesis by (simp add: demo_store_def demo_px_def numeral_2_eq_2)
qed

subsection \<open>Consistent hashing\<close>

abbreviation hash_key :: "(string \<Rightarrow> string option) \<Rightarrow> metadata \<Rightarrow> 64 word" where
  "hash_key etld m \<equiv> ucast (murmur_Sum32 (bytes_of (getKey etld m)))"

lemma first_bucket:
  assumes "jumpHash (hash_key etld m) (int (length ps)) = Some v" and "0 \<le> v" and "v < int (length ps)"
    and "length ps < 2 ^ 31" and "pn_alive (px w (ps ! nat v))"
  shows "strategyConsistentHashing etld w ps m = Some (ps ! nat v)"
proof -
  obtain k where five: "(5::nat) = Suc k" by simp
  have "sint (of_nat (length ps) :: 32 word) = int (length ps)" using assms(4) by (rule buckets)
  then show ?thesis unfolding strategyConsistentHashing_def five using assms(1-3,5) by simp
qed

text \<open>
  When all proxies are alive and one is added at the end of the list, a connection keeps its proxy or goes to the
  new one.
\<close>

theorem consistent_hash_moves:
  assumes "ps \<noteq> []" and "length ps + 1 < 2 ^ 31" and "\<forall>q\<in>set (ps @ [p]). pn_alive (px w q)"
  shows "strategyConsistentHashing etld w (ps @ [p]) m = strategyConsistentHashing etld w ps m \<or>
    strategyConsistentHashing etld w (ps @ [p]) m = Some p"
proof -
  let ?n = "int (length ps)"
  have "0 < ?n" "?n < 2 ^ 31" "?n + 1 < 2 ^ 31" using assms(1,2) by simp_all
  then obtain v where v: "jumpHash (hash_key etld m) ?n = Some v" "0 \<le> v" "v < ?n" using jumpHash_returns by blast
  then have nv: "nat v < length ps" by (simp add: nat_less_iff)
  then have al: "pn_alive (px w (ps ! nat v))" using assms(3) by simp
  have old: "strategyConsistentHashing etld w ps m = Some (ps ! nat v)"
    by (rule first_bucket [OF v]) (use assms(2) al in simp_all)
  have new: "strategyConsistentHashing etld w (ps @ [p]) m = Some ((ps @ [p]) ! nat u)"
    if "jumpHash (hash_key etld m) (?n + 1) = Some u" "0 \<le> u" "u < ?n + 1" for u
  proof (rule first_bucket)
    have "nat u < length (ps @ [p])" using that by (simp add: nat_less_iff)
    then show "pn_alive (px w ((ps @ [p]) ! nat u))" using assms(3) nth_mem by blast
  qed (use that assms(2) in \<open>simp_all add: add.commute\<close>)
  from jumpHash_moves [OF \<open>?n + 1 < 2 ^ 31\<close>, of "hash_key etld m"] show ?thesis
  proof
    assume "jumpHash (hash_key etld m) (?n + 1) = jumpHash (hash_key etld m) ?n"
    then show ?thesis using new [of v] v old nv by (simp add: nth_append)
  next
    assume "jumpHash (hash_key etld m) (?n + 1) = Some ?n"
    then show ?thesis using new [of ?n] by simp
  qed
qed

theorem consistent_hash_moves_witness:
  "\<exists>p. strategyConsistentHashing (\<lambda>_. None) demo_store ([0] @ [2]) (target_metadata ''a.com'' [] 443) = Some p"
proof -
  have "\<forall>q\<in>set ([0] @ [2]). pn_alive (px demo_store q)"
    by (simp add: demo_store_def demo_px_def numeral_2_eq_2)
  from consistent_hash_moves [OF _ _ this, of "\<lambda>_. None" "target_metadata ''a.com'' [] 443"]
    consistent_hashing.chooses [where ps = "[0]" and w = demo_store and etld = "\<lambda>_. None" and m = "target_metadata ''a.com'' [] 443"]
  show ?thesis by auto
qed

end
