(* ===== verification/GroupRuns.thy ===== *)
theory GroupRuns
  imports GroupProps
begin

text \<open>
  What the URL test and the selector choose, and the runs of a whole group: after it is made, no sequence of
  connections, questions and health checks makes it panic.
\<close>

subsection \<open>URL test\<close>

lemma LastDelay_max: "LastDelay p \<le> 0xffff"
proof -
  have "(0xffff :: u16) = - 1" by simp
  then show ?thesis by (simp only: word_n1_ge)
qed

lemma LastDelay_dead [simp]: "\<not> pn_alive p \<Longrightarrow> LastDelay p = 0xffff"
  by (simp add: LastDelay_def)

text \<open>
  The loop of \<open>fast\<close> returns the first of the fastest, its delay, and whether it did not come across the name of the
  node that was chosen before.
\<close>

lemma fast_loop_spec:
  assumes "fast_loop w prev ps (fast, best, ne) = (f, b, ne')" and "best = LastDelay (px w fast)"
  shows "b = LastDelay (px w f) \<and> (f = fast \<or> f \<in> set ps \<and> pn_alive (px w f)) \<and> b \<le> best \<and>
    (\<forall>q\<in>set ps. b \<le> LastDelay (px w q)) \<and>
    (ne' \<longleftrightarrow> ne \<and> (\<forall>n q. prev = Some n \<longrightarrow> q \<in> set ps \<longrightarrow> pn_Name (px w q) \<noteq> pn_Name (px w n)))"
  using assms
proof (induction ps arbitrary: fast best ne)
  case (Cons q ps)
  define ne1 where "ne1 = (case prev of None \<Rightarrow> ne | Some n \<Rightarrow> if pn_Name (px w q) = pn_Name (px w n) then False else ne)"
  define fast1 where "fast1 = (if pn_alive (px w q) \<and> LastDelay (px w q) < best then q else fast)"
  have le: "LastDelay (px w fast1) \<le> best" "LastDelay (px w fast1) \<le> LastDelay (px w q)"
    using Cons.prems(2) LastDelay_max [of "px w fast"] by (auto simp: fast1_def)
  have "fast_loop w prev ps (fast1, LastDelay (px w fast1), ne1) = (f, b, ne')"
    using Cons.prems by (cases prev) (auto simp: fast1_def ne1_def Let_def split: if_splits)
  from Cons.IH [OF this refl]
  have ih: "b = LastDelay (px w f)" "f = fast1 \<or> f \<in> set ps \<and> pn_alive (px w f)" "b \<le> LastDelay (px w fast1)"
    "\<forall>q\<in>set ps. b \<le> LastDelay (px w q)"
    "ne' \<longleftrightarrow> ne1 \<and> (\<forall>n q. prev = Some n \<longrightarrow> q \<in> set ps \<longrightarrow> pn_Name (px w q) \<noteq> pn_Name (px w n))" by blast+
  have "f = fast \<or> f \<in> set (q # ps) \<and> pn_alive (px w f)" using ih(2) by (auto simp: fast1_def split: if_splits)
  moreover have "b \<le> best" "b \<le> LastDelay (px w q)" using ih(3) le by (blast intro: order_trans)+
  moreover have "ne' \<longleftrightarrow> ne \<and> (\<forall>n r. prev = Some n \<longrightarrow> r \<in> set (q # ps) \<longrightarrow> pn_Name (px w r) \<noteq> pn_Name (px w n))"
    unfolding ih(5) ne1_def by (cases prev) auto
  ultimately show ?case using ih(1,4) by auto
qed simp

text \<open>A proxy is fastest when no delay in the list is below its own; a proxy that is not alive has the largest delay.\<close>

definition fastest :: "store \<Rightarrow> nat list \<Rightarrow> nat \<Rightarrow> bool" where
  "fastest w ps f \<longleftrightarrow> f \<in> set ps \<and> (\<forall>q\<in>set ps. LastDelay (px w f) \<le> LastDelay (px w q))"

lemma fast_choice_spec:
  assumes "fast_choice w tolerance prev ps = Some r"
  shows "\<exists>f. fastest w ps f \<and>
    (r = f \<or>
     prev = Some r \<and> pn_alive (px w r) \<and> (\<exists>q\<in>set (tl ps). pn_Name (px w q) = pn_Name (px w r)) \<and>
     LastDelay (px w r) \<le> LastDelay (px w f) + tolerance)"
proof (cases ps)
  case (Cons p0 rest)
  obtain f b ne where l: "fast_loop w prev rest (p0, LastDelay (px w p0), True) = (f, b, ne)"
    by (metis prod_cases3)
  from fast_loop_spec [OF l refl] have "fastest w ps f"
    "\<not> ne \<longleftrightarrow> (\<exists>n. prev = Some n \<and> (\<exists>q\<in>set rest. pn_Name (px w q) = pn_Name (px w n)))"
    by (auto simp: fastest_def Cons)
  moreover have "r = f \<or> (\<exists>n. prev = Some n \<and> r = n \<and> \<not> ne \<and> pn_alive (px w n) \<and>
      LastDelay (px w n) \<le> LastDelay (px w f) + tolerance)"
    using assms l by (auto simp: fast_choice_def Cons split: option.splits if_splits)
  ultimately show ?thesis using Cons by auto
qed (use assms in \<open>simp add: fast_choice_def\<close>)

text \<open>
  The URL test chooses a fastest proxy, or stays with the proxy that it chose before if that one is alive, its name
  is in the list after the first place, and its delay is within the tolerance of the fastest, in 16 bits.
\<close>

theorem url_test_choice:
  assumes "fast_choice w tolerance prev ps = Some r"
  shows "\<exists>f. fastest w ps f \<and>
    (r = f \<or>
     prev = Some r \<and> pn_alive (px w r) \<and> (\<exists>q\<in>set (tl ps). pn_Name (px w q) = pn_Name (px w r)) \<and>
     LastDelay (px w r) \<le> LastDelay (px w f) + tolerance)"
  using fast_choice_spec [OF assms] .

theorem url_test_choice_witness:
  "\<exists>f. fastest demo_store [0, 1, 2] f \<and> LastDelay (px demo_store f) = 30 \<and> LastDelay (px demo_store 2) \<le> LastDelay (px demo_store f) + 15"
proof -
  have d: "LastDelay (px demo_store 0) = 30" "LastDelay (px demo_store (Suc 0)) = 0xffff" "LastDelay (px demo_store 2) = 40"
    by (simp_all add: demo_store_def demo_px_def NewProxy_def LastDelay_def Queue_Last_def)
  have n: "pn_alive (px demo_store (Suc 0)) = False" "pn_alive (px demo_store 2) = True" "pn_Name (px demo_store (Suc 0)) = ''b''"
    "pn_Name (px demo_store 2) = ''c''"
    by (simp_all add: demo_store_def demo_px_def NewProxy_def)
  have c: "fast_choice demo_store 15 (Some 2) [0, 1, 2] = Some 2"
    by (simp add: fast_choice_def d n Let_def)
  from url_test_choice [OF c] obtain f where
    f: "fastest demo_store [0, 1, 2] f" "2 = f \<or> LastDelay (px demo_store 2) \<le> LastDelay (px demo_store f) + 15" by blast
  then have "f = 0" using d by (auto simp: fastest_def)
  then show ?thesis using f d by auto
qed

text \<open>The first proxy of the list is never kept by the tolerance.\<close>

lemma first_is_not_kept:
  assumes "fast_choice w tolerance (Some p0) (p0 # rest) = Some r"
    and "\<forall>q\<in>set rest. pn_Name (px w q) \<noteq> pn_Name (px w p0)"
  shows "fastest w (p0 # rest) r"
  using fast_choice_spec [OF assms(1)] assms(2) by auto

text \<open>
  A first proxy that is not alive is chosen as long as no other proxy has a measured delay, although the others are alive.
\<close>

lemma fast_loop_unmeasured:
  assumes "\<forall>q\<in>set ps. LastDelay (px w q) = 0xffff"
  shows "\<exists>ne'. fast_loop w prev ps (f, 0xffff, ne) = (f, 0xffff, ne')"
  using assms by (induction ps arbitrary: ne) (auto simp: Let_def)

lemma dead_proxy_is_chosen:
  assumes "\<not> pn_alive (px w p0)" and "\<forall>q\<in>set rest. pn_history (px w q) = []"
  shows "fast_choice w tolerance None (p0 # rest) = Some p0"
proof -
  have "\<forall>q\<in>set rest. LastDelay (px w q) = 0xffff" using assms(2) by (simp add: LastDelay_def Queue_Last_def)
  from fast_loop_unmeasured [OF this, of None p0 True] show ?thesis using assms(1) by (auto simp: fast_choice_def)
qed

subsection \<open>Selector\<close>

text \<open>The proxies that so many calls of a selector use, at the given times and with the given touching.\<close>

fun selected_calls :: "(int \<times> bool) list \<Rightarrow> selector \<Rightarrow> store \<Rightarrow> (nat list \<times> store) option" where
  "selected_calls [] s w = Some ([], w)"
| "selected_calls ((now, touch) # ts) s w = do {
     (p, s1, w1) \<leftarrow> selectedProxy now touch s w;
     (ps, w2) \<leftarrow> selected_calls ts s1 w1;
     Some (p # ps, w2) }"

text \<open>A selector whose selection exists and whose kept proxy, if it can still be used, is the selected one.\<close>

definition selects :: "string \<Rightarrow> selector \<Rightarrow> store \<Rightarrow> bool" where
  "selects name s w \<longleftrightarrow>
     store_ok (gb_providers s) w \<and> sl_selected s = name \<and>
     (\<exists>p\<in>set (members (gb_providers s) w). pn_Name (px w p) = name) \<and>
     \<not> sd_call (sl_single s) \<and> sd_wait (sl_single s) \<le> epoch \<and>
     (sd_last (sl_single s) = 0 \<or>
      (\<exists>p\<in>set (members (gb_providers s) w). sd_result (sl_single s) = Some p \<and> pn_Name (px w p) = name))"

lemma selectedProxy_selects:
  assumes "selects name s w" and "epoch \<le> now"
  obtains p s1 w1 where "selectedProxy now touch s w = Some (p, s1, w1)" and "pn_Name (px w1 p) = name"
    and "selects name s1 w1" and "keeps w w1" and "p \<in> set (members (gb_providers s) w)"
proof (cases "now < sd_last (sl_single s) + sd_wait (sl_single s)")
  case True
  then obtain p where "p \<in> set (members (gb_providers s) w)" "sd_result (sl_single s) = Some p" "pn_Name (px w p) = name"
    using assms by (auto simp: selects_def)
  then show thesis using True assms(1)
    by (intro that [of p s w]) (simp_all add: selectedProxy_def Single_Do_def Do_enter_def)
next
  case False
  let ?is = "gb_providers s"
  have ok: "store_ok ?is w" and sel: "sl_selected s = name" using assms(1) by (simp_all add: selects_def)
  from ok have "\<forall>i\<in>set ?is. i < length (st_providers w) \<and> pv_filter (pv w i) = None" by (simp add: store_ok_def)
  from getProvidersProxies_members [OF this, of now touch] obtain w1 where
    w1: "getProvidersProxies now touch ?is w = Some (members ?is w, w1)" "st_proxies w1 = st_proxies w" "keeps w w1" by blast
  have ex: "\<exists>p\<in>set (members ?is w). pn_Name (px w1 p) = name" using assms(1) w1(2) by (simp add: selects_def)
  then obtain p where p: "List.find (\<lambda>p. pn_Name (px w1 p) = name) (members ?is w) = Some p"
    by (cases "List.find (\<lambda>p. pn_Name (px w1 p) = name) (members ?is w)") (auto simp: find_None_iff)
  from find_alive [OF p] have pm: "p \<in> set (members ?is w)" "pn_Name (px w1 p) = name" by blast+
  let ?s1 = "s\<lparr>sl_single := Do_leave now p ((sl_single s)\<lparr>sd_call := True\<rparr>)\<rparr>"
  have "selectedProxy now touch s w = Some (p, ?s1, w1)"
    using False assms(1) w1(1) p sel
    by (simp add: selectedProxy_def Single_Do_def Do_enter_def selected_run_def selects_def)
  moreover have "selects name ?s1 w1"
    using assms(1) pm ex keeps_members [OF w1(3) ok] by (auto simp: selects_def Do_leave_def)
  ultimately show thesis using pm w1(3) by (intro that) auto
qed

lemma selects_Set:
  assumes "Selector_Set now name s w = Some (True, s1, w1)" and "store_ok (gb_providers s) w"
    and "\<not> sd_call (sl_single s)" and "sd_wait (sl_single s) \<le> epoch"
  shows "selects name s1 w1"
proof -
  let ?is = "gb_providers s"
  from assms(2) have "\<forall>i\<in>set ?is. i < length (st_providers w) \<and> pv_filter (pv w i) = None" by (simp add: store_ok_def)
  from getProvidersProxies_members [OF this, of now False] obtain w2 where
    w2: "getProvidersProxies now False ?is w = Some (members ?is w, w2)" "keeps w w2" by blast
  then have "w1 = w2" "s1 = s\<lparr>sl_selected := name, sl_single := Single_Reset (sl_single s)\<rparr>"
    "\<exists>p\<in>set (members ?is w). pn_Name (px w2 p) = name"
    using assms(1) by (auto simp: Selector_Set_def split: if_splits)
  then show ?thesis using assms(3,4) keeps_members [OF w2(2) assms(2)] by (simp add: selects_def Single_Reset_def)
qed

text \<open>
  Setting the selection takes effect at once: from then on, whatever was kept before, every call of the selector
  returns, with a proxy of that name.
\<close>

theorem selection_takes_effect:
  assumes "store_ok (gb_providers s) w" and "\<not> sd_call (sl_single s)" and "sd_wait (sl_single s) \<le> epoch"
    and "Selector_Set now name s w = Some (True, s1, w1)" and "\<forall>t\<in>set ts. epoch \<le> fst t"
  shows "\<exists>ps w2. selected_calls ts s1 w1 = Some (ps, w2) \<and> length ps = length ts \<and> (\<forall>p\<in>set ps. pn_Name (px w2 p) = name)"
proof -
  have "selects name s1 w1" using selects_Set [OF assms(4,1,2,3)] .
  then have "\<exists>ps w2. selected_calls ts s1 w1 = Some (ps, w2) \<and> length ps = length ts \<and>
      (\<forall>p\<in>set ps. p < length (st_proxies w1) \<and> pn_Name (px w2 p) = name) \<and> keeps w1 w2"
    using assms(5)
  proof (induction ts arbitrary: s1 w1)
    case (Cons t ts)
    obtain now touch where t: "t = (now, touch)" by (cases t)
    from Cons.prems(2) have "epoch \<le> now" by (simp add: t)
    from selectedProxy_selects [OF Cons.prems(1) this, of touch] obtain p s2 w2 where
      p: "selectedProxy now touch s1 w1 = Some (p, s2, w2)" "pn_Name (px w2 p) = name" "selects name s2 w2" "keeps w1 w2"
        "p \<in> set (members (gb_providers s1) w1)" by blast
    have pl: "p < length (st_proxies w1)" using p(5) Cons.prems(1) by (simp add: selects_def store_ok_def)
    from Cons.IH [OF p(3)] Cons.prems(2) obtain ps w3 where
      w3: "selected_calls ts s2 w2 = Some (ps, w3)" "length ps = length ts"
        "\<forall>p\<in>set ps. p < length (st_proxies w2) \<and> pn_Name (px w3 p) = name" "keeps w2 w3" by auto
    have "pn_Name (px w3 p) = name" using keeps_name [OF w3(4), of p] keeps_length [OF p(4)] p(2) pl by simp
    then show ?case using p w3 pl keeps_trans [OF p(4) w3(4)] keeps_length [OF p(4)] by (simp add: t)
  qed simp
  then show ?thesis by blast
qed

text \<open>
  \<open>Set\<close> has no effect for five seconds when it overlaps a call: the call has entered \<open>Do\<close> and reads the old
  selection, \<open>Set\<close> resets the kept result, and the call then leaves with the old proxy and its time.
\<close>

theorem set_lost_in_overlap:
  assumes "store_ok (gb_providers s) w" and "single_ok (\<lambda>_. True) (sl_single s)" and "epoch \<le> t"
    and "\<not> t < sd_last (sl_single s) + sd_wait (sl_single s)"
    and "Selector_Set t name s w = Some (True, s1, w1)"
    and "selected_run t touch s w = Some (old, w2)"
    and "t \<le> t'" and "t' < t + sd_wait (sl_single s)"
  defines "entered \<equiv> (sl_single s)\<lparr>sd_call := True\<rparr>"
  shows "Do_enter t (sl_single s) = Some (Runs, entered)"
    and "Do_enter t' (Do_leave t old (Single_Reset entered)) = Some (Shared old, Do_leave t old (Single_Reset entered))"
  using assms by (simp_all add: Do_enter_def Do_leave_def Single_Reset_def single_ok_def)

subsection \<open>Runs of a group\<close>

definition base_of :: "pgroup \<Rightarrow> nat list" where
  "base_of g = (case g of GFallback f \<Rightarrow> gb_providers f | GURLTest u \<Rightarrow> gb_providers u
     | GLoadBalance l \<Rightarrow> gb_providers l | GSelector s \<Rightarrow> gb_providers s | GRelay r \<Rightarrow> gb_providers r)"

abbreviation members_of :: "pgroup \<Rightarrow> store \<Rightarrow> nat list" where
  "members_of g w \<equiv> members (base_of g) w"

text \<open>What is kept belongs to the group: the list of the members, or one of them.\<close>

definition pgroup_ok :: "pgroup \<Rightarrow> store \<Rightarrow> bool" where
  "pgroup_ok g w \<longleftrightarrow> store_ok (base_of g) w \<and> length (members_of g w) < 2 ^ 31 \<and>
     (let all = (=) (members_of g w); one = (\<lambda>p. p \<in> set (members_of g w)) in
      case g of
        GFallback f \<Rightarrow> single_ok all (fb_single f)
      | GURLTest u \<Rightarrow> single_ok all (ut_single u) \<and> single_ok one (ut_fastSingle u) \<and>
          (\<forall>n. ut_fastNode u = Some n \<longrightarrow> one n)
      | GLoadBalance l \<Rightarrow> single_ok all (lb_single l)
      | GSelector s \<Rightarrow> single_ok one (sl_single s)
      | GRelay r \<Rightarrow> single_ok all (rl_single r))"

lemma group_ok_keeps:
  assumes "pgroup_ok g w" and "keeps w w'"
  shows "pgroup_ok g w'" and "members_of g w' = members_of g w"
proof -
  have "store_ok (base_of g) w" using assms(1) by (simp add: pgroup_ok_def)
  note k = keeps_members [OF assms(2) this]
  show "members_of g w' = members_of g w" by (rule k)
  then show "pgroup_ok g w'" using assms(1) k(2) by (simp add: pgroup_ok_def Let_def)
qed

text \<open>A choice that ended well: a member was chosen, and the group and the store are as good as before.\<close>

definition chosen_ok :: "pgroup \<Rightarrow> store \<Rightarrow> (nat option \<times> pgroup \<times> store) option \<Rightarrow> bool" where
  "chosen_ok g w r \<longleftrightarrow> (\<exists>p g' w'. r = Some (Some p, g', w') \<and> p \<in> set (members_of g w) \<and> pgroup_ok g' w' \<and>
     base_of g' = base_of g \<and> group_name g' = group_name g \<and> keeps w w' \<and> st_proxies w' = st_proxies w)"

lemma group_ok_members: "pgroup_ok g w \<Longrightarrow> members_of g w \<noteq> [] \<and> length (members_of g w) < 2 ^ 31"
  by (simp add: pgroup_ok_def store_ok_def)

lemma Fallback_ok:
  assumes "pgroup_ok (GFallback f) w" and "epoch \<le> now"
  shows "chosen_ok (GFallback f) w (pick GFallback (findAliveProxy now touch f w))"
proof -
  let ?ps = "members (gb_providers f) w"
  have a: "store_ok (gb_providers f) w" "single_ok ((=) ?ps) (fb_single f)"
    using assms(1) by (simp_all add: pgroup_ok_def base_of_def Let_def)
  from group_proxies_members [OF a assms(2), of touch] obtain s' w' where
    w': "group_proxies now touch (gb_providers f) (fb_single f) w = Some (?ps, s', w')"
      "single_ok ((=) ?ps) s'" "st_proxies w' = st_proxies w" "keeps w w'" .
  from fallback_choice.chooses [of ?ps w'] obtain p where p: "p \<in> set ?ps" "first_alive w' ?ps = Some p"
    using group_ok_members [OF assms(1)] by (auto simp: base_of_def)
  show ?thesis
    using w' p keeps_members [OF w'(4) a(1)] group_ok_members [OF assms(1)]
    by (simp add: chosen_ok_def pick_def findAliveProxy_def pgroup_ok_def base_of_def Let_def group_name_def)
qed

lemma LoadBalance_ok:
  assumes "pgroup_ok (GLoadBalance l) w" and "epoch \<le> now"
  shows "chosen_ok (GLoadBalance l) w (pick GLoadBalance (LoadBalance_Unwrap etld now m l w))"
proof -
  let ?ps = "members (gb_providers l) w"
  have a: "store_ok (gb_providers l) w" "single_ok ((=) ?ps) (lb_single l)"
    using assms(1) by (simp_all add: pgroup_ok_def base_of_def Let_def)
  have len: "?ps \<noteq> []" "length ?ps < 2 ^ 31" using group_ok_members [OF assms(1)] by (simp_all add: base_of_def)
  from group_proxies_members [OF a assms(2), of True] obtain s' w' where
    w': "group_proxies now True (gb_providers l) (lb_single l) w = Some (?ps, s', w')"
      "single_ok ((=) ?ps) s'" "st_proxies w' = st_proxies w" "keeps w w'" .
  note rest = w' keeps_members [OF w'(4) a(1)] len
  show ?thesis
  proof (cases "lb_strategyFn l")
    case (RoundRobin idx)
    from round_robin.chooses [where w = w' and idx = idx, OF len] obtain p idx' where
      "p \<in> set ?ps" "strategyRoundRobin w' ?ps idx = Some (p, idx')" by auto
    then show ?thesis using rest RoundRobin
      by (simp add: chosen_ok_def pick_def LoadBalance_Unwrap_def pgroup_ok_def base_of_def Let_def group_name_def)
  next
    case ConsistentHashing
    from consistent_hashing.chooses [where w = w' and etld = etld and m = m, OF len] obtain p where
      "p \<in> set ?ps" "strategyConsistentHashing etld w' ?ps m = Some p" by auto
    then show ?thesis using rest ConsistentHashing
      by (simp add: chosen_ok_def pick_def LoadBalance_Unwrap_def pgroup_ok_def base_of_def Let_def group_name_def)
  qed
qed

lemma Selector_ok:
  assumes "pgroup_ok (GSelector s) w" and "epoch \<le> now"
  shows "chosen_ok (GSelector s) w (pick GSelector (selectedProxy now touch s w))"
proof -
  let ?is = "gb_providers s" let ?one = "\<lambda>p. p \<in> set (members ?is w)"
  have a: "store_ok ?is w" "single_ok ?one (sl_single s)"
    using assms(1) by (simp_all add: pgroup_ok_def base_of_def Let_def)
  then have "\<forall>i\<in>set ?is. i < length (st_providers w) \<and> pv_filter (pv w i) = None" by (simp add: store_ok_def)
  from getProvidersProxies_members [OF this, of now touch] obtain w1 where
    w1: "getProvidersProxies now touch ?is w = Some (members ?is w, w1)" "st_proxies w1 = st_proxies w" "keeps w w1" by blast
  have "members ?is w \<noteq> []" using a(1) by (simp add: store_ok_def)
  then obtain p where p: "selected_run now touch s w = Some (p, w1)" "?one p"
    using w1(1) by (cases "List.find (\<lambda>p. pn_Name (px w1 p) = sl_selected s) (members ?is w)")
      (auto simp: selected_run_def neq_Nil_conv dest: find_alive)
  from Single_Do_ok [where P = ?one and f = "selected_run now touch s", OF a(2) assms(2) p] obtain u sh s' w'' where
    "Single_Do now (selected_run now touch s) (sl_single s) w = Some (u, sh, s', w'')" "?one u" "single_ok ?one s'"
    "sh \<and> w'' = w \<or> \<not> sh \<and> w'' = w1 \<and> u = p" by blast
  then show ?thesis using w1(2,3) keeps_members [OF w1(3) a(1)] a(1) group_ok_members [OF assms(1)]
    by (auto simp: chosen_ok_def pick_def selectedProxy_def pgroup_ok_def base_of_def Let_def group_name_def)
qed

lemma fast_run_ok:
  assumes "pgroup_ok (GURLTest u) w" and "epoch \<le> now"
  obtains n s w' where "fast_run now touch (u, w) = Some (n, u\<lparr>ut_single := s, ut_fastNode := Some n\<rparr>, w')"
    and "n \<in> set (members (gb_providers u) w)" and "single_ok ((=) (members (gb_providers u) w)) s"
    and "keeps w w'" and "st_proxies w' = st_proxies w"
proof -
  let ?ps = "members (gb_providers u) w"
  have a: "store_ok (gb_providers u) w" "single_ok ((=) ?ps) (ut_single u)"
    "\<forall>n. ut_fastNode u = Some n \<longrightarrow> n \<in> set ?ps"
    using assms(1) by (simp_all add: pgroup_ok_def base_of_def Let_def)
  from group_proxies_members [OF a(1,2) assms(2), of touch] obtain s' w' where
    w': "group_proxies now touch (gb_providers u) (ut_single u) w = Some (?ps, s', w')"
      "single_ok ((=) ?ps) s'" "st_proxies w' = st_proxies w" "keeps w w'" .
  have "?ps \<noteq> []" using a(1) by (simp add: store_ok_def)
  then have "\<exists>n. fast_choice w' (ut_tolerance u) (ut_fastNode u) ?ps = Some n"
    by (auto simp: fast_choice_def neq_Nil_conv split: prod.splits option.splits)
  then obtain n where n: "fast_choice w' (ut_tolerance u) (ut_fastNode u) ?ps = Some n" ..
  from fast_choice_spec [OF this] a(3) have "n \<in> set ?ps" by (auto simp: fastest_def)
  then show thesis using w' n by (intro that [of n s' w']) (simp_all add: fast_run_def)
qed

lemma URLTest_ok:
  assumes "pgroup_ok (GURLTest u) w" and "epoch \<le> now"
  shows "chosen_ok (GURLTest u) w (pick GURLTest (URLTest_fast now touch u w))"
proof -
  let ?ps = "members (gb_providers u) w" let ?one = "\<lambda>p. p \<in> set ?ps"
  have a: "store_ok (gb_providers u) w" "single_ok ((=) ?ps) (ut_single u)" "single_ok ?one (ut_fastSingle u)"
    "\<forall>n. ut_fastNode u = Some n \<longrightarrow> ?one n" "length ?ps < 2 ^ 31"
    using assms(1) by (simp_all add: pgroup_ok_def base_of_def Let_def)
  from fast_run_ok [OF assms, of touch] obtain n s w1 where
    f: "fast_run now touch (u, w) = Some (n, (u\<lparr>ut_single := s, ut_fastNode := Some n\<rparr>, w1))" and n: "?one n"
    and s: "single_ok ((=) ?ps) s" and k: "keeps w w1" "st_proxies w1 = st_proxies w" by (metis (no_types))
  from Single_Do_ok [where P = ?one and f = "fast_run now touch", OF a(3) assms(2) f n] obtain v sh s' x where
    d: "Single_Do now (fast_run now touch) (ut_fastSingle u) (u, w) = Some (v, sh, s', x)" and v: "?one v"
      and s': "single_ok ?one s'"
      and x: "sh \<and> x = (u, w) \<or> \<not> sh \<and> x = (u\<lparr>ut_single := s, ut_fastNode := Some n\<rparr>, w1) \<and> v = n" by blast
  have t: "keeps w (touchProviders now (gb_providers u) w)"
    "st_proxies (touchProviders now (gb_providers u) w) = st_proxies w" using touchProviders_store by blast+
  show ?thesis using x
  proof (elim disjE conjE)
    assume "sh" "x = (u, w)"
    then show ?thesis using d v s' a t keeps_members [OF t(1) a(1)]
      by (simp add: chosen_ok_def pick_def URLTest_fast_def pgroup_ok_def base_of_def Let_def group_name_def)
  next
    assume "\<not> sh" "x = (u\<lparr>ut_single := s, ut_fastNode := Some n\<rparr>, w1)" "v = n"
    then show ?thesis using d v s' a n s k keeps_members [OF k(1) a(1)]
      by (simp add: chosen_ok_def pick_def URLTest_fast_def pgroup_ok_def base_of_def Let_def group_name_def)
  qed
qed

lemma Unwrap_ok:
  assumes "pgroup_ok g w" and "epoch \<le> now" and "\<forall>r. g \<noteq> GRelay r"
  shows "chosen_ok g w (Unwrap etld now m g w)"
  using assms Fallback_ok LoadBalance_ok Selector_ok URLTest_ok by (cases g) (simp_all add: Unwrap_def)

lemma choose_untouched_ok:
  assumes "pgroup_ok g w" and "epoch \<le> now" and "\<forall>r. g \<noteq> GRelay r" and "\<forall>l. g \<noteq> GLoadBalance l"
  shows "chosen_ok g w (choose_untouched now g w)"
  using assms Fallback_ok Selector_ok URLTest_ok by (cases g) (simp_all add: choose_untouched_def)

lemma chosen_okE:
  assumes "chosen_ok g w r"
  obtains p g' w' where "r = Some (Some p, g', w')" and "p \<in> set (members_of g w)" and "pgroup_ok g' w'"
    and "keeps w w'" and "st_proxies w' = st_proxies w" and "base_of g' = base_of g" and "group_name g' = group_name g"
  using assms by (auto simp: chosen_ok_def)

lemma Dial_name [simp]: "pn_Name (snd (Proxy_DialContext r n)) = pn_Name n"
  "pn_Name (snd (Proxy_ListenPacketContext r n)) = pn_Name n"
  by (simp_all add: Proxy_DialContext_def Proxy_ListenPacketContext_def)

lemma dialled_ok:
  assumes "pgroup_ok g w" and "keeps w w'"
  shows "pgroup_ok g w'"
  using group_ok_keeps [OF assms] by blast

lemma Group_Dial_ok:
  assumes "pgroup_ok g w" and "epoch \<le> now"
  shows "\<exists>r g' w'. Group_DialContext etld D now m g w = Some (r, g', w') \<and> pgroup_ok g' w'"
proof (cases "\<exists>rl. g = GRelay rl")
  case True
  then obtain rl where g: "g = GRelay rl" by blast
  let ?ps = "members (gb_providers rl) w"
  have a: "store_ok (gb_providers rl) w" "single_ok ((=) ?ps) (rl_single rl)"
    using assms(1) by (simp_all add: g pgroup_ok_def base_of_def Let_def)
  from group_proxies_members [OF a assms(2), of True] obtain s' w1 where
    w1: "group_proxies now True (gb_providers rl) (rl_single rl) w = Some (?ps, s', w1)"
      "single_ok ((=) ?ps) s'" "st_proxies w1 = st_proxies w" "keeps w w1" .
  let ?g = "GRelay (rl\<lparr>rl_single := s'\<rparr>)"
  have ok: "pgroup_ok ?g w1" using w1 keeps_members [OF w1(4) a(1)] group_ok_members [OF assms(1)]
    by (simp add: g pgroup_ok_def base_of_def Let_def)
  obtain r hops w2 where c: "relay_connect D (gb_Name rl) m (filter (\<lambda>p. pn_Type (px w1 p) \<noteq> Direct) ?ps) w1 = (r, hops, w2)"
    by (metis prod_cases3)
  have "keeps w1 w2"
    using c by (auto simp: relay_connect_def Let_def split: list.splits if_splits prod.splits sum.splits)
      (metis Dial_name(1) set_px_keeps snd_conv)
  then have "pgroup_ok ?g w2" by (rule dialled_ok [OF ok])
  then show ?thesis using w1(1) c by (simp add: g Group_DialContext_def Relay_DialContext_def)
next
  case False
  then have "\<forall>r. g \<noteq> GRelay r" by blast
  from chosen_okE [OF Unwrap_ok [OF assms this, of etld m]] obtain p g' w1 where
    u: "Unwrap etld now m g w = Some (Some p, g', w1)" "pgroup_ok g' w1" .
  let ?n = "snd (Proxy_DialContext (de_dial D p) (px w1 p))"
  have "pgroup_ok g' (set_px p ?n w1)" by (rule dialled_ok [OF u(2)]) simp
  then show ?thesis using False u(1) by (cases g) (simp_all add: Group_DialContext_def split_beta)
qed

lemma Group_Listen_ok:
  assumes "pgroup_ok g w" and "epoch \<le> now"
  shows "\<exists>r g' w'. Group_ListenPacketContext etld D now m g w = Some (r, g', w') \<and> pgroup_ok g' w'"
proof (cases "\<exists>rl. g = GRelay rl")
  case True
  then show ?thesis using assms(1) by (auto simp: Group_ListenPacketContext_def)
next
  case False
  then have "\<forall>r. g \<noteq> GRelay r" by blast
  from chosen_okE [OF Unwrap_ok [OF assms this, of etld m]] obtain p g' w1 where
    u: "Unwrap etld now m g w = Some (Some p, g', w1)" "pgroup_ok g' w1" .
  let ?n = "snd (Proxy_ListenPacketContext (de_listen D p) (px w1 p))"
  have "pgroup_ok g' (set_px p ?n w1)" by (rule dialled_ok [OF u(2)]) simp
  then show ?thesis using False u(1) by (cases g) (simp_all add: Group_ListenPacketContext_def split_beta)
qed

lemma Group_Udp_ok:
  assumes "pgroup_ok g w" and "epoch \<le> now"
  shows "\<exists>b g' w'. Group_SupportUDP now g w = Some (b, g', w') \<and> pgroup_ok g' w'"
proof (cases "(\<exists>rl. g = GRelay rl) \<or> (\<exists>l. g = GLoadBalance l)")
  case True
  then show ?thesis using assms(1) by (auto simp: Group_SupportUDP_def)
next
  case False
  then have "\<forall>r. g \<noteq> GRelay r" "\<forall>l. g \<noteq> GLoadBalance l" by blast+
  from chosen_okE [OF choose_untouched_ok [OF assms this]] obtain p g' w1 where
    "choose_untouched now g w = Some (Some p, g', w1)" "pgroup_ok g' w1" .
  then show ?thesis using False assms(1) by (cases g) (auto simp: Group_SupportUDP_def)
qed

lemma URLTest_name [simp]: "pn_Name (snd (Proxy_URLTest url_Parse url r n)) = pn_Name n"
  by (simp add: Proxy_URLTest_def Let_def split: option.splits)

lemma hc_check_keeps: "keeps w (hc_check url_Parse run url ps w)"
proof (induction ps arbitrary: w)
  case (Cons p ps)
  let ?w = "set_px p (snd (Proxy_URLTest url_Parse url (run p) (px w p))) w"
  have "keeps w ?w" by simp
  from keeps_trans [OF this Cons.IH [of ?w]] show ?case by simp
qed simp

lemma hc_tick_keeps: "keeps w (hc_tick url_Parse run now i w)"
  by (simp add: hc_tick_def checkAll_def Let_def hc_check_keeps)

text \<open>What can happen to a group: connections, the question whether it carries UDP, and ticks of a health check.\<close>

datatype group_event =
  EvDial "string dial_env" int metadata
| EvListen "string dial_env" int metadata
| EvUdp int
| EvTick "string \<Rightarrow> test_url option" "nat \<Rightarrow> test_run" int nat

fun event_time :: "group_event \<Rightarrow> int" where
  "event_time (EvDial D now m) = now"
| "event_time (EvListen D now m) = now"
| "event_time (EvUdp now) = now"
| "event_time (EvTick url_Parse run now i) = now"

fun group_step :: "(string \<Rightarrow> string option) \<Rightarrow> group_event \<Rightarrow> pgroup \<times> store \<Rightarrow> (pgroup \<times> store) option" where
  "group_step etld (EvDial D now m) (g, w) = map_option snd (Group_DialContext etld D now m g w)"
| "group_step etld (EvListen D now m) (g, w) = map_option snd (Group_ListenPacketContext etld D now m g w)"
| "group_step etld (EvUdp now) (g, w) = map_option snd (Group_SupportUDP now g w)"
| "group_step etld (EvTick url_Parse run now i) (g, w) = Some (g, hc_tick url_Parse run now i w)"

fun group_run :: "(string \<Rightarrow> string option) \<Rightarrow> group_event list \<Rightarrow> pgroup \<times> store \<Rightarrow> (pgroup \<times> store) option" where
  "group_run etld [] s = Some s"
| "group_run etld (e # es) s = do { s' \<leftarrow> group_step etld e s; group_run etld es s' }"

lemma group_step_ok:
  assumes "pgroup_ok g w" and "epoch \<le> event_time e"
  shows "\<exists>g' w'. group_step etld e (g, w) = Some (g', w') \<and> pgroup_ok g' w'"
proof (cases e)
  case (EvDial D now m)
  then show ?thesis using Group_Dial_ok [OF assms(1), of now etld D m] assms(2) by auto
next
  case (EvListen D now m)
  then show ?thesis using Group_Listen_ok [OF assms(1), of now etld D m] assms(2) by auto
next
  case (EvUdp now)
  then show ?thesis using Group_Udp_ok [OF assms(1), of now] assms(2) by auto
next
  case (EvTick url_Parse run now i)
  then show ?thesis using dialled_ok [OF assms(1) hc_tick_keeps] by simp
qed

lemma group_run_ok:
  assumes "pgroup_ok g w" and "\<forall>e\<in>set es. epoch \<le> event_time e"
  shows "\<exists>g' w'. group_run etld es (g, w) = Some (g', w') \<and> pgroup_ok g' w'"
  using assms
proof (induction es arbitrary: g w)
  case (Cons e es)
  from group_step_ok [OF Cons.prems(1), of e etld] Cons.prems(2) obtain g1 w1 where
    "group_step etld e (g, w) = Some (g1, w1)" "pgroup_ok g1 w1" by auto
  with Cons.IH [of g1 w1] Cons.prems(2) show ?case by simp
qed simp

subsection \<open>The group of the automatic mode\<close>

definition auto_types :: "string list" where
  "auto_types = [''url-test'', ''select'', ''fallback'', ''load-balance'', ''relay'']"

lemma getProxies_all:
  "\<forall>i\<in>set ids. \<exists>p. mapping i = Some p \<Longrightarrow> getProxies mapping ids = Inr (map (the \<circ> mapping) ids)"
  by (induction ids) auto

lemma auto_made:
  assumes "ids \<noteq> []" and "length ids < 2 ^ 31" and "\<forall>i\<in>set ids. \<exists>p. proxyMap i = Some p \<and> p < length (st_proxies w)"
    and "tp \<in> set auto_types" and "url \<noteq> []"
  shows "\<exists>g pm w'. ParseProxyGroup Compile now (Some (auto_group ids url tp)) proxyMap Map.empty w = Some (Inr g, pm, w') \<and>
    pgroup_ok g w' \<and> members_of g w' = map (the \<circ> proxyMap) ids"
proof -
  let ?opt = "auto_group ids url tp" let ?ps = "map (the \<circ> proxyMap) ids" let ?k = "length (st_providers w)"
  have ps: "getProxies proxyMap ids = Inr ?ps" using assms(3) by (intro getProxies_all) blast
  define hc where "hc = (if tp = ''select'' \<or> tp = ''relay'' then NewHealthCheck ?ps [] 0 True
      else NewHealthCheck ?ps url (unat (of_int 300 :: 64 word)) True)"
  define pr where "pr = \<lparr>pv_name = ''auto'', pv_VehicleType = VCompatible, pv_proxies = ?ps, pv_healthCheck = hc, pv_filter = None\<rparr>"
  define w1 where "w1 = w\<lparr>st_providers := st_providers w @ [pr]\<rparr>"
  have own: "own_provider ?opt proxyMap Map.empty w = Inr ([?k], [''auto'' \<mapsto> ?k], w1)"
    using assms(1,5) ps
    by (auto simp: own_provider_def auto_group_def NewCompatibleProvider_def add_provider_def hc_def pr_def w1_def Let_def)
  have parse: "ParseProxyGroup Compile now (Some ?opt) proxyMap Map.empty w =
      (case make_group now ?opt [?k] w1 of None \<Rightarrow> None | Some (r, w2) \<Rightarrow> Some (r, [''auto'' \<mapsto> ?k], w2))"
    using assms(1,4) own
    by (auto simp: ParseProxyGroup_def auto_group_def auto_types_def Let_def Option.bind_eq_None_conv split: option.splits)
  have mem: "members [?k] w1 = ?ps" by (simp add: members_def w1_def pr_def)
  have ok: "store_ok [?k] w1"
    using assms(1,3) by (auto simp: store_ok_def mem) (simp_all add: w1_def pr_def, force)
  have sel: "NewSelector now ''auto'' False [?k] w1 = Some (\<lparr>gb_Name = ''auto'', gb_disableUDP = False, gb_providers = [?k],
      sl_single = NewSingle defaultGetProxiesDuration, sl_selected = pn_Name (px w1 (hd ?ps))\<rparr>, w1)"
    using assms(1) by (cases ids) (simp_all add: NewSelector_def Provider_Proxies_def w1_def pr_def)
  show ?thesis
    using assms(2,4) parse ok mem sel
    by (auto simp: auto_types_def make_group_def auto_group_def pgroup_ok_def base_of_def Let_def NewURLTest_def NewFallback_def
        NewLoadBalance_def NewRelay_def defaultGetProxiesDuration_def epoch_def)
qed

text \<open> C30. The automatic mode makes its group from the proxies of the configuration when all identifiers are known, and no
  sequence of connections, questions and health checks then makes the group panic or wait for ever.
\<close>

theorem group_never_panics:
  assumes "ids \<noteq> []" and "length ids < 2 ^ 31" and "\<forall>i\<in>set ids. \<exists>p. proxyMap i = Some p \<and> p < length (st_proxies w)"
    and "tp \<in> set auto_types" and "url \<noteq> []" and "\<forall>e\<in>set es. epoch \<le> event_time e"
  shows "\<exists>g pm w' r. ParseProxyGroup Compile now (Some (auto_group ids url tp)) proxyMap Map.empty w = Some (Inr g, pm, w') \<and>
    group_run etld es (g, w') = Some r"
proof -
  from auto_made [OF assms(1-5), of Compile now] obtain g pm w' where
    "ParseProxyGroup Compile now (Some (auto_group ids url tp)) proxyMap Map.empty w = Some (Inr g, pm, w')" "pgroup_ok g w'"
    by blast
  with group_run_ok [OF this(2) assms(6), of etld] show ?thesis by blast
qed

lemma Unwrap_avoids_dead:
  assumes "pgroup_ok g w" and "(\<exists>f. g = GFallback f) \<or> (\<exists>l. g = GLoadBalance l)" and "epoch \<le> now"
    and "\<not> pn_alive (px w p)" and "q \<in> set (members_of g w)" and "pn_alive (px w q)"
  shows "\<exists>p' g' w'. Unwrap etld now m g w = Some (Some p', g', w') \<and> p' \<noteq> p \<and> pn_alive (px w' p')"
proof -
  have len: "length (members_of g w) < 2 ^ 31" using group_ok_members [OF assms(1)] by blast
  from assms(2) show ?thesis
  proof (elim disjE exE)
    fix f assume g: "g = GFallback f"
    have "store_ok (gb_providers f) w" "single_ok ((=) (members (gb_providers f) w)) (fb_single f)"
      using assms(1) by (simp_all add: g pgroup_ok_def base_of_def Let_def)
    from group_proxies_members [OF this assms(3), of True] obtain s' w' where
      w': "group_proxies now True (gb_providers f) (fb_single f) w = Some (members (gb_providers f) w, s', w')"
        "st_proxies w' = st_proxies w" .
    have al: "\<not> pn_alive (px w' p)" "pn_alive (px w' q)" using assms(4,6) w'(2) by simp_all
    from fallback_choice.avoids_dead [OF len al(1) assms(5) al(2)] obtain p' where
      "first_alive w' (members_of g w) = Some p'" "p' \<noteq> p" "pn_alive (px w' p')" .
    then show ?thesis using w' by (simp add: g Unwrap_def pick_def findAliveProxy_def base_of_def)
  next
    fix l assume g: "g = GLoadBalance l"
    have "store_ok (gb_providers l) w" "single_ok ((=) (members (gb_providers l) w)) (lb_single l)"
      using assms(1) by (simp_all add: g pgroup_ok_def base_of_def Let_def)
    from group_proxies_members [OF this assms(3), of True] obtain s' w' where
      w': "group_proxies now True (gb_providers l) (lb_single l) w = Some (members (gb_providers l) w, s', w')"
        "st_proxies w' = st_proxies w" .
    have al: "\<not> pn_alive (px w' p)" "pn_alive (px w' q)" using assms(4,6) w'(2) by simp_all
    show ?thesis
    proof (cases "lb_strategyFn l")
      case (RoundRobin idx)
      from round_robin.avoids_dead [where idx = idx, OF len al(1) assms(5) al(2)] obtain p' where
        "map_option fst (strategyRoundRobin w' (members_of g w) idx) = Some p'" "p' \<noteq> p" "pn_alive (px w' p')" .
      then show ?thesis using w' RoundRobin by (auto simp: g Unwrap_def pick_def LoadBalance_Unwrap_def base_of_def)
    next
      case ConsistentHashing
      from consistent_hashing.avoids_dead [where etld = etld and m = m, OF len al(1) assms(5) al(2)]
      obtain p' where "strategyConsistentHashing etld w' (members_of g w) m = Some p'" "p' \<noteq> p" "pn_alive (px w' p')" .
      then show ?thesis using w' ConsistentHashing by (simp add: g Unwrap_def pick_def LoadBalance_Unwrap_def base_of_def)
    qed
  qed
qed

text \<open> C31. A proxy through which a fallback or a load balancing group could not dial is not chosen again by the next call
  while another member of the group is alive; the one chosen then is alive.
\<close>

theorem group_fails_over:
  assumes "pgroup_ok g w" and "(\<exists>f. g = GFallback f) \<or> (\<exists>l. g = GLoadBalance l)" and "epoch \<le> now" and "epoch \<le> now'"
    and "Group_DialContext etld D now m g w = Some (Inl e, g2, w2)"
    and "Unwrap etld now m g w = Some (Some p, g1, w1)"
    and "q \<in> set (members_of g w)" and "q \<noteq> p" and "pn_alive (px w q)"
  shows "\<exists>p' g3 w3. Unwrap etld now' m' g2 w2 = Some (Some p', g3, w3) \<and> p' \<noteq> p \<and> pn_alive (px w3 p')"
proof -
  have nr: "\<forall>r. g \<noteq> GRelay r" using assms(2) by auto
  from chosen_okE [OF Unwrap_ok [OF assms(1,3) nr, of etld m]] assms(6)
  have g1: "pgroup_ok g1 w1" "keeps w w1" "st_proxies w1 = st_proxies w" "base_of g1 = base_of g" "p \<in> set (members_of g w)"
    by (metis option.inject prod.inject)+
  obtain a where a: "de_dial D p = Inl a" "g2 = g1" "w2 = set_px p (snd (Proxy_DialContext (Inl a) (px w1 p))) w1"
    using assms(2,5,6) by (cases "de_dial D p") (auto simp: Group_DialContext_def Proxy_DialContext_def)
  have k2: "keeps w1 w2" unfolding a(3) by simp
  have ok2: "pgroup_ok g2 w2" unfolding a(2) by (rule dialled_ok [OF g1(1) k2])
  have mem: "members_of g2 w2 = members_of g w"
    using group_ok_keeps(2) [OF assms(1) keeps_trans [OF g1(2) k2]] g1(4) by (simp add: a(2))
  have shape: "(\<exists>f. g2 = GFallback f) \<or> (\<exists>l. g2 = GLoadBalance l)"
    using assms(2,6) by (auto simp: a(2) Unwrap_def pick_def LoadBalance_Unwrap_def split: bind_splits lb_strategy.splits)
  have "p < length (st_proxies w)" using g1(5) assms(1) by (auto simp: pgroup_ok_def store_ok_def)
  then have "\<not> pn_alive (px w2 p)" "pn_alive (px w2 q)"
    using assms(8,9) g1(3) by (simp_all add: a(3) set_px_def Proxy_DialContext_def)
  with Unwrap_avoids_dead [OF ok2 shape assms(4), of p q etld m'] assms(7) mem show ?thesis by simp
qed

definition demo_groups :: store where
  "demo_groups = demo_store\<lparr>st_providers := [\<lparr>pv_name = ''auto'', pv_VehicleType = VCompatible, pv_proxies = [0, 1, 2],
     pv_healthCheck = NewHealthCheck [0, 1, 2] ''u'' 300 True, pv_filter = None\<rparr>]\<rparr>"

definition demo_fallback :: pgroup where
  "demo_fallback = GFallback (NewFallback ''auto'' False [0])"

definition demo_dial :: "string dial_env" where
  "demo_dial = \<lparr>de_dial = (\<lambda>_. Inl ''refused''), de_listen = (\<lambda>_. Inl ''refused''), de_tcp = (\<lambda>_. False),
     de_StreamConn = (\<lambda>_ _. False), de_direct = Inl ''refused''\<rparr>"

lemmas demo_defs = demo_groups_def demo_store_def demo_px_def NewProxy_def

lemma demo_members: "members [0] demo_groups = [0, 1, 2]"
  by (simp add: members_def demo_groups_def)

lemma demo_store_ok: "store_ok [0] demo_groups"
  by (simp add: store_ok_def demo_members) (simp add: demo_groups_def demo_store_def)

lemma demo_group_ok: "pgroup_ok demo_fallback demo_groups"
  by (simp add: demo_fallback_def pgroup_ok_def base_of_def NewFallback_def demo_members demo_store_ok Let_def
      defaultGetProxiesDuration_def epoch_def)

theorem group_fails_over_witness:
  "\<exists>g2 w2 p' g3 w3.
     Group_DialContext (\<lambda>_. None) demo_dial epoch (target_metadata ''a.com'' [] 443) demo_fallback demo_groups =
       Some (Inl (AdapterError ''refused''), g2, w2) \<and>
     Unwrap (\<lambda>_. None) (epoch + 1) (target_metadata ''a.com'' [] 443) g2 w2 = Some (Some p', g3, w3) \<and>
     p' \<noteq> 0 \<and> pn_alive (px w3 p')"
proof -
  let ?m = "target_metadata ''a.com'' [] 443"
  obtain g1 w1 where u: "Unwrap (\<lambda>_. None) epoch ?m demo_fallback demo_groups = Some (Some 0, g1, w1)"
    by (simp add: Unwrap_def pick_def demo_fallback_def findAliveProxy_def NewFallback_def group_proxies_def Single_Do_def
        Do_enter_def NewSingle_def defaultGetProxiesDuration_def epoch_def Provider_Touch_def touch_plain_def
        Provider_Proxies_def set_pv_def first_alive_def demo_defs)
  then obtain g2 w2 where d: "Group_DialContext (\<lambda>_. None) demo_dial epoch ?m demo_fallback demo_groups =
      Some (Inl (AdapterError ''refused''), g2, w2)"
    by (simp add: Group_DialContext_def demo_fallback_def demo_dial_def Proxy_DialContext_def)
  have q: "2 \<in> set (members_of demo_fallback demo_groups)" "(2::nat) \<noteq> 0" "pn_alive (px demo_groups 2)"
    by (simp_all add: demo_fallback_def base_of_def NewFallback_def demo_members) (simp add: demo_defs)
  have g: "(\<exists>f. demo_fallback = GFallback f) \<or> (\<exists>l. demo_fallback = GLoadBalance l)" by (simp add: demo_fallback_def)
  from group_fails_over [OF demo_group_ok g _ _ d u q, of "epoch + 1" ?m] d show ?thesis by auto
qed

theorem group_never_panics_witness:
  "\<exists>g pm w' r. ParseProxyGroup (\<lambda>_. None) 0 (Some (auto_group [''i''] ''http://a'' ''url-test'')) [''i'' \<mapsto> 0] Map.empty
       demo_store = Some (Inr g, pm, w') \<and>
     group_run (\<lambda>_. None) [EvDial demo_dial epoch (target_metadata ''a.com'' [] 443), EvUdp (epoch + 1)] (g, w') = Some r"
proof (rule group_never_panics)
  show "\<forall>i\<in>set [''i'']. \<exists>p. [''i'' \<mapsto> 0] i = Some p \<and> p < length (st_proxies demo_store)"
    by (simp add: demo_store_def)
qed (simp_all add: auto_types_def)

theorem selection_takes_effect_witness:
  "\<exists>s1 w1 ps w2. Selector_Set epoch ''c'' (\<lparr>gb_Name = ''auto'', gb_disableUDP = False, gb_providers = [0],
       sl_single = NewSingle defaultGetProxiesDuration, sl_selected = ''a''\<rparr>) demo_groups = Some (True, s1, w1) \<and>
     selected_calls [(epoch, True), (epoch + 1, False)] s1 w1 = Some (ps, w2) \<and> (\<forall>p\<in>set ps. pn_Name (px w2 p) = ''c'')"
proof -
  let ?s = "\<lparr>gb_Name = ''auto'', gb_disableUDP = False, gb_providers = [0],
       sl_single = NewSingle defaultGetProxiesDuration, sl_selected = ''a''\<rparr>"
  obtain s1 w1 where set: "Selector_Set epoch ''c'' ?s demo_groups = Some (True, s1, w1)"
    by (simp add: Selector_Set_def Provider_Proxies_def demo_defs)
  have "store_ok (gb_providers ?s) demo_groups" "\<not> sd_call (sl_single ?s)" "sd_wait (sl_single ?s) \<le> epoch"
    by (simp_all add: demo_store_ok NewSingle_def defaultGetProxiesDuration_def epoch_def)
  from selection_takes_effect [OF this set, of "[(epoch, True), (epoch + 1, False)]"] set show ?thesis by auto
qed

end
