(* ===== verification/Framing.thy ===== *)
theory Framing
  imports NetIO
begin

text \<open>
  What the encrypting and framing connections of \<open>src/pkg/clash/transport/\<close> share: plain reads of a connection,
  errors that are replaced on the way, the interface of an AEAD cipher (\<open>crypto/cipher\<close>, a parameter with its
  documented behaviour), and the contract of a record layer, a writer that cuts a stream into records and a reader
  that takes them apart again into a buffer. Its lemmas give each such layer the round trip of a byte stream.
\<close>

subsection \<open>Reads and errors\<close>

text \<open>
  \<open>Read\<close> of a connection into a buffer of \<open>n\<close> bytes: some of the bytes that have arrived, at least one. The first
  argument says how many the system has at hand.
\<close>

definition conn_Read :: "nat \<Rightarrow> nat \<Rightarrow> u8 list io" where
  "conn_Read avail n s =
     (if c_in s = [] then (Inl EOF, s)
      else let k = min n (max 1 avail) in (Inr (take k (c_in s)), s\<lparr>c_in := drop k (c_in s)\<rparr>))"

text \<open>
  A read returns a count of bytes and an error; the bytes are those at the front of the buffer. \<open>io.ReadFull\<close> that
  fails returns what there was.
\<close>

type_synonym read_result = "u8 list \<times> io_error option"

definition full_read :: "nat \<Rightarrow> io_conn \<Rightarrow> read_result \<times> io_conn" where
  "full_read n c = (case ReadFull n c of (Inr b, c') \<Rightarrow> ((b, None), c') | (Inl e, c') \<Rightarrow> ((c_in c, Some e), c'))"

lemma full_read_append: "n \<le> length bs \<Longrightarrow> full_read n \<lparr>c_in = bs @ rest, c_out = w, c_writes = l\<rparr> =
    ((take n bs, None), \<lparr>c_in = drop n bs @ rest, c_out = w, c_writes = l\<rparr>)"
  by (simp add: full_read_def ReadFull_def)

text \<open>A computation whose errors are replaced.\<close>

definition io_err :: "('e \<Rightarrow> 'f) \<Rightarrow> ('s, 'e, 'a) comp \<Rightarrow> ('s, 'f, 'a) comp" where
  "io_err f m s = (case m s of (r, s') \<Rightarrow> (map_sum f id r, s'))"

lemma io_err_simp [simp]: "m s = (r, s') \<Longrightarrow> io_err f m s = (map_sum f id r, s')"
  by (simp add: io_err_def)

text \<open>A writer that goes on after the bytes it was given, and what it returns: the count and the error.\<close>

type_synonym write_result = "nat \<times> io_error option"

subsection \<open>AEAD ciphers\<close>

record aead =
  NonceSize :: nat
  Overhead :: nat
  Seal :: "u8 list \<Rightarrow> u8 list \<Rightarrow> u8 list \<Rightarrow> u8 list"
  Open :: "u8 list \<Rightarrow> u8 list \<Rightarrow> u8 list \<Rightarrow> u8 list option"

text \<open>
  Arguments are the nonce, the text and the additional data. \<open>Open\<close> undoes \<open>Seal\<close> under the same nonce, and the
  overhead is the difference of the lengths. The ciphers of the program have 12 or 24 bytes of nonce and 16 of overhead.
\<close>

definition aead_ok :: "aead \<Rightarrow> bool" where
  "aead_ok A \<longleftrightarrow>
     NonceSize A \<le> 32 \<and> Overhead A \<le> 1000 \<and>
     (\<forall>n p ad. length n = NonceSize A \<longrightarrow>
        Open A n (Seal A n p ad) ad = Some p \<and> length (Seal A n p ad) = length p + Overhead A)"

lemma aead_okD:
  assumes "aead_ok A" and "length n = NonceSize A"
  shows "Open A n (Seal A n p ad) ad = Some p" "length (Seal A n p ad) = length p + Overhead A"
  using assms by (simp_all add: aead_ok_def)

text \<open>An instance for the witnesses: the nonce is added to the text, and its sum is the tag.\<close>

definition demo_aead :: aead where
  "demo_aead = \<lparr>NonceSize = 12, Overhead = 1, Seal = (\<lambda>n p ad. map ((+) (sum_list n)) p @ [sum_list n]),
     Open = (\<lambda>n c ad. if c \<noteq> [] \<and> last c = sum_list n then Some (map (\<lambda>b. b - sum_list n) (butlast c)) else None)\<rparr>"

lemma demo_aead_ok: "aead_ok demo_aead"
  by (simp add: aead_ok_def demo_aead_def comp_def)

subsection \<open>Cutting into pieces\<close>

text \<open>The pieces of at most \<open>n\<close> bytes that a writer cuts its input into.\<close>

function pieces :: "nat \<Rightarrow> u8 list \<Rightarrow> u8 list list" where
  "pieces n p = (if p = [] \<or> n = 0 then [] else take n p # pieces n (drop n p))"
  by pat_completeness auto
termination by (relation "measure (\<lambda>(n, p). length p)") auto

declare pieces.simps [simp del]

lemma pieces_Nil [simp]: "pieces n [] = []"
  by (simp add: pieces.simps)

lemma pieces_step: "p \<noteq> [] \<Longrightarrow> 0 < n \<Longrightarrow> pieces n p = take n p # pieces n (drop n p)"
  by (subst pieces.simps) simp

lemma concat_pieces [simp]: "0 < n \<Longrightarrow> concat (pieces n p) = p"
  by (induction n p rule: pieces.induct) (subst pieces.simps, simp)

lemma pieces_sizes: "x \<in> set (pieces n p) \<Longrightarrow> x \<noteq> [] \<and> length x \<le> n"
proof (induction n p rule: pieces.induct)
  case (1 n p)
  then show ?case by (subst (asm) pieces.simps) (auto split: if_splits)
qed

subsection \<open>Record layers\<close>

text \<open>The records of some payloads one after the other, from a state of the layer that each record moves on.\<close>

fun records :: "('s \<Rightarrow> u8 list \<Rightarrow> u8 list) \<Rightarrow> ('s \<Rightarrow> 's) \<Rightarrow> 's \<Rightarrow> u8 list list \<Rightarrow> u8 list" where
  "records frame advance s [] = []"
| "records frame advance s (p # ps) = frame s p @ records frame advance (advance s) ps"

definition advanced :: "('s \<Rightarrow> 's) \<Rightarrow> 's \<Rightarrow> u8 list list \<Rightarrow> 's" where
  "advanced advance s ps = (advance ^^ length ps) s"

lemma advanced_simps [simp]:
  "advanced advance s [] = s" "advanced advance s (p # ps) = advanced advance (advance s) ps"
  by (simp_all add: advanced_def funpow_swap1)

lemma advanced_append: "advanced advance s (ps @ qs) = advanced advance (advanced advance s ps) qs"
  by (induction ps arbitrary: s) simp_all

lemma records_append:
  "records frame advance s (ps @ qs) = records frame advance s ps @ records frame advance (advanced advance s ps) qs"
  by (induction ps arbitrary: s) simp_all

text \<open>
  A writer that writes one record after the other, and moves its state on also when a write fails; the count is of the
  bytes whose records were written. A size of zero, for which the code would not move on, does not occur.
\<close>

function write_pieces ::
  "('s \<Rightarrow> u8 list \<Rightarrow> u8 list) \<Rightarrow> ('s \<Rightarrow> 's) \<Rightarrow> nat \<Rightarrow> u8 list \<Rightarrow> nat \<Rightarrow> 's \<times> io_conn \<Rightarrow> write_result \<times> 's \<times> io_conn" where
  "write_pieces frame advance m b n (s, c) =
     (if b = [] \<or> m = 0 then ((n, None), s, c)
      else let k = min (length b) m in
        (case conn_Write (frame s (take k b)) c of
           (Inl e, c') \<Rightarrow> ((n, Some e), advance s, c')
         | (Inr _, c') \<Rightarrow> write_pieces frame advance m (drop k b) (n + k) (advance s, c')))"
  by pat_completeness auto
termination
  by (relation "measure (\<lambda>(f, a, m, b, n, s). length b)") auto

declare write_pieces.simps [simp del]

text \<open>On a connection that takes every write, it puts out the records of the pieces.\<close>

lemma write_pieces_records:
  "0 < m \<Longrightarrow> write_pieces frame advance m b n (s, \<lparr>c_in = i, c_out = w, c_writes = None\<rparr>) =
     ((n + length b, None), advanced advance s (pieces m b),
      \<lparr>c_in = i, c_out = w @ records frame advance s (pieces m b), c_writes = None\<rparr>)"
proof (induction "length b" arbitrary: b n s w rule: less_induct)
  case less
  show ?case
  proof (cases "b = []")
    case False
    let ?k = "min (length b) m"
    have t: "take ?k b = take m b" "drop ?k b = drop m b" by (simp_all add: min_def)
    have "length (drop m b) < length b" using False less.prems by simp
    from less.hyps [OF this less.prems] False less.prems show ?thesis
      by (subst write_pieces.simps, subst (1 2) pieces_step [OF False less.prems]) (simp add: Let_def t)
  qed (simp add: write_pieces.simps)
qed

text \<open>
  A read of at most \<open>k\<close> bytes through a buffer: what is left of the last payload, or the next record. The state is
  that of the layer, the buffer and the bytes to come.
\<close>

definition buffered_read ::
  "('s \<Rightarrow> u8 list \<Rightarrow> (u8 list \<times> u8 list) option) \<Rightarrow> ('s \<Rightarrow> 's) \<Rightarrow> nat \<Rightarrow> 's \<times> u8 list \<times> u8 list \<Rightarrow>
   (u8 list \<times> 's \<times> u8 list \<times> u8 list) option" where
  "buffered_read unframe advance k = (\<lambda>(s, buf, inp).
     if buf \<noteq> [] then Some (take k buf, s, drop k buf, inp)
     else (case unframe s inp of None \<Rightarrow> None | Some (p, rest) \<Rightarrow> Some (take k p, advance s, drop k p, rest)))"

text \<open>The counts that several writes return, when none of them fails.\<close>

fun writes :: "('b \<Rightarrow> 's \<Rightarrow> (nat \<times> 'e option) \<times> 's) \<Rightarrow> 'b list \<Rightarrow> 's \<Rightarrow> (nat list \<times> 's) option" where
  "writes Write [] s = Some ([], s)"
| "writes Write (b # bs) s =
     (case Write b s of
        ((n, Some e), s1) \<Rightarrow> None
      | ((n, None), s1) \<Rightarrow> (case writes Write bs s1 of None \<Rightarrow> None | Some (ns, s2) \<Rightarrow> Some (n # ns, s2)))"

lemma writes_step:
  "Write b s = ((n, None), s1) \<Longrightarrow> writes Write bs s1 = Some (ns, s2) \<Longrightarrow> writes Write (b # bs) s = Some (n # ns, s2)"
  by simp

text \<open>A writer that puts out the records of the pieces for one write does it for several.\<close>

lemma writes_records:
  assumes "P s" and "\<And>s. P s \<Longrightarrow> P (advance s)"
    and "\<And>b s out. P s \<Longrightarrow> b \<in> set bs \<Longrightarrow> Write b (mk s out) =
      ((length b, None), mk (advanced advance s (pieces m b)) (out @ records frame advance s (pieces m b)))"
  shows "writes Write bs (mk s out) =
    Some (map length bs, mk (advanced advance s (concat (map (pieces m) bs)))
      (out @ records frame advance s (concat (map (pieces m) bs))))"
  using assms(1,3)
proof (induction bs arbitrary: s out)
  case (Cons b bs)
  have adv: "P (advanced advance s ps)" if "P s" for s ps
    using that by (induction ps arbitrary: s) (simp_all add: assms(2))
  have "writes Write bs (mk s out) =
      Some (map length bs, mk (advanced advance s (concat (map (pieces m) bs)))
        (out @ records frame advance s (concat (map (pieces m) bs))))" if "P s" for s out
    by (rule Cons.IH [OF that], rule Cons.prems(2)) simp_all
  moreover have "Write b (mk s out) =
      ((length b, None), mk (advanced advance s (pieces m b)) (out @ records frame advance s (pieces m b)))"
    by (rule Cons.prems(2) [OF Cons.prems(1)]) simp
  ultimately show ?case using adv [OF Cons.prems(1)] by (simp add: advanced_append records_append)
qed simp

text \<open>The bytes that reads with the given arguments return, up to the first error.\<close>

fun reads :: "('k \<Rightarrow> 'r \<Rightarrow> ('e + 'b list) \<times> 'r) \<Rightarrow> 'k list \<Rightarrow> 'r \<Rightarrow> 'b list \<times> 'r" where
  "reads Read [] r = ([], r)"
| "reads Read (k # ks) r =
     (case Read k r of
        (Inl e, r1) \<Rightarrow> ([], r1)
      | (Inr b, r1) \<Rightarrow> (case reads Read ks r1 of (bs, r2) \<Rightarrow> (b @ bs, r2)))"

text \<open>
  \<open>io.ReadFull\<close> on top of a reader: it reads until the bytes are there. Its first argument is what becomes of an error
  after the first byte. \<open>None\<close> is a reader that returns no bytes and no error for ever.
\<close>

partial_function (option) read_fully ::
  "('e \<Rightarrow> 'e) \<Rightarrow> (nat \<Rightarrow> 'r \<Rightarrow> ('e + u8 list) \<times> 'r) \<Rightarrow> nat \<Rightarrow> u8 list \<Rightarrow> 'r \<Rightarrow> (('e + u8 list) \<times> 'r) option" where
  "read_fully late Read n got r =
     (if n \<le> length got then Some (Inr got, r)
      else (case Read (n - length got) r of
              (Inl e, r') \<Rightarrow> Some (Inl (if got = [] then e else late e), r')
            | (Inr b, r') \<Rightarrow> read_fully late Read n (got @ b) r'))"

text \<open>
  Reads that return the next elements of what is pending, at least one each, and fail when nothing is: together they
  return what was pending, in order, and all of it after enough reads.
\<close>

lemma reads_prefix:
  assumes step: "\<And>s xs k. Inv s xs \<Longrightarrow> xs \<noteq> [] \<Longrightarrow> P k \<Longrightarrow>
      \<exists>m s'. 0 < m \<and> m \<le> length xs \<and> Read k s = (Inr (take m xs), s') \<and> Inv s' (drop m xs)"
    and empty: "\<And>s k. Inv s [] \<Longrightarrow> P k \<Longrightarrow> \<exists>e s'. Read k s = (Inl e, s')"
  shows "Inv s xs \<Longrightarrow> \<forall>k\<in>set ks. P k \<Longrightarrow> \<exists>n s'. reads Read ks s = (take n xs, s') \<and> min (length ks) (length xs) \<le> n"
proof (induction ks arbitrary: s xs)
  case (Cons k ks)
  show ?case
  proof (cases "xs = []")
    case True
    with empty [of s k] Cons.prems show ?thesis by (auto intro!: exI [of _ 0])
  next
    case False
    from step [OF Cons.prems(1) False, of k] Cons.prems(2) obtain m s1 where
      m: "0 < m" "m \<le> length xs" "Read k s = (Inr (take m xs), s1)" "Inv s1 (drop m xs)" by auto
    from Cons.IH [OF m(4)] Cons.prems(2) obtain n s' where
      n: "reads Read ks s1 = (take n (drop m xs), s')" "min (length ks) (length xs - m) \<le> n" by auto
    have "reads Read (k # ks) s = (take (m + n) xs, s')" using m(3) n(1) by (simp add: take_add)
    moreover have "min (length (k # ks)) (length xs) \<le> m + n" using m(1,2) n(2) by auto
    ultimately show ?thesis by blast
  qed
qed (auto intro!: exI [of _ 0])

locale record_layer =
  fixes ok :: "'s \<Rightarrow> bool"
    and frame :: "'s \<Rightarrow> u8 list \<Rightarrow> u8 list"
    and advance :: "'s \<Rightarrow> 's"
    and unframe :: "'s \<Rightarrow> u8 list \<Rightarrow> (u8 list \<times> u8 list) option"
    and maxlen :: nat
  assumes ok_advance: "ok s \<Longrightarrow> ok (advance s)"
    and unframe_frame: "ok s \<Longrightarrow> p \<noteq> [] \<Longrightarrow> length p \<le> maxlen \<Longrightarrow> unframe s (frame s p @ rest) = Some (p, rest)"
    and maxlen_pos: "0 < maxlen"
begin

text \<open>What is still to be read: the buffer and the payloads whose records are still to come.\<close>

definition pending :: "'s \<times> u8 list \<times> u8 list \<Rightarrow> u8 list \<Rightarrow> bool" where
  "pending st xs \<longleftrightarrow> (case st of (s, buf, inp) \<Rightarrow> ok s \<and>
     (\<exists>ps. inp = records frame advance s ps \<and> (\<forall>p\<in>set ps. p \<noteq> [] \<and> length p \<le> maxlen) \<and> xs = buf @ concat ps))"

lemma ok_advanced: "ok s \<Longrightarrow> ok (advanced advance s ps)"
  by (induction ps arbitrary: s) (simp_all add: ok_advance)

lemma pending_start:
  assumes "ok s" and "\<forall>p\<in>set ps. p \<noteq> [] \<and> length p \<le> maxlen"
  shows "pending (s, [], records frame advance s ps) (concat ps)"
  using assms by (auto simp: pending_def)

lemma pending_Nil:
  assumes "pending (s, buf, inp) []"
  shows "buf = [] \<and> inp = []"
proof -
  from assms obtain ps where ps: "buf = []" "inp = records frame advance s ps" "\<forall>p\<in>set ps. p \<noteq> []" "concat ps = []"
    by (auto simp: pending_def)
  then have "ps = []" by (cases ps) auto
  with ps show ?thesis by simp
qed

text \<open>A read with room for at least one byte returns some of the bytes that are pending, in order.\<close>

lemma read_pending:
  assumes "pending st xs" and "xs \<noteq> []" and "0 < k"
  obtains b st' where "buffered_read unframe advance k st = Some (b, st')" and "b \<noteq> []" and "length b \<le> k"
    and "b = take (length b) xs" and "pending st' (drop (length b) xs)"
proof -
  obtain s buf inp where st: "st = (s, buf, inp)" by (metis prod_cases3)
  from assms(1) obtain ps where ps: "ok s" "inp = records frame advance s ps" "\<forall>p\<in>set ps. p \<noteq> [] \<and> length p \<le> maxlen"
    "xs = buf @ concat ps" by (auto simp: pending_def st)
  show thesis
  proof (cases "buf = []")
    case False
    show thesis
    proof (rule that)
      show "buffered_read unframe advance k st = Some (take k buf, s, drop k buf, inp)" using False by (simp add: buffered_read_def st)
      show "take k buf \<noteq> []" using False assms(3) by simp
      show "take k buf = take (length (take k buf)) xs" by (simp add: ps(4) min_def)
      show "pending (s, drop k buf, inp) (drop (length (take k buf)) xs)"
        using ps by (auto simp: pending_def min_def intro!: exI [of _ ps])
    qed simp
  next
    case True
    then obtain p qs where pq: "ps = p # qs" using assms(2) ps(4) by (cases ps) auto
    have u: "unframe s inp = Some (p, records frame advance (advance s) qs)"
      using ps(1-3) by (simp add: pq unframe_frame)
    show thesis
    proof (rule that)
      show "buffered_read unframe advance k st = Some (take k p, advance s, drop k p, records frame advance (advance s) qs)"
        using True u by (simp add: buffered_read_def st)
      show "take k p \<noteq> []" using ps(3) assms(3) by (simp add: pq)
      show "take k p = take (length (take k p)) xs" using True by (simp add: ps(4) pq min_def)
      show "pending (advance s, drop k p, records frame advance (advance s) qs) (drop (length (take k p)) xs)"
        using True ps by (auto simp: pending_def pq min_def ok_advance intro!: exI [of _ qs])
    qed simp
  qed
qed

end

text \<open>
  A reader of a layer: its state is seen as a state of the layer with a buffer and the bytes to come, its reads do
  what the buffered read does, and it fails when nothing is left.
\<close>

locale layered_reader = record_layer +
  fixes Read :: "nat \<Rightarrow> 'r \<Rightarrow> ('e + u8 list) \<times> 'r"
    and view :: "'r \<Rightarrow> 'a \<times> u8 list \<times> u8 list"
    and rok :: "'r \<Rightarrow> bool"
  assumes Read_refines: "rok r \<Longrightarrow> buffered_read unframe advance k (view r) = Some (b, st) \<Longrightarrow>
      \<exists>r'. Read k r = (Inr b, r') \<and> rok r' \<and> view r' = st"
    and Read_empty: "rok r \<Longrightarrow> view r = (s, [], []) \<Longrightarrow> \<exists>e r'. Read k r = (Inl e, r')"
begin

text \<open>Enough reads, each with room for at least one byte, return exactly the bytes that were written.\<close>

lemma reads_all:
  assumes "pending (view r) xs" and "rok r" and "\<forall>k\<in>set ks. 0 < k"
  shows "\<exists>n r'. reads Read ks r = (take n xs, r') \<and> min (length ks) (length xs) \<le> n"
proof (rule reads_prefix [where Inv = "\<lambda>r xs. pending (view r) xs \<and> rok r" and P = "\<lambda>k. 0 < k"])
  fix r xs k
  assume r: "pending (view r) xs \<and> rok r" "xs \<noteq> []" "0 < (k :: nat)"
  from read_pending [OF conjunct1 [OF r(1)] r(2,3)] obtain b st where
    b: "buffered_read unframe advance k (view r) = Some (b, st)" "b \<noteq> []" "b = take (length b) xs"
      "pending st (drop (length b) xs)" by blast
  from Read_refines [OF conjunct2 [OF r(1)] b(1)] obtain r1 where "Read k r = (Inr b, r1)" "rok r1" "view r1 = st" by blast
  moreover have "length b \<le> length xs" using b(3) by (metis length_take min.cobounded1)
  ultimately show "\<exists>m r'. 0 < m \<and> m \<le> length xs \<and> Read k r = (Inr (take m xs), r') \<and> pending (view r') (drop m xs) \<and> rok r'"
    using b(2-4) by (intro exI [of _ "length b"] exI [of _ r1]) simp
next
  fix r and k :: nat
  assume r: "pending (view r) [] \<and> rok r"
  obtain s buf inp where v: "view r = (s, buf, inp)" by (metis prod_cases3)
  with r have "pending (s, buf, inp) []" by simp
  from pending_Nil [OF this] v have "view r = (s, [], [])" by simp
  with Read_empty r show "\<exists>e r'. Read k r = (Inl e, r')" by blast
qed (use assms in simp_all)

lemma read_fully_got:
  assumes "pending (view r) xs" and "rok r" and "length got \<le> n" and "n \<le> length got + length xs"
  shows "\<exists>r'. read_fully late Read n got r = Some (Inr (got @ take (n - length got) xs), r') \<and>
    pending (view r') (drop (n - length got) xs) \<and> rok r'"
  using assms
proof (induction "n - length got" arbitrary: got r xs rule: less_induct)
  case less
  show ?case
  proof (cases "n = length got")
    case True
    then show ?thesis using less.prems by (subst read_fully.simps) simp
  next
    case False
    then have k: "0 < n - length got" "xs \<noteq> []" using less.prems(3,4) by auto
    from read_pending [OF less.prems(1) k(2,1)] obtain b st where
      b: "buffered_read unframe advance (n - length got) (view r) = Some (b, st)" "b \<noteq> []" "length b \<le> n - length got"
        "b = take (length b) xs" "pending st (drop (length b) xs)" .
    from Read_refines [OF less.prems(2) b(1)] obtain r1 where
      r1: "Read (n - length got) r = (Inr b, r1)" "rok r1" "view r1 = st" by blast
    have len: "length b \<le> length xs" using b(4) by (metis length_take min.cobounded1)
    have lt: "n - length (got @ b) < n - length got" using b(2) k(1) by (cases b) auto
    have pend: "pending (view r1) (drop (length b) xs)" using b(5) by (simp add: r1(3))
    have room: "length (got @ b) \<le> n" "n \<le> length (got @ b) + length (drop (length b) xs)"
      using b(3) less.prems(3,4) len by simp_all
    from less.hyps [OF lt pend r1(2) room] obtain r' where
      r': "read_fully late Read n (got @ b) r1 = Some (Inr ((got @ b) @ take (n - length (got @ b)) (drop (length b) xs)), r')"
        "pending (view r') (drop (n - length (got @ b)) (drop (length b) xs))" "rok r'" by blast
    have split: "n - length got = length b + (n - length (got @ b))" using b(3) by simp
    have "b @ take (n - length (got @ b)) (drop (length b) xs) = take (n - length got) xs"
      unfolding split using b(4) by (metis take_add)
    moreover have "drop (n - length (got @ b)) (drop (length b) xs) = drop (n - length got) xs"
      unfolding split by (simp add: add.commute)
    moreover have "read_fully late Read n got r = read_fully late Read n (got @ b) r1"
      using False less.prems(3) r1(1) by (subst read_fully.simps) simp
    ultimately show ?thesis using r' by simp
  qed
qed

text \<open>Reading in full returns exactly the next bytes.\<close>

lemma read_fully_pending:
  assumes "pending (view r) xs" and "rok r" and "n \<le> length xs"
  shows "\<exists>r'. read_fully late Read n [] r = Some (Inr (take n xs), r') \<and> pending (view r') (drop n xs) \<and> rok r'"
  using read_fully_got [OF assms(1,2), of "[]" n late] assms(3) by simp

end

end
