(* ===== verification/ShadowAead.thy ===== *)
theory ShadowAead
  imports Framing
begin

text \<open>
  The encrypted stream of Shadowsocks and Snell (\<open>src/pkg/clash/transport/shadowsocks/shadowaead/\<close>): \<open>stream.go\<close>,
  \<open>packet.go\<close> and the ciphers of \<open>cipher.go\<close>. Each payload of at most \<open>0x3FFF\<close> bytes is two sealed parts, its
  length and itself, under a nonce that counts up. HKDF and the AEAD ciphers of the standard library are parameters.
  A buffer from the pool is its length; the capacity of 17 KB is enough for a record, as the overhead is below 1000.
\<close>

definition payloadSizeMask :: nat where "payloadSizeMask = 0x3FFF"
definition bufSize :: nat where "bufSize = 17 * 1024"

subsection \<open>The nonce\<close>

fun increment :: "u8 list \<Rightarrow> u8 list" where
  "increment [] = []"
| "increment (b # bs) = (if b + 1 \<noteq> 0 then (b + 1) # bs else (b + 1) # increment bs)"

text \<open>Incrementing the slice of the nonce that the cipher uses.\<close>

definition bump :: "aead \<Rightarrow> u8 list \<Rightarrow> u8 list" where
  "bump A nonce = increment (take (NonceSize A) nonce) @ drop (NonceSize A) nonce"

subsection \<open>Writing\<close>

text \<open>A record, and the nonce after its two parts.\<close>

definition aead_record :: "aead \<Rightarrow> u8 list \<Rightarrow> u8 list \<Rightarrow> u8 list" where
  "aead_record A nonce p =
     Seal A (take (NonceSize A) nonce) [of_nat (length p div 256), of_nat (length p)] [] @
     Seal A (take (NonceSize A) (bump A nonce)) p []"

function aead_write_loop :: "aead \<Rightarrow> u8 list \<Rightarrow> nat \<Rightarrow> u8 list \<times> io_conn \<Rightarrow> write_result \<times> u8 list \<times> io_conn" where
  "aead_write_loop A p n (nonce, c) =
     (if p = [] then ((n, None), nonce, c)
      else let nr = min payloadSizeMask (length p) in
        (case conn_Write (aead_record A nonce (take nr p)) c of
           (Inl e, c') \<Rightarrow> ((n + nr, Some e), bump A (bump A nonce), c')
         | (Inr _, c') \<Rightarrow> aead_write_loop A (drop nr p) (n + nr) (bump A (bump A nonce), c')))"
  by pat_completeness auto
termination
  by (relation "measure (\<lambda>(A, p, n, s). length p)") (auto simp: payloadSizeMask_def)

definition AeadWriter_Write :: "aead \<Rightarrow> u8 list \<Rightarrow> u8 list \<times> io_conn \<Rightarrow> write_result \<times> u8 list \<times> io_conn" where
  "AeadWriter_Write A p = (\<lambda>(nonce, c).
     if p = [] then
       (case conn_Write (Seal A (take (NonceSize A) nonce) [0, 0] []) c of
          (Inl e, c') \<Rightarrow> ((0, Some e), bump A nonce, c') | (Inr _, c') \<Rightarrow> ((0, None), bump A nonce, c'))
     else aead_write_loop A p 0 (nonce, c))"

text \<open>
  \<open>ReadFrom\<close>: the source is the list of what its reads return, bytes with the error of the read. A record is written
  for every read, also for one without bytes. \<open>None\<close> is waiting for a source that does not answer.
\<close>

fun AeadWriter_ReadFrom ::
  "aead \<Rightarrow> (u8 list \<times> io_error option) list \<Rightarrow> nat \<Rightarrow> u8 list \<times> io_conn \<Rightarrow> (write_result \<times> u8 list \<times> io_conn) option" where
  "AeadWriter_ReadFrom A [] n s = None"
| "AeadWriter_ReadFrom A ((bs, er) # src) n (nonce, c) =
     (case conn_Write (aead_record A nonce bs) c of
        (Inl e, c') \<Rightarrow> Some ((n + length bs, Some e), bump A (bump A nonce), c')
      | (Inr _, c') \<Rightarrow>
          (case er of
             None \<Rightarrow> AeadWriter_ReadFrom A src (n + length bs) (bump A (bump A nonce), c')
           | Some e \<Rightarrow> Some ((n + length bs, if e = EOF then None else Some e), bump A (bump A nonce), c')))"

subsection \<open>Reading\<close>

datatype aead_error = AeadIO io_error | AeadUnexpectedEOF | OpenFailed | ErrZeroChunk | NoCipher

type_synonym 'a aio = "(u8 list \<times> io_conn, aead_error, 'a) comp"

text \<open>\<open>io.ReadFull\<close> with its two errors: the end of the stream before the first byte, or after it.\<close>

definition read_full :: "nat \<Rightarrow> (io_conn, aead_error, u8 list) comp" where
  "read_full n c = (case ReadFull n c of
     (Inr b, c') \<Rightarrow> (Inr b, c') | (Inl e, c') \<Rightarrow> (Inl (if c_in c = [] then AeadIO e else AeadUnexpectedEOF), c'))"

definition on_conn :: "(io_conn, aead_error, 'a) comp \<Rightarrow> 'a aio" where
  "on_conn m = (\<lambda>(nonce, c). case m c of (r, c') \<Rightarrow> (r, nonce, c'))"

text \<open>\<open>Open\<close> under the current nonce, which is incremented whether or not it fails.\<close>

definition open_next :: "aead \<Rightarrow> u8 list \<Rightarrow> u8 list aio" where
  "open_next A ct = (\<lambda>(nonce, c).
     (case Open A (take (NonceSize A) nonce) ct [] of None \<Rightarrow> Inl OpenFailed | Some p \<Rightarrow> Inr p, bump A nonce, c))"

definition aead_read :: "aead \<Rightarrow> u8 list aio" where
  "aead_read A =
     io_bind (on_conn (read_full (2 + Overhead A))) (\<lambda>h.
     io_bind (open_next A h) (\<lambda>l.
       let size = and (unat (l ! 0) * 256 + unat (l ! 1)) payloadSizeMask in
       if size = 0 then io_fail ErrZeroChunk
       else io_bind (on_conn (read_full (size + Overhead A))) (\<lambda>ct.
            io_bind (open_next A ct) (\<lambda>p. io_ret (take size p)))))"

text \<open>The reader: its nonce, and the buffer with the offset of what was not consumed.\<close>

record aead_reader =
  ar_nonce :: "u8 list"
  ar_buf :: "(u8 list \<times> nat) option"

definition on_reader :: "u8 list aio \<Rightarrow> (aead_reader \<times> io_conn, aead_error, u8 list) comp" where
  "on_reader m = (\<lambda>(r, c). case m (ar_nonce r, c) of (x, nonce, c') \<Rightarrow> (x, r\<lparr>ar_nonce := nonce\<rparr>, c'))"

definition consume :: "nat \<Rightarrow> u8 list \<Rightarrow> nat \<Rightarrow> (aead_reader \<times> io_conn, aead_error, u8 list) comp" where
  "consume k b off = (\<lambda>(r, c).
     let out = take k (drop off b); off' = off + length out in
     (Inr out, r\<lparr>ar_buf := (if off' = length b then None else Some (b, off'))\<rparr>, c))"

definition AeadReader_Read :: "aead \<Rightarrow> nat \<Rightarrow> (aead_reader \<times> io_conn, aead_error, u8 list) comp" where
  "AeadReader_Read A k = (\<lambda>(r, c).
     case ar_buf r of
       Some (b, off) \<Rightarrow> consume k b off (r, c)
     | None \<Rightarrow>
         if payloadSizeMask + Overhead A \<le> k then on_reader (aead_read A) (r, c)
         else io_bind (on_reader (aead_read A)) (\<lambda>b. consume k b 0) (r, c))"

text \<open>
  \<open>WriteTo\<close> copies until the end of the stream or an error; the bound is on the number of records, as each takes
  bytes of the connection. It returns what was written, in a second connection, and the error.
\<close>

fun aead_write_to ::
  "aead \<Rightarrow> nat \<Rightarrow> nat \<Rightarrow> (aead_reader \<times> io_conn) \<times> io_conn \<Rightarrow>
   ((nat \<times> aead_error option) \<times> (aead_reader \<times> io_conn) \<times> io_conn) option" where
  "aead_write_to A 0 n s = None"
| "aead_write_to A (Suc fuel) n ((r, c), w) =
     (let (b, off) = (case ar_buf r of Some x \<Rightarrow> x | None \<Rightarrow> ([], 0)) in
      case (if off < length b
            then (case conn_Write (drop off b) w of
                    (Inl e, w') \<Rightarrow> (Some e, off, n, w') | (Inr _, w') \<Rightarrow> (None, length b, n + (length b - off), w'))
            else (None, off, n, w)) of
        (Some e, off', n', w') \<Rightarrow> Some ((n', Some (AeadIO e)), (r\<lparr>ar_buf := Some (b, off')\<rparr>, c), w')
      | (None, off', n', w') \<Rightarrow>
          (case on_reader (aead_read A) (r\<lparr>ar_buf := Some (b, off')\<rparr>, c) of
             (Inl e, s') \<Rightarrow> Some ((n', if e = AeadIO EOF then None else Some e), s', w')
           | (Inr p, r', c') \<Rightarrow> aead_write_to A fuel n' ((r'\<lparr>ar_buf := Some (p, 0)\<rparr>, c'), w')))"

subsection \<open>Ciphers and connections\<close>

text \<open>The ciphers of the libraries: HKDF with SHA-1 and the AEAD constructors, which refuse some keys.\<close>

record ss_crypto =
  hkdfSHA1 :: "u8 list \<Rightarrow> u8 list \<Rightarrow> u8 list \<Rightarrow> nat \<Rightarrow> u8 list"
  cr_aesGCM :: "u8 list \<Rightarrow> aead option"
  cr_chacha20poly1305 :: "u8 list \<Rightarrow> aead option"
  cr_xchacha20poly1305 :: "u8 list \<Rightarrow> aead option"

record ss_cipher =
  ci_KeySize :: nat
  ci_SaltSize :: nat
  ci_Encrypter :: "u8 list \<Rightarrow> aead option"
  ci_Decrypter :: "u8 list \<Rightarrow> aead option"

definition metaCipher :: "ss_crypto \<Rightarrow> u8 list \<Rightarrow> (u8 list \<Rightarrow> aead option) \<Rightarrow> ss_cipher" where
  "metaCipher K psk makeAEAD =
     (let mk = (\<lambda>salt. makeAEAD (hkdfSHA1 K psk salt (bytes_of ''ss-subkey'') (length psk))) in
      \<lparr>ci_KeySize = length psk, ci_SaltSize = (if length psk > 16 then length psk else 16),
       ci_Encrypter = mk, ci_Decrypter = mk\<rparr>)"

datatype key_error = KeySizeError nat | CipherNotSupported

definition AESGCM :: "ss_crypto \<Rightarrow> u8 list \<Rightarrow> key_error + ss_cipher" where
  "AESGCM K psk =
     (if length psk = 16 \<or> length psk = 24 \<or> length psk = 32 then Inr (metaCipher K psk (cr_aesGCM K))
      else Inl (KeySizeError (length psk)))"

definition Chacha20Poly1305 :: "ss_crypto \<Rightarrow> u8 list \<Rightarrow> key_error + ss_cipher" where
  "Chacha20Poly1305 K psk =
     (if length psk \<noteq> 32 then Inl (KeySizeError 32) else Inr (metaCipher K psk (cr_chacha20poly1305 K)))"

definition XChacha20Poly1305 :: "ss_crypto \<Rightarrow> u8 list \<Rightarrow> key_error + ss_cipher" where
  "XChacha20Poly1305 K psk =
     (if length psk \<noteq> 32 then Inl (KeySizeError 32) else Inr (metaCipher K psk (cr_xchacha20poly1305 K)))"

text \<open>A connection: its reader and its writer are made by their first use.\<close>

record aead_conn =
  ac_Conn :: io_conn
  ac_r :: "(aead \<times> aead_reader) option"
  ac_w :: "(aead \<times> u8 list) option"

definition AeadConn_New :: "io_conn \<Rightarrow> aead_conn" where
  "AeadConn_New c = \<lparr>ac_Conn = c, ac_r = None, ac_w = None\<rparr>"

definition zero_nonce :: "u8 list" where
  "zero_nonce = replicate 32 0"

definition AeadConn_initReader :: "ss_cipher \<Rightarrow> (aead_conn, aead_error, unit) comp" where
  "AeadConn_initReader C s =
     (case read_full (ci_SaltSize C) (ac_Conn s) of
        (Inl e, c) \<Rightarrow> (Inl e, s\<lparr>ac_Conn := c\<rparr>)
      | (Inr salt, c) \<Rightarrow>
          (case ci_Decrypter C salt of
             None \<Rightarrow> (Inl NoCipher, s\<lparr>ac_Conn := c\<rparr>)
           | Some A \<Rightarrow> (Inr (), s\<lparr>ac_Conn := c, ac_r := Some (A, \<lparr>ar_nonce = zero_nonce, ar_buf = None\<rparr>)\<rparr>)))"

definition AeadConn_Read :: "ss_cipher \<Rightarrow> nat \<Rightarrow> (aead_conn, aead_error, u8 list) comp" where
  "AeadConn_Read C k =
     io_bind (\<lambda>s. if ac_r s = None then AeadConn_initReader C s else (Inr (), s)) (\<lambda>_ s.
       case ac_r s of
         None \<Rightarrow> (Inl NoCipher, s)
       | Some (A, r) \<Rightarrow>
           (case AeadReader_Read A k (r, ac_Conn s) of (x, r', c) \<Rightarrow> (x, s\<lparr>ac_Conn := c, ac_r := Some (A, r')\<rparr>)))"

text \<open>The salt that the random source gives is a parameter of the first write.\<close>

definition AeadConn_initWriter :: "ss_cipher \<Rightarrow> u8 list \<Rightarrow> (aead_conn, aead_error, unit) comp" where
  "AeadConn_initWriter C salt s =
     (case ci_Encrypter C salt of
        None \<Rightarrow> (Inl NoCipher, s)
      | Some A \<Rightarrow>
          (case conn_Write salt (ac_Conn s) of
             (Inl e, c) \<Rightarrow> (Inl (AeadIO e), s\<lparr>ac_Conn := c\<rparr>)
           | (Inr _, c) \<Rightarrow> (Inr (), s\<lparr>ac_Conn := c, ac_w := Some (A, zero_nonce)\<rparr>)))"

definition AeadConn_Write :: "ss_cipher \<Rightarrow> u8 list \<Rightarrow> u8 list \<Rightarrow> aead_conn \<Rightarrow> (nat \<times> aead_error option) \<times> aead_conn" where
  "AeadConn_Write C salt b s =
     (case (if ac_w s = None then AeadConn_initWriter C salt s else (Inr (), s)) of
        (Inl e, s1) \<Rightarrow> ((0, Some e), s1)
      | (Inr _, s1) \<Rightarrow>
          (case ac_w s1 of
             None \<Rightarrow> ((0, Some NoCipher), s1)
           | Some (A, nonce) \<Rightarrow>
               (case AeadWriter_Write A b (nonce, ac_Conn s1) of
                  ((n, e), nonce', c) \<Rightarrow> ((n, map_option AeadIO e), s1\<lparr>ac_Conn := c, ac_w := Some (A, nonce')\<rparr>))))"

subsection \<open>Packets (packet.go)\<close>

datatype packet_error = ErrShortPacket | ErrShortBuffer | PacketNoCipher | PacketOpen

definition zerononce :: "aead \<Rightarrow> u8 list" where
  "zerononce A = replicate (NonceSize A) 0"

text \<open>The sizes of the destination buffers are arguments.\<close>

definition aead_Pack :: "ss_cipher \<Rightarrow> u8 list \<Rightarrow> nat \<Rightarrow> u8 list \<Rightarrow> packet_error + u8 list" where
  "aead_Pack C salt dstLen plaintext =
     (case ci_Encrypter C salt of
        None \<Rightarrow> Inl PacketNoCipher
      | Some A \<Rightarrow>
          if dstLen < ci_SaltSize C + length plaintext + Overhead A then Inl ErrShortBuffer
          else Inr (salt @ Seal A (zerononce A) plaintext []))"

definition aead_Unpack :: "ss_cipher \<Rightarrow> nat \<Rightarrow> u8 list \<Rightarrow> packet_error + u8 list" where
  "aead_Unpack C dstLen pkt =
     (if length pkt < ci_SaltSize C then Inl ErrShortPacket
      else case ci_Decrypter C (take (ci_SaltSize C) pkt) of
        None \<Rightarrow> Inl PacketNoCipher
      | Some A \<Rightarrow>
          if length pkt < ci_SaltSize C + Overhead A then Inl ErrShortPacket
          else if ci_SaltSize C + dstLen + Overhead A < length pkt then Inl ErrShortBuffer
          else (case Open A (zerononce A) (drop (ci_SaltSize C) pkt) [] of None \<Rightarrow> Inl PacketOpen | Some p \<Rightarrow> Inr p))"

end
