(* ===== verification/ShadowStream.thy ===== *)
theory ShadowStream
  imports ShadowAead
begin

text \<open>
  The unauthenticated ciphers of Shadowsocks (\<open>src/pkg/clash/transport/shadowsocks/shadowstream/\<close>) and the choice of
  a cipher by name with its key (\<open>src/pkg/clash/transport/shadowsocks/core/cipher.go\<close>). The key streams and hashes of
  the libraries are parameters.
\<close>

subsection \<open>Stream ciphers (cipher.go)\<close>

text \<open>
  A key stream has a state and a method \<open>XORKeyStream\<close>; the ciphers give one for encryption and one for decryption
  from an initialization vector.
\<close>

record 'k stream_cipher =
  sc_IVSize :: nat
  sc_Encrypter :: "u8 list \<Rightarrow> 'k"
  sc_Decrypter :: "u8 list \<Rightarrow> 'k"
  XORKeyStream :: "'k \<Rightarrow> u8 list \<Rightarrow> u8 list \<times> 'k"

text \<open>
  Documented behaviour: the bytes come out one for one, it does not matter how the input is cut into calls, and
  decryption undoes encryption under the same vector.
\<close>

definition stream_ok :: "'k stream_cipher \<Rightarrow> bool" where
  "stream_ok C \<longleftrightarrow>
     (\<forall>k a. length (fst (XORKeyStream C k a)) = length a) \<and>
     (\<forall>k. XORKeyStream C k [] = ([], k)) \<and>
     (\<forall>k a b. XORKeyStream C k (a @ b) =
        (case XORKeyStream C k a of (x, k1) \<Rightarrow> case XORKeyStream C k1 b of (y, k2) \<Rightarrow> (x @ y, k2))) \<and>
     (\<forall>iv p. fst (XORKeyStream C (sc_Decrypter C iv) (fst (XORKeyStream C (sc_Encrypter C iv) p))) = p)"

text \<open>The constructors of the libraries; \<open>None\<close> is a key that they refuse. RC4 takes the hash of key and vector.\<close>

record 'k stream_crypto =
  cr_ctr :: "u8 list \<Rightarrow> u8 list \<Rightarrow> 'k"
  cr_cfb_enc :: "u8 list \<Rightarrow> u8 list \<Rightarrow> 'k"
  cr_cfb_dec :: "u8 list \<Rightarrow> u8 list \<Rightarrow> 'k"
  cr_aes :: "u8 list \<Rightarrow> bool"
  cr_chacha20 :: "u8 list \<Rightarrow> u8 list \<Rightarrow> 'k"
  cr_rc4 :: "u8 list \<Rightarrow> 'k"
  cr_md5 :: "u8 list \<Rightarrow> u8 list"
  cr_xor :: "'k \<Rightarrow> u8 list \<Rightarrow> u8 list \<times> 'k"

definition AESCTR :: "'k stream_crypto \<Rightarrow> u8 list \<Rightarrow> key_error + 'k stream_cipher" where
  "AESCTR K key =
     (if cr_aes K key then Inr \<lparr>sc_IVSize = 16, sc_Encrypter = cr_ctr K key, sc_Decrypter = cr_ctr K key, XORKeyStream = cr_xor K\<rparr>
      else Inl (KeySizeError (length key)))"

definition AESCFB :: "'k stream_crypto \<Rightarrow> u8 list \<Rightarrow> key_error + 'k stream_cipher" where
  "AESCFB K key =
     (if cr_aes K key then Inr \<lparr>sc_IVSize = 16, sc_Encrypter = cr_cfb_enc K key, sc_Decrypter = cr_cfb_dec K key, XORKeyStream = cr_xor K\<rparr>
      else Inl (KeySizeError (length key)))"

definition Chacha20IETF :: "'k stream_crypto \<Rightarrow> u8 list \<Rightarrow> key_error + 'k stream_cipher" where
  "Chacha20IETF K key =
     (if length key \<noteq> 32 then Inl (KeySizeError 32)
      else Inr \<lparr>sc_IVSize = 12, sc_Encrypter = cr_chacha20 K key, sc_Decrypter = cr_chacha20 K key, XORKeyStream = cr_xor K\<rparr>)"

definition Xchacha20 :: "'k stream_crypto \<Rightarrow> u8 list \<Rightarrow> key_error + 'k stream_cipher" where
  "Xchacha20 K key =
     (if length key \<noteq> 32 then Inl (KeySizeError 32)
      else Inr \<lparr>sc_IVSize = 24, sc_Encrypter = cr_chacha20 K key, sc_Decrypter = cr_chacha20 K key, XORKeyStream = cr_xor K\<rparr>)"

definition RC4MD5 :: "'k stream_crypto \<Rightarrow> u8 list \<Rightarrow> key_error + 'k stream_cipher" where
  "RC4MD5 K key =
     (let mk = (\<lambda>iv. cr_rc4 K (cr_md5 K (key @ iv))) in
      Inr \<lparr>sc_IVSize = 16, sc_Encrypter = mk, sc_Decrypter = mk, XORKeyStream = cr_xor K\<rparr>)"

subsection \<open>Connections (stream.go)\<close>

definition streamBufSize :: nat where "streamBufSize = 2048"

text \<open>A connection with its reader and writer, made by their first use, and the two vectors.\<close>

record 'k stream_conn =
  sn_Conn :: io_conn
  sn_r :: "'k option"
  sn_w :: "'k option"
  sn_readIV :: "u8 list"
  sn_writeIV :: "u8 list"

definition StreamConn_New :: "io_conn \<Rightarrow> 'k stream_conn" where
  "StreamConn_New c = \<lparr>sn_Conn = c, sn_r = None, sn_w = None, sn_readIV = [], sn_writeIV = []\<rparr>"

definition ObtainWriteIV :: "'k stream_cipher \<Rightarrow> u8 list \<Rightarrow> 'k stream_conn \<Rightarrow> u8 list \<times> 'k stream_conn" where
  "ObtainWriteIV C random s =
     (if length (sn_writeIV s) = sc_IVSize C then (sn_writeIV s, s) else (random, s\<lparr>sn_writeIV := random\<rparr>))"

definition ObtainReadIV :: "'k stream_cipher \<Rightarrow> ('k stream_conn, io_error, u8 list) comp" where
  "ObtainReadIV C s =
     (if length (sn_readIV s) = sc_IVSize C then (Inr (sn_readIV s), s)
      else (case ReadFull (sc_IVSize C) (sn_Conn s) of
        (Inl e, c) \<Rightarrow> (Inl e, s\<lparr>sn_Conn := c\<rparr>)
      | (Inr iv, c) \<Rightarrow> (Inr iv, s\<lparr>sn_Conn := c, sn_readIV := iv\<rparr>)))"

definition StreamConn_initReader :: "'k stream_cipher \<Rightarrow> ('k stream_conn, io_error, unit) comp" where
  "StreamConn_initReader C s =
     (if sn_r s \<noteq> None then (Inr (), s)
      else io_bind (ObtainReadIV C) (\<lambda>iv s. (Inr (), s\<lparr>sn_r := Some (sc_Decrypter C iv)\<rparr>)) s)"

definition StreamConn_initWriter :: "'k stream_cipher \<Rightarrow> u8 list \<Rightarrow> ('k stream_conn, io_error, unit) comp" where
  "StreamConn_initWriter C random s =
     (if sn_w s \<noteq> None then (Inr (), s)
      else case ObtainWriteIV C random s of (iv, s1) \<Rightarrow>
        (case conn_Write iv (sn_Conn s1) of
           (Inl e, c) \<Rightarrow> (Inl e, s1\<lparr>sn_Conn := c\<rparr>)
         | (Inr _, c) \<Rightarrow> (Inr (), s1\<lparr>sn_Conn := c, sn_w := Some (sc_Encrypter C iv)\<rparr>)))"

text \<open>The loop of \<open>Write\<close>: it counts what the connection took, nothing of a piece that failed.\<close>

function stream_write_loop :: "'k stream_cipher \<Rightarrow> u8 list \<Rightarrow> nat \<Rightarrow> 'k \<times> io_conn \<Rightarrow> write_result \<times> 'k \<times> io_conn" where
  "stream_write_loop C p n (k, c) =
     (if p = [] then ((n, None), k, c)
      else let piece = take streamBufSize p in
        (case XORKeyStream C k piece of (ct, k1) \<Rightarrow>
          (case conn_Write ct c of
             (Inl e, c') \<Rightarrow> ((n, Some e), k1, c')
           | (Inr _, c') \<Rightarrow> stream_write_loop C (drop streamBufSize p) (n + length piece) (k1, c'))))"
  by pat_completeness auto
termination
  by (relation "measure (\<lambda>(C, p, n, s). length p)") (auto simp: streamBufSize_def)

definition StreamConn_Write :: "'k stream_cipher \<Rightarrow> u8 list \<Rightarrow> u8 list \<Rightarrow> 'k stream_conn \<Rightarrow> write_result \<times> 'k stream_conn" where
  "StreamConn_Write C random b s =
     (case StreamConn_initWriter C random s of
        (Inl e, s1) \<Rightarrow> ((0, Some e), s1)
      | (Inr _, s1) \<Rightarrow>
          (case sn_w s1 of
             None \<Rightarrow> ((0, None), s1)
           | Some k \<Rightarrow> (case stream_write_loop C b 0 (k, sn_Conn s1) of
                 (r, k', c) \<Rightarrow> (r, s1\<lparr>sn_Conn := c, sn_w := Some k'\<rparr>))))"

text \<open>\<open>Read\<close> of \<open>n\<close> bytes when the connection has some bytes at hand.\<close>

definition StreamConn_Read :: "'k stream_cipher \<Rightarrow> nat \<Rightarrow> nat \<Rightarrow> ('k stream_conn, io_error, u8 list) comp" where
  "StreamConn_Read C avail n =
     io_bind (StreamConn_initReader C) (\<lambda>_ s.
       case sn_r s of
         None \<Rightarrow> (Inr [], s)
       | Some k \<Rightarrow>
           (case conn_Read avail n (sn_Conn s) of
              (Inl e, c) \<Rightarrow> (Inl e, s\<lparr>sn_Conn := c\<rparr>)
            | (Inr ct, c) \<Rightarrow> (case XORKeyStream C k ct of (p, k') \<Rightarrow> (Inr p, s\<lparr>sn_Conn := c, sn_r := Some k'\<rparr>))))"

subsection \<open>Packets (packet.go)\<close>

definition stream_Pack :: "'k stream_cipher \<Rightarrow> u8 list \<Rightarrow> nat \<Rightarrow> u8 list \<Rightarrow> packet_error + u8 list" where
  "stream_Pack C iv dstLen plaintext =
     (if dstLen < sc_IVSize C + length plaintext then Inl ErrShortBuffer
      else Inr (iv @ fst (XORKeyStream C (sc_Encrypter C iv) plaintext)))"

definition stream_Unpack :: "'k stream_cipher \<Rightarrow> nat \<Rightarrow> u8 list \<Rightarrow> packet_error + u8 list" where
  "stream_Unpack C dstLen pkt =
     (if length pkt < sc_IVSize C then Inl ErrShortPacket
      else if dstLen < length pkt - sc_IVSize C then Inl ErrShortBuffer
      else Inr (fst (XORKeyStream C (sc_Decrypter C (take (sc_IVSize C) pkt)) (drop (sc_IVSize C) pkt))))"

subsection \<open>Choosing a cipher (core/cipher.go)\<close>

text \<open>The key is made of hashes until there are enough bytes; with an empty hash the loop would not end.\<close>

partial_function (option) Kdf_loop :: "(u8 list \<Rightarrow> u8 list) \<Rightarrow> u8 list \<Rightarrow> nat \<Rightarrow> u8 list \<Rightarrow> u8 list \<Rightarrow> u8 list option" where
  "Kdf_loop md5 password keyLen b prev =
     (if length b < keyLen then
        let b' = b @ md5 (prev @ password); prev' = drop (length b' - 16) b' in Kdf_loop md5 password keyLen b' prev'
      else Some (take keyLen b))"

definition Kdf :: "(u8 list \<Rightarrow> u8 list) \<Rightarrow> string \<Rightarrow> nat \<Rightarrow> u8 list option" where
  "Kdf md5 password keyLen = Kdf_loop md5 (bytes_of password) keyLen [] []"

definition upper_char :: "char \<Rightarrow> char" where
  "upper_char c = (let n = of_char c :: nat in if 97 \<le> n \<and> n \<le> 122 then char_of (n - 32) else c)"

definition ToUpper :: "string \<Rightarrow> string" where
  "ToUpper s = map upper_char s"

definition aead_alias :: "string \<Rightarrow> string" where
  "aead_alias name =
     (if name = ''CHACHA20-IETF-POLY1305'' then ''AEAD_CHACHA20_POLY1305''
      else if name = ''XCHACHA20-IETF-POLY1305'' then ''AEAD_XCHACHA20_POLY1305''
      else if name = ''AES-128-GCM'' then ''AEAD_AES_128_GCM''
      else if name = ''AES-192-GCM'' then ''AEAD_AES_192_GCM''
      else if name = ''AES-256-GCM'' then ''AEAD_AES_256_GCM''
      else name)"

definition aeadList :: "ss_crypto \<Rightarrow> (string \<times> nat \<times> (u8 list \<Rightarrow> key_error + ss_cipher)) list" where
  "aeadList K =
     [(''AEAD_AES_128_GCM'', 16, AESGCM K), (''AEAD_AES_192_GCM'', 24, AESGCM K), (''AEAD_AES_256_GCM'', 32, AESGCM K),
      (''AEAD_CHACHA20_POLY1305'', 32, Chacha20Poly1305 K), (''AEAD_XCHACHA20_POLY1305'', 32, XChacha20Poly1305 K)]"

definition streamList :: "'k stream_crypto \<Rightarrow> (string \<times> nat \<times> (u8 list \<Rightarrow> key_error + 'k stream_cipher)) list" where
  "streamList K =
     [(''RC4-MD5'', 16, RC4MD5 K), (''AES-128-CTR'', 16, AESCTR K), (''AES-192-CTR'', 24, AESCTR K), (''AES-256-CTR'', 32, AESCTR K),
      (''AES-128-CFB'', 16, AESCFB K), (''AES-192-CFB'', 24, AESCFB K), (''AES-256-CFB'', 32, AESCFB K),
      (''CHACHA20-IETF'', 32, Chacha20IETF K), (''XCHACHA20'', 32, Xchacha20 K)]"

datatype 'k picked = Dummy | AeadCipher ss_cipher "u8 list" | StreamCipher "'k stream_cipher" "u8 list"

text \<open>The key of a choice: the given one or that of the password, of the size of the choice.\<close>

definition choose_key :: "(u8 list \<Rightarrow> u8 list) \<Rightarrow> u8 list \<Rightarrow> string \<Rightarrow> nat \<Rightarrow> (key_error + u8 list) option" where
  "choose_key md5 key password ksize =
     (case (if key = [] then Kdf md5 password ksize else Some key) of
        None \<Rightarrow> None
      | Some k \<Rightarrow> Some (if length k \<noteq> ksize then Inl (KeySizeError ksize) else Inr k))"

definition PickCipher :: "ss_crypto \<Rightarrow> 'k stream_crypto \<Rightarrow> string \<Rightarrow> u8 list \<Rightarrow> string \<Rightarrow> (key_error + 'k picked) option" where
  "PickCipher K L name0 key password =
     (let name = ToUpper name0 in
      if name = ''DUMMY'' then Some (Inr Dummy)
      else case map_of (aeadList K) (aead_alias name) of
        Some (ksize, mk) \<Rightarrow>
          (case choose_key (cr_md5 L) key password ksize of
             None \<Rightarrow> None
           | Some (Inl e) \<Rightarrow> Some (Inl e)
           | Some (Inr k) \<Rightarrow> Some (case mk k of Inl e \<Rightarrow> Inl e | Inr c \<Rightarrow> Inr (AeadCipher c k)))
      | None \<Rightarrow>
          (case map_of (streamList L) (aead_alias name) of
             Some (ksize, mk) \<Rightarrow>
               (case choose_key (cr_md5 L) key password ksize of
                  None \<Rightarrow> None
                | Some (Inl e) \<Rightarrow> Some (Inl e)
                | Some (Inr k) \<Rightarrow> Some (case mk k of Inl e \<Rightarrow> Inl e | Inr c \<Rightarrow> Inr (StreamCipher c k)))
           | None \<Rightarrow> Some (Inl CipherNotSupported)))"

end
