(* ===== verification/AeadProps.thy ===== *)
theory AeadProps
  imports ShadowAead
begin

text \<open>
  Properties of the encrypted stream: the nonce counts up and comes back only after all its values, what is
  written arrives through any sequence of reads, and packets are taken apart again.
\<close>

subsection \<open>The nonce counts\<close>

fun le_value :: "u8 list \<Rightarrow> nat" where
  "le_value [] = 0"
| "le_value (b # bs) = unat b + 256 * le_value bs"

lemma le_value_parts:
  "le_value (b # bs) mod 256 = unat b" "le_value (b # bs) div 256 = le_value bs"
  using u8_less [of b] by simp_all

lemma le_value_less: "le_value bs < 256 ^ length bs"
proof (induction bs)
  case (Cons b bs)
  have "le_value (b # bs) div 256 < 256 ^ length bs" using Cons.IH by (simp only: le_value_parts)
  then show ?case by (simp add: div_less_iff_less_mult mult.commute del: le_value.simps)
qed simp

lemma le_value_inj: "length as = length bs \<Longrightarrow> le_value as = le_value bs \<Longrightarrow> as = bs"
proof (induction as bs rule: list_induct2)
  case (Cons a as b bs)
  then have "unat a = unat b" "le_value as = le_value bs" by (metis le_value_parts)+
  then show ?case using Cons.IH by (simp add: word_unat_eq_iff)
qed simp

lemma unat_plus_1: "unat ((b :: u8) + 1) = (if b + 1 = 0 then 0 else unat b + 1)"
  by (metis unat_0 unatSuc add.commute Suc_eq_plus1)

lemma length_increment [simp]: "length (increment bs) = length bs"
  by (induction bs) simp_all

lemma le_value_increment: "le_value (increment bs) = (le_value bs + 1) mod 256 ^ length bs"
proof (induction bs)
  case (Cons b bs)
  show ?case
  proof (cases "b + 1 = 0")
    case True
    then have "b + 1 = 255 + 1" by simp
    then have "unat b = 255" by (simp only: add_right_cancel) simp
    moreover have "le_value (increment (b # bs)) = 256 * ((le_value bs + 1) mod 256 ^ length bs)"
      using True Cons.IH by simp
    ultimately show ?thesis by (simp add: mult_mod_right algebra_simps)
  next
    case False
    then have v: "le_value (increment (b # bs)) = le_value (b # bs) + 1" by (simp add: unat_plus_1)
    have "le_value (increment (b # bs)) < 256 ^ length (increment (b # bs))" by (rule le_value_less)
    then show ?thesis by (simp only: v length_increment mod_less)
  qed
qed simp

lemma length_bump [simp]: "length (bump A nonce) = length nonce"
  by (simp add: bump_def)

lemma bump_funpow: "length nonce = 32 \<Longrightarrow> NonceSize A \<le> 32 \<Longrightarrow>
  le_value (take (NonceSize A) ((bump A ^^ k) nonce)) = (le_value (take (NonceSize A) nonce) + k) mod 256 ^ NonceSize A \<and>
  length ((bump A ^^ k) nonce) = 32"
proof (induction k)
  case 0
  then show ?case using le_value_less [of "take (NonceSize A) nonce"] by (simp add: min_def)
next
  case (Suc k)
  then have ih: "le_value (take (NonceSize A) ((bump A ^^ k) nonce)) =
      (le_value (take (NonceSize A) nonce) + k) mod 256 ^ NonceSize A" "length ((bump A ^^ k) nonce) = 32" by blast+
  let ?n = "(bump A ^^ k) nonce"
  have "take (NonceSize A) (bump A ?n) = increment (take (NonceSize A) ?n)"
    using ih(2) Suc.prems(2) by (simp add: bump_def min_def)
  then show ?case using ih Suc.prems(2) by (simp add: le_value_increment min_def mod_Suc_eq)
qed

text \<open>The nonces of a connection start at zero and count up: two of the first \<open>256 ^ n\<close> are never the same, where
  \<open>n\<close> is the size of the nonce of the cipher.
\<close>

theorem nonces_differ:
  assumes "NonceSize A \<le> 32" and "i < 256 ^ NonceSize A" and "j < 256 ^ NonceSize A"
  shows "take (NonceSize A) ((bump A ^^ i) zero_nonce) = take (NonceSize A) ((bump A ^^ j) zero_nonce) \<longleftrightarrow> i = j"
proof -
  have z: "length zero_nonce = 32" by (simp add: zero_nonce_def)
  have v: "le_value (take (NonceSize A) zero_nonce) = 0"
  proof -
    have "le_value (replicate m 0) = 0" for m by (induction m) simp_all
    then show ?thesis by (simp add: zero_nonce_def take_replicate)
  qed
  show ?thesis using bump_funpow [OF z assms(1), of i] bump_funpow [OF z assms(1), of j] v assms(2,3) by (metis add_0 mod_less)
qed

theorem nonces_differ_witness: "take 12 ((bump demo_aead ^^ 300) zero_nonce) \<noteq> take 12 ((bump demo_aead ^^ 44) zero_nonce)"
  using nonces_differ [of demo_aead 300 44] by (simp add: demo_aead_def)

subsection \<open>The record layer\<close>

definition layer_ok :: "aead \<times> u8 list \<Rightarrow> bool" where
  "layer_ok = (\<lambda>(A, nonce). aead_ok A \<and> length nonce = 32)"

definition layer_frame :: "aead \<times> u8 list \<Rightarrow> u8 list \<Rightarrow> u8 list" where
  "layer_frame = (\<lambda>(A, nonce). aead_record A nonce)"

definition layer_advance :: "aead \<times> u8 list \<Rightarrow> aead \<times> u8 list" where
  "layer_advance = (\<lambda>(A, nonce). (A, bump A (bump A nonce)))"

definition layer_unframe :: "aead \<times> u8 list \<Rightarrow> u8 list \<Rightarrow> (u8 list \<times> u8 list) option" where
  "layer_unframe = (\<lambda>(A, nonce) inp.
     case aead_read A (nonce, fed inp) of (Inr p, _, c) \<Rightarrow> Some (p, c_in c) | _ \<Rightarrow> None)"

lemma read_full_append [simp]:
  "length bs = n \<Longrightarrow> read_full n \<lparr>c_in = bs @ rest, c_out = w, c_writes = l\<rparr> = (Inr bs, \<lparr>c_in = rest, c_out = w, c_writes = l\<rparr>)"
  by (simp add: read_full_def)

lemma mask_size: "p \<noteq> [] \<Longrightarrow> length p \<le> payloadSizeMask \<Longrightarrow>
  and (unat (of_nat (length p div 256) :: u8) * 256 + unat (of_nat (length p) :: u8)) payloadSizeMask = length p"
proof -
  assume "p \<noteq> []" "length p \<le> payloadSizeMask"
  then have le: "length p < 2 ^ 14" by (simp add: payloadSizeMask_def)
  then have "length p div 256 < 256" by (simp add: div_less_iff_less_mult)
  then have "unat (of_nat (length p div 256) :: u8) * 256 + unat (of_nat (length p) :: u8) = length p"
    by (simp add: unat_of_nat mod_less)
  moreover have "and (length p) payloadSizeMask = length p"
  proof -
    have "payloadSizeMask = mask 14" by (simp add: payloadSizeMask_def mask_eq_exp_minus_1)
    moreover have "and (length p) (mask 14) = take_bit 14 (length p)" by (simp only: take_bit_eq_mask)
    ultimately show ?thesis using le by (simp only: take_bit_nat_eq_self)
  qed
  ultimately show ?thesis by simp
qed

lemma aead_read_record:
  assumes "aead_ok A" and "length nonce = 32" and "p \<noteq> []" and "length p \<le> payloadSizeMask"
  shows "aead_read A (nonce, \<lparr>c_in = aead_record A nonce p @ rest, c_out = w, c_writes = l\<rparr>) =
    (Inr p, bump A (bump A nonce), \<lparr>c_in = rest, c_out = w, c_writes = l\<rparr>)"
proof -
  let ?n1 = "take (NonceSize A) nonce" and ?n2 = "take (NonceSize A) (bump A nonce)"
  have len: "length ?n1 = NonceSize A" "length ?n2 = NonceSize A" using assms(1,2) by (simp_all add: aead_ok_def)
  note o = aead_okD [OF assms(1) len(1)] aead_okD [OF assms(1) len(2)]
  have "read_full (2 + Overhead A) \<lparr>c_in = aead_record A nonce p @ rest, c_out = w, c_writes = l\<rparr> =
      (Inr (Seal A ?n1 [of_nat (length p div 256), of_nat (length p)] []),
       \<lparr>c_in = Seal A ?n2 p [] @ rest, c_out = w, c_writes = l\<rparr>)"
    unfolding aead_record_def append_assoc by (rule read_full_append) (simp add: o)
  then show ?thesis using assms(3) mask_size [OF assms(3,4)]
    by (simp add: aead_read_def io_bind_def on_conn_def open_next_def o io_fail_def io_ret_def Let_def)
qed

interpretation aead_layer: record_layer layer_ok layer_frame layer_advance layer_unframe payloadSizeMask
proof
  fix s :: "aead \<times> u8 list" and p rest
  obtain A nonce where s: "s = (A, nonce)" by (cases s)
  show "layer_ok (layer_advance s)" if "layer_ok s" using that by (simp add: s layer_ok_def layer_advance_def)
  show "layer_unframe s (layer_frame s p @ rest) = Some (p, rest)"
    if "layer_ok s" "p \<noteq> []" "length p \<le> payloadSizeMask"
    using that aead_read_record [of A nonce p rest "[]" None]
    by (simp add: s layer_ok_def layer_frame_def layer_unframe_def fed_def)
qed (simp add: payloadSizeMask_def)

subsection \<open>The writer\<close>

lemma payload_pos: "0 < payloadSizeMask"
  by (simp add: payloadSizeMask_def)

text \<open>On a connection that takes every write, the writer puts out the records of the pieces.\<close>

lemma write_loop_records:
  "aead_write_loop A p n (nonce, \<lparr>c_in = i, c_out = w, c_writes = None\<rparr>) =
     ((n + length p, None), snd (advanced layer_advance (A, nonce) (pieces payloadSizeMask p)),
      \<lparr>c_in = i, c_out = w @ records layer_frame layer_advance (A, nonce) (pieces payloadSizeMask p), c_writes = None\<rparr>)"
proof (induction "length p" arbitrary: p n nonce w rule: less_induct)
  case less
  show ?case
  proof (cases "p = []")
    case False
    let ?nr = "min payloadSizeMask (length p)"
    have t: "take ?nr p = take payloadSizeMask p" "drop ?nr p = drop payloadSizeMask p" by (simp_all add: min_def)
    have "length (drop payloadSizeMask p) < length p" using False payload_pos by simp
    from less [OF this] False show ?thesis
      by (subst aead_write_loop.simps, subst (1 2) pieces_step [OF False payload_pos])
        (simp add: Let_def t layer_frame_def layer_advance_def del: aead_write_loop.simps)
  qed simp
qed

lemma Writer_Write_records:
  assumes "p \<noteq> []"
  shows "AeadWriter_Write A p (nonce, \<lparr>c_in = i, c_out = w, c_writes = None\<rparr>) =
     ((length p, None), snd (advanced layer_advance (A, nonce) (pieces payloadSizeMask p)),
      \<lparr>c_in = i, c_out = w @ records layer_frame layer_advance (A, nonce) (pieces payloadSizeMask p), c_writes = None\<rparr>)"
  using assms by (simp add: AeadWriter_Write_def write_loop_records del: aead_write_loop.simps)

lemma advanced_aead: "advanced layer_advance (A, nonce) ps = (A, snd (advanced layer_advance (A, nonce) ps))"
  by (induction ps arbitrary: nonce) (simp_all add: layer_advance_def)

lemma Writes_records:
  assumes "\<forall>b\<in>set bs. b \<noteq> []"
  shows "\<exists>s'. writes (AeadConn_Write C salt) bs
      \<lparr>ac_Conn = \<lparr>c_in = i, c_out = w, c_writes = None\<rparr>, ac_r = r, ac_w = Some (A, nonce)\<rparr> = Some (map length bs, s') \<and>
    c_out (ac_Conn s') = w @ records layer_frame layer_advance (A, nonce) (concat (map (pieces payloadSizeMask) bs))"
proof -
  let ?mk = "\<lambda>s out. \<lparr>ac_Conn = \<lparr>c_in = i, c_out = out, c_writes = None\<rparr>, ac_r = r, ac_w = Some s\<rparr>"
  have "AeadConn_Write C salt b (?mk s out) = ((length b, None), ?mk (advanced layer_advance s (pieces payloadSizeMask b))
      (out @ records layer_frame layer_advance s (pieces payloadSizeMask b)))" if "b \<in> set bs" for b s out
  proof -
    have "b \<noteq> []" using assms that by blast
    then show ?thesis using advanced_aead [of "fst s" "snd s" "pieces payloadSizeMask b"]
      by (cases s) (simp add: AeadConn_Write_def Writer_Write_records)
  qed
  from writes_records [where P = "\<lambda>_. True" and mk = ?mk and s = "(A, nonce)" and out = w, OF TrueI TrueI this] show ?thesis by auto
qed

subsection \<open>The reader\<close>

text \<open>What the buffer of a reader holds, and the abstract state of the layer.\<close>

definition reader_rest :: "aead_reader \<Rightarrow> u8 list" where
  "reader_rest r = (case ar_buf r of None \<Rightarrow> [] | Some (b, off) \<Rightarrow> drop off b)"

definition reader_ok :: "aead_reader \<Rightarrow> bool" where
  "reader_ok r \<longleftrightarrow> (\<forall>b off. ar_buf r = Some (b, off) \<longrightarrow> off < length b)"

lemma consume_ok:
  assumes "off \<le> length b"
  shows "\<exists>r'. consume k b off (r, c) = (Inr (take k (drop off b)), r', c) \<and> ar_nonce r' = ar_nonce r \<and>
    reader_rest r' = drop k (drop off b) \<and> reader_ok r'"
  using assms by (cases "off + k < length b")
    (auto simp: consume_def Let_def reader_rest_def reader_ok_def min_def add.commute)

text \<open>A record is read from the bytes to come, whatever else the connection holds.\<close>

lemma read_full_fed: "read_full n c = (case read_full n (fed (c_in c)) of (x, c1) \<Rightarrow> (x, c\<lparr>c_in := c_in c1\<rparr>))"
  by (simp add: read_full_def ReadFull_def fed_def)

lemma read_full_in: "read_full n (fed i) = (x, c1) \<Longrightarrow> c1 = fed (c_in c1)"
  by (auto simp: read_full_def ReadFull_def fed_def split: if_splits)

lemma aead_read_fed:
  "aead_read A (nonce, c) = (case aead_read A (nonce, fed (c_in c)) of (x, n1, c1) \<Rightarrow> (x, n1, c\<lparr>c_in := c_in c1\<rparr>))"
proof -
  obtain x1 c1 where 1: "read_full (2 + Overhead A) (fed (c_in c)) = (x1, c1)" by (metis prod.collapse)
  note f1 = read_full_fed [of "2 + Overhead A" c, unfolded 1]
  show ?thesis
  proof (cases x1)
    case (Inl e)
    then show ?thesis using 1 f1 by (simp add: aead_read_def io_bind_def on_conn_def)
  next
    case (Inr h)
    have c1: "c1 = fed (c_in c1)" by (rule read_full_in [OF 1])
    have f2: "read_full n (c\<lparr>c_in := c_in c1\<rparr>) = (case read_full n c1 of (x, c2) \<Rightarrow> (x, c\<lparr>c_in := c_in c2\<rparr>))" for n
      using read_full_fed [of n "c\<lparr>c_in := c_in c1\<rparr>"] c1 by (simp split: prod.splits)
    show ?thesis using 1 f1 Inr f2
      by (auto simp: aead_read_def io_bind_def on_conn_def open_next_def io_fail_def io_ret_def Let_def
          split: option.splits sum.splits prod.splits)
  qed
qed

lemma and_mask_le: "and n payloadSizeMask \<le> payloadSizeMask" for n :: nat
proof -
  have m: "payloadSizeMask = mask 14" by (simp add: payloadSizeMask_def mask_eq_exp_minus_1)
  have "and n (mask 14) = take_bit 14 n" by (simp only: take_bit_eq_mask)
  also have "\<dots> < 2 ^ 14" by (rule take_bit_nat_less_exp)
  finally show ?thesis unfolding m by (simp add: mask_eq_exp_minus_1)
qed

lemma unframe_Some:
  assumes "layer_unframe (A, nonce) inp = Some (p, rest)"
  shows "aead_read A (nonce, c\<lparr>c_in := inp\<rparr>) = (Inr p, bump A (bump A nonce), c\<lparr>c_in := rest\<rparr>)" and "length p \<le> payloadSizeMask"
proof -
  obtain n1 c1 where 1: "aead_read A (nonce, fed inp) = (Inr p, n1, c1)" "c_in c1 = rest"
    using assms by (auto simp: layer_unframe_def split: prod.splits sum.splits)
  have "n1 = bump A (bump A nonce)" "length p \<le> payloadSizeMask"
    using 1(1) and_mask_le by (auto simp: aead_read_def io_bind_def on_conn_def open_next_def io_fail_def io_ret_def Let_def
        min.coboundedI2 split: option.splits sum.splits prod.splits if_splits)
  then show "aead_read A (nonce, c\<lparr>c_in := inp\<rparr>) = (Inr p, bump A (bump A nonce), c\<lparr>c_in := rest\<rparr>)" "length p \<le> payloadSizeMask"
    using aead_read_fed [of A nonce "c\<lparr>c_in := inp\<rparr>"] 1 by simp_all
qed

text \<open>The reader does what the buffered read of the layer does.\<close>

lemma Reader_refines:
  assumes "buffered_read layer_unframe layer_advance k ((A, ar_nonce r), reader_rest r, c_in c) = Some (b, s', rest, inp)"
    and "reader_ok r"
  shows "\<exists>r' c'. AeadReader_Read A k (r, c) = (Inr b, r', c') \<and> reader_ok r' \<and> s' = (A, ar_nonce r') \<and>
    reader_rest r' = rest \<and> c_in c' = inp"
proof (cases "ar_buf r")
  case (Some x)
  then obtain b0 off where x: "ar_buf r = Some (b0, off)" "off < length b0" using assms(2) by (cases x) (auto simp: reader_ok_def)
  from consume_ok [of off b0 k r c] x show ?thesis
    using assms(1) by (auto simp: AeadReader_Read_def buffered_read_def reader_rest_def)
next
  case None
  then obtain p where p: "layer_unframe (A, ar_nonce r) (c_in c) = Some (p, inp)" "b = take k p" "rest = drop k p"
    "s' = (A, bump A (bump A (ar_nonce r)))"
    using assms(1) by (auto simp: buffered_read_def reader_rest_def layer_advance_def split: option.splits)
  have "c\<lparr>c_in := c_in c\<rparr> = c" by simp
  with unframe_Some(1) [OF p(1), where c = c] unframe_Some(2) [OF p(1)] have rd: "on_reader (aead_read A) (r, c) =
      (Inr p, r\<lparr>ar_nonce := bump A (bump A (ar_nonce r))\<rparr>, c\<lparr>c_in := inp\<rparr>)" and le: "length p \<le> payloadSizeMask"
    by (simp_all add: on_reader_def)
  show ?thesis
  proof (cases "payloadSizeMask + Overhead A \<le> k")
    case True
    then show ?thesis using rd le None p by (simp add: AeadReader_Read_def reader_ok_def reader_rest_def)
  next
    case False
    from consume_ok [of 0 p k "r\<lparr>ar_nonce := bump A (bump A (ar_nonce r))\<rparr>" "c\<lparr>c_in := inp\<rparr>"]
    show ?thesis using rd None p False by (auto simp: AeadReader_Read_def)
  qed
qed

subsection \<open>Round trips\<close>

lemma aead_read_empty: "c_in c = [] \<Longrightarrow> aead_read A (nonce, c) = (Inl (AeadIO EOF), nonce, c)"
  by (cases c) (simp add: aead_read_def io_bind_def on_conn_def read_full_def ReadFull_def)

text \<open>The state of the reader of a connection, as the layer sees it; the cipher is already chosen.\<close>

definition conn_ok :: "aead_conn \<Rightarrow> bool" where
  "conn_ok s \<longleftrightarrow> (\<exists>A r. ac_r s = Some (A, r) \<and> reader_ok r)"

definition conn_view :: "aead_conn \<Rightarrow> (aead \<times> u8 list) \<times> u8 list \<times> u8 list" where
  "conn_view s = (case ac_r s of Some (A, r) \<Rightarrow> ((A, ar_nonce r), reader_rest r, c_in (ac_Conn s))
     | None \<Rightarrow> ((demo_aead, []), [], []))"

interpretation aead_reader: layered_reader layer_ok layer_frame layer_advance layer_unframe payloadSizeMask
  "AeadConn_Read C" conn_view conn_ok for C
proof
  fix s k b st l
  assume ok: "conn_ok s"
  then obtain A r where r: "ac_r s = Some (A, r)" "reader_ok r" by (auto simp: conn_ok_def)
  show "\<exists>s'. AeadConn_Read C k s = (Inr b, s') \<and> conn_ok s' \<and> conn_view s' = st"
    if "buffered_read layer_unframe layer_advance k (conn_view s) = Some (b, st)"
  proof -
    obtain s1 rest inp where st: "st = (s1, rest, inp)" by (metis prod_cases3)
    from Reader_refines [of k A r "ac_Conn s" b s1 rest inp] that r obtain r' c' where
      "AeadReader_Read A k (r, ac_Conn s) = (Inr b, r', c')" "reader_ok r'" "s1 = (A, ar_nonce r')" "reader_rest r' = rest" "c_in c' = inp"
      by (auto simp: conn_view_def st)
    then show ?thesis using r(1) by (simp add: AeadConn_Read_def io_bind_def conn_ok_def conn_view_def st)
  qed
  show "\<exists>e s'. AeadConn_Read C k s = (Inl e, s')" if "conn_view s = (l, [], [])"
  proof -
    have e: "reader_rest r = []" "c_in (ac_Conn s) = []" using that r(1) by (simp_all add: conn_view_def)
    then have "ar_buf r = None" using r(2) by (cases "ar_buf r") (auto simp: reader_rest_def reader_ok_def)
    then show ?thesis using aead_read_empty [OF e(2), of A "ar_nonce r"] r(1)
      by (simp add: AeadConn_Read_def AeadReader_Read_def on_reader_def io_bind_def)
  qed
qed

text \<open>The first read of a new connection takes the salt and goes on as if the cipher had been there.\<close>

definition started :: "aead \<Rightarrow> u8 list \<Rightarrow> aead_conn" where
  "started A inp = \<lparr>ac_Conn = fed inp, ac_r = Some (A, \<lparr>ar_nonce = zero_nonce, ar_buf = None\<rparr>), ac_w = None\<rparr>"

lemma first_read:
  assumes "ci_Decrypter C salt = Some A" and "length salt = ci_SaltSize C"
  shows "AeadConn_Read C k (AeadConn_New (fed (salt @ inp))) = AeadConn_Read C k (started A inp)"
  using assms by (simp add: AeadConn_Read_def io_bind_def AeadConn_New_def AeadConn_initReader_def fed_def started_def)

lemma started_ok: "conn_ok (started A inp)"
  by (simp add: conn_ok_def started_def reader_ok_def)

lemma started_view: "conn_view (started A inp) = ((A, zero_nonce), [], inp)"
  by (simp add: conn_view_def started_def reader_rest_def fed_def)

lemma started_pending:
  assumes "aead_ok A" and "\<forall>p\<in>set ps. p \<noteq> [] \<and> length p \<le> payloadSizeMask"
  shows "aead_layer.pending (conn_view (started A (records layer_frame layer_advance (A, zero_nonce) ps))) (concat ps)"
  using aead_layer.pending_start [OF _ assms(2), of "(A, zero_nonce)"] assms(1)
  by (simp add: started_view layer_ok_def zero_nonce_def)

text \<open> C33. What one end writes, in any non-empty pieces, the other end reads, with any buffers: the reads return the bytes in
  order, each at least one, and all of them after enough reads. Both ends make the same cipher of the salt.
\<close>

theorem aead_stream_roundtrip:
  assumes "ci_Encrypter C salt = Some A" and "ci_Decrypter C salt = Some A" and "aead_ok A" and "length salt = ci_SaltSize C"
    and "bs \<noteq> []" and "\<forall>b\<in>set bs. b \<noteq> []" and "\<forall>k\<in>set ks. 0 < k" and "ks \<noteq> []"
  shows "\<exists>s1 n s2. writes (AeadConn_Write C salt) bs (AeadConn_New (fed [])) = Some (map length bs, s1) \<and>
    reads (AeadConn_Read C) ks (AeadConn_New (fed (c_out (ac_Conn s1)))) = (take n (concat bs), s2) \<and>
    min (length ks) (length (concat bs)) \<le> n"
proof -
  obtain b0 bs' where bs: "bs = b0 # bs'" using assms(5) by (cases bs) auto
  let ?ps = "concat (map (pieces payloadSizeMask) bs)"
  let ?w = "\<lparr>ac_Conn = \<lparr>c_in = [], c_out = salt, c_writes = None\<rparr>, ac_r = None, ac_w = Some (A, zero_nonce)\<rparr>"
  have "writes (AeadConn_Write C salt) bs (AeadConn_New (fed [])) = writes (AeadConn_Write C salt) bs ?w"
    unfolding bs using assms(1) by (simp add: AeadConn_Write_def AeadConn_New_def AeadConn_initWriter_def fed_def)
  moreover from Writes_records [OF assms(6), of C salt "[]" salt None A zero_nonce] obtain s1 where
    "writes (AeadConn_Write C salt) bs ?w = Some (map length bs, s1)"
    and out: "c_out (ac_Conn s1) = salt @ records layer_frame layer_advance (A, zero_nonce) ?ps" by blast
  ultimately have w: "writes (AeadConn_Write C salt) bs (AeadConn_New (fed [])) = Some (map length bs, s1)" by simp
  let ?c = "started A (records layer_frame layer_advance (A, zero_nonce) ?ps)"
  obtain k ks' where ks: "ks = k # ks'" using assms(8) by (cases ks) auto
  have rd: "reads (AeadConn_Read C) ks (AeadConn_New (fed (c_out (ac_Conn s1)))) = reads (AeadConn_Read C) ks ?c"
    by (simp add: ks out first_read [OF assms(2,4)])
  have sizes: "\<forall>p\<in>set ?ps. p \<noteq> [] \<and> length p \<le> payloadSizeMask" using pieces_sizes by fastforce
  have "concat ?ps = concat bs" using payload_pos by (induction bs) simp_all
  with started_pending [OF assms(3) sizes] have "aead_layer.pending (conn_view ?c) (concat bs)" by simp
  from aead_reader.reads_all [OF this started_ok assms(7), of C] w rd show ?thesis by auto
qed

subsection \<open>Copying\<close>

lemma read_full_shorter: "read_full n c = (Inr b, c') \<Longrightarrow> length (c_in c) = n + length (c_in c')"
  by (auto simp: read_full_def ReadFull_def split: if_splits)

lemma aead_read_shorter: "aead_read A (nonce, c) = (Inr p, nonce', c') \<Longrightarrow> length (c_in c') < length (c_in c)"
  by (auto simp: aead_read_def io_bind_def on_conn_def open_next_def Let_def io_fail_def io_ret_def
      split: prod.splits sum.splits option.splits if_splits dest!: read_full_shorter)

text \<open>The bound of \<open>WriteTo\<close> is enough as soon as it exceeds the number of bytes that are still to come.\<close>

lemma aead_write_to_returns: "length (c_in c) < bnd \<Longrightarrow> aead_write_to A bnd n ((r, c), w) \<noteq> None"
proof (induction bnd arbitrary: n r c w)
  case (Suc bnd)
  have "aead_write_to A bnd n' ((r', c'), w') \<noteq> None" if "aead_read A (x, c) = (Inr p, y, c')" for n' r' x p y c' w'
    using Suc.IH aead_read_shorter[OF that] Suc.prems by simp
  then show ?case by (simp add: Let_def on_reader_def split: prod.split sum.split option.split)
qed simp

text \<open>\<open>WriteTo\<close> writes the rest of the buffer and everything that is to come, and takes the end of the stream for no error.\<close>

lemma aead_write_to_copies:
  assumes "aead_ok A" and "length (ar_nonce r) = 32" and "\<forall>p\<in>set ps. p \<noteq> [] \<and> length p \<le> payloadSizeMask"
    and "c_in c = records layer_frame layer_advance (A, ar_nonce r) ps" and "length ps < bnd" and "reader_ok r"
  shows "\<exists>s. aead_write_to A bnd n ((r, c), \<lparr>c_in = i, c_out = w, c_writes = None\<rparr>) =
    Some ((n + length (reader_rest r @ concat ps), None), s, \<lparr>c_in = i, c_out = w @ reader_rest r @ concat ps, c_writes = None\<rparr>)"
  using assms
proof (induction ps arbitrary: bnd n r c w)
  case Nil
  then obtain m where m: "bnd = Suc m" by (cases bnd) auto
  have e: "aead_read A (x, c) = (Inl (AeadIO EOF), x, c)" for x using Nil aead_read_empty by simp
  show ?case
    using Nil(6) by (cases "ar_buf r") (auto simp: m Let_def on_reader_def e reader_rest_def reader_ok_def conn_Write_def split: option.splits)
next
  case (Cons p ps)
  then obtain m where m: "bnd = Suc m" by (cases bnd) auto
  let ?r = "\<lambda>x. \<lparr>ar_nonce = bump A (bump A (ar_nonce r)), ar_buf = Some (p, 0)\<rparr>"
  let ?c = "c\<lparr>c_in := records layer_frame layer_advance (A, bump A (bump A (ar_nonce r))) ps\<rparr>"
  have rd: "aead_read A (ar_nonce r, c) = (Inr p, bump A (bump A (ar_nonce r)), ?c)"
    using Cons.prems aead_read_record[of A "ar_nonce r" p "c_in ?c" "c_out c" "c_writes c"]
    by (cases c) (simp add: layer_frame_def layer_advance_def)
  have ih: "\<exists>s. aead_write_to A m (n + length (reader_rest r)) ((?r r, ?c), \<lparr>c_in = i, c_out = w @ reader_rest r, c_writes = None\<rparr>) =
    Some ((n + length (reader_rest r) + length (reader_rest (?r r) @ concat ps), None), s,
      \<lparr>c_in = i, c_out = (w @ reader_rest r) @ reader_rest (?r r) @ concat ps, c_writes = None\<rparr>)"
    by (rule Cons.IH) (use Cons.prems m in \<open>simp_all add: reader_ok_def aead_ok_def\<close>)
  have rest: "reader_rest (?r r) = p" by (simp add: reader_rest_def)
  have upd: "r\<lparr>ar_nonce := x, ar_buf := y\<rparr> = \<lparr>ar_nonce = x, ar_buf = y\<rparr>" for x y by (cases r) simp
  show ?case
    using ih Cons.prems(6) rd
    by (cases "ar_buf r") (auto simp: m Let_def on_reader_def reader_ok_def reader_rest_def conn_Write_def add.assoc upd)
qed

subsection \<open>Packets\<close>

text \<open>What \<open>Pack\<close> makes \<open>Unpack\<close> takes apart, when the buffers are large enough.\<close>

theorem aead_packet_roundtrip:
  assumes "ci_Encrypter C salt = Some A" and "ci_Decrypter C salt = Some A" and "aead_ok A" and "length salt = ci_SaltSize C"
    and "ci_SaltSize C + length p + Overhead A \<le> n" and "length p \<le> m"
  shows "\<exists>pkt. aead_Pack C salt n p = Inr pkt \<and> aead_Unpack C m pkt = Inr p"
proof -
  have "length (zerononce A) = NonceSize A" by (simp add: zerononce_def)
  from aead_okD [OF assms(3) this] show ?thesis using assms(1,2,4-6) by (simp add: aead_Pack_def aead_Unpack_def)
qed

definition demo_crypto :: ss_crypto where
  "demo_crypto = \<lparr>hkdfSHA1 = (\<lambda>psk salt info n. replicate n 7), cr_aesGCM = (\<lambda>_. Some demo_aead),
     cr_chacha20poly1305 = (\<lambda>_. Some demo_aead), cr_xchacha20poly1305 = (\<lambda>_. None)\<rparr>"

definition demo_cipher :: ss_cipher where
  "demo_cipher = metaCipher demo_crypto (replicate 16 1) (cr_aesGCM demo_crypto)"

lemma demo_cipher_simps: "ci_Encrypter demo_cipher salt = Some demo_aead" "ci_Decrypter demo_cipher salt = Some demo_aead"
  "ci_SaltSize demo_cipher = 16"
  by (simp_all add: demo_cipher_def metaCipher_def demo_crypto_def Let_def)

theorem aead_stream_roundtrip_witness:
  "\<exists>s1 n s2. writes (AeadConn_Write demo_cipher (replicate 16 9)) [[1, 2, 3], [4]] (AeadConn_New (fed [])) = Some (map length [[1, 2, 3], [4 :: u8]], s1) \<and>
    reads (AeadConn_Read demo_cipher) [2, 2, 2, 2] (AeadConn_New (fed (c_out (ac_Conn s1)))) = (take n [1, 2, 3, 4], s2) \<and>
    length (concat [[1, 2, 3], [4 :: u8]]) \<le> n"
  using aead_stream_roundtrip [of demo_cipher "replicate 16 9" demo_aead "[[1, 2, 3], [4]]" "[2, 2, 2, 2]"] demo_aead_ok
  by (simp add: demo_cipher_simps del: writes.simps reads.simps)

theorem aead_packet_roundtrip_witness:
  "\<exists>pkt. aead_Pack demo_cipher (replicate 16 9) 100 [1, 2, 3] = Inr pkt \<and> aead_Unpack demo_cipher 50 pkt = Inr [1, 2, 3]"
proof (rule aead_packet_roundtrip)
  show "ci_SaltSize demo_cipher + length [1, 2, 3 :: u8] + Overhead demo_aead \<le> 100"
    by (simp add: demo_cipher_simps demo_aead_def)
qed (simp_all add: demo_cipher_simps demo_aead_ok)

text \<open>
  A source that ends without bytes still makes a record: \<open>ReadFrom\<close> writes one of length zero, which the reader at
  the other end reports as an error.
\<close>

lemma end_of_source_is_an_error:
  assumes "aead_ok A" and "length nonce = 32"
  shows "\<exists>c. AeadWriter_ReadFrom A [([], Some EOF)] 0 (nonce, fed []) = Some ((0, None), bump A (bump A nonce), c) \<and>
    fst (aead_read A (nonce, fed (c_out c))) = Inl ErrZeroChunk"
proof -
  let ?n1 = "take (NonceSize A) nonce"
  have "length ?n1 = NonceSize A" using assms by (simp add: aead_ok_def)
  note o = aead_okD [OF assms(1) this]
  have "read_full (2 + Overhead A) (fed (aead_record A nonce [])) =
      (Inr (Seal A ?n1 [0, 0] []), fed (Seal A (take (NonceSize A) (bump A nonce)) [] []))"
    unfolding aead_record_def fed_def list.size by (subst read_full_append) (simp_all add: o)
  then show ?thesis
    by (simp add: fed_def aead_read_def io_bind_def on_conn_def open_next_def o io_fail_def Let_def)
qed

end
