(* ===== verification/StreamProps.thy ===== *)
theory StreamProps
  imports ShadowStream AeadProps
begin

text \<open>
  Properties of the unauthenticated ciphers and of the choice of a cipher: the round trip of a stream however it is
  cut, and that a password always gives a key.
\<close>

subsection \<open>The stream\<close>

lemma stream_okD:
  assumes "stream_ok C"
  shows "length (fst (XORKeyStream C k a)) = length a" and "XORKeyStream C k [] = ([], k)"
    and "XORKeyStream C k (a @ b) =
      (case XORKeyStream C k a of (x, k1) \<Rightarrow> case XORKeyStream C k1 b of (y, k2) \<Rightarrow> (x @ y, k2))"
    and "fst (XORKeyStream C (sc_Decrypter C iv) (fst (XORKeyStream C (sc_Encrypter C iv) p))) = p"
  using assms unfolding stream_ok_def by blast+

lemma stream_write_all:
  assumes "stream_ok C"
  shows "stream_write_loop C p n (k, \<lparr>c_in = i, c_out = w, c_writes = None\<rparr>) =
    ((n + length p, None), snd (XORKeyStream C k p), \<lparr>c_in = i, c_out = w @ fst (XORKeyStream C k p), c_writes = None\<rparr>)"
proof (induction "length p" arbitrary: p n k w rule: less_induct)
  case less
  show ?case
  proof (cases "p = []")
    case True
    then show ?thesis using stream_okD(2) [OF assms] by simp
  next
    case False
    let ?x = "take streamBufSize p" and ?y = "drop streamBufSize p"
    obtain ct k1 where ct: "XORKeyStream C k ?x = (ct, k1)" by (metis prod.collapse)
    have split: "XORKeyStream C k p = (ct @ fst (XORKeyStream C k1 ?y), snd (XORKeyStream C k1 ?y))"
      using stream_okD(3) [OF assms, of k ?x ?y] ct by (simp add: split_beta)
    have "length ?y < length p" using False by (simp add: streamBufSize_def)
    from less [OF this] False ct split show ?thesis
      by (subst stream_write_loop.simps) (simp add: Let_def del: stream_write_loop.simps)
  qed
qed

lemma StreamWrites_all:
  assumes "stream_ok C"
  shows "\<exists>s'. writes (StreamConn_Write C random) bs
      \<lparr>sn_Conn = \<lparr>c_in = i, c_out = w, c_writes = None\<rparr>, sn_r = r, sn_w = Some k, sn_readIV = ri, sn_writeIV = wi\<rparr> =
        Some (map length bs, s') \<and>
    c_out (sn_Conn s') = w @ fst (XORKeyStream C k (concat bs))"
proof (induction bs arbitrary: w k)
  case Nil
  then show ?case using stream_okD(2) [OF assms] by simp
next
  case (Cons b bs)
  obtain ct k1 where ct: "XORKeyStream C k b = (ct, k1)" by (metis prod.collapse)
  from Cons.IH [of "w @ ct" k1] obtain s' where
    "writes (StreamConn_Write C random) bs \<lparr>sn_Conn = \<lparr>c_in = i, c_out = w @ ct, c_writes = None\<rparr>, sn_r = r, sn_w = Some k1,
       sn_readIV = ri, sn_writeIV = wi\<rparr> = Some (map length bs, s')"
    "c_out (sn_Conn s') = (w @ ct) @ fst (XORKeyStream C k1 (concat bs))" by blast
  moreover have "StreamConn_Write C random b
      \<lparr>sn_Conn = \<lparr>c_in = i, c_out = w, c_writes = None\<rparr>, sn_r = r, sn_w = Some k, sn_readIV = ri, sn_writeIV = wi\<rparr> =
      ((length b, None), \<lparr>sn_Conn = \<lparr>c_in = i, c_out = w @ ct, c_writes = None\<rparr>, sn_r = r, sn_w = Some k1, sn_readIV = ri,
         sn_writeIV = wi\<rparr>)"
    using ct by (simp add: StreamConn_Write_def StreamConn_initWriter_def stream_write_all [OF assms] del: stream_write_loop.simps)
  ultimately show ?case using stream_okD(3) [OF assms, of k b "concat bs"] ct by (simp add: split_beta)
qed

lemma StreamReads_all:
  assumes "stream_ok C" and "\<forall>k\<in>set ks. 0 < snd k"
  shows "\<exists>n s'. reads (\<lambda>(avail, n). StreamConn_Read C avail n) ks
      \<lparr>sn_Conn = \<lparr>c_in = ct, c_out = w, c_writes = l\<rparr>, sn_r = Some k, sn_w = v, sn_readIV = ri, sn_writeIV = wi\<rparr> =
        (take n (fst (XORKeyStream C k ct)), s') \<and> min (length ks) (length ct) \<le> n"
  using assms(2)
proof (induction ks arbitrary: ct k)
  case Nil
  show ?case by (intro exI [of _ 0]) simp
next
  case (Cons a ks)
  obtain avail n where a: "a = (avail, n)" by (cases a)
  show ?case
  proof (cases "ct = []")
    case True
    then show ?thesis by (intro exI [of _ 0]) (simp add: a StreamConn_Read_def StreamConn_initReader_def io_bind_def conn_Read_def)
  next
    case False
    let ?m = "min n (max 1 avail)"
    obtain p k1 where p: "XORKeyStream C k (take ?m ct) = (p, k1)" by (metis prod.collapse)
    from Cons.IH [of "drop ?m ct" k1] Cons.prems obtain j s' where
      j: "reads (\<lambda>(avail, n). StreamConn_Read C avail n) ks \<lparr>sn_Conn = \<lparr>c_in = drop ?m ct, c_out = w, c_writes = l\<rparr>, sn_r = Some k1, sn_w = v,
            sn_readIV = ri, sn_writeIV = wi\<rparr> = (take j (fst (XORKeyStream C k1 (drop ?m ct))), s')"
        "min (length ks) (length (drop ?m ct)) \<le> j" by auto
    have all: "fst (XORKeyStream C k ct) = p @ fst (XORKeyStream C k1 (drop ?m ct))"
      using stream_okD(3) [OF assms(1), of k "take ?m ct" "drop ?m ct"] p by (simp add: split_beta)
    have lp: "length p = min (length ct) ?m" using stream_okD(1) [OF assms(1), of k "take ?m ct"] p by simp
    have "reads (\<lambda>(avail, n). StreamConn_Read C avail n) (a # ks) \<lparr>sn_Conn = \<lparr>c_in = ct, c_out = w, c_writes = l\<rparr>, sn_r = Some k, sn_w = v,
        sn_readIV = ri, sn_writeIV = wi\<rparr> = (take (length p + j) (fst (XORKeyStream C k ct)), s')"
      using j(1) False p all
      by (simp add: a StreamConn_Read_def StreamConn_initReader_def io_bind_def conn_Read_def Let_def)
    moreover have "0 < length p" using lp False Cons.prems by (simp add: a)
    then have "min (length (a # ks)) (length ct) \<le> length p + j" using j(2) lp by (simp only: list.size length_drop) linarith
    ultimately show ?thesis by blast
  qed
qed

text \<open>
  What one end writes the other end reads, however the writes, the network and the reads cut it, provided the random
  vector has the size of the cipher, which is positive.
\<close>

theorem cipher_stream_roundtrip:
  assumes "stream_ok C" and "length iv = sc_IVSize C" and "0 < sc_IVSize C" and "bs \<noteq> []" and "ks \<noteq> []" and "\<forall>k\<in>set ks. 0 < snd k"
  shows "\<exists>s1 n s2. writes (StreamConn_Write C iv) bs (StreamConn_New (fed [])) = Some (map length bs, s1) \<and>
    reads (\<lambda>(avail, n). StreamConn_Read C avail n) ks (StreamConn_New (fed (c_out (sn_Conn s1)))) = (take n (concat bs), s2) \<and>
    min (length ks) (length (concat bs)) \<le> n"
proof -
  let ?w = "\<lparr>sn_Conn = \<lparr>c_in = [], c_out = iv, c_writes = None\<rparr>, sn_r = None, sn_w = Some (sc_Encrypter C iv), sn_readIV = [], sn_writeIV = iv\<rparr>"
  obtain b0 bs' where bs: "bs = b0 # bs'" using assms(4) by (cases bs) auto
  obtain a0 n0 ks' where ks: "ks = (a0, n0) # ks'" using assms(5) by (cases ks) auto
  have "StreamConn_initWriter C iv (StreamConn_New (fed [])) = (Inr (), ?w)" "StreamConn_initWriter C iv ?w = (Inr (), ?w)"
    using assms(3) by (simp_all add: StreamConn_initWriter_def ObtainWriteIV_def StreamConn_New_def fed_def)
  then have "writes (StreamConn_Write C iv) bs (StreamConn_New (fed [])) = writes (StreamConn_Write C iv) bs ?w"
    by (simp add: bs StreamConn_Write_def)
  moreover from StreamWrites_all [OF assms(1), of iv bs "[]" iv None "sc_Encrypter C iv" "[]" iv] obtain s1 where
    "writes (StreamConn_Write C iv) bs ?w = Some (map length bs, s1)"
    "c_out (sn_Conn s1) = iv @ fst (XORKeyStream C (sc_Encrypter C iv) (concat bs))" by blast
  ultimately have w: "writes (StreamConn_Write C iv) bs (StreamConn_New (fed [])) = Some (map length bs, s1)"
    and out: "c_out (sn_Conn s1) = iv @ fst (XORKeyStream C (sc_Encrypter C iv) (concat bs))" by simp_all
  let ?ct = "fst (XORKeyStream C (sc_Encrypter C iv) (concat bs))"
  let ?r = "\<lparr>sn_Conn = \<lparr>c_in = ?ct, c_out = [], c_writes = None\<rparr>, sn_r = Some (sc_Decrypter C iv), sn_w = None, sn_readIV = iv, sn_writeIV = []\<rparr>"
  have "StreamConn_initReader C (StreamConn_New (fed (c_out (sn_Conn s1)))) = (Inr (), ?r)" "StreamConn_initReader C ?r = (Inr (), ?r)"
    using assms(2,3) by (simp_all add: StreamConn_initReader_def ObtainReadIV_def StreamConn_New_def fed_def out io_bind_def)
  then have "reads (\<lambda>(avail, n). StreamConn_Read C avail n) ks (StreamConn_New (fed (c_out (sn_Conn s1)))) = reads (\<lambda>(avail, n). StreamConn_Read C avail n) ks ?r"
    by (simp add: ks StreamConn_Read_def io_bind_def)
  moreover from StreamReads_all [OF assms(1,6), of ?ct "[]" None "sc_Decrypter C iv" None iv "[]"] obtain n s2 where
    "reads (\<lambda>(avail, n). StreamConn_Read C avail n) ks ?r = (take n (concat bs), s2)" "min (length ks) (length ?ct) \<le> n"
    unfolding stream_okD(4) [OF assms(1)] by blast
  ultimately show ?thesis using w stream_okD(1) [OF assms(1)] by auto
qed

text \<open>An instance: adding the bytes of the vector, again and again.\<close>

definition demo_stream :: "(nat \<times> u8) stream_cipher" where
  "demo_stream = \<lparr>sc_IVSize = 16, sc_Encrypter = (\<lambda>iv. (0, sum_list iv)), sc_Decrypter = (\<lambda>iv. (0, - sum_list iv)),
     XORKeyStream = (\<lambda>(i, d) p. (map ((+) d) p, (i + length p, d)))\<rparr>"

lemma demo_stream_ok: "stream_ok demo_stream"
  by (simp add: stream_ok_def demo_stream_def comp_def)

theorem cipher_stream_roundtrip_witness:
  "\<exists>s1 n s2. writes (StreamConn_Write demo_stream (replicate 16 9)) [[1, 2, 3], []] (StreamConn_New (fed [])) =
      Some (map length [[1, 2, 3 :: u8], []], s1) \<and>
    reads (\<lambda>(avail, n). StreamConn_Read demo_stream avail n) [(1, 5), (7, 1)] (StreamConn_New (fed (c_out (sn_Conn s1)))) = (take n (concat [[1, 2, 3], []]), s2) \<and>
    min (length [(1 :: nat, 5 :: nat), (7, 1)]) (length (concat [[1, 2, 3 :: u8], []])) \<le> n"
  by (rule cipher_stream_roundtrip) (simp_all add: demo_stream_ok, simp_all add: demo_stream_def)

subsection \<open>Keys\<close>

lemma Kdf_loop_ends:
  assumes "\<forall>x. length (md5 x) = 16"
  shows "\<exists>k. Kdf_loop md5 password n b prev = Some k \<and> length k = n"
proof (induction "n - length b" arbitrary: b prev rule: less_induct)
  case less
  show ?case
  proof (cases "length b < n")
    case True
    let ?b = "b @ md5 (prev @ password)"
    have "n - length ?b < n - length b" using True assms by simp
    from less [OF this, of "drop (length ?b - 16) ?b"] True show ?thesis by (subst Kdf_loop.simps) (simp add: Let_def)
  next
    case False
    then show ?thesis by (subst Kdf_loop.simps) simp
  qed
qed

text \<open>With the password in place of a key, choosing a cipher ends, and every supported name gives a cipher whose key has
  the size of the name: the key derivation never leaves a key of the wrong size.
\<close>

theorem password_gives_key:
  assumes "\<forall>x. length (cr_md5 L x) = 16" and "\<And>k. length k \<in> {16, 24, 32} \<Longrightarrow> cr_aes L k"
    and "map_of (map (\<lambda>(n, s, _). (n, s)) (aeadList K) @ map (\<lambda>(n, s, _). (n, s)) (streamList L)) (aead_alias (ToUpper name)) = Some ksize"
    and "ToUpper name \<noteq> ''DUMMY''"
  shows "\<exists>k. length k = ksize \<and>
    ((\<exists>c. PickCipher K L name [] password = Some (Inr (AeadCipher c k))) \<or>
     (\<exists>c. PickCipher K L name [] password = Some (Inr (StreamCipher c k))))"
proof -
  obtain k where k: "Kdf (cr_md5 L) password ksize = Some k" "length k = ksize"
    using Kdf_loop_ends [OF assms(1), of "bytes_of password" ksize "[]" "[]"] by (auto simp: Kdf_def)
  have ck: "choose_key (cr_md5 L) [] password ksize = Some (Inr k)" using k by (simp add: choose_key_def)
  show ?thesis using assms(3,4) ck k(2) assms(2) [of k]
    by (intro exI [of _ k])
      (auto simp: PickCipher_def Let_def aeadList_def streamList_def AESGCM_def Chacha20Poly1305_def XChacha20Poly1305_def
        RC4MD5_def AESCTR_def AESCFB_def Chacha20IETF_def Xchacha20_def split: if_splits)
qed

definition demo_streams :: "(nat \<times> u8) stream_crypto" where
  "demo_streams = \<lparr>cr_ctr = (\<lambda>key iv. (0, sum_list (key @ iv))), cr_cfb_enc = (\<lambda>key iv. (0, sum_list (key @ iv))),
     cr_cfb_dec = (\<lambda>key iv. (0, - sum_list (key @ iv))), cr_aes = (\<lambda>key. length key \<in> {16, 24, 32}),
     cr_chacha20 = (\<lambda>key iv. (0, sum_list (key @ iv))), cr_rc4 = (\<lambda>key. (0, sum_list key)), cr_md5 = (\<lambda>_. replicate 16 3),
     cr_xor = (\<lambda>(i, d) p. (map ((+) d) p, (i + length p, d)))\<rparr>"

theorem password_gives_key_witness:
  "\<exists>k. length k = 32 \<and>
    ((\<exists>c. PickCipher demo_crypto demo_streams ''chacha20-ietf-poly1305'' [] ''pw'' = Some (Inr (AeadCipher c k))) \<or>
     (\<exists>c. PickCipher demo_crypto demo_streams ''chacha20-ietf-poly1305'' [] ''pw'' = Some (Inr (StreamCipher c k))))"
proof (rule password_gives_key)
  have up: "ToUpper ''chacha20-ietf-poly1305'' = ''CHACHA20-IETF-POLY1305''" by code_simp
  show "map_of (map (\<lambda>(n, s, _). (n, s)) (aeadList demo_crypto) @ map (\<lambda>(n, s, _). (n, s)) (streamList demo_streams))
      (aead_alias (ToUpper ''chacha20-ietf-poly1305'')) = Some 32"
    unfolding up by (simp add: aead_alias_def aeadList_def)
  show "ToUpper ''chacha20-ietf-poly1305'' \<noteq> ''DUMMY''"
    unfolding up by simp
qed (simp_all add: demo_streams_def)

end
