(* ===== verification/Vmess.thy ===== *)
theory Vmess
  imports ShadowAead Metadata
begin

text \<open>
  The VMess and VLESS client (\<open>src/pkg/clash/transport/vmess/\<close>): the identifiers of \<open>user.go\<close>, the client of
  \<open>vmess.go\<close>, the header of \<open>header.go\<close>, the framed bodies of \<open>chunk.go\<close> and \<open>aead.go\<close> and the connection of
  \<open>conn.go\<close>. SHA-256, MD5, AES with its modes and ChaCha20-Poly1305 are parameters; HMAC, FNV and CRC-32 of the
  standard library are written out. Time and the random bytes of a request are arguments.
\<close>

subsection \<open>Parameters and standard hashes\<close>

record vmess_crypto =
  vc_md5 :: "u8 list \<Rightarrow> u8 list"
  vc_sha256 :: "u8 list \<Rightarrow> u8 list"
  vc_gcm :: "u8 list \<Rightarrow> aead"
  vc_chacha :: "u8 list \<Rightarrow> aead"
  vc_aes :: "u8 list \<Rightarrow> u8 list \<Rightarrow> u8 list"
  vc_cfb_enc :: "u8 list \<Rightarrow> u8 list \<Rightarrow> u8 list \<Rightarrow> u8 list"
  vc_cfb_dec :: "u8 list \<Rightarrow> u8 list \<Rightarrow> u8 list \<Rightarrow> u8 list"

text \<open>HMAC of a hash function with blocks of 64 bytes; an HMAC is such a hash function again.\<close>

definition hmac :: "(u8 list \<Rightarrow> u8 list) \<Rightarrow> u8 list \<Rightarrow> u8 list \<Rightarrow> u8 list" where
  "hmac H key m =
     (let k = (if 64 < length key then H key else key); b = k @ replicate (64 - length k) 0 in
      H (map (xor 0x5C) b @ H (map (xor 0x36) b @ m)))"

definition fnv32a :: "u8 list \<Rightarrow> u32" where
  "fnv32a bs = foldl (\<lambda>h b. xor h (ucast b) * 16777619) 2166136261 bs"

definition crc_bit :: "u32 \<Rightarrow> u32" where
  "crc_bit c = (if bit c 0 then xor (drop_bit 1 c) 0xEDB88320 else drop_bit 1 c)"

definition crc32_IEEE :: "u8 list \<Rightarrow> u32" where
  "crc32_IEEE bs = not (foldl (\<lambda>c b. (crc_bit ^^ 8) (xor c (ucast b))) (not 0) bs)"

subsection \<open>Users (user.go)\<close>

record vmess_id =
  id_UUID :: "u8 list"
  id_CmdKey :: "u8 list"

definition newID :: "vmess_crypto \<Rightarrow> u8 list \<Rightarrow> vmess_id" where
  "newID K uuid = \<lparr>id_UUID = uuid, id_CmdKey = vc_md5 K (uuid @ bytes_of ''c48619fe-8f02-49e0-b9e9-edf763e17e21'')\<rparr>"

text \<open>The loop ends as soon as the hash differs from the identifier; \<open>None\<close> is a loop that does not.\<close>

partial_function (option) nextID_loop :: "(u8 list \<Rightarrow> u8 list) \<Rightarrow> u8 list \<Rightarrow> u8 list \<Rightarrow> u8 list option" where
  "nextID_loop md5 u hashed =
     (if md5 hashed \<noteq> u then Some (md5 hashed)
      else nextID_loop md5 u (hashed @ bytes_of ''533eff8a-4113-4b10-b5ce-0f5d76b98cd2''))"

definition nextID :: "vmess_crypto \<Rightarrow> u8 list \<Rightarrow> u8 list option" where
  "nextID K u = nextID_loop (vc_md5 K) u (u @ bytes_of ''16167dc8-16b6-4e6d-b8bb-65dd68113a81'')"

fun alter_loop :: "vmess_crypto \<Rightarrow> u8 list \<Rightarrow> nat \<Rightarrow> u8 list \<Rightarrow> vmess_id list option" where
  "alter_loop K cmdKey 0 prevID = Some []"
| "alter_loop K cmdKey (Suc n) prevID =
     (case nextID K prevID of
        None \<Rightarrow> None
      | Some newid \<Rightarrow> map_option ((#) \<lparr>id_UUID = newid, id_CmdKey = cmdKey\<rparr>) (alter_loop K cmdKey n newid))"

definition newAlterIDs :: "vmess_crypto \<Rightarrow> vmess_id \<Rightarrow> u16 \<Rightarrow> vmess_id list option" where
  "newAlterIDs K primary alterIDCount =
     map_option (\<lambda>ids. ids @ [primary]) (alter_loop K (id_CmdKey primary) (unat alterIDCount) (id_UUID primary))"

subsection \<open>Client (vmess.go)\<close>

definition OptionChunkStream :: u8 where "OptionChunkStream = 1"

datatype security = SecurityAES128GCM | SecurityCHACHA20POLY1305 | SecurityNone | SecurityZero

fun security_byte :: "security \<Rightarrow> u8" where
  "security_byte SecurityAES128GCM = 3"
| "security_byte SecurityCHACHA20POLY1305 = 4"
| "security_byte SecurityNone = 5"
| "security_byte SecurityZero = 6"

record vmess_dst =
  vd_UDP :: bool
  vd_AddrType :: u8
  vd_Addr :: "u8 list"
  vd_Port :: nat

record vmess_config =
  vg_UUID :: string
  vg_AlterID :: u16
  vg_Security :: string
  vg_IsAead :: bool
  vg_IsVless :: bool

record vmess_client =
  vl_user :: "vmess_id list"
  vl_uuid :: "u8 list"
  vl_security :: security
  vl_isAead :: bool
  vl_isVless :: bool

datatype client_error = BadUUID | UnknownSecurity string

definition choose_security :: "string \<Rightarrow> string \<Rightarrow> security option" where
  "choose_security goarch s =
     (if s = ''aes-128-gcm'' then Some SecurityAES128GCM
      else if s = ''chacha20-poly1305'' then Some SecurityCHACHA20POLY1305
      else if s = ''none'' then Some SecurityNone
      else if s = ''zero'' then Some SecurityZero
      else if s = ''auto'' then
        Some (if goarch = ''amd64'' \<or> goarch = ''s390x'' \<or> goarch = ''arm64'' then SecurityAES128GCM else SecurityCHACHA20POLY1305)
      else None)"

text \<open>\<open>uuid.FromString\<close> and the architecture are parameters. \<open>None\<close> is the endless loop of \<open>nextID\<close>.\<close>

definition Vmess_NewClient ::
  "vmess_crypto \<Rightarrow> (string \<Rightarrow> u8 list option) \<Rightarrow> string \<Rightarrow> vmess_config \<Rightarrow> (client_error + vmess_client) option" where
  "Vmess_NewClient K FromString goarch config0 =
     (case FromString (vg_UUID config0) of
        None \<Rightarrow> Some (Inl BadUUID)
      | Some uid \<Rightarrow>
          let config = (if vg_IsVless config0 then config0\<lparr>vg_AlterID := 0, vg_Security := ''zero''\<rparr> else config0) in
          (case choose_security goarch (vg_Security config) of
             None \<Rightarrow> Some (Inl (UnknownSecurity (vg_Security config)))
           | Some sec \<Rightarrow>
               map_option (\<lambda>user. Inr \<lparr>vl_user = user, vl_uuid = uid, vl_security = sec, vl_isAead = vg_IsAead config,
                   vl_isVless = vg_IsVless config\<rparr>)
                 (newAlterIDs K (newID K uid) (vg_AlterID config))))"

subsection \<open>The sealed header (header.go)\<close>

text \<open>A creator of hashes: HMAC of SHA-256, or of what the parent creates.\<close>

datatype hMacCreator = HMacCreator (hm_parent: "hMacCreator option") (hm_value: "u8 list")

fun hm_Create :: "vmess_crypto \<Rightarrow> hMacCreator \<Rightarrow> u8 list \<Rightarrow> u8 list" where
  "hm_Create K (HMacCreator None v) = hmac (vc_sha256 K) v"
| "hm_Create K (HMacCreator (Some p) v) = hmac (hm_Create K p) v"

definition vmess_kdf :: "vmess_crypto \<Rightarrow> u8 list \<Rightarrow> u8 list list \<Rightarrow> u8 list" where
  "vmess_kdf K key path =
     hm_Create K (foldl (\<lambda>h v. HMacCreator (Some h) v) (HMacCreator None (bytes_of ''VMess AEAD KDF'')) path) key"

text \<open>The random parts of a request: the moment, padding length and bytes, and those of the sealed header.\<close>

record request_rand =
  rq_time :: "64 word"
  rq_p :: nat
  rq_padding :: "u8 list"
  rq_auth :: "u8 list"
  rq_nonce :: "u8 list"

definition createAuthID :: "protobytes \<Rightarrow> vmess_crypto \<Rightarrow> u8 list \<Rightarrow> request_rand \<Rightarrow> u8 list" where
  "createAuthID B K cmdKey R =
     (let buf = PutSlice B (PutUint64be B [] (rq_time R)) (rq_auth R);
          buf = PutUint32be B buf (crc32_IEEE buf) in
      vc_aes K (take 16 (vmess_kdf K cmdKey [bytes_of ''AES Auth ID Encryption''])) buf)"

definition seal_part :: "vmess_crypto \<Rightarrow> u8 list \<Rightarrow> string \<Rightarrow> string \<Rightarrow> u8 list \<Rightarrow> u8 list \<Rightarrow> u8 list \<Rightarrow> u8 list" where
  "seal_part K key keySalt ivSalt authID nonce data =
     Seal (vc_gcm K (take 16 (vmess_kdf K key [bytes_of keySalt, authID, nonce])))
       (take 12 (vmess_kdf K key [bytes_of ivSalt, authID, nonce])) data authID"

definition sealVMessAEADHeader :: "protobytes \<Rightarrow> vmess_crypto \<Rightarrow> u8 list \<Rightarrow> u8 list \<Rightarrow> request_rand \<Rightarrow> u8 list" where
  "sealVMessAEADHeader B K key data R =
     (let authID = createAuthID B K key R; nonce = rq_nonce R;
          len = seal_part K key ''VMess Header AEAD Key_Length'' ''VMess Header AEAD Nonce_Length'' authID nonce
                  (be16 (of_nat (length data)));
          payload = seal_part K key ''VMess Header AEAD Key'' ''VMess Header AEAD Nonce'' authID nonce data in
      PutSlice B (PutSlice B (PutSlice B (PutSlice B [] authID) len) nonce) payload)"

subsection \<open>Framed bodies (chunk.go, aead.go)\<close>

definition chunkSize :: nat where "chunkSize = 16384"
definition maxSize :: nat where "maxSize = 17 * 1024"

datatype vmess_error =
    VmIO aead_error | TooLarge | VmOpen | UnexpectedVersion | UnexpectedHeader | DynamicPort | UnexpectedLength
  | BadKey | NilReader

text \<open>The buffer of both readers with the offset of what was not read yet.\<close>

type_synonym chunk_buf = "(u8 list \<times> nat) option"

definition buf_read :: "nat \<Rightarrow> u8 list \<Rightarrow> nat \<Rightarrow> u8 list \<times> chunk_buf" where
  "buf_read k b off =
     (let out = take k (drop off b); off' = off + length out in (out, if off' = length b then None else Some (b, off')))"

text \<open>The size of the next chunk and so many bytes.\<close>

definition read_chunk :: "(io_conn, vmess_error, u8 list) comp" where
  "read_chunk =
     io_bind (io_err VmIO (read_full 2)) (\<lambda>h.
       let size = of_be16 (h ! 0) (h ! 1) in
       if maxSize < size then io_fail TooLarge else io_err VmIO (read_full size))"

text \<open>A chunk that fits is read into the argument; else the rest of it stays in the buffer.\<close>

definition chunkReader_Read :: "nat \<Rightarrow> (chunk_buf \<times> io_conn, vmess_error, u8 list) comp" where
  "chunkReader_Read k = (\<lambda>(buf, c).
     case buf of
       Some (b, off) \<Rightarrow> (case buf_read k b off of (out, buf') \<Rightarrow> (Inr out, buf', c))
     | None \<Rightarrow>
         (case read_chunk c of
            (Inl e, c') \<Rightarrow> (Inl e, None, c')
          | (Inr p, c') \<Rightarrow> if length p \<le> k then (Inr p, None, c') else (Inr (take k p), Some (p, k), c')))"

definition chunk_frame :: "unit \<Rightarrow> u8 list \<Rightarrow> u8 list" where
  "chunk_frame _ p = be16 (of_nat (length p)) @ p"

definition chunkWriter_Write :: "u8 list \<Rightarrow> io_conn \<Rightarrow> write_result \<times> io_conn" where
  "chunkWriter_Write b c = (case write_pieces chunk_frame (\<lambda>_. ()) chunkSize b 0 ((), c) of (r, _, c') \<Rightarrow> (r, c'))"

text \<open>The nonce: two bytes of the count and ten of the vector, and zeros up to the size of the cipher.\<close>

definition vmess_nonce :: "aead \<Rightarrow> u8 list \<Rightarrow> u16 \<Rightarrow> u8 list" where
  "vmess_nonce A iv count = take (NonceSize A) (be16 count @ take 10 (drop 2 iv) @ replicate 20 0)"

record sealed =
  se_aead :: aead
  se_iv :: "u8 list"
  se_count :: u16

definition sealed_frame :: "sealed \<Rightarrow> u8 list \<Rightarrow> u8 list" where
  "sealed_frame w p =
     be16 (of_nat (length p + Overhead (se_aead w))) @ Seal (se_aead w) (vmess_nonce (se_aead w) (se_iv w) (se_count w)) p []"

definition sealed_next :: "sealed \<Rightarrow> sealed" where
  "sealed_next w = w\<lparr>se_count := se_count w + 1\<rparr>"

definition aeadWriter_Write :: "u8 list \<Rightarrow> sealed \<times> io_conn \<Rightarrow> write_result \<times> sealed \<times> io_conn" where
  "aeadWriter_Write b = (\<lambda>(w, c). write_pieces sealed_frame sealed_next (chunkSize - Overhead (se_aead w)) b 0 (w, c))"

text \<open>The count goes up whether or not the chunk opens.\<close>

definition aeadReader_Read :: "nat \<Rightarrow> ((sealed \<times> chunk_buf) \<times> io_conn, vmess_error, u8 list) comp" where
  "aeadReader_Read k = (\<lambda>((r, buf), c).
     case buf of
       Some (b, off) \<Rightarrow> (case buf_read k b off of (out, buf') \<Rightarrow> (Inr out, (r, buf'), c))
     | None \<Rightarrow>
         (case read_chunk c of
            (Inl e, c') \<Rightarrow> (Inl e, (r, None), c')
          | (Inr ct, c') \<Rightarrow>
              (case Open (se_aead r) (vmess_nonce (se_aead r) (se_iv r) (se_count r)) ct [] of
                 None \<Rightarrow> (Inl VmOpen, (sealed_next r, None), c')
               | Some p \<Rightarrow>
                   if length p \<le> k then (Inr p, (sealed_next r, None), c')
                   else (Inr (take k p), (sealed_next r, Some (p, k)), c'))))"

subsection \<open>Connections (conn.go)\<close>

datatype vmess_reader = PlainReader | ChunkReader chunk_buf | AeadReader sealed chunk_buf
datatype vmess_writer = PlainWriter | ChunkWriter | AeadWriter sealed

record vmess_conn =
  vm_Conn :: io_conn
  vm_reader :: vmess_reader
  vm_writer :: vmess_writer
  vm_dst :: vmess_dst
  vm_id :: vmess_id
  vm_reqBodyIV :: "u8 list"
  vm_reqBodyKey :: "u8 list"
  vm_respBodyIV :: "u8 list"
  vm_respBodyKey :: "u8 list"
  vm_respV :: u8
  vm_security :: security
  vm_option :: u8
  vm_isAead :: bool
  vm_isVless :: bool
  vm_received :: bool

definition hashTimestamp :: "vmess_crypto \<Rightarrow> 64 word \<Rightarrow> u8 list" where
  "hashTimestamp K t = vc_md5 K (be64 t @ be64 t @ be64 t @ be64 t)"

definition vmess_command :: "vmess_dst \<Rightarrow> u8" where
  "vmess_command d = (if vd_UDP d then 2 else 1)"

definition vless_header :: "protobytes \<Rightarrow> vmess_conn \<Rightarrow> u8 list" where
  "vless_header B s =
     (let buf = PutUint8 B [] 0; buf = PutSlice B buf (id_UUID (vm_id s)); buf = PutUint8 B buf 0;
          buf = PutUint8 B buf (vmess_command (vm_dst s)); buf = PutUint16be B buf (of_nat (vd_Port (vm_dst s)));
          buf = PutUint8 B buf (vd_AddrType (vm_dst s)) in
      PutSlice B buf (vd_Addr (vm_dst s)))"

definition request_header :: "protobytes \<Rightarrow> vmess_conn \<Rightarrow> request_rand \<Rightarrow> u8 list" where
  "request_header B s R =
     (let buf = PutUint8 B [] 1; buf = PutSlice B buf (vm_reqBodyIV s); buf = PutSlice B buf (vm_reqBodyKey s);
          buf = PutUint8 B buf (vm_respV s); buf = PutUint8 B buf (vm_option s);
          buf = PutUint8 B buf (or (of_nat (rq_p R * 16)) (security_byte (vm_security s)));
          buf = PutUint8 B buf 0; buf = PutUint8 B buf (vmess_command (vm_dst s));
          buf = PutUint16be B buf (of_nat (vd_Port (vm_dst s))); buf = PutUint8 B buf (vd_AddrType (vm_dst s));
          buf = PutSlice B buf (vd_Addr (vm_dst s));
          buf = (if 0 < rq_p R then PutSlice B buf (rq_padding R) else buf) in
      PutSlice B buf (bytes_of_u32 (fnv32a buf)))"

definition aes_key :: "u8 list \<Rightarrow> bool" where
  "aes_key k \<longleftrightarrow> length k \<in> {16, 24, 32}"

text \<open>The bytes of a request, or the error of a key that AES refuses.\<close>

definition request_bytes :: "protobytes \<Rightarrow> vmess_crypto \<Rightarrow> vmess_conn \<Rightarrow> request_rand \<Rightarrow> vmess_error + u8 list" where
  "request_bytes B K s R =
     (if vm_isVless s then Inr (vless_header B s)
      else let buf = request_header B s R in
        if \<not> vm_isAead s then
          (if \<not> aes_key (id_CmdKey (vm_id s)) then Inl BadKey
           else Inr (PutSlice B (PutSlice B [] (hmac (vc_md5 K) (id_UUID (vm_id s)) (be64 (rq_time R))))
                       (vc_cfb_enc K (id_CmdKey (vm_id s)) (hashTimestamp K (rq_time R)) buf)))
        else Inr (sealVMessAEADHeader B K (take 16 (id_CmdKey (vm_id s) @ replicate 16 0)) buf R))"

definition sendRequest :: "protobytes \<Rightarrow> vmess_crypto \<Rightarrow> request_rand \<Rightarrow> (vmess_conn, vmess_error, unit) comp" where
  "sendRequest B K R s =
     (case request_bytes B K s R of
        Inl e \<Rightarrow> (Inl e, s)
      | Inr bs \<Rightarrow> (case conn_Write bs (vm_Conn s) of (r, c) \<Rightarrow> (map_sum (VmIO \<circ> AeadIO) id r, s\<lparr>vm_Conn := c\<rparr>)))"

text \<open>\<open>io.CopyN\<close> to nowhere, its error dropped.\<close>

definition skip_bytes :: "nat \<Rightarrow> (io_conn, vmess_error, unit) comp" where
  "skip_bytes n c = (Inr (), c\<lparr>c_in := drop n (c_in c)\<rparr>)"

definition resp_part :: "vmess_crypto \<Rightarrow> vmess_conn \<Rightarrow> string \<Rightarrow> string \<Rightarrow> u8 list \<Rightarrow> u8 list option" where
  "resp_part K s keySalt ivSalt ct =
     Open (vc_gcm K (take 16 (vmess_kdf K (vm_respBodyKey s) [bytes_of keySalt])))
       (take 12 (vmess_kdf K (vm_respBodyIV s) [bytes_of ivSalt])) ct []"

text \<open>The length of the second part is computed with 16 bits.\<close>

definition response_header :: "vmess_crypto \<Rightarrow> vmess_conn \<Rightarrow> (io_conn, vmess_error, u8 list) comp" where
  "response_header K s =
     (if \<not> vm_isAead s then
        if \<not> aes_key (vm_respBodyKey s) then io_fail BadKey
        else io_bind (io_err VmIO (read_full 4)) (\<lambda>b. io_ret (vc_cfb_dec K (vm_respBodyKey s) (vm_respBodyIV s) b))
      else
        io_bind (io_err VmIO (read_full 18)) (\<lambda>lct.
        (case resp_part K s ''AEAD Resp Header Len Key'' ''AEAD Resp Header Len IV'' lct of
           None \<Rightarrow> io_fail VmOpen
         | Some l \<Rightarrow>
             io_bind (io_err VmIO (read_full (unat (of_nat (of_be16 (l ! 0) (l ! 1)) + 16 :: u16)))) (\<lambda>ct.
             (case resp_part K s ''AEAD Resp Header Key'' ''AEAD Resp Header IV'' ct of
                None \<Rightarrow> io_fail VmOpen
              | Some buf \<Rightarrow> if length buf < 4 then io_fail UnexpectedLength else io_ret buf)))))"

definition recv_response :: "vmess_crypto \<Rightarrow> vmess_conn \<Rightarrow> (io_conn, vmess_error, unit) comp" where
  "recv_response K s =
     (if vm_isVless s then
        io_bind (io_err VmIO (read_full 2)) (\<lambda>b.
          if b ! 0 \<noteq> 0 then io_fail UnexpectedVersion else skip_bytes (unat (b ! 1)))
      else
        io_bind (response_header K s) (\<lambda>buf.
          if buf ! 0 \<noteq> vm_respV s then io_fail UnexpectedHeader
          else if buf ! 2 \<noteq> 0 then io_fail DynamicPort else io_ret ()))"

definition recvResponse :: "vmess_crypto \<Rightarrow> (vmess_conn, vmess_error, unit) comp" where
  "recvResponse K s = (case recv_response K s (vm_Conn s) of (r, c) \<Rightarrow> (r, s\<lparr>vm_Conn := c\<rparr>))"

text \<open>The reads of the body; the first argument is for a plain one what the system has at hand.\<close>

definition body_Read :: "nat \<Rightarrow> nat \<Rightarrow> (vmess_conn, vmess_error, u8 list) comp" where
  "body_Read avail k s =
     (case vm_reader s of
        PlainReader \<Rightarrow> (case conn_Read avail k (vm_Conn s) of (r, c) \<Rightarrow> (map_sum (VmIO \<circ> AeadIO) id r, s\<lparr>vm_Conn := c\<rparr>))
      | ChunkReader buf \<Rightarrow>
          (case chunkReader_Read k (buf, vm_Conn s) of (r, buf', c) \<Rightarrow> (r, s\<lparr>vm_reader := ChunkReader buf', vm_Conn := c\<rparr>))
      | AeadReader se buf \<Rightarrow>
          (case aeadReader_Read k ((se, buf), vm_Conn s) of
             (r, (se', buf'), c) \<Rightarrow> (r, s\<lparr>vm_reader := AeadReader se' buf', vm_Conn := c\<rparr>)))"

definition Vmess_Read :: "vmess_crypto \<Rightarrow> nat \<Rightarrow> nat \<Rightarrow> (vmess_conn, vmess_error, u8 list) comp" where
  "Vmess_Read K avail k s =
     (if vm_received s then body_Read avail k s
      else io_bind (recvResponse K) (\<lambda>_ s'. body_Read avail k (s'\<lparr>vm_received := True\<rparr>)) s)"

definition Vmess_Write :: "u8 list \<Rightarrow> vmess_conn \<Rightarrow> write_result \<times> vmess_conn" where
  "Vmess_Write b s =
     (case vm_writer s of
        PlainWriter \<Rightarrow>
          (case conn_Write b (vm_Conn s) of
             (Inl e, c) \<Rightarrow> ((0, Some e), s\<lparr>vm_Conn := c\<rparr>) | (Inr _, c) \<Rightarrow> ((length b, None), s\<lparr>vm_Conn := c\<rparr>))
      | ChunkWriter \<Rightarrow> (case chunkWriter_Write b (vm_Conn s) of (r, c) \<Rightarrow> (r, s\<lparr>vm_Conn := c\<rparr>))
      | AeadWriter se \<Rightarrow>
          (case aeadWriter_Write b (se, vm_Conn s) of (r, se', c) \<Rightarrow> (r, s\<lparr>vm_writer := AeadWriter se', vm_Conn := c\<rparr>)))"

subsection \<open>New connections\<close>

text \<open>The key that ChaCha20-Poly1305 makes of the key of a body.\<close>

definition chacha_key :: "vmess_crypto \<Rightarrow> u8 list \<Rightarrow> u8 list" where
  "chacha_key K k = vc_md5 K k @ vc_md5 K (vc_md5 K k)"

definition start_sealed :: "aead \<Rightarrow> u8 list \<Rightarrow> sealed" where
  "start_sealed A iv = \<lparr>se_aead = A, se_iv = iv, se_count = 0\<rparr>"

definition body_of :: "vmess_crypto \<Rightarrow> security \<Rightarrow> bool \<Rightarrow> u8 list \<Rightarrow> u8 list \<Rightarrow> u8 list \<Rightarrow> u8 list \<Rightarrow> vmess_reader \<times> vmess_writer" where
  "body_of K sec udp reqKey reqIV respKey respIV =
     (case sec of
        SecurityZero \<Rightarrow> if \<not> udp then (PlainReader, PlainWriter) else (ChunkReader None, ChunkWriter)
      | SecurityNone \<Rightarrow> (ChunkReader None, ChunkWriter)
      | SecurityAES128GCM \<Rightarrow> (AeadReader (start_sealed (vc_gcm K respKey) respIV) None, AeadWriter (start_sealed (vc_gcm K reqKey) reqIV))
      | SecurityCHACHA20POLY1305 \<Rightarrow>
          (AeadReader (start_sealed (vc_chacha K (chacha_key K respKey)) respIV) None,
           AeadWriter (start_sealed (vc_chacha K (chacha_key K reqKey)) reqIV)))"

text \<open>The 33 random bytes are an argument.\<close>

definition made_conn :: "vmess_crypto \<Rightarrow> u8 list \<Rightarrow> io_conn \<Rightarrow> vmess_id \<Rightarrow> vmess_dst \<Rightarrow> security \<Rightarrow> bool \<Rightarrow> bool \<Rightarrow> vmess_conn" where
  "made_conn K randBytes conn i dst sec isAead isVless =
     (let reqIV = (if isVless then [] else take 16 randBytes); reqKey = (if isVless then [] else take 16 (drop 16 randBytes));
          respKey = (if isVless then [] else if isAead then take 16 (vc_sha256 K reqKey) else vc_md5 K reqKey);
          respIV = (if isVless then [] else if isAead then take 16 (vc_sha256 K reqIV) else vc_md5 K reqIV);
          (r, w) = body_of K sec (vd_UDP dst) reqKey reqIV respKey respIV in
      \<lparr>vm_Conn = conn, vm_reader = r, vm_writer = w, vm_dst = dst, vm_id = i, vm_reqBodyIV = reqIV, vm_reqBodyKey = reqKey,
       vm_respBodyIV = respIV, vm_respBodyKey = respKey, vm_respV = (if isVless then 0 else randBytes ! 32),
       vm_security = (if sec = SecurityZero then SecurityNone else sec),
       vm_option = (if isVless \<or> sec = SecurityZero \<and> \<not> vd_UDP dst then 0 else OptionChunkStream),
       vm_isAead = isAead, vm_isVless = isVless, vm_received = False\<rparr>)"

definition Vmess_newConn ::
  "protobytes \<Rightarrow> vmess_crypto \<Rightarrow> u8 list \<Rightarrow> request_rand \<Rightarrow> io_conn \<Rightarrow> vmess_id \<Rightarrow> vmess_dst \<Rightarrow> security \<Rightarrow> bool \<Rightarrow> bool \<Rightarrow>
   vmess_error + vmess_conn" where
  "Vmess_newConn B K randBytes R conn i dst sec isAead isVless =
     (case sendRequest B K R (made_conn K randBytes conn i dst sec isAead isVless) of (Inl e, _) \<Rightarrow> Inl e | (Inr _, s) \<Rightarrow> Inr s)"

text \<open>A stream takes one of the users at random.\<close>

definition Vmess_StreamConn ::
  "protobytes \<Rightarrow> vmess_crypto \<Rightarrow> nat \<Rightarrow> u8 list \<Rightarrow> request_rand \<Rightarrow> vmess_client \<Rightarrow> io_conn \<Rightarrow> vmess_dst \<Rightarrow> vmess_error + vmess_conn" where
  "Vmess_StreamConn B K r randBytes R v conn dst =
     Vmess_newConn B K randBytes R conn (vl_user v ! r) dst (vl_security v) (vl_isAead v) (vl_isVless v)"

subsection \<open>Addresses (adapter/outbound/vmess.go)\<close>

text \<open>\<open>copy\<close> into a new slice: what does not fit is cut off, what is missing is zero.\<close>

definition copied :: "nat \<Rightarrow> u8 list \<Rightarrow> u8 list" where
  "copied n bs = take n (bs @ replicate n 0)"

definition parseVmessAddr :: "metadata \<Rightarrow> vmess_dst" where
  "parseVmessAddr m =
     (let (tp, addr) =
        (if AddrType m = AtypIPv4 then (1, copied 4 (To4 (DstIP m)))
         else if AddrType m = AtypIPv6 then (3, copied 16 (To16 (DstIP m)))
         else (2, of_nat (length (Host m)) # bytes_of (Host m))) in
      \<lparr>vd_UDP = (NetWork m = UDP), vd_AddrType = tp, vd_Addr = addr, vd_Port = unat (DstPort m)\<rparr>)"

end
