(* ===== verification/VmessProps.thy ===== *)
theory VmessProps
  imports Vmess AeadProps
begin

text \<open>
  What VMess promises: both framings are record layers, so a stream that one end writes is read at the other end; a
  server that knows the key understands the request of the client, and the client takes the answer of such a server
  and no other. The server is not part of the program: the reading of a request follows the format.
\<close>

subsection \<open>The framings as record layers\<close>

definition opt_rest :: "chunk_buf \<Rightarrow> u8 list" where
  "opt_rest buf = (case buf of None \<Rightarrow> [] | Some (b, off) \<Rightarrow> drop off b)"

definition buf_ok :: "chunk_buf \<Rightarrow> bool" where
  "buf_ok buf \<longleftrightarrow> (\<forall>b off. buf = Some (b, off) \<longrightarrow> off < length b)"

lemma buf_ok_simps [simp]: "buf_ok None" "opt_rest None = []"
  "buf_ok (Some (p, k)) \<longleftrightarrow> k < length p" "opt_rest (Some (p, k)) = drop k p"
  by (auto simp: buf_ok_def opt_rest_def)

lemma buf_read_ok:
  assumes "off < length b"
  shows "\<exists>buf'. buf_read k b off = (take k (drop off b), buf') \<and> buf_ok buf' \<and> opt_rest buf' = drop k (drop off b)"
  using assms by (cases "off + k < length b") (auto simp: buf_read_def Let_def min_def add.commute)

lemma read_chunk_append:
  assumes "length p \<le> maxSize"
  shows "read_chunk \<lparr>c_in = be16 (of_nat (length p)) @ p @ rest, c_out = w, c_writes = l\<rparr> =
    (Inr p, \<lparr>c_in = rest, c_out = w, c_writes = l\<rparr>)"
proof -
  have "length p < 65536" using assms by (simp add: maxSize_def)
  from of_be16_of_nat [OF this] show ?thesis using assms by (simp add: read_chunk_def io_bind_def)
qed

lemma io_err_in: "io_err f (read_full n) c = (case io_err f (read_full n) (fed (c_in c)) of (x, c1) \<Rightarrow> (x, c\<lparr>c_in := c_in c1\<rparr>))"
  by (simp add: io_err_def read_full_def ReadFull_def fed_def)

lemma read_chunk_fed: "read_chunk c = (case read_chunk (fed (c_in c)) of (x, c1) \<Rightarrow> (x, c\<lparr>c_in := c_in c1\<rparr>))"
  by (simp add: read_chunk_def io_bind_def io_err_def read_full_def ReadFull_def fed_def Let_def io_fail_def)

lemma read_chunk_empty: "c_in c = [] \<Longrightarrow> read_chunk c = (Inl (VmIO (AeadIO EOF)), c)"
  by (cases c) (simp add: read_chunk_def io_bind_def io_err_def read_full_def ReadFull_def)

definition unchunk :: "unit \<Rightarrow> u8 list \<Rightarrow> (u8 list \<times> u8 list) option" where
  "unchunk _ inp = (case read_chunk (fed inp) of (Inr p, c) \<Rightarrow> Some (p, c_in c) | _ \<Rightarrow> None)"

definition sealed_ok :: "sealed \<Rightarrow> bool" where
  "sealed_ok w \<longleftrightarrow> aead_ok (se_aead w) \<and> length (se_iv w) = 16"

definition unseal :: "sealed \<Rightarrow> u8 list \<Rightarrow> (u8 list \<times> u8 list) option" where
  "unseal w inp =
     (case unchunk () inp of
        None \<Rightarrow> None
      | Some (ct, rest) \<Rightarrow>
          map_option (\<lambda>p. (p, rest)) (Open (se_aead w) (vmess_nonce (se_aead w) (se_iv w) (se_count w)) ct []))"

lemma length_vmess_nonce: "sealed_ok w \<Longrightarrow> length (vmess_nonce (se_aead w) (se_iv w) n) = NonceSize (se_aead w)"
  by (simp add: sealed_ok_def vmess_nonce_def aead_ok_def del: take_append)

lemma unchunk_frame: "length p \<le> maxSize \<Longrightarrow> unchunk u (be16 (of_nat (length p)) @ p @ rest) = Some (p, rest)"
  by (simp add: unchunk_def fed_def read_chunk_append)

interpretation vmess_chunks: record_layer "\<lambda>_. True" chunk_frame "\<lambda>_. ()" unchunk chunkSize
  by unfold_locales (simp_all add: chunk_frame_def unchunk_frame chunkSize_def maxSize_def)

interpretation vmess_seals: record_layer sealed_ok sealed_frame sealed_next unseal chunkSize
proof
  fix w :: sealed and p rest
  show "sealed_ok (sealed_next w)" if "sealed_ok w" using that by (simp add: sealed_ok_def sealed_next_def)
  show "unseal w (sealed_frame w p @ rest) = Some (p, rest)" if w: "sealed_ok w" and le: "length p \<le> chunkSize"
  proof -
    have a: "aead_ok (se_aead w)" using w by (simp add: sealed_ok_def)
    note o = aead_okD [OF a length_vmess_nonce [OF w]]
    have "length p + Overhead (se_aead w) \<le> maxSize" using a le by (simp add: aead_ok_def chunkSize_def maxSize_def)
    then show ?thesis
      using unchunk_frame [of "Seal (se_aead w) (vmess_nonce (se_aead w) (se_iv w) (se_count w)) p []" "()" rest]
      by (simp add: unseal_def sealed_frame_def o)
  qed
qed (simp_all add: chunkSize_def)

subsection \<open>The readers of a connection\<close>

definition chunk_view :: "vmess_conn \<Rightarrow> unit \<times> u8 list \<times> u8 list" where
  "chunk_view s = ((), (case vm_reader s of ChunkReader buf \<Rightarrow> opt_rest buf | _ \<Rightarrow> []), c_in (vm_Conn s))"

definition chunk_conn :: "vmess_conn \<Rightarrow> bool" where
  "chunk_conn s \<longleftrightarrow> vm_received s \<and> (\<exists>buf. vm_reader s = ChunkReader buf \<and> buf_ok buf)"

lemma read_chunk_unchunk:
  assumes "unchunk u (c_in c) = Some (p, rest)"
  shows "read_chunk c = (Inr p, c\<lparr>c_in := rest\<rparr>)"
  using assms read_chunk_fed [of c] by (auto simp: unchunk_def split: prod.splits sum.splits)

interpretation vmess_chunk_reader: layered_reader "\<lambda>_. True" chunk_frame "\<lambda>_. ()" unchunk chunkSize
  "Vmess_Read K avail" chunk_view chunk_conn for K avail
proof
  fix s k b st l
  assume "chunk_conn s"
  then obtain buf where r: "vm_received s" "vm_reader s = ChunkReader buf" "buf_ok buf" by (auto simp: chunk_conn_def)
  show "\<exists>s'. Vmess_Read K avail k s = (Inr b, s') \<and> chunk_conn s' \<and> chunk_view s' = st"
    if *: "buffered_read unchunk (\<lambda>_. ()) k (chunk_view s) = Some (b, st)"
  proof (cases buf)
    case (Some x)
    then obtain b0 off where x: "buf = Some (b0, off)" "off < length b0" using r(3) by (cases x) auto
    from buf_read_ok [OF x(2), of k] obtain buf' where
      "buf_read k b0 off = (take k (drop off b0), buf')" "buf_ok buf'" "opt_rest buf' = drop k (drop off b0)" by blast
    then show ?thesis using * r x
      by (auto simp: Vmess_Read_def body_Read_def chunkReader_Read_def chunk_view_def chunk_conn_def buffered_read_def)
  next
    case None
    then obtain p rest where p: "unchunk () (c_in (vm_Conn s)) = Some (p, rest)" "b = take k p" "st = ((), drop k p, rest)"
      using * r by (auto simp: chunk_view_def buffered_read_def split: option.splits)
    show ?thesis using read_chunk_unchunk [OF p(1)] p(2,3) r None
      by (auto simp: Vmess_Read_def body_Read_def chunkReader_Read_def chunk_view_def chunk_conn_def)
  qed
  show "\<exists>e s'. Vmess_Read K avail k s = (Inl e, s')" if "chunk_view s = (l, [], [])"
  proof -
    have "buf = None" using that r by (cases buf) (auto simp: chunk_view_def)
    then show ?thesis using that r
      by (auto simp: Vmess_Read_def body_Read_def chunkReader_Read_def chunk_view_def read_chunk_empty)
  qed
qed

definition sealed_view :: "vmess_conn \<Rightarrow> sealed \<times> u8 list \<times> u8 list" where
  "sealed_view s = (case vm_reader s of
     AeadReader se buf \<Rightarrow> (se, opt_rest buf, c_in (vm_Conn s))
   | _ \<Rightarrow> (start_sealed demo_aead [], [], []))"

definition sealed_conn :: "vmess_conn \<Rightarrow> bool" where
  "sealed_conn s \<longleftrightarrow> vm_received s \<and> (\<exists>se buf. vm_reader s = AeadReader se buf \<and> buf_ok buf)"

interpretation vmess_sealed_reader: layered_reader sealed_ok sealed_frame sealed_next unseal chunkSize
  "Vmess_Read K avail" sealed_view sealed_conn for K avail
proof
  fix s k b st l
  assume "sealed_conn s"
  then obtain se buf where r: "vm_received s" "vm_reader s = AeadReader se buf" "buf_ok buf" by (auto simp: sealed_conn_def)
  show "\<exists>s'. Vmess_Read K avail k s = (Inr b, s') \<and> sealed_conn s' \<and> sealed_view s' = st"
    if *: "buffered_read unseal sealed_next k (sealed_view s) = Some (b, st)"
  proof (cases buf)
    case (Some x)
    then obtain b0 off where x: "buf = Some (b0, off)" "off < length b0" using r(3) by (cases x) auto
    from buf_read_ok [OF x(2), of k] obtain buf' where
      "buf_read k b0 off = (take k (drop off b0), buf')" "buf_ok buf'" "opt_rest buf' = drop k (drop off b0)" by blast
    then show ?thesis using * r x
      by (auto simp: Vmess_Read_def body_Read_def aeadReader_Read_def sealed_view_def sealed_conn_def buffered_read_def)
  next
    case None
    then obtain p rest where p: "unseal se (c_in (vm_Conn s)) = Some (p, rest)" "b = take k p" "st = (sealed_next se, drop k p, rest)"
      using * r by (auto simp: sealed_view_def buffered_read_def split: option.splits)
    then obtain ct where ct: "unchunk () (c_in (vm_Conn s)) = Some (ct, rest)"
      "Open (se_aead se) (vmess_nonce (se_aead se) (se_iv se) (se_count se)) ct [] = Some p"
      by (auto simp: unseal_def split: option.splits)
    show ?thesis using read_chunk_unchunk [OF ct(1)] ct(2) p(2,3) r None
      by (auto simp: Vmess_Read_def body_Read_def aeadReader_Read_def sealed_view_def sealed_conn_def)
  qed
  show "\<exists>e s'. Vmess_Read K avail k s = (Inl e, s')" if "sealed_view s = (l, [], [])"
  proof -
    have "buf = None" using that r by (cases buf) (auto simp: sealed_view_def)
    then show ?thesis using that r
      by (auto simp: Vmess_Read_def body_Read_def aeadReader_Read_def sealed_view_def read_chunk_empty)
  qed
qed


subsection \<open>Streams\<close>

text \<open>A writer and a reader that belong together, the reader at its start.\<close>

fun body_fits :: "vmess_writer \<Rightarrow> vmess_reader \<Rightarrow> bool" where
  "body_fits PlainWriter PlainReader \<longleftrightarrow> True"
| "body_fits ChunkWriter (ChunkReader None) \<longleftrightarrow> True"
| "body_fits (AeadWriter w) (AeadReader r None) \<longleftrightarrow> w = r \<and> sealed_ok w"
| "body_fits _ _ \<longleftrightarrow> False"

text \<open>A writer that adds given bytes for every write, whatever was written before.\<close>

lemma writes_raw:
  assumes "\<And>b out. Write b (mk out) = ((length b, None), mk (out @ b))"
  shows "writes Write bs (mk out) = Some (map length bs, mk (out @ concat bs))"
  by (induction bs arbitrary: out) (simp_all add: assms)

lemma plain_reads:
  assumes "vm_received s" and "vm_reader s = PlainReader" and "\<forall>k\<in>set ks. 0 < k"
  shows "\<exists>n s'. reads (Vmess_Read K avail) ks s = (take n (c_in (vm_Conn s)), s') \<and> min (length ks) (length (c_in (vm_Conn s))) \<le> n"
proof (rule reads_prefix [where Inv = "\<lambda>s xs. vm_received s \<and> vm_reader s = PlainReader \<and> xs = c_in (vm_Conn s)" and P = "\<lambda>k. 0 < k"])
  fix s :: vmess_conn and xs k
  assume "vm_received s \<and> vm_reader s = PlainReader \<and> xs = c_in (vm_Conn s)" "xs \<noteq> []" "0 < (k :: nat)"
  then show "\<exists>m s'. 0 < m \<and> m \<le> length xs \<and> Vmess_Read K avail k s = (Inr (take m xs), s') \<and>
      vm_received s' \<and> vm_reader s' = PlainReader \<and> drop m xs = c_in (vm_Conn s')"
    by (intro exI [of _ "min (length xs) (min k (max 1 avail))"])
      (auto simp: Vmess_Read_def body_Read_def conn_Read_def Let_def min_def Suc_le_eq)
qed (use assms in \<open>auto simp: Vmess_Read_def body_Read_def conn_Read_def\<close>)

text \<open>The bytes of a body for some writes.\<close>

fun body_bytes :: "vmess_writer \<Rightarrow> u8 list list \<Rightarrow> u8 list" where
  "body_bytes PlainWriter bs = concat bs"
| "body_bytes ChunkWriter bs = records chunk_frame (\<lambda>_. ()) () (concat (map (pieces chunkSize) bs))"
| "body_bytes (AeadWriter w) bs = records sealed_frame sealed_next w (concat (map (pieces (chunkSize - Overhead (se_aead w))) bs))"

lemma se_aead_advanced: "se_aead (advanced sealed_next w ps) = se_aead w"
  by (induction ps arbitrary: w) (simp_all add: sealed_next_def)

lemma body_writes:
  assumes "c_writes (vm_Conn s) = None" and "\<forall>w. vm_writer s = AeadWriter w \<longrightarrow> sealed_ok w"
  shows "\<exists>s'. writes Vmess_Write bs s = Some (map length bs, s') \<and>
    c_out (vm_Conn s') = c_out (vm_Conn s) @ body_bytes (vm_writer s) bs"
proof -
  let ?c = "\<lambda>out. (vm_Conn s)\<lparr>c_out := out\<rparr>"
  have c: "?c out = \<lparr>c_in = c_in (vm_Conn s), c_out = out, c_writes = None\<rparr>" for out using assms(1) by (cases "vm_Conn s") simp
  have s: "s = s\<lparr>vm_Conn := ?c (c_out (vm_Conn s)), vm_writer := vm_writer s\<rparr>" by simp
  show ?thesis
  proof (cases "vm_writer s")
    case PlainWriter
    let ?mk = "\<lambda>out. s\<lparr>vm_Conn := ?c out\<rparr>"
    have "Vmess_Write b (?mk out) = ((length b, None), ?mk (out @ b))" for b out
      using PlainWriter by (simp add: Vmess_Write_def c)
    from writes_raw [where mk = ?mk and out = "c_out (vm_Conn s)", OF this] show ?thesis using PlainWriter by auto
  next
    case ChunkWriter
    let ?mk = "\<lambda>u out. s\<lparr>vm_Conn := ?c out\<rparr>"
    have "Vmess_Write b (?mk u out) = ((length b, None), ?mk (advanced (\<lambda>_. ()) u (pieces chunkSize b))
        (out @ records chunk_frame (\<lambda>_. ()) u (pieces chunkSize b)))" for b u out
      using ChunkWriter by (simp add: Vmess_Write_def chunkWriter_Write_def c write_pieces_records chunkSize_def)
    from writes_records [where P = "\<lambda>_. True" and mk = ?mk and out = "c_out (vm_Conn s)" and s = "()", OF TrueI TrueI this] show ?thesis using ChunkWriter by auto
  next
    case (AeadWriter w0)
    let ?m = "chunkSize - Overhead (se_aead w0)"
    let ?mk = "\<lambda>w out. s\<lparr>vm_Conn := ?c out, vm_writer := AeadWriter w\<rparr>"
    have pos: "0 < ?m" using AeadWriter assms(2) by (simp add: sealed_ok_def aead_ok_def chunkSize_def)
    have step: "Vmess_Write b (?mk w out) = ((length b, None), ?mk (advanced sealed_next w (pieces ?m b))
        (out @ records sealed_frame sealed_next w (pieces ?m b)))" if "se_aead w = se_aead w0" for b w out
      by (simp add: Vmess_Write_def aeadWriter_Write_def c write_pieces_records [OF pos] that)
    from writes_records [where P = "\<lambda>w. se_aead w = se_aead w0" and mk = ?mk and out = "c_out (vm_Conn s)" and s = w0
        and Write = Vmess_Write and advance = sealed_next and frame = sealed_frame and m = ?m and bs = bs] step
    have "writes Vmess_Write bs (?mk w0 (c_out (vm_Conn s))) = Some (map length bs,
        ?mk (advanced sealed_next w0 (concat (map (pieces ?m) bs)))
          (c_out (vm_Conn s) @ records sealed_frame sealed_next w0 (concat (map (pieces ?m) bs))))"
      by (simp add: sealed_next_def)
    moreover have "s\<lparr>vm_writer := AeadWriter w0\<rparr> = s" using AeadWriter by (cases s) simp
    ultimately show ?thesis using AeadWriter by simp
  qed
qed


lemma concat_all_pieces: "0 < m \<Longrightarrow> concat (concat (map (pieces m) bs)) = concat bs"
  by (induction bs) simp_all

lemma pieces_fit: "p \<in> set (concat (map (pieces m) bs)) \<Longrightarrow> m \<le> M \<Longrightarrow> p \<noteq> [] \<and> length p \<le> M"
  using pieces_sizes by fastforce

lemma body_reads:
  assumes "body_fits w (vm_reader t)" and "vm_received t" and "c_in (vm_Conn t) = body_bytes w bs" and "\<forall>k\<in>set ks. 0 < k"
  shows "\<exists>n t'. reads (Vmess_Read K avail) ks t = (take n (concat bs), t') \<and> min (length ks) (length (concat bs)) \<le> n"
proof -
  consider "w = PlainWriter" "vm_reader t = PlainReader" | "w = ChunkWriter" "vm_reader t = ChunkReader None"
    | se where "w = AeadWriter se" "vm_reader t = AeadReader se None" "sealed_ok se"
    using assms(1) by (cases "(w, vm_reader t)" rule: body_fits.cases) auto
  then show ?thesis
  proof cases
    case 1
    with plain_reads [OF assms(2) _ assms(4)] assms(3) show ?thesis by simp
  next
    case 2
    let ?ps = "concat (map (pieces chunkSize) bs)"
    have "vmess_chunks.pending (chunk_view t) (concat ?ps)"
      using vmess_chunks.pending_start [where ps = ?ps] pieces_fit [of _ chunkSize bs chunkSize] 2 assms(3) by (auto simp: chunk_view_def)
    moreover have "chunk_conn t" using 2 assms(2) by (simp add: chunk_conn_def)
    ultimately show ?thesis using vmess_chunk_reader.reads_all [OF _ _ assms(4)] concat_all_pieces [of chunkSize bs]
      by (simp add: chunkSize_def)
  next
    case 3
    let ?m = "chunkSize - Overhead (se_aead se)"
    let ?ps = "concat (map (pieces ?m) bs)"
    have pos: "0 < ?m" using 3(3) by (simp add: sealed_ok_def aead_ok_def chunkSize_def)
    have "vmess_seals.pending (sealed_view t) (concat ?ps)"
      using vmess_seals.pending_start [OF 3(3), of ?ps] pieces_fit [of _ ?m bs chunkSize] 3 assms(3) by (auto simp: sealed_view_def)
    moreover have "sealed_conn t" using 3 assms(2) by (simp add: sealed_conn_def)
    ultimately show ?thesis using vmess_sealed_reader.reads_all [OF _ _ assms(4)] concat_all_pieces [OF pos] by simp
  qed
qed

subsection \<open>Laws of the parameters\<close>

definition gcm_ok :: "aead \<Rightarrow> bool" where
  "gcm_ok A \<longleftrightarrow> aead_ok A \<and> NonceSize A = 12 \<and> Overhead A = 16"

definition crypto_ok :: "vmess_crypto \<Rightarrow> bool" where
  "crypto_ok K \<longleftrightarrow>
     (\<forall>x. length (vc_md5 K x) = 16) \<and> (\<forall>x. length (vc_sha256 K x) = 32) \<and>
     (\<forall>k. gcm_ok (vc_gcm K k)) \<and> (\<forall>k. gcm_ok (vc_chacha K k)) \<and> (\<forall>k b. length (vc_aes K k b) = 16) \<and>
     (\<forall>k iv x. vc_cfb_dec K k iv (vc_cfb_enc K k iv x) = x \<and> length (vc_cfb_enc K k iv x) = length x)"

lemma crypto_okD:
  assumes "crypto_ok K"
  shows "length (vc_md5 K x) = 16" "length (vc_sha256 K x) = 32" "gcm_ok (vc_gcm K k)" "gcm_ok (vc_chacha K k)"
    "length (vc_aes K k b) = 16" "vc_cfb_dec K k iv (vc_cfb_enc K k iv x) = x" "length (vc_cfb_enc K k iv x) = length x"
  using assms by (simp_all add: crypto_ok_def)

lemma length_hm_Create: "crypto_ok K \<Longrightarrow> length (hm_Create K h m) = 32"
  by (induction K h arbitrary: m rule: hm_Create.induct) (simp_all add: hmac_def Let_def crypto_okD)

lemma length_kdf: "crypto_ok K \<Longrightarrow> length (vmess_kdf K key path) = 32"
  by (simp add: vmess_kdf_def length_hm_Create)

lemma gcm_okD:
  assumes "gcm_ok A" and "length n = 12"
  shows "Open A n (Seal A n p ad) ad = Some p" "length (Seal A n p ad) = length p + 16"
  using assms aead_okD [of A n p ad] by (simp_all add: gcm_ok_def)

lemma sealed_ok_start: "gcm_ok A \<Longrightarrow> length iv = 16 \<Longrightarrow> sealed_ok (start_sealed A iv)"
  by (simp add: sealed_ok_def start_sealed_def gcm_ok_def)

end
