(* ===== verification/VmessPeer.thy ===== *)
theory VmessPeer
  imports VmessProps
begin

text \<open>
  The VMess client against a server that follows the format: the server reads the request as it was meant, the bodies of
  both directions fit, and the client takes the answer of such a server and no other.
\<close>

subsection \<open>The server\<close>

record vmess_request =
  vq_iv :: "u8 list"
  vq_key :: "u8 list"
  vq_respV :: u8
  vq_option :: u8
  vq_security :: u8
  vq_dst :: vmess_dst

text \<open>The length of an address of a type, the length byte of a name included.\<close>

definition vaddr_length :: "u8 \<Rightarrow> u8 list \<Rightarrow> nat" where
  "vaddr_length tp rest = (if tp = 1 then 4 else if tp = 3 then 16 else 1 + unat (rest ! 0))"

definition parse_request :: "u8 list \<Rightarrow> vmess_request option" where
  "parse_request bs =
     (let body = take (length bs - 4) bs; al = vaddr_length (bs ! 40) (drop 41 bs); p = unat (drop_bit 4 (bs ! 35)) in
      if length bs < 45 \<or> bs ! 0 \<noteq> 1 \<or> drop (length bs - 4) bs \<noteq> bytes_of_u32 (fnv32a body) \<or> length bs \<noteq> 41 + al + p + 4
      then None
      else Some \<lparr>vq_iv = take 16 (drop 1 bs), vq_key = take 16 (drop 17 bs), vq_respV = bs ! 33, vq_option = bs ! 34,
        vq_security = and (bs ! 35) 15,
        vq_dst = \<lparr>vd_UDP = (bs ! 37 = 2), vd_AddrType = bs ! 40, vd_Addr = take al (drop 41 bs),
          vd_Port = of_be16 (bs ! 38) (bs ! 39)\<rparr>\<rparr>)"

definition open_part :: "vmess_crypto \<Rightarrow> u8 list \<Rightarrow> string \<Rightarrow> string \<Rightarrow> u8 list \<Rightarrow> u8 list \<Rightarrow> u8 list \<Rightarrow> u8 list option" where
  "open_part K key keySalt ivSalt authID nonce ct =
     Open (vc_gcm K (take 16 (vmess_kdf K key [bytes_of keySalt, authID, nonce])))
       (take 12 (vmess_kdf K key [bytes_of ivSalt, authID, nonce])) ct authID"

definition open_request :: "vmess_crypto \<Rightarrow> bool \<Rightarrow> vmess_id \<Rightarrow> 64 word \<Rightarrow> u8 list \<Rightarrow> vmess_request option" where
  "open_request K isAead i t bs =
     (if \<not> isAead then
        if take 16 bs = hmac (vc_md5 K) (id_UUID i) (be64 t)
        then parse_request (vc_cfb_dec K (id_CmdKey i) (hashTimestamp K t) (drop 16 bs)) else None
      else
        let authID = take 16 bs; nonce = take 8 (drop 34 bs) in
        case open_part K (id_CmdKey i) ''VMess Header AEAD Key_Length'' ''VMess Header AEAD Nonce_Length'' authID nonce
            (take 18 (drop 16 bs)) of
          None \<Rightarrow> None
        | Some l \<Rightarrow>
            Option.bind (open_part K (id_CmdKey i) ''VMess Header AEAD Key'' ''VMess Header AEAD Nonce'' authID nonce
              (take (of_be16 (l ! 0) (l ! 1) + 16) (drop 42 bs))) parse_request)"

text \<open>What the server makes of the keys of a request: its reader and writer.\<close>

definition server_body :: "vmess_crypto \<Rightarrow> bool \<Rightarrow> vmess_request \<Rightarrow> (vmess_reader \<times> vmess_writer) option" where
  "server_body K isAead q =
     (let key = vq_key q; iv = vq_iv q;
          rkey = (if isAead then take 16 (vc_sha256 K key) else vc_md5 K key);
          riv = (if isAead then take 16 (vc_sha256 K iv) else vc_md5 K iv) in
      if vq_security q = 3 then
        Some (AeadReader (start_sealed (vc_gcm K key) iv) None, AeadWriter (start_sealed (vc_gcm K rkey) riv))
      else if vq_security q = 4 then
        Some (AeadReader (start_sealed (vc_chacha K (chacha_key K key)) iv) None,
          AeadWriter (start_sealed (vc_chacha K (chacha_key K rkey)) riv))
      else if vq_security q = 5 then
        Some (if vq_option q = OptionChunkStream then (ChunkReader None, ChunkWriter) else (PlainReader, PlainWriter))
      else None)"

text \<open>
  The head of an answer: for VMess the byte of the request, options, a command and its length, and the bytes of the command; for
  VLESS a version, the length of the addon and the addon. A peer may send what it likes: any bytes as the head, any version.
\<close>

definition server_response :: "vmess_crypto \<Rightarrow> vmess_conn \<Rightarrow> u8 \<Rightarrow> u8 list \<Rightarrow> u8 list" where
  "server_response K s ver hdr =
     (if vm_isVless s then [ver, of_nat (length hdr)] @ hdr
      else if \<not> vm_isAead s then vc_cfb_enc K (vm_respBodyKey s) (vm_respBodyIV s) hdr
      else
        let part = (\<lambda>ks is. Seal (vc_gcm K (take 16 (vmess_kdf K (vm_respBodyKey s) [bytes_of ks])))
                       (take 12 (vmess_kdf K (vm_respBodyIV s) [bytes_of is]))) in
        part ''AEAD Resp Header Len Key'' ''AEAD Resp Header Len IV'' (be16 (of_nat (length hdr))) [] @
        part ''AEAD Resp Header Key'' ''AEAD Resp Header IV'' hdr [])"

definition header_fits :: "vmess_conn \<Rightarrow> u8 list \<Rightarrow> bool" where
  "header_fits s hdr \<longleftrightarrow>
     (if vm_isVless s then length hdr < 256 else if \<not> vm_isAead s then length hdr = 4 else length hdr < 65520)"

subsection \<open>Requests\<close>

definition dst_ok :: "vmess_dst \<Rightarrow> bool" where
  "dst_ok d \<longleftrightarrow> vd_Port d < 65536 \<and>
     (vd_AddrType d = 1 \<and> length (vd_Addr d) = 4 \<or> vd_AddrType d = 3 \<and> length (vd_Addr d) = 16 \<or>
      vd_AddrType d = 2 \<and> (\<exists>h. vd_Addr d = of_nat (length h) # h \<and> length h < 256))"

lemma port_less: "unat (p :: port) < 65536"
  using unsigned_less [of p, where 'a = nat] by simp

lemma parseVmessAddr_ok:
  assumes "length (Host m) < 256"
  shows "dst_ok (parseVmessAddr m)"
  using assms port_less [of "DstPort m"] by (auto simp: parseVmessAddr_def dst_ok_def Let_def copied_def intro!: exI [of _ "bytes_of (Host m)"])

lemma vaddr_length_ok: "dst_ok d \<Longrightarrow> vaddr_length (vd_AddrType d) (vd_Addr d @ rest) = length (vd_Addr d)"
  by (auto simp: dst_ok_def vaddr_length_def unat_of_nat)

lemma padding_nibble:
  assumes "p < 16"
  shows "unat (drop_bit 4 (or (of_nat (p * 16)) (security_byte sec))) = p"
    and "and (or (of_nat (p * 16)) (security_byte sec)) 15 = security_byte sec"
proof -
  have "p \<in> set (upt 0 16)" using assms by simp
  moreover have "upt 0 16 = [0, 1, 2, 3, 4, 5, 6, 7, 8, 9, 10, 11, 12, 13, 14, 15]" by code_simp
  ultimately have "p \<in> {0, 1, 2, 3, 4, 5, 6, 7, 8, 9, 10, 11, 12, 13, 14, 15}" by simp
  then show "unat (drop_bit 4 (or (of_nat (p * 16)) (security_byte sec))) = p"
    "and (or (of_nat (p * 16)) (security_byte sec)) 15 = security_byte sec"
    by (cases sec; auto)+
qed

lemma last_four: "length x = 4 \<Longrightarrow> take (length (b @ x) - 4) (b @ x) = b" "length x = 4 \<Longrightarrow> drop (length (b @ x) - 4) (b @ x) = x"
  by simp_all

lemma parse_request_header:
  assumes "pb_ok B" and "length (vm_reqBodyIV s) = 16" and "length (vm_reqBodyKey s) = 16" and "dst_ok (vm_dst s)"
    and "rq_p R < 16" and "length (rq_padding R) = rq_p R"
  shows "parse_request (request_header B s R) =
    Some \<lparr>vq_iv = vm_reqBodyIV s, vq_key = vm_reqBodyKey s, vq_respV = vm_respV s, vq_option = vm_option s,
      vq_security = security_byte (vm_security s), vq_dst = vm_dst s\<rparr>"
proof -
  let ?ps = "or (of_nat (rq_p R * 16)) (security_byte (vm_security s)) :: u8"
  let ?port = "be16 (of_nat (vd_Port (vm_dst s)))"
  let ?body = "1 # vm_reqBodyIV s @ vm_reqBodyKey s @ [vm_respV s, vm_option s, ?ps, 0, vmess_command (vm_dst s)] @
      ?port @ vd_AddrType (vm_dst s) # vd_Addr (vm_dst s) @ rq_padding R"
  have h: "request_header B s R = ?body @ bytes_of_u32 (fnv32a ?body)"
    using assms(6) by (cases "rq_p R = 0") (simp_all add: request_header_def pb_simps [OF assms(1)] Let_def)
  have p: "?port = [?port ! 0, ?port ! 1]" by (simp add: be16_def)
  have len: "length ?body = 41 + length (vd_Addr (vm_dst s)) + rq_p R" using assms(2,3,6) by simp
  let ?bs = "request_header B s R"
  have nths: "?bs ! 0 = 1" "?bs ! 33 = vm_respV s" "?bs ! 34 = vm_option s" "?bs ! 35 = ?ps" "?bs ! 37 = vmess_command (vm_dst s)"
    "?bs ! 38 = ?port ! 0" "?bs ! 39 = ?port ! 1" "?bs ! 40 = vd_AddrType (vm_dst s)"
    unfolding h using assms(2,3) by (simp_all add: nth_append nth_Cons')
  have drops: "take 16 (drop 1 ?bs) = vm_reqBodyIV s" "take 16 (drop 17 ?bs) = vm_reqBodyKey s"
    "drop 41 ?bs = vd_Addr (vm_dst s) @ rq_padding R @ bytes_of_u32 (fnv32a ?body)"
    unfolding h using assms(2,3) by (simp_all add: drop_Cons')
  have port: "of_be16 (?port ! 0) (?port ! 1) = vd_Port (vm_dst s)"
    by (rule of_be16_of_nat) (use assms(4) in \<open>simp add: dst_ok_def\<close>)
  have lbs: "length ?bs = 45 + length (vd_Addr (vm_dst s)) + rq_p R" unfolding h using len by simp
  have tk: "take (length ?bs - 4) ?bs = ?body" "drop (length ?bs - 4) ?bs = bytes_of_u32 (fnv32a ?body)"
    unfolding h by (rule last_four(1), simp, rule last_four(2), simp)
  have cmd: "vmess_command (vm_dst s) = 2 \<longleftrightarrow> vd_UDP (vm_dst s)" by (simp add: vmess_command_def)
  show ?thesis
    unfolding parse_request_def Let_def nths drops tk [unfolded lbs] port vaddr_length_ok [OF assms(4)] padding_nibble [OF assms(5)] lbs cmd by simp
qed


lemma length_request_header:
  assumes "pb_ok B" and "length (vm_reqBodyIV s) = 16" and "length (vm_reqBodyKey s) = 16" and "dst_ok (vm_dst s)"
    and "rq_p R < 16" and "length (rq_padding R) = rq_p R"
  shows "length (request_header B s R) < 65536"
proof -
  have "length (vd_Addr (vm_dst s)) \<le> 256" using assms(4) by (auto simp: dst_ok_def)
  then show ?thesis using assms by (simp add: request_header_def pb_simps [OF assms(1)] Let_def)
qed

lemma open_seal_part:
  assumes "crypto_ok K"
  shows "open_part K key ks is authID nonce (seal_part K key ks is authID nonce data) = Some data"
    and "length (seal_part K key ks is authID nonce data) = length data + 16"
  using gcm_okD [OF crypto_okD(3) [OF assms]] length_kdf [OF assms] by (simp_all add: open_part_def seal_part_def)

lemma length_createAuthID: "crypto_ok K \<Longrightarrow> length (createAuthID B K key R) = 16"
  by (simp add: createAuthID_def Let_def crypto_okD)

text \<open>The random parts of a request have their sizes, and the identifier its key.\<close>

definition rand_ok :: "request_rand \<Rightarrow> bool" where
  "rand_ok R \<longleftrightarrow> rq_p R < 16 \<and> length (rq_padding R) = rq_p R \<and> length (rq_auth R) = 4 \<and> length (rq_nonce R) = 8"

lemma open_request_bytes:
  assumes B: "pb_ok B" and K: "crypto_ok K" and "\<not> vm_isVless s" and "length (id_CmdKey (vm_id s)) = 16"
    and "length (vm_reqBodyIV s) = 16" and "length (vm_reqBodyKey s) = 16" and "dst_ok (vm_dst s)" and "rand_ok R"
  shows "\<exists>bs. request_bytes B K s R = Inr bs \<and>
    open_request K (vm_isAead s) (vm_id s) (rq_time R) bs = parse_request (request_header B s R)"
proof -
  let ?h = "request_header B s R" and ?key = "id_CmdKey (vm_id s)"
  have len: "length ?h < 65536" using length_request_header assms by (simp add: rand_ok_def)
  note pb = pb_simps [OF B]
  show ?thesis
  proof (cases "vm_isAead s")
    case False
    have "length (hmac (vc_md5 K) (id_UUID (vm_id s)) (be64 (rq_time R))) = 16" by (simp add: hmac_def Let_def crypto_okD [OF K])
    then show ?thesis using False assms(3,4) by (simp add: request_bytes_def aes_key_def open_request_def pb Let_def crypto_okD [OF K])
  next
    case True
    let ?a = "createAuthID B K ?key R" and ?n = "rq_nonce R"
    let ?l = "seal_part K ?key ''VMess Header AEAD Key_Length'' ''VMess Header AEAD Nonce_Length'' ?a ?n (be16 (of_nat (length ?h)))"
    let ?p = "seal_part K ?key ''VMess Header AEAD Key'' ''VMess Header AEAD Nonce'' ?a ?n ?h"
    have bytes: "request_bytes B K s R = Inr (?a @ ?l @ ?n @ ?p)"
      using True assms(3,4) by (simp add: request_bytes_def sealVMessAEADHeader_def pb Let_def)
    have sizes: "length ?a = 16" "length ?l = 18" "length ?n = 8" "length ?p = length ?h + 16"
      using length_createAuthID [OF K] open_seal_part(2) [OF K] assms(8) by (simp_all add: rand_ok_def)
    have parts: "take 16 (?a @ ?l @ ?n @ ?p) = ?a" "take 18 (drop 16 (?a @ ?l @ ?n @ ?p)) = ?l"
      "take 8 (drop 34 (?a @ ?l @ ?n @ ?p)) = ?n" "drop 42 (?a @ ?l @ ?n @ ?p) = ?p"
      using sizes by simp_all
    have "open_request K True (vm_id s) (rq_time R) (?a @ ?l @ ?n @ ?p) = parse_request ?h"
      unfolding open_request_def Let_def parts open_seal_part(1) [OF K]
      using open_seal_part(1) [OF K] sizes(4) of_be16_of_nat [OF len] by simp
    then show ?thesis using True bytes by simp
  qed
qed

lemma made_conn_simps:
  "vm_Conn (made_conn K rb c i d sec a v) = c" "vm_dst (made_conn K rb c i d sec a v) = d" "vm_id (made_conn K rb c i d sec a v) = i"
  "vm_isAead (made_conn K rb c i d sec a v) = a" "vm_isVless (made_conn K rb c i d sec a v) = v"
  "vm_received (made_conn K rb c i d sec a v) = False"
  "vm_security (made_conn K rb c i d sec a v) = (if sec = SecurityZero then SecurityNone else sec)"
  "vm_reqBodyIV (made_conn K rb c i d sec a False) = take 16 rb" "vm_reqBodyKey (made_conn K rb c i d sec a False) = take 16 (drop 16 rb)"
  by (simp_all add: made_conn_def Let_def split: prod.split)

text \<open>What \<open>newConn\<close> changes of the connection it makes: the bytes of the request are written.\<close>

lemma newConn_Inr:
  assumes "Vmess_newConn B K rb R c i d sec a v = Inr s"
  obtains bs where "request_bytes B K (made_conn K rb c i d sec a v) R = Inr bs"
    and "s = (made_conn K rb c i d sec a v)\<lparr>vm_Conn := vm_Conn s\<rparr>" and "c_out (vm_Conn s) = c_out c @ bs" and "c_in (vm_Conn s) = c_in c"
    and "c_writes c = None \<Longrightarrow> c_writes (vm_Conn s) = None"
  using assms by (auto simp: Vmess_newConn_def sendRequest_def conn_Write_def made_conn_simps
      split: sum.splits prod.splits option.splits nat.splits)

text \<open>The bodies of client and server fit.\<close>

lemma server_body_fits:
  assumes K: "crypto_ok K" and "length rb = 33" and m: "s = made_conn K rb c i d sec a False"
    and q: "vq_iv q = vm_reqBodyIV s" "vq_key q = vm_reqBodyKey s" "vq_option q = vm_option s"
      "vq_security q = security_byte (vm_security s)"
  shows "\<exists>r w. server_body K a q = Some (r, w) \<and> body_fits (vm_writer s) r \<and> body_fits w (vm_reader s)"
proof -
  note ok = crypto_okD [OF K] sealed_ok_start
  have len: "length (take 16 rb) = 16" "length (take 16 (drop 16 rb)) = 16" using assms(2) by simp_all
  show ?thesis
    using q len by (cases sec; cases "vd_UDP d")
      (auto simp: m made_conn_def body_of_def server_body_def Let_def ok OptionChunkStream_def)
qed


subsection \<open>Answers\<close>

definition accepts :: "vmess_conn \<Rightarrow> u8 \<Rightarrow> u8 list \<Rightarrow> bool" where
  "accepts s ver hdr \<longleftrightarrow> (if vm_isVless s then ver = 0 else 4 \<le> length hdr \<and> hdr ! 0 = vm_respV s \<and> hdr ! 2 = 0)"

lemma io_err_read_full [simp]:
  "length bs = n \<Longrightarrow> io_err f (read_full n) \<lparr>c_in = bs @ rest, c_out = w, c_writes = l\<rparr> =
    (Inr bs, \<lparr>c_in = rest, c_out = w, c_writes = l\<rparr>)"
  by simp

lemma response_header_read:
  assumes K: "crypto_ok K" and "\<not> vm_isVless s" and "length (vm_respBodyKey s) = 16" and "header_fits s hdr"
  shows "response_header K s \<lparr>c_in = server_response K s ver hdr @ rest, c_out = w, c_writes = l\<rparr> =
    (if length hdr < 4 then Inl UnexpectedLength else Inr hdr, \<lparr>c_in = rest, c_out = w, c_writes = l\<rparr>)"
proof (cases "vm_isAead s")
  case False
  then show ?thesis using assms
    by (simp add: response_header_def server_response_def header_fits_def aes_key_def io_bind_def crypto_okD [OF K])
next
  case True
  let ?seal = "\<lambda>ks is x. Seal (vc_gcm K (take 16 (vmess_kdf K (vm_respBodyKey s) [bytes_of ks])))
      (take 12 (vmess_kdf K (vm_respBodyIV s) [bytes_of is])) x []"
  have o: "resp_part K s ks ivs (?seal ks ivs x) = Some x" "length (?seal ks ivs x) = length x + 16" for ks ivs x
    using gcm_okD [OF crypto_okD(3) [OF K]] length_kdf [OF K] by (simp_all add: resp_part_def)
  have r: "server_response K s ver hdr = ?seal ''AEAD Resp Header Len Key'' ''AEAD Resp Header Len IV'' (be16 (of_nat (length hdr))) @
      ?seal ''AEAD Resp Header Key'' ''AEAD Resp Header IV'' hdr"
    using True assms(2) by (simp add: server_response_def Let_def)
  have h: "length hdr < 65520" using assms(2,4) True by (simp add: header_fits_def)
  have l: "of_be16 (be16 (of_nat (length hdr)) ! 0) (be16 (of_nat (length hdr)) ! 1) = length hdr"
    by (rule of_be16_of_nat) (use h in simp)
  have u: "unat (of_nat (length hdr) + 16 :: u16) = length hdr + 16"
  proof -
    have "(of_nat (length hdr) + 16 :: u16) = of_nat (length hdr + 16)" by simp
    then show ?thesis using h by (simp only: unat_of_nat) simp
  qed
  show ?thesis unfolding response_header_def r append_assoc
    using True h by (simp add: io_bind_def io_fail_def o l [simplified] u)
qed

lemma recv_response_read:
  assumes "crypto_ok K" and "\<not> vm_isVless s \<longrightarrow> length (vm_respBodyKey s) = 16" and "header_fits s hdr"
  shows "\<exists>e c'. recv_response K s \<lparr>c_in = server_response K s ver hdr @ rest, c_out = w, c_writes = l\<rparr> =
    (if accepts s ver hdr then (Inr (), \<lparr>c_in = rest, c_out = w, c_writes = l\<rparr>) else (Inl e, c'))"
proof (cases "vm_isVless s")
  case True
  then show ?thesis using assms(3)
    by (auto simp: recv_response_def server_response_def io_bind_def io_err_def read_full_def skip_bytes_def accepts_def header_fits_def
        unat_of_nat io_fail_def)
next
  case False
  with response_header_read [OF assms(1) False _ assms(3)] assms(2) show ?thesis
    by (auto simp: recv_response_def io_bind_def accepts_def io_fail_def io_ret_def)
qed

text \<open>An answer that does not open is not taken either.\<close>

lemma unopened_response:
  assumes "\<not> vm_isVless s" and "vm_isAead s" and "length bs = 18"
    and "resp_part K s ''AEAD Resp Header Len Key'' ''AEAD Resp Header Len IV'' bs = None"
  shows "recv_response K s \<lparr>c_in = bs @ rest, c_out = w, c_writes = l\<rparr> = (Inl VmOpen, \<lparr>c_in = rest, c_out = w, c_writes = l\<rparr>)"
  using assms by (simp add: recv_response_def response_header_def io_bind_def io_fail_def)

text \<open>The first read takes the answer, the others go on with the body.\<close>

lemma reads_after_response:
  assumes "\<not> vm_received s" and "recvResponse K s = (Inr (), s1)"
  shows "reads (Vmess_Read K avail) (k # ks) s = reads (Vmess_Read K avail) (k # ks) (s1\<lparr>vm_received := True\<rparr>)"
  using assms by (simp add: Vmess_Read_def io_bind_def)

subsection \<open>Agreement\<close>

text \<open>The end of the server: it reads with the given reader what arrives after the request.\<close>

definition server_end :: "vmess_conn \<Rightarrow> vmess_reader \<Rightarrow> u8 list \<Rightarrow> vmess_conn" where
  "server_end s r body = s\<lparr>vm_received := True, vm_reader := r, vm_Conn := fed body\<rparr>"

text \<open> C35. What the client sends is understood: the server that knows the user opens the request and finds in it the destination
  and the keys with which it reads whatever the client writes, however the writes and reads cut it.
\<close>

theorem vmess_upload:
  assumes "pb_ok B" and "crypto_ok K" and "length rb = 33" and "dst_ok d" and "rand_ok R" and "length (id_CmdKey i) = 16"
    and "c_out c = []" and "c_writes c = None" and "Vmess_newConn B K rb R c i d sec a False = Inr s" and "\<forall>k\<in>set ks. 0 < k"
  shows "\<exists>q r w s1 body n t. open_request K a i (rq_time R) (c_out (vm_Conn s)) = Some q \<and> vq_dst q = d \<and>
    server_body K a q = Some (r, w) \<and> writes Vmess_Write bs s = Some (map length bs, s1) \<and>
    c_out (vm_Conn s1) = c_out (vm_Conn s) @ body \<and>
    reads (Vmess_Read K avail) ks (server_end s r body) = (take n (concat bs), t) \<and> min (length ks) (length (concat bs)) \<le> n"
proof -
  let ?m = "made_conn K rb c i d sec a False"
  obtain req where req: "request_bytes B K ?m R = Inr req" "s = ?m\<lparr>vm_Conn := vm_Conn s\<rparr>" "c_out (vm_Conn s) = req"
    "c_writes (vm_Conn s) = None" by (rule newConn_Inr [OF assms(9)]) (use assms(7,8) in simp)
  have sizes: "length (vm_reqBodyIV ?m) = 16" "length (vm_reqBodyKey ?m) = 16" using assms(3) by (simp_all add: made_conn_simps)
  let ?q = "\<lparr>vq_iv = vm_reqBodyIV ?m, vq_key = vm_reqBodyKey ?m, vq_respV = vm_respV ?m, vq_option = vm_option ?m,
      vq_security = security_byte (vm_security ?m), vq_dst = vm_dst ?m\<rparr>"
  have opened: "open_request K a i (rq_time R) req = Some ?q"
    using open_request_bytes [OF assms(1,2), of ?m R] parse_request_header [OF assms(1) sizes, of R] req(1) sizes assms(4,5,6)
    by (simp add: made_conn_simps rand_ok_def)
  from server_body_fits [OF assms(2,3) refl, of ?q c i d sec a] obtain r w where
    f: "server_body K a ?q = Some (r, w)" "body_fits (vm_writer ?m) r" by auto
  have wr: "vm_writer s = vm_writer ?m" by (subst req(2)) simp
  have "\<forall>x. vm_writer s = AeadWriter x \<longrightarrow> sealed_ok x" using f(2) wr by (cases "(vm_writer ?m, r)" rule: body_fits.cases) auto
  from body_writes [OF req(4) this, of bs] obtain s1 where
    s1: "writes Vmess_Write bs s = Some (map length bs, s1)" "c_out (vm_Conn s1) = c_out (vm_Conn s) @ body_bytes (vm_writer s) bs" by blast
  from body_reads [of "vm_writer s" "server_end s r (body_bytes (vm_writer s) bs)" bs ks K avail] f(2) wr assms(10)
  obtain n t where "reads (Vmess_Read K avail) ks (server_end s r (body_bytes (vm_writer s) bs)) = (take n (concat bs), t)"
    "min (length ks) (length (concat bs)) \<le> n" by (auto simp: server_end_def fed_def)
  moreover have "vq_dst ?q = d" by (simp add: made_conn_simps)
  ultimately show ?thesis using opened f(1) s1 req(3) by blast
qed

text \<open> C36. The client takes the answer of the server when it is of VLESS version 0, or when the head of VMess has four bytes at
  least, its first byte is the one of the request and it changes no port. Then it reads what the server writes, however that is cut;
  of an answer with another version or another head no read returns a byte.
\<close>

theorem vmess_download:
  assumes "crypto_ok K" and "length rb = 33" and "Vmess_newConn B K rb R c i d sec a v = Inr s" and "body_fits w (vm_reader s)"
    and "header_fits s hdr" and "c_in c = server_response K s ver hdr @ body_bytes w bs" and "\<forall>k\<in>set ks. 0 < k" and "ks \<noteq> []"
  shows "\<exists>n t. reads (Vmess_Read K avail) ks s = (take n (concat bs), t) \<and>
    (if (if v then ver = 0 else 4 \<le> length hdr \<and> hdr ! 0 = vm_respV s \<and> hdr ! 2 = 0)
     then min (length ks) (length (concat bs)) \<le> n else n = 0)"
proof -
  let ?m = "made_conn K rb c i d sec a v"
  obtain k ks' where ks: "ks = k # ks'" using assms(8) by (cases ks) auto
  have s: "s = ?m\<lparr>vm_Conn := vm_Conn s\<rparr>" "c_in (vm_Conn s) = c_in c" by (rule newConn_Inr [OF assms(3)], simp)+
  have v: "vm_isVless s = v" "\<not> vm_received s" by (subst s(1), simp add: made_conn_simps)+
  moreover have "vm_respBodyKey s = vm_respBodyKey ?m" by (subst s(1)) simp
  ultimately have key: "\<not> vm_isVless s \<longrightarrow> length (vm_respBodyKey s) = 16" and nr: "\<not> vm_received s"
    using crypto_okD(1,2) [OF assms(1)] by (auto simp: made_conn_def Let_def split: prod.splits)
  have a: "accepts s ver hdr = (if v then ver = 0 else 4 \<le> length hdr \<and> hdr ! 0 = vm_respV s \<and> hdr ! 2 = 0)"
    by (simp add: accepts_def v(1))
  obtain out l where c: "vm_Conn s = \<lparr>c_in = server_response K s ver hdr @ body_bytes w bs, c_out = out, c_writes = l\<rparr>"
    using s(2) assms(6) by (cases "vm_Conn s") simp
  from recv_response_read [OF assms(1) key assms(5), of ver "body_bytes w bs" out l] obtain e c' where e:
    "recv_response K s (vm_Conn s) = (if accepts s ver hdr then (Inr (), \<lparr>c_in = body_bytes w bs, c_out = out, c_writes = l\<rparr>) else (Inl e, c'))"
    unfolding c by blast
  show ?thesis
  proof (cases "accepts s ver hdr")
    case False
    then show ?thesis using e nr a by (auto simp: ks Vmess_Read_def recvResponse_def io_bind_def)
  next
    case True
    let ?s = "s\<lparr>vm_Conn := \<lparr>c_in = body_bytes w bs, c_out = out, c_writes = l\<rparr>, vm_received := True\<rparr>"
    from body_reads [of w ?s bs ks K avail] assms(4,7) obtain n t where
      "reads (Vmess_Read K avail) ks ?s = (take n (concat bs), t)" "min (length ks) (length (concat bs)) \<le> n" by auto
    moreover have "reads (Vmess_Read K avail) ks s = reads (Vmess_Read K avail) ks ?s"
      using reads_after_response [OF nr, of K] e True by (simp add: ks recvResponse_def)
    ultimately show ?thesis using True a by auto
  qed
qed

lemma newConn_ok:
  assumes "request_bytes B K (made_conn K rb c i d sec a v) R = Inr bs" and "c_writes c = None"
  shows "\<exists>s. Vmess_newConn B K rb R c i d sec a v = Inr s"
  using assms by (simp add: Vmess_newConn_def sendRequest_def conn_Write_def made_conn_simps split: prod.split)

subsection \<open>Identifiers and nonces\<close>

text \<open>The hashes of the loop of \<open>nextID\<close>: the suffix is added once more each time.\<close>

definition next_try :: "vmess_crypto \<Rightarrow> u8 list \<Rightarrow> nat \<Rightarrow> u8 list" where
  "next_try K u n = vc_md5 K (u @ bytes_of ''16167dc8-16b6-4e6d-b8bb-65dd68113a81'' @
     concat (replicate n (bytes_of ''533eff8a-4113-4b10-b5ce-0f5d76b98cd2'')))"

lemma concat_replicate_Suc: "concat (replicate (Suc n) x) = concat (replicate n x) @ x"
  by (induction n) simp_all

lemma nextID_loop_try:
  assumes "h = u @ bytes_of ''16167dc8-16b6-4e6d-b8bb-65dd68113a81'' @ concat (replicate n (bytes_of ''533eff8a-4113-4b10-b5ce-0f5d76b98cd2''))"
    and "next_try K u (n + j) \<noteq> u"
  shows "\<exists>k. nextID_loop (vc_md5 K) u h = Some (next_try K u k) \<and> next_try K u k \<noteq> u"
  using assms
proof (induction j arbitrary: n h)
  case 0
  then show ?case by (subst nextID_loop.simps) (auto simp: next_try_def)
next
  case (Suc j)
  show ?case
  proof (cases "next_try K u n = u")
    case False
    then show ?thesis by (subst nextID_loop.simps) (auto simp: next_try_def Suc.prems(1))
  next
    case True
    let ?h = "h @ bytes_of ''533eff8a-4113-4b10-b5ce-0f5d76b98cd2''"
    have "?h = u @ bytes_of ''16167dc8-16b6-4e6d-b8bb-65dd68113a81'' @
        concat (replicate (Suc n) (bytes_of ''533eff8a-4113-4b10-b5ce-0f5d76b98cd2''))"
      by (simp only: Suc.prems(1) append_assoc concat_replicate_Suc)
    from Suc.IH [OF this] Suc.prems(2) True Suc.prems(1) show ?thesis
      by (subst nextID_loop.simps) (simp add: next_try_def)
  qed
qed

lemma alter_loop_ids:
  assumes "\<forall>u. \<exists>n. next_try K u n \<noteq> u"
  shows "\<exists>ids. alter_loop K key n u = Some ids \<and> length ids = n \<and> (\<forall>x\<in>set ids. id_CmdKey x = key) \<and>
    (\<forall>j<n. id_UUID (ids ! j) \<noteq> (if j = 0 then u else id_UUID (ids ! (j - 1))))"
proof (induction n arbitrary: u)
  case (Suc n)
  obtain m where "next_try K u m \<noteq> u" using assms by blast
  with nextID_loop_try [of _ u 0 K m] obtain k where k: "nextID K u = Some (next_try K u k)" "next_try K u k \<noteq> u"
    by (auto simp: nextID_def)
  from Suc.IH [of "next_try K u k"] obtain ids where
    "alter_loop K key n (next_try K u k) = Some ids" "length ids = n" "\<forall>x\<in>set ids. id_CmdKey x = key"
    "\<forall>j<n. id_UUID (ids ! j) \<noteq> (if j = 0 then next_try K u k else id_UUID (ids ! (j - 1)))" by blast
  then show ?case using k by (auto simp: nth_Cons' less_Suc_eq_0_disj)
qed simp

text \<open>
  A client with a known kind of security and an identifier that parses is made, with as many users as configured and
  one; all have the key of the first identifier and each differs from the one before. The hash must not be stuck at
  the identifier for ever.
\<close>

theorem client_has_users:
  assumes "\<forall>u. \<exists>n. next_try K u n \<noteq> u" and "FromString (vg_UUID g) = Some uid"
    and "vg_IsVless g \<or> vg_Security g \<in> {''aes-128-gcm'', ''chacha20-poly1305'', ''none'', ''zero'', ''auto''}"
  shows "\<exists>v. Vmess_NewClient K FromString goarch g = Some (Inr v) \<and>
    length (vl_user v) = Suc (if vg_IsVless g then 0 else unat (vg_AlterID g)) \<and> last (vl_user v) = newID K uid \<and>
    (\<forall>x\<in>set (vl_user v). id_CmdKey x = id_CmdKey (newID K uid))"
proof -
  let ?g = "if vg_IsVless g then g\<lparr>vg_AlterID := 0, vg_Security := ''zero''\<rparr> else g"
  have "choose_security goarch (vg_Security ?g) \<noteq> None"
    using assms(3) by (cases "vg_IsVless g") (auto simp: choose_security_def)
  then obtain sec where "choose_security goarch (vg_Security ?g) = Some sec" by blast
  moreover obtain ids where "alter_loop K (id_CmdKey (newID K uid)) (unat (vg_AlterID ?g)) uid = Some ids"
    "length ids = unat (vg_AlterID ?g)" "\<forall>x\<in>set ids. id_CmdKey x = id_CmdKey (newID K uid)"
    using alter_loop_ids [OF assms(1), of "id_CmdKey (newID K uid)" "unat (vg_AlterID ?g)" uid] by blast
  moreover have "id_UUID (newID K uid) = uid" by (simp add: newID_def)
  ultimately show ?thesis using assms(2)
    by (cases "vg_IsVless g") (auto simp: Vmess_NewClient_def Let_def newAlterIDs_def)
qed

lemma vmess_nonce_inj:
  assumes "2 \<le> NonceSize A"
  shows "vmess_nonce A iv m = vmess_nonce A iv n \<longleftrightarrow> m = n"
proof
  assume "vmess_nonce A iv m = vmess_nonce A iv n"
  then have "take 2 (vmess_nonce A iv m) = take 2 (vmess_nonce A iv n)" by simp
  then have "be16 m = be16 n" using assms by (simp add: vmess_nonce_def min_def del: take_append) simp
  then have "of_be16 (be16 m ! 0) (be16 m ! 1) = of_be16 (be16 n ! 0) (be16 n ! 1)" by simp
  then have "unat m = unat n" by (simp add: be16_def of_be16_be16)
  then show "m = n" by (rule unsigned_word_eqI)
qed simp

text \<open>Two chunks of a body have the same nonce exactly when their numbers differ by a multiple of 65536.\<close>

theorem vmess_nonces:
  assumes "2 \<le> NonceSize A"
  shows "vmess_nonce A iv (se_count ((sealed_next ^^ i) (start_sealed A iv))) =
    vmess_nonce A iv (se_count ((sealed_next ^^ j) (start_sealed A iv))) \<longleftrightarrow> i mod 65536 = j mod 65536"
proof -
  have "se_count ((sealed_next ^^ n) (start_sealed A iv)) = of_nat n" for n
    by (induction n) (simp_all add: sealed_next_def start_sealed_def)
  then show ?thesis using vmess_nonce_inj [OF assms] by (simp add: word_of_nat_eq_iff take_bit_eq_mod)
qed


subsection \<open>Examples\<close>

definition demo_gcm :: aead where
  "demo_gcm = \<lparr>NonceSize = 12, Overhead = 16, Seal = (\<lambda>n p ad. map ((+) (sum_list n)) p @ replicate 16 (sum_list n)),
     Open = (\<lambda>n c ad. if 16 \<le> length c \<and> drop (length c - 16) c = replicate 16 (sum_list n)
       then Some (map (\<lambda>b. b - sum_list n) (take (length c - 16) c)) else None)\<rparr>"

lemma demo_gcm_ok: "gcm_ok demo_gcm"
  by (simp add: gcm_ok_def aead_ok_def demo_gcm_def comp_def)

definition demo_vmess :: vmess_crypto where
  "demo_vmess = \<lparr>vc_md5 = (\<lambda>x. replicate 16 (sum_list x + 1)), vc_sha256 = (\<lambda>x. replicate 32 (sum_list x)), vc_gcm = (\<lambda>_. demo_gcm),
     vc_chacha = (\<lambda>_. demo_gcm), vc_aes = (\<lambda>_ _. replicate 16 5), vc_cfb_enc = (\<lambda>_ _ x. x), vc_cfb_dec = (\<lambda>_ _ x. x)\<rparr>"

lemma demo_vmess_ok: "crypto_ok demo_vmess"
  by (simp add: crypto_ok_def demo_vmess_def demo_gcm_ok)

definition demo_id :: vmess_id where
  "demo_id = \<lparr>id_UUID = replicate 16 1, id_CmdKey = replicate 16 2\<rparr>"

definition demo_rand :: request_rand where
  "demo_rand = \<lparr>rq_time = 5, rq_p = 2, rq_padding = [9, 9], rq_auth = [1, 2, 3, 4], rq_nonce = replicate 8 3\<rparr>"

definition demo_dst :: vmess_dst where
  "demo_dst = \<lparr>vd_UDP = False, vd_AddrType = 1, vd_Addr = [10, 0, 0, 1], vd_Port = 443\<rparr>"

lemma demo_parts_ok: "dst_ok demo_dst" "rand_ok demo_rand" "length (id_CmdKey demo_id) = 16"
  by (simp_all add: dst_ok_def demo_dst_def rand_ok_def demo_rand_def demo_id_def)

theorem vmess_upload_witness:
  "\<exists>s q r w s1 body n t.
    Vmess_newConn demo_pb demo_vmess (replicate 33 7) demo_rand (fed []) demo_id demo_dst SecurityAES128GCM True False = Inr s \<and>
    open_request demo_vmess True demo_id (rq_time demo_rand) (c_out (vm_Conn s)) = Some q \<and> vq_dst q = demo_dst \<and>
    server_body demo_vmess True q = Some (r, w) \<and> writes Vmess_Write [[1, 2], [3]] s = Some (map length [[1, 2], [3 :: u8]], s1) \<and>
    c_out (vm_Conn s1) = c_out (vm_Conn s) @ body \<and>
    reads (Vmess_Read demo_vmess 1) [1, 1, 1] (server_end s r body) = (take n [1, 2, 3], t) \<and> 3 \<le> n"
proof -
  let ?m = "made_conn demo_vmess (replicate 33 7) (fed []) demo_id demo_dst SecurityAES128GCM True False"
  have sizes: "length (vm_reqBodyIV ?m) = 16" "length (vm_reqBodyKey ?m) = 16" by (simp_all add: made_conn_simps)
  from open_request_bytes [OF demo_pb_ok demo_vmess_ok _ _ sizes, of demo_rand] demo_parts_ok
  obtain bs where "request_bytes demo_pb demo_vmess ?m demo_rand = Inr bs" by (auto simp: made_conn_simps)
  from newConn_ok [OF this] obtain s where
    s: "Vmess_newConn demo_pb demo_vmess (replicate 33 7) demo_rand (fed []) demo_id demo_dst SecurityAES128GCM True False = Inr s"
    by (auto simp: fed_def)
  from vmess_upload [OF demo_pb_ok demo_vmess_ok _ demo_parts_ok _ _ s, of "[1, 1, 1]" "[[1, 2], [3]]" 1] s show ?thesis
    by (simp add: fed_def numeral_3_eq_3 del: reads.simps writes.simps)
qed

text \<open>A VLESS answer of version 0, and one of version 1.\<close>

lemma demo_vless:
  "\<exists>s. Vmess_newConn demo_pb demo_vmess (replicate 33 7) demo_rand (fed bs) demo_id demo_dst SecurityZero True True = Inr s \<and>
     vm_isVless s \<and> vm_reader s = PlainReader"
proof -
  let ?new = "Vmess_newConn demo_pb demo_vmess (replicate 33 7) demo_rand (fed bs) demo_id demo_dst SecurityZero True True"
  let ?m = "made_conn demo_vmess (replicate 33 7) (fed bs) demo_id demo_dst SecurityZero True True"
  have "request_bytes demo_pb demo_vmess ?m demo_rand = Inr (vless_header demo_pb ?m)"
    by (simp add: request_bytes_def made_conn_simps)
  from newConn_ok [OF this] obtain s where s: "?new = Inr s" by (auto simp: fed_def)
  have e: "s = ?m\<lparr>vm_Conn := vm_Conn s\<rparr>" by (rule newConn_Inr [OF s])
  have "vm_isVless s" "vm_reader s = PlainReader"
    by (subst e, simp add: made_conn_simps, subst e, simp add: made_conn_def body_of_def demo_dst_def)
  with s show ?thesis by blast
qed

theorem vmess_download_witness:
  "(\<exists>s n t. Vmess_newConn demo_pb demo_vmess (replicate 33 7) demo_rand (fed [0, 1, 7, 1, 2, 3]) demo_id demo_dst SecurityZero True True = Inr s \<and>
      reads (Vmess_Read demo_vmess 1) [2, 2, 2] s = (take n [1, 2, 3], t) \<and> 3 \<le> n) \<and>
   (\<exists>s t. Vmess_newConn demo_pb demo_vmess (replicate 33 7) demo_rand (fed [1, 1, 7, 1, 2, 3]) demo_id demo_dst SecurityZero True True = Inr s \<and>
      reads (Vmess_Read demo_vmess 1) [2, 2, 2] s = ([], t))"
proof -
  have w: "\<exists>s n t. Vmess_newConn demo_pb demo_vmess (replicate 33 7) demo_rand (fed [ver, 1, 7, 1, 2, 3]) demo_id demo_dst SecurityZero True True = Inr s \<and>
    reads (Vmess_Read demo_vmess 1) [2, 2, 2] s = (take n [1, 2, 3], t) \<and> (if ver = 0 then 3 \<le> n else n = 0)" for ver
  proof -
    obtain s where s: "Vmess_newConn demo_pb demo_vmess (replicate 33 7) demo_rand (fed [ver, 1, 7, 1, 2, 3]) demo_id demo_dst SecurityZero True True = Inr s"
      "vm_isVless s" "vm_reader s = PlainReader" using demo_vless by blast
    have "\<exists>n t. reads (Vmess_Read demo_vmess 1) [2, 2, 2] s = (take n (concat [[1, 2, 3]]), t) \<and>
        (if (if True then ver = 0 else 4 \<le> length [7 :: u8] \<and> [7] ! 0 = vm_respV s \<and> [7 :: u8] ! 2 = 0)
         then min (length [2, 2, 2 :: nat]) (length (concat [[1, 2, 3 :: u8]])) \<le> n else n = 0)"
    proof (rule vmess_download [OF demo_vmess_ok _ s(1)])
      show "body_fits PlainWriter (vm_reader s)" using s(3) by simp
      show "header_fits s [7]" using s(2) by (simp add: header_fits_def)
      show "c_in (fed [ver, 1, 7, 1, 2, 3]) = server_response demo_vmess s ver [7] @ body_bytes PlainWriter [[1, 2, 3]]"
        using s(2) by (simp add: fed_def server_response_def)
    qed simp_all
    then show ?thesis using s(1) by (auto simp: numeral_3_eq_3 simp del: reads.simps)
  qed
  show ?thesis using w [of 0] w [of 1] by (auto simp del: reads.simps)
qed

theorem client_has_users_witness:
  "\<exists>v. Vmess_NewClient demo_vmess (\<lambda>_. Some (replicate 16 1)) ''amd64'' \<lparr>vg_UUID = ''u'', vg_AlterID = 2, vg_Security = ''auto'',
      vg_IsAead = False, vg_IsVless = False\<rparr> = Some (Inr v) \<and> length (vl_user v) = 3"
proof -
  have "\<exists>n. next_try demo_vmess u n \<noteq> u" for u
  proof (rule ccontr)
    assume "\<not> ?thesis"
    then have a: "next_try demo_vmess u 0 = u" "next_try demo_vmess u 1 = u" by blast+
    then have "next_try demo_vmess u 0 = next_try demo_vmess u 1" by simp
    then show False by (simp add: next_try_def demo_vmess_def bytes_of_def)
  qed
  from client_has_users [of demo_vmess "\<lambda>_. Some (replicate 16 1)" "\<lparr>vg_UUID = ''u'', vg_AlterID = 2, vg_Security = ''auto'',
      vg_IsAead = False, vg_IsVless = False\<rparr>" "replicate 16 1" "''amd64''"] this show ?thesis by auto
qed

theorem vmess_nonces_witness:
  "vmess_nonce demo_gcm (replicate 16 0) (se_count ((sealed_next ^^ 70000) (start_sealed demo_gcm (replicate 16 0)))) =
   vmess_nonce demo_gcm (replicate 16 0) (se_count ((sealed_next ^^ 4464) (start_sealed demo_gcm (replicate 16 0))))"
proof -
  have "2 \<le> NonceSize demo_gcm" by (simp add: demo_gcm_def)
  from vmess_nonces [OF this, of "replicate 16 0" 70000 4464] show ?thesis by simp
qed

end
