(* ===== verification/Trojan.thy ===== *)
theory Trojan
  imports Framing Socks5 Metadata
begin

text \<open>
  The Trojan protocol (\<open>src/pkg/clash/transport/trojan/trojan.go\<close>): the header of a connection and the packets of UDP
  over it. TLS is below it and left out; SHA-224 is a parameter.
\<close>

definition trojan_maxLength :: nat where "trojan_maxLength = 8192"
definition crlf :: "u8 list" where "crlf = [13, 10]"

subsection \<open>Header\<close>

definition hex_byte :: "u8 \<Rightarrow> u8 list" where
  "hex_byte b = bytes_of [''0123456789abcdef'' ! unat (drop_bit 4 b), ''0123456789abcdef'' ! unat (and b 15)]"

definition hexSha224 :: "(u8 list \<Rightarrow> u8 list) \<Rightarrow> u8 list \<Rightarrow> u8 list" where
  "hexSha224 sha224 data = concat (map hex_byte (sha224 data))"

record trojan =
  tj_option_Password :: string
  tj_hexPassword :: "u8 list"

definition Trojan_New :: "(u8 list \<Rightarrow> u8 list) \<Rightarrow> string \<Rightarrow> trojan" where
  "Trojan_New sha224 password = \<lparr>tj_option_Password = password, tj_hexPassword = hexSha224 sha224 (bytes_of password)\<rparr>"

definition Trojan_WriteHeader :: "protobytes \<Rightarrow> trojan \<Rightarrow> u8 \<Rightarrow> u8 list \<Rightarrow> unit io" where
  "Trojan_WriteHeader B t command socks5Addr =
     (let buf = PutSlice B [] (tj_hexPassword t); buf = PutSlice B buf crlf; buf = PutUint8 B buf command;
          buf = PutSlice B buf socks5Addr in
      conn_Write (PutSlice B buf crlf))"

subsection \<open>Packets\<close>

text \<open>The count is that of the connection: it includes the address and the length.\<close>

definition trojan_writePacket :: "protobytes \<Rightarrow> u8 list \<Rightarrow> u8 list \<Rightarrow> io_conn \<Rightarrow> write_result \<times> io_conn" where
  "trojan_writePacket B socks5Addr payload c =
     (let buf = PutSlice B [] socks5Addr; buf = PutUint16be B buf (of_nat (length payload)); buf = PutSlice B buf crlf;
          buf = PutSlice B buf payload in
      case conn_Write buf c of (Inl e, c') \<Rightarrow> ((0, Some e), c') | (Inr _, c') \<Rightarrow> ((length buf, None), c'))"

text \<open>The loop over the pieces; the third argument is what is left of the payload.\<close>

function trojan_write_loop :: "protobytes \<Rightarrow> u8 list \<Rightarrow> u8 list \<Rightarrow> nat \<Rightarrow> io_conn \<Rightarrow> write_result \<times> io_conn" where
  "trojan_write_loop B socks5Addr rest offset c =
     (case trojan_writePacket B socks5Addr (take trojan_maxLength rest) c of
        ((n, Some e), c') \<Rightarrow> ((offset + n, Some e), c')
      | ((n, None), c') \<Rightarrow>
          if length rest \<le> trojan_maxLength then ((offset + length rest, None), c')
          else trojan_write_loop B socks5Addr (drop trojan_maxLength rest) (offset + trojan_maxLength) c')"
  by pat_completeness auto
termination
  by (relation "measure (\<lambda>(B, a, rest, n, c). length rest)") (auto simp: trojan_maxLength_def)

declare trojan_write_loop.simps [simp del]

definition Trojan_WritePacket :: "protobytes \<Rightarrow> u8 list \<Rightarrow> u8 list \<Rightarrow> io_conn \<Rightarrow> write_result \<times> io_conn" where
  "Trojan_WritePacket B socks5Addr payload c =
     (if length payload \<le> trojan_maxLength then trojan_writePacket B socks5Addr payload c
      else trojan_write_loop B socks5Addr payload 0 c)"

datatype trojan_error =
  ReadAddrError | ParseAddrError | AddrPanic | ReadLengthError | PacketInvalid | ReadCrlfError | ReadPacketError | TrIO io_error

text \<open>It returns the address, the bytes and how many of the packet remain. The argument is the size of the buffer.\<close>

definition Trojan_ReadPacket :: "nat \<Rightarrow> (io_conn, trojan_error, (go_ip \<times> nat) \<times> u8 list \<times> nat) comp" where
  "Trojan_ReadPacket k =
     io_bind (io_err (\<lambda>_. ReadAddrError) (ReadAddr k)) (\<lambda>addr.
     (case Socks_UDPAddr addr of
        None \<Rightarrow> io_fail AddrPanic
      | Some None \<Rightarrow> io_fail ParseAddrError
      | Some (Some uAddr) \<Rightarrow>
          io_bind (io_err (\<lambda>_. ReadLengthError) (ReadFull 2)) (\<lambda>l.
            let total = of_be16 (l ! 0) (l ! 1) in
            if trojan_maxLength < total then io_fail PacketInvalid
            else
              io_bind (io_err (\<lambda>_. ReadCrlfError) (ReadFull 2)) (\<lambda>_.
                let n = min total k in
                io_bind (io_err (\<lambda>_. ReadPacketError) (ReadFull n)) (\<lambda>p. io_ret (uAddr, p, total - n))))))"

text \<open>A connection of packets: what remains of the last packet, with its address.\<close>

record trojan_conn =
  tp_Conn :: io_conn
  tp_remain :: nat
  tp_rAddr :: "(go_ip \<times> nat) option"

definition Trojan_PacketConn :: "io_conn \<Rightarrow> trojan_conn" where
  "Trojan_PacketConn c = \<lparr>tp_Conn = c, tp_remain = 0, tp_rAddr = None\<rparr>"

definition Trojan_WriteTo :: "protobytes \<Rightarrow> u8 list \<Rightarrow> string \<Rightarrow> trojan_conn \<Rightarrow> write_result \<times> trojan_conn" where
  "Trojan_WriteTo B b addr s =
     (case Trojan_WritePacket B (case Socks_ParseAddr B addr of None \<Rightarrow> [] | Some a \<Rightarrow> a) b (tp_Conn s) of
        (r, c) \<Rightarrow> (r, s\<lparr>tp_Conn := c\<rparr>))"

definition Trojan_ReadFrom :: "nat \<Rightarrow> nat \<Rightarrow> (trojan_conn, trojan_error, u8 list \<times> (go_ip \<times> nat) option) comp" where
  "Trojan_ReadFrom avail k s =
     (if tp_remain s \<noteq> 0 then
        (case conn_Read avail (min (tp_remain s) k) (tp_Conn s) of
           (Inl e, c) \<Rightarrow> (Inl (TrIO e), s\<lparr>tp_Conn := c\<rparr>)
         | (Inr b, c) \<Rightarrow>
             let r = tp_remain s - length b in
             (Inr (b, tp_rAddr s), s\<lparr>tp_Conn := c, tp_remain := r, tp_rAddr := (if r = 0 then None else tp_rAddr s)\<rparr>))
      else
        (case Trojan_ReadPacket k (tp_Conn s) of
           (Inl e, c) \<Rightarrow> (Inl e, s\<lparr>tp_Conn := c\<rparr>)
         | (Inr (addr, b, r), c) \<Rightarrow>
             (Inr (b, Some addr), if r \<noteq> 0 then s\<lparr>tp_Conn := c, tp_remain := r, tp_rAddr := Some addr\<rparr> else s\<lparr>tp_Conn := c\<rparr>)))"

subsection \<open>What is written\<close>

definition trojan_packet :: "u8 list \<Rightarrow> u8 list \<Rightarrow> u8 list" where
  "trojan_packet a p = a @ be16 (of_nat (length p)) @ crlf @ p"

lemma writePacket_ok:
  assumes "pb_ok B"
  shows "trojan_writePacket B a p \<lparr>c_in = i, c_out = w, c_writes = None\<rparr> =
    ((length (trojan_packet a p), None), \<lparr>c_in = i, c_out = w @ trojan_packet a p, c_writes = None\<rparr>)"
  by (simp add: trojan_writePacket_def pb_simps [OF assms] trojan_packet_def Let_def)

lemma write_loop_ok:
  assumes "pb_ok B"
  shows "p \<noteq> [] \<Longrightarrow> trojan_write_loop B a p n \<lparr>c_in = i, c_out = w, c_writes = None\<rparr> =
    ((n + length p, None), \<lparr>c_in = i, c_out = w @ concat (map (trojan_packet a) (pieces trojan_maxLength p)), c_writes = None\<rparr>)"
proof (induction "length p" arbitrary: p n w rule: less_induct)
  case less
  note step = pieces_step [OF less.prems, of trojan_maxLength]
  show ?case
  proof (cases "length p \<le> trojan_maxLength")
    case True
    then show ?thesis using step
      by (subst trojan_write_loop.simps) (simp add: writePacket_ok [OF assms] trojan_maxLength_def)
  next
    case False
    then have "length (drop trojan_maxLength p) < length p" "drop trojan_maxLength p \<noteq> []"
      by (simp_all add: trojan_maxLength_def)
    from less.hyps [OF this] False step show ?thesis
      by (subst trojan_write_loop.simps) (simp add: writePacket_ok [OF assms] trojan_maxLength_def)
  qed
qed

text \<open>
  Every payload is written in packets of at most 8192 bytes. The count of a short payload is that of its packet, which
  is longer than the payload; of a long one it is the length of the payload.
\<close>

lemma WritePacket_ok:
  assumes "pb_ok B" and "p \<noteq> []"
  shows "Trojan_WritePacket B a p \<lparr>c_in = i, c_out = w, c_writes = None\<rparr> =
    ((if length p \<le> trojan_maxLength then length p + length a + 4 else length p, None),
     \<lparr>c_in = i, c_out = w @ concat (map (trojan_packet a) (pieces trojan_maxLength p)), c_writes = None\<rparr>)"
proof (cases "length p \<le> trojan_maxLength")
  case True
  then show ?thesis using pieces_step [OF assms(2), of trojan_maxLength]
    by (simp add: Trojan_WritePacket_def writePacket_ok [OF assms(1)] trojan_packet_def crlf_def trojan_maxLength_def)
qed (simp add: Trojan_WritePacket_def write_loop_ok [OF assms])

text \<open>The count of a written packet is higher than the bytes that the caller gave.\<close>

theorem trojan_count_too_large:
  assumes "pb_ok B" and "p \<noteq> []" and "length p \<le> trojan_maxLength" and "c_writes (tp_Conn s) = None"
  shows "\<exists>n s'. Trojan_WriteTo B p addr s = ((n, None), s') \<and> length p < n"
proof -
  obtain i w where "tp_Conn s = \<lparr>c_in = i, c_out = w, c_writes = None\<rparr>" using assms(4) by (cases "tp_Conn s") simp
  then show ?thesis using WritePacket_ok [OF assms(1,2)] assms(3) by (simp add: Trojan_WriteTo_def)
qed

subsection \<open>What is read\<close>

lemma ReadAddr_room: "MaxAddrLen \<le> k \<Longrightarrow> ReadAddr k = ReadAddr MaxAddrLen"
  by (simp add: ReadAddr_def)

lemma ReadPacket_packet:
  assumes "ip_addr a = Some u" and "length p \<le> trojan_maxLength" and "MaxAddrLen \<le> k"
  shows "Trojan_ReadPacket k \<lparr>c_in = trojan_packet a p @ rest, c_out = w, c_writes = l\<rparr> =
    (Inr (u, take k p, length p - k), \<lparr>c_in = drop k p @ rest, c_out = w, c_writes = l\<rparr>)"
proof -
  have a: "wf_addr a" "Socks_UDPAddr a = Some (Some u)" using assms(1) by (auto simp: ip_addr_def split: option.splits if_splits)
  have "length p < 65536" using assms(2) by (simp add: trojan_maxLength_def)
  then have l: "of_be16 (be16 (of_nat (length p)) ! 0) (be16 (of_nat (length p)) ! 1) = length p"
    by (simp add: be16_def of_be16_be16 unat_of_nat)
  have pk: "take (min (length p) k) p = take k p" "drop (min (length p) k) p = drop k p" "length p - min (length p) k = length p - k"
    by (simp_all add: min_def)
  have full: "ReadFull (min (length p) k) \<lparr>c_in = p @ rest, c_out = w, c_writes = l\<rparr> =
      (Inr (take k p), \<lparr>c_in = drop k p @ rest, c_out = w, c_writes = l\<rparr>)" for w l
    by (simp add: ReadFull_def pk(1,2) min_def)
  show ?thesis
    using ReadAddr_fed [OF a(1)] a(2) assms(2) l
    by (simp add: Trojan_ReadPacket_def ReadAddr_room [OF assms(3)] trojan_packet_def crlf_def io_bind_def io_err_def
        full pk(3) io_ret_def Let_def)
qed

text \<open>A read whose bytes are marked with the address that it returned.\<close>

definition tagged_ReadFrom :: "nat \<times> nat \<Rightarrow> trojan_conn \<Rightarrow> (trojan_error + (u8 \<times> (go_ip \<times> nat) option) list) \<times> trojan_conn" where
  "tagged_ReadFrom = (\<lambda>(avail, k) s.
     case Trojan_ReadFrom avail k s of (Inl e, s') \<Rightarrow> (Inl e, s') | (Inr (b, a), s') \<Rightarrow> (Inr (map (\<lambda>x. (x, a)) b), s'))"

definition tagged :: "(u8 list \<times> u8 list) list \<Rightarrow> (u8 \<times> (go_ip \<times> nat) option) list" where
  "tagged ps = concat (map (\<lambda>(a, p). map (\<lambda>x. (x, ip_addr a)) p) ps)"

definition packets_ok :: "(u8 list \<times> u8 list) list \<Rightarrow> bool" where
  "packets_ok ps \<longleftrightarrow> (\<forall>(a, p)\<in>set ps. p \<noteq> [] \<and> length p \<le> trojan_maxLength \<and> ip_addr a \<noteq> None)"

definition trojan_pending :: "trojan_conn \<Rightarrow> (u8 \<times> (go_ip \<times> nat) option) list \<Rightarrow> bool" where
  "trojan_pending s xs \<longleftrightarrow>
     (\<exists>rest ps. packets_ok ps \<and> c_in (tp_Conn s) = rest @ concat (map (\<lambda>(a, p). trojan_packet a p) ps) \<and>
        length rest = tp_remain s \<and> (rest \<noteq> [] \<longrightarrow> tp_rAddr s \<noteq> None) \<and> xs = map (\<lambda>x. (x, tp_rAddr s)) rest @ tagged ps)"

lemma ReadFrom_rest:
  assumes "tp_remain s \<noteq> 0" and "length rest = tp_remain s" and "c_in (tp_Conn s) = rest @ later" and "MaxAddrLen \<le> k"
  obtains m where "0 < m" and "m \<le> length rest" and "Trojan_ReadFrom avail k s =
    (Inr (take m rest, tp_rAddr s), s\<lparr>tp_Conn := tp_Conn s\<lparr>c_in := drop m rest @ later\<rparr>, tp_remain := length rest - m,
       tp_rAddr := (if m = length rest then None else tp_rAddr s)\<rparr>)"
proof
  let ?m = "min (min (tp_remain s) k) (max 1 avail)"
  have "0 < k" using assms(4) by (simp add: MaxAddrLen_def)
  then show pos: "0 < ?m" using assms(1) by simp
  show le: "?m \<le> length rest" using assms(2) by simp
  have "c_in (tp_Conn s) \<noteq> []" using assms(1-3) by auto
  then show "Trojan_ReadFrom avail k s = (Inr (take ?m rest, tp_rAddr s), s\<lparr>tp_Conn := tp_Conn s\<lparr>c_in := drop ?m rest @ later\<rparr>,
      tp_remain := length rest - ?m, tp_rAddr := (if ?m = length rest then None else tp_rAddr s)\<rparr>)"
    using assms le by (auto simp: Trojan_ReadFrom_def conn_Read_def Let_def min_def)
qed

lemma ReadFrom_packet:
  assumes "tp_remain s = 0" and "c_in (tp_Conn s) = trojan_packet a p @ later" and "packets_ok [(a, p)]" and "MaxAddrLen \<le> k"
  shows "\<exists>s'. Trojan_ReadFrom avail k s = (Inr (take k p, ip_addr a), s') \<and> c_in (tp_Conn s') = drop k p @ later \<and>
    tp_remain s' = length p - k \<and> (k < length p \<longrightarrow> tp_rAddr s' = ip_addr a)"
proof -
  obtain u where u: "ip_addr a = Some u" "length p \<le> trojan_maxLength" using assms(3) by (auto simp: packets_ok_def)
  obtain w l where c: "tp_Conn s = \<lparr>c_in = trojan_packet a p @ later, c_out = w, c_writes = l\<rparr>"
    using assms(2) by (cases "tp_Conn s") simp
  show ?thesis using assms(1) ReadPacket_packet [OF u assms(4)] u(1) by (simp add: Trojan_ReadFrom_def c)
qed

lemma tagged_read:
  assumes "trojan_pending s xs" and "xs \<noteq> []" and "MaxAddrLen \<le> k"
  obtains m s' where "0 < m" and "m \<le> length xs" and "tagged_ReadFrom (avail, k) s = (Inr (take m xs), s')" and "trojan_pending s' (drop m xs)"
proof -
  obtain rest ps where r: "packets_ok ps" "c_in (tp_Conn s) = rest @ concat (map (\<lambda>(a, p). trojan_packet a p) ps)"
    "length rest = tp_remain s" "rest \<noteq> [] \<longrightarrow> tp_rAddr s \<noteq> None" "xs = map (\<lambda>x. (x, tp_rAddr s)) rest @ tagged ps"
    using assms(1) by (auto simp: trojan_pending_def)
  show thesis
  proof (cases "tp_remain s = 0")
    case False
    from ReadFrom_rest [OF False r(3,2) assms(3)] obtain m where m: "0 < m" "m \<le> length rest"
      "Trojan_ReadFrom avail k s = (Inr (take m rest, tp_rAddr s), s\<lparr>tp_Conn := tp_Conn s\<lparr>c_in := drop m rest @
         concat (map (\<lambda>(a, p). trojan_packet a p) ps)\<rparr>, tp_remain := length rest - m,
         tp_rAddr := (if m = length rest then None else tp_rAddr s)\<rparr>)" by blast
    show thesis
    proof (rule that [OF m(1)])
      show "tagged_ReadFrom (avail, k) s = (Inr (take m xs), s\<lparr>tp_Conn := tp_Conn s\<lparr>c_in := drop m rest @
         concat (map (\<lambda>(a, p). trojan_packet a p) ps)\<rparr>, tp_remain := length rest - m,
         tp_rAddr := (if m = length rest then None else tp_rAddr s)\<rparr>)"
        using m(2) by (simp add: tagged_ReadFrom_def m(3) r(5) take_map)
      show "trojan_pending (s\<lparr>tp_Conn := tp_Conn s\<lparr>c_in := drop m rest @ concat (map (\<lambda>(a, p). trojan_packet a p) ps)\<rparr>,
         tp_remain := length rest - m, tp_rAddr := (if m = length rest then None else tp_rAddr s)\<rparr>) (drop m xs)"
        unfolding trojan_pending_def by (rule exI [of _ "drop m rest"], rule exI [of _ ps]) (use r m in \<open>auto simp: drop_map\<close>)
    qed (use m(2) r(5) in simp)
  next
    case True
    then have rest: "rest = []" using r(3) by simp
    then obtain a p qs where ps: "ps = (a, p) # qs" using assms(2) r(5) by (cases ps) (auto simp: tagged_def)
    have p: "p \<noteq> []" "packets_ok [(a, p)]" "packets_ok qs" using r(1) by (auto simp: ps packets_ok_def)
    from ReadFrom_packet [OF True _ p(2) assms(3), of "concat (map (\<lambda>(a, p). trojan_packet a p) qs)" avail] r(2) rest ps
    obtain s' where s': "Trojan_ReadFrom avail k s = (Inr (take k p, ip_addr a), s')"
      "c_in (tp_Conn s') = drop k p @ concat (map (\<lambda>(a, p). trojan_packet a p) qs)" "tp_remain s' = length p - k"
      "k < length p \<longrightarrow> tp_rAddr s' = ip_addr a" by auto
    have xs: "xs = map (\<lambda>x. (x, ip_addr a)) p @ tagged qs" by (simp add: r(5) rest ps tagged_def)
    show thesis
    proof (rule that)
      show "0 < min k (length p)" using p(1) assms(3) by (simp add: MaxAddrLen_def)
      show "tagged_ReadFrom (avail, k) s = (Inr (take (min k (length p)) xs), s')"
        by (simp add: tagged_ReadFrom_def s'(1) xs take_map min_def)
      show "trojan_pending s' (drop (min k (length p)) xs)" unfolding trojan_pending_def
        by (rule exI [of _ "drop k p"], rule exI [of _ qs])
          (use s' p r(1) in \<open>auto simp: xs drop_map ps packets_ok_def min_def\<close>)
    qed (simp add: xs)
  qed
qed


lemma tagged_end:
  assumes "trojan_pending s []" and "MaxAddrLen \<le> k"
  shows "\<exists>e s'. tagged_ReadFrom (avail, k) s = (Inl e, s')"
proof -
  obtain rest ps where r: "packets_ok ps" "c_in (tp_Conn s) = rest @ concat (map (\<lambda>(a, p). trojan_packet a p) ps)"
    "length rest = tp_remain s" "rest = []" "tagged ps = []"
    using assms(1) by (auto simp: trojan_pending_def)
  have "ps = []" using r(1,5) by (cases ps) (auto simp: packets_ok_def tagged_def)
  then have "c_in (tp_Conn s) = []" "tp_remain s = 0" using r by simp_all
  then show ?thesis using assms(2)
    by (simp add: tagged_ReadFrom_def Trojan_ReadFrom_def Trojan_ReadPacket_def io_bind_def io_err_def ReadAddr_def ReadFull_def)
qed

lemma packets_ok_pieces:
  assumes "\<forall>(a, p)\<in>set ps. p \<noteq> [] \<and> ip_addr a \<noteq> None"
  shows "packets_ok (concat (map (\<lambda>(a, p). map (Pair a) (pieces trojan_maxLength p)) ps))"
  using assms pieces_sizes by (fastforce simp: packets_ok_def)

lemma tagged_pieces:
  "tagged (concat (map (\<lambda>(a, p). map (Pair a) (pieces trojan_maxLength p)) ps)) = tagged ps"
proof -
  have "tagged (map (Pair a) qs) = map (\<lambda>x. (x, ip_addr a)) (concat qs)" for a qs
    by (induction qs) (simp_all add: tagged_def)
  moreover have "tagged (xs @ ys) = tagged xs @ tagged ys" for xs ys by (simp add: tagged_def)
  moreover have "0 < trojan_maxLength" by (simp add: trojan_maxLength_def)
  ultimately show ?thesis by (induction ps) (auto simp: tagged_def)
qed

lemma trojan_writes:
  assumes "pb_ok B" and "\<forall>(a, p)\<in>set ps. p \<noteq> []"
  shows "\<exists>ns. writes (\<lambda>(a, p). Trojan_WritePacket B a p) ps \<lparr>c_in = i, c_out = w, c_writes = None\<rparr> =
    Some (ns, \<lparr>c_in = i, c_out = w @ concat (map (\<lambda>(a, p). trojan_packet a p)
      (concat (map (\<lambda>(a, p). map (Pair a) (pieces trojan_maxLength p)) ps))), c_writes = None\<rparr>)"
  using assms(2)
proof (induction ps arbitrary: w)
  case (Cons x ps)
  obtain a p where x: "x = (a, p)" by (cases x)
  have "p \<noteq> []" using Cons.prems by (simp add: x)
  with Cons.IH [of "w @ concat (map (trojan_packet a) (pieces trojan_maxLength p))"] Cons.prems WritePacket_ok [OF assms(1), of p a i w]
  show ?case by (auto simp: x comp_def)
qed simp

text \<open> C37. Packets of any size that are not empty arrive with their addresses: reads into large enough buffers return the bytes
  in order, each with the address of its packet, whatever the buffers and the network cut, and all after enough reads.
\<close>

theorem trojan_packets:
  assumes "pb_ok B" and "\<forall>(a, p)\<in>set ps. p \<noteq> [] \<and> ip_addr a \<noteq> None" and "\<forall>(avail, k)\<in>set ks. MaxAddrLen \<le> k"
  shows "\<exists>ns c n s. writes (\<lambda>(a, p). Trojan_WritePacket B a p) ps (fed []) = Some (ns, c) \<and>
    reads tagged_ReadFrom ks (Trojan_PacketConn (fed (c_out c))) = (take n (tagged ps), s) \<and>
    min (length ks) (length (tagged ps)) \<le> n"
proof -
  let ?qs = "concat (map (\<lambda>(a, p). map (Pair a) (pieces trojan_maxLength p)) ps)"
  let ?out = "concat (map (\<lambda>(a, p). trojan_packet a p) ?qs)"
  obtain ns where w: "writes (\<lambda>(a, p). Trojan_WritePacket B a p) ps (fed []) = Some (ns, \<lparr>c_in = [], c_out = ?out, c_writes = None\<rparr>)"
    using trojan_writes [OF assms(1), of ps "[]" "[]"] assms(2) by (auto simp: fed_def)
  have pend: "trojan_pending (Trojan_PacketConn (fed ?out)) (tagged ps)"
    unfolding trojan_pending_def Trojan_PacketConn_def
    by (rule exI [of _ "[]"], rule exI [of _ ?qs]) (simp add: packets_ok_pieces [OF assms(2)] tagged_pieces fed_def)
  have step: "\<exists>m s'. 0 < m \<and> m \<le> length xs \<and> tagged_ReadFrom k s = (Inr (take m xs), s') \<and> trojan_pending s' (drop m xs)"
    if "trojan_pending s xs" "xs \<noteq> []" "MaxAddrLen \<le> snd k" for s xs k
    using tagged_read [OF that(1,2), of "snd k" "fst k"] that(3) by (metis prod.collapse)
  have ends: "\<exists>e s'. tagged_ReadFrom k s = (Inl e, s')" if "trojan_pending s []" "MaxAddrLen \<le> snd k" for s k
    using tagged_end [OF that(1), of "snd k" "fst k"] that(2) by simp
  have "\<forall>k\<in>set ks. MaxAddrLen \<le> snd k" using assms(3) by auto
  from reads_prefix [where Inv = trojan_pending and P = "\<lambda>k. MaxAddrLen \<le> snd k", OF step ends pend this] w show ?thesis by auto
qed

subsection \<open>The header and its server\<close>

text \<open>The address that the adapters send for a connection (\<open>adapter/outbound/util.go\<close>).\<close>

definition serializesSocksAddr :: "protobytes \<Rightarrow> metadata \<Rightarrow> u8 list" where
  "serializesSocksAddr B m =
     (let addrType = AddrType m; buf = PutUint8 B [] (of_nat addrType);
          buf = (if addrType = AtypDomainName then PutString B (PutUint8 B buf (of_nat (length (Host m)))) (Host m)
                 else if addrType = AtypIPv4 then PutSlice B buf (To4 (DstIP m))
                 else if addrType = AtypIPv6 then PutSlice B buf (To16 (DstIP m)) else buf) in
      PutUint16be B buf (DstPort m))"

lemma serializes_wf:
  assumes "pb_ok B" and "length (Host m) < 256" and "length (DstIP m) \<in> {0, 4, 16}"
  shows "wf_addr (serializesSocksAddr B m)"
proof -
  have "To4 (DstIP m) \<noteq> [] \<Longrightarrow> length (To4 (DstIP m)) = 4" using To4_length by blast
  then show ?thesis using assms(2,3)
    by (auto simp: serializesSocksAddr_def pb_simps [OF assms(1)] Let_def AddrType_def wf_addr_cases AtypIPv4_def AtypIPv6_def
        AtypDomainName_def AtypV4_def AtypV6_def AtypDomain_def unat_of_nat To16_def To4_def)
qed

text \<open>What a server of the protocol reads: the hash of the password, the command and the address.\<close>

definition trojan_server :: "trojan \<Rightarrow> (u8 \<times> socks_addr) io" where
  "trojan_server t =
     io_bind (ReadFull (length (tj_hexPassword t))) (\<lambda>h. io_bind (ReadFull 2) (\<lambda>_.
     if h \<noteq> tj_hexPassword t then io_fail AuthFailed
     else io_bind (ReadFull 1) (\<lambda>c. io_bind (ReadAddr MaxAddrLen) (\<lambda>a. io_bind (ReadFull 2) (\<lambda>_. io_ret (hd c, a))))))"

text \<open>
  The server with the same password reads from the header the command and the address of the connection, and then has
  the data; a server whose password hashes to something else refuses.
\<close>

theorem trojan_header_understood:
  assumes "pb_ok B" and "length (Host m) < 256" and "length (DstIP m) \<in> {0, 4, 16}"
    and "length (tj_hexPassword t') = length (tj_hexPassword t)"
  shows "\<exists>c. Trojan_WriteHeader B t cmd (serializesSocksAddr B m) (fed []) = (Inr (), c) \<and>
    fst (trojan_server t' (fed (c_out c @ data))) =
      (if tj_hexPassword t' = tj_hexPassword t then Inr (cmd, serializesSocksAddr B m) else Inl AuthFailed) \<and>
    (tj_hexPassword t' = tj_hexPassword t \<longrightarrow> c_in (snd (trojan_server t' (fed (c_out c @ data)))) = data)"
  using assms(4) ReadAddr_fed [OF serializes_wf [OF assms(1-3)]]
  by (simp add: Trojan_WriteHeader_def pb_simps [OF assms(1)] Let_def fed_def crlf_def trojan_server_def io_bind_def io_ret_def io_fail_def)


subsection \<open>Examples\<close>

lemma demo_ip_addr: "ip_addr [1, 10, 0, 0, 1, 0, 53] = Some ([10, 0, 0, 1], 53)"
  by (simp add: ip_addr_def Socks_UDPAddr_def udp_ip_def AtypV4_def AtypV6_def wf_addr_def SplitAddr_def AtypDomain_def of_be16_def)

theorem trojan_packets_witness:
  "\<exists>ns c n s. writes (\<lambda>(a, p). Trojan_WritePacket demo_pb a p) [([1, 10, 0, 0, 1, 0, 53], [7, 8])] (fed []) = Some (ns, c) \<and>
    reads tagged_ReadFrom [(1, 300), (1, 300)] (Trojan_PacketConn (fed (c_out c))) =
      (take n [(7, Some ([10, 0, 0, 1], 53)), (8, Some ([10, 0, 0, 1], 53))], s) \<and> Suc (Suc 0) \<le> n"
  using trojan_packets [OF demo_pb_ok, of "[([1, 10, 0, 0, 1, 0, 53], [7, 8])]" "[(1, 300), (1, 300)]"] demo_ip_addr
  by (simp add: MaxAddrLen_def tagged_def del: reads.simps writes.simps)

theorem trojan_header_understood_witness:
  "\<exists>c. Trojan_WriteHeader demo_pb (Trojan_New (\<lambda>_. replicate 28 1) ''pw'') 1
      (serializesSocksAddr demo_pb (empty_metadata\<lparr>Host := ''a.b''\<rparr>)) (fed []) = (Inr (), c) \<and>
    fst (trojan_server (Trojan_New (\<lambda>_. replicate 28 1) ''pw'') (fed (c_out c @ [5]))) =
      Inr (1, serializesSocksAddr demo_pb (empty_metadata\<lparr>Host := ''a.b''\<rparr>))"
  using trojan_header_understood [OF demo_pb_ok, of "empty_metadata\<lparr>Host := ''a.b''\<rparr>" "Trojan_New (\<lambda>_. replicate 28 1) ''pw''"
      "Trojan_New (\<lambda>_. replicate 28 1) ''pw''" 1 "[5]"]
  by (auto simp: empty_metadata_def)

theorem trojan_count_too_large_witness:
  "\<exists>n s'. Trojan_WriteTo demo_pb [1, 2, 3] ''10.0.0.1:53'' (Trojan_PacketConn (fed [])) = ((n, None), s') \<and> length [1, 2, 3 :: u8] < n"
  by (rule trojan_count_too_large [OF demo_pb_ok]) (simp_all add: trojan_maxLength_def Trojan_PacketConn_def fed_def)

end
