(* ===== verification/Snell.thy ===== *)
theory Snell
  imports AeadProps Socks5
begin

text \<open>
  The Snell protocol (\<open>src/pkg/clash/transport/snell/\<close>) over the encrypted stream of Shadowsocks, and the pool of idle
  connections it keeps (\<open>src/pkg/clash/component/pool/pool.go\<close>). Argon2 and the ciphers are parameters.
\<close>

subsection \<open>Ciphers (cipher.go)\<close>

definition snellKDF :: "(u8 list \<Rightarrow> u8 list \<Rightarrow> u8 list) \<Rightarrow> u8 list \<Rightarrow> u8 list \<Rightarrow> nat \<Rightarrow> u8 list" where
  "snellKDF argon2 psk salt keySize = take keySize (argon2 psk salt)"

definition snell_cipher :: "(u8 list \<Rightarrow> u8 list \<Rightarrow> u8 list) \<Rightarrow> (u8 list \<Rightarrow> aead option) \<Rightarrow> nat \<Rightarrow> u8 list \<Rightarrow> ss_cipher" where
  "snell_cipher argon2 makeAEAD keySize psk =
     (let mk = (\<lambda>salt. makeAEAD (snellKDF argon2 psk salt keySize)) in
      \<lparr>ci_KeySize = keySize, ci_SaltSize = 16, ci_Encrypter = mk, ci_Decrypter = mk\<rparr>)"

definition Snell_NewAES128GCM :: "(u8 list \<Rightarrow> u8 list \<Rightarrow> u8 list) \<Rightarrow> ss_crypto \<Rightarrow> u8 list \<Rightarrow> ss_cipher" where
  "Snell_NewAES128GCM argon2 K psk = snell_cipher argon2 (cr_aesGCM K) 16 psk"

definition Snell_NewChacha20Poly1305 :: "(u8 list \<Rightarrow> u8 list \<Rightarrow> u8 list) \<Rightarrow> ss_crypto \<Rightarrow> u8 list \<Rightarrow> ss_cipher" where
  "Snell_NewChacha20Poly1305 argon2 K psk = snell_cipher argon2 (cr_chacha20poly1305 K) 32 psk"

subsection \<open>Connections (snell.go)\<close>

definition snell_maxLength :: nat where "snell_maxLength = 0x3FFF"

record snell =
  sk_Cipher :: ss_cipher
  sk_Conn :: aead_conn
  sk_reply :: bool

datatype snell_error = SkAead aead_error | CommandNotSupport | ServerError nat "u8 list" | UnsupportVersion

definition Snell_StreamConn :: "(u8 list \<Rightarrow> u8 list \<Rightarrow> u8 list) \<Rightarrow> ss_crypto \<Rightarrow> io_conn \<Rightarrow> u8 list \<Rightarrow> int \<Rightarrow> snell" where
  "Snell_StreamConn argon2 K conn psk version =
     \<lparr>sk_Cipher = (if version \<noteq> 1 then Snell_NewAES128GCM argon2 K psk else Snell_NewChacha20Poly1305 argon2 K psk),
      sk_Conn = AeadConn_New conn, sk_reply = False\<rparr>"

text \<open>The end of the stream after the first byte is another error.\<close>

definition late_eof :: "aead_error \<Rightarrow> aead_error" where
  "late_eof e = (if e = AeadIO EOF then AeadUnexpectedEOF else e)"

definition sk_full :: "nat \<Rightarrow> snell \<Rightarrow> ((snell_error + u8 list) \<times> snell) option" where
  "sk_full n s =
     map_option (\<lambda>(r, c). (map_sum SkAead id r, s\<lparr>sk_Conn := c\<rparr>))
       (read_fully late_eof (AeadConn_Read (sk_Cipher s)) n [] (sk_Conn s))"

definition sk_bind ::
  "(snell \<Rightarrow> ((snell_error + 'a) \<times> snell) option) \<Rightarrow> ('a \<Rightarrow> snell \<Rightarrow> ((snell_error + 'b) \<times> snell) option) \<Rightarrow>
   snell \<Rightarrow> ((snell_error + 'b) \<times> snell) option" where
  "sk_bind m f s =
     (case m s of None \<Rightarrow> None | Some (Inl e, s') \<Rightarrow> Some (Inl e, s') | Some (Inr a, s') \<Rightarrow> f a s')"

definition sk_pass :: "nat \<Rightarrow> snell \<Rightarrow> ((snell_error + u8 list) \<times> snell) option" where
  "sk_pass k s =
     (case AeadConn_Read (sk_Cipher s) k (sk_Conn s) of (r, c) \<Rightarrow> Some (map_sum SkAead id r, s\<lparr>sk_Conn := c\<rparr>))"

text \<open>The first read takes the answer of the server: a tunnel, or an error with its code and message.\<close>

definition Snell_Read :: "nat \<Rightarrow> snell \<Rightarrow> ((snell_error + u8 list) \<times> snell) option" where
  "Snell_Read k s0 =
     (if sk_reply s0 then sk_pass k s0
      else
        sk_bind (sk_full 1) (\<lambda>cmd s.
          if cmd ! 0 = 0 then sk_pass k s
          else if cmd ! 0 \<noteq> 2 then Some (Inl CommandNotSupport, s)
          else
            sk_bind (sk_full 1) (\<lambda>code. sk_bind (sk_full 1) (\<lambda>len. sk_bind (sk_full (unat (len ! 0))) (\<lambda>msg s.
              Some (Inl (ServerError (unat (code ! 0)) msg), s)))) s)
          (s0\<lparr>sk_reply := True\<rparr>))"

definition Snell_Write :: "u8 list \<Rightarrow> u8 list \<Rightarrow> snell \<Rightarrow> (nat \<times> aead_error option) \<times> snell" where
  "Snell_Write salt b s = (case AeadConn_Write (sk_Cipher s) salt b (sk_Conn s) of (r, c) \<Rightarrow> (r, s\<lparr>sk_Conn := c\<rparr>))"

definition snell_header :: "protobytes \<Rightarrow> string \<Rightarrow> nat \<Rightarrow> int \<Rightarrow> u8 list" where
  "snell_header B host port version =
     (let buf = PutUint8 B [] 1; buf = PutUint8 B buf (if version = 2 then 5 else 1); buf = PutUint8 B buf 0;
          buf = PutUint8 B buf (of_nat (length host)); buf = PutString B buf host in
      PutUint16be B buf (of_nat port))"

definition Snell_WriteHeader :: "protobytes \<Rightarrow> u8 list \<Rightarrow> string \<Rightarrow> nat \<Rightarrow> int \<Rightarrow> snell \<Rightarrow> aead_error option \<times> snell" where
  "Snell_WriteHeader B salt host port version s =
     (case Snell_Write salt (snell_header B host port version) s of ((n, e), s') \<Rightarrow> (e, s'))"

definition Snell_WriteUDPHeader :: "u8 list \<Rightarrow> int \<Rightarrow> snell \<Rightarrow> snell_error option \<times> snell" where
  "Snell_WriteUDPHeader salt version s =
     (if version < 3 then (Some UnsupportVersion, s)
      else (case Snell_Write salt [1, 6, 0] s of ((n, e), s') \<Rightarrow> (map_option SkAead e, s')))"

definition HalfClose :: "u8 list \<Rightarrow> snell \<Rightarrow> aead_error option \<times> snell" where
  "HalfClose salt s =
     (case Snell_Write salt [] s of
        ((n, Some e), s') \<Rightarrow> (Some e, s') | ((n, None), s') \<Rightarrow> (None, s'\<lparr>sk_reply := False\<rparr>))"

text \<open>A connection from the pool skips the end signal of the use before.\<close>

definition PoolConn_Read :: "nat \<Rightarrow> snell \<Rightarrow> ((snell_error + u8 list) \<times> snell) option" where
  "PoolConn_Read k s =
     (case Snell_Read k s of
        Some (Inl e, s') \<Rightarrow>
          if e = SkAead ErrZeroChunk \<and> \<not> sk_reply s then Snell_Read k (s'\<lparr>sk_reply := False\<rparr>) else Some (Inl e, s')
      | r \<Rightarrow> r)"

subsection \<open>Packets\<close>

text \<open>
  The address of a packet. The end of the slice of a name is computed with one byte; \<open>None\<close> is a panic of an index or
  a slice.
\<close>

definition snell_addr :: "u8 list \<Rightarrow> u8 list option" where
  "snell_addr a =
     (let slice = (\<lambda>hi. if 1 \<le> hi \<and> hi \<le> length a then Some (take (hi - 1) (drop 1 a)) else None) in
      case a of
        [] \<Rightarrow> None
      | t # r \<Rightarrow>
          if t = AtypDomain then (case r of [] \<Rightarrow> None | n # _ \<Rightarrow> slice (unat (1 + 1 + n + 2)))
          else if t = AtypV4 then map_option ((@) [0, 4]) (slice (1 + 4 + 2))
          else if t = AtypV6 then map_option ((@) [0, 6]) (slice (1 + 16 + 2))
          else Some [])"

definition snell_writePacket ::
  "protobytes \<Rightarrow> (u8 list \<Rightarrow> 's \<Rightarrow> (nat \<times> 'e option) \<times> 's) \<Rightarrow> u8 list \<Rightarrow> u8 list \<Rightarrow> 's \<Rightarrow> ((nat \<times> 'e option) \<times> 's) option" where
  "snell_writePacket B Write a payload s =
     map_option (\<lambda>addr. case Write (PutSlice B (PutSlice B (PutUint8 B [] 1) addr) payload) s of
         ((n, Some e), s') \<Rightarrow> ((0, Some e), s') | ((n, None), s') \<Rightarrow> ((length payload, None), s'))
       (snell_addr a)"

function snell_write_loop ::
  "protobytes \<Rightarrow> (u8 list \<Rightarrow> 's \<Rightarrow> (nat \<times> 'e option) \<times> 's) \<Rightarrow> u8 list \<Rightarrow> u8 list \<Rightarrow> nat \<Rightarrow> 's \<Rightarrow> ((nat \<times> 'e option) \<times> 's) option" where
  "snell_write_loop B Write a rest offset s =
     (case snell_writePacket B Write a (take snell_maxLength rest) s of
        None \<Rightarrow> None
      | Some ((n, Some e), s') \<Rightarrow> Some ((offset + n, Some e), s')
      | Some ((n, None), s') \<Rightarrow>
          if length rest \<le> snell_maxLength then Some ((offset + length rest, None), s')
          else snell_write_loop B Write a (drop snell_maxLength rest) (offset + snell_maxLength) s')"
  by pat_completeness auto
termination
  by (relation "measure (\<lambda>(B, W, a, rest, n, s). length rest)") (auto simp: snell_maxLength_def)

definition Snell_WritePacket ::
  "protobytes \<Rightarrow> (u8 list \<Rightarrow> 's \<Rightarrow> (nat \<times> 'e option) \<times> 's) \<Rightarrow> u8 list \<Rightarrow> u8 list \<Rightarrow> 's \<Rightarrow> ((nat \<times> 'e option) \<times> 's) option" where
  "Snell_WritePacket B Write a payload s =
     (if length payload \<le> snell_maxLength then snell_writePacket B Write a payload s
      else snell_write_loop B Write a payload 0 s)"

datatype packet_failure = PkRead aead_error | InsufficientLength | IpVersionInvalid | RemoteInvalid | PkParse | PkPanic

definition UDPBufferSize :: nat where "UDPBufferSize = 16 * 1024"

text \<open>A packet is what one read returns; \<open>k\<close> is the size of the buffer of the caller.\<close>

definition parse_packet :: "nat \<Rightarrow> u8 list \<Rightarrow> packet_failure + (go_ip \<times> nat) \<times> u8 list" where
  "parse_packet k b =
     (if b = [] then Inl InsufficientLength
      else if b ! 0 \<noteq> 4 \<and> b ! 0 \<noteq> 6 then Inl IpVersionInvalid
      else
        let v4 = (b ! 0 = 4); headLen = 1 + (if v4 then 4 else 16) + 2 in
        if length b < headLen then Inl InsufficientLength
        else
          (case SplitAddr (b[0 := (if v4 then AtypV4 else AtypV6)]) of
             None \<Rightarrow> Inl RemoteInvalid
           | Some addr \<Rightarrow>
               (case Socks_UDPAddr addr of
                  None \<Rightarrow> Inl PkPanic
                | Some None \<Rightarrow> Inl PkParse
                | Some (Some u) \<Rightarrow> Inr (u, take k (drop headLen b)))))"

definition Snell_ReadPacket :: "(nat \<Rightarrow> 's \<Rightarrow> (aead_error + u8 list) \<times> 's) \<Rightarrow> nat \<Rightarrow> 's \<Rightarrow> (packet_failure + (go_ip \<times> nat) \<times> u8 list) \<times> 's" where
  "Snell_ReadPacket Read k s =
     (case Read UDPBufferSize s of (Inl e, s') \<Rightarrow> (Inl (PkRead e), s') | (Inr b, s') \<Rightarrow> (parse_packet k b, s'))"

subsection \<open>The pool of idle connections (component/pool/pool.go)\<close>

text \<open>
  Elements wait in a channel with the time at which they were put, in nanoseconds; the age is in milliseconds. A call
  of \<open>Get\<close> also returns what was evicted; \<open>None\<close> is an element that the factory has to make.
\<close>

record 'a idle_pool =
  ip_ch :: "('a \<times> int) list"
  ip_size :: nat
  ip_age :: int

definition too_old :: "int \<Rightarrow> int \<Rightarrow> int \<Rightarrow> bool" where
  "too_old age now t \<longleftrightarrow> age \<noteq> 0 \<and> age < (now - t) div 1000000"

fun pool_get_loop :: "int \<Rightarrow> int \<Rightarrow> ('a \<times> int) list \<Rightarrow> 'a option \<times> 'a list \<times> ('a \<times> int) list" where
  "pool_get_loop age now [] = (None, [], [])"
| "pool_get_loop age now ((x, t) # ch) =
     (if too_old age now t then (case pool_get_loop age now ch of (r, ev, ch') \<Rightarrow> (r, x # ev, ch'))
      else (Some x, [], ch))"

definition IdlePool_Get :: "int \<Rightarrow> 'a idle_pool \<Rightarrow> ('a option \<times> 'a list) \<times> 'a idle_pool" where
  "IdlePool_Get now p = (case pool_get_loop (ip_age p) now (ip_ch p) of (r, ev, ch) \<Rightarrow> ((r, ev), p\<lparr>ip_ch := ch\<rparr>))"

text \<open>\<open>Put\<close> evicts the element when the channel is full.\<close>

definition IdlePool_Put :: "int \<Rightarrow> 'a \<Rightarrow> 'a idle_pool \<Rightarrow> 'a list \<times> 'a idle_pool" where
  "IdlePool_Put now x p =
     (if length (ip_ch p) < ip_size p then ([], p\<lparr>ip_ch := ip_ch p @ [(x, now)]\<rparr>) else ([x], p))"

definition Snell_NewPool :: "'a idle_pool" where
  "Snell_NewPool = \<lparr>ip_ch = [], ip_size = 10, ip_age = 15000\<rparr>"

text \<open>\<open>Put\<close> of a Snell pool: a connection that cannot be half closed is closed.\<close>

definition SnellPool_Put :: "int \<Rightarrow> u8 list \<Rightarrow> snell \<Rightarrow> snell idle_pool \<Rightarrow> snell list \<times> snell idle_pool" where
  "SnellPool_Put now salt s p =
     (case HalfClose salt s of (Some e, s') \<Rightarrow> ([s'], p) | (None, s') \<Rightarrow> IdlePool_Put now s' p)"

end
