(* ===== verification/SnellProps.thy ===== *)
theory SnellProps
  imports Snell "HOL-Library.Multiset"
begin

text \<open>
  What Snell promises: the answer of the server is taken whatever its records, a connection from the pool skips the end
  of its last use, packets arrive with their addresses, and the pool neither loses nor doubles a connection. The
  theorem on names shows that the address of a long name is not the one that was given.
\<close>

subsection \<open>Answers\<close>

lemma sk_swap [simp]: "sk_Conn_update f (sk_reply_update g s) = sk_reply_update g (sk_Conn_update f s)"
  by simp

lemma sk_full_pending:
  assumes "aead_layer.pending (conn_view (sk_Conn s)) xs" and "conn_ok (sk_Conn s)" and "n \<le> length xs"
  shows "\<exists>c. sk_full n s = Some (Inr (take n xs), s\<lparr>sk_Conn := c\<rparr>) \<and> aead_layer.pending (conn_view c) (drop n xs) \<and> conn_ok c"
  using aead_reader.read_fully_pending [OF assms, of late_eof "sk_Cipher s"] by (auto simp: sk_full_def)

lemma sk_pass_pending:
  assumes "aead_layer.pending (conn_view (sk_Conn s)) xs" and "conn_ok (sk_Conn s)" and "xs \<noteq> []" and "0 < k"
  shows "\<exists>m c. 0 < m \<and> m \<le> length xs \<and> sk_pass k s = Some (Inr (take m xs), s\<lparr>sk_Conn := c\<rparr>) \<and>
    aead_layer.pending (conn_view c) (drop m xs) \<and> conn_ok c"
proof -
  from aead_layer.read_pending [OF assms(1,3,4)] obtain b st where
    b: "buffered_read layer_unframe layer_advance k (conn_view (sk_Conn s)) = Some (b, st)" "b \<noteq> []" "b = take (length b) xs"
      "aead_layer.pending st (drop (length b) xs)" by metis
  from aead_reader.Read_refines [OF assms(2) b(1), of "sk_Cipher s"] obtain c where
    "AeadConn_Read (sk_Cipher s) k (sk_Conn s) = (Inr b, c)" "conn_ok c" "conn_view c = st" by blast
  moreover have "length b \<le> length xs" using b(3) by (metis length_take min.cobounded1)
  ultimately show ?thesis using b(2-4) by (intro exI [of _ "length b"] exI [of _ c]) (simp add: sk_pass_def)
qed

text \<open>The first read takes a tunnel and returns data, or reports the error of the server in full.\<close>

lemma Read_tunnel:
  assumes "aead_layer.pending (conn_view (sk_Conn s)) (0 # data)" and "conn_ok (sk_Conn s)" and "\<not> sk_reply s" and "data \<noteq> []" and "0 < k"
  shows "\<exists>m c. 0 < m \<and> m \<le> length data \<and> Snell_Read k s = Some (Inr (take m data), s\<lparr>sk_Conn := c, sk_reply := True\<rparr>) \<and>
    aead_layer.pending (conn_view c) (drop m data) \<and> conn_ok c"
proof -
  let ?s = "s\<lparr>sk_reply := True\<rparr>"
  from sk_full_pending [of ?s "0 # data" 1] assms(1,2) obtain c where
    c: "sk_full 1 ?s = Some (Inr [0], ?s\<lparr>sk_Conn := c\<rparr>)" "aead_layer.pending (conn_view c) data" "conn_ok c" by auto
  from sk_pass_pending [of "?s\<lparr>sk_Conn := c\<rparr>" data k] c(2,3) assms(4,5) obtain m c' where
    "0 < m" "m \<le> length data" "sk_pass k (?s\<lparr>sk_Conn := c\<rparr>) = Some (Inr (take m data), ?s\<lparr>sk_Conn := c'\<rparr>)"
    "aead_layer.pending (conn_view c') (drop m data)" "conn_ok c'" by auto
  then show ?thesis using assms(3) c(1) by (auto simp: Snell_Read_def sk_bind_def)
qed

lemma Read_error:
  assumes "aead_layer.pending (conn_view (sk_Conn s)) (2 # code # len # msg @ rest)" and "conn_ok (sk_Conn s)" and "\<not> sk_reply s"
    and "length msg = unat len"
  shows "\<exists>s'. Snell_Read k s = Some (Inl (ServerError (unat code) msg), s')"
proof -
  let ?s = "s\<lparr>sk_reply := True\<rparr>"
  from sk_full_pending [of ?s "2 # code # len # msg @ rest" 1] assms(1,2) obtain c1 where
    c1: "sk_full 1 ?s = Some (Inr [2], ?s\<lparr>sk_Conn := c1\<rparr>)" "aead_layer.pending (conn_view c1) (code # len # msg @ rest)" "conn_ok c1" by auto
  from sk_full_pending [of "?s\<lparr>sk_Conn := c1\<rparr>" "code # len # msg @ rest" 1] c1(2,3) obtain c2 where
    c2: "sk_full 1 (?s\<lparr>sk_Conn := c1\<rparr>) = Some (Inr [code], ?s\<lparr>sk_Conn := c2\<rparr>)" "aead_layer.pending (conn_view c2) (len # msg @ rest)" "conn_ok c2"
    by auto
  from sk_full_pending [of "?s\<lparr>sk_Conn := c2\<rparr>" "len # msg @ rest" 1] c2(2,3) obtain c3 where
    c3: "sk_full 1 (?s\<lparr>sk_Conn := c2\<rparr>) = Some (Inr [len], ?s\<lparr>sk_Conn := c3\<rparr>)" "aead_layer.pending (conn_view c3) (msg @ rest)" "conn_ok c3" by auto
  from sk_full_pending [of "?s\<lparr>sk_Conn := c3\<rparr>" "msg @ rest" "unat len"] c3(2,3) assms(4) obtain c4 where
    "sk_full (unat len) (?s\<lparr>sk_Conn := c3\<rparr>) = Some (Inr msg, ?s\<lparr>sk_Conn := c4\<rparr>)" by auto
  then show ?thesis using assms(3) c1(1) c2(1) c3(1) by (simp add: Snell_Read_def sk_bind_def)
qed

text \<open>On a new connection the salt comes first.\<close>

lemma fresh_full:
  assumes "ci_Decrypter (sk_Cipher s) salt = Some A" and "length salt = ci_SaltSize (sk_Cipher s)" and "0 < n"
  shows "sk_full n (s\<lparr>sk_Conn := AeadConn_New (fed (salt @ inp))\<rparr>) = sk_full n (s\<lparr>sk_Conn := started A inp\<rparr>)"
proof -
  have "read_fully late_eof (AeadConn_Read (sk_Cipher s)) n [] (AeadConn_New (fed (salt @ inp))) =
      read_fully late_eof (AeadConn_Read (sk_Cipher s)) n [] (started A inp)"
    using first_read [OF assms(1,2)] assms(3) by (subst (1 2) read_fully.simps) simp
  then show ?thesis by (simp add: sk_full_def)
qed

lemma fresh_Read:
  assumes "ci_Decrypter (sk_Cipher s) salt = Some A" and "length salt = ci_SaltSize (sk_Cipher s)" and "\<not> sk_reply s"
  shows "Snell_Read k (s\<lparr>sk_Conn := AeadConn_New (fed (salt @ inp))\<rparr>) = Snell_Read k (s\<lparr>sk_Conn := started A inp\<rparr>)"
  using fresh_full [of "s\<lparr>sk_reply := True\<rparr>" salt A 1 inp] assms by (simp add: Snell_Read_def sk_bind_def)

text \<open> C38. The server answers with a tunnel and data, or with an error, in any records. The client reads the data in order, the
  first read at least one byte and the later ones all of the rest; or it reports the code and the message.
\<close>

theorem snell_answer:
  assumes "ci_Decrypter C salt = Some A" and "aead_ok A" and "length salt = ci_SaltSize C"
    and "\<forall>p\<in>set ps. p \<noteq> [] \<and> length p \<le> payloadSizeMask" and "0 < k" and "\<forall>k\<in>set ks. 0 < k"
    and "s = \<lparr>sk_Cipher = C, sk_Conn = AeadConn_New (fed (salt @ records layer_frame layer_advance (A, zero_nonce) ps)), sk_reply = False\<rparr>"
  shows "(\<forall>data. concat ps = 0 # data \<and> data \<noteq> [] \<longrightarrow>
      (\<exists>m s' n t. 0 < m \<and> m \<le> length data \<and> Snell_Read k s = Some (Inr (take m data), s') \<and> sk_reply s' \<and>
         reads (AeadConn_Read C) ks (sk_Conn s') = (take n (drop m data), t) \<and> min (length ks) (length data - m) \<le> n)) \<and>
    (\<forall>code len msg. concat ps = 2 # code # len # msg \<and> length msg = unat len \<longrightarrow>
      (\<exists>s'. Snell_Read k s = Some (Inl (ServerError (unat code) msg), s')))"
proof -
  let ?c = "started A (records layer_frame layer_advance (A, zero_nonce) ps)"
  let ?s = "\<lparr>sk_Cipher = C, sk_Conn = ?c, sk_reply = False\<rparr>"
  have rd: "Snell_Read k s = Snell_Read k ?s" using fresh_Read [of ?s salt A] assms(1,3) by (simp add: assms(7))
  note pend = started_pending [OF assms(2,4)]
  show ?thesis
  proof (intro conjI allI impI)
    fix data assume "concat ps = 0 # data \<and> data \<noteq> []"
    with Read_tunnel [of ?s data k] pend started_ok assms(5) obtain m c where
      m: "0 < m" "m \<le> length data" "Snell_Read k ?s = Some (Inr (take m data), ?s\<lparr>sk_Conn := c, sk_reply := True\<rparr>)"
        "aead_layer.pending (conn_view c) (drop m data)" "conn_ok c" by auto
    from aead_reader.reads_all [OF m(4,5) assms(6), of C] obtain n t where
      "reads (AeadConn_Read C) ks c = (take n (drop m data), t)" "min (length ks) (length data - m) \<le> n" by auto
    with m(1-3) rd
    show "\<exists>m s' n t. 0 < m \<and> m \<le> length data \<and> Snell_Read k s = Some (Inr (take m data), s') \<and> sk_reply s' \<and>
         reads (AeadConn_Read C) ks (sk_Conn s') = (take n (drop m data), t) \<and> min (length ks) (length data - m) \<le> n"
      by (intro exI [of _ m] exI [of _ "?s\<lparr>sk_Conn := c, sk_reply := True\<rparr>"] exI [of _ n] exI [of _ t]) auto
  next
    fix code len msg assume "concat ps = 2 # code # len # msg \<and> length msg = unat len"
    with Read_error [of ?s code len msg "[]" k] pend started_ok rd
    show "\<exists>s'. Snell_Read k s = Some (Inl (ServerError (unat code) msg), s')" by auto
  qed
qed

subsection \<open>Connections of the pool\<close>

text \<open>The end signal: a record of length zero in one part.\<close>

lemma read_end_signal:
  assumes "aead_ok A" and "length nonce = 32"
  shows "aead_read A (nonce, \<lparr>c_in = Seal A (take (NonceSize A) nonce) [0, 0] [] @ rest, c_out = w, c_writes = l\<rparr>) =
    (Inl ErrZeroChunk, bump A nonce, \<lparr>c_in = rest, c_out = w, c_writes = l\<rparr>)"
proof -
  have "length (take (NonceSize A) nonce) = NonceSize A" using assms by (simp add: aead_ok_def)
  note o = aead_okD [OF assms(1) this]
  show ?thesis using read_full_append [of "Seal A (take (NonceSize A) nonce) [0, 0] []" "2 + Overhead A"]
    by (simp add: aead_read_def io_bind_def on_conn_def open_next_def o io_fail_def Let_def)
qed

text \<open>
  A connection of which this end closed its half before goes back to the pool and is used again: when the end signal of
  the server comes only then, the read skips it and returns the data of the new use.
\<close>

theorem pool_skips_end:
  assumes "aead_ok A" and "length nonce = 32" and "\<forall>p\<in>set ps. p \<noteq> [] \<and> length p \<le> payloadSizeMask"
    and "concat ps = 0 # data" and "data \<noteq> []" and "0 < k" and "\<not> sk_reply s"
    and "ac_r (sk_Conn s) = Some (A, \<lparr>ar_nonce = nonce, ar_buf = None\<rparr>)"
    and "c_in (ac_Conn (sk_Conn s)) = Seal A (take (NonceSize A) nonce) [0, 0] [] @ records layer_frame layer_advance (A, bump A nonce) ps"
  shows "\<exists>m s'. 0 < m \<and> m \<le> length data \<and> PoolConn_Read k s = Some (Inr (take m data), s') \<and>
    aead_layer.pending (conn_view (sk_Conn s')) (drop m data)"
proof -
  let ?C = "sk_Cipher s" and ?c = "sk_Conn s" and ?inp = "records layer_frame layer_advance (A, bump A nonce) ps"
  let ?c' = "?c\<lparr>ac_Conn := ac_Conn ?c\<lparr>c_in := ?inp\<rparr>, ac_r := Some (A, \<lparr>ar_nonce = bump A nonce, ar_buf = None\<rparr>)\<rparr>"
  obtain w l where conn: "ac_Conn ?c = \<lparr>c_in = Seal A (take (NonceSize A) nonce) [0, 0] [] @ ?inp, c_out = w, c_writes = l\<rparr>"
    using assms(9) by (cases "ac_Conn ?c") simp
  have r: "AeadConn_Read ?C 1 ?c = (Inl ErrZeroChunk, ?c')"
    using read_end_signal [OF assms(1,2), of ?inp w l] assms(8) aead_okD(1) assms(1)
    by (simp add: AeadConn_Read_def io_bind_def AeadReader_Read_def on_reader_def conn payloadSizeMask_def)
  have first: "Snell_Read k s = Some (Inl (SkAead ErrZeroChunk), s\<lparr>sk_Conn := ?c', sk_reply := True\<rparr>)"
    using assms(7) r by (simp add: Snell_Read_def sk_bind_def sk_full_def read_fully.simps)
  have "layer_ok (A, bump A nonce)" using assms(1,2) by (simp add: layer_ok_def length_bump)
  from aead_layer.pending_start [OF this assms(3)] assms(4)
  have "aead_layer.pending (conn_view ?c') (0 # data)" by (simp add: conn_view_def reader_rest_def)
  with Read_tunnel [of "s\<lparr>sk_Conn := ?c', sk_reply := False\<rparr>" data k] assms(5,6) obtain m c2 where
    "0 < m" "m \<le> length data" "Snell_Read k (s\<lparr>sk_Conn := ?c', sk_reply := False\<rparr>) = Some (Inr (take m data), s\<lparr>sk_Conn := c2, sk_reply := True\<rparr>)"
    "aead_layer.pending (conn_view c2) (drop m data)" by (auto simp: conn_ok_def reader_ok_def)
  then show ?thesis using first assms(7) by (auto simp: PoolConn_Read_def)
qed


subsection \<open>Packets\<close>

text \<open>The packets of a server: the version of the address, the address and the payload.\<close>

definition server_packet :: "u8 list \<Rightarrow> u8 list \<Rightarrow> u8 list" where
  "server_packet a p = (if hd a = AtypV4 then 4 else 6) # tl a @ p"

lemma parse_server_packet:
  assumes "ip_addr a = Some u"
  shows "parse_packet k (server_packet a p) = Inr (u, take k p)"
proof -
  have a: "wf_addr a" "Socks_UDPAddr a = Some (Some u)" using assms by (auto simp: ip_addr_def split: option.splits if_splits)
  note sp = SplitAddr_append [OF a(1), of p]
  consider r where "a = AtypV4 # r" "length r = 6" | r where "a = AtypV6 # r" "length r = 18"
    using a by (auto simp: wf_addr_cases Socks_UDPAddr_def)
  then show ?thesis
    by cases (use sp a(2) in \<open>auto simp: parse_packet_def server_packet_def Let_def\<close>)
qed

definition packet_Read :: "ss_cipher \<Rightarrow> nat \<Rightarrow> aead_conn \<Rightarrow> (packet_failure + ((go_ip \<times> nat) \<times> u8 list) list) \<times> aead_conn" where
  "packet_Read C k s =
     (case Snell_ReadPacket (AeadConn_Read C) k s of (Inl e, s') \<Rightarrow> (Inl e, s') | (Inr x, s') \<Rightarrow> (Inr [x], s'))"

lemma packet_reads:
  assumes "layer_ok st" and "conn_ok c" and "conn_view c = (st, [], records layer_frame layer_advance st (map (\<lambda>(a, p). server_packet a p) ps))"
    and "\<forall>(a, p)\<in>set ps. ip_addr a \<noteq> None \<and> length (server_packet a p) \<le> payloadSizeMask" and "length ks = length ps"
  shows "\<exists>c'. reads (packet_Read C) ks c = (map (\<lambda>((a, p), k). (the (ip_addr a), take k p)) (zip ps ks), c')"
  using assms
proof (induction ps arbitrary: st c ks)
  case (Cons x ps)
  obtain a p where x: "x = (a, p)" by (cases x)
  obtain k ks' where ks: "ks = k # ks'" "length ks' = length ps" using Cons.prems(5) by (cases ks) auto
  let ?sp = "server_packet a p" and ?rest = "records layer_frame layer_advance (layer_advance st) (map (\<lambda>(a, p). server_packet a p) ps)"
  obtain u where u: "ip_addr a = Some u" "length ?sp \<le> payloadSizeMask" using Cons.prems(4) by (auto simp: x)
  have "?sp \<noteq> []" by (simp add: server_packet_def)
  from aead_layer.unframe_frame [OF Cons.prems(1) this u(2), of ?rest]
  have "buffered_read layer_unframe layer_advance UDPBufferSize (conn_view c) = Some (?sp, layer_advance st, [], ?rest)"
    using u(2) by (simp add: buffered_read_def Cons.prems(3) x UDPBufferSize_def payloadSizeMask_def)
  from aead_reader.Read_refines [OF Cons.prems(2) this, of C] obtain c1 where
    c1: "AeadConn_Read C UDPBufferSize c = (Inr ?sp, c1)" "conn_ok c1" "conn_view c1 = (layer_advance st, [], ?rest)" by auto
  from Cons.IH [OF aead_layer.ok_advance [OF Cons.prems(1)] c1(2,3) _ ks(2)] Cons.prems(4) obtain c' where
    "reads (packet_Read C) ks' c1 = (map (\<lambda>((a, p), k). (the (ip_addr a), take k p)) (zip ps ks'), c')" by auto
  moreover have "packet_Read C k c = (Inr [(u, take k p)], c1)"
    using c1(1) parse_server_packet [OF u(1)] by (simp add: packet_Read_def Snell_ReadPacket_def)
  ultimately show ?case by (simp add: ks(1) x u(1))
qed simp

text \<open>
  The packets of a server, each in a record, are read one by one, in order, each with its address and as much of its
  payload as the buffer of the read takes.
\<close>

theorem snell_packets:
  assumes "ci_Decrypter C salt = Some A" and "aead_ok A" and "length salt = ci_SaltSize C"
    and "\<forall>(a, p)\<in>set ps. ip_addr a \<noteq> None \<and> length (server_packet a p) \<le> payloadSizeMask" and "length ks = length ps" and "ps \<noteq> []"
  shows "fst (reads (packet_Read C) ks (AeadConn_New (fed (salt @
      records layer_frame layer_advance (A, zero_nonce) (map (\<lambda>(a, p). server_packet a p) ps))))) =
    map (\<lambda>((a, p), k). (the (ip_addr a), take k p)) (zip ps ks)"
proof -
  let ?inp = "records layer_frame layer_advance (A, zero_nonce) (map (\<lambda>(a, p). server_packet a p) ps)"
  obtain k ks' where ks: "ks = k # ks'" using assms(5,6) by (cases ks) auto
  have "reads (packet_Read C) ks (AeadConn_New (fed (salt @ ?inp))) = reads (packet_Read C) ks (started A ?inp)"
    by (simp add: ks packet_Read_def Snell_ReadPacket_def first_read [OF assms(1,3)])
  moreover have "layer_ok (A, zero_nonce)" using assms(2) by (simp add: layer_ok_def zero_nonce_def)
  ultimately show ?thesis using packet_reads [OF _ started_ok started_view assms(4,5), where C = C] by (metis fst_conv)
qed

text \<open>The address of a name of 252 bytes or more is not the one that was given: a panic, or cut off after at most two
  bytes. All shorter names keep theirs.
\<close>

theorem snell_long_names:
  assumes "length r = unat n + 2"
  shows "snell_addr (AtypDomain # n # r) =
    (if unat n < 252 then Some (n # r) else if unat n = 252 then None else Some (take (unat n - 253) (n # r)))"
proof -
  have hi: "unat (4 + n) = (unat n + 4) mod 256"
  proof -
    have "4 + n = of_nat (unat n + 4)" by simp
    then show ?thesis by (simp only: unat_of_nat) simp
  qed
  have lt: "unat n < 256" by (rule u8_less)
  consider "unat n < 252" | "unat n = 252" | "252 < unat n" by linarith
  then show ?thesis
  proof cases
    case 1
    then have "(unat n + 4) mod 256 = unat n + 4" by simp
    then show ?thesis using 1 assms by (simp add: snell_addr_def Let_def hi)
  next
    case 2
    then show ?thesis by (simp add: snell_addr_def Let_def hi)
  next
    case 3
    then have m: "(unat n + 4) mod 256 = unat n - 252" using lt by (simp add: mod_if)
    have "unat n - 252 \<le> unat n + 4" "1 \<le> unat n - 252" "unat n - 252 - 1 = unat n - 253" using 3 by simp_all
    then show ?thesis using 3 assms by (simp add: snell_addr_def Let_def hi m)
  qed
qed

text \<open>
  The limit of a packet is that of a record, but the header comes before the payload: a payload close to the limit is
  torn into two records, of which a server that takes each record as a packet makes two.
\<close>

theorem large_packet_is_torn:
  assumes "pb_ok B" and "snell_addr a = Some addr" and "length payload \<le> snell_maxLength" and "length addr < 300"
    and "payloadSizeMask < Suc (length addr + length payload)" and "ac_w s = Some (A, nonce)" and "c_writes (ac_Conn s) = None"
  shows "\<exists>s' p q. snell_writePacket B (AeadConn_Write C salt) a payload s = Some ((length payload, None), s') \<and>
    c_out (ac_Conn s') = c_out (ac_Conn s) @ aead_record A nonce p @ aead_record A (bump A (bump A nonce)) q \<and>
    p @ q = 1 # addr @ payload \<and> p \<noteq> [] \<and> q \<noteq> []"
proof -
  let ?b = "1 # addr @ payload"
  let ?p = "take payloadSizeMask ?b" and ?q = "drop payloadSizeMask ?b"
  have q: "?q \<noteq> []" "length ?q \<le> payloadSizeMask" using assms(3,4,5) by (auto simp: payloadSizeMask_def snell_maxLength_def)
  have p: "?p \<noteq> []" using payload_pos by simp
  have ps: "pieces payloadSizeMask ?b = [?p, ?q]"
    using pieces_step [of ?b payloadSizeMask] pieces_step [OF q(1) payload_pos] q(2) payload_pos by simp
  obtain i w where c: "ac_Conn s = \<lparr>c_in = i, c_out = w, c_writes = None\<rparr>" using assms(7) by (cases "ac_Conn s") simp
  let ?s = "s\<lparr>ac_Conn := \<lparr>c_in = i, c_out = w @ aead_record A nonce ?p @ aead_record A (bump A (bump A nonce)) ?q, c_writes = None\<rparr>,
        ac_w := Some (A, bump A (bump A (bump A (bump A nonce))))\<rparr>"
  have "AeadWriter_Write A ?b (nonce, \<lparr>c_in = i, c_out = w, c_writes = None\<rparr>) = ((length ?b, None),
      bump A (bump A (bump A (bump A nonce))),
      \<lparr>c_in = i, c_out = w @ aead_record A nonce ?p @ aead_record A (bump A (bump A nonce)) ?q, c_writes = None\<rparr>)"
    using Writer_Write_records [of ?b A nonce i w] unfolding ps by (simp add: layer_frame_def layer_advance_def)
  then have "AeadConn_Write C salt ?b s = ((length ?b, None), ?s)"
    unfolding AeadConn_Write_def using assms(6) by (simp add: c)
  then have "snell_writePacket B (AeadConn_Write C salt) a payload s = Some ((length payload, None), ?s)"
    using assms(2) by (simp add: snell_writePacket_def pb_simps [OF assms(1)])
  moreover have "c_out (ac_Conn ?s) = c_out (ac_Conn s) @ aead_record A nonce ?p @ aead_record A (bump A (bump A nonce)) ?q"
    by (simp add: c)
  moreover have "?p @ ?q = ?b" by (rule append_take_drop_id)
  ultimately show ?thesis using p q(1) by blast
qed

subsection \<open>The pool\<close>

datatype 'a idle_event = PoolGet int | PoolPut int 'a

text \<open>A sequence of calls, with what was handed out and what was evicted.\<close>

fun idle_run :: "'a idle_event list \<Rightarrow> 'a idle_pool \<Rightarrow> ('a list \<times> 'a list) \<times> 'a idle_pool" where
  "idle_run [] p = (([], []), p)"
| "idle_run (PoolGet now # es) p =
     (case IdlePool_Get now p of ((r, ev), p1) \<Rightarrow>
      case idle_run es p1 of ((got, evs), p2) \<Rightarrow> ((case r of None \<Rightarrow> got | Some x \<Rightarrow> x # got, ev @ evs), p2))"
| "idle_run (PoolPut now x # es) p =
     (case IdlePool_Put now x p of (ev, p1) \<Rightarrow> case idle_run es p1 of ((got, evs), p2) \<Rightarrow> ((got, ev @ evs), p2))"

fun pool_puts :: "'a idle_event list \<Rightarrow> 'a list" where
  "pool_puts [] = []"
| "pool_puts (PoolGet now # es) = pool_puts es"
| "pool_puts (PoolPut now x # es) = x # pool_puts es"

lemma pool_get_loop_parts:
  "pool_get_loop age now ch = (r, ev, ch') \<Longrightarrow>
     mset (map fst ch) = mset ev + mset (case r of None \<Rightarrow> [] | Some x \<Rightarrow> [x]) + mset (map fst ch') \<and>
     length ch' \<le> length ch \<and> (\<forall>x. r = Some x \<longrightarrow> (\<exists>t. (x, t) \<in> set ch \<and> \<not> too_old age now t)) \<and> (r = None \<longrightarrow> ch' = [])"
proof (induction age now ch arbitrary: r ev ch' rule: pool_get_loop.induct)
  case (2 age now x t ch)
  show ?case
  proof (cases "too_old age now t")
    case True
    obtain r1 ev1 ch1 where g: "pool_get_loop age now ch = (r1, ev1, ch1)" by (metis prod_cases3)
    with "2.prems" True have "r1 = r" "ev = x # ev1" "ch1 = ch'" by simp_all
    with "2.IH" [OF True, of r1 ev1 ch1] g show ?thesis by auto
  qed (use "2.prems" in auto)
qed simp

text \<open> C39. Every connection that is put into the pool is waiting in it, was handed out once, or was evicted once, whatever the
  calls and their times; at most as many wait as the pool holds, and none is handed out after its age.
\<close>

theorem pool_conserves:
  assumes "length (ip_ch p) \<le> ip_size p" and "idle_run es p = ((got, evs), p')"
  shows "mset got + mset evs + mset (map fst (ip_ch p')) = mset (pool_puts es) + mset (map fst (ip_ch p)) \<and>
    length (ip_ch p') \<le> ip_size p' \<and> ip_size p' = ip_size p \<and>
    (\<forall>now x ev q. IdlePool_Get now p' = ((Some x, ev), q) \<longrightarrow> (\<exists>t. (x, t) \<in> set (ip_ch p') \<and> \<not> too_old (ip_age p') now t))"
proof -
  have "mset got + mset evs + mset (map fst (ip_ch p')) = mset (pool_puts es) + mset (map fst (ip_ch p)) \<and>
      length (ip_ch p') \<le> ip_size p' \<and> ip_size p' = ip_size p"
    using assms
  proof (induction es arbitrary: p got evs)
    case (Cons e es)
    show ?case
    proof (cases e)
      case (PoolGet now)
      obtain r ev ch where g: "pool_get_loop (ip_age p) now (ip_ch p) = (r, ev, ch)" by (metis prod_cases3)
      note parts = pool_get_loop_parts [OF g]
      obtain got1 evs1 where run: "idle_run es (p\<lparr>ip_ch := ch\<rparr>) = ((got1, evs1), p')"
        using Cons.prems(2) g by (auto simp: PoolGet IdlePool_Get_def split: prod.splits)
      have "length (ip_ch (p\<lparr>ip_ch := ch\<rparr>)) \<le> ip_size (p\<lparr>ip_ch := ch\<rparr>)" using parts Cons.prems(1) by simp
      from Cons.IH [OF this run] parts Cons.prems(2) run g show ?thesis
        by (auto simp: PoolGet IdlePool_Get_def add.assoc split: option.splits)
    next
      case (PoolPut now x)
      obtain ev p1 where put: "IdlePool_Put now x p = (ev, p1)" by (metis prod.collapse)
      obtain got1 evs1 where run: "idle_run es p1 = ((got1, evs1), p')" "got = got1" "evs = ev @ evs1"
        using Cons.prems(2) put by (auto simp: PoolPut split: prod.splits)
      have "length (ip_ch p1) \<le> ip_size p1 \<and> ip_size p1 = ip_size p \<and>
          mset ev + mset (map fst (ip_ch p1)) = add_mset x (mset (map fst (ip_ch p)))"
        using put Cons.prems(1) by (auto simp: IdlePool_Put_def split: if_splits)
      with Cons.IH [OF _ run(1)] show ?thesis by (auto simp: PoolPut run(2,3) add.commute add.left_commute)
    qed
  qed simp
  moreover have "\<exists>t. (x, t) \<in> set (ip_ch p') \<and> \<not> too_old (ip_age p') now t" if "IdlePool_Get now p' = ((Some x, ev), q)" for now x ev q
    using that pool_get_loop_parts [of "ip_age p'" now "ip_ch p'" "Some x"] by (auto simp: IdlePool_Get_def split: prod.splits)
  ultimately show ?thesis by blast
qed


subsection \<open>Examples\<close>

theorem snell_answer_witness:
  "\<exists>m s' n t. 0 < m \<and> m \<le> 2 \<and>
    Snell_Read 1 \<lparr>sk_Cipher = demo_cipher, sk_Conn = AeadConn_New (fed (replicate 16 9 @
      records layer_frame layer_advance (demo_aead, zero_nonce) [[0, 5], [6]])), sk_reply = False\<rparr> = Some (Inr (take m [5, 6]), s') \<and>
    reads (AeadConn_Read demo_cipher) [1, 1] (sk_Conn s') = (take n (drop m [5, 6]), t)"
proof -
  note ans = snell_answer [of demo_cipher "replicate 16 9" demo_aead "[[0, 5], [6]]" 1 "[1, 1]" _, OF _ demo_aead_ok _ _ _ _ refl]
  have "\<exists>m s' n t. 0 < m \<and> m \<le> length [5, 6 :: u8] \<and>
    Snell_Read 1 \<lparr>sk_Cipher = demo_cipher, sk_Conn = AeadConn_New (fed (replicate 16 9 @
      records layer_frame layer_advance (demo_aead, zero_nonce) [[0, 5], [6]])), sk_reply = False\<rparr> = Some (Inr (take m [5, 6]), s') \<and> sk_reply s' \<and>
    reads (AeadConn_Read demo_cipher) [1, 1] (sk_Conn s') = (take n (drop m [5, 6]), t) \<and> min (length [1, 1 :: nat]) (length [5, 6 :: u8] - m) \<le> n"
    by (rule ans [THEN conjunct1, rule_format]) (auto simp: demo_cipher_simps payloadSizeMask_def)
  then show ?thesis by (metis One_nat_def Suc_1 list.size(3) list.size(4) add.right_neutral add_Suc_right)
qed

theorem pool_skips_end_witness:
  "\<exists>m s'. 0 < m \<and> m \<le> length [5 :: u8] \<and>
    PoolConn_Read 1 \<lparr>sk_Cipher = demo_cipher, sk_Conn = started demo_aead (Seal demo_aead (take (NonceSize demo_aead) zero_nonce) [0, 0] [] @
      records layer_frame layer_advance (demo_aead, bump demo_aead zero_nonce) [[0, 5]]), sk_reply = False\<rparr> = Some (Inr (take m [5]), s') \<and>
    aead_layer.pending (conn_view (sk_Conn s')) (drop m [5])"
proof (rule pool_skips_end [where ps = "[[0, 5]]" and nonce = zero_nonce, OF demo_aead_ok])
  show "length zero_nonce = 32" by (simp add: zero_nonce_def)
qed (simp_all add: payloadSizeMask_def started_def fed_def)

theorem snell_packets_witness:
  "fst (reads (packet_Read demo_cipher) [100, 1] (AeadConn_New (fed (replicate 16 9 @
      records layer_frame layer_advance (demo_aead, zero_nonce) (map (\<lambda>(a, p). server_packet a p)
        [([1, 10, 0, 0, 1, 0, 53], [7, 8]), ([1, 10, 0, 0, 2, 0, 53], [9, 9])]))))) =
    [(([10, 0, 0, 1], 53), [7, 8]), (([10, 0, 0, 2], 53), [9])]"
proof -
  have a: "ip_addr [1, 10, 0, 0, x, 0, 53] = Some ([10, 0, 0, x], 53)" for x
    by (simp add: ip_addr_def Socks_UDPAddr_def udp_ip_def AtypV4_def AtypV6_def wf_addr_def SplitAddr_def AtypDomain_def of_be16_def)
  show ?thesis
    by (subst snell_packets [OF _ demo_aead_ok]) (simp_all add: demo_cipher_simps a server_packet_def payloadSizeMask_def)
qed

theorem snell_long_names_witness: "snell_addr (AtypDomain # 253 # replicate 255 97) = Some []"
  using snell_long_names [of "replicate 255 97" 253] by simp

theorem large_packet_is_torn_witness:
  "\<exists>s' p q. snell_writePacket demo_pb (AeadConn_Write demo_cipher []) [1, 10, 0, 0, 1, 0, 53] (replicate 16383 0)
      \<lparr>ac_Conn = fed [], ac_r = None, ac_w = Some (demo_aead, zero_nonce)\<rparr> = Some ((length (replicate 16383 (0 :: u8)), None), s') \<and>
    c_out (ac_Conn s') = c_out (ac_Conn \<lparr>ac_Conn = fed [], ac_r = None, ac_w = Some (demo_aead, zero_nonce)\<rparr>) @
      aead_record demo_aead zero_nonce p @ aead_record demo_aead (bump demo_aead (bump demo_aead zero_nonce)) q \<and>
    p @ q = 1 # [0, 4, 10, 0, 0, 1, 0, 53] @ replicate 16383 0 \<and> p \<noteq> [] \<and> q \<noteq> []"
  by (rule large_packet_is_torn [OF demo_pb_ok])
    (simp_all add: snell_addr_def Let_def AtypV4_def AtypDomain_def snell_maxLength_def payloadSizeMask_def fed_def)

theorem pool_conserves_witness:
  "\<exists>got evs p'. idle_run [PoolPut 0 (1 :: nat), PoolPut 5 2, PoolGet 7, PoolGet 20000000000] Snell_NewPool = ((got, evs), p') \<and>
    mset got + mset evs + mset (map fst (ip_ch p')) = mset [1, 2]"
proof -
  obtain got evs p' where run: "idle_run [PoolPut 0 (1 :: nat), PoolPut 5 2, PoolGet 7, PoolGet 20000000000] Snell_NewPool = ((got, evs), p')"
    by (metis prod.collapse)
  from pool_conserves [OF _ run] run show ?thesis by (simp add: Snell_NewPool_def)
qed

end
