(* ===== verification/SimpleObfs.thy ===== *)
theory SimpleObfs
  imports AeadProps
begin

text \<open>
  The disguises of a Shadowsocks stream (\<open>src/pkg/clash/transport/simple-obfs/\<close>): \<open>tls.go\<close>, a stream that looks
  like TLS, and \<open>http.go\<close>, one that begins like an HTTP upgrade. The text of the HTTP request comes from the
  standard library and is a parameter; the random bytes and the time of a handshake are arguments.
\<close>

subsection \<open>TLS (tls.go)\<close>

definition obfs_chunkSize :: nat where "obfs_chunkSize = 16384"

record tls_obfs =
  to_Conn :: io_conn
  to_server :: string
  to_remain :: nat
  to_firstRequest :: bool
  to_firstResponse :: bool

definition NewTLSObfs :: "io_conn \<Rightarrow> string \<Rightarrow> tls_obfs" where
  "NewTLSObfs c server = \<lparr>to_Conn = c, to_server = server, to_remain = 0, to_firstRequest = True, to_firstResponse = True\<rparr>"

text \<open>The head of a record is skipped; an error of its size is dropped.\<close>

definition tls_read :: "nat \<Rightarrow> nat \<Rightarrow> nat \<Rightarrow> tls_obfs \<Rightarrow> read_result \<times> tls_obfs" where
  "tls_read avail k discardN s =
     (case ReadFull discardN (to_Conn s) of
        (Inl e, c) \<Rightarrow> (([], Some e), s\<lparr>to_Conn := c\<rparr>)
      | (Inr _, c) \<Rightarrow>
          (case ReadFull 2 c of
             (Inl e, c) \<Rightarrow> (([], None), s\<lparr>to_Conn := c\<rparr>)
           | (Inr sz, c) \<Rightarrow>
               let len = of_be16 (sz ! 0) (sz ! 1) in
               if k < len then
                 (case conn_Read avail k c of
                    (Inl e, c) \<Rightarrow> (([], Some e), s\<lparr>to_Conn := c\<rparr>)
                  | (Inr b, c) \<Rightarrow> ((b, None), s\<lparr>to_Conn := c, to_remain := len - length b\<rparr>))
               else (case full_read len c of (r, c) \<Rightarrow> (r, s\<lparr>to_Conn := c\<rparr>))))"

definition TLSObfs_Read :: "nat \<Rightarrow> nat \<Rightarrow> tls_obfs \<Rightarrow> read_result \<times> tls_obfs" where
  "TLSObfs_Read avail k s =
     (if 0 < to_remain s then
        (case full_read (min (to_remain s) k) (to_Conn s) of
           ((b, e), c) \<Rightarrow> ((b, e), s\<lparr>to_Conn := c, to_remain := to_remain s - length b\<rparr>))
      else if to_firstResponse s then tls_read avail k 105 (s\<lparr>to_firstResponse := False\<rparr>)
      else tls_read avail k 3 s)"

text \<open>The handshake of the first write, the data in the place of a session ticket.\<close>

definition cipher_suites :: "u8 list" where
  "cipher_suites =
     [0xc0, 0x2c, 0xc0, 0x30, 0x00, 0x9f, 0xcc, 0xa9, 0xcc, 0xa8, 0xcc, 0xaa, 0xc0, 0x2b, 0xc0, 0x2f,
      0x00, 0x9e, 0xc0, 0x24, 0xc0, 0x28, 0x00, 0x6b, 0xc0, 0x23, 0xc0, 0x27, 0x00, 0x67, 0xc0, 0x0a,
      0xc0, 0x14, 0x00, 0x39, 0xc0, 0x09, 0xc0, 0x13, 0x00, 0x33, 0x00, 0x9d, 0x00, 0x9c, 0x00, 0x3d,
      0x00, 0x3c, 0x00, 0x35, 0x00, 0x2f, 0x00, 0xff]"

definition signature_ext :: "u8 list" where
  "signature_ext =
     [0x00, 0x0d, 0x00, 0x20, 0x00, 0x1e, 0x06, 0x01, 0x06, 0x02, 0x06, 0x03, 0x05,
      0x01, 0x05, 0x02, 0x05, 0x03, 0x04, 0x01, 0x04, 0x02, 0x04, 0x03, 0x03, 0x01,
      0x03, 0x02, 0x03, 0x03, 0x02, 0x01, 0x02, 0x02, 0x02, 0x03]"

record hello_rand =
  hr_time :: u32
  hr_random :: "u8 list"
  hr_session :: "u8 list"

definition makeClientHelloMsg :: "protobytes \<Rightarrow> hello_rand \<Rightarrow> u8 list \<Rightarrow> string \<Rightarrow> u8 list" where
  "makeClientHelloMsg B R data server =
     (let d = length data; n = length server; w = PutUint8 B [] 22; w = PutSlice B w [3, 1];
          w = PutUint16be B w (of_nat (212 + d + n)); w = PutUint8 B w 1; w = PutUint8 B w 0;
          w = PutUint16be B w (of_nat (208 + d + n)); w = PutSlice B w [3, 3];
          w = PutUint32be B w (hr_time R); w = PutSlice B w (hr_random R); w = PutUint8 B w 32;
          w = PutSlice B w (hr_session R); w = PutSlice B w [0, 0x38]; w = PutSlice B w cipher_suites;
          w = PutSlice B w [1, 0]; w = PutUint16be B w (of_nat (79 + d + n));
          w = PutSlice B w [0, 0x23]; w = PutUint16be B w (of_nat d); w = PutSlice B w data;
          w = PutSlice B w [0, 0]; w = PutUint16be B w (of_nat (n + 5)); w = PutUint16be B w (of_nat (n + 3));
          w = PutUint8 B w 0; w = PutUint16be B w (of_nat n); w = PutSlice B w (bytes_of server);
          w = PutSlice B w [0, 0x0b, 0, 4, 3, 1, 0, 2];
          w = PutSlice B w [0, 0x0a, 0, 0x0a, 0, 8, 0, 0x1d, 0, 0x17, 0, 0x19, 0, 0x18];
          w = PutSlice B w signature_ext; w = PutSlice B w [0, 0x16, 0, 0] in
      PutSlice B w [0, 0x17, 0, 0])"

text \<open>A chunk is counted in full also when its write fails.\<close>

definition tls_write :: "protobytes \<Rightarrow> hello_rand \<Rightarrow> u8 list \<Rightarrow> tls_obfs \<Rightarrow> write_result \<times> tls_obfs" where
  "tls_write B R b s =
     (if to_firstRequest s then
        (case conn_Write (makeClientHelloMsg B R b (to_server s)) (to_Conn s) of
           (r, c) \<Rightarrow> ((length b, case r of Inl e \<Rightarrow> Some e | Inr _ \<Rightarrow> None), s\<lparr>to_Conn := c, to_firstRequest := False\<rparr>))
      else
        (case conn_Write (PutSlice B (PutUint16be B (PutSlice B [] [0x17, 3, 3]) (of_nat (length b))) b) (to_Conn s) of
           (r, c) \<Rightarrow> ((length b, case r of Inl e \<Rightarrow> Some e | Inr _ \<Rightarrow> None), s\<lparr>to_Conn := c\<rparr>)))"

function tls_write_loop :: "protobytes \<Rightarrow> hello_rand \<Rightarrow> nat \<Rightarrow> u8 list \<Rightarrow> tls_obfs \<Rightarrow> write_result \<times> tls_obfs" where
  "tls_write_loop B R count rest s =
     (if rest = [] then ((count, None), s)
      else
        (case tls_write B R (take obfs_chunkSize rest) s of
           ((n, Some e), s') \<Rightarrow> ((n, Some e), s')
         | ((n, None), s') \<Rightarrow> tls_write_loop B R count (drop obfs_chunkSize rest) s'))"
  by pat_completeness auto
termination
  by (relation "measure (\<lambda>(B, R, count, rest, s). length rest)") (auto simp: obfs_chunkSize_def)

declare tls_write_loop.simps [simp del]

definition TLSObfs_Write :: "protobytes \<Rightarrow> hello_rand \<Rightarrow> u8 list \<Rightarrow> tls_obfs \<Rightarrow> write_result \<times> tls_obfs" where
  "TLSObfs_Write B R b s = tls_write_loop B R (length b) b s"

subsection \<open>HTTP (http.go)\<close>

record http_obfs =
  ho_Conn :: io_conn
  ho_host :: string
  ho_port :: string
  ho_buf :: "(u8 list \<times> nat) option"
  ho_firstRequest :: bool
  ho_firstResponse :: bool

definition NewHTTPObfs :: "io_conn \<Rightarrow> string \<Rightarrow> string \<Rightarrow> http_obfs" where
  "NewHTTPObfs c host port =
     \<lparr>ho_Conn = c, ho_host = host, ho_port = port, ho_buf = None, ho_firstRequest = True, ho_firstResponse = True\<rparr>"

definition header_end :: "u8 list" where "header_end = [13, 10, 13, 10]"

text \<open>\<open>bytes.Index\<close>.\<close>

fun bytes_Index :: "u8 list \<Rightarrow> u8 list \<Rightarrow> nat option" where
  "bytes_Index [] p = (if p = [] then Some 0 else None)"
| "bytes_Index (x # xs) p = (if take (length p) (x # xs) = p then Some 0 else map_option Suc (bytes_Index xs p))"

definition relayBuffer :: nat where "relayBuffer = 20 * 1024"

definition HTTPObfs_Read :: "nat \<Rightarrow> nat \<Rightarrow> (http_obfs, io_error, u8 list) comp" where
  "HTTPObfs_Read avail k s =
     (case ho_buf s of
        Some (buf, off) \<Rightarrow>
          let out = take k (drop off buf); off' = off + length out in
          (Inr out, s\<lparr>ho_buf := (if off' = length buf then None else Some (buf, off'))\<rparr>)
      | None \<Rightarrow>
          if ho_firstResponse s then
            (case conn_Read avail relayBuffer (ho_Conn s) of
               (Inl e, c) \<Rightarrow> (Inl e, s\<lparr>ho_Conn := c\<rparr>)
             | (Inr buf, c) \<Rightarrow>
                 (case bytes_Index buf header_end of
                    None \<Rightarrow> (Inl EOF, s\<lparr>ho_Conn := c\<rparr>)
                  | Some idx \<Rightarrow>
                      let len = length buf - (idx + 4); out = take k (drop (idx + 4) buf); n = length out in
                      (Inr out, s\<lparr>ho_Conn := c, ho_firstResponse := False,
                         ho_buf := (if n < len then Some (take (idx + 4 + len) buf, idx + 4 + n) else None)\<rparr>)))
          else (case conn_Read avail k (ho_Conn s) of (r, c) \<Rightarrow> (r, s\<lparr>ho_Conn := c\<rparr>)))"

text \<open>\<open>text host port n\<close> is the head of the request for a body of \<open>n\<close> bytes.\<close>

definition HTTPObfs_Write :: "(string \<Rightarrow> string \<Rightarrow> nat \<Rightarrow> u8 list) \<Rightarrow> u8 list \<Rightarrow> http_obfs \<Rightarrow> write_result \<times> http_obfs" where
  "HTTPObfs_Write request b s =
     (if ho_firstRequest s then
        (case conn_Write (request (ho_host s) (ho_port s) (length b) @ b) (ho_Conn s) of
           (r, c) \<Rightarrow> ((length b, case r of Inl e \<Rightarrow> Some e | Inr _ \<Rightarrow> None), s\<lparr>ho_Conn := c, ho_firstRequest := False\<rparr>))
      else
        (case conn_Write b (ho_Conn s) of
           (Inl e, c) \<Rightarrow> ((0, Some e), s\<lparr>ho_Conn := c\<rparr>) | (Inr _, c) \<Rightarrow> ((length b, None), s\<lparr>ho_Conn := c\<rparr>)))"

end
