(* ===== verification/ObfsProps.thy ===== *)
theory ObfsProps
  imports SimpleObfs
begin

text \<open>
  What the disguises promise: a server that takes them off finds the data of the client, and the client reads the data of
  the server. Two theorems show where a read loses the error of the connection, or the connection itself.
\<close>

subsection \<open>The handshake\<close>

definition hello_rand_ok :: "hello_rand \<Rightarrow> bool" where
  "hello_rand_ok R \<longleftrightarrow> length (hr_random R) = 28 \<and> length (hr_session R) = 32"

text \<open>The fixed part of a handshake up to the session ticket.\<close>

definition hello_head :: "hello_rand \<Rightarrow> nat \<Rightarrow> u8 list" where
  "hello_head R n =
     [22, 3, 1] @ be16 (of_nat (212 + n)) @ [1, 0] @ be16 (of_nat (208 + n)) @ [3, 3] @ bytes_of_u32 (hr_time R) @ hr_random R @
     [32] @ hr_session R @ [0, 0x38] @ cipher_suites @ [1, 0] @ be16 (of_nat (79 + n)) @ [0, 0x23]"

definition hello_tail :: "string \<Rightarrow> u8 list" where
  "hello_tail server =
     [0, 0] @ be16 (of_nat (length server + 5)) @ be16 (of_nat (length server + 3)) @ [0] @ be16 (of_nat (length server)) @
     bytes_of server @ [0, 0x0b, 0, 4, 3, 1, 0, 2] @ [0, 0x0a, 0, 0x0a, 0, 8, 0, 0x1d, 0, 0x17, 0, 0x19, 0, 0x18] @
     signature_ext @ [0, 0x16, 0, 0] @ [0, 0x17, 0, 0]"

lemma hello_parts:
  assumes "pb_ok B"
  shows "makeClientHelloMsg B R data server =
    hello_head R (length data + length server) @ be16 (of_nat (length data)) @ data @ hello_tail server"
  by (simp add: makeClientHelloMsg_def pb_simps [OF assms] Let_def hello_head_def hello_tail_def add.assoc)

lemma length_hello_head: "hello_rand_ok R \<Longrightarrow> length (hello_head R n) = 140"
  by (simp add: hello_head_def hello_rand_ok_def cipher_suites_def)

lemma length_hello_tail: "length (hello_tail server) = 75 + length server"
  by (simp add: hello_tail_def signature_ext_def)

lemma field_at:
  assumes "length pre = i" and "n < 65536" and "h = pre @ be16 (of_nat n) @ post"
  shows "of_be16 (h ! i) (h ! Suc i) = n"
proof -
  have "h ! i = be16 (of_nat n) ! 0" "h ! Suc i = be16 (of_nat n) ! Suc 0"
    using assms(1) by (auto simp: assms(3) nth_append)
  then show ?thesis using of_be16_of_nat [OF assms(2)] by simp
qed

lemma hello_wf:
  assumes "pb_ok B" and "hello_rand_ok R" and "length data + length server < 65000" and "h = makeClientHelloMsg B R data server"
  shows "of_be16 (h ! 3) (h ! 4) = length h - 5 \<and> of_be16 (h ! 7) (h ! 8) = length h - 9 \<and>
    of_be16 (h ! 136) (h ! 137) = length h - 138 \<and> of_be16 (h ! 140) (h ! 141) = length data \<and>
    take (length data) (drop 142 h) = data"
proof -
  let ?n = "length data + length server"
  have p: "h = hello_head R ?n @ be16 (of_nat (length data)) @ data @ hello_tail server"
    using hello_parts [OF assms(1)] assms(4) by simp
  note l = length_hello_head [OF assms(2)]
  have len: "length h = 217 + ?n" by (simp add: p l length_hello_tail)
  let ?rest = "[3, 3] @ bytes_of_u32 (hr_time R) @ hr_random R @ [32] @ hr_session R @ [0, 0x38] @ cipher_suites @ [1, 0]"
  have lrest: "length ?rest = 127" using assms(2) by (simp add: hello_rand_ok_def cipher_suites_def)
  let ?ext = "be16 (of_nat (79 + ?n)) @ [0, 0x23]" and ?more = "be16 (of_nat (length data)) @ data @ hello_tail server"
  have 1: "h = [22, 3, 1] @ be16 (of_nat (212 + ?n)) @ [1, 0] @ be16 (of_nat (208 + ?n)) @ ?rest @ ?ext @ ?more"
    unfolding p hello_head_def append_assoc ..
  then have 2: "h = ([22, 3, 1] @ be16 (of_nat (212 + ?n)) @ [1, 0]) @ be16 (of_nat (208 + ?n)) @ ?rest @ ?ext @ ?more"
    and 3: "h = ([22, 3, 1] @ be16 (of_nat (212 + ?n)) @ [1, 0] @ be16 (of_nat (208 + ?n)) @ ?rest) @ be16 (of_nat (79 + ?n)) @ [0, 0x23] @ ?more"
    by (simp_all only: append_assoc)
  have "of_be16 (h ! 3) (h ! Suc 3) = 212 + ?n" by (rule field_at [OF _ _ 1]) (use assms(3) in simp_all)
  moreover have "of_be16 (h ! 7) (h ! Suc 7) = 208 + ?n" by (rule field_at [OF _ _ 2]) (use assms(3) in simp_all)
  moreover have "of_be16 (h ! 136) (h ! Suc 136) = 79 + ?n"
    by (rule field_at [OF _ _ 3]) (use assms(3) lrest in \<open>simp_all only: length_append length_be16, simp_all\<close>)
  moreover have "of_be16 (h ! 140) (h ! Suc 140) = length data" by (rule field_at [OF l _ p]) (use assms(3) in simp)
  moreover have "take (length data) (drop 142 h) = data" by (simp add: p l)
  ultimately show ?thesis unfolding len by simp
qed

text \<open>
  The lengths in a handshake are those of the record, of the message and of its extensions, and the data is in the
  session ticket.
\<close>

theorem hello_well_formed:
  assumes "pb_ok B" and "hello_rand_ok R" and "length data + length server < 65000" and "h = makeClientHelloMsg B R data server"
  shows "of_be16 (h ! 3) (h ! 4) = length h - 5 \<and> of_be16 (h ! 7) (h ! 8) = length h - 9 \<and>
    of_be16 (h ! 136) (h ! 137) = length h - 138 \<and> of_be16 (h ! 140) (h ! 141) = length data \<and>
    take (length data) (drop 142 h) = data"
  by (rule hello_wf [OF assms])

subsection \<open>Writing\<close>

text \<open>What a server makes of the stream of a client: the ticket of the handshake, and the records after it.\<close>

function server_records :: "u8 list \<Rightarrow> u8 list" where
  "server_records bs =
     (if length bs < 5 then []
      else let n = of_be16 (bs ! 3) (bs ! 4) in take n (drop 5 bs) @ server_records (drop (5 + n) bs))"
  by pat_completeness auto
termination
  by (relation "measure length") auto

declare server_records.simps [simp del]

definition server_data :: "u8 list \<Rightarrow> u8 list" where
  "server_data bs =
     take (of_be16 (bs ! 140) (bs ! 141)) (drop 142 bs) @ server_records (drop (5 + of_be16 (bs ! 3) (bs ! 4)) bs)"

definition tls_record :: "u8 list \<Rightarrow> u8 list" where
  "tls_record p = [0x17, 3, 3] @ be16 (of_nat (length p)) @ p"

lemma server_records_Nil [simp]: "server_records [] = []"
  by (simp add: server_records.simps)

lemma server_records_record:
  assumes "length p < 65536"
  shows "server_records (tls_record p @ rest) = p @ server_records rest"
proof -
  let ?bs = "tls_record p @ rest"
  have "?bs = [0x17, 3, 3] @ be16 (of_nat (length p)) @ p @ rest" by (simp add: tls_record_def)
  from field_at [OF _ assms this, of 3] have "of_be16 (?bs ! 3) (?bs ! 4) = length p" by simp
  moreover have "length (tls_record p) = 5 + length p" by (simp add: tls_record_def)
  moreover have "drop 5 ?bs = p @ rest" by (simp add: tls_record_def)
  ultimately show ?thesis by (subst server_records.simps) (simp add: Let_def)
qed

lemma tls_swap [simp]: "to_Conn_update f (to_firstRequest_update g s) = to_firstRequest_update g (to_Conn_update f s)"
  by simp

lemma tls_write_rest:
  assumes "pb_ok B"
  shows "\<not> to_firstRequest s \<Longrightarrow> to_Conn s = \<lparr>c_in = i, c_out = w, c_writes = None\<rparr> \<Longrightarrow>
    tls_write_loop B R n p s = ((n, None), s\<lparr>to_Conn := \<lparr>c_in = i, c_out = w @ concat (map tls_record (pieces obfs_chunkSize p)), c_writes = None\<rparr>\<rparr>)"
proof (induction "length p" arbitrary: p s w rule: less_induct)
  case less
  show ?case
  proof (cases "p = []")
    case True
    then show ?thesis using less.prems by (cases s) (simp add: tls_write_loop.simps)
  next
    case False
    note step = pieces_step [OF False, of obfs_chunkSize]
    let ?s = "s\<lparr>to_Conn := \<lparr>c_in = i, c_out = w @ tls_record (take obfs_chunkSize p), c_writes = None\<rparr>\<rparr>"
    have w: "tls_write B R (take obfs_chunkSize p) s = ((length (take obfs_chunkSize p), None), ?s)"
      using less.prems by (simp add: tls_write_def pb_simps [OF assms] tls_record_def)
    have "length (drop obfs_chunkSize p) < length p" using False by (simp add: obfs_chunkSize_def)
    from less.hyps [OF this, of ?s] less.prems(1) w step False show ?thesis
      by (subst tls_write_loop.simps) (simp add: obfs_chunkSize_def)
  qed
qed

text \<open>However the client writes, a server that takes the handshake and the records apart has exactly its data.\<close>

theorem tls_obfs_sends:
  assumes "pb_ok B" and "hello_rand_ok R" and "length (to_server s) < 256" and "to_firstRequest s" and "\<forall>b\<in>set bs. b \<noteq> []" and "bs \<noteq> []"
    and "to_Conn s = fed []"
  shows "\<exists>s'. writes (TLSObfs_Write B R) bs s = Some (map length bs, s') \<and> server_data (c_out (to_Conn s')) = concat bs"
proof -
  obtain b0 bs' where bs: "bs = b0 # bs'" using assms(6) by (cases bs) auto
  have "b0 \<noteq> []" using assms(5) by (simp add: bs)
  note step = pieces_step [OF this, of obfs_chunkSize]
  let ?p = "take obfs_chunkSize b0" and ?qs = "pieces obfs_chunkSize (drop obfs_chunkSize b0)"
  let ?h = "makeClientHelloMsg B R ?p (to_server s)"
  let ?mk = "\<lambda>_ out. s\<lparr>to_Conn := \<lparr>c_in = [], c_out = out, c_writes = None\<rparr>, to_firstRequest := False\<rparr>"
  have first: "TLSObfs_Write B R b0 s = ((length b0, None), ?mk () (?h @ concat (map tls_record ?qs)))"
  proof -
    have "tls_write B R ?p s = ((length ?p, None), ?mk () ?h)" using assms(4,7) by (simp add: tls_write_def fed_def)
    moreover have "tls_write_loop B R (length b0) (drop obfs_chunkSize b0) (?mk () ?h) = ((length b0, None), ?mk () (?h @ concat (map tls_record ?qs)))"
      by (subst tls_write_rest [OF assms(1)]) simp_all
    ultimately show ?thesis using \<open>b0 \<noteq> []\<close> unfolding TLSObfs_Write_def by (subst tls_write_loop.simps) simp
  qed
  have rec: "concat (map tls_record ps) = records (\<lambda>_. tls_record) (\<lambda>_. ()) () ps" for ps by (induction ps) simp_all
  have "TLSObfs_Write B R b (?mk u out) = ((length b, None), ?mk (advanced (\<lambda>_. ()) u (pieces obfs_chunkSize b))
      (out @ records (\<lambda>_. tls_record) (\<lambda>_. ()) u (pieces obfs_chunkSize b)))" for b u out
    unfolding TLSObfs_Write_def by (subst tls_write_rest [OF assms(1)]) (simp_all add: rec)
  from writes_records [where P = "\<lambda>_. True" and mk = ?mk and s = "()" and bs = bs' and out = "?h @ concat (map tls_record ?qs)", OF TrueI TrueI this]
  have rest: "writes (TLSObfs_Write B R) bs' (?mk () (?h @ concat (map tls_record ?qs))) = Some (map length bs',
      ?mk () (?h @ concat (map tls_record (?qs @ concat (map (pieces obfs_chunkSize) bs')))))" by (simp add: rec)
  have lp: "length ?p + length (to_server s) < 65000" using assms(3) by (simp add: obfs_chunkSize_def)
  note wf = hello_wf [OF assms(1,2) lp refl]
  have h: "length ?h = 5 + of_be16 (?h ! 3) (?h ! 4)" "142 + length ?p \<le> length ?h"
    using wf by (simp_all add: hello_parts [OF assms(1)] length_hello_head [OF assms(2)] length_hello_tail)
  have recs: "server_records (concat (map tls_record ps)) = concat ps" if "\<forall>p\<in>set ps. length p < 65536" for ps
    using that by (induction ps) (simp_all add: server_records_record)
  let ?ps = "?qs @ concat (map (pieces obfs_chunkSize) bs')"
  have "\<forall>p\<in>set ?ps. length p < 65536" using pieces_sizes by (fastforce simp: obfs_chunkSize_def)
  note recs [OF this]
  moreover have "concat ?ps = drop obfs_chunkSize b0 @ concat bs'"
  proof -
    have "0 < obfs_chunkSize" by (simp add: obfs_chunkSize_def)
    then show ?thesis by (induction bs') simp_all
  qed
  ultimately have "server_data (?h @ concat (map tls_record ?ps)) = concat bs"
    using wf h by (simp add: server_data_def nth_append bs)
  then show ?thesis using first rest by (simp add: bs)
qed


subsection \<open>Reading\<close>

text \<open>The stream of a server: records with a head that is skipped, of 105 bytes first and of 3 later.\<close>

fun tls_stream :: "(u8 list \<times> u8 list) list \<Rightarrow> u8 list" where
  "tls_stream [] = []"
| "tls_stream ((h, p) # ps) = h @ be16 (of_nat (length p)) @ p @ tls_stream ps"

fun tls_valid :: "nat \<Rightarrow> (u8 list \<times> u8 list) list \<Rightarrow> bool" where
  "tls_valid d [] \<longleftrightarrow> True"
| "tls_valid d ((h, p) # ps) \<longleftrightarrow> length h = d \<and> p \<noteq> [] \<and> length p < 65536 \<and> tls_valid 3 ps"

definition head_size :: "tls_obfs \<Rightarrow> nat" where
  "head_size s = (if to_firstResponse s then 105 else 3)"

definition tls_pending :: "tls_obfs \<Rightarrow> u8 list \<Rightarrow> bool" where
  "tls_pending s xs \<longleftrightarrow>
     (\<exists>rest ps. c_in (to_Conn s) = rest @ tls_stream ps \<and> tls_valid (head_size s) ps \<and> length rest = to_remain s \<and>
        xs = rest @ concat (map snd ps))"

definition tls_comp_Read :: "nat \<times> nat \<Rightarrow> (tls_obfs, io_error, u8 list) comp" where
  "tls_comp_Read = (\<lambda>(avail, k) s.
     case TLSObfs_Read avail k s of ((b, None), s') \<Rightarrow> (Inr b, s') | ((b, Some e), s') \<Rightarrow> (Inl e, s'))"

lemma tls_read_record:
  assumes "length h = d" and "p \<noteq> []" and "length p < 65536" and "0 < k" and "to_remain s = 0"
    and "to_Conn s = \<lparr>c_in = h @ be16 (of_nat (length p)) @ p @ rest, c_out = w, c_writes = l\<rparr>"
  shows "\<exists>m. 0 < m \<and> m \<le> length p \<and> tls_read avail k d s =
    ((take m p, None), s\<lparr>to_Conn := \<lparr>c_in = drop m p @ rest, c_out = w, c_writes = l\<rparr>, to_remain := length p - m\<rparr>)"
proof -
  have sz: "of_be16 (be16 (of_nat (length p)) ! 0) (be16 (of_nat (length p)) ! Suc 0) = length p" by (rule of_be16_of_nat [OF assms(3)])
  show ?thesis
  proof (cases "length p \<le> k")
    case True
    moreover have "s\<lparr>to_Conn := c\<rparr> = s\<lparr>to_Conn := c, to_remain := 0\<rparr>" for c using assms(5) by (cases s) simp
    ultimately show ?thesis using assms(1,2) sz
      by (intro exI [of _ "length p"]) (simp add: tls_read_def assms(6) Let_def full_read_append)
  next
    case False
    then show ?thesis using assms(1,2,4) sz
      by (intro exI [of _ "min k (max 1 avail)"]) (auto simp: tls_read_def assms(6) Let_def conn_Read_def min_def)
  qed
qed

lemma tls_pending_read:
  assumes "tls_pending s xs" and "xs \<noteq> []" and "0 < k"
  shows "\<exists>m s'. 0 < m \<and> m \<le> length xs \<and> tls_comp_Read (avail, k) s = (Inr (take m xs), s') \<and> tls_pending s' (drop m xs)"
proof -
  obtain rest ps where r: "c_in (to_Conn s) = rest @ tls_stream ps" "tls_valid (head_size s) ps" "length rest = to_remain s"
    "xs = rest @ concat (map snd ps)" using assms(1) by (auto simp: tls_pending_def)
  obtain w l where c: "to_Conn s = \<lparr>c_in = rest @ tls_stream ps, c_out = w, c_writes = l\<rparr>" using r(1) by (cases "to_Conn s") simp
  show ?thesis
  proof (cases "to_remain s = 0")
    case False
    let ?m = "min (to_remain s) k"
    have m: "0 < ?m" "?m \<le> length rest" using False assms(3) r(3) by simp_all
    have "TLSObfs_Read avail k s = ((take ?m rest, None),
        s\<lparr>to_Conn := \<lparr>c_in = drop ?m rest @ tls_stream ps, c_out = w, c_writes = l\<rparr>, to_remain := to_remain s - ?m\<rparr>)"
      using False m(2) r(3) by (simp add: TLSObfs_Read_def c full_read_append min_def)
    then show ?thesis using m r(2-4)
      by (intro exI [of _ ?m]) (auto simp: tls_comp_Read_def tls_pending_def head_size_def intro!: exI [of _ "drop ?m rest"] exI [of _ ps])
  next
    case True
    then have rest: "rest = []" using r(3) by simp
    then obtain h p qs where ps: "ps = (h, p) # qs" using assms(2) r(4) by (cases ps) auto
    have v: "length h = head_size s" "p \<noteq> []" "length p < 65536" "tls_valid 3 qs" using r(2) by (simp_all add: ps)
    let ?s = "s\<lparr>to_firstResponse := False\<rparr>"
    have "TLSObfs_Read avail k s = tls_read avail k (head_size s) ?s"
      using True by (cases "to_firstResponse s"; cases s) (simp_all add: TLSObfs_Read_def head_size_def)
    moreover from tls_read_record [OF v(1-3) assms(3), of ?s "tls_stream qs" w l avail] c True obtain m where
      m: "0 < m" "m \<le> length p" "tls_read avail k (head_size s) ?s =
        ((take m p, None), ?s\<lparr>to_Conn := \<lparr>c_in = drop m p @ tls_stream qs, c_out = w, c_writes = l\<rparr>, to_remain := length p - m\<rparr>)"
      by (auto simp: rest ps)
    ultimately have "tls_comp_Read (avail, k) s = (Inr (take m xs),
        ?s\<lparr>to_Conn := \<lparr>c_in = drop m p @ tls_stream qs, c_out = w, c_writes = l\<rparr>, to_remain := length p - m\<rparr>)"
      by (simp add: tls_comp_Read_def r(4) rest ps)
    moreover have "tls_pending (?s\<lparr>to_Conn := \<lparr>c_in = drop m p @ tls_stream qs, c_out = w, c_writes = l\<rparr>, to_remain := length p - m\<rparr>) (drop m xs)"
      unfolding tls_pending_def by (rule exI [of _ "drop m p"], rule exI [of _ qs]) (simp add: m v r(4) rest ps head_size_def)
    ultimately show ?thesis using m(1,2) by (auto simp: r(4) rest ps)
  qed
qed

text \<open>The client reads what the server sends, in order, whatever the buffers and the network cut.\<close>

theorem tls_obfs_receives:
  assumes "tls_valid 105 ps" and "\<forall>(avail, k)\<in>set ks. 0 < k"
  shows "\<exists>n s. reads tls_comp_Read ks (NewTLSObfs (fed (tls_stream ps)) server) = (take n (concat (map snd ps)), s) \<and>
    min (length ks) (length (concat (map snd ps))) \<le> n"
proof (rule reads_prefix [where Inv = tls_pending and P = "\<lambda>k. 0 < snd k"])
  fix s :: tls_obfs and xs k assume "tls_pending s xs" "xs \<noteq> []" "0 < snd (k :: nat \<times> nat)"
  from tls_pending_read [OF this, of "fst k"]
  show "\<exists>m s'. 0 < m \<and> m \<le> length xs \<and> tls_comp_Read k s = (Inr (take m xs), s') \<and> tls_pending s' (drop m xs)" by simp
next
  fix s :: tls_obfs and k :: "nat \<times> nat" assume "tls_pending s []" "0 < snd k"
  then obtain ps where "c_in (to_Conn s) = tls_stream ps" "tls_valid (head_size s) ps" "concat (map snd ps) = []" "to_remain s = 0"
    by (auto simp: tls_pending_def)
  then have "c_in (to_Conn s) = []" "to_remain s = 0" by (cases ps; auto)+
  then show "\<exists>e s'. tls_comp_Read k s = (Inl e, s')"
    by (cases k) (simp add: tls_comp_Read_def TLSObfs_Read_def tls_read_def ReadFull_def)
next
  show "tls_pending (NewTLSObfs (fed (tls_stream ps)) server) (concat (map snd ps))"
    unfolding tls_pending_def by (rule exI [of _ "[]"], rule exI [of _ ps]) (simp add: NewTLSObfs_def fed_def head_size_def assms(1))
qed (use assms(2) in auto)

text \<open>
  A connection that ends, or fails, inside the size of a record is reported as a read of no bytes without an error: a
  caller that reads until an error does not see this one.
\<close>

theorem lost_size_is_silent:
  assumes "\<not> to_firstResponse s" and "to_remain s = 0" and "length (c_in (to_Conn s)) \<in> {3, 4}"
  shows "\<exists>s'. TLSObfs_Read avail k s = (([], None), s')"
  using assms by (auto simp: TLSObfs_Read_def tls_read_def ReadFull_def)

subsection \<open>HTTP\<close>

lemma bytes_Index_first:
  "bytes_Index xs p = Some i \<Longrightarrow> p \<noteq> [] \<Longrightarrow> i + length p \<le> length xs"
proof (induction xs p arbitrary: i rule: bytes_Index.induct)
  case (2 x xs p)
  then show ?case by (cases "take (length p) (x # xs) = p") (auto dest: arg_cong [of _ _ length])
qed simp

definition http_pending :: "http_obfs \<Rightarrow> u8 list \<Rightarrow> bool" where
  "http_pending s xs \<longleftrightarrow> \<not> ho_firstResponse s \<and>
     (case ho_buf s of None \<Rightarrow> xs = c_in (ho_Conn s)
      | Some (b, off) \<Rightarrow> off < length b \<and> xs = drop off b @ c_in (ho_Conn s))"

lemma http_pending_read:
  assumes "http_pending s xs" and "xs \<noteq> []" and "0 < k"
  shows "\<exists>m s'. 0 < m \<and> m \<le> length xs \<and> HTTPObfs_Read avail k s = (Inr (take m xs), s') \<and> http_pending s' (drop m xs)"
proof (cases "ho_buf s")
  case None
  then show ?thesis using assms
    by (intro exI [of _ "min (length xs) (min k (max 1 avail))"])
      (auto simp: HTTPObfs_Read_def http_pending_def conn_Read_def Let_def min_def)
next
  case (Some x)
  obtain b off where x: "x = (b, off)" by (cases x)
  have p: "off < length b" "xs = drop off b @ c_in (ho_Conn s)" "\<not> ho_firstResponse s" using assms(1) Some x by (auto simp: http_pending_def)
  let ?m = "min k (length b - off)"
  have t: "take k (drop off b) = take ?m xs" using p(1) by (simp add: p(2) min_def)
  show ?thesis
  proof (intro exI conjI)
    show "0 < ?m" "?m \<le> length xs" using p(1) assms(3) by (simp_all add: p(2))
    show "HTTPObfs_Read avail k s = (Inr (take ?m xs), s\<lparr>ho_buf := (if off + ?m = length b then None else Some (b, off + ?m))\<rparr>)"
      using Some x t p(1) by (simp add: HTTPObfs_Read_def Let_def p(2) min_def)
    show "http_pending (s\<lparr>ho_buf := (if off + ?m = length b then None else Some (b, off + ?m))\<rparr>) (drop ?m xs)"
      using p by (auto simp: http_pending_def min_def add.commute)
  qed
qed

lemma bytes_Index_prefix:
  "bytes_Index (xs @ ys) p = Some i \<Longrightarrow> i + length p \<le> length xs \<Longrightarrow> p \<noteq> [] \<Longrightarrow> bytes_Index xs p = Some i"
proof (induction xs arbitrary: i)
  case (Cons x xs)
  show ?case
  proof (cases "take (length p) ((x # xs) @ ys) = p")
    case True
    then have "i = 0" using Cons.prems(1) by simp
    then have "length p - length (x # xs) = 0" using Cons.prems(2) by simp
    then have "take (length p) ((x # xs) @ ys) = take (length p) (x # xs)" by (simp only: take_append take_0 append_Nil2)
    then show ?thesis using True \<open>i = 0\<close> by simp
  next
    case False
    then obtain i' where i': "bytes_Index (xs @ ys) p = Some i'" "i = Suc i'" using Cons.prems(1) by auto
    then have "length p - length (x # xs) = 0" using Cons.prems(2) by simp
    then have "take (length p) ((x # xs) @ ys) = take (length p) (x # xs)" by (simp only: take_append take_0 append_Nil2)
    then have "take (length p) (x # xs) \<noteq> p" using False by simp
    then show ?thesis using Cons.IH [OF i'(1) _ Cons.prems(3)] i'(2) Cons.prems(2) by simp
  qed
qed simp

lemma take_drop_past: "k = length xs + j \<Longrightarrow> take k (xs @ ys) = xs @ take j ys \<and> drop k (xs @ ys) = drop j ys"
  by simp

lemma http_first_read_at:
  assumes "conn_Read avail relayBuffer c = (Inr buf, c')" and "bytes_Index buf header_end = Some i" and "drop (i + 4) buf = b1"
    and "buf = pre @ b1" and "length pre = i + 4"
  shows "HTTPObfs_Read avail k (NewHTTPObfs c host port) =
    (Inr (take k b1), NewHTTPObfs c host port\<lparr>ho_Conn := c', ho_firstResponse := False,
       ho_buf := (if length (take k b1) < length b1 then Some (buf, i + 4 + length (take k b1)) else None)\<rparr>)"
  using assms by (simp add: HTTPObfs_Read_def NewHTTPObfs_def Let_def)

lemma http_first_read:
  assumes "bytes_Index (hdr @ header_end @ body) header_end = Some (length hdr)" and "length hdr + 4 \<le> min relayBuffer avail"
  shows "\<exists>m s1. HTTPObfs_Read avail k (NewHTTPObfs (fed (hdr @ header_end @ body)) host port) = (Inr (take m body), s1) \<and>
    m \<le> length body \<and> http_pending s1 (drop m body)"
proof -
  define pre where "pre = hdr @ header_end"
  define j where "j = min relayBuffer (max 1 avail) - length pre"
  define b1 where "b1 = take j body"
  have e: "length pre = length hdr + 4" by (simp add: header_end_def pre_def)
  have K: "min relayBuffer (max 1 avail) = length pre + j" using assms(2) by (simp add: e j_def)
  have ne: "pre @ body \<noteq> []" by (simp add: header_end_def pre_def)
  have rd: "conn_Read avail relayBuffer (fed (pre @ body)) = (Inr (pre @ b1), (fed (pre @ body))\<lparr>c_in := drop j body\<rparr>)"
    using take_drop_past [OF K, of body] ne by (simp add: conn_Read_def fed_def b1_def)
  have idx: "bytes_Index (pre @ b1) header_end = Some (length hdr)"
  proof (rule bytes_Index_prefix)
    show "bytes_Index ((pre @ b1) @ drop j body) header_end = Some (length hdr)" using assms(1) by (simp add: b1_def pre_def)
  qed (simp_all add: e pre_def header_end_def)
  let ?m = "min k (length b1)"
  let ?s1 = "NewHTTPObfs (fed (pre @ body)) host port\<lparr>ho_Conn := (fed (pre @ body))\<lparr>c_in := drop j body\<rparr>, ho_firstResponse := False,
      ho_buf := (if length (take k b1) < length b1 then Some (pre @ b1, length hdr + 4 + length (take k b1)) else None)\<rparr>"
  have "drop (length hdr + 4) (pre @ b1) = b1" by (simp add: e [symmetric])
  moreover have "take k b1 = take ?m body" by (auto simp: b1_def min_def)
  ultimately
  have "HTTPObfs_Read avail k (NewHTTPObfs (fed (pre @ body)) host port) = (Inr (take ?m body), ?s1)"
    using http_first_read_at [OF rd idx _ refl e, of k host port] by metis
  moreover have split: "drop k body = drop k (take j body) @ drop j body" if "k < j" for k
    using that drop_append [of k "take j body" "drop j body"] by (simp add: min_def split: if_splits)
  have "http_pending ?s1 (drop ?m body)"
    by (auto simp: http_pending_def NewHTTPObfs_def e [symmetric] b1_def min_def intro: split)
  moreover have "?m \<le> length body" by (simp add: b1_def)
  ultimately show ?thesis unfolding pre_def append_assoc by blast
qed

text \<open>
  When the head of the answer arrives in one read, that read returns the data that came with it, perhaps none, and the
  later reads all of the rest.
\<close>

theorem http_obfs_receives:
  assumes "bytes_Index (hdr @ header_end @ body) header_end = Some (length hdr)" and "length hdr + 4 \<le> min relayBuffer avail"
    and "\<forall>k\<in>set ks. 0 < k"
  shows "\<exists>m s1 n s2. HTTPObfs_Read avail k (NewHTTPObfs (fed (hdr @ header_end @ body)) host port) = (Inr (take m body), s1) \<and>
    m \<le> length body \<and> reads (HTTPObfs_Read avail') ks s1 = (take n (drop m body), s2) \<and> min (length ks) (length body - m) \<le> n"
proof -
  from http_first_read [OF assms(1,2)] obtain m s1 where
    m: "HTTPObfs_Read avail k (NewHTTPObfs (fed (hdr @ header_end @ body)) host port) = (Inr (take m body), s1)" "m \<le> length body"
      "http_pending s1 (drop m body)" by blast
  have "\<exists>n s2. reads (HTTPObfs_Read avail') ks s1 = (take n (drop m body), s2) \<and> min (length ks) (length (drop m body)) \<le> n"
  proof (rule reads_prefix [where Inv = http_pending and P = "\<lambda>k. 0 < k"])
    fix s :: http_obfs and k :: nat assume "http_pending s []" "0 < k"
    then show "\<exists>e s'. HTTPObfs_Read avail' k s = (Inl e, s')"
      by (auto simp: http_pending_def HTTPObfs_Read_def conn_Read_def split: option.splits)
  qed (use http_pending_read m(3) assms(3) in auto)
  with m(1,2) show ?thesis by auto
qed

text \<open>
  When the head arrives in two parts, the first read reports the end of the stream although it goes on, and drops what
  it has read.
\<close>

theorem http_split_header:
  assumes "bytes_Index (take avail inp) header_end = None" and "0 < avail" and "avail \<le> relayBuffer" and "avail < length inp"
  shows "\<exists>s'. HTTPObfs_Read avail k (NewHTTPObfs (fed inp) host port) = (Inl EOF, s') \<and> c_in (ho_Conn s') = drop avail inp \<and> drop avail inp \<noteq> []"
  using assms by (auto simp: HTTPObfs_Read_def NewHTTPObfs_def conn_Read_def fed_def Let_def min_def)


subsection \<open>Examples\<close>

definition demo_hello :: hello_rand where
  "demo_hello = \<lparr>hr_time = 1, hr_random = replicate 28 7, hr_session = replicate 32 8\<rparr>"

lemma demo_hello_ok: "hello_rand_ok demo_hello"
  by (simp add: hello_rand_ok_def demo_hello_def)

theorem hello_well_formed_witness:
  "take (length [5, 6 :: u8]) (drop 142 (makeClientHelloMsg demo_pb demo_hello [5, 6] ''a.com'')) = [5, 6]"
proof -
  have "length [5, 6 :: u8] + length ''a.com'' < 65000" by simp
  from hello_well_formed [OF demo_pb_ok demo_hello_ok this refl] show ?thesis by blast
qed

theorem tls_obfs_sends_witness:
  "\<exists>s'. writes (TLSObfs_Write demo_pb demo_hello) [[1, 2], [3]] (NewTLSObfs (fed []) ''a.com'') = Some (map length [[1, 2], [3 :: u8]], s') \<and>
    server_data (c_out (to_Conn s')) = concat [[1, 2], [3]]"
  by (rule tls_obfs_sends [OF demo_pb_ok demo_hello_ok]) (simp_all add: NewTLSObfs_def)

theorem tls_obfs_receives_witness:
  "\<exists>n s. reads tls_comp_Read [(1, 1), (1, 2)] (NewTLSObfs (fed (tls_stream [(replicate 105 0, [1, 2, 3])])) ''a.com'') =
    (take n (concat (map snd [(replicate 105 (0 :: u8), [1, 2, 3])])), s) \<and>
    min (length [(1 :: nat, 1 :: nat), (1, 2)]) (length (concat (map snd [(replicate 105 (0 :: u8), [1, 2, 3 :: u8])]))) \<le> n"
  by (rule tls_obfs_receives) simp_all

theorem lost_size_is_silent_witness:
  "\<exists>s'. TLSObfs_Read 1 5 ((NewTLSObfs (fed [0x17, 3, 3, 0]) ''a.com'')\<lparr>to_firstResponse := False\<rparr>) = (([], None), s')"
  by (rule lost_size_is_silent) (simp_all add: NewTLSObfs_def fed_def)

theorem http_obfs_receives_witness:
  "\<exists>m s1 n s2. HTTPObfs_Read 10 1 (NewHTTPObfs (fed ([72] @ header_end @ [1, 2])) ''h'' ''80'') = (Inr (take m [1, 2]), s1) \<and> m \<le> length [1, 2 :: u8] \<and>
    reads (HTTPObfs_Read 5) [1, 1] s1 = (take n (drop m [1, 2]), s2) \<and> min (length [1, 1 :: nat]) (length [1, 2 :: u8] - m) \<le> n"
  by (rule http_obfs_receives) (simp_all add: header_end_def relayBuffer_def)

theorem http_split_header_witness:
  "\<exists>s'. HTTPObfs_Read 2 5 (NewHTTPObfs (fed ([72, 13] @ [10, 13, 10, 1])) ''h'' ''80'') = (Inl EOF, s') \<and>
    c_in (ho_Conn s') = drop 2 ([72, 13] @ [10, 13, 10, 1]) \<and> drop 2 ([72, 13] @ [10, 13, 10, 1 :: u8]) \<noteq> []"
  by (rule http_split_header) (simp_all add: header_end_def relayBuffer_def)

end
