(* ===== verification/Mux.thy ===== *)
theory Mux
  imports AeadProps
begin

text \<open>
  The multiplexed stream of the v2ray plugin (\<open>src/pkg/clash/transport/v2ray-plugin/mux.go\<close>): frames with metadata
  and data on one connection, of which the program uses one sub connection. Frames are written whole; a read takes
  frames until one has data. The definitions follow the file; the frames of the other end are those of the format.
\<close>

subsection \<open>The stream (mux.go)\<close>

definition SessionStatusNew :: u8 where "SessionStatusNew = 1"
definition SessionStatusKeep :: u8 where "SessionStatusKeep = 2"
definition SessionStatusEnd :: u8 where "SessionStatusEnd = 3"
definition SessionStatusKeepAlive :: u8 where "SessionStatusKeepAlive = 4"

definition OptionNone :: u8 where "OptionNone = 0"
definition OptionData :: u8 where "OptionData = 1"

lemmas mux_codes = SessionStatusNew_def SessionStatusKeep_def SessionStatusEnd_def SessionStatusKeepAlive_def
  OptionNone_def OptionData_def

record mux_option =
  mo_ID :: "u8 list"
  mo_Port :: u16
  mo_Host :: string
  mo_Type :: string

datatype mux_error = MuxIO io_error | InvalidMetalen

text \<open>Fixed arrays are lists; a read that is cut short writes only their front. \<open>buf\<close> is empty between calls.\<close>

record mux =
  mx_Conn :: io_conn
  mx_id :: "u8 list"
  mx_length :: "u8 list"
  mx_status :: "u8 list"
  mx_otb :: "u8 list option"
  mx_remain :: nat

definition overwrite :: "u8 list \<Rightarrow> u8 list \<Rightarrow> u8 list" where
  "overwrite old front = front @ drop (length front) old"

text \<open>The metadata of the sub connection; its length is filled in last.\<close>

definition mux_address :: "protobytes \<Rightarrow> u8 list \<Rightarrow> string \<Rightarrow> u8 list" where
  "mux_address B w host =
     (case ParseAddr host of
        None \<Rightarrow> PutString B (PutUint8 B w 2) host
      | Some (Addr4 ip) \<Rightarrow> PutSlice B (PutUint8 B w 1) ip
      | Some (Addr6 ip z) \<Rightarrow> PutSlice B (PutUint8 B w 3) ip)"

definition NewMux :: "protobytes \<Rightarrow> io_conn \<Rightarrow> mux_option \<Rightarrow> mux" where
  "NewMux B c m =
     (let w = PutSlice B [] [0, 0]; w = PutSlice B w (mo_ID m); w = PutUint8 B w SessionStatusNew; w = PutUint8 B w OptionNone;
          w = PutUint8 B w (if mo_Type m = ''udp'' then 2 else 1); w = PutUint16be B w (mo_Port m); w = mux_address B w (mo_Host m) in
      \<lparr>mx_Conn = c, mx_id = mo_ID m, mx_length = [0, 0], mx_status = [0, 0],
       mx_otb = Some (overwrite w (be16 (of_nat (length w - 2)))), mx_remain = 0\<rparr>)"

text \<open>
  \<open>avail n\<close> is what the system has at hand when \<open>n\<close> bytes are still to come. The loop of a read goes from frame to
  frame: \<open>mux_head\<close> reads one head and says whether data follows. Of the metadata it reads the id and the status,
  whatever its length says.
\<close>

definition some_bytes :: "(nat \<Rightarrow> nat) \<Rightarrow> nat \<Rightarrow> u8 list io" where
  "some_bytes avail n c = conn_Read (avail (length (c_in c))) n c"

definition mux_head :: "(nat \<Rightarrow> nat) \<Rightarrow> (mux, mux_error, bool) comp" where
  "mux_head avail s =
     (case full_read 2 (mx_Conn s) of
        ((b, Some e), c) \<Rightarrow> (Inl (MuxIO e), s\<lparr>mx_Conn := c, mx_length := overwrite (mx_length s) b\<rparr>)
      | ((b, None), c) \<Rightarrow>
          let s = s\<lparr>mx_Conn := c, mx_length := b\<rparr> in
          if 512 < of_be16 (b ! 0) (b ! 1) then (Inl InvalidMetalen, s)
          else
            (case full_read 2 c of
               ((i, Some e), c) \<Rightarrow> (Inl (MuxIO e), s\<lparr>mx_Conn := c, mx_id := overwrite (mx_id s) i\<rparr>)
             | ((i, None), c) \<Rightarrow>
                 let s = s\<lparr>mx_id := i\<rparr> in
                 (case some_bytes avail 2 c of
                    (Inl e, c) \<Rightarrow> (Inl (MuxIO e), s\<lparr>mx_Conn := c\<rparr>)
                  | (Inr st, c) \<Rightarrow>
                      let st = overwrite (mx_status s) st in
                      (Inr (st ! 0 \<noteq> SessionStatusKeepAlive \<and> st ! 1 = OptionData), s\<lparr>mx_Conn := c, mx_status := st\<rparr>))))"

definition mux_body :: "(nat \<Rightarrow> nat) \<Rightarrow> nat \<Rightarrow> (mux, mux_error, u8 list) comp" where
  "mux_body avail k s =
     (case full_read 2 (mx_Conn s) of
        ((b, Some e), c) \<Rightarrow> (Inl (MuxIO e), s\<lparr>mx_Conn := c, mx_length := overwrite (mx_length s) b\<rparr>)
      | ((b, None), c) \<Rightarrow>
          let dataLen = of_be16 (b ! 0) (b ! 1); s = s\<lparr>mx_length := b\<rparr> in
          (case some_bytes avail (min k dataLen) c of
             (Inl e, c) \<Rightarrow> (Inl (MuxIO e), s\<lparr>mx_Conn := c, mx_remain := dataLen\<rparr>)
           | (Inr d, c) \<Rightarrow> (Inr d, s\<lparr>mx_Conn := c, mx_remain := dataLen - length d\<rparr>)))"

lemma mux_head_shorter: "(Inr d, s') = mux_head avail s \<Longrightarrow> length (c_in (mx_Conn s')) < length (c_in (mx_Conn s))"
  by (auto simp: mux_head_def full_read_def ReadFull_def some_bytes_def conn_Read_def Let_def split: if_splits)

function mux_loop :: "(nat \<Rightarrow> nat) \<Rightarrow> nat \<Rightarrow> (mux, mux_error, u8 list) comp" where
  "mux_loop avail k s =
     (case mux_head avail s of
        (Inl e, s') \<Rightarrow> (Inl e, s')
      | (Inr False, s') \<Rightarrow> mux_loop avail k s'
      | (Inr True, s') \<Rightarrow> mux_body avail k s')"
  by pat_completeness auto
termination
  by (relation "measure (\<lambda>(avail, k, s). length (c_in (mx_Conn s)))") (auto dest: mux_head_shorter)

declare mux_loop.simps [simp del]

definition Mux_Read :: "(nat \<Rightarrow> nat) \<Rightarrow> nat \<Rightarrow> (mux, mux_error, u8 list) comp" where
  "Mux_Read avail k s =
     (if mx_remain s \<noteq> 0 then
        (case some_bytes avail (min k (mx_remain s)) (mx_Conn s) of
           (Inl e, c) \<Rightarrow> (Inl (MuxIO e), s\<lparr>mx_Conn := c\<rparr>)
         | (Inr b, c) \<Rightarrow> (Inr b, s\<lparr>mx_Conn := c, mx_remain := mx_remain s - length b\<rparr>))
      else mux_loop avail k s)"

text \<open>A write is one frame, the first one after the metadata; the length of the data is cut to 16 bits.\<close>

definition mux_frame :: "protobytes \<Rightarrow> u8 list \<Rightarrow> u8 list \<Rightarrow> u8 list" where
  "mux_frame B i b =
     (let w = PutUint16be B [] 4; w = PutSlice B w i; w = PutUint8 B w SessionStatusKeep; w = PutUint8 B w OptionData;
          w = PutUint16be B w (of_nat (length b)) in w @ b)"

definition Mux_Write :: "protobytes \<Rightarrow> u8 list \<Rightarrow> mux \<Rightarrow> (nat \<times> io_error option) \<times> mux" where
  "Mux_Write B b s =
     (case (case mx_otb s of None \<Rightarrow> (Inr (), mx_Conn s) | Some m \<Rightarrow> conn_Write m (mx_Conn s)) of
        (Inl e, c) \<Rightarrow> ((0, Some e), s\<lparr>mx_Conn := c\<rparr>)
      | (Inr _, c) \<Rightarrow>
          let f = mux_frame B (mx_id s) b; s = s\<lparr>mx_otb := None\<rparr> in
          (case conn_Write f c of
             (Inl e, c) \<Rightarrow> ((0, Some e), s\<lparr>mx_Conn := c\<rparr>)
           | (Inr _, c) \<Rightarrow> ((length f, None), s\<lparr>mx_Conn := c\<rparr>)))"

text \<open>\<open>closing\<close> is what closing the connection returns; the result says whether it was closed.\<close>

definition Mux_Close :: "io_error option \<Rightarrow> mux \<Rightarrow> (io_error option \<times> bool) \<times> mux" where
  "Mux_Close closing s =
     (case conn_Write [0, 4, mx_id s ! 0, mx_id s ! 1, SessionStatusEnd, OptionNone] (mx_Conn s) of
        (Inl e, c) \<Rightarrow> ((Some e, False), s\<lparr>mx_Conn := c\<rparr>)
      | (Inr _, c) \<Rightarrow> ((closing, True), s\<lparr>mx_Conn := c\<rparr>))"

subsection \<open>What the other end sends\<close>

text \<open>
  A frame of the format: the id, the status, the option and, when the option says so, data. The length of the metadata
  is four in every frame that goes back to a client.
\<close>

datatype peer_frame = MuxFrame (mf_id: "u8 list") (mf_status: u8) (mf_option: u8) (mf_data: "u8 list")

definition frame_bytes :: "peer_frame \<Rightarrow> u8 list" where
  "frame_bytes f =
     [0, 4] @ mf_id f @ [mf_status f, mf_option f] @
     (if mf_option f = OptionData then be16 (of_nat (length (mf_data f))) @ mf_data f else [])"

definition carries :: "peer_frame \<Rightarrow> bool" where
  "carries f \<longleftrightarrow> mf_option f = OptionData"

definition frame_ok :: "peer_frame \<Rightarrow> bool" where
  "frame_ok f \<longleftrightarrow> length (mf_id f) = 2 \<and> (mf_status f = SessionStatusKeepAlive \<longrightarrow> \<not> carries f) \<and>
     (if carries f then mf_data f \<noteq> [] \<and> length (mf_data f) < 65536 else mf_data f = [])"

definition mux_stream :: "peer_frame list \<Rightarrow> u8 list" where
  "mux_stream fs = concat (map frame_bytes fs)"

definition mux_data :: "peer_frame list \<Rightarrow> u8 list" where
  "mux_data fs = concat (map mf_data fs)"

lemma mux_stream_simps [simp]:
  "mux_stream [] = []" "mux_stream (f # fs) = frame_bytes f @ mux_stream fs"
  "mux_data [] = []" "mux_data (f # fs) = mf_data f @ mux_data fs"
  by (simp_all add: mux_stream_def mux_data_def)

subsection \<open>Reading\<close>

text \<open>The pairs of bytes of a head arrive whole when the system never has a single byte of them at hand.\<close>

definition whole :: "(nat \<Rightarrow> nat) \<Rightarrow> bool" where
  "whole avail \<longleftrightarrow> (\<forall>n. 2 \<le> avail n)"

definition mux_pending :: "mux \<Rightarrow> u8 list \<Rightarrow> bool" where
  "mux_pending s xs \<longleftrightarrow>
     (\<exists>rest fs. c_in (mx_Conn s) = rest @ mux_stream fs \<and> length rest = mx_remain s \<and> (\<forall>f\<in>set fs. frame_ok f) \<and>
        xs = rest @ mux_data fs \<and> length (mx_status s) = 2)"

lemma some_bytes_two:
  "whole avail \<Longrightarrow> some_bytes avail 2 \<lparr>c_in = x # y # rest, c_out = w, c_writes = l\<rparr> =
    (Inr [x, y], \<lparr>c_in = rest, c_out = w, c_writes = l\<rparr>)"
proof -
  assume "whole avail"
  then have "min 2 (max 1 (avail n)) = 2" for n by (auto simp: whole_def min_def max_def dest: spec [of _ n])
  then show ?thesis by (simp add: some_bytes_def conn_Read_def Let_def)
qed

lemma mux_head_frame:
  assumes "whole avail" and "frame_ok f" and "length (mx_status s) = 2"
    and "mx_Conn s = \<lparr>c_in = frame_bytes f @ rest, c_out = w, c_writes = l\<rparr>"
  shows "mux_head avail s = (Inr (carries f),
    s\<lparr>mx_Conn := \<lparr>c_in = (if carries f then be16 (of_nat (length (mf_data f))) @ mf_data f else []) @ rest, c_out = w, c_writes = l\<rparr>,
      mx_id := mf_id f, mx_length := [0, 4], mx_status := [mf_status f, mf_option f]\<rparr>)"
proof -
  obtain x y where i: "mf_id f = [x, y]" using assms(2) by (auto simp: frame_ok_def length_Suc_conv numeral_2_eq_2)
  have "of_be16 0 4 = 4" by (simp add: of_be16_def)
  moreover have "full_read 2 \<lparr>c_in = a # b # r, c_out = w, c_writes = l\<rparr> = (([a, b], None), \<lparr>c_in = r, c_out = w, c_writes = l\<rparr>)" for a b r
    by (simp add: full_read_def)
  ultimately show ?thesis using assms(2,3)
    by (auto simp: mux_head_def frame_bytes_def assms(4) i some_bytes_two [OF assms(1)] overwrite_def Let_def carries_def frame_ok_def)
qed

lemma mux_loop_pending:
  assumes "whole avail" and "0 < k"
  shows "\<forall>f\<in>set fs. frame_ok f \<Longrightarrow> length (mx_status s) = 2 \<Longrightarrow> mx_remain s = 0 \<Longrightarrow>
    mx_Conn s = \<lparr>c_in = mux_stream fs, c_out = w, c_writes = l\<rparr> \<Longrightarrow>
    if mux_data fs = [] then \<exists>e s'. mux_loop avail k s = (Inl e, s')
    else \<exists>m s'. 0 < m \<and> m \<le> length (mux_data fs) \<and> mux_loop avail k s = (Inr (take m (mux_data fs)), s') \<and>
      mux_pending s' (drop m (mux_data fs))"
proof (induction fs arbitrary: s)
  case Nil
  then show ?case by (subst mux_loop.simps) (simp add: mux_head_def full_read_def ReadFull_def)
next
  case (Cons f fs)
  have f: "frame_ok f" using Cons.prems(1) by simp
  note head = mux_head_frame [OF assms(1) f Cons.prems(2) Cons.prems(4) [unfolded mux_stream_simps]]
  show ?case
  proof (cases "carries f")
    case False
    then have d: "mf_data f = []" using f by (simp add: frame_ok_def)
    let ?s = "s\<lparr>mx_Conn := \<lparr>c_in = mux_stream fs, c_out = w, c_writes = l\<rparr>, mx_id := mf_id f, mx_length := [0, 4],
      mx_status := [mf_status f, mf_option f]\<rparr>"
    have "mux_loop avail k s = mux_loop avail k ?s" using head False by (subst mux_loop.simps) simp
    moreover have "\<forall>f\<in>set fs. frame_ok f" using Cons.prems(1) by simp
    ultimately show ?thesis using Cons.IH [of ?s] Cons.prems(3) by (simp add: d split: if_splits)
  next
    case True
    let ?d = "mf_data f"
    have d: "?d \<noteq> []" "length ?d < 65536" using f True by (simp_all add: frame_ok_def)
    let ?c = "\<lparr>c_in = ?d @ mux_stream fs, c_out = w, c_writes = l\<rparr>"
    let ?m = "min (min k (length ?d)) (max 1 (avail (length (c_in ?c))))"
    have m: "0 < ?m" "?m \<le> length ?d" using d(1) assms(2) by simp_all
    have rd: "some_bytes avail (min k (length ?d)) ?c = (Inr (take ?m ?d), ?c\<lparr>c_in := drop ?m ?d @ mux_stream fs\<rparr>)"
      using d(1) m(2) by (simp add: some_bytes_def conn_Read_def Let_def)
    have fr: "full_read 2 \<lparr>c_in = be16 (of_nat (length ?d)) @ ?d @ mux_stream fs, c_out = w, c_writes = l\<rparr> =
        ((be16 (of_nat (length ?d)), None), ?c)" by (simp add: full_read_append)
    let ?s1 = "s\<lparr>mx_id := mf_id f, mx_status := [mf_status f, mf_option f], mx_length := be16 (of_nat (length ?d)),
         mx_Conn := ?c\<lparr>c_in := drop ?m ?d @ mux_stream fs\<rparr>, mx_remain := length ?d - ?m\<rparr>"
    have body: "mux_body avail k (s\<lparr>mx_Conn := \<lparr>c_in = be16 (of_nat (length ?d)) @ ?d @ mux_stream fs, c_out = w, c_writes = l\<rparr>,
        mx_id := mf_id f, mx_length := [0, 4], mx_status := [mf_status f, mf_option f]\<rparr>) = (Inr (take ?m ?d), ?s1)"
      using rd m(2) by (simp add: mux_body_def fr of_be16_of_nat [OF d(2)] Let_def)
    have loop: "mux_loop avail k s = (Inr (take ?m (mux_data (f # fs))), ?s1)"
      using head True body m(2) by (subst mux_loop.simps) simp
    have pend: "mux_pending ?s1 (drop ?m (mux_data (f # fs)))"
      unfolding mux_pending_def using m(2) Cons.prems(1) by (intro exI [of _ "drop ?m ?d"] exI [of _ fs]) simp
    have len: "?m \<le> length (mux_data (f # fs))" "mux_data (f # fs) \<noteq> []" using m(2) d(1) by simp_all
    show ?thesis unfolding if_not_P [OF len(2)] using m(1) len(1) loop pend by blast
  qed
qed

lemma mux_pending_read:
  assumes "mux_pending s xs" and "whole avail" and "0 < k"
  shows "if xs = [] then \<exists>e s'. Mux_Read avail k s = (Inl e, s')
    else \<exists>m s'. 0 < m \<and> m \<le> length xs \<and> Mux_Read avail k s = (Inr (take m xs), s') \<and> mux_pending s' (drop m xs)"
proof -
  obtain rest fs where r: "c_in (mx_Conn s) = rest @ mux_stream fs" "length rest = mx_remain s" "\<forall>f\<in>set fs. frame_ok f"
    "xs = rest @ mux_data fs" "length (mx_status s) = 2" using assms(1) by (auto simp: mux_pending_def)
  obtain w l where c: "mx_Conn s = \<lparr>c_in = rest @ mux_stream fs, c_out = w, c_writes = l\<rparr>" using r(1) by (cases "mx_Conn s") simp
  show ?thesis
  proof (cases "rest = []")
    case True
    then have e: "xs = mux_data fs" "mx_remain s = 0" "mx_Conn s = \<lparr>c_in = mux_stream fs, c_out = w, c_writes = l\<rparr>"
      using r(2,4) c by simp_all
    have "Mux_Read avail k s = mux_loop avail k s" using e(2) by (simp add: Mux_Read_def)
    with mux_loop_pending [OF assms(2,3) r(3,5) e(2,3)] show ?thesis by (simp only: e(1))
  next
    case False
    let ?m = "min (min k (length rest)) (max 1 (avail (length (c_in (mx_Conn s)))))"
    have m: "0 < ?m" "?m \<le> length rest" using False assms(3) by simp_all
    have "Mux_Read avail k s = (Inr (take ?m rest), s\<lparr>mx_Conn := (mx_Conn s)\<lparr>c_in := drop ?m rest @ mux_stream fs\<rparr>, mx_remain := length rest - ?m\<rparr>)"
      using False m(2) r(2) [symmetric] by (simp add: Mux_Read_def some_bytes_def conn_Read_def c Let_def)
    moreover have "mux_pending (s\<lparr>mx_Conn := (mx_Conn s)\<lparr>c_in := drop ?m rest @ mux_stream fs\<rparr>, mx_remain := length rest - ?m\<rparr>) (drop ?m xs)"
      unfolding mux_pending_def using m(2) r by (intro exI [of _ "drop ?m rest"] exI [of _ fs]) simp
    moreover have "take ?m rest = take ?m xs" "?m \<le> length xs" "xs \<noteq> []" using m(2) False by (simp_all add: r(4))
    ultimately show ?thesis using m(1) by metis
  qed
qed

text \<open>The client reads what the frames carry, in order, past frames that carry nothing.\<close>

theorem mux_receives:
  assumes "\<forall>f\<in>set fs. frame_ok f" and "\<forall>(avail, k)\<in>set ks. whole avail \<and> 0 < k"
  shows "\<exists>n s. reads (\<lambda>(avail, k). Mux_Read avail k) ks (NewMux B (fed (mux_stream fs)) opt) = (take n (mux_data fs), s) \<and>
    min (length ks) (length (mux_data fs)) \<le> n"
proof (rule reads_prefix [where Inv = mux_pending and P = "\<lambda>(avail, k). whole avail \<and> 0 < k"])
  fix s :: mux and xs and p :: "(nat \<Rightarrow> nat) \<times> nat"
  assume "mux_pending s xs" "xs \<noteq> []" "case p of (avail, k) \<Rightarrow> whole avail \<and> 0 < k"
  then show "\<exists>m s'. 0 < m \<and> m \<le> length xs \<and> (case p of (avail, k) \<Rightarrow> Mux_Read avail k) s = (Inr (take m xs), s') \<and> mux_pending s' (drop m xs)"
    using mux_pending_read [of s xs "fst p" "snd p"] by (cases p) simp
next
  fix s :: mux and p :: "(nat \<Rightarrow> nat) \<times> nat"
  assume "mux_pending s []" "case p of (avail, k) \<Rightarrow> whole avail \<and> 0 < k"
  then show "\<exists>e s'. (case p of (avail, k) \<Rightarrow> Mux_Read avail k) s = (Inl e, s')"
    using mux_pending_read [of s "[]" "fst p" "snd p"] by (cases p) simp
next
  show "mux_pending (NewMux B (fed (mux_stream fs)) opt) (mux_data fs)"
    unfolding mux_pending_def by (rule exI [of _ "[]"], rule exI [of _ fs]) (simp add: NewMux_def Let_def fed_def assms(1))
qed (use assms(2) in auto)

text \<open>
  The status is read by one read that may be cut short. When only its first byte is at hand, the option is taken from
  the frame before, and the second byte becomes the first of the next field.
\<close>

theorem mux_short_status:
  assumes "mx_remain s = 0" and "mx_Conn s = fed ([0, 4, x, y, SessionStatusKeep, OptionData, h, l] @ rest)" and "mx_status s = [0, OptionNone]"
    and "avail (Suc (Suc (Suc (Suc (length rest))))) = 1"
  shows "Mux_Read avail k s = mux_loop avail k (s\<lparr>mx_Conn := fed ([OptionData, h, l] @ rest), mx_id := [x, y], mx_length := [0, 4],
    mx_status := [SessionStatusKeep, OptionNone]\<rparr>)"
proof -
  have "of_be16 0 4 = 4" by (simp add: of_be16_def)
  then have "mux_head avail s = (Inr False, s\<lparr>mx_Conn := fed ([OptionData, h, l] @ rest), mx_id := [x, y], mx_length := [0, 4],
    mx_status := [SessionStatusKeep, OptionNone]\<rparr>)"
    using assms by (simp add: mux_head_def full_read_def ReadFull_def fed_def some_bytes_def conn_Read_def overwrite_def mux_codes Let_def numeral_2_eq_2)
  then show ?thesis using assms(1) by (subst Mux_Read_def, subst mux_loop.simps) simp
qed

subsection \<open>Writing\<close>

text \<open>A reader of the other end: the metadata and the data of each frame, or nothing when the stream is cut.\<close>

function mux_frames :: "u8 list \<Rightarrow> (u8 list \<times> u8 list) list option" where
  "mux_frames inp =
     (if inp = [] then Some []
      else if length inp < 2 then None
      else let n = of_be16 (inp ! 0) (inp ! 1); md = take n (drop 2 inp); rest = drop n (drop 2 inp) in
        if n < 4 \<or> length (drop 2 inp) < n then None
        else if md ! 3 = OptionData then
          (if length rest < 2 then None
           else let d = of_be16 (rest ! 0) (rest ! 1); r = drop 2 rest in
             if length r < d then None else map_option ((#) (md, take d r)) (mux_frames (drop d r)))
        else map_option ((#) (md, [])) (mux_frames rest))"
  by pat_completeness auto
termination by (relation "measure length") auto

declare mux_frames.simps [simp del]

lemma mux_frames_Nil [simp]: "mux_frames [] = Some []"
  by (simp add: mux_frames.simps)

lemma mux_frames_data:
  assumes "length i = 2" and "length b < 65536"
  shows "mux_frames ([0, 4] @ i @ [st, OptionData] @ be16 (of_nat (length b)) @ b @ rest) =
    map_option ((#) (i @ [st, OptionData], b)) (mux_frames rest)"
proof -
  obtain x y where i: "i = [x, y]" using assms(1) by (auto simp: length_Suc_conv numeral_2_eq_2)
  obtain h l where be: "be16 (of_nat (length b)) = [h, l]" by (simp add: be16_def)
  have "of_be16 0 4 = 4" by (simp add: of_be16_def)
  moreover have "of_be16 h l = length b" using of_be16_of_nat(1) [OF assms(2)] by (simp add: be)
  ultimately show ?thesis by (subst mux_frames.simps) (simp add: i be Let_def)
qed

lemma mux_frames_meta:
  assumes "length md < 65536" and "4 \<le> length md" and "md ! 3 = OptionNone"
  shows "mux_frames (be16 (of_nat (length md)) @ md @ rest) = map_option ((#) (md, [])) (mux_frames rest)"
proof -
  obtain h l where be: "be16 (of_nat (length md)) = [h, l]" by (simp add: be16_def)
  have "of_be16 h l = length md" using of_be16_of_nat(1) [OF assms(1)] by (simp add: be)
  then show ?thesis using assms(2,3) by (subst mux_frames.simps) (auto simp: be Let_def mux_codes)
qed

text \<open>The metadata of the sub connection as the format has it: id, new, no option, network, port and address.\<close>

definition sub_address :: "string \<Rightarrow> u8 list" where
  "sub_address host =
     (case ParseAddr host of None \<Rightarrow> 2 # bytes_of host | Some (Addr4 ip) \<Rightarrow> 1 # ip | Some (Addr6 ip z) \<Rightarrow> 3 # ip)"

definition sub_metadata :: "mux_option \<Rightarrow> u8 list" where
  "sub_metadata m = mo_ID m @ [1, 0, if mo_Type m = ''udp'' then 2 else 1] @ be16 (mo_Port m) @ sub_address (mo_Host m)"

lemma NewMux_otb:
  assumes "pb_ok B"
  shows "mx_otb (NewMux B c m) = Some (be16 (of_nat (length (sub_metadata m))) @ sub_metadata m)"
proof -
  have a: "mux_address B w h = w @ sub_address h" for w h
    using assms by (simp add: mux_address_def sub_address_def pb_simps split: option.splits netip_addr.splits)
  show ?thesis using assms
    by (simp add: NewMux_def pb_simps a overwrite_def sub_metadata_def mux_codes Let_def add.assoc)
qed

lemma mux_writes:
  assumes "pb_ok B"
  shows "length (mx_id s) = 2 \<Longrightarrow> mx_otb s = None \<Longrightarrow> mx_Conn s = \<lparr>c_in = inp, c_out = w, c_writes = None\<rparr> \<Longrightarrow>
    writes (Mux_Write B) bs s = Some (map (\<lambda>b. length b + 8) bs,
      s\<lparr>mx_Conn := \<lparr>c_in = inp, c_out = w @ concat (map (\<lambda>b. mux_frame B (mx_id s) b) bs), c_writes = None\<rparr>\<rparr>)"
proof (induction bs arbitrary: s w)
  case (Cons b bs)
  have "Mux_Write B b s = ((length b + 8, None), s\<lparr>mx_Conn := \<lparr>c_in = inp, c_out = w @ mux_frame B (mx_id s) b, c_writes = None\<rparr>\<rparr>)"
    using Cons.prems assms by (cases s) (simp add: Mux_Write_def mux_frame_def pb_simps Let_def)
  then show ?case using Cons.IH [of "s\<lparr>mx_Conn := \<lparr>c_in = inp, c_out = w @ mux_frame B (mx_id s) b, c_writes = None\<rparr>\<rparr>"] Cons.prems by simp
qed simp

text \<open>
  The other end reads the metadata of the sub connection and then what was written, a frame for each write; a write of
  more than 65535 bytes is not cut. Each write returns eight bytes more than it was given.
\<close>

theorem mux_sends:
  assumes "pb_ok B" and "length (mo_ID m) = 2" and "length (sub_metadata m) < 65536" and "\<forall>b\<in>set (b # bs). length b < 65536"
  shows "\<exists>s. writes (Mux_Write B) (b # bs) (NewMux B (fed inp) m) = Some (map (\<lambda>b. length b + 8) (b # bs), s) \<and>
    mux_frames (c_out (mx_Conn s)) =
      Some ((sub_metadata m, []) # map (\<lambda>b. (mo_ID m @ [SessionStatusKeep, OptionData], b)) (b # bs))"
proof -
  let ?md = "sub_metadata m" and ?s = "NewMux B (fed inp) m"
  have ids: "mx_id (NewMux B c m) = mo_ID m" "mx_Conn (NewMux B c m) = c" for c by (simp_all add: NewMux_def Let_def)
  let ?s1 = "?s\<lparr>mx_otb := None, mx_Conn := (fed inp)\<lparr>c_out := be16 (of_nat (length ?md)) @ ?md @ mux_frame B (mo_ID m) b\<rparr>\<rparr>"
  have frame: "mux_frame B i b = [0, 4] @ i @ [SessionStatusKeep, OptionData] @ be16 (of_nat (length b)) @ b" for i b
    using assms(1) by (simp add: mux_frame_def pb_simps be16_def)
  have "Mux_Write B b ?s = ((length b + 8, None), ?s1)"
    using assms(2) by (simp add: Mux_Write_def NewMux_otb [OF assms(1)] ids fed_def frame Let_def)
  moreover have "writes (Mux_Write B) bs ?s1 = Some (map (\<lambda>b. length b + 8) bs,
      ?s1\<lparr>mx_Conn := (fed inp)\<lparr>c_out := (be16 (of_nat (length ?md)) @ ?md @ mux_frame B (mo_ID m) b) @
        concat (map (mux_frame B (mo_ID m)) bs)\<rparr>\<rparr>)"
    using mux_writes [OF assms(1), of ?s1] assms(2) by (simp add: ids fed_def)
  moreover have frames: "mux_frames (concat (map (mux_frame B (mo_ID m)) cs)) = Some (map (\<lambda>b. (mo_ID m @ [SessionStatusKeep, OptionData], b)) cs)"
    if "\<forall>b\<in>set cs. length b < 65536" for cs
    using that by (induction cs) (simp_all add: frame mux_frames_data [OF assms(2), simplified])
  moreover have "4 \<le> length ?md" "?md ! 3 = OptionNone"
    using assms(2) by (simp_all add: sub_metadata_def nth_append mux_codes)
  ultimately show ?thesis using mux_frames_meta [of ?md "concat (map (mux_frame B (mo_ID m)) (b # bs))"] frames [of "b # bs"] assms(3,4) by simp
qed

text \<open>Closing leaves the connection open when the last frame cannot be written.\<close>

theorem mux_failed_end_keeps_open:
  assumes "c_writes (mx_Conn s) = Some 0"
  shows "Mux_Close closing s = ((Some WriteFailed, False), s)"
  using assms by (simp add: Mux_Close_def conn_Write_def)

subsection \<open>Examples\<close>

theorem mux_receives_witness:
  "\<exists>n s. reads (\<lambda>(avail, k). Mux_Read avail k) [(\<lambda>_. 2, 1), (\<lambda>_. 2, 9)]
      (NewMux demo_pb (fed (mux_stream [MuxFrame [0, 0] 2 0 [], MuxFrame [0, 0] 2 1 [7, 8]])) \<lparr>mo_ID = [0, 0], mo_Port = 0, mo_Host = ''127.0.0.1'', mo_Type = []\<rparr>) =
      (take n (mux_data [MuxFrame [0, 0] 2 0 [], MuxFrame [0, 0] 2 1 [7, 8]]), s) \<and>
    min (length [(\<lambda>_ :: nat. 2 :: nat, 1 :: nat), (\<lambda>_. 2, 9)]) (length (mux_data [MuxFrame [0, 0] 2 0 [], MuxFrame [0, 0] 2 1 [7, 8]])) \<le> n"
  by (rule mux_receives) (simp_all add: frame_ok_def carries_def mux_codes whole_def)

theorem mux_short_status_witness:
  "\<exists>s. Mux_Read (\<lambda>n. if n = 6 then 1 else 9) 5 s = mux_loop (\<lambda>n. if n = 6 then 1 else 9) 5
     (s\<lparr>mx_Conn := fed ([OptionData, 0, 2] @ [7, 8]), mx_id := [0, 0], mx_length := [0, 4], mx_status := [SessionStatusKeep, OptionNone]\<rparr>)"
  by (rule exI, rule mux_short_status [where s = "\<lparr>mx_Conn = fed ([0, 4, 0, 0, SessionStatusKeep, OptionData, 0, 2] @ [7, 8]), mx_id = [0, 0],
    mx_length = [0, 0], mx_status = [0, OptionNone], mx_otb = None, mx_remain = 0\<rparr>"]) simp_all

theorem mux_sends_witness:
  "\<exists>s. writes (Mux_Write demo_pb) [[1], [2, 3]] (NewMux demo_pb (fed []) \<lparr>mo_ID = [0, 0], mo_Port = 0, mo_Host = ''h'', mo_Type = []\<rparr>) =
      Some (map (\<lambda>b. length b + 8) [[1], [2, 3 :: u8]], s) \<and>
    mux_frames (c_out (mx_Conn s)) = Some ((sub_metadata \<lparr>mo_ID = [0, 0], mo_Port = 0, mo_Host = ''h'', mo_Type = []\<rparr>, []) #
      map (\<lambda>b. (mo_ID \<lparr>mo_ID = [0, 0], mo_Port = 0, mo_Host = ''h'', mo_Type = []\<rparr> @ [SessionStatusKeep, OptionData], b)) [[1], [2, 3]])"
proof (rule mux_sends [OF demo_pb_ok])
  have "ParseAddr ''h'' = None" by code_simp
  then show "length (sub_metadata \<lparr>mo_ID = [0, 0], mo_Port = 0, mo_Host = ''h'', mo_Type = []\<rparr>) < 65536"
    by (simp add: sub_metadata_def sub_address_def)
qed simp_all

theorem mux_failed_end_keeps_open_witness:
  "Mux_Close None ((NewMux demo_pb (fed []) \<lparr>mo_ID = [0, 0], mo_Port = 0, mo_Host = ''h'', mo_Type = []\<rparr>)\<lparr>mx_Conn := (fed [])\<lparr>c_writes := Some 0\<rparr>\<rparr>) =
    ((Some WriteFailed, False), (NewMux demo_pb (fed []) \<lparr>mo_ID = [0, 0], mo_Port = 0, mo_Host = ''h'', mo_Type = []\<rparr>)\<lparr>mx_Conn := (fed [])\<lparr>c_writes := Some 0\<rparr>\<rparr>)"
  by (rule mux_failed_end_keeps_open) simp

end
