(* ===== verification/Gun.thy ===== *)
theory Gun
  imports AeadProps
begin

unbundle bit_operations_syntax

text \<open>
  A stream inside gRPC messages over HTTP/2 (\<open>src/pkg/clash/transport/gun/gun.go\<close>). The HTTP/2 transport is a
  library: what its request returns, and how the pipe of the request body fails, are arguments or part of the state.
  The variable length integers are those of \<open>encoding/binary\<close>. A slice bound below zero is a panic, \<open>None\<close>.
\<close>

subsection \<open>Variable length integers (encoding/binary)\<close>

function PutUvarint :: "64 word \<Rightarrow> u8 list" where
  "PutUvarint x = (if x < 0x80 then [ucast x] else (ucast x OR 0x80) # PutUvarint (drop_bit 7 x))"
  by pat_completeness auto
termination
proof (relation "measure unat")
  fix x :: "64 word"
  assume "\<not> x < 0x80"
  then have "128 \<le> unat x" by (simp add: word_less_nat_alt)
  then show "(drop_bit 7 x, x) \<in> measure unat" by (simp add: drop_bit_eq_div unat_div)
qed simp

declare PutUvarint.simps [simp del]

text \<open>The first argument is the number of bytes that may still come, ten at the start.\<close>

fun uvarint_loop :: "nat \<Rightarrow> 64 word \<Rightarrow> nat \<Rightarrow> (io_conn, unit, 64 word) comp" where
  "uvarint_loop 0 x s c = (Inl (), c)"
| "uvarint_loop (Suc n) x s c =
     (case ReadFull 1 c of
        (Inl e, c) \<Rightarrow> (Inl (), c)
      | (Inr bs, c) \<Rightarrow>
          let b = bs ! 0 in
          if b < 0x80 then
            (if n = 0 \<and> 1 < b then (Inl (), c) else (Inr (x OR push_bit s (ucast b)), c))
          else uvarint_loop n (x OR push_bit s (ucast (b AND 0x7f))) (s + 7) c)"

definition ReadUvarint :: "(io_conn, unit, 64 word) comp" where
  "ReadUvarint = uvarint_loop 10 0 0"

lemma uvarint_last:
  fixes V :: "64 word"
  assumes "drop_bit s V < 0x80"
  shows "take_bit s V OR push_bit s (ucast (ucast (drop_bit s V) :: u8)) = V"
proof -
  have "take_bit 7 (drop_bit s V) = drop_bit s V"
  proof (rule word_unat_eq_iff [THEN iffD2])
    from assms show "unat (take_bit 7 (drop_bit s V)) = unat (drop_bit s V)"
      by (simp add: unsigned_take_bit_eq take_bit_nat_eq_self_iff word_less_nat_alt)
  qed
  then have "bit (drop_bit s V) n \<Longrightarrow> n < 7" for n by (metis bit_take_bit_iff)
  then have n: "bit V (s + n) \<Longrightarrow> n < 7" for n by (simp add: bit_drop_bit_eq)
  show ?thesis
  proof (rule bit_word_eqI)
    fix i assume i: "i < LENGTH(64)"
    show "bit (take_bit s V OR push_bit s (ucast (ucast (drop_bit s V) :: u8))) i = bit V i"
      using n [of "i - s"] i by (cases "i < s") (auto simp: bit_simps)
  qed
qed

lemma uvarint_next:
  fixes V :: "64 word"
  shows "take_bit s V OR push_bit s (ucast (((ucast (drop_bit s V) :: u8) OR 0x80) AND 0x7f)) = take_bit (s + 7) V"
proof (rule bit_word_eqI)
  fix i assume i: "i < LENGTH(64)"
  have m: "(a OR 0x80) AND 0x7f = a AND mask 7" for a :: u8
    by (subst bit.conj_disj_distrib2) (simp add: mask_eq_exp_minus_1)
  show "bit (take_bit s V OR push_bit s (ucast (((ucast (drop_bit s V) :: u8) OR 0x80) AND 0x7f))) i = bit (take_bit (s + 7) V) i"
    unfolding m using i by (cases "i < s") (auto simp: bit_simps)
qed

lemma uvarint_more: "\<not> ((ucast v OR 0x80) :: u8) < 0x80"
proof
  assume "((ucast v OR 0x80) :: u8) < 0x80"
  moreover have "(0x80 :: u8) \<le> ucast v OR 0x80"
    by (metis word_bw_comms(2) le_word_or2)
  ultimately show False by simp
qed

lemma uvarint_loop_Put:
  "s + 7 * n = 70 \<Longrightarrow> s < 64 \<Longrightarrow> uvarint_loop n (take_bit s V) s \<lparr>c_in = PutUvarint (drop_bit s V) @ rest, c_out = w, c_writes = l\<rparr> =
    (Inr V, \<lparr>c_in = rest, c_out = w, c_writes = l\<rparr>)"
proof (induction n arbitrary: s)
  case (Suc n)
  let ?v = "drop_bit s V"
  have top: "unat ?v < 2" if "n = 0"
  proof -
    have "unat V < 2 ^ 64" using unsigned_less [of V] by simp
    then show ?thesis using that Suc.prems(1) by (simp add: unsigned_drop_bit_eq drop_bit_eq_div unat_div less_mult_imp_div_less)
  qed
  show ?case
  proof (cases "?v < 0x80")
    case True
    have "ucast ?v \<le> (1 :: u8)" if "n = 0"
      using top [OF that] by (simp add: word_le_nat_alt unsigned_ucast_eq take_bit_eq_mod)
    moreover have "(ucast ?v :: u8) < 0x80" using True by (simp add: word_less_nat_alt unsigned_ucast_eq take_bit_eq_mod)
    ultimately show ?thesis using True uvarint_last [OF True]
      by (subst PutUvarint.simps) (auto simp: Let_def not_less)
  next
    case False
    have "\<not> unat ?v < 2" using False by (simp add: word_less_nat_alt)
    then have "n \<noteq> 0" using top by blast
    then have "s + 7 < 64" using Suc.prems by simp
    have put: "PutUvarint ?v = (ucast ?v OR 0x80) # PutUvarint (drop_bit (s + 7) V)"
      using False by (subst PutUvarint.simps) (simp add: add.commute)
    have "s + 7 + 7 * n = 70" using Suc.prems(1) by simp
    from Suc.IH [OF this \<open>s + 7 < 64\<close>] show ?thesis
      by (simp only: put append_Cons uvarint_loop.simps ReadFull_Cons prod.case sum.case nth_Cons_0 Let_def uvarint_next uvarint_more if_False)
  qed
qed simp

lemma ReadUvarint_Put:
  "ReadUvarint \<lparr>c_in = PutUvarint V @ rest, c_out = w, c_writes = l\<rparr> = (Inr V, \<lparr>c_in = rest, c_out = w, c_writes = l\<rparr>)"
  using uvarint_loop_Put [of 0 10 V rest w l] by (simp add: ReadUvarint_def)

subsection \<open>The connection (gun.go)\<close>

datatype gun_error = GunIO io_error | TripFailed | ErrInvalidLength | NetClosed | ClosedPipe

text \<open>
  \<open>g_br\<close> is the body of the response, \<open>g_response\<close> says that there is one; \<open>g_writer\<close> is the error of a write to the
  body of the request, if it fails, and \<open>g_sent\<close> what was written.
\<close>

record gun =
  g_once :: bool
  g_close :: bool
  g_err :: "gun_error option"
  g_remain :: nat
  g_response :: bool
  g_br :: io_conn
  g_writer :: "gun_error option"
  g_sent :: "u8 list"

definition StreamGun :: gun where
  "StreamGun = \<lparr>g_once = False, g_close = False, g_err = None, g_remain = 0, g_response = False, g_br = fed [], g_writer = None, g_sent = []\<rparr>"

text \<open>The path of the service.\<close>

definition gun_path :: "string \<Rightarrow> string" where
  "gun_path ServiceName = ''/'' @ (if ServiceName \<noteq> [] then ServiceName else ''GunService'') @ ''/Tun''"

text \<open>\<open>trip\<close> is the error of the request or the bytes of the body of its response.\<close>

definition initRequest :: "gun_error + u8 list \<Rightarrow> gun \<Rightarrow> gun" where
  "initRequest trip g =
     (case trip of
        Inl e \<Rightarrow> g\<lparr>g_err := Some e, g_writer := Some ClosedPipe\<rparr>
      | Inr body \<Rightarrow> if \<not> g_close g then g\<lparr>g_response := True, g_br := fed body\<rparr> else g)"

definition once_Do :: "gun_error + u8 list \<Rightarrow> gun \<Rightarrow> gun" where
  "once_Do trip g = (if g_once g then g else initRequest trip (g\<lparr>g_once := True\<rparr>))"

type_synonym gun_result = "u8 list \<times> gun_error option"

definition Gun_Read :: "gun_error + u8 list \<Rightarrow> nat \<Rightarrow> gun \<Rightarrow> (gun_result \<times> gun) option" where
  "Gun_Read trip k g0 =
     (let g = once_Do trip g0 in
      case g_err g of
        Some e \<Rightarrow> Some (([], Some e), g)
      | None \<Rightarrow>
          if 0 < g_remain g then
            (case full_read (min k (g_remain g)) (g_br g) of
               ((b, e), c) \<Rightarrow> Some ((b, map_option GunIO e), g\<lparr>g_br := c, g_remain := g_remain g - length b\<rparr>))
          else if \<not> g_response g then Some (([], Some NetClosed), g)
          else
            (case full_read 6 (g_br g) of
               ((_, Some e), c) \<Rightarrow> Some (([], Some (GunIO e)), g\<lparr>g_br := c\<rparr>)
             | ((_, None), c) \<Rightarrow>
                 (case ReadUvarint c of
                    (Inl _, c) \<Rightarrow> Some (([], Some ErrInvalidLength), g\<lparr>g_br := c\<rparr>)
                  | (Inr x, c) \<Rightarrow>
                      let n = sint x in
                      if n < 0 then None
                      else
                        (case full_read (min k (nat n)) c of
                           ((b, Some e), c) \<Rightarrow> Some ((b, Some (GunIO e)), g\<lparr>g_br := c\<rparr>)
                         | ((b, None), c) \<Rightarrow>
                             let remain = nat n - length b in
                             Some ((b, None), g\<lparr>g_br := c, g_remain := (if 0 < remain then remain else g_remain g)\<rparr>)))))"

definition gun_frame :: "u8 list \<Rightarrow> u8 list" where
  "gun_frame b =
     (let v = PutUvarint (of_nat (length b)) in
      0 # bytes_of_u32 (of_nat (length v + 1 + length b)) @ 0x0A # v @ b)"

definition Gun_Write :: "u8 list \<Rightarrow> gun \<Rightarrow> (nat \<times> gun_error option) \<times> gun" where
  "Gun_Write b g =
     (case g_writer g of
        None \<Rightarrow> ((length b, None), g\<lparr>g_sent := g_sent g @ gun_frame b\<rparr>)
      | Some e \<Rightarrow> ((length b, if e = ClosedPipe \<and> g_err g \<noteq> None then g_err g else Some e), g))"

text \<open>\<open>left\<close> is how much of the response is in the buffer of the reader when its body is closed.\<close>

definition Gun_Close :: "nat \<Rightarrow> gun \<Rightarrow> gun" where
  "Gun_Close left g =
     g\<lparr>g_close := True, g_writer := Some ClosedPipe, g_br := (if g_response g then (g_br g)\<lparr>c_in := take left (c_in (g_br g))\<rparr> else g_br g)\<rparr>"

subsection \<open>The messages as a record layer\<close>

definition gun_maxlen :: nat where "gun_maxlen = 2 ^ 62"

definition ungun :: "unit \<Rightarrow> u8 list \<Rightarrow> (u8 list \<times> u8 list) option" where
  "ungun _ inp =
     (case ReadUvarint (fed (drop 6 inp)) of
        (Inl _, c) \<Rightarrow> None
      | (Inr x, c) \<Rightarrow>
          if length inp < 6 \<or> sint x < 0 \<or> length (c_in c) < nat (sint x) then None
          else Some (take (nat (sint x)) (c_in c), drop (nat (sint x)) (c_in c)))"

lemma sint_length: "length p \<le> gun_maxlen \<Longrightarrow> sint (of_nat (length p) :: 64 word) = int (length p)"
  by (simp add: gun_maxlen_def signed_of_nat signed_take_bit_int_eq_self)

lemma ungun_frame:
  assumes "length p \<le> gun_maxlen"
  shows "ungun u (gun_frame p @ rest) = Some (p, rest)"
proof -
  have "drop 6 (gun_frame p @ rest) = PutUvarint (of_nat (length p)) @ p @ rest" "\<not> length (gun_frame p @ rest) < 6"
    by (simp_all add: gun_frame_def Let_def)
  then show ?thesis using sint_length [OF assms] by (simp add: ungun_def fed_def ReadUvarint_Put)
qed

interpretation gun_messages: record_layer "\<lambda>_. True" "\<lambda>_. gun_frame" "\<lambda>_. ()" ungun gun_maxlen
  by unfold_locales (simp_all add: ungun_frame gun_maxlen_def)

definition gun_view :: "gun \<Rightarrow> unit \<times> u8 list \<times> u8 list" where
  "gun_view g = ((), take (g_remain g) (c_in (g_br g)), drop (g_remain g) (c_in (g_br g)))"

definition gun_open :: "gun \<Rightarrow> bool" where
  "gun_open g \<longleftrightarrow> g_once g \<and> g_err g = None \<and> g_response g \<and> g_remain g \<le> length (c_in (g_br g))"

definition gun_comp_Read :: "gun_error + u8 list \<Rightarrow> nat \<Rightarrow> (gun, gun_error option, u8 list) comp" where
  "gun_comp_Read trip k g =
     (case Gun_Read trip k g of
        None \<Rightarrow> (Inl None, g) | Some ((b, Some e), g') \<Rightarrow> (Inl (Some e), g') | Some ((b, None), g') \<Rightarrow> (Inr b, g'))"

lemma uvarint_loop_in: "uvarint_loop n x s c = (case uvarint_loop n x s (fed (c_in c)) of (r, c1) \<Rightarrow> (r, c\<lparr>c_in := c_in c1\<rparr>))"
proof (induction n arbitrary: x s c)
  case (Suc n)
  show ?case
  proof (cases "c_in c")
    case Nil
    then show ?thesis by (cases c) (simp add: ReadFull_def fed_def)
  next
    case (Cons b bs)
    then have r: "ReadFull 1 c = (Inr [b], c\<lparr>c_in := bs\<rparr>)" "ReadFull 1 (fed (c_in c)) = (Inr [b], fed bs)"
      by (simp_all add: ReadFull_def fed_def)
    have i: "uvarint_loop n y t (c\<lparr>c_in := bs\<rparr>) = (case uvarint_loop n y t (fed bs) of (r, c1) \<Rightarrow> (r, c\<lparr>c_in := c_in c1\<rparr>))" for y t
      using Suc.IH [of y t "c\<lparr>c_in := bs\<rparr>"] by simp
    have f: "c_in (fed bs) = bs" by (simp add: fed_def)
    show ?thesis unfolding uvarint_loop.simps r prod.case sum.case nth_Cons_0 Let_def
      by (auto simp: f i simp del: uvarint_loop.simps)
  qed
qed (simp add: fed_def)

lemma ReadUvarint_fed: "ReadUvarint c = (case ReadUvarint (fed (c_in c)) of (r, c1) \<Rightarrow> (r, c\<lparr>c_in := c_in c1\<rparr>))"
  unfolding ReadUvarint_def by (rule uvarint_loop_in)

lemma gun_open_once [simp]: "gun_open g \<Longrightarrow> once_Do trip g = g"
  by (simp add: gun_open_def once_Do_def)

lemma gun_read_rest:
  assumes "gun_open g" and "0 < g_remain g"
  shows "gun_comp_Read trip k g = (Inr (take k (take (g_remain g) (c_in (g_br g)))),
    g\<lparr>g_br := (g_br g)\<lparr>c_in := drop (min k (g_remain g)) (c_in (g_br g))\<rparr>, g_remain := g_remain g - min k (g_remain g)\<rparr>)"
  using assms by (simp add: gun_comp_Read_def Gun_Read_def gun_open_def full_read_def ReadFull_def min_def Let_def once_Do_def)

lemma ReadUvarint_out: "ReadUvarint (fed inp) = (r, c) \<Longrightarrow> c = fed (c_in c)"
proof -
  assume h: "ReadUvarint (fed inp) = (r, c)"
  have i: "c_in (fed inp) = inp" by (simp add: fed_def)
  from ReadUvarint_fed [of "fed inp"] have "c = (fed inp)\<lparr>c_in := c_in c\<rparr>" unfolding i h prod.case prod.inject by blast
  also have "\<dots> = fed (c_in c)" by (simp add: fed_def)
  finally show "c = fed (c_in c)" .
qed

lemma ungun_parts:
  assumes "ungun u buf = Some (p, rest)"
  shows "\<exists>x inp. ReadUvarint (fed (drop 6 buf)) = (Inr x, fed inp) \<and> 6 \<le> length buf \<and> 0 \<le> sint x \<and>
    nat (sint x) \<le> length inp \<and> p = take (nat (sint x)) inp \<and> rest = drop (nat (sint x)) inp"
proof -
  obtain r c where rc: "ReadUvarint (fed (drop 6 buf)) = (r, c)" by fastforce
  from assms obtain x where x: "r = Inr x" by (cases r) (auto simp: ungun_def rc)
  then have "ReadUvarint (fed (drop 6 buf)) = (Inr x, fed (c_in c))" using rc ReadUvarint_out [OF rc] by simp
  moreover have "6 \<le> length buf \<and> 0 \<le> sint x \<and> nat (sint x) \<le> length (c_in c) \<and> p = take (nat (sint x)) (c_in c) \<and> rest = drop (nat (sint x)) (c_in c)"
    using assms by (auto simp: ungun_def rc x split: if_splits)
  ultimately show ?thesis by blast
qed

lemma gun_read_next:
  assumes "gun_open g" and "g_remain g = 0" and "ungun () (c_in (g_br g)) = Some (p, rest)"
  shows "gun_comp_Read trip k g = (Inr (take k p), g\<lparr>g_br := (g_br g)\<lparr>c_in := drop k p @ rest\<rparr>, g_remain := length p - k\<rparr>)"
proof -
  let ?c = "g_br g"
  obtain x inp where x: "ReadUvarint (fed (drop 6 (c_in ?c))) = (Inr x, fed inp)" "6 \<le> length (c_in ?c)" "0 \<le> sint x"
    "nat (sint x) \<le> length inp" "p = take (nat (sint x)) inp" "rest = drop (nat (sint x)) inp"
    using ungun_parts [OF assms(3)] by blast
  have h: "full_read 6 ?c = ((take 6 (c_in ?c), None), ?c\<lparr>c_in := drop 6 (c_in ?c)\<rparr>)"
    using x(2) by (simp add: full_read_def ReadFull_def)
  have u: "ReadUvarint (?c\<lparr>c_in := drop 6 (c_in ?c)\<rparr>) = (Inr x, ?c\<lparr>c_in := inp\<rparr>)"
    using ReadUvarint_fed [of "?c\<lparr>c_in := drop 6 (c_in ?c)\<rparr>"] x(1) by (simp add: fed_def)
  have d: "full_read (min k (length p)) (?c\<lparr>c_in := inp\<rparr>) = ((take k p, None), ?c\<lparr>c_in := drop k p @ rest\<rparr>)"
    using full_read_append [of "min k (length p)" p rest] x(4-6) by (cases ?c) (simp add: min_def)
  have n: "nat (sint x) = length p" "\<not> sint x < 0" using x(3-5) by simp_all
  show ?thesis using assms(1,2) x(3)
    by (simp add: gun_comp_Read_def Gun_Read_def gun_open_def once_Do_def h u n d Let_def)
qed

interpretation gun_reader: layered_reader "\<lambda>_. True" "\<lambda>_. gun_frame" "\<lambda>_. ()" ungun gun_maxlen "gun_comp_Read trip" gun_view gun_open for trip
proof
  fix g k b st l
  assume g: "gun_open g"
  show "\<exists>g'. gun_comp_Read trip k g = (Inr b, g') \<and> gun_open g' \<and> gun_view g' = st"
    if *: "buffered_read ungun (\<lambda>_. ()) k (gun_view g) = Some (b, st)"
  proof (cases "g_remain g = 0")
    case True
    then obtain p rest where p: "ungun () (c_in (g_br g)) = Some (p, rest)" "b = take k p" "st = ((), drop k p, rest)"
      using * by (auto simp: buffered_read_def gun_view_def split: option.splits)
    then show ?thesis using gun_read_next [OF g True p(1)] g by (simp add: gun_open_def gun_view_def)
  next
    case False
    then have n: "0 < g_remain g" "g_remain g \<le> length (c_in (g_br g))" using g by (simp_all add: gun_open_def)
    then have "take (g_remain g) (c_in (g_br g)) \<noteq> []" by auto
    then show ?thesis using gun_read_rest [OF g n(1), of trip k] * g n
      by (auto simp: buffered_read_def gun_view_def gun_open_def min_def take_drop)
  qed
  show "\<exists>e g'. gun_comp_Read trip k g = (Inl e, g')" if "gun_view g = (l, [], [])"
  proof -
    have "c_in (g_br g) = []" "g_remain g = 0" using that g by (auto simp: gun_view_def gun_open_def)
    then show ?thesis using g by (simp add: gun_comp_Read_def Gun_Read_def full_read_def ReadFull_def Let_def gun_open_def once_Do_def)
  qed
qed

lemma Gun_writes:
  "g_writer g = None \<Longrightarrow> writes Gun_Write bs g = Some (map length bs, g\<lparr>g_sent := g_sent g @ records (\<lambda>_. gun_frame) (\<lambda>_. ()) () bs\<rparr>)"
proof (induction bs arbitrary: g)
  case (Cons b bs)
  then show ?case using Cons.IH [of "g\<lparr>g_sent := g_sent g @ gun_frame b\<rparr>"] by (simp add: Gun_Write_def)
qed simp

text \<open> C20. What one end writes, in any number of writes, a client whose response it is reads, in order.\<close>

theorem gun_stream_roundtrip:
  assumes "\<forall>b\<in>set bs. b \<noteq> [] \<and> length b \<le> gun_maxlen" and "\<forall>k\<in>set ks. 0 < k"
  shows "\<exists>g n g'. writes Gun_Write bs StreamGun = Some (map length bs, g) \<and>
    reads (gun_comp_Read trip) ks (once_Do (Inr (g_sent g)) StreamGun) = (take n (concat bs), g') \<and>
    min (length ks) (length (concat bs)) \<le> n"
proof -
  let ?out = "records (\<lambda>_. gun_frame) (\<lambda>_. ()) () bs" and ?g = "once_Do (Inr (records (\<lambda>_. gun_frame) (\<lambda>_. ()) () bs)) StreamGun"
  have w: "writes Gun_Write bs StreamGun = Some (map length bs, StreamGun\<lparr>g_sent := ?out\<rparr>)"
    using Gun_writes [of StreamGun bs] by (simp add: StreamGun_def)
  have o: "gun_open ?g" "gun_view ?g = ((), [], ?out)"
    by (simp_all add: StreamGun_def once_Do_def initRequest_def gun_open_def gun_view_def fed_def)
  have "gun_messages.pending (gun_view ?g) (concat bs)"
    unfolding o(2) by (rule gun_messages.pending_start) (use assms(1) in simp_all)
  from gun_reader.reads_all [OF this o(1) assms(2)] w show ?thesis by auto
qed

text \<open>A message whose length does not fit an \<open>int\<close> is a panic of the reader.\<close>

theorem gun_huge_length_panics:
  assumes "gun_open g" and "g_remain g = 0" and "c_in (g_br g) = pre @ PutUvarint x @ rest" and "length pre = 6" and "sint x < 0"
  shows "Gun_Read trip k g = None"
proof -
  obtain w l where c: "g_br g = \<lparr>c_in = pre @ PutUvarint x @ rest, c_out = w, c_writes = l\<rparr>" using assms(3) by (cases "g_br g") simp
  have "full_read 6 (g_br g) = ((pre, None), \<lparr>c_in = PutUvarint x @ rest, c_out = w, c_writes = l\<rparr>)"
    unfolding c by (subst full_read_append) (simp_all add: assms(4))
  then show ?thesis using assms by (simp add: Gun_Read_def gun_open_def once_Do_def ReadUvarint_Put Let_def)
qed

theorem gun_stream_roundtrip_witness:
  "\<exists>g n g'. writes Gun_Write [[1, 2], [3]] StreamGun = Some (map length [[1, 2], [3 :: u8]], g) \<and>
    reads (gun_comp_Read (Inr [])) [1, 5] (once_Do (Inr (g_sent g)) StreamGun) = (take n (concat [[1, 2], [3]]), g') \<and>
    min (length [1, 5 :: nat]) (length (concat [[1, 2], [3 :: u8]])) \<le> n"
  by (rule gun_stream_roundtrip) (simp_all add: gun_maxlen_def)

theorem gun_huge_length_panics_witness:
  "Gun_Read (Inr []) 9 (once_Do (Inr ([0, 0, 0, 0, 9, 10] @ PutUvarint 0xFFFFFFFFFFFFFFFF @ [])) StreamGun) = None"
  by (rule gun_huge_length_panics [where pre = "[0, 0, 0, 0, 9, 10]" and x = "0xFFFFFFFFFFFFFFFF" and rest = "[]"])
    (simp_all add: StreamGun_def once_Do_def initRequest_def gun_open_def fed_def)

end
