(* ===== verification/NameLookup.thy ===== *)
theory NameLookup
  imports DomainTrie HostPort ErrState Singledo
begin

unbundle bit_operations_syntax

text \<open>
  What dialling rests on: the look up of names (\<open>src/pkg/clash/component/resolver/resolver.go\<close>), with the hosts table, the
  resolver of the program as an interface and the one of the system, and the addresses of the network interfaces
  (\<open>src/pkg/clash/component/iface/iface.go\<close>), kept for twenty seconds. An address that is \<open>nil\<close> is the empty list.
\<close>

subsection \<open>Classes of addresses (package net)\<close>

definition IPv6loopback :: go_ip where "IPv6loopback = replicate 15 0 @ [1]"
definition IPv6zero :: go_ip where "IPv6zero = replicate 16 0"

definition IsLinkLocalUnicast :: "go_ip \<Rightarrow> bool" where
  "IsLinkLocalUnicast ip =
     (let ip4 = To4 ip in
      if ip4 \<noteq> [] then ip4 ! 0 = 169 \<and> ip4 ! 1 = 254 else length ip = 16 \<and> ip ! 0 = 0xfe \<and> ip ! 1 AND 0xc0 = 0x80)"

definition IsMulticast :: "go_ip \<Rightarrow> bool" where
  "IsMulticast ip = (let ip4 = To4 ip in if ip4 \<noteq> [] then ip4 ! 0 AND 0xf0 = 0xe0 else length ip = 16 \<and> ip ! 0 = 0xff)"

definition IsLoopback :: "go_ip \<Rightarrow> bool" where
  "IsLoopback ip = (let ip4 = To4 ip in if ip4 \<noteq> [] then ip4 ! 0 = 127 else ip = IPv6loopback)"

definition IsGlobalUnicast :: "go_ip \<Rightarrow> bool" where
  "IsGlobalUnicast ip \<longleftrightarrow>
     (length ip = 4 \<or> length ip = 16) \<and> To4 ip \<noteq> [255, 255, 255, 255] \<and> To4 ip \<noteq> [0, 0, 0, 0] \<and> ip \<noteq> IPv6zero \<and>
     \<not> IsLoopback ip \<and> \<not> IsMulticast ip \<and> \<not> IsLinkLocalUnicast ip"

record ip_net =
  in_IP :: go_ip
  in_Mask :: "u8 list"

definition networkNumberAndMask :: "ip_net \<Rightarrow> (go_ip \<times> u8 list) option" where
  "networkNumberAndMask n =
     (let ip4 = To4 (in_IP n); ip = (if ip4 \<noteq> [] then ip4 else in_IP n); m = in_Mask n in
      if ip4 = [] \<and> length ip \<noteq> 16 then None
      else if length m = 4 then (if length ip \<noteq> 4 then None else Some (ip, m))
      else if length m = 16 then Some (ip, if length ip = 4 then drop 12 m else m)
      else None)"

definition IPNet_Contains :: "ip_net \<Rightarrow> go_ip \<Rightarrow> bool" where
  "IPNet_Contains n ip0 =
     (let ip = (if To4 ip0 \<noteq> [] then To4 ip0 else ip0) in
      case networkNumberAndMask n of
        None \<Rightarrow> ip = []
      | Some (nn, m) \<Rightarrow> length ip = length nn \<and> map2 (AND) nn m = map2 (AND) ip m)"

subsection \<open>Network interfaces (iface.go)\<close>

record net_iface =
  if_Index :: int
  if_Name :: string
  if_Addrs :: "ip_net list"

datatype iface_error = InterfacesFailed string | ErrIfaceNotFound | ErrAddrNotFound

text \<open>
  What the system reports: the interfaces with their addresses, or an error of either. An interface without addresses
  to report is left out; of two with one name the later stays.
\<close>

type_synonym sys_iface = "int \<times> string \<times> (string + ip_net list)"

definition unmap_net :: "ip_net \<Rightarrow> ip_net" where
  "unmap_net n = (if To4 (in_IP n) \<noteq> [] then n\<lparr>in_IP := To4 (in_IP n)\<rparr> else n)"

fun read_ifaces :: "sys_iface list \<Rightarrow> (string \<rightharpoonup> net_iface) \<Rightarrow> (string \<rightharpoonup> net_iface)" where
  "read_ifaces [] r = r"
| "read_ifaces ((idx, name, Inl e) # is) r = read_ifaces is r"
| "read_ifaces ((idx, name, Inr addrs) # is) r =
     read_ifaces is (r(name \<mapsto> \<lparr>if_Index = idx, if_Name = name, if_Addrs = map unmap_net addrs\<rparr>))"

type_synonym iface_cache = "(iface_error + (string \<rightharpoonup> net_iface)) single"

definition new_interfaces :: iface_cache where
  "new_interfaces = NewSingle 20000000000"

text \<open>\<open>None\<close> is a panic of the cache, which does not happen from \<open>new_interfaces\<close>.\<close>

definition ResolveInterface ::
  "int \<Rightarrow> string + sys_iface list \<Rightarrow> string \<Rightarrow> iface_cache \<Rightarrow> ((iface_error + net_iface) \<times> iface_cache) option" where
  "ResolveInterface now sys name c =
     (case Single_Do now (\<lambda>_. Some (map_sum InterfacesFailed (\<lambda>is. read_ifaces is Map.empty) sys, ())) c () of
        None \<Rightarrow> None
      | Some (Inl e, _, c', _) \<Rightarrow> Some (Inl e, c')
      | Some (Inr ifaces, _, c', _) \<Rightarrow>
          Some (case ifaces name of None \<Rightarrow> Inl ErrIfaceNotFound | Some i \<Rightarrow> Inr i, c'))"

definition FlushCache :: "iface_cache \<Rightarrow> iface_cache" where
  "FlushCache c = Single_Reset c"

text \<open>The loop: the first accepted address that is not link local, unless one contains the destination.\<close>

fun pick_loop :: "(ip_net \<Rightarrow> bool) \<Rightarrow> go_ip \<Rightarrow> ip_net option \<Rightarrow> ip_net list \<Rightarrow> ip_net option" where
  "pick_loop accept destination fb [] = fb"
| "pick_loop accept destination fb (a # as) =
     (if \<not> accept a then pick_loop accept destination fb as
      else
        let first = (fb = None \<and> \<not> IsLinkLocalUnicast (in_IP a)); fb' = (if first then Some a else fb) in
        if first \<and> destination = [] then fb'
        else if destination \<noteq> [] \<and> IPNet_Contains a destination then Some a
        else pick_loop accept destination fb' as)"

definition pickIPAddr :: "go_ip \<Rightarrow> (ip_net \<Rightarrow> bool) \<Rightarrow> net_iface \<Rightarrow> iface_error + ip_net" where
  "pickIPAddr destination accept i =
     (case pick_loop accept destination None (if_Addrs i) of None \<Rightarrow> Inl ErrAddrNotFound | Some a \<Rightarrow> Inr a)"

definition PickIPv4Addr :: "go_ip \<Rightarrow> net_iface \<Rightarrow> iface_error + ip_net" where
  "PickIPv4Addr destination = pickIPAddr destination (\<lambda>a. To4 (in_IP a) \<noteq> [])"

definition PickIPv6Addr :: "go_ip \<Rightarrow> net_iface \<Rightarrow> iface_error + ip_net" where
  "PickIPv6Addr destination = pickIPAddr destination (\<lambda>a. To4 (in_IP a) = [])"

subsection \<open>Look up of names (resolver.go)\<close>

datatype resolve_error = ErrIPNotFound | ErrIPVersion | ErrIPv6Disabled | LookupFailed string

text \<open>The interface \<open>Resolver\<close>, and what the package keeps.\<close>

record 's name_resolver =
  nr_LookupIP :: "string \<Rightarrow> ('s, resolve_error, go_ip list) comp"
  nr_LookupIPv4 :: "string \<Rightarrow> ('s, resolve_error, go_ip list) comp"
  nr_LookupIPv6 :: "string \<Rightarrow> ('s, resolve_error, go_ip list) comp"

record 's lookup_env =
  le_DefaultResolver :: "'s name_resolver option"
  le_DisableIPv6 :: bool
  le_DefaultHosts :: "go_ip domain_trie"
  le_System :: "string \<Rightarrow> string \<Rightarrow> string + go_ip list"

definition hosts_ip :: "'s lookup_env \<Rightarrow> string \<Rightarrow> go_ip option" where
  "hosts_ip E host = (case Trie_Search host (le_DefaultHosts E) of None \<Rightarrow> None | Some n \<Rightarrow> node_Data n)"

definition system_lookup :: "'s lookup_env \<Rightarrow> string \<Rightarrow> string \<Rightarrow> ('s, resolve_error, go_ip list) comp" where
  "system_lookup E network host s =
     (case le_System E network host of
        Inl e \<Rightarrow> (Inl (LookupFailed e), s)
      | Inr ips \<Rightarrow> if length ips = 0 then (Inl ErrIPNotFound, s) else (Inr ips, s))"

definition Lookup4 :: "'s lookup_env \<Rightarrow> string \<Rightarrow> ('s, resolve_error, go_ip list) comp" where
  "Lookup4 E host s =
     (let ip4 = (case hosts_ip E host of None \<Rightarrow> [] | Some d \<Rightarrow> To4 d) in
      if ip4 \<noteq> [] then (Inr [ip4], s)
      else
        let ip = ParseIP host in
        if ip \<noteq> [] then (if \<not> has_char (CHR '':'') host then (Inr [ip], s) else (Inl ErrIPVersion, s))
        else (case le_DefaultResolver E of Some r \<Rightarrow> nr_LookupIPv4 r host s | None \<Rightarrow> system_lookup E ''ip4'' host s))"

definition Lookup6 :: "'s lookup_env \<Rightarrow> string \<Rightarrow> ('s, resolve_error, go_ip list) comp" where
  "Lookup6 E host s =
     (if le_DisableIPv6 E then (Inl ErrIPv6Disabled, s)
      else
        let ip6 = (case hosts_ip E host of None \<Rightarrow> [] | Some d \<Rightarrow> To16 d) in
        if ip6 \<noteq> [] then (Inr [ip6], s)
        else
          let ip = ParseIP host in
          if ip \<noteq> [] then (if has_char (CHR '':'') host then (Inr [ip], s) else (Inl ErrIPVersion, s))
          else (case le_DefaultResolver E of Some r \<Rightarrow> nr_LookupIPv6 r host s | None \<Rightarrow> system_lookup E ''ip6'' host s))"

definition LookupIPWithResolver ::
  "'s lookup_env \<Rightarrow> string \<Rightarrow> 's name_resolver option \<Rightarrow> ('s, resolve_error, go_ip list) comp" where
  "LookupIPWithResolver E host r s =
     (case hosts_ip E host of
        Some d \<Rightarrow> (Inr [d], s)
      | None \<Rightarrow>
          (case r of
             Some r \<Rightarrow> if le_DisableIPv6 E then nr_LookupIPv4 r host s else nr_LookupIP r host s
           | None \<Rightarrow>
               if le_DisableIPv6 E then Lookup4 E host s
               else let ip = ParseIP host in if ip \<noteq> [] then (Inr [ip], s) else system_lookup E ''ip'' host s))"

definition Lookup_any :: "'s lookup_env \<Rightarrow> string \<Rightarrow> ('s, resolve_error, go_ip list) comp" where
  "Lookup_any E host = LookupIPWithResolver E host (le_DefaultResolver E)"

text \<open>The three functions that resolve pick one address at random: \<open>pick n\<close> is \<open>rand.Intn(n)\<close>.\<close>

definition one_of :: "(nat \<Rightarrow> nat) \<Rightarrow> ('s, resolve_error, go_ip list) comp \<Rightarrow> ('s, resolve_error, go_ip) comp" where
  "one_of pick m = io_bind m (\<lambda>ips. if length ips = 0 then io_fail ErrIPNotFound else io_ret (ips ! pick (length ips)))"

definition Resolve4 :: "'s lookup_env \<Rightarrow> (nat \<Rightarrow> nat) \<Rightarrow> string \<Rightarrow> ('s, resolve_error, go_ip) comp" where
  "Resolve4 E pick host = one_of pick (Lookup4 E host)"

definition Resolve6 :: "'s lookup_env \<Rightarrow> (nat \<Rightarrow> nat) \<Rightarrow> string \<Rightarrow> ('s, resolve_error, go_ip) comp" where
  "Resolve6 E pick host = one_of pick (Lookup6 E host)"

definition Resolve_any :: "'s lookup_env \<Rightarrow> (nat \<Rightarrow> nat) \<Rightarrow> string \<Rightarrow> ('s, resolve_error, go_ip) comp" where
  "Resolve_any E pick host = one_of pick (Lookup_any E host)"

end
