(* ===== verification/Dialer.thy ===== *)
theory Dialer
  imports NameLookup Metadata
begin

text \<open>
  Dialling (\<open>src/pkg/clash/component/dialer/\<close>): the options, the binding of a socket to an interface and a mark on
  Linux (\<open>bind_linux.go\<close>, \<open>mark_linux.go\<close>), the binding to a local address (\<open>fallbackbind.go\<close>), and \<open>dialer.go\<close>, in
  which two goroutines race to connect over IPv4 and IPv6. The system's calls are parameters.
\<close>

subsection \<open>Options (options.go)\<close>

record dial_option =
  do_interfaceName :: string
  do_fallbackBind :: bool
  do_addrReuse :: bool
  do_routingMark :: int

datatype option_fun = WithInterface string | WithFallbackBind bool | WithAddrReuse bool | WithRoutingMark int

fun apply_dial_option :: "option_fun \<Rightarrow> dial_option \<Rightarrow> dial_option" where
  "apply_dial_option (WithInterface name) opt = opt\<lparr>do_interfaceName := name\<rparr>"
| "apply_dial_option (WithFallbackBind b) opt = opt\<lparr>do_fallbackBind := b\<rparr>"
| "apply_dial_option (WithAddrReuse b) opt = opt\<lparr>do_addrReuse := b\<rparr>"
| "apply_dial_option (WithRoutingMark m) opt = opt\<lparr>do_routingMark := m\<rparr>"

record dial_defaults =
  dd_Options :: "option_fun list"
  dd_Interface :: string
  dd_RoutingMark :: int

definition dial_options :: "dial_defaults \<Rightarrow> option_fun list \<Rightarrow> dial_option" where
  "dial_options D os =
     fold apply_dial_option os (fold apply_dial_option (dd_Options D)
       \<lparr>do_interfaceName = dd_Interface D, do_fallbackBind = False, do_addrReuse = False, do_routingMark = dd_RoutingMark D\<rparr>)"

subsection \<open>Controls of a socket (bind_linux.go, mark_linux.go, reuse_unix.go)\<close>

text \<open>
  A control sets an option of the socket before it is used, and then runs the control it was chained to. Binding and
  marking leave alone a socket whose address is not global unicast. \<open>setsockopt\<close> says whether an option can be set;
  the result is the error and the options set.
\<close>

datatype control = BindToDevice string | SetMark int | ReuseAddr

definition exempt :: "string \<Rightarrow> bool" where
  "exempt address =
     (case SplitHostPort address of
        None \<Rightarrow> False | Some (h, _) \<Rightarrow> ParseIP h \<noteq> [] \<and> \<not> IsGlobalUnicast (ParseIP h))"

fun run_controls :: "(control \<Rightarrow> string option) \<Rightarrow> string \<Rightarrow> control list \<Rightarrow> string option \<times> control list" where
  "run_controls setsockopt address [] = (None, [])"
| "run_controls setsockopt address (c # cs) =
     (if c \<noteq> ReuseAddr \<and> exempt address then run_controls setsockopt address cs
      else (case setsockopt c of
              Some e \<Rightarrow> (Some e, [])
            | None \<Rightarrow> (case run_controls setsockopt address cs of (e, done) \<Rightarrow> (e, c # done))))"

subsection \<open>Binding to a local address (fallbackbind.go)\<close>

datatype dialer_error =
  AddressFormat | NetworkInvalid | ResolveFailed resolve_error | IfaceFailed iface_error | DialFailed string

datatype local_addr = TCPAddr sock_addr | UDPAddr sock_addr

definition local_addr_String :: "local_addr \<Rightarrow> string" where
  "local_addr_String a = (case a of TCPAddr s \<Rightarrow> sock_String s | UDPAddr s \<Rightarrow> sock_String s)"

text \<open>\<open>strconv.ParseUint(s, 10, 16)\<close> with its error dropped: zero for what is no number, the maximum for a large one.\<close>

definition parse_port_lax :: "string \<Rightarrow> nat" where
  "parse_port_lax s = (if s \<noteq> [] \<and> list_all is_digit s then min (dec_nat s) 65535 else 0)"

definition lookupLocalAddr :: "(string \<Rightarrow> iface_error + net_iface) \<Rightarrow> string \<Rightarrow> string \<Rightarrow> go_ip \<Rightarrow> nat \<Rightarrow> iface_error + local_addr" where
  "lookupLocalAddr resolve ifaceName network destination port =
     (case resolve ifaceName of
        Inl e \<Rightarrow> Inl e
      | Inr i \<Rightarrow>
          let picked =
            (if network \<in> {''udp4'', ''tcp4''} then PickIPv4Addr destination i
             else if network \<in> {''tcp6'', ''udp6''} then PickIPv6Addr destination i
             else if destination \<noteq> [] then
               (if To4 destination \<noteq> [] then PickIPv4Addr destination i else PickIPv6Addr destination i)
             else PickIPv4Addr destination i) in
          (case picked of
             Inl e \<Rightarrow> Inl e
           | Inr a \<Rightarrow>
               let s = \<lparr>sa_IP = in_IP a, sa_Port = int port, sa_Zone = []\<rparr> in
               if has_prefix network ''tcp'' then Inr (TCPAddr s)
               else if has_prefix network ''udp'' then Inr (UDPAddr s)
               else Inl ErrAddrNotFound))"

text \<open>A dialer of package net, as far as it is set here; controls run from the head of the list.\<close>

record net_dialer =
  nd_LocalAddr :: "local_addr option"
  nd_Control :: "control list"

definition fallbackBindIfaceToDialer ::
  "(string \<Rightarrow> iface_error + net_iface) \<Rightarrow> string \<Rightarrow> net_dialer \<Rightarrow> string \<Rightarrow> go_ip \<Rightarrow> iface_error + net_dialer" where
  "fallbackBindIfaceToDialer resolve ifaceName d network destination =
     (if \<not> IsGlobalUnicast destination then Inr d
      else
        let loc = (case nd_LocalAddr d of
            None \<Rightarrow> 0
          | Some a \<Rightarrow> (case SplitHostPort (local_addr_String a) of None \<Rightarrow> 0 | Some (_, p) \<Rightarrow> parse_port_lax p)) in
        map_sum id (\<lambda>a. d\<lparr>nd_LocalAddr := Some a\<rparr>) (lookupLocalAddr resolve ifaceName network destination loc))"

definition fallbackBindIfaceToListenConfig ::
  "(string \<Rightarrow> iface_error + net_iface) \<Rightarrow> string \<Rightarrow> string \<Rightarrow> string \<Rightarrow> iface_error + string" where
  "fallbackBindIfaceToListenConfig resolve ifaceName network address =
     (let port = (case SplitHostPort address of None \<Rightarrow> ''0'' | Some (_, p) \<Rightarrow> p) in
      map_sum id local_addr_String (lookupLocalAddr resolve ifaceName network [] (parse_port_lax port)))"

subsection \<open>One dial (dialer.go)\<close>

text \<open>
  The dialer that \<open>dialContext\<close> makes for its destination, or the error of binding it; then the system dials the
  address. \<open>sys_dial\<close> gives the error or the connection.
\<close>

definition made_dialer ::
  "(string \<Rightarrow> iface_error + net_iface) \<Rightarrow> dial_option \<Rightarrow> string \<Rightarrow> go_ip \<Rightarrow> iface_error + net_dialer" where
  "made_dialer resolve opt network destination =
     (let d = \<lparr>nd_LocalAddr = None, nd_Control = []\<rparr>;
          bound =
            (if do_interfaceName opt \<noteq> [] then
               (if do_fallbackBind opt then fallbackBindIfaceToDialer resolve (do_interfaceName opt) d network destination
                else Inr (d\<lparr>nd_Control := BindToDevice (do_interfaceName opt) # nd_Control d\<rparr>))
             else Inr d) in
      map_sum id (\<lambda>d. if do_routingMark opt \<noteq> 0 then d\<lparr>nd_Control := SetMark (do_routingMark opt) # nd_Control d\<rparr> else d) bound)"

definition dialContext ::
  "(string \<Rightarrow> iface_error + net_iface) \<Rightarrow> (net_dialer \<Rightarrow> string \<Rightarrow> string \<Rightarrow> string + 'c) \<Rightarrow> dial_defaults \<Rightarrow> string \<Rightarrow> go_ip \<Rightarrow> string \<Rightarrow>
   option_fun list \<Rightarrow> dialer_error + 'c" where
  "dialContext resolve sys_dial D network destination port os =
     (case made_dialer resolve (dial_options D os) network destination of
        Inl e \<Rightarrow> Inl (IfaceFailed e)
      | Inr d \<Rightarrow> map_sum DialFailed id (sys_dial d network (JoinHostPort (IP_String destination) port)))"

text \<open>The address and the controls of the socket that \<open>ListenPacket\<close> opens.\<close>

definition listen_config ::
  "(string \<Rightarrow> iface_error + net_iface) \<Rightarrow> dial_option \<Rightarrow> string \<Rightarrow> string \<Rightarrow> iface_error + (string \<times> control list)" where
  "listen_config resolve cfg network address =
     (let bound =
        (if do_interfaceName cfg \<noteq> [] then
           (if do_fallbackBind cfg
            then map_sum id (\<lambda>a. (a, [])) (fallbackBindIfaceToListenConfig resolve (do_interfaceName cfg) network address)
            else Inr (address, [BindToDevice (do_interfaceName cfg)]))
         else Inr (address, [])) in
      map_sum id (\<lambda>(a, cs).
        let cs = (if do_addrReuse cfg then ReuseAddr # cs else cs) in
        (a, if do_routingMark cfg \<noteq> 0 then SetMark (do_routingMark cfg) # cs else cs)) bound)"

definition Dialer_ListenPacket ::
  "(string \<Rightarrow> iface_error + net_iface) \<Rightarrow> (control list \<Rightarrow> string \<Rightarrow> string \<Rightarrow> string + 'c) \<Rightarrow> dial_defaults \<Rightarrow> string \<Rightarrow> string \<Rightarrow>
   option_fun list \<Rightarrow> dialer_error + 'c" where
  "Dialer_ListenPacket resolve sys_listen D network address os =
     (case listen_config resolve (dial_options D os) network address of
        Inl e \<Rightarrow> Inl (IfaceFailed e)
      | Inr (a, cs) \<Rightarrow> map_sum DialFailed id (sys_listen cs network a))"

subsection \<open>The race of \<open>dualStackDialContext\<close>\<close>

text \<open>
  The two racers resolve the host and dial; then they wait to hand their result to the function, or to see that it has
  returned, when they close the connection they made. The steps are those of one call, whose racers come to the results
  \<open>r\<close>; \<open>dr_error\<close> is empty exactly when there is a connection, and then the host was resolved.
\<close>

datatype family = V4 | V6

record dial_result =
  dr_error :: "dialer_error option"
  dr_resolved :: bool

definition racers_ok :: "(family \<Rightarrow> dial_result) \<Rightarrow> bool" where
  "racers_ok r \<longleftrightarrow> (\<forall>f. dr_error (r f) = None \<longrightarrow> dr_resolved (r f))"

datatype racer = Resolving | Dialing | Offering | Gone

text \<open>The function holds the results it got, \<open>primary\<close> of IPv4 and \<open>fallback\<close> of IPv6, until it returns.\<close>

datatype waiting = Racing "dial_result option" "dial_result option" | Returned "dialer_error + family"

record dual_dial =
  dl_pc :: "family \<Rightarrow> racer"
  dl_main :: waiting
  dl_opened :: "family \<Rightarrow> nat"
  dl_closed :: "family \<Rightarrow> nat"

definition dual_start :: dual_dial where
  "dual_start = \<lparr>dl_pc = (\<lambda>_. Resolving), dl_main = Racing None None, dl_opened = (\<lambda>_. 0), dl_closed = (\<lambda>_. 0)\<rparr>"

definition race_error :: "dial_result \<Rightarrow> dial_result \<Rightarrow> dialer_error + family" where
  "race_error primary fallback =
     (if dr_resolved primary then Inl (the (dr_error primary))
      else if dr_resolved fallback then Inl (the (dr_error fallback))
      else Inl (the (dr_error primary)))"

text \<open>The body of the loop over the results.\<close>

definition take_result :: "family \<Rightarrow> dial_result \<Rightarrow> dial_result option \<Rightarrow> dial_result option \<Rightarrow> waiting" where
  "take_result f res primary fallback =
     (case dr_error res of
        None \<Rightarrow> Returned (Inr f)
      | Some e \<Rightarrow>
          let primary = (if f = V4 then Some res else primary); fallback = (if f = V6 then Some res else fallback) in
          (case (primary, fallback) of
             (Some p, Some q) \<Rightarrow> Returned (race_error p q)
           | _ \<Rightarrow> Racing primary fallback))"

inductive dual_step :: "(family \<Rightarrow> dial_result) \<Rightarrow> dual_dial \<Rightarrow> dual_dial \<Rightarrow> bool" for r where
  resolve_fails: "dl_pc s f = Resolving \<Longrightarrow> \<not> dr_resolved (r f) \<Longrightarrow> dual_step r s (s\<lparr>dl_pc := (dl_pc s)(f := Offering)\<rparr>)"
| resolve_works: "dl_pc s f = Resolving \<Longrightarrow> dr_resolved (r f) \<Longrightarrow> dual_step r s (s\<lparr>dl_pc := (dl_pc s)(f := Dialing)\<rparr>)"
| dial_fails: "dl_pc s f = Dialing \<Longrightarrow> dr_error (r f) \<noteq> None \<Longrightarrow> dual_step r s (s\<lparr>dl_pc := (dl_pc s)(f := Offering)\<rparr>)"
| dial_works: "dl_pc s f = Dialing \<Longrightarrow> dr_error (r f) = None \<Longrightarrow>
    dual_step r s (s\<lparr>dl_pc := (dl_pc s)(f := Offering), dl_opened := (dl_opened s)(f := dl_opened s f + 1)\<rparr>)"
| result_taken: "dl_pc s f = Offering \<Longrightarrow> dl_main s = Racing p q \<Longrightarrow>
    dual_step r s (s\<lparr>dl_pc := (dl_pc s)(f := Gone), dl_main := take_result f (r f) p q\<rparr>)"
| result_dropped: "dl_pc s f = Offering \<Longrightarrow> dl_main s = Returned x \<Longrightarrow>
    dual_step r s (s\<lparr>dl_pc := (dl_pc s)(f := Gone),
      dl_closed := (if dr_error (r f) = None then (dl_closed s)(f := dl_closed s f + 1) else dl_closed s)\<rparr>)"

definition dual_finished :: "dual_dial \<Rightarrow> bool" where
  "dual_finished s \<longleftrightarrow> dl_pc s V4 = Gone \<and> dl_pc s V6 = Gone \<and> (\<exists>x. dl_main s = Returned x)"

subsection \<open>\<open>DialContext\<close>\<close>

text \<open>
  What a racer comes to, and the function when the result of \<open>first\<close> is the first to arrive. The racer that does not
  come first still runs; of the two the model runs that of IPv4 first.
\<close>

definition racer_result ::
  "('s, resolve_error, go_ip) comp \<Rightarrow> (go_ip \<Rightarrow> dialer_error + 'c) \<Rightarrow> 's \<Rightarrow> dial_result \<times> 'c option \<times> 's" where
  "racer_result res dial s =
     (case res s of
        (Inl e, s') \<Rightarrow> (\<lparr>dr_error = Some (ResolveFailed e), dr_resolved = False\<rparr>, None, s')
      | (Inr ip, s') \<Rightarrow>
          (case dial ip of
             Inl e \<Rightarrow> (\<lparr>dr_error = Some e, dr_resolved = True\<rparr>, None, s')
           | Inr c \<Rightarrow> (\<lparr>dr_error = None, dr_resolved = True\<rparr>, Some c, s')))"

definition other :: "family \<Rightarrow> family" where
  "other f = (case f of V4 \<Rightarrow> V6 | V6 \<Rightarrow> V4)"

definition race_outcome :: "family \<Rightarrow> (family \<Rightarrow> dial_result) \<Rightarrow> dialer_error + family" where
  "race_outcome first r =
     (case take_result first (r first) None None of
        Returned x \<Rightarrow> x
      | Racing p q \<Rightarrow> (case take_result (other first) (r (other first)) p q of Returned x \<Rightarrow> x | Racing _ _ \<Rightarrow> Inl NetworkInvalid))"

definition dualStackDialContext ::
  "family \<Rightarrow> 's lookup_env \<Rightarrow> (nat \<Rightarrow> nat) \<Rightarrow> (string \<Rightarrow> go_ip \<Rightarrow> string \<Rightarrow> option_fun list \<Rightarrow> dialer_error + 'c) \<Rightarrow>
   string \<Rightarrow> string \<Rightarrow> option_fun list \<Rightarrow> ('s, dialer_error, 'c) comp" where
  "dualStackDialContext first E pick dial network address os s =
     (case SplitHostPort address of
        None \<Rightarrow> (Inl AddressFormat, s)
      | Some (host, port) \<Rightarrow>
          (case racer_result (Resolve4 E pick host) (\<lambda>ip. dial (network @ ''4'') ip port os) s of
             (r4, c4, s4) \<Rightarrow>
               (case racer_result (Resolve6 E pick host) (\<lambda>ip. dial (network @ ''6'') ip port os) s4 of
                  (r6, c6, s6) \<Rightarrow>
                    (case race_outcome first (\<lambda>f. case f of V4 \<Rightarrow> r4 | V6 \<Rightarrow> r6) of
                       Inl e \<Rightarrow> (Inl e, s6)
                     | Inr V4 \<Rightarrow> (Inr (the c4), s6)
                     | Inr V6 \<Rightarrow> (Inr (the c6), s6)))))"

definition Dialer_DialContext ::
  "family \<Rightarrow> 's lookup_env \<Rightarrow> (nat \<Rightarrow> nat) \<Rightarrow> (string \<Rightarrow> go_ip \<Rightarrow> string \<Rightarrow> option_fun list \<Rightarrow> dialer_error + 'c) \<Rightarrow>
   string \<Rightarrow> string \<Rightarrow> option_fun list \<Rightarrow> ('s, dialer_error, 'c) comp" where
  "Dialer_DialContext first E pick dial network address os s =
     (if network \<in> {''tcp4'', ''tcp6'', ''udp4'', ''udp6''} then
        (case SplitHostPort address of
           None \<Rightarrow> (Inl AddressFormat, s)
         | Some (host, port) \<Rightarrow>
             (case (if network \<in> {''tcp4'', ''udp4''} then Resolve4 E pick host s else Resolve6 E pick host s) of
                (Inl e, s') \<Rightarrow> (Inl (ResolveFailed e), s')
              | (Inr ip, s') \<Rightarrow> (dial network ip port os, s')))
      else if network \<in> {''tcp'', ''udp''} then dualStackDialContext first E pick dial network address os s
      else (Inl NetworkInvalid, s))"

end
