(* ===== verification/DialerProps.thy ===== *)
theory DialerProps
  imports Dialer
begin

text \<open>
  What dialling promises: the race of the two families ends in every interleaving, leaks no connection and reports the
  error of the family that got furthest; the steps allow exactly the outcomes that \<open>DialContext\<close> computes with; literal
  addresses are dialled without a resolver; and the address of an interface is picked by its contract.
\<close>

subsection \<open>The race ends\<close>

definition racer_left :: "racer \<Rightarrow> nat" where
  "racer_left p = (case p of Resolving \<Rightarrow> 3 | Dialing \<Rightarrow> 2 | Offering \<Rightarrow> 1 | Gone \<Rightarrow> 0)"

definition dual_left :: "dual_dial \<Rightarrow> nat" where
  "dual_left s = racer_left (dl_pc s V4) + racer_left (dl_pc s V6)"

lemma dual_left_upd: "racer_left p < racer_left (dl_pc s f) \<Longrightarrow> dl_pc s' = (dl_pc s)(f := p) \<Longrightarrow> dual_left s' < dual_left s"
  by (cases f) (simp_all add: dual_left_def)

lemma dual_step_left: "dual_step r s s' \<Longrightarrow> dual_left s' < dual_left s"
  by (erule dual_step.cases; rule dual_left_upd) (simp_all add: racer_left_def)

subsection \<open>The invariant\<close>

text \<open>
  What is known of the connection of a family, how often it was opened and closed, by the place of its racer, and of
  what the function holds.
\<close>

definition family_ok :: "(family \<Rightarrow> dial_result) \<Rightarrow> dual_dial \<Rightarrow> family \<Rightarrow> bool" where
  "family_ok r s f \<longleftrightarrow>
     dl_opened s f = (if dl_pc s f \<in> {Offering, Gone} \<and> dr_error (r f) = None then 1 else 0) \<and>
     dl_closed s f = (if dl_pc s f = Gone \<and> dl_main s \<noteq> Returned (Inr f) then dl_opened s f else 0)"

definition main_ok :: "(family \<Rightarrow> dial_result) \<Rightarrow> dual_dial \<Rightarrow> bool" where
  "main_ok r s \<longleftrightarrow>
     (case dl_main s of
        Racing p q \<Rightarrow>
          p = (if dl_pc s V4 = Gone then Some (r V4) else None) \<and> q = (if dl_pc s V6 = Gone then Some (r V6) else None) \<and>
          (dl_pc s V4 = Gone \<longrightarrow> dr_error (r V4) \<noteq> None) \<and> (dl_pc s V6 = Gone \<longrightarrow> dr_error (r V6) \<noteq> None) \<and>
          \<not> (dl_pc s V4 = Gone \<and> dl_pc s V6 = Gone)
      | Returned (Inr f) \<Rightarrow> dl_pc s f = Gone \<and> dr_error (r f) = None
      | Returned (Inl e) \<Rightarrow>
          dl_pc s V4 = Gone \<and> dl_pc s V6 = Gone \<and> dr_error (r V4) \<noteq> None \<and> dr_error (r V6) \<noteq> None \<and>
          Inl e = race_error (r V4) (r V6))"

definition dual_ok :: "(family \<Rightarrow> dial_result) \<Rightarrow> dual_dial \<Rightarrow> bool" where
  "dual_ok r s \<longleftrightarrow> main_ok r s \<and> (\<forall>f. family_ok r s f)"

lemma family_all: "(\<forall>f. P f) \<longleftrightarrow> P V4 \<and> P V6"
  by (metis family.exhaust)

lemma dual_start_ok: "dual_ok r dual_start"
  by (simp add: dual_ok_def main_ok_def family_ok_def dual_start_def)

lemma race_error_Inl [simp]: "race_error p q \<noteq> Inr f"
  by (simp add: race_error_def)

text \<open>What taking a result does to the function, in the states that occur.\<close>

lemma take_result_ok:
  assumes "main_ok r s" and "dl_main s = Racing p q" and "dl_pc s f = Offering"
  shows "main_ok r (s\<lparr>dl_pc := (dl_pc s)(f := Gone), dl_main := take_result f (r f) p q\<rparr>)"
  using assms by (cases f; cases "dr_error (r f)"; cases "dl_pc s V4 = Gone"; cases "dl_pc s V6 = Gone")
    (simp_all add: main_ok_def take_result_def Let_def race_error_def)

lemma main_ok_move:
  assumes "main_ok r s" and "dl_pc s f \<noteq> Gone" and "p \<noteq> Gone"
  shows "main_ok r (s\<lparr>dl_pc := (dl_pc s)(f := p)\<rparr>)"
  using assms by (cases f) (auto simp: main_ok_def split: waiting.splits sum.splits)

lemma main_ok_opened [simp]: "main_ok r (s\<lparr>dl_opened := n\<rparr>) = main_ok r s"
  by (simp add: main_ok_def split: waiting.split sum.split)

lemma dual_ok_move:
  assumes "dual_ok r s" and "dl_pc s f \<noteq> Gone" and "p \<noteq> Gone" and "p = Offering \<Longrightarrow> n = (if dr_error (r f) = None then 1 else 0)"
    and "p \<noteq> Offering \<Longrightarrow> n = 0"
  shows "dual_ok r (s\<lparr>dl_pc := (dl_pc s)(f := p), dl_opened := (dl_opened s)(f := n)\<rparr>)"
  unfolding dual_ok_def
proof (intro conjI allI)
  show "main_ok r (s\<lparr>dl_pc := (dl_pc s)(f := p), dl_opened := (dl_opened s)(f := n)\<rparr>)"
    using main_ok_move [OF _ assms(2,3)] assms(1) by (simp add: dual_ok_def)
  show "family_ok r (s\<lparr>dl_pc := (dl_pc s)(f := p), dl_opened := (dl_opened s)(f := n)\<rparr>) g" for g
    using assms by (cases "g = f"; cases "p = Offering") (auto simp: dual_ok_def family_ok_def)
qed

lemma dual_ok_opened: "dual_ok r s \<Longrightarrow> dl_pc s f = Resolving \<or> dl_pc s f = Dialing \<Longrightarrow> dl_opened s f = 0"
  by (auto simp: dual_ok_def family_ok_def)

lemma dual_ok_stay:
  assumes "dual_ok r s" and "dl_pc s f = Resolving \<or> dl_pc s f = Dialing" and "p = Dialing \<or> p = Offering \<and> dr_error (r f) \<noteq> None"
  shows "dual_ok r (s\<lparr>dl_pc := (dl_pc s)(f := p)\<rparr>)"
proof -
  have "s\<lparr>dl_pc := (dl_pc s)(f := p), dl_opened := (dl_opened s)(f := 0)\<rparr> = s\<lparr>dl_pc := (dl_pc s)(f := p)\<rparr>"
    using dual_ok_opened [OF assms(1,2)] by (metis dual_dial.surjective dual_dial.update_convs(1,3) fun_upd_triv)
  then show ?thesis using dual_ok_move [OF assms(1), of f p 0] assms(2,3) by auto
qed

lemma dual_step_ok:
  assumes "racers_ok r"
  shows "dual_step r s s' \<Longrightarrow> dual_ok r s \<Longrightarrow> dual_ok r s'"
proof (induction rule: dual_step.induct)
  case (result_taken s f p q)
  have "main_ok r (s\<lparr>dl_pc := (dl_pc s)(f := Gone), dl_main := take_result f (r f) p q\<rparr>)"
    using take_result_ok result_taken by (simp add: dual_ok_def)
  moreover have "family_ok r (s\<lparr>dl_pc := (dl_pc s)(f := Gone), dl_main := take_result f (r f) p q\<rparr>) g" for g
    using result_taken by (cases f; cases g) (auto simp: dual_ok_def main_ok_def family_ok_def take_result_def Let_def split: option.splits if_splits)
  ultimately show ?case by (simp add: dual_ok_def)
next
  case (result_dropped s f x)
  then show ?case by (cases f; cases x) (auto simp: dual_ok_def main_ok_def family_ok_def family_all)
next
  case (resolve_fails s f)
  then show ?case using dual_ok_stay [of r s f Offering] assms by (auto simp: racers_ok_def)
next
  case (resolve_works s f)
  then show ?case using dual_ok_stay [of r s f Dialing] by simp
next
  case (dial_fails s f)
  then show ?case using dual_ok_stay [of r s f Offering] by simp
next
  case (dial_works s f)
  then show ?case using dual_ok_move [of r s f Offering 1] dual_ok_opened [of r s f] by simp
qed

lemma dual_reach_ok: "(dual_step r)\<^sup>*\<^sup>* dual_start s \<Longrightarrow> racers_ok r \<Longrightarrow> dual_ok r s"
  by (induction rule: rtranclp_induct) (simp_all add: dual_start_ok dual_step_ok)

text \<open> C34. However the two racers and the function interleave, the dial ends: every step leaves less to do, and as long as it is
  not finished some step can be taken, so no goroutine waits for ever once the system's calls return.
\<close>

theorem dual_stack_ends:
  assumes "racers_ok r" and "(dual_step r)\<^sup>*\<^sup>* dual_start s"
  shows "wfP (\<lambda>s' s. dual_step r s s') \<and> (dual_finished s \<or> (\<exists>s'. dual_step r s s'))"
proof
  show "wfP (\<lambda>s' s. dual_step r s s')"
    by (rule wfp_if_convertible_to_nat [where f = dual_left]) (rule dual_step_left)
  have ok: "dual_ok r s" using assms(2,1) by (rule dual_reach_ok)
  have move: "\<exists>s'. dual_step r s s'" if "dl_pc s f \<noteq> Gone" for f
  proof (cases "dl_pc s f")
    case Offering
    then show ?thesis by (cases "dl_main s") (blast intro: dual_step.intros)+
  qed (use that in \<open>blast intro: dual_step.intros\<close>)+
  have "\<exists>x. dl_main s = Returned x" if "dl_pc s V4 = Gone" "dl_pc s V6 = Gone"
    using ok that by (cases "dl_main s") (auto simp: dual_ok_def main_ok_def)
  then show "dual_finished s \<or> (\<exists>s'. dual_step r s s')" using move unfolding dual_finished_def by blast
qed

text \<open> C40. When a dial is finished every connection that was opened has been closed, but the one that is returned; and the
  result is the one that \<open>DialContext\<close> computes with, for one of the two orders of arrival.
\<close>

theorem dual_stack_result:
  assumes "racers_ok r" and "(dual_step r)\<^sup>*\<^sup>* dual_start s" and "dual_finished s"
  shows "\<exists>x first. dl_main s = Returned x \<and> x = race_outcome first r \<and>
    (\<forall>f. dl_opened s f = (if dr_error (r f) = None then 1 else 0)) \<and>
    (\<forall>f. dl_closed s f = (if x = Inr f then 0 else dl_opened s f))"
proof -
  have ok: "dual_ok r s" using assms(2,1) by (rule dual_reach_ok)
  obtain x where x: "dl_pc s V4 = Gone" "dl_pc s V6 = Gone" "dl_main s = Returned x" using assms(3) by (auto simp: dual_finished_def)
  have "\<forall>f. dl_opened s f = (if dr_error (r f) = None then 1 else 0) \<and> dl_closed s f = (if x = Inr f then 0 else dl_opened s f)"
    using ok x unfolding family_all dual_ok_def by (simp add: family_ok_def)
  moreover have "\<exists>first. x = race_outcome first r"
  proof (cases x)
    case (Inl e)
    then show ?thesis using ok x
      by (intro exI [of _ V4]) (auto simp: dual_ok_def main_ok_def race_outcome_def take_result_def other_def Let_def)
  next
    case (Inr f)
    then show ?thesis using ok x by (intro exI [of _ f]) (auto simp: dual_ok_def main_ok_def race_outcome_def take_result_def)
  qed
  ultimately show ?thesis using x(3) by blast
qed

subsection \<open>Interfaces\<close>

lemma pick_loop_some: "pick_loop accept destination (Some b) as =
    (case find (\<lambda>a. accept a \<and> destination \<noteq> [] \<and> IPNet_Contains a destination) as of Some a \<Rightarrow> Some a | None \<Rightarrow> Some b)"
  by (induction as) simp_all

text \<open>
  An address that contains the destination comes first, then the first that is not link local; without a destination
  only the latter counts.
\<close>

theorem interface_address:
  "pickIPAddr destination accept i =
    (case find (\<lambda>a. accept a \<and> destination \<noteq> [] \<and> IPNet_Contains a destination) (if_Addrs i) of
       Some a \<Rightarrow> Inr a
     | None \<Rightarrow> (case find (\<lambda>a. accept a \<and> \<not> IsLinkLocalUnicast (in_IP a)) (if_Addrs i) of
         Some a \<Rightarrow> Inr a | None \<Rightarrow> Inl ErrAddrNotFound))"
proof -
  have "pick_loop accept destination None as =
    (case find (\<lambda>a. accept a \<and> destination \<noteq> [] \<and> IPNet_Contains a destination) as of
       Some a \<Rightarrow> Some a | None \<Rightarrow> find (\<lambda>a. accept a \<and> \<not> IsLinkLocalUnicast (in_IP a)) as)" for as
  proof (induction as)
    case (Cons a as)
    have "find (\<lambda>a. accept a \<and> destination \<noteq> [] \<and> IPNet_Contains a destination) as = None" if "destination = []"
      using that by (simp add: find_None_iff)
    with Cons.IH show ?case by (auto simp: pick_loop_some Let_def split: option.split)
  qed simp
  then show ?thesis by (simp add: pickIPAddr_def split: option.split)
qed

text \<open>Within twenty seconds of a look up the interfaces are those of then, whatever the system has now.\<close>

theorem interfaces_are_kept:
  assumes "ResolveInterface t sys name new_interfaces = Some (r, c)" and "20000000000 \<le> t" and "t \<le> t'" and "t' < t + 20000000000"
  shows "ResolveInterface t' sys' name c = Some (r, c)"
  using assms by (auto simp: ResolveInterface_def Single_Do_def Do_enter_def Do_leave_def new_interfaces_def NewSingle_def split: sum.splits)

subsection \<open>Names and literals\<close>

text \<open>An IPv4 literal that is not in the hosts table is dialled as it is, and no resolver is asked.\<close>

theorem literal_is_dialled:
  assumes "SplitHostPort address = Some (host, port)" and "hosts_ip E host = None" and "ParseIP host = ip" and "ip \<noteq> []"
    and "\<not> has_char (CHR '':'') host" and "pick 1 = 0" and "le_DisableIPv6 E"
  shows "Dialer_DialContext first E pick dial ''tcp'' address os s = (dial ''tcp4'' ip port os, s)"
proof -
  have r4: "Resolve4 E pick host s = (Inr ip, s)"
    using assms by (simp add: Resolve4_def one_of_def Lookup4_def Let_def)
  have r6: "Resolve6 E pick host s = (Inl ErrIPv6Disabled, s)"
    using assms(7) by (simp add: Resolve6_def one_of_def Lookup6_def)
  show ?thesis
    by (cases "dial ''tcp4'' ip port os"; cases first)
      (simp_all add: Dialer_DialContext_def dualStackDialContext_def assms(1) racer_result_def r4 r6 race_outcome_def take_result_def
         other_def race_error_def Let_def)
qed

text \<open>
  While IPv6 is disabled, as it is in this program, an IPv6 literal that is not in the hosts table cannot be dialled:
  the racer of IPv4 refuses its version and the one of IPv6 does not run. The error is that of IPv4.
\<close>

theorem ipv6_literal_is_refused:
  assumes "SplitHostPort address = Some (host, port)" and "hosts_ip E host = None" and "ParseIP host \<noteq> []"
    and "has_char (CHR '':'') host" and "le_DisableIPv6 E"
  shows "Dialer_DialContext first E pick dial ''tcp'' address os s = (Inl (ResolveFailed ErrIPVersion), s)"
proof -
  have r4: "Resolve4 E pick host s = (Inl ErrIPVersion, s)"
    using assms by (simp add: Resolve4_def one_of_def Lookup4_def Let_def)
  have r6: "Resolve6 E pick host s = (Inl ErrIPv6Disabled, s)"
    using assms(5) by (simp add: Resolve6_def one_of_def Lookup6_def)
  show ?thesis
    by (cases first)
      (simp_all add: Dialer_DialContext_def dualStackDialContext_def assms(1) racer_result_def r4 r6 race_outcome_def take_result_def
         other_def race_error_def Let_def)
qed

subsection \<open>Sockets\<close>

text \<open>
  A socket is bound to the interface and marked exactly when its address is a global unicast one or has no address to
  judge by; a loopback connection never is.
\<close>

lemma exempt_controls: "exempt address \<Longrightarrow> ReuseAddr \<notin> set cs \<Longrightarrow> run_controls setsockopt address cs = (None, [])"
  by (induction cs) auto

theorem loopback_is_not_bound:
  assumes "exempt address" and "made_dialer resolve opt network destination = Inr d"
  shows "run_controls setsockopt address (nd_Control d) = (None, [])"
proof -
  have "ReuseAddr \<notin> set (nd_Control d)" using assms(2)
    by (auto simp: made_dialer_def fallbackBindIfaceToDialer_def Let_def map_sum_def split: if_splits sum.splits)
  then show ?thesis by (rule exempt_controls [OF assms(1)])
qed

theorem others_are_bound:
  assumes "\<not> exempt address" and "\<forall>c. setsockopt c = None" and "do_interfaceName opt \<noteq> []" and "\<not> do_fallbackBind opt"
  shows "\<exists>d. made_dialer resolve opt network destination = Inr d \<and>
    run_controls setsockopt address (nd_Control d) =
      (None, (if do_routingMark opt \<noteq> 0 then [SetMark (do_routingMark opt)] else []) @ [BindToDevice (do_interfaceName opt)])"
  using assms by (simp add: made_dialer_def Let_def)

subsection \<open>Examples\<close>

text \<open>A race that IPv4 wins and IPv6 would have won too.\<close>

definition demo_racers :: "family \<Rightarrow> dial_result" where
  "demo_racers = (\<lambda>_. \<lparr>dr_error = None, dr_resolved = True\<rparr>)"

lemma demo_racers_ok: "racers_ok demo_racers"
  by (simp add: racers_ok_def demo_racers_def)

lemma demo_race: "\<exists>s. (dual_step demo_racers)\<^sup>*\<^sup>* dual_start s \<and> dual_finished s"
proof -
  have alone: "\<exists>s'. (dual_step demo_racers)\<^sup>*\<^sup>* s s' \<and> dl_pc s' = (dl_pc s)(f := Gone) \<and> (\<exists>x. dl_main s' = Returned x)"
    if "dl_pc s f = Resolving" for s f
  proof -
    let ?s1 = "s\<lparr>dl_pc := (dl_pc s)(f := Dialing)\<rparr>"
    let ?s2 = "?s1\<lparr>dl_pc := (dl_pc ?s1)(f := Offering), dl_opened := (dl_opened ?s1)(f := dl_opened ?s1 f + 1)\<rparr>"
    have "dual_step demo_racers s ?s1" by (rule resolve_works) (use that in \<open>simp_all add: demo_racers_def\<close>)
    moreover have "dual_step demo_racers ?s1 ?s2" by (rule dial_works) (simp_all add: demo_racers_def)
    moreover have "\<exists>s'. dual_step demo_racers ?s2 s' \<and> dl_pc s' = (dl_pc s)(f := Gone) \<and> (\<exists>x. dl_main s' = Returned x)"
    proof (cases "dl_main s")
      case (Racing p q)
      have "take_result f (demo_racers f) p q = Returned (Inr f)" by (simp add: take_result_def demo_racers_def)
      moreover have "dual_step demo_racers ?s2 (?s2\<lparr>dl_pc := (dl_pc ?s2)(f := Gone), dl_main := take_result f (demo_racers f) p q\<rparr>)"
        by (rule result_taken) (simp_all add: Racing)
      ultimately show ?thesis by (intro exI conjI) (assumption | simp)+
    next
      case (Returned x)
      have "dual_step demo_racers ?s2 (?s2\<lparr>dl_pc := (dl_pc ?s2)(f := Gone),
          dl_closed := (if dr_error (demo_racers f) = None then (dl_closed ?s2)(f := dl_closed ?s2 f + 1) else dl_closed ?s2)\<rparr>)"
        by (rule result_dropped) (simp_all add: Returned)
      with Returned show ?thesis by (intro exI conjI) (assumption | simp)+
    qed
    ultimately show ?thesis by (meson converse_rtranclp_into_rtranclp rtranclp.rtrancl_refl)
  qed
  from alone [of dual_start V4] obtain s1 where s1: "(dual_step demo_racers)\<^sup>*\<^sup>* dual_start s1" "dl_pc s1 = (dl_pc dual_start)(V4 := Gone)"
    by (auto simp: dual_start_def)
  then have "dl_pc s1 V6 = Resolving" by (simp add: dual_start_def)
  from alone [OF this] obtain s2 where s2: "(dual_step demo_racers)\<^sup>*\<^sup>* s1 s2" "dl_pc s2 = (dl_pc s1)(V6 := Gone)" "\<exists>x. dl_main s2 = Returned x"
    by blast
  have "dual_finished s2" using s1(2) s2(2,3) by (simp add: dual_finished_def)
  moreover have "(dual_step demo_racers)\<^sup>*\<^sup>* dual_start s2" using s1(1) s2(1) by (rule rtranclp_trans)
  ultimately show ?thesis by blast
qed

theorem dual_stack_ends_witness:
  "wfP (\<lambda>s' s. dual_step demo_racers s s') \<and> (dual_finished dual_start \<or> (\<exists>s'. dual_step demo_racers dual_start s'))"
  by (rule dual_stack_ends [OF demo_racers_ok]) simp

theorem dual_stack_result_witness:
  "\<exists>(s :: dual_dial) x first. dl_main s = Returned x \<and> x = race_outcome first demo_racers \<and>
    (\<forall>f. dl_opened s f = (if dr_error (demo_racers f) = None then 1 else 0)) \<and>
    (\<forall>f. dl_closed s f = (if x = Inr f then 0 else dl_opened s f))"
proof -
  obtain s where "(dual_step demo_racers)\<^sup>*\<^sup>* dual_start s" "dual_finished s" using demo_race by blast
  from dual_stack_result [OF demo_racers_ok this] show ?thesis by (rule exI)
qed

definition demo_env :: "unit lookup_env" where
  "demo_env = \<lparr>le_DefaultResolver = None, le_DisableIPv6 = True, le_DefaultHosts = Trie_New, le_System = (\<lambda>_ _. Inl [])\<rparr>"

theorem ipv6_literal_is_refused_witness:
  "Dialer_DialContext V4 demo_env (\<lambda>_. 0) (\<lambda>_ _ _ _. Inr ()) ''tcp'' ''[::1]:80'' [] () = (Inl (ResolveFailed ErrIPVersion), ())"
proof (rule ipv6_literal_is_refused)
  show "SplitHostPort ''[::1]:80'' = Some (''::1'', ''80'')" by code_simp
  show "hosts_ip demo_env ''::1'' = None" by code_simp
  show "ParseIP ''::1'' \<noteq> []" by code_simp
  show "has_char (CHR '':'') ''::1''" by code_simp
qed (simp add: demo_env_def)

end
