(* ===== verification/SsrConn.thy ===== *)
theory SsrConn
  imports Framing
begin

text \<open>
  The connection of ShadowsocksR (\<open>src/pkg/clash/transport/ssr/protocol/stream.go\<close>): a protocol turns what is written
  into records and takes records apart into a buffer. The contract of such a protocol is the locale
  \<open>stream_protocol\<close>; its lemmas say that a stream of records is read in full however the network and the reader cut it.
  Random numbers come from a source that is passed along.
\<close>

subsection \<open>Random numbers and little-endian numbers\<close>

type_synonym rand_src = "nat \<Rightarrow> nat"

text \<open>\<open>Intn\<close>, and \<open>AppendRandBytes\<close> (tools/random.go).\<close>

definition draw :: "nat \<Rightarrow> rand_src \<Rightarrow> nat \<times> rand_src" where
  "draw n r = (r 0 mod n, \<lambda>i. r (Suc i))"

definition rand_bytes :: "nat \<Rightarrow> rand_src \<Rightarrow> u8 list \<times> rand_src" where
  "rand_bytes n r = (map (\<lambda>i. of_nat (r i)) [0..<n], \<lambda>i. r (i + n))"

lemma length_rand_bytes [simp]: "length (fst (rand_bytes n r)) = n"
  by (simp add: rand_bytes_def)

definition le16 :: "u16 \<Rightarrow> u8 list" where "le16 v = rev (be16 v)"
definition le32 :: "u32 \<Rightarrow> u8 list" where "le32 v = rev (bytes_of_u32 v)"
definition of_le16 :: "u8 \<Rightarrow> u8 \<Rightarrow> nat" where "of_le16 x y = of_be16 y x"

lemma length_le [simp]: "length (le16 v) = 2" "length (le32 w) = 4"
  by (simp_all add: le16_def le32_def)

lemma of_le16_le16: "n < 65536 \<Longrightarrow> of_le16 (le16 (of_nat n) ! 0) (le16 (of_nat n) ! Suc 0) = n"
  by (simp add: of_le16_def le16_def be16_def of_be16_be16 unat_of_nat)

subsection \<open>The connection (stream.go)\<close>

text \<open>
  \<open>Decode\<close> gets the protocol, the destination and the source, and returns its error and the three; \<open>None\<close> is a panic.
  \<open>Encode\<close> returns the bytes it put into an empty buffer.
\<close>

type_synonym ('p, 'e) decode = "'p \<Rightarrow> u8 list \<Rightarrow> u8 list \<Rightarrow> ('e option \<times> u8 list \<times> u8 list \<times> 'p) option"
type_synonym 'p encode = "'p \<Rightarrow> rand_src \<Rightarrow> u8 list \<Rightarrow> u8 list \<times> 'p \<times> rand_src"

record 'p ssr_conn =
  ssc_Conn :: io_conn
  ssc_Protocol :: 'p
  ssc_decoded :: "u8 list"
  ssc_underDecoded :: "u8 list"

definition ssr_dial :: "io_conn \<Rightarrow> 'p \<Rightarrow> 'p ssr_conn" where
  "ssr_dial c p = \<lparr>ssc_Conn = c, ssc_Protocol = p, ssc_decoded = [], ssc_underDecoded = []\<rparr>"

datatype 'e ssr_error = SsrIO io_error | SsrDecode 'e | SsrPanic

definition ssr_buffer :: nat where "ssr_buffer = 20 * 1024"

definition SsrConn_Read :: "('p, 'e) decode \<Rightarrow> nat \<Rightarrow> nat \<Rightarrow> ('p ssr_conn, 'e ssr_error, u8 list) comp" where
  "SsrConn_Read Decode avail k s =
     (if ssc_decoded s \<noteq> [] then (Inr (take k (ssc_decoded s)), s\<lparr>ssc_decoded := drop k (ssc_decoded s)\<rparr>)
      else
        (case conn_Read avail ssr_buffer (ssc_Conn s) of
           (Inl e, c) \<Rightarrow> (Inl (SsrIO e), s\<lparr>ssc_Conn := c\<rparr>)
         | (Inr buf, c) \<Rightarrow>
             (case Decode (ssc_Protocol s) (ssc_decoded s) (ssc_underDecoded s @ buf) of
                None \<Rightarrow> (Inl SsrPanic, s)
              | Some (Some e, dst, src, p) \<Rightarrow>
                  (Inl (SsrDecode e), s\<lparr>ssc_Conn := c, ssc_Protocol := p, ssc_decoded := dst, ssc_underDecoded := src\<rparr>)
              | Some (None, dst, src, p) \<Rightarrow>
                  (Inr (take k dst), s\<lparr>ssc_Conn := c, ssc_Protocol := p, ssc_decoded := drop k dst, ssc_underDecoded := src\<rparr>))))"

definition SsrConn_Write :: "'p encode \<Rightarrow> u8 list \<Rightarrow> 'p ssr_conn \<times> rand_src \<Rightarrow> (nat \<times> io_error option) \<times> 'p ssr_conn \<times> rand_src" where
  "SsrConn_Write Encode b = (\<lambda>(s, r).
     case Encode (ssc_Protocol s) r b of
       (out, p, r') \<Rightarrow>
         (case conn_Write out (ssc_Conn s) of
            (Inl e, c) \<Rightarrow> ((0, Some e), s\<lparr>ssc_Conn := c, ssc_Protocol := p\<rparr>, r')
          | (Inr _, c) \<Rightarrow> ((length b, None), s\<lparr>ssc_Conn := c, ssc_Protocol := p\<rparr>, r')))"

subsection \<open>Reads that may return nothing\<close>

text \<open>
  Reads that return the next elements of what is unread, perhaps none, but then use up some input: together they return
  what was unread, in order, and all of it after enough reads.
\<close>

lemma reads_progress:
  assumes step: "\<And>s xs k. Inv s xs \<Longrightarrow> P k \<Longrightarrow> xs \<noteq> [] \<or> left s \<noteq> (0 :: nat) \<Longrightarrow>
      \<exists>m s'. m \<le> length xs \<and> Read k s = (Inr (take m xs), s') \<and> Inv s' (drop m xs) \<and> left s' + (length xs - m) < left s + length xs"
    and stop: "\<And>s k. Inv s [] \<Longrightarrow> left s = 0 \<Longrightarrow> P k \<Longrightarrow> \<exists>e s'. Read k s = (Inl e, s')"
  shows "Inv s xs \<Longrightarrow> \<forall>k\<in>set ks. P k \<Longrightarrow>
    \<exists>n s'. reads Read ks s = (take n xs, s') \<and> (left s + length xs \<le> length ks \<longrightarrow> length xs \<le> n)"
proof (induction ks arbitrary: s xs)
  case (Cons k ks)
  show ?case
  proof (cases "xs = [] \<and> left s = 0")
    case True
    with stop [of s k] Cons.prems show ?thesis by (auto intro!: exI [of _ 0])
  next
    case False
    then have "xs \<noteq> [] \<or> left s \<noteq> 0" by blast
    from step [OF Cons.prems(1) _ this, of k] Cons.prems(2) obtain m s1 where
      m: "m \<le> length xs" "Read k s = (Inr (take m xs), s1)" "Inv s1 (drop m xs)" "left s1 + (length xs - m) < left s + length xs"
      by auto
    from Cons.IH [OF m(3)] Cons.prems(2) obtain n s' where
      n: "reads Read ks s1 = (take n (drop m xs), s')" "left s1 + (length xs - m) \<le> length ks \<longrightarrow> length xs - m \<le> n" by auto
    have "reads Read (k # ks) s = (take (m + n) xs, s')" using m(2) n(1) by (simp add: take_add)
    moreover have "left s + length xs \<le> length (k # ks) \<longrightarrow> length xs \<le> m + n" using m(1,4) n(2) by auto
    ultimately show ?thesis by blast
  qed
qed (auto intro!: exI [of _ 0])

subsection \<open>Protocols\<close>

text \<open>
  A protocol that takes records apart: \<open>core\<close> is what of its state the records depend on. A whole record at the front
  of the source is moved to the destination; the proper part of one is left, and at most the rest of the state changes.
\<close>

locale stream_protocol =
  fixes ok :: "'p \<Rightarrow> bool"
    and core :: "'p \<Rightarrow> 'c"
    and fits :: "'c \<Rightarrow> 'i \<Rightarrow> bool"
    and pack :: "'c \<Rightarrow> 'i \<Rightarrow> u8 list"
    and advance :: "'c \<Rightarrow> 'i \<Rightarrow> 'c"
    and payload :: "'i \<Rightarrow> u8 list"
    and Decode :: "('p, 'e) decode"
  assumes decode_record: "ok p \<Longrightarrow> fits (core p) i \<Longrightarrow>
      \<exists>p'. ok p' \<and> core p' = advance (core p) i \<and> (\<forall>dst rest. Decode p dst (pack (core p) i @ rest) = Decode p' (dst @ payload i) rest)"
    and decode_partial: "ok p \<Longrightarrow> fits (core p) i \<Longrightarrow> pack (core p) i = xs @ ys \<Longrightarrow> ys \<noteq> [] \<Longrightarrow>
      \<exists>p'. ok p' \<and> core p' = core p \<and> Decode p dst xs = Some (None, dst, xs, p')"
    and decode_nothing: "ok p \<Longrightarrow> Decode p dst [] = Some (None, dst, [], p)"
begin

fun frames :: "'c \<Rightarrow> 'i list \<Rightarrow> u8 list" where
  "frames c [] = []"
| "frames c (i # is) = pack c i @ frames (advance c i) is"

fun fit :: "'c \<Rightarrow> 'i list \<Rightarrow> bool" where
  "fit c [] \<longleftrightarrow> True"
| "fit c (i # is) \<longleftrightarrow> fits c i \<and> fit (advance c i) is"

text \<open>Decoding the front of a stream of records moves the payloads of the whole ones.\<close>

lemma decode_stream:
  assumes "ok p" and "fit (core p) is" and "frames (core p) is = inp @ later"
  shows "\<exists>js ks p' src. is = js @ ks \<and> Decode p dst inp = Some (None, dst @ concat (map payload js), src, p') \<and>
    ok p' \<and> fit (core p') ks \<and> frames (core p') ks = src @ later \<and> (later = [] \<longrightarrow> ks = [])"
  using assms
proof (induction "is" arbitrary: p dst inp)
  case Nil
  then show ?case using decode_nothing [of p dst] by auto
next
  case (Cons i "is")
  have f: "fits (core p) i" "fit (advance (core p) i) is" using Cons.prems(2) by simp_all
  show ?case
  proof (cases "length inp < length (pack (core p) i)")
    case True
    have e: "pack (core p) i = inp @ drop (length inp) (pack (core p) i)"
    proof -
      have "take (length inp) (pack (core p) i) = inp" using Cons.prems(3) True
        by (metis append_eq_append_conv_if append_take_drop_id frames.simps(2) less_imp_le_nat)
      then show ?thesis by (metis append_take_drop_id)
    qed
    from decode_partial [OF Cons.prems(1) f(1) e] True obtain p' where
      p': "ok p'" "core p' = core p" "Decode p dst inp = Some (None, dst, inp, p')" by auto
    have "later \<noteq> []" using True Cons.prems(3) by (auto simp: append_eq_append_conv_if split: if_splits)
    then show ?thesis using p' Cons.prems(2,3) by (intro exI [of _ "[]"] exI [of _ "i # is"] exI [of _ p'] exI [of _ inp]) simp
  next
    case False
    have "pack (core p) i = take (length (pack (core p) i)) (inp @ later)"
      unfolding Cons.prems(3) [symmetric] by simp
    then have "pack (core p) i = take (length (pack (core p) i)) inp" using False by simp
    then obtain inp' where inp: "inp = pack (core p) i @ inp'" by (metis append_take_drop_id)
    from decode_record [OF Cons.prems(1) f(1)] obtain p1 where
      p1: "ok p1" "core p1 = advance (core p) i" "\<And>dst rest. Decode p dst (pack (core p) i @ rest) = Decode p1 (dst @ payload i) rest" by blast
    have "frames (core p1) is = inp' @ later" using Cons.prems(3) by (simp add: inp p1(2))
    from Cons.IH [OF p1(1) _ this, of "dst @ payload i"] f(2) p1(2) obtain js ks p' src where
      r: "is = js @ ks" "Decode p1 (dst @ payload i) inp' = Some (None, (dst @ payload i) @ concat (map payload js), src, p')"
        "ok p'" "fit (core p') ks" "frames (core p') ks = src @ later" "later = [] \<longrightarrow> ks = []" by auto
    then show ?thesis using p1(3) inp by (intro exI [of _ "i # js"] exI [of _ ks] exI [of _ p'] exI [of _ src]) simp
  qed
qed

definition unread :: "'p ssr_conn \<Rightarrow> u8 list \<Rightarrow> bool" where
  "unread s xs \<longleftrightarrow> ok (ssc_Protocol s) \<and>
     (\<exists>is. fit (core (ssc_Protocol s)) is \<and> frames (core (ssc_Protocol s)) is = ssc_underDecoded s @ c_in (ssc_Conn s) \<and>
        xs = ssc_decoded s @ concat (map payload is) \<and> (c_in (ssc_Conn s) = [] \<longrightarrow> is = []))"

lemma unread_start:
  assumes "ok p" and "fit (core p) is" and "is = [] \<or> frames (core p) is \<noteq> []"
  shows "unread (ssr_dial (fed (frames (core p) is)) p) (concat (map payload is))"
  using assms by (auto simp: unread_def ssr_dial_def fed_def intro!: exI [of _ "is"])

lemma unread_read:
  assumes "unread s xs" and "0 < k" and "xs \<noteq> [] \<or> length (c_in (ssc_Conn s)) \<noteq> 0"
  shows "\<exists>m s'. m \<le> length xs \<and> SsrConn_Read Decode avail k s = (Inr (take m xs), s') \<and> unread s' (drop m xs) \<and>
    length (c_in (ssc_Conn s')) + (length xs - m) < length (c_in (ssc_Conn s)) + length xs"
proof -
  from assms(1) obtain "is" where i: "ok (ssc_Protocol s)" "fit (core (ssc_Protocol s)) is"
    "frames (core (ssc_Protocol s)) is = ssc_underDecoded s @ c_in (ssc_Conn s)" "xs = ssc_decoded s @ concat (map payload is)"
    "c_in (ssc_Conn s) = [] \<longrightarrow> is = []" by (auto simp: unread_def)
  show ?thesis
  proof (cases "ssc_decoded s = []")
    case False
    let ?m = "min k (length (ssc_decoded s))"
    have m: "take k (ssc_decoded s) = take ?m xs" "drop k (ssc_decoded s) @ concat (map payload is) = drop ?m xs" "0 < ?m" "?m \<le> length xs"
      using False assms(2) by (simp_all add: i(4) min_def)
    have "unread (s\<lparr>ssc_decoded := drop k (ssc_decoded s)\<rparr>) (drop k (ssc_decoded s) @ concat (map payload is))"
      using i by (auto simp: unread_def)
    moreover have "length (c_in (ssc_Conn s)) + (length xs - ?m) < length (c_in (ssc_Conn s)) + length xs"
      using m(3,4) by linarith
    ultimately show ?thesis using False m by (intro exI [of _ ?m] exI [of _ "s\<lparr>ssc_decoded := drop k (ssc_decoded s)\<rparr>"]) (simp add: SsrConn_Read_def)
  next
    case True
    then have ne: "c_in (ssc_Conn s) \<noteq> []" using assms(3) i(4,5) by auto
    let ?j = "min ssr_buffer (max 1 avail)"
    let ?c = "(ssc_Conn s)\<lparr>c_in := drop ?j (c_in (ssc_Conn s))\<rparr>"
    have j: "0 < ?j" by (simp add: ssr_buffer_def)
    have rd: "conn_Read avail ssr_buffer (ssc_Conn s) = (Inr (take ?j (c_in (ssc_Conn s))), ?c)" using ne by (simp add: conn_Read_def Let_def)
    have "frames (core (ssc_Protocol s)) is = (ssc_underDecoded s @ take ?j (c_in (ssc_Conn s))) @ c_in ?c" using i(3) by simp
    from decode_stream [OF i(1,2) this, of "[]"] obtain js ks p' src where
      d: "is = js @ ks" "Decode (ssc_Protocol s) [] (ssc_underDecoded s @ take ?j (c_in (ssc_Conn s))) = Some (None, concat (map payload js), src, p')"
        "ok p'" "fit (core p') ks" "frames (core p') ks = src @ c_in ?c" "c_in ?c = [] \<longrightarrow> ks = []" by auto
    let ?o = "concat (map payload js)"
    let ?s = "s\<lparr>ssc_Conn := ?c, ssc_Protocol := p', ssc_decoded := drop k ?o, ssc_underDecoded := src\<rparr>" and ?m = "min k (length ?o)"
    have "SsrConn_Read Decode avail k s = (Inr (take k ?o), ?s)" using True d(2) by (simp add: SsrConn_Read_def rd)
    moreover have "take k ?o = take ?m xs" "drop k ?o @ concat (map payload ks) = drop ?m xs" "?m \<le> length xs"
      by (simp_all add: i(4) True d(1) min_def)
    moreover have "unread ?s (drop k ?o @ concat (map payload ks))" using d(3-6) by (auto simp: unread_def intro!: exI [of _ ks])
    moreover have "length (c_in ?c) < length (c_in (ssc_Conn s))" using ne j by simp
    ultimately show ?thesis by (intro exI [of _ ?m] exI [of _ ?s]) simp
  qed
qed

text \<open>Reads of any sizes return the payloads in order, and all of them after enough reads.\<close>

lemma reads_all:
  assumes "unread s xs" and "\<forall>(avail, k)\<in>set ks. 0 < k"
  shows "\<exists>n s'. reads (\<lambda>(avail, k). SsrConn_Read Decode avail k) ks s = (take n xs, s') \<and>
    (length (c_in (ssc_Conn s)) + length xs \<le> length ks \<longrightarrow> length xs \<le> n)"
proof (rule reads_progress [where Inv = unread and P = "\<lambda>(avail, k). 0 < k" and left = "\<lambda>s. length (c_in (ssc_Conn s))"])
  fix s xs and p :: "nat \<times> nat"
  assume "unread s xs" "case p of (avail, k) \<Rightarrow> 0 < k" "xs \<noteq> [] \<or> length (c_in (ssc_Conn s)) \<noteq> 0"
  then show "\<exists>m s'. m \<le> length xs \<and> (case p of (avail, k) \<Rightarrow> SsrConn_Read Decode avail k) s = (Inr (take m xs), s') \<and> unread s' (drop m xs) \<and>
    length (c_in (ssc_Conn s')) + (length xs - m) < length (c_in (ssc_Conn s)) + length xs"
    using unread_read [of s xs "snd p" "fst p"] by (cases p) simp
next
  fix s and p :: "nat \<times> nat"
  assume "unread s []" "length (c_in (ssc_Conn s)) = 0"
  then have "c_in (ssc_Conn s) = []" "ssc_decoded s = []" by (auto simp: unread_def)
  then show "\<exists>e s'. (case p of (avail, k) \<Rightarrow> SsrConn_Read Decode avail k) s = (Inl e, s')"
    by (cases p) (simp add: SsrConn_Read_def conn_Read_def)
qed (use assms in simp_all)

end

end
