(* ===== verification/SsrAuth.thy ===== *)
theory SsrAuth
  imports SsrConn ShadowStream
begin

unbundle bit_operations_syntax

text \<open>
  The protocols \<open>auth_sha1_v4\<close>, \<open>auth_aes128_md5\<close> and \<open>auth_aes128_sha1\<close> of ShadowsocksR
  (\<open>src/pkg/clash/transport/ssr/protocol/\<close>: \<open>base.go\<close>, \<open>protocol.go\<close>, \<open>auth_sha1_v4.go\<close>, \<open>auth_aes128_sha1.go\<close>,
  \<open>auth_aes128_md5.go\<close>). The hashes and ciphers of the libraries are parameters; the time is an argument, random numbers
  are drawn from a source. Slices out of range are a panic, \<open>None\<close>.
\<close>

subsection \<open>Libraries\<close>

record ssr_api =
  sa_crc32 :: "u8 list \<Rightarrow> u32"
  sa_adler32 :: "u8 list \<Rightarrow> u32"
  sa_HmacSHA1 :: "u8 list \<Rightarrow> u8 list \<Rightarrow> u8 list"
  sa_HmacMD5 :: "u8 list \<Rightarrow> u8 list \<Rightarrow> u8 list"
  sa_SHA1Sum :: "u8 list \<Rightarrow> u8 list"
  sa_MD5Sum :: "u8 list \<Rightarrow> u8 list"
  sa_base64 :: "u8 list \<Rightarrow> string"
  sa_cbc :: "u8 list \<Rightarrow> u8 list \<Rightarrow> u8 list"
  sa_ctr :: "u8 list \<Rightarrow> u8 list \<Rightarrow> u8 list"
  sa_rc4 :: "u8 list \<Rightarrow> nat \<Rightarrow> u8"

text \<open>
  The sizes of the hashes; a block of CBC keeps its size, and the key stream of CTR, with a vector of zeros, undoes itself.
  RC4 is its key stream.
\<close>

definition ssr_api_ok :: "ssr_api \<Rightarrow> bool" where
  "ssr_api_ok A \<longleftrightarrow>
     (\<forall>k d. length (sa_HmacSHA1 A k d) = 20) \<and> (\<forall>k d. length (sa_HmacMD5 A k d) = 16) \<and>
     (\<forall>d. length (sa_SHA1Sum A d) = 20) \<and> (\<forall>d. length (sa_MD5Sum A d) = 16) \<and>
     (\<forall>k d. length (sa_cbc A k d) = length d) \<and> (\<forall>k d. length (sa_ctr A k d) = length d) \<and> (\<forall>k d. sa_ctr A k (sa_ctr A k d) = d)"

text \<open>\<open>core.Kdf\<close> of sixteen bytes; it ends, for the hash is not empty.\<close>

definition kdf16 :: "ssr_api \<Rightarrow> string \<Rightarrow> u8 list" where
  "kdf16 A s = (case Kdf (sa_MD5Sum A) s 16 of Some k \<Rightarrow> k | None \<Rightarrow> [])"

subsection \<open>Common parts (base.go, protocol.go)\<close>

record ssr_base =
  sb_Key :: "u8 list"
  sb_Overhead :: int
  sb_Param :: string

record auth_data =
  ad_clientID :: "u8 list"
  ad_connectionID :: u32

record user_data =
  ud_userKey :: "u8 list"
  ud_userID :: "u8 list"

definition new_auth_data :: auth_data where
  "new_auth_data = \<lparr>ad_clientID = [0, 0, 0, 0], ad_connectionID = 0\<rparr>"

text \<open>\<open>next\<close> returns the copy for a connection, and the shared state.\<close>

definition auth_next :: "auth_data \<times> rand_src \<Rightarrow> auth_data \<times> auth_data \<times> rand_src" where
  "auth_next = (\<lambda>(a, r).
     let (a, r) =
       (if 0xff000000 < ad_connectionID a \<or> ad_connectionID a = 0 then
          (case rand_bytes 4 r of (c, r) \<Rightarrow>
             (case draw (2 ^ 32) r of (n, r) \<Rightarrow> (a\<lparr>ad_clientID := c, ad_connectionID := of_nat n AND 0xffffff\<rparr>, r)))
        else (a, r)) in
     let a = a\<lparr>ad_connectionID := ad_connectionID a + 1\<rparr> in
     (\<lparr>ad_clientID = ad_clientID a, ad_connectionID = ad_connectionID a\<rparr>, a, r))"

definition putAuthData :: "u32 \<Rightarrow> auth_data \<Rightarrow> u8 list \<Rightarrow> u8 list" where
  "putAuthData now a w = w @ le32 now @ ad_clientID a @ le32 (ad_connectionID a)"

definition putEncryptedData :: "ssr_api \<Rightarrow> u32 \<Rightarrow> auth_data \<Rightarrow> u8 list \<Rightarrow> u8 list \<Rightarrow> nat \<times> nat \<Rightarrow> string \<Rightarrow> u8 list" where
  "putEncryptedData A now a w userKey paddings salt =
     (let encrypt = le32 now @ ad_clientID a @ le32 (ad_connectionID a) @ le16 (of_nat (fst paddings)) @ le16 (of_nat (snd paddings));
          cipherKey = kdf16 A (sa_base64 A userKey @ salt) in
      w @ sa_cbc A cipherKey encrypt)"

definition getHeadSize :: "u8 list \<Rightarrow> nat \<Rightarrow> nat" where
  "getHeadSize b defaultValue =
     (if length b < 2 then defaultValue
      else let headType = b ! 0 AND 7 in
        if headType = 1 then 7 else if headType = 4 then 19 else if headType = 3 then 4 + unat (b ! 1) else defaultValue)"

definition getDataLength :: "u8 list \<Rightarrow> rand_src \<Rightarrow> nat \<times> rand_src" where
  "getDataLength b r =
     (case draw 32 r of (n, r) \<Rightarrow>
        let dataLength = getHeadSize b 30 + n in (if length b < dataLength then length b else dataLength, r))"

text \<open>The random bytes of a record with their size in front, of which the code has one copy in each byte order.\<close>

definition packRandData :: "(u16 \<Rightarrow> u8 list) \<Rightarrow> u8 list \<Rightarrow> nat \<Rightarrow> rand_src \<Rightarrow> u8 list \<times> rand_src" where
  "packRandData put16 w len r =
     (case rand_bytes len r of (pad, r) \<Rightarrow>
        (if len < 128 then w @ [of_nat (len + 1)] @ pad else w @ [255] @ put16 (of_nat (len + 3)) @ pad, r))"

text \<open>The size of a record: the parts, and two bytes less when the size of the random bytes takes one.\<close>

definition packed_length :: "nat \<Rightarrow> nat \<Rightarrow> nat" where
  "packed_length parts randDataLength = (if randDataLength < 128 then parts - 2 else parts)"

text \<open>A loop that cuts what is left of a write into records of at most \<open>limit\<close> bytes.\<close>

function cut_loop :: "nat \<Rightarrow> ('s \<Rightarrow> u8 list \<Rightarrow> u8 list \<Rightarrow> u8 list \<times> 's) \<Rightarrow> 's \<Rightarrow> u8 list \<Rightarrow> u8 list \<Rightarrow> u8 list \<times> 's" where
  "cut_loop limit pk s w b =
     (if 0 < limit \<and> limit < length b then
        (case pk s w (take limit b) of (w, s) \<Rightarrow> cut_loop limit pk s w (drop limit b))
      else if b \<noteq> [] then pk s w b else (w, s))"
  by pat_completeness auto
termination by (relation "measure (\<lambda>(limit, pk, s, w, b). length b)") auto

declare cut_loop.simps [simp del]

subsection \<open>auth_sha1_v4\<close>

datatype ssr_decode_error = CRC32Error | LengthError | Adler32Error | MACError | ChksumError

record auth_sha1 =
  sh_Base :: ssr_base
  sh_authData :: auth_data
  sh_iv :: "u8 list"
  sh_hasSentHeader :: bool
  sh_rawTrans :: bool

definition newAuthSHA1V4 :: "ssr_base \<Rightarrow> auth_sha1" where
  "newAuthSHA1V4 b = \<lparr>sh_Base = b, sh_authData = new_auth_data, sh_iv = [], sh_hasSentHeader = False, sh_rawTrans = False\<rparr>"

text \<open>The protocol of a connection, the shared one, and the connection with it.\<close>

definition SHA1V4_StreamConn ::
  "io_conn \<Rightarrow> u8 list \<Rightarrow> auth_sha1 \<times> rand_src \<Rightarrow> auth_sha1 ssr_conn \<times> auth_sha1 \<times> rand_src" where
  "SHA1V4_StreamConn c iv = (\<lambda>(a, r).
     case auth_next (sh_authData a, r) of (mine, shared, r) \<Rightarrow>
       (ssr_dial c \<lparr>sh_Base = sh_Base a, sh_authData = mine, sh_iv = iv, sh_hasSentHeader = False, sh_rawTrans = False\<rparr>,
        a\<lparr>sh_authData := shared\<rparr>, r))"

definition sha1_rand_length :: "nat \<Rightarrow> rand_src \<Rightarrow> nat \<times> rand_src" where
  "sha1_rand_length len r = (if 1200 < len then (0, r) else if 400 < len then draw 256 r else draw 512 r)"

definition SHA1V4_packData :: "ssr_api \<Rightarrow> rand_src \<Rightarrow> u8 list \<Rightarrow> u8 list \<Rightarrow> u8 list \<times> rand_src" where
  "SHA1V4_packData A r w data =
     (case sha1_rand_length (length data) r of (n, r) \<Rightarrow>
        let packed = packed_length (2 + 2 + 3 + n + length data + 4) n;
            w = w @ be16 (of_nat packed);
            w = w @ le16 (ucast (sa_crc32 A (drop (length w - 2) w))) in
        (case packRandData be16 w n r of (w, r) \<Rightarrow>
           let w = w @ data in (w @ le32 (sa_adler32 A (drop (length w + 4 - packed) w)), r)))"

definition SHA1V4_packAuthData :: "ssr_api \<Rightarrow> u32 \<Rightarrow> auth_sha1 \<Rightarrow> rand_src \<Rightarrow> u8 list \<Rightarrow> u8 list \<Rightarrow> u8 list \<times> rand_src" where
  "SHA1V4_packAuthData A now a r w data =
     (case sha1_rand_length (12 + length data) r of (n, r) \<Rightarrow>
        let packed = packed_length (2 + 4 + 3 + n + 12 + length data + 10) n;
            crcData = be16 (of_nat packed) @ bytes_of ''auth_sha1_v4'' @ sb_Key (sh_Base a);
            key = sh_iv a @ sb_Key (sh_Base a);
            w = w @ take 2 crcData;
            w = w @ le32 (sa_crc32 A crcData) in
        (case packRandData be16 w n r of (w, r) \<Rightarrow>
           let w = putAuthData now (sh_authData a) w; w = w @ data in
           (w @ take 10 (sa_HmacSHA1 A key (drop (length w + 10 - packed) w)), r)))"

definition SHA1V4_Encode :: "ssr_api \<Rightarrow> u32 \<Rightarrow> auth_sha1 encode" where
  "SHA1V4_Encode A now a r b =
     (let (w, b, a, r) =
        (if \<not> sh_hasSentHeader a then
           (case getDataLength b r of (dataLength, r) \<Rightarrow>
              (case SHA1V4_packAuthData A now a r [] (take dataLength b) of (w, r) \<Rightarrow>
                 (w, drop dataLength b, a\<lparr>sh_hasSentHeader := True\<rparr>, r)))
         else ([], b, a, r)) in
      case cut_loop 8100 (SHA1V4_packData A) r w b of (w, r) \<Rightarrow> (w, a, r))"

text \<open>Where the data of a record begin.\<close>

definition data_pos :: "(u8 \<Rightarrow> u8 \<Rightarrow> nat) \<Rightarrow> u8 list \<Rightarrow> nat" where
  "data_pos get16 src = (if unat (src ! 4) < 255 then unat (src ! 4) + 4 else get16 (src ! 5) (src ! 6) + 4)"

function SHA1V4_loop :: "ssr_api \<Rightarrow> u8 list \<Rightarrow> u8 list \<Rightarrow> (ssr_decode_error option \<times> u8 list \<times> u8 list \<times> bool) option" where
  "SHA1V4_loop A dst src =
     (if length src \<le> 4 then Some (None, dst, src, False)
      else if le16 (ucast (sa_crc32 A (take 2 src))) \<noteq> take 2 (drop 2 src) then Some (Some CRC32Error, dst, [], False)
      else let n = of_be16 (src ! 0) (src ! 1) in
        if 8192 \<le> n \<or> n < 7 then Some (Some LengthError, dst, [], True)
        else if length src < n then Some (None, dst, src, False)
        else if le32 (sa_adler32 A (take (n - 4) src)) \<noteq> take 4 (drop (n - 4) src) then Some (Some Adler32Error, dst, [], True)
        else let pos = data_pos of_be16 src in
          if n - 4 < pos then None else SHA1V4_loop A (dst @ drop pos (take (n - 4) src)) (drop n src))"
  by pat_completeness auto
termination by (relation "measure (\<lambda>(A, dst, src). length src)") auto

declare SHA1V4_loop.simps [simp del]

definition SHA1V4_Decode :: "ssr_api \<Rightarrow> (auth_sha1, ssr_decode_error) decode" where
  "SHA1V4_Decode A a dst src =
     (if sh_rawTrans a then Some (None, dst @ src, [], a)
      else map_option (\<lambda>(e, dst, src, raw). (e, dst, src, if raw then a\<lparr>sh_rawTrans := True\<rparr> else a)) (SHA1V4_loop A dst src))"

subsection \<open>auth_aes128_md5 and auth_aes128_sha1\<close>

record aes128_function =
  af_salt :: string
  af_hmac :: "u8 list \<Rightarrow> u8 list \<Rightarrow> u8 list"
  af_hashDigest :: "u8 list \<Rightarrow> u8 list"

record auth_aes128 =
  ae_Base :: ssr_base
  ae_authData :: auth_data
  ae_function :: aes128_function
  ae_userData :: user_data
  ae_iv :: "u8 list"
  ae_hasSentHeader :: bool
  ae_rawTrans :: bool
  ae_packID :: u32
  ae_recvID :: u32

text \<open>The user of the parameter \<open>id:key\<close>, or a random id with the key of the cipher.\<close>

definition initUserData :: "(u8 list \<Rightarrow> u8 list) \<Rightarrow> ssr_base \<Rightarrow> rand_src \<Rightarrow> user_data \<times> rand_src" where
  "initUserData digest b r =
     (let params = split_on (CHR '':'') (sb_Param b);
          u = (if 1 < length params then
                 (case parse_uint 32 (params ! 0) of
                    Some n \<Rightarrow> \<lparr>ud_userKey = digest (bytes_of (params ! 1)), ud_userID = le32 (of_nat n)\<rparr>
                  | None \<Rightarrow> \<lparr>ud_userKey = [], ud_userID = [0, 0, 0, 0]\<rparr>)
               else \<lparr>ud_userKey = [], ud_userID = [0, 0, 0, 0]\<rparr>) in
      if ud_userKey u = [] then (case rand_bytes 4 r of (i, r) \<Rightarrow> (\<lparr>ud_userKey = sb_Key b, ud_userID = i\<rparr>, r)) else (u, r))"

definition new_aes128 :: "aes128_function \<Rightarrow> ssr_base \<Rightarrow> rand_src \<Rightarrow> auth_aes128 \<times> rand_src" where
  "new_aes128 f b r =
     (case initUserData (af_hashDigest f) b r of (u, r) \<Rightarrow>
        (\<lparr>ae_Base = b, ae_authData = new_auth_data, ae_function = f, ae_userData = u, ae_iv = [], ae_hasSentHeader = False,
          ae_rawTrans = False, ae_packID = 0, ae_recvID = 0\<rparr>, r))"

definition newAuthAES128SHA1 :: "ssr_api \<Rightarrow> ssr_base \<Rightarrow> rand_src \<Rightarrow> auth_aes128 \<times> rand_src" where
  "newAuthAES128SHA1 A = new_aes128 \<lparr>af_salt = ''auth_aes128_sha1'', af_hmac = sa_HmacSHA1 A, af_hashDigest = sa_SHA1Sum A\<rparr>"

definition newAuthAES128MD5 :: "ssr_api \<Rightarrow> ssr_base \<Rightarrow> rand_src \<Rightarrow> auth_aes128 \<times> rand_src" where
  "newAuthAES128MD5 A = new_aes128 \<lparr>af_salt = ''auth_aes128_md5'', af_hmac = sa_HmacMD5 A, af_hashDigest = sa_MD5Sum A\<rparr>"

definition AES128_StreamConn ::
  "io_conn \<Rightarrow> u8 list \<Rightarrow> auth_aes128 \<times> rand_src \<Rightarrow> auth_aes128 ssr_conn \<times> auth_aes128 \<times> rand_src" where
  "AES128_StreamConn c iv = (\<lambda>(a, r).
     case auth_next (ae_authData a, r) of (mine, shared, r) \<Rightarrow>
       (ssr_dial c \<lparr>ae_Base = ae_Base a, ae_authData = mine, ae_function = ae_function a, ae_userData = ae_userData a, ae_iv = iv,
          ae_hasSentHeader = False, ae_rawTrans = False, ae_packID = 1, ae_recvID = 1\<rparr>,
        a\<lparr>ae_authData := shared\<rparr>, r))"

text \<open>\<open>int(base * float64(max))\<close> for a random \<open>base\<close> below one: some number below \<open>max\<close>.\<close>

definition trapezoidRandom :: "nat \<Rightarrow> rand_src \<Rightarrow> nat \<times> rand_src" where
  "trapezoidRandom m r = (if m = 0 then (0, \<lambda>i. r (Suc i)) else draw m r)"

definition aes128_rand_length :: "auth_aes128 \<Rightarrow> nat \<Rightarrow> nat \<Rightarrow> rand_src \<Rightarrow> nat \<times> rand_src" where
  "aes128_rand_length a dataLength fullDataLength r =
     (if int (32 * 1024) - sb_Overhead (ae_Base a) \<le> int fullDataLength then (0, r)
      else let revLength = 1460 - int dataLength - 9 in
        if revLength = 0 then (0, r)
        else if revLength < 0 then
          (if - 1460 < revLength then trapezoidRandom (nat (revLength + 1460)) r else draw 32 r)
        else if 900 < dataLength then draw (nat revLength) r
        else trapezoidRandom (nat revLength) r)"

definition AES128_packData :: "nat \<Rightarrow> auth_aes128 \<times> rand_src \<Rightarrow> u8 list \<Rightarrow> u8 list \<Rightarrow> u8 list \<times> auth_aes128 \<times> rand_src" where
  "AES128_packData fullDataLength = (\<lambda>(a, r) w data.
     case aes128_rand_length a (length data) fullDataLength r of (n, r) \<Rightarrow>
       let hmac = af_hmac (ae_function a);
           packed = packed_length (2 + 2 + 3 + n + length data + 4) n;
           macKey = ud_userKey (ae_userData a) @ le32 (ae_packID a);
           a = a\<lparr>ae_packID := ae_packID a + 1\<rparr>;
           w = w @ le16 (of_nat packed);
           w = w @ take 2 (hmac macKey (drop (length w - 2) w)) in
       (case packRandData le16 w n r of (w, r) \<Rightarrow>
          let w = w @ data in (w @ take 4 (hmac macKey (drop (length w + 4 - packed) w)), a, r)))"

definition AES128_packAuthData :: "ssr_api \<Rightarrow> u32 \<Rightarrow> auth_aes128 \<Rightarrow> rand_src \<Rightarrow> u8 list \<Rightarrow> u8 list \<Rightarrow> u8 list \<times> rand_src" where
  "AES128_packAuthData A now a r w data =
     (if data = [] then (w, r)
      else
        (case (if 400 < length data then draw 512 r else draw 1024 r) of (n, r) \<Rightarrow>
           let hmac = af_hmac (ae_function a); u = ae_userData a;
               packed = 7 + 4 + 16 + 4 + n + length data + 4;
               macKey = ae_iv a @ sb_Key (ae_Base a) in
           (case draw 256 r of (x, r) \<Rightarrow>
              let w = w @ [of_nat x];
                  w = w @ take 6 (hmac macKey w);
                  w = w @ ud_userID u;
                  w = putEncryptedData A now (ae_authData a) w (ud_userKey u) (packed, n) (af_salt (ae_function a));
                  w = w @ take 4 (hmac macKey (drop 7 w)) in
              (case rand_bytes n r of (pad, r) \<Rightarrow>
                 let w = w @ pad; w = w @ data in (w @ take 4 (hmac (ud_userKey u) w), r)))))"

definition AES128_Encode :: "ssr_api \<Rightarrow> u32 \<Rightarrow> auth_aes128 encode" where
  "AES128_Encode A now a r b =
     (let fullDataLength = length b;
          (w, b, a, r) =
            (if \<not> ae_hasSentHeader a then
               (case getDataLength b r of (dataLength, r) \<Rightarrow>
                  (case AES128_packAuthData A now a r [] (take dataLength b) of (w, r) \<Rightarrow>
                     (w, drop dataLength b, a\<lparr>ae_hasSentHeader := True\<rparr>, r)))
             else ([], b, a, r)) in
      cut_loop 8100 (AES128_packData fullDataLength) (a, r) w b)"

function AES128_loop :: "u8 list \<Rightarrow> u8 list \<Rightarrow> auth_aes128 \<Rightarrow> (ssr_decode_error option \<times> u8 list \<times> u8 list \<times> auth_aes128) option" where
  "AES128_loop dst src a =
     (if length src \<le> 4 then Some (None, dst, src, a)
      else let hmac = af_hmac (ae_function a); macKey = ud_userKey (ae_userData a) @ le32 (ae_recvID a) in
        if take 2 (hmac macKey (take 2 src)) \<noteq> take 2 (drop 2 src) then Some (Some MACError, dst, [], a)
        else let n = of_le16 (src ! 0) (src ! 1) in
          if 8192 \<le> n \<or> n < 7 then Some (Some LengthError, dst, [], a\<lparr>ae_rawTrans := True\<rparr>)
          else if length src < n then Some (None, dst, src, a)
          else if take 4 (hmac macKey (take (n - 4) src)) \<noteq> take 4 (drop (n - 4) src)
          then Some (Some ChksumError, dst, [], a\<lparr>ae_rawTrans := True\<rparr>)
          else let a = a\<lparr>ae_recvID := ae_recvID a + 1\<rparr>; pos = data_pos of_le16 src in
            if n - 4 < pos then None else AES128_loop (dst @ drop pos (take (n - 4) src)) (drop n src) a)"
  by pat_completeness auto
termination by (relation "measure (\<lambda>(dst, src, a). length src)") auto

declare AES128_loop.simps [simp del]

definition AES128_Decode :: "(auth_aes128, ssr_decode_error) decode" where
  "AES128_Decode a dst src = (if ae_rawTrans a then Some (None, dst @ src, [], a) else AES128_loop dst src a)"

text \<open>Packets: the connection is made without a connection's data; a packet carries the user and a checksum.\<close>

definition AES128_DecodePacket :: "auth_aes128 \<Rightarrow> u8 list \<Rightarrow> ssr_decode_error + u8 list" where
  "AES128_DecodePacket a b =
     (if length b < 4 then Inl LengthError
      else if take 4 (af_hmac (ae_function a) (sb_Key (ae_Base a)) (take (length b - 4) b)) \<noteq> drop (length b - 4) b then Inl ChksumError
      else Inr (take (length b - 4) b))"

definition AES128_EncodePacket :: "auth_aes128 \<Rightarrow> u8 list \<Rightarrow> u8 list" where
  "AES128_EncodePacket a b =
     (let w = b; w = w @ ud_userID (ae_userData a) in w @ take 4 (af_hmac (ae_function a) (ud_userKey (ae_userData a)) w))"

end
