(* ===== verification/SsrChain.thy ===== *)
theory SsrChain
  imports SsrAuth
begin

unbundle bit_operations_syntax

text \<open>
  The protocols \<open>auth_chain_a\<close> and \<open>auth_chain_b\<close> of ShadowsocksR
  (\<open>src/pkg/clash/transport/ssr/protocol/auth_chain_a.go\<close>, \<open>auth_chain_b.go\<close>) with their generator of random numbers
  (\<open>tools/random.go\<close>). The size of a record's random bytes is not sent: both ends compute it from the last hash. RC4, the
  hashes and CTR are parameters; a slice out of range is a panic, \<open>None\<close>.
\<close>

subsection \<open>The generator (tools/random.go)\<close>

type_synonym u64 = "64 word"
type_synonym xor_shift = "u64 \<times> u64"

definition xs_Next :: "xor_shift \<Rightarrow> u64 \<times> xor_shift" where
  "xs_Next = (\<lambda>(s0, s1).
     let x = s0; y = s1;
         x = x XOR push_bit 23 x;
         x = x XOR (y XOR drop_bit 17 x XOR drop_bit 26 y) in (x + y, (y, x)))"

definition le_u64 :: "u8 list \<Rightarrow> u64" where
  "le_u64 bs = foldr (\<lambda>b v. push_bit 8 v OR ucast b) bs 0"

definition le_u32 :: "u8 list \<Rightarrow> u32" where
  "le_u32 bs = foldr (\<lambda>b v. push_bit 8 v OR ucast b) bs 0"

definition le_u16 :: "u8 list \<Rightarrow> u16" where
  "le_u16 bs = of_nat (of_le16 (bs ! 0) (bs ! 1))"

definition xs_load :: "u8 list \<Rightarrow> xor_shift" where
  "xs_load bin = (le_u64 (take 8 bin), le_u64 (take 8 (drop 8 bin)))"

text \<open>For less than sixteen bytes the copy is made in a variable of the inner block, and the slice that is read is nil.\<close>

definition InitFromBin :: "u8 list \<Rightarrow> xor_shift option" where
  "InitFromBin bin = (if length bin < 16 then None else Some (xs_load bin))"

text \<open>
  The length is written into the argument itself, so the changed bytes are returned with the generator. The callers pass
  sixteen bytes, a hash of HMAC-MD5.
\<close>

definition InitFromBinAndLength :: "u8 list \<Rightarrow> nat \<Rightarrow> u8 list \<times> xor_shift" where
  "InitFromBinAndLength bin len =
     (let full = le16 (of_nat len) @ drop 2 bin in (full, ((\<lambda>x. snd (xs_Next x)) ^^ 4) (xs_load full)))"

definition xs_mod :: "nat \<Rightarrow> xor_shift \<Rightarrow> nat \<times> xor_shift" where
  "xs_mod n x = (case xs_Next x of (v, x) \<Rightarrow> (unat v mod n, x))"

subsection \<open>State\<close>

record auth_chain =
  ca_Base :: ssr_base
  ca_authData :: auth_data
  ca_userData :: user_data
  ca_iv :: "u8 list"
  ca_salt :: string
  ca_hasSentHeader :: bool
  ca_rawTrans :: bool
  ca_lastClientHash :: "u8 list"
  ca_lastServerHash :: "u8 list"
  ca_encrypter :: "u8 list \<times> nat"
  ca_decrypter :: "u8 list \<times> nat"
  ca_randomClient :: xor_shift
  ca_randomServer :: xor_shift
  ca_dataSizes :: "(nat list \<times> nat list) option"
  ca_packID :: u32
  ca_recvID :: u32

text \<open>A stream of RC4 is its key and how far it is.\<close>

definition rc4_XORKeyStream :: "ssr_api \<Rightarrow> u8 list \<times> nat \<Rightarrow> u8 list \<Rightarrow> u8 list \<times> u8 list \<times> nat" where
  "rc4_XORKeyStream A = (\<lambda>(key, i) data. (map2 (XOR) data (map (sa_rc4 A key) [i..<i + length data]), key, i + length data))"

text \<open>The user of the parameter \<open>id:key\<close>, whose key is used as it is.\<close>

definition chain_initUserData :: "ssr_base \<Rightarrow> rand_src \<Rightarrow> user_data \<times> rand_src" where
  "chain_initUserData = initUserData (\<lambda>d. d)"

definition new_chain :: "string \<Rightarrow> ssr_base \<Rightarrow> rand_src \<Rightarrow> auth_chain \<times> rand_src" where
  "new_chain salt b r =
     (case chain_initUserData b r of (u, r) \<Rightarrow>
        (\<lparr>ca_Base = b, ca_authData = new_auth_data, ca_userData = u, ca_iv = [], ca_salt = salt, ca_hasSentHeader = False,
          ca_rawTrans = False, ca_lastClientHash = [], ca_lastServerHash = [], ca_encrypter = ([], 0), ca_decrypter = ([], 0),
          ca_randomClient = (0, 0), ca_randomServer = (0, 0), ca_dataSizes = None, ca_packID = 0, ca_recvID = 0\<rparr>, r))"

definition newAuthChainA :: "ssr_base \<Rightarrow> rand_src \<Rightarrow> auth_chain \<times> rand_src" where
  "newAuthChainA = new_chain ''auth_chain_a''"

definition newAuthChainB :: "ssr_base \<Rightarrow> rand_src \<Rightarrow> auth_chain \<times> rand_src" where
  "newAuthChainB = new_chain ''auth_chain_b''"

text \<open>The state of a connection, without the data sizes of \<open>auth_chain_b\<close>.\<close>

definition chain_conn :: "auth_chain \<Rightarrow> auth_data \<Rightarrow> u8 list \<Rightarrow> auth_chain" where
  "chain_conn a mine iv =
     \<lparr>ca_Base = ca_Base a, ca_authData = mine, ca_userData = ca_userData a, ca_iv = iv, ca_salt = ca_salt a,
      ca_hasSentHeader = False, ca_rawTrans = False, ca_lastClientHash = [], ca_lastServerHash = [], ca_encrypter = ([], 0),
      ca_decrypter = ([], 0), ca_randomClient = (0, 0), ca_randomServer = (0, 0), ca_dataSizes = None, ca_packID = 1, ca_recvID = 1\<rparr>"

definition ChainA_StreamConn ::
  "io_conn \<Rightarrow> u8 list \<Rightarrow> auth_chain \<times> rand_src \<Rightarrow> auth_chain ssr_conn \<times> auth_chain \<times> rand_src" where
  "ChainA_StreamConn c iv = (\<lambda>(a, r).
     case auth_next (ca_authData a, r) of (mine, shared, r) \<Rightarrow> (ssr_dial c (chain_conn a mine iv), a\<lparr>ca_authData := shared\<rparr>, r))"

text \<open>The sizes are drawn from the key, and sorted.\<close>

fun draw_sizes :: "nat \<Rightarrow> xor_shift \<Rightarrow> nat list \<times> xor_shift" where
  "draw_sizes 0 x = ([], x)"
| "draw_sizes (Suc n) x =
     (case xs_Next x of (v, x) \<Rightarrow> (case draw_sizes n x of (vs, x) \<Rightarrow> (unat v mod 2340 mod 2040 mod 1440 # vs, x)))"

definition initDataSize :: "auth_chain \<Rightarrow> auth_chain option" where
  "initDataSize a =
     map_option (\<lambda>x.
       case xs_mod 8 x of (n, x) \<Rightarrow> (case draw_sizes (n + 4) x of (vs, x) \<Rightarrow>
         (case xs_mod 16 x of (m, x) \<Rightarrow> (case draw_sizes (m + 8) x of (ws, x) \<Rightarrow>
            a\<lparr>ca_randomServer := x, ca_dataSizes := Some (sort vs, sort ws)\<rparr>))))
       (InitFromBin (sb_Key (ca_Base a)))"

definition ChainB_StreamConn ::
  "io_conn \<Rightarrow> u8 list \<Rightarrow> auth_chain \<times> rand_src \<Rightarrow> (auth_chain ssr_conn \<times> auth_chain \<times> rand_src) option" where
  "ChainB_StreamConn c iv = (\<lambda>(a, r).
     case auth_next (ca_authData a, r) of (mine, shared, r) \<Rightarrow>
       map_option (\<lambda>p. (ssr_dial c p, a\<lparr>ca_authData := shared\<rparr>, r)) (initDataSize (chain_conn a mine iv)))"

subsection \<open>The sizes of random bytes\<close>

text \<open>The last steps of both: a smaller part for longer data.\<close>

definition short_rand :: "nat \<Rightarrow> xor_shift \<Rightarrow> nat \<times> xor_shift" where
  "short_rand len x =
     (if 1300 < len then xs_mod 31 x else if 900 < len then xs_mod 127 x else if 400 < len then xs_mod 521 x else xs_mod 1021 x)"

text \<open>Both return the size, the bytes of the hash, of which the first two change, and the generator.\<close>

definition ChainA_getRandLength :: "nat \<Rightarrow> u8 list \<Rightarrow> xor_shift \<Rightarrow> nat \<times> u8 list \<times> xor_shift" where
  "ChainA_getRandLength len hash x =
     (if 1440 < len then (0, hash, x)
      else (case InitFromBinAndLength hash len of (hash, x) \<Rightarrow> (case short_rand len x of (n, x) \<Rightarrow> (n, hash, x))))"

text \<open>\<open>sort.Search\<close> in a sorted list.\<close>

definition search_size :: "nat list \<Rightarrow> int \<Rightarrow> nat" where
  "search_size sizes n = length (takeWhile (\<lambda>s. int s < n) sizes)"

definition ChainB_getRandLength :: "nat list \<Rightarrow> nat list \<Rightarrow> int \<Rightarrow> nat \<Rightarrow> u8 list \<Rightarrow> xor_shift \<Rightarrow> nat \<times> u8 list \<times> xor_shift" where
  "ChainB_getRandLength list1 list2 overhead len hash x =
     (if 1440 \<le> len then (0, hash, x)
      else
        (case InitFromBinAndLength hash len of (hash, x) \<Rightarrow>
           (case xs_mod (length list1) x of (k, x) \<Rightarrow>
              let need = int len + overhead; finalPos = search_size list1 need + k in
              if finalPos < length list1 then (nat (int (list1 ! finalPos) - need), hash, x)
              else
                (case xs_mod (length list2) x of (k, x) \<Rightarrow>
                   let pos = search_size list2 need; finalPos = pos + k in
                   if finalPos < length list2 then (nat (int (list2 ! finalPos) - need), hash, x)
                   else if finalPos < pos + length list2 - 1 then (0, hash, x)
                   else (case short_rand len x of (n, x) \<Rightarrow> (n, hash, x))))))"

text \<open>\<open>randDataLength\<close>, the method of the protocol.\<close>

definition rand_data_length :: "(nat list \<times> nat list) option \<Rightarrow> int \<Rightarrow> nat \<Rightarrow> u8 list \<Rightarrow> xor_shift \<Rightarrow> nat \<times> u8 list \<times> xor_shift" where
  "rand_data_length sizes overhead =
     (case sizes of None \<Rightarrow> ChainA_getRandLength | Some (list1, list2) \<Rightarrow> ChainB_getRandLength list1 list2 overhead)"

definition chain_rand_length :: "auth_chain \<Rightarrow> nat \<Rightarrow> u8 list \<Rightarrow> xor_shift \<Rightarrow> nat \<times> u8 list \<times> xor_shift" where
  "chain_rand_length a = rand_data_length (ca_dataSizes a) (sb_Overhead (ca_Base a))"

definition getRandStartPos :: "nat \<Rightarrow> xor_shift \<Rightarrow> nat \<times> xor_shift" where
  "getRandStartPos len x = (if len = 0 then (0, x) else (case xs_Next x of (v, x) \<Rightarrow> (unat v mod 8589934609 mod len, x)))"

subsection \<open>Writing\<close>

definition putMixedRandDataAndData :: "auth_chain \<times> rand_src \<Rightarrow> u8 list \<Rightarrow> u8 list \<Rightarrow> u8 list \<times> auth_chain \<times> rand_src" where
  "putMixedRandDataAndData = (\<lambda>(a, r) w data.
     case chain_rand_length a (length data) (ca_lastClientHash a) (ca_randomClient a) of (n, hash, x) \<Rightarrow>
       let a = a\<lparr>ca_lastClientHash := hash, ca_randomClient := x\<rparr> in
       if data = [] then (case rand_bytes n r of (pad, r) \<Rightarrow> (w @ pad, a, r))
       else if 0 < n then
         (case getRandStartPos n x of (startPos, x) \<Rightarrow>
            (case rand_bytes startPos r of (front, r) \<Rightarrow> (case rand_bytes (n - startPos) r of (back, r) \<Rightarrow>
               (w @ front @ data @ back, a\<lparr>ca_randomClient := x\<rparr>, r))))
       else (w @ data, a, r))"

definition Chain_packData :: "ssr_api \<Rightarrow> auth_chain \<times> rand_src \<Rightarrow> u8 list \<Rightarrow> u8 list \<Rightarrow> u8 list \<times> auth_chain \<times> rand_src" where
  "Chain_packData A = (\<lambda>(a, r) w data.
     case rc4_XORKeyStream A (ca_encrypter a) data of (data, enc) \<Rightarrow>
       let macKey = ud_userKey (ca_userData a) @ le32 (ca_packID a);
           a = a\<lparr>ca_encrypter := enc, ca_packID := ca_packID a + 1\<rparr>;
           len = of_nat (length data) XOR le_u16 (take 2 (drop 14 (ca_lastClientHash a)));
           originalLength = length w;
           w = w @ le16 len in
       (case putMixedRandDataAndData (a, r) w data of (w, a, r) \<Rightarrow>
          let hash = sa_HmacMD5 A macKey (drop originalLength w) in
          (w @ take 2 hash, a\<lparr>ca_lastClientHash := hash\<rparr>, r)))"

definition initRC4Cipher :: "ssr_api \<Rightarrow> auth_chain \<Rightarrow> auth_chain" where
  "initRC4Cipher A a =
     (let key = kdf16 A (sa_base64 A (ud_userKey (ca_userData a)) @ sa_base64 A (ca_lastClientHash a)) in
      a\<lparr>ca_encrypter := (key, 0), ca_decrypter := (key, 0)\<rparr>)"

definition Chain_packAuthData ::
  "ssr_api \<Rightarrow> u32 \<Rightarrow> auth_chain \<times> rand_src \<Rightarrow> u8 list \<Rightarrow> u8 list \<Rightarrow> u8 list \<times> auth_chain \<times> rand_src" where
  "Chain_packAuthData A now = (\<lambda>(a, r) w data.
     let macKey = ca_iv a @ sb_Key (ca_Base a); u = ca_userData a in
     (case rand_bytes 4 r of (check, r) \<Rightarrow>
        let w = w @ check;
            a = a\<lparr>ca_lastClientHash := sa_HmacMD5 A macKey w\<rparr>;
            a = initRC4Cipher A a;
            w = w @ take 8 (ca_lastClientHash a);
            w = w @ le32 (le_u32 (ud_userID u) XOR le_u32 (take 4 (drop 8 (ca_lastClientHash a))));
            w = putEncryptedData A now (ca_authData a) w (ud_userKey u) (nat (sb_Overhead (ca_Base a)), 0) (ca_salt a);
            a = a\<lparr>ca_lastServerHash := sa_HmacMD5 A (ud_userKey u) (drop 12 w)\<rparr>;
            w = w @ take 4 (ca_lastServerHash a) in
        Chain_packData A (a, r) w data))"

definition Chain_Encode :: "ssr_api \<Rightarrow> u32 \<Rightarrow> auth_chain encode" where
  "Chain_Encode A now a r b =
     (let (w, b, a, r) =
        (if \<not> ca_hasSentHeader a then
           (case getDataLength b r of (dataLength, r) \<Rightarrow>
              (case Chain_packAuthData A now (a, r) [] (take dataLength b) of (w, a, r) \<Rightarrow>
                 (w, drop dataLength b, a\<lparr>ca_hasSentHeader := True\<rparr>, r)))
         else ([], b, a, r)) in
      cut_loop 2800 (Chain_packData A) (a, r) w b)"

subsection \<open>Reading\<close>

function Chain_loop :: "ssr_api \<Rightarrow> u8 list \<Rightarrow> u8 list \<Rightarrow> auth_chain \<Rightarrow> (ssr_decode_error option \<times> u8 list \<times> u8 list \<times> auth_chain) option" where
  "Chain_loop A dst src a =
     (if length src \<le> 4 then Some (None, dst, src, a)
      else if length (ca_lastServerHash a) < 16 then None
      else let macKey = ud_userKey (ca_userData a) @ le32 (ca_recvID a);
               dataLength = unat (le_u16 src XOR le_u16 (drop 14 (ca_lastServerHash a))) in
        (case chain_rand_length a dataLength (ca_lastServerHash a) (ca_randomServer a) of (randDataLength, hash, x) \<Rightarrow>
           let a = a\<lparr>ca_lastServerHash := hash, ca_randomServer := x\<rparr>; n = dataLength + randDataLength in
           if 4096 \<le> n then Some (Some LengthError, dst, [], a\<lparr>ca_rawTrans := True\<rparr>)
           else if length src < 4 + n then Some (None, dst, src, a)
           else let serverHash = sa_HmacMD5 A macKey (take (n + 2) src) in
             if take 2 serverHash \<noteq> take 2 (drop (n + 2) src) then Some (Some ChksumError, dst, [], a\<lparr>ca_rawTrans := True\<rparr>)
             else
               (case (if 0 < dataLength \<and> 0 < randDataLength then getRandStartPos randDataLength x else (0, x)) of (start, x) \<Rightarrow>
                  (case rc4_XORKeyStream A (ca_decrypter a) (take dataLength (drop (2 + start) src)) of (wantedData, dec) \<Rightarrow>
                     let b = a\<lparr>ca_lastServerHash := serverHash, ca_randomServer := x, ca_decrypter := dec, ca_recvID := ca_recvID a + 1\<rparr> in
                     if ca_recvID a = 1 then
                       (if length wantedData < 2 then None else Chain_loop A (dst @ drop 2 wantedData) (drop (n + 4) src) b)
                     else Chain_loop A (dst @ wantedData) (drop (n + 4) src) b))))"
  by pat_completeness auto
termination by (relation "measure (\<lambda>(A, dst, src, a). length src)") auto

declare Chain_loop.simps [simp del]

definition Chain_Decode :: "ssr_api \<Rightarrow> (auth_chain, ssr_decode_error) decode" where
  "Chain_Decode A a dst src = (if ca_rawTrans a then Some (None, dst @ src, [], a) else Chain_loop A dst src a)"

subsection \<open>Packets\<close>

definition udpGetRandLength :: "u8 list \<Rightarrow> xor_shift \<Rightarrow> nat \<times> xor_shift" where
  "udpGetRandLength lastHash x = (case InitFromBin lastHash of Some x \<Rightarrow> xs_mod 127 x | None \<Rightarrow> (0, x))"

definition packet_key :: "ssr_api \<Rightarrow> auth_chain \<Rightarrow> u8 list \<Rightarrow> u8 list" where
  "packet_key A a md5Data = kdf16 A (sa_base64 A (ud_userKey (ca_userData a)) @ sa_base64 A md5Data)"

definition Chain_DecodePacket :: "ssr_api \<Rightarrow> auth_chain \<Rightarrow> u8 list \<Rightarrow> (ssr_decode_error + u8 list) option \<times> auth_chain" where
  "Chain_DecodePacket A a b =
     (if length b < 9 then (Some (Inl LengthError), a)
      else if take 1 (sa_HmacMD5 A (ud_userKey (ca_userData a)) (take (length b - 1) b)) \<noteq> drop (length b - 1) b
      then (Some (Inl ChksumError), a)
      else let md5Data = sa_HmacMD5 A (sb_Key (ca_Base a)) (take 7 (drop (length b - 8) b)) in
        (case udpGetRandLength md5Data (ca_randomServer a) of (randDataLength, x) \<Rightarrow>
           let a = a\<lparr>ca_randomServer := x\<rparr> in
           if length b < 8 + randDataLength then (None, a)
           else (Some (Inr (sa_ctr A (packet_key A a md5Data) (take (length b - 8 - randDataLength) b))), a)))"

definition Chain_EncodePacket :: "ssr_api \<Rightarrow> auth_chain \<times> rand_src \<Rightarrow> u8 list \<Rightarrow> u8 list \<times> auth_chain \<times> rand_src" where
  "Chain_EncodePacket A = (\<lambda>(a, r) b.
     case rand_bytes 3 r of (authData, r) \<Rightarrow>
       let md5Data = sa_HmacMD5 A (sb_Key (ca_Base a)) authData in
       (case udpGetRandLength md5Data (ca_randomClient a) of (randDataLength, x) \<Rightarrow>
          (case rand_bytes randDataLength r of (pad, r) \<Rightarrow>
             let u = ca_userData a;
                 w = sa_ctr A (packet_key A a md5Data) b @ pad @ authData @ le32 (le_u32 (ud_userID u) XOR le_u32 (take 4 md5Data)) in
             (w @ take 1 (sa_HmacMD5 A (ud_userKey u) w), a\<lparr>ca_randomClient := x\<rparr>, r))))"

end
