(* ===== verification/SsrAuthProps.thy ===== *)
theory SsrAuthProps
  imports SsrAuth
begin

text \<open>
  What the protocols of ShadowsocksR promise: their records satisfy the contract of \<open>stream_protocol\<close>, so that a client
  reads what a server sends; what a client writes is a head and records of which the server takes the same bytes; and the
  ids of connections are never zero and grow.
\<close>

subsection \<open>The shape of a record\<close>

definition padding :: "(u16 \<Rightarrow> u8 list) \<Rightarrow> u8 list \<Rightarrow> u8 list" where
  "padding put16 pad = (if length pad < 128 then [of_nat (length pad + 1)] else 255 # put16 (of_nat (length pad + 3))) @ pad"

text \<open>Size, its check, the padding, the data and the check of all that.\<close>

definition sized_bytes :: "(u16 \<Rightarrow> u8 list) \<Rightarrow> (u8 list \<Rightarrow> u8 list) \<Rightarrow> (u8 list \<Rightarrow> u8 list) \<Rightarrow> u8 list \<Rightarrow> u8 list \<Rightarrow> u8 list" where
  "sized_bytes put16 check2 check4 pad data =
     (let n = length (padding put16 pad) + length data + 8; w = put16 (of_nat n); w = w @ check2 w; w = w @ padding put16 pad @ data in
      w @ check4 w)"

definition put_ok :: "(u16 \<Rightarrow> u8 list) \<Rightarrow> (u8 \<Rightarrow> u8 \<Rightarrow> nat) \<Rightarrow> bool" where
  "put_ok put16 get16 \<longleftrightarrow> (\<forall>v. length (put16 v) = 2) \<and> (\<forall>n<65536. get16 (put16 (of_nat n) ! 0) (put16 (of_nat n) ! 1) = n)"

lemma put_ok_be: "put_ok be16 of_be16"
  unfolding put_ok_def using of_be16_of_nat by simp

lemma put_ok_le: "put_ok le16 of_le16"
  unfolding put_ok_def using of_le16_le16 by simp

definition checks_ok :: "(u8 list \<Rightarrow> u8 list) \<Rightarrow> (u8 list \<Rightarrow> u8 list) \<Rightarrow> bool" where
  "checks_ok check2 check4 \<longleftrightarrow> (\<forall>w. length (check2 w) = 2) \<and> (\<forall>w. length (check4 w) = 4)"

definition sized_fits :: "u8 list \<times> u8 list \<Rightarrow> bool" where
  "sized_fits = (\<lambda>(pad, data). length pad + length data + 11 < 8192)"

lemma length_padding: "put_ok put16 get16 \<Longrightarrow> length (padding put16 pad) = (if length pad < 128 then 1 else 3) + length pad"
  by (simp add: padding_def put_ok_def)

lemma length_sized:
  assumes "put_ok put16 get16" and "checks_ok check2 check4"
  shows "length (sized_bytes put16 check2 check4 pad data) = length (padding put16 pad) + length data + 8"
  using assms by (simp add: sized_bytes_def put_ok_def checks_ok_def Let_def)

lemma sized_cut:
  assumes "put_ok put16 get16" and "checks_ok check2 check4" and "sized_fits (pad, data)"
  defines "x \<equiv> sized_bytes put16 check2 check4 pad data"
  shows "get16 (x ! 0) (x ! 1) = length x" and "check2 (take 2 x) = take 2 (drop 2 x)"
    and "check4 (take (length x - 4) x) = drop (length x - 4) x"
    and "drop (4 + length (padding put16 pad)) (take (length x - 4) x) = data"
    and "7 \<le> length x" and "length x < 8192"
proof -
  let ?n = "length (padding put16 pad) + length data + 8"
  define l where "l = put16 (of_nat ?n)"
  let ?w = "l @ check2 l @ padding put16 pad @ data"
  have len: "length l = 2" "length (check2 w) = 2" "length (check4 w) = 4" for w
    using assms(1,2) by (simp_all add: put_ok_def checks_ok_def l_def)
  have x: "x = ?w @ check4 ?w" by (simp add: x_def sized_bytes_def Let_def l_def)
  have n: "length x = ?n" unfolding x_def by (rule length_sized [OF assms(1,2)])
  have small: "?n < 8192" using assms(3) length_padding [OF assms(1), of pad] by (simp add: sized_fits_def)
  obtain a b where l: "l = [a, b]" using len(1) by (auto simp: length_Suc_conv numeral_2_eq_2)
  then have "x ! 0 = l ! 0" "x ! 1 = l ! 1" unfolding x by simp_all
  moreover have "get16 (l ! 0) (l ! 1) = ?n" using assms(1) small unfolding put_ok_def l_def by (elim conjE allE [where x = ?n]) simp
  ultimately show "get16 (x ! 0) (x ! 1) = length x" by (simp only: n)
  show "check2 (take 2 x) = take 2 (drop 2 x)" by (simp add: x len)
  have w: "take (length x - 4) x = ?w" "drop (length x - 4) x = check4 ?w" by (simp_all add: x len)
  then show "check4 (take (length x - 4) x) = drop (length x - 4) x" by simp
  show "drop (4 + length (padding put16 pad)) (take (length x - 4) x) = data" unfolding w by (simp add: len)
  show "7 \<le> length x" "length x < 8192" using small by (simp_all add: n)
qed

lemma data_pos_sized:
  assumes "put_ok put16 get16" and "checks_ok check2 check4" and "sized_fits (pad, data)"
  shows "data_pos get16 (sized_bytes put16 check2 check4 pad data @ rest) = 4 + length (padding put16 pad)"
proof -
  let ?n = "length (padding put16 pad) + length data + 8"
  let ?l = "put16 (of_nat ?n)"
  have len: "length ?l = 2" "length (check2 ?l) = 2" "\<And>v. length (put16 v) = 2" using assms(1,2) by (simp_all add: put_ok_def checks_ok_def)
  obtain a b where l: "?l = [a, b]" using len(1) by (auto simp: length_Suc_conv numeral_2_eq_2)
  obtain c d where k: "check2 ?l = [c, d]" using len(2) by (auto simp: length_Suc_conv numeral_2_eq_2)
  obtain tail where x: "sized_bytes put16 check2 check4 pad data @ rest = [a, b, c, d] @ padding put16 pad @ tail"
    using l k by (simp add: sized_bytes_def Let_def)
  show ?thesis
  proof (cases "length pad < 128")
    case True
    have "unat (of_nat n :: u8) = n" if "n < 256" for n using that by (simp add: unsigned_of_nat take_bit_nat_eq_self)
    from this [of "length pad + 1"] True have u: "unat (of_nat (length pad + 1) :: u8) = length pad + 1" by simp
    have "(sized_bytes put16 check2 check4 pad data @ rest) ! 4 = of_nat (length pad + 1)" unfolding x using True by (simp add: padding_def)
    then show ?thesis using True u by (simp add: data_pos_def padding_def del: of_nat_add of_nat_Suc)
  next
    case False
    obtain e f where p: "put16 (of_nat (length pad + 3)) = [e, f]" using len(3) [of "of_nat (length pad + 3)"]
      by (auto simp: length_Suc_conv numeral_2_eq_2)
    have "length pad + 3 < 65536" using assms(3) by (simp add: sized_fits_def)
    then have "get16 e f = length pad + 3" using assms(1) p unfolding put_ok_def by (metis nth_Cons_0 nth_Cons_Suc One_nat_def)
    then show ?thesis unfolding x using False p by (simp add: data_pos_def padding_def)
  qed
qed

text \<open>The first bytes of a longer source, and of the front of a record.\<close>

lemma whole_front:
  assumes "4 \<le> length x"
  shows "(x @ rest) ! 0 = x ! 0" and "(x @ rest) ! 1 = x ! 1" and "take 2 (x @ rest) = take 2 x" and "take 2 (drop 2 (x @ rest)) = take 2 (drop 2 x)"
proof -
  have "0 < length x" "1 < length x" using assms by linarith+
  then show "(x @ rest) ! 0 = x ! 0" "(x @ rest) ! 1 = x ! 1" by (simp_all only: nth_append_left)
qed (use assms in simp_all)

subsection \<open>auth_sha1_v4 takes its records\<close>

definition sha1_check2 :: "ssr_api \<Rightarrow> u8 list \<Rightarrow> u8 list" where
  "sha1_check2 A w = le16 (ucast (sa_crc32 A w))"

definition sha1_check4 :: "ssr_api \<Rightarrow> u8 list \<Rightarrow> u8 list" where
  "sha1_check4 A w = le32 (sa_adler32 A w)"

definition sha1_record :: "ssr_api \<Rightarrow> u8 list \<times> u8 list \<Rightarrow> u8 list" where
  "sha1_record A = (\<lambda>(pad, data). sized_bytes be16 (sha1_check2 A) (sha1_check4 A) pad data)"

lemma sha1_checks: "checks_ok (sha1_check2 A) (sha1_check4 A)"
  by (simp add: checks_ok_def sha1_check2_def sha1_check4_def)

lemma SHA1V4_loop_record:
  assumes "sized_fits (pad, data)"
  shows "SHA1V4_loop A dst (sha1_record A (pad, data) @ rest) = SHA1V4_loop A (dst @ data) rest"
proof -
  let ?x = "sha1_record A (pad, data)"
  note c = sized_cut [OF put_ok_be sha1_checks [of A] assms, folded sha1_record_def]
  have x: "?x = sized_bytes be16 (sha1_check2 A) (sha1_check4 A) pad data" by (simp add: sha1_record_def)
  note c = c [folded x]
  have hd: "(?x @ rest) ! 0 = ?x ! 0" "(?x @ rest) ! 1 = ?x ! 1" "take 2 (?x @ rest) = take 2 ?x" "take 2 (drop 2 (?x @ rest)) = take 2 (drop 2 ?x)"
    using whole_front [of ?x rest] c(5) by simp_all
  have pos: "data_pos of_be16 (?x @ rest) = 4 + length (padding be16 pad)"
    unfolding x by (rule data_pos_sized [OF put_ok_be sha1_checks assms])
  have le: "4 + length (padding be16 pad) \<le> length ?x - 4" using length_sized [OF put_ok_be sha1_checks [of A], of pad data] by (simp add: x)
  have tk: "take (length ?x - 4) (?x @ rest) = take (length ?x - 4) ?x" "take 4 (drop (length ?x - 4) (?x @ rest)) = drop (length ?x - 4) ?x"
    using c(5) by simp_all
  show ?thesis
    by (subst SHA1V4_loop.simps) (use c le in \<open>simp add: hd [simplified] hd pos tk sha1_check2_def sha1_check4_def Let_def\<close>)
qed

lemma SHA1V4_loop_partial:
  assumes "sized_fits (pad, data)" and "sha1_record A (pad, data) = xs @ ys" and "ys \<noteq> []"
  shows "SHA1V4_loop A dst xs = Some (None, dst, xs, False)"
proof (cases "length xs \<le> 4")
  case False
  let ?x = "sha1_record A (pad, data)"
  have x: "?x = sized_bytes be16 (sha1_check2 A) (sha1_check4 A) pad data" by (simp add: sha1_record_def)
  note c = sized_cut [OF put_ok_be sha1_checks [of A] assms(1), folded x]
  have f: "xs ! 0 = ?x ! 0" "xs ! 1 = ?x ! 1" "take 2 xs = take 2 ?x" "take 2 (drop 2 xs) = take 2 (drop 2 ?x)"
    using whole_front [of xs ys] False assms(2) by simp_all
  have "length xs < length ?x" using assms(2,3) by simp
  then show ?thesis using False c by (subst SHA1V4_loop.simps) (simp add: f [simplified] f sha1_check2_def Let_def)
qed (simp add: SHA1V4_loop.simps)

interpretation sha1: stream_protocol "\<lambda>a. \<not> sh_rawTrans a" "\<lambda>_. ()" "\<lambda>_. sized_fits" "\<lambda>_. sha1_record A" "\<lambda>_ _. ()" snd "SHA1V4_Decode A"
proof (unfold_locales, goal_cases)
  case (1 p i)
  then show ?case by (intro exI [of _ p]) (cases i; simp add: SHA1V4_Decode_def SHA1V4_loop_record)
next
  case (2 p i xs ys dst)
  then show ?case by (intro exI [of _ p]) (cases i; simp add: SHA1V4_Decode_def SHA1V4_loop_partial)
next
  case (3 p dst)
  then show ?case by (simp add: SHA1V4_Decode_def SHA1V4_loop.simps)
qed

subsection \<open>auth_aes128 takes its records\<close>

type_synonym record_key = "(u8 list \<Rightarrow> u8 list \<Rightarrow> u8 list) \<times> u8 list \<times> u32"

definition aes_keys :: "auth_aes128 \<Rightarrow> record_key" where
  "aes_keys a = (af_hmac (ae_function a), ud_userKey (ae_userData a), ae_recvID a)"

definition aes_check :: "nat \<Rightarrow> record_key \<Rightarrow> u8 list \<Rightarrow> u8 list" where
  "aes_check n = (\<lambda>(hmac, key, i) w. take n (hmac (key @ le32 i) w))"

definition aes_record :: "record_key \<Rightarrow> u8 list \<times> u8 list \<Rightarrow> u8 list" where
  "aes_record c = (\<lambda>(pad, data). sized_bytes le16 (aes_check 2 c) (aes_check 4 c) pad data)"

definition aes_next :: "record_key \<Rightarrow> record_key" where
  "aes_next = (\<lambda>(hmac, key, i). (hmac, key, i + 1))"

text \<open>The connection decodes, and its checksums are long enough.\<close>

definition aes_ok :: "auth_aes128 \<Rightarrow> bool" where
  "aes_ok a \<longleftrightarrow> \<not> ae_rawTrans a \<and> (\<forall>k d. 4 \<le> length (af_hmac (ae_function a) k d))"

lemma aes_checks: "aes_ok a \<Longrightarrow> checks_ok (aes_check 2 (aes_keys a)) (aes_check 4 (aes_keys a))"
proof -
  assume "aes_ok a"
  then have four: "4 \<le> length (af_hmac (ae_function a) k d)" for k d by (simp add: aes_ok_def)
  have "2 \<le> length (af_hmac (ae_function a) k d)" for k d using four [of k d] by linarith
  with four show ?thesis by (simp add: checks_ok_def aes_check_def aes_keys_def min.absorb2)
qed

lemma AES128_loop_record:
  assumes "aes_ok a" and "sized_fits (pad, data)"
  shows "AES128_loop dst (aes_record (aes_keys a) (pad, data) @ rest) a = AES128_loop (dst @ data) rest (a\<lparr>ae_recvID := ae_recvID a + 1\<rparr>)"
proof -
  let ?x = "aes_record (aes_keys a) (pad, data)"
  have x: "?x = sized_bytes le16 (aes_check 2 (aes_keys a)) (aes_check 4 (aes_keys a)) pad data" by (simp add: aes_record_def)
  note c = sized_cut [OF put_ok_le aes_checks [OF assms(1)] assms(2), folded x]
  have hd: "(?x @ rest) ! 0 = ?x ! 0" "(?x @ rest) ! 1 = ?x ! 1" "take 2 (?x @ rest) = take 2 ?x" "take 2 (drop 2 (?x @ rest)) = take 2 (drop 2 ?x)"
    using whole_front [of ?x rest] c(5) by simp_all
  have pos: "data_pos of_le16 (?x @ rest) = 4 + length (padding le16 pad)"
    unfolding x by (rule data_pos_sized [OF put_ok_le aes_checks [OF assms(1)] assms(2)])
  have le: "4 + length (padding le16 pad) \<le> length ?x - 4" using length_sized [OF put_ok_le aes_checks [OF assms(1)], of pad data] by (simp add: x)
  have tk: "take (length ?x - 4) (?x @ rest) = take (length ?x - 4) ?x" "take 4 (drop (length ?x - 4) (?x @ rest)) = drop (length ?x - 4) ?x"
    using c(5) by simp_all
  have k: "aes_check n (aes_keys a) w = take n (af_hmac (ae_function a) (ud_userKey (ae_userData a) @ le32 (ae_recvID a)) w)" for n w
    by (simp add: aes_check_def aes_keys_def)
  show ?thesis
    by (subst AES128_loop.simps) (use c [unfolded k] le in \<open>simp add: hd [simplified] hd pos tk Let_def\<close>)
qed

lemma AES128_loop_partial:
  assumes "aes_ok a" and "sized_fits (pad, data)" and "aes_record (aes_keys a) (pad, data) = xs @ ys" and "ys \<noteq> []"
  shows "AES128_loop dst xs a = Some (None, dst, xs, a)"
proof (cases "length xs \<le> 4")
  case False
  let ?x = "aes_record (aes_keys a) (pad, data)"
  have x: "?x = sized_bytes le16 (aes_check 2 (aes_keys a)) (aes_check 4 (aes_keys a)) pad data" by (simp add: aes_record_def)
  note c = sized_cut [OF put_ok_le aes_checks [OF assms(1)] assms(2), folded x]
  have f: "xs ! 0 = ?x ! 0" "xs ! 1 = ?x ! 1" "take 2 xs = take 2 ?x" "take 2 (drop 2 xs) = take 2 (drop 2 ?x)"
    using whole_front [of xs ys] False assms(3) by simp_all
  have k: "aes_check n (aes_keys a) w = take n (af_hmac (ae_function a) (ud_userKey (ae_userData a) @ le32 (ae_recvID a)) w)" for n w
    by (simp add: aes_check_def aes_keys_def)
  have "length xs < length ?x" using assms(3,4) by simp
  then show ?thesis using False c [unfolded k] by (subst AES128_loop.simps) (simp add: f [simplified] f Let_def)
qed (simp add: AES128_loop.simps)

interpretation aes128: stream_protocol aes_ok aes_keys "\<lambda>_. sized_fits" aes_record "\<lambda>c _. aes_next c" snd AES128_Decode
proof (unfold_locales, goal_cases)
  case (1 a i)
  then show ?case
    by (intro exI [of _ "a\<lparr>ae_recvID := ae_recvID a + 1\<rparr>"])
      (cases i; simp add: AES128_Decode_def AES128_loop_record aes_ok_def aes_keys_def [of "a\<lparr>ae_recvID := ae_recvID a + 1\<rparr>"] aes_next_def;
        simp add: aes_keys_def)
next
  case (2 a i xs ys dst)
  then show ?case by (intro exI [of _ a]) (cases i; simp add: AES128_Decode_def AES128_loop_partial; simp add: aes_ok_def)
next
  case (3 a dst)
  then show ?case by (simp add: AES128_Decode_def AES128_loop.simps aes_ok_def)
qed

subsection \<open>What is written is a sequence of records\<close>

context stream_protocol
begin

text \<open>\<open>Inv n s\<close> holds of the state \<open>s\<close> when \<open>n\<close> bytes are left to be written.\<close>

lemma cut_loop_records:
  assumes pk: "\<And>s w data n. data \<noteq> [] \<Longrightarrow> length data \<le> limit \<Longrightarrow> Inv (length data + n) s \<Longrightarrow>
      \<exists>i s'. pk s w data = (w @ pack (c s) i, s') \<and> fits (c s) i \<and> payload i = data \<and> pack (c s) i \<noteq> [] \<and> c s' = advance (c s) i \<and> Inv n s'"
    and "0 < limit"
  shows "Inv (length b) s \<Longrightarrow> \<exists>is s'. cut_loop limit pk s w b = (w @ frames (c s) is, s') \<and> fit (c s) is \<and> concat (map payload is) = b \<and>
    (is = [] \<or> frames (c s) is \<noteq> [])"
proof (induction b arbitrary: s w rule: length_induct)
  case (1 b)
  show ?case
  proof (cases "limit < length b")
    case True
    then have "take limit b \<noteq> []" using assms(2) by auto
    from pk [OF this, of "length b - limit" s w] True 1(2) obtain i s1 where
      i: "pk s w (take limit b) = (w @ pack (c s) i, s1)" "fits (c s) i" "payload i = take limit b" "pack (c s) i \<noteq> []" "c s1 = advance (c s) i"
        "Inv (length (drop limit b)) s1" by auto
    have "length (drop limit b) < length b" using True assms(2) by simp
    with 1(1) i(6) obtain "is" s' where
      "cut_loop limit pk s1 (w @ pack (c s) i) (drop limit b) = ((w @ pack (c s) i) @ frames (c s1) is, s')" "fit (c s1) is"
      "concat (map payload is) = drop limit b" by meson
    then show ?thesis using True assms(2) i
      by (intro exI [of _ "i # is"] exI [of _ s']) (subst cut_loop.simps; simp)
  next
    case False
    show ?thesis
    proof (cases "b = []")
      case True
      then show ?thesis by (intro exI [of _ "[]"] exI [of _ s]) (simp add: cut_loop.simps)
    next
      case b: False
      from pk [OF b, of 0 s w] 1(2) False obtain i s1 where
        "pk s w b = (w @ pack (c s) i, s1)" "fits (c s) i" "payload i = b" "pack (c s) i \<noteq> []" by auto
      then show ?thesis using False b by (intro exI [of _ "[i]"] exI [of _ s1]) (simp add: cut_loop.simps)
    qed
  qed
qed

end

text \<open>The record that each protocol packs is the one its decoder takes.\<close>

lemma packRandData_padding: "\<exists>pad r'. length pad = n \<and> packRandData put16 w n r = (w @ padding put16 pad, r')"
  by (intro exI [of _ "fst (rand_bytes n r)"] exI [of _ "snd (rand_bytes n r)"]) (simp add: packRandData_def padding_def split: prod.split)

lemma packed_length_padding:
  assumes "put_ok put16 get16"
  shows "packed_length (2 + 2 + 3 + length pad + m + 4) (length pad) = length (padding put16 pad) + m + 8"
  using length_padding [OF assms, of pad] by (simp add: packed_length_def)

lemma SHA1V4_packData_record:
  assumes "length data \<le> 8100"
  shows "\<exists>i r'. SHA1V4_packData A r w data = (w @ sha1_record A i, r') \<and> sized_fits i \<and> snd i = data"
proof -
  obtain n r1 where n: "sha1_rand_length (length data) r = (n, r1)" by (cases "sha1_rand_length (length data) r")
  have small: "n + length data + 11 < 8192"
    using n assms by (auto simp: sha1_rand_length_def draw_def intro: le_less_trans split: if_splits)
  let ?p = "packed_length (2 + 2 + 3 + n + length data + 4) n"
  define l where "l = be16 (of_nat ?p)"
  define v where "v = l @ sha1_check2 A l"
  have len: "length l = 2" "length v = 4" by (simp_all add: l_def v_def sha1_check2_def)
  obtain pad r2 where pad: "length pad = n" "packRandData be16 (w @ v) n r1 = ((w @ v) @ padding be16 pad, r2)"
    using packRandData_padding [of n be16 "w @ v" r1] by blast
  have p: "?p = length (padding be16 pad) + length data + 8" using packed_length_padding [OF put_ok_be, of pad "length data"] pad(1) by simp
  have v: "(w @ l) @ le16 (ucast (sa_crc32 A (drop (length (w @ l) - 2) (w @ l)))) = w @ v"
    by (simp add: v_def len sha1_check2_def)
  have c: "drop (length (((w @ v) @ padding be16 pad) @ data) + 4 - ?p) (((w @ v) @ padding be16 pad) @ data) = v @ padding be16 pad @ data"
    unfolding p by (simp add: len)
  have "SHA1V4_packData A r w data = ((((w @ v) @ padding be16 pad) @ data) @ sha1_check4 A (v @ padding be16 pad @ data), r2)"
    by (simp only: SHA1V4_packData_def n prod.case Let_def l_def [symmetric] v pad(2) c sha1_check4_def)
  moreover have "sha1_record A (pad, data) = v @ padding be16 pad @ data @ sha1_check4 A (v @ padding be16 pad @ data)"
    unfolding sha1_record_def prod.case sized_bytes_def Let_def p [symmetric] l_def [symmetric] by (simp add: v_def)
  ultimately have "SHA1V4_packData A r w data = (w @ sha1_record A (pad, data), r2)" by simp
  then show ?thesis using small pad(1) by (intro exI [of _ "(pad, data)"]) (simp add: sized_fits_def)
qed

text \<open>A write in the middle of a connection is read in full by a peer that has the same keys.\<close>

definition aes_out_keys :: "auth_aes128 \<Rightarrow> record_key" where
  "aes_out_keys a = (af_hmac (ae_function a), ud_userKey (ae_userData a), ae_packID a)"

lemma aes_rand_length_small:
  assumes "aes128_rand_length a (length data) full r = (n, r')" and "length data \<le> 8100"
  shows "n + length data + 11 < 8192"
proof -
  have m: "x mod nat (k - int l) + l < 8181" if "int l < k" "k \<le> 2911" for x l :: nat and k :: int
  proof -
    have "x mod nat (k - int l) < nat (k - int l)" using that by (intro mod_less_divisor) simp
    then show ?thesis using that by linarith
  qed
  show ?thesis using assms
    by (auto simp: aes128_rand_length_def trapezoidRandom_def draw_def Let_def split: if_splits intro!: m add_strict_mono)
qed

lemma AES128_packData_record:
  assumes "length data \<le> 8100" and "\<forall>k d. 4 \<le> length (af_hmac (ae_function a) k d)"
  shows "\<exists>i r'. AES128_packData full (a, r) w data = (w @ aes_record (aes_out_keys a) i, a\<lparr>ae_packID := ae_packID a + 1\<rparr>, r') \<and>
    sized_fits i \<and> snd i = data"
proof -
  obtain n r1 where n: "aes128_rand_length a (length data) full r = (n, r1)" by (cases "aes128_rand_length a (length data) full r")
  note small = aes_rand_length_small [OF n assms(1)]
  let ?p = "packed_length (2 + 2 + 3 + n + length data + 4) n" and ?k = "aes_out_keys a"
  define l where "l = le16 (of_nat ?p)"
  define v where "v = l @ aes_check 2 ?k l"
  have k: "take m (af_hmac (ae_function a) (ud_userKey (ae_userData a) @ le32 (ae_packID a)) x) = aes_check m ?k x" for m x
    by (simp add: aes_check_def aes_out_keys_def)
  have "2 \<le> length (af_hmac (ae_function a) x y)" for x y using assms(2) [rule_format, of x y] by linarith
  then have len: "length l = 2" "length v = 4" by (simp_all add: l_def v_def aes_check_def aes_out_keys_def min.absorb2)
  obtain pad r2 where pad: "length pad = n" "packRandData le16 (w @ v) n r1 = ((w @ v) @ padding le16 pad, r2)"
    using packRandData_padding [of n le16 "w @ v" r1] by blast
  have p: "?p = length (padding le16 pad) + length data + 8" using packed_length_padding [OF put_ok_le, of pad "length data"] pad(1) by simp
  have v: "(w @ l) @ aes_check 2 ?k (drop (length (w @ l) - 2) (w @ l)) = w @ v" by (simp add: v_def len)
  have c: "drop (length (((w @ v) @ padding le16 pad) @ data) + 4 - ?p) (((w @ v) @ padding le16 pad) @ data) = v @ padding le16 pad @ data"
    unfolding p by (simp add: len)
  have "AES128_packData full (a, r) w data =
    ((((w @ v) @ padding le16 pad) @ data) @ aes_check 4 ?k (v @ padding le16 pad @ data), a\<lparr>ae_packID := ae_packID a + 1\<rparr>, r2)"
    by (simp only: AES128_packData_def n prod.case Let_def k l_def [symmetric] v pad(2) c)
  moreover have "aes_record ?k (pad, data) = v @ padding le16 pad @ data @ aes_check 4 ?k (v @ padding le16 pad @ data)"
    unfolding aes_record_def prod.case sized_bytes_def Let_def p [symmetric] l_def [symmetric] by (simp add: v_def)
  ultimately have "AES128_packData full (a, r) w data = (w @ aes_record ?k (pad, data), a\<lparr>ae_packID := ae_packID a + 1\<rparr>, r2)" by simp
  then show ?thesis using small pad(1) by (intro exI [of _ "(pad, data)"]) (simp add: sized_fits_def)
qed

subsection \<open>The properties\<close>

lemma be16_not_empty: "be16 v \<noteq> []" "le16 v \<noteq> []"
  by (simp_all add: be16_def le16_def)

lemma sha1_record_not_empty: "sha1_record A i \<noteq> []"
  by (cases i) (simp add: sha1_record_def sized_bytes_def Let_def be16_not_empty)

lemma aes_record_not_empty: "aes_record c i \<noteq> []"
  by (cases i) (simp add: aes_record_def sized_bytes_def Let_def be16_not_empty)

lemma SHA1V4_cut_records:
  "\<exists>is r'. cut_loop 8100 (SHA1V4_packData A) r w b = (w @ sha1.frames A () is, r') \<and> sha1.fit () is \<and> concat (map snd is) = b \<and>
    (is = [] \<or> sha1.frames A () is \<noteq> [])"
proof (rule sha1.cut_loop_records [where Inv = "\<lambda>_ _. True" and c = "\<lambda>_. ()"])
  fix s :: rand_src and w data :: "u8 list"
  assume "length data \<le> 8100"
  from SHA1V4_packData_record [OF this, of A s w] show
    "\<exists>i s'. SHA1V4_packData A s w data = (w @ sha1_record A i, s') \<and> sized_fits i \<and> snd i = data \<and> sha1_record A i \<noteq> [] \<and> () = () \<and> True"
    using sha1_record_not_empty by blast
qed simp_all

lemma AES128_cut_records:
  assumes "\<forall>k d. 4 \<le> length (af_hmac (ae_function a) k d)"
  shows "\<exists>is s'. cut_loop 8100 (AES128_packData full) (a, r) w b = (w @ aes128.frames (aes_out_keys a) is, s') \<and>
    aes128.fit (aes_out_keys a) is \<and> concat (map snd is) = b \<and> (is = [] \<or> aes128.frames (aes_out_keys a) is \<noteq> [])"
proof -
  have "\<exists>is s'. cut_loop 8100 (AES128_packData full) (a, r) w b = (w @ aes128.frames (aes_out_keys (fst (a, r))) is, s') \<and>
    aes128.fit (aes_out_keys (fst (a, r))) is \<and> concat (map snd is) = b \<and> (is = [] \<or> aes128.frames (aes_out_keys (fst (a, r))) is \<noteq> [])"
  proof (rule aes128.cut_loop_records [where Inv = "\<lambda>_ (a :: auth_aes128, r :: rand_src). \<forall>k d. 4 \<le> length (af_hmac (ae_function a) k d)" and c = "\<lambda>s. aes_out_keys (fst s)"])
    fix s :: "auth_aes128 \<times> rand_src" and w data :: "u8 list"
    assume a: "length data \<le> 8100" "case s of (a, r) \<Rightarrow> \<forall>k d. 4 \<le> length (af_hmac (ae_function a) k d)"
    obtain a r where s: "s = (a, r)" by (cases s)
    from AES128_packData_record [OF a(1), of a full r w] a(2) obtain i r' where
      "AES128_packData full s w data = (w @ aes_record (aes_out_keys a) i, a\<lparr>ae_packID := ae_packID a + 1\<rparr>, r')" "sized_fits i" "snd i = data"
      by (auto simp: s)
    then show "\<exists>i s'. AES128_packData full s w data = (w @ aes_record (aes_out_keys (fst s)) i, s') \<and> sized_fits i \<and> snd i = data \<and>
      aes_record (aes_out_keys (fst s)) i \<noteq> [] \<and> aes_out_keys (fst s') = aes_next (aes_out_keys (fst s)) \<and>
      (case s' of (a, r) \<Rightarrow> \<forall>k d. 4 \<le> length (af_hmac (ae_function a) k d))"
      using a(2) by (intro exI [of _ i] exI [of _ "(a\<lparr>ae_packID := ae_packID a + 1\<rparr>, r')"])
        (simp add: s aes_record_not_empty aes_out_keys_def aes_next_def)
  qed (use assms in simp_all)
  then show ?thesis by simp
qed

text \<open>
  After the head, whatever a connection with \<open>auth_sha1_v4\<close> writes is read in full and in order by a connection with the
  same checksums, however the network and the reader cut it.
\<close>

theorem sha1_v4_roundtrip:
  assumes "sh_hasSentHeader a" and "\<not> sh_rawTrans p" and "SHA1V4_Encode A now a r b = (out, a', r')" and "\<forall>(avail, k)\<in>set ks. 0 < k"
  shows "\<exists>n s'. reads (\<lambda>(avail, k). SsrConn_Read (SHA1V4_Decode A) avail k) ks (ssr_dial (fed out) p) = (take n b, s') \<and>
    (length out + length b \<le> length ks \<longrightarrow> length b \<le> n)"
proof -
  obtain "is" r1 where i: "cut_loop 8100 (SHA1V4_packData A) r [] b = ([] @ sha1.frames A () is, r1)" "sha1.fit () is" "concat (map snd is) = b"
    "is = [] \<or> sha1.frames A () is \<noteq> []" using SHA1V4_cut_records [of A r "[]" b] by blast
  have out: "out = sha1.frames A () is" using assms(1,3) i(1) by (simp add: SHA1V4_Encode_def)
  have "sha1.unread A (ssr_dial (fed out) p) b" using sha1.unread_start [OF assms(2) i(2,4)] by (simp add: out i(3))
  from sha1.reads_all [OF this assms(4)] show ?thesis by (simp add: ssr_dial_def fed_def)
qed

theorem auth_aes128_roundtrip:
  assumes "ae_hasSentHeader a" and "\<not> ae_rawTrans p" and "AES128_Encode A now a r b = (out, a', r')"
    and "\<forall>k d. 4 \<le> length (af_hmac (ae_function a) k d)"
    and "ae_function p = ae_function a" and "ud_userKey (ae_userData p) = ud_userKey (ae_userData a)" and "ae_recvID p = ae_packID a"
    and "\<forall>(avail, k)\<in>set ks. 0 < k"
  shows "\<exists>n s'. reads (\<lambda>(avail, k). SsrConn_Read AES128_Decode avail k) ks (ssr_dial (fed out) p) = (take n b, s') \<and>
    (length out + length b \<le> length ks \<longrightarrow> length b \<le> n)"
proof -
  obtain "is" s1 where i: "cut_loop 8100 (AES128_packData (length b)) (a, r) [] b = ([] @ aes128.frames (aes_out_keys a) is, s1)"
    "aes128.fit (aes_out_keys a) is" "concat (map snd is) = b" "is = [] \<or> aes128.frames (aes_out_keys a) is \<noteq> []"
    using AES128_cut_records [OF assms(4), of "length b" r "[]" b] by blast
  have out: "out = aes128.frames (aes_out_keys a) is" using assms(1,3) i(1) by (simp add: AES128_Encode_def)
  have k: "aes_keys p = aes_out_keys a" using assms(5-7) by (simp add: aes_keys_def aes_out_keys_def)
  have "aes_ok p" using assms(2,4,5) by (simp add: aes_ok_def)
  from aes128.unread_start [OF this, of "is"] i(2,4) have "aes128.unread (ssr_dial (fed out) p) b" by (simp add: out i(3) k)
  from aes128.reads_all [OF this assms(8)] show ?thesis by (simp add: ssr_dial_def fed_def)
qed

text \<open>The id of a connection is never zero; it is one more than the last, unless client and id are drawn anew.\<close>

theorem connection_ids:
  assumes "auth_next (s, r) = (mine, shared, r')"
  shows "ad_connectionID mine \<noteq> 0 \<and> shared = mine \<and>
    (ad_clientID mine = ad_clientID s \<and> unat (ad_connectionID mine) = unat (ad_connectionID s) + 1 \<or>
     (ad_connectionID s = 0 \<or> 0xff000000 < ad_connectionID s) \<and> unat (ad_connectionID mine) \<le> 2 ^ 24)"
proof (cases "0xff000000 < ad_connectionID s \<or> ad_connectionID s = 0")
  case True
  define n where "n = (of_nat (fst (draw (2 ^ 32) (snd (rand_bytes 4 r)))) AND 0xffffff :: u32)"
  have "unat n < 2 ^ 24"
  proof -
    have "n = take_bit 24 n" by (simp add: n_def take_bit_eq_mask mask_eq_exp_minus_1)
    then show ?thesis by (metis unsigned_take_bit_eq take_bit_nat_less_exp)
  qed
  then have n: "unat (n + 1) = unat n + 1" by (subst unat_add_lem [THEN iffD1]) simp_all
  have "mine = \<lparr>ad_clientID = fst (rand_bytes 4 r), ad_connectionID = n + 1\<rparr>" "shared = mine"
    using assms True by (auto simp: auth_next_def n_def Let_def split: prod.splits)
  then show ?thesis using True n \<open>unat n < 2 ^ 24\<close> by auto
next
  case False
  then have "unat (ad_connectionID s) < 2 ^ 32 - 1" by (simp add: word_less_nat_alt)
  then have "unat (ad_connectionID s + 1) = unat (ad_connectionID s) + 1" by (subst unat_add_lem [THEN iffD1]) simp_all
  then show ?thesis using assms False by (auto simp: auth_next_def Let_def)
qed

text \<open>
  The checks of \<open>auth_sha1_v4\<close> have no key: who can write into the stream can make the decoder panic, by a size of the
  random bytes that is more than the record has.
\<close>

definition sha1_oversized :: "ssr_api \<Rightarrow> u8 list" where
  "sha1_oversized A = (let w = [0, 11]; w = w @ sha1_check2 A w @ [254, 0, 0] in w @ sha1_check4 A w)"

theorem sha1_v4_panics:
  assumes "\<not> sh_rawTrans a"
  shows "SHA1V4_Decode A a dst (sha1_oversized A) = None"
proof -
  let ?l = "[0, 11] :: u8 list"
  have "length (sha1_check2 A ?l) = 2" by (simp add: sha1_check2_def)
  then obtain c d where c: "sha1_check2 A ?l = [c, d]" by (auto simp: length_Suc_conv numeral_2_eq_2)
  let ?w = "[0, 11, c, d, 254, 0, 0] :: u8 list"
  obtain e where e: "sha1_check4 A ?w = e" "length e = 4" using sha1_checks [of A] by (simp add: checks_ok_def)
  have x: "sha1_oversized A = ?w @ e" using c e by (simp add: sha1_oversized_def Let_def)
  have "of_be16 0 11 = 11" by (simp add: of_be16_def)
  then have "SHA1V4_loop A dst (?w @ e) = None" using c e
    by (subst SHA1V4_loop.simps) (simp add: sha1_check2_def sha1_check4_def data_pos_def Let_def)
  then show ?thesis using assms by (simp add: SHA1V4_Decode_def x)
qed

subsection \<open>Concrete inputs\<close>

definition w_api :: ssr_api where
  "w_api = \<lparr>sa_crc32 = (\<lambda>d. of_nat (length d)), sa_adler32 = (\<lambda>d. sum_list (map ucast d)), sa_HmacSHA1 = (\<lambda>k d. replicate 20 1),
     sa_HmacMD5 = (\<lambda>k d. replicate 16 1), sa_SHA1Sum = (\<lambda>d. replicate 20 2), sa_MD5Sum = (\<lambda>d. replicate 16 3),
     sa_base64 = (\<lambda>d. ''k''), sa_cbc = (\<lambda>k d. d), sa_ctr = (\<lambda>k d. d), sa_rc4 = (\<lambda>k i. of_nat i)\<rparr>"

definition w_base :: ssr_base where
  "w_base = \<lparr>sb_Key = [1, 2, 3], sb_Overhead = 7, sb_Param = []\<rparr>"

definition w_sha1 :: auth_sha1 where
  "w_sha1 = (newAuthSHA1V4 w_base)\<lparr>sh_hasSentHeader := True\<rparr>"

definition w_aes :: auth_aes128 where
  "w_aes = (fst (newAuthAES128MD5 w_api w_base (\<lambda>_. 0)))\<lparr>ae_hasSentHeader := True\<rparr>"

lemma sha1_v4_roundtrip_witness:
  "\<exists>n s'. reads (\<lambda>(avail, k). SsrConn_Read (SHA1V4_Decode w_api) avail k) (replicate 90 (2, 1))
    (ssr_dial (fed (fst (SHA1V4_Encode w_api 0 w_sha1 (\<lambda>_. 0) [5, 6, 7]))) w_sha1) = (take n [5, 6, 7], s')"
proof -
  have a: "sh_hasSentHeader w_sha1" "\<not> sh_rawTrans w_sha1" by (simp_all add: w_sha1_def newAuthSHA1V4_def)
  obtain out a' r' where e: "SHA1V4_Encode w_api 0 w_sha1 (\<lambda>_. 0) [5, 6, 7] = (out, a', r')" by (cases "SHA1V4_Encode w_api 0 w_sha1 (\<lambda>_. 0) [5, 6, 7]")
  from sha1_v4_roundtrip [OF a e, of "replicate 90 (2, 1)"] show ?thesis by (auto simp: e)
qed

lemma auth_aes128_roundtrip_witness:
  "\<exists>n s'. reads (\<lambda>(avail, k). SsrConn_Read AES128_Decode avail k) (replicate 90 (2, 1))
    (ssr_dial (fed (fst (AES128_Encode w_api 0 w_aes (\<lambda>_. 0) [5, 6, 7]))) w_aes) = (take n [5, 6, 7], s')"
proof -
  have a: "ae_hasSentHeader w_aes" "\<not> ae_rawTrans w_aes" "ae_recvID w_aes = ae_packID w_aes"
    "\<forall>k d. 4 \<le> length (af_hmac (ae_function w_aes) k d)"
    by (simp_all add: w_aes_def newAuthAES128MD5_def new_aes128_def w_api_def split: prod.split)
  obtain out a' r' where e: "AES128_Encode w_api 0 w_aes (\<lambda>_. 0) [5, 6, 7] = (out, a', r')" by (cases "AES128_Encode w_api 0 w_aes (\<lambda>_. 0) [5, 6, 7]")
  from auth_aes128_roundtrip [OF a(1,2) e a(4) refl refl a(3), of "replicate 90 (2, 1)"] show ?thesis by (auto simp: e)
qed

lemma connection_ids_witness:
  "case auth_next (new_auth_data, \<lambda>_. 7) of (mine, shared, r') \<Rightarrow> ad_connectionID mine \<noteq> 0"
  using connection_ids [of new_auth_data "\<lambda>_. 7"] by (cases "auth_next (new_auth_data, \<lambda>_. 7)") auto

lemma sha1_v4_panics_witness: "SHA1V4_Decode w_api w_sha1 [] (sha1_oversized w_api) = None"
  by (rule sha1_v4_panics) (simp add: w_sha1_def newAuthSHA1V4_def)

end
