(* ===== verification/SsrChainProps.thy ===== *)
theory SsrChainProps
  imports SsrChain SsrAuthProps
begin

unbundle bit_operations_syntax

text \<open>
  The records of \<open>auth_chain_a\<close> and \<open>auth_chain_b\<close> satisfy the contract of \<open>stream_protocol\<close>: the reader computes the
  size and the place of the random bytes as the writer did, so that what is written is read in full. Packets and first
  records that are too short make the reader panic.
\<close>

subsection \<open>The sizes of random bytes\<close>

lemma xs_mod_less: "0 < n \<Longrightarrow> fst (xs_mod n x) < n"
  by (simp add: xs_mod_def split: prod.split)

lemma InitFromBinAndLength_tail:
  "InitFromBinAndLength bin len = InitFromBinAndLength ([0, 0] @ drop 2 bin) len"
  by (simp add: InitFromBinAndLength_def)

lemma InitFromBinAndLength_hash [simp]:
  "drop 2 (fst (InitFromBinAndLength bin len)) = drop 2 bin"
  "2 \<le> length bin \<Longrightarrow> length (fst (InitFromBinAndLength bin len)) = length bin"
  by (simp_all add: InitFromBinAndLength_def Let_def)

text \<open>The size depends on the bytes of the hash behind the first two, and so does the generator, if there are any random bytes.\<close>

lemma rand_data_length_tail:
  assumes "rand_data_length sizes ov len hash x = (n, hash', x')" and "2 \<le> length hash"
  shows "drop 2 hash' = drop 2 hash" and "length hash' = length hash"
    and "\<exists>h x''. rand_data_length sizes ov len ([0, 0] @ drop 2 hash) (0, 0) = (n, h, x'') \<and> (0 < n \<longrightarrow> x'' = x')"
proof -
  obtain h y where i: "InitFromBinAndLength hash len = (h, y)" by (cases "InitFromBinAndLength hash len")
  have h: "drop 2 h = drop 2 hash" "length h = length hash" using InitFromBinAndLength_hash [of hash len] assms(2) by (simp_all add: i)
  have j: "InitFromBinAndLength (0 # 0 # drop 2 hash) len = (h, y)" using InitFromBinAndLength_tail [of hash len] by (simp add: i)
  show "drop 2 hash' = drop 2 hash" "length hash' = length hash"
    "\<exists>h x''. rand_data_length sizes ov len ([0, 0] @ drop 2 hash) (0, 0) = (n, h, x'') \<and> (0 < n \<longrightarrow> x'' = x')"
    using assms(1) h
    by ((cases x', (auto simp: rand_data_length_def ChainA_getRandLength_def ChainB_getRandLength_def i j Let_def
          split: option.splits if_splits prod.splits)[1])+)
qed

lemma short_rand_less: "fst (short_rand len x) < 1021"
  using xs_mod_less [of 31 x] xs_mod_less [of 127 x] xs_mod_less [of 521 x] xs_mod_less [of 1021 x]
  by (auto simp: short_rand_def)

text \<open>The lists of \<open>auth_chain_b\<close> hold sizes below 1440.\<close>

definition sizes_ok :: "(nat list \<times> nat list) option \<Rightarrow> int \<Rightarrow> bool" where
  "sizes_ok sizes overhead \<longleftrightarrow> 0 \<le> overhead \<and>
     (\<forall>list1 list2. sizes = Some (list1, list2) \<longrightarrow> (\<forall>s\<in>set list1 \<union> set list2. s < 1440))"

lemma rand_data_length_less:
  assumes "sizes_ok sizes ov" and "rand_data_length sizes ov len hash x = (n, hash', x')"
  shows "n < 1440 \<and> (1440 < len \<longrightarrow> n = 0)"
proof (cases sizes)
  case None
  have s: "m < 1021" if "short_rand l y = (m, z)" for l y m z using short_rand_less [of l y] by (simp add: that)
  show ?thesis using assms(2) None
    by (auto simp: rand_data_length_def ChainA_getRandLength_def split: if_splits prod.splits dest!: s)
next
  case (Some p)
  obtain list1 list2 where p: "p = (list1, list2)" by (cases p)
  have s: "m < 1021" if "short_rand l y = (m, z)" for l y m z using short_rand_less [of l y] by (simp add: that)
  have e: "nat (int (l ! i) - (int len + ov)) < 1440" if "i < length l" "l = list1 \<or> l = list2" for l i
  proof -
    have "l ! i \<in> set list1 \<union> set list2" using that nth_mem by blast
    then have "l ! i < 1440" using assms(1) Some p by (auto simp: sizes_ok_def)
    then show ?thesis using assms(1) by (auto simp: sizes_ok_def)
  qed
  show ?thesis using assms(2) Some p e
    by (auto simp: rand_data_length_def ChainB_getRandLength_def Let_def split: if_splits prod.splits dest!: s)
qed

lemma draw_sizes_less: "draw_sizes n x = (vs, x') \<Longrightarrow> s \<in> set vs \<Longrightarrow> s < 1440"
  by (induction n arbitrary: x vs x') (auto split: prod.splits)

subsection \<open>Records\<close>

text \<open>
  What of the state of a reader its records depend on: the hash of the last record but for its first two bytes, which the
  size of random bytes overwrites; its number; the place in the key stream; and the keys, which do not change.
\<close>

record chain_core =
  cc_userKey :: "u8 list"
  cc_sizes :: "(nat list \<times> nat list) option"
  cc_overhead :: int
  cc_tail :: "u8 list"
  cc_id :: u32
  cc_stream :: "u8 list \<times> nat"

definition reader_core :: "auth_chain \<Rightarrow> chain_core" where
  "reader_core a = \<lparr>cc_userKey = ud_userKey (ca_userData a), cc_sizes = ca_dataSizes a, cc_overhead = sb_Overhead (ca_Base a),
     cc_tail = drop 2 (ca_lastServerHash a), cc_id = ca_recvID a, cc_stream = ca_decrypter a\<rparr>"

definition writer_core :: "auth_chain \<Rightarrow> chain_core" where
  "writer_core a = \<lparr>cc_userKey = ud_userKey (ca_userData a), cc_sizes = ca_dataSizes a, cc_overhead = sb_Overhead (ca_Base a),
     cc_tail = drop 2 (ca_lastClientHash a), cc_id = ca_packID a, cc_stream = ca_encrypter a\<rparr>"

text \<open>How many random bytes a record of some bytes of data has, and how many of them are in front.\<close>

definition chain_plan :: "chain_core \<Rightarrow> nat \<Rightarrow> nat \<times> nat" where
  "chain_plan c len =
     (case rand_data_length (cc_sizes c) (cc_overhead c) len ([0, 0] @ cc_tail c) (0, 0) of (n, _, x) \<Rightarrow>
        (n, if 0 < len \<and> 0 < n then fst (getRandStartPos n x) else 0))"

text \<open>A record: random bytes in front and behind, two bytes that the reader skips in the first record, and the data.\<close>

type_synonym chain_item = "(u8 list \<times> u8 list) \<times> u8 list \<times> u8 list"

definition chain_body :: "ssr_api \<Rightarrow> chain_core \<Rightarrow> u8 list \<times> u8 list \<Rightarrow> u8 list \<Rightarrow> u8 list" where
  "chain_body A c = (\<lambda>(pre, post) plain.
     le16 (of_nat (length plain) XOR le_u16 (drop 12 (cc_tail c))) @ pre @ fst (rc4_XORKeyStream A (cc_stream c) plain) @ post)"

definition chain_hash :: "ssr_api \<Rightarrow> chain_core \<Rightarrow> u8 list \<Rightarrow> u8 list" where
  "chain_hash A c body = sa_HmacMD5 A (cc_userKey c @ le32 (cc_id c)) body"

definition chain_record :: "ssr_api \<Rightarrow> chain_core \<Rightarrow> chain_item \<Rightarrow> u8 list" where
  "chain_record A c = (\<lambda>(pads, skip, data).
     let body = chain_body A c pads (skip @ data) in body @ take 2 (chain_hash A c body))"

definition chain_next :: "ssr_api \<Rightarrow> chain_core \<Rightarrow> chain_item \<Rightarrow> chain_core" where
  "chain_next A c = (\<lambda>(pads, skip, data).
     c\<lparr>cc_tail := drop 2 (chain_hash A c (chain_body A c pads (skip @ data))), cc_id := cc_id c + 1,
       cc_stream := snd (rc4_XORKeyStream A (cc_stream c) (skip @ data))\<rparr>)"

definition chain_fits :: "chain_core \<Rightarrow> chain_item \<Rightarrow> bool" where
  "chain_fits c = (\<lambda>((pre, post), skip, data).
     let len = length (skip @ data); (n, start) = chain_plan c len in
     length skip = (if cc_id c = 1 then 2 else 0) \<and> length (pre @ post) = n \<and> length pre = start \<and> 0 < len + n \<and> len + n < 4096)"

definition chain_ok :: "auth_chain \<Rightarrow> bool" where
  "chain_ok a \<longleftrightarrow> \<not> ca_rawTrans a \<and> length (ca_lastServerHash a) = 16"

lemma length_rc4 [simp]: "length (fst (rc4_XORKeyStream A s data)) = length data"
  by (cases s) (simp add: rc4_XORKeyStream_def)

lemma rc4_twice:
  "rc4_XORKeyStream A s (fst (rc4_XORKeyStream A s data)) = (data, snd (rc4_XORKeyStream A s data))"
proof -
  have "map2 (XOR) (map2 (XOR) xs ys) ys = xs" if "length xs = length ys" for xs ys :: "u8 list"
    using that by (induction xs ys rule: list_induct2) (simp_all add: xor.assoc)
  then show ?thesis by (cases s) (simp add: rc4_XORKeyStream_def)
qed

lemma le_u16_le16: "le_u16 (le16 v @ rest) = v"
proof -
  have "of_le16 (le16 v ! 0) (le16 v ! 1) = unat v" using of_le16_le16 [of "unat v"] unsigned_less [of v] by simp
  moreover have "2 \<le> length (le16 v)" by simp
  ultimately show ?thesis by (simp add: le_u16_def nth_append_left)
qed

lemma chain_record_cut:
  fixes c A i
  defines "x \<equiv> chain_record A c i"
  assumes "chain_fits c i" and "\<forall>k d. length (sa_HmacMD5 A k d) = 16"
  obtains pre post skip data n where
    "i = ((pre, post), skip, data)" "chain_plan c (length (skip @ data)) = (n, length pre)" "length pre + length post = n"
    "length skip = (if cc_id c = 1 then 2 else 0)" "0 < length (skip @ data) + n" "length (skip @ data) + n < 4096"
    "length x = length (skip @ data) + n + 4"
    "\<And>rest. unat (le_u16 (x @ rest) XOR le_u16 (drop 12 (cc_tail c))) = length (skip @ data)"
    "\<And>rest. take (length (skip @ data) + n + 2) (x @ rest) = chain_body A c (pre, post) (skip @ data)"
    "\<And>rest. take 2 (drop (length (skip @ data) + n + 2) (x @ rest)) = take 2 (chain_hash A c (chain_body A c (pre, post) (skip @ data)))"
    "\<And>rest. take (length (skip @ data)) (drop (2 + length pre) (x @ rest)) = fst (rc4_XORKeyStream A (cc_stream c) (skip @ data))"
proof -
  obtain pre post skip data where i: "i = ((pre, post), skip, data)" by (metis prod.exhaust)
  let ?p = "skip @ data"
  obtain n where n: "chain_plan c (length ?p) = (n, length pre)" "length pre + length post = n" "length skip = (if cc_id c = 1 then 2 else 0)"
    "0 < length ?p + n" "length ?p + n < 4096"
  proof -
    obtain n start where pl: "chain_plan c (length ?p) = (n, start)" by (cases "chain_plan c (length ?p)")
    have f: "length skip = (if cc_id c = 1 then 2 else 0) \<and> length (pre @ post) = n \<and> length pre = start \<and> 0 < length ?p + n \<and> length ?p + n < 4096"
      using assms(2) by (simp only: chain_fits_def i prod.case Let_def pl)
    from f have "start = length pre" by blast
    from that [OF pl [unfolded this]] f [unfolded length_append [of pre post]] show ?thesis by blast
  qed
  define l where "l = le16 (of_nat (length ?p) XOR le_u16 (drop 12 (cc_tail c)))"
  define e where "e = fst (rc4_XORKeyStream A (cc_stream c) ?p)"
  define h where "h = take 2 (chain_hash A c (chain_body A c (pre, post) ?p))"
  have b: "chain_body A c (pre, post) ?p = l @ pre @ e @ post" by (simp add: chain_body_def l_def e_def)
  have x: "x = (l @ pre @ e @ post) @ h" by (simp add: x_def chain_record_def i Let_def b h_def)
  have len: "length l = 2" "length e = length ?p" "length h = 2"
    using assms(3) by (simp_all add: l_def e_def h_def chain_hash_def)
  have w: "unat (of_nat k :: u16) = k" if "k < 65536" for k using that by (simp add: unsigned_of_nat take_bit_nat_eq_self)
  have "length ?p < 65536" using n(5) by linarith
  note w = w [OF this]
  have "le_u16 (x @ rest) = of_nat (length ?p) XOR le_u16 (drop 12 (cc_tail c))" for rest
    by (simp add: x l_def le_u16_le16)
  then have u: "unat (le_u16 (x @ rest) XOR le_u16 (drop 12 (cc_tail c))) = length ?p" for rest
    by (simp only: xor.assoc xor_self_eq xor.right_neutral w)
  show ?thesis
    by (rule that [OF i n _ u]) (simp_all add: b x len e_def [symmetric] h_def [symmetric, unfolded b] n(2) [symmetric])
qed

text \<open>The reader computes the plan of the writer.\<close>

lemma reader_plan:
  assumes "length (ca_lastServerHash a) = 16" and "chain_plan (reader_core a) len = (n, start)"
  obtains hash x y where "chain_rand_length a len (ca_lastServerHash a) (ca_randomServer a) = (n, hash, x)"
    "drop 2 hash = drop 2 (ca_lastServerHash a)" "length hash = 16"
    "(if 0 < len \<and> 0 < n then getRandStartPos n x else (0, x)) = (start, y)"
proof -
  obtain m hash x where r: "rand_data_length (ca_dataSizes a) (sb_Overhead (ca_Base a)) len (ca_lastServerHash a) (ca_randomServer a) = (m, hash, x)"
    by (metis prod.exhaust)
  note t = rand_data_length_tail [OF r] 
  have "2 \<le> length (ca_lastServerHash a)" using assms(1) by simp
  from t [OF this] obtain h y where t: "drop 2 hash = drop 2 (ca_lastServerHash a)" "length hash = 16"
    "rand_data_length (ca_dataSizes a) (sb_Overhead (ca_Base a)) len ([0, 0] @ drop 2 (ca_lastServerHash a)) (0, 0) = (m, h, y)" "0 < m \<longrightarrow> y = x"
    using assms(1) by auto
  have "m = n" "start = fst (if 0 < len \<and> 0 < n then getRandStartPos n x else (0, x))"
    using assms(2) t(3,4) by (auto simp: chain_plan_def reader_core_def split: if_splits)
  then show ?thesis using that [of hash x "snd (if 0 < len \<and> 0 < n then getRandStartPos n x else (0, x))"] r t(1,2) by (simp add: chain_rand_length_def)
qed

definition after_record :: "ssr_api \<Rightarrow> auth_chain \<Rightarrow> u8 list \<Rightarrow> u8 list \<Rightarrow> xor_shift \<Rightarrow> auth_chain" where
  "after_record A a body plain x = a\<lparr>ca_lastServerHash := chain_hash A (reader_core a) body, ca_randomServer := x,
     ca_decrypter := snd (rc4_XORKeyStream A (ca_decrypter a) plain), ca_recvID := ca_recvID a + 1\<rparr>"

lemma Chain_loop_record:
  assumes "chain_ok a" and "chain_fits (reader_core a) i" and "\<forall>k d. length (sa_HmacMD5 A k d) = 16"
  shows "\<exists>a'. chain_ok a' \<and> reader_core a' = chain_next A (reader_core a) i \<and>
    (\<forall>dst rest. Chain_loop A dst (chain_record A (reader_core a) i @ rest) a = Chain_loop A (dst @ snd (snd i)) rest a')"
proof -
  let ?c = "reader_core a" and ?x = "chain_record A (reader_core a) i"
  from chain_record_cut [OF assms(2,3)] obtain pre post skip data n where i:
    "i = ((pre, post), skip, data)" "chain_plan ?c (length (skip @ data)) = (n, length pre)" "length pre + length post = n"
    "length skip = (if cc_id ?c = 1 then 2 else 0)" "0 < length (skip @ data) + n" "length (skip @ data) + n < 4096"
    "length ?x = length (skip @ data) + n + 4"
    "\<And>rest. unat (le_u16 (?x @ rest) XOR le_u16 (drop 12 (cc_tail ?c))) = length (skip @ data)"
    "\<And>rest. take (length (skip @ data) + n + 2) (?x @ rest) = chain_body A ?c (pre, post) (skip @ data)"
    "\<And>rest. take 2 (drop (length (skip @ data) + n + 2) (?x @ rest)) = take 2 (chain_hash A ?c (chain_body A ?c (pre, post) (skip @ data)))"
    "\<And>rest. take (length (skip @ data)) (drop (2 + length pre) (?x @ rest)) = fst (rc4_XORKeyStream A (cc_stream ?c) (skip @ data))"
    by metis
  let ?p = "skip @ data" and ?body = "chain_body A ?c (pre, post) (skip @ data)"
  have h: "length (ca_lastServerHash a) = 16" using assms(1) by (simp add: chain_ok_def)
  from reader_plan [OF h i(2)] obtain hash x y where r:
    "chain_rand_length a (length ?p) (ca_lastServerHash a) (ca_randomServer a) = (n, hash, x)" "drop 2 hash = drop 2 (ca_lastServerHash a)"
    "(if 0 < length ?p \<and> 0 < n then getRandStartPos n x else (0, x)) = (length pre, y)" by metis
  let ?a = "after_record A a ?body ?p y"
  have core: "drop 12 (cc_tail ?c) = drop 14 (ca_lastServerHash a)" "cc_stream ?c = ca_decrypter a" "cc_id ?c = ca_recvID a"
    "cc_userKey ?c = ud_userKey (ca_userData a)" by (simp_all add: reader_core_def)
  have hash: "sa_HmacMD5 A (ud_userKey (ca_userData a) @ le32 (ca_recvID a)) w = chain_hash A ?c w" for w
    by (simp add: chain_hash_def core)
  have "Chain_loop A dst (?x @ rest) a = Chain_loop A (dst @ data) rest ?a" for dst rest
  proof -
    have long: "\<not> length (?x @ rest) \<le> 4" "\<not> length (?x @ rest) < 4 + (length ?p + n)" "\<not> 4096 \<le> length ?p + n" using i(5,6,7) by simp_all
    have drop: "drop (length ?p + n + 4) (?x @ rest) = rest" using i(7) by simp
    have skip: "drop (if ca_recvID a = 1 then 2 else 0) ?p = data" "ca_recvID a = 1 \<longrightarrow> \<not> length ?p < 2" using i(4) by (auto simp: core)
    show ?thesis using skip
      by (subst Chain_loop.simps)
        (simp only: long if_False Let_def h i(8) [unfolded core] r(1) prod.case hash i(9,10) drop r(3) not_True_eq_False
          i(11) [unfolded core]; simp add: rc4_twice; simp add: after_record_def split: if_splits)
  qed
  moreover have "chain_ok ?a" using assms(1,3) by (simp add: chain_ok_def after_record_def chain_hash_def)
  moreover have "reader_core ?a = chain_next A ?c i" by (simp add: i(1) reader_core_def after_record_def chain_next_def)
  ultimately show ?thesis by (intro exI [of _ ?a]) (simp add: i(1))
qed

lemma Chain_loop_partial:
  assumes "chain_ok a" and "chain_fits (reader_core a) i" and "\<forall>k d. length (sa_HmacMD5 A k d) = 16"
    and "chain_record A (reader_core a) i = xs @ ys" and "ys \<noteq> []"
  shows "\<exists>a'. chain_ok a' \<and> reader_core a' = reader_core a \<and> Chain_loop A dst xs a = Some (None, dst, xs, a')"
proof (cases "length xs \<le> 4")
  case True
  then show ?thesis using assms(1) by (intro exI [of _ a]) (simp add: Chain_loop.simps)
next
  case False
  let ?c = "reader_core a" and ?x = "chain_record A (reader_core a) i"
  obtain pre skip data :: "u8 list" and n where i:
    "chain_plan ?c (length (skip @ data)) = (n, length pre)" "length (skip @ data) + n < 4096" "length ?x = length (skip @ data) + n + 4"
    "unat (le_u16 (?x @ []) XOR le_u16 (drop 12 (cc_tail ?c))) = length (skip @ data)"
  proof (rule chain_record_cut [OF assms(2,3)], goal_cases)
    case (1 pre post skip data n)
    show ?case by (rule 1(1) [OF 1(3,7,8,9)])
  qed
  have h: "length (ca_lastServerHash a) = 16" using assms(1) by (simp add: chain_ok_def)
  from reader_plan [OF h i(1)] obtain hash x where r:
    "chain_rand_length a (length (skip @ data)) (ca_lastServerHash a) (ca_randomServer a) = (n, hash, x)"
    "drop 2 hash = drop 2 (ca_lastServerHash a)" "length hash = 16" by metis
  have "le_u16 (?x @ []) = le_u16 xs" using whole_front(1,2) [of xs ys] False by (simp add: assms(4) le_u16_def)
  moreover have "drop 12 (cc_tail ?c) = drop 14 (ca_lastServerHash a)" by (simp add: reader_core_def)
  ultimately have len: "unat (le_u16 xs XOR le_u16 (drop 14 (ca_lastServerHash a))) = length (skip @ data)" using i(4) by simp
  have short: "length xs < 4 + (length (skip @ data) + n)" "\<not> 4096 \<le> length (skip @ data) + n"
  proof -
    have "0 < length ys" "length xs + length ys = length ?x" using assms(4,5) by simp_all
    then show "length xs < 4 + (length (skip @ data) + n)" using i(3) by linarith
  qed (use i(2) in simp)
  let ?a = "a\<lparr>ca_lastServerHash := hash, ca_randomServer := x\<rparr>"
  have "Chain_loop A dst xs a = Some (None, dst, xs, ?a)" using False
    by (subst Chain_loop.simps) (simp only: h Let_def len r(1) prod.case short if_True; simp)
  moreover have "chain_ok ?a" "reader_core ?a = ?c" using assms(1) r(2,3) by (simp_all add: chain_ok_def reader_core_def)
  ultimately show ?thesis by blast
qed

text \<open>The hash of a library, of which the interpretation needs the size of what it returns.\<close>

definition hash16 :: "ssr_api \<Rightarrow> ssr_api" where
  "hash16 A = A\<lparr>sa_HmacMD5 := \<lambda>k d. take 16 (sa_HmacMD5 A k d @ replicate 16 0)\<rparr>"

lemma hash16_length [simp]: "\<forall>k d. length (sa_HmacMD5 (hash16 A) k d) = 16"
  by (auto simp: hash16_def)

lemma hash16_id: "\<forall>k d. length (sa_HmacMD5 A k d) = 16 \<Longrightarrow> hash16 A = A"
  by (simp add: hash16_def)

interpretation chain: stream_protocol chain_ok reader_core chain_fits "chain_record (hash16 A)" "chain_next (hash16 A)" "\<lambda>i. snd (snd i)"
  "Chain_Decode (hash16 A)"
proof (unfold_locales, goal_cases)
  case (1 a i)
  from Chain_loop_record [OF this hash16_length] obtain a' where
    "chain_ok a'" "reader_core a' = chain_next (hash16 A) (reader_core a) i"
    "\<forall>dst rest. Chain_loop (hash16 A) dst (chain_record (hash16 A) (reader_core a) i @ rest) a = Chain_loop (hash16 A) (dst @ snd (snd i)) rest a'" by blast
  then show ?case using 1 by (intro exI [of _ a']) (simp add: Chain_Decode_def chain_ok_def)
next
  case (2 a i xs ys dst)
  from Chain_loop_partial [OF 2(1,2) hash16_length 2(3,4)] show ?case using 2(1) by (simp add: Chain_Decode_def chain_ok_def)
next
  case (3 a dst)
  then show ?case by (simp add: Chain_Decode_def Chain_loop.simps chain_ok_def)
qed

subsection \<open>What is written\<close>

lemma writer_plan:
  assumes "length (ca_lastClientHash a) = 16" and "chain_rand_length a len (ca_lastClientHash a) x = (n, hash, y)"
  shows "chain_plan (writer_core a) len = (n, if 0 < len \<and> 0 < n then fst (getRandStartPos n y) else 0)"
proof -
  have "2 \<le> length (ca_lastClientHash a)" using assms(1) by simp
  from rand_data_length_tail(3) [OF assms(2) [unfolded chain_rand_length_def] this] obtain h z where
    "rand_data_length (ca_dataSizes a) (sb_Overhead (ca_Base a)) len ([0, 0] @ drop 2 (ca_lastClientHash a)) (0, 0) = (n, h, z)" "0 < n \<longrightarrow> z = y"
    by blast
  then show ?thesis by (auto simp: chain_plan_def writer_core_def)
qed

lemma getRandStartPos_le: "fst (getRandStartPos n x) \<le> n"
  by (simp add: getRandStartPos_def less_imp_le split: prod.split)

definition writer_ok :: "auth_chain \<Rightarrow> bool" where
  "writer_ok a \<longleftrightarrow> length (ca_lastClientHash a) = 16 \<and> sizes_ok (ca_dataSizes a) (sb_Overhead (ca_Base a))"

lemma Chain_packData_record:
  assumes "writer_ok a" and "data \<noteq> []" and "length data \<le> 2800" and "ca_packID a \<noteq> 1" and "\<forall>k d. length (sa_HmacMD5 A k d) = 16"
  shows "\<exists>i a' r'. Chain_packData A (a, r) w data = (w @ chain_record A (writer_core a) i, a', r') \<and> chain_fits (writer_core a) i \<and>
    snd (snd i) = data \<and> writer_core a' = chain_next A (writer_core a) i \<and> writer_ok a' \<and> ca_packID a' = ca_packID a + 1"
proof -
  let ?c = "writer_core a"
  obtain e enc where e: "rc4_XORKeyStream A (ca_encrypter a) data = (e, enc)" by (cases "rc4_XORKeyStream A (ca_encrypter a) data")
  have le: "length e = length data" using length_rc4 [of A "ca_encrypter a" data] by (simp only: e fst_conv)
  have ne: "e \<noteq> []" using le assms(2) by auto
  obtain n hash x where n: "chain_rand_length a (length data) (ca_lastClientHash a) (ca_randomClient a) = (n, hash, x)" by (metis prod.exhaust)
  let ?start = "if 0 < n then fst (getRandStartPos n x) else 0"
  have plan: "chain_plan ?c (length data) = (n, ?start)" using writer_plan [OF _ n] assms(1,2) by (simp add: writer_ok_def)
  have small: "n < 1440 \<and> (1440 < length data \<longrightarrow> n = 0)"
    using rand_data_length_less [OF _ n [unfolded chain_rand_length_def]] assms(1) by (simp add: writer_ok_def)
  have start: "?start \<le> n" by (simp add: getRandStartPos_le)
  have sum: "length data + n < 4096" using small assms(3) by (cases "1440 < length data") simp_all
  let ?b = "a\<lparr>ca_encrypter := enc, ca_packID := ca_packID a + 1\<rparr>"
  obtain pre post r' y where p: "length pre = ?start" "length (pre @ post) = n"
    "\<And>w. putMixedRandDataAndData (?b, r) w e = (w @ pre @ e @ post, ?b\<lparr>ca_lastClientHash := hash, ca_randomClient := y\<rparr>, r')"
  proof (cases "0 < n")
    case True
    obtain st y where y: "getRandStartPos n x = (st, y)" by (cases "getRandStartPos n x")
    obtain pre r1 where f: "rand_bytes st r = (pre, r1)" by (cases "rand_bytes st r")
    obtain post r2 where g: "rand_bytes (n - st) r1 = (post, r2)" by (cases "rand_bytes (n - st) r1")
    have l: "length pre = st" "length post = n - st" using length_rand_bytes [of st r] length_rand_bytes [of "n - st" r1] by (simp_all add: f g)
    have "\<And>w. putMixedRandDataAndData (?b, r) w e = (w @ pre @ e @ post, ?b\<lparr>ca_lastClientHash := hash, ca_randomClient := y\<rparr>, r2)"
      using n True assms(2) by (simp add: putMixedRandDataAndData_def chain_rand_length_def y f g Let_def le ne)
    then show thesis using that [of pre post y r2] l True start by (simp add: y)
  next
    case False
    then have "\<And>w. putMixedRandDataAndData (?b, r) w e = (w @ [] @ e @ [], ?b\<lparr>ca_lastClientHash := hash, ca_randomClient := x\<rparr>, r)"
      using n assms(2) by (simp add: putMixedRandDataAndData_def chain_rand_length_def Let_def le ne)
    then show thesis using that [of "[]" "[]" x r] False by simp
  qed
  let ?i = "((pre, post), [] :: u8 list, data)" and ?body = "chain_body A ?c (pre, post) data"
  have tail: "take 2 (drop 14 (ca_lastClientHash a)) = drop 12 (cc_tail ?c)" using assms(1) by (simp add: writer_core_def writer_ok_def)
  have body: "?body = le16 (of_nat (length e) XOR le_u16 (take 2 (drop 14 (ca_lastClientHash a)))) @ pre @ e @ post"
    using e by (simp add: chain_body_def tail le) (simp add: writer_core_def)
  have "Chain_packData A (a, r) w data = (w @ ?body @ take 2 (chain_hash A ?c ?body), ?b\<lparr>ca_lastClientHash := chain_hash A ?c ?body, ca_randomClient := y\<rparr>, r')"
    by (simp add: Chain_packData_def e p(3) Let_def body chain_hash_def) (simp add: writer_core_def)
  moreover have "chain_fits ?c ?i" using p(1,2) plan assms(2,4) sum by (simp add: chain_fits_def writer_core_def Let_def)
  ultimately show ?thesis using assms(1,5)
    by (intro exI [of _ ?i] exI [of _ "?b\<lparr>ca_lastClientHash := chain_hash A ?c ?body, ca_randomClient := y\<rparr>"] exI [of _ r'])
      (simp add: chain_record_def chain_next_def writer_core_def writer_ok_def chain_hash_def Let_def e)
qed

lemma chain_record_not_empty: "chain_record A c i \<noteq> []"
  by (cases i) (auto simp: chain_record_def chain_body_def Let_def be16_not_empty)

lemma Chain_cut_records:
  assumes "writer_ok a" and "2 \<le> unat (ca_packID a)" and "unat (ca_packID a) + length b < 2 ^ 32"
  shows "\<exists>is s'. cut_loop 2800 (Chain_packData (hash16 A)) (a, r) w b = (w @ chain.frames A (writer_core a) is, s') \<and>
    chain.fit A (writer_core a) is \<and> concat (map (\<lambda>i. snd (snd i)) is) = b \<and> (is = [] \<or> chain.frames A (writer_core a) is \<noteq> [])"
proof -
  let ?Inv = "\<lambda>n (a :: auth_chain, r :: rand_src). writer_ok a \<and> 2 \<le> unat (ca_packID a) \<and> unat (ca_packID a) + n < 2 ^ 32"
  have "\<exists>is s'. cut_loop 2800 (Chain_packData (hash16 A)) (a, r) w b = (w @ chain.frames A (writer_core (fst (a, r))) is, s') \<and>
    chain.fit A (writer_core (fst (a, r))) is \<and> concat (map (\<lambda>i. snd (snd i)) is) = b \<and> (is = [] \<or> chain.frames A (writer_core (fst (a, r))) is \<noteq> [])"
  proof (rule chain.cut_loop_records [where Inv = ?Inv and c = "\<lambda>s. writer_core (fst s)"])
    fix s :: "auth_chain \<times> rand_src" and w data :: "u8 list" and n
    assume d: "data \<noteq> []" "length data \<le> 2800" "?Inv (length data + n) s"
    obtain a r where s: "s = (a, r)" by (cases s)
    have k: "0 < length data" "writer_ok a" "2 \<le> unat (ca_packID a)" "unat (ca_packID a) + (length data + n) < 2 ^ 32" using d by (simp_all add: s)
    then have "ca_packID a \<noteq> 1" by auto
    from Chain_packData_record [OF k(2) d(1,2) this hash16_length, of A r w] obtain i a' r' where
      i: "Chain_packData (hash16 A) (a, r) w data = (w @ chain_record (hash16 A) (writer_core a) i, a', r')" "chain_fits (writer_core a) i" "snd (snd i) = data"
        "writer_core a' = chain_next (hash16 A) (writer_core a) i" "writer_ok a'" "ca_packID a' = ca_packID a + 1" by blast
    have "unat (ca_packID a) + 1 < 2 ^ 32" using k(1,4) by linarith
    then have "unat (ca_packID a') = unat (ca_packID a) + 1" unfolding i(6) by (subst unat_add_lem [THEN iffD1]) simp_all
    moreover have "unat (ca_packID a) + 1 + n < 2 ^ 32" using k(1,4) by linarith
    ultimately have "?Inv n (a', r')" using i(5) k(3) by simp
    then show "\<exists>i s'. Chain_packData (hash16 A) s w data = (w @ chain_record (hash16 A) (writer_core (fst s)) i, s') \<and> chain_fits (writer_core (fst s)) i \<and>
        snd (snd i) = data \<and> chain_record (hash16 A) (writer_core (fst s)) i \<noteq> [] \<and> writer_core (fst s') = chain_next (hash16 A) (writer_core (fst s)) i \<and> ?Inv n s'"
      using i by (intro exI [of _ i] exI [of _ "(a', r')"]) (simp add: s chain_record_not_empty)
  qed (use assms in simp_all)
  then show ?thesis by simp
qed

subsection \<open>The properties\<close>

text \<open> C6. What a connection of \<open>auth_chain_a\<close> or \<open>auth_chain_b\<close> writes after its first record is read in full and in order by
  a reader in the matching state, however the network and the reader cut it, as long as the numbers of records do not wrap.
\<close>

theorem auth_chain_roundtrip:
  assumes "\<forall>k d. length (sa_HmacMD5 A k d) = 16" and "ca_hasSentHeader a" and "writer_ok a" and "2 \<le> unat (ca_packID a)"
    and "unat (ca_packID a) + length b < 2 ^ 32" and "Chain_Encode A now a r b = (out, a', r')"
    and "chain_ok p" and "reader_core p = writer_core a" and "\<forall>(avail, k)\<in>set ks. 0 < k"
  shows "\<exists>n s'. reads (\<lambda>(avail, k). SsrConn_Read (Chain_Decode A) avail k) ks (ssr_dial (fed out) p) = (take n b, s') \<and>
    (length out + length b \<le> length ks \<longrightarrow> length b \<le> n)"
proof -
  note A = hash16_id [OF assms(1)]
  obtain "is" s1 where i: "cut_loop 2800 (Chain_packData (hash16 A)) (a, r) [] b = ([] @ chain.frames A (writer_core a) is, s1)"
    "chain.fit A (writer_core a) is" "concat (map (\<lambda>i. snd (snd i)) is) = b" "is = [] \<or> chain.frames A (writer_core a) is \<noteq> []"
    using Chain_cut_records [OF assms(3,4,5), of A r "[]"] by blast
  have out: "out = chain.frames A (reader_core p) is" using assms(2,6,8) i(1) by (simp add: Chain_Encode_def A)
  have "chain.unread A (ssr_dial (fed out) p) b"
    using chain.unread_start [OF assms(7), of A "is"] i(2-4) by (simp add: out assms(8))
  from chain.reads_all [OF this assms(9)] show ?thesis by (simp add: ssr_dial_def fed_def A)
qed

text \<open>A packet whose check is right but that is shorter than its random bytes makes the reader panic.\<close>

theorem chain_packet_panics:
  assumes "9 \<le> length b" and "take 1 (sa_HmacMD5 A (ud_userKey (ca_userData a)) (take (length b - 1) b)) = drop (length b - 1) b"
    and "length b < 8 + fst (udpGetRandLength (sa_HmacMD5 A (sb_Key (ca_Base a)) (take 7 (drop (length b - 8) b))) (ca_randomServer a))"
  shows "fst (Chain_DecodePacket A a b) = None"
  using assms by (auto simp: Chain_DecodePacket_def Let_def not_less split: prod.split)

text \<open>The first record has two bytes that are skipped; with less data in it the reader panics.\<close>

theorem chain_short_record_panics:
  assumes "\<not> ca_rawTrans a" and "length (ca_lastServerHash a) = 16" and "ca_recvID a = 1" and "ca_dataSizes a = None"
    and "\<forall>k d. length (sa_HmacMD5 A k d) = 16"
    and "src = le16 (1 XOR le_u16 (drop 14 (ca_lastServerHash a))) @ body"
    and "length body = Suc (fst (chain_rand_length a 1 (ca_lastServerHash a) (ca_randomServer a)))"
  shows "Chain_Decode A a dst (src @ take 2 (sa_HmacMD5 A (ud_userKey (ca_userData a) @ le32 1) src)) = None"
proof -
  let ?mac = "take 2 (sa_HmacMD5 A (ud_userKey (ca_userData a) @ le32 1) src)"
  obtain n hash x where n: "chain_rand_length a 1 (ca_lastServerHash a) (ca_randomServer a) = (n, hash, x)" by (metis prod.exhaust)
  have small: "n < 1440" using rand_data_length_less [of None 0 1 "ca_lastServerHash a" "ca_randomServer a" n hash x] n assms(4)
    by (simp add: chain_rand_length_def sizes_ok_def rand_data_length_def)
  have "length body = Suc n" using assms(7) by (simp only: n fst_conv)
  then have src: "length src = 3 + n" "length ?mac = 2" using assms(5,6) by simp_all
  have "le_u16 (src @ ?mac) XOR le_u16 (drop 14 (ca_lastServerHash a)) = 1" by (simp add: assms(6) le_u16_le16 xor.assoc)
  then have u: "unat (le_u16 (src @ ?mac) XOR le_u16 (drop 14 (ca_lastServerHash a))) = 1" by simp
  obtain st y where y: "(if 0 < (1 :: nat) \<and> 0 < n then getRandStartPos n x else (0, x)) = (st, y)"
    by (cases "if 0 < (1 :: nat) \<and> 0 < n then getRandStartPos n x else (0, x)")
  have st: "st \<le> n" using y getRandStartPos_le [of n x] by (auto split: if_splits)
  obtain plain dec where p: "rc4_XORKeyStream A (ca_decrypter a) (take 1 (drop (2 + st) (src @ ?mac))) = (plain, dec)"
    by (cases "rc4_XORKeyStream A (ca_decrypter a) (take 1 (drop (2 + st) (src @ ?mac)))")
  have "length plain = length (take 1 (drop (2 + st) (src @ ?mac)))"
    using length_rc4 [of A "ca_decrypter a" "take 1 (drop (2 + st) (src @ ?mac))"] by (simp only: p fst_conv)
  moreover have "length (take 1 ys) < 2" for ys :: "u8 list" by simp
  ultimately have "length plain < 2" by metis
  moreover have "\<not> length (src @ ?mac) \<le> 4" "\<not> length (src @ ?mac) < 4 + (1 + n)" "\<not> 4096 \<le> 1 + n" "take (1 + n + 2) (src @ ?mac) = src"
    "take 2 (drop (1 + n + 2) (src @ ?mac)) = ?mac" using src small by simp_all
  ultimately have "Chain_loop A dst (src @ ?mac) a = None" using assms(2)
    by (subst Chain_loop.simps) (simp only: u n y prod.case Let_def; simp add: assms(3) p [simplified])
  then show ?thesis using assms(1) by (simp add: Chain_Decode_def)
qed

text \<open>
  After the first write a connection is in the state that the property above asks for.
\<close>

lemma Chain_packData_ready:
  assumes "\<forall>k d. length (sa_HmacMD5 A k d) = 16" and "Chain_packData A (a, r) w data = (w', a', r')"
  shows "length (ca_lastClientHash a') = 16 \<and> ca_packID a' = ca_packID a + 1 \<and> ca_lastServerHash a' = ca_lastServerHash a \<and>
    ca_rawTrans a' = ca_rawTrans a \<and> ca_dataSizes a' = ca_dataSizes a \<and> ca_Base a' = ca_Base a \<and> ca_hasSentHeader a' = ca_hasSentHeader a"
  using assms by (auto simp: Chain_packData_def putMixedRandDataAndData_def Let_def split: prod.splits if_splits)

lemma cut_loop_invariant:
  assumes pk: "\<And>s w data n w' s'. data \<noteq> [] \<Longrightarrow> Inv (length data + n) s \<Longrightarrow> pk s w data = (w', s') \<Longrightarrow> Inv n s'" and "0 < limit"
  shows "Inv (length b) s \<Longrightarrow> cut_loop limit pk s w b = (w', s') \<Longrightarrow> Inv (0 :: nat) s'"
proof (induction b arbitrary: s w rule: length_induct)
  case (1 b)
  show ?case
  proof (cases "limit < length b")
    case True
    obtain w1 s1 where k: "pk s w (take limit b) = (w1, s1)" by (cases "pk s w (take limit b)")
    have "Inv (length (take limit b) + (length b - limit)) s" using 1(2) True by simp
    moreover have "take limit b \<noteq> []" using True assms(2) by auto
    ultimately have "Inv (length (drop limit b)) s1" using pk [OF _ _ k] by simp
    moreover have "cut_loop limit pk s1 w1 (drop limit b) = (w', s')" using 1(3) True assms(2) k by (subst (asm) cut_loop.simps) simp
    moreover have "length (drop limit b) < length b" using True assms(2) by simp
    ultimately show ?thesis using 1(1) by blast
  next
    case False
    then show ?thesis using 1(2,3) pk [of b 0 s w w' s'] by (subst (asm) cut_loop.simps) (auto split: if_splits)
  qed
qed

theorem chain_first_write:
  assumes "\<forall>k d. length (sa_HmacMD5 A k d) = 16" and "\<not> ca_hasSentHeader a" and "\<not> ca_rawTrans a" and "ca_packID a = 1"
    and "sizes_ok (ca_dataSizes a) (sb_Overhead (ca_Base a))" and "length b < 2 ^ 31" and "Chain_Encode A now a r b = (out, a', r')"
  shows "ca_hasSentHeader a' \<and> writer_ok a' \<and> chain_ok a' \<and> 2 \<le> unat (ca_packID a')"
proof -
  let ?Inv = "\<lambda>n (a, r :: rand_src). ca_hasSentHeader a \<and> writer_ok a \<and> chain_ok a \<and> 2 \<le> unat (ca_packID a) \<and> unat (ca_packID a) + n < 2 ^ 32"
  obtain dl r1 where dl: "getDataLength b r = (dl, r1)" by (cases "getDataLength b r")
  obtain w1 a1 r2 where h: "Chain_packAuthData A now (a, r1) [] (take dl b) = (w1, a1, r2)" by (metis prod.exhaust)
  from h obtain a0 r0 w0 where h0: "Chain_packData A (a0, r0) w0 (take dl b) = (w1, a1, r2)" "ca_packID a0 = 1" "ca_dataSizes a0 = ca_dataSizes a"
    "ca_Base a0 = ca_Base a" "length (ca_lastServerHash a0) = 16" "\<not> ca_rawTrans a0"
    using assms(1,3,4) by (auto simp: Chain_packAuthData_def initRC4Cipher_def Let_def split: prod.splits)
  note p = Chain_packData_ready [OF assms(1) h0(1)]
  have "unat (ca_packID a1) = 2" using p h0(2) by simp
  then have "?Inv (length (drop dl b)) (a1\<lparr>ca_hasSentHeader := True\<rparr>, r2)"
    using p h0 assms(5,6) by (simp add: writer_ok_def chain_ok_def)
  moreover have "cut_loop 2800 (Chain_packData A) (a1\<lparr>ca_hasSentHeader := True\<rparr>, r2) w1 (drop dl b) = (out, a', r')"
    using assms(2,7) by (simp add: Chain_Encode_def dl h Let_def)
  ultimately have "?Inv 0 (a', r')"
  proof (rule cut_loop_invariant [where Inv = ?Inv, rotated 2])
    fix s w data n w' s'
    assume d: "data \<noteq> []" "?Inv (length data + n) s" "Chain_packData A s w data = (w', s')"
    obtain c r where s: "s = (c, r)" by (cases s)
    obtain c' r' where s': "s' = (c', r')" by (cases s')
    note p = Chain_packData_ready [OF assms(1) d(3) [unfolded s s']]
    have k: "0 < length data" "2 \<le> unat (ca_packID c)" "unat (ca_packID c) + (length data + n) < 2 ^ 32" using d(1,2) by (simp_all add: s)
    then have "unat (ca_packID c) + 1 < 2 ^ 32" by linarith
    then have "unat (ca_packID c + 1) = unat (ca_packID c) + 1" by (subst unat_add_lem [THEN iffD1]) simp_all
    moreover have "unat (ca_packID c) + 1 + n < 2 ^ 32" using k(1,3) by linarith
    ultimately show "?Inv n s'" using d(2) p k(2) by (simp add: s s' writer_ok_def chain_ok_def)
  qed simp
  then show ?thesis by simp
qed

text \<open>The sizes that \<open>auth_chain_b\<close> draws are in order and below 1440.\<close>

theorem chain_b_sizes:
  assumes "initDataSize a = Some a'" and "0 \<le> sb_Overhead (ca_Base a)"
  shows "sizes_ok (ca_dataSizes a') (sb_Overhead (ca_Base a')) \<and>
    (\<forall>list1 list2. ca_dataSizes a' = Some (list1, list2) \<longrightarrow> sorted list1 \<and> sorted list2 \<and> length list1 \<in> {4..11} \<and> length list2 \<in> {8..23})"
proof -
  have l: "length vs = n" if "draw_sizes n x = (vs, x')" for n x vs x' using that
    by (induction n arbitrary: x vs x') (auto split: prod.splits)
  obtain x where x: "InitFromBin (sb_Key (ca_Base a)) = Some x" using assms(1) by (auto simp: initDataSize_def)
  obtain n x1 where n: "xs_mod 8 x = (n, x1)" by (cases "xs_mod 8 x")
  obtain vs x2 where v: "draw_sizes (n + 4) x1 = (vs, x2)" by (cases "draw_sizes (n + 4) x1")
  obtain m x3 where m: "xs_mod 16 x2 = (m, x3)" by (cases "xs_mod 16 x2")
  obtain ws x4 where w: "draw_sizes (m + 8) x3 = (ws, x4)" by (cases "draw_sizes (m + 8) x3")
  have a': "a' = a\<lparr>ca_randomServer := x4, ca_dataSizes := Some (sort vs, sort ws)\<rparr>"
    using assms(1) by (simp add: initDataSize_def x n v m w)
  have "n < 8" "m < 16" using xs_mod_less [of 8 x] xs_mod_less [of 16 x2] by (simp_all add: n m)
  then show ?thesis using assms(2) l [OF v] l [OF w] draw_sizes_less [OF v] draw_sizes_less [OF w] by (auto simp: a' sizes_ok_def)
qed

subsection \<open>Concrete inputs\<close>

definition w_chain :: auth_chain where
  "w_chain = (chain_conn (fst (newAuthChainA w_base (\<lambda>_. 0))) new_auth_data [])
     \<lparr>ca_hasSentHeader := True, ca_lastClientHash := replicate 16 1, ca_lastServerHash := replicate 16 1, ca_packID := 2, ca_recvID := 2\<rparr>"

lemma w_api_hash: "\<forall>k d. length (sa_HmacMD5 w_api k d) = 16"
  by (simp add: w_api_def)

lemma auth_chain_roundtrip_witness:
  "\<exists>n s'. reads (\<lambda>(avail, k). SsrConn_Read (Chain_Decode w_api) avail k) (replicate 2000 (2, 1))
    (ssr_dial (fed (fst (Chain_Encode w_api 0 w_chain (\<lambda>_. 0) [5, 6, 7]))) w_chain) = (take n [5, 6, 7], s')"
proof -
  have a: "ca_hasSentHeader w_chain" "writer_ok w_chain" "2 \<le> unat (ca_packID w_chain)" "unat (ca_packID w_chain) + length [5, 6, 7 :: u8] < 2 ^ 32"
    "chain_ok w_chain" "reader_core w_chain = writer_core w_chain"
    by (simp_all add: w_chain_def chain_conn_def writer_ok_def chain_ok_def reader_core_def writer_core_def sizes_ok_def
        newAuthChainA_def new_chain_def w_base_def split: prod.split)
  obtain out a' r' where e: "Chain_Encode w_api 0 w_chain (\<lambda>_. 0) [5, 6, 7] = (out, a', r')" by (cases "Chain_Encode w_api 0 w_chain (\<lambda>_. 0) [5, 6, 7]")
  from auth_chain_roundtrip [OF w_api_hash a(1-4) e a(5,6), of "replicate 2000 (2, 1)"] show ?thesis by (auto simp: e)
qed

lemma chain_first_write_witness:
  "case Chain_Encode w_api 0 (chain_conn (fst (newAuthChainA w_base (\<lambda>_. 0))) new_auth_data []) (\<lambda>_. 0) [5, 6, 7] of
    (out, a', r') \<Rightarrow> writer_ok a' \<and> chain_ok a'"
proof -
  let ?a = "chain_conn (fst (newAuthChainA w_base (\<lambda>_. 0))) new_auth_data []"
  have a: "\<not> ca_hasSentHeader ?a" "\<not> ca_rawTrans ?a" "ca_packID ?a = 1" "sizes_ok (ca_dataSizes ?a) (sb_Overhead (ca_Base ?a))" "length [5, 6, 7 :: u8] < 2 ^ 31"
    by (simp_all add: chain_conn_def sizes_ok_def newAuthChainA_def new_chain_def w_base_def split: prod.split)
  obtain out a' r' where e: "Chain_Encode w_api 0 ?a (\<lambda>_. 0) [5, 6, 7] = (out, a', r')" by (metis prod.exhaust)
  from chain_first_write [OF w_api_hash a e] show ?thesis unfolding e by simp
qed

definition w_api1 :: ssr_api where
  "w_api1 = w_api\<lparr>sa_HmacMD5 := \<lambda>k d. [0, 0, 0, 0, 0, 0, 0, 0, 1, 0, 0, 0, 0, 0, 0, 0]\<rparr>"

lemma chain_packet_panics_witness: "fst (Chain_DecodePacket w_api1 w_chain (replicate 9 0)) = None"
proof (rule chain_packet_panics)
  have "fst (udpGetRandLength [0, 0, 0, 0, 0, 0, 0, 0, 1, 0, 0, 0, 0, 0, 0, 0] x) = 2" for x
    by (simp add: udpGetRandLength_def InitFromBin_def xs_load_def le_u64_def xs_mod_def xs_Next_def)
  then show "length (replicate 9 (0 :: u8)) < 8 + fst (udpGetRandLength (sa_HmacMD5 w_api1 (sb_Key (ca_Base w_chain))
      (take 7 (drop (length (replicate 9 (0 :: u8)) - 8) (replicate 9 0)))) (ca_randomServer w_chain))"
    by (simp add: w_api1_def)
qed (simp_all add: w_api1_def)

lemma chain_b_sizes_witness:
  "\<exists>a'. initDataSize (w_chain\<lparr>ca_Base := w_base\<lparr>sb_Key := replicate 16 7\<rparr>\<rparr>) = Some a' \<and> sizes_ok (ca_dataSizes a') (sb_Overhead (ca_Base a'))"
proof -
  let ?a = "w_chain\<lparr>ca_Base := w_base\<lparr>sb_Key := replicate 16 7\<rparr>\<rparr>"
  have "initDataSize ?a \<noteq> None" by (simp add: initDataSize_def InitFromBin_def)
  then obtain a' where a': "initDataSize ?a = Some a'" by blast
  have "0 \<le> sb_Overhead (ca_Base ?a)" by (simp add: w_base_def)
  from chain_b_sizes [OF a' this] a' show ?thesis by blast
qed

lemma chain_short_record_panics_witness:
  "\<exists>src. Chain_Decode w_api (w_chain\<lparr>ca_recvID := 1\<rparr>) [] (src @ take 2 (sa_HmacMD5 w_api (ud_userKey (ca_userData w_chain) @ le32 1) src)) = None"
proof -
  let ?a = "w_chain\<lparr>ca_recvID := 1\<rparr>"
  let ?body = "replicate (Suc (fst (chain_rand_length ?a 1 (ca_lastServerHash ?a) (ca_randomServer ?a)))) 0"
  have a: "\<not> ca_rawTrans ?a" "length (ca_lastServerHash ?a) = 16" "ca_recvID ?a = 1" "ca_dataSizes ?a = None"
    by (simp_all add: w_chain_def chain_conn_def)
  have u: "ca_userData ?a = ca_userData w_chain" by simp
  have "length ?body = Suc (fst (chain_rand_length ?a 1 (ca_lastServerHash ?a) (ca_randomServer ?a)))" by (rule length_replicate)
  from chain_short_record_panics [OF a w_api_hash refl this, of "[]", unfolded u] show ?thesis by (rule exI)
qed

end
