(* ===== verification/SsrObfs.thy ===== *)
theory SsrObfs
  imports SsrAuth SimpleObfs
begin

text \<open>
  The disguises of ShadowsocksR (\<open>src/pkg/clash/transport/ssr/obfs/\<close>): \<open>random_head\<close>, \<open>http_simple\<close> with \<open>http_post\<close>,
  and \<open>tls1.2_ticket_auth\<close>. \<open>plain\<close> is the connection itself. HMAC and CRC are parameters (\<open>ssr_api\<close>), random numbers
  come from a source, and the time and the table of user agents are arguments.
\<close>

record obfs_base =
  ob_Host :: string
  ob_Port :: nat
  ob_Key :: "u8 list"
  ob_IVSize :: nat
  ob_Param :: string

subsection \<open>random_head (random\_head.go)\<close>

record random_head =
  rh_Conn :: io_conn
  rh_hasSentHeader :: bool
  rh_rawTransSent :: bool
  rh_rawTransRecv :: bool
  rh_buf :: "u8 list"

definition RandomHead_StreamConn :: "io_conn \<Rightarrow> random_head" where
  "RandomHead_StreamConn c = \<lparr>rh_Conn = c, rh_hasSentHeader = False, rh_rawTransSent = False, rh_rawTransRecv = False, rh_buf = []\<rparr>"

text \<open>A write returns its count with the error of the connection.\<close>

definition counted :: "nat \<Rightarrow> (io_error + unit) \<Rightarrow> write_result" where
  "counted n r = (n, case r of Inl e \<Rightarrow> Some e | Inr _ \<Rightarrow> None)"

definition plain_write :: "u8 list \<Rightarrow> (io_error + unit) \<Rightarrow> write_result" where
  "plain_write b r = (case r of Inl e \<Rightarrow> (0, Some e) | Inr _ \<Rightarrow> (length b, None))"

definition random_header :: "ssr_api \<Rightarrow> rand_src \<Rightarrow> u8 list \<times> rand_src" where
  "random_header A r =
     (case draw 96 r of (n, r) \<Rightarrow> (case rand_bytes (n + 4) r of (buf, r) \<Rightarrow> (buf @ le32 (0xffffffff - sa_crc32 A buf), r)))"

definition RandomHead_Write :: "ssr_api \<Rightarrow> u8 list \<Rightarrow> random_head \<times> rand_src \<Rightarrow> write_result \<times> random_head \<times> rand_src" where
  "RandomHead_Write A b = (\<lambda>(s, r).
     if rh_rawTransSent s then (case conn_Write b (rh_Conn s) of (res, c) \<Rightarrow> (plain_write b res, s\<lparr>rh_Conn := c\<rparr>, r))
     else
       let s = s\<lparr>rh_buf := rh_buf s @ b\<rparr> in
       if \<not> rh_hasSentHeader s then
         (case random_header A r of (h, r) \<Rightarrow>
            (case conn_Write h (rh_Conn s) of (res, c) \<Rightarrow> (counted (length b) res, s\<lparr>rh_Conn := c, rh_hasSentHeader := True\<rparr>, r)))
       else if rh_rawTransRecv s then
         (case conn_Write (rh_buf s) (rh_Conn s) of (res, c) \<Rightarrow>
            (counted (length b) res, s\<lparr>rh_Conn := c, rh_buf := [], rh_rawTransSent := True\<rparr>, r))
       else ((length b, None), s, r))"

text \<open>The first read drops what it gets, and the error.\<close>

definition RandomHead_Read ::
  "ssr_api \<Rightarrow> nat \<Rightarrow> nat \<Rightarrow> random_head \<times> rand_src \<Rightarrow> (io_error + u8 list) \<times> random_head \<times> rand_src" where
  "RandomHead_Read A avail k = (\<lambda>(s, r).
     if rh_rawTransRecv s then (case conn_Read avail k (rh_Conn s) of (res, c) \<Rightarrow> (res, s\<lparr>rh_Conn := c\<rparr>, r))
     else
       (case conn_Read avail relayBuffer (rh_Conn s) of (_, c) \<Rightarrow>
          (case RandomHead_Write A [] (s\<lparr>rh_Conn := c, rh_rawTransRecv := True\<rparr>, r) of (_, s, r) \<Rightarrow> (Inr [], s, r))))"

subsection \<open>http\_simple and http\_post (http\_simple.go, http\_post.go)\<close>

record http_conn =
  hc_Conn :: io_conn
  hc_Base :: obfs_base
  hc_post :: bool
  hc_hasSentHeader :: bool
  hc_hasRecvHeader :: bool
  hc_buf :: "u8 list option"

definition HttpConn_StreamConn :: "obfs_base \<Rightarrow> bool \<Rightarrow> io_conn \<Rightarrow> http_conn" where
  "HttpConn_StreamConn b post c =
     \<lparr>hc_Conn = c, hc_Base = b, hc_post = post, hc_hasSentHeader = False, hc_hasRecvHeader = False, hc_buf = None\<rparr>"

definition HttpConn_Read :: "nat \<Rightarrow> nat \<Rightarrow> (http_conn, io_error, u8 list) comp" where
  "HttpConn_Read avail k s =
     (case hc_buf s of
        Some buf \<Rightarrow> (Inr (take k buf), s\<lparr>hc_buf := (if length buf \<le> k then None else Some (drop k buf))\<rparr>)
      | None \<Rightarrow>
          if hc_hasRecvHeader s then (case conn_Read avail k (hc_Conn s) of (res, c) \<Rightarrow> (res, s\<lparr>hc_Conn := c\<rparr>))
          else
            (case conn_Read avail relayBuffer (hc_Conn s) of
               (Inl e, c) \<Rightarrow> (Inl e, s\<lparr>hc_Conn := c\<rparr>)
             | (Inr buf, c) \<Rightarrow>
                 (case bytes_Index buf header_end of
                    None \<Rightarrow> (Inl EOF, s\<lparr>hc_Conn := c\<rparr>)
                  | Some pos \<Rightarrow>
                      let data = drop (4 + pos) buf in
                      (Inr (take k data), s\<lparr>hc_Conn := c, hc_hasRecvHeader := True,
                         hc_buf := (if k < length data then Some (drop k data) else None)\<rparr>))))"

definition cryptoRandIntn :: "nat \<Rightarrow> rand_src \<Rightarrow> nat \<times> rand_src" where
  "cryptoRandIntn n r = (if n = 0 then (0, r) else draw n r)"

definition hex_pair :: "u8 \<Rightarrow> string" where
  "hex_pair b = (let d = (\<lambda>n. ''0123456789abcdef'' ! n) in [d (unat b div 16), d (unat b mod 16)])"

definition packURLEncodedHeadData :: "u8 list \<Rightarrow> string" where
  "packURLEncodedHeadData data = concat (map (\<lambda>b. CHR ''%'' # hex_pair b) data)"

definition CRLF :: string where "CRLF = [CHR 0x0D, CHR 0x0A]"

text \<open>The two calls of \<open>strings.ReplaceAll\<close>: a line feed, then a backslash with an \<open>n\<close>.\<close>

definition replace_newline :: "string \<Rightarrow> string" where
  "replace_newline s = concat (map (\<lambda>c. if c = CHR 0x0A then CRLF else [c]) s)"

fun replace_escape :: "string \<Rightarrow> string" where
  "replace_escape (c # d # s) =
     (if c = CHR 0x5C \<and> d = CHR ''n'' then CRLF @ replace_escape s else c # replace_escape (d # s))"
| "replace_escape s = s"

text \<open>Host and body of the parameter, and one of the hosts.\<close>

definition request_parts :: "obfs_base \<Rightarrow> rand_src \<Rightarrow> string \<times> string \<times> rand_src" where
  "request_parts b r =
     (let param = ob_Param b; pos = length (takeWhile (\<lambda>c. c \<noteq> CHR ''#'') param);
          (host, body) =
            (if param = [] then (ob_Host b, [])
             else if pos < length param then (take pos param, replace_escape (replace_newline (drop (Suc pos) param)))
             else (param, []));
          hosts = split_on (CHR '','') host in
      (case cryptoRandIntn (length hosts) r of (i, r) \<Rightarrow> (hosts ! i, body, r)))"

definition boundary_set :: string where
  "boundary_set = ''ABCDEFGHIJKLMNOPQRSTUVWXYZabcdefghijklmnopqrstuvwxyz0123456789''"

definition packBoundary :: "rand_src \<Rightarrow> string \<times> rand_src" where
  "packBoundary r =
     (''Content-Type: multipart/form-data; boundary='' @ map (\<lambda>i. boundary_set ! (r i mod 62)) [0..<32] @ CRLF, \<lambda>i. r (i + 32))"

definition accept_lines :: string where
  "accept_lines = CRLF @ ''Accept: text/html,application/xhtml+xml,application/xml;q=0.9,*/*;q=0.8'' @ CRLF @
     ''Accept-Language: en-US,en;q=0.8'' @ CRLF @ ''Accept-Encoding: gzip, deflate'' @ CRLF"

text \<open>The request: how many bytes of the data are in its path, its text and the rest of the random numbers.\<close>

definition http_head_length :: "obfs_base \<Rightarrow> nat \<Rightarrow> rand_src \<Rightarrow> nat \<times> rand_src" where
  "http_head_length b n r =
     (let headLength = ob_IVSize b + 30 in
      if headLength + 64 < n then (case cryptoRandIntn 65 r of (i, r) \<Rightarrow> (headLength + i, r)) else (n, r))"

definition http_request :: "string list \<Rightarrow> obfs_base \<Rightarrow> bool \<Rightarrow> u8 list \<Rightarrow> rand_src \<Rightarrow> string \<times> rand_src" where
  "http_request agents b post headData r =
     (case request_parts b r of (host, body, r) \<Rightarrow>
        let start = (if post then ''POST /'' else ''GET /'') @ packURLEncodedHeadData headData @ '' HTTP/1.1'' @ CRLF @ ''Host: '' @ host @
              (if ob_Port b \<noteq> 80 then CHR '':'' # nat_dec (ob_Port b) else []) @ CRLF in
        if body \<noteq> [] then (start @ body @ CRLF @ CRLF, r)
        else
          (case cryptoRandIntn (length agents) r of (i, r) \<Rightarrow>
             (case (if post then packBoundary r else ([], r)) of (boundary, r) \<Rightarrow>
                (start @ ''User-Agent: '' @ agents ! i @ accept_lines @ boundary @
                   ''DNT: 1'' @ CRLF @ ''Connection: keep-alive'' @ CRLF @ CRLF, r))))"

text \<open>An error of the first write is not returned.\<close>

definition HttpConn_Write :: "string list \<Rightarrow> u8 list \<Rightarrow> http_conn \<times> rand_src \<Rightarrow> write_result \<times> http_conn \<times> rand_src" where
  "HttpConn_Write agents b = (\<lambda>(s, r).
     if hc_hasSentHeader s then (case conn_Write b (hc_Conn s) of (res, c) \<Rightarrow> (plain_write b res, s\<lparr>hc_Conn := c\<rparr>, r))
     else
       (case http_head_length (hc_Base s) (length b) r of (n, r) \<Rightarrow>
          (case http_request agents (hc_Base s) (hc_post s) (take n b) r of (text, r) \<Rightarrow>
             (case conn_Write (bytes_of text @ drop n b) (hc_Conn s) of
                (Inl e, c) \<Rightarrow> ((0, None), s\<lparr>hc_Conn := c\<rparr>, r)
              | (Inr _, c) \<Rightarrow> ((length b, None), s\<lparr>hc_Conn := c, hc_hasSentHeader := True\<rparr>, r)))))"

subsection \<open>tls1.2\_ticket\_auth (tls1.2\_ticket\_auth.go)\<close>

datatype ticket_error = IncorrectMagicNumber | TooShortData | TicketHMACError

record tls_ticket =
  tt_Conn :: io_conn
  tt_Base :: obfs_base
  tt_clientID :: "u8 list"
  tt_handshakeStatus :: nat
  tt_decoded :: "u8 list"
  tt_underDecoded :: "u8 list"
  tt_sendBuf :: "u8 list"

definition TLS12_StreamConn :: "obfs_base \<Rightarrow> u8 list \<Rightarrow> io_conn \<Rightarrow> tls_ticket" where
  "TLS12_StreamConn b clientID c = \<lparr>tt_Conn = c, tt_Base = b, tt_clientID = clientID, tt_handshakeStatus = 0, tt_decoded = [],
     tt_underDecoded = [], tt_sendBuf = []\<rparr>"

definition ticket_packData :: "u8 list \<Rightarrow> u8 list" where
  "ticket_packData data = [0x17, 3, 3] @ be16 (of_nat (length data)) @ data"

definition ticket_hmac :: "ssr_api \<Rightarrow> tls_ticket \<Rightarrow> u8 list \<Rightarrow> u8 list" where
  "ticket_hmac A t data = take 10 (sa_HmacSHA1 A (ob_Key (tt_Base t) @ tt_clientID t) data)"

definition ticket_packAuthData :: "ssr_api \<Rightarrow> u32 \<Rightarrow> tls_ticket \<Rightarrow> rand_src \<Rightarrow> u8 list \<Rightarrow> u8 list \<times> rand_src" where
  "ticket_packAuthData A now t r w =
     (let w = w @ bytes_of_u32 now in
      (case rand_bytes 18 r of (x, r) \<Rightarrow>
         let w = w @ x in (w @ take 10 (ticket_hmac A t (drop (length w - 22) w)), r)))"

definition packSNIData :: "string \<Rightarrow> u8 list" where
  "packSNIData u =
     (let len = of_nat (length u) in [0, 0] @ be16 (len + 5) @ be16 (len + 3) @ [0] @ be16 len @ bytes_of u)"

definition packTicketBuf :: "rand_src \<Rightarrow> u8 list \<times> rand_src" where
  "packTicketBuf r =
     (case cryptoRandIntn 17 r of (i, r) \<Rightarrow>
        let len = 16 * (i + 8) in (case rand_bytes len r of (x, r) \<Rightarrow> ([0, 0x23] @ be16 (of_nat len) @ x, r)))"

definition ticket_getHost :: "tls_ticket \<Rightarrow> rand_src \<Rightarrow> string \<times> rand_src" where
  "ticket_getHost t r =
     (let b = tt_Base t; host = (if ob_Param b = [] then ob_Host b else ob_Param b);
          host = (if host \<noteq> [] \<and> is_digit (List.last host) then [] else host);
          hosts = split_on (CHR '','') host in
      (case cryptoRandIntn (length hosts) r of (i, r) \<Rightarrow> (hosts ! i, r)))"

definition ticket_suites :: "u8 list" where
  "ticket_suites = [0x00, 0x1c, 0xc0, 0x2b, 0xc0, 0x2f, 0xcc, 0xa9, 0xcc, 0xa8, 0xcc, 0x14, 0xcc, 0x13, 0xc0, 0x0a, 0xc0, 0x14, 0xc0,
     0x09, 0xc0, 0x13, 0x00, 0x9c, 0x00, 0x35, 0x00, 0x2f, 0x00, 0x0a]"

definition ticket_ext :: "u8 list" where
  "ticket_ext = [0x00, 0x0d, 0x00, 0x16, 0x00, 0x14, 0x06, 0x01, 0x06, 0x03, 0x05, 0x01, 0x05, 0x03, 0x04, 0x01, 0x04, 0x03, 0x03, 0x01,
     0x03, 0x03, 0x02, 0x01, 0x02, 0x03] @ [0x00, 0x05, 0x00, 0x05, 0x01, 0x00, 0x00, 0x00, 0x00] @ [0x00, 0x12, 0x00, 0x00] @
     [0x75, 0x50, 0x00, 0x00] @ [0x00, 0x0b, 0x00, 0x02, 0x01, 0x00] @ [0x00, 0x0a, 0x00, 0x06, 0x00, 0x04, 0x00, 0x17, 0x00, 0x18]"

definition ticket_hello :: "ssr_api \<Rightarrow> u32 \<Rightarrow> tls_ticket \<Rightarrow> rand_src \<Rightarrow> u8 list \<times> rand_src" where
  "ticket_hello A now t r =
     (case ticket_packAuthData A now t r [3, 3] of (data, r) \<Rightarrow>
        let data = data @ [0x20] @ tt_clientID t @ ticket_suites @ [1, 0] in
        (case ticket_getHost t r of (host, r) \<Rightarrow>
           (case packTicketBuf r of (ticket, r) \<Rightarrow>
              let ext = [0xff, 0x01, 0x00, 0x01, 0x00] @ packSNIData host @ [0, 0x17, 0, 0] @ ticket @ ticket_ext;
                  data = data @ be16 (of_nat (length ext)) @ ext in
              ([0x16, 3, 1] @ be16 (of_nat (length data + 4)) @ [1, 0] @ be16 (of_nat (length data)) @ data, r))))"

function ticket_pack_loop :: "rand_src \<Rightarrow> u8 list \<Rightarrow> u8 list \<Rightarrow> u8 list \<times> rand_src" where
  "ticket_pack_loop r w b =
     (if 2048 < length b then
        (case draw 4096 r of (n, r) \<Rightarrow>
           let size = min (length b) (n + 100) in ticket_pack_loop r (w @ ticket_packData (take size b)) (drop size b))
      else if b \<noteq> [] then (w @ ticket_packData b, r) else (w, r))"
  by pat_completeness auto
termination by (relation "measure (\<lambda>(r, w, b). length b)") auto

declare ticket_pack_loop.simps [simp del]

definition ticket_finish :: "ssr_api \<Rightarrow> tls_ticket \<Rightarrow> rand_src \<Rightarrow> u8 list \<times> rand_src" where
  "ticket_finish A t r =
     (let buf = [0x14, 3, 3, 0, 1, 1, 0x16, 3, 3, 0, 0x20] in
      (case rand_bytes 22 r of (x, r) \<Rightarrow> let buf = buf @ x in (buf @ take 10 (ticket_hmac A t buf), r)))"

definition TLS12_Write :: "ssr_api \<Rightarrow> u32 \<Rightarrow> u8 list \<Rightarrow> tls_ticket \<times> rand_src \<Rightarrow> write_result \<times> tls_ticket \<times> rand_src" where
  "TLS12_Write A now b = (\<lambda>(t, r).
     if tt_handshakeStatus t = 8 then
       (case ticket_pack_loop r [] b of (buf, r) \<Rightarrow>
          (case conn_Write buf (tt_Conn t) of (res, c) \<Rightarrow> (plain_write b res, t\<lparr>tt_Conn := c\<rparr>, r)))
     else
       let t = (if b \<noteq> [] then t\<lparr>tt_sendBuf := tt_sendBuf t @ ticket_packData b\<rparr> else t) in
       if tt_handshakeStatus t = 0 then
         (case ticket_hello A now t r of (hello, r) \<Rightarrow>
            (case conn_Write hello (tt_Conn t) of (res, c) \<Rightarrow>
               (plain_write b res, t\<lparr>tt_Conn := c, tt_handshakeStatus := 1\<rparr>, r)))
       else if tt_handshakeStatus t = 1 \<and> b = [] then
         (case ticket_finish A t r of (buf, r) \<Rightarrow>
            (case conn_Write (buf @ tt_sendBuf t) (tt_Conn t) of (res, c) \<Rightarrow>
               (counted 0 res, t\<lparr>tt_Conn := c, tt_handshakeStatus := 8, tt_sendBuf := []\<rparr>, r)))
       else ((length b, None), t, r))"

text \<open>The loop takes records apart; a wrong one empties the source.\<close>

function ticket_loop :: "u8 list \<Rightarrow> u8 list \<Rightarrow> ticket_error option \<times> u8 list \<times> u8 list" where
  "ticket_loop dst src =
     (if length src \<le> 5 then (None, dst, src)
      else if take 3 src \<noteq> [0x17, 3, 3] then (Some IncorrectMagicNumber, dst, [])
      else let size = of_be16 (src ! 3) (src ! 4) in
        if length src < 5 + size then (None, dst, src)
        else ticket_loop (dst @ take size (drop 5 src)) (drop (5 + size) src))"
  by pat_completeness auto
termination by (relation "measure (\<lambda>(dst, src). length src)") auto

declare ticket_loop.simps [simp del]

definition ticket_Decode :: "(unit, ticket_error) decode" where
  "ticket_Decode u dst src = (case ticket_loop dst src of (e, dst, src) \<Rightarrow> Some (e, dst, src, u))"

definition TLS12_Read ::
  "ssr_api \<Rightarrow> u32 \<Rightarrow> nat \<Rightarrow> nat \<Rightarrow> tls_ticket \<times> rand_src \<Rightarrow> (ticket_error ssr_error + u8 list) \<times> tls_ticket \<times> rand_src" where
  "TLS12_Read A now avail k = (\<lambda>(t, r).
     if tt_decoded t \<noteq> [] then (Inr (take k (tt_decoded t)), t\<lparr>tt_decoded := drop k (tt_decoded t)\<rparr>, r)
     else
       (case conn_Read avail relayBuffer (tt_Conn t) of
          (Inl e, c) \<Rightarrow> (Inl (SsrIO e), t\<lparr>tt_Conn := c\<rparr>, r)
        | (Inr buf, c) \<Rightarrow>
            let t = t\<lparr>tt_Conn := c\<rparr>; n = length buf in
            if tt_handshakeStatus t = 8 then
              (case ticket_loop (tt_decoded t) (tt_underDecoded t @ buf) of
                 (Some e, dst, src) \<Rightarrow> (Inl (SsrDecode e), t\<lparr>tt_decoded := dst, tt_underDecoded := src\<rparr>, r)
               | (None, dst, src) \<Rightarrow> (Inr (take k dst), t\<lparr>tt_decoded := drop k dst, tt_underDecoded := src\<rparr>, r))
            else if n < 11 + 32 + 1 + 32 then (Inl (SsrDecode TooShortData), t, r)
            else if take 10 (drop 33 buf) \<noteq> take 10 (ticket_hmac A t (take 22 (drop 11 buf))) \<or>
              drop (n - 10) buf \<noteq> take 10 (ticket_hmac A t (take (n - 10) buf)) then (Inl (SsrDecode TicketHMACError), t, r)
            else (case TLS12_Write A now [] (t, r) of (_, t, r) \<Rightarrow> (Inr [], t, r))))"

end
