(* ===== verification/SsrObfsProps.thy ===== *)
theory SsrObfsProps
  imports SsrObfs SsrAuthProps
begin

text \<open>
  What the disguises of ShadowsocksR promise: the records of \<open>tls1.2_ticket_auth\<close> are read in full, what is written
  during its handshake follows the handshake, \<open>random_head\<close> keeps what is written until the server has answered, and the
  path of a request of \<open>http_simple\<close> carries the first bytes. Four theorems show where bytes or errors are lost.
\<close>

subsection \<open>Records of tls1.2\_ticket\_auth\<close>

definition ticket_fits :: "u8 list \<Rightarrow> bool" where
  "ticket_fits data \<longleftrightarrow> data \<noteq> [] \<and> length data < 65536"

lemma ticket_loop_record:
  assumes "ticket_fits data"
  shows "ticket_loop dst (ticket_packData data @ rest) = ticket_loop (dst @ data) rest"
proof -
  obtain x y where l: "be16 (of_nat (length data)) = [x, y]"
    using length_be16 [of "of_nat (length data)"] by (auto simp: length_Suc_conv numeral_2_eq_2 simp del: length_be16)
  have "of_be16 x y = length data" using of_be16_of_nat [of "length data"] assms by (simp add: l ticket_fits_def)
  moreover have "drop (5 + n) ([0x17, 3, 3, x, y] @ d) = drop n d" for n and d :: "u8 list" by (simp add: numeral_eq_Suc)
  moreover have "0 < length data" using assms by (simp add: ticket_fits_def)
  ultimately show ?thesis by (subst ticket_loop.simps) (simp add: ticket_packData_def l)
qed

lemma ticket_loop_partial:
  assumes "ticket_fits data" and "ticket_packData data = xs @ ys" and "ys \<noteq> []"
  shows "ticket_loop dst xs = (None, dst, xs)"
proof (cases "length xs \<le> 5")
  case False
  obtain x y where l: "be16 (of_nat (length data)) = [x, y]"
    using length_be16 [of "of_nat (length data)"] by (auto simp: length_Suc_conv numeral_2_eq_2 simp del: length_be16)
  have n: "of_be16 x y = length data" using of_be16_of_nat [of "length data"] assms(1) by (simp add: l ticket_fits_def)
  have p: "ticket_packData data = [0x17, 3, 3, x, y] @ data" by (simp add: ticket_packData_def l)
  have e: "[0x17, 3, 3, x, y] @ data = xs @ ys" using assms(2) by (simp only: p)
  from False have "take 5 xs = take 5 ([0x17, 3, 3, x, y] @ data)" unfolding e by simp
  then have "xs = [0x17, 3, 3, x, y] @ drop 5 xs" using append_take_drop_id [of 5 xs] by simp
  then obtain zs where z: "xs = [0x17, 3, 3, x, y] @ zs" by blast
  moreover have "data = zs @ ys" using e by (simp add: z)
  ultimately have z: "xs = [0x17, 3, 3, x, y] @ zs" "length zs < length data" using assms(3) by simp_all
  show ?thesis using False by (subst ticket_loop.simps) (simp add: z n)
qed (simp add: ticket_loop.simps)

interpretation ticket: stream_protocol "\<lambda>_. True" "\<lambda>_. ()" "\<lambda>_. ticket_fits" "\<lambda>_. ticket_packData" "\<lambda>_ _. ()" "\<lambda>data. data" ticket_Decode
proof (unfold_locales, goal_cases)
  case (1 p i)
  then show ?case by (intro exI [of _ p]) (simp add: ticket_Decode_def ticket_loop_record)
next
  case (2 p i xs ys dst)
  then show ?case by (intro exI [of _ p]) (simp add: ticket_Decode_def ticket_loop_partial)
next
  case (3 p dst)
  then show ?case by (simp add: ticket_Decode_def ticket_loop.simps)
qed

text \<open>What is written after the handshake is cut into such records.\<close>

lemma ticket_pack_loop_frames:
  "\<exists>is r'. ticket_pack_loop r w b = (w @ ticket.frames () is, r') \<and> ticket.fit () is \<and> concat is = b \<and> (is = [] \<or> ticket.frames () is \<noteq> [])"
proof (induction b arbitrary: r w rule: length_induct)
  case (1 b)
  show ?case
  proof (cases "2048 < length b")
    case True
    obtain n r1 where n: "draw 4096 r = (n, r1)" by (cases "draw 4096 r")
    let ?size = "min (length b) (n + 100)"
    have "n < 4096" using n by (auto simp: draw_def)
    then have fit: "ticket_fits (take ?size b)" using True by (auto simp: ticket_fits_def)
    have "length (drop ?size b) < length b" using True by simp
    with 1 obtain "is" r' where i:
      "ticket_pack_loop r1 (w @ ticket_packData (take ?size b)) (drop ?size b) = ((w @ ticket_packData (take ?size b)) @ ticket.frames () is, r')"
      "ticket.fit () is" "concat is = drop ?size b" by meson
    then show ?thesis using True fit n
      by (intro exI [of _ "take ?size b # is"] exI [of _ r']) (subst ticket_pack_loop.simps; simp add: Let_def ticket_packData_def)
  next
    case short: False
    show ?thesis
    proof (cases "b = []")
      case True
      then show ?thesis by (intro exI [of _ "[]"] exI [of _ r]) (simp add: ticket_pack_loop.simps)
    next
      case False
      then have fit: "ticket_fits b" "ticket_packData b \<noteq> []" using short by (simp_all add: ticket_fits_def ticket_packData_def)
      then show ?thesis using short False by (intro exI [of _ "[b]"] exI [of _ r]) (simp add: ticket_pack_loop.simps fit)
    qed
  qed
qed

text \<open>A connection after its handshake reads as one that takes records apart.\<close>

definition ticket_view :: "tls_ticket \<Rightarrow> unit ssr_conn" where
  "ticket_view t = \<lparr>ssc_Conn = tt_Conn t, ssc_Protocol = (), ssc_decoded = tt_decoded t, ssc_underDecoded = tt_underDecoded t\<rparr>"

lemma TLS12_Read_view:
  assumes "tt_handshakeStatus t = 8" and "TLS12_Read A now avail k (t, r) = (res, t', r')"
  shows "SsrConn_Read ticket_Decode avail k (ticket_view t) = (res, ticket_view t') \<and> tt_handshakeStatus t' = 8"
  using assms
  by (auto simp: TLS12_Read_def SsrConn_Read_def ticket_view_def ticket_Decode_def ssr_buffer_def relayBuffer_def Let_def
      split: if_splits sum.splits prod.splits option.splits)

lemma TLS12_reads_view:
  assumes "tt_handshakeStatus t = 8"
  shows "fst (reads (\<lambda>(avail, k). TLS12_Read A now avail k) ks (t, r)) =
    fst (reads (\<lambda>(avail, k). SsrConn_Read ticket_Decode avail k) ks (ticket_view t))"
  using assms
proof (induction ks arbitrary: t r)
  case (Cons p ks)
  obtain avail k where p: "p = (avail, k)" by (cases p)
  obtain res t' r' where s: "TLS12_Read A now avail k (t, r) = (res, t', r')" by (metis prod.exhaust)
  from TLS12_Read_view [OF Cons.prems s] have v: "SsrConn_Read ticket_Decode avail k (ticket_view t) = (res, ticket_view t')"
    "tt_handshakeStatus t' = 8" by auto
  from Cons.IH [OF v(2), of r'] show ?case by (auto simp: p s v(1) split: sum.split prod.split)
qed simp

subsection \<open>The properties\<close>

text \<open>
  After the handshake, whatever a connection with \<open>tls1.2_ticket_auth\<close> writes is read in full and in order at the other
  end, however the network and the reader cut it.
\<close>

theorem tls12_roundtrip:
  assumes "tt_handshakeStatus t = 8" and "c_writes (tt_Conn t) = None" and "c_out (tt_Conn t) = []"
    and "TLS12_Write A now b (t, r) = (res, t', r')"
    and "tt_handshakeStatus p = 8" and "tt_decoded p = []" and "tt_underDecoded p = []" and "tt_Conn p = fed (c_out (tt_Conn t'))"
    and "\<forall>(avail, k)\<in>set ks. 0 < k"
  shows "res = (length b, None) \<and>
    (\<exists>n. fst (reads (\<lambda>(avail, k). TLS12_Read A now avail k) ks (p, r)) = take n b \<and>
      (length (c_out (tt_Conn t')) + length b \<le> length ks \<longrightarrow> length b \<le> n))"
proof -
  obtain "is" r1 where i: "ticket_pack_loop r [] b = ([] @ ticket.frames () is, r1)" "ticket.fit () is" "concat is = b"
    "is = [] \<or> ticket.frames () is \<noteq> []" using ticket_pack_loop_frames [of r "[]" b] by blast
  have out: "res = (length b, None)" "c_out (tt_Conn t') = ticket.frames () is" using assms(1-4) i(1)
    by (auto simp: TLS12_Write_def conn_Write_def plain_write_def)
  have "ticket.unread (ssr_dial (fed (c_out (tt_Conn t'))) ()) b"
    using ticket.unread_start [of "is" "()"] i(2-4) by (simp add: out)
  from ticket.reads_all [OF this assms(9)] obtain n s' where
    "reads (\<lambda>(avail, k). SsrConn_Read ticket_Decode avail k) ks (ssr_dial (fed (c_out (tt_Conn t'))) ()) = (take n b, s')"
    "length (c_out (tt_Conn t')) + length b \<le> length ks \<longrightarrow> length b \<le> n" by (auto simp: ssr_dial_def fed_def)
  moreover have "ticket_view p = ssr_dial (fed (c_out (tt_Conn t'))) ()" by (simp add: ticket_view_def ssr_dial_def assms(6-8))
  ultimately show ?thesis using TLS12_reads_view [OF assms(5), of A now ks r] out(1) by auto
qed

text \<open>What is written before the server has answered is sent, in records, behind the last part of the handshake.\<close>

lemma TLS12_Write_waiting:
  assumes "tt_handshakeStatus t = 1" and "b \<noteq> []"
  shows "TLS12_Write A now b (t, r) = ((length b, None), t\<lparr>tt_sendBuf := tt_sendBuf t @ ticket_packData b\<rparr>, r)"
  using assms by (simp add: TLS12_Write_def Let_def)

definition proper_answer :: "ssr_api \<Rightarrow> tls_ticket \<Rightarrow> u8 list \<Rightarrow> bool" where
  "proper_answer A t buf \<longleftrightarrow> 76 \<le> length buf \<and> take 10 (drop 33 buf) = take 10 (ticket_hmac A t (take 22 (drop 11 buf))) \<and>
     drop (length buf - 10) buf = take 10 (ticket_hmac A t (take (length buf - 10) buf))"

lemma TLS12_Read_answer:
  assumes "tt_decoded t = []" and "tt_handshakeStatus t = 1" and "conn_Read avail relayBuffer (tt_Conn t) = (Inr buf, c)"
    and "proper_answer A t buf" and "c_writes c = None" and "ticket_finish A (t\<lparr>tt_Conn := c\<rparr>) r = (finish, r')"
  shows "TLS12_Read A now avail k (t, r) =
    (Inr [], t\<lparr>tt_Conn := c\<lparr>c_out := c_out c @ finish @ tt_sendBuf t\<rparr>, tt_handshakeStatus := 8, tt_sendBuf := []\<rparr>, r')"
proof -
  have hm: "ticket_hmac A (t\<lparr>tt_Conn := c\<rparr>) x = ticket_hmac A t x" for x by (simp add: ticket_hmac_def)
  have "TLS12_Write A now [] (t\<lparr>tt_Conn := c\<rparr>, r) = ((0, None),
      t\<lparr>tt_Conn := c\<lparr>c_out := c_out c @ finish @ tt_sendBuf t\<rparr>, tt_handshakeStatus := 8, tt_sendBuf := []\<rparr>, r')"
    using assms(2,5,6) by (simp add: TLS12_Write_def Let_def conn_Write_def counted_def)
  then show ?thesis using assms(1-4) by (simp add: TLS12_Read_def proper_answer_def Let_def hm)
qed

theorem tls12_handshake:
  assumes "b \<noteq> []" and "c_writes c = None" and "\<forall>x\<in>set bs. x \<noteq> []"
    and "proper_answer A (TLS12_StreamConn ob clientID c) (c_in c)" and "length (c_in c) \<le> relayBuffer" and "length (c_in c) \<le> avail"
  shows "\<exists>hello finish t r'. TLS12_Read A now avail k
      (foldl (\<lambda>s x. snd (TLS12_Write A now x s)) (TLS12_StreamConn ob clientID c, r) (b # bs)) = (Inr [], t, r') \<and>
    tt_handshakeStatus t = 8 \<and> tt_sendBuf t = [] \<and>
    c_out (tt_Conn t) = c_out c @ hello @ finish @ concat (map ticket_packData (b # bs))"
proof -
  let ?t = "TLS12_StreamConn ob clientID c"
  obtain hello r1 where h: "ticket_hello A now (?t\<lparr>tt_sendBuf := ticket_packData b\<rparr>) r = (hello, r1)" by (metis prod.exhaust)
  have first: "snd (TLS12_Write A now b (?t, r)) =
      (?t\<lparr>tt_sendBuf := ticket_packData b, tt_Conn := c\<lparr>c_out := c_out c @ hello\<rparr>, tt_handshakeStatus := 1\<rparr>, r1)"
    using assms(1,2) h by (simp add: TLS12_Write_def TLS12_StreamConn_def conn_Write_def Let_def)
  have rest: "foldl (\<lambda>s x. snd (TLS12_Write A now x s)) (t, r1) xs = (t\<lparr>tt_sendBuf := tt_sendBuf t @ concat (map ticket_packData xs)\<rparr>, r1)"
    if "tt_handshakeStatus t = 1" "\<forall>x\<in>set xs. x \<noteq> []" for t xs using that
  proof (induction xs arbitrary: t)
    case (Cons x xs)
    then show ?case using TLS12_Write_waiting [of t x A now r1] Cons.IH [of "t\<lparr>tt_sendBuf := tt_sendBuf t @ ticket_packData x\<rparr>"] by simp
  qed simp
  let ?s = "?t\<lparr>tt_sendBuf := ticket_packData b @ concat (map ticket_packData bs), tt_Conn := c\<lparr>c_out := c_out c @ hello\<rparr>, tt_handshakeStatus := 1\<rparr>"
  have writes: "foldl (\<lambda>s x. snd (TLS12_Write A now x s)) (?t, r) (b # bs) = (?s, r1)" using assms(3) by (simp add: first rest)
  have n: "76 \<le> length (c_in c)" using assms(4) by (simp add: proper_answer_def)
  then have rd: "conn_Read avail relayBuffer (c\<lparr>c_out := c_out c @ hello\<rparr>) = (Inr (c_in c), c\<lparr>c_out := c_out c @ hello, c_in := []\<rparr>)"
    using assms(5,6) by (auto simp: conn_Read_def Let_def)
  obtain finish r2 where f: "ticket_finish A (?s\<lparr>tt_Conn := c\<lparr>c_out := c_out c @ hello, c_in := []\<rparr>\<rparr>) r1 = (finish, r2)" by (metis prod.exhaust)
  have "TLS12_Read A now avail k (?s, r1) =
    (Inr [], ?s\<lparr>tt_Conn := c\<lparr>c_out := c_out c @ hello, c_in := []\<rparr>\<lparr>c_out := (c_out c @ hello) @ finish @ tt_sendBuf ?s\<rparr>,
       tt_handshakeStatus := 8, tt_sendBuf := []\<rparr>, r2)"
    using TLS12_Read_answer [where t = ?s, OF _ _ _ _ _ f, of avail "c_in c" now k] assms(2,4) rd
    by (simp add: TLS12_StreamConn_def proper_answer_def ticket_hmac_def)
  then show ?thesis unfolding writes by (intro exI) (auto simp: TLS12_StreamConn_def)
qed

text \<open>The answer of the server has to come in one read: a first part of less than 76 bytes is an error, and is dropped.\<close>

theorem tls12_split_answer:
  assumes "tt_decoded t = []" and "tt_handshakeStatus t \<noteq> 8" and "c_in (tt_Conn t) \<noteq> []" and "avail < 76"
  shows "\<exists>t'. TLS12_Read A now avail k (t, r) = (Inl (SsrDecode TooShortData), t', r) \<and>
    c_in (tt_Conn t') = drop (max 1 avail) (c_in (tt_Conn t)) \<and> tt_underDecoded t' = tt_underDecoded t"
  using assms by (auto simp: TLS12_Read_def conn_Read_def Let_def relayBuffer_def min_def max_def)

text \<open>A write of 65536 bytes or more during the handshake becomes one record, of which the size does not fit.\<close>

lemma ticket_loop_size:
  "ticket_loop dst src = (e, dst', src') \<Longrightarrow> length dst' + length src' \<le> length dst + length src \<and>
    (src' \<noteq> src \<longrightarrow> length dst' + length src' < length dst + length src)"
proof (induction dst src rule: ticket_loop.induct)
  case (1 dst src)
  show ?case
  proof (cases "length src \<le> 5 \<or> take 3 src \<noteq> [0x17, 3, 3] \<or> length src < 5 + of_be16 (src ! 3) (src ! 4)")
    case True
    then show ?thesis using 1(2) by (subst (asm) ticket_loop.simps) (auto simp: Let_def split: if_splits)
  next
    case False
    let ?n = "of_be16 (src ! 3) (src ! 4)"
    have "ticket_loop (dst @ take ?n (drop 5 src)) (drop (5 + ?n) src) = (e, dst', src')"
      using 1(2) False by (subst (asm) ticket_loop.simps) (simp add: Let_def)
    from 1(1) [OF _ _ refl _ this] False have "length dst' + length src' \<le> length (dst @ take ?n (drop 5 src)) + length (drop (5 + ?n) src)" by auto
    also have "\<dots> < length dst + length src"
    proof -
      have "5 + ?n \<le> length src" using False by simp
      then show ?thesis by simp
    qed
    finally show ?thesis by simp
  qed
qed

theorem tls12_long_write:
  assumes "tt_handshakeStatus t = 1" and "tt_sendBuf t = []" and "65536 \<le> length b" and "TLS12_Write A now b (t, r) = (res, t', r')"
  shows "res = (length b, None) \<and> fst (snd (ticket_loop [] (tt_sendBuf t'))) \<noteq> b"
proof -
  have "b \<noteq> []" using assms(3) by auto
  then have w: "res = (length b, None)" "tt_sendBuf t' = ticket_packData b" using assms(1,2,4) by (auto simp: TLS12_Write_waiting)
  obtain x y where l: "be16 (of_nat (length b)) = [x, y]"
    using length_be16 [of "of_nat (length b)"] by (auto simp: length_Suc_conv numeral_2_eq_2 simp del: length_be16)
  have "of_be16 x y < 65536" using unsigned_less [of x, where 'a = nat] unsigned_less [of y, where 'a = nat] by (simp add: of_be16_def)
  then have n: "of_be16 x y < length b" using assms(3) by linarith
  let ?n = "of_be16 x y"
  have d: "drop (5 + n) ([0x17, 3, 3, x, y] @ d) = drop n d" for n and d :: "u8 list" by (simp add: numeral_eq_Suc)
  have loop: "ticket_loop [] (ticket_packData b) = ticket_loop (take ?n b) (drop ?n b)"
    using n d [of ?n b] \<open>b \<noteq> []\<close> by (subst ticket_loop.simps) (simp add: ticket_packData_def l Let_def)
  obtain e dst src where r: "ticket_loop (take ?n b) (drop ?n b) = (e, dst, src)" by (metis prod.exhaust)
  have "dst \<noteq> b"
  proof
    assume "dst = b"
    with ticket_loop_size [OF r] n show False by (cases "src = drop ?n b") auto
  qed
  then show ?thesis using w loop r by simp
qed

subsection \<open>random\_head\<close>

text \<open>
  A run of reads and writes on a connection whose writes succeed. In front of what is written goes the header, of 8 to 103
  bytes; the bytes are kept until the server has answered, and then are all sent.
\<close>

datatype rh_op = RhRead nat nat | RhWrite "u8 list"

definition rh_step :: "ssr_api \<Rightarrow> rh_op \<Rightarrow> random_head \<times> rand_src \<Rightarrow> random_head \<times> rand_src" where
  "rh_step A oper s = (case oper of RhRead avail k \<Rightarrow> snd (RandomHead_Read A avail k s) | RhWrite b \<Rightarrow> snd (RandomHead_Write A b s))"

definition rh_written :: "rh_op list \<Rightarrow> u8 list" where
  "rh_written ops = concat (map (\<lambda>p. case p of RhRead avail k \<Rightarrow> [] | RhWrite b \<Rightarrow> b) ops)"

definition rh_sent :: "random_head \<Rightarrow> u8 list \<Rightarrow> bool" where
  "rh_sent s xs \<longleftrightarrow> c_writes (rh_Conn s) = None \<and>
     (if \<not> rh_hasSentHeader s then xs = [] \<and> rh_buf s = [] \<and> c_out (rh_Conn s) = [] \<and> \<not> rh_rawTransSent s \<and> \<not> rh_rawTransRecv s
      else \<exists>h. length h \<in> {8..103} \<and>
        (if rh_rawTransSent s then c_out (rh_Conn s) = h @ xs else c_out (rh_Conn s) = h \<and> rh_buf s = xs))"

lemma random_header_length: "random_header A r = (h, r') \<Longrightarrow> length h \<in> {8..103}"
proof -
  assume h: "random_header A r = (h, r')"
  obtain n r1 where n: "draw 96 r = (n, r1)" by (cases "draw 96 r")
  obtain buf r2 where b: "rand_bytes (n + 4) r1 = (buf, r2)" by (cases "rand_bytes (n + 4) r1")
  have "n < 96" using n by (auto simp: draw_def)
  moreover have "length buf = n + 4" using length_rand_bytes [of "n + 4" r1] by (simp add: b)
  ultimately show ?thesis using h by (auto simp: random_header_def n b)
qed

lemma RandomHead_Write_sent:
  assumes "rh_sent s xs \<or> (rh_sent (s\<lparr>rh_rawTransRecv := False\<rparr>) xs)"
  shows "rh_sent (fst (snd (RandomHead_Write A b (s, r)))) (xs @ b)"
  using assms
  by (auto simp: RandomHead_Write_def rh_sent_def conn_Write_def Let_def dest: random_header_length split: prod.split if_splits)

lemma rh_step_sent:
  assumes "rh_sent s xs"
  shows "rh_sent (fst (rh_step A p (s, r))) (xs @ rh_written [p])"
proof (cases p)
  case (RhWrite b)
  then show ?thesis using RandomHead_Write_sent [of s xs A b r] assms by (simp add: rh_step_def rh_written_def)
next
  case (RhRead avail k)
  have c: "c_out (snd (conn_Read avail n c)) = c_out c \<and> c_writes (snd (conn_Read avail n c)) = c_writes c" for n c
    by (simp add: conn_Read_def Let_def)
  have r: "rh_sent (s\<lparr>rh_Conn := snd (conn_Read avail n (rh_Conn s))\<rparr>) xs" for n
    using assms c [of n "rh_Conn s"] by (cases "rh_hasSentHeader s"; cases "rh_rawTransSent s") (auto simp: rh_sent_def)
  show ?thesis
  proof (cases "rh_rawTransRecv s")
    case True
    then show ?thesis using r [of k] by (simp add: RhRead rh_step_def rh_written_def RandomHead_Read_def split_beta)
  next
    case False
    let ?s = "s\<lparr>rh_Conn := snd (conn_Read avail relayBuffer (rh_Conn s)), rh_rawTransRecv := True\<rparr>"
    have "?s\<lparr>rh_rawTransRecv := False\<rparr> = s\<lparr>rh_Conn := snd (conn_Read avail relayBuffer (rh_Conn s))\<rparr>" using False by simp
    then have "rh_sent (fst (snd (RandomHead_Write A [] (?s, r)))) xs"
      using RandomHead_Write_sent [of ?s xs A "[]" r] r [of relayBuffer] by simp
    then show ?thesis using False by (simp add: RhRead rh_step_def rh_written_def RandomHead_Read_def split_beta)
  qed
qed

theorem random_head_sends:
  assumes "c_writes c = None" and "c_out c = []"
  shows "rh_sent (fst (foldl (\<lambda>s p. rh_step A p s) (RandomHead_StreamConn c, r) ops)) (rh_written ops)"
proof (induction ops rule: rev_induct)
  case Nil
  then show ?case using assms by (simp add: rh_sent_def RandomHead_StreamConn_def rh_written_def)
next
  case (snoc p ops)
  obtain s r' where s: "foldl (\<lambda>s p. rh_step A p s) (RandomHead_StreamConn c, r) ops = (s, r')" by (metis prod.exhaust)
  from rh_step_sent [of s "rh_written ops" A p r'] snoc show ?case by (simp add: s rh_written_def)
qed

text \<open>The first read loses what it gets.\<close>

theorem random_head_drops:
  assumes "\<not> rh_rawTransRecv s" and "c_in (rh_Conn s) \<noteq> []" and "c_writes (rh_Conn s) = None"
  shows "\<exists>s' r'. RandomHead_Read A avail k (s, r) = (Inr [], s', r') \<and> c_in (rh_Conn s') = drop (min relayBuffer (max 1 avail)) (c_in (rh_Conn s))"
  using assms
  by (auto simp: RandomHead_Read_def RandomHead_Write_def conn_Read_def conn_Write_def Let_def split: prod.split)

subsection \<open>http\_simple\<close>

text \<open>A server reads the first bytes out of the path: pairs of hexadecimal digits behind percent signs, up to a space.\<close>

definition hex_value :: "char \<Rightarrow> nat" where
  "hex_value c = (if is_digit c then of_char c - 48 else of_char c - 87)"

fun path_bytes :: "string \<Rightarrow> u8 list" where
  "path_bytes (c # h # l # s) = (if c = CHR ''%'' then of_nat (16 * hex_value h + hex_value l) # path_bytes s else [])"
| "path_bytes s = []"

lemma hex_value_digit: "n < 16 \<Longrightarrow> hex_value (''0123456789abcdef'' ! n) = n"
proof -
  have "\<forall>n\<in>set [0..<16]. hex_value (''0123456789abcdef'' ! n) = n" by code_simp
  then show "n < 16 \<Longrightarrow> ?thesis" by simp
qed

lemma path_bytes_pack: "path_bytes (packURLEncodedHeadData data @ CHR '' '' # rest) = data"
proof (induction data)
  case Nil
  show ?case by (cases rest rule: path_bytes.cases) (simp_all add: packURLEncodedHeadData_def)
next
  case (Cons b data)
  have "unat b < 256" using unsigned_less [of b, where 'a = nat] by simp
  then have "hex_value (''0123456789abcdef'' ! (unat b div 16)) = unat b div 16" "hex_value (''0123456789abcdef'' ! (unat b mod 16)) = unat b mod 16"
    by (simp_all add: hex_value_digit less_mult_imp_div_less)
  then have "path_bytes ((CHR ''%'' # hex_pair b) @ s) = b # path_bytes s" for s
    by (simp add: hex_pair_def Let_def del: nth_Cons_numeral)
  then show ?case using Cons by (simp add: packURLEncodedHeadData_def)
qed

text \<open>The request carries the first bytes in its path and the others behind it.\<close>

theorem http_simple_carries:
  assumes "\<not> hc_hasSentHeader s" and "c_writes (hc_Conn s) = None" and "HttpConn_Write agents b (s, r) = (res, s', r')"
  shows "\<exists>n start req. res = (length b, None) \<and> hc_hasSentHeader s' \<and> start \<in> {''GET /'', ''POST /''} \<and> path_bytes req = take n b \<and>
    c_out (hc_Conn s') = c_out (hc_Conn s) @ bytes_of (start @ req) @ drop n b"
proof -
  obtain n r1 where n: "http_head_length (hc_Base s) (length b) r = (n, r1)" by (metis prod.exhaust)
  obtain req r2 where t: "http_request agents (hc_Base s) (hc_post s) (take n b) r1 = (req, r2)" by (metis prod.exhaust)
  obtain rest where "req = (if hc_post s then ''POST /'' else ''GET /'') @ packURLEncodedHeadData (take n b) @ CHR '' '' # rest"
    using t by (auto simp: http_request_def Let_def split: prod.splits if_splits)
  moreover have "res = (length b, None)" "hc_hasSentHeader s'" "c_out (hc_Conn s') = c_out (hc_Conn s) @ bytes_of req @ drop n b"
    using assms by (auto simp: HttpConn_Write_def n t conn_Write_def)
  ultimately show ?thesis
    by (intro exI [of _ n] exI [of _ "if hc_post s then ''POST /'' else ''GET /''"] exI [of _ "packURLEncodedHeadData (take n b) @ CHR '' '' # rest"])
      (simp add: path_bytes_pack)
qed

text \<open>The error of the first write is lost.\<close>

theorem http_simple_error_lost:
  assumes "\<not> hc_hasSentHeader s" and "c_writes (hc_Conn s) = Some 0"
  shows "fst (HttpConn_Write agents b (s, r)) = (0, None)"
  using assms by (simp add: HttpConn_Write_def conn_Write_def split: prod.split)

text \<open>A head of the answer that comes in two reads ends the stream.\<close>

theorem http_simple_split:
  assumes "hc_buf s = None" and "\<not> hc_hasRecvHeader s" and "c_in (hc_Conn s) \<noteq> []"
    and "bytes_Index (take (min relayBuffer (max 1 avail)) (c_in (hc_Conn s))) header_end = None"
  shows "fst (HttpConn_Read avail k s) = Inl EOF"
  using assms by (simp add: HttpConn_Read_def conn_Read_def Let_def)

subsection \<open>Concrete inputs\<close>

definition w_obfs :: obfs_base where
  "w_obfs = \<lparr>ob_Host = ''h'', ob_Port = 80, ob_Key = [1], ob_IVSize = 0, ob_Param = []\<rparr>"

definition w_ticket :: tls_ticket where
  "w_ticket = (TLS12_StreamConn w_obfs (replicate 32 0) (fed []))\<lparr>tt_handshakeStatus := 8\<rparr>"

lemma tls12_roundtrip_witness:
  "\<exists>out n. fst (reads (\<lambda>(avail, k). TLS12_Read w_api 0 avail k) (replicate 90 (2, 1)) (w_ticket\<lparr>tt_Conn := fed out\<rparr>, \<lambda>_. 0)) = take n [5, 6, 7]"
proof -
  obtain res t' r' where w: "TLS12_Write w_api 0 [5, 6, 7] (w_ticket, \<lambda>_. 0) = (res, t', r')" by (metis prod.exhaust)
  have t: "tt_handshakeStatus w_ticket = 8" "c_writes (tt_Conn w_ticket) = None" "c_out (tt_Conn w_ticket) = []"
    by (simp_all add: w_ticket_def TLS12_StreamConn_def fed_def)
  from tls12_roundtrip [OF t w, of "w_ticket\<lparr>tt_Conn := fed (c_out (tt_Conn t'))\<rparr>" "replicate 90 (2, 1)"] show ?thesis
    by (auto simp: w_ticket_def TLS12_StreamConn_def)
qed

definition w_answer :: "u8 list" where "w_answer = replicate 76 1"

lemma tls12_handshake_witness:
  "\<exists>t r'. TLS12_Read w_api 0 100 5 (foldl (\<lambda>s x. snd (TLS12_Write w_api 0 x s)) (TLS12_StreamConn w_obfs [] (fed w_answer), \<lambda>_. 0) [[1], [2]]) =
    (Inr [], t, r') \<and> tt_handshakeStatus t = 8"
proof -
  have "proper_answer w_api (TLS12_StreamConn w_obfs [] (fed w_answer)) (c_in (fed w_answer))"
    by (simp add: proper_answer_def ticket_hmac_def w_api_def w_answer_def fed_def)
  from tls12_handshake [of "[1]" "fed w_answer" "[[2]]", OF _ _ _ this, of 100 0 5 "\<lambda>_. 0"] show ?thesis
    by (auto simp: fed_def w_answer_def relayBuffer_def)
qed

lemma tls12_split_answer_witness:
  "\<exists>t'. TLS12_Read w_api 0 50 5 (TLS12_StreamConn w_obfs [] (fed w_answer), \<lambda>_. 0) = (Inl (SsrDecode TooShortData), t', \<lambda>_. 0)"
  using tls12_split_answer [of "TLS12_StreamConn w_obfs [] (fed w_answer)" 50 w_api 0 5 "\<lambda>_. 0"]
  by (auto simp: TLS12_StreamConn_def fed_def w_answer_def)

lemma tls12_long_write_witness:
  "\<exists>res t' r'. TLS12_Write w_api 0 (replicate 65536 1) (w_ticket\<lparr>tt_handshakeStatus := 1\<rparr>, \<lambda>_. 0) = (res, t', r') \<and>
    fst (snd (ticket_loop [] (tt_sendBuf t'))) \<noteq> replicate 65536 1"
proof -
  let ?b = "replicate 65536 (1 :: u8)"
  obtain res t' r' where w: "TLS12_Write w_api 0 ?b (w_ticket\<lparr>tt_handshakeStatus := 1\<rparr>, \<lambda>_. 0) = (res, t', r')" by (metis prod.exhaust)
  have t: "tt_handshakeStatus (w_ticket\<lparr>tt_handshakeStatus := 1\<rparr>) = 1" "tt_sendBuf (w_ticket\<lparr>tt_handshakeStatus := 1\<rparr>) = []" "65536 \<le> length ?b"
    by (simp_all only: length_replicate) (simp_all add: w_ticket_def TLS12_StreamConn_def)
  from tls12_long_write [OF t w] w show ?thesis by blast
qed

lemma random_head_sends_witness:
  "rh_sent (fst (foldl (\<lambda>s p. rh_step w_api p s) (RandomHead_StreamConn (fed [9, 9]), \<lambda>_. 0) [RhWrite [1], RhRead 5 5, RhWrite [2]])) [1, 2]"
  using random_head_sends [of "fed [9, 9]" w_api "\<lambda>_. 0" "[RhWrite [1], RhRead 5 5, RhWrite [2]]"] by (simp add: fed_def rh_written_def)

lemma random_head_drops_witness:
  "\<exists>s' r'. RandomHead_Read w_api 5 5 (RandomHead_StreamConn (fed [9, 8]), \<lambda>_. 0) = (Inr [], s', r') \<and> c_in (rh_Conn s') = []"
  using random_head_drops [of "RandomHead_StreamConn (fed [9, 8])" w_api 5 5 "\<lambda>_. 0"]
  by (auto simp: RandomHead_StreamConn_def fed_def relayBuffer_def)

definition w_http :: http_conn where "w_http = HttpConn_StreamConn w_obfs False (fed [72])"

lemma http_simple_carries_witness:
  "\<exists>n start req. c_out (hc_Conn (fst (snd (HttpConn_Write [''agent''] [5, 6] (w_http, \<lambda>_. 0))))) = bytes_of (start @ req) @ drop n [5, 6] \<and>
    path_bytes req = take n [5, 6]"
proof -
  obtain res s' r' where w: "HttpConn_Write [''agent''] [5, 6] (w_http, \<lambda>_. 0) = (res, s', r')" by (metis prod.exhaust)
  have "\<not> hc_hasSentHeader w_http" "c_writes (hc_Conn w_http) = None" "c_out (hc_Conn w_http) = []"
    by (simp_all add: w_http_def HttpConn_StreamConn_def fed_def)
  with http_simple_carries [OF _ _ w] show ?thesis by (auto simp: w)
qed

lemma http_simple_error_lost_witness:
  "fst (HttpConn_Write [''agent''] [5, 6] (w_http\<lparr>hc_Conn := \<lparr>c_in = [], c_out = [], c_writes = Some 0\<rparr>\<rparr>, \<lambda>_. 0)) = (0, None)"
  by (rule http_simple_error_lost) (simp_all add: w_http_def HttpConn_StreamConn_def)

lemma http_simple_split_witness: "fst (HttpConn_Read 5 5 w_http) = Inl EOF"
  by (rule http_simple_split) (simp_all add: w_http_def HttpConn_StreamConn_def fed_def relayBuffer_def header_end_def)

end
