(* ===== verification/Structure.thy ===== *)
theory Structure
  imports Prelude "HOL-Library.Word" "HOL-Library.AList"
begin

unbundle bit_operations_syntax

text \<open>
  The decoder that fills the options of a proxy from a map, \<open>src/pkg/clash/common/structure/structure.go\<close>. What the code
  asks of a type by reflection is a \<open>kind\<close>, and the values of Go types are \<open>gval\<close>. The source is what JSON and YAML give:
  maps have string keys, and an entry list in the order of the iteration. A panic is \<open>None\<close>. The keys are ASCII; no type of
  the program has the tag \<open>squash\<close>, which is left out, and all fields can be set. What a failing call has filled by then is
  left out too: the parsers drop it.
\<close>

subsection \<open>Values and types\<close>

text \<open>A \<open>float64\<close> is represented by what \<open>int64\<close> makes of it, all that the decoder uses.\<close>

datatype any_value = VNil | VBool bool | VInt int | VFloat int | VString string | VSlice "any_value list" | VMap "(string \<times> any_value) list"

text \<open>The fields of a struct have a name and a tag.\<close>

datatype kind = KInt | KString | KBool | KSlice kind | KMap kind | KInterface | KStruct "(string \<times> string \<times> kind) list" | KOther

datatype gval = GInt int | GString string | GBool bool | GSlice "gval list" | GMap "(string \<times> gval) list option"
  | GInterface any_value | GStruct "(string \<times> gval) list" | GOther

fun zero_value :: "kind \<Rightarrow> gval" where
  "zero_value KInt = GInt 0"
| "zero_value KString = GString []"
| "zero_value KBool = GBool False"
| "zero_value (KSlice k) = GSlice []"
| "zero_value (KMap k) = GMap None"
| "zero_value KInterface = GInterface VNil"
| "zero_value (KStruct fs) = GStruct (map (\<lambda>(n, t, k). (n, zero_value k)) fs)"
| "zero_value KOther = GOther"

datatype decode_error =
    KeyMissing string | Unconvertible string | CannotParse string | NotASlice string | ExpectedMap string | NullElement string
  | FieldInvalid string | NotSupported | Joined "decode_error list"

type_synonym 'a decoded = "(decode_error + 'a) option"

subsection \<open>\<open>strconv.ParseInt(s, 0, 64)\<close>\<close>

definition lower :: "char \<Rightarrow> char" where
  "lower c = char_of (of_char c OR 32 :: nat)"

text \<open>Underscores stand between digits, or behind the prefix of the base.\<close>

fun underscores_ok :: "bool \<Rightarrow> char \<Rightarrow> string \<Rightarrow> bool" where
  "underscores_ok hex i [] = (i \<noteq> CHR ''_'')"
| "underscores_ok hex i (c # s) =
     (if is_digit c \<or> hex \<and> lower c \<in> set ''abcdef'' then underscores_ok hex (CHR ''0'') s
      else if c = CHR ''_'' then i = CHR ''0'' \<and> underscores_ok hex (CHR ''_'') s
      else i \<noteq> CHR ''_'' \<and> underscores_ok hex (CHR ''!'') s)"

definition underscoreOK :: "string \<Rightarrow> bool" where
  "underscoreOK s =
     (let s = (if s \<noteq> [] \<and> (hd s = CHR ''-'' \<or> hd s = CHR ''+'') then tl s else s) in
      if 2 \<le> length s \<and> hd s = CHR ''0'' \<and> lower (s ! 1) \<in> set ''box'' then underscores_ok (lower (s ! 1) = CHR ''x'') (CHR ''0'') (drop 2 s)
      else underscores_ok False (CHR ''^'') s)"

definition digit_in :: "nat \<Rightarrow> char \<Rightarrow> nat option" where
  "digit_in base c =
     (let d = (if is_digit c then Some (digit_val c)
               else if lower c \<in> set ''abcdefghijklmnopqrstuvwxyz'' then Some (of_char (lower c) - 87) else None) in
      case d of Some n \<Rightarrow> if n < base then Some n else None | None \<Rightarrow> None)"

fun digits_value :: "nat \<Rightarrow> string \<Rightarrow> nat \<Rightarrow> nat option" where
  "digits_value base [] n = Some n"
| "digits_value base (c # s) n =
     (if c = CHR ''_'' then digits_value base s n
      else case digit_in base c of Some d \<Rightarrow> digits_value base s (base * n + d) | None \<Rightarrow> None)"

definition base_prefix :: "string \<Rightarrow> nat \<times> string" where
  "base_prefix s =
     (if s \<noteq> [] \<and> hd s = CHR ''0'' then
        (if 3 \<le> length s \<and> lower (s ! 1) = CHR ''b'' then (2, drop 2 s)
         else if 3 \<le> length s \<and> lower (s ! 1) = CHR ''o'' then (8, drop 2 s)
         else if 3 \<le> length s \<and> lower (s ! 1) = CHR ''x'' then (16, drop 2 s)
         else (8, drop 1 s))
      else (10, s))"

definition ParseInt0 :: "string \<Rightarrow> int option" where
  "ParseInt0 s =
     (let neg = s \<noteq> [] \<and> hd s = CHR ''-''; body = (if s \<noteq> [] \<and> (hd s = CHR ''-'' \<or> hd s = CHR ''+'') then tl s else s) in
      if body = [] then None
      else
        (case base_prefix body of (base, digits) \<Rightarrow>
           (case digits_value base digits 0 of
              None \<Rightarrow> None
            | Some n \<Rightarrow>
                if CHR ''_'' \<in> set digits \<and> \<not> underscoreOK body then None
                else if neg then (if int n \<le> 2 ^ 63 then Some (- int n) else None)
                else (if int n < 2 ^ 63 then Some (int n) else None))))"

subsection \<open>Decoding\<close>

text \<open>\<open>W\<close> is \<open>WeaklyTypedInput\<close>. The type of a null is asked for in an error message, which panics.\<close>

definition decodeInt :: "bool \<Rightarrow> string \<Rightarrow> any_value \<Rightarrow> gval decoded" where
  "decodeInt W name data =
     (case data of
        VInt i \<Rightarrow> Some (Inr (GInt i))
      | VFloat i \<Rightarrow> if W then Some (Inr (GInt i)) else Some (Inl (Unconvertible name))
      | VString s \<Rightarrow>
          if W then (case ParseInt0 s of Some i \<Rightarrow> Some (Inr (GInt i)) | None \<Rightarrow> Some (Inl (CannotParse name)))
          else Some (Inl (Unconvertible name))
      | VNil \<Rightarrow> None
      | _ \<Rightarrow> Some (Inl (Unconvertible name)))"

definition decodeString :: "bool \<Rightarrow> string \<Rightarrow> any_value \<Rightarrow> gval decoded" where
  "decodeString W name data =
     (case data of
        VString s \<Rightarrow> Some (Inr (GString s))
      | VInt i \<Rightarrow> if W then Some (Inr (GString (int_dec i))) else Some (Inl (Unconvertible name))
      | VNil \<Rightarrow> None
      | _ \<Rightarrow> Some (Inl (Unconvertible name)))"

definition decodeBool :: "bool \<Rightarrow> string \<Rightarrow> any_value \<Rightarrow> gval decoded" where
  "decodeBool W name data =
     (case data of
        VBool b \<Rightarrow> Some (Inr (GBool b))
      | VInt i \<Rightarrow> if W then Some (Inr (GBool (i \<noteq> 0))) else Some (Inl (Unconvertible name))
      | VNil \<Rightarrow> None
      | _ \<Rightarrow> Some (Inl (Unconvertible name)))"

definition setInterface :: "any_value \<Rightarrow> gval decoded" where
  "setInterface data = (if data = VNil then None else Some (Inr (GInterface data)))"

definition elem_name :: "string \<Rightarrow> nat \<Rightarrow> string" where
  "elem_name name i = name @ ''['' @ nat_dec i @ '']''"

definition entry_name :: "string \<Rightarrow> string \<Rightarrow> string" where
  "entry_name name k = name @ ''['' @ k @ '']''"

text \<open>The part of a tag before the comma, or the name of the field; the entry of a map for it, first by the exact key.\<close>

definition tag_key :: "string \<Rightarrow> string" where
  "tag_key tag = takeWhile (\<lambda>c. c \<noteq> CHR '','') tag"

definition field_key :: "string \<Rightarrow> string \<Rightarrow> string" where
  "field_key name tag = (if tag_key tag \<noteq> [] then tag_key tag else name)"

definition find_entry :: "string \<Rightarrow> (string \<times> any_value) list \<Rightarrow> any_value option" where
  "find_entry key m =
     (case map_of m key of
        Some v \<Rightarrow> Some v
      | None \<Rightarrow> map_option snd (List.find (\<lambda>(k, v). equal_fold k key) m))"

definition dotted_name :: "string \<Rightarrow> string \<Rightarrow> string" where
  "dotted_name name field = (if name \<noteq> [] then name @ ''.'' @ field else field)"

definition joined :: "decode_error list \<Rightarrow> 'a \<Rightarrow> 'a decoded" where
  "joined errors v = Some (if errors = [] then Inr v else Inl (Joined errors))"

function decode_value :: "bool \<Rightarrow> string \<Rightarrow> any_value \<Rightarrow> kind \<Rightarrow> gval \<Rightarrow> gval decoded"
  and decode_elems :: "bool \<Rightarrow> string \<Rightarrow> nat \<Rightarrow> any_value list \<Rightarrow> kind \<Rightarrow> gval list \<Rightarrow> gval list decoded"
  and decode_entries :: "bool \<Rightarrow> string \<Rightarrow> (string \<times> any_value) list \<Rightarrow> kind \<Rightarrow> decode_error list \<Rightarrow> (string \<times> gval) list \<Rightarrow> (string \<times> gval) list decoded"
  and decode_fields :: "bool \<Rightarrow> string \<Rightarrow> (string \<times> any_value) list \<Rightarrow> (string \<times> string \<times> kind) list \<Rightarrow> decode_error list \<Rightarrow> (string \<times> gval) list \<Rightarrow> (string \<times> gval) list decoded"
where
  "decode_value W name data KInt v = decodeInt W name data"
| "decode_value W name data KString v = decodeString W name data"
| "decode_value W name data KBool v = decodeBool W name data"
| "decode_value W name data (KSlice k) v =
     (case data of
        VSlice xs \<Rightarrow> map_option (map_sum id GSlice) (decode_elems W name 0 xs k (case v of GSlice vs \<Rightarrow> vs | _ \<Rightarrow> []))
      | _ \<Rightarrow> Some (Inl (NotASlice name)))"
| "decode_value W name data (KMap k) v =
     (case data of
        VMap m \<Rightarrow> map_option (map_sum id (\<lambda>m. GMap (Some m))) (decode_entries W name m k [] (case v of GMap (Some m) \<Rightarrow> m | _ \<Rightarrow> []))
      | _ \<Rightarrow> Some (Inl (ExpectedMap name)))"
| "decode_value W name data KInterface v = setInterface data"
| "decode_value W name data (KStruct fs) v =
     (case data of
        VMap m \<Rightarrow> map_option (map_sum id GStruct) (decode_fields W name m fs [] (case v of GStruct vs \<Rightarrow> vs | _ \<Rightarrow> []))
      | VNil \<Rightarrow> None
      | _ \<Rightarrow> Some (Inl (ExpectedMap name)))"
| "decode_value W name data KOther v = Some (Inl NotSupported)"
| "decode_elems W name i [] k vs = Some (Inr vs)"
| "decode_elems W name i (x # xs) k vs =
     (let v = (case vs of [] \<Rightarrow> zero_value k | v # _ \<Rightarrow> v) in
      if x = VNil then
        (if W \<or> (case k of KMap _ \<Rightarrow> True | KSlice _ \<Rightarrow> True | _ \<Rightarrow> False)
         then map_option (map_sum id (\<lambda>ws. v # ws)) (decode_elems W name (Suc i) xs k (tl vs))
         else Some (Inl (NullElement (elem_name name i))))
      else
        (case decode_value W (elem_name name i) x k v of
           None \<Rightarrow> None
         | Some (Inl e) \<Rightarrow> Some (Inl e)
         | Some (Inr w) \<Rightarrow> map_option (map_sum id (\<lambda>ws. w # ws)) (decode_elems W name (Suc i) xs k (tl vs))))"
| "decode_entries W name [] k errors m = joined errors m"
| "decode_entries W name ((key, x) # xs) k errors m =
     (if x = VNil then decode_entries W name xs k (errors @ [FieldInvalid (entry_name name key)]) m
      else
        (case decode_value W (entry_name name key) x k (zero_value k) of
           None \<Rightarrow> None
         | Some (Inl e) \<Rightarrow> decode_entries W name xs k (errors @ [e]) m
         | Some (Inr w) \<Rightarrow> decode_entries W name xs k errors (AList.update key w m)))"
| "decode_fields W name src [] errors vs = joined errors vs"
| "decode_fields W name src ((n, tag, k) # fs) errors vs =
     (case find_entry (field_key n tag) src of
        None \<Rightarrow> decode_fields W name src fs errors vs
      | Some x \<Rightarrow>
          (case decode_value W (dotted_name name (field_key n tag)) x k (case map_of vs n of Some v \<Rightarrow> v | None \<Rightarrow> zero_value k) of
             None \<Rightarrow> None
           | Some (Inl e) \<Rightarrow> decode_fields W name src fs (errors @ [e]) vs
           | Some (Inr w) \<Rightarrow> decode_fields W name src fs errors (AList.update n w vs)))"
  by pat_completeness auto
termination
  by (relation "measures
       [\<lambda>x. case x of Inl (Inl (W, name, data, k, v)) \<Rightarrow> 2 * size k
          | Inl (Inr (W, name, i, xs, k, vs)) \<Rightarrow> 2 * size k + 1
          | Inr (Inl (W, name, m, k, errors, vs)) \<Rightarrow> 2 * size k + 1
          | Inr (Inr (W, name, src, fs, errors, vs)) \<Rightarrow> 2 * size_list (size_prod (\<lambda>x. 0) (size_prod (\<lambda>x. 0) size)) fs + 1,
        \<lambda>x. case x of Inl (Inl _) \<Rightarrow> 0 | Inl (Inr (W, name, i, xs, k, vs)) \<Rightarrow> length xs
          | Inr (Inl (W, name, m, k, errors, vs)) \<Rightarrow> length m | Inr (Inr (W, name, src, fs, errors, vs)) \<Rightarrow> length fs]") auto

text \<open>
  The fields of the struct itself: an embedded one is filled from the same map; the others have to be there, unless their
  tag says \<open>omitempty\<close>, and a null counts as missing.
\<close>

datatype top_field = Embedded string "(string \<times> string \<times> kind) list" | Field string string kind

definition omitempty :: "string \<Rightarrow> bool" where
  "omitempty tag \<longleftrightarrow> CHR '','' \<in> set tag \<and> drop (Suc (length (tag_key tag))) tag = ''omitempty''"

fun Decode :: "bool \<Rightarrow> (string \<times> any_value) list \<Rightarrow> top_field list \<Rightarrow> (string \<times> gval) list \<Rightarrow> (string \<times> gval) list decoded" where
  "Decode W src [] dst = Some (Inr dst)"
| "Decode W src (Embedded n fs # ts) dst =
     (case decode_value W n (VMap src) (KStruct fs) (case map_of dst n of Some v \<Rightarrow> v | None \<Rightarrow> zero_value (KStruct fs)) of
        None \<Rightarrow> None
      | Some (Inl e) \<Rightarrow> Some (Inl e)
      | Some (Inr w) \<Rightarrow> Decode W src ts (AList.update n w dst))"
| "Decode W src (Field n tag k # ts) dst =
     (case map_of src (tag_key tag) of
        None \<Rightarrow> if omitempty tag then Decode W src ts dst else Some (Inl (KeyMissing (tag_key tag)))
      | Some VNil \<Rightarrow> if omitempty tag then Decode W src ts dst else Some (Inl (KeyMissing (tag_key tag)))
      | Some x \<Rightarrow>
          (case decode_value W (tag_key tag) x k (case map_of dst n of Some v \<Rightarrow> v | None \<Rightarrow> zero_value k) of
             None \<Rightarrow> None
           | Some (Inl e) \<Rightarrow> Some (Inl e)
           | Some (Inr w) \<Rightarrow> Decode W src ts (AList.update n w dst)))"

end
