(* ===== verification/Outbound.thy ===== *)
theory Outbound
  imports Structure Dialer Trojan Snell Vmess ShadowStream SsrObfs SsrChain
begin

text \<open>
  The proxies of the program and how they are made: the options of \<open>src/pkg/clash/adapter/outbound/\<close>, the constructors of
  each kind of proxy, and \<open>ParseProxy\<close> (\<open>src/pkg/clash/adapter/parser.go\<close>), which decodes a map and calls one of them.
  Ciphers and clients are made by the functions of the theories of their protocols, whose parameters are collected in
  \<open>out_env\<close>. \<open>None\<close> is a panic.
\<close>

subsection \<open>What the constructors use\<close>

record 'k out_env =
  oe_K :: ss_crypto
  oe_L :: "'k stream_crypto"
  oe_VK :: vmess_crypto
  oe_FromString :: "string \<Rightarrow> u8 list option"
  oe_goarch :: string
  oe_sha224 :: "u8 list \<Rightarrow> u8 list"
  oe_A :: ssr_api
  oe_B :: protobytes

datatype proxy_error =
    MissingType | Unsupported string | BadOption decode_error | BadCipher key_error | NotAStream | BadMode string | BadObfs string
  | BadProtocol string | BadClient client_error | NeedsTLS | NoUDP int | BadVersion int

text \<open>Reading the fields of a decoded struct.\<close>

definition g_str :: "(string \<times> gval) list \<Rightarrow> string \<Rightarrow> string" where
  "g_str fs n = (case map_of fs n of Some (GString s) \<Rightarrow> s | _ \<Rightarrow> [])"

definition g_int :: "(string \<times> gval) list \<Rightarrow> string \<Rightarrow> int" where
  "g_int fs n = (case map_of fs n of Some (GInt i) \<Rightarrow> i | _ \<Rightarrow> 0)"

definition g_bool :: "(string \<times> gval) list \<Rightarrow> string \<Rightarrow> bool" where
  "g_bool fs n = (case map_of fs n of Some (GBool b) \<Rightarrow> b | _ \<Rightarrow> False)"

definition g_struct :: "(string \<times> gval) list \<Rightarrow> string \<Rightarrow> (string \<times> gval) list" where
  "g_struct fs n = (case map_of fs n of Some (GStruct gs) \<Rightarrow> gs | _ \<Rightarrow> [])"

definition gstr_of :: "gval \<Rightarrow> string" where
  "gstr_of v = (case v of GString s \<Rightarrow> s | _ \<Rightarrow> [])"

definition strs_of :: "gval \<Rightarrow> string list" where
  "strs_of v = (case v of GSlice vs \<Rightarrow> map gstr_of vs | _ \<Rightarrow> [])"

definition g_strs :: "(string \<times> gval) list \<Rightarrow> string \<Rightarrow> string list" where
  "g_strs fs n = (case map_of fs n of Some v \<Rightarrow> strs_of v | None \<Rightarrow> [])"

definition g_map :: "(string \<times> gval) list \<Rightarrow> string \<Rightarrow> (string \<times> gval) list" where
  "g_map fs n = (case map_of fs n of Some (GMap (Some m)) \<Rightarrow> m | _ \<Rightarrow> [])"

definition any_of :: "gval \<Rightarrow> any_value" where
  "any_of v = (case v of GInterface x \<Rightarrow> x | _ \<Rightarrow> VNil)"

subsection \<open>Options (the structs and their tags)\<close>

definition basic_fields :: "(string \<times> string \<times> kind) list" where
  "basic_fields = [(''Interface'', ''interface-name,omitempty'', KString), (''RoutingMark'', ''routing-mark,omitempty'', KInt)]"

definition common_schema :: "top_field list" where
  "common_schema = [Embedded ''BasicOption'' basic_fields, Field ''Name'' ''name'' KString, Field ''Server'' ''server'' KString,
     Field ''Port'' ''port'' KInt]"

record basic_option =
  op_Interface :: string
  op_RoutingMark :: int
  op_Name :: string
  op_Server :: string
  op_Port :: int

definition read_basic_option :: "(string \<times> gval) list \<Rightarrow> basic_option" where
  "read_basic_option fs =
     \<lparr>op_Interface = g_str (g_struct fs ''BasicOption'') ''Interface'', op_RoutingMark = g_int (g_struct fs ''BasicOption'') ''RoutingMark'',
      op_Name = g_str fs ''Name'', op_Server = g_str fs ''Server'', op_Port = g_int fs ''Port''\<rparr>"

definition ss_schema :: "top_field list" where
  "ss_schema = common_schema @ [Field ''Password'' ''password'' KString, Field ''Cipher'' ''cipher'' KString, Field ''UDP'' ''udp,omitempty'' KBool,
     Field ''Plugin'' ''plugin,omitempty'' KString, Field ''PluginOpts'' ''plugin-opts,omitempty'' (KMap KInterface)]"

record ss_option = basic_option +
  so_Password :: string
  so_Cipher :: string
  so_UDP :: bool
  so_Plugin :: string
  so_PluginOpts :: "(string \<times> any_value) list"

definition read_ss_option :: "(string \<times> gval) list \<Rightarrow> ss_option" where
  "read_ss_option fs = basic_option.extend (read_basic_option fs)
     (ss_option.fields (g_str fs ''Password'') (g_str fs ''Cipher'') (g_bool fs ''UDP'') (g_str fs ''Plugin'')
        (map (\<lambda>(k, v). (k, any_of v)) (g_map fs ''PluginOpts'')))"

definition ssr_schema :: "top_field list" where
  "ssr_schema = common_schema @ [Field ''Password'' ''password'' KString, Field ''Cipher'' ''cipher'' KString, Field ''Obfs'' ''obfs'' KString,
     Field ''ObfsParam'' ''obfs-param,omitempty'' KString, Field ''Protocol'' ''protocol'' KString,
     Field ''ProtocolParam'' ''protocol-param,omitempty'' KString, Field ''UDP'' ''udp,omitempty'' KBool]"

record ssr_option = basic_option +
  ro_Password :: string
  ro_Cipher :: string
  ro_Obfs :: string
  ro_ObfsParam :: string
  ro_Protocol :: string
  ro_ProtocolParam :: string
  ro_UDP :: bool

definition read_ssr_option :: "(string \<times> gval) list \<Rightarrow> ssr_option" where
  "read_ssr_option fs = basic_option.extend (read_basic_option fs)
     (ssr_option.fields (g_str fs ''Password'') (g_str fs ''Cipher'') (g_str fs ''Obfs'') (g_str fs ''ObfsParam'')
        (g_str fs ''Protocol'') (g_str fs ''ProtocolParam'') (g_bool fs ''UDP''))"

definition socks_schema :: "top_field list" where
  "socks_schema = common_schema @ [Field ''UserName'' ''username,omitempty'' KString, Field ''Password'' ''password,omitempty'' KString,
     Field ''TLS'' ''tls,omitempty'' KBool, Field ''UDP'' ''udp,omitempty'' KBool, Field ''SkipCertVerify'' ''skip-cert-verify,omitempty'' KBool]"

record socks_option = basic_option +
  ko_UserName :: string
  ko_Password :: string
  ko_TLS :: bool
  ko_UDP :: bool
  ko_SkipCertVerify :: bool

definition read_socks_option :: "(string \<times> gval) list \<Rightarrow> socks_option" where
  "read_socks_option fs = basic_option.extend (read_basic_option fs)
     (socks_option.fields (g_str fs ''UserName'') (g_str fs ''Password'') (g_bool fs ''TLS'') (g_bool fs ''UDP'') (g_bool fs ''SkipCertVerify''))"

definition http_schema :: "top_field list" where
  "http_schema = common_schema @ [Field ''UserName'' ''username,omitempty'' KString, Field ''Password'' ''password,omitempty'' KString,
     Field ''TLS'' ''tls,omitempty'' KBool, Field ''SNI'' ''sni,omitempty'' KString,
     Field ''SkipCertVerify'' ''skip-cert-verify,omitempty'' KBool, Field ''Headers'' ''headers,omitempty'' (KMap KString)]"

record http_option = basic_option +
  ho_UserName :: string
  ho_Password :: string
  ho_TLS :: bool
  ho_SNI :: string
  ho_SkipCertVerify :: bool
  ho_Headers :: "(string \<times> string) list"

definition read_http_option :: "(string \<times> gval) list \<Rightarrow> http_option" where
  "read_http_option fs = basic_option.extend (read_basic_option fs)
     (http_option.fields (g_str fs ''UserName'') (g_str fs ''Password'') (g_bool fs ''TLS'') (g_str fs ''SNI'') (g_bool fs ''SkipCertVerify'')
        (map (\<lambda>(k, v). (k, gstr_of v)) (g_map fs ''Headers'')))"

text \<open>Carriers of VMess and Trojan.\<close>

definition http_opts_fields :: "(string \<times> string \<times> kind) list" where
  "http_opts_fields = [(''Method'', ''method,omitempty'', KString), (''Path'', ''path,omitempty'', KSlice KString),
     (''Headers'', ''headers,omitempty'', KMap (KSlice KString))]"

definition h2_opts_fields :: "(string \<times> string \<times> kind) list" where
  "h2_opts_fields = [(''Host'', ''host,omitempty'', KSlice KString), (''Path'', ''path,omitempty'', KString)]"

definition grpc_opts_fields :: "(string \<times> string \<times> kind) list" where
  "grpc_opts_fields = [(''GrpcServiceName'', ''grpc-service-name,omitempty'', KString)]"

definition ws_opts_fields :: "(string \<times> string \<times> kind) list" where
  "ws_opts_fields = [(''Path'', ''path,omitempty'', KString), (''Headers'', ''headers,omitempty'', KMap KString),
     (''MaxEarlyData'', ''max-early-data,omitempty'', KInt), (''EarlyDataHeaderName'', ''early-data-header-name,omitempty'', KString)]"

record ws_options =
  wo_Path :: string
  wo_Headers :: "(string \<times> string) list"
  wo_MaxEarlyData :: int
  wo_EarlyDataHeaderName :: string

definition read_ws_options :: "(string \<times> gval) list \<Rightarrow> ws_options" where
  "read_ws_options fs = \<lparr>wo_Path = g_str fs ''Path'', wo_Headers = map (\<lambda>(k, v). (k, gstr_of v)) (g_map fs ''Headers''),
     wo_MaxEarlyData = g_int fs ''MaxEarlyData'', wo_EarlyDataHeaderName = g_str fs ''EarlyDataHeaderName''\<rparr>"

definition vmess_schema :: "top_field list" where
  "vmess_schema = common_schema @ [Field ''UUID'' ''uuid'' KString, Field ''AlterID'' ''alterId,omitempty'' KInt,
     Field ''Cipher'' ''cipher,omitempty'' KString, Field ''UDP'' ''udp,omitempty'' KBool, Field ''Network'' ''network,omitempty'' KString,
     Field ''TLS'' ''tls,omitempty'' KBool, Field ''SkipCertVerify'' ''skip-cert-verify,omitempty'' KBool,
     Field ''ServerName'' ''servername,omitempty'' KString, Field ''HTTPOpts'' ''http-opts,omitempty'' (KStruct http_opts_fields),
     Field ''HTTP2Opts'' ''h2-opts,omitempty'' (KStruct h2_opts_fields), Field ''GrpcOpts'' ''grpc-opts,omitempty'' (KStruct grpc_opts_fields),
     Field ''WSOpts'' ''ws-opts,omitempty'' (KStruct ws_opts_fields)]"

text \<open>The default that \<open>ParseProxy\<close> sets.\<close>

definition vmess_default :: "(string \<times> gval) list" where
  "vmess_default = [(''HTTPOpts'', GStruct [(''Method'', GString ''GET''), (''Path'', GSlice [GString ''/'']), (''Headers'', GMap None)])]"

record vmess_option = basic_option +
  vo_UUID :: string
  vo_AlterID :: int
  vo_Cipher :: string
  vo_UDP :: bool
  vo_Network :: string
  vo_TLS :: bool
  vo_SkipCertVerify :: bool
  vo_ServerName :: string
  vo_HTTPMethod :: string
  vo_HTTPPath :: "string list"
  vo_HTTPHeaders :: "(string \<times> string list) list"
  vo_H2Host :: "string list"
  vo_H2Path :: string
  vo_GrpcServiceName :: string
  vo_WSOpts :: ws_options

definition read_vmess_option :: "(string \<times> gval) list \<Rightarrow> vmess_option" where
  "read_vmess_option fs = basic_option.extend (read_basic_option fs)
     (vmess_option.fields (g_str fs ''UUID'') (g_int fs ''AlterID'') (g_str fs ''Cipher'') (g_bool fs ''UDP'') (g_str fs ''Network'')
        (g_bool fs ''TLS'') (g_bool fs ''SkipCertVerify'') (g_str fs ''ServerName'')
        (g_str (g_struct fs ''HTTPOpts'') ''Method'') (g_strs (g_struct fs ''HTTPOpts'') ''Path'')
        (map (\<lambda>(k, v). (k, strs_of v)) (g_map (g_struct fs ''HTTPOpts'') ''Headers''))
        (g_strs (g_struct fs ''HTTP2Opts'') ''Host'') (g_str (g_struct fs ''HTTP2Opts'') ''Path'')
        (g_str (g_struct fs ''GrpcOpts'') ''GrpcServiceName'') (read_ws_options (g_struct fs ''WSOpts'')))"

definition snell_schema :: "top_field list" where
  "snell_schema = common_schema @ [Field ''Psk'' ''psk'' KString, Field ''UDP'' ''udp,omitempty'' KBool,
     Field ''Version'' ''version,omitempty'' KInt, Field ''ObfsOpts'' ''obfs-opts,omitempty'' (KMap KInterface)]"

record snell_option = basic_option +
  no_Psk :: string
  no_UDP :: bool
  no_Version :: int
  no_ObfsOpts :: "(string \<times> any_value) list"

definition read_snell_option :: "(string \<times> gval) list \<Rightarrow> snell_option" where
  "read_snell_option fs = basic_option.extend (read_basic_option fs)
     (snell_option.fields (g_str fs ''Psk'') (g_bool fs ''UDP'') (g_int fs ''Version'') (map (\<lambda>(k, v). (k, any_of v)) (g_map fs ''ObfsOpts'')))"

definition trojan_schema :: "top_field list" where
  "trojan_schema = common_schema @ [Field ''Password'' ''password'' KString, Field ''ALPN'' ''alpn,omitempty'' (KSlice KString),
     Field ''SNI'' ''sni,omitempty'' KString, Field ''SkipCertVerify'' ''skip-cert-verify,omitempty'' KBool,
     Field ''UDP'' ''udp,omitempty'' KBool, Field ''Network'' ''network,omitempty'' KString,
     Field ''GrpcOpts'' ''grpc-opts,omitempty'' (KStruct grpc_opts_fields), Field ''WSOpts'' ''ws-opts,omitempty'' (KStruct ws_opts_fields)]"

record trojan_option = basic_option +
  to_Password :: string
  to_ALPN :: "string list"
  to_SNI :: string
  to_SkipCertVerify :: bool
  to_UDP :: bool
  to_Network :: string
  to_GrpcServiceName :: string
  to_WSOpts :: ws_options

definition read_trojan_option :: "(string \<times> gval) list \<Rightarrow> trojan_option" where
  "read_trojan_option fs = basic_option.extend (read_basic_option fs)
     (trojan_option.fields (g_str fs ''Password'') (g_strs fs ''ALPN'') (g_str fs ''SNI'') (g_bool fs ''SkipCertVerify'') (g_bool fs ''UDP'')
        (g_str fs ''Network'') (g_str (g_struct fs ''GrpcOpts'') ''GrpcServiceName'') (read_ws_options (g_struct fs ''WSOpts'')))"

subsection \<open>What the proxies hold\<close>

text \<open>The types of adapters (\<open>constant/adapters.go\<close>).\<close>

datatype adapter_kind = KDirect | KReject | KShadowsocks | KShadowsocksR | KSnell | KSocks5 | KHttp | KVless | KVmess | KTrojan

record base_proxy =
  bp_name :: string
  bp_addr :: string
  bp_iface :: string
  bp_tp :: adapter_kind
  bp_udp :: bool
  bp_rmark :: int

definition DialOptions :: "base_proxy \<Rightarrow> option_fun list \<Rightarrow> option_fun list" where
  "DialOptions b opts =
     opts @ (if bp_iface b \<noteq> [] then [WithInterface (bp_iface b)] else []) @ (if bp_rmark b \<noteq> 0 then [WithRoutingMark (bp_rmark b)] else [])"

definition server_addr :: "'a basic_option_scheme \<Rightarrow> string" where
  "server_addr opt = JoinHostPort (op_Server opt) (int_dec (op_Port opt))"

definition new_base :: "'a basic_option_scheme \<Rightarrow> adapter_kind \<Rightarrow> bool \<Rightarrow> base_proxy" where
  "new_base opt tp udp = \<lparr>bp_name = op_Name opt, bp_addr = server_addr opt, bp_iface = op_Interface opt, bp_tp = tp, bp_udp = udp,
     bp_rmark = op_RoutingMark opt\<rparr>"

text \<open>
  What the program sets of \<open>tls.Config\<close>, without the versions, and \<open>http.Header\<close>: entries with keys in canonical form,
  each word with one capital, unless some character is not that of a token.
\<close>

record tls_config =
  tc_ServerName :: string
  tc_InsecureSkipVerify :: bool
  tc_NextProtos :: "string list"

type_synonym http_header = "(string \<times> string) list"

definition token_char :: "char \<Rightarrow> bool" where
  "token_char c \<longleftrightarrow> is_digit c \<or> lower c \<in> set ''abcdefghijklmnopqrstuvwxyz'' \<or> c \<in> set ''!#$%&*+-.^_|~'' \<or> c = CHR 0x27 \<or> c = CHR 0x60"

fun capitals :: "bool \<Rightarrow> string \<Rightarrow> string" where
  "capitals up [] = []"
| "capitals up (c # s) = hd ((if up then ToUpper else to_lower) [c]) # capitals (c = CHR ''-'') s"

definition CanonicalHeaderKey :: "string \<Rightarrow> string" where
  "CanonicalHeaderKey k = (if list_all token_char k then capitals True k else k)"

definition header_Add :: "http_header \<Rightarrow> string \<Rightarrow> string \<Rightarrow> http_header" where
  "header_Add h k v = h @ [(CanonicalHeaderKey k, v)]"

definition header_Get :: "http_header \<Rightarrow> string \<Rightarrow> string" where
  "header_Get h k = (case map_of h (CanonicalHeaderKey k) of Some v \<Rightarrow> v | None \<Rightarrow> [])"

definition headers_of :: "(string \<times> string) list \<Rightarrow> http_header" where
  "headers_of m = fold (\<lambda>(k, v) h. header_Add h k v) m []"

definition server_host :: "string \<Rightarrow> string" where
  "server_host a = (case SplitHostPort a of Some (h, p) \<Rightarrow> h | None \<Rightarrow> [])"

definition server_port :: "string \<Rightarrow> string" where
  "server_port a = (case SplitHostPort a of Some (h, p) \<Rightarrow> p | None \<Rightarrow> [])"

subsection \<open>Shadowsocks (shadowsocks.go)\<close>

record simple_obfs =
  po_Mode :: string
  po_Host :: string

definition simple_obfs_schema :: "top_field list" where
  "simple_obfs_schema = [Field ''Mode'' ''mode,omitempty'' KString, Field ''Host'' ''host,omitempty'' KString]"

definition decode_simple_obfs :: "(string \<times> any_value) list \<Rightarrow> simple_obfs decoded" where
  "decode_simple_obfs m =
     map_option (map_sum id (\<lambda>fs. \<lparr>po_Mode = g_str fs ''Mode'', po_Host = g_str fs ''Host''\<rparr>))
       (Decode True m simple_obfs_schema [(''Mode'', GString []), (''Host'', GString ''bing.com'')])"

record v2ray_option =
  v2_Host :: string
  v2_Port :: string
  v2_Path :: string
  v2_Headers :: "(string \<times> string) list"
  v2_TLS :: bool
  v2_SkipCertVerify :: bool
  v2_Mux :: bool

definition v2ray_schema :: "top_field list" where
  "v2ray_schema = [Field ''Mode'' ''mode'' KString, Field ''Host'' ''host,omitempty'' KString, Field ''Path'' ''path,omitempty'' KString,
     Field ''TLS'' ''tls,omitempty'' KBool, Field ''Headers'' ''headers,omitempty'' (KMap KString),
     Field ''SkipCertVerify'' ''skip-cert-verify,omitempty'' KBool, Field ''Mux'' ''mux,omitempty'' KBool]"

text \<open>The port of the plugin is never set.\<close>

definition decode_v2ray :: "(string \<times> any_value) list \<Rightarrow> (string \<times> v2ray_option) decoded" where
  "decode_v2ray m =
     map_option (map_sum id (\<lambda>fs. (g_str fs ''Mode'',
        \<lparr>v2_Host = g_str fs ''Host'', v2_Port = [], v2_Path = g_str fs ''Path'', v2_Headers = map (\<lambda>(k, v). (k, gstr_of v)) (g_map fs ''Headers''),
         v2_TLS = g_bool fs ''TLS'', v2_SkipCertVerify = g_bool fs ''TLS'' \<and> g_bool fs ''SkipCertVerify'', v2_Mux = g_bool fs ''Mux''\<rparr>)))
       (Decode True m v2ray_schema [(''Host'', GString ''bing.com''), (''Mux'', GBool True)])"

record 'k ss_proxy =
  ss_Base :: base_proxy
  ss_cipher :: "'k picked"
  ss_obfsMode :: string
  ss_obfsOption :: "simple_obfs option"
  ss_v2rayOption :: "v2ray_option option"

definition NewShadowSocks :: "('k, 'z) out_env_scheme \<Rightarrow> ss_option \<Rightarrow> (proxy_error + 'k ss_proxy) option" where
  "NewShadowSocks V opt =
     (case PickCipher (oe_K V) (oe_L V) (so_Cipher opt) [] (so_Password opt) of
        None \<Rightarrow> None
      | Some (Inl e) \<Rightarrow> Some (Inl (BadCipher e))
      | Some (Inr ciph) \<Rightarrow>
          let ss = \<lparr>ss_Base = new_base opt KShadowsocks (so_UDP opt), ss_cipher = ciph, ss_obfsMode = [], ss_obfsOption = None, ss_v2rayOption = None\<rparr> in
          if so_Plugin opt = ''obfs'' then
            (case decode_simple_obfs (so_PluginOpts opt) of
               None \<Rightarrow> None
             | Some (Inl e) \<Rightarrow> Some (Inl (BadOption e))
             | Some (Inr opts) \<Rightarrow>
                 if po_Mode opts \<noteq> ''tls'' \<and> po_Mode opts \<noteq> ''http'' then Some (Inl (BadMode (po_Mode opts)))
                 else Some (Inr (ss\<lparr>ss_obfsMode := po_Mode opts, ss_obfsOption := Some opts\<rparr>)))
          else if so_Plugin opt = ''v2ray-plugin'' then
            (case decode_v2ray (so_PluginOpts opt) of
               None \<Rightarrow> None
             | Some (Inl e) \<Rightarrow> Some (Inl (BadOption e))
             | Some (Inr (mode, v2)) \<Rightarrow>
                 if mode \<noteq> ''websocket'' then Some (Inl (BadMode mode))
                 else Some (Inr (ss\<lparr>ss_obfsMode := mode, ss_v2rayOption := Some v2\<rparr>)))
          else Some (Inr ss))"

subsection \<open>ShadowsocksR (shadowsocksr.go, obfs.go, protocol.go)\<close>

text \<open>What the registered names make; the disguise of tickets draws its client ID.\<close>

datatype ssr_obfs = Plain | RandomHead | HttpSimple bool obfs_base | Tls12Ticket obfs_base "u8 list"

definition PickObfs :: "string \<Rightarrow> obfs_base \<Rightarrow> rand_src \<Rightarrow> (ssr_obfs \<times> int) option \<times> rand_src" where
  "PickObfs name b r =
     (if name = ''plain'' then (Some (Plain, 0), r)
      else if name = ''random_head'' then (Some (RandomHead, 0), r)
      else if name = ''http_simple'' then (Some (HttpSimple False b, 0), r)
      else if name = ''http_post'' then (Some (HttpSimple True b, 0), r)
      else if name = ''tls1.2_ticket_auth'' \<or> name = ''tls1.2_ticket_fastauth'' then
        (case rand_bytes 32 r of (cid, r') \<Rightarrow> (Some (Tls12Ticket b cid, 5), r'))
      else (None, r))"

datatype ssr_protocol = Origin | AuthSHA1 auth_sha1 | AuthAES auth_aes128 | AuthChain auth_chain

definition PickProtocol :: "ssr_api \<Rightarrow> string \<Rightarrow> ssr_base \<Rightarrow> rand_src \<Rightarrow> ssr_protocol option \<times> rand_src" where
  "PickProtocol A name b r =
     (let more = (\<lambda>n. b\<lparr>sb_Overhead := sb_Overhead b + n\<rparr>) in
      if name = ''origin'' then (Some Origin, r)
      else if name = ''auth_sha1_v4'' then (Some (AuthSHA1 (newAuthSHA1V4 (more 7))), r)
      else if name = ''auth_aes128_md5'' then apfst (\<lambda>a. Some (AuthAES a)) (newAuthAES128MD5 A (more 9) r)
      else if name = ''auth_aes128_sha1'' then apfst (\<lambda>a. Some (AuthAES a)) (newAuthAES128SHA1 A (more 9) r)
      else if name = ''auth_chain_a'' then apfst (\<lambda>a. Some (AuthChain a)) (newAuthChainA (more 4) r)
      else if name = ''auth_chain_b'' then apfst (\<lambda>a. Some (AuthChain a)) (newAuthChainB (more 4) r)
      else (None, r))"

record 'k ssr_proxy =
  sr_Base :: base_proxy
  sr_cipher :: "'k picked"
  sr_obfs :: ssr_obfs
  sr_protocol :: ssr_protocol

definition ssr_key :: "('k, 'z) out_env_scheme \<Rightarrow> string \<Rightarrow> string \<Rightarrow> 'k picked \<Rightarrow> (proxy_error + nat \<times> u8 list) option" where
  "ssr_key V cipher password ciph =
     (if cipher = ''dummy'' then map_option (\<lambda>k. Inr (0, k)) (Kdf (cr_md5 (oe_L V)) password 16)
      else case ciph of StreamCipher c k \<Rightarrow> Some (Inr (sc_IVSize c, k)) | _ \<Rightarrow> Some (Inl NotAStream))"

definition NewShadowSocksR :: "('k, 'z) out_env_scheme \<Rightarrow> ssr_option \<Rightarrow> rand_src \<Rightarrow> ((proxy_error + 'k ssr_proxy) \<times> rand_src) option" where
  "NewShadowSocksR V opt r =
     (let cipher = (if ro_Cipher opt = ''none'' then ''dummy'' else ro_Cipher opt) in
      case PickCipher (oe_K V) (oe_L V) cipher [] (ro_Password opt) of
        None \<Rightarrow> None
      | Some (Inl e) \<Rightarrow> Some (Inl (BadCipher e), r)
      | Some (Inr ciph) \<Rightarrow>
          (case ssr_key V cipher (ro_Password opt) ciph of
             None \<Rightarrow> None
           | Some (Inl e) \<Rightarrow> Some (Inl e, r)
           | Some (Inr (ivSize, key)) \<Rightarrow>
               (case PickObfs (ro_Obfs opt) \<lparr>ob_Host = op_Server opt, ob_Port = nat (op_Port opt), ob_Key = key, ob_IVSize = ivSize,
                   ob_Param = ro_ObfsParam opt\<rparr> r of
                  (None, r1) \<Rightarrow> Some (Inl (BadObfs (ro_Obfs opt)), r1)
                | (Some (obfs, overhead), r1) \<Rightarrow>
                    (case PickProtocol (oe_A V) (ro_Protocol opt) \<lparr>sb_Key = key, sb_Overhead = overhead, sb_Param = ro_ProtocolParam opt\<rparr> r1 of
                       (None, r2) \<Rightarrow> Some (Inl (BadProtocol (ro_Protocol opt)), r2)
                     | (Some protocol, r2) \<Rightarrow>
                         Some (Inr \<lparr>sr_Base = new_base opt KShadowsocksR (ro_UDP opt), sr_cipher = ciph, sr_obfs = obfs, sr_protocol = protocol\<rparr>, r2)))))"

subsection \<open>SOCKS 5 and HTTP (socks5.go, http.go)\<close>

record socks_proxy =
  sk_Base :: base_proxy
  sk_user :: string
  sk_pass :: string
  sk_tlsConfig :: "tls_config option"

definition NewSocks5 :: "socks_option \<Rightarrow> socks_proxy" where
  "NewSocks5 opt =
     \<lparr>sk_Base = new_base opt KSocks5 (ko_UDP opt), sk_user = ko_UserName opt, sk_pass = ko_Password opt,
      sk_tlsConfig = (if ko_TLS opt then Some \<lparr>tc_ServerName = op_Server opt, tc_InsecureSkipVerify = ko_SkipCertVerify opt, tc_NextProtos = []\<rparr> else None)\<rparr>"

record http_proxy =
  hp_Base :: base_proxy
  hp_user :: string
  hp_pass :: string
  hp_tlsConfig :: "tls_config option"
  hp_Headers :: http_header

definition NewHttp :: "http_option \<Rightarrow> http_proxy" where
  "NewHttp opt =
     \<lparr>hp_Base = new_base opt KHttp False, hp_user = ho_UserName opt, hp_pass = ho_Password opt,
      hp_tlsConfig = (if ho_TLS opt then Some \<lparr>tc_ServerName = (if ho_SNI opt \<noteq> [] then ho_SNI opt else op_Server opt),
          tc_InsecureSkipVerify = ho_SkipCertVerify opt, tc_NextProtos = []\<rparr> else None),
      hp_Headers = headers_of (ho_Headers opt)\<rparr>"

subsection \<open>VMess and VLESS (vmess.go, vless.go)\<close>

record gun_config =
  gc_ServiceName :: string
  gc_Host :: string

record vmess_proxy =
  vp_Base :: base_proxy
  vp_client :: vmess_client
  vp_option :: vmess_option
  vp_gun :: "(tls_config \<times> gun_config) option"

definition newVmess :: "('k, 'z) out_env_scheme \<Rightarrow> vmess_option \<Rightarrow> bool \<Rightarrow> (proxy_error + vmess_proxy) option" where
  "newVmess V opt isVless =
     (let security = (if to_lower (vo_Cipher opt) = [] then ''auto'' else to_lower (vo_Cipher opt)) in
      case Vmess_NewClient (oe_VK V) (oe_FromString V) (oe_goarch V)
          \<lparr>vg_UUID = vo_UUID opt, vg_AlterID = of_int (vo_AlterID opt), vg_Security = security, vg_IsAead = (vo_AlterID opt = 0), vg_IsVless = isVless\<rparr> of
        None \<Rightarrow> None
      | Some (Inl e) \<Rightarrow> Some (Inl (BadClient e))
      | Some (Inr client) \<Rightarrow>
          if vo_Network opt \<in> {''h2'', ''grpc''} \<and> \<not> vo_TLS opt then Some (Inl NeedsTLS)
          else
            let host = (if vo_ServerName opt = [] then server_host (server_addr opt) else vo_ServerName opt) in
            Some (Inr \<lparr>vp_Base = new_base opt (if isVless then KVless else KVmess) (vo_UDP opt), vp_client = client,
              vp_option = (if vo_Network opt = ''h2'' \<and> vo_H2Host opt = [] then opt\<lparr>vo_H2Host := [''www.example.com'']\<rparr> else opt),
              vp_gun = (if vo_Network opt = ''grpc''
                 then Some (\<lparr>tc_ServerName = host, tc_InsecureSkipVerify = vo_SkipCertVerify opt, tc_NextProtos = []\<rparr>,
                   \<lparr>gc_ServiceName = vo_GrpcServiceName opt, gc_Host = host\<rparr>) else None)\<rparr>))"

definition NewVmess :: "('k, 'z) out_env_scheme \<Rightarrow> vmess_option \<Rightarrow> (proxy_error + vmess_proxy) option" where
  "NewVmess V opt = newVmess V opt False"

definition NewVless :: "('k, 'z) out_env_scheme \<Rightarrow> vmess_option \<Rightarrow> (proxy_error + vmess_proxy) option" where
  "NewVless V opt = newVmess V opt True"

subsection \<open>Snell (snell.go)\<close>

text \<open>The pool exists for version 2 only.\<close>

record snell_proxy =
  sn_Base :: base_proxy
  sn_psk :: "u8 list"
  sn_pool :: bool
  sn_obfsOption :: simple_obfs
  sn_version :: int

definition NewSnell :: "snell_option \<Rightarrow> (proxy_error + snell_proxy) option" where
  "NewSnell opt =
     (case decode_simple_obfs (no_ObfsOpts opt) of
        None \<Rightarrow> None
      | Some (Inl e) \<Rightarrow> Some (Inl (BadOption e))
      | Some (Inr obfs) \<Rightarrow>
          if po_Mode obfs \<notin> {''tls'', ''http'', []} then Some (Inl (BadMode (po_Mode obfs)))
          else
            let version = (if no_Version opt = 0 then 1 else no_Version opt) in
            if version \<in> {1, 2} \<and> no_UDP opt then Some (Inl (NoUDP version))
            else if version \<notin> {1, 2, 3} then Some (Inl (BadVersion version))
            else Some (Inr \<lparr>sn_Base = new_base opt KSnell (no_UDP opt), sn_psk = bytes_of (no_Psk opt), sn_pool = (version = 2),
              sn_obfsOption = obfs, sn_version = version\<rparr>))"

subsection \<open>Trojan (trojan.go)\<close>

record trojan_proxy =
  tp_Base :: base_proxy
  tp_instance :: trojan
  tp_ServerName :: string
  tp_option :: trojan_option
  tp_gun :: "(tls_config \<times> gun_config) option"

definition NewTrojan :: "('k, 'z) out_env_scheme \<Rightarrow> trojan_option \<Rightarrow> trojan_proxy" where
  "NewTrojan V opt =
     (let name = (if to_SNI opt \<noteq> [] then to_SNI opt else op_Server opt) in
      \<lparr>tp_Base = new_base opt KTrojan (to_UDP opt), tp_instance = Trojan_New (oe_sha224 V) (to_Password opt), tp_ServerName = name, tp_option = opt,
       tp_gun = (if to_Network opt = ''grpc''
          then Some (\<lparr>tc_ServerName = name, tc_InsecureSkipVerify = to_SkipCertVerify opt, tc_NextProtos = to_ALPN opt\<rparr>,
            \<lparr>gc_ServiceName = to_GrpcServiceName opt, gc_Host = name\<rparr>) else None)\<rparr>)"

subsection \<open>\<open>ParseProxy\<close> (parser.go)\<close>

datatype 'k adapter =
    DirectAdapter | RejectAdapter | SsAdapter "'k ss_proxy" | SsrAdapter "'k ssr_proxy" | SocksAdapter socks_proxy | HttpAdapter http_proxy
  | VmessAdapter vmess_proxy | SnellAdapter snell_proxy | TrojanAdapter trojan_proxy

definition direct_base :: base_proxy where
  "direct_base = \<lparr>bp_name = ''DIRECT'', bp_addr = [], bp_iface = [], bp_tp = KDirect, bp_udp = True, bp_rmark = 0\<rparr>"

definition reject_base :: base_proxy where
  "reject_base = \<lparr>bp_name = ''REJECT'', bp_addr = [], bp_iface = [], bp_tp = KReject, bp_udp = True, bp_rmark = 0\<rparr>"

fun adapter_base :: "'k adapter \<Rightarrow> base_proxy" where
  "adapter_base DirectAdapter = direct_base"
| "adapter_base RejectAdapter = reject_base"
| "adapter_base (SsAdapter p) = ss_Base p"
| "adapter_base (SsrAdapter p) = sr_Base p"
| "adapter_base (SocksAdapter p) = sk_Base p"
| "adapter_base (HttpAdapter p) = hp_Base p"
| "adapter_base (VmessAdapter p) = vp_Base p"
| "adapter_base (SnellAdapter p) = sn_Base p"
| "adapter_base (TrojanAdapter p) = tp_Base p"

text \<open>Decoding into the options \<open>dst\<close>, and what to do with them.\<close>

definition with_options ::
  "(string \<times> any_value) list \<Rightarrow> top_field list \<Rightarrow> (string \<times> gval) list \<Rightarrow> ((string \<times> gval) list \<Rightarrow> (proxy_error + 'a) option) \<Rightarrow> (proxy_error + 'a) option" where
  "with_options m schema dst f =
     (case Decode True m schema dst of None \<Rightarrow> None | Some (Inl e) \<Rightarrow> Some (Inl (BadOption e)) | Some (Inr fs) \<Rightarrow> f fs)"

definition ParseProxy :: "('k, 'z) out_env_scheme \<Rightarrow> rand_src \<Rightarrow> (string \<times> any_value) list \<Rightarrow> (proxy_error + 'k adapter) option" where
  "ParseProxy V r m =
     (case map_of m ''type'' of
        Some (VString t) \<Rightarrow>
          if t = ''ss'' then with_options m ss_schema [] (\<lambda>fs. map_option (map_sum id SsAdapter) (NewShadowSocks V (read_ss_option fs)))
          else if t = ''ssr'' then
            with_options m ssr_schema [] (\<lambda>fs. map_option (\<lambda>(x, r'). map_sum id SsrAdapter x) (NewShadowSocksR V (read_ssr_option fs) r))
          else if t = ''socks5'' then with_options m socks_schema [] (\<lambda>fs. Some (Inr (SocksAdapter (NewSocks5 (read_socks_option fs)))))
          else if t = ''http'' then with_options m http_schema [] (\<lambda>fs. Some (Inr (HttpAdapter (NewHttp (read_http_option fs)))))
          else if t = ''vless'' then
            with_options m vmess_schema vmess_default (\<lambda>fs. map_option (map_sum id VmessAdapter) (NewVless V (read_vmess_option fs)))
          else if t = ''vmess'' then
            with_options m vmess_schema vmess_default (\<lambda>fs. map_option (map_sum id VmessAdapter) (NewVmess V (read_vmess_option fs)))
          else if t = ''snell'' then with_options m snell_schema [] (\<lambda>fs. map_option (map_sum id SnellAdapter) (NewSnell (read_snell_option fs)))
          else if t = ''trojan'' then with_options m trojan_schema [] (\<lambda>fs. Some (Inr (TrojanAdapter (NewTrojan V (read_trojan_option fs)))))
          else Some (Inl (Unsupported t))
      | _ \<Rightarrow> Some (Inl MissingType))"

end
