(* ===== verification/Base64.thy ===== *)
theory Base64
  imports NetIO
begin

text \<open>
  \<open>encoding/base64\<close> of the Go standard library: the standard alphabet with padding and the one for URLs without, as the HTTP
  adapter and the early data of WebSockets use them, and the decoding of the latter.
\<close>

definition std_alphabet :: string where
  "std_alphabet = ''ABCDEFGHIJKLMNOPQRSTUVWXYZabcdefghijklmnopqrstuvwxyz0123456789+/''"

definition url_alphabet :: string where
  "url_alphabet = ''ABCDEFGHIJKLMNOPQRSTUVWXYZabcdefghijklmnopqrstuvwxyz0123456789-_''"

text \<open>Three bytes are four letters; what is left over are two letters or three, with padding if there is some.\<close>

fun base64_encode :: "string \<Rightarrow> string \<Rightarrow> u8 list \<Rightarrow> string" where
  "base64_encode al pad [] = []"
| "base64_encode al pad [a] = [al ! (unat a div 4), al ! (unat a mod 4 * 16)] @ pad @ pad"
| "base64_encode al pad [a, b] =
     [al ! (unat a div 4), al ! (unat a mod 4 * 16 + unat b div 16), al ! (unat b mod 16 * 4)] @ pad"
| "base64_encode al pad (a # b # c # r) =
     [al ! (unat a div 4), al ! (unat a mod 4 * 16 + unat b div 16), al ! (unat b mod 16 * 4 + unat c div 64), al ! (unat c mod 64)] @
     base64_encode al pad r"

definition StdEncoding :: "u8 list \<Rightarrow> string" where
  "StdEncoding = base64_encode std_alphabet ''=''"

definition RawURLEncoding :: "u8 list \<Rightarrow> string" where
  "RawURLEncoding = base64_encode url_alphabet []"

fun letter_index :: "string \<Rightarrow> char \<Rightarrow> nat option" where
  "letter_index [] c = None"
| "letter_index (d # al) c = (if c = d then Some 0 else map_option Suc (letter_index al c))"

text \<open>Decoding without padding; what the last letter has beyond the last byte is dropped.\<close>

fun base64_decode :: "string \<Rightarrow> string \<Rightarrow> u8 list option" where
  "base64_decode al [] = Some []"
| "base64_decode al [p] = None"
| "base64_decode al [p, q] =
     (case (letter_index al p, letter_index al q) of
        (Some i, Some j) \<Rightarrow> Some [of_nat (i * 4 + j div 16)] | _ \<Rightarrow> None)"
| "base64_decode al [p, q, s] =
     (case (letter_index al p, letter_index al q, letter_index al s) of
        (Some i, Some j, Some k) \<Rightarrow> Some [of_nat (i * 4 + j div 16), of_nat (j mod 16 * 16 + k div 4)] | _ \<Rightarrow> None)"
| "base64_decode al (p # q # s # t # r) =
     (case (letter_index al p, letter_index al q, letter_index al s, letter_index al t, base64_decode al r) of
        (Some i, Some j, Some k, Some l, Some bs) \<Rightarrow>
          Some (of_nat (i * 4 + j div 16) # of_nat (j mod 16 * 16 + k div 4) # of_nat (k mod 4 * 64 + l) # bs)
      | _ \<Rightarrow> None)"

lemma letter_index_nth: "distinct al \<Longrightarrow> i < length al \<Longrightarrow> letter_index al (al ! i) = Some i"
proof (induction al arbitrary: i)
  case (Cons d al)
  then show ?case by (cases i) (auto simp: nth_mem)
qed simp

lemma sextet:
  "unat (a :: u8) div 4 < 64" "unat a mod 4 * 16 < 64" "unat a mod 16 * 4 < 64" "unat a mod 64 < 64"
  using u8_less[of a] by auto

lemma sextet_pair:
  "unat (a :: u8) mod 4 * 16 + unat (b :: u8) div 16 < 64" "unat a mod 16 * 4 + unat b div 64 < 64"
  using u8_less[of b] by auto

lemma base64_roundtrip:
  assumes "distinct al" and "length al = 64"
  shows "base64_decode al (base64_encode al [] bs) = Some bs"
  using assms
proof (induction al "[] :: string" bs rule: base64_encode.induct)
  case (2 al a)
  then show ?case using 2 sextet[of a] by (simp add: letter_index_nth)
next
  case (3 al a b)
  have "unat a div 4 * 4 + (unat a mod 4 * 16 + unat b div 16) div 16 = unat a" using u8_less[of b] by simp
  moreover have "(unat a mod 4 * 16 + unat b div 16) mod 16 * 16 + unat b mod 16 * 4 div 4 = unat b" using u8_less[of b] by simp
  ultimately show ?case using 3 sextet[of a] sextet[of b] sextet_pair[of a b] by (simp add: letter_index_nth del: mult_Suc_right)
next
  case (4 al a b c r)
  have "unat a div 4 * 4 + (unat a mod 4 * 16 + unat b div 16) div 16 = unat a" using u8_less[of b] by simp
  moreover have "(unat a mod 4 * 16 + unat b div 16) mod 16 * 16 + (unat b mod 16 * 4 + unat c div 64) div 4 = unat b"
    using u8_less[of b] u8_less[of c] by simp
  moreover have "(unat b mod 16 * 4 + unat c div 64) mod 4 * 64 + unat c mod 64 = unat c" using u8_less[of c] by simp
  ultimately show ?case using 4 sextet[of a] sextet[of c] sextet_pair[of a b] sextet_pair[of b c] by (simp add: letter_index_nth)
qed simp

lemma RawURL_decodes: "base64_decode url_alphabet (RawURLEncoding bs) = Some bs"
  unfolding RawURLEncoding_def by (rule base64_roundtrip) (simp_all add: url_alphabet_def)

end
