(* ===== verification/OutDial.thy ===== *)
theory OutDial
  imports Outbound Base64 Gun
begin

text \<open>
  Dialling through a proxy (\<open>src/pkg/clash/adapter/outbound/\<close>): \<open>StreamConn\<close>, \<open>DialContext\<close> and \<open>ListenPacketContext\<close> of every
  adapter. A connection is its number with the layers put on it, the outermost last; the world is what is open and what was
  done. How dials and handshakes end, what the other side sends and which writes succeed is an environment, which may
  depend on all that was done before. What is talked in clear inside the layers runs the protocol functions on the bytes
  that the other side sends.
\<close>

subsection \<open>Layers and connections\<close>

record ws_config =
  wc_Host :: string
  wc_Port :: string
  wc_Path :: string
  wc_Headers :: http_header
  wc_TLSConfig :: "tls_config option"
  wc_MaxEarlyData :: int
  wc_EarlyDataHeaderName :: string

datatype 'k layer =
    TlsObfsLayer string | HttpObfsLayer string string | WsLayer ws_config | EarlyWsLayer ws_config | MuxLayer | CipherLayer "'k picked"
  | SsrObfsLayer ssr_obfs | SsrProtocolLayer ssr_protocol "u8 list" | TlsLayer tls_config
  | HttpLayer string string "string list" "(string \<times> string list) list" | H2Layer "string list" string | GunLayer "tls_config option" gun_config
  | VmessLayer vmess_client vmess_dst | SnellLayer "u8 list" int

datatype 'k conn = Conn (conn_id: nat) (layers: "'k layer list")

definition wrapped :: "'k layer \<Rightarrow> 'k conn \<Rightarrow> 'k conn" where
  "wrapped l c = Conn (conn_id c) (layers c @ [l])"

datatype 'k net_event =
    Dialled string string "option_fun list" | Listened "option_fun list" | GunStream gun_config | PoolTaken nat
  | Layered "'k conn" "'k layer" | Talked "'k conn" "u8 list" | Connected "'k conn" string http_header | SplicedTo nat nat | Closed nat

record 'k net =
  nt_next :: nat
  nt_open :: "nat set"
  nt_pool :: "'k conn idle_pool"
  nt_events :: "'k net_event list"

datatype out_error =
    OutNet string | OutIO io_error | NoSupport | InvalidConnectionType | BadBindAddr | NeedAuth | MethodNotAllowed | BadStatus nat | CantResolveIP
  | ErrUnsupportVersion | BadServerAddr

text \<open>
  The answers of the network: how an event ends, what the other side of a connection sends and which writes to it succeed,
  the status of an HTTP answer, the initial vector that is drawn and the time. \<open>ne_ResolveIP\<close> is \<open>resolver.ResolveIP\<close>; \<open>ne_early\<close>
  is the number that the query parameter \<open>ed\<close> of a path holds, with the path without it.
\<close>

record 'k net_env =
  ne_B :: protobytes
  ne_fails :: "'k net_event list \<Rightarrow> 'k net_event \<Rightarrow> string option"
  ne_peer :: "'k net_event list \<Rightarrow> 'k conn \<Rightarrow> u8 list"
  ne_writes :: "'k net_event list \<Rightarrow> 'k conn \<Rightarrow> nat option"
  ne_status :: "'k net_event list \<Rightarrow> 'k conn \<Rightarrow> string + nat"
  ne_iv :: "'k net_event list \<Rightarrow> 'k conn \<Rightarrow> u8 list"
  ne_now :: "'k net_event list \<Rightarrow> int"
  ne_ResolveIP :: "string \<Rightarrow> string + go_ip"
  ne_early :: "string \<Rightarrow> (int \<times> string) option"

type_synonym ('k, 'a) dialling = "('k net, out_error, 'a) comp"

definition did :: "'k net_event \<Rightarrow> 'k net \<Rightarrow> 'k net" where
  "did ev w = w\<lparr>nt_events := nt_events w @ [ev]\<rparr>"

definition net_attempt :: "'k net_env \<Rightarrow> 'k net_event \<Rightarrow> ('k, unit) dialling" where
  "net_attempt E ev w = (case ne_fails E (nt_events w) ev of Some e \<Rightarrow> (Inl (OutNet e), did ev w) | None \<Rightarrow> (Inr (), did ev w))"

definition new_conn :: "('k, 'k conn) dialling" where
  "new_conn w = (Inr (Conn (nt_next w) []), w\<lparr>nt_next := Suc (nt_next w), nt_open := insert (nt_next w) (nt_open w)\<rparr>)"

definition dial :: "'k net_env \<Rightarrow> string \<Rightarrow> option_fun list \<Rightarrow> ('k, 'k conn) dialling" where
  "dial E addr opts = io_bind (net_attempt E (Dialled ''tcp'' addr opts)) (\<lambda>_. new_conn)"

definition listen :: "'k net_env \<Rightarrow> option_fun list \<Rightarrow> ('k, 'k conn) dialling" where
  "listen E opts = io_bind (net_attempt E (Listened opts)) (\<lambda>_. new_conn)"

text \<open>A layer with a handshake; a layer without one is \<open>wrapped\<close>.\<close>

definition handshake :: "'k net_env \<Rightarrow> 'k layer \<Rightarrow> 'k conn \<Rightarrow> ('k, 'k conn) dialling" where
  "handshake E l c = io_bind (net_attempt E (Layered c l)) (\<lambda>_. io_ret (wrapped l c))"

definition talk :: "'k net_env \<Rightarrow> 'k conn \<Rightarrow> 'a io \<Rightarrow> ('k, 'a) dialling" where
  "talk E c m w =
     (case m \<lparr>c_in = ne_peer E (nt_events w) c, c_out = [], c_writes = ne_writes E (nt_events w) c\<rparr> of
        (r, s) \<Rightarrow> (map_sum OutIO id r, did (Talked c (c_out s)) w))"

text \<open>What is spliced to a connection, by a goroutine that waits for its end, is closed with it.\<close>

fun spliced :: "nat \<Rightarrow> 'k net_event list \<Rightarrow> nat list" where
  "spliced i [] = []"
| "spliced i (ev # evs) = (case ev of SplicedTo j pc \<Rightarrow> if i = j then pc # spliced i evs else spliced i evs | _ \<Rightarrow> spliced i evs)"

definition close_net :: "nat \<Rightarrow> 'k net \<Rightarrow> 'k net" where
  "close_net i w = did (Closed i) (w\<lparr>nt_open := nt_open w - {i} - set (spliced i (nt_events w))\<rparr>)"

text \<open>\<open>safeConnClose\<close>, deferred: it closes the connection when the function ends with an error.\<close>

definition safely :: "'k conn \<Rightarrow> ('k, 'a) dialling \<Rightarrow> ('k, 'a) dialling" where
  "safely c m w = (case m w of (Inl e, w') \<Rightarrow> (Inl e, close_net (conn_id c) w') | (Inr x, w') \<Rightarrow> (Inr x, w'))"

text \<open>
  A stream over the HTTP/2 transport of a proxy: nothing fails yet, for the request is made by another goroutine; and
  over a given connection.
\<close>

definition StreamGunWithTransport :: "gun_config \<Rightarrow> ('k, 'k conn) dialling" where
  "StreamGunWithTransport cfg w = (case new_conn w of (r, w') \<Rightarrow> (map_sum id (wrapped (GunLayer None cfg)) r, did (GunStream cfg) w'))"

definition StreamGunWithConn :: "'k conn \<Rightarrow> tls_config \<Rightarrow> gun_config \<Rightarrow> ('k, 'k conn) dialling" where
  "StreamGunWithConn c tls cfg = io_ret (wrapped (GunLayer (Some tls) cfg) c)"

text \<open>
  \<open>StreamWebsocketConn\<close> of the package \<open>vmess\<close>: the parameter \<open>ed\<close> of the path sets the size of the early data and is taken
  out; with early data the handshake waits for the first write.
\<close>

definition StreamWebsocketConn :: "'k net_env \<Rightarrow> 'k conn \<Rightarrow> ws_config \<Rightarrow> ('k, 'k conn) dialling" where
  "StreamWebsocketConn E c cfg0 =
     (let cfg = (case ne_early E (wc_Path cfg0) of
            Some (ed, path) \<Rightarrow> cfg0\<lparr>wc_MaxEarlyData := ed, wc_EarlyDataHeaderName := ''Sec-WebSocket-Protocol'', wc_Path := path\<rparr>
          | None \<Rightarrow> cfg0) in
      if 0 < wc_MaxEarlyData cfg then io_ret (wrapped (EarlyWsLayer cfg) c) else handshake E (WsLayer cfg) c)"

text \<open>A DNS lookup of the server, for packets.\<close>

definition resolveUDPAddr :: "'k net_env \<Rightarrow> string \<Rightarrow> out_error + (go_ip \<times> nat)" where
  "resolveUDPAddr E address =
     (case SplitHostPort address of
        None \<Rightarrow> Inl BadServerAddr
      | Some (host, port) \<Rightarrow>
          (case ne_ResolveIP E host of
             Inl e \<Rightarrow> Inl (OutNet e)
           | Inr ip \<Rightarrow> if port \<noteq> [] \<and> list_all is_digit port \<and> dec_nat port < 65536 then Inr (ip, dec_nat port) else Inl BadServerAddr))"

subsection \<open>Shadowsocks\<close>

definition NewV2rayObfs :: "'k net_env \<Rightarrow> 'k conn \<Rightarrow> v2ray_option \<Rightarrow> ('k, 'k conn) dialling" where
  "NewV2rayObfs E c opt =
     (let header = headers_of (v2_Headers opt);
          name = (if header_Get header ''Host'' \<noteq> [] then header_Get header ''Host'' else v2_Host opt) in
      io_bind (StreamWebsocketConn E c
        \<lparr>wc_Host = v2_Host opt, wc_Port = v2_Port opt, wc_Path = v2_Path opt, wc_Headers = header,
         wc_TLSConfig = (if v2_TLS opt
            then Some \<lparr>tc_ServerName = name, tc_InsecureSkipVerify = v2_SkipCertVerify opt, tc_NextProtos = [''http/1.1'']\<rparr> else None),
         wc_MaxEarlyData = 0, wc_EarlyDataHeaderName = []\<rparr>)
        (\<lambda>c. io_ret (if v2_Mux opt then wrapped MuxLayer c else c)))"

text \<open>The dummy cipher leaves a connection as it is.\<close>

definition ciphered :: "'k picked \<Rightarrow> 'k conn \<Rightarrow> 'k conn" where
  "ciphered ci c = (case ci of Dummy \<Rightarrow> c | _ \<Rightarrow> wrapped (CipherLayer ci) c)"

definition ss_StreamConn :: "'k net_env \<Rightarrow> 'k ss_proxy \<Rightarrow> metadata \<Rightarrow> 'k conn \<Rightarrow> ('k, 'k conn) dialling" where
  "ss_StreamConn E ss m c =
     io_bind
       (if ss_obfsMode ss = ''tls'' then io_ret (wrapped (TlsObfsLayer (po_Host (the (ss_obfsOption ss)))) c)
        else if ss_obfsMode ss = ''http'' then
          io_ret (wrapped (HttpObfsLayer (po_Host (the (ss_obfsOption ss))) (server_port (bp_addr (ss_Base ss)))) c)
        else if ss_obfsMode ss = ''websocket'' then NewV2rayObfs E c (the (ss_v2rayOption ss))
        else io_ret c) (\<lambda>c.
     let c = ciphered (ss_cipher ss) c in
     io_bind (talk E c (conn_Write (serializesSocksAddr (ne_B E) m))) (\<lambda>_. io_ret c))"

subsection \<open>ShadowsocksR\<close>

definition ssr_StreamConn :: "'k net_env \<Rightarrow> 'k ssr_proxy \<Rightarrow> metadata \<Rightarrow> 'k conn \<Rightarrow> ('k, 'k conn) dialling" where
  "ssr_StreamConn E p m c0 =
     (let c = (case sr_obfs p of Plain \<Rightarrow> c0 | ob \<Rightarrow> wrapped (SsrObfsLayer ob) c0);
          c1 = ciphered (sr_cipher p) c in
      io_bind
        (case sr_cipher p of
           Dummy \<Rightarrow> io_ret []
         | AeadCipher _ _ \<Rightarrow> io_fail InvalidConnectionType
         | StreamCipher _ _ \<Rightarrow> \<lambda>w. io_bind (talk E c (conn_Write (ne_iv E (nt_events w) c))) (\<lambda>_. io_ret (ne_iv E (nt_events w) c)) w) (\<lambda>iv.
      let c2 = (case sr_protocol p of Origin \<Rightarrow> c1 | pr \<Rightarrow> wrapped (SsrProtocolLayer pr iv) c1) in
      io_bind (talk E c2 (conn_Write (serializesSocksAddr (ne_B E) m))) (\<lambda>_. io_ret c2)))"

subsection \<open>SOCKS 5\<close>

definition socks_tls :: "'k net_env \<Rightarrow> socks_proxy \<Rightarrow> 'k conn \<Rightarrow> ('k, 'k conn) dialling" where
  "socks_tls E p c = (case sk_tlsConfig p of Some cfg \<Rightarrow> handshake E (TlsLayer cfg) c | None \<Rightarrow> io_ret c)"

definition socks_user_of :: "socks_proxy \<Rightarrow> socks_user option" where
  "socks_user_of p = (if sk_user p \<noteq> [] then Some \<lparr>Username = sk_user p, Password = sk_pass p\<rparr> else None)"

definition socks_StreamConn :: "'k net_env \<Rightarrow> socks_proxy \<Rightarrow> metadata \<Rightarrow> 'k conn \<Rightarrow> ('k, 'k conn) dialling" where
  "socks_StreamConn E p m c =
     io_bind (socks_tls E p c) (\<lambda>c.
     io_bind (talk E c (ClientHandshake (ne_B E) (serializesSocksAddr (ne_B E) m) CmdConnect (socks_user_of p))) (\<lambda>_. io_ret c))"

subsection \<open>HTTP\<close>

definition shakeHand :: "'k net_env \<Rightarrow> http_proxy \<Rightarrow> metadata \<Rightarrow> 'k conn \<Rightarrow> ('k, unit) dialling" where
  "shakeHand E p m c =
     (let h1 = header_Add (hp_Headers p) ''Proxy-Connection'' ''Keep-Alive'';
          h2 = (if hp_user p \<noteq> [] \<and> hp_pass p \<noteq> []
             then header_Add h1 ''Proxy-Authorization'' (''Basic '' @ StdEncoding (bytes_of (hp_user p @ '':'' @ hp_pass p))) else h1) in
      io_bind (net_attempt E (Connected c (RemoteAddress m) h2)) (\<lambda>_ w.
      (case ne_status E (nt_events w) c of
         Inl e \<Rightarrow> io_fail (OutNet e)
       | Inr st \<Rightarrow>
           if st = 200 then io_ret ()
           else if st = 407 then io_fail NeedAuth
           else if st = 405 then io_fail MethodNotAllowed
           else io_fail (BadStatus st)) w))"

definition http_StreamConn :: "'k net_env \<Rightarrow> http_proxy \<Rightarrow> metadata \<Rightarrow> 'k conn \<Rightarrow> ('k, 'k conn) dialling" where
  "http_StreamConn E p m c =
     io_bind (case hp_tlsConfig p of Some cfg \<Rightarrow> handshake E (TlsLayer cfg) c | None \<Rightarrow> io_ret c) (\<lambda>c.
     io_bind (shakeHand E p m c) (\<lambda>_. io_ret c))"

subsection \<open>VMess and VLESS\<close>

definition vmess_tls :: "vmess_option \<Rightarrow> string \<Rightarrow> string list \<Rightarrow> tls_config" where
  "vmess_tls opt addr protos = \<lparr>tc_ServerName = (if vo_ServerName opt \<noteq> [] then vo_ServerName opt else server_host addr),
     tc_InsecureSkipVerify = vo_SkipCertVerify opt, tc_NextProtos = protos\<rparr>"

definition vmess_ws :: "vmess_option \<Rightarrow> string \<Rightarrow> ws_config" where
  "vmess_ws opt addr =
     (let header = headers_of (wo_Headers (vo_WSOpts opt));
          name = (if vo_ServerName opt \<noteq> [] then vo_ServerName opt else if header_Get header ''Host'' \<noteq> [] then header_Get header ''Host'' else server_host addr) in
      \<lparr>wc_Host = server_host addr, wc_Port = server_port addr, wc_Path = wo_Path (vo_WSOpts opt), wc_Headers = header,
       wc_TLSConfig = (if vo_TLS opt
          then Some \<lparr>tc_ServerName = name, tc_InsecureSkipVerify = vo_SkipCertVerify opt, tc_NextProtos = [''http/1.1'']\<rparr> else None),
       wc_MaxEarlyData = wo_MaxEarlyData (vo_WSOpts opt), wc_EarlyDataHeaderName = wo_EarlyDataHeaderName (vo_WSOpts opt)\<rparr>)"

definition vmess_StreamConn :: "'k net_env \<Rightarrow> vmess_proxy \<Rightarrow> metadata \<Rightarrow> 'k conn \<Rightarrow> ('k, 'k conn) dialling" where
  "vmess_StreamConn E p m c =
     (let opt = vp_option p; addr = bp_addr (vp_Base p) in
      io_bind
        (if vo_Network opt = ''ws'' then StreamWebsocketConn E c (vmess_ws opt addr)
         else if vo_Network opt = ''http'' then
           io_bind (if vo_TLS opt then handshake E (TlsLayer (vmess_tls opt addr [])) c else io_ret c) (\<lambda>c.
           io_ret (wrapped (HttpLayer (server_host addr) (vo_HTTPMethod opt) (vo_HTTPPath opt) (vo_HTTPHeaders opt)) c))
         else if vo_Network opt = ''h2'' then
           io_bind (handshake E (TlsLayer (vmess_tls opt addr [''h2''])) c) (\<lambda>c.
           handshake E (H2Layer (vo_H2Host opt) (vo_H2Path opt)) c)
         else if vo_Network opt = ''grpc'' then StreamGunWithConn c (fst (the (vp_gun p))) (snd (the (vp_gun p)))
         else if vo_TLS opt then handshake E (TlsLayer (vmess_tls opt addr [])) c
         else io_ret c) (\<lambda>c.
      handshake E (VmessLayer (vp_client p) (parseVmessAddr m)) c))"

subsection \<open>Snell\<close>

definition snell_stream :: "snell_proxy \<Rightarrow> 'k conn \<Rightarrow> 'k conn" where
  "snell_stream p c =
     wrapped (SnellLayer (sn_psk p) (sn_version p))
       (if po_Mode (sn_obfsOption p) = ''tls'' then wrapped (TlsObfsLayer (po_Host (sn_obfsOption p))) c
        else if po_Mode (sn_obfsOption p) = ''http'' then wrapped (HttpObfsLayer (po_Host (sn_obfsOption p)) (server_port (bp_addr (sn_Base p)))) c
        else c)"

definition snell_greet :: "'k net_env \<Rightarrow> snell_proxy \<Rightarrow> metadata \<Rightarrow> 'k conn \<Rightarrow> ('k, unit) dialling" where
  "snell_greet E p m c = talk E c (conn_Write (snell_header (ne_B E) (Metadata_String m) (unat (DstPort m)) (sn_version p)))"

definition snell_StreamConn :: "'k net_env \<Rightarrow> snell_proxy \<Rightarrow> metadata \<Rightarrow> 'k conn \<Rightarrow> ('k, 'k conn) dialling" where
  "snell_StreamConn E p m c = (let c = snell_stream p c in io_bind (snell_greet E p m c) (\<lambda>_. io_ret c))"

text \<open>The pool of the proxy: the connections that are too old are closed; when none is left one is dialled, without options.\<close>

definition close_all :: "'k conn list \<Rightarrow> 'k net \<Rightarrow> 'k net" where
  "close_all cs w = fold (\<lambda>c. close_net (conn_id c)) cs w"

definition SnellPool_Get :: "'k net_env \<Rightarrow> snell_proxy \<Rightarrow> ('k, 'k conn) dialling" where
  "SnellPool_Get E p w =
     (case IdlePool_Get (ne_now E (nt_events w)) (nt_pool w) of
        ((r, old), pool) \<Rightarrow>
          let w' = close_all old (w\<lparr>nt_pool := pool\<rparr>) in
          (case r of
             Some c \<Rightarrow> (Inr c, did (PoolTaken (conn_id c)) w')
           | None \<Rightarrow> io_bind (dial E (bp_addr (sn_Base p)) (DialOptions (sn_Base p) [])) (\<lambda>c. io_ret (snell_stream p c)) w'))"

text \<open>\<open>Close\<close> of a connection from the pool: it goes back if it can be half closed.\<close>

definition PoolConn_Close :: "'k net_env \<Rightarrow> 'k conn \<Rightarrow> 'k net \<Rightarrow> 'k net" where
  "PoolConn_Close E c w =
     (case talk E c (conn_Write []) w of
        (Inl e, w') \<Rightarrow> close_net (conn_id c) w'
      | (Inr _, w') \<Rightarrow> (case IdlePool_Put (ne_now E (nt_events w')) c (nt_pool w') of (old, pool) \<Rightarrow> close_all old (w'\<lparr>nt_pool := pool\<rparr>)))"

subsection \<open>Trojan\<close>

definition trojan_tls :: "trojan_proxy \<Rightarrow> string list \<Rightarrow> tls_config" where
  "trojan_tls p alpn = \<lparr>tc_ServerName = tp_ServerName p, tc_InsecureSkipVerify = to_SkipCertVerify (tp_option p),
     tc_NextProtos = (if to_ALPN (tp_option p) \<noteq> [] then to_ALPN (tp_option p) else alpn)\<rparr>"

definition plainStream :: "'k net_env \<Rightarrow> trojan_proxy \<Rightarrow> 'k conn \<Rightarrow> ('k, 'k conn) dialling" where
  "plainStream E p c =
     (let opt = tp_option p; addr = bp_addr (tp_Base p) in
      if to_Network opt = ''ws'' then
        StreamWebsocketConn E c \<lparr>wc_Host = (if to_SNI opt \<noteq> [] then to_SNI opt else server_host addr), wc_Port = server_port addr,
          wc_Path = wo_Path (to_WSOpts opt), wc_Headers = headers_of (wo_Headers (to_WSOpts opt)),
          wc_TLSConfig = Some (trojan_tls p [''http/1.1'']), wc_MaxEarlyData = 0, wc_EarlyDataHeaderName = []\<rparr>
      else handshake E (TlsLayer (trojan_tls p [''h2'', ''http/1.1''])) c)"

definition trojan_greet :: "'k net_env \<Rightarrow> trojan_proxy \<Rightarrow> u8 \<Rightarrow> metadata \<Rightarrow> 'k conn \<Rightarrow> ('k, 'k conn) dialling" where
  "trojan_greet E p command m c =
     io_bind (talk E c (Trojan_WriteHeader (ne_B E) (tp_instance p) command (serializesSocksAddr (ne_B E) m))) (\<lambda>_. io_ret c)"

definition trojan_StreamConn :: "'k net_env \<Rightarrow> trojan_proxy \<Rightarrow> metadata \<Rightarrow> 'k conn \<Rightarrow> ('k, 'k conn) dialling" where
  "trojan_StreamConn E p m c =
     io_bind (case tp_gun p of Some (tls, cfg) \<Rightarrow> StreamGunWithConn c tls cfg | None \<Rightarrow> plainStream E p c) (trojan_greet E p 1 m)"

subsection \<open>\<open>StreamConn\<close> and \<open>DialContext\<close>\<close>

fun StreamConn :: "'k net_env \<Rightarrow> 'k adapter \<Rightarrow> metadata \<Rightarrow> 'k conn \<Rightarrow> ('k, 'k conn) dialling" where
  "StreamConn E DirectAdapter m c = io_fail NoSupport"
| "StreamConn E RejectAdapter m c = io_fail NoSupport"
| "StreamConn E (SsAdapter p) m c = ss_StreamConn E p m c"
| "StreamConn E (SsrAdapter p) m c = ssr_StreamConn E p m c"
| "StreamConn E (SocksAdapter p) m c = socks_StreamConn E p m c"
| "StreamConn E (HttpAdapter p) m c = http_StreamConn E p m c"
| "StreamConn E (VmessAdapter p) m c = vmess_StreamConn E p m c"
| "StreamConn E (SnellAdapter p) m c = snell_StreamConn E p m c"
| "StreamConn E (TrojanAdapter p) m c = trojan_StreamConn E p m c"

text \<open>Without a transport of its own: dial the server and put the layers on; the first connection is closed after an error.\<close>

definition dial_stream :: "'k net_env \<Rightarrow> 'k adapter \<Rightarrow> metadata \<Rightarrow> option_fun list \<Rightarrow> ('k, 'k conn) dialling" where
  "dial_stream E a m opts =
     io_bind (dial E (bp_addr (adapter_base a)) (DialOptions (adapter_base a) opts)) (\<lambda>c. safely c (StreamConn E a m c))"

text \<open>Over the transport of the proxy: the stream is closed after an error.\<close>

definition gun_stream :: "gun_config \<Rightarrow> ('k conn \<Rightarrow> ('k, 'k conn) dialling) \<Rightarrow> ('k, 'k conn) dialling" where
  "gun_stream cfg f = io_bind (StreamGunWithTransport cfg) (\<lambda>c. safely c (f c))"

definition direct_DialContext :: "'k net_env \<Rightarrow> metadata \<Rightarrow> option_fun list \<Rightarrow> ('k, 'k conn option) dialling" where
  "direct_DialContext E m opts = io_bind (dial E (RemoteAddress m) (DialOptions direct_base opts)) (\<lambda>c. io_ret (Some c))"

definition vmess_DialContext :: "'k net_env \<Rightarrow> vmess_proxy \<Rightarrow> metadata \<Rightarrow> option_fun list \<Rightarrow> ('k, 'k conn option) dialling" where
  "vmess_DialContext E p m opts =
     (case (vp_gun p, opts) of
        (Some (tls, cfg), []) \<Rightarrow>
          io_bind (gun_stream cfg (handshake E (VmessLayer (vp_client p) (parseVmessAddr m)))) (\<lambda>c. io_ret (Some c))
      | _ \<Rightarrow> io_bind (dial_stream E (VmessAdapter p) m opts) (\<lambda>c. io_ret (Some c)))"

definition snell_DialContext :: "'k net_env \<Rightarrow> snell_proxy \<Rightarrow> metadata \<Rightarrow> option_fun list \<Rightarrow> ('k, 'k conn option) dialling" where
  "snell_DialContext E p m opts =
     (if sn_version p = 2 \<and> opts = [] then
        io_bind (SnellPool_Get E p) (\<lambda>c w.
          (case snell_greet E p m c w of
             (Inl e, w') \<Rightarrow> (Inl e, PoolConn_Close E c w')
           | (Inr _, w') \<Rightarrow> (Inr (Some c), w')))
      else io_bind (dial_stream E (SnellAdapter p) m opts) (\<lambda>c. io_ret (Some c)))"

definition trojan_DialContext :: "'k net_env \<Rightarrow> trojan_proxy \<Rightarrow> metadata \<Rightarrow> option_fun list \<Rightarrow> ('k, 'k conn option) dialling" where
  "trojan_DialContext E p m opts =
     (case (tp_gun p, opts) of
        (Some (tls, cfg), []) \<Rightarrow>
          io_bind (gun_stream cfg (trojan_greet E p 1 m)) (\<lambda>c. io_ret (Some c))
      | _ \<Rightarrow> io_bind (dial_stream E (TrojanAdapter p) m opts) (\<lambda>c. io_ret (Some c)))"

text \<open>The connection of \<open>Reject\<close> is none: every read and write of it is the end of the stream. The other proxies only dial and wrap.\<close>

fun Adapter_DialContext :: "'k net_env \<Rightarrow> 'k adapter \<Rightarrow> metadata \<Rightarrow> option_fun list \<Rightarrow> ('k, 'k conn option) dialling" where
  "Adapter_DialContext E DirectAdapter m opts = direct_DialContext E m opts"
| "Adapter_DialContext E RejectAdapter m opts = io_ret None"
| "Adapter_DialContext E (VmessAdapter p) m opts = vmess_DialContext E p m opts"
| "Adapter_DialContext E (SnellAdapter p) m opts = snell_DialContext E p m opts"
| "Adapter_DialContext E (TrojanAdapter p) m opts = trojan_DialContext E p m opts"
| "Adapter_DialContext E a m opts = io_bind (dial_stream E a m opts) (\<lambda>c. io_ret (Some c))"

lemmas dial_defs [simp] = direct_DialContext_def vmess_DialContext_def snell_DialContext_def trojan_DialContext_def

subsection \<open>\<open>ListenPacketContext\<close>\<close>

datatype 'k packet_conn =
    DirectPackets "'k conn" | NopPackets | SsPackets "'k conn" "go_ip \<times> nat" | SocksPackets "'k conn" "go_ip \<times> nat" "'k conn"
  | VmessPackets "'k conn" "(go_ip \<times> nat) option" | SnellPackets "'k conn" | TrojanPackets "'k conn" trojan

definition ss_ListenPacket :: "'k net_env \<Rightarrow> base_proxy \<Rightarrow> ('k conn \<Rightarrow> 'k conn) \<Rightarrow> option_fun list \<Rightarrow> ('k, 'k packet_conn) dialling" where
  "ss_ListenPacket E b packs opts =
     io_bind (listen E (DialOptions b opts)) (\<lambda>pc w.
     (case resolveUDPAddr E (bp_addr b) of
        Inl e \<Rightarrow> (Inl e, close_net (conn_id pc) w)
      | Inr addr \<Rightarrow> (Inr (SsPackets (packs pc) addr), w)))"

text \<open>The packets of Shadowsocks are packed by the cipher, and those of ShadowsocksR by the protocol before that.\<close>

definition ss_packets :: "'k ss_proxy \<Rightarrow> 'k conn \<Rightarrow> 'k conn" where
  "ss_packets p = ciphered (ss_cipher p)"

definition ssr_packets :: "'k ssr_proxy \<Rightarrow> 'k conn \<Rightarrow> 'k conn" where
  "ssr_packets p pc =
     (let pc = ciphered (sr_cipher p) pc in case sr_protocol p of Origin \<Rightarrow> pc | pr \<Rightarrow> wrapped (SsrProtocolLayer pr []) pc)"

text \<open>
  The goroutine that waits for the end of the TCP connection: \<open>SplicedTo\<close> says that the packets end with it. The error of
  the TLS handshake is not looked at before the next one. An address of the answer comes from \<open>ReadAddr\<close>, so that taking it
  apart cannot panic.
\<close>

definition IsUnspecified :: "go_ip \<Rightarrow> bool" where
  "IsUnspecified ip \<longleftrightarrow> To4 ip = [0, 0, 0, 0] \<or> ip = IPv6zero"

definition socks_ListenPacket :: "'k net_env \<Rightarrow> socks_proxy \<Rightarrow> option_fun list \<Rightarrow> ('k, 'k packet_conn) dialling" where
  "socks_ListenPacket E p opts =
     io_bind (dial E (bp_addr (sk_Base p)) (DialOptions (sk_Base p) opts)) (\<lambda>c0.
     io_bind (case sk_tlsConfig p of Some cfg \<Rightarrow> io_bind (io_try (net_attempt E (Layered c0 (TlsLayer cfg)))) (\<lambda>_. io_ret (wrapped (TlsLayer cfg) c0)) | None \<Rightarrow> io_ret c0) (\<lambda>c.
     safely c (
       io_bind (talk E c (ClientHandshake (ne_B E) (AddrFromStdAddrPort (Addr4 [0, 0, 0, 0]) 0) CmdUDPAssociate (socks_user_of p))) (\<lambda>bindAddr.
       io_bind (listen E (DialOptions (sk_Base p) opts)) (\<lambda>pc w0.
       let w = did (SplicedTo (conn_id c) (conn_id pc)) w0 in
       (case Socks_UDPAddr bindAddr of
          Some (Some (ip, port)) \<Rightarrow>
            if IsUnspecified ip then
              (case resolveUDPAddr E (bp_addr (sk_Base p)) of
                 Inl e \<Rightarrow> (Inl e, w)
               | Inr (sip, _) \<Rightarrow> (Inr (SocksPackets pc (sip, port) c), w))
            else (Inr (SocksPackets pc (ip, port) c), w)
        | _ \<Rightarrow> (Inl BadBindAddr, w)))))))"

definition vmess_ListenPacket :: "'k net_env \<Rightarrow> vmess_proxy \<Rightarrow> metadata \<Rightarrow> option_fun list \<Rightarrow> ('k, 'k packet_conn) dialling" where
  "vmess_ListenPacket E p m0 opts =
     (case (if Resolved m0 then Inr m0 else map_sum id (\<lambda>ip. m0\<lparr>DstIP := ip\<rparr>) (ne_ResolveIP E (Host m0))) of
        Inl e \<Rightarrow> io_fail CantResolveIP
      | Inr m \<Rightarrow>
          io_bind
            (case (vp_gun p, opts) of
               (Some (tls, cfg), []) \<Rightarrow> gun_stream cfg (handshake E (VmessLayer (vp_client p) (parseVmessAddr m)))
             | _ \<Rightarrow> dial_stream E (VmessAdapter p) m opts) (\<lambda>c.
          io_ret (VmessPackets c (Metadata.UDPAddr m))))"

text \<open>A header that cannot be written leaves the connection open.\<close>

definition snell_ListenPacket :: "'k net_env \<Rightarrow> snell_proxy \<Rightarrow> option_fun list \<Rightarrow> ('k, 'k packet_conn) dialling" where
  "snell_ListenPacket E p opts =
     io_bind (dial E (bp_addr (sn_Base p)) (DialOptions (sn_Base p) opts)) (\<lambda>c0.
     let c = snell_stream p c0 in
     io_bind (if sn_version p < 3 then io_fail ErrUnsupportVersion else talk E c (conn_Write [1, 6, 0])) (\<lambda>_. io_ret (SnellPackets c)))"

definition trojan_ListenPacket :: "'k net_env \<Rightarrow> trojan_proxy \<Rightarrow> metadata \<Rightarrow> option_fun list \<Rightarrow> ('k, 'k packet_conn) dialling" where
  "trojan_ListenPacket E p m opts =
     io_bind
       (case (tp_gun p, opts) of
          (Some (tls, cfg), []) \<Rightarrow> gun_stream cfg (trojan_greet E p 3 m)
        | _ \<Rightarrow> io_bind (dial E (bp_addr (tp_Base p)) (DialOptions (tp_Base p) opts)) (\<lambda>c. safely c (io_bind (plainStream E p c) (trojan_greet E p 3 m))))
       (\<lambda>c. io_ret (TrojanPackets c (tp_instance p)))"

fun ListenPacketContext :: "'k net_env \<Rightarrow> 'k adapter \<Rightarrow> metadata \<Rightarrow> option_fun list \<Rightarrow> ('k, 'k packet_conn) dialling" where
  "ListenPacketContext E DirectAdapter m opts = io_bind (listen E (DialOptions direct_base opts)) (\<lambda>pc. io_ret (DirectPackets pc))"
| "ListenPacketContext E RejectAdapter m opts = io_ret NopPackets"
| "ListenPacketContext E (SsAdapter p) m opts = ss_ListenPacket E (ss_Base p) (ss_packets p) opts"
| "ListenPacketContext E (SsrAdapter p) m opts = ss_ListenPacket E (sr_Base p) (ssr_packets p) opts"
| "ListenPacketContext E (SocksAdapter p) m opts = socks_ListenPacket E p opts"
| "ListenPacketContext E (HttpAdapter p) m opts = io_fail NoSupport"
| "ListenPacketContext E (VmessAdapter p) m opts = vmess_ListenPacket E p m opts"
| "ListenPacketContext E (SnellAdapter p) m opts = snell_ListenPacket E p opts"
| "ListenPacketContext E (TrojanAdapter p) m opts = trojan_ListenPacket E p m opts"

end
