(* ===== verification/OutProps.thy ===== *)
theory OutProps
  imports OutDial
begin

text \<open>
  What dialling through a proxy promises: a dial that fails leaves open what was open, and one that succeeds one new
  connection; the layers of a connection are those of the options; a packet connection owns what was opened for it. Two
  theorems show where the code does not: Snell leaks a connection, and Trojan over gRPC sends packets past the gRPC stream.
\<close>

subsection \<open>Steps that open and close_net nothing\<close>

definition same_net :: "'k net \<Rightarrow> 'k net \<Rightarrow> bool" where
  "same_net w w' \<longleftrightarrow> nt_next w' = nt_next w \<and> nt_open w' = nt_open w \<and> (\<forall>i. spliced i (nt_events w') = spliced i (nt_events w))"

definition quiet :: "('k, 'a) dialling \<Rightarrow> bool" where
  "quiet m \<longleftrightarrow> (\<forall>w. same_net w (snd (m w)))"

definition stays :: "nat \<Rightarrow> ('k, 'k conn) dialling \<Rightarrow> bool" where
  "stays i m \<longleftrightarrow> quiet m \<and> (\<forall>w c w'. m w = (Inr c, w') \<longrightarrow> conn_id c = i)"

named_theorems quiet_intros

lemma same_refl [simp]: "same_net w w"
  by (simp add: same_net_def)

lemma same_trans: "same_net w w1 \<Longrightarrow> same_net w1 w2 \<Longrightarrow> same_net w w2"
  by (simp add: same_net_def)

lemma spliced_append: "spliced i (xs @ ys) = spliced i xs @ spliced i ys"
  by (induction xs) (auto split: net_event.splits)

lemma same_did: "(\<forall>j k. ev \<noteq> SplicedTo j k) \<Longrightarrow> same_net w (did ev w)"
  by (cases ev) (simp_all add: same_net_def did_def spliced_append)

lemma quietD: "quiet m \<Longrightarrow> m w = (r, w') \<Longrightarrow> same_net w w'"
  unfolding quiet_def by (metis snd_conv)

lemma quiet_ret [quiet_intros]: "quiet (io_ret x)" "quiet (io_fail e)"
  by (simp_all add: quiet_def)

lemma quiet_bind [quiet_intros]: "quiet m \<Longrightarrow> (\<And>x. quiet (f x)) \<Longrightarrow> quiet (io_bind m f)"
  unfolding quiet_def io_bind_def by (auto split: prod.split sum.split intro: same_trans)

lemma quiet_attempt [quiet_intros]: "(\<forall>j k. ev \<noteq> SplicedTo j k) \<Longrightarrow> quiet (net_attempt E ev)"
  by (simp add: quiet_def net_attempt_def same_did split: option.split)

lemma quiet_talk [quiet_intros]: "quiet (talk E c m)"
  by (simp add: quiet_def talk_def same_did split: prod.split)

lemma quiet_handshake [quiet_intros]: "quiet (handshake E l c)"
  by (simp add: handshake_def quiet_intros)

lemma quiet_if [quiet_intros]: "quiet m \<Longrightarrow> quiet n \<Longrightarrow> quiet (if b then m else n)"
  by simp

lemma stays_quiet [quiet_intros]: "stays i m \<Longrightarrow> quiet m"
  by (simp add: stays_def)

lemma stays_ret: "conn_id c = i \<Longrightarrow> stays i (io_ret c)"
  by (simp add: stays_def quiet_intros)

lemma stays_fail: "stays i (io_fail e)"
  by (simp add: stays_def quiet_intros)

lemma stays_bind: "stays i m \<Longrightarrow> (\<And>c. conn_id c = i \<Longrightarrow> stays i (f c)) \<Longrightarrow> stays i (io_bind m f)"
  unfolding stays_def quiet_def io_bind_def by (fastforce split: prod.splits sum.splits intro: same_trans)

lemma stays_then: "quiet m \<Longrightarrow> (\<And>x. stays i (f x)) \<Longrightarrow> stays i (io_bind m f)"
  unfolding stays_def by (auto intro!: quiet_bind simp: io_bind_eq_Inr)

lemma stays_handshake: "conn_id c = i \<Longrightarrow> stays i (handshake E l c)"
  by (auto simp: stays_def quiet_intros handshake_def io_bind_eq_Inr wrapped_def)

lemma stays_if: "stays i m \<Longrightarrow> stays i n \<Longrightarrow> stays i (if b then m else n)"
  by simp

lemma wrapped_id [simp]: "conn_id (wrapped l c) = conn_id c" "conn_id (ciphered ci c) = conn_id c"
  by (cases ci; simp add: wrapped_def ciphered_def)+

lemmas stays_intros = stays_ret stays_fail stays_bind stays_handshake stays_if

lemma stays_ws: "conn_id c = i \<Longrightarrow> stays i (StreamWebsocketConn E c cfg)"
  by (simp add: StreamWebsocketConn_def Let_def stays_ret stays_handshake)

lemma stays_v2ray: "conn_id c = i \<Longrightarrow> stays i (NewV2rayObfs E c opt)"
  unfolding NewV2rayObfs_def Let_def by (rule stays_bind [OF stays_ws]) (simp_all add: stays_ret)

lemma stays_talk: "conn_id c = i \<Longrightarrow> stays i (io_bind (talk E d m) (\<lambda>_. io_ret c))"
  by (rule stays_then) (simp_all add: quiet_intros stays_ret)

lemma stays_ss: "conn_id c = i \<Longrightarrow> stays i (ss_StreamConn E p m c)"
  unfolding ss_StreamConn_def Let_def
  by (rule stays_bind) (auto intro!: stays_if stays_ret stays_v2ray stays_talk)

lemma stays_ssr: "conn_id c = i \<Longrightarrow> stays i (ssr_StreamConn E p m c)"
proof -
  assume c: "conn_id c = i"
  have q: "quiet (\<lambda>w. io_bind (talk E d (conn_Write (f w))) (\<lambda>_. io_ret (f w)) w)" for d and f :: "'a net \<Rightarrow> u8 list"
  proof -
    have "quiet (io_bind (talk E d (conn_Write (f w))) (\<lambda>_. io_ret (f w)))" for w by (rule quiet_bind [OF quiet_talk quiet_ret(1)])
    then show ?thesis unfolding quiet_def by blast
  qed
  show ?thesis unfolding ssr_StreamConn_def Let_def
    by (rule stays_then) (auto intro!: quiet_intros q stays_talk simp: c split: picked.split ssr_protocol.split ssr_obfs.split)
qed

lemma stays_socks_tls: "conn_id c = i \<Longrightarrow> stays i (socks_tls E p c)"
  by (simp add: socks_tls_def stays_ret stays_handshake split: option.split)

lemma stays_socks: "conn_id c = i \<Longrightarrow> stays i (socks_StreamConn E p m c)"
  unfolding socks_StreamConn_def by (rule stays_bind [OF stays_socks_tls]) (simp_all add: stays_talk)

lemma quiet_shakeHand: "quiet (shakeHand E p m c)"
  unfolding shakeHand_def Let_def
  by (rule quiet_bind) (auto simp: quiet_def split: sum.split intro!: quiet_attempt [unfolded quiet_def, rule_format])

lemma stays_http: "conn_id c = i \<Longrightarrow> stays i (http_StreamConn E p m c)"
  unfolding http_StreamConn_def
  by (rule stays_bind) (auto intro!: stays_ret stays_handshake stays_then quiet_shakeHand split: option.split)

lemma stays_gun: "conn_id c = i \<Longrightarrow> stays i (StreamGunWithConn c tls cfg)"
  by (simp add: StreamGunWithConn_def stays_ret)

lemma stays_vmess: "conn_id c = i \<Longrightarrow> stays i (vmess_StreamConn E p m c)"
  unfolding vmess_StreamConn_def Let_def
  by (rule stays_bind) (auto intro!: stays_if stays_ret stays_handshake stays_ws stays_gun stays_bind)

lemma snell_stream_id [simp]: "conn_id (snell_stream p c) = conn_id c"
  by (simp add: snell_stream_def)

lemma stays_snell: "conn_id c = i \<Longrightarrow> stays i (snell_StreamConn E p m c)"
  by (simp add: snell_StreamConn_def snell_greet_def Let_def stays_talk)

lemma stays_plain: "conn_id c = i \<Longrightarrow> stays i (plainStream E p c)"
  by (simp add: plainStream_def Let_def stays_ws stays_handshake)

lemma stays_greet: "conn_id c = i \<Longrightarrow> stays i (trojan_greet E p command m c)"
  by (simp add: trojan_greet_def stays_talk)

lemma stays_trojan: "conn_id c = i \<Longrightarrow> stays i (trojan_StreamConn E p m c)"
  unfolding trojan_StreamConn_def
  by (rule stays_bind) (auto intro!: stays_gun stays_plain stays_greet split: option.split)

lemma stays_StreamConn: "conn_id c = i \<Longrightarrow> stays i (StreamConn E a m c)"
  by (cases a) (simp_all add: stays_fail stays_ss stays_ssr stays_socks stays_http stays_vmess stays_snell stays_trojan)

subsection \<open>What a dial leaves open\<close>

text \<open>Numbers are given out once, and nothing is spliced to a connection that is not there yet.\<close>

definition net_ok :: "'k net \<Rightarrow> bool" where
  "net_ok w \<longleftrightarrow> (\<forall>i \<in> nt_open w. i < nt_next w) \<and> (\<forall>i. nt_next w \<le> i \<longrightarrow> spliced i (nt_events w) = [])"

lemma same_net_ok: "same_net w w' \<Longrightarrow> net_ok w \<Longrightarrow> net_ok w'"
  by (simp add: same_net_def net_ok_def)

text \<open>A new connection after an event, with its two outcomes.\<close>

lemma opens_cases:
  assumes "io_bind (net_attempt E ev) (\<lambda>_. new_conn) w = (r, w')" and "\<forall>j k. ev \<noteq> SplicedTo j k"
  obtains e where "r = Inl e" "same_net w w'"
  | "r = Inr (Conn (nt_next w) [])" "nt_next w' = Suc (nt_next w)" "nt_open w' = insert (nt_next w) (nt_open w)"
    "\<forall>i. spliced i (nt_events w') = spliced i (nt_events w)"
proof (cases "ne_fails E (nt_events w) ev")
  case None
  then show ?thesis using assms that(2) same_did [OF assms(2), of w]
    by (auto simp: io_bind_def net_attempt_def new_conn_def same_net_def)
next
  case (Some e)
  then show ?thesis using assms that(1) same_did [OF assms(2), of w] by (auto simp: io_bind_def net_attempt_def)
qed

lemmas dial_cases = opens_cases [where ev = "Dialled ''tcp'' addr os" for addr os, folded dial_def]
lemmas listen_cases = opens_cases [where ev = "Listened os" for os, folded listen_def]

definition outcome_ok :: "nat \<Rightarrow> nat set \<Rightarrow> 'e + 'k conn \<Rightarrow> 'k net \<Rightarrow> bool" where
  "outcome_ok n os r w' \<longleftrightarrow> (case r of Inl e \<Rightarrow> nt_open w' = os | Inr c \<Rightarrow> conn_id c = n \<and> nt_open w' = insert n os)"

lemma safely_outcome:
  assumes "stays n m" and "net_ok w" and "n = nt_next w"
    and s: "nt_open s = insert n (nt_open w)" "\<forall>i. spliced i (nt_events s) = spliced i (nt_events w)" and "safely c m s = (r, w')" and "conn_id c = n"
  shows "outcome_ok n (nt_open w) r w'"
proof -
  obtain x s1 where m: "m s = (x, s1)" by (cases "m s")
  have q: "same_net s s1" using assms(1) m quietD stays_def by metis
  have n: "n \<notin> nt_open w" "spliced n (nt_events w) = []" using assms(2,3) by (auto simp: net_ok_def)
  show ?thesis
  proof (cases x)
    case (Inl e)
    then have "r = Inl e" "w' = close_net n s1" using assms(6,7) m by (simp_all add: safely_def)
    then show ?thesis using q s n by (simp add: outcome_ok_def close_net_def did_def same_net_def)
  next
    case (Inr d)
    then have "r = Inr d" "w' = s1" using assms(6) m by (simp_all add: safely_def)
    moreover have "conn_id d = n" using assms(1) m Inr by (auto simp: stays_def)
    ultimately show ?thesis using q s by (simp add: outcome_ok_def same_net_def)
  qed
qed

lemma dial_stream_outcome:
  assumes "net_ok w" and "dial_stream E a m opts w = (r, w')"
  shows "outcome_ok (nt_next w) (nt_open w) r w'"
proof -
  obtain x s where d: "dial E (bp_addr (adapter_base a)) (DialOptions (adapter_base a) opts) w = (x, s)"
    by (cases "dial E (bp_addr (adapter_base a)) (DialOptions (adapter_base a) opts) w")
  show ?thesis
  proof (rule dial_cases [OF d])
    fix e assume "x = Inl e" "same_net w s"
    then show ?thesis using assms(2) d by (auto simp: dial_stream_def io_bind_def outcome_ok_def same_net_def)
  next
    assume x: "x = Inr (Conn (nt_next w) [])" and s: "nt_open s = insert (nt_next w) (nt_open w)" "\<forall>i. spliced i (nt_events s) = spliced i (nt_events w)"
    have "safely (Conn (nt_next w) []) (StreamConn E a m (Conn (nt_next w) [])) s = (r, w')"
      using assms(2) d x by (simp add: dial_stream_def)
    moreover have "stays (nt_next w) (StreamConn E a m (Conn (nt_next w) []))" by (rule stays_StreamConn) simp
    ultimately show ?thesis using safely_outcome [OF _ assms(1) refl s] by simp
  qed simp
qed

lemma gun_outcome:
  assumes "net_ok w" and "gun_stream cfg f w = (r, w')" and "\<And>c. conn_id c = nt_next w \<Longrightarrow> stays (nt_next w) (f c)"
  shows "outcome_ok (nt_next w) (nt_open w) r w'"
proof -
  let ?c = "wrapped (GunLayer None cfg) (Conn (nt_next w) [])"
  obtain s where g: "StreamGunWithTransport cfg w = (Inr ?c, s)" and s: "nt_open s = insert (nt_next w) (nt_open w)"
      "\<forall>i. spliced i (nt_events s) = spliced i (nt_events w)"
    by (simp add: StreamGunWithTransport_def new_conn_def did_def spliced_append)
  have "safely ?c (f ?c) s = (r, w')" using assms(2) g by (simp add: gun_stream_def)
  moreover have "stays (nt_next w) (f ?c)" by (rule assms(3)) simp
  ultimately show ?thesis using safely_outcome [OF _ assms(1) refl s] by simp
qed

text \<open>The result of a bind that only tags the connection.\<close>

lemma tagged_outcome:
  "io_bind m (\<lambda>c. io_ret (Some c)) w = (r, w') \<Longrightarrow>
     \<exists>r'. m w = (r', w') \<and> r = map_sum id Some r'"
  by (cases "m w") (auto simp: io_bind_def split: sum.splits)

text \<open>The pool of Snell aside, a dial owns one new connection or nothing.\<close>

theorem dial_leaves_nothing:
  assumes "net_ok w" and "Adapter_DialContext E a m opts w = (r, w')" and "\<And>p. a = SnellAdapter p \<Longrightarrow> sn_version p \<noteq> 2 \<or> opts \<noteq> []"
  shows "case r of
      Inl e \<Rightarrow> nt_open w' = nt_open w
    | Inr None \<Rightarrow> a = RejectAdapter \<and> w' = w
    | Inr (Some c) \<Rightarrow> conn_id c = nt_next w \<and> nt_open w' = insert (nt_next w) (nt_open w)"
proof -
  have fin: ?thesis
    if "Adapter_DialContext E a m opts = io_bind m' (\<lambda>c. io_ret (Some c))" "\<And>r'. m' w = (r', w') \<Longrightarrow> outcome_ok (nt_next w) (nt_open w) r' w'" for m'
  proof -
    from tagged_outcome [OF assms(2) [unfolded that(1)]] obtain r' where "m' w = (r', w')" "r = map_sum id Some r'" by blast
    then show ?thesis using that(2) [of r'] by (cases r') (simp_all add: outcome_ok_def)
  qed
  have strm: ?thesis if "Adapter_DialContext E a m opts = io_bind (dial_stream E a m opts) (\<lambda>c. io_ret (Some c))"
    by (rule fin [OF that dial_stream_outcome [OF assms(1)]])
  have gun: ?thesis
    if "Adapter_DialContext E a m opts = io_bind (gun_stream cfg f) (\<lambda>c. io_ret (Some c))" "\<And>c. conn_id c = nt_next w \<Longrightarrow> stays (nt_next w) (f c)" for cfg f
    by (rule fin [OF that(1) gun_outcome [OF assms(1)]]) (use that(2) in simp_all)
  show ?thesis
  proof (cases a)
    case (VmessAdapter p)
    show ?thesis
    proof (cases "vp_gun p = None \<or> opts \<noteq> []")
      case True
      then show ?thesis using VmessAdapter by (intro strm) (auto split: option.split list.split)
    next
      case False
      then obtain tls cfg where "vp_gun p = Some (tls, cfg)" "opts = []" by auto
      then show ?thesis using VmessAdapter by (intro gun [of cfg "handshake E (VmessLayer (vp_client p) (parseVmessAddr m))"]) (simp_all add: stays_handshake)
    qed
  next
    case (TrojanAdapter p)
    show ?thesis
    proof (cases "tp_gun p = None \<or> opts \<noteq> []")
      case True
      then show ?thesis using TrojanAdapter by (intro strm) (auto split: option.split list.split)
    next
      case False
      then obtain tls cfg where "tp_gun p = Some (tls, cfg)" "opts = []" by auto
      then show ?thesis using TrojanAdapter by (intro gun [of cfg "trojan_greet E p 1 m"]) (simp_all add: stays_greet)
    qed
  next
    case (SnellAdapter p)
    then show ?thesis using assms(3) [OF SnellAdapter] by (intro strm) auto
  next
    case DirectAdapter
    show ?thesis
    proof (rule fin)
      fix r' assume d: "dial E (RemoteAddress m) (DialOptions direct_base opts) w = (r', w')"
      show "outcome_ok (nt_next w) (nt_open w) r' w'" by (rule dial_cases [OF d]) (simp_all add: outcome_ok_def same_net_def)
    qed (simp add: DirectAdapter)
  next
    case RejectAdapter
    then show ?thesis using assms(2) by auto
  qed (use strm in simp_all)
qed

subsection \<open>What a packet connection owns\<close>

fun owned :: "'k packet_conn \<Rightarrow> nat set" where
  "owned (DirectPackets pc) = {conn_id pc}"
| "owned NopPackets = {}"
| "owned (SsPackets pc addr) = {conn_id pc}"
| "owned (SocksPackets pc addr c) = {conn_id pc, conn_id c}"
| "owned (VmessPackets c addr) = {conn_id c}"
| "owned (SnellPackets c) = {conn_id c}"
| "owned (TrojanPackets c t) = {conn_id c}"

definition owns_all :: "nat set \<Rightarrow> 'e + 'k packet_conn \<Rightarrow> 'k net \<Rightarrow> bool" where
  "owns_all os r w' \<longleftrightarrow> (case r of Inl e \<Rightarrow> nt_open w' = os | Inr pc \<Rightarrow> nt_open w' = owned pc \<union> os)"

lemma tagged_owns:
  assumes "io_bind m (\<lambda>c. io_ret (f c)) w = (r, w')" and "\<And>r'. m w = (r', w') \<Longrightarrow> outcome_ok n os r' w'" and "\<And>c. owned (f c) = {conn_id c}"
  shows "owns_all os r w'"
proof -
  obtain r' s where m: "m w = (r', s)" by (cases "m w")
  then have "r = map_sum id f r'" "s = w'" using assms(1) by (cases r'; auto simp: io_bind_def)+
  then show ?thesis using assms(2) [of r'] assms(3) m by (cases r') (simp_all add: outcome_ok_def owns_all_def)
qed

lemma ss_listen_owns:
  assumes "net_ok w" and "ss_ListenPacket E b packs opts w = (r, w')" and "\<And>c. conn_id (packs c) = conn_id c"
  shows "owns_all (nt_open w) r w'"
proof -
  obtain x s where l: "listen E (DialOptions b opts) w = (x, s)" by (cases "listen E (DialOptions b opts) w")
  show ?thesis
  proof (rule listen_cases [OF l])
    fix e assume "x = Inl e" "same_net w s"
    then show ?thesis using assms(2) l by (auto simp: ss_ListenPacket_def io_bind_def owns_all_def same_net_def)
  next
    assume x: "x = Inr (Conn (nt_next w) [])" and s: "nt_open s = insert (nt_next w) (nt_open w)" "\<forall>i. spliced i (nt_events s) = spliced i (nt_events w)"
    then show ?thesis using assms l
      by (cases "resolveUDPAddr E (bp_addr b)") (auto simp: ss_ListenPacket_def owns_all_def close_net_def did_def net_ok_def)
  qed simp
qed

lemma trojan_listen_owns:
  assumes "net_ok w" and "trojan_ListenPacket E p m opts w = (r, w')"
  shows "owns_all (nt_open w) r w'"
proof (rule tagged_owns [OF assms(2) [unfolded trojan_ListenPacket_def]])
  fix r'
  assume a: "(case (tp_gun p, opts) of (Some (tls, cfg), []) \<Rightarrow> gun_stream cfg (trojan_greet E p 3 m)
        | _ \<Rightarrow> io_bind (dial E (bp_addr (tp_Base p)) (DialOptions (tp_Base p) opts)) (\<lambda>c. safely c (io_bind (plainStream E p c) (trojan_greet E p 3 m)))) w = (r', w')"
  have plain: "outcome_ok (nt_next w) (nt_open w) r' w'"
    if b: "io_bind (dial E (bp_addr (tp_Base p)) (DialOptions (tp_Base p) opts)) (\<lambda>c. safely c (io_bind (plainStream E p c) (trojan_greet E p 3 m))) w = (r', w')"
  proof -
    obtain x s where d: "dial E (bp_addr (tp_Base p)) (DialOptions (tp_Base p) opts) w = (x, s)"
      by (cases "dial E (bp_addr (tp_Base p)) (DialOptions (tp_Base p) opts) w")
    show ?thesis
    proof (rule dial_cases [OF d])
      fix e assume "x = Inl e" "same_net w s"
      then show ?thesis using b d by (auto simp: io_bind_def outcome_ok_def same_net_def)
    next
      let ?c = "Conn (nt_next w) []"
      assume x: "x = Inr ?c" and s: "nt_open s = insert (nt_next w) (nt_open w)" "\<forall>i. spliced i (nt_events s) = spliced i (nt_events w)"
      have "safely ?c (io_bind (plainStream E p ?c) (trojan_greet E p 3 m)) s = (r', w')" using b d x by simp
      moreover have "stays (nt_next w) (io_bind (plainStream E p ?c) (trojan_greet E p 3 m))"
        by (rule stays_bind [OF stays_plain stays_greet]) simp_all
      ultimately show ?thesis using safely_outcome [OF _ assms(1) refl s] by simp
    qed simp
  qed
  show "outcome_ok (nt_next w) (nt_open w) r' w'"
  proof (cases "tp_gun p = None \<or> opts \<noteq> []")
    case True
    then show ?thesis using a by (intro plain) (auto split: option.splits list.splits prod.splits)
  next
    case False
    then obtain tls cfg where "tp_gun p = Some (tls, cfg)" "opts = []" by auto
    then have "gun_stream cfg (trojan_greet E p 3 m) w = (r', w')" using a by simp
    then show ?thesis by (rule gun_outcome [OF assms(1)]) (rule stays_greet)
  qed
qed simp

lemma vmess_listen_owns:
  assumes "net_ok w" and "vmess_ListenPacket E p m opts w = (r, w')"
  shows "owns_all (nt_open w) r w'"
proof (cases "if Resolved m then Inr m else map_sum id (\<lambda>ip. m\<lparr>DstIP := ip\<rparr>) (ne_ResolveIP E (Host m))")
  case (Inl e)
  then show ?thesis using assms(2) by (auto simp: vmess_ListenPacket_def owns_all_def)
next
  case (Inr m')
  note a = assms(2) [unfolded vmess_ListenPacket_def Inr sum.case]
  show ?thesis
  proof (rule tagged_owns [OF a])
    fix r'
    assume b: "(case (vp_gun p, opts) of (Some (tls, cfg), []) \<Rightarrow> gun_stream cfg (handshake E (VmessLayer (vp_client p) (parseVmessAddr m')))
          | _ \<Rightarrow> dial_stream E (VmessAdapter p) m' opts) w = (r', w')"
    show "outcome_ok (nt_next w) (nt_open w) r' w'"
    proof (cases "vp_gun p = None \<or> opts \<noteq> []")
      case True
      then show ?thesis using b by (intro dial_stream_outcome [OF assms(1)]) (auto split: option.splits list.splits prod.splits)
    next
      case False
      then obtain tls cfg where "vp_gun p = Some (tls, cfg)" "opts = []" by auto
      then have "gun_stream cfg (handshake E (VmessLayer (vp_client p) (parseVmessAddr m'))) w = (r', w')" using b by simp
      then show ?thesis by (rule gun_outcome [OF assms(1)]) (rule stays_handshake)
    qed
  qed simp
qed

text \<open>The packets of SOCKS 5 end with their TCP connection, so that closing it after an error closes both.\<close>

definition socks_associate :: "'k net_env \<Rightarrow> socks_proxy \<Rightarrow> option_fun list \<Rightarrow> 'k conn \<Rightarrow> ('k, 'k packet_conn) dialling" where
  "socks_associate E p opts c =
     io_bind (talk E c (ClientHandshake (ne_B E) (AddrFromStdAddrPort (Addr4 [0, 0, 0, 0]) 0) CmdUDPAssociate (socks_user_of p))) (\<lambda>bindAddr.
     io_bind (listen E (DialOptions (sk_Base p) opts)) (\<lambda>pc w0.
       let w = did (SplicedTo (conn_id c) (conn_id pc)) w0 in
       (case Socks_UDPAddr bindAddr of
          Some (Some (ip, port)) \<Rightarrow>
            if IsUnspecified ip then
              (case resolveUDPAddr E (bp_addr (sk_Base p)) of
                 Inl e \<Rightarrow> (Inl e, w)
               | Inr (sip, _) \<Rightarrow> (Inr (SocksPackets pc (sip, port) c), w))
            else (Inr (SocksPackets pc (ip, port) c), w)
        | _ \<Rightarrow> (Inl BadBindAddr, w))))"

lemma associate_cases:
  assumes "socks_associate E p opts c s = (r, s')"
  obtains e where "r = Inl e" "same_net s s'"
  | "nt_open s' = insert (nt_next s) (nt_open s)" "\<forall>i. spliced i (nt_events s') = spliced i (nt_events s) @ (if i = conn_id c then [nt_next s] else [])"
    "\<forall>pc. r = Inr pc \<longrightarrow> owned pc = {nt_next s, conn_id c}"
proof -
  let ?t = "talk E c (ClientHandshake (ne_B E) (AddrFromStdAddrPort (Addr4 [0, 0, 0, 0]) 0) CmdUDPAssociate (socks_user_of p))"
  obtain x s1 where t: "?t s = (x, s1)" by (cases "?t s")
  have q: "same_net s s1" by (rule quietD [OF quiet_talk t])
  show ?thesis
  proof (cases x)
    case (Inl e)
    then show ?thesis using assms t q that(1) by (auto simp: socks_associate_def)
  next
    case (Inr b)
    obtain y s2 where l: "listen E (DialOptions (sk_Base p) opts) s1 = (y, s2)" by (cases "listen E (DialOptions (sk_Base p) opts) s1")
    show ?thesis
    proof (rule listen_cases [OF l])
      fix e assume "y = Inl e" "same_net s1 s2"
      then show ?thesis using assms t Inr l q same_trans that(1) by (auto simp: socks_associate_def)
    next
      assume y: "y = Inr (Conn (nt_next s1) [])" and s2: "nt_open s2 = insert (nt_next s1) (nt_open s1)" "\<forall>i. spliced i (nt_events s2) = spliced i (nt_events s1)"
      have "s' = did (SplicedTo (conn_id c) (nt_next s1)) s2 \<and> (\<forall>pc. r = Inr pc \<longrightarrow> owned pc = {nt_next s1, conn_id c})"
        using assms t Inr l y by (auto simp: socks_associate_def Let_def split: option.splits prod.splits sum.splits if_splits)
      then show ?thesis using s2 q by (intro that(2)) (auto simp: did_def same_net_def spliced_append)
    qed simp
  qed
qed

lemma socks_listen_owns:
  assumes "net_ok w" and "socks_ListenPacket E p opts w = (r, w')"
  shows "owns_all (nt_open w) r w'"
proof -
  obtain x s where d: "dial E (bp_addr (sk_Base p)) (DialOptions (sk_Base p) opts) w = (x, s)"
    by (cases "dial E (bp_addr (sk_Base p)) (DialOptions (sk_Base p) opts) w")
  have fresh: "nt_next w \<notin> nt_open w" "Suc (nt_next w) \<notin> nt_open w" "spliced (nt_next w) (nt_events w) = []"
    using assms(1) by (auto simp: net_ok_def)
  show ?thesis
  proof (rule dial_cases [OF d])
    fix e assume "x = Inl e" "same_net w s"
    then show ?thesis using assms(2) d by (auto simp: socks_ListenPacket_def io_bind_def owns_all_def same_net_def)
  next
    let ?c = "Conn (nt_next w) []"
    assume x: "x = Inr ?c" and s: "nt_next s = Suc (nt_next w)" "nt_open s = insert (nt_next w) (nt_open w)" "\<forall>i. spliced i (nt_events s) = spliced i (nt_events w)"
    obtain c s1 where c: "conn_id c = nt_next w" "same_net s s1" "safely c (socks_associate E p opts c) s1 = (r, w')"
    proof (cases "sk_tlsConfig p")
      case None
      then show ?thesis using assms(2) d x that [of ?c s] by (simp add: socks_ListenPacket_def socks_associate_def)
    next
      case (Some cfg)
      obtain y s1 where a: "net_attempt E (Layered ?c (TlsLayer cfg)) s = (y, s1)" by (cases "net_attempt E (Layered ?c (TlsLayer cfg)) s")
      have "same_net s s1" by (rule quietD [OF quiet_attempt a]) simp
      then show ?thesis using assms(2) d x Some a that [of "wrapped (TlsLayer cfg) ?c" s1]
        by (simp add: socks_ListenPacket_def socks_associate_def io_bind_def io_try_def)
    qed
    obtain z s2 where z: "socks_associate E p opts c s1 = (z, s2)" by (cases "socks_associate E p opts c s1")
    have rw: "case z of Inl e \<Rightarrow> r = Inl e \<and> w' = close_net (nt_next w) s2 | Inr pc \<Rightarrow> r = Inr pc \<and> w' = s2"
      using c z by (cases z) (auto simp: safely_def)
    show ?thesis
    proof (rule associate_cases [OF z])
      fix e assume "z = Inl e" "same_net s1 s2"
      then show ?thesis using rw c(2) s fresh by (auto simp: owns_all_def close_net_def did_def same_net_def)
    next
      assume "nt_open s2 = insert (nt_next s1) (nt_open s1)" "\<forall>i. spliced i (nt_events s2) = spliced i (nt_events s1) @ (if i = conn_id c then [nt_next s1] else [])"
        "\<forall>pc. z = Inr pc \<longrightarrow> owned pc = {nt_next s1, conn_id c}"
      then show ?thesis using rw c(1,2) s fresh by (cases z) (auto simp: owns_all_def close_net_def did_def same_net_def)
    qed
  qed simp
qed

text \<open>A listen that fails leaves open what was open, and one that succeeds opens what its packet connection owns, Snell aside.\<close>

theorem listen_owns_all:
  assumes "net_ok w" and "ListenPacketContext E a m opts w = (r, w')" and "\<forall>p. a \<noteq> SnellAdapter p"
  shows "case r of Inl e \<Rightarrow> nt_open w' = nt_open w | Inr pc \<Rightarrow> nt_open w' = owned pc \<union> nt_open w"
proof -
  have "owns_all (nt_open w) r w'"
  proof (cases a)
    case DirectAdapter
    obtain x s where l: "listen E (DialOptions direct_base opts) w = (x, s)" by (cases "listen E (DialOptions direct_base opts) w")
    show ?thesis
      by (rule listen_cases [OF l]) (use assms(2) l in \<open>auto simp: DirectAdapter io_bind_def owns_all_def same_net_def\<close>)
  next
    case (SsrAdapter p)
    then show ?thesis using assms(2) ss_listen_owns [OF assms(1)]
      by (fastforce simp: ssr_packets_def Let_def split: ssr_protocol.split)
  next
    case (SsAdapter p)
    then show ?thesis using assms(2) ss_listen_owns [OF assms(1)] by (fastforce simp: ss_packets_def)
  qed (use assms socks_listen_owns vmess_listen_owns trojan_listen_owns in \<open>auto simp: owns_all_def\<close>)
  then show ?thesis by (simp add: owns_all_def)
qed

text \<open>Snell: when the header of the packets cannot be written, the connection stays open, and nobody has it.\<close>

theorem snell_packets_leak:
  assumes "net_ok w" and "ne_fails E (nt_events w) (Dialled ''tcp'' (bp_addr (sn_Base p)) (DialOptions (sn_Base p) opts)) = None"
    and "sn_version p < 3 \<or> (\<forall>evs c. ne_writes E evs c = Some 0)"
  shows "\<exists>e w'. ListenPacketContext E (SnellAdapter p) m opts w = (Inl e, w') \<and> nt_next w \<notin> nt_open w \<and> nt_open w' = insert (nt_next w) (nt_open w)"
  using assms by (cases "sn_version p < 3")
    (auto simp: snell_ListenPacket_def dial_def net_attempt_def new_conn_def io_bind_def Let_def talk_def conn_Write_def did_def net_ok_def)

subsection \<open>What is sent\<close>

lemma talk_writes: "talk E c (conn_Write bs) w = (Inr x, w') \<Longrightarrow> last (nt_events w') = Talked c bs"
  by (auto simp: talk_def conn_Write_def did_def split: prod.splits option.splits nat.splits)

lemma safely_Inr: "safely c m w = (Inr x, w') \<longleftrightarrow> m w = (Inr x, w')"
  by (simp add: safely_def split: prod.split sum.split)

lemma dial_Inr: "dial E addr os w = (Inr c, w') \<Longrightarrow> c = Conn (nt_next w) []"
  by (auto simp: dial_def io_bind_eq_Inr net_attempt_def new_conn_def did_def split: option.splits)

lemma dial_stream_Inr:
  assumes "dial_stream E a m opts w = (Inr c, w')"
  shows "\<exists>s. StreamConn E a m (Conn (nt_next w) []) s = (Inr c, w')"
  using assms unfolding dial_stream_def io_bind_eq_Inr safely_Inr using dial_Inr by blast

text \<open>A connection through Shadowsocks or ShadowsocksR has the layers of the options, and its first bytes are the address of the destination.\<close>

definition plugin_layers :: "'k ss_proxy \<Rightarrow> 'k layer list \<Rightarrow> bool" where
  "plugin_layers p ls \<longleftrightarrow>
     (if ss_obfsMode p = ''tls'' then ls = [TlsObfsLayer (po_Host (the (ss_obfsOption p)))]
      else if ss_obfsMode p = ''http'' then ls = [HttpObfsLayer (po_Host (the (ss_obfsOption p))) (server_port (bp_addr (ss_Base p)))]
      else if ss_obfsMode p = ''websocket'' then
        (\<exists>cfg l. l \<in> {WsLayer cfg, EarlyWsLayer cfg} \<and> ls = l # (if v2_Mux (the (ss_v2rayOption p)) then [MuxLayer] else []))
      else ls = [])"

lemma ws_layers: "StreamWebsocketConn E c cfg w = (Inr d, w') \<Longrightarrow> \<exists>cfg l. l \<in> {WsLayer cfg, EarlyWsLayer cfg} \<and> layers d = layers c @ [l]"
  by (auto simp: StreamWebsocketConn_def Let_def handshake_def io_bind_eq_Inr wrapped_def split: if_splits)

theorem ss_sends_address:
  assumes "Adapter_DialContext E (SsAdapter p) m opts w = (Inr (Some c), w')"
  shows "last (nt_events w') = Talked c (serializesSocksAddr (ne_B E) m) \<and>
    (\<exists>ls. plugin_layers p ls \<and> layers c = ls @ (case ss_cipher p of Dummy \<Rightarrow> [] | ci \<Rightarrow> [CipherLayer ci]))"
proof -
  have "dial_stream E (SsAdapter p) m opts w = (Inr c, w')" using assms by (auto simp: io_bind_eq_Inr)
  then obtain s where s: "ss_StreamConn E p m (Conn (nt_next w) []) s = (Inr c, w')" using dial_stream_Inr by fastforce
  then obtain d s1 where d: "(if ss_obfsMode p = ''tls'' then io_ret (wrapped (TlsObfsLayer (po_Host (the (ss_obfsOption p)))) (Conn (nt_next w) []))
        else if ss_obfsMode p = ''http'' then
          io_ret (wrapped (HttpObfsLayer (po_Host (the (ss_obfsOption p))) (server_port (bp_addr (ss_Base p)))) (Conn (nt_next w) []))
        else if ss_obfsMode p = ''websocket'' then NewV2rayObfs E (Conn (nt_next w) []) (the (ss_v2rayOption p))
        else io_ret (Conn (nt_next w) [])) s = (Inr d, s1)"
    and t: "talk E (ciphered (ss_cipher p) d) (conn_Write (serializesSocksAddr (ne_B E) m)) s1 = (Inr (), w')" and c: "c = ciphered (ss_cipher p) d"
    by (auto simp: ss_StreamConn_def io_bind_eq_Inr Let_def)
  have v: "\<exists>cfg l. l \<in> {WsLayer cfg, EarlyWsLayer cfg} \<and> layers d = l # (if v2_Mux v2 then [MuxLayer] else [])"
    if "NewV2rayObfs E (Conn (nt_next w) []) v2 s = (Inr d, s1)" for v2
  proof -
    from that obtain cfg1 c1 s2 where c1: "StreamWebsocketConn E (Conn (nt_next w) []) cfg1 s = (Inr c1, s2)"
      "d = (if v2_Mux v2 then wrapped MuxLayer c1 else c1)"
      unfolding NewV2rayObfs_def Let_def io_bind_eq_Inr io_ret_def by blast
    show ?thesis using ws_layers [OF c1(1)] unfolding c1(2) by (cases "v2_Mux v2") (simp_all add: wrapped_def)
  qed
  have "plugin_layers p (layers d)"
    unfolding plugin_layers_def using d v [of "the (ss_v2rayOption p)"]
    by (cases "ss_obfsMode p = ''tls''"; cases "ss_obfsMode p = ''http''"; cases "ss_obfsMode p = ''websocket''") (auto simp: wrapped_def)
  moreover have "layers c = layers d @ (case ss_cipher p of Dummy \<Rightarrow> [] | ci \<Rightarrow> [CipherLayer ci])"
    by (simp add: c ciphered_def wrapped_def split: picked.split)
  ultimately show ?thesis using talk_writes [OF t] c by blast
qed

text \<open>
  Trojan over gRPC: with options, and the tunnel always gives some, a stream goes through gRPC but the packets are sent in plain
  TLS, which the server does not expect there.
\<close>

theorem trojan_grpc_packets:
  assumes "to_Network opt = ''grpc''" and "opts \<noteq> []"
  shows "ListenPacketContext E (TrojanAdapter (NewTrojan V opt)) m opts w = (Inr pc, w') \<Longrightarrow>
      \<exists>c. pc = TrojanPackets c (tp_instance (NewTrojan V opt)) \<and> layers c = [TlsLayer (trojan_tls (NewTrojan V opt) [''h2'', ''http/1.1''])]"
    and "Adapter_DialContext E (TrojanAdapter (NewTrojan V opt)) m opts w = (Inr (Some c), w') \<Longrightarrow>
      \<exists>tls cfg. tp_gun (NewTrojan V opt) = Some (tls, cfg) \<and> layers c = [GunLayer (Some tls) cfg]"
proof -
  obtain tls cfg where g: "tp_gun (NewTrojan V opt) = Some (tls, cfg)" using assms(1) by (simp add: NewTrojan_def Let_def)
  have o: "tp_option (NewTrojan V opt) = opt" by (simp add: NewTrojan_def Let_def)
  show "\<exists>c. pc = TrojanPackets c (tp_instance (NewTrojan V opt)) \<and> layers c = [TlsLayer (trojan_tls (NewTrojan V opt) [''h2'', ''http/1.1''])]"
    if "ListenPacketContext E (TrojanAdapter (NewTrojan V opt)) m opts w = (Inr pc, w')"
  proof -
    have "trojan_ListenPacket E p m opts = io_bind (io_bind (dial E (bp_addr (tp_Base p)) (DialOptions (tp_Base p) opts))
        (\<lambda>c. safely c (io_bind (plainStream E p c) (trojan_greet E p 3 m)))) (\<lambda>c. io_ret (TrojanPackets c (tp_instance p)))" for p
      using assms(2) by (cases opts) (simp_all add: trojan_ListenPacket_def split: option.split)
    from that [unfolded ListenPacketContext.simps this io_bind_eq_Inr [of _ "\<lambda>c. io_ret (TrojanPackets c t)" for t]]
    have "\<exists>c. io_bind (dial E (bp_addr (tp_Base (NewTrojan V opt))) (DialOptions (tp_Base (NewTrojan V opt)) opts))
        (\<lambda>c. safely c (io_bind (plainStream E (NewTrojan V opt) c) (trojan_greet E (NewTrojan V opt) 3 m))) w = (Inr c, w') \<and>
        pc = TrojanPackets c (tp_instance (NewTrojan V opt))"
      unfolding io_ret_def by blast
    then obtain c s1 where pc: "pc = TrojanPackets c (tp_instance (NewTrojan V opt))"
      and p: "io_bind (plainStream E (NewTrojan V opt) (Conn (nt_next w) [])) (trojan_greet E (NewTrojan V opt) 3 m) s1 = (Inr c, w')"
      unfolding io_bind_eq_Inr safely_Inr using dial_Inr by blast
    have "layers c = [TlsLayer (trojan_tls (NewTrojan V opt) [''h2'', ''http/1.1''])]"
      using p assms(1) by (auto simp: plainStream_def o Let_def io_bind_eq_Inr trojan_greet_def handshake_def wrapped_def)
    then show ?thesis using pc by blast
  qed
  show "\<exists>tls cfg. tp_gun (NewTrojan V opt) = Some (tls, cfg) \<and> layers c = [GunLayer (Some tls) cfg]"
    if "Adapter_DialContext E (TrojanAdapter (NewTrojan V opt)) m opts w = (Inr (Some c), w')"
  proof -
    have "dial_stream E (TrojanAdapter (NewTrojan V opt)) m opts w = (Inr c, w')"
      using that assms(2) g by (auto simp: io_bind_eq_Inr split: list.splits)
    then obtain s where "trojan_StreamConn E (NewTrojan V opt) m (Conn (nt_next w) []) s = (Inr c, w')" using dial_stream_Inr by fastforce
    then show ?thesis by (auto simp: g trojan_StreamConn_def StreamGunWithConn_def trojan_greet_def wrapped_def io_bind_eq_Inr)
  qed
qed

end
