(* ===== verification/StructureProps.thy ===== *)
theory StructureProps
  imports Structure
begin

text \<open>
  The decoder of options: it keeps the type of what it fills, it panics only on nulls, which it does for a null in a nested
  struct, and decoding what encodes a value gives the value.
\<close>

subsection \<open>Types\<close>

fun kind_ok :: "kind \<Rightarrow> bool" where
  "kind_ok (KSlice k) = kind_ok k"
| "kind_ok (KMap k) = kind_ok k"
| "kind_ok (KStruct fs) \<longleftrightarrow> distinct (map fst fs) \<and> (\<forall>f \<in> set fs. case f of (n, t, k) \<Rightarrow> kind_ok k)"
| "kind_ok _ = True"

fun fits_kind :: "kind \<Rightarrow> gval \<Rightarrow> bool" where
  "fits_kind KInt v = (case v of GInt i \<Rightarrow> True | _ \<Rightarrow> False)"
| "fits_kind KString v = (case v of GString s \<Rightarrow> True | _ \<Rightarrow> False)"
| "fits_kind KBool v = (case v of GBool b \<Rightarrow> True | _ \<Rightarrow> False)"
| "fits_kind (KSlice k) v = (case v of GSlice vs \<Rightarrow> \<forall>x \<in> set vs. fits_kind k x | _ \<Rightarrow> False)"
| "fits_kind (KMap k) v =
     (case v of GMap None \<Rightarrow> True | GMap (Some m) \<Rightarrow> distinct (map fst m) \<and> (\<forall>x \<in> set m. fits_kind k (snd x)) | _ \<Rightarrow> False)"
| "fits_kind KInterface v = (case v of GInterface x \<Rightarrow> True | _ \<Rightarrow> False)"
| "fits_kind (KStruct fs) v =
     (case v of
        GStruct vs \<Rightarrow> map fst vs = map fst fs \<and> (\<forall>f \<in> set fs. case f of (n, t, k) \<Rightarrow> (case map_of vs n of Some w \<Rightarrow> fits_kind k w | None \<Rightarrow> False))
      | _ \<Rightarrow> False)"
| "fits_kind KOther v = True"

definition field_fits :: "(string \<times> gval) list \<Rightarrow> string \<times> string \<times> kind \<Rightarrow> bool" where
  "field_fits vs f = (case f of (n, t, k) \<Rightarrow> (case map_of vs n of Some w \<Rightarrow> fits_kind k w | None \<Rightarrow> False))"

lemma fits_struct: "fits_kind (KStruct fs) (GStruct vs) \<longleftrightarrow> map fst vs = map fst fs \<and> (\<forall>f \<in> set fs. field_fits vs f)"
  by (simp add: field_fits_def)

lemma map_of_zip_fields:
  "distinct (map fst fs) \<Longrightarrow> (n, t, k) \<in> set fs \<Longrightarrow> map_of (map (\<lambda>(n, t, k). (n, zero_value k)) fs) n = Some (zero_value k)"
  by (induction fs) (auto simp: rev_image_eqI)

lemma zero_fits: "kind_ok k \<Longrightarrow> fits_kind k (zero_value k)"
proof (induction k rule: kind_ok.induct)
  case (3 fs)
  have "map fst (map (\<lambda>(n, t, k). (n, zero_value k)) fs) = map fst fs" by auto
  moreover have "field_fits (map (\<lambda>(n, t, k). (n, zero_value k)) fs) f" if "f \<in> set fs" for f
    using 3 that by (cases f) (fastforce simp: field_fits_def map_of_zip_fields)
  ultimately show ?case by (simp only: fits_struct zero_value.simps) blast
qed simp_all

lemma keys_update_known: "n \<in> fst ` set vs \<Longrightarrow> map fst (AList.update n w vs) = map fst vs"
  by (induction vs) auto

lemma map_of_known: "map_of vs n = Some w \<Longrightarrow> n \<in> fst ` set vs"
  by (metis domI dom_map_of_conv_image_fst)

lemma update_entries_fit:
  "fits_kind k w \<Longrightarrow> \<forall>x \<in> set m. fits_kind k (snd x) \<Longrightarrow> \<forall>x \<in> set (AList.update key w m). fits_kind k (snd x)"
  by (induction m) auto

lemma field_fits_update_other: "n \<noteq> fst f \<Longrightarrow> field_fits (AList.update n w vs) f = field_fits vs f"
  by (cases f) (simp add: field_fits_def update_conv')

lemma map_sum_Inr_iff: "map_option (map_sum id g) r = Some (Inr w) \<longleftrightarrow> (\<exists>x. r = Some (Inr x) \<and> w = g x)"
  by (cases r) (auto simp: map_sum_def split: sum.splits)

lemma map_sum_None_iff: "map_option (map_sum id g) r = None \<longleftrightarrow> r = None"
  by simp

lemmas scalar_defs = decodeInt_def decodeString_def decodeBool_def setInterface_def

lemma fields_step:
  assumes w: "fits_kind k w" and d: "distinct (map fst ((n, tag, k) # fs))" and n: "n \<in> fst ` set vs"
    and f: "\<forall>f \<in> set ((n, tag, k) # fs). field_fits vs f"
    and ih: "map fst st' = map fst (AList.update n w vs)" "\<forall>f \<in> set fs. field_fits st' f"
        "\<forall>f. fst f \<notin> fst ` set fs \<longrightarrow> field_fits st' f = field_fits (AList.update n w vs) f"
  shows "map fst st' = map fst vs \<and> (\<forall>f \<in> set ((n, tag, k) # fs). field_fits st' f)
        \<and> (\<forall>f. fst f \<notin> fst ` set ((n, tag, k) # fs) \<longrightarrow> field_fits st' f = field_fits vs f)"
proof -
  have "field_fits (AList.update n w vs) (n, tag, k)" using w by (simp add: field_fits_def update_conv')
  moreover have "field_fits st' (n, tag, k) = field_fits (AList.update n w vs) (n, tag, k)"
    by (rule ih(3)[rule_format]) (use d in simp)
  ultimately have 1: "field_fits st' (n, tag, k)" by simp
  have 2: "field_fits st' f = field_fits vs f" if "fst f \<notin> fst ` set ((n, tag, k) # fs)" for f
  proof -
    have "fst f \<notin> fst ` set fs" "n \<noteq> fst f" using that by auto
    then show ?thesis using ih(3) field_fits_update_other by blast
  qed
  have 3: "map fst st' = map fst vs" using ih(1) n by (simp add: keys_update_known)
  show ?thesis using 1 2 3 ih(2) by (metis set_ConsD)
qed

lemma struct_result:
  assumes fit: "fits_kind (KStruct fs) (GStruct vs)"
    and r: "map_option (map_sum id GStruct) (decode_fields W name m fs [] vs) = Some (Inr w)"
    and "\<And>st'. decode_fields W name m fs [] vs = Some (Inr st') \<Longrightarrow> map fst st' = map fst vs \<and> (\<forall>f \<in> set fs. field_fits st' f)"
  shows "fits_kind (KStruct fs) w"
proof -
  obtain st' where st: "decode_fields W name m fs [] vs = Some (Inr st')" "w = GStruct st'"
    using r unfolding map_sum_Inr_iff by blast
  then show ?thesis using assms(3)[OF st(1)] fit unfolding st(2) fits_struct by metis
qed

lemma fits_cases:
  "fits_kind (KStruct fs) v \<Longrightarrow> \<exists>vs. v = GStruct vs \<and> fits_kind (KStruct fs) (GStruct vs)"
  "fits_kind (KSlice k) v \<Longrightarrow> \<exists>vs. v = GSlice vs \<and> (\<forall>x \<in> set vs. fits_kind k x)"
  "fits_kind (KMap k) v \<Longrightarrow> v = GMap None \<or> (\<exists>m. v = GMap (Some m) \<and> distinct (map fst m) \<and> (\<forall>x \<in> set m. fits_kind k (snd x)))"
  by (cases v; simp split: option.splits)+

theorem decode_keeps_type:
  "decode_value W name data k v = Some (Inr w) \<Longrightarrow> kind_ok k \<Longrightarrow> fits_kind k v \<Longrightarrow> fits_kind k w"
  "decode_elems W name i xs k vs = Some (Inr ws) \<Longrightarrow> kind_ok k \<Longrightarrow> \<forall>x \<in> set vs. fits_kind k x \<Longrightarrow> \<forall>x \<in> set ws. fits_kind k x"
  "decode_entries W name m k errors es = Some (Inr es') \<Longrightarrow> kind_ok k \<Longrightarrow> distinct (map fst es) \<Longrightarrow> \<forall>x \<in> set es. fits_kind k (snd x)
     \<Longrightarrow> distinct (map fst es') \<and> (\<forall>x \<in> set es'. fits_kind k (snd x))"
  "decode_fields W name src fs errors st = Some (Inr st') \<Longrightarrow> distinct (map fst fs) \<Longrightarrow> \<forall>f \<in> set fs. case f of (n, t, k) \<Rightarrow> kind_ok k
     \<Longrightarrow> \<forall>f \<in> set fs. field_fits st f
     \<Longrightarrow> map fst st' = map fst st \<and> (\<forall>f \<in> set fs. field_fits st' f) \<and> (\<forall>f. fst f \<notin> fst ` set fs \<longrightarrow> field_fits st' f = field_fits st f)"
proof (induction W name data k v and W name i xs k vs and W name m k errors es and W name src fs errors st
    arbitrary: w and ws and es' and st' rule: decode_value_decode_elems_decode_entries_decode_fields.induct)
  case (4 W name data k v)
  obtain vs xs where v: "v = GSlice vs" "\<forall>x \<in> set vs. fits_kind k x" and x: "data = VSlice xs"
    using "4.prems" fits_cases(2) by (auto split: any_value.splits simp del: fits_kind.simps)
  obtain ws where ws: "decode_elems W name 0 xs k vs = Some (Inr ws)" "w = GSlice ws"
    using "4.prems"(1) by (auto simp: v x map_sum_Inr_iff simp del: map_option_eq_Some)
  have "\<forall>x \<in> set ws. fits_kind k x" by (rule "4.IH"[OF x]) (use ws v "4.prems" in simp_all)
  then show ?case using ws by simp
next
  case (5 W name data k v)
  obtain m where x: "data = VMap m" using "5.prems" by (auto split: any_value.splits simp del: fits_kind.simps)
  define es where "es = (case v of GMap (Some m) \<Rightarrow> m | _ \<Rightarrow> [])"
  obtain es' where es': "decode_entries W name m k [] es = Some (Inr es')" "w = GMap (Some es')"
    using "5.prems"(1) by (auto simp: x es_def map_sum_Inr_iff simp del: map_option_eq_Some)
  have "distinct (map fst es)" "\<forall>x \<in> set es. fits_kind k (snd x)" using fits_cases(3)[OF "5.prems"(3)] by (auto simp: es_def)
  then have "distinct (map fst es') \<and> (\<forall>x \<in> set es'. fits_kind k (snd x))"
    using "5.IH"[OF x] es' "5.prems" by (simp add: es_def)
  then show ?case using es' by simp
next
  case (7 W name data fs v)
  obtain vs where v: "v = GStruct vs" "fits_kind (KStruct fs) (GStruct vs)" using fits_cases(1)[OF "7.prems"(3)] by blast
  obtain m where x: "data = VMap m" using "7.prems"(1) by (auto split: any_value.splits)
  show ?case
  proof (rule struct_result[OF v(2)])
    show "map_option (map_sum id GStruct) (decode_fields W name m fs [] vs) = Some (Inr w)" using "7.prems"(1) by (simp add: v x)
  next
    fix st' assume st: "decode_fields W name m fs [] vs = Some (Inr st')"
    show "map fst st' = map fst vs \<and> (\<forall>f \<in> set fs. field_fits st' f)"
      using "7.IH"[OF x] st "7.prems"(2) v fits_struct[of fs vs] by (simp del: fits_kind.simps)
  qed
next
  case (10 W name i x xs k vs)
  define v where "v = (case vs of [] \<Rightarrow> zero_value k | v # _ \<Rightarrow> v)"
  have v: "fits_kind k v" "\<forall>x \<in> set (tl vs). fits_kind k x"
    using "10.prems" zero_fits by (auto simp: v_def dest: list.set_sel split: list.splits)
  note step = "10.prems"(1)[unfolded decode_elems.simps Let_def, folded v_def]
  show ?case
  proof (cases "x = VNil")
    case True
    then have h: "W \<or> (case k of KMap _ \<Rightarrow> True | KSlice _ \<Rightarrow> True | _ \<Rightarrow> False)"
      and "map_option (map_sum id (\<lambda>ws. v # ws)) (decode_elems W name (Suc i) xs k (tl vs)) = Some (Inr ws)"
      using step by (simp_all split: if_splits)
    then obtain us where "decode_elems W name (Suc i) xs k (tl vs) = Some (Inr us)" "ws = v # us"
      unfolding map_sum_Inr_iff by blast
    then show ?thesis using "10.IH"(1)[OF v_def True h _ "10.prems"(2) v(2)] v(1) by (metis set_ConsD)
  next
    case False
    obtain u where u: "decode_value W (elem_name name i) x k v = Some (Inr u)"
        "map_option (map_sum id (\<lambda>ws. u # ws)) (decode_elems W name (Suc i) xs k (tl vs)) = Some (Inr ws)"
      using step False by (simp split: option.splits sum.splits)
    then obtain us where "decode_elems W name (Suc i) xs k (tl vs) = Some (Inr us)" "ws = u # us"
      unfolding map_sum_Inr_iff by blast
    then show ?thesis using "10.IH"(2)[OF v_def False u(1) "10.prems"(2) v(1)] "10.IH"(3)[OF v_def False u(1) refl _ "10.prems"(2) v(2)] by (metis set_ConsD)
  qed
next
  case (12 W name key x xs k errors m)
  consider "x = VNil" "decode_entries W name xs k (errors @ [FieldInvalid (entry_name name key)]) m = Some (Inr es')"
    | e where "x \<noteq> VNil" "decode_value W (entry_name name key) x k (zero_value k) = Some (Inl e)" "decode_entries W name xs k (errors @ [e]) m = Some (Inr es')"
    | u where "x \<noteq> VNil" "decode_value W (entry_name name key) x k (zero_value k) = Some (Inr u)"
        "decode_entries W name xs k errors (AList.update key u m) = Some (Inr es')"
    using "12.prems"(1) by (cases "x = VNil") (auto split: option.splits sum.splits)
  then show ?case
  proof cases
    case 1
    show ?thesis by (rule "12.IH"(1)[OF 1]) (fact "12.prems"(2-4))+
  next
    case 2
    show ?thesis by (rule "12.IH"(3)[OF 2(1,2) refl 2(3)]) (fact "12.prems"(2-4))+
  next
    case 3
    have "fits_kind k u" by (rule "12.IH"(2)[OF 3(1,2) "12.prems"(2) zero_fits[OF "12.prems"(2)]])
    show ?thesis
      by (rule "12.IH"(4)[OF 3(1,2) refl 3(3) "12.prems"(2) distinct_update[OF "12.prems"(3)] update_entries_fit[OF \<open>fits_kind k u\<close> "12.prems"(4)]])
  qed
next
  case (14 W name src n tag k fs errors vs)
  have "field_fits vs (n, tag, k)" using "14.prems"(4) by (meson list.set_intros(1))
  then obtain v where v: "map_of vs n = Some v" "fits_kind k v" "n \<in> fst ` set vs"
    by (auto simp: field_fits_def dest: map_of_known split: option.splits)
  show ?case
  proof (cases "find_entry (field_key n tag) src")
    case None
    have "map fst st' = map fst vs \<and> (\<forall>f \<in> set fs. field_fits st' f) \<and> (\<forall>f. fst f \<notin> fst ` set fs \<longrightarrow> field_fits st' f = field_fits vs f)"
      by (rule "14.IH"(1)[OF None]) (use "14.prems" None in simp_all)
    then show ?thesis using "14.prems"(2,4) by auto
  next
    case (Some x)
    have kd: "kind_ok k" "\<forall>f \<in> set fs. case f of (n, t, k) \<Rightarrow> kind_ok k" and d: "distinct (map fst fs)" using "14.prems"(2,3) by simp_all
    consider e where "decode_value W (dotted_name name (field_key n tag)) x k v = Some (Inl e)" "decode_fields W name src fs (errors @ [e]) vs = Some (Inr st')"
      | u where "decode_value W (dotted_name name (field_key n tag)) x k v = Some (Inr u)" "decode_fields W name src fs errors (AList.update n u vs) = Some (Inr st')"
      using "14.prems"(1) by (auto simp: Some v(1) split: option.splits sum.splits)
    then show ?thesis
    proof cases
      case 1
      have "map fst st' = map fst vs \<and> (\<forall>f \<in> set fs. field_fits st' f) \<and> (\<forall>f. fst f \<notin> fst ` set fs \<longrightarrow> field_fits st' f = field_fits vs f)"
        by (rule "14.IH"(3)[OF Some, unfolded v(1) option.case, OF 1(1) refl 1(2) d kd(2)]) (use "14.prems"(4) in simp)
      then show ?thesis using "14.prems"(2,4) by auto
    next
      case 2
      have u: "fits_kind k u" by (rule "14.IH"(2)[OF Some, unfolded v(1) option.case, OF 2(1) kd(1) v(2)])
      have "\<forall>f \<in> set fs. field_fits (AList.update n u vs) f"
        using "14.prems"(2,4) by (metis field_fits_update_other image_eqI distinct.simps(2) list.simps(9) list.set_intros(2) fst_conv image_set)
      note ih = "14.IH"(4)[OF Some, unfolded v(1) option.case, OF 2(1) refl 2(2) d kd(2) this]
      show ?thesis
        by (rule fields_step[OF u "14.prems"(2) v(3) "14.prems"(4)]) (use ih in blast)+
    qed
  qed
qed (auto simp: scalar_defs joined_def split: any_value.splits if_splits option.splits gval.splits)

subsection \<open>Nulls\<close>

fun null_free :: "any_value \<Rightarrow> bool" where
  "null_free VNil = False"
| "null_free (VSlice xs) = (\<forall>x \<in> set xs. null_free x)"
| "null_free (VMap m) = (\<forall>x \<in> set m. null_free (snd x))"
| "null_free _ = True"

lemma find_entry_in: "find_entry key m = Some v \<Longrightarrow> \<exists>k. (k, v) \<in> set m"
  by (auto simp: find_entry_def find_Some_iff dest: map_of_SomeD split: option.splits) (metis nth_mem)

lemma find_null_free: "find_entry key m = Some v \<Longrightarrow> \<forall>x \<in> set m. null_free (snd x) \<Longrightarrow> null_free v"
  using find_entry_in by fastforce

text \<open>Without a null in the source nothing panics.\<close>

theorem null_free_no_panic:
  "null_free data \<Longrightarrow> decode_value W name data k v \<noteq> None"
  "\<forall>x \<in> set xs. null_free x \<Longrightarrow> decode_elems W name i xs k vs \<noteq> None"
  "\<forall>x \<in> set m. null_free (snd x) \<Longrightarrow> decode_entries W name m k errors es \<noteq> None"
  "\<forall>x \<in> set src. null_free (snd x) \<Longrightarrow> decode_fields W name src fs errors st \<noteq> None"
proof (induction W name data k v and W name i xs k vs and W name m k errors es and W name src fs errors st
    rule: decode_value_decode_elems_decode_entries_decode_fields.induct)
  case (14 W name src n tag k fs errors vs)
  show ?case
  proof (cases "find_entry (field_key n tag) src")
    case None
    then show ?thesis using "14.IH"(1)[OF None "14.prems"] by simp
  next
    case (Some x)
    have "null_free x" using find_null_free[OF Some] "14.prems" by blast
    note "14.IH"(2)[OF Some this] "14.IH"(3)[OF Some _ _ "14.prems"] "14.IH"(4)[OF Some _ _ "14.prems"]
    then show ?thesis using Some by (fastforce split: option.splits sum.splits)
  qed
qed (fastforce simp: scalar_defs joined_def Let_def split: any_value.splits option.splits sum.splits)+

text \<open>A null for a field of a nested struct is a panic, whatever stands before it.\<close>

definition panics_on_null :: "kind \<Rightarrow> bool" where
  "panics_on_null k = (case k of KSlice _ \<Rightarrow> False | KMap _ \<Rightarrow> False | KOther \<Rightarrow> False | _ \<Rightarrow> True)"

lemma null_panics: "decode_value W name VNil k v = None \<longleftrightarrow> panics_on_null k"
  by (cases k) (auto simp: panics_on_null_def scalar_defs)

theorem nested_null_panics:
  "(n, tag, k) \<in> set fs \<Longrightarrow> find_entry (field_key n tag) src = Some VNil \<Longrightarrow> panics_on_null k \<Longrightarrow> decode_fields W name src fs errors vs = None"
proof (induction fs arbitrary: errors vs)
  case (Cons f fs)
  obtain n' tag' k' where f: "f = (n', tag', k')" by (cases f)
  show ?case
  proof (cases "f = (n, tag, k)")
    case True
    then show ?thesis using Cons.prems by (simp add: null_panics[THEN iffD2])
  next
    case False
    then have "decode_fields W name src fs errors vs = None" for errors vs using Cons by simp
    then show ?thesis by (simp add: f split: option.splits sum.splits)
  qed
qed simp

theorem nested_null_panics_witness:
  "decode_fields False ''ws-opts'' [(''path'', VString ''/''), (''max-early-data'', VNil)]
     [(''Path'', ''path,omitempty'', KString), (''MaxEarlyData'', ''max-early-data,omitempty'', KInt)] [] [] = None"
  by (rule nested_null_panics[of "''MaxEarlyData''" "''max-early-data,omitempty''" KInt])
    (simp_all add: find_entry_def field_key_def tag_key_def panics_on_null_def)

text \<open>For a field of the struct itself a null is a missing key.\<close>

theorem Decode_gives_required:
  "Decode W src ts dst = Some (Inr w) \<Longrightarrow> Field n tag k \<in> set ts \<Longrightarrow> \<not> omitempty tag
     \<Longrightarrow> \<exists>x. map_of src (tag_key tag) = Some x \<and> x \<noteq> VNil"
  by (induction W src ts dst rule: Decode.induct) (auto split: option.splits sum.splits any_value.splits if_splits)

theorem Decode_without_nested_nulls:
  "\<forall>x \<in> set src. snd x = VNil \<or> null_free (snd x) \<Longrightarrow> \<forall>t \<in> set ts. (case t of Embedded _ _ \<Rightarrow> False | Field _ _ _ \<Rightarrow> True)
     \<Longrightarrow> Decode W src ts dst \<noteq> None"
proof (induction W src ts dst rule: Decode.induct)
  case (3 W src n tag k ts dst)
  have x: "null_free x" if "map_of src (tag_key tag) = Some x" "x \<noteq> VNil" for x
    using 3 map_of_SomeD[OF that(1)] that(2) by fastforce
  show ?case
  proof (cases "map_of src (tag_key tag)")
    case None
    then show ?thesis using 3 by auto
  next
    case (Some x)
    show ?thesis
    proof (cases "x = VNil")
      case True
      then show ?thesis using 3 Some by auto
    next
      case False
      define v where "v = (case map_of dst n of Some v \<Rightarrow> v | None \<Rightarrow> zero_value k)"
      have "decode_value W (tag_key tag) x k v \<noteq> None" by (rule null_free_no_panic(1)[OF x[OF Some False]])
      then show ?thesis using 3 Some False by (cases x) (auto simp: v_def split: option.splits sum.splits)
    qed
  qed
qed auto

subsection \<open>Round trip\<close>

text \<open>What JSON and YAML give for a value: the keys of a struct are those of its tags.\<close>

fun enc :: "kind \<Rightarrow> gval \<Rightarrow> any_value" where
  "enc KInt v = (case v of GInt i \<Rightarrow> VInt i | _ \<Rightarrow> VNil)"
| "enc KString v = (case v of GString s \<Rightarrow> VString s | _ \<Rightarrow> VNil)"
| "enc KBool v = (case v of GBool b \<Rightarrow> VBool b | _ \<Rightarrow> VNil)"
| "enc (KSlice k) v = (case v of GSlice vs \<Rightarrow> VSlice (map (enc k) vs) | _ \<Rightarrow> VNil)"
| "enc (KMap k) v = (case v of GMap (Some m) \<Rightarrow> VMap (map (\<lambda>(n, w). (n, enc k w)) m) | _ \<Rightarrow> VNil)"
| "enc KInterface v = (case v of GInterface x \<Rightarrow> x | _ \<Rightarrow> VNil)"
| "enc (KStruct fs) v =
     (case v of GStruct vs \<Rightarrow> VMap (map (\<lambda>(n, t, k). (field_key n t, case map_of vs n of Some w \<Rightarrow> enc k w | None \<Rightarrow> VNil)) fs) | _ \<Rightarrow> VNil)"
| "enc KOther v = VNil"

text \<open>Without nil maps and nil interfaces, and with distinct keys for the fields.\<close>

fun encodable :: "kind \<Rightarrow> gval \<Rightarrow> bool" where
  "encodable KInt v = (case v of GInt i \<Rightarrow> True | _ \<Rightarrow> False)"
| "encodable KString v = (case v of GString s \<Rightarrow> True | _ \<Rightarrow> False)"
| "encodable KBool v = (case v of GBool b \<Rightarrow> True | _ \<Rightarrow> False)"
| "encodable (KSlice k) v = (case v of GSlice vs \<Rightarrow> \<forall>x \<in> set vs. encodable k x | _ \<Rightarrow> False)"
| "encodable (KMap k) v = (case v of GMap (Some m) \<Rightarrow> distinct (map fst m) \<and> (\<forall>x \<in> set m. encodable k (snd x)) | _ \<Rightarrow> False)"
| "encodable KInterface v = (case v of GInterface x \<Rightarrow> x \<noteq> VNil | _ \<Rightarrow> False)"
| "encodable (KStruct fs) v =
     (case v of
        GStruct vs \<Rightarrow> map fst vs = map fst fs \<and> distinct (map fst fs) \<and> distinct (map (\<lambda>(n, t, k). field_key n t) fs)
          \<and> (\<forall>f \<in> set fs. case f of (n, t, k) \<Rightarrow> (case map_of vs n of Some w \<Rightarrow> encodable k w | None \<Rightarrow> False))
      | _ \<Rightarrow> False)"
| "encodable KOther v = False"

lemma enc_not_nil: "encodable k v \<Longrightarrow> enc k v \<noteq> VNil"
  by (cases k; cases v) (auto split: option.splits)

lemma elems_roundtrip:
  "(\<And>v name. v \<in> set vs \<Longrightarrow> decode_value W name (enc k v) k (zero_value k) = Some (Inr v)) \<Longrightarrow> \<forall>v \<in> set vs. encodable k v
     \<Longrightarrow> decode_elems W name i (map (enc k) vs) k [] = Some (Inr vs)"
  by (induction vs arbitrary: i) (auto simp: enc_not_nil)

lemma update_new: "key \<notin> fst ` set m \<Longrightarrow> AList.update key w m = m @ [(key, w)]"
  by (induction m) auto

lemma entries_roundtrip:
  "(\<And>x name. x \<in> set m \<Longrightarrow> decode_value W name (enc k (snd x)) k (zero_value k) = Some (Inr (snd x))) \<Longrightarrow> \<forall>x \<in> set m. encodable k (snd x)
     \<Longrightarrow> distinct (map fst (es @ m)) \<Longrightarrow> decode_entries W name (map (\<lambda>(n, w). (n, enc k w)) m) k [] es = Some (Inr (es @ m))"
proof (induction m arbitrary: es)
  case (Cons x m)
  obtain n w where x: "x = (n, w)" by (cases x)
  have "decode_entries W name (map (\<lambda>(n, w). (n, enc k w)) m) k [] (es @ [(n, w)]) = Some (Inr ((es @ [(n, w)]) @ m))"
    using Cons.prems by (intro Cons.IH) (simp_all add: x)
  then show ?case using Cons.prems by (simp add: x enc_not_nil update_new Cons.prems(1)[of "(n, w)", simplified])
qed (simp add: joined_def)

lemma find_field:
  "distinct (map (\<lambda>(n, t, k). field_key n t) fs) \<Longrightarrow> (n, t, k) \<in> set fs
     \<Longrightarrow> find_entry (field_key n t) (map (\<lambda>(n, t, k). (field_key n t, g n k)) fs) = Some (g n k)"
proof -
  assume d: "distinct (map (\<lambda>(n, t, k). field_key n t) fs)" and m: "(n, t, k) \<in> set fs"
  have e: "map fst (map (\<lambda>(n, t, k). (field_key n t, g n k)) fs) = map (\<lambda>(n, t, k). field_key n t) fs" by auto
  have "distinct (map fst (map (\<lambda>(n, t, k). (field_key n t, g n k)) fs))" unfolding e by (rule d)
  moreover have "(field_key n t, g n k) \<in> set (map (\<lambda>(n, t, k). (field_key n t, g n k)) fs)" using m by force
  ultimately have "map_of (map (\<lambda>(n, t, k). (field_key n t, g n k)) fs) (field_key n t) = Some (g n k)"
    by (rule map_of_is_SomeI)
  then show ?thesis by (simp add: find_entry_def)
qed

text \<open>Field by field: what is decoded is taken over, the rest stays.\<close>

lemma fields_roundtrip:
  assumes "\<And>n t k name. (n, t, k) \<in> set fs \<Longrightarrow> \<exists>w. map_of vs n = Some w \<and> find_entry (field_key n t) src = Some (enc k w)
      \<and> decode_value W name (enc k w) k (zero_value k) = Some (Inr w)"
    and "distinct (map fst fs)" and "\<forall>f \<in> set fs. case f of (n, t, k) \<Rightarrow> map_of st n = Some (zero_value k)"
  shows "\<exists>st'. decode_fields W name src fs [] st = Some (Inr st') \<and> map fst st' = map fst st
      \<and> (\<forall>n. map_of st' n = (if n \<in> fst ` set fs then map_of vs n else map_of st n))"
  using assms
proof (induction fs arbitrary: st)
  case (Cons f fs)
  obtain n t k where f: "f = (n, t, k)" by (cases f)
  obtain w where w: "map_of vs n = Some w" "find_entry (field_key n t) src = Some (enc k w)"
      "decode_value W (dotted_name name (field_key n t)) (enc k w) k (zero_value k) = Some (Inr w)"
    using Cons.prems(1)[of n t k] by (auto simp: f)
  have z: "map_of st n = Some (zero_value k)" using Cons.prems(3) by (simp add: f)
  let ?st = "AList.update n w st"
  have "\<exists>st'. decode_fields W name src fs [] ?st = Some (Inr st') \<and> map fst st' = map fst ?st
      \<and> (\<forall>m. map_of st' m = (if m \<in> fst ` set fs then map_of vs m else map_of ?st m))"
  proof (rule Cons.IH)
    show "\<forall>f \<in> set fs. case f of (n, t, k) \<Rightarrow> map_of ?st n = Some (zero_value k)"
      using Cons.prems(2,3) by (fastforce simp: f update_conv' image_iff)
  qed (use Cons.prems(1,2) in auto)
  then obtain st' where st: "decode_fields W name src fs [] ?st = Some (Inr st')" "map fst st' = map fst ?st"
      "\<forall>m. map_of st' m = (if m \<in> fst ` set fs then map_of vs m else map_of ?st m)" by blast
  have "map_of st' m = (if m \<in> fst ` set (f # fs) then map_of vs m else map_of st m)" for m
    using st(3) w(1) by (auto simp: f update_conv')
  then show ?case using st(1,2) w z map_of_known[OF z] by (simp add: f keys_update_known)
qed (simp add: joined_def)

lemma same_alist: "map fst xs = map fst ys \<Longrightarrow> distinct (map fst xs) \<Longrightarrow> (\<And>n. n \<in> fst ` set xs \<Longrightarrow> map_of xs n = map_of ys n) \<Longrightarrow> xs = ys"
proof (induction xs arbitrary: ys)
  case (Cons x xs)
  obtain n w where x: "x = (n, w)" by (cases x)
  obtain v ys' where ys: "ys = (n, v) # ys'" "map fst xs = map fst ys'" using Cons.prems(1) by (cases ys) (auto simp: x)
  have "xs = ys'"
  proof (rule Cons.IH[OF ys(2)])
    fix m assume m: "m \<in> fst ` set xs"
    then have "m \<noteq> n" using Cons.prems(2) by (auto simp: x)
    then show "map_of xs m = map_of ys' m" using m Cons.prems(3)[of m] by (simp add: x ys)
  qed (use Cons.prems(2) in simp)
  then show ?case using Cons.prems(3)[of n] by (simp add: x ys)
qed simp

theorem enc_decode: "encodable k v \<Longrightarrow> decode_value W name (enc k v) k (zero_value k) = Some (Inr v)"
proof (induction k v arbitrary: name rule: encodable.induct)
  case (4 k v)
  then obtain vs where v: "v = GSlice vs" "\<forall>x \<in> set vs. encodable k x" by (cases v) auto
  have "decode_elems W name 0 (map (enc k) vs) k [] = Some (Inr vs)"
    using 4 v by (intro elems_roundtrip) auto
  then show ?case by (simp add: v)
next
  case (5 k v)
  then obtain m where v: "v = GMap (Some m)" "distinct (map fst m)" "\<forall>x \<in> set m. encodable k (snd x)"
    by (cases v) (auto split: option.splits)
  have "decode_entries W name (map (\<lambda>(n, w). (n, enc k w)) m) k [] [] = Some (Inr ([] @ m))"
    using 5 v by (intro entries_roundtrip) auto
  then show ?case by (simp add: v)
next
  case (7 fs v)
  then obtain vs where v: "v = GStruct vs" "map fst vs = map fst fs" "distinct (map fst fs)" "distinct (map (\<lambda>(n, t, k). field_key n t) fs)"
      "\<forall>f \<in> set fs. case f of (n, t, k) \<Rightarrow> (case map_of vs n of Some w \<Rightarrow> encodable k w | None \<Rightarrow> False)" by (cases v) auto
  define g where "g n k = (case map_of vs n of Some w \<Rightarrow> enc k w | None \<Rightarrow> VNil)" for n k
  let ?src = "map (\<lambda>(n, t, k). (field_key n t, g n k)) fs" and ?st = "map (\<lambda>(n, t, k). (n, zero_value k)) fs"
  have "\<exists>st'. decode_fields W name ?src fs [] ?st = Some (Inr st') \<and> map fst st' = map fst ?st
      \<and> (\<forall>n. map_of st' n = (if n \<in> fst ` set fs then map_of vs n else map_of ?st n))"
  proof (rule fields_roundtrip[OF _ v(3)])
    show "\<forall>f \<in> set fs. case f of (n, t, k) \<Rightarrow> map_of ?st n = Some (zero_value k)"
      using map_of_zip_fields[OF v(3)] by auto
  next
    fix n t k nm assume m: "(n, t, k) \<in> set fs"
    then obtain w where w: "map_of vs n = Some w" "encodable k w" using v(5) by (fastforce split: option.splits)
    have "find_entry (field_key n t) ?src = Some (g n k)" by (rule find_field[OF v(4) m])
    moreover have "decode_value W nm (enc k w) k (zero_value k) = Some (Inr w)"
      using "7.IH" v(1) m w by fastforce
    ultimately show "\<exists>w. map_of vs n = Some w \<and> find_entry (field_key n t) ?src = Some (enc k w)
        \<and> decode_value W nm (enc k w) k (zero_value k) = Some (Inr w)" using w by (simp add: g_def)
  qed
  then obtain st' where st: "decode_fields W name ?src fs [] ?st = Some (Inr st')" "map fst st' = map fst fs"
      "\<forall>n. map_of st' n = (if n \<in> fst ` set fs then map_of vs n else map_of ?st n)"
    by (auto simp: case_prod_unfold comp_def)
  have "st' = vs"
  proof (rule same_alist)
    fix n assume "n \<in> fst ` set st'"
    then have "n \<in> fst ` set fs" using st(2) by (metis image_set)
    then show "map_of st' n = map_of vs n" using st(3) by simp
  qed (use st v in simp_all)
  then show ?case using st(1) by (simp add: v(1) g_def)
qed (auto simp: scalar_defs split: gval.splits)

theorem enc_decode_witness:
  "decode_value False ''ws-opts'' (VMap [(''path'', VString ''/p''), (''headers'', VMap [(''Host'', VString ''h'')]), (''n'', VInt 3)])
     (KStruct [(''Path'', ''path,omitempty'', KString), (''Headers'', ''headers,omitempty'', KMap KString), (''N'', ''n'', KInt)])
     (zero_value (KStruct [(''Path'', ''path,omitempty'', KString), (''Headers'', ''headers,omitempty'', KMap KString), (''N'', ''n'', KInt)]))
   = Some (Inr (GStruct [(''Path'', GString ''/p''), (''Headers'', GMap (Some [(''Host'', GString ''h'')])), (''N'', GInt 3)]))"
  using enc_decode[of "KStruct [(''Path'', ''path,omitempty'', KString), (''Headers'', ''headers,omitempty'', KMap KString), (''N'', ''n'', KInt)]"
      "GStruct [(''Path'', GString ''/p''), (''Headers'', GMap (Some [(''Host'', GString ''h'')])), (''N'', GInt 3)]" False "''ws-opts''"]
  by (simp add: field_key_def tag_key_def)

end
