(* ===== verification/OutParse.thy ===== *)
theory OutParse
  imports Outbound StructureProps
begin

text \<open>
  What \<open>ParseProxy\<close> makes of a map: a proxy that is made has the kind, the name and the address that the map gives, and nulls for
  the fields of the embedded struct panic the parser.
\<close>

subsection \<open>The decoder, field by field\<close>

fun top_name :: "top_field \<Rightarrow> string" where
  "top_name (Embedded n fs) = n"
| "top_name (Field n t k) = n"

lemma Decode_keeps_other: "Decode W src ts dst = Some (Inr w) \<Longrightarrow> n \<notin> top_name ` set ts \<Longrightarrow> map_of w n = map_of dst n"
  by (induction W src ts dst rule: Decode.induct) (auto simp: update_conv' split: option.splits sum.splits any_value.splits if_splits)

text \<open>A field that is given gets what its entry decodes to.\<close>

lemma Decode_field_value:
  "Decode W src ts dst = Some (Inr w) \<Longrightarrow> distinct (map top_name ts) \<Longrightarrow> Field n tag k \<in> set ts \<Longrightarrow> map_of src (tag_key tag) = Some x \<Longrightarrow> x \<noteq> VNil
     \<Longrightarrow> \<exists>v0 v. decode_value W (tag_key tag) x k v0 = Some (Inr v) \<and> map_of w n = Some v"
proof (induction W src ts dst rule: Decode.induct)
  case (2 W src n' fs ts dst)
  then show ?case by (auto split: option.splits sum.splits)
next
  case (3 W src n' tag' k' ts dst)
  show ?case
  proof (cases "Field n tag k = Field n' tag' k'")
    case True
    let ?v0 = "case map_of dst n of Some v \<Rightarrow> v | None \<Rightarrow> zero_value k"
    obtain v where v: "decode_value W (tag_key tag) x k ?v0 = Some (Inr v)" "Decode W src ts (AList.update n v dst) = Some (Inr w)"
      using 3 True by (cases x) (auto split: option.splits sum.splits)
    have "n \<notin> top_name ` set ts" using 3 True by auto
    then show ?thesis using Decode_keeps_other [OF v(2)] v(1) by (auto simp: update_conv')
  next
    case False
    then have m: "Field n tag k \<in> set ts" using 3 by auto
    have d: "distinct (map top_name ts)" using 3 by simp
    show ?thesis
    proof (cases "map_of src (tag_key tag')")
      case None
      then show ?thesis using "3.IH"(1) [OF None _ _ d m "3.prems"(4,5)] "3.prems"(1) by (simp split: if_splits)
    next
      case (Some y)
      show ?thesis
      proof (cases "y = VNil")
        case True
        then show ?thesis using "3.IH"(2) [OF Some True _ _ d m "3.prems"(4,5)] "3.prems"(1) Some by (simp split: if_splits)
      next
        case False
        let ?v0 = "case map_of dst n' of Some v \<Rightarrow> v | None \<Rightarrow> zero_value k'"
        obtain v where "decode_value W (tag_key tag') y k' ?v0 = Some (Inr v)" "Decode W src ts (AList.update n' v dst) = Some (Inr w)"
          using "3.prems"(1) Some False by (cases y) (auto split: option.splits sum.splits)
        then show ?thesis using "3.IH" Some False d m "3.prems"(4,5) by (cases y) auto
      qed
    qed
  qed
qed simp

subsection \<open>What \<open>ParseProxy\<close> makes\<close>

text \<open>The parts of the options that all proxies have.\<close>

definition named :: "(string \<times> any_value) list \<Rightarrow> (string \<times> gval) list \<Rightarrow> bool" where
  "named m fs \<longleftrightarrow>
     (\<forall>n. map_of m ''name'' = Some (VString n) \<longrightarrow> g_str fs ''Name'' = n) \<and>
     (\<forall>s. map_of m ''server'' = Some (VString s) \<longrightarrow> g_str fs ''Server'' = s) \<and>
     (\<forall>p. map_of m ''port'' = Some (VInt p) \<longrightarrow> g_int fs ''Port'' = p) \<and>
     (\<forall>k \<in> {''name'', ''server'', ''port''}. \<exists>x. map_of m k = Some x \<and> x \<noteq> VNil)"

lemma decoded_named:
  assumes "Decode True m (common_schema @ ts) dst = Some (Inr fs)" and "distinct (map top_name (common_schema @ ts))"
  shows "named m fs"
proof -
  have f: "Field ''Name'' ''name'' KString \<in> set (common_schema @ ts)" "Field ''Server'' ''server'' KString \<in> set (common_schema @ ts)"
      "Field ''Port'' ''port'' KInt \<in> set (common_schema @ ts)" by (simp_all add: common_schema_def)
  have k: "tag_key ''name'' = ''name''" "tag_key ''server'' = ''server''" "tag_key ''port'' = ''port''" by (simp_all add: tag_key_def)
  have o: "\<not> omitempty ''name''" "\<not> omitempty ''server''" "\<not> omitempty ''port''" by (simp_all add: omitempty_def)
  note v = Decode_field_value [OF assms f(1), unfolded k] Decode_field_value [OF assms f(2), unfolded k] Decode_field_value [OF assms f(3), unfolded k]
  note r = Decode_gives_required [OF assms(1) f(1) o(1), unfolded k] Decode_gives_required [OF assms(1) f(2) o(2), unfolded k]
    Decode_gives_required [OF assms(1) f(3) o(3), unfolded k]
  show ?thesis unfolding named_def using v r by (fastforce simp: g_str_def g_int_def decodeString_def decodeInt_def)
qed

definition kind_of :: "string \<Rightarrow> adapter_kind option" where
  "kind_of t = map_of [(''ss'', KShadowsocks), (''ssr'', KShadowsocksR), (''socks5'', KSocks5), (''http'', KHttp), (''vless'', KVless), (''vmess'', KVmess),
     (''snell'', KSnell), (''trojan'', KTrojan)] t"

lemma option_basics:
  "op_Name (read_ss_option fs) = g_str fs ''Name''" "op_Server (read_ss_option fs) = g_str fs ''Server''" "op_Port (read_ss_option fs) = g_int fs ''Port''"
  "op_Name (read_ssr_option fs) = g_str fs ''Name''" "op_Server (read_ssr_option fs) = g_str fs ''Server''" "op_Port (read_ssr_option fs) = g_int fs ''Port''"
  "op_Name (read_socks_option fs) = g_str fs ''Name''" "op_Server (read_socks_option fs) = g_str fs ''Server''" "op_Port (read_socks_option fs) = g_int fs ''Port''"
  "op_Name (read_http_option fs) = g_str fs ''Name''" "op_Server (read_http_option fs) = g_str fs ''Server''" "op_Port (read_http_option fs) = g_int fs ''Port''"
  "op_Name (read_vmess_option fs) = g_str fs ''Name''" "op_Server (read_vmess_option fs) = g_str fs ''Server''" "op_Port (read_vmess_option fs) = g_int fs ''Port''"
  "op_Name (read_snell_option fs) = g_str fs ''Name''" "op_Server (read_snell_option fs) = g_str fs ''Server''" "op_Port (read_snell_option fs) = g_int fs ''Port''"
  "op_Name (read_trojan_option fs) = g_str fs ''Name''" "op_Server (read_trojan_option fs) = g_str fs ''Server''" "op_Port (read_trojan_option fs) = g_int fs ''Port''"
  by (simp_all add: read_ss_option_def read_ssr_option_def read_socks_option_def read_http_option_def read_vmess_option_def read_snell_option_def read_trojan_option_def
      ss_option.defs ssr_option.defs socks_option.defs http_option.defs vmess_option.defs snell_option.defs trojan_option.defs basic_option.defs read_basic_option_def)

lemma distinct_schemas:
  "distinct (map top_name ss_schema)" "distinct (map top_name ssr_schema)" "distinct (map top_name socks_schema)" "distinct (map top_name http_schema)"
  "distinct (map top_name vmess_schema)" "distinct (map top_name snell_schema)" "distinct (map top_name trojan_schema)"
  by (simp_all add: ss_schema_def ssr_schema_def socks_schema_def http_schema_def vmess_schema_def snell_schema_def trojan_schema_def common_schema_def)

text \<open>The name and the address of a proxy.\<close>

definition called :: "base_proxy \<Rightarrow> adapter_kind \<Rightarrow> (string \<times> gval) list \<Rightarrow> bool" where
  "called b tp fs \<longleftrightarrow> bp_tp b = tp \<and> bp_name b = g_str fs ''Name'' \<and> bp_addr b = JoinHostPort (g_str fs ''Server'') (int_dec (g_int fs ''Port''))"

lemma constructors_called:
  "NewShadowSocks V (read_ss_option fs) = Some (Inr p1) \<Longrightarrow> called (ss_Base p1) KShadowsocks fs"
  "NewShadowSocksR V (read_ssr_option fs) r = Some (Inr p2, r') \<Longrightarrow> called (sr_Base p2) KShadowsocksR fs"
  "called (sk_Base (NewSocks5 (read_socks_option fs))) KSocks5 fs"
  "called (hp_Base (NewHttp (read_http_option fs))) KHttp fs"
  "newVmess V (read_vmess_option fs) v = Some (Inr p3) \<Longrightarrow> called (vp_Base p3) (if v then KVless else KVmess) fs"
  "NewSnell (read_snell_option fs) = Some (Inr p4) \<Longrightarrow> called (sn_Base p4) KSnell fs"
  "called (tp_Base (NewTrojan V (read_trojan_option fs))) KTrojan fs"
  by (auto simp: called_def new_base_def server_addr_def option_basics NewShadowSocks_def NewShadowSocksR_def NewSocks5_def NewHttp_def newVmess_def
      NewSnell_def NewTrojan_def Let_def split: option.splits sum.splits if_splits prod.splits)

lemma with_options_named:
  assumes "with_options m (common_schema @ ts) dst f = Some (Inr a)" and "distinct (map top_name (common_schema @ ts))"
  shows "\<exists>fs. named m fs \<and> f fs = Some (Inr a)"
  using assms decoded_named [of m ts dst] by (auto simp: with_options_def split: option.splits sum.splits)

lemma made_by:
  assumes "map_option (map_sum id C) x = Some (Inr a)"
  shows "\<exists>p. x = Some (Inr p) \<and> a = C p"
  using assms by (auto split: sum.splits) (case_tac z; simp)

lemma parsed_named:
  assumes "with_options m schema dst f = Some (Inr a)" and "schema = common_schema @ ts" and "distinct (map top_name schema)"
    and "\<And>fs. f fs = Some (Inr a) \<Longrightarrow> called (adapter_base a) tp fs"
  shows "\<exists>fs. named m fs \<and> called (adapter_base a) tp fs"
  using with_options_named [of m ts dst f a] assms by auto

lemma parsed_called:
  assumes "ParseProxy V r m = Some (Inr a)" and "map_of m ''type'' = Some (VString t)"
  shows "\<exists>fs tp. named m fs \<and> called (adapter_base a) tp fs \<and> kind_of t = Some tp"
proof -
  note k = ParseProxy_def kind_of_def assms(2)
  consider "t = ''ss''" | "t = ''ssr''" | "t = ''socks5''" | "t = ''http''" | "t = ''vless''" | "t = ''vmess''" | "t = ''snell''" | "t = ''trojan''"
    using assms by (auto simp: ParseProxy_def split: if_splits)
  then show ?thesis
  proof cases
    case 1
    have "\<exists>fs. named m fs \<and> called (adapter_base a) KShadowsocks fs"
      using assms(1) 1 by (intro parsed_named [OF _ ss_schema_def distinct_schemas(1)]) (auto simp: k dest!: made_by dest: constructors_called(1))
    then show ?thesis using 1 by (auto simp: kind_of_def)
  next
    case 2
    have "called (adapter_base a) KShadowsocksR fs"
      if "map_option (\<lambda>(x, r'). map_sum id SsrAdapter x) (NewShadowSocksR V (read_ssr_option fs) r) = Some (Inr a)" for fs
      using that by (auto split: prod.splits) (case_tac aa; auto dest: constructors_called(2))
    then have "\<exists>fs. named m fs \<and> called (adapter_base a) KShadowsocksR fs"
      using assms(1) 2 by (intro parsed_named [OF _ ssr_schema_def distinct_schemas(2)]) (auto simp: k)
    then show ?thesis using 2 by (auto simp: kind_of_def)
  next
    case 3
    have "\<exists>fs. named m fs \<and> called (adapter_base a) KSocks5 fs"
      using assms(1) 3 by (intro parsed_named [OF _ socks_schema_def distinct_schemas(3)]) (auto simp: k constructors_called(3))
    then show ?thesis using 3 by (auto simp: kind_of_def)
  next
    case 4
    have "\<exists>fs. named m fs \<and> called (adapter_base a) KHttp fs"
      using assms(1) 4 by (intro parsed_named [OF _ http_schema_def distinct_schemas(4)]) (auto simp: k constructors_called(4))
    then show ?thesis using 4 by (auto simp: kind_of_def)
  next
    case 5
    have "\<exists>fs. named m fs \<and> called (adapter_base a) KVless fs"
      using assms(1) 5 by (intro parsed_named [OF _ vmess_schema_def distinct_schemas(5)])
        (auto simp: k NewVless_def dest!: made_by dest: constructors_called(5))
    then show ?thesis using 5 by (auto simp: kind_of_def)
  next
    case 6
    have "\<exists>fs. named m fs \<and> called (adapter_base a) KVmess fs"
      using assms(1) 6 by (intro parsed_named [OF _ vmess_schema_def distinct_schemas(5)])
        (auto simp: k NewVmess_def dest!: made_by dest: constructors_called(5))
    then show ?thesis using 6 by (auto simp: kind_of_def)
  next
    case 7
    have "\<exists>fs. named m fs \<and> called (adapter_base a) KSnell fs"
      using assms(1) 7 by (intro parsed_named [OF _ snell_schema_def distinct_schemas(6)]) (auto simp: k dest!: made_by dest: constructors_called(6))
    then show ?thesis using 7 by (auto simp: kind_of_def)
  next
    case 8
    have "\<exists>fs. named m fs \<and> called (adapter_base a) KTrojan fs"
      using assms(1) 8 by (intro parsed_named [OF _ trojan_schema_def distinct_schemas(7)]) (auto simp: k constructors_called(7))
    then show ?thesis using 8 by (auto simp: kind_of_def)
  qed
qed

text \<open>
  Whatever options a configuration gives, a proxy that is made has the kind, the name and the address of it; no other field of the
  map can change them.
\<close>

theorem parsed_proxy_is_named:
  assumes "ParseProxy V r m = Some (Inr a)" and "map_of m ''type'' = Some (VString t)" and "map_of m ''name'' = Some (VString n)"
    and "map_of m ''server'' = Some (VString s)" and "map_of m ''port'' = Some (VInt p)"
  shows "kind_of t = Some (bp_tp (adapter_base a)) \<and> bp_name (adapter_base a) = n \<and> bp_addr (adapter_base a) = JoinHostPort s (int_dec p)"
  using parsed_called [OF assms(1,2)] assms(3-5) by (auto simp: named_def called_def)

text \<open>
  A null for the name of the interface or for the mark, which may be left out, panics the parser: the embedded struct is filled
  by the function for nested ones.
\<close>

theorem null_interface_panics:
  assumes "map_of m ''type'' = Some (VString t)" and "kind_of t \<noteq> None" and "find_entry ''interface-name'' m = Some VNil"
  shows "ParseProxy V r m = None"
proof -
  have k: "field_key ''Interface'' ''interface-name,omitempty'' = ''interface-name''" by (simp add: field_key_def tag_key_def)
  have d: "decode_fields True nm m basic_fields [] vs = None" for nm vs
    by (rule nested_null_panics [of "''Interface''" "''interface-name,omitempty''" KString]) (simp_all add: basic_fields_def k assms(3) panics_on_null_def)
  have "Decode True m (common_schema @ ts) dst = None" for ts dst by (simp add: common_schema_def d)
  then have "with_options m (common_schema @ ts) dst f = None" for ts dst and f :: "(string \<times> gval) list \<Rightarrow> (proxy_error + 'a adapter) option"
    by (simp add: with_options_def)
  then show ?thesis using assms(1,2)
    by (auto simp: ParseProxy_def kind_of_def ss_schema_def ssr_schema_def socks_schema_def http_schema_def vmess_schema_def snell_schema_def trojan_schema_def split: if_splits)
qed

end
