(* ===== verification/OutPackets.thy ===== *)
theory OutPackets
  imports SocksProps Metadata
begin

text \<open>
  The packets of the proxies: \<open>WriteTo\<close> and \<open>ReadFrom\<close> of the packet connections in \<open>src/pkg/clash/adapter/outbound/\<close> and of
  the protocols of ShadowsocksR (\<open>src/pkg/clash/transport/ssr/protocol/packet.go\<close>), and the loop that reads them for the tunnel
  (\<open>ReadPacket\<close> in \<open>src/internal/conn/udp.go\<close>). A read fills the beginning of a buffer whose old bytes stay behind it.
\<close>

subsection \<open>Buffers\<close>

definition received :: "u8 list \<Rightarrow> u8 list \<Rightarrow> nat \<times> u8 list" where
  "received b pkt = (let n = min (length pkt) (length b) in (n, take n pkt @ drop n b))"

text \<open>\<open>copy(b, src)\<close>.\<close>

definition copy_into :: "u8 list \<Rightarrow> u8 list \<Rightarrow> u8 list" where
  "copy_into b src = take (length b) (src @ drop (length src) b)"

lemma copy_into_length [simp]: "length (copy_into b src) = length b"
  by (simp add: copy_into_def)

subsection \<open>Shadowsocks and SOCKS 5 (shadowsocks.go, socks5.go)\<close>

datatype out_packet_error = PkEncode udp_error | PkDecode udp_error | PkAddr | PkMismatch | PkEOF

text \<open>What is handed to the connection below, for the server.\<close>

definition ssPacketConn_WriteTo :: "protobytes \<Rightarrow> u8 list \<Rightarrow> net_addr \<Rightarrow> out_packet_error + u8 list" where
  "ssPacketConn_WriteTo B b addr =
     (case EncodeUDPPacket B (ParseAddrToSocksAddr B addr) b of Inl e \<Rightarrow> Inl (PkEncode e) | Inr packet \<Rightarrow> Inr (drop 3 packet))"

definition socksPacketConn_WriteTo :: "protobytes \<Rightarrow> u8 list \<Rightarrow> net_addr \<Rightarrow> out_packet_error + u8 list" where
  "socksPacketConn_WriteTo B b addr =
     (case EncodeUDPPacket B (ParseAddrToSocksAddr B addr) b of Inl e \<Rightarrow> Inl (PkEncode e) | Inr packet \<Rightarrow> Inr packet)"

type_synonym packet_read = "((out_packet_error + int \<times> go_ip \<times> nat) \<times> u8 list) option"

text \<open>The address is split off what was received; \<open>None\<close> is a panic.\<close>

definition ssPacketConn_ReadFrom :: "u8 list \<Rightarrow> u8 list \<Rightarrow> packet_read" where
  "ssPacketConn_ReadFrom b0 pkt =
     (case received b0 pkt of (n, b) \<Rightarrow>
        (case SplitAddr (take n b) of
           None \<Rightarrow> Some (Inl PkAddr, b)
         | Some addr \<Rightarrow>
             (case Socks_UDPAddr addr of
                None \<Rightarrow> None
              | Some None \<Rightarrow> Some (Inl PkAddr, b)
              | Some (Some udpAddr) \<Rightarrow> Some (Inr (int n - int (length addr), udpAddr), copy_into b (drop (length addr) b)))))"

text \<open>Here the whole buffer is decoded, not what was received.\<close>

definition socksPacketConn_ReadFrom :: "protobytes \<Rightarrow> u8 list \<Rightarrow> u8 list \<Rightarrow> packet_read" where
  "socksPacketConn_ReadFrom B b0 pkt =
     (case received b0 pkt of (n, b) \<Rightarrow>
        (case DecodeUDPPacket B b of
           (addr, payload, Some e) \<Rightarrow> Some (Inl (PkDecode e), b)
         | (addr, payload, None) \<Rightarrow>
             (case Socks_UDPAddr (the addr) of
                None \<Rightarrow> None
              | Some None \<Rightarrow> Some (Inl PkAddr, b)
              | Some (Some udpAddr) \<Rightarrow> Some (Inr (int n - int (length (the addr)) - 3, udpAddr), copy_into b payload))))"

subsection \<open>VMess, Reject and the protocols of ShadowsocksR\<close>

text \<open>\<open>IP.Equal\<close>: an IPv4 address is equal to its form of sixteen bytes.\<close>

definition IP_Equal :: "go_ip \<Rightarrow> go_ip \<Rightarrow> bool" where
  "IP_Equal x y \<longleftrightarrow> x = y \<or> To16 x = To16 y \<and> To16 x \<noteq> []"

definition vmessPacketConn_WriteTo :: "(go_ip \<times> nat) option \<Rightarrow> u8 list \<Rightarrow> go_ip \<times> nat \<Rightarrow> (out_packet_error + u8 list) option" where
  "vmessPacketConn_WriteTo rAddr b dest =
     (case rAddr of
        None \<Rightarrow> None
      | Some (ip, port) \<Rightarrow> Some (if IP_Equal ip (fst dest) \<and> port = snd dest then Inr b else Inl PkMismatch))"

definition vmessPacketConn_ReadFrom :: "(go_ip \<times> nat) option \<Rightarrow> 'e + u8 list \<Rightarrow> ('e + u8 list) \<times> (go_ip \<times> nat) option" where
  "vmessPacketConn_ReadFrom rAddr r = (r, rAddr)"

definition nopPacketConn_WriteTo :: "u8 list \<Rightarrow> nat \<times> out_packet_error option" where
  "nopPacketConn_WriteTo b = (length b, Some PkEOF)"

definition nopPacketConn_ReadFrom :: "nat \<times> (go_ip \<times> nat) option \<times> out_packet_error option" where
  "nopPacketConn_ReadFrom = (0, None, Some PkEOF)"

definition nopConn_Read :: "nat \<times> out_packet_error option" where
  "nopConn_Read = (0, Some PkEOF)"

definition nopConn_Write :: "nat \<times> out_packet_error option" where
  "nopConn_Write = (0, Some PkEOF)"

text \<open>The count of a write is that of the caller, whatever the connection below returns; a read copies what was decoded.\<close>

definition SsrPacket_WriteTo :: "(u8 list \<Rightarrow> 'e + u8 list) \<Rightarrow> (u8 list \<Rightarrow> 'e option) \<Rightarrow> u8 list \<Rightarrow> nat \<times> 'e option" where
  "SsrPacket_WriteTo EncodePacket write b = (case EncodePacket b of Inl e \<Rightarrow> (0, Some e) | Inr buf \<Rightarrow> (length b, write buf))"

definition SsrPacket_ReadFrom :: "(u8 list \<Rightarrow> 'e + u8 list) \<Rightarrow> u8 list \<Rightarrow> u8 list \<Rightarrow> (nat \<times> 'e option) \<times> u8 list" where
  "SsrPacket_ReadFrom DecodePacket b0 pkt =
     (case received b0 pkt of (n, b) \<Rightarrow>
        (case DecodePacket (take n b) of
           Inl e \<Rightarrow> ((n, Some e), b)
         | Inr decoded \<Rightarrow> ((length decoded, None), copy_into b decoded)))"

subsection \<open>\<open>ReadPacket\<close> (internal/conn/udp.go)\<close>

text \<open>
  How a read of the packet connection ends: with a count and the buffer, with an error that is ignored (a timeout, a closed
  connection), or with another one. \<open>bw\<close> is the write to the buffer of the caller, of a library. The loop has no end of its
  own: with reads that all bring a packet it waits.
\<close>

datatype read_outcome = ReadBytes int "u8 list" | ReadIgnored "(go_ip \<times> nat) option" | ReadFailed

datatype packet_outcome = Waiting "u8 list" | PacketFrom "(go_ip \<times> nat) option" "u8 list" | PacketFailed | PacketPanic

fun ReadPacket :: "(u8 list \<Rightarrow> u8 list \<Rightarrow> u8 list option) \<Rightarrow> read_outcome list \<Rightarrow> u8 list \<Rightarrow> packet_outcome" where
  "ReadPacket bw [] content = Waiting content"
| "ReadPacket bw (ReadIgnored addr # rs) content = PacketFrom addr content"
| "ReadPacket bw (ReadFailed # rs) content = PacketFailed"
| "ReadPacket bw (ReadBytes n b # rs) content =
     (if n < 0 \<or> int (length b) < n then PacketPanic
      else case bw content (take (nat n) b) of None \<Rightarrow> PacketFailed | Some content' \<Rightarrow> ReadPacket bw rs content')"

subsection \<open>What holds\<close>

text \<open>What a client sends to an address, a server finds, and the answer of the server comes back with its address.\<close>

lemma received_fits: "length pkt \<le> length b \<Longrightarrow> received b pkt = (length pkt, pkt @ drop (length pkt) b)"
  by (simp add: received_def Let_def)

lemma received_cut: "received b0 pkt = (n, b) \<Longrightarrow> length b = length b0 \<and> n \<le> length pkt"
  by (auto simp: received_def Let_def)

lemma copy_prefix: "take (length p) (copy_into (a @ p @ r) (p @ r)) = p"
  by (simp add: copy_into_def min_def)

lemma wf_addr_udp: "ip_addr a = Some u \<Longrightarrow> wf_addr a \<and> Socks_UDPAddr a = Some (Some u)"
  by (auto simp: ip_addr_def split: option.splits if_splits)

theorem ss_packet_read:
  assumes "ip_addr a = Some u" and "length (a @ p) \<le> length b"
  shows "\<exists>b'. ssPacketConn_ReadFrom b (a @ p) = Some (Inr (int (length p), u), b') \<and> length b' = length b \<and> take (length p) b' = p"
proof -
  let ?b = "a @ p @ drop (length (a @ p)) b"
  have w: "wf_addr a" "Socks_UDPAddr a = Some (Some u)" using wf_addr_udp[OF assms(1)] by simp_all
  have "ssPacketConn_ReadFrom b (a @ p) = Some (Inr (int (length p), u), copy_into ?b (drop (length a) ?b))"
    using received_fits[OF assms(2)] w SplitAddr_append[OF w(1), of p] by (simp add: ssPacketConn_ReadFrom_def)
  moreover have "length ?b = length b" using assms(2) by simp
  moreover have "take (length p) (copy_into ?b (drop (length a) ?b)) = p" using copy_prefix[of p a] by simp
  ultimately show ?thesis by (metis copy_into_length)
qed

lemma demo_udp_addr: "ip_addr [1, 10, 0, 0, 1, 0, 53] = Some ([10, 0, 0, 1], 53)"
  by (simp add: ip_addr_def Socks_UDPAddr_def udp_ip_def wf_addr_def SplitAddr_def AtypV4_def AtypDomain_def of_be16_def)

theorem ss_packet_read_witness:
  "\<exists>b'. ssPacketConn_ReadFrom (replicate 20 9) ([1, 10, 0, 0, 1, 0, 53] @ [7, 8]) = Some (Inr (int (length [7, 8 :: u8]), [10, 0, 0, 1], 53), b')
     \<and> length b' = length (replicate 20 (9 :: u8)) \<and> take (length [7, 8 :: u8]) b' = [7, 8]"
  by (rule ss_packet_read[OF demo_udp_addr]) simp

text \<open>A packet of SOCKS 5 that arrives whole is read in the same way.\<close>

theorem socks_packet_read:
  assumes "pb_ok B" and "ip_addr a = Some u" and "EncodeUDPPacket B (Some a) p = Inr pkt" and "length pkt \<le> length b"
  shows "\<exists>b'. socksPacketConn_ReadFrom B b pkt = Some (Inr (int (length p), u), b') \<and> length b' = length b \<and> take (length p) b' = p"
proof -
  have w: "wf_addr a" "Socks_UDPAddr a = Some (Some u)" using wf_addr_udp[OF assms(2)] by simp_all
  have pkt: "pkt = [0, 0, 0] @ a @ p" using assms(3) by (simp add: EncodeUDPPacket_def pb_simps[OF assms(1)])
  let ?r = "p @ drop (length pkt) b"
  have enc: "EncodeUDPPacket B (Some a) ?r = Inr (pkt @ drop (length pkt) b)"
    by (simp add: EncodeUDPPacket_def pb_simps[OF assms(1)] pkt)
  then have dec: "DecodeUDPPacket B (pkt @ drop (length pkt) b) = (Some a, ?r, None)"
    using udp_packet_roundtrip[OF assms(1)] w(1) by blast
  have "socksPacketConn_ReadFrom B b pkt = Some (Inr (int (length p), u), copy_into (pkt @ drop (length pkt) b) ?r)"
    using received_fits[OF assms(4)] dec w by (simp add: socksPacketConn_ReadFrom_def pkt)
  moreover have "take (length p) (copy_into (pkt @ drop (length pkt) b) ?r) = p"
    using copy_prefix[of p "[0, 0, 0] @ a" "drop (length pkt) b"] by (simp add: pkt)
  moreover have "length (pkt @ drop (length pkt) b) = length b" using assms(4) by simp
  ultimately show ?thesis by (metis copy_into_length)
qed

theorem socks_packet_read_witness:
  "\<exists>b'. socksPacketConn_ReadFrom demo_pb (replicate 20 9) [0, 0, 0, 1, 10, 0, 0, 1, 0, 53, 7, 8] =
       Some (Inr (int (length [7, 8 :: u8]), [10, 0, 0, 1], 53), b')
     \<and> length b' = length (replicate 20 (9 :: u8)) \<and> take (length [7, 8 :: u8]) b' = [7, 8]"
  by (rule socks_packet_read[OF demo_pb_ok demo_udp_addr]) (simp_all add: EncodeUDPPacket_def demo_pb_def)

text \<open>
  But the buffer is decoded beyond what was received. When its old bytes are a packet, any shorter datagram, the empty one too,
  is read as a packet of a negative size, and the loop of the tunnel panics on it.
\<close>

theorem socks_short_datagram_panics:
  assumes "pb_ok B" and "ip_addr a = Some u" and "EncodeUDPPacket B (Some a) p = Inr b" and "pkt = take (length pkt) b"
    and "length pkt < length a + 3"
  shows "\<exists>n b'. socksPacketConn_ReadFrom B b pkt = Some (Inr (n, u), b') \<and> n < 0 \<and> ReadPacket bw (ReadBytes n b' # rs) c = PacketPanic"
proof -
  have w: "wf_addr a" "Socks_UDPAddr a = Some (Some u)" using wf_addr_udp[OF assms(2)] by simp_all
  have len: "length pkt \<le> length b" using assms(4) by (metis length_take min.cobounded1)
  have "pkt @ drop (length pkt) b = b" using assms(4) by (metis append_take_drop_id)
  then have r: "received b pkt = (length pkt, b)" using received_fits[OF len] by simp
  have dec: "DecodeUDPPacket B b = (Some a, p, None)" using udp_packet_roundtrip[OF assms(1)] w(1) assms(3) by blast
  have "socksPacketConn_ReadFrom B b pkt = Some (Inr (int (length pkt) - int (length a) - 3, u), copy_into b p)"
    using r dec w by (simp add: socksPacketConn_ReadFrom_def)
  moreover have "int (length pkt) - int (length a) - 3 < 0" using assms(5) by simp
  ultimately show ?thesis by (metis ReadPacket.simps(4))
qed

theorem socks_short_datagram_panics_witness:
  "\<exists>n b'. socksPacketConn_ReadFrom demo_pb [0, 0, 0, 1, 10, 0, 0, 1, 0, 53, 7] [] = Some (Inr (n, [10, 0, 0, 1], 53), b') \<and> n < 0
     \<and> ReadPacket (\<lambda>x y. Some (x @ y)) (ReadBytes n b' # []) [] = PacketPanic"
  by (rule socks_short_datagram_panics[OF demo_pb_ok demo_udp_addr, of "[7]"]) (simp_all add: EncodeUDPPacket_def demo_pb_def)

text \<open>
  The loop never returns after a packet: it takes all packets up to the first error that is ignored, puts them into one, and
  returns the address of that error.
\<close>

theorem packets_are_merged:
  assumes "\<forall>(n, b) \<in> set ps. n \<le> length b"
  shows "ReadPacket (\<lambda>x y. Some (x @ y)) (map (\<lambda>(n, b). ReadBytes (int n) b) ps) c = Waiting (c @ concat (map (\<lambda>(n, b). take n b) ps))"
    and "ReadPacket (\<lambda>x y. Some (x @ y)) (map (\<lambda>(n, b). ReadBytes (int n) b) ps @ ReadIgnored addr # rs) c =
      PacketFrom addr (c @ concat (map (\<lambda>(n, b). take n b) ps))"
  using assms by (induction ps arbitrary: c) auto

theorem packets_are_merged_witness:
  "ReadPacket (\<lambda>x y. Some (x @ y)) (map (\<lambda>(n, b). ReadBytes (int n) b) [(1, [5, 6]), (2, [7, 8])] @ ReadIgnored None # []) [] = PacketFrom None [5, 7, 8]"
  using packets_are_merged(2)[of "[(1, [5, 6]), (2, [7, 8])]" None "[]" "[]"] by simp

text \<open>A packet of VMess goes out exactly when its address is that of the connection.\<close>

theorem vmess_packets_fixed:
  "vmessPacketConn_WriteTo (Some (ip, port)) b (ip', port') = Some (Inr b) \<longleftrightarrow> IP_Equal ip ip' \<and> port = port'"
  by (simp add: vmessPacketConn_WriteTo_def)

lemma ipv4_equal_mapped: "length ip = 4 \<Longrightarrow> IP_Equal ip (To16 ip)"
  by (simp add: IP_Equal_def To16_def v4in6_prefix_def)

end
