(* ===== verification/Spec2Isabelle.thy ===== *)
theory Spec2Isabelle
  imports ConnProps DnsProps ClashDnsProps SocksProps Socks4 ConfigProps LifeProps StatProps TunnelProps GroupRuns StreamProps VmessPeer Trojan SnellProps ObfsProps Mux Gun DialerProps SsrChainProps SsrObfsProps OutProps OutParse OutPackets
begin

text \<open>
  Verification development of itun2socks, a transparent proxy client in Go. The program takes the connections of a
  machine, from a tun device or as a system proxy, decides by a list of rules whether each one goes past a proxy, through
  one, or nowhere, and carries it. All paths are those of the repository; \<open>pkg/clash\<close> is the repository's own, reduced copy
  of the Clash proxy.

  How the parts work together: a start (\<open>internal/manager\<close>, \<open>internal/executor\<close>) builds a configuration from the file of the
  user (\<open>internal/configuration\<close>), opens the devices and listeners and starts the tunnel. A query for a name goes to
  \<open>Handle\<close> of \<open>internal/dns\<close>, which chooses a resolver by the rule of the name and remembers the rule for the addresses of
  the answer, or hands out an address of the fake-ip pool. A connection is given metadata and a rule by \<open>internal/tunnel\<close>,
  \<open>internal/conn\<close> and the matchers of \<open>internal/cfg/distribution\<close>; the policy of the rule names a proxy, a group of
  \<open>pkg/clash/adapter\<close> chooses a member, the member dials (\<open>component/dialer\<close>) and speaks its protocol
  (\<open>transport\<close>). The tunnel copies bytes and counts them (\<open>internal/tunnel/statistic\<close>).

  The theories, in the order of their use:

  \<^item> Shared. \<open>Prelude\<close> has strings, lists and results; \<open>GoNet\<close> and \<open>HostPort\<close> what is used of \<open>net\<close> and \<open>net/netip\<close>;
    \<open>ErrState\<close> functions that return an error and change a state; \<open>NetIO\<close> connections as byte lists; \<open>Framing\<close> the
    reading and writing of records, with the locales \<open>record_layer\<close> (a frame is taken off again and the state of the
    reader goes on with that of the writer) and \<open>layered_reader\<close> (a reader with a buffer over such a layer).
  \<^item> Caches and tries. \<open>LruCache\<close>, \<open>LruRuns\<close> (\<open>common/cache/lrucache.go\<close>: a map, a linked list and entries, refined to a list
    of entries; it gives the locale \<open>kv_cache\<close>), \<open>DomainTrie\<close> (\<open>component/trie\<close>), \<open>FakeIp\<close>, \<open>FakeIpRuns\<close> (\<open>component/fakeip\<close>,
    refined to a bounded list of assignments).
  \<^item> Rules. \<open>RuleEngine\<close>, \<open>RuleProps\<close>, \<open>RuleRecent\<close> (\<open>internal/cfg/distribution/rule_engine\<close>; the cached engine rests on the
    locales \<open>rule_cache\<close>, an extension of \<open>kv_cache\<close>, and \<open>sized_rule_cache\<close>, which holds the keys added last), \<open>Metadata\<close>, \<open>ConnMatch\<close>, \<open>ConnProps\<close> (\<open>pkg/clash/constant/metadata.go\<close>,
    \<open>internal/conn\<close>, \<open>internal/matcher\<close>, \<open>internal/tunnel/metadata.go\<close>).
  \<^item> DNS. \<open>DnsMsg\<close>, \<open>DnsHandle\<close>, \<open>DnsProps\<close> (\<open>internal/dns\<close>), \<open>ClashDns\<close>, \<open>ClashDnsProps\<close> (\<open>pkg/clash/dns\<close> and the name
    servers of \<open>pkg/clash/config\<close>).
  \<^item> Listening. \<open>SocksAddr\<close>, \<open>Socks5\<close>, \<open>SocksProps\<close>, \<open>Socks4\<close> (\<open>transport/socks5\<close>, \<open>socks4\<close>, \<open>component/auth\<close>).
  \<^item> The run of the program. \<open>Configuration\<close>, \<open>ConfigProps\<close> (\<open>internal/configuration\<close>), \<open>Lifecycle\<close>, \<open>LifeProps\<close>
    (\<open>internal/manager\<close>, \<open>executor\<close>, \<open>local_server\<close>, \<open>cfg\<close>, \<open>pkg/network_iface\<close>), \<open>Statistic\<close>, \<open>StatProps\<close>
    (\<open>internal/tunnel/statistic\<close>; the locale \<open>evict_cache\<close>), \<open>Tunnel\<close>, \<open>TunnelProps\<close> (the goroutines of \<open>internal/tunnel\<close>, as
    step relations).
  \<^item> Groups. \<open>Hashing\<close> (\<open>common/murmur3\<close>, \<open>jumpHash\<close>), \<open>Singledo\<close> (\<open>common/singledo\<close>, \<open>queue\<close>), \<open>ProxyGroups\<close>,
    \<open>GroupProps\<close>, \<open>GroupRuns\<close> (\<open>pkg/clash/adapter\<close> with \<open>provider\<close> and \<open>outboundgroup\<close>; the locale \<open>proxy_choice\<close>).
  \<^item> Dialling and options. \<open>NameLookup\<close> (\<open>component/resolver\<close>, \<open>component/iface\<close>), \<open>Dialer\<close>, \<open>DialerProps\<close>
    (\<open>component/dialer\<close>, the race of the two address families as a step relation), \<open>Structure\<close>, \<open>StructureProps\<close> (the decoder
    of \<open>common/structure\<close> that fills the options of a proxy).
  \<^item> Proxies. \<open>Base64\<close>, \<open>Outbound\<close>, \<open>OutParse\<close> (the options and constructors of \<open>pkg/clash/adapter/outbound\<close> and \<open>ParseProxy\<close> of
    \<open>adapter/parser.go\<close>), \<open>OutDial\<close>, \<open>OutProps\<close> (dialling through each proxy, as steps on the set of open connections, with the
    layers that are put on), \<open>OutPackets\<close> (the packets of the proxies and the loop that reads them, \<open>internal/conn/udp.go\<close>).
  \<^item> Transports. \<open>ShadowAead\<close>, \<open>AeadProps\<close>, \<open>ShadowStream\<close>, \<open>StreamProps\<close> (\<open>transport/shadowsocks\<close>), \<open>Vmess\<close>, \<open>VmessProps\<close>,
    \<open>VmessPeer\<close> (\<open>transport/vmess\<close>), \<open>Trojan\<close>, \<open>Snell\<close>, \<open>SnellProps\<close> (with \<open>component/pool\<close>), \<open>SimpleObfs\<close>, \<open>ObfsProps\<close>, \<open>Mux\<close>
    (\<open>v2ray-plugin\<close>), \<open>Gun\<close>, and of \<open>transport/ssr\<close>: \<open>SsrConn\<close> (with the locale \<open>stream_protocol\<close>), \<open>SsrAuth\<close>,
    \<open>SsrAuthProps\<close>, \<open>SsrChain\<close>, \<open>SsrChainProps\<close>, \<open>SsrObfs\<close>, \<open>SsrObfsProps\<close>.

  \<^bold>\<open>From code to definitions.\<close> A struct is a record with the names of its fields behind a prefix; a function or method has its
  own name, with the name of its type before it where two agree. What several goroutines or objects share is a store that is
  passed on: the arena of the linked list, the store of proxies and providers, the resources of a start, the statistics.
  A returned error is \<open>Inl\<close>, a panic or an endless loop is \<open>None\<close>. Integers have the width of the code where it matters
  (nonces, packet numbers, lengths, counters, hash values), with words; elsewhere they are \<open>nat\<close> or \<open>int\<close> within the
  bounds that the theory names. A connection is a record of the bytes to come, the bytes written and the number
  of writes that still succeed; the sizes of the pieces in which bytes arrive are a parameter of the reads.

  \<^bold>\<open>The contracts\<close> and where they are interpreted on the code: \<open>kv_cache\<close>, \<open>rule_cache\<close> and \<open>sized_rule_cache\<close> on the LRU cache
  (\<open>lru_kv\<close>, \<open>clash_rules\<close>, \<open>clash_sized\<close>), \<open>evict_cache\<close> on the same cache with an eviction callback (\<open>clash_table\<close>), \<open>proxy_choice\<close> on the
  strategies (\<open>fallback_choice\<close>, \<open>round_robin\<close>, \<open>consistent_hashing\<close>), \<open>record_layer\<close> and \<open>layered_reader\<close> on the encrypted
  streams (\<open>aead_layer\<close>, \<open>aead_reader\<close>, \<open>vmess_chunks\<close>, \<open>vmess_chunk_reader\<close>, \<open>vmess_seals\<close>, \<open>vmess_sealed_reader\<close>,
  \<open>gun_messages\<close>, \<open>gun_reader\<close>), \<open>stream_protocol\<close> on the protocols and disguises of ShadowsocksR (\<open>sha1\<close>, \<open>aes128\<close>,
  \<open>chain\<close>, \<open>ticket\<close>). The rule engine and the table of connections use the LRU cache of hashicorp, a parameter with
  the laws of the contract; that the contract can be met is what the repository's own cache shows.

  \<^bold>\<open>What the lemmas show\<close>, by group: invariants and refinements of the data structures over all sequences of calls; the meaning
  of each kind of rule, its precedence and the round trip of its line; that DNS answers and connections follow the
  same rule, and when the fallback servers decide; that clients and servers of SOCKS, and a VMess client and a
  server of the format, understand each other; that every transport delivers what was written, in order, however it is
  cut; that a failed edit leaves the file alone unless the write itself broke, and what a failed start and a stop
  give back (all but a started stack); that counters agree with the connections; that the goroutines of a connection and of a
  dial end in every interleaving and how often each connection is closed; that groups never panic and fail over; that the decoder of options keeps types and panics only on nulls; that a proxy has the
  name and address of its options, and that a failed dial through
  it leaves nothing open, packets of Snell and its pool aside. Where the code does not keep a promise a theorem states what it does instead: among them overlapping edits, long names,
  short packets, split handshakes, lost errors, leaked starts and connections, and the UDP packets that are never served.

  \<^bold>\<open>Parameters.\<close> Code outside the repository is an argument: ciphers, hashes and key derivation (with the laws that opening
  undoes sealing and that results have their sizes), \<open>protobytes\<close>, \<open>miekg/dns\<close>, regular expressions, \<open>samber/lo\<close>, HTTP and
  TLS, the operating system, random numbers and the time. Each law stands as a hypothesis of the theorems that use it, and
  the witnesses instantiate it.

  \<^bold>\<open>Bounds.\<close> Loops that may not end are partial functions: \<open>get_loop\<close> of the pool, \<open>jump_loop\<close>, \<open>Kdf_loop\<close>, \<open>nextID_loop\<close>,
  \<open>read_fully\<close>, \<open>wait_interface\<close> and the recursion of \<open>Tracker_Close\<close> through the eviction callback, each with a theorem
  on when it ends. Bounds on recursion stand in two places: the parser of IPv6 text has sixteen
  bytes to fill and so at most eight rounds, and \<open>WriteTo\<close> of the encrypted stream is bounded by the bytes to come
  (\<open>aead_write_to_returns\<close>). Interleavings are step relations without a bound.

  \<^bold>\<open>Not modelled\<close>: the HTTP interface (handlers that call one modelled operation each), listeners that only
  accept, code for other systems than Linux, the carriers that are calls of HTTP, HTTP/2, TLS and WebSocket libraries, the logs, and the parts of
  \<open>pkg/clash\<close> that the program does not reach (its own tunnel, rules, DNS server and transparent listeners). Groups
  inside groups and the concurrency of buffers and observers are left out as well; shared memory inside one call is modelled as
  sequential, except where a theory says otherwise.
\<close>

end
